(* ===== verification/Prelude.thy ===== *)
theory Prelude
  imports Main "HOL-Library.AList" "HOL-Library.Word"
begin

text \<open>
  The vocabulary the components share: Python's exceptions as values, the
  exception monad on the sum type, dictionaries as association lists in
  insertion order, and loops that thread a state and may raise.
\<close>

section \<open>Collections of facts\<close>

named_theorems dict_simps \<open>lookup, key set and distinctness of the dictionary operations\<close>
named_theorems frame_rules \<open>what an operation leaves unchanged\<close>

section \<open>Exceptions as values\<close>

text \<open>
  One constructor per exception class the sources raise or catch. An
  \<open>OSError\<close> carries its \<open>errno\<close>; \<open>PermissionError\<close> and
  \<open>FileNotFoundError\<close> are \<open>OSError\<close>s with the errno of that class.
  \<open>OutOfFuel\<close> is no Python exception: it marks a loop that is still running when
  the fuel of its definition is used up, and no handler catches it.
\<close>

datatype py_exn =
    OSError int
  | ValueErr
  | TypeErr
  | KeyErr
  | IndexErr
  | AttributeErr
  | OverflowErr
  | StructErr
  | RuntimeErr
  | DiscoveryErr string
  | ConnectionReset
  | OutOfFuel

type_synonym 'a res = "py_exn + 'a"

definition ENOENT :: int where "ENOENT = 2"
definition EPERM :: int where "EPERM = 1"
definition EACCES :: int where "EACCES = 13"

definition rbind :: "'a res \<Rightarrow> ('a \<Rightarrow> 'b res) \<Rightarrow> 'b res" where
  "rbind m f = (case m of Inl e \<Rightarrow> Inl e | Inr x \<Rightarrow> f x)"

lemma rbind_simps [simp]:
  "rbind (Inl e) f = Inl e"
  "rbind (Inr x) f = f x"
  by (simp_all add: rbind_def)

lemma rbind_assoc: "rbind (rbind m f) g = rbind m (\<lambda>x. rbind (f x) g)"
  by (cases m) simp_all

lemma rbind_Inr_conv: "rbind m f = Inr y \<longleftrightarrow> (\<exists>x. m = Inr x \<and> f x = Inr y)"
  by (cases m) simp_all

lemma rbind_Inl_conv:
  "rbind m f = Inl e \<longleftrightarrow> m = Inl e \<or> (\<exists>x. m = Inr x \<and> f x = Inl e)"
  by (cases m) auto

lemma rbind_cong [fundef_cong]:
  "m = m' \<Longrightarrow> (\<And>x. m' = Inr x \<Longrightarrow> f x = g x) \<Longrightarrow> rbind m f = rbind m' g"
  by (cases m') simp_all

text \<open>A list comprehension whose element expression may raise.\<close>

fun rmap :: "('a \<Rightarrow> 'b res) \<Rightarrow> 'a list \<Rightarrow> 'b list res" where
  "rmap f [] = Inr []"
| "rmap f (x # xs) = rbind (f x) (\<lambda>y. rbind (rmap f xs) (\<lambda>ys. Inr (y # ys)))"

lemma rmap_Inr_iff: "rmap f xs = Inr ys \<longleftrightarrow> list_all2 (\<lambda>x y. f x = Inr y) xs ys"
  by (induction xs arbitrary: ys) (auto simp: rbind_Inr_conv list_all2_Cons1)

lemma rmap_length: "rmap f xs = Inr ys \<Longrightarrow> length ys = length xs"
  by (auto simp: rmap_Inr_iff dest: list_all2_lengthD)

lemma rmap_set: "rmap f xs = Inr ys \<Longrightarrow> y \<in> set ys \<Longrightarrow> \<exists>x \<in> set xs. f x = Inr y"
  by (auto simp: rmap_Inr_iff list_all2_conv_all_nth in_set_conv_nth) (metis nth_mem)

text \<open>A \<open>for\<close> loop whose body returns the next state or raises.\<close>

fun rfold :: "('a \<Rightarrow> 's \<Rightarrow> 's res) \<Rightarrow> 'a list \<Rightarrow> 's \<Rightarrow> 's res" where
  "rfold f [] s = Inr s"
| "rfold f (x # xs) s = rbind (f x s) (rfold f xs)"

lemma rfold_invariant:
  assumes "rfold f xs s = Inr t" and "P s"
    and "\<And>x s s'. x \<in> set xs \<Longrightarrow> P s \<Longrightarrow> f x s = Inr s' \<Longrightarrow> P s'"
  shows "P t"
  using assms by (induction xs arbitrary: s) (auto simp: rbind_Inr_conv)

lemma rfold_append: "rfold f (xs @ ys) = (\<lambda>s. rbind (rfold f xs s) (rfold f ys))"
proof (induction xs)
  case (Cons x xs)
  show ?case by (rule ext) (simp add: Cons.IH rbind_assoc)
qed simp

section \<open>Dictionaries\<close>

text \<open>
  A Python \<open>dict\<close> keeps its keys in insertion order and a later assignment to
  a present key keeps the key's place: an association list with distinct keys,
  updated by \<^const>\<open>AList.update\<close>. Two dictionaries are equal in Python when
  they agree as maps.
\<close>

type_synonym ('k, 'v) dict = "('k \<times> 'v) list"

definition dict_ok :: "('k, 'v) dict \<Rightarrow> bool" where
  "dict_ok d \<longleftrightarrow> distinct (map fst d)"

definition dict_keys :: "('k, 'v) dict \<Rightarrow> 'k set" where
  "dict_keys d = fst ` set d"

definition dict_eq :: "('k, 'v) dict \<Rightarrow> ('k, 'v) dict \<Rightarrow> bool" where
  "dict_eq d e \<longleftrightarrow>
     list_all (\<lambda>(k, v). map_of e k = Some v) d \<and> list_all (\<lambda>(k, v). map_of d k = Some v) e"

abbreviation dict_get :: "('k, 'v) dict \<Rightarrow> 'k \<Rightarrow> 'v option" where
  "dict_get d k \<equiv> map_of d k"

definition dict_get_or :: "('k, 'v) dict \<Rightarrow> 'k \<Rightarrow> 'v \<Rightarrow> 'v" where
  "dict_get_or d k v = (case map_of d k of None \<Rightarrow> v | Some w \<Rightarrow> w)"

definition dict_set :: "'k \<Rightarrow> 'v \<Rightarrow> ('k, 'v) dict \<Rightarrow> ('k, 'v) dict" where
  "dict_set k v d = AList.update k v d"

definition dict_pop :: "'k \<Rightarrow> ('k, 'v) dict \<Rightarrow> ('k, 'v) dict" where
  "dict_pop k d = AList.delete k d"

definition dict_setdefault :: "'k \<Rightarrow> 'v \<Rightarrow> ('k, 'v) dict \<Rightarrow> ('k, 'v) dict" where
  "dict_setdefault k v d = (if map_of d k = None then dict_set k v d else d)"

definition dict_update :: "('k, 'v) dict \<Rightarrow> ('k, 'v) dict \<Rightarrow> ('k, 'v) dict" where
  "dict_update d e = fold (\<lambda>(k, v). dict_set k v) e d"

lemma dict_keys_dom [dict_simps]: "dict_keys d = dom (map_of d)"
  by (simp add: dict_keys_def dom_map_of_conv_image_fst)

lemma finite_dict_keys [simp]: "finite (dict_keys d)"
  by (simp add: dict_keys_def)

lemma dict_ok_Nil [simp]: "dict_ok []"
  by (simp add: dict_ok_def)

lemma map_of_dict_set [dict_simps]: "map_of (dict_set k v d) = (map_of d)(k \<mapsto> v)"
  by (simp add: dict_set_def update_conv')

lemma map_of_dict_pop [dict_simps]: "map_of (dict_pop k d) = (map_of d)(k := None)"
  by (simp add: dict_pop_def delete_conv')

lemma dict_ok_set [simp]: "dict_ok d \<Longrightarrow> dict_ok (dict_set k v d)"
  by (simp add: dict_ok_def dict_set_def distinct_update)

lemma dict_ok_pop [simp]: "dict_ok d \<Longrightarrow> dict_ok (dict_pop k d)"
  by (simp add: dict_ok_def dict_pop_def distinct_delete)

lemma dict_ok_setdefault [simp]: "dict_ok d \<Longrightarrow> dict_ok (dict_setdefault k v d)"
  by (simp add: dict_setdefault_def)

lemma map_of_dict_setdefault [dict_simps]:
  "map_of (dict_setdefault k v d) =
     (if map_of d k = None then (map_of d)(k \<mapsto> v) else map_of d)"
  by (simp add: dict_setdefault_def dict_simps)

lemma dict_update_simps [simp]:
  "dict_update d [] = d"
  "dict_update d ((k, v) # e) = dict_update (dict_set k v d) e"
  by (simp_all add: dict_update_def)

lemma dict_ok_update [simp]: "dict_ok d \<Longrightarrow> dict_ok (dict_update d e)"
  by (induction e arbitrary: d) auto

lemma map_of_dict_update:
  "dict_ok e \<Longrightarrow> map_of (dict_update d e) = map_of d ++ map_of e"
proof (induction e arbitrary: d)
  case Nil
  then show ?case by simp
next
  case (Cons kv e)
  obtain k v where kv: "kv = (k, v)" by (cases kv)
  from Cons.prems kv have k: "map_of e k = None" and e: "dict_ok e"
    by (auto simp: dict_ok_def map_of_eq_None_iff)
  from k have "map_of (dict_set k v d) ++ map_of e = map_of d ++ map_of ((k, v) # e)"
    by (auto simp: map_of_dict_set map_add_def fun_eq_iff split: option.splits)
  with Cons.IH [OF e, of "dict_set k v d"] kv show ?case
    by (simp only: dict_update_simps)
qed

lemma dict_update_append:
  "dict_ok (d @ e) \<Longrightarrow> dict_update d e = d @ e"
proof (induction e arbitrary: d)
  case (Cons kv e)
  obtain k v where kv: "kv = (k, v)" by (cases kv)
  have "k \<notin> fst ` set d" using Cons.prems kv by (auto simp: dict_ok_def)
  then have "dict_set k v d = d @ [(k, v)]"
    unfolding dict_set_def by (induction d) auto
  with Cons kv show ?case by simp
qed simp

lemma dict_eq_iff: "dict_ok d \<Longrightarrow> dict_ok e \<Longrightarrow> dict_eq d e \<longleftrightarrow> map_of d = map_of e"
proof
  assume ok: "dict_ok d" "dict_ok e" and eq: "dict_eq d e"
  have "map_of d k = map_of e k" for k
  proof (cases "map_of d k")
    case None
    show ?thesis
    proof (cases "map_of e k")
      case (Some v)
      then have "(k, v) \<in> set e" by (rule map_of_SomeD)
      with eq None show ?thesis by (auto simp: dict_eq_def list_all_iff)
    qed (use None in simp)
  next
    case (Some v)
    then have "(k, v) \<in> set d" by (rule map_of_SomeD)
    with eq Some show ?thesis by (auto simp: dict_eq_def list_all_iff)
  qed
  then show "map_of d = map_of e" by blast
next
  assume ok: "dict_ok d" "dict_ok e" and eq: "map_of d = map_of e"
  have d: "\<And>k v. (k, v) \<in> set d \<Longrightarrow> map_of d k = Some v"
    and e: "\<And>k v. (k, v) \<in> set e \<Longrightarrow> map_of e k = Some v"
    using ok by (auto simp: dict_ok_def)
  with eq show "dict_eq d e"
    by (auto simp: dict_eq_def list_all_iff)
qed

text \<open>Filtering a dictionary by a predicate on its items.\<close>

lemma dict_ok_filter [simp]: "dict_ok d \<Longrightarrow> dict_ok (filter P d)"
  by (simp add: dict_ok_def distinct_map_filter)

lemma map_of_filter_dict:
  "dict_ok d \<Longrightarrow>
     map_of (filter (\<lambda>(k, v). P k v) d) k =
       (case map_of d k of None \<Rightarrow> None | Some v \<Rightarrow> if P k v then Some v else None)"
proof (induction d)
  case (Cons kv d)
  then show ?case
    by (cases kv) (auto simp: dict_ok_def map_of_eq_None_iff split: option.splits)
qed simp

lemma dict_ok_map_key:
  "distinct ks \<Longrightarrow> dict_ok (map (\<lambda>k. (k, f k)) ks)"
  by (simp add: dict_ok_def comp_def)

lemma map_of_map_key:
  "map_of (map (\<lambda>k. (k, f k)) ks) k = (if k \<in> set ks then Some (f k) else None)"
  by (induction ks) auto

section \<open>Iterating over sets\<close>

text \<open>
  Python does not fix the order in which a \<open>set\<close> is iterated. The order is a
  parameter of the definitions that iterate one, a function from the set to the
  list of its elements; the contract is that it lists each element once.
\<close>

locale set_iteration =
  fixes it :: "'a set \<Rightarrow> 'a list"
  assumes it_set: "finite A \<Longrightarrow> set (it A) = A"
    and it_distinct: "finite A \<Longrightarrow> distinct (it A)"
begin

lemma it_empty: "it {} = []"
  using it_set [of "{}"] by simp

lemma it_dict_ok: "finite A \<Longrightarrow> dict_ok (map (\<lambda>k. (k, f k)) (it A))"
  by (simp add: dict_ok_map_key it_distinct)

lemma it_dict_get:
  "finite A \<Longrightarrow> map_of (map (\<lambda>k. (k, f k)) (it A)) k = (if k \<in> A then Some (f k) else None)"
  by (simp add: map_of_map_key it_set)

end

interpretation sorted_iteration: set_iteration "sorted_list_of_set :: 'a::linorder set \<Rightarrow> 'a list"
  by unfold_locales auto

end
