(* ===== verification/PyMonad.thy ===== *)
theory PyMonad
  imports Prelude
begin

text \<open>
  Stateful code. A Python statement or method is a function from the state to a
  result and the next state; an exception keeps the state it was raised in, as
  in Python, where assignments made before a \<open>raise\<close> stay made. The second half
  is the proof library: which part of the state a statement keeps, which
  invariant it preserves, and what its result and a view of its final state
  depend on.
\<close>

type_synonym ('s, 'a) pym = "'s \<Rightarrow> 'a res \<times> 's"

named_theorems keeps_rules \<open>a view of the state is left alone\<close>
named_theorems pres_rules \<open>an invariant is preserved\<close>

section \<open>Statements\<close>

definition ret :: "'a \<Rightarrow> ('s, 'a) pym" where
  "ret x s = (Inr x, s)"

definition raise_exn :: "py_exn \<Rightarrow> ('s, 'a) pym" where
  "raise_exn e s = (Inl e, s)"

definition mlift :: "'a res \<Rightarrow> ('s, 'a) pym" where
  "mlift r s = (r, s)"

definition gets :: "('s \<Rightarrow> 'a) \<Rightarrow> ('s, 'a) pym" where
  "gets f s = (Inr (f s), s)"

definition modify :: "('s \<Rightarrow> 's) \<Rightarrow> ('s, unit) pym" where
  "modify f s = (Inr (), f s)"

definition mbind :: "('s, 'a) pym \<Rightarrow> ('a \<Rightarrow> ('s, 'b) pym) \<Rightarrow> ('s, 'b) pym" where
  "mbind m f s = (case m s of (Inl e, t) \<Rightarrow> (Inl e, t) | (Inr x, t) \<Rightarrow> f x t)"

definition mseq :: "('s, 'a) pym \<Rightarrow> ('s, 'b) pym \<Rightarrow> ('s, 'b) pym" where
  "mseq m n = mbind m (\<lambda>_. n)"

fun mfor :: "'x list \<Rightarrow> ('x \<Rightarrow> ('s, 'a) pym) \<Rightarrow> ('s, unit) pym" where
  "mfor [] f = ret ()"
| "mfor (x # xs) f = mseq (f x) (mfor xs f)"

fun mseqs :: "('s, unit) pym list \<Rightarrow> ('s, unit) pym" where
  "mseqs [] = ret ()"
| "mseqs (m # ms) = mseq m (mseqs ms)"

definition mwhen :: "bool \<Rightarrow> ('s, unit) pym \<Rightarrow> ('s, unit) pym" where
  "mwhen b m = (if b then m else ret ())"

text \<open>
  \<open>try: m / except E: h\<close>, where \<open>h e\<close> is \<open>None\<close> for an exception that no clause
  catches.
\<close>

definition mtry :: "('s, 'a) pym \<Rightarrow> (py_exn \<Rightarrow> ('s, 'a) pym option) \<Rightarrow> ('s, 'a) pym" where
  "mtry m h s = (case m s of
       (Inl e, t) \<Rightarrow> (case h e of None \<Rightarrow> (Inl e, t) | Some k \<Rightarrow> k t)
     | (Inr x, t) \<Rightarrow> (Inr x, t))"

text \<open>\<open>except OSError as exc: h(exc.errno)\<close>\<close>

fun on_oserror :: "(int \<Rightarrow> ('s, 'a) pym) \<Rightarrow> py_exn \<Rightarrow> ('s, 'a) pym option" where
  "on_oserror h (OSError n) = Some (h n)"
| "on_oserror h _ = None"

text \<open>\<open>try: m / finally: f\<close>, for an \<open>f\<close> that only assigns.\<close>

definition mfinally :: "('s, 'a) pym \<Rightarrow> ('s \<Rightarrow> 's) \<Rightarrow> ('s, 'a) pym" where
  "mfinally m f s = (case m s of (r, t) \<Rightarrow> (r, f t))"

text \<open>A statement on one part of the state.\<close>

definition mzoom :: "('s \<Rightarrow> 'p) \<Rightarrow> ('p \<Rightarrow> 's \<Rightarrow> 's) \<Rightarrow> ('p, 'a) pym \<Rightarrow> ('s, 'a) pym" where
  "mzoom get_part put_part m s =
     (case m (get_part s) of (r, p) \<Rightarrow> (r, put_part p s))"

lemma ret_apply: "ret x s = (Inr x, s)" by (simp add: ret_def)
lemma raise_apply: "raise_exn e s = (Inl e, s)" by (simp add: raise_exn_def)
lemma mlift_apply: "mlift r s = (r, s)" by (simp add: mlift_def)

lemma return_sel [simp]:
  "fst (ret x s) = Inr x" "snd (ret x s) = s"
  "fst (raise_exn e s) = Inl e" "snd (raise_exn e s) = s"
  "fst (mlift r s) = r" "snd (mlift r s) = s"
  by (simp_all add: ret_apply raise_apply mlift_apply)

lemma return_eq [simp]:
  "ret x s = (r, t) \<longleftrightarrow> Inr x = r \<and> s = t"
  "raise_exn e s = (r, t) \<longleftrightarrow> Inl e = r \<and> s = t"
  "mlift q s = (r, t) \<longleftrightarrow> q = r \<and> s = t"
  by (auto simp: ret_apply raise_apply mlift_apply)

lemma return_case [simp]:
  "(case ret x s of (r, t) \<Rightarrow> F r t) = F (Inr x) s"
  "(case raise_exn e s of (r, t) \<Rightarrow> F r t) = F (Inl e) s"
  "(case mlift q s of (r, t) \<Rightarrow> F r t) = F q s"
  by (simp_all add: ret_apply raise_apply mlift_apply)

lemma gets_apply [simp]: "gets f s = (Inr (f s), s)" by (simp add: gets_def)
lemma modify_apply [simp]: "modify f s = (Inr (), f s)" by (simp add: modify_def)

lemma mbind_Inr_iff:
  "mbind m f s = (Inr y, u) \<longleftrightarrow> (\<exists>x t. m s = (Inr x, t) \<and> f x t = (Inr y, u))"
  by (auto simp: mbind_def split: prod.splits sum.splits)

lemma mseq_Inr_iff:
  "mseq m n s = (Inr y, u) \<longleftrightarrow> (\<exists>x t. m s = (Inr x, t) \<and> n t = (Inr y, u))"
  by (simp add: mseq_def mbind_Inr_iff)

lemma mbind_simps [simp]:
  "mbind (ret x) f = f x"
  "mbind (raise_exn e) f = raise_exn e"
  "mbind (mlift (Inr x)) f = f x"
  "mbind (mlift (Inl e)) f = raise_exn e"
  by (auto simp: mbind_def fun_eq_iff ret_apply raise_apply mlift_apply)

lemma mtry_simps [simp]:
  "mtry (ret x) h = ret x"
  "mtry (mlift (Inr x)) h = ret x"
  by (auto simp: mtry_def fun_eq_iff ret_apply mlift_apply)

lemma mbind_run: "m s = (Inr x, t) \<Longrightarrow> mbind m f s = f x t"
  by (simp add: mbind_def)

lemma mseq_run: "m s = (Inr x, t) \<Longrightarrow> mseq m n s = n t"
  by (simp add: mseq_def mbind_def)

lemma mbind_gets [simp]: "mbind (gets f) g s = g (f s) s"
  by (simp add: mbind_def)

lemma mbind_modify [simp]: "mbind (modify f) g s = g () (f s)"
  by (simp add: mbind_def)

lemma mseq_modify [simp]: "mseq (modify f) n s = n (f s)"
  by (simp add: mseq_def)

lemma mseq_ret [simp]: "mseq (ret x) n = n"
  by (simp add: mseq_def)

lemma mbind_assoc: "mbind (mbind m f) g = mbind m (\<lambda>x. mbind (f x) g)"
  by (auto simp: mbind_def fun_eq_iff split: prod.splits sum.splits)

lemma mseq_assoc: "mseq (mseq m n) k = mseq m (mseq n k)"
  by (simp add: mseq_def mbind_assoc)

lemma mfor_append: "mfor (xs @ ys) f = mseq (mfor xs f) (mfor ys f)"
  by (induction xs) (simp_all add: mseq_assoc)

section \<open>What a statement keeps\<close>

definition keeps :: "('s \<Rightarrow> 'v) \<Rightarrow> ('s, 'a) pym \<Rightarrow> bool" where
  "keeps V m \<longleftrightarrow> (\<forall>s. V (snd (m s)) = V s)"

definition pres :: "('s \<Rightarrow> bool) \<Rightarrow> ('s, 'a) pym \<Rightarrow> bool" where
  "pres P m \<longleftrightarrow> (\<forall>s. P s \<longrightarrow> P (snd (m s)))"

lemma keepsD: "keeps V m \<Longrightarrow> V (snd (m s)) = V s"
  by (simp add: keeps_def)

lemma presD: "pres P m \<Longrightarrow> P s \<Longrightarrow> P (snd (m s))"
  by (simp add: pres_def)

lemma keeps_pres: "keeps V m \<Longrightarrow> pres (\<lambda>s. P (V s)) m"
  by (simp add: keeps_def pres_def)

lemma keeps_eq_pres: "keeps V m \<longleftrightarrow> (\<forall>v. pres (\<lambda>s. V s = v) m)"
  by (auto simp: keeps_def pres_def)

lemma pres_ret [pres_rules]: "pres P (ret x)" by (simp add: pres_def)
lemma pres_raise [pres_rules]: "pres P (raise_exn e)" by (simp add: pres_def)
lemma pres_mlift [pres_rules]: "pres P (mlift r)" by (simp add: pres_def)
lemma pres_gets [pres_rules]: "pres P (gets f)" by (simp add: pres_def)

lemma pres_modify: "(\<And>s. P s \<Longrightarrow> P (f s)) \<Longrightarrow> pres P (modify f)"
  by (simp add: pres_def)

lemma pres_bind [pres_rules]:
  assumes "pres P m" and "\<And>x. pres P (f x)"
  shows "pres P (mbind m f)"
proof -
  have "P (snd (mbind m f s))" if "P s" for s
    using presD [OF assms(1) that] presD [OF assms(2)]
    by (auto simp: mbind_def split: prod.splits sum.splits)
  then show ?thesis by (simp add: pres_def)
qed

lemma pres_lift_bind: "(\<And>x. r = Inr x \<Longrightarrow> pres P (f x)) \<Longrightarrow> pres P (mbind (mlift r) f)"
  by (cases r) (simp_all add: pres_raise)

lemma pres_seq [pres_rules]: "pres P m \<Longrightarrow> pres P n \<Longrightarrow> pres P (mseq m n)"
  by (simp add: mseq_def pres_bind)

lemma pres_for: "(\<And>x. x \<in> set xs \<Longrightarrow> pres P (f x)) \<Longrightarrow> pres P (mfor xs f)"
  by (induction xs) (simp_all add: pres_ret pres_seq)

lemma pres_for_all [pres_rules]: "(\<And>x. pres P (f x)) \<Longrightarrow> pres P (mfor xs f)"
  by (rule pres_for)

lemma pres_seqs [pres_rules]: "(\<And>m. m \<in> set ms \<Longrightarrow> pres P m) \<Longrightarrow> pres P (mseqs ms)"
  by (induction ms) (simp_all add: pres_ret pres_seq)

lemma pres_when [pres_rules]: "pres P m \<Longrightarrow> pres P (mwhen b m)"
  by (simp add: mwhen_def pres_ret)

lemma pres_if [pres_rules]: "(b \<Longrightarrow> pres P m) \<Longrightarrow> (\<not> b \<Longrightarrow> pres P n) \<Longrightarrow> pres P (if b then m else n)"
  by simp

lemma pres_option [pres_rules]:
  "pres P m \<Longrightarrow> (\<And>x. pres P (f x)) \<Longrightarrow> pres P (case v of None \<Rightarrow> m | Some x \<Rightarrow> f x)"
  by (cases v) simp_all

lemma pres_prod [pres_rules]: "(\<And>x y. pres P (f x y)) \<Longrightarrow> pres P (case v of (x, y) \<Rightarrow> f x y)"
  by (cases v) simp

lemma pres_try [pres_rules]:
  assumes "pres P m" and "\<And>n. pres P (h n)"
  shows "pres P (mtry m (on_oserror h))"
proof -
  have "P (snd (mtry m (on_oserror h) s))" if "P s" for s
  proof (cases "m s")
    case (Pair r t)
    with presD [OF assms(1) that] have t: "P t" by simp
    show ?thesis
    proof (cases r)
      case (Inl e)
      with Pair t assms(2) show ?thesis by (cases e) (auto simp: mtry_def pres_def)
    qed (use Pair t in \<open>simp add: mtry_def\<close>)
  qed
  then show ?thesis by (simp add: pres_def)
qed

lemma keeps_ret [keeps_rules]: "keeps V (ret x)" by (simp add: keeps_def)
lemma keeps_raise [keeps_rules]: "keeps V (raise_exn e)" by (simp add: keeps_def)
lemma keeps_mlift [keeps_rules]: "keeps V (mlift r)" by (simp add: keeps_def)
lemma keeps_gets [keeps_rules]: "keeps V (gets f)" by (simp add: keeps_def)

lemma keeps_modify: "(\<And>s. V (f s) = V s) \<Longrightarrow> keeps V (modify f)"
  by (simp add: keeps_def)

lemma keeps_bind [keeps_rules]: "keeps V m \<Longrightarrow> (\<And>x. keeps V (f x)) \<Longrightarrow> keeps V (mbind m f)"
  by (simp add: keeps_eq_pres pres_bind)

lemma keeps_seq [keeps_rules]: "keeps V m \<Longrightarrow> keeps V n \<Longrightarrow> keeps V (mseq m n)"
  by (simp add: keeps_eq_pres pres_seq)

lemma keeps_for [keeps_rules]: "(\<And>x. keeps V (f x)) \<Longrightarrow> keeps V (mfor xs f)"
  by (simp add: keeps_eq_pres pres_for)

lemma keeps_seqs [keeps_rules]: "(\<And>m. m \<in> set ms \<Longrightarrow> keeps V m) \<Longrightarrow> keeps V (mseqs ms)"
  by (simp add: keeps_eq_pres pres_seqs)

lemma keeps_when [keeps_rules]: "keeps V m \<Longrightarrow> keeps V (mwhen b m)"
  by (simp add: mwhen_def keeps_ret)

lemma keeps_if [keeps_rules]: "(b \<Longrightarrow> keeps V m) \<Longrightarrow> (\<not> b \<Longrightarrow> keeps V n) \<Longrightarrow> keeps V (if b then m else n)"
  by simp

lemma keeps_option [keeps_rules]:
  "keeps V m \<Longrightarrow> (\<And>x. keeps V (f x)) \<Longrightarrow> keeps V (case v of None \<Rightarrow> m | Some x \<Rightarrow> f x)"
  by (cases v) simp_all

lemma keeps_prod [keeps_rules]: "(\<And>x y. keeps V (f x y)) \<Longrightarrow> keeps V (case v of (x, y) \<Rightarrow> f x y)"
  by (cases v) simp

lemma keeps_try [keeps_rules]:
  "keeps V m \<Longrightarrow> (\<And>n. keeps V (h n)) \<Longrightarrow> keeps V (mtry m (on_oserror h))"
  by (simp add: keeps_eq_pres pres_try)

section \<open>What a statement depends on\<close>

text \<open>
  \<open>settles V W m\<close>: two runs from states that agree on \<open>V\<close> have the same result
  and end in states that agree on \<open>W\<close>, unless they raise.
\<close>

definition settles :: "('s \<Rightarrow> 'v) \<Rightarrow> ('s \<Rightarrow> 'w) \<Rightarrow> ('s, 'a) pym \<Rightarrow> bool" where
  "settles V W m \<longleftrightarrow> (\<forall>s t. V s = V t \<longrightarrow> fst (m s) = fst (m t) \<and>
     (\<forall>x. fst (m s) = Inr x \<longrightarrow> W (snd (m s)) = W (snd (m t))))"

lemma settlesD:
  assumes "settles V W m" and "V s = V t"
  shows "fst (m s) = fst (m t)" and "fst (m s) = Inr x \<Longrightarrow> W (snd (m s)) = W (snd (m t))"
  using assms unfolding settles_def by blast+

lemma settles_bind:
  assumes m: "settles V W m" and f: "\<And>x. settles W X (f x)"
  shows "settles V X (mbind m f)"
  unfolding settles_def
proof (intro allI impI)
  fix s t
  assume eq: "V s = V t"
  obtain r s' where s: "m s = (r, s')" by (cases "m s")
  obtain t' where t: "m t = (r, t')"
    using settlesD(1) [OF m eq] s by (cases "m t") simp
  show "fst (mbind m f s) = fst (mbind m f t) \<and>
      (\<forall>x. fst (mbind m f s) = Inr x \<longrightarrow> X (snd (mbind m f s)) = X (snd (mbind m f t)))"
  proof (cases r)
    case (Inr x)
    with settlesD(2) [OF m eq] s t have "W s' = W t'" by simp
    from settlesD [OF f [of x] this] Inr s t show ?thesis by (simp add: mbind_def)
  qed (simp add: mbind_def s t)
qed

lemma settles_seq: "settles V W m \<Longrightarrow> settles W X n \<Longrightarrow> settles V X (mseq m n)"
  by (simp add: mseq_def settles_bind)

lemma settles_modify: "(\<And>s t. V s = V t \<Longrightarrow> W (f s) = W (f t)) \<Longrightarrow> settles V W (modify f)"
  unfolding settles_def modify_apply fst_conv snd_conv by blast

lemma settles_mlift: "(\<And>s t. V s = V t \<Longrightarrow> W s = W t) \<Longrightarrow> settles V W (mlift r)"
  unfolding settles_def return_sel by blast

lemma settles_ret: "(\<And>s t. V s = V t \<Longrightarrow> W s = W t) \<Longrightarrow> settles V W (ret x)"
  unfolding settles_def return_sel by blast

lemma settles_for: "(\<And>x. settles V V (f x)) \<Longrightarrow> settles V V (mfor xs f)"
proof (induction xs)
  case Nil
  show ?case unfolding mfor.simps by (rule settles_ret)
next
  case (Cons x xs)
  show ?case unfolding mfor.simps by (rule settles_seq [OF Cons.prems Cons.IH [OF Cons.prems]])
qed

text \<open>The rules for one view throughout.\<close>

lemma stable_mlift: "settles V V (mlift r)" by (rule settles_mlift)
lemma stable_ret: "settles V V (ret x)" by (rule settles_ret)

lemma stable_bind: "settles V V m \<Longrightarrow> (\<And>x. settles V W (f x)) \<Longrightarrow> settles V W (mbind m f)"
  by (rule settles_bind)

lemma stable_seq: "settles V V m \<Longrightarrow> settles V W n \<Longrightarrow> settles V W (mseq m n)"
  by (rule settles_seq)

lemma settles_assign:
  "(\<And>x s t. V s = V t \<Longrightarrow> W (f x s) = W (f x t)) \<Longrightarrow> settles V W (mbind (mlift r) (\<lambda>x. modify (f x)))"
  by (rule stable_bind [OF stable_mlift]) (rule settles_modify)

lemmas stable_rules = stable_mlift stable_ret stable_bind stable_seq settles_for

text \<open>A statement whose result does not depend on the state at all.\<close>

definition blind :: "('s, 'a) pym \<Rightarrow> bool" where
  "blind m \<longleftrightarrow> settles (\<lambda>_. ()) (\<lambda>_. ()) m"

lemma blind_modify: "blind (modify f)"
  unfolding blind_def by (rule settles_modify) simp

lemma blind_mlift: "blind (mlift r)"
  unfolding blind_def by (rule stable_mlift)

lemma blind_ret: "blind (ret x)"
  unfolding blind_def by (rule stable_ret)

lemma blind_bind: "blind m \<Longrightarrow> (\<And>x. blind (f x)) \<Longrightarrow> blind (mbind m f)"
  unfolding blind_def by (rule stable_bind)

lemma blind_seq: "blind m \<Longrightarrow> blind n \<Longrightarrow> blind (mseq m n)"
  unfolding blind_def by (rule stable_seq)

lemmas blind_rules = blind_modify blind_mlift blind_ret blind_bind blind_seq

lemma settles_writes:
  assumes blind: "blind m" and keeps: "keeps V m"
    and writes: "\<And>s s' t t' x y. m s = (Inr x, s') \<Longrightarrow> m t = (Inr y, t') \<Longrightarrow> X s' = X t'"
  shows "settles V (\<lambda>s. (V s, X s)) m"
  unfolding settles_def
proof (intro allI impI conjI)
  fix s t
  assume eq: "V s = V t"
  show f: "fst (m s) = fst (m t)" by (rule settlesD(1) [OF blind [unfolded blind_def]]) simp
  fix x
  assume "fst (m s) = Inr x"
  then have "X (snd (m s)) = X (snd (m t))"
    using f writes [of s x "snd (m s)" t x "snd (m t)"] by (simp add: prod_eq_iff)
  with eq show "(V (snd (m s)), X (snd (m s))) = (V (snd (m t)), X (snd (m t)))"
    by (simp add: keepsD [OF keeps])
qed

end
