(* ===== verification/PyStruct.thy ===== *)
theory PyStruct
  imports Prelude
begin

text \<open>
  The part of Python's \<open>struct\<close> the sources use. \<open>=I\<close> and \<open>=Q\<close> are
  little-endian, as on every machine the daemon supports; \<open>!H\<close> is big-endian.
  Packing a value that does not fit its width raises \<open>struct.error\<close>, and so does
  unpacking beyond the end of a buffer.
\<close>

type_synonym byte = "8 word"
type_synonym bytes = "byte list"

fun le_bytes :: "nat \<Rightarrow> int \<Rightarrow> bytes" where
  "le_bytes 0 x = []"
| "le_bytes (Suc n) x = word_of_int x # le_bytes n (x div 256)"

fun int_of_le :: "bytes \<Rightarrow> int" where
  "int_of_le [] = 0"
| "int_of_le (b # bs) = uint b + 256 * int_of_le bs"

definition pack_uint :: "nat \<Rightarrow> int \<Rightarrow> bytes res" where
  "pack_uint n x = (if 0 \<le> x \<and> x < 256 ^ n then Inr (le_bytes n x) else Inl StructErr)"

definition pack_u32 :: "int \<Rightarrow> bytes res" where "pack_u32 = pack_uint 4"
definition pack_u64 :: "int \<Rightarrow> bytes res" where "pack_u64 = pack_uint 8"
definition pack_u16 :: "int \<Rightarrow> bytes res" where "pack_u16 = pack_uint 2"

definition pack_be16 :: "int \<Rightarrow> bytes res" where
  "pack_be16 x = rbind (pack_uint 2 x) (\<lambda>bs. Inr (rev bs))"

text \<open>Several fields of one width, and the concatenation of packed fields.\<close>

definition pack_all :: "(int \<Rightarrow> bytes res) \<Rightarrow> int list \<Rightarrow> bytes res" where
  "pack_all p xs = rbind (rmap p xs) (\<lambda>bss. Inr (concat bss))"

definition pack_append :: "bytes res \<Rightarrow> bytes res \<Rightarrow> bytes res" where
  "pack_append a b = rbind a (\<lambda>x. rbind b (\<lambda>y. Inr (x @ y)))"

definition int_of_be :: "bytes \<Rightarrow> int" where
  "int_of_be bs = int_of_le (rev bs)"

definition unpack_le :: "nat \<Rightarrow> bytes \<Rightarrow> nat \<Rightarrow> int res" where
  "unpack_le n buf off =
     (if off + n \<le> length buf then Inr (int_of_le (take n (drop off buf))) else Inl StructErr)"

definition unpack_be :: "nat \<Rightarrow> bytes \<Rightarrow> nat \<Rightarrow> int res" where
  "unpack_be n buf off =
     (if off + n \<le> length buf then Inr (int_of_be (take n (drop off buf))) else Inl StructErr)"

text \<open>A buffer read as consecutive fields of one width.\<close>

fun le_fields :: "nat \<Rightarrow> nat \<Rightarrow> bytes \<Rightarrow> int list" where
  "le_fields w 0 buf = []"
| "le_fields w (Suc n) buf = int_of_le (take w buf) # le_fields w n (drop w buf)"

lemma length_le_bytes [simp]: "length (le_bytes n x) = n"
  by (induction n arbitrary: x) simp_all

lemma uint_of_int_byte: "uint (word_of_int x :: byte) = x mod 256"
  by (simp add: uint_word_of_int)

lemma int_of_le_bytes: "int_of_le (le_bytes n x) = x mod 256 ^ n"
proof (induction n arbitrary: x)
  case (Suc n)
  have "x mod 256 ^ Suc n = 256 * (x div 256 mod 256 ^ n) + x mod 256"
    by (simp add: zmod_zmult2_eq)
  with Suc show ?case by (simp add: uint_of_int_byte)
qed simp

lemma int_of_le_bytes_id: "0 \<le> x \<Longrightarrow> x < 256 ^ n \<Longrightarrow> int_of_le (le_bytes n x) = x"
  by (simp add: int_of_le_bytes)

lemma int_of_le_range: "0 \<le> int_of_le bs \<and> int_of_le bs < 256 ^ length bs"
proof (induction bs)
  case (Cons b bs)
  have b: "0 \<le> uint b" "uint b < 256" using uint_lt2p [of b] by simp_all
  from Cons have u: "int_of_le bs + 1 \<le> 256 ^ length bs" by simp
  have "uint b + 256 * int_of_le bs < 256 * (int_of_le bs + 1)" using b by simp
  also have "\<dots> \<le> 256 * 256 ^ length bs" using u by (rule mult_left_mono) simp
  finally show ?case using Cons b by simp
qed simp

lemma le_bytes_of_int: "le_bytes (length bs) (int_of_le bs) = bs"
proof (induction bs)
  case (Cons b bs)
  have "0 \<le> uint b" "uint b < 256" using uint_lt2p [of b] by simp_all
  then have "(uint b + 256 * int_of_le bs) div 256 = int_of_le bs" by simp
  moreover have "(word_of_int (uint b + 256 * int_of_le bs) :: byte) = b"
  proof -
    have "uint (word_of_int (uint b + 256 * int_of_le bs) :: byte) =
        (uint b + 256 * int_of_le bs) mod 256" by (rule uint_of_int_byte)
    also have "\<dots> = uint b" using \<open>0 \<le> uint b\<close> \<open>uint b < 256\<close> by simp
    finally have "uint (word_of_int (uint b + 256 * int_of_le bs) :: byte) = uint b" .
    then show ?thesis by (rule word_uint_eqI)
  qed
  ultimately show ?case using Cons by simp
qed simp

lemma pack_uint_Inr:
  "pack_uint n x = Inr bs \<longleftrightarrow> 0 \<le> x \<and> x < 256 ^ n \<and> bs = le_bytes n x"
  by (auto simp: pack_uint_def)

lemma pack_uint_inj: "pack_uint n x = Inr bs \<Longrightarrow> pack_uint n y = Inr bs \<Longrightarrow> x = y"
  using int_of_le_bytes_id by (auto simp: pack_uint_Inr) metis

lemma pack_uint_length: "pack_uint n x = Inr bs \<Longrightarrow> length bs = n"
  by (auto simp: pack_uint_Inr)

lemma pack_uint_unpack: "pack_uint n x = Inr bs \<Longrightarrow> int_of_le bs = x"
  by (auto simp: pack_uint_Inr int_of_le_bytes)

lemma pack_uint_of_le: "length bs = n \<Longrightarrow> pack_uint n (int_of_le bs) = Inr bs"
  using int_of_le_range [of bs] le_bytes_of_int [of bs] by (auto simp: pack_uint_Inr)

text \<open>A list of fields packed and read back.\<close>

lemma le_fields_pack:
  assumes "pack_all (pack_uint w) xs = Inr bs"
  shows "le_fields w (length xs) (bs @ rest) = xs" and "length bs = w * length xs"
proof -
  from assms obtain bss where r: "rmap (pack_uint w) xs = Inr bss" and bs: "bs = concat bss"
    by (auto simp: pack_all_def rbind_Inr_conv)
  have "le_fields w (length xs) (concat bss @ rest) = xs \<and> length (concat bss) = w * length xs"
    using r
  proof (induction xs arbitrary: bss)
    case (Cons x xs)
    then obtain b bs' where "pack_uint w x = Inr b" "rmap (pack_uint w) xs = Inr bs'" "bss = b # bs'"
      by (auto simp: rbind_Inr_conv)
    moreover from this have "length b = w" "int_of_le b = x"
      by (auto dest: pack_uint_length pack_uint_unpack)
    ultimately show ?case using Cons.IH [of bs'] by simp
  qed simp
  with bs show "le_fields w (length xs) (bs @ rest) = xs" and "length bs = w * length xs"
    by simp_all
qed

end
