(* ===== verification/BpfKernel.thy ===== *)
theory BpfKernel
  imports PyMonad PyStruct
begin

text \<open>
  \<open>auto_xdp/bpf/syscall.py\<close> and the kernel behind it. The kernel is a parameter: a
  record \<open>K\<close> of system calls over an abstract kernel state, each giving an errno
  or a value. What \<open>bpf(2)\<close> documents of the maps that only the daemon writes is
  the locale \<open>bpf_kernel\<close>; the last section has a small kernel that meets it.
\<close>

section \<open>The system calls\<close>

type_synonym ('k, 'a) sys = "'k \<Rightarrow> (int + 'a) \<times> 'k"

record 'k kernel =
  sys_update :: "int \<Rightarrow> bytes \<Rightarrow> bytes \<Rightarrow> int \<Rightarrow> ('k, unit) sys"
  sys_lookup :: "int \<Rightarrow> bytes \<Rightarrow> int \<Rightarrow> ('k, bytes) sys"
  sys_delete :: "int \<Rightarrow> bytes \<Rightarrow> ('k, unit) sys"
  sys_next_key :: "int \<Rightarrow> bytes option \<Rightarrow> ('k, bytes) sys"
  sys_lookup_batch :: "int \<Rightarrow> nat \<Rightarrow> 'k \<Rightarrow> (int option \<times> (bytes \<times> bytes) list) \<times> 'k"
  sys_obj_get :: "string \<Rightarrow> ('k, int) sys"
  sys_info :: "int \<Rightarrow> ('k, bytes) sys"
  sys_map_create :: "bytes \<Rightarrow> bytes \<Rightarrow> ('k, int) sys"
  sys_fd_by_id :: "bytes \<Rightarrow> ('k, int) sys"
  sys_close :: "int \<Rightarrow> 'k \<Rightarrow> 'k"
  sys_monotonic_ns :: "'k \<Rightarrow> int \<times> 'k"
  sys_exists :: "string \<Rightarrow> 'k \<Rightarrow> bool"

definition BPF_F_LOCK :: int where "BPF_F_LOCK = 4"
definition BPF_MAP_TYPE_LRU_HASH :: int where "BPF_MAP_TYPE_LRU_HASH = 9"
definition BPF_MAP_TYPE_ARRAY_OF_MAPS :: int where "BPF_MAP_TYPE_ARRAY_OF_MAPS = 12"

text \<open>\<open>bpf(cmd, attr)\<close>: a negative return value raises \<open>OSError(errno)\<close>.\<close>

definition bpf :: "('k, 'a) sys \<Rightarrow> ('k, 'a) pym" where
  "bpf call k = (case call k of (Inl n, k') \<Rightarrow> (Inl (OSError n), k') | (Inr x, k') \<Rightarrow> (Inr x, k'))"

definition obj_get :: "'k kernel \<Rightarrow> string \<Rightarrow> ('k, int) pym" where
  "obj_get K path = bpf (sys_obj_get K path)"

definition map_max_entries :: "'k kernel \<Rightarrow> int \<Rightarrow> ('k, int) pym" where
  "map_max_entries K fd =
     mseq (mlift (pack_u32 fd)) (mbind (bpf (sys_info K fd)) (\<lambda>info. mlift (unpack_le 4 info 16)))"

definition map_id :: "'k kernel \<Rightarrow> int \<Rightarrow> ('k, int) pym" where
  "map_id K fd =
     mseq (mlift (pack_u32 fd)) (mbind (bpf (sys_info K fd)) (\<lambda>info. mlift (unpack_le 4 info 4)))"

text \<open>\<open>map_create\<close> fills six \<open>u32\<close> fields and the name, cut to 15 bytes.\<close>

definition map_create :: "'k kernel \<Rightarrow> int \<Rightarrow> int \<Rightarrow> int \<Rightarrow> int \<Rightarrow> int \<Rightarrow> int \<Rightarrow> bytes \<Rightarrow> ('k, int) pym" where
  "map_create K map_type key_size value_size max_entries map_flags inner_map_fd name =
     mbind (mlift (pack_all pack_u32
              [map_type, key_size, value_size, max_entries, map_flags, inner_map_fd]))
       (\<lambda>attr. bpf (sys_map_create K attr (take 15 name)))"

definition map_get_fd_by_id :: "'k kernel \<Rightarrow> int \<Rightarrow> ('k, int) pym" where
  "map_get_fd_by_id K i = mbind (mlift (pack_u32 i)) (\<lambda>attr. bpf (sys_fd_by_id K attr))"

definition os_close :: "'k kernel \<Rightarrow> int \<Rightarrow> ('k, unit) pym" where
  "os_close K fd = modify (sys_close K fd)"

definition bytes_of_string :: "string \<Rightarrow> bytes" where
  "bytes_of_string s = map (\<lambda>c. of_nat (of_char c)) s"

text \<open>
  \<open>probe_inner_map_support\<close>: the two creations, with the descriptors closed in the
  \<open>finally\<close> block. The state carries the descriptors opened so far.
\<close>

definition close_opened :: "'k kernel \<Rightarrow> int list \<Rightarrow> 'k \<Rightarrow> 'k" where
  "close_opened K fds = fold (\<lambda>fd k. if 0 \<le> fd then sys_close K fd k else k) fds"

definition probe_inner_map_support :: "'k kernel \<Rightarrow> ('k, bool) pym" where
  "probe_inner_map_support K k =
     (let outcome = (\<lambda>e. case e of
            OSError n \<Rightarrow> if n = EPERM \<or> n = EACCES then Inl e else Inr False
          | _ \<Rightarrow> Inl e) in
      case map_create K BPF_MAP_TYPE_LRU_HASH 4 16 1 0 0 (bytes_of_string ''axdp_probe_i'') k of
        (Inl e, k1) \<Rightarrow> (outcome e, k1)
      | (Inr inner_fd, k1) \<Rightarrow>
          (case map_create K BPF_MAP_TYPE_ARRAY_OF_MAPS 4 4 1 0 inner_fd (bytes_of_string ''axdp_probe_o'') k1 of
             (Inl e, k2) \<Rightarrow> (outcome e, close_opened K [inner_fd] k2)
           | (Inr outer_fd, k2) \<Rightarrow> (Inr True, close_opened K [inner_fd, outer_fd] k2)))"

section \<open>A map object beside the kernel\<close>

text \<open>
  The state of a method is the map object and the kernel. \<open>kern\<close> runs a system
  call on the second part.
\<close>

definition kern :: "('k, 'a) pym \<Rightarrow> ('m \<times> 'k, 'a) pym" where
  "kern p s = (case p (snd s) of (r, k) \<Rightarrow> (r, (fst s, k)))"

definition obj :: "('m \<Rightarrow> 'a) \<Rightarrow> ('m \<times> 'k, 'a) pym" where
  "obj f = gets (\<lambda>s. f (fst s))"

definition set_obj :: "('m \<Rightarrow> 'm) \<Rightarrow> ('m \<times> 'k, unit) pym" where
  "set_obj f = modify (\<lambda>s. (f (fst s), snd s))"

text \<open>
  The skeleton of every \<open>set\<close>: in a dry run nothing happens; otherwise key and
  value are packed, the kernel is updated, then the cache, and an OSError turns
  into the result \<open>False\<close>. What packing raises is not caught.
\<close>

definition guarded_update ::
  "'k kernel \<Rightarrow> bool \<Rightarrow> int \<Rightarrow> int \<Rightarrow> (bytes \<times> bytes) res \<Rightarrow> ('m \<Rightarrow> 'm) \<Rightarrow> ('m \<times> 'k, bool) pym" where
  "guarded_update K dry fd flags kv upd =
     (if dry then ret True
      else mtry (mbind (mlift kv) (\<lambda>(key, val).
             mseq (kern (bpf (sys_update K fd key val flags))) (mseq (set_obj upd) (ret True))))
           (on_oserror (\<lambda>_. ret False)))"

text \<open>
  The skeleton of every \<open>delete\<close>: an entry that is already gone counts as
  deleted.
\<close>

definition guarded_delete ::
  "'k kernel \<Rightarrow> bool \<Rightarrow> int \<Rightarrow> bytes res \<Rightarrow> ('m \<Rightarrow> 'm) \<Rightarrow> ('m \<times> 'k, bool) pym" where
  "guarded_delete K dry fd key upd =
     (if dry then ret True
      else mtry (mbind (mlift key) (\<lambda>key.
             mseq (kern (bpf (sys_delete K fd key))) (mseq (set_obj upd) (ret True))))
           (on_oserror (\<lambda>n. if n = ENOENT then mseq (set_obj upd) (ret True) else ret False)))"

text \<open>
  \<open>_iter_raw_keys\<close> with a loop body, which may store into the object. \<open>fuel\<close>
  bounds the number of keys; a kernel that always has a next key uses it up.
\<close>

fun scan_keys ::
  "nat \<Rightarrow> 'k kernel \<Rightarrow> int \<Rightarrow> bytes option \<Rightarrow> (bytes \<Rightarrow> ('m \<times> 'k, unit) pym) \<Rightarrow> ('m \<times> 'k, unit) pym" where
  "scan_keys 0 K fd cur body = raise_exn OutOfFuel"
| "scan_keys (Suc fuel) K fd cur body =
     mbind (mtry (mbind (kern (bpf (sys_next_key K fd cur))) (\<lambda>key. ret (Some key)))
             (on_oserror (\<lambda>n. if n = ENOENT then ret None else raise_exn (OSError n))))
       (\<lambda>next. case next of None \<Rightarrow> ret ()
         | Some key \<Rightarrow> mseq (body key) (scan_keys fuel K fd (Some key) body))"

section \<open>What the kernel promises\<close>

text \<open>
  \<open>entries k fd\<close> is what the map behind a descriptor holds, in the order the
  kernel enumerates it. \<open>owned\<close> are the descriptors of the maps that only the
  daemon writes (the data plane changes the connection-tracking and rate maps by
  itself). On an owned map an update stores the entry or, when it fails, changes
  nothing; ENOENT means that the entry is not there; a call on one descriptor
  leaves every other owned map as it was; the reading calls change nothing; a
  batch lookup that is large enough returns every entry; a new descriptor is not
  one of those in use; and the next key after a present one is its successor in
  the order of the map.
\<close>

locale bpf_kernel =
  fixes K :: "'k kernel"
    and entries :: "'k \<Rightarrow> int \<Rightarrow> (bytes, bytes) dict"
    and owned :: "int set"
  assumes entries_ok: "fd \<in> owned \<Longrightarrow> dict_ok (entries k fd)"
    and update_ok:
    "fd \<in> owned \<Longrightarrow> sys_update K fd key val fl k = (Inr (), k') \<Longrightarrow>
       dict_get (entries k' fd) = (dict_get (entries k fd))(key \<mapsto> val)"
    and update_err:
    "fd \<in> owned \<Longrightarrow> sys_update K fd key val fl k = (Inl n, k') \<Longrightarrow> entries k' fd = entries k fd"
    and update_frame:
    "fd' \<in> owned \<Longrightarrow> fd' \<noteq> fd \<Longrightarrow> entries (snd (sys_update K fd key val fl k)) fd' = entries k fd'"
    and delete_ok:
    "fd \<in> owned \<Longrightarrow> sys_delete K fd key k = (Inr (), k') \<Longrightarrow>
       dict_get (entries k' fd) = (dict_get (entries k fd))(key := None)"
    and delete_err:
    "fd \<in> owned \<Longrightarrow> sys_delete K fd key k = (Inl n, k') \<Longrightarrow> entries k' fd = entries k fd"
    and delete_enoent:
    "fd \<in> owned \<Longrightarrow> sys_delete K fd key k = (Inl ENOENT, k') \<Longrightarrow> dict_get (entries k fd) key = None"
    and delete_frame:
    "fd' \<in> owned \<Longrightarrow> fd' \<noteq> fd \<Longrightarrow> entries (snd (sys_delete K fd key k)) fd' = entries k fd'"
    and lookup_ok:
    "fd \<in> owned \<Longrightarrow> sys_lookup K fd key fl k = (Inr v, k') \<Longrightarrow> dict_get (entries k fd) key = Some v"
    and lookup_enoent:
    "fd \<in> owned \<Longrightarrow> sys_lookup K fd key fl k = (Inl ENOENT, k') \<Longrightarrow> dict_get (entries k fd) key = None"
    and lookup_frame: "fd' \<in> owned \<Longrightarrow> entries (snd (sys_lookup K fd key fl k)) fd' = entries k fd'"
    and next_frame: "fd' \<in> owned \<Longrightarrow> entries (snd (sys_next_key K fd cur k)) fd' = entries k fd'"
    and next_first:
    "fd \<in> owned \<Longrightarrow> sys_next_key K fd None k = (Inr key, k') \<Longrightarrow>
       \<exists>post. map fst (entries k fd) = key # post"
    and next_after:
    "fd \<in> owned \<Longrightarrow> sys_next_key K fd (Some c) k = (Inr key, k') \<Longrightarrow> c \<in> dict_keys (entries k fd) \<Longrightarrow>
       \<exists>pre post. map fst (entries k fd) = pre @ c # key # post"
    and next_end:
    "fd \<in> owned \<Longrightarrow> sys_next_key K fd cur k = (Inl ENOENT, k') \<Longrightarrow>
       entries k fd = [] \<or> cur = Some (fst (last (entries k fd)))"
    and batch_frame: "fd' \<in> owned \<Longrightarrow> entries (snd (sys_lookup_batch K fd cnt k)) fd' = entries k fd'"
    and batch_all:
    "fd \<in> owned \<Longrightarrow> sys_lookup_batch K fd cnt k = ((e, es), k') \<Longrightarrow> e = None \<or> e = Some ENOENT \<Longrightarrow>
       length (entries k fd) \<le> cnt \<Longrightarrow> dict_ok es \<and> dict_get es = dict_get (entries k fd)"
    and info_frame: "fd' \<in> owned \<Longrightarrow> entries (snd (sys_info K fd k)) fd' = entries k fd'"
    and create_frame: "fd' \<in> owned \<Longrightarrow> entries (snd (sys_map_create K attr name k)) fd' = entries k fd'"
    and create_fresh: "sys_map_create K attr name k = (Inr fd, k') \<Longrightarrow> fd \<notin> owned"
    and fd_by_id_fresh: "sys_fd_by_id K attr k = (Inr fd, k') \<Longrightarrow> fd \<notin> owned"
    and fd_by_id_frame: "fd' \<in> owned \<Longrightarrow> entries (snd (sys_fd_by_id K attr k)) fd' = entries k fd'"
    and obj_get_frame: "fd' \<in> owned \<Longrightarrow> entries (snd (sys_obj_get K path k)) fd' = entries k fd'"
    and close_frame: "fd' \<in> owned \<Longrightarrow> fd' \<noteq> fd \<Longrightarrow> entries (sys_close K fd k) fd' = entries k fd'"
    and clock_frame: "fd' \<in> owned \<Longrightarrow> entries (snd (sys_monotonic_ns K k)) fd' = entries k fd'"

text \<open>The entries of a set of descriptors, as one view of the kernel.\<close>

definition seen :: "('k \<Rightarrow> int \<Rightarrow> (bytes, bytes) dict) \<Rightarrow> int set \<Rightarrow> 'k \<Rightarrow> int \<Rightarrow> (bytes, bytes) dict" where
  "seen entries S k fd = (if fd \<in> S then entries k fd else [])"

lemma seen_eq_iff: "seen entries S k = seen entries S k' \<longleftrightarrow> (\<forall>fd \<in> S. entries k fd = entries k' fd)"
  by (auto simp: seen_def fun_eq_iff)

lemma seen_mono: "seen entries S k = seen entries S k' \<Longrightarrow> T \<subseteq> S \<Longrightarrow> seen entries T k = seen entries T k'"
  by (auto simp: seen_eq_iff)

lemma keeps_seen_mono:
  "keeps (seen entries S) m \<Longrightarrow> T \<subseteq> S \<Longrightarrow> keeps (seen entries T) m"
  by (auto simp: keeps_def intro: seen_mono)

lemma keeps_kern: "keeps V p \<Longrightarrow> keeps (\<lambda>s. V (snd s)) (kern p)"
  by (auto simp: keeps_def kern_def split: prod.splits) (metis snd_conv)

lemma keeps_obj [keeps_rules]: "keeps V (obj f)"
  by (simp add: obj_def keeps_gets)

lemma keeps_set_obj: "keeps (\<lambda>s. V (snd s)) (set_obj f)"
  by (simp add: set_obj_def keeps_modify)

lemma keeps_kern_fst: "keeps (\<lambda>s. V (fst s)) (kern p)"
  by (auto simp: keeps_def kern_def split: prod.splits)

lemma keeps_bpf: "(\<And>k. V (snd (call k)) = V k) \<Longrightarrow> keeps V (bpf call)"
  by (auto simp: keeps_def bpf_def split: prod.splits sum.splits) (metis snd_conv)+

context bpf_kernel
begin

lemma seen_calls:
  "keeps (seen entries owned) (bpf (sys_lookup K fd key fl))"
  "keeps (seen entries owned) (bpf (sys_next_key K fd cur))"
  "keeps (seen entries owned) (bpf (sys_info K fd))"
  "keeps (seen entries owned) (bpf (sys_map_create K attr name))"
  "keeps (seen entries owned) (bpf (sys_fd_by_id K attr))"
  "keeps (seen entries owned) (bpf (sys_obj_get K path))"
  "keeps (seen entries (owned - {fd})) (bpf (sys_update K fd key val fl))"
  "keeps (seen entries (owned - {fd})) (bpf (sys_delete K fd key))"
  by (intro keeps_bpf;
      simp add: seen_eq_iff lookup_frame next_frame info_frame create_frame fd_by_id_frame
        obj_get_frame update_frame delete_frame)+

lemma seen_close: "keeps (seen entries (owned - {fd})) (os_close K fd)"
  unfolding os_close_def by (rule keeps_modify) (simp add: seen_eq_iff close_frame)

lemma guarded_update_frame:
  "keeps (\<lambda>s. seen entries (owned - {fd}) (snd s)) (guarded_update K dry fd fl kv upd)"
  unfolding guarded_update_def
  by (intro keeps_rules keeps_kern keeps_set_obj seen_calls)

lemma guarded_delete_frame:
  "keeps (\<lambda>s. seen entries (owned - {fd}) (snd s)) (guarded_delete K dry fd key upd)"
  unfolding guarded_delete_def
  by (intro keeps_rules keeps_kern keeps_set_obj seen_calls)

text \<open>
  A guarded write either reports success, and then kernel and object have both
  moved, or neither has.
\<close>

lemma guarded_update_cases:
  assumes "fd \<in> owned" and "guarded_update K False fd fl kv upd (m, k) = (r, (m', k'))"
  shows "(\<exists>key val. kv = Inr (key, val) \<and> r = Inr True \<and> m' = upd m \<and>
            dict_get (entries k' fd) = (dict_get (entries k fd))(key \<mapsto> val)) \<or>
         (r \<noteq> Inr True \<and> m' = m \<and> entries k' fd = entries k fd)"
proof (cases kv)
  case (Inl e)
  with assms(2) show ?thesis
    by (cases e) (auto simp: guarded_update_def mtry_def)
next
  case (Inr p)
  obtain key val where p: "p = (key, val)" by (cases p)
  obtain q k1 where u: "sys_update K fd key val fl k = (q, k1)" by (cases "sys_update K fd key val fl k")
  show ?thesis
  proof (cases q)
    case (Inl n)
    with assms u p Inr update_err [OF assms(1)] show ?thesis
      by (auto simp: guarded_update_def mtry_def mseq_def mbind_def kern_def bpf_def)
  next
    case (Inr x)
    with assms u p \<open>kv = Inr p\<close> update_ok [OF assms(1)] show ?thesis
      by (auto simp: guarded_update_def mtry_def mseq_def mbind_def kern_def bpf_def set_obj_def ret_apply)
  qed
qed

lemma guarded_delete_cases:
  assumes "fd \<in> owned" and "key \<noteq> Inl (OSError ENOENT)"
    and "guarded_delete K False fd key upd (m, k) = (r, (m', k'))"
  shows "(\<exists>b. key = Inr b \<and> r = Inr True \<and> m' = upd m \<and>
            dict_get (entries k' fd) = (dict_get (entries k fd))(b := None)) \<or>
         (r \<noteq> Inr True \<and> m' = m \<and> entries k' fd = entries k fd)"
proof (cases key)
  case (Inl e)
  with assms(2,3) show ?thesis
    by (cases e) (auto simp: guarded_delete_def mtry_def)
next
  case (Inr b)
  obtain q k1 where u: "sys_delete K fd b k = (q, k1)" by (cases "sys_delete K fd b k")
  show ?thesis
  proof (cases q)
    case (Inl n)
    then have same: "entries k1 fd = entries k fd" using u delete_err [OF assms(1)] by blast
    have absent: "n = ENOENT \<Longrightarrow> (dict_get (entries k fd))(b := None) = dict_get (entries k fd)"
      using delete_enoent [OF assms(1)] u Inl by (metis fun_upd_triv)
    from assms(3) Inl u Inr same absent show ?thesis
      by (auto simp: guarded_delete_def mtry_def mseq_def mbind_def kern_def bpf_def set_obj_def ret_apply
          split: if_splits)
  next
    case (Inr x)
    with assms(1,3) u \<open>key = Inr b\<close> delete_ok [OF assms(1)] show ?thesis
      by (auto simp: guarded_delete_def mtry_def mseq_def mbind_def kern_def bpf_def set_obj_def ret_apply)
  qed
qed

end

section \<open>A kernel that keeps the promises\<close>

text \<open>
  Maps as association lists, one per descriptor. The maps under \<open>ks_pins\<close> have
  descriptors below 1000; the maps the daemon creates get larger ones. An array
  has all its keys from the start and refuses new ones and deletions.
  \<open>ks_script\<close> is the fate of the next writes: an errno makes one fail.
\<close>

record kstate =
  ks_data :: "(int, (bytes, bytes) dict) dict"
  ks_max :: "(int, nat) dict"
  ks_arrays :: "int list"
  ks_pins :: "(string, int) dict"
  ks_next :: int
  ks_script :: "int option list"
  ks_clock :: int

definition kentries :: "kstate \<Rightarrow> int \<Rightarrow> (bytes, bytes) dict" where
  "kentries k fd = dict_update [] (dict_get_or (ks_data k) fd [])"

definition kput :: "int \<Rightarrow> (bytes, bytes) dict \<Rightarrow> kstate \<Rightarrow> kstate" where
  "kput fd d k = k\<lparr>ks_data := dict_set fd d (ks_data k)\<rparr>"

definition kfate :: "kstate \<Rightarrow> int option \<times> kstate" where
  "kfate k = (case ks_script k of [] \<Rightarrow> (None, k) | x # xs \<Rightarrow> (x, k\<lparr>ks_script := xs\<rparr>))"

definition store_update :: "int \<Rightarrow> bytes \<Rightarrow> bytes \<Rightarrow> int \<Rightarrow> (kstate, unit) sys" where
  "store_update fd key val fl k =
     (case kfate k of
        (Some n, k) \<Rightarrow> (Inl n, k)
      | (None, k) \<Rightarrow>
          (if dict_get (kentries k fd) key = None \<and>
             (fd \<in> set (ks_arrays k) \<or> dict_get_or (ks_max k) fd 0 \<le> length (kentries k fd))
           then (Inl 7, k) else (Inr (), kput fd (dict_set key val (kentries k fd)) k)))"

definition store_delete :: "int \<Rightarrow> bytes \<Rightarrow> (kstate, unit) sys" where
  "store_delete fd key k =
     (case kfate k of
        (Some n, k) \<Rightarrow> (Inl (if n = ENOENT then 14 else n), k)
      | (None, k) \<Rightarrow>
          (if fd \<in> set (ks_arrays k) then (Inl 22, k)
           else if dict_get (kentries k fd) key = None then (Inl ENOENT, k)
           else (Inr (), kput fd (dict_pop key (kentries k fd)) k)))"

definition store_lookup :: "int \<Rightarrow> bytes \<Rightarrow> int \<Rightarrow> (kstate, bytes) sys" where
  "store_lookup fd key fl k =
     (case dict_get (kentries k fd) key of None \<Rightarrow> (Inl ENOENT, k) | Some v \<Rightarrow> (Inr v, k))"

definition first_key :: "bytes list \<Rightarrow> int + bytes" where
  "first_key ks = (case ks of [] \<Rightarrow> Inl ENOENT | x # _ \<Rightarrow> Inr x)"

definition store_next_key :: "int \<Rightarrow> bytes option \<Rightarrow> (kstate, bytes) sys" where
  "store_next_key fd cur k =
     (let ks = map fst (kentries k fd) in
      (case cur of
         None \<Rightarrow> first_key ks
       | Some c \<Rightarrow> if c \<in> set ks then first_key (tl (dropWhile (\<lambda>x. x \<noteq> c) ks)) else first_key ks, k))"

definition store_batch :: "int \<Rightarrow> nat \<Rightarrow> kstate \<Rightarrow> (int option \<times> (bytes \<times> bytes) list) \<times> kstate" where
  "store_batch fd cnt k =
     ((if length (kentries k fd) \<le> cnt then Some ENOENT else None, take cnt (kentries k fd)), k)"

definition store_info :: "int \<Rightarrow> (kstate, bytes) sys" where
  "store_info fd k =
     (Inr (le_bytes 4 1 @ le_bytes 4 fd @ le_bytes 4 4 @ le_bytes 4 4 @
           le_bytes 4 (int (dict_get_or (ks_max k) fd 0))), k)"

definition store_create :: "bytes \<Rightarrow> bytes \<Rightarrow> (kstate, int) sys" where
  "store_create attr name k =
     (let fd = max 1000 (ks_next k) in
      (Inr fd, (kput fd [] k)\<lparr>ks_next := fd + 1,
         ks_max := dict_set fd (nat (int_of_le (take 4 (drop 12 attr)))) (ks_max k)\<rparr>))"

definition store_kernel :: "kstate kernel" where
  "store_kernel = \<lparr>sys_update = store_update, sys_lookup = store_lookup, sys_delete = store_delete,
     sys_next_key = store_next_key, sys_lookup_batch = store_batch,
     sys_obj_get = (\<lambda>path k. (case dict_get (ks_pins k) path of None \<Rightarrow> Inl ENOENT | Some fd \<Rightarrow> Inr fd, k)),
     sys_info = store_info, sys_map_create = store_create,
     sys_fd_by_id = (\<lambda>attr k. (Inr (max 1000 (int_of_le attr)), k)),
     sys_close = (\<lambda>fd k. k),
     sys_monotonic_ns = (\<lambda>k. (ks_clock k, k\<lparr>ks_clock := ks_clock k + 1\<rparr>)),
     sys_exists = (\<lambda>path k. dict_get (ks_pins k) path \<noteq> None)\<rparr>"

lemma kentries_ok [simp]: "dict_ok (kentries k fd)"
  by (simp add: kentries_def)

lemma kentries_kput [simp]:
  "kentries (kput fd d k) fd' = (if fd' = fd then dict_update [] d else kentries k fd')"
  by (simp add: kentries_def kput_def dict_get_or_def dict_simps)

lemma kentries_cong [simp]:
  "kentries (k\<lparr>ks_script := x\<rparr>) fd = kentries k fd" "kentries (k\<lparr>ks_next := i\<rparr>) fd = kentries k fd"
  "kentries (k\<lparr>ks_max := m\<rparr>) fd = kentries k fd" "kentries (k\<lparr>ks_clock := c\<rparr>) fd = kentries k fd"
  by (simp_all add: kentries_def)

lemma kentries_fate [simp]: "kfate k = (x, k') \<Longrightarrow> kentries k' fd = kentries k fd"
  by (auto simp: kfate_def split: list.splits)

lemma dict_update_Nil_ok: "dict_ok d \<Longrightarrow> dict_update [] d = d"
  by (simp add: dict_update_append)

lemma first_key_Inr: "first_key ks = Inr x \<longleftrightarrow> (\<exists>ys. ks = x # ys)"
  by (auto simp: first_key_def split: list.splits)

lemma first_key_Inl: "first_key ks = Inl n \<longleftrightarrow> ks = [] \<and> n = ENOENT"
  by (auto simp: first_key_def split: list.splits)

lemma split_at_key: "c \<in> set ks \<Longrightarrow> \<exists>pre. ks = pre @ c # tl (dropWhile (\<lambda>x. x \<noteq> c) ks)"
proof (induction ks)
  case (Cons x xs)
  show ?case
  proof (cases "x = c")
    case False
    with Cons obtain pre where "xs = pre @ c # tl (dropWhile (\<lambda>x. x \<noteq> c) xs)" by auto
    with False have "x # xs = (x # pre) @ c # tl (dropWhile (\<lambda>x. x \<noteq> c) (x # xs))" by simp
    then show ?thesis by blast
  qed simp
qed simp

lemma store_next_end:
  assumes "store_next_key fd cur k = (Inl ENOENT, k')"
  shows "kentries k fd = [] \<or> cur = Some (fst (last (kentries k fd)))"
proof (cases "kentries k fd = []")
  case False
  with assms obtain c where c: "cur = Some c" "c \<in> set (map fst (kentries k fd))"
    and e: "tl (dropWhile (\<lambda>x. x \<noteq> c) (map fst (kentries k fd))) = []"
    by (auto simp: store_next_key_def Let_def first_key_Inl split: option.splits if_splits)
  from split_at_key [OF c(2)] e obtain pre where "map fst (kentries k fd) = pre @ [c]" by auto
  then have "fst (last (kentries k fd)) = c" using False by (metis last_map last_snoc)
  with c show ?thesis by simp
qed simp

lemma store_next_after:
  assumes "store_next_key fd (Some c) k = (Inr key, k')" and "c \<in> dict_keys (kentries k fd)"
  shows "\<exists>pre post. map fst (kentries k fd) = pre @ c # key # post"
proof -
  let ?ks = "map fst (kentries k fd)"
  have c: "c \<in> set ?ks" using assms(2) by (simp add: dict_keys_def)
  with assms(1) obtain ys where "tl (dropWhile (\<lambda>x. x \<noteq> c) ?ks) = key # ys"
    by (auto simp: store_next_key_def Let_def first_key_Inr simp del: set_map)
  with split_at_key [OF c] show ?thesis by metis
qed

interpretation store: bpf_kernel store_kernel kentries "{0..<1000}"
proof
  fix fd key val fl k k' n
  show "dict_get (kentries k' fd) = (dict_get (kentries k fd))(key \<mapsto> val)"
    if "sys_update store_kernel fd key val fl k = (Inr (), k')"
    using that by (auto simp: store_kernel_def store_update_def dict_update_Nil_ok dict_simps
        split: prod.splits option.splits if_splits)
  show "kentries k' fd = kentries k fd" if "sys_update store_kernel fd key val fl k = (Inl n, k')"
    using that by (auto simp: store_kernel_def store_update_def split: prod.splits option.splits if_splits)
  show "dict_get (kentries k' fd) = (dict_get (kentries k fd))(key := None)"
    if "sys_delete store_kernel fd key k = (Inr (), k')"
    using that by (auto simp: store_kernel_def store_delete_def dict_update_Nil_ok dict_simps
        split: prod.splits option.splits if_splits)
  show "kentries k' fd = kentries k fd" if "sys_delete store_kernel fd key k = (Inl n, k')"
    using that by (auto simp: store_kernel_def store_delete_def split: prod.splits option.splits if_splits)
  show "dict_get (kentries k fd) key = None" if "sys_delete store_kernel fd key k = (Inl ENOENT, k')"
    using that by (auto simp: store_kernel_def store_delete_def ENOENT_def split: prod.splits option.splits if_splits)
next
  fix fd fd' key val fl k
  show "kentries (snd (sys_update store_kernel fd key val fl k)) fd' = kentries k fd'" if "fd' \<noteq> fd"
    using that by (auto simp: store_kernel_def store_update_def split: prod.splits option.splits)
  show "kentries (snd (sys_delete store_kernel fd key k)) fd' = kentries k fd'" if "fd' \<noteq> fd"
    using that by (auto simp: store_kernel_def store_delete_def split: prod.splits option.splits)
next
  fix fd cur k k' key c
  show "\<exists>post. map fst (kentries k fd) = key # post"
    if "sys_next_key store_kernel fd None k = (Inr key, k')"
    using that by (auto simp: store_kernel_def store_next_key_def Let_def first_key_Inr)
  show "\<exists>pre post. map fst (kentries k fd) = pre @ c # key # post"
    if "sys_next_key store_kernel fd (Some c) k = (Inr key, k')" "c \<in> dict_keys (kentries k fd)"
    using that store_next_after by (simp add: store_kernel_def)
  show "kentries k fd = [] \<or> cur = Some (fst (last (kentries k fd)))"
    if "sys_next_key store_kernel fd cur k = (Inl ENOENT, k')"
    using that store_next_end by (simp add: store_kernel_def)
qed (auto simp: store_kernel_def store_lookup_def store_next_key_def Let_def store_batch_def store_info_def
    store_create_def split: option.splits)

end
