(* ===== verification/PyValue.thy ===== *)
theory PyValue
  imports Complex_Main Prelude "HOL-Library.Log_Nat"
begin

text \<open>
  What the sources use of Python's own values: strings over ASCII and their
  methods, \<open>int()\<close> and \<open>float()\<close> on the values a TOML file can hold, and binary64
  floats. A finite float is the rational it denotes and every arithmetic
  operation rounds its exact result to the nearest float, ties to even; signed
  zeros are not told apart.
\<close>

section \<open>Strings\<close>

definition is_space :: "char \<Rightarrow> bool" where
  "is_space c \<longleftrightarrow> (let n = of_char c :: nat in 9 \<le> n \<and> n \<le> 13 \<or> 28 \<le> n \<and> n \<le> 32 \<or> n = 133 \<or> n = 160)"

definition is_digit :: "char \<Rightarrow> bool" where
  "is_digit c \<longleftrightarrow> (let n = of_char c :: nat in 48 \<le> n \<and> n \<le> 57)"

definition digit_val :: "char \<Rightarrow> nat" where
  "digit_val c = of_char c - 48"

definition lower_char :: "char \<Rightarrow> char" where
  "lower_char c = (let n = of_char c :: nat in if 65 \<le> n \<and> n \<le> 90 then char_of (n + 32) else c)"

abbreviation str_lower :: "string \<Rightarrow> string" where
  "str_lower \<equiv> map lower_char"

definition str_lstrip :: "string \<Rightarrow> string" where
  "str_lstrip s = dropWhile is_space s"

definition str_strip :: "string \<Rightarrow> string" where
  "str_strip s = rev (str_lstrip (rev (str_lstrip s)))"

definition str_rstrip_char :: "char \<Rightarrow> string \<Rightarrow> string" where
  "str_rstrip_char c s = rev (dropWhile (\<lambda>x. x = c) (rev s))"

text \<open>\<open>s.split(c)\<close>: every occurrence separates, empty pieces are kept.\<close>

fun str_split :: "char \<Rightarrow> string \<Rightarrow> string list" where
  "str_split c [] = [[]]"
| "str_split c (x # xs) =
     (if x = c then [] # str_split c xs
      else case str_split c xs of [] \<Rightarrow> [[x]] | p # ps \<Rightarrow> (x # p) # ps)"

text \<open>\<open>s.split(c, 1)\<close>: the part before the first \<open>c\<close>, and the rest if there is one.\<close>

fun str_split1 :: "char \<Rightarrow> string \<Rightarrow> string \<times> string option" where
  "str_split1 c [] = ([], None)"
| "str_split1 c (x # xs) =
     (if x = c then ([], Some xs)
      else case str_split1 c xs of (a, b) \<Rightarrow> (x # a, b))"

text \<open>\<open>s.split()\<close>: maximal runs of non-space characters.\<close>

fun str_words_acc :: "string \<Rightarrow> string \<Rightarrow> string list" where
  "str_words_acc w [] = (if w = [] then [] else [rev w])"
| "str_words_acc w (x # xs) =
     (if is_space x then (if w = [] then str_words_acc [] xs else rev w # str_words_acc [] xs)
      else str_words_acc (x # w) xs)"

definition str_words :: "string \<Rightarrow> string list" where
  "str_words s = str_words_acc [] s"

fun str_join :: "string \<Rightarrow> string list \<Rightarrow> string" where
  "str_join sep [] = []"
| "str_join sep [x] = x"
| "str_join sep (x # y # ys) = x @ sep @ str_join sep (y # ys)"

fun str_prefix :: "string \<Rightarrow> string \<Rightarrow> bool" where
  "str_prefix [] s = True"
| "str_prefix (p # ps) [] = False"
| "str_prefix (p # ps) (c # s) = (p = c \<and> str_prefix ps s)"

fun str_contains :: "string \<Rightarrow> string \<Rightarrow> bool" where
  "str_contains p [] = (p = [])"
| "str_contains p (c # s) = (str_prefix p (c # s) \<or> str_contains p s)"

lemma str_split_nonempty [simp]: "str_split c s \<noteq> []"
  by (induction s) (auto split: list.splits)

lemma str_split_no_sep: "c \<notin> set s \<Longrightarrow> str_split c s = [s]"
  by (induction s) auto

lemma str_split_append:
  "c \<notin> set a \<Longrightarrow> str_split c (a @ c # b) = a # str_split c b"
  by (induction a) auto

lemma str_split1_no_sep: "c \<notin> set s \<Longrightarrow> str_split1 c s = (s, None)"
  by (induction s) auto

lemma str_split1_append: "c \<notin> set a \<Longrightarrow> str_split1 c (a @ c # b) = (a, Some b)"
  by (induction a) auto

lemma str_lstrip_id: "(\<forall>c \<in> set s. \<not> is_space c) \<Longrightarrow> str_lstrip s = s"
  by (cases s) (auto simp: str_lstrip_def)

lemma str_strip_id: "(\<forall>c \<in> set s. \<not> is_space c) \<Longrightarrow> str_strip s = s"
  by (simp add: str_strip_def str_lstrip_id)

section \<open>Decimal numbers\<close>

fun digits_of_nat :: "nat \<Rightarrow> string" where
  "digits_of_nat n =
     (if n < 10 then [char_of (48 + n)]
      else digits_of_nat (n div 10) @ [char_of (48 + n mod 10)])"

declare digits_of_nat.simps [simp del]

definition str_of_int :: "int \<Rightarrow> string" where
  "str_of_int i = (if i < 0 then ''-'' @ digits_of_nat (nat (- i)) else digits_of_nat (nat i))"

definition nat_of_digits :: "string \<Rightarrow> nat" where
  "nat_of_digits s = foldl (\<lambda>n c. 10 * n + digit_val c) 0 s"

text \<open>
  The digits of a Python literal: underscores may stand between two digits.
\<close>

fun strip_underscores :: "string \<Rightarrow> string option" where
  "strip_underscores [] = None"
| "strip_underscores [c] = (if is_digit c then Some [c] else None)"
| "strip_underscores (c # d # s) =
     (if \<not> is_digit c then None
      else if d = CHR ''_'' then map_option ((#) c) (strip_underscores s)
      else map_option ((#) c) (strip_underscores (d # s)))"

definition nat_of_str :: "string \<Rightarrow> nat option" where
  "nat_of_str s = map_option nat_of_digits (strip_underscores s)"

fun split_sign :: "string \<Rightarrow> bool \<times> string" where
  "split_sign [] = (False, [])"
| "split_sign (c # s) =
     (if c = CHR ''-'' then (True, s) else if c = CHR ''+'' then (False, s) else (False, c # s))"

text \<open>\<open>int(s)\<close> on a string; \<open>None\<close> is the ValueError.\<close>

definition int_of_str :: "string \<Rightarrow> int option" where
  "int_of_str s =
     (case split_sign (str_strip s) of (neg, u) \<Rightarrow>
        map_option (\<lambda>n. if neg then - int n else int n) (nat_of_str u))"

lemma digit_char [simp]:
  "n < 10 \<Longrightarrow> is_digit (char_of (48 + n))"
  "n < 10 \<Longrightarrow> digit_val (char_of (48 + n)) = n"
  by (simp_all add: is_digit_def digit_val_def Let_def)

lemma digits_are_digits: "\<forall>c \<in> set (digits_of_nat n). is_digit c"
proof (induction n rule: digits_of_nat.induct)
  case (1 n)
  then show ?case by (subst digits_of_nat.simps) auto
qed

lemma digits_nonempty [simp]: "digits_of_nat n \<noteq> []"
  by (subst digits_of_nat.simps) simp

lemma nat_of_digits_of_nat [simp]: "nat_of_digits (digits_of_nat n) = n"
proof (induction n rule: digits_of_nat.induct)
  case (1 n)
  then show ?case
    by (subst digits_of_nat.simps) (auto simp: nat_of_digits_def)
qed

lemma digit_not_special:
  "is_digit c \<Longrightarrow> c \<noteq> CHR ''_''" "is_digit c \<Longrightarrow> \<not> is_space c"
  "is_digit c \<Longrightarrow> c \<noteq> CHR ''-''" "is_digit c \<Longrightarrow> c \<noteq> CHR ''+''"
  "is_digit c \<Longrightarrow> c \<noteq> CHR ''.''" "is_digit c \<Longrightarrow> c \<noteq> CHR ''/''" "is_digit c \<Longrightarrow> c \<noteq> CHR '':''"
  by (auto simp: is_digit_def is_space_def Let_def)

lemma strip_underscores_digits:
  "s \<noteq> [] \<Longrightarrow> \<forall>c \<in> set s. is_digit c \<Longrightarrow> strip_underscores s = Some s"
  by (induction s rule: strip_underscores.induct) (auto dest: digit_not_special)

lemma nat_of_str_digits [simp]: "nat_of_str (digits_of_nat n) = Some n"
  by (simp add: nat_of_str_def strip_underscores_digits digits_are_digits)

lemma split_sign_digits: "\<forall>c \<in> set s. is_digit c \<Longrightarrow> split_sign s = (False, s)"
  by (cases s) (auto dest: digit_not_special)

text \<open>Printing an integer and reading it back.\<close>

lemma int_of_str_of_int [simp]: "int_of_str (str_of_int i) = Some i"
proof (cases "i < 0")
  case True
  have "\<forall>c \<in> set (CHR ''-'' # digits_of_nat (nat (- i))). \<not> is_space c"
    using digits_are_digits digit_not_special(2) by (auto simp: is_space_def)
  then have "str_strip (CHR ''-'' # digits_of_nat (nat (- i))) = CHR ''-'' # digits_of_nat (nat (- i))"
    by (rule str_strip_id)
  with True show ?thesis by (simp add: int_of_str_def str_of_int_def)
next
  case False
  have "str_strip (digits_of_nat (nat i)) = digits_of_nat (nat i)"
    using digits_are_digits digit_not_special(2) by (intro str_strip_id) blast
  with False show ?thesis
    by (simp add: int_of_str_def str_of_int_def split_sign_digits digits_are_digits)
qed

lemma str_of_int_inj [simp]: "str_of_int i = str_of_int j \<longleftrightarrow> i = j"
  using int_of_str_of_int by (metis option.inject)

section \<open>Floats\<close>

datatype pyfloat = Fin rat | PInf | NInf | NaN

definition pow2 :: "int \<Rightarrow> rat" where
  "pow2 e = (if 0 \<le> e then 2 ^ nat e else 1 / 2 ^ nat (- e))"

text \<open>The exponent of a positive rational: the largest \<open>e\<close> with \<open>pow2 e \<le> x\<close>.\<close>

definition ilog2 :: "rat \<Rightarrow> int" where
  "ilog2 x = (case quotient_of x of (p, q) \<Rightarrow>
     let e = bitlen p - bitlen q in if pow2 e \<le> x then e else e - 1)"

definition round_half_even :: "rat \<Rightarrow> int" where
  "round_half_even x =
     (let f = \<lfloor>x\<rfloor>; d = x - of_int f in
      if d < 1 / 2 then f else if d > 1 / 2 then f + 1 else if even f then f else f + 1)"

definition fl :: "rat \<Rightarrow> pyfloat" where
  "fl x = (if x = 0 then Fin 0 else
     let u = pow2 (max (ilog2 \<bar>x\<bar>) (- 1022) - 52);
         r = of_int (round_half_even (\<bar>x\<bar> / u)) * u
     in if pow2 1024 \<le> r then (if 0 < x then PInf else NInf)
        else Fin (if 0 < x then r else - r))"

fun flt_le :: "pyfloat \<Rightarrow> pyfloat \<Rightarrow> bool" where
  "flt_le NaN _ = False"
| "flt_le _ NaN = False"
| "flt_le NInf _ = True"
| "flt_le _ PInf = True"
| "flt_le (Fin a) (Fin b) = (a \<le> b)"
| "flt_le _ _ = False"

definition flt_lt :: "pyfloat \<Rightarrow> pyfloat \<Rightarrow> bool" where
  "flt_lt a b \<longleftrightarrow> flt_le a b \<and> \<not> flt_le b a"

fun flt_neg :: "pyfloat \<Rightarrow> pyfloat" where
  "flt_neg (Fin a) = Fin (- a)"
| "flt_neg PInf = NInf"
| "flt_neg NInf = PInf"
| "flt_neg NaN = NaN"

fun flt_sgn :: "pyfloat \<Rightarrow> int" where
  "flt_sgn (Fin a) = (if 0 < a then 1 else if a < 0 then - 1 else 0)"
| "flt_sgn PInf = 1"
| "flt_sgn NInf = - 1"
| "flt_sgn NaN = 0"

definition flt_mul :: "pyfloat \<Rightarrow> pyfloat \<Rightarrow> pyfloat" where
  "flt_mul x y = (case (x, y) of
       (Fin a, Fin b) \<Rightarrow> fl (a * b)
     | (NaN, _) \<Rightarrow> NaN
     | (_, NaN) \<Rightarrow> NaN
     | _ \<Rightarrow> (let s = flt_sgn x * flt_sgn y in
              if s = 0 then NaN else if 0 < s then PInf else NInf))"

text \<open>Division by a non-zero divisor; the sources divide only after a test.\<close>

definition flt_div :: "pyfloat \<Rightarrow> pyfloat \<Rightarrow> pyfloat" where
  "flt_div x y = (case (x, y) of
       (Fin a, Fin b) \<Rightarrow> fl (a / b)
     | (NaN, _) \<Rightarrow> NaN
     | (_, NaN) \<Rightarrow> NaN
     | (Fin a, _) \<Rightarrow> Fin 0
     | (_, Fin b) \<Rightarrow> (if (0 \<le> b) = (flt_sgn x = 1) then PInf else NInf)
     | _ \<Rightarrow> NaN)"

text \<open>\<open>int(f)\<close> truncates; NaN is a ValueError and an infinity an OverflowError.\<close>

definition int_of_float :: "pyfloat \<Rightarrow> int res" where
  "int_of_float x = (case x of
       Fin a \<Rightarrow> Inr (if 0 \<le> a then \<lfloor>a\<rfloor> else \<lceil>a\<rceil>)
     | NaN \<Rightarrow> Inl ValueErr
     | _ \<Rightarrow> Inl OverflowErr)"

lemma pow2_pos [simp]: "0 < pow2 e"
  by (simp add: pow2_def)

lemma round_half_even_nonneg: "0 \<le> x \<Longrightarrow> 0 \<le> round_half_even x"
  by (auto simp: round_half_even_def Let_def)

lemma round_half_even_int [simp]: "round_half_even (of_int n) = n"
  by (simp add: round_half_even_def)

lemma fl_nonneg: "0 \<le> x \<Longrightarrow> fl x = PInf \<or> (\<exists>y \<ge> 0. fl x = Fin y)"
proof (cases "x = 0")
  case False
  assume "0 \<le> x"
  let ?u = "pow2 (max (ilog2 \<bar>x\<bar>) (- 1022) - 52)"
  have "0 \<le> round_half_even (\<bar>x\<bar> / ?u)"
    by (rule round_half_even_nonneg) (simp add: less_imp_le)
  with False \<open>0 \<le> x\<close> show ?thesis
    by (auto simp: fl_def Let_def less_imp_le)
qed (simp add: fl_def)

lemma pow2_nonneg_exp: "0 \<le> e \<Longrightarrow> pow2 e = of_int (2 ^ nat e)"
  by (simp add: pow2_def)

lemma ilog2_of_int:
  assumes "0 < n"
  shows "ilog2 (of_int n) = bitlen n - 1" and "0 \<le> bitlen n - 1"
proof -
  from assms have b: "2 ^ nat (bitlen n - 1) \<le> n" and p: "0 < bitlen n"
    using bitlen_bounds [of n] by (cases "bitlen n \<le> 0"; simp)+
  then show "0 \<le> bitlen n - 1" by simp
  with b have "pow2 (bitlen n - 1) \<le> of_int n"
    by (simp only: pow2_nonneg_exp of_int_le_iff)
  with assms show "ilog2 (of_int n) = bitlen n - 1"
    by (simp add: ilog2_def quotient_of_int bitlen_def floorlog_def)
qed

text \<open>Integers below \<open>2^53\<close> in size are floats.\<close>

lemma fl_of_int:
  assumes "\<bar>n\<bar> < 2 ^ 53"
  shows "fl (of_int n) = Fin (of_int n)"
proof (cases "n = 0")
  case False
  let ?m = "\<bar>n\<bar>" and ?e = "bitlen \<bar>n\<bar> - 1"
  from False have m: "0 < ?m" by simp
  have e0: "0 \<le> ?e" by (rule ilog2_of_int(2) [OF m])
  have e52: "?e \<le> 52"
  proof (rule ccontr)
    assume "\<not> ?e \<le> 52"
    then have "(2::int) ^ 53 \<le> 2 ^ nat ?e"
      by (intro power_increasing) auto
    also have "\<dots> \<le> ?m" using bitlen_bounds [OF m] by simp
    finally show False using assms by simp
  qed
  let ?k = "nat (52 - ?e)"
  have u: "pow2 (max (ilog2 \<bar>of_int n\<bar>) (- 1022) - 52) = 1 / 2 ^ ?k"
    using e0 e52 ilog2_of_int(1) [OF m] by (auto simp: pow2_def)
  have "(\<bar>of_int n\<bar> :: rat) / (1 / 2 ^ ?k) = of_int (?m * 2 ^ ?k)" by simp
  then have r: "of_int (round_half_even (\<bar>of_int n\<bar> / (1 / 2 ^ ?k))) * (1 / 2 ^ ?k) = (of_int ?m :: rat)"
    by (simp only: round_half_even_int) simp
  have "(of_int ?m :: rat) < pow2 1024"
  proof -
    have "?m < 2 ^ 1024" using assms by (rule order_less_le_trans) simp
    then have "(of_int ?m :: rat) < of_int (2 ^ 1024)" by (simp only: of_int_less_iff)
    then show ?thesis by (simp only: pow2_nonneg_exp) simp
  qed
  with False u r show ?thesis
    by (auto simp: fl_def Let_def abs_if)
qed (simp add: fl_def)

section \<open>The values of a TOML document\<close>

text \<open>
  What \<open>tomllib\<close> returns: strings, integers, floats, booleans, dates and times
  (by their text), arrays, and tables as dictionaries with string keys.
\<close>

datatype pyval =
    VStr string
  | VInt int
  | VFloat pyfloat
  | VBool bool
  | VDate string
  | VList "pyval list"
  | VDict "(string \<times> pyval) list"

text \<open>\<open>bool(v)\<close>\<close>

definition py_truthy :: "pyval \<Rightarrow> bool" where
  "py_truthy v = (case v of
       VStr s \<Rightarrow> s \<noteq> []
     | VInt i \<Rightarrow> i \<noteq> 0
     | VFloat f \<Rightarrow> f \<noteq> Fin 0
     | VBool b \<Rightarrow> b
     | VDate _ \<Rightarrow> True
     | VList xs \<Rightarrow> xs \<noteq> []
     | VDict d \<Rightarrow> d \<noteq> [])"

text \<open>\<open>int(v)\<close>\<close>

definition py_int :: "pyval \<Rightarrow> int res" where
  "py_int v = (case v of
       VStr s \<Rightarrow> (case int_of_str s of None \<Rightarrow> Inl ValueErr | Some i \<Rightarrow> Inr i)
     | VInt i \<Rightarrow> Inr i
     | VFloat f \<Rightarrow> int_of_float f
     | VBool b \<Rightarrow> Inr (if b then 1 else 0)
     | _ \<Rightarrow> Inl TypeErr)"

text \<open>The decimal forms \<open>float(s)\<close> reads.\<close>

definition digits_opt :: "string \<Rightarrow> string option" where
  "digits_opt s = (if s = [] then Some [] else strip_underscores s)"

definition decimal_value :: "string \<Rightarrow> rat option" where
  "decimal_value s =
     (case str_split1 (CHR ''.'') s of
        (a, None) \<Rightarrow> map_option (\<lambda>n. of_nat n) (nat_of_str a)
      | (a, Some b) \<Rightarrow>
          if a = [] \<and> b = [] then None
          else (case (digits_opt a, digits_opt b) of
                  (Some x, Some y) \<Rightarrow>
                    Some (of_nat (nat_of_digits x) + of_nat (nat_of_digits y) / 10 ^ length y)
                | _ \<Rightarrow> None))"

definition scaled_value :: "string \<Rightarrow> rat option" where
  "scaled_value s =
     (case str_split1 (CHR ''e'') s of
        (m, None) \<Rightarrow> decimal_value m
      | (m, Some x) \<Rightarrow>
          (case (decimal_value m, split_sign x) of
             (Some v, (neg, ds)) \<Rightarrow>
               map_option (\<lambda>n. if neg then v / 10 ^ n else v * 10 ^ n) (nat_of_str ds)
           | _ \<Rightarrow> None))"

definition float_of_str :: "string \<Rightarrow> pyfloat option" where
  "float_of_str s =
     (case split_sign (str_lower (str_strip s)) of (neg, u) \<Rightarrow>
        map_option (\<lambda>x. if neg then flt_neg x else x)
          (if u = ''inf'' \<or> u = ''infinity'' then Some PInf
           else if u = ''nan'' then Some NaN
           else map_option fl (scaled_value u)))"

text \<open>\<open>float(v)\<close>; an integer too large for a float is an OverflowError.\<close>

definition py_float :: "pyval \<Rightarrow> pyfloat res" where
  "py_float v = (case v of
       VStr s \<Rightarrow> (case float_of_str s of None \<Rightarrow> Inl ValueErr | Some x \<Rightarrow> Inr x)
     | VInt i \<Rightarrow> (case fl (of_int i) of Fin x \<Rightarrow> Inr (Fin x) | _ \<Rightarrow> Inl OverflowErr)
     | VFloat f \<Rightarrow> Inr f
     | VBool b \<Rightarrow> Inr (Fin (if b then 1 else 0))
     | _ \<Rightarrow> Inl TypeErr)"

text \<open>
  \<open>str(v)\<close>. The text of floats, dates and containers is left to a parameter
  \<open>rep\<close>: no result of the sources depends on it beyond being some string.
\<close>

definition py_str :: "(pyval \<Rightarrow> string) \<Rightarrow> pyval \<Rightarrow> string" where
  "py_str rep v = (case v of
       VStr s \<Rightarrow> s
     | VInt i \<Rightarrow> str_of_int i
     | VBool b \<Rightarrow> (if b then ''True'' else ''False'')
     | _ \<Rightarrow> rep v)"

text \<open>Iterating a value, \<open>v.get(k, default)\<close>, \<open>v.items()\<close> and \<open>v[k]\<close>.\<close>

definition py_iter :: "pyval \<Rightarrow> pyval list res" where
  "py_iter v = (case v of
       VList xs \<Rightarrow> Inr xs
     | VDict d \<Rightarrow> Inr (map (\<lambda>(k, _). VStr k) d)
     | VStr s \<Rightarrow> Inr (map (\<lambda>c. VStr [c]) s)
     | _ \<Rightarrow> Inl TypeErr)"

definition py_get :: "pyval \<Rightarrow> string \<Rightarrow> pyval \<Rightarrow> pyval res" where
  "py_get v k def = (case v of VDict d \<Rightarrow> Inr (dict_get_or d k def) | _ \<Rightarrow> Inl AttributeErr)"

definition py_items :: "pyval \<Rightarrow> (string \<times> pyval) list res" where
  "py_items v = (case v of VDict d \<Rightarrow> Inr d | _ \<Rightarrow> Inl AttributeErr)"

definition py_index :: "pyval \<Rightarrow> string \<Rightarrow> pyval res" where
  "py_index v k = (case v of
       VDict d \<Rightarrow> (case map_of d k of None \<Rightarrow> Inl KeyErr | Some x \<Rightarrow> Inr x)
     | _ \<Rightarrow> Inl TypeErr)"

text \<open>Only lists and dictionaries cannot be keys of a dictionary.\<close>

definition py_hashable :: "pyval \<Rightarrow> bool" where
  "py_hashable v = (case v of VList _ \<Rightarrow> False | VDict _ \<Rightarrow> False | _ \<Rightarrow> True)"

lemma py_int_simps [simp]:
  "py_int (VInt i) = Inr i"
  "py_int (VBool b) = Inr (if b then 1 else 0)"
  "py_int (VList xs) = Inl TypeErr"
  "py_int (VDict d) = Inl TypeErr"
  "py_int (VDate t) = Inl TypeErr"
  "py_int (VFloat NaN) = Inl ValueErr"
  "py_int (VFloat PInf) = Inl OverflowErr"
  "py_int (VFloat NInf) = Inl OverflowErr"
  by (simp_all add: py_int_def int_of_float_def)

lemma py_float_simps [simp]:
  "py_float (VFloat f) = Inr f"
  "py_float (VList xs) = Inl TypeErr"
  "py_float (VDict d) = Inl TypeErr"
  by (simp_all add: py_float_def)

lemma py_get_VDict [simp]: "py_get (VDict d) k def = Inr (dict_get_or d k def)"
  by (simp add: py_get_def)

lemma py_iter_VList [simp]: "py_iter (VList xs) = Inr xs"
  by (simp add: py_iter_def)

lemma py_items_VDict [simp]: "py_items (VDict d) = Inr d"
  by (simp add: py_items_def)

end
