(* ===== verification/Ipaddr.thy ===== *)
theory Ipaddr
  imports PyValue
begin

text \<open>
  What the sources use of Python's \<open>ipaddress\<close> module (as of Python 3.12):
  reading and printing IPv4 and IPv6 addresses and networks with
  \<open>strict=False\<close>. An address is the integer it denotes. The readers return
  \<open>None\<close> where the module raises one of its subclasses of ValueError.
\<close>

section \<open>IPv4\<close>

definition parse_octet :: "string \<Rightarrow> int option" where
  "parse_octet s =
     (if s = [] \<or> \<not> list_all is_digit s \<or> 3 < length s \<or> s \<noteq> ''0'' \<and> hd s = CHR ''0'' then None
      else if 255 < nat_of_digits s then None else Some (int (nat_of_digits s)))"

definition ipv4_of_str :: "string \<Rightarrow> int option" where
  "ipv4_of_str s =
     (case map parse_octet (str_split (CHR ''.'') s) of
        [Some a, Some b, Some c, Some d] \<Rightarrow> Some (((a * 256 + b) * 256 + c) * 256 + d)
      | _ \<Rightarrow> None)"

definition ipv4_str :: "int \<Rightarrow> string" where
  "ipv4_str i = str_join ''.'' (map str_of_int
     [i div 16777216 mod 256, i div 65536 mod 256, i div 256 mod 256, i mod 256])"

text \<open>The netmask of a prefix length, and the network address under it.\<close>

definition netmask :: "nat \<Rightarrow> nat \<Rightarrow> int" where
  "netmask bits p = 2 ^ bits - 2 ^ (bits - p)"

definition mask_addr :: "nat \<Rightarrow> nat \<Rightarrow> int \<Rightarrow> int" where
  "mask_addr bits p i = i - i mod 2 ^ (bits - p)"

definition prefix_of_digits :: "nat \<Rightarrow> string \<Rightarrow> nat option" where
  "prefix_of_digits bits s =
     (if s = [] \<or> \<not> list_all is_digit s \<or> bits < nat_of_digits s then None
      else Some (nat_of_digits s))"

text \<open>A dotted mask: a netmask first, otherwise a hostmask.\<close>

definition prefix_of_mask :: "int \<Rightarrow> nat option" where
  "prefix_of_mask m =
     (case find (\<lambda>p. netmask 32 p = m) [0..<33] of
        Some p \<Rightarrow> Some p
      | None \<Rightarrow> find (\<lambda>p. netmask 32 p = 2 ^ 32 - 1 - m) [0..<33])"

definition ipv4_prefix :: "string \<Rightarrow> nat option" where
  "ipv4_prefix s =
     (case prefix_of_digits 32 s of
        Some p \<Rightarrow> Some p
      | None \<Rightarrow> Option.bind (ipv4_of_str s) prefix_of_mask)"

text \<open>\<open>IPv4Network(s, strict=False)\<close>: the network address and the prefix length.\<close>

definition ipv4_network :: "string \<Rightarrow> (int \<times> nat) option" where
  "ipv4_network s =
     (case str_split (CHR ''/'') s of
        [a] \<Rightarrow> map_option (\<lambda>i. (i, 32)) (ipv4_of_str a)
      | [a, m] \<Rightarrow>
          (case (ipv4_of_str a, ipv4_prefix m) of
             (Some i, Some p) \<Rightarrow> Some (mask_addr 32 p i, p)
           | _ \<Rightarrow> None)
      | _ \<Rightarrow> None)"

definition ipv4_network_str :: "int \<times> nat \<Rightarrow> string" where
  "ipv4_network_str n = ipv4_str (fst n) @ ''/'' @ str_of_int (int (snd n))"

section \<open>IPv6\<close>

definition hex_val :: "char \<Rightarrow> nat option" where
  "hex_val c = (let n = of_char c :: nat in
     if 48 \<le> n \<and> n \<le> 57 then Some (n - 48)
     else if 97 \<le> n \<and> n \<le> 102 then Some (n - 87)
     else if 65 \<le> n \<and> n \<le> 70 then Some (n - 55) else None)"

fun hex_digits :: "string \<Rightarrow> nat list option" where
  "hex_digits [] = Some []"
| "hex_digits (c # s) =
     (case (hex_val c, hex_digits s) of (Some d, Some ds) \<Rightarrow> Some (d # ds) | _ \<Rightarrow> None)"

definition parse_hextet :: "string \<Rightarrow> int option" where
  "parse_hextet s =
     (if s = [] \<or> 4 < length s then None
      else map_option (\<lambda>ds. int (foldl (\<lambda>n d. 16 * n + d) 0 ds)) (hex_digits s))"

definition hex_char :: "nat \<Rightarrow> char" where
  "hex_char d = char_of (if d < 10 then 48 + d else 87 + d)"

fun hex_str :: "nat \<Rightarrow> string" where
  "hex_str n = (if n < 16 then [hex_char n] else hex_str (n div 16) @ [hex_char (n mod 16)])"

declare hex_str.simps [simp del]

fun all_some :: "'a option list \<Rightarrow> 'a list option" where
  "all_some [] = Some []"
| "all_some (x # xs) = (case (x, all_some xs) of (Some a, Some as) \<Rightarrow> Some (a # as) | _ \<Rightarrow> None)"

definition hextets_int :: "int list \<Rightarrow> int" where
  "hextets_int hs = foldl (\<lambda>n h. 65536 * n + h) 0 hs"

text \<open>The parts between colons, with a dotted IPv4 tail turned into two hextets.\<close>

definition ipv6_parts :: "string \<Rightarrow> string list option" where
  "ipv6_parts s =
     (let ps = str_split (CHR '':'') s in
      if length ps < 3 then None
      else if CHR ''.'' \<in> set (last ps)
      then map_option (\<lambda>i. butlast ps @ [hex_str (nat (i div 65536)), hex_str (nat (i mod 65536))])
             (ipv4_of_str (last ps))
      else Some ps)"

text \<open>The inner indices of empty parts: at most one may be, and stands for \<open>::\<close>.\<close>

definition empty_inner :: "string list \<Rightarrow> nat list" where
  "empty_inner ps = filter (\<lambda>i. ps ! i = []) [1..<length ps - 1]"

definition ipv6_skip :: "string list \<Rightarrow> nat \<Rightarrow> int option" where
  "ipv6_skip ps k =
     (let hi = take k ps; lo = drop (Suc k) ps;
          hi_bad = (hd ps = [] \<and> k \<noteq> 1); lo_bad = (last ps = [] \<and> length lo \<noteq> 1);
          hi' = (if hd ps = [] then [] else hi); lo' = (if last ps = [] then [] else lo)
      in if hi_bad \<or> lo_bad \<or> 8 < length hi' + length lo' + 1 then None
         else (case (all_some (map parse_hextet hi'), all_some (map parse_hextet lo')) of
                 (Some h, Some l) \<Rightarrow>
                   Some (hextets_int (h @ replicate (8 - length h - length l) 0 @ l))
               | _ \<Rightarrow> None))"

definition ipv6_int_of_str :: "string \<Rightarrow> int option" where
  "ipv6_int_of_str s =
     (case ipv6_parts s of None \<Rightarrow> None
      | Some ps \<Rightarrow>
          if 9 < length ps then None
          else (case empty_inner ps of
                  [] \<Rightarrow> if length ps \<noteq> 8 then None
                        else map_option hextets_int (all_some (map parse_hextet ps))
                | [k] \<Rightarrow> ipv6_skip ps k
                | _ \<Rightarrow> None))"

text \<open>\<open>IPv6Address(s)\<close>: the address and its scope id, empty when it has none.\<close>

definition ipv6_of_str :: "string \<Rightarrow> (int \<times> string) option" where
  "ipv6_of_str s =
     (if CHR ''/'' \<in> set s then None
      else case str_split1 (CHR ''%'') s of
             (a, None) \<Rightarrow> map_option (\<lambda>i. (i, [])) (ipv6_int_of_str a)
           | (a, Some z) \<Rightarrow>
               if z = [] \<or> CHR ''%'' \<in> set z then None
               else map_option (\<lambda>i. (i, z)) (ipv6_int_of_str a))"

definition hextets_of :: "int \<Rightarrow> int list" where
  "hextets_of i = map (\<lambda>k. i div 65536 ^ k mod 65536) [7, 6, 5, 4, 3, 2, 1, 0]"

text \<open>The first of the longest runs of zero hextets: its start and its length.\<close>

fun best_run :: "int list \<Rightarrow> nat \<Rightarrow> nat \<Rightarrow> nat \<times> nat \<Rightarrow> nat \<times> nat" where
  "best_run [] i len best = best"
| "best_run (h # hs) i len best =
     (if h = 0 then
        (let len' = Suc len in
         best_run hs (Suc i) len' (if snd best < len' then (Suc i - len', len') else best))
      else best_run hs (Suc i) 0 best)"

definition ipv6_str :: "int \<Rightarrow> string" where
  "ipv6_str i =
     (let hs = hextets_of i; ss = map (\<lambda>h. hex_str (nat h)) hs;
          (start, len) = best_run hs 0 0 (0, 0)
      in if len \<le> 1 then str_join '':'' ss
         else str_join '':''
           ((if start = 0 then [[]] else []) @ take start ss @ [[]] @
            drop (start + len) ss @ (if start + len = 8 then [[]] else [])))"

definition ipv6_addr_str :: "int \<times> string \<Rightarrow> string" where
  "ipv6_addr_str a = ipv6_str (fst a) @ (if snd a = [] then [] else CHR ''%'' # snd a)"

text \<open>
  \<open>IPv6Network(s, strict=False)\<close>: an address with host bits is replaced by its
  network address, which has no scope id.
\<close>

definition ipv6_network :: "string \<Rightarrow> ((int \<times> string) \<times> nat) option" where
  "ipv6_network s =
     (case str_split (CHR ''/'') s of
        [a] \<Rightarrow> map_option (\<lambda>x. (x, 128)) (ipv6_of_str a)
      | [a, m] \<Rightarrow>
          (case (ipv6_of_str a, prefix_of_digits 128 m) of
             (Some (i, sc), Some p) \<Rightarrow>
               Some (if mask_addr 128 p i = i then (i, sc) else (mask_addr 128 p i, []), p)
           | _ \<Rightarrow> None)
      | _ \<Rightarrow> None)"

definition ipv6_network_str :: "(int \<times> string) \<times> nat \<Rightarrow> string" where
  "ipv6_network_str n = ipv6_addr_str (fst n) @ ''/'' @ str_of_int (int (snd n))"

section \<open>Reading back what was printed (IPv4)\<close>

lemma digit_char_nonzero: "0 < (d::nat) \<Longrightarrow> d < 10 \<Longrightarrow> char_of (48 + d) \<noteq> CHR ''0''"
proof
  assume d: "0 < d" "d < 10" and "char_of (48 + d) = CHR ''0''"
  then have "of_char (char_of (48 + d) :: char) = (48 :: nat)" by (simp only:) simp
  with d show False by (simp add: take_bit_eq_mod)
qed

lemma hd_digits_nonzero: "0 < n \<Longrightarrow> hd (digits_of_nat n) \<noteq> CHR ''0''"
proof (induction n rule: digits_of_nat.induct)
  case (1 n)
  show ?case
  proof (cases "n < 10")
    case True
    with 1(2) show ?thesis
      using digit_char_nonzero [of n] by (subst digits_of_nat.simps) simp
  next
    case False
    then have "hd (digits_of_nat n) = hd (digits_of_nat (n div 10))"
      by (subst digits_of_nat.simps) (simp add: hd_append)
    with False 1(1) show ?thesis by simp
  qed
qed

lemma digits_of_zero [simp]: "digits_of_nat 0 = ''0''"
  by (subst digits_of_nat.simps) (simp add: char_of_eq_iff)

lemma length_digits: "n < 10 ^ k \<Longrightarrow> 0 < k \<Longrightarrow> length (digits_of_nat n) \<le> k"
proof (induction n arbitrary: k rule: digits_of_nat.induct)
  case (1 n)
  show ?case
  proof (cases "n < 10")
    case True
    with 1(3) show ?thesis by (subst digits_of_nat.simps) simp
  next
    case False
    with 1(2) have k: "1 < k" by (cases k) (auto intro: gr0I)
    then obtain j where j: "k = Suc j" "0 < j" by (cases k) auto
    with 1(2) have "n div 10 < 10 ^ j" by (simp add: div_less_iff_less_mult mult.commute)
    with 1(1) [OF False] j False show ?thesis by (subst digits_of_nat.simps) simp
  qed
qed

lemma parse_octet_str:
  assumes "0 \<le> i" and "i \<le> 255"
  shows "parse_octet (str_of_int i) = Some i"
proof -
  from assms have "length (digits_of_nat (nat i)) \<le> 3"
    by (intro length_digits) auto
  moreover have "digits_of_nat (nat i) \<noteq> ''0'' \<longrightarrow> hd (digits_of_nat (nat i)) \<noteq> CHR ''0''"
    using digits_of_zero hd_digits_nonzero by (metis gr0I)
  moreover have "list_all is_digit (digits_of_nat (nat i))"
    by (simp add: list_all_iff digits_are_digits)
  ultimately have "parse_octet (digits_of_nat (nat i)) = Some (int (nat i))"
    using assms unfolding parse_octet_def nat_of_digits_of_nat by auto
  with assms show ?thesis by (simp add: str_of_int_def)
qed

lemma str_of_int_digits: "0 \<le> i \<Longrightarrow> \<forall>c \<in> set (str_of_int i). is_digit c"
  by (simp add: str_of_int_def digits_are_digits)

lemma no_sep_str_of_int:
  assumes "0 \<le> i"
  shows "CHR ''.'' \<notin> set (str_of_int i)" "CHR ''/'' \<notin> set (str_of_int i)"
    "CHR '':'' \<notin> set (str_of_int i)"
proof -
  have "\<not> is_digit (CHR ''.'')" "\<not> is_digit (CHR ''/'')" "\<not> is_digit (CHR '':'')"
    by (simp_all add: is_digit_def)
  with str_of_int_digits [OF assms]
  show "CHR ''.'' \<notin> set (str_of_int i)" "CHR ''/'' \<notin> set (str_of_int i)"
    "CHR '':'' \<notin> set (str_of_int i)"
    by auto
qed

text \<open>Four pieces without a separator, joined and split again.\<close>

lemma split_join4:
  assumes "s \<notin> set a" "s \<notin> set b" "s \<notin> set c" "s \<notin> set d"
  shows "str_split s (str_join [s] [a, b, c, d]) = [a, b, c, d]"
  using assms by (simp add: str_split_append str_split_no_sep)

lemma ipv4_octets_sum:
  assumes "0 \<le> (i::int)" and "i < 2 ^ 32"
  shows "((i div 16777216 mod 256 * 256 + i div 65536 mod 256) * 256 + i div 256 mod 256) * 256
    + i mod 256 = i"
proof -
  have "i div 16777216 mod 256 = i div 16777216" using assms by simp
  moreover have "i div 16777216 = i div 65536 div 256" and "i div 65536 = i div 256 div 256"
    by (simp_all flip: zdiv_zmult2_eq)
  ultimately show ?thesis by simp
qed

lemma ipv4_of_octets:
  assumes "0 \<le> a" "a \<le> 255" "0 \<le> b" "b \<le> 255" "0 \<le> c" "c \<le> 255" "0 \<le> d" "d \<le> 255"
  shows "ipv4_of_str (str_join ''.'' (map str_of_int [a, b, c, d])) =
    Some (((a * 256 + b) * 256 + c) * 256 + d)"
proof -
  let ?s = "map str_of_int [a, b, c, d]"
  have "str_split (CHR ''.'') (str_join ''.'' ?s) = ?s"
    using assms by (simp only: list.map, intro split_join4 no_sep_str_of_int)
  then show ?thesis
    unfolding ipv4_of_str_def using assms by (simp add: parse_octet_str)
qed

text \<open>Every 32-bit address is read back from its dotted form.\<close>

lemma ipv4_of_str_str:
  assumes "0 \<le> i" and "i < 2 ^ 32"
  shows "ipv4_of_str (ipv4_str i) = Some i"
proof -
  have r: "0 \<le> x mod 256 \<and> x mod 256 \<le> 255" for x :: int
    using pos_mod_bound [of 256 x] by simp
  show ?thesis
    unfolding ipv4_str_def using r
    by (subst ipv4_of_octets) (simp_all only: ipv4_octets_sum [OF assms])
qed

lemma parse_octet_range: "parse_octet t = Some x \<Longrightarrow> 0 \<le> x \<and> x \<le> 255"
  by (auto simp: parse_octet_def split: if_splits)

lemma ipv4_of_str_range:
  assumes "ipv4_of_str s = Some i"
  shows "0 \<le> i \<and> i < 2 ^ 32"
proof -
  from assms obtain a b c d where
      "map parse_octet (str_split (CHR ''.'') s) = [Some a, Some b, Some c, Some d]"
      and i: "i = ((a * 256 + b) * 256 + c) * 256 + d"
    by (auto simp: ipv4_of_str_def split: list.splits option.splits)
  then have "0 \<le> a \<and> a \<le> 255" "0 \<le> b \<and> b \<le> 255" "0 \<le> c \<and> c \<le> 255" "0 \<le> d \<and> d \<le> 255"
    unfolding map_eq_Cons_conv by (metis parse_octet_range)+
  with i show ?thesis by auto
qed

lemma mask_addr_range:
  assumes "0 \<le> i" and "i < 2 ^ bits"
  shows "0 \<le> mask_addr bits p i \<and> mask_addr bits p i < 2 ^ bits"
proof -
  have "0 \<le> i mod 2 ^ (bits - p)" by simp
  moreover have "i mod 2 ^ (bits - p) \<le> i" using assms(1) by (rule zmod_le_nonneg_dividend)
  ultimately show ?thesis using assms unfolding mask_addr_def by linarith
qed

lemma mask_addr_idem [simp]: "mask_addr bits p (mask_addr bits p i) = mask_addr bits p i"
  by (simp add: mask_addr_def flip: minus_mod_eq_mult_div)

lemma mask_addr_full [simp]: "mask_addr bits bits i = i"
  by (simp add: mask_addr_def)

lemma prefix_of_digits_str:
  "p \<le> bits \<Longrightarrow> prefix_of_digits bits (str_of_int (int p)) = Some p"
  using digits_are_digits [of p]
  by (auto simp: prefix_of_digits_def str_of_int_def list_all_iff)

lemma prefix_of_digits_le: "prefix_of_digits bits s = Some p \<Longrightarrow> p \<le> bits"
  by (auto simp: prefix_of_digits_def split: if_splits)

lemma find_in_set: "find P xs = Some x \<Longrightarrow> x \<in> set xs"
  by (auto simp: find_Some_iff)

lemma prefix_of_mask_le: "prefix_of_mask m = Some p \<Longrightarrow> p \<le> 32"
  unfolding prefix_of_mask_def
  by (auto simp del: upt_rec_numeral split: option.splits dest!: find_in_set)

lemma ipv4_prefix_le: "ipv4_prefix s = Some p \<Longrightarrow> p \<le> 32"
  unfolding ipv4_prefix_def
  by (auto simp: bind_eq_Some_conv split: option.splits
      dest: prefix_of_digits_le prefix_of_mask_le)

lemma ipv4_network_range:
  assumes "ipv4_network s = Some (i, p)"
  shows "0 \<le> i \<and> i < 2 ^ 32 \<and> p \<le> 32 \<and> mask_addr 32 p i = i"
proof -
  from assms consider a where "ipv4_of_str a = Some i" "p = 32"
    | a m j where "ipv4_of_str a = Some j" "ipv4_prefix m = Some p" "i = mask_addr 32 p j"
    unfolding ipv4_network_def by (auto split: list.splits option.splits)
  then show ?thesis
  proof cases
    case 1
    with ipv4_of_str_range show ?thesis by simp
  next
    case 2
    with ipv4_of_str_range [OF 2(1)] mask_addr_range [of j 32 p] ipv4_prefix_le [OF 2(2)]
    show ?thesis by simp
  qed
qed

lemma ipv4_str_chars:
  assumes "0 \<le> i"
  shows "CHR ''/'' \<notin> set (ipv4_str i)" "CHR '':'' \<notin> set (ipv4_str i)"
  using assms unfolding ipv4_str_def
  by (simp_all add: no_sep_str_of_int pos_imp_zdiv_nonneg_iff)

lemma ipv4_network_roundtrip:
  assumes "ipv4_network s = Some n"
  shows "ipv4_network (ipv4_network_str n) = Some n"
proof -
  obtain i p where n: "n = (i, p)" by (cases n)
  with assms ipv4_network_range have r: "0 \<le> i" "i < 2 ^ 32" "p \<le> 32" "mask_addr 32 p i = i"
    by blast+
  have "str_split (CHR ''/'') (ipv4_network_str n) = [ipv4_str i, str_of_int (int p)]"
    using n r(1) ipv4_str_chars [OF r(1)] no_sep_str_of_int [of "int p"]
    by (simp add: ipv4_network_str_def str_split_append str_split_no_sep)
  moreover have "ipv4_prefix (str_of_int (int p)) = Some p"
    using r(3) by (simp add: ipv4_prefix_def prefix_of_digits_str)
  ultimately show ?thesis
    using n r ipv4_of_str_str [OF r(1,2)] by (simp add: ipv4_network_def)
qed

end
