(* ===== verification/Config.thy ===== *)
theory Config
  imports PyMonad Ipaddr
begin

text \<open>
  \<open>auto_xdp/config.py\<close>: the module's globals as records, the readers of the
  TOML values, the assignment of a whole document and its rollback. The text of
  floats, dates and containers under \<open>str\<close> is the parameter \<open>rep\<close>; the
  files and the environment are parameters of the definitions that read them.
\<close>

section \<open>The globals\<close>

record MapPaths =
  BPF_PIN_DIR :: string
  TCP_MAP_PATH :: string
  UDP_MAP_PATH :: string
  SCTP_MAP_PATH :: string
  TCP_CONNTRACK_MAP_PATH4 :: string
  TCP_CONNTRACK_MAP_PATH6 :: string
  UDP_CONNTRACK_MAP_PATH4 :: string
  UDP_CONNTRACK_MAP_PATH6 :: string
  TRUSTED_IPS_MAP_PATH4 :: string
  TRUSTED_IPS_MAP_PATH6 :: string
  TCP_PORT_POLICY_MAP_PATH :: string
  UDP_PORT_POLICY_MAP_PATH :: string
  UDP_GLOBAL_RL_MAP_PATH :: string
  XDP_RUNTIME_CFG_MAP_PATH :: string
  TCP_ACL_MAP_PATH4 :: string
  TCP_ACL_MAP_PATH6 :: string
  UDP_ACL_MAP_PATH4 :: string
  UDP_ACL_MAP_PATH6 :: string
  SIT4_ENDPOINTS_MAP_PATH :: string
  SYN4_MAP_PATH :: string
  SYN6_MAP_PATH :: string
  UDPRT4_MAP_PATH :: string
  UDPRT6_MAP_PATH :: string
  ABUSEIPDB_RISK_MAP_PATH4 :: string
  REQUIRED_XDP_MAP_PATHS :: "string list"

type_synonym rate_table = "(string, int) dict"

record RateTables =
  SYN_RATE_BY_PROC :: rate_table
  SYN_RATE_BY_SERVICE :: rate_table
  SYN_AGG_RATE_BY_PROC :: rate_table
  SYN_AGG_RATE_BY_SERVICE :: rate_table
  TCP_CONN_BY_PROC :: rate_table
  TCP_CONN_BY_SERVICE :: rate_table
  TCP_CONN_PREFIX_BY_PROC :: rate_table
  TCP_CONN_PREFIX_BY_SERVICE :: rate_table
  TCP_CONN_PORT_BY_PROC :: rate_table
  TCP_CONN_PORT_BY_SERVICE :: rate_table
  UDP_RATE_BY_PROC :: rate_table
  UDP_RATE_BY_SERVICE :: rate_table
  UDP_AGG_BYTES_BY_PROC :: rate_table
  UDP_AGG_BYTES_BY_SERVICE :: rate_table
  RATE_MAP_ENTRIES_BY_PROC :: rate_table
  RATE_MAP_ENTRIES_BY_SERVICE :: rate_table

record XdpRuntime =
  XDP_TCP_TIMEOUT_SECONDS :: pyfloat
  XDP_UDP_TIMEOUT_SECONDS :: pyfloat
  XDP_CONNTRACK_REFRESH_SECONDS :: pyfloat
  XDP_CONNTRACK_GC_INTERVAL_SECONDS :: pyfloat
  XDP_ICMP_BURST_PACKETS :: int
  XDP_ICMP_RATE_PPS :: pyfloat
  XDP_UDP_GLOBAL_WINDOW_SECONDS :: pyfloat
  XDP_RATE_WINDOW_SECONDS :: pyfloat
  XDP_SYN_TIMEOUT_SECONDS :: pyfloat
  XDP_SENSITIVE_PORT_THRESHOLD :: int
  XDP_DEFAULT_TCP_SYN_RATE_STRICT :: int
  XDP_DEFAULT_TCP_SYN_RATE :: int
  XDP_DEFAULT_TCP_SYN_AGG_RATE_STRICT :: int
  XDP_DEFAULT_TCP_SYN_AGG_RATE :: int
  XDP_DEFAULT_TCP_ESTABLISHED_PER_SRC_STRICT :: int
  XDP_DEFAULT_TCP_ESTABLISHED_PER_SRC :: int
  XDP_DEFAULT_TCP_ESTABLISHED_PER_PREFIX_STRICT :: int
  XDP_DEFAULT_TCP_ESTABLISHED_PER_PREFIX :: int
  XDP_DEFAULT_TCP_ESTABLISHED_PER_PORT_STRICT :: int
  XDP_DEFAULT_TCP_ESTABLISHED_PER_PORT :: int
  XDP_UDP_GLOBAL_BYTE_RATE :: int

text \<open>One entry of \<open>ACL_RULES\<close>; the protocol is whatever value the document has.\<close>

record AclRule =
  rule_proto :: pyval
  rule_cidr :: string
  rule_ports :: "int list"

record Config =
  TCP_PERMANENT :: "(int, string) dict"
  UDP_PERMANENT :: "(int, string) dict"
  SCTP_PERMANENT :: "(int, string) dict"
  TRUSTED_SRC_IPS :: "(string, string) dict"
  ACL_RULES :: "AclRule list"
  SIT4_ENDPOINTS :: "string list"
  DISCOVERY_EXCLUDE_BIND_CIDRS :: "string list"
  DISCOVERY_EXCLUDE_PORTS :: "int set"
  DISCOVERY_EXCLUDE_LOOPBACK :: bool
  rate_tables :: RateTables
  RATE_LIMIT_SOURCE_PREFIX_V4 :: int
  RATE_LIMIT_SOURCE_PREFIX_V6 :: int
  RATE_MAP_ENTRIES_V4 :: int
  RATE_MAP_ENTRIES_V6 :: int
  BOGON_FILTER_ENABLED :: bool
  ISATTACK_MODE :: bool
  DROP_EVENTS_ENABLED :: bool
  LOG_LEVEL :: string
  DEBOUNCE_SECONDS :: pyfloat
  PREFERRED_BACKEND :: string
  XDP_CONNTRACK_STALE_RECONCILES :: int
  xdp_runtime :: XdpRuntime
  NFT_FAMILY :: string
  NFT_TABLE :: string
  SLOT_DEFAULT_ACTION :: string
  ABUSEIPDB_ENABLED :: bool
  ABUSEIPDB_BASE_URL :: string
  ABUSEIPDB_SOURCES :: "string list"
  ABUSEIPDB_REFRESH_SECONDS :: pyfloat
  map_paths :: MapPaths
  REQUIRED_XDP_MAP_NAMES :: "string list"
  XDP_OBJ_PATH :: string
  TC_OBJ_PATH :: string

definition BACKEND_AUTO :: string where "BACKEND_AUTO = ''auto''"
definition BACKEND_XDP :: string where "BACKEND_XDP = ''xdp''"
definition BACKEND_NFTABLES :: string where "BACKEND_NFTABLES = ''nftables''"
definition ACL_MAX_PORTS :: nat where "ACL_MAX_PORTS = 64"
definition ACL_VAL_SIZE :: nat where "ACL_VAL_SIZE = 4 + ACL_MAX_PORTS * 2"
definition BPF_PIN_DIR_default :: string where "BPF_PIN_DIR_default = ''/sys/fs/bpf/xdp_fw''"

text \<open>The float nearest to 0.4.\<close>

definition float_0_4 :: pyfloat where
  "float_0_4 = Fin (3602879701896397 / 9007199254740992)"

definition abuseipdb_default_url :: string where
  "abuseipdb_default_url =
     ''https://raw.githubusercontent.com/borestad/blocklist-abuseipdb/refs/heads/main''"

definition DEFAULT_XDP_REQUIRED_MAP_NAMES :: "string list" where
  "DEFAULT_XDP_REQUIRED_MAP_NAMES =
     [''prog'', ''tcp_whitelist'', ''udp_whitelist'', ''sctp_whitelist'', ''tcp_ct4'', ''tcp_ct6'',
      ''udp_ct4'', ''udp_ct6'', ''sctp_conntrack'', ''trusted_ipv4'', ''trusted_ipv6'',
      ''tcp_port_policies'', ''udp_port_policies'', ''udp_global_rl'', ''xdp_runtime_cfg'',
      ''udp_percpu_acc'', ''proto_handlers'', ''tcp_port_handlers'', ''udp_port_handlers'',
      ''tcp_pd4'', ''tcp_pd6'', ''hblk4'', ''hblk6'', ''udp_hv4'', ''udp_hv6'', ''slot_ctx_map'',
      ''sit4_endpoints'', ''tsc_pfx4'', ''tsc_pfx6'', ''tsc_port'', ''abuseipdb_v4'',
      ''syn4'', ''syn6'', ''udprt4'', ''udprt6'']"

section \<open>The required maps\<close>

text \<open>The names of one file: comments stripped, blank lines dropped.\<close>

definition map_name_lines :: "string list \<Rightarrow> string list" where
  "map_name_lines ls =
     filter (\<lambda>l. l \<noteq> []) (map (\<lambda>l. str_strip (fst (str_split1 (CHR ''#'') l))) ls)"

text \<open>The first candidate file that can be read and names a map.\<close>

fun first_map_names :: "(string \<Rightarrow> string list res) \<Rightarrow> string list \<Rightarrow> string list res" where
  "first_map_names read_lines [] = Inr DEFAULT_XDP_REQUIRED_MAP_NAMES"
| "first_map_names read_lines (p # ps) =
     (case read_lines p of
        Inl (OSError _) \<Rightarrow> first_map_names read_lines ps
      | Inl e \<Rightarrow> Inl e
      | Inr ls \<Rightarrow>
          if map_name_lines ls \<noteq> [] then Inr (map_name_lines ls)
          else first_map_names read_lines ps)"

definition load_required_xdp_map_names ::
  "(string \<Rightarrow> string option) \<Rightarrow> (string \<Rightarrow> string list res) \<Rightarrow> string \<Rightarrow> string list res" where
  "load_required_xdp_map_names env read_lines package_dir =
     (let given = (\<lambda>k. case env k of None \<Rightarrow> [] | Some v \<Rightarrow> if v = [] then [] else [v]) in
      first_map_names read_lines
        (given ''XDP_REQUIRED_MAPS_FILE'' @
         [package_dir @ ''/xdp_required_maps.txt''] @
         map (\<lambda>d. d @ ''/xdp_required_maps.txt'') (given ''INSTALL_DIR'')))"

section \<open>The pin directory\<close>

definition paths_of_pin_dir :: "string list \<Rightarrow> string \<Rightarrow> MapPaths" where
  "paths_of_pin_dir names d = \<lparr>
     BPF_PIN_DIR = d,
     TCP_MAP_PATH = d @ ''/tcp_whitelist'',
     UDP_MAP_PATH = d @ ''/udp_whitelist'',
     SCTP_MAP_PATH = d @ ''/sctp_whitelist'',
     TCP_CONNTRACK_MAP_PATH4 = d @ ''/tcp_ct4'',
     TCP_CONNTRACK_MAP_PATH6 = d @ ''/tcp_ct6'',
     UDP_CONNTRACK_MAP_PATH4 = d @ ''/udp_ct4'',
     UDP_CONNTRACK_MAP_PATH6 = d @ ''/udp_ct6'',
     TRUSTED_IPS_MAP_PATH4 = d @ ''/trusted_ipv4'',
     TRUSTED_IPS_MAP_PATH6 = d @ ''/trusted_ipv6'',
     TCP_PORT_POLICY_MAP_PATH = d @ ''/tcp_port_policies'',
     UDP_PORT_POLICY_MAP_PATH = d @ ''/udp_port_policies'',
     UDP_GLOBAL_RL_MAP_PATH = d @ ''/udp_global_rl'',
     XDP_RUNTIME_CFG_MAP_PATH = d @ ''/xdp_runtime_cfg'',
     TCP_ACL_MAP_PATH4 = d @ ''/tcp_acl_v4'',
     TCP_ACL_MAP_PATH6 = d @ ''/tcp_acl_v6'',
     UDP_ACL_MAP_PATH4 = d @ ''/udp_acl_v4'',
     UDP_ACL_MAP_PATH6 = d @ ''/udp_acl_v6'',
     SIT4_ENDPOINTS_MAP_PATH = d @ ''/sit4_endpoints'',
     SYN4_MAP_PATH = d @ ''/syn4'',
     SYN6_MAP_PATH = d @ ''/syn6'',
     UDPRT4_MAP_PATH = d @ ''/udprt4'',
     UDPRT6_MAP_PATH = d @ ''/udprt6'',
     ABUSEIPDB_RISK_MAP_PATH4 = d @ ''/abuseipdb_v4'',
     REQUIRED_XDP_MAP_PATHS = map (\<lambda>n. d @ ''/'' @ n) names\<rparr>"

definition set_bpf_pin_dir :: "string \<Rightarrow> (Config, unit) pym" where
  "set_bpf_pin_dir d = modify (\<lambda>s. s\<lparr>map_paths := paths_of_pin_dir (REQUIRED_XDP_MAP_NAMES s) d\<rparr>)"

section \<open>The values at import time\<close>

definition RateTables_init :: RateTables where
  "RateTables_init = \<lparr>
     SYN_RATE_BY_PROC = [], SYN_RATE_BY_SERVICE = [],
     SYN_AGG_RATE_BY_PROC = [], SYN_AGG_RATE_BY_SERVICE = [],
     TCP_CONN_BY_PROC = [], TCP_CONN_BY_SERVICE = [],
     TCP_CONN_PREFIX_BY_PROC = [], TCP_CONN_PREFIX_BY_SERVICE = [],
     TCP_CONN_PORT_BY_PROC = [], TCP_CONN_PORT_BY_SERVICE = [],
     UDP_RATE_BY_PROC = [], UDP_RATE_BY_SERVICE = [],
     UDP_AGG_BYTES_BY_PROC = [], UDP_AGG_BYTES_BY_SERVICE = [],
     RATE_MAP_ENTRIES_BY_PROC = [], RATE_MAP_ENTRIES_BY_SERVICE = []\<rparr>"

definition XdpRuntime_init :: XdpRuntime where
  "XdpRuntime_init = \<lparr>
     XDP_TCP_TIMEOUT_SECONDS = Fin 300, XDP_UDP_TIMEOUT_SECONDS = Fin 60,
     XDP_CONNTRACK_REFRESH_SECONDS = Fin 30, XDP_CONNTRACK_GC_INTERVAL_SECONDS = Fin 300,
     XDP_ICMP_BURST_PACKETS = 100, XDP_ICMP_RATE_PPS = Fin 100,
     XDP_UDP_GLOBAL_WINDOW_SECONDS = Fin 1, XDP_RATE_WINDOW_SECONDS = Fin 1,
     XDP_SYN_TIMEOUT_SECONDS = Fin 30, XDP_SENSITIVE_PORT_THRESHOLD = 5,
     XDP_DEFAULT_TCP_SYN_RATE_STRICT = 5, XDP_DEFAULT_TCP_SYN_RATE = 100,
     XDP_DEFAULT_TCP_SYN_AGG_RATE_STRICT = 50, XDP_DEFAULT_TCP_SYN_AGG_RATE = 1000,
     XDP_DEFAULT_TCP_ESTABLISHED_PER_SRC_STRICT = 5, XDP_DEFAULT_TCP_ESTABLISHED_PER_SRC = 50,
     XDP_DEFAULT_TCP_ESTABLISHED_PER_PREFIX_STRICT = 20,
     XDP_DEFAULT_TCP_ESTABLISHED_PER_PREFIX = 200,
     XDP_DEFAULT_TCP_ESTABLISHED_PER_PORT_STRICT = 200,
     XDP_DEFAULT_TCP_ESTABLISHED_PER_PORT = 5000,
     XDP_UDP_GLOBAL_BYTE_RATE = 0\<rparr>"

definition Config_init :: "string list \<Rightarrow> string \<Rightarrow> string \<Rightarrow> Config" where
  "Config_init names xdp_obj tc_obj = \<lparr>
     TCP_PERMANENT = [], UDP_PERMANENT = [], SCTP_PERMANENT = [], TRUSTED_SRC_IPS = [],
     ACL_RULES = [], SIT4_ENDPOINTS = [], DISCOVERY_EXCLUDE_BIND_CIDRS = [],
     DISCOVERY_EXCLUDE_PORTS = {}, DISCOVERY_EXCLUDE_LOOPBACK = True,
     rate_tables = RateTables_init,
     RATE_LIMIT_SOURCE_PREFIX_V4 = 32, RATE_LIMIT_SOURCE_PREFIX_V6 = 128,
     RATE_MAP_ENTRIES_V4 = 16384, RATE_MAP_ENTRIES_V6 = 4096,
     BOGON_FILTER_ENABLED = True, ISATTACK_MODE = False, DROP_EVENTS_ENABLED = True,
     LOG_LEVEL = ''warning'', DEBOUNCE_SECONDS = float_0_4, PREFERRED_BACKEND = BACKEND_AUTO,
     XDP_CONNTRACK_STALE_RECONCILES = 2, xdp_runtime = XdpRuntime_init,
     NFT_FAMILY = ''inet'', NFT_TABLE = ''auto_xdp'', SLOT_DEFAULT_ACTION = ''drop'',
     ABUSEIPDB_ENABLED = False, ABUSEIPDB_BASE_URL = abuseipdb_default_url,
     ABUSEIPDB_SOURCES = [''s1003d''], ABUSEIPDB_REFRESH_SECONDS = Fin 3600,
     map_paths = paths_of_pin_dir names BPF_PIN_DIR_default,
     REQUIRED_XDP_MAP_NAMES = names, XDP_OBJ_PATH = xdp_obj, TC_OBJ_PATH = tc_obj\<rparr>"

section \<open>Reading single values\<close>

definition normalize_cidr :: "string \<Rightarrow> string res" where
  "normalize_cidr s =
     (if CHR '':'' \<in> set s
      then (case ipv6_network s of None \<Rightarrow> Inl ValueErr | Some n \<Rightarrow> Inr (ipv6_network_str n))
      else (case ipv4_network s of None \<Rightarrow> Inl ValueErr | Some n \<Rightarrow> Inr (ipv4_network_str n)))"

text \<open>
  The same on any TOML value: \<open>":" in v\<close> is a TypeError on a value that is no
  container, and the text of a list or a table is never a network.
\<close>

definition normalize_cidr_value :: "pyval \<Rightarrow> string res" where
  "normalize_cidr_value v = (case v of
       VStr s \<Rightarrow> normalize_cidr s
     | VList _ \<Rightarrow> Inl ValueErr
     | VDict _ \<Rightarrow> Inl ValueErr
     | _ \<Rightarrow> Inl TypeErr)"

text \<open>\<open>tomllib\<close> is \<open>None\<close> when the module is missing; otherwise it reads a path.\<close>

definition load_toml_config ::
  "(string \<Rightarrow> (string \<times> pyval) list res) option \<Rightarrow> string \<Rightarrow> bool \<Rightarrow> (string \<times> pyval) list res" where
  "load_toml_config tomllib path strict =
     (case tomllib of
        None \<Rightarrow> if strict then Inl RuntimeErr else Inr []
      | Some load \<Rightarrow>
          (case load path of
             Inr d \<Rightarrow> Inr d
           | Inl (OSError n) \<Rightarrow> if strict then Inl (OSError n) else Inr []
           | Inl e \<Rightarrow> Inl e))"

definition coerce_log_level :: "(pyval \<Rightarrow> string) \<Rightarrow> pyval \<Rightarrow> string" where
  "coerce_log_level rep v =
     (let level = str_lower (py_str rep v) in
      if level \<in> {''debug'', ''info'', ''warning'', ''error''} then level else ''warning'')"

definition coerce_backend :: "(pyval \<Rightarrow> string) \<Rightarrow> pyval \<Rightarrow> string" where
  "coerce_backend rep v =
     (let backend = str_lower (py_str rep v) in
      if backend \<in> {BACKEND_AUTO, BACKEND_XDP, BACKEND_NFTABLES} then backend else BACKEND_AUTO)"

text \<open>\<open>except (TypeError, ValueError): return default\<close>\<close>

fun or_default :: "'a res \<Rightarrow> 'a \<Rightarrow> 'a res" where
  "or_default (Inr x) d = Inr x"
| "or_default (Inl TypeErr) d = Inr d"
| "or_default (Inl ValueErr) d = Inr d"
| "or_default (Inl e) d = Inl e"

definition coerce_positive_float :: "pyval \<Rightarrow> pyfloat \<Rightarrow> pyfloat res" where
  "coerce_positive_float v d =
     rbind (or_default (py_float v) d) (\<lambda>x. Inr (if flt_le x (Fin 0) then d else x))"

definition coerce_positive_int :: "pyval \<Rightarrow> int \<Rightarrow> int res" where
  "coerce_positive_int v d =
     rbind (or_default (py_int v) d) (\<lambda>i. Inr (if i \<le> 0 then d else i))"

definition coerce_nonnegative_float :: "pyval \<Rightarrow> pyfloat \<Rightarrow> pyfloat res" where
  "coerce_nonnegative_float v d =
     rbind (or_default (py_float v) d) (\<lambda>x. Inr (if flt_lt x (Fin 0) then d else x))"

fun remove_slash :: "pyval \<Rightarrow> pyval" where
  "remove_slash (VStr (c # s)) = (if c = CHR ''/'' then VStr s else VStr (c # s))"
| "remove_slash v = v"

definition coerce_prefix_len :: "pyval \<Rightarrow> int \<Rightarrow> int \<Rightarrow> int res" where
  "coerce_prefix_len v d maximum =
     rbind (or_default (py_int (remove_slash v)) d)
       (\<lambda>i. Inr (if i < 0 \<or> i > maximum then d else i))"

section \<open>Assigning a document\<close>

text \<open>
  \<open>_apply_toml_config_in_place\<close>, one definition per part of the document, in
  its order. \<open>doc\<close> is the top-level table.
\<close>

definition clear_policy :: "(Config, unit) pym" where
  "clear_policy = modify (\<lambda>s. s\<lparr>
     TCP_PERMANENT := [], UDP_PERMANENT := [], SCTP_PERMANENT := [], TRUSTED_SRC_IPS := [],
     ACL_RULES := [], SIT4_ENDPOINTS := [], rate_tables := RateTables_init,
     DISCOVERY_EXCLUDE_BIND_CIDRS := [], DISCOVERY_EXCLUDE_PORTS := {},
     RATE_LIMIT_SOURCE_PREFIX_V4 := 32, RATE_LIMIT_SOURCE_PREFIX_V6 := 128,
     RATE_MAP_ENTRIES_V4 := 16384, RATE_MAP_ENTRIES_V6 := 4096\<rparr>)"

text \<open>\<open>for p in table.get(key, []): ...\<close>\<close>

definition for_each :: "pyval \<Rightarrow> string \<Rightarrow> (pyval \<Rightarrow> (Config, unit) pym) \<Rightarrow> (Config, unit) pym" where
  "for_each table key body =
     mbind (mlift (rbind (py_get table key (VList [])) py_iter)) (\<lambda>xs. mfor xs body)"

definition add_permanent ::
  "(((int, string) dict \<Rightarrow> (int, string) dict) \<Rightarrow> Config \<Rightarrow> Config) \<Rightarrow> pyval \<Rightarrow> (Config, unit) pym" where
  "add_permanent upd p =
     mbind (mlift (py_int p)) (\<lambda>i. modify (upd (dict_set i ''config'')))"

definition apply_permanent_ports :: "(string, pyval) dict \<Rightarrow> (Config, unit) pym" where
  "apply_permanent_ports doc =
     (let perm = dict_get_or doc ''permanent_ports'' (VDict []) in
      mseq (for_each perm ''tcp'' (add_permanent TCP_PERMANENT_update))
     (mseq (for_each perm ''udp'' (add_permanent UDP_PERMANENT_update))
           (for_each perm ''sctp'' (add_permanent SCTP_PERMANENT_update))))"

definition apply_trusted_ips :: "(pyval \<Rightarrow> string) \<Rightarrow> (string, pyval) dict \<Rightarrow> (Config, unit) pym" where
  "apply_trusted_ips rep doc =
     mbind (mlift (py_items (dict_get_or doc ''trusted_ips'' (VDict [])))) (\<lambda>kvs.
     mfor kvs (\<lambda>(cidr, label).
       mbind (mlift (normalize_cidr cidr)) (\<lambda>c.
       modify (TRUSTED_SRC_IPS_update (dict_set c (py_str rep label))))))"

definition apply_sit4_endpoints :: "(pyval \<Rightarrow> string) \<Rightarrow> (string, pyval) dict \<Rightarrow> (Config, unit) pym" where
  "apply_sit4_endpoints rep doc =
     for_each (dict_get_or doc ''tunnel'' (VDict [])) ''sit4_endpoints'' (\<lambda>ep.
       case ipv4_of_str (py_str rep ep) of
         None \<Rightarrow> ret ()
       | Some i \<Rightarrow> modify (SIT4_ENDPOINTS_update (\<lambda>l. l @ [ipv4_str i])))"

definition acl_rule_of :: "pyval \<Rightarrow> AclRule res" where
  "acl_rule_of rule =
     rbind (py_index rule ''proto'') (\<lambda>proto.
     rbind (rbind (py_index rule ''cidr'') normalize_cidr_value) (\<lambda>cidr.
     rbind (rbind (rbind (py_get rule ''ports'' (VList [])) py_iter) (rmap py_int)) (\<lambda>ports.
     Inr \<lparr>rule_proto = proto, rule_cidr = cidr, rule_ports = ports\<rparr>)))"

definition apply_acl :: "(string, pyval) dict \<Rightarrow> (Config, unit) pym" where
  "apply_acl doc =
     mbind (mlift (py_iter (dict_get_or doc ''acl'' (VList [])))) (\<lambda>rules.
     mfor rules (\<lambda>rule.
       mbind (mlift (acl_rule_of rule)) (\<lambda>r. modify (ACL_RULES_update (\<lambda>l. l @ [r])))))"

text \<open>\<open>TABLE.update({k: int(v) for k, v in rl.get(key, {}).items()})\<close>\<close>

definition int_table :: "pyval \<Rightarrow> string \<Rightarrow> rate_table res" where
  "int_table rl key =
     rbind (rbind (py_get rl key (VDict [])) py_items)
       (rmap (\<lambda>(k, v). rbind (py_int v) (\<lambda>i. Inr (k, i))))"

definition load_table ::
  "pyval \<Rightarrow> string \<Rightarrow> ((rate_table \<Rightarrow> rate_table) \<Rightarrow> RateTables \<Rightarrow> RateTables) \<Rightarrow> (Config, unit) pym" where
  "load_table rl key upd =
     mbind (mlift (int_table rl key)) (\<lambda>d. modify (rate_tables_update (upd (\<lambda>t. dict_update t d))))"

definition apply_source_prefixes :: "pyval \<Rightarrow> (Config, unit) pym" where
  "apply_source_prefixes rl =
     mseq (mbind (mlift (rbind (rbind (py_get rl ''source_prefix_v4'' (VInt 32)) (py_get rl ''source_cidr_v4''))
              (\<lambda>v. coerce_prefix_len v 32 32)))
            (\<lambda>p. modify (RATE_LIMIT_SOURCE_PREFIX_V4_update (\<lambda>_. p))))
          (mbind (mlift (rbind (rbind (py_get rl ''source_prefix_v6'' (VInt 128)) (py_get rl ''source_cidr_v6''))
              (\<lambda>v. coerce_prefix_len v 128 128)))
            (\<lambda>p. modify (RATE_LIMIT_SOURCE_PREFIX_V6_update (\<lambda>_. p))))"

definition apply_map_entries :: "pyval \<Rightarrow> (Config, unit) pym" where
  "apply_map_entries rl =
     mseq (mbind (mlift (rbind (py_get rl ''map_entries_v4'' (VInt 16384)) py_int))
            (\<lambda>n. modify (RATE_MAP_ENTRIES_V4_update (\<lambda>_. n))))
          (mbind (mlift (rbind (py_get rl ''map_entries_v6'' (VInt 4096)) py_int))
            (\<lambda>n. modify (RATE_MAP_ENTRIES_V6_update (\<lambda>_. n))))"

definition apply_rate_limits :: "(string, pyval) dict \<Rightarrow> (Config, unit) pym" where
  "apply_rate_limits doc =
     (let rl = dict_get_or doc ''rate_limits'' (VDict []) in
      mseqs
       [apply_source_prefixes rl,
        load_table rl ''syn_by_proc'' SYN_RATE_BY_PROC_update,
        load_table rl ''syn_by_service'' SYN_RATE_BY_SERVICE_update,
        load_table rl ''syn_agg_by_proc'' SYN_AGG_RATE_BY_PROC_update,
        load_table rl ''syn_agg_by_service'' SYN_AGG_RATE_BY_SERVICE_update,
        load_table rl ''tcp_conn_by_proc'' TCP_CONN_BY_PROC_update,
        load_table rl ''tcp_conn_by_service'' TCP_CONN_BY_SERVICE_update,
        load_table rl ''tcp_conn_prefix_by_proc'' TCP_CONN_PREFIX_BY_PROC_update,
        load_table rl ''tcp_conn_prefix_by_service'' TCP_CONN_PREFIX_BY_SERVICE_update,
        load_table rl ''tcp_conn_port_by_proc'' TCP_CONN_PORT_BY_PROC_update,
        load_table rl ''tcp_conn_port_by_service'' TCP_CONN_PORT_BY_SERVICE_update,
        load_table rl ''udp_by_proc'' UDP_RATE_BY_PROC_update,
        load_table rl ''udp_by_service'' UDP_RATE_BY_SERVICE_update,
        load_table rl ''udp_agg_bytes_by_proc'' UDP_AGG_BYTES_BY_PROC_update,
        load_table rl ''udp_agg_bytes_by_service'' UDP_AGG_BYTES_BY_SERVICE_update,
        apply_map_entries rl,
        load_table rl ''map_entries_by_proc'' RATE_MAP_ENTRIES_BY_PROC_update,
        load_table rl ''map_entries_by_service'' RATE_MAP_ENTRIES_BY_SERVICE_update])"

definition apply_firewall :: "(string, pyval) dict \<Rightarrow> (Config, unit) pym" where
  "apply_firewall doc =
     mbind (mlift (py_get (dict_get_or doc ''firewall'' (VDict [])) ''bogon_filter'' (VBool True))) (\<lambda>b.
     mseq (modify (BOGON_FILTER_ENABLED_update (\<lambda>_. py_truthy b)))
     (mbind (mlift (py_get (dict_get_or doc ''under_attack'' (VDict [])) ''enabled'' (VBool False))) (\<lambda>a.
     modify (\<lambda>s. s\<lparr>ISATTACK_MODE := py_truthy a, DROP_EVENTS_ENABLED := \<not> py_truthy a\<rparr>))))"

definition apply_daemon :: "(pyval \<Rightarrow> string) \<Rightarrow> (string, pyval) dict \<Rightarrow> (Config, unit) pym" where
  "apply_daemon rep doc =
     (let daemon = dict_get_or doc ''daemon'' (VDict []) in
      mbind (mlift (py_get daemon ''log_level'' (VStr ''warning''))) (\<lambda>l.
      mseq (modify (LOG_LEVEL_update (\<lambda>_. coerce_log_level rep l)))
     (mbind (mlift (rbind (py_get daemon ''debounce_seconds'' (VFloat float_0_4))
              (\<lambda>v. coerce_positive_float v float_0_4))) (\<lambda>x.
      mseq (modify (DEBOUNCE_SECONDS_update (\<lambda>_. x)))
     (mbind (mlift (py_get daemon ''preferred_backend'' (VStr BACKEND_AUTO))) (\<lambda>b.
      modify (PREFERRED_BACKEND_update (\<lambda>_. coerce_backend rep b))))))))"

definition apply_discovery :: "(string, pyval) dict \<Rightarrow> (Config, unit) pym" where
  "apply_discovery doc =
     (let discovery = dict_get_or doc ''discovery'' (VDict []) in
      mbind (mlift (py_get discovery ''exclude_loopback'' (VBool True))) (\<lambda>b.
      mseq (modify (DISCOVERY_EXCLUDE_LOOPBACK_update (\<lambda>_. py_truthy b)))
     (mseq (for_each discovery ''exclude_bind_cidrs'' (\<lambda>v.
              mbind (mlift (normalize_cidr_value v)) (\<lambda>c.
              modify (DISCOVERY_EXCLUDE_BIND_CIDRS_update (\<lambda>l. l @ [c])))))
           (for_each discovery ''exclude_ports'' (\<lambda>v.
              mbind (mlift (py_int v)) (\<lambda>i. modify (DISCOVERY_EXCLUDE_PORTS_update (insert i))))))))"

definition apply_xdp_nft :: "(pyval \<Rightarrow> string) \<Rightarrow> (string, pyval) dict \<Rightarrow> (Config, unit) pym" where
  "apply_xdp_nft rep doc =
     (let xdp = dict_get_or doc ''xdp'' (VDict []); nft = dict_get_or doc ''nftables'' (VDict []) in
      mbind (mlift (py_get xdp ''bpf_pin_dir'' (VStr BPF_PIN_DIR_default))) (\<lambda>d.
      mseq (set_bpf_pin_dir (str_rstrip_char (CHR ''/'') (py_str rep d)))
     (mbind (mlift (py_get nft ''family'' (VStr ''inet''))) (\<lambda>f.
      mseq (modify (NFT_FAMILY_update (\<lambda>_. py_str rep f)))
     (mbind (mlift (py_get nft ''table'' (VStr ''auto_xdp''))) (\<lambda>t.
      mseq (modify (NFT_TABLE_update (\<lambda>_. py_str rep t)))
     (mbind (mlift (rbind (py_get xdp ''conntrack_stale_reconciles'' (VInt 2))
              (\<lambda>v. coerce_positive_int v 2))) (\<lambda>n.
      modify (XDP_CONNTRACK_STALE_RECONCILES_update (\<lambda>_. n))))))))))"

text \<open>The settings under \<open>xdp.runtime\<close>: one assignment of a coerced value each.\<close>

definition set_seconds ::
  "pyval \<Rightarrow> string \<Rightarrow> pyfloat \<Rightarrow> ((pyfloat \<Rightarrow> pyfloat) \<Rightarrow> XdpRuntime \<Rightarrow> XdpRuntime) \<Rightarrow> (Config, unit) pym" where
  "set_seconds rt key d upd =
     mbind (mlift (rbind (py_get rt key (VFloat d)) (\<lambda>v. coerce_nonnegative_float v d)))
       (\<lambda>x. modify (xdp_runtime_update (upd (\<lambda>_. x))))"

definition set_count ::
  "pyval \<Rightarrow> string \<Rightarrow> int \<Rightarrow> ((int \<Rightarrow> int) \<Rightarrow> XdpRuntime \<Rightarrow> XdpRuntime) \<Rightarrow> (Config, unit) pym" where
  "set_count rt key d upd =
     mbind (mlift (rbind (py_get rt key (VInt d)) (\<lambda>v. coerce_positive_int v d)))
       (\<lambda>i. modify (xdp_runtime_update (upd (\<lambda>_. i))))"

definition apply_runtime_timing :: "pyval \<Rightarrow> (Config, unit) pym" where
  "apply_runtime_timing rt = mseqs
     [set_seconds rt ''tcp_timeout_seconds'' (Fin 300) XDP_TCP_TIMEOUT_SECONDS_update,
      set_seconds rt ''udp_timeout_seconds'' (Fin 60) XDP_UDP_TIMEOUT_SECONDS_update,
      set_seconds rt ''conntrack_refresh_seconds'' (Fin 30) XDP_CONNTRACK_REFRESH_SECONDS_update,
      set_seconds rt ''conntrack_gc_interval_seconds'' (Fin 300) XDP_CONNTRACK_GC_INTERVAL_SECONDS_update,
      set_count rt ''icmp_burst_packets'' 100 XDP_ICMP_BURST_PACKETS_update,
      set_seconds rt ''icmp_rate_pps'' (Fin 100) XDP_ICMP_RATE_PPS_update,
      set_seconds rt ''udp_global_window_seconds'' (Fin 1) XDP_UDP_GLOBAL_WINDOW_SECONDS_update,
      set_seconds rt ''rate_window_seconds'' (Fin 1) XDP_RATE_WINDOW_SECONDS_update,
      set_seconds rt ''syn_timeout_seconds'' (Fin 30) XDP_SYN_TIMEOUT_SECONDS_update]"

definition apply_runtime_defaults :: "pyval \<Rightarrow> (Config, unit) pym" where
  "apply_runtime_defaults rt = mseqs
     [set_count rt ''sensitive_port_threshold'' 5 XDP_SENSITIVE_PORT_THRESHOLD_update,
      set_count rt ''default_tcp_syn_rate_strict'' 5 XDP_DEFAULT_TCP_SYN_RATE_STRICT_update,
      set_count rt ''default_tcp_syn_rate'' 100 XDP_DEFAULT_TCP_SYN_RATE_update,
      set_count rt ''default_tcp_syn_agg_rate_strict'' 50 XDP_DEFAULT_TCP_SYN_AGG_RATE_STRICT_update,
      set_count rt ''default_tcp_syn_agg_rate'' 1000 XDP_DEFAULT_TCP_SYN_AGG_RATE_update,
      set_count rt ''default_tcp_established_per_src_strict'' 5 XDP_DEFAULT_TCP_ESTABLISHED_PER_SRC_STRICT_update,
      set_count rt ''default_tcp_established_per_src'' 50 XDP_DEFAULT_TCP_ESTABLISHED_PER_SRC_update,
      set_count rt ''default_tcp_established_per_prefix_strict'' 20 XDP_DEFAULT_TCP_ESTABLISHED_PER_PREFIX_STRICT_update,
      set_count rt ''default_tcp_established_per_prefix'' 200 XDP_DEFAULT_TCP_ESTABLISHED_PER_PREFIX_update,
      set_count rt ''default_tcp_established_per_port_strict'' 200 XDP_DEFAULT_TCP_ESTABLISHED_PER_PORT_STRICT_update,
      set_count rt ''default_tcp_established_per_port'' 5000 XDP_DEFAULT_TCP_ESTABLISHED_PER_PORT_update]"

text \<open>\<open>int(mbps * 1_000_000 / 8)\<close>\<close>

definition apply_global_byte_rate :: "pyval \<Rightarrow> (Config, unit) pym" where
  "apply_global_byte_rate rt =
     mbind (mlift (rbind (rbind (py_get rt ''udp_global_byte_rate_mbps'' (VFloat (Fin 0)))
                     (\<lambda>v. coerce_nonnegative_float v (Fin 0)))
                   (\<lambda>x. int_of_float (flt_div (flt_mul x (Fin 1000000)) (Fin 8)))))
       (\<lambda>i. modify (xdp_runtime_update (XDP_UDP_GLOBAL_BYTE_RATE_update (\<lambda>_. i))))"

definition apply_xdp_runtime :: "(string, pyval) dict \<Rightarrow> (Config, unit) pym" where
  "apply_xdp_runtime doc =
     mbind (mlift (py_get (dict_get_or doc ''xdp'' (VDict [])) ''runtime'' (VDict []))) (\<lambda>rt.
     mseqs [apply_runtime_timing rt, apply_runtime_defaults rt, apply_global_byte_rate rt])"

definition apply_slots_abuseipdb :: "(pyval \<Rightarrow> string) \<Rightarrow> (string, pyval) dict \<Rightarrow> (Config, unit) pym" where
  "apply_slots_abuseipdb rep doc =
     (let ab = dict_get_or doc ''abuseipdb'' (VDict []) in
      mbind (mlift (py_get (dict_get_or doc ''slots'' (VDict [])) ''default_action'' (VStr ''drop''))) (\<lambda>a.
      mseq (modify (SLOT_DEFAULT_ACTION_update
              (\<lambda>_. if str_lower (py_str rep a) = ''drop'' then ''drop'' else ''pass'')))
     (mbind (mlift (py_get ab ''enabled'' (VBool False))) (\<lambda>e.
      mseq (modify (ABUSEIPDB_ENABLED_update (\<lambda>_. py_truthy e)))
     (mbind (mlift (py_get ab ''base_url'' (VStr abuseipdb_default_url))) (\<lambda>u.
      mseq (modify (ABUSEIPDB_BASE_URL_update (\<lambda>_. py_str rep u)))
     (mbind (mlift (py_get ab ''sources'' (VList [VStr ''s1003d'']))) (\<lambda>srcs.
      mseq (modify (ABUSEIPDB_SOURCES_update
              (\<lambda>_. case srcs of VList xs \<Rightarrow> map (py_str rep) xs | _ \<Rightarrow> [''s1003d''])))
     (mbind (mlift (rbind (py_get ab ''refresh_seconds'' (VFloat (Fin 3600)))
              (\<lambda>v. coerce_positive_float v (Fin 3600)))) (\<lambda>x.
      modify (ABUSEIPDB_REFRESH_SECONDS_update (\<lambda>_. x))))))))))))"

definition apply_toml_config_in_place ::
  "(pyval \<Rightarrow> string) \<Rightarrow> (string, pyval) dict \<Rightarrow> (Config, unit) pym" where
  "apply_toml_config_in_place rep doc = mseqs
     [clear_policy, apply_permanent_ports doc, apply_trusted_ips rep doc,
      apply_sit4_endpoints rep doc, apply_acl doc, apply_rate_limits doc, apply_firewall doc,
      apply_daemon rep doc, apply_discovery doc, apply_xdp_nft rep doc, apply_xdp_runtime doc,
      apply_slots_abuseipdb rep doc]"

section \<open>Atomic reload\<close>

text \<open>
  \<open>apply_toml_config\<close> snapshots every global with an upper-case name. After an
  exception it refills each dictionary, list and set from its saved copy and
  rebinds the other names. No field of the records is left out: all of them are
  upper-case globals.
\<close>

definition refill :: "('k, 'v) dict \<Rightarrow> ('k, 'v) dict" where
  "refill saved = dict_update [] saved"

definition restore_tables :: "RateTables \<Rightarrow> RateTables" where
  "restore_tables t = \<lparr>
     SYN_RATE_BY_PROC = refill (SYN_RATE_BY_PROC t),
     SYN_RATE_BY_SERVICE = refill (SYN_RATE_BY_SERVICE t),
     SYN_AGG_RATE_BY_PROC = refill (SYN_AGG_RATE_BY_PROC t),
     SYN_AGG_RATE_BY_SERVICE = refill (SYN_AGG_RATE_BY_SERVICE t),
     TCP_CONN_BY_PROC = refill (TCP_CONN_BY_PROC t),
     TCP_CONN_BY_SERVICE = refill (TCP_CONN_BY_SERVICE t),
     TCP_CONN_PREFIX_BY_PROC = refill (TCP_CONN_PREFIX_BY_PROC t),
     TCP_CONN_PREFIX_BY_SERVICE = refill (TCP_CONN_PREFIX_BY_SERVICE t),
     TCP_CONN_PORT_BY_PROC = refill (TCP_CONN_PORT_BY_PROC t),
     TCP_CONN_PORT_BY_SERVICE = refill (TCP_CONN_PORT_BY_SERVICE t),
     UDP_RATE_BY_PROC = refill (UDP_RATE_BY_PROC t),
     UDP_RATE_BY_SERVICE = refill (UDP_RATE_BY_SERVICE t),
     UDP_AGG_BYTES_BY_PROC = refill (UDP_AGG_BYTES_BY_PROC t),
     UDP_AGG_BYTES_BY_SERVICE = refill (UDP_AGG_BYTES_BY_SERVICE t),
     RATE_MAP_ENTRIES_BY_PROC = refill (RATE_MAP_ENTRIES_BY_PROC t),
     RATE_MAP_ENTRIES_BY_SERVICE = refill (RATE_MAP_ENTRIES_BY_SERVICE t)\<rparr>"

definition restore_globals :: "Config \<Rightarrow> Config \<Rightarrow> Config" where
  "restore_globals saved s = s\<lparr>
     TCP_PERMANENT := refill (TCP_PERMANENT saved),
     UDP_PERMANENT := refill (UDP_PERMANENT saved),
     SCTP_PERMANENT := refill (SCTP_PERMANENT saved),
     TRUSTED_SRC_IPS := refill (TRUSTED_SRC_IPS saved),
     ACL_RULES := ACL_RULES saved, SIT4_ENDPOINTS := SIT4_ENDPOINTS saved,
     DISCOVERY_EXCLUDE_BIND_CIDRS := DISCOVERY_EXCLUDE_BIND_CIDRS saved,
     DISCOVERY_EXCLUDE_PORTS := DISCOVERY_EXCLUDE_PORTS saved,
     DISCOVERY_EXCLUDE_LOOPBACK := DISCOVERY_EXCLUDE_LOOPBACK saved,
     rate_tables := restore_tables (rate_tables saved),
     RATE_LIMIT_SOURCE_PREFIX_V4 := RATE_LIMIT_SOURCE_PREFIX_V4 saved,
     RATE_LIMIT_SOURCE_PREFIX_V6 := RATE_LIMIT_SOURCE_PREFIX_V6 saved,
     RATE_MAP_ENTRIES_V4 := RATE_MAP_ENTRIES_V4 saved,
     RATE_MAP_ENTRIES_V6 := RATE_MAP_ENTRIES_V6 saved,
     BOGON_FILTER_ENABLED := BOGON_FILTER_ENABLED saved, ISATTACK_MODE := ISATTACK_MODE saved,
     DROP_EVENTS_ENABLED := DROP_EVENTS_ENABLED saved, LOG_LEVEL := LOG_LEVEL saved,
     DEBOUNCE_SECONDS := DEBOUNCE_SECONDS saved, PREFERRED_BACKEND := PREFERRED_BACKEND saved,
     XDP_CONNTRACK_STALE_RECONCILES := XDP_CONNTRACK_STALE_RECONCILES saved,
     xdp_runtime := xdp_runtime saved, NFT_FAMILY := NFT_FAMILY saved,
     NFT_TABLE := NFT_TABLE saved, SLOT_DEFAULT_ACTION := SLOT_DEFAULT_ACTION saved,
     ABUSEIPDB_ENABLED := ABUSEIPDB_ENABLED saved,
     ABUSEIPDB_BASE_URL := ABUSEIPDB_BASE_URL saved,
     ABUSEIPDB_SOURCES := ABUSEIPDB_SOURCES saved,
     ABUSEIPDB_REFRESH_SECONDS := ABUSEIPDB_REFRESH_SECONDS saved,
     map_paths := map_paths saved,
     REQUIRED_XDP_MAP_NAMES := REQUIRED_XDP_MAP_NAMES saved,
     XDP_OBJ_PATH := XDP_OBJ_PATH saved, TC_OBJ_PATH := TC_OBJ_PATH saved\<rparr>"

definition apply_toml_config :: "(pyval \<Rightarrow> string) \<Rightarrow> (string, pyval) dict \<Rightarrow> (Config, unit) pym" where
  "apply_toml_config rep doc s =
     (case apply_toml_config_in_place rep doc s of
        (Inl e, t) \<Rightarrow> (Inl e, restore_globals s t)
      | (Inr u, t) \<Rightarrow> (Inr u, t))"

section \<open>Well-formed configurations\<close>

definition tables_ok :: "RateTables \<Rightarrow> bool" where
  "tables_ok t \<longleftrightarrow> list_all dict_ok
     [SYN_RATE_BY_PROC t, SYN_RATE_BY_SERVICE t, SYN_AGG_RATE_BY_PROC t, SYN_AGG_RATE_BY_SERVICE t,
      TCP_CONN_BY_PROC t, TCP_CONN_BY_SERVICE t, TCP_CONN_PREFIX_BY_PROC t,
      TCP_CONN_PREFIX_BY_SERVICE t, TCP_CONN_PORT_BY_PROC t, TCP_CONN_PORT_BY_SERVICE t,
      UDP_RATE_BY_PROC t, UDP_RATE_BY_SERVICE t, UDP_AGG_BYTES_BY_PROC t,
      UDP_AGG_BYTES_BY_SERVICE t, RATE_MAP_ENTRIES_BY_PROC t, RATE_MAP_ENTRIES_BY_SERVICE t]"

definition dicts_ok :: "Config \<Rightarrow> bool" where
  "dicts_ok c \<longleftrightarrow> dict_ok (TCP_PERMANENT c) \<and> dict_ok (UDP_PERMANENT c) \<and>
     dict_ok (SCTP_PERMANENT c) \<and> dict_ok (TRUSTED_SRC_IPS c) \<and> tables_ok (rate_tables c)"

lemma refill_id [simp]: "dict_ok d \<Longrightarrow> refill d = d"
  by (simp add: refill_def dict_update_append)

lemma restore_tables_id: "tables_ok t \<Longrightarrow> restore_tables t = t"
  by (simp add: restore_tables_def tables_ok_def)

lemma restore_globals_id: "dicts_ok c \<Longrightarrow> restore_globals c s = c"
  by (simp add: restore_globals_def dicts_ok_def restore_tables_id)

section \<open>What a reload depends on\<close>

text \<open>
  The views grow with the document: after a part has been assigned, two runs
  agree on the globals of that part as well.
\<close>

definition view_env :: "Config \<Rightarrow> _" where
  "view_env s = (REQUIRED_XDP_MAP_NAMES s, XDP_OBJ_PATH s, TC_OBJ_PATH s)"

definition view_policy :: "Config \<Rightarrow> _" where
  "view_policy s = (view_env s, TCP_PERMANENT s, UDP_PERMANENT s, SCTP_PERMANENT s,
     TRUSTED_SRC_IPS s, ACL_RULES s, SIT4_ENDPOINTS s, rate_tables s,
     DISCOVERY_EXCLUDE_BIND_CIDRS s, DISCOVERY_EXCLUDE_PORTS s,
     RATE_LIMIT_SOURCE_PREFIX_V4 s, RATE_LIMIT_SOURCE_PREFIX_V6 s,
     RATE_MAP_ENTRIES_V4 s, RATE_MAP_ENTRIES_V6 s)"

definition view_firewall :: "Config \<Rightarrow> _" where
  "view_firewall s = (view_policy s, BOGON_FILTER_ENABLED s, ISATTACK_MODE s, DROP_EVENTS_ENABLED s)"

definition view_daemon :: "Config \<Rightarrow> _" where
  "view_daemon s = (view_firewall s, LOG_LEVEL s, DEBOUNCE_SECONDS s, PREFERRED_BACKEND s)"

definition view_discovery :: "Config \<Rightarrow> _" where
  "view_discovery s = (view_daemon s, DISCOVERY_EXCLUDE_LOOPBACK s)"

definition view_xdp :: "Config \<Rightarrow> _" where
  "view_xdp s = (view_discovery s, map_paths s, NFT_FAMILY s, NFT_TABLE s,
     XDP_CONNTRACK_STALE_RECONCILES s)"

definition view_runtime :: "Config \<Rightarrow> _" where
  "view_runtime s = (view_xdp s, xdp_runtime s)"

definition view_slots :: "Config \<Rightarrow> _" where
  "view_slots s = (view_runtime s, SLOT_DEFAULT_ACTION s, ABUSEIPDB_ENABLED s, ABUSEIPDB_BASE_URL s,
     ABUSEIPDB_SOURCES s, ABUSEIPDB_REFRESH_SECONDS s)"

lemmas view_defs = view_env_def view_policy_def view_firewall_def view_daemon_def
  view_discovery_def view_xdp_def view_runtime_def

lemma stable_for_each: "(\<And>x. settles V V (f x)) \<Longrightarrow> settles V V (for_each table key f)"
  unfolding for_each_def by (intro stable_rules)

lemma clear_policy_settles: "settles view_env view_policy clear_policy"
  unfolding clear_policy_def by (rule settles_modify) (simp add: view_defs)

lemma permanent_ports_settles: "settles view_policy view_policy (apply_permanent_ports doc)"
  unfolding apply_permanent_ports_def Let_def add_permanent_def
  by (intro stable_seq stable_for_each settles_assign) (simp_all add: view_defs)

lemma trusted_ips_settles: "settles view_policy view_policy (apply_trusted_ips rep doc)"
  unfolding apply_trusted_ips_def split_def
  by (intro stable_bind [OF stable_mlift] settles_for settles_assign) (simp add: view_defs)

lemma sit4_settles: "settles view_policy view_policy (apply_sit4_endpoints rep doc)"
  unfolding apply_sit4_endpoints_def
  by (intro stable_for_each) (auto intro!: settles_ret settles_modify simp: view_defs split: option.splits)

lemma acl_settles: "settles view_policy view_policy (apply_acl doc)"
  unfolding apply_acl_def
  by (intro stable_bind [OF stable_mlift] settles_for settles_assign) (simp add: view_defs)

lemma load_table_settles: "settles view_policy view_policy (load_table rl key upd)"
  unfolding load_table_def by (rule settles_assign) (simp add: view_defs)

lemma rate_limits_settles: "settles view_policy view_policy (apply_rate_limits doc)"
  unfolding apply_rate_limits_def Let_def mseqs.simps apply_source_prefixes_def apply_map_entries_def
  by (intro stable_seq stable_ret load_table_settles settles_assign) (simp_all add: view_defs)

lemma firewall_settles: "settles view_policy view_firewall (apply_firewall doc)"
  unfolding apply_firewall_def settles_def
  by (auto simp: view_defs mbind_def mseq_def mlift_apply split: sum.splits)

lemma daemon_settles: "settles view_firewall view_daemon (apply_daemon rep doc)"
  unfolding apply_daemon_def settles_def Let_def
  by (auto simp: view_defs mbind_def mseq_def mlift_apply split: sum.splits)

lemma discovery_settles: "settles view_daemon view_discovery (apply_discovery doc)"
  unfolding apply_discovery_def Let_def
  by (intro stable_bind [OF stable_mlift] settles_seq [of view_daemon view_discovery] settles_modify
      stable_seq stable_for_each settles_assign)
     (simp_all add: view_defs)

lemma xdp_nft_settles: "settles view_discovery view_xdp (apply_xdp_nft rep doc)"
  unfolding apply_xdp_nft_def settles_def Let_def set_bpf_pin_dir_def
  by (auto simp: view_defs mbind_def mseq_def mlift_apply split: sum.splits)

lemmas runtime_defs = apply_xdp_runtime_def apply_runtime_timing_def apply_runtime_defaults_def
    apply_global_byte_rate_def mseqs.simps set_seconds_def set_count_def

lemma runtime_record_writes:
  assumes "apply_xdp_runtime doc s = (Inr x, s')" and "apply_xdp_runtime doc t = (Inr y, t')"
  shows "xdp_runtime s' = xdp_runtime t'"
  using assms unfolding runtime_defs
  by (clarsimp simp: mseq_Inr_iff mbind_Inr_iff)

lemma xdp_runtime_settles: "settles view_xdp view_runtime (apply_xdp_runtime doc)"
  unfolding view_runtime_def
proof (rule settles_writes [OF _ _ runtime_record_writes])
  show "blind (apply_xdp_runtime doc)"
    unfolding runtime_defs by (intro blind_rules)
  show "keeps view_xdp (apply_xdp_runtime doc)"
    unfolding runtime_defs by (intro keeps_rules keeps_modify) (simp_all add: view_defs)
qed

lemma slots_settles: "settles view_runtime view_slots (apply_slots_abuseipdb rep doc)"
  unfolding view_slots_def
proof (rule settles_writes)
  show "blind (apply_slots_abuseipdb rep doc)"
    unfolding apply_slots_abuseipdb_def Let_def by (intro blind_rules)
  show "keeps view_runtime (apply_slots_abuseipdb rep doc)"
    unfolding apply_slots_abuseipdb_def Let_def
    by (intro keeps_rules keeps_modify) (simp_all add: view_defs)
qed (auto simp: apply_slots_abuseipdb_def Let_def mseq_Inr_iff mbind_Inr_iff)

lemma in_place_settles: "settles view_env view_slots (apply_toml_config_in_place rep doc)"
  unfolding apply_toml_config_in_place_def mseqs.simps
  by (rule settles_seq [OF clear_policy_settles] stable_seq [OF permanent_ports_settles]
      stable_seq [OF trusted_ips_settles] stable_seq [OF sit4_settles] stable_seq [OF acl_settles]
      stable_seq [OF rate_limits_settles] settles_seq [OF firewall_settles]
      settles_seq [OF daemon_settles] settles_seq [OF discovery_settles]
      settles_seq [OF xdp_nft_settles] settles_seq [OF xdp_runtime_settles]
      settles_seq [OF slots_settles] stable_ret)+

lemma view_slots_inj: "view_slots s = view_slots t \<Longrightarrow> s = t"
  unfolding view_slots_def view_defs by (rule Config.equality) simp_all

section \<open>What a reload guarantees\<close>

definition runtime_valid :: "XdpRuntime \<Rightarrow> bool" where
  "runtime_valid r \<longleftrightarrow>
     list_all (\<lambda>x. \<not> flt_lt x (Fin 0))
       [XDP_TCP_TIMEOUT_SECONDS r, XDP_UDP_TIMEOUT_SECONDS r, XDP_CONNTRACK_REFRESH_SECONDS r,
        XDP_CONNTRACK_GC_INTERVAL_SECONDS r, XDP_ICMP_RATE_PPS r, XDP_UDP_GLOBAL_WINDOW_SECONDS r,
        XDP_RATE_WINDOW_SECONDS r, XDP_SYN_TIMEOUT_SECONDS r] \<and>
     list_all (\<lambda>i. 0 < i)
       [XDP_ICMP_BURST_PACKETS r, XDP_SENSITIVE_PORT_THRESHOLD r,
        XDP_DEFAULT_TCP_SYN_RATE_STRICT r, XDP_DEFAULT_TCP_SYN_RATE r,
        XDP_DEFAULT_TCP_SYN_AGG_RATE_STRICT r, XDP_DEFAULT_TCP_SYN_AGG_RATE r,
        XDP_DEFAULT_TCP_ESTABLISHED_PER_SRC_STRICT r, XDP_DEFAULT_TCP_ESTABLISHED_PER_SRC r,
        XDP_DEFAULT_TCP_ESTABLISHED_PER_PREFIX_STRICT r, XDP_DEFAULT_TCP_ESTABLISHED_PER_PREFIX r,
        XDP_DEFAULT_TCP_ESTABLISHED_PER_PORT_STRICT r, XDP_DEFAULT_TCP_ESTABLISHED_PER_PORT r] \<and>
     0 \<le> XDP_UDP_GLOBAL_BYTE_RATE r"

definition LOG_LEVELS :: "string set" where
  "LOG_LEVELS = {''debug'', ''info'', ''warning'', ''error''}"

definition BACKENDS :: "string set" where
  "BACKENDS = {BACKEND_AUTO, BACKEND_XDP, BACKEND_NFTABLES}"

definition settings_valid :: "Config \<Rightarrow> bool" where
  "settings_valid c \<longleftrightarrow>
     0 \<le> RATE_LIMIT_SOURCE_PREFIX_V4 c \<and> RATE_LIMIT_SOURCE_PREFIX_V4 c \<le> 32 \<and>
     0 \<le> RATE_LIMIT_SOURCE_PREFIX_V6 c \<and> RATE_LIMIT_SOURCE_PREFIX_V6 c \<le> 128 \<and>
     LOG_LEVEL c \<in> LOG_LEVELS \<and> PREFERRED_BACKEND c \<in> BACKENDS \<and>
     \<not> flt_le (DEBOUNCE_SECONDS c) (Fin 0) \<and> 0 < XDP_CONNTRACK_STALE_RECONCILES c \<and>
     SLOT_DEFAULT_ACTION c \<in> {''drop'', ''pass''} \<and>
     \<not> flt_le (ABUSEIPDB_REFRESH_SECONDS c) (Fin 0) \<and>
     DROP_EVENTS_ENABLED c = (\<not> ISATTACK_MODE c) \<and> runtime_valid (xdp_runtime c)"

definition config_ok :: "Config \<Rightarrow> bool" where
  "config_ok c \<longleftrightarrow> dicts_ok c \<and> settings_valid c"

lemmas ok_defs = config_ok_def dicts_ok_def settings_valid_def

lemma coerce_positive_int_pos: "coerce_positive_int v d = Inr i \<Longrightarrow> 0 < d \<Longrightarrow> 0 < i"
  by (auto simp: coerce_positive_int_def rbind_Inr_conv split: if_splits)

lemma coerce_nonnegative_float_nonneg:
  "coerce_nonnegative_float v d = Inr x \<Longrightarrow> \<not> flt_lt d (Fin 0) \<Longrightarrow> \<not> flt_lt x (Fin 0)"
  by (auto simp: coerce_nonnegative_float_def rbind_Inr_conv split: if_splits)

lemma coerce_positive_float_pos:
  "coerce_positive_float v d = Inr x \<Longrightarrow> \<not> flt_le d (Fin 0) \<Longrightarrow> \<not> flt_le x (Fin 0)"
  by (auto simp: coerce_positive_float_def rbind_Inr_conv split: if_splits)

lemma coerce_prefix_len_range:
  "coerce_prefix_len v d m = Inr i \<Longrightarrow> 0 \<le> d \<Longrightarrow> d \<le> m \<Longrightarrow> 0 \<le> i \<and> i \<le> m"
  by (auto simp: coerce_prefix_len_def rbind_Inr_conv split: if_splits)

lemma coerce_log_level_valid: "coerce_log_level rep v \<in> LOG_LEVELS"
  unfolding coerce_log_level_def Let_def LOG_LEVELS_def by (simp only: insert_iff split: if_split) blast

lemma coerce_backend_valid: "coerce_backend rep v \<in> BACKENDS"
  unfolding coerce_backend_def Let_def BACKENDS_def by (simp only: insert_iff split: if_split) blast

lemma float_0_4_pos: "\<not> flt_le float_0_4 (Fin 0)"
  by (simp add: float_0_4_def)

lemma mbps_nonneg:
  assumes "\<not> flt_lt x (Fin 0)"
    and "int_of_float (flt_div (flt_mul x (Fin 1000000)) (Fin 8)) = Inr i"
  shows "0 \<le> i"
proof -
  consider "flt_mul x (Fin 1000000) = NaN" | "flt_mul x (Fin 1000000) = PInf"
    | y where "flt_mul x (Fin 1000000) = Fin y" "0 \<le> y"
  proof (cases x)
    case (Fin a)
    with assms(1) have "0 \<le> a * 1000000" by (auto simp: flt_lt_def)
    from fl_nonneg [OF this] Fin that show ?thesis by (auto simp: flt_mul_def)
  qed (use assms(1) that in \<open>auto simp: flt_mul_def flt_lt_def\<close>)
  then show ?thesis
  proof cases
    case (3 y)
    then have "0 \<le> y / 8" by simp
    from fl_nonneg [OF this] 3(1) assms(2) show ?thesis
      by (auto simp: flt_div_def int_of_float_def)
  qed (use assms(2) in \<open>auto simp: flt_div_def int_of_float_def\<close>)
qed

lemma pres_for_each: "(\<And>x. pres P (f x)) \<Longrightarrow> pres P (for_each table key f)"
  unfolding for_each_def by (intro pres_rules)

lemmas pres_steps = pres_lift_bind pres_seq pres_seqs pres_ret pres_for_all pres_for_each pres_modify

lemma clear_policy_ok: "pres config_ok clear_policy"
  unfolding clear_policy_def
  by (rule pres_modify) (simp add: ok_defs tables_ok_def RateTables_init_def)

lemma permanent_ports_ok: "pres config_ok (apply_permanent_ports doc)"
  unfolding apply_permanent_ports_def Let_def add_permanent_def
  by (intro pres_steps) (simp_all add: ok_defs)

lemma trusted_ips_ok: "pres config_ok (apply_trusted_ips rep doc)"
  unfolding apply_trusted_ips_def split_def by (intro pres_steps) (simp add: ok_defs)

lemma sit4_ok: "pres config_ok (apply_sit4_endpoints rep doc)"
  unfolding apply_sit4_endpoints_def
  by (intro pres_for_each pres_option pres_ret pres_modify) (simp add: ok_defs)

lemma acl_ok: "pres config_ok (apply_acl doc)"
  unfolding apply_acl_def by (intro pres_steps) (simp add: ok_defs)

lemma load_table_ok:
  assumes "\<And>t g. tables_ok t \<Longrightarrow> (\<And>d. dict_ok d \<Longrightarrow> dict_ok (g d)) \<Longrightarrow> tables_ok (upd g t)"
  shows "pres config_ok (load_table rl key upd)"
  unfolding load_table_def using assms by (intro pres_steps) (simp add: ok_defs)

lemma rate_limits_ok: "pres config_ok (apply_rate_limits doc)"
proof -
  have "pres config_ok (apply_source_prefixes rl)" for rl
    unfolding apply_source_prefixes_def
    by (intro pres_steps; clarsimp simp: ok_defs rbind_Inr_conv
        dest!: coerce_prefix_len_range [of _ 32 32, simplified]
          coerce_prefix_len_range [of _ 128 128, simplified])
  moreover have "pres config_ok (apply_map_entries rl)" for rl
    unfolding apply_map_entries_def by (intro pres_steps) (simp_all add: ok_defs)
  ultimately show ?thesis
    unfolding apply_rate_limits_def Let_def mseqs.simps
    by (intro pres_seq pres_ret load_table_ok) (simp_all add: tables_ok_def)
qed

lemma firewall_ok: "pres config_ok (apply_firewall doc)"
  unfolding apply_firewall_def by (intro pres_steps) (simp_all add: ok_defs)

lemma daemon_ok: "pres config_ok (apply_daemon rep doc)"
proof -
  have "\<not> flt_le x (Fin 0)" if "coerce_positive_float v float_0_4 = Inr x" for v x
    using that float_0_4_pos by (rule coerce_positive_float_pos)
  then show ?thesis unfolding apply_daemon_def Let_def
    by (intro pres_steps; clarsimp simp: ok_defs coerce_log_level_valid coerce_backend_valid rbind_Inr_conv)
qed

lemma discovery_ok: "pres config_ok (apply_discovery doc)"
  unfolding apply_discovery_def Let_def by (intro pres_steps) (simp_all add: ok_defs)

lemma xdp_nft_ok: "pres config_ok (apply_xdp_nft rep doc)"
  unfolding apply_xdp_nft_def Let_def set_bpf_pin_dir_def
  by (intro pres_steps; clarsimp simp: ok_defs rbind_Inr_conv dest!: coerce_positive_int_pos)

lemma set_seconds_ok:
  assumes "\<And>r x. runtime_valid r \<Longrightarrow> \<not> flt_lt x (Fin 0) \<Longrightarrow> runtime_valid (upd (\<lambda>_. x) r)"
    and "0 \<le> d"
  shows "pres config_ok (set_seconds rt key (Fin d) upd)"
proof -
  have "\<not> flt_lt x (Fin 0)" if "coerce_nonnegative_float v (Fin d) = Inr x" for v x
    using coerce_nonnegative_float_nonneg [OF that] assms(2) by (simp add: flt_lt_def)
  then show ?thesis unfolding set_seconds_def
    by (intro pres_steps) (auto simp: ok_defs rbind_Inr_conv intro!: assms(1))
qed

lemma set_count_ok:
  assumes "\<And>r i. runtime_valid r \<Longrightarrow> 0 < i \<Longrightarrow> runtime_valid (upd (\<lambda>_. i) r)" and "0 < d"
  shows "pres config_ok (set_count rt key d upd)"
proof -
  have "0 < i" if "coerce_positive_int v d = Inr i" for v i
    using coerce_positive_int_pos [OF that assms(2)] .
  then show ?thesis unfolding set_count_def
    by (intro pres_steps) (auto simp: ok_defs rbind_Inr_conv intro!: assms(1))
qed

lemma global_byte_rate_ok: "pres config_ok (apply_global_byte_rate rt)"
proof -
  have "0 \<le> i" if "coerce_nonnegative_float v (Fin 0) = Inr x"
    "int_of_float (flt_div (flt_mul x (Fin 1000000)) (Fin 8)) = Inr i" for v x i
    using coerce_nonnegative_float_nonneg [OF that(1)] that(2) mbps_nonneg by (simp add: flt_lt_def)
  then show ?thesis unfolding apply_global_byte_rate_def
    by (intro pres_steps) (auto simp: ok_defs rbind_Inr_conv runtime_valid_def)
qed

lemma xdp_runtime_ok: "pres config_ok (apply_xdp_runtime doc)"
  unfolding apply_xdp_runtime_def apply_runtime_timing_def apply_runtime_defaults_def mseqs.simps
  by (intro pres_lift_bind pres_seq pres_ret global_byte_rate_ok set_seconds_ok set_count_ok)
     (simp_all add: runtime_valid_def)

lemma slots_ok: "pres config_ok (apply_slots_abuseipdb rep doc)"
  unfolding apply_slots_abuseipdb_def Let_def
  by (intro pres_steps; clarsimp simp: ok_defs rbind_Inr_conv dest!: coerce_positive_float_pos)

lemma in_place_ok: "pres config_ok (apply_toml_config_in_place rep doc)"
  unfolding apply_toml_config_in_place_def mseqs.simps
  by (intro pres_seq pres_ret clear_policy_ok permanent_ports_ok trusted_ips_ok sit4_ok acl_ok
      rate_limits_ok firewall_ok daemon_ok discovery_ok xdp_nft_ok xdp_runtime_ok slots_ok)

lemma Config_init_ok: "config_ok (Config_init names xdp_obj tc_obj)"
  by (simp add: ok_defs Config_init_def tables_ok_def RateTables_init_def runtime_valid_def
      XdpRuntime_init_def float_0_4_pos flt_lt_def
      LOG_LEVELS_def BACKENDS_def)

lemma apply_toml_config_ok:
  assumes "config_ok c"
  shows "config_ok (snd (apply_toml_config rep doc c))"
  using presD [OF in_place_ok assms, of rep doc] assms
  by (auto simp: apply_toml_config_def restore_globals_id config_ok_def split: prod.splits sum.splits)

lemma normalize_cidr_v4:
  assumes "CHR '':'' \<notin> set s" and "normalize_cidr s = Inr c"
  obtains n where "ipv4_network s = Some n" and "c = ipv4_network_str n" and "CHR '':'' \<notin> set c"
proof -
  from assms obtain i p where n: "ipv4_network s = Some (i, p)" and c: "c = ipv4_network_str (i, p)"
    by (auto simp: normalize_cidr_def split: option.splits)
  have "CHR '':'' \<notin> set c"
    using ipv4_network_range [OF n] ipv4_str_chars(2) [of i] no_sep_str_of_int(3) [of "int p"]
    by (simp add: c ipv4_network_str_def)
  with n c that show thesis by blast
qed

lemmas section_defs = clear_policy_def apply_permanent_ports_def apply_trusted_ips_def
  apply_sit4_endpoints_def apply_acl_def apply_rate_limits_def apply_source_prefixes_def
  apply_map_entries_def load_table_def int_table_def apply_firewall_def apply_daemon_def
  apply_discovery_def apply_xdp_nft_def apply_xdp_runtime_def apply_runtime_timing_def
  apply_runtime_defaults_def apply_global_byte_rate_def apply_slots_abuseipdb_def
  set_seconds_def set_count_def for_each_def add_permanent_def set_bpf_pin_dir_def

lemma empty_document_loads: "fst (apply_toml_config rep [] s) = Inr ()"
  by (simp add: apply_toml_config_def apply_toml_config_in_place_def section_defs dict_get_or_def
      mseq_def mbind_def mlift_apply ret_apply coerce_prefix_len_def coerce_positive_float_def
      coerce_positive_int_def coerce_nonnegative_float_def float_0_4_def flt_lt_def
      flt_mul_def flt_div_def fl_def int_of_float_def)

section \<open>Properties\<close>

text \<open>
  C6 (\<open>config.py\<close>, \<open>apply_toml_config\<close>): a reload that raises leaves every global of the
  configuration as it was, however far the assignment had come.
\<close>

theorem reload_atomic:
  assumes "config_ok c" and "fst (apply_toml_config rep doc c) = Inl e"
  shows "snd (apply_toml_config rep doc c) = c"
  using assms
  by (auto simp: apply_toml_config_def restore_globals_id config_ok_def split: prod.splits sum.splits)

theorem reload_atomic_witness:
  "apply_toml_config (\<lambda>_. []) [(''permanent_ports'', VDict [(''tcp'', VList [VInt 22, VStr ''x''])])]
     (Config_init [] [] []) = (Inl ValueErr, Config_init [] [] [])"
proof -
  let ?doc = "[(''permanent_ports'', VDict [(''tcp'', VList [VInt 22, VStr ''x''])])]"
  have "fst (apply_toml_config (\<lambda>_. []) ?doc (Config_init [] [] [])) = Inl ValueErr"
    by (simp add: apply_toml_config_def apply_toml_config_in_place_def clear_policy_def
        apply_permanent_ports_def for_each_def add_permanent_def dict_get_or_def mseq_def mbind_def
        py_int_def int_of_str_def str_strip_def str_lstrip_def is_space_def nat_of_str_def
        is_digit_def)
  with reload_atomic [OF Config_init_ok this] show ?thesis
    by (simp add: prod_eq_iff)
qed

text \<open>
  C7 (\<open>config.py\<close>, \<open>_apply_toml_config_in_place\<close>): a successful reload depends on the document
  only. Two daemons with the same environment that load the same document end with the same
  configuration, whatever each had loaded before: no entry of an earlier document survives.
\<close>

theorem reload_determined:
  assumes "REQUIRED_XDP_MAP_NAMES s = REQUIRED_XDP_MAP_NAMES t"
    and "XDP_OBJ_PATH s = XDP_OBJ_PATH t" and "TC_OBJ_PATH s = TC_OBJ_PATH t"
    and "fst (apply_toml_config rep doc s) = Inr ()"
  shows "apply_toml_config rep doc t = apply_toml_config rep doc s"
proof -
  have v: "view_env s = view_env t" using assms(1-3) by (simp add: view_env_def)
  have ok: "fst (apply_toml_config_in_place rep doc s) = Inr ()"
    using assms(4) by (auto simp: apply_toml_config_def split: prod.splits sum.splits)
  have "apply_toml_config_in_place rep doc t = apply_toml_config_in_place rep doc s"
    using settlesD [OF in_place_settles v, of rep doc] ok
    by (metis prod_eq_iff view_slots_inj)
  with ok show ?thesis
    by (auto simp: apply_toml_config_def split: prod.splits)
qed

theorem reload_determined_witness:
  "apply_toml_config (\<lambda>_. []) [] ((Config_init [] [] [])\<lparr>TCP_PERMANENT := [(22, ''config'')]\<rparr>) =
   apply_toml_config (\<lambda>_. []) [] (Config_init [] [] [])"
  by (rule reload_determined) (simp_all add: empty_document_loads)

text \<open>
  C39 (\<open>config.py\<close>): after any sequence of reloads, failing ones included, from the values at
  import time: no dictionary has a key twice; the source prefix lengths are in range; the log level, the backend and
  the slot action are known ones; the debounce time and the refresh time of the feed are not at or below zero, and the
  other durations and the ICMP rate not below zero, which NaN is not either; the number of missed rounds, the ICMP burst, the
  threshold and the default limits are positive and the UDP byte rate is not negative; and drop events are enabled exactly when
  attack mode is off. Nothing is said of the sizes of maps, of ports, of the values in the rate tables, of the
  protocols of the ACL or of the names for \<open>nft\<close>.
\<close>

theorem reloads_config_ok:
  "config_ok (fold (\<lambda>doc c. snd (apply_toml_config rep doc c)) docs (Config_init names xdp_obj tc_obj))"
proof -
  have "config_ok c \<Longrightarrow> config_ok (fold (\<lambda>doc c. snd (apply_toml_config rep doc c)) docs c)" for c
    by (induction docs arbitrary: c) (simp_all add: apply_toml_config_ok)
  then show ?thesis using Config_init_ok by blast
qed

text \<open>
  \<open>config.py\<close>, \<open>normalize_cidr\<close>: normalising an IPv4 network twice is normalising it once, so
  the keys of the trusted table compare equal to the ones read back from the kernel.
\<close>

theorem normalize_cidr_idem:
  assumes "CHR '':'' \<notin> set s" and "normalize_cidr s = Inr c"
  shows "normalize_cidr c = Inr c"
proof -
  obtain n where "ipv4_network s = Some n" "c = ipv4_network_str n" "CHR '':'' \<notin> set c"
    using normalize_cidr_v4 [OF assms] .
  with ipv4_network_roundtrip show ?thesis by (simp add: normalize_cidr_def)
qed

theorem normalize_cidr_idem_witness:
  "normalize_cidr ''10.1.2.3/8'' = Inr ''10.0.0.0/8'' \<and>
   normalize_cidr ''10.0.0.0/8'' = Inr ''10.0.0.0/8''"
proof -
  have "normalize_cidr ''10.1.2.3/8'' = Inr ''10.0.0.0/8''"
    by code_simp
  moreover have "CHR '':'' \<notin> set ''10.1.2.3/8''" by simp
  ultimately show ?thesis using normalize_cidr_idem by blast
qed

end
