(* ===== verification/BpfPortMaps.thy ===== *)
theory BpfPortMaps
  imports BpfKernel Config
begin

text \<open>
  \<open>auto_xdp/bpf/maps.py\<close>, the maps keyed by a port or with a single entry: the
  whitelists (\<open>BpfArrayMap\<close>), the runtime settings, the global rate limit, the
  per-port policies with their views, the SYN rates and the outer maps of the
  rate limiters. A method is a statement on the object and the kernel; \<open>K\<close> is
  the kernel. The \<open>ctypes\<close> buffers are not part of the objects: every method
  fills the ones it uses before the call that reads them.
\<close>

section \<open>Shared by the classes\<close>

text \<open>\<open>CacheVerifyMixin.verify\<close>, for a cache that is a set and for one that is a dictionary.\<close>

definition set_drift :: "'a set \<Rightarrow> 'a set \<Rightarrow> nat" where
  "set_drift found cache = (if found = cache then 0 else card ((found - cache) \<union> (cache - found)))"

definition dict_drift :: "('k, 'v) dict \<Rightarrow> ('k, 'v) dict \<Rightarrow> nat" where
  "dict_drift found cache =
     (if dict_eq found cache then 0
      else card {key \<in> dict_keys found \<union> dict_keys cache. dict_get found key \<noteq> dict_get cache key})"

definition verify_map ::
  "('m \<times> 'k, 'c) pym \<Rightarrow> ('m \<Rightarrow> 'c) \<Rightarrow> ('c \<Rightarrow> 'm \<Rightarrow> 'm) \<Rightarrow> ('c \<Rightarrow> 'c \<Rightarrow> bool) \<Rightarrow> ('c \<Rightarrow> 'c \<Rightarrow> nat) \<Rightarrow>
   ('m \<times> 'k, nat) pym" where
  "verify_map read_kernel cache put_cache eq drift =
     mbind read_kernel (\<lambda>found.
     mbind (obj cache) (\<lambda>old.
     if eq found old then ret 0
     else mseq (set_obj (put_cache found)) (ret (drift found old))))"

definition close_fd :: "'k kernel \<Rightarrow> ('m \<Rightarrow> int) \<Rightarrow> (int \<Rightarrow> 'm \<Rightarrow> 'm) \<Rightarrow> ('m \<times> 'k, unit) pym" where
  "close_fd K get_fd put_fd =
     mbind (obj get_fd) (\<lambda>fd.
     if 0 \<le> fd then mseq (kern (os_close K fd)) (set_obj (put_fd (- 1))) else ret ())"

text \<open>\<open>BPF_MAP_LOOKUP_BATCH\<close>: the errno, if any, and the entries fetched.\<close>

definition lookup_batch ::
  "'k kernel \<Rightarrow> int \<Rightarrow> int \<Rightarrow> ('k, int option \<times> (bytes \<times> bytes) list) pym" where
  "lookup_batch K fd n k = (case sys_lookup_batch K fd (nat n) k of (r, k') \<Rightarrow> (Inr r, k'))"

definition batch_done :: "int option \<Rightarrow> bool" where
  "batch_done e \<longleftrightarrow> e = None \<or> e = Some ENOENT"

definition pack_pair :: "bytes res \<Rightarrow> bytes res \<Rightarrow> (bytes \<times> bytes) res" where
  "pack_pair a b = rbind a (\<lambda>x. rbind b (\<lambda>y. Inr (x, y)))"

definition zero_key :: bytes where "zero_key = le_bytes 4 0"

section \<open>BpfArrayMap\<close>

record BpfArrayMap =
  am_path :: string
  am_fd :: int
  am_max_entries :: int
  am_cache :: "int set"

definition array_lookup :: "'k kernel \<Rightarrow> int \<Rightarrow> int \<Rightarrow> ('k, int) pym" where
  "array_lookup K fd port =
     mbind (mlift (pack_u32 port)) (\<lambda>key.
     mbind (bpf (sys_lookup K fd key 0)) (\<lambda>val. ret (int_of_le (take 4 val))))"

text \<open>The sequential scan of a kernel without batch lookup.\<close>

fun array_scan :: "'k kernel \<Rightarrow> int \<Rightarrow> int list \<Rightarrow> int set \<Rightarrow> ('k, int set) pym" where
  "array_scan K fd [] result = ret result"
| "array_scan K fd (port # ports) result =
     mbind (mtry (mbind (array_lookup K fd port)
                    (\<lambda>v. ret (if v \<noteq> 0 then insert port result else result)))
             (on_oserror (\<lambda>_. ret result)))
       (array_scan K fd ports)"

definition nonzero_ports :: "(bytes \<times> bytes) list \<Rightarrow> int set" where
  "nonzero_ports es =
     set (map (\<lambda>(key, val). int_of_le (take 4 key))
       (filter (\<lambda>(key, val). int_of_le (take 4 val) \<noteq> 0) es))"

definition array_read_kernel :: "'k kernel \<Rightarrow> int \<Rightarrow> int \<Rightarrow> ('k, int set) pym" where
  "array_read_kernel K fd n =
     mbind (lookup_batch K fd n) (\<lambda>(e, es).
     if batch_done e then ret (nonzero_ports es) else array_scan K fd [0..n - 1] {})"

definition array_init :: "'k kernel \<Rightarrow> string \<Rightarrow> ('k, BpfArrayMap) pym" where
  "array_init K path =
     mbind (obj_get K path) (\<lambda>fd.
     mbind (map_max_entries K fd) (\<lambda>n.
     mbind (array_read_kernel K fd n) (\<lambda>cache.
     ret \<lparr>am_path = path, am_fd = fd, am_max_entries = n, am_cache = cache\<rparr>)))"

definition array_active_ports :: "BpfArrayMap \<Rightarrow> int set" where
  "array_active_ports m = am_cache m"

definition array_map_id :: "'k kernel \<Rightarrow> (BpfArrayMap \<times> 'k, int) pym" where
  "array_map_id K = mbind (obj am_fd) (\<lambda>fd. kern (map_id K fd))"

definition array_get :: "BpfArrayMap \<Rightarrow> int \<Rightarrow> int" where
  "array_get m port = (if port \<in> am_cache m then 1 else 0)"

definition array_set :: "'k kernel \<Rightarrow> int \<Rightarrow> int \<Rightarrow> bool \<Rightarrow> (BpfArrayMap \<times> 'k, bool) pym" where
  "array_set K port val dry =
     mbind (obj am_fd) (\<lambda>fd.
     guarded_update K dry fd 0 (pack_pair (pack_u32 port) (pack_u32 val))
       (am_cache_update (if val \<noteq> 0 then insert port else (\<lambda>c. c - {port}))))"

definition array_verify :: "'k kernel \<Rightarrow> (BpfArrayMap \<times> 'k, nat) pym" where
  "array_verify K =
     verify_map (mbind (obj (\<lambda>m. (am_fd m, am_max_entries m))) (\<lambda>(fd, n). kern (array_read_kernel K fd n)))
       am_cache (\<lambda>c. am_cache_update (\<lambda>_. c)) (=) set_drift"

definition array_close :: "'k kernel \<Rightarrow> (BpfArrayMap \<times> 'k, unit) pym" where
  "array_close K = close_fd K am_fd (\<lambda>fd. am_fd_update (\<lambda>_. fd))"

section \<open>BpfRuntimeConfigMap\<close>

definition XDP_CFG_FLAG_BOGON_DISABLED :: int where "XDP_CFG_FLAG_BOGON_DISABLED = 1"
definition XDP_CFG_FLAG_ABUSEIPDB_ENABLED :: int where "XDP_CFG_FLAG_ABUSEIPDB_ENABLED = 2"
definition XDP_CFG_FLAG_DROP_EVENTS_DISABLED :: int where "XDP_CFG_FLAG_DROP_EVENTS_DISABLED = 4"
definition XDP_CFG_FLAG_SLOT_DROP :: int where "XDP_CFG_FLAG_SLOT_DROP = 8"

record BpfRuntimeConfigMap =
  rc_path :: string
  rc_fd :: int

definition runtime_init :: "'k kernel \<Rightarrow> string \<Rightarrow> ('k, BpfRuntimeConfigMap) pym" where
  "runtime_init K path = mbind (obj_get K path) (\<lambda>fd. ret \<lparr>rc_path = path, rc_fd = fd\<rparr>)"

text \<open>The struct \<open>=QQQQQQQQII\<close>: eight 64-bit fields, the flags and padding.\<close>

definition runtime_fields :: "bytes \<Rightarrow> int list" where
  "runtime_fields val = le_fields 8 8 val @ le_fields 4 2 (drop 64 val)"

definition runtime_value :: "int list \<Rightarrow> int \<Rightarrow> bytes res" where
  "runtime_value fs cfg_flags =
     (if length fs = 8
      then pack_append (pack_all pack_u64 fs) (pack_all pack_u32 [cfg_flags, 0])
      else Inl StructErr)"

definition runtime_lookup_raw :: "'k kernel \<Rightarrow> (BpfRuntimeConfigMap \<times> 'k, int list option) pym" where
  "runtime_lookup_raw K =
     mbind (obj rc_fd) (\<lambda>fd.
     mtry (mbind (kern (bpf (sys_lookup K fd zero_key 0))) (\<lambda>val. ret (Some (runtime_fields val))))
       (on_oserror (\<lambda>_. ret None)))"

definition runtime_get :: "'k kernel \<Rightarrow> (BpfRuntimeConfigMap \<times> 'k, int list option) pym" where
  "runtime_get K = mbind (runtime_lookup_raw K) (\<lambda>raw. ret (map_option (take 8) raw))"

definition runtime_get_cfg_flags :: "'k kernel \<Rightarrow> (BpfRuntimeConfigMap \<times> 'k, int option) pym" where
  "runtime_get_cfg_flags K = mbind (runtime_lookup_raw K) (\<lambda>raw. ret (map_option (\<lambda>r. r ! 8) raw))"

definition runtime_set ::
  "'k kernel \<Rightarrow> int list \<Rightarrow> int \<Rightarrow> bool \<Rightarrow> (BpfRuntimeConfigMap \<times> 'k, bool) pym" where
  "runtime_set K fs cfg_flags dry =
     mbind (obj rc_fd) (\<lambda>fd.
     guarded_update K dry fd 0 (pack_pair (Inr zero_key) (runtime_value fs cfg_flags)) (\<lambda>m. m))"

definition runtime_close :: "'k kernel \<Rightarrow> (BpfRuntimeConfigMap \<times> 'k, unit) pym" where
  "runtime_close K = close_fd K rc_fd (\<lambda>fd. rc_fd_update (\<lambda>_. fd))"

section \<open>BpfGlobalRlMap\<close>

record BpfGlobalRlMap =
  gr_path :: string
  gr_fd :: int

definition global_rl_init :: "'k kernel \<Rightarrow> string \<Rightarrow> ('k, BpfGlobalRlMap) pym" where
  "global_rl_init K path = mbind (obj_get K path) (\<lambda>fd. ret \<lparr>gr_path = path, gr_fd = fd\<rparr>)"

text \<open>The struct \<open>=IIQQQQ\<close>; the second field is \<open>byte_rate_max\<close>.\<close>

definition global_rl_value :: "int \<Rightarrow> bytes res" where
  "global_rl_value byte_rate_max =
     pack_append (pack_all pack_u32 [0, byte_rate_max]) (pack_all pack_u64 [0, 0, 0, 0])"

definition global_rl_get :: "'k kernel \<Rightarrow> (BpfGlobalRlMap \<times> 'k, int) pym" where
  "global_rl_get K =
     mbind (obj gr_fd) (\<lambda>fd.
     mtry (mbind (kern (bpf (sys_lookup K fd zero_key BPF_F_LOCK))) (\<lambda>val.
             ret (int_of_le (take 4 (drop 4 val)))))
       (on_oserror (\<lambda>_. ret 0)))"

definition global_rl_set :: "'k kernel \<Rightarrow> int \<Rightarrow> bool \<Rightarrow> (BpfGlobalRlMap \<times> 'k, bool) pym" where
  "global_rl_set K byte_rate_max dry =
     mbind (obj gr_fd) (\<lambda>fd.
     guarded_update K dry fd BPF_F_LOCK (pack_pair (Inr zero_key) (global_rl_value byte_rate_max)) (\<lambda>m. m))"

definition global_rl_close :: "'k kernel \<Rightarrow> (BpfGlobalRlMap \<times> 'k, unit) pym" where
  "global_rl_close K = close_fd K gr_fd (\<lambda>fd. gr_fd_update (\<lambda>_. fd))"

section \<open>BpfSynRatePortsMap\<close>

record BpfSynRatePortsMap =
  sr_path :: string
  sr_fd :: int
  sr_max_entries :: int
  sr_cache :: "(int, int) dict"

definition dict_of_batch :: "(bytes \<Rightarrow> 'v) \<Rightarrow> (bytes \<times> bytes) list \<Rightarrow> (int, 'v) dict" where
  "dict_of_batch dec es = dict_update [] (map (\<lambda>(key, val). (int_of_le (take 4 key), dec val)) es)"

definition syn_rate_read_kernel :: "'k kernel \<Rightarrow> int \<Rightarrow> int \<Rightarrow> ('k, (int, int) dict) pym" where
  "syn_rate_read_kernel K fd n =
     mbind (lookup_batch K fd n) (\<lambda>(e, es).
     ret (if batch_done e then dict_of_batch (\<lambda>val. int_of_le (take 4 val)) es else []))"

definition syn_rate_init :: "'k kernel \<Rightarrow> string \<Rightarrow> ('k, BpfSynRatePortsMap) pym" where
  "syn_rate_init K path =
     mbind (obj_get K path) (\<lambda>fd.
     mbind (map_max_entries K fd) (\<lambda>n.
     mbind (syn_rate_read_kernel K fd n) (\<lambda>cache.
     ret \<lparr>sr_path = path, sr_fd = fd, sr_max_entries = n, sr_cache = cache\<rparr>)))"

definition syn_rate_set :: "'k kernel \<Rightarrow> int \<Rightarrow> int \<Rightarrow> bool \<Rightarrow> (BpfSynRatePortsMap \<times> 'k, bool) pym" where
  "syn_rate_set K port rate_max dry =
     mbind (obj sr_fd) (\<lambda>fd.
     guarded_update K dry fd 0 (pack_pair (pack_u32 port) (pack_all pack_u32 [rate_max, 0]))
       (sr_cache_update (dict_set port rate_max)))"

definition syn_rate_delete :: "'k kernel \<Rightarrow> int \<Rightarrow> bool \<Rightarrow> (BpfSynRatePortsMap \<times> 'k, bool) pym" where
  "syn_rate_delete K port dry =
     mbind (obj sr_fd) (\<lambda>fd.
     guarded_delete K dry fd (pack_u32 port) (sr_cache_update (dict_pop port)))"

definition syn_rate_verify :: "'k kernel \<Rightarrow> (BpfSynRatePortsMap \<times> 'k, nat) pym" where
  "syn_rate_verify K =
     verify_map (mbind (obj (\<lambda>m. (sr_fd m, sr_max_entries m))) (\<lambda>(fd, n). kern (syn_rate_read_kernel K fd n)))
       sr_cache (\<lambda>c. sr_cache_update (\<lambda>_. c)) dict_eq dict_drift"

definition syn_rate_active :: "BpfSynRatePortsMap \<Rightarrow> (int, int) dict" where
  "syn_rate_active m = sr_cache m"

definition syn_rate_close :: "'k kernel \<Rightarrow> (BpfSynRatePortsMap \<times> 'k, unit) pym" where
  "syn_rate_close K = close_fd K sr_fd (\<lambda>fd. sr_fd_update (\<lambda>_. fd))"

section \<open>BpfRateOuterMap\<close>

record BpfRateOuterMap =
  ro_path :: string
  ro_fd :: int
  ro_inner_key_size :: int
  ro_inner_value_size :: int
  ro_name_prefix :: string
  ro_max_entries :: int
  ro_cache :: "(int, int) dict"

text \<open>
  The scan of the slots. An empty slot and an inner map that cannot be opened
  are skipped; the descriptor of an inner map is closed also when reading its
  size raises, and that exception ends the scan.
\<close>

definition outer_read_slot :: "'k kernel \<Rightarrow> int \<Rightarrow> int \<Rightarrow> ('k, int option) pym" where
  "outer_read_slot K fd port =
     mbind (mlift (pack_u32 port)) (\<lambda>key.
     mbind (mtry (mbind (bpf (sys_lookup K fd key 0)) (\<lambda>val. ret (Some val))) (on_oserror (\<lambda>_. ret None)))
       (\<lambda>found. case found of None \<Rightarrow> ret None
        | Some val \<Rightarrow>
            mbind (mtry (mbind (map_get_fd_by_id K (int_of_le (take 4 val))) (\<lambda>ifd. ret (Some ifd)))
                    (on_oserror (\<lambda>_. ret None)))
              (\<lambda>opened. case opened of None \<Rightarrow> ret None
               | Some ifd \<Rightarrow> mfinally (mbind (map_max_entries K ifd) (\<lambda>n. ret (Some n))) (sys_close K ifd))))"

fun outer_scan :: "'k kernel \<Rightarrow> int \<Rightarrow> int list \<Rightarrow> (int, int) dict \<Rightarrow> ('k, (int, int) dict) pym" where
  "outer_scan K fd [] out = ret out"
| "outer_scan K fd (port # ports) out =
     mbind (outer_read_slot K fd port) (\<lambda>r.
     outer_scan K fd ports (case r of None \<Rightarrow> out | Some n \<Rightarrow> dict_set port n out))"

definition outer_read_kernel :: "'k kernel \<Rightarrow> int \<Rightarrow> int \<Rightarrow> ('k, (int, int) dict) pym" where
  "outer_read_kernel K fd n = outer_scan K fd [0..n - 1] []"

definition outer_init ::
  "'k kernel \<Rightarrow> string \<Rightarrow> int \<Rightarrow> int \<Rightarrow> string \<Rightarrow> ('k, BpfRateOuterMap) pym" where
  "outer_init K path key_size value_size name_prefix =
     mbind (obj_get K path) (\<lambda>fd.
     mbind (map_max_entries K fd) (\<lambda>n.
     mbind (outer_read_kernel K fd n) (\<lambda>cache.
     ret \<lparr>ro_path = path, ro_fd = fd, ro_inner_key_size = key_size, ro_inner_value_size = value_size,
          ro_name_prefix = name_prefix, ro_max_entries = n, ro_cache = cache\<rparr>)))"

definition outer_update_slot :: "'k kernel \<Rightarrow> int \<Rightarrow> int \<Rightarrow> int \<Rightarrow> ('k, bool) pym" where
  "outer_update_slot K fd port inner_fd =
     mbind (mlift (pack_pair (pack_u32 port) (pack_u32 inner_fd))) (\<lambda>(key, val).
     mtry (mseq (bpf (sys_update K fd key val 0)) (ret True)) (on_oserror (\<lambda>_. ret False)))"

definition outer_delete_slot :: "'k kernel \<Rightarrow> int \<Rightarrow> int \<Rightarrow> ('k, bool) pym" where
  "outer_delete_slot K fd port =
     mbind (mlift (pack_u32 port)) (\<lambda>key.
     mtry (mseq (bpf (sys_delete K fd key)) (ret True))
       (on_oserror (\<lambda>n. ret (n = ENOENT))))"

definition inner_name :: "BpfRateOuterMap \<Rightarrow> int \<Rightarrow> bytes" where
  "inner_name m port = take 15 (bytes_of_string (ro_name_prefix m @ str_of_int port))"

definition outer_create_inner :: "'k kernel \<Rightarrow> BpfRateOuterMap \<Rightarrow> int \<Rightarrow> int \<Rightarrow> ('k, int option) pym" where
  "outer_create_inner K m port capacity =
     mtry (mbind (map_create K BPF_MAP_TYPE_LRU_HASH (ro_inner_key_size m) (ro_inner_value_size m)
                    capacity 0 0 (inner_name m port)) (\<lambda>fd. ret (Some fd)))
       (on_oserror (\<lambda>_. ret None))"

definition outer_set :: "'k kernel \<Rightarrow> int \<Rightarrow> int \<Rightarrow> bool \<Rightarrow> (BpfRateOuterMap \<times> 'k, bool) pym" where
  "outer_set K port capacity dry =
     mbind (obj (\<lambda>m. m)) (\<lambda>m.
     if dict_get (ro_cache m) port = Some capacity then ret True
     else if dry then ret True
     else mbind (kern (outer_create_inner K m port capacity)) (\<lambda>inner. case inner of
         None \<Rightarrow> ret False
       | Some inner_fd \<Rightarrow>
           mbind (kern (mfinally (outer_update_slot K (ro_fd m) port inner_fd) (sys_close K inner_fd))) (\<lambda>ok.
           if \<not> ok then ret False
           else mseq (set_obj (ro_cache_update (dict_set port capacity))) (ret True))))"

definition outer_delete :: "'k kernel \<Rightarrow> int \<Rightarrow> bool \<Rightarrow> (BpfRateOuterMap \<times> 'k, bool) pym" where
  "outer_delete K port dry =
     mbind (obj (\<lambda>m. m)) (\<lambda>m.
     if dict_get (ro_cache m) port = None then ret True
     else if dry then ret True
     else mbind (kern (outer_delete_slot K (ro_fd m) port)) (\<lambda>ok.
       if \<not> ok then ret False
       else mseq (set_obj (ro_cache_update (dict_pop port))) (ret True)))"

definition outer_verify :: "'k kernel \<Rightarrow> (BpfRateOuterMap \<times> 'k, nat) pym" where
  "outer_verify K =
     verify_map (mbind (obj (\<lambda>m. (ro_fd m, ro_max_entries m))) (\<lambda>(fd, n). kern (outer_read_kernel K fd n)))
       ro_cache (\<lambda>c. ro_cache_update (\<lambda>_. c)) dict_eq dict_drift"

definition outer_close :: "'k kernel \<Rightarrow> (BpfRateOuterMap \<times> 'k, unit) pym" where
  "outer_close K = close_fd K ro_fd (\<lambda>fd. ro_fd_update (\<lambda>_. fd))"

section \<open>BpfPortPolicyMap\<close>

record BpfPortPolicyMap =
  pp_path :: string
  pp_fd :: int
  pp_max_entries :: int
  pp_cache :: "(int, int list) dict"

text \<open>The struct \<open>=IIIIIIII\<close>.\<close>

definition policy_value :: "int list \<Rightarrow> bytes res" where
  "policy_value fs = (if length fs = 8 then pack_all pack_u32 fs else Inl StructErr)"

definition policy_read_kernel :: "'k kernel \<Rightarrow> int \<Rightarrow> int \<Rightarrow> ('k, (int, int list) dict) pym" where
  "policy_read_kernel K fd n =
     mbind (lookup_batch K fd n) (\<lambda>(e, es).
     ret (if batch_done e then dict_of_batch (le_fields 4 8) es else []))"

definition policy_init :: "'k kernel \<Rightarrow> string \<Rightarrow> ('k, BpfPortPolicyMap) pym" where
  "policy_init K path =
     mbind (obj_get K path) (\<lambda>fd.
     mbind (map_max_entries K fd) (\<lambda>n.
     mbind (policy_read_kernel K fd n) (\<lambda>cache.
     ret \<lparr>pp_path = path, pp_fd = fd, pp_max_entries = n, pp_cache = cache\<rparr>)))"

definition policy_set_fields ::
  "'k kernel \<Rightarrow> int \<Rightarrow> int list \<Rightarrow> bool \<Rightarrow> (BpfPortPolicyMap \<times> 'k, bool) pym" where
  "policy_set_fields K port fs dry =
     mbind (obj pp_fd) (\<lambda>fd.
     guarded_update K dry fd 0 (pack_pair (pack_u32 port) (policy_value fs))
       (pp_cache_update (dict_set port fs)))"

definition policy_delete :: "'k kernel \<Rightarrow> int \<Rightarrow> bool \<Rightarrow> (BpfPortPolicyMap \<times> 'k, bool) pym" where
  "policy_delete K port dry =
     mbind (obj pp_fd) (\<lambda>fd.
     guarded_delete K dry fd (pack_u32 port) (pp_cache_update (dict_pop port)))"

definition with_prefixes :: "int \<Rightarrow> int \<Rightarrow> int list \<Rightarrow> int list" where
  "with_prefixes prefix_v4 prefix_v6 fs = fs[3 := prefix_v4, 4 := prefix_v6]"

definition policy_ensure_prefixes ::
  "'k kernel \<Rightarrow> int set \<Rightarrow> int \<Rightarrow> int \<Rightarrow> bool \<Rightarrow> (BpfPortPolicyMap \<times> 'k, unit) pym" where
  "policy_ensure_prefixes K ports prefix_v4 prefix_v6 dry =
     mfor (sorted_list_of_set ports) (\<lambda>port.
       mbind (obj (\<lambda>m. dict_get (pp_cache m) port)) (\<lambda>current. case current of
           None \<Rightarrow> ret ()
         | Some fs \<Rightarrow>
             if with_prefixes prefix_v4 prefix_v6 fs \<noteq> fs
             then mseq (policy_set_fields K port (with_prefixes prefix_v4 prefix_v6 fs) dry) (ret ())
             else ret ()))"

definition policy_verify :: "'k kernel \<Rightarrow> (BpfPortPolicyMap \<times> 'k, nat) pym" where
  "policy_verify K =
     verify_map (mbind (obj (\<lambda>m. (pp_fd m, pp_max_entries m))) (\<lambda>(fd, n). kern (policy_read_kernel K fd n)))
       pp_cache (\<lambda>c. pp_cache_update (\<lambda>_. c)) dict_eq dict_drift"

definition policy_close :: "'k kernel \<Rightarrow> (BpfPortPolicyMap \<times> 'k, unit) pym" where
  "policy_close K = close_fd K pp_fd (\<lambda>fd. pp_fd_update (\<lambda>_. fd))"

section \<open>BpfPortPolicyViewMap\<close>

text \<open>A view is the backing map and the index of one field.\<close>

definition view_active :: "nat \<Rightarrow> BpfPortPolicyMap \<Rightarrow> (int, int) dict" where
  "view_active i m =
     map (\<lambda>(port, fs). (port, fs ! i)) (filter (\<lambda>(port, fs). fs ! i \<noteq> 0) (pp_cache m))"

definition default_fields :: "Config \<Rightarrow> int list" where
  "default_fields c =
     [0, 0, 0, RATE_LIMIT_SOURCE_PREFIX_V4 c, RATE_LIMIT_SOURCE_PREFIX_V6 c, 0, 0, 0]"

definition view_write :: "'k kernel \<Rightarrow> int \<Rightarrow> int list \<Rightarrow> bool \<Rightarrow> (BpfPortPolicyMap \<times> 'k, bool) pym" where
  "view_write K port fs dry =
     (if take 3 fs = [0, 0, 0] then policy_delete K port dry
      else policy_set_fields K port fs dry)"

definition view_set ::
  "'k kernel \<Rightarrow> Config \<Rightarrow> nat \<Rightarrow> int \<Rightarrow> int \<Rightarrow> bool \<Rightarrow> (BpfPortPolicyMap \<times> 'k, bool) pym" where
  "view_set K c i port rate_max dry =
     mbind (obj (\<lambda>m. dict_get_or (pp_cache m) port (default_fields c))) (\<lambda>current.
     view_write K port (current[i := rate_max]) dry)"

definition view_delete :: "'k kernel \<Rightarrow> nat \<Rightarrow> int \<Rightarrow> bool \<Rightarrow> (BpfPortPolicyMap \<times> 'k, bool) pym" where
  "view_delete K i port dry =
     mbind (obj (\<lambda>m. dict_get (pp_cache m) port)) (\<lambda>current. case current of
         None \<Rightarrow> policy_delete K port dry
       | Some fs \<Rightarrow> view_write K port (fs[i := 0]) dry)"

end
