(* ===== verification/BpfAddrMaps.thy ===== *)
theory BpfAddrMaps
  imports BpfPortMaps
begin

text \<open>
  \<open>auto_xdp/bpf/maps.py\<close>, the maps keyed by an address or a flow: the trusted
  networks, the ACLs, the connection-tracking tables and the tunnel endpoints.
  \<open>fuel\<close> bounds the scans of a kernel map by \<open>BPF_MAP_GET_NEXT_KEY\<close>; \<open>it\<close> is
  the order in which a set is iterated.
\<close>

section \<open>Addresses in keys\<close>

text \<open>\<open>socket.inet_ntop(AF_INET6, raw)\<close>: as the printer of \<open>ipaddress\<close>, except for embedded IPv4 addresses.\<close>

definition inet_ntop6 :: "int \<Rightarrow> string" where
  "inet_ntop6 i =
     (let hs = hextets_of i; (start, len) = best_run hs 0 0 (0, 0) in
      if start = 0 \<and> len = 6 then ''::'' @ ipv4_str (i mod 2 ^ 32)
      else if start = 0 \<and> len = 5 \<and> hs ! 5 = 65535 then ''::ffff:'' @ ipv4_str (i mod 2 ^ 32)
      else ipv6_str i)"

definition packed :: "nat \<Rightarrow> int \<Rightarrow> bytes" where
  "packed n i = rev (le_bytes n i)"

text \<open>
  \<open>_pack_key\<close> of the prefix tries: the key (prefix length and address in network
  order) and the normalised text. The family is 4 or 6.
\<close>

definition lpm_pack_key :: "bool \<Rightarrow> string \<Rightarrow> (bytes \<times> string) res" where
  "lpm_pack_key v6 cidr =
     (if v6
      then (case ipv6_network cidr of
              None \<Rightarrow> Inl ValueErr
            | Some n \<Rightarrow> Inr (le_bytes 4 (int (snd n)) @ packed 16 (fst (fst n)), ipv6_network_str n))
      else (case ipv4_network cidr of
              None \<Rightarrow> Inl ValueErr
            | Some n \<Rightarrow> Inr (le_bytes 4 (int (snd n)) @ packed 4 (fst n), ipv4_network_str n)))"

definition lpm_unpack_key :: "bool \<Rightarrow> bytes \<Rightarrow> string" where
  "lpm_unpack_key v6 key =
     (let prefixlen = int_of_le (take 4 key) in
      (if v6 then inet_ntop6 (int_of_be (take 16 (drop 4 key)))
       else ipv4_str (int_of_be (take 4 (drop 4 key)))) @ ''/'' @ str_of_int prefixlen)"

section \<open>BpfLpmMap and BpfTrustedMaps\<close>

record BpfLpmMap =
  lm_path :: string
  lm_fd :: int
  lm_v6 :: bool
  lm_cache :: "string set"

text \<open>
  \<open>_read_kernel\<close>: an entry that vanished between the two calls is skipped, and an
  error of the enumeration ends it with what was found.
\<close>

definition lpm_read_entry :: "'k kernel \<Rightarrow> int \<Rightarrow> bool \<Rightarrow> bytes \<Rightarrow> (string set \<times> 'k, unit) pym" where
  "lpm_read_entry K fd v6 key =
     mtry (mbind (kern (bpf (sys_lookup K fd key 0))) (\<lambda>val.
             if int_of_le (take 4 val) \<noteq> 0 then set_obj (insert (lpm_unpack_key v6 key)) else ret ()))
       (on_oserror (\<lambda>_. ret ()))"

definition lpm_read_kernel :: "nat \<Rightarrow> 'k kernel \<Rightarrow> int \<Rightarrow> bool \<Rightarrow> ('k, string set) pym" where
  "lpm_read_kernel fuel K fd v6 k =
     (case mtry (scan_keys fuel K fd None (lpm_read_entry K fd v6)) (on_oserror (\<lambda>_. ret ())) ({}, k) of
        (Inl e, (result, k')) \<Rightarrow> (Inl e, k')
      | (Inr _, (result, k')) \<Rightarrow> (Inr result, k'))"

definition lpm_init :: "nat \<Rightarrow> 'k kernel \<Rightarrow> string \<Rightarrow> bool \<Rightarrow> ('k, BpfLpmMap) pym" where
  "lpm_init fuel K path v6 =
     mbind (obj_get K path) (\<lambda>fd.
     mbind (lpm_read_kernel fuel K fd v6) (\<lambda>cache.
     ret \<lparr>lm_path = path, lm_fd = fd, lm_v6 = v6, lm_cache = cache\<rparr>))"

definition lpm_delete :: "'k kernel \<Rightarrow> string \<Rightarrow> bool \<Rightarrow> (BpfLpmMap \<times> 'k, bool) pym" where
  "lpm_delete K cidr dry =
     (if dry then ret True
      else mbind (obj (\<lambda>m. m)) (\<lambda>m.
        mtry (mbind (mlift (lpm_pack_key (lm_v6 m) cidr)) (\<lambda>(key, normalized).
                mseq (kern (bpf (sys_delete K (lm_fd m) key)))
               (mseq (set_obj (lm_cache_update (\<lambda>c. c - {normalized}))) (ret True))))
          (on_oserror (\<lambda>n.
             if n = ENOENT
             then mbind (mlift (normalize_cidr cidr)) (\<lambda>normalized.
                  mseq (set_obj (lm_cache_update (\<lambda>c. c - {normalized}))) (ret True))
             else ret False))))"

definition lpm_set :: "'k kernel \<Rightarrow> string \<Rightarrow> int \<Rightarrow> bool \<Rightarrow> (BpfLpmMap \<times> 'k, bool) pym" where
  "lpm_set K cidr val dry =
     (if val = 0 then lpm_delete K cidr dry
      else if dry then ret True
      else mbind (obj (\<lambda>m. m)) (\<lambda>m.
        mtry (mbind (mlift (lpm_pack_key (lm_v6 m) cidr)) (\<lambda>(key, normalized).
                mseq (kern (bpf (sys_update K (lm_fd m) key (le_bytes 4 1) 0)))
               (mseq (set_obj (lm_cache_update (insert normalized))) (ret True))))
          (on_oserror (\<lambda>_. ret False))))"

definition lpm_verify :: "nat \<Rightarrow> 'k kernel \<Rightarrow> (BpfLpmMap \<times> 'k, nat) pym" where
  "lpm_verify fuel K =
     verify_map (mbind (obj (\<lambda>m. (lm_fd m, lm_v6 m))) (\<lambda>(fd, v6). kern (lpm_read_kernel fuel K fd v6)))
       lm_cache (\<lambda>c. lm_cache_update (\<lambda>_. c)) (=) set_drift"

definition lpm_close :: "'k kernel \<Rightarrow> (BpfLpmMap \<times> 'k, unit) pym" where
  "lpm_close K = close_fd K lm_fd (\<lambda>fd. lm_fd_update (\<lambda>_. fd))"

text \<open>A method of a part of an object.\<close>

definition on_part ::
  "('b \<Rightarrow> 'm) \<Rightarrow> (('m \<Rightarrow> 'm) \<Rightarrow> 'b \<Rightarrow> 'b) \<Rightarrow> ('m \<times> 'k, 'a) pym \<Rightarrow> ('b \<times> 'k, 'a) pym" where
  "on_part sel upd p s =
     (case p (sel (fst s), snd s) of (r, (m, k)) \<Rightarrow> (r, (upd (\<lambda>_. m) (fst s), k)))"

record BpfTrustedMaps =
  tr_map4 :: BpfLpmMap
  tr_map6 :: BpfLpmMap

definition trusted_init :: "nat \<Rightarrow> 'k kernel \<Rightarrow> string \<Rightarrow> string \<Rightarrow> ('k, BpfTrustedMaps) pym" where
  "trusted_init fuel K path4 path6 =
     mbind (lpm_init fuel K path4 False) (\<lambda>m4.
     mbind (lpm_init fuel K path6 True) (\<lambda>m6. ret \<lparr>tr_map4 = m4, tr_map6 = m6\<rparr>))"

definition trusted_active_keys :: "BpfTrustedMaps \<Rightarrow> string set" where
  "trusted_active_keys t = lm_cache (tr_map4 t) \<union> lm_cache (tr_map6 t)"

definition on_family ::
  "string \<Rightarrow> (BpfLpmMap \<times> 'k, 'a) pym \<Rightarrow> (BpfTrustedMaps \<times> 'k, 'a) pym" where
  "on_family cidr p =
     (if CHR '':'' \<in> set cidr then on_part tr_map6 tr_map6_update p else on_part tr_map4 tr_map4_update p)"

definition trusted_set :: "'k kernel \<Rightarrow> string \<Rightarrow> int \<Rightarrow> bool \<Rightarrow> (BpfTrustedMaps \<times> 'k, bool) pym" where
  "trusted_set K cidr val dry = on_family cidr (lpm_set K cidr val dry)"

definition trusted_delete :: "'k kernel \<Rightarrow> string \<Rightarrow> bool \<Rightarrow> (BpfTrustedMaps \<times> 'k, bool) pym" where
  "trusted_delete K cidr dry = on_family cidr (lpm_delete K cidr dry)"

definition trusted_verify :: "nat \<Rightarrow> 'k kernel \<Rightarrow> (BpfTrustedMaps \<times> 'k, nat) pym" where
  "trusted_verify fuel K =
     mbind (on_part tr_map4 tr_map4_update (lpm_verify fuel K)) (\<lambda>a.
     mbind (on_part tr_map6 tr_map6_update (lpm_verify fuel K)) (\<lambda>b. ret (a + b)))"

definition trusted_close :: "'k kernel \<Rightarrow> (BpfTrustedMaps \<times> 'k, unit) pym" where
  "trusted_close K =
     mseq (on_part tr_map4 tr_map4_update (lpm_close K)) (on_part tr_map6 tr_map6_update (lpm_close K))"

section \<open>BpfAclMap and BpfAclMaps\<close>

record BpfAclMap =
  ac_path :: string
  ac_fd :: int
  ac_v6 :: bool
  ac_cache :: "(string, int set) dict"

text \<open>The value: the number of ports and 64 port slots; further ports are cut off.\<close>

definition acl_pack_val :: "int list \<Rightarrow> bytes res" where
  "acl_pack_val ports =
     (let clamped = take ACL_MAX_PORTS ports;
          padded = clamped @ replicate (ACL_MAX_PORTS - length clamped) 0 in
      pack_append (pack_u32 (int (length clamped))) (pack_all pack_u16 padded))"

definition acl_unpack_val :: "bytes \<Rightarrow> int set" where
  "acl_unpack_val val =
     (let count = min (nat (int_of_le (take 4 val))) ACL_MAX_PORTS in
      set (le_fields 2 count (drop 4 val)))"

definition acl_read_entry :: "'k kernel \<Rightarrow> int \<Rightarrow> bool \<Rightarrow> bytes \<Rightarrow> ((string, int set) dict \<times> 'k, unit) pym" where
  "acl_read_entry K fd v6 key =
     mtry (mbind (kern (bpf (sys_lookup K fd key 0))) (\<lambda>val.
             set_obj (dict_set (lpm_unpack_key v6 key) (acl_unpack_val val))))
       (on_oserror (\<lambda>_. ret ()))"

definition acl_read_kernel :: "nat \<Rightarrow> 'k kernel \<Rightarrow> int \<Rightarrow> bool \<Rightarrow> ('k, (string, int set) dict) pym" where
  "acl_read_kernel fuel K fd v6 k =
     (case mtry (scan_keys fuel K fd None (acl_read_entry K fd v6)) (on_oserror (\<lambda>_. ret ())) ([], k) of
        (Inl e, (result, k')) \<Rightarrow> (Inl e, k')
      | (Inr _, (result, k')) \<Rightarrow> (Inr result, k'))"

definition acl_init :: "nat \<Rightarrow> 'k kernel \<Rightarrow> string \<Rightarrow> bool \<Rightarrow> ('k, BpfAclMap) pym" where
  "acl_init fuel K path v6 =
     mbind (obj_get K path) (\<lambda>fd.
     mbind (acl_read_kernel fuel K fd v6) (\<lambda>cache.
     ret \<lparr>ac_path = path, ac_fd = fd, ac_v6 = v6, ac_cache = cache\<rparr>))"

definition acl_set :: "'k kernel \<Rightarrow> string \<Rightarrow> int list \<Rightarrow> bool \<Rightarrow> (BpfAclMap \<times> 'k, bool) pym" where
  "acl_set K cidr ports dry =
     (if dry then ret True
      else mbind (obj (\<lambda>m. m)) (\<lambda>m.
        mtry (mbind (mlift (lpm_pack_key (ac_v6 m) cidr)) (\<lambda>(key, normalized).
              mbind (mlift (acl_pack_val ports)) (\<lambda>val.
                mseq (kern (bpf (sys_update K (ac_fd m) key val 0)))
               (mseq (set_obj (ac_cache_update (dict_set normalized (set ports)))) (ret True)))))
          (on_oserror (\<lambda>_. ret False))))"

definition acl_delete :: "'k kernel \<Rightarrow> string \<Rightarrow> bool \<Rightarrow> (BpfAclMap \<times> 'k, bool) pym" where
  "acl_delete K cidr dry =
     (if dry then ret True
      else mbind (obj (\<lambda>m. m)) (\<lambda>m.
        mbind (mlift (lpm_pack_key (ac_v6 m) cidr)) (\<lambda>(key, normalized).
        mtry (mseq (kern (bpf (sys_delete K (ac_fd m) key)))
               (mseq (set_obj (ac_cache_update (dict_pop normalized))) (ret True)))
          (on_oserror (\<lambda>n.
             if n = ENOENT then mseq (set_obj (ac_cache_update (dict_pop normalized))) (ret True)
             else ret False)))))"

definition acl_verify :: "nat \<Rightarrow> 'k kernel \<Rightarrow> (BpfAclMap \<times> 'k, nat) pym" where
  "acl_verify fuel K =
     verify_map (mbind (obj (\<lambda>m. (ac_fd m, ac_v6 m))) (\<lambda>(fd, v6). kern (acl_read_kernel fuel K fd v6)))
       ac_cache (\<lambda>c. ac_cache_update (\<lambda>_. c)) dict_eq dict_drift"

definition acl_close :: "'k kernel \<Rightarrow> (BpfAclMap \<times> 'k, unit) pym" where
  "acl_close K = close_fd K ac_fd (\<lambda>fd. ac_fd_update (\<lambda>_. fd))"

record BpfAclMaps =
  acl_tcp4 :: BpfAclMap
  acl_tcp6 :: BpfAclMap
  acl_udp4 :: BpfAclMap
  acl_udp6 :: BpfAclMap

definition acls_init ::
  "nat \<Rightarrow> 'k kernel \<Rightarrow> string \<Rightarrow> string \<Rightarrow> string \<Rightarrow> string \<Rightarrow> ('k, BpfAclMaps) pym" where
  "acls_init fuel K tcp4 tcp6 udp4 udp6 =
     mbind (acl_init fuel K tcp4 False) (\<lambda>t4.
     mbind (acl_init fuel K tcp6 True) (\<lambda>t6.
     mbind (acl_init fuel K udp4 False) (\<lambda>u4.
     mbind (acl_init fuel K udp6 True) (\<lambda>u6.
     ret \<lparr>acl_tcp4 = t4, acl_tcp6 = t6, acl_udp4 = u4, acl_udp6 = u6\<rparr>))))"

text \<open>\<open>_map_for\<close>: a protocol other than \<open>"tcp"\<close> goes to the UDP maps.\<close>

definition on_map_for ::
  "pyval \<Rightarrow> string \<Rightarrow> (BpfAclMap \<times> 'k, 'a) pym \<Rightarrow> (BpfAclMaps \<times> 'k, 'a) pym" where
  "on_map_for proto cidr p =
     (let is6 = CHR '':'' \<in> set cidr in
      if proto = VStr ''tcp''
      then (if is6 then on_part acl_tcp6 acl_tcp6_update p else on_part acl_tcp4 acl_tcp4_update p)
      else (if is6 then on_part acl_udp6 acl_udp6_update p else on_part acl_udp4 acl_udp4_update p))"

definition acls_set :: "'k kernel \<Rightarrow> pyval \<Rightarrow> string \<Rightarrow> int list \<Rightarrow> bool \<Rightarrow> (BpfAclMaps \<times> 'k, bool) pym" where
  "acls_set K proto cidr ports dry = on_map_for proto cidr (acl_set K cidr ports dry)"

definition acls_delete :: "'k kernel \<Rightarrow> pyval \<Rightarrow> string \<Rightarrow> bool \<Rightarrow> (BpfAclMaps \<times> 'k, bool) pym" where
  "acls_delete K proto cidr dry = on_map_for proto cidr (acl_delete K cidr dry)"

definition acls_verify :: "nat \<Rightarrow> 'k kernel \<Rightarrow> (BpfAclMaps \<times> 'k, nat) pym" where
  "acls_verify fuel K =
     mbind (on_part acl_tcp4 acl_tcp4_update (acl_verify fuel K)) (\<lambda>a.
     mbind (on_part acl_tcp6 acl_tcp6_update (acl_verify fuel K)) (\<lambda>b.
     mbind (on_part acl_udp4 acl_udp4_update (acl_verify fuel K)) (\<lambda>c.
     mbind (on_part acl_udp6 acl_udp6_update (acl_verify fuel K)) (\<lambda>d. ret (a + b + c + d)))))"

definition tagged :: "string \<Rightarrow> BpfAclMap \<Rightarrow> (pyval \<times> string, int set) dict" where
  "tagged proto m = map (\<lambda>(cidr, ports). ((VStr proto, cidr), ports)) (ac_cache m)"

definition acls_active_entries :: "BpfAclMaps \<Rightarrow> (pyval \<times> string, int set) dict" where
  "acls_active_entries a =
     dict_update (dict_update (dict_update (dict_update []
       (tagged ''tcp'' (acl_tcp4 a))) (tagged ''tcp'' (acl_tcp6 a)))
       (tagged ''udp'' (acl_udp4 a))) (tagged ''udp'' (acl_udp6 a))"

definition acls_close :: "'k kernel \<Rightarrow> (BpfAclMaps \<times> 'k, unit) pym" where
  "acls_close K = mseqs
     [on_part acl_tcp4 acl_tcp4_update (acl_close K), on_part acl_tcp6 acl_tcp6_update (acl_close K),
      on_part acl_udp4 acl_udp4_update (acl_close K), on_part acl_udp6 acl_udp6_update (acl_close K)]"

section \<open>BpfConntrackMap and BpfConntrackMaps\<close>

record BpfConntrackMap =
  ct_path :: string
  ct_fd :: int
  ct_key_len :: nat
  ct_dport_offset :: nat
  ct_cache :: "bytes set"

definition conntrack_load_cache :: "nat \<Rightarrow> 'k kernel \<Rightarrow> (BpfConntrackMap \<times> 'k, unit) pym" where
  "conntrack_load_cache fuel K =
     mbind (obj ct_fd) (\<lambda>fd.
     mtry (scan_keys fuel K fd None (\<lambda>key. set_obj (ct_cache_update (insert key))))
       (on_oserror (\<lambda>_. ret ())))"

definition conntrack_init :: "nat \<Rightarrow> 'k kernel \<Rightarrow> string \<Rightarrow> nat \<Rightarrow> ('k, BpfConntrackMap) pym" where
  "conntrack_init fuel K path key_len k =
     (case obj_get K path k of
        (Inl e, k1) \<Rightarrow> (Inl e, k1)
      | (Inr fd, k1) \<Rightarrow>
          (case conntrack_load_cache fuel K
                  (\<lparr>ct_path = path, ct_fd = fd, ct_key_len = key_len, ct_dport_offset = 2, ct_cache = {}\<rparr>, k1) of
             (Inl e, (m, k2)) \<Rightarrow> (Inl e, k2)
           | (Inr _, (m, k2)) \<Rightarrow> (Inr m, k2)))"

definition conntrack_refresh_cache :: "nat \<Rightarrow> 'k kernel \<Rightarrow> (BpfConntrackMap \<times> 'k, unit) pym" where
  "conntrack_refresh_cache fuel K =
     mseq (set_obj (ct_cache_update (\<lambda>_. {}))) (conntrack_load_cache fuel K)"

text \<open>\<open>existing_keys\<close>: the keys the kernel has, or the cache when the lookup fails.\<close>

definition conntrack_probe_key :: "'k kernel \<Rightarrow> bytes \<Rightarrow> (BpfConntrackMap \<times> 'k, bool) pym" where
  "conntrack_probe_key K key =
     mbind (obj ct_fd) (\<lambda>fd.
     mtry (mseq (kern (bpf (sys_lookup K fd key 0)))
          (mseq (set_obj (ct_cache_update (insert key))) (ret True)))
       (on_oserror (\<lambda>n.
          if n = ENOENT then mseq (set_obj (ct_cache_update (\<lambda>c. c - {key}))) (ret False)
          else obj (\<lambda>m. key \<in> ct_cache m))))"

fun conntrack_existing :: "'k kernel \<Rightarrow> bytes list \<Rightarrow> bytes set \<Rightarrow> (BpfConntrackMap \<times> 'k, bytes set) pym" where
  "conntrack_existing K [] present = ret present"
| "conntrack_existing K (key # keys) present =
     mbind (conntrack_probe_key K key) (\<lambda>found.
     conntrack_existing K keys (if found then insert key present else present))"

definition conntrack_existing_keys ::
  "(bytes set \<Rightarrow> bytes list) \<Rightarrow> 'k kernel \<Rightarrow> bytes set \<Rightarrow> (BpfConntrackMap \<times> 'k, bytes set) pym" where
  "conntrack_existing_keys it K keys = conntrack_existing K (it keys) {}"

definition conntrack_delete :: "'k kernel \<Rightarrow> bytes \<Rightarrow> bool \<Rightarrow> (BpfConntrackMap \<times> 'k, bool) pym" where
  "conntrack_delete K key dry =
     mbind (obj ct_fd) (\<lambda>fd. guarded_delete K dry fd (Inr key) (ct_cache_update (\<lambda>c. c - {key})))"

fun delete_each :: "'k kernel \<Rightarrow> bytes list \<Rightarrow> bool \<Rightarrow> nat \<Rightarrow> (BpfConntrackMap \<times> 'k, nat) pym" where
  "delete_each K [] dry deleted = ret deleted"
| "delete_each K (key # keys) dry deleted =
     mbind (conntrack_delete K key dry) (\<lambda>ok.
     delete_each K keys dry (if ok then Suc deleted else deleted))"

text \<open>The cached keys whose destination port is among the given ones.\<close>

definition dport_matches :: "nat \<Rightarrow> int set \<Rightarrow> bytes list \<Rightarrow> bytes list res" where
  "dport_matches off ports keys =
     rbind (rmap (\<lambda>key. rbind (unpack_be 2 key off) (\<lambda>p. Inr (key, p))) keys) (\<lambda>kps.
     Inr (map fst (filter (\<lambda>(key, p). p \<in> ports) kps)))"

definition conntrack_delete_dest_ports ::
  "(bytes set \<Rightarrow> bytes list) \<Rightarrow> 'k kernel \<Rightarrow> int set \<Rightarrow> bool \<Rightarrow> (BpfConntrackMap \<times> 'k, nat) pym" where
  "conntrack_delete_dest_ports it K ports dry =
     (if ports = {} then ret 0
      else mbind (obj (\<lambda>m. m)) (\<lambda>m.
        mbind (mlift (dport_matches (ct_dport_offset m) ports (it (ct_cache m)))) (\<lambda>matches.
        delete_each K matches dry 0)))"

text \<open>
  \<open>gc_expired\<close>. A value is a timestamp whose bit 63 marks a half-open flow. The
  keys are collected first; unlike in the other scans an error of the
  enumeration is not caught.
\<close>

definition ct_expired :: "int \<Rightarrow> int \<Rightarrow> int option \<Rightarrow> int \<Rightarrow> bool" where
  "ct_expired now timeout_ns syn_timeout_ns raw \<longleftrightarrow>
     (let ts = raw mod 2 ^ 63; is_half_open = (2 ^ 63 \<le> raw mod 2 ^ 64);
          limit = (if is_half_open then (case syn_timeout_ns of None \<Rightarrow> timeout_ns | Some t \<Rightarrow> t)
                   else timeout_ns) in
      now - ts > limit)"

definition collect_keys :: "nat \<Rightarrow> 'k kernel \<Rightarrow> int \<Rightarrow> ('k, bytes list) pym" where
  "collect_keys fuel K fd k =
     (case scan_keys fuel K fd None (\<lambda>key. set_obj (\<lambda>ks. ks @ [key])) ([], k) of
        (Inl e, (ks, k')) \<Rightarrow> (Inl e, k')
      | (Inr _, (ks, k')) \<Rightarrow> (Inr ks, k'))"

fun expired_keys ::
  "'k kernel \<Rightarrow> int \<Rightarrow> int \<Rightarrow> int \<Rightarrow> int option \<Rightarrow> bytes list \<Rightarrow> bytes list \<Rightarrow> ('k, bytes list) pym" where
  "expired_keys K fd now t st [] acc = ret acc"
| "expired_keys K fd now t st (key # keys) acc =
     mbind (mtry (mbind (bpf (sys_lookup K fd key 0)) (\<lambda>val.
                    ret (if ct_expired now t st (int_of_le (take 8 val)) then acc @ [key] else acc)))
             (on_oserror (\<lambda>_. ret acc)))
       (expired_keys K fd now t st keys)"

definition monotonic_ns :: "'k kernel \<Rightarrow> ('k, int) pym" where
  "monotonic_ns K k = (case sys_monotonic_ns K k of (t, k') \<Rightarrow> (Inr t, k'))"

definition conntrack_gc_expired ::
  "nat \<Rightarrow> 'k kernel \<Rightarrow> int \<Rightarrow> int option \<Rightarrow> (BpfConntrackMap \<times> 'k, nat) pym" where
  "conntrack_gc_expired fuel K timeout_ns syn_timeout_ns =
     mbind (obj ct_fd) (\<lambda>fd.
     mbind (kern (monotonic_ns K)) (\<lambda>now.
     mbind (kern (collect_keys fuel K fd)) (\<lambda>all_keys.
     mbind (kern (expired_keys K fd now timeout_ns syn_timeout_ns all_keys [])) (\<lambda>to_delete.
     delete_each K to_delete False 0))))"

definition conntrack_set :: "'k kernel \<Rightarrow> bytes \<Rightarrow> bool \<Rightarrow> (BpfConntrackMap \<times> 'k, bool) pym" where
  "conntrack_set K key dry =
     (if dry then ret True
      else mbind (obj ct_fd) (\<lambda>fd.
        mbind (kern (monotonic_ns K)) (\<lambda>now.
        guarded_update K False fd 0 (pack_pair (Inr key) (pack_u64 now)) (ct_cache_update (insert key)))))"

definition conntrack_close :: "'k kernel \<Rightarrow> (BpfConntrackMap \<times> 'k, unit) pym" where
  "conntrack_close K = close_fd K ct_fd (\<lambda>fd. ct_fd_update (\<lambda>_. fd))"

record BpfConntrackMaps =
  cts_map4 :: BpfConntrackMap
  cts_map6 :: BpfConntrackMap

definition conntracks_init :: "nat \<Rightarrow> 'k kernel \<Rightarrow> string \<Rightarrow> string \<Rightarrow> ('k, BpfConntrackMaps) pym" where
  "conntracks_init fuel K path4 path6 =
     mbind (conntrack_init fuel K path4 12) (\<lambda>m4.
     mbind (conntrack_init fuel K path6 36) (\<lambda>m6. ret \<lparr>cts_map4 = m4, cts_map6 = m6\<rparr>))"

definition conntracks_active_keys :: "BpfConntrackMaps \<Rightarrow> bytes set" where
  "conntracks_active_keys c = ct_cache (cts_map4 c) \<union> ct_cache (cts_map6 c)"

definition conntracks_refresh_cache :: "nat \<Rightarrow> 'k kernel \<Rightarrow> (BpfConntrackMaps \<times> 'k, unit) pym" where
  "conntracks_refresh_cache fuel K =
     mseq (on_part cts_map4 cts_map4_update (conntrack_refresh_cache fuel K))
          (on_part cts_map6 cts_map6_update (conntrack_refresh_cache fuel K))"

definition conntracks_existing_keys ::
  "(bytes set \<Rightarrow> bytes list) \<Rightarrow> 'k kernel \<Rightarrow> bytes set \<Rightarrow> (BpfConntrackMaps \<times> 'k, bytes set) pym" where
  "conntracks_existing_keys it K keys =
     mbind (on_part cts_map4 cts_map4_update
              (conntrack_existing_keys it K {key \<in> keys. length key = 12})) (\<lambda>a.
     mbind (on_part cts_map6 cts_map6_update
              (conntrack_existing_keys it K {key \<in> keys. length key = 36})) (\<lambda>b.
     ret (a \<union> b)))"

definition on_key_length ::
  "bytes \<Rightarrow> (BpfConntrackMap \<times> 'k, 'a) pym \<Rightarrow> (BpfConntrackMaps \<times> 'k, 'a) pym" where
  "on_key_length key p =
     (if length key = 12 then on_part cts_map4 cts_map4_update p
      else if length key = 36 then on_part cts_map6 cts_map6_update p
      else raise_exn ValueErr)"

definition conntracks_delete :: "'k kernel \<Rightarrow> bytes \<Rightarrow> bool \<Rightarrow> (BpfConntrackMaps \<times> 'k, bool) pym" where
  "conntracks_delete K key dry = on_key_length key (conntrack_delete K key dry)"

definition conntracks_set :: "'k kernel \<Rightarrow> bytes \<Rightarrow> bool \<Rightarrow> (BpfConntrackMaps \<times> 'k, bool) pym" where
  "conntracks_set K key dry = on_key_length key (conntrack_set K key dry)"

definition conntracks_gc_expired ::
  "nat \<Rightarrow> 'k kernel \<Rightarrow> int \<Rightarrow> int option \<Rightarrow> (BpfConntrackMaps \<times> 'k, nat) pym" where
  "conntracks_gc_expired fuel K t st =
     mbind (on_part cts_map4 cts_map4_update (conntrack_gc_expired fuel K t st)) (\<lambda>a.
     mbind (on_part cts_map6 cts_map6_update (conntrack_gc_expired fuel K t st)) (\<lambda>b. ret (a + b)))"

definition conntracks_delete_dest_ports ::
  "(bytes set \<Rightarrow> bytes list) \<Rightarrow> 'k kernel \<Rightarrow> int set \<Rightarrow> bool \<Rightarrow> (BpfConntrackMaps \<times> 'k, nat) pym" where
  "conntracks_delete_dest_ports it K ports dry =
     mbind (on_part cts_map4 cts_map4_update (conntrack_delete_dest_ports it K ports dry)) (\<lambda>a.
     mbind (on_part cts_map6 cts_map6_update (conntrack_delete_dest_ports it K ports dry)) (\<lambda>b. ret (a + b)))"

definition conntracks_close :: "'k kernel \<Rightarrow> (BpfConntrackMaps \<times> 'k, unit) pym" where
  "conntracks_close K =
     mseq (on_part cts_map4 cts_map4_update (conntrack_close K))
          (on_part cts_map6 cts_map6_update (conntrack_close K))"

section \<open>BpfSit4EndpointsMap\<close>

record BpfSit4EndpointsMap =
  si_path :: string
  si_fd :: int
  si_cache :: "string set"

text \<open>
  \<open>socket.inet_aton\<close> on dotted quads, which are the only addresses the daemon
  passes; on other text it raises an OSError without an errno.
\<close>

definition inet_aton :: "string \<Rightarrow> bytes res" where
  "inet_aton s = (case ipv4_of_str s of None \<Rightarrow> Inl (OSError 0) | Some i \<Rightarrow> Inr (packed 4 i))"

definition sit4_read_kernel :: "nat \<Rightarrow> 'k kernel \<Rightarrow> int \<Rightarrow> ('k, string set) pym" where
  "sit4_read_kernel fuel K fd k =
     (case scan_keys fuel K fd None (\<lambda>key. set_obj (insert (ipv4_str (int_of_be (take 4 key))))) ({}, k) of
        (Inl e, (result, k')) \<Rightarrow> (Inl e, k')
      | (Inr _, (result, k')) \<Rightarrow> (Inr result, k'))"

definition sit4_init :: "nat \<Rightarrow> 'k kernel \<Rightarrow> string \<Rightarrow> ('k, BpfSit4EndpointsMap) pym" where
  "sit4_init fuel K path =
     mbind (obj_get K path) (\<lambda>fd.
     mbind (sit4_read_kernel fuel K fd) (\<lambda>cache.
     ret \<lparr>si_path = path, si_fd = fd, si_cache = cache\<rparr>))"

definition sit4_set :: "'k kernel \<Rightarrow> string \<Rightarrow> bool \<Rightarrow> (BpfSit4EndpointsMap \<times> 'k, bool) pym" where
  "sit4_set K ip dry =
     mbind (obj si_fd) (\<lambda>fd.
     guarded_update K dry fd 0 (pack_pair (inet_aton ip) (Inr (le_bytes 4 1))) (si_cache_update (insert ip)))"

definition sit4_delete :: "'k kernel \<Rightarrow> string \<Rightarrow> bool \<Rightarrow> (BpfSit4EndpointsMap \<times> 'k, bool) pym" where
  "sit4_delete K ip dry =
     mbind (obj si_fd) (\<lambda>fd.
     guarded_delete K dry fd (inet_aton ip) (si_cache_update (\<lambda>c. c - {ip})))"

definition sit4_verify :: "nat \<Rightarrow> 'k kernel \<Rightarrow> (BpfSit4EndpointsMap \<times> 'k, nat) pym" where
  "sit4_verify fuel K =
     verify_map (mbind (obj si_fd) (\<lambda>fd. kern (sit4_read_kernel fuel K fd)))
       si_cache (\<lambda>c. si_cache_update (\<lambda>_. c)) (=) set_drift"

definition sit4_close :: "'k kernel \<Rightarrow> (BpfSit4EndpointsMap \<times> 'k, unit) pym" where
  "sit4_close K = close_fd K si_fd (\<lambda>fd. si_fd_update (\<lambda>_. fd))"

end
