(* ===== verification/Services.thy ===== *)
theory Services
  imports PyValue
begin

text \<open>
  \<open>auto_xdp/services.py\<close>: the table of service names. The parameter is the list
  of lines of \<open>/etc/services\<close> that could be read; an OSError while reading ends
  the list, and the entries read so far are kept. The cache of \<open>_service_map\<close>
  is the dictionary the callers pass around.
\<close>

type_synonym services = "(string \<times> int, string) dict"

definition service_line :: "string \<Rightarrow> services \<Rightarrow> services" where
  "service_line raw services =
     (let line = str_strip (fst (str_split1 (CHR ''#'') raw)); fields = str_words line in
      if line = [] \<or> length fields < 2 then services
      else (case str_split1 (CHR ''/'') (fields ! 1) of
              (port_str, None) \<Rightarrow> services
            | (port_str, Some proto) \<Rightarrow>
                if proto \<notin> {''tcp'', ''udp''} then services
                else (case int_of_str port_str of
                        None \<Rightarrow> services
                      | Some port \<Rightarrow> dict_setdefault (proto, port) (hd fields) services)))"

definition service_map :: "string list \<Rightarrow> services" where
  "service_map lines = fold service_line lines []"

definition service_name :: "services \<Rightarrow> int \<Rightarrow> string \<Rightarrow> string" where
  "service_name services port proto = dict_get_or services (proto, port) []"

lemma service_line_ok: "dict_ok services \<Longrightarrow> dict_ok (service_line raw services)"
  by (auto simp: service_line_def Let_def split: prod.splits option.splits)

lemma service_map_ok: "dict_ok (service_map lines)"
proof -
  have "dict_ok d \<Longrightarrow> dict_ok (fold service_line lines d)" for d
    by (induction lines arbitrary: d) (simp_all add: service_line_ok)
  then show ?thesis by (simp add: service_map_def)
qed

text \<open>A later line never renames a port: the first name of a port and protocol stays.\<close>

lemma service_line_keeps:
  "dict_get services k = Some n \<Longrightarrow> dict_get (service_line raw services) k = Some n"
  by (auto simp: service_line_def Let_def dict_simps split: prod.splits option.splits)

text \<open>
  \<open>services.py\<close>, \<open>_service_map\<close>: the first line of the services file that names a port
  and protocol decides: reading more lines never changes a name already found, and
  every key is a TCP or UDP port.
\<close>

theorem service_map_first_wins:
  "(\<forall>port proto. service_name (service_map pre) port proto \<noteq> [] \<longrightarrow>
      service_name (service_map (pre @ post)) port proto = service_name (service_map pre) port proto) \<and>
   fst ` dict_keys (service_map pre) \<subseteq> {''tcp'', ''udp''}"
proof -
  have mono: "dict_get d k = Some n \<Longrightarrow> dict_get (fold service_line post d) k = Some n" for d k n
    by (induction post arbitrary: d) (simp_all add: service_line_keeps)
  have line: "fst ` dict_keys d \<subseteq> {''tcp'', ''udp''} \<Longrightarrow>
      fst ` dict_keys (service_line raw d) \<subseteq> {''tcp'', ''udp''}" for raw d
    by (auto simp: service_line_def Let_def dict_simps split: prod.splits option.splits if_splits)
  have "fst ` dict_keys d \<subseteq> {''tcp'', ''udp''} \<Longrightarrow>
      fst ` dict_keys (fold service_line pre d) \<subseteq> {''tcp'', ''udp''}" for d
    by (induction pre arbitrary: d) (simp_all add: line)
  then have "fst ` dict_keys (service_map pre) \<subseteq> {''tcp'', ''udp''}"
    by (simp add: service_map_def dict_keys_def)
  moreover have "service_name (service_map (pre @ post)) port proto =
      service_name (service_map pre) port proto"
    if "service_name (service_map pre) port proto \<noteq> []" for port proto
    using that mono [of "service_map pre" "(proto, port)"]
    by (auto simp: service_name_def service_map_def dict_get_or_def split: option.splits)
  ultimately show ?thesis by blast
qed

theorem service_map_first_wins_witness:
  "service_name (service_map [''ssh 22/tcp # shell'', ''domain 53/udp'', ''other 22/tcp'']) 22 ''tcp'' = ''ssh''"
proof -
  have "service_name (service_map [''ssh 22/tcp # shell'']) 22 ''tcp'' = ''ssh''" by code_simp
  moreover from this have "service_name (service_map [''ssh 22/tcp # shell'']) 22 ''tcp'' \<noteq> []" by simp
  ultimately show ?thesis
    using service_map_first_wins [of "[''ssh 22/tcp # shell'']" "[''domain 53/udp'', ''other 22/tcp'']"]
    by simp
qed

end
