(* ===== verification/ReconcileState.thy ===== *)
theory ReconcileState
  imports PyValue PyStruct
begin

text \<open>
  \<open>auto_xdp/state.py\<close>: what was observed on the host, what the policy wants, what
  the backend has applied, and the plan that leads from the last to the second.
  A plan is one delta per field. The contract of a delta, that patching the
  applied value with it gives the desired one and that it is empty only when
  nothing differs, is the locale \<open>field_delta\<close>; sets and dictionaries both
  provide it.
\<close>

type_synonym limits = "(int, int) dict"
type_synonym acl_key = "pyval \<times> string"
type_synonym acl_table = "(acl_key, int set) dict"

section \<open>The dataclasses\<close>

record ObservedState =
  ob_tcp :: "int set"
  ob_udp :: "int set"
  ob_sctp :: "int set"
  ob_established :: "bytes set"
  ob_tcp_processes :: "(int, string) dict"
  ob_udp_processes :: "(int, string) dict"
  ob_udp_sock_opts :: "(int, string set) dict"

definition ObservedState_init :: ObservedState where
  "ObservedState_init = \<lparr>ob_tcp = {}, ob_udp = {}, ob_sctp = {}, ob_established = {},
     ob_tcp_processes = [], ob_udp_processes = [], ob_udp_sock_opts = []\<rparr>"

record DesiredState =
  ds_tcp_ports :: "int set"
  ds_udp_ports :: "int set"
  ds_sctp_ports :: "int set"
  ds_trusted_cidrs :: "string set"
  ds_conntrack_entries :: "bytes set"
  ds_tcp_syn_rate_limits :: limits
  ds_tcp_syn_agg_rate_limits :: limits
  ds_tcp_conn_limits :: limits
  ds_tcp_conn_prefix_limits :: limits
  ds_tcp_conn_port_limits :: limits
  ds_udp_rate_limits :: limits
  ds_udp_agg_rate_limits :: limits
  ds_tcp_rate_map_entries :: limits
  ds_udp_rate_map_entries :: limits
  ds_acl_rules :: acl_table
  ds_bogon_filter_enabled :: bool
  ds_drop_events_enabled :: bool
  ds_rate_limit_source_prefix_v4 :: int
  ds_rate_limit_source_prefix_v6 :: int
  ds_udp_global_byte_rate :: int
  ds_xdp_runtime_config :: "int list"

definition DesiredState_init :: DesiredState where
  "DesiredState_init = \<lparr>ds_tcp_ports = {}, ds_udp_ports = {}, ds_sctp_ports = {},
     ds_trusted_cidrs = {}, ds_conntrack_entries = {},
     ds_tcp_syn_rate_limits = [], ds_tcp_syn_agg_rate_limits = [], ds_tcp_conn_limits = [],
     ds_tcp_conn_prefix_limits = [], ds_tcp_conn_port_limits = [],
     ds_udp_rate_limits = [], ds_udp_agg_rate_limits = [],
     ds_tcp_rate_map_entries = [], ds_udp_rate_map_entries = [],
     ds_acl_rules = [], ds_bogon_filter_enabled = False, ds_drop_events_enabled = True,
     ds_rate_limit_source_prefix_v4 = 32, ds_rate_limit_source_prefix_v6 = 128,
     ds_udp_global_byte_rate = 0,
     ds_xdp_runtime_config =
       [300000000000, 60000000000, 30000000000, 100, 10000000, 1000000000, 1000000000, 30000000000]\<rparr>"

record AppliedState =
  as_tcp_ports :: "int set"
  as_udp_ports :: "int set"
  as_sctp_ports :: "int set"
  as_trusted_cidrs :: "string set"
  as_conntrack_entries :: "bytes set"
  as_tcp_syn_rate_limits :: limits
  as_tcp_syn_agg_rate_limits :: limits
  as_tcp_conn_limits :: limits
  as_tcp_conn_prefix_limits :: limits
  as_tcp_conn_port_limits :: limits
  as_udp_rate_limits :: limits
  as_udp_agg_rate_limits :: limits
  as_acl_rules :: acl_table
  as_bogon_filter_enabled :: "bool option"
  as_drop_events_enabled :: "bool option"
  as_rate_limit_source_prefix_v4 :: int
  as_rate_limit_source_prefix_v6 :: int
  as_udp_global_byte_rate :: "int option"
  as_xdp_runtime_config :: "int list option"

definition AppliedState_init :: AppliedState where
  "AppliedState_init = \<lparr>as_tcp_ports = {}, as_udp_ports = {}, as_sctp_ports = {},
     as_trusted_cidrs = {}, as_conntrack_entries = {},
     as_tcp_syn_rate_limits = [], as_tcp_syn_agg_rate_limits = [], as_tcp_conn_limits = [],
     as_tcp_conn_prefix_limits = [], as_tcp_conn_port_limits = [],
     as_udp_rate_limits = [], as_udp_agg_rate_limits = [], as_acl_rules = [],
     as_bogon_filter_enabled = None, as_drop_events_enabled = None,
     as_rate_limit_source_prefix_v4 = 32, as_rate_limit_source_prefix_v6 = 128,
     as_udp_global_byte_rate = None, as_xdp_runtime_config = None\<rparr>"

record ReconcilePlan =
  rp_tcp_ports_to_add :: "int set"
  rp_tcp_ports_to_remove :: "int set"
  rp_udp_ports_to_add :: "int set"
  rp_udp_ports_to_remove :: "int set"
  rp_sctp_ports_to_add :: "int set"
  rp_sctp_ports_to_remove :: "int set"
  rp_trusted_cidrs_to_add :: "string set"
  rp_trusted_cidrs_to_remove :: "string set"
  rp_conntrack_entries_to_add :: "bytes set"
  rp_conntrack_entries_to_remove :: "bytes set"
  rp_tcp_syn_rate_limits_to_upsert :: limits
  rp_tcp_syn_rate_limits_to_remove :: "int set"
  rp_tcp_syn_agg_rate_limits_to_upsert :: limits
  rp_tcp_syn_agg_rate_limits_to_remove :: "int set"
  rp_tcp_conn_limits_to_upsert :: limits
  rp_tcp_conn_limits_to_remove :: "int set"
  rp_tcp_conn_prefix_limits_to_upsert :: limits
  rp_tcp_conn_prefix_limits_to_remove :: "int set"
  rp_tcp_conn_port_limits_to_upsert :: limits
  rp_tcp_conn_port_limits_to_remove :: "int set"
  rp_udp_rate_limits_to_upsert :: limits
  rp_udp_rate_limits_to_remove :: "int set"
  rp_udp_agg_rate_limits_to_upsert :: limits
  rp_udp_agg_rate_limits_to_remove :: "int set"
  rp_acl_rules_to_upsert :: acl_table
  rp_acl_rules_to_remove :: "acl_key set"
  rp_bogon_filter_update :: "bool option"
  rp_drop_events_update :: "bool option"
  rp_udp_global_byte_rate_update :: "int option"

section \<open>Computing the plan\<close>

definition dict_upserts :: "('k, 'v) dict \<Rightarrow> ('k, 'v) dict \<Rightarrow> ('k, 'v) dict" where
  "dict_upserts desired applied = filter (\<lambda>(k, v). dict_get applied k \<noteq> Some v) desired"

definition dict_removals :: "('k, 'v) dict \<Rightarrow> ('k, 'v) dict \<Rightarrow> 'k set" where
  "dict_removals desired applied = dict_keys applied - dict_keys desired"

definition acl_upserts :: "acl_table \<Rightarrow> acl_table \<Rightarrow> acl_table" where
  "acl_upserts desired applied = filter (\<lambda>(k, ports). dict_get applied k \<noteq> Some ports) desired"

text \<open>\<open>if applied is None or applied != desired: update = desired\<close>\<close>

definition flag_update :: "'a \<Rightarrow> 'a option \<Rightarrow> 'a option" where
  "flag_update desired applied =
     (if applied = None \<or> applied \<noteq> Some desired then Some desired else None)"

definition compute_reconcile_plan :: "DesiredState \<Rightarrow> AppliedState \<Rightarrow> ReconcilePlan" where
  "compute_reconcile_plan d a = \<lparr>
     rp_tcp_ports_to_add = ds_tcp_ports d - as_tcp_ports a,
     rp_tcp_ports_to_remove = as_tcp_ports a - ds_tcp_ports d,
     rp_udp_ports_to_add = ds_udp_ports d - as_udp_ports a,
     rp_udp_ports_to_remove = as_udp_ports a - ds_udp_ports d,
     rp_sctp_ports_to_add = ds_sctp_ports d - as_sctp_ports a,
     rp_sctp_ports_to_remove = as_sctp_ports a - ds_sctp_ports d,
     rp_trusted_cidrs_to_add = ds_trusted_cidrs d - as_trusted_cidrs a,
     rp_trusted_cidrs_to_remove = as_trusted_cidrs a - ds_trusted_cidrs d,
     rp_conntrack_entries_to_add = ds_conntrack_entries d - as_conntrack_entries a,
     rp_conntrack_entries_to_remove = as_conntrack_entries a - ds_conntrack_entries d,
     rp_tcp_syn_rate_limits_to_upsert =
       dict_upserts (ds_tcp_syn_rate_limits d) (as_tcp_syn_rate_limits a),
     rp_tcp_syn_rate_limits_to_remove =
       dict_removals (ds_tcp_syn_rate_limits d) (as_tcp_syn_rate_limits a),
     rp_tcp_syn_agg_rate_limits_to_upsert =
       dict_upserts (ds_tcp_syn_agg_rate_limits d) (as_tcp_syn_agg_rate_limits a),
     rp_tcp_syn_agg_rate_limits_to_remove =
       dict_removals (ds_tcp_syn_agg_rate_limits d) (as_tcp_syn_agg_rate_limits a),
     rp_tcp_conn_limits_to_upsert =
       dict_upserts (ds_tcp_conn_limits d) (as_tcp_conn_limits a),
     rp_tcp_conn_limits_to_remove =
       dict_removals (ds_tcp_conn_limits d) (as_tcp_conn_limits a),
     rp_tcp_conn_prefix_limits_to_upsert =
       dict_upserts (ds_tcp_conn_prefix_limits d) (as_tcp_conn_prefix_limits a),
     rp_tcp_conn_prefix_limits_to_remove =
       dict_removals (ds_tcp_conn_prefix_limits d) (as_tcp_conn_prefix_limits a),
     rp_tcp_conn_port_limits_to_upsert =
       dict_upserts (ds_tcp_conn_port_limits d) (as_tcp_conn_port_limits a),
     rp_tcp_conn_port_limits_to_remove =
       dict_removals (ds_tcp_conn_port_limits d) (as_tcp_conn_port_limits a),
     rp_udp_rate_limits_to_upsert =
       dict_upserts (ds_udp_rate_limits d) (as_udp_rate_limits a),
     rp_udp_rate_limits_to_remove =
       dict_removals (ds_udp_rate_limits d) (as_udp_rate_limits a),
     rp_udp_agg_rate_limits_to_upsert =
       dict_upserts (ds_udp_agg_rate_limits d) (as_udp_agg_rate_limits a),
     rp_udp_agg_rate_limits_to_remove =
       dict_removals (ds_udp_agg_rate_limits d) (as_udp_agg_rate_limits a),
     rp_acl_rules_to_upsert = acl_upserts (ds_acl_rules d) (as_acl_rules a),
     rp_acl_rules_to_remove = dict_keys (as_acl_rules a) - dict_keys (ds_acl_rules d),
     rp_bogon_filter_update = flag_update (ds_bogon_filter_enabled d) (as_bogon_filter_enabled a),
     rp_drop_events_update = flag_update (ds_drop_events_enabled d) (as_drop_events_enabled a),
     rp_udp_global_byte_rate_update =
       flag_update (ds_udp_global_byte_rate d) (as_udp_global_byte_rate a)\<rparr>"

section \<open>The contract of a delta\<close>

text \<open>
  \<open>diff d a\<close> is the delta from the applied \<open>a\<close> to the desired \<open>d\<close>,
  \<open>patch\<close> carries a delta out, \<open>quiet\<close> says that a delta is empty, and \<open>view\<close> is
  what two values must agree on.
\<close>

locale field_delta =
  fixes ok :: "'a \<Rightarrow> bool"
    and view :: "'a \<Rightarrow> 'v"
    and diff :: "'a \<Rightarrow> 'a \<Rightarrow> 'p"
    and patch :: "'p \<Rightarrow> 'a \<Rightarrow> 'a"
    and quiet :: "'p \<Rightarrow> bool"
  assumes patch_ok: "ok d \<Longrightarrow> ok a \<Longrightarrow> ok (patch (diff d a) a)"
    and patch_view: "ok d \<Longrightarrow> ok a \<Longrightarrow> view (patch (diff d a) a) = view d"
    and quiet_iff: "ok d \<Longrightarrow> ok a \<Longrightarrow> quiet (diff d a) \<longleftrightarrow> view d = view a"
begin

lemma second_diff_quiet:
  assumes "ok d" and "ok a"
  shows "quiet (diff d (patch (diff d a) a))"
  using assms by (simp add: quiet_iff patch_ok patch_view)

lemma quiet_patch_view:
  assumes "ok d" and "ok a" and "quiet (diff d a)"
  shows "view (patch (diff d a) a) = view a"
  using assms by (simp add: quiet_iff patch_view)

end

definition set_diff :: "'a set \<Rightarrow> 'a set \<Rightarrow> 'a set \<times> 'a set" where
  "set_diff d a = (d - a, a - d)"

definition set_patch :: "'a set \<times> 'a set \<Rightarrow> 'a set \<Rightarrow> 'a set" where
  "set_patch p a = (a - snd p) \<union> fst p"

definition set_quiet :: "'a set \<times> 'a set \<Rightarrow> bool" where
  "set_quiet p \<longleftrightarrow> fst p = {} \<and> snd p = {}"

definition dict_diff :: "('k, 'v) dict \<Rightarrow> ('k, 'v) dict \<Rightarrow> ('k, 'v) dict \<times> 'k set" where
  "dict_diff d a = (dict_upserts d a, dict_removals d a)"

definition dict_patch :: "('k, 'v) dict \<times> 'k set \<Rightarrow> ('k, 'v) dict \<Rightarrow> ('k, 'v) dict" where
  "dict_patch p a = dict_update (filter (\<lambda>(k, v). k \<notin> snd p) a) (fst p)"

definition dict_quiet :: "('k, 'v) dict \<times> 'k set \<Rightarrow> bool" where
  "dict_quiet p \<longleftrightarrow> fst p = [] \<and> snd p = {}"

lemma map_of_dict_upserts:
  "dict_ok d \<Longrightarrow> map_of (dict_upserts d a) k =
     (case map_of d k of None \<Rightarrow> None | Some v \<Rightarrow> if map_of a k \<noteq> Some v then Some v else None)"
  unfolding dict_upserts_def by (rule map_of_filter_dict)

lemma dict_ok_upserts [simp]: "dict_ok d \<Longrightarrow> dict_ok (dict_upserts d a)"
  by (simp add: dict_upserts_def)

lemma in_dict_removals: "k \<in> dict_removals d a \<longleftrightarrow> map_of a k \<noteq> None \<and> map_of d k = None"
  by (auto simp: dict_removals_def dict_keys_dom)

lemma acl_upserts_eq: "acl_upserts d a = dict_upserts d a"
  by (simp add: acl_upserts_def dict_upserts_def)

lemma dict_patch_view:
  assumes "dict_ok d" and "dict_ok a"
  shows "map_of (dict_patch (dict_diff d a) a) = map_of d"
proof
  fix k
  have "map_of (dict_patch (dict_diff d a) a) k =
      (map_of (filter (\<lambda>(k, v). k \<notin> dict_removals d a) a) ++ map_of (dict_upserts d a)) k"
    using assms by (simp add: dict_patch_def dict_diff_def map_of_dict_update)
  also have "\<dots> = map_of d k"
    using assms
    by (auto simp: map_add_def map_of_dict_upserts map_of_filter_dict in_dict_removals
        split: option.splits)
  finally show "map_of (dict_patch (dict_diff d a) a) k = map_of d k" .
qed

lemma dict_quiet_iff:
  assumes "dict_ok d" and "dict_ok a"
  shows "dict_quiet (dict_diff d a) \<longleftrightarrow> map_of d = map_of a"
proof
  assume q: "dict_quiet (dict_diff d a)"
  then have up: "dict_upserts d a = []" and rm: "dict_removals d a = {}"
    by (auto simp: dict_quiet_def dict_diff_def)
  show "map_of d = map_of a"
  proof
    fix k
    have "map_of (dict_upserts d a) k = None" and "k \<notin> dict_removals d a"
      using up rm by auto
    then show "map_of d k = map_of a k"
      using assms by (auto simp: map_of_dict_upserts in_dict_removals split: option.splits if_splits)
  qed
next
  assume eq: "map_of d = map_of a"
  have "filter (\<lambda>(k, v). map_of a k \<noteq> Some v) d = []"
    using assms(1) by (auto simp: filter_empty_conv dict_ok_def simp flip: eq)
  with eq show "dict_quiet (dict_diff d a)"
    by (auto simp: dict_quiet_def dict_diff_def dict_upserts_def dict_removals_def dict_keys_dom)
qed

interpretation set_delta: field_delta "\<lambda>_. True" "\<lambda>A. A" set_diff set_patch set_quiet
  by unfold_locales (auto simp: set_diff_def set_patch_def set_quiet_def)

interpretation dict_delta: field_delta dict_ok map_of dict_diff dict_patch dict_quiet
proof unfold_locales
  show "dict_ok (dict_patch (dict_diff d a) a)" if "dict_ok d" "dict_ok a"
    for d a :: "('a, 'b) dict"
    using that by (simp add: dict_patch_def dict_diff_def)
qed (fact dict_patch_view dict_quiet_iff)+

section \<open>The plan as a whole\<close>

text \<open>
  The abstract meaning of a plan: every field of the applied state patched with
  its delta. \<open>state_matches\<close> says that the applied state shows the desired one
  in every field the plan covers.
\<close>

definition flag_patch :: "'a option \<Rightarrow> 'a option \<Rightarrow> 'a option" where
  "flag_patch u a = (case u of None \<Rightarrow> a | Some v \<Rightarrow> Some v)"

definition plan_patch :: "ReconcilePlan \<Rightarrow> AppliedState \<Rightarrow> AppliedState" where
  "plan_patch p a = a\<lparr>
     as_tcp_ports := set_patch (rp_tcp_ports_to_add p, rp_tcp_ports_to_remove p) (as_tcp_ports a),
     as_udp_ports := set_patch (rp_udp_ports_to_add p, rp_udp_ports_to_remove p) (as_udp_ports a),
     as_sctp_ports := set_patch (rp_sctp_ports_to_add p, rp_sctp_ports_to_remove p) (as_sctp_ports a),
     as_trusted_cidrs := set_patch (rp_trusted_cidrs_to_add p, rp_trusted_cidrs_to_remove p) (as_trusted_cidrs a),
     as_conntrack_entries := set_patch (rp_conntrack_entries_to_add p, rp_conntrack_entries_to_remove p) (as_conntrack_entries a),
     as_tcp_syn_rate_limits := dict_patch (rp_tcp_syn_rate_limits_to_upsert p, rp_tcp_syn_rate_limits_to_remove p) (as_tcp_syn_rate_limits a),
     as_tcp_syn_agg_rate_limits := dict_patch (rp_tcp_syn_agg_rate_limits_to_upsert p, rp_tcp_syn_agg_rate_limits_to_remove p) (as_tcp_syn_agg_rate_limits a),
     as_tcp_conn_limits := dict_patch (rp_tcp_conn_limits_to_upsert p, rp_tcp_conn_limits_to_remove p) (as_tcp_conn_limits a),
     as_tcp_conn_prefix_limits := dict_patch (rp_tcp_conn_prefix_limits_to_upsert p, rp_tcp_conn_prefix_limits_to_remove p) (as_tcp_conn_prefix_limits a),
     as_tcp_conn_port_limits := dict_patch (rp_tcp_conn_port_limits_to_upsert p, rp_tcp_conn_port_limits_to_remove p) (as_tcp_conn_port_limits a),
     as_udp_rate_limits := dict_patch (rp_udp_rate_limits_to_upsert p, rp_udp_rate_limits_to_remove p) (as_udp_rate_limits a),
     as_udp_agg_rate_limits := dict_patch (rp_udp_agg_rate_limits_to_upsert p, rp_udp_agg_rate_limits_to_remove p) (as_udp_agg_rate_limits a),
     as_acl_rules := dict_patch (rp_acl_rules_to_upsert p, rp_acl_rules_to_remove p) (as_acl_rules a),
     as_bogon_filter_enabled := flag_patch (rp_bogon_filter_update p) (as_bogon_filter_enabled a),
     as_drop_events_enabled := flag_patch (rp_drop_events_update p) (as_drop_events_enabled a),
     as_udp_global_byte_rate := flag_patch (rp_udp_global_byte_rate_update p) (as_udp_global_byte_rate a)\<rparr>"

definition state_matches :: "DesiredState \<Rightarrow> AppliedState \<Rightarrow> bool" where
  "state_matches d a \<longleftrightarrow>
     as_tcp_ports a = ds_tcp_ports d \<and>
     as_udp_ports a = ds_udp_ports d \<and>
     as_sctp_ports a = ds_sctp_ports d \<and>
     as_trusted_cidrs a = ds_trusted_cidrs d \<and>
     as_conntrack_entries a = ds_conntrack_entries d \<and>
     dict_eq (as_tcp_syn_rate_limits a) (ds_tcp_syn_rate_limits d) \<and>
     dict_eq (as_tcp_syn_agg_rate_limits a) (ds_tcp_syn_agg_rate_limits d) \<and>
     dict_eq (as_tcp_conn_limits a) (ds_tcp_conn_limits d) \<and>
     dict_eq (as_tcp_conn_prefix_limits a) (ds_tcp_conn_prefix_limits d) \<and>
     dict_eq (as_tcp_conn_port_limits a) (ds_tcp_conn_port_limits d) \<and>
     dict_eq (as_udp_rate_limits a) (ds_udp_rate_limits d) \<and>
     dict_eq (as_udp_agg_rate_limits a) (ds_udp_agg_rate_limits d) \<and>
     dict_eq (as_acl_rules a) (ds_acl_rules d) \<and>
     as_bogon_filter_enabled a = Some (ds_bogon_filter_enabled d) \<and>
     as_drop_events_enabled a = Some (ds_drop_events_enabled d) \<and>
     as_udp_global_byte_rate a = Some (ds_udp_global_byte_rate d)"

definition plan_quiet :: "ReconcilePlan \<Rightarrow> bool" where
  "plan_quiet p \<longleftrightarrow>
     set_quiet (rp_tcp_ports_to_add p, rp_tcp_ports_to_remove p) \<and>
     set_quiet (rp_udp_ports_to_add p, rp_udp_ports_to_remove p) \<and>
     set_quiet (rp_sctp_ports_to_add p, rp_sctp_ports_to_remove p) \<and>
     set_quiet (rp_trusted_cidrs_to_add p, rp_trusted_cidrs_to_remove p) \<and>
     set_quiet (rp_conntrack_entries_to_add p, rp_conntrack_entries_to_remove p) \<and>
     dict_quiet (rp_tcp_syn_rate_limits_to_upsert p, rp_tcp_syn_rate_limits_to_remove p) \<and>
     dict_quiet (rp_tcp_syn_agg_rate_limits_to_upsert p, rp_tcp_syn_agg_rate_limits_to_remove p) \<and>
     dict_quiet (rp_tcp_conn_limits_to_upsert p, rp_tcp_conn_limits_to_remove p) \<and>
     dict_quiet (rp_tcp_conn_prefix_limits_to_upsert p, rp_tcp_conn_prefix_limits_to_remove p) \<and>
     dict_quiet (rp_tcp_conn_port_limits_to_upsert p, rp_tcp_conn_port_limits_to_remove p) \<and>
     dict_quiet (rp_udp_rate_limits_to_upsert p, rp_udp_rate_limits_to_remove p) \<and>
     dict_quiet (rp_udp_agg_rate_limits_to_upsert p, rp_udp_agg_rate_limits_to_remove p) \<and>
     dict_quiet (rp_acl_rules_to_upsert p, rp_acl_rules_to_remove p) \<and>
     rp_bogon_filter_update p = None \<and>
     rp_drop_events_update p = None \<and>
     rp_udp_global_byte_rate_update p = None"

definition desired_ok :: "DesiredState \<Rightarrow> bool" where
  "desired_ok d \<longleftrightarrow>
     dict_ok (ds_tcp_syn_rate_limits d) \<and>
     dict_ok (ds_tcp_syn_agg_rate_limits d) \<and>
     dict_ok (ds_tcp_conn_limits d) \<and>
     dict_ok (ds_tcp_conn_prefix_limits d) \<and>
     dict_ok (ds_tcp_conn_port_limits d) \<and>
     dict_ok (ds_udp_rate_limits d) \<and>
     dict_ok (ds_udp_agg_rate_limits d) \<and>
     dict_ok (ds_acl_rules d)"

definition applied_ok :: "AppliedState \<Rightarrow> bool" where
  "applied_ok a \<longleftrightarrow>
     dict_ok (as_tcp_syn_rate_limits a) \<and>
     dict_ok (as_tcp_syn_agg_rate_limits a) \<and>
     dict_ok (as_tcp_conn_limits a) \<and>
     dict_ok (as_tcp_conn_prefix_limits a) \<and>
     dict_ok (as_tcp_conn_port_limits a) \<and>
     dict_ok (as_udp_rate_limits a) \<and>
     dict_ok (as_udp_agg_rate_limits a) \<and>
     dict_ok (as_acl_rules a)"

lemmas plan_sel = compute_reconcile_plan_def ReconcilePlan.select_convs

lemma set_patch_diff [simp]: "set_patch (d - a, a - d) a = d"
  by (auto simp: set_patch_def)

lemma dict_patch_diff:
  assumes "dict_ok d" and "dict_ok a"
  shows "dict_eq (dict_patch (dict_upserts d a, dict_removals d a) a) d"
proof -
  have "dict_ok (dict_patch (dict_upserts d a, dict_removals d a) a)"
    using dict_delta.patch_ok [OF assms] by (simp add: dict_diff_def)
  with dict_patch_view [OF assms] assms show ?thesis
    by (simp add: dict_eq_iff dict_diff_def)
qed

lemma flag_patch_update [simp]: "flag_patch (flag_update d a) a = Some d"
  by (auto simp: flag_patch_def flag_update_def)

lemma flag_update_None [simp]: "flag_update d a = None \<longleftrightarrow> a = Some d"
  by (auto simp: flag_update_def)

lemma dict_eq_sym: "dict_eq d e = dict_eq e d"
  by (auto simp: dict_eq_def)

lemma dict_diff_quiet:
  "dict_ok d \<Longrightarrow> dict_ok a \<Longrightarrow>
     dict_quiet (dict_upserts d a, dict_removals d a) \<longleftrightarrow> dict_eq a d"
  using dict_quiet_iff [of d a] by (auto simp: dict_diff_def dict_eq_iff)

lemma set_diff_quiet: "set_quiet (d - a, a - d) \<longleftrightarrow> a = d"
  by (auto simp: set_quiet_def)

text \<open>
  Read as an edit of the applied state, the computed plan leads to one that
  shows the desired state in every planned field, and leaves the runtime tuning
  fields, which the plan does not cover, alone. This is about the plan only; what a backend makes
  of it is in the theories of the backends.
\<close>

theorem reconcile_plan_converges:
  assumes "desired_ok d" and "applied_ok a"
  shows "state_matches d (plan_patch (compute_reconcile_plan d a) a) \<and>
    as_xdp_runtime_config (plan_patch (compute_reconcile_plan d a) a) = as_xdp_runtime_config a"
  using assms
  by (simp add: state_matches_def plan_patch_def plan_sel desired_ok_def applied_ok_def
      dict_patch_diff acl_upserts_eq flip: dict_removals_def)

theorem reconcile_plan_converges_witness:
  "let d = DesiredState_init\<lparr>ds_tcp_ports := {22, 80}, ds_tcp_syn_rate_limits := [(22, 5), (80, 100)]\<rparr>;
       a = AppliedState_init\<lparr>as_tcp_ports := {80, 443}, as_tcp_syn_rate_limits := [(443, 100), (80, 5)]\<rparr>
   in state_matches d (plan_patch (compute_reconcile_plan d a) a)"
  unfolding Let_def
  by (rule reconcile_plan_converges [THEN conjunct1])
    (simp_all add: desired_ok_def applied_ok_def DesiredState_init_def AppliedState_init_def dict_ok_def)

text \<open>
  The computed plan is empty exactly when the applied state already shows
  the desired one: a reconcile of a converged state does nothing, and a plan
  with nothing to do is never computed for a state that differs.
\<close>

theorem reconcile_plan_quiet_iff:
  assumes "desired_ok d" and "applied_ok a"
  shows "plan_quiet (compute_reconcile_plan d a) \<longleftrightarrow> state_matches d a"
  using assms
  unfolding plan_quiet_def state_matches_def
  by (simp add: plan_sel acl_upserts_eq desired_ok_def applied_ok_def
      set_diff_quiet dict_diff_quiet flip: dict_removals_def)

theorem reconcile_plan_quiet_iff_witness:
  "let d = DesiredState_init\<lparr>ds_tcp_ports := {22}\<rparr>; a = AppliedState_init\<lparr>as_tcp_ports := {22, 80}\<rparr>
   in plan_quiet (compute_reconcile_plan d a) \<longleftrightarrow> state_matches d a"
  unfolding Let_def
  by (rule reconcile_plan_quiet_iff)
    (simp_all add: desired_ok_def applied_ok_def DesiredState_init_def AppliedState_init_def dict_ok_def)

end
