(* ===== verification/Policy.thy ===== *)
theory Policy
  imports Config Services ReconcileState
begin

text \<open>
  \<open>auto_xdp/policy.py\<close>: which limits a port gets and what the kernel should hold
  for an observation. The configuration \<open>c\<close> and the table of service names are
  arguments. The order in which a set of ports is iterated is the argument \<open>it\<close>.
\<close>

section \<open>Runtime configuration\<close>

definition NS_PER_SECOND :: rat where "NS_PER_SECOND = 1000000000"

definition seconds_to_ns :: "pyfloat \<Rightarrow> int res" where
  "seconds_to_ns value = int_of_float (flt_mul value (Fin NS_PER_SECOND))"

definition icmp_ns_per_token :: "Config \<Rightarrow> int res" where
  "icmp_ns_per_token c =
     (let pps = XDP_ICMP_RATE_PPS (xdp_runtime c) in
      if flt_lt (Fin 0) pps
      then rbind (int_of_float (flt_div (Fin NS_PER_SECOND) pps)) (\<lambda>n. Inr (max 1 n))
      else Inr 0)"

definition xdp_runtime_config :: "Config \<Rightarrow> int list res" where
  "xdp_runtime_config c =
     (let rt = xdp_runtime c in
      rbind (icmp_ns_per_token c) (\<lambda>icmp.
      rbind (seconds_to_ns (XDP_TCP_TIMEOUT_SECONDS rt)) (\<lambda>tcp.
      rbind (seconds_to_ns (XDP_UDP_TIMEOUT_SECONDS rt)) (\<lambda>udp.
      rbind (seconds_to_ns (XDP_CONNTRACK_REFRESH_SECONDS rt)) (\<lambda>refresh.
      rbind (seconds_to_ns (XDP_UDP_GLOBAL_WINDOW_SECONDS rt)) (\<lambda>window.
      rbind (seconds_to_ns (XDP_RATE_WINDOW_SECONDS rt)) (\<lambda>rate.
      rbind (seconds_to_ns (XDP_SYN_TIMEOUT_SECONDS rt)) (\<lambda>syn.
      Inr [tcp, udp, refresh, XDP_ICMP_BURST_PACKETS rt, icmp, window, rate, syn]))))))))"

section \<open>Limits of a port\<close>

definition explicit_lookup ::
  "services \<Rightarrow> int \<Rightarrow> string \<Rightarrow> rate_table \<Rightarrow> rate_table \<Rightarrow> int option" where
  "explicit_lookup services port proc proc_limits service_limits =
     (if proc \<noteq> [] \<and> dict_get proc_limits proc \<noteq> None then dict_get proc_limits proc
      else let svc = service_name services port ''tcp'' in
        if svc \<noteq> [] \<and> dict_get service_limits svc \<noteq> None then dict_get service_limits svc
        else None)"

definition rate_is_sensitive :: "int \<Rightarrow> int option \<Rightarrow> bool" where
  "rate_is_sensitive threshold rate =
     (case rate of None \<Rightarrow> False | Some r \<Rightarrow> 0 < r \<and> r \<le> threshold)"

definition is_sensitive :: "services \<Rightarrow> Config \<Rightarrow> int \<Rightarrow> string \<Rightarrow> bool" where
  "is_sensitive services c port proc \<longleftrightarrow>
     (let threshold = XDP_SENSITIVE_PORT_THRESHOLD (xdp_runtime c);
          svc = service_name services port ''tcp'' in
      proc \<noteq> [] \<and> rate_is_sensitive threshold (dict_get (SYN_RATE_BY_PROC (rate_tables c)) proc) \<or>
      svc \<noteq> [] \<and> rate_is_sensitive threshold (dict_get (SYN_RATE_BY_SERVICE (rate_tables c)) svc))"

definition resolve_service_limit ::
  "services \<Rightarrow> int \<Rightarrow> string \<Rightarrow> string \<Rightarrow> rate_table \<Rightarrow> rate_table \<Rightarrow> int" where
  "resolve_service_limit services port proto proc proc_limits service_limits =
     (case (if proc = [] then None else dict_get proc_limits proc) of
        Some limit \<Rightarrow> limit
      | None \<Rightarrow>
          let svc = service_name services port proto in
          if svc = [] then 0 else dict_get_or service_limits svc 0)"

definition port_rate_limit :: "services \<Rightarrow> Config \<Rightarrow> int \<Rightarrow> string \<Rightarrow> int" where
  "port_rate_limit services c port proc =
     (case (if proc = [] then None else dict_get (SYN_RATE_BY_PROC (rate_tables c)) proc) of
        Some rate \<Rightarrow> rate
      | None \<Rightarrow>
          if is_sensitive services c port proc then XDP_DEFAULT_TCP_SYN_RATE_STRICT (xdp_runtime c)
          else (case explicit_lookup services port proc
                       (SYN_RATE_BY_PROC (rate_tables c)) (SYN_RATE_BY_SERVICE (rate_tables c)) of
                  Some explicit \<Rightarrow> explicit
                | None \<Rightarrow> XDP_DEFAULT_TCP_SYN_RATE (xdp_runtime c)))"

definition syn_aggregate_rate_limit :: "services \<Rightarrow> Config \<Rightarrow> int \<Rightarrow> string \<Rightarrow> int" where
  "syn_aggregate_rate_limit services c port proc =
     (case explicit_lookup services port proc
             (SYN_AGG_RATE_BY_PROC (rate_tables c)) (SYN_AGG_RATE_BY_SERVICE (rate_tables c)) of
        Some explicit \<Rightarrow> explicit
      | None \<Rightarrow>
          if is_sensitive services c port proc then XDP_DEFAULT_TCP_SYN_AGG_RATE_STRICT (xdp_runtime c)
          else XDP_DEFAULT_TCP_SYN_AGG_RATE (xdp_runtime c))"

definition tcp_conn_limit :: "services \<Rightarrow> Config \<Rightarrow> int \<Rightarrow> string \<Rightarrow> int" where
  "tcp_conn_limit services c port proc =
     (case explicit_lookup services port proc
             (TCP_CONN_BY_PROC (rate_tables c)) (TCP_CONN_BY_SERVICE (rate_tables c)) of
        Some explicit \<Rightarrow> explicit
      | None \<Rightarrow>
          if is_sensitive services c port proc
          then XDP_DEFAULT_TCP_ESTABLISHED_PER_SRC_STRICT (xdp_runtime c)
          else XDP_DEFAULT_TCP_ESTABLISHED_PER_SRC (xdp_runtime c))"

definition tcp_conn_prefix_limit :: "services \<Rightarrow> Config \<Rightarrow> int \<Rightarrow> string \<Rightarrow> int" where
  "tcp_conn_prefix_limit services c port proc =
     (case explicit_lookup services port proc
             (TCP_CONN_PREFIX_BY_PROC (rate_tables c)) (TCP_CONN_PREFIX_BY_SERVICE (rate_tables c)) of
        Some explicit \<Rightarrow> explicit
      | None \<Rightarrow>
          if is_sensitive services c port proc
          then XDP_DEFAULT_TCP_ESTABLISHED_PER_PREFIX_STRICT (xdp_runtime c)
          else XDP_DEFAULT_TCP_ESTABLISHED_PER_PREFIX (xdp_runtime c))"

definition tcp_conn_port_limit :: "services \<Rightarrow> Config \<Rightarrow> int \<Rightarrow> string \<Rightarrow> int" where
  "tcp_conn_port_limit services c port proc =
     (case explicit_lookup services port proc
             (TCP_CONN_PORT_BY_PROC (rate_tables c)) (TCP_CONN_PORT_BY_SERVICE (rate_tables c)) of
        Some explicit \<Rightarrow> explicit
      | None \<Rightarrow>
          if is_sensitive services c port proc
          then XDP_DEFAULT_TCP_ESTABLISHED_PER_PORT_STRICT (xdp_runtime c)
          else XDP_DEFAULT_TCP_ESTABLISHED_PER_PORT (xdp_runtime c))"

definition rate_map_entries_v6 :: "Config \<Rightarrow> int \<Rightarrow> int" where
  "rate_map_entries_v6 c v4_entries =
     (if v4_entries = RATE_MAP_ENTRIES_V4 c then RATE_MAP_ENTRIES_V6 c
      else max (v4_entries div 4) 64)"

definition rate_map_entries :: "services \<Rightarrow> Config \<Rightarrow> int \<Rightarrow> string \<Rightarrow> int" where
  "rate_map_entries services c port proc =
     (case explicit_lookup services port proc
             (RATE_MAP_ENTRIES_BY_PROC (rate_tables c)) (RATE_MAP_ENTRIES_BY_SERVICE (rate_tables c)) of
        Some explicit \<Rightarrow> explicit
      | None \<Rightarrow> RATE_MAP_ENTRIES_V4 c)"

definition udp_port_rate_limit :: "services \<Rightarrow> Config \<Rightarrow> int \<Rightarrow> string \<Rightarrow> int" where
  "udp_port_rate_limit services c port proc =
     resolve_service_limit services port ''udp'' proc
       (UDP_RATE_BY_PROC (rate_tables c)) (UDP_RATE_BY_SERVICE (rate_tables c))"

definition udp_aggregate_byte_limit :: "services \<Rightarrow> Config \<Rightarrow> int \<Rightarrow> string \<Rightarrow> int" where
  "udp_aggregate_byte_limit services c port proc =
     (let limit = resolve_service_limit services port ''udp'' proc
                    (UDP_AGG_BYTES_BY_PROC (rate_tables c)) (UDP_AGG_BYTES_BY_SERVICE (rate_tables c));
          base = udp_port_rate_limit services c port proc in
      if limit > 0 then limit else if base > 0 then base * 1200 else 0)"

section \<open>The desired state\<close>

definition resolve_port_limits ::
  "(int set \<Rightarrow> int list) \<Rightarrow> int set \<Rightarrow> (int, string) dict \<Rightarrow> (int \<Rightarrow> string \<Rightarrow> int) \<Rightarrow> limits" where
  "resolve_port_limits it ports process_names resolver =
     map (\<lambda>port. (port, resolver port (dict_get_or process_names port []))) (it ports)"

text \<open>Values that Python counts as equal are one key of a dictionary: \<open>1\<close>, \<open>1.0\<close> and \<open>True\<close>.\<close>

definition py_key :: "pyval \<Rightarrow> pyval" where
  "py_key v = (case v of
       VBool b \<Rightarrow> VInt (if b then 1 else 0)
     | VFloat (Fin x) \<Rightarrow> if x = of_int \<lfloor>x\<rfloor> then VInt \<lfloor>x\<rfloor> else v
     | _ \<Rightarrow> v)"

definition desired_acl_rule :: "AclRule \<Rightarrow> acl_table \<Rightarrow> acl_table res" where
  "desired_acl_rule rule desired =
     (if rule_ports rule = [] then Inr desired
      else if py_hashable (rule_proto rule)
      then Inr (dict_set (py_key (rule_proto rule), rule_cidr rule) (set (rule_ports rule)) desired)
      else Inl TypeErr)"

definition desired_acl_rules :: "Config \<Rightarrow> acl_table res" where
  "desired_acl_rules c = rfold desired_acl_rule (ACL_RULES c) []"

text \<open>\<open>{port: _rate_map_entries(...) for port, rate in limits.items() if rate > 0}\<close>\<close>

definition entries_of_limits :: "services \<Rightarrow> Config \<Rightarrow> (int, string) dict \<Rightarrow> limits \<Rightarrow> limits" where
  "entries_of_limits services c process_names l =
     map (\<lambda>(port, rate). (port, rate_map_entries services c port (dict_get_or process_names port [])))
       (filter (\<lambda>(port, rate). rate > 0) l)"

definition resolve_desired_state ::
  "(int set \<Rightarrow> int list) \<Rightarrow> services \<Rightarrow> Config \<Rightarrow> ObservedState \<Rightarrow> DesiredState res" where
  "resolve_desired_state it services c observed =
     (let tcp_ports = ob_tcp observed \<union> dict_keys (TCP_PERMANENT c);
          udp_ports = ob_udp observed \<union> dict_keys (UDP_PERMANENT c);
          sctp_ports = ob_sctp observed \<union> dict_keys (SCTP_PERMANENT c);
          tcp_limits = resolve_port_limits it tcp_ports (ob_tcp_processes observed);
          udp_limits = resolve_port_limits it udp_ports (ob_udp_processes observed);
          tcp_syn_rate_limits = tcp_limits (port_rate_limit services c);
          udp_rate_limits = udp_limits (udp_port_rate_limit services c)
      in rbind (desired_acl_rules c) (\<lambda>acl.
         rbind (xdp_runtime_config c) (\<lambda>runtime.
         Inr \<lparr>ds_tcp_ports = tcp_ports, ds_udp_ports = udp_ports, ds_sctp_ports = sctp_ports,
           ds_trusted_cidrs = dict_keys (TRUSTED_SRC_IPS c),
           ds_conntrack_entries = ob_established observed,
           ds_tcp_syn_rate_limits = tcp_syn_rate_limits,
           ds_tcp_syn_agg_rate_limits = tcp_limits (syn_aggregate_rate_limit services c),
           ds_tcp_conn_limits = tcp_limits (tcp_conn_limit services c),
           ds_tcp_conn_prefix_limits = tcp_limits (tcp_conn_prefix_limit services c),
           ds_tcp_conn_port_limits = tcp_limits (tcp_conn_port_limit services c),
           ds_udp_rate_limits = udp_rate_limits,
           ds_udp_agg_rate_limits = udp_limits (udp_aggregate_byte_limit services c),
           ds_tcp_rate_map_entries =
             entries_of_limits services c (ob_tcp_processes observed) tcp_syn_rate_limits,
           ds_udp_rate_map_entries =
             entries_of_limits services c (ob_udp_processes observed) udp_rate_limits,
           ds_acl_rules = acl,
           ds_bogon_filter_enabled = BOGON_FILTER_ENABLED c,
           ds_drop_events_enabled = DROP_EVENTS_ENABLED c,
           ds_rate_limit_source_prefix_v4 = RATE_LIMIT_SOURCE_PREFIX_V4 c,
           ds_rate_limit_source_prefix_v6 = RATE_LIMIT_SOURCE_PREFIX_V6 c,
           ds_udp_global_byte_rate = XDP_UDP_GLOBAL_BYTE_RATE (xdp_runtime c),
           ds_xdp_runtime_config = runtime\<rparr>)))"

section \<open>The contract of a tiered limit\<close>

text \<open>
  The resolvers of the four aggregate and connection limits share one contract:
  an operator's entry decides, otherwise the strict or the normal default.
\<close>

locale tiered_limit =
  fixes services :: services and c :: Config
    and by_proc :: rate_table and by_service :: rate_table
    and strict :: int and normal :: int
    and limit :: "int \<Rightarrow> string \<Rightarrow> int"
  assumes limit_eq: "limit port proc =
    (case explicit_lookup services port proc by_proc by_service of
       Some explicit \<Rightarrow> explicit
     | None \<Rightarrow> if is_sensitive services c port proc then strict else normal)"
begin

lemma limit_by_proc:
  "proc \<noteq> [] \<Longrightarrow> dict_get by_proc proc = Some v \<Longrightarrow> limit port proc = v"
  by (simp add: limit_eq explicit_lookup_def)

lemma limit_strict:
  "explicit_lookup services port proc by_proc by_service = None \<Longrightarrow>
   is_sensitive services c port proc \<Longrightarrow> limit port proc = strict"
  by (simp add: limit_eq)

lemma limit_default_pos:
  "explicit_lookup services port proc by_proc by_service = None \<Longrightarrow> 0 < strict \<Longrightarrow> 0 < normal \<Longrightarrow>
   0 < limit port proc"
  by (simp add: limit_eq)

end

interpretation syn_agg: tiered_limit services c
    "SYN_AGG_RATE_BY_PROC (rate_tables c)" "SYN_AGG_RATE_BY_SERVICE (rate_tables c)"
    "XDP_DEFAULT_TCP_SYN_AGG_RATE_STRICT (xdp_runtime c)" "XDP_DEFAULT_TCP_SYN_AGG_RATE (xdp_runtime c)"
    "syn_aggregate_rate_limit services c" for services c
  by unfold_locales (simp add: syn_aggregate_rate_limit_def)

interpretation conn: tiered_limit services c
    "TCP_CONN_BY_PROC (rate_tables c)" "TCP_CONN_BY_SERVICE (rate_tables c)"
    "XDP_DEFAULT_TCP_ESTABLISHED_PER_SRC_STRICT (xdp_runtime c)"
    "XDP_DEFAULT_TCP_ESTABLISHED_PER_SRC (xdp_runtime c)"
    "tcp_conn_limit services c" for services c
  by unfold_locales (simp add: tcp_conn_limit_def)

interpretation conn_prefix: tiered_limit services c
    "TCP_CONN_PREFIX_BY_PROC (rate_tables c)" "TCP_CONN_PREFIX_BY_SERVICE (rate_tables c)"
    "XDP_DEFAULT_TCP_ESTABLISHED_PER_PREFIX_STRICT (xdp_runtime c)"
    "XDP_DEFAULT_TCP_ESTABLISHED_PER_PREFIX (xdp_runtime c)"
    "tcp_conn_prefix_limit services c" for services c
  by unfold_locales (simp add: tcp_conn_prefix_limit_def)

interpretation conn_port: tiered_limit services c
    "TCP_CONN_PORT_BY_PROC (rate_tables c)" "TCP_CONN_PORT_BY_SERVICE (rate_tables c)"
    "XDP_DEFAULT_TCP_ESTABLISHED_PER_PORT_STRICT (xdp_runtime c)"
    "XDP_DEFAULT_TCP_ESTABLISHED_PER_PORT (xdp_runtime c)"
    "tcp_conn_port_limit services c" for services c
  by unfold_locales (simp add: tcp_conn_port_limit_def)

section \<open>Lemmas\<close>

text \<open>No table of TCP limits has an entry for the port's process or service.\<close>

definition unlisted :: "services \<Rightarrow> Config \<Rightarrow> int \<Rightarrow> string \<Rightarrow> bool" where
  "unlisted services c port proc \<longleftrightarrow>
     list_all (\<lambda>(p, s). explicit_lookup services port proc p s = None)
       [(SYN_RATE_BY_PROC (rate_tables c), SYN_RATE_BY_SERVICE (rate_tables c)),
        (SYN_AGG_RATE_BY_PROC (rate_tables c), SYN_AGG_RATE_BY_SERVICE (rate_tables c)),
        (TCP_CONN_BY_PROC (rate_tables c), TCP_CONN_BY_SERVICE (rate_tables c)),
        (TCP_CONN_PREFIX_BY_PROC (rate_tables c), TCP_CONN_PREFIX_BY_SERVICE (rate_tables c)),
        (TCP_CONN_PORT_BY_PROC (rate_tables c), TCP_CONN_PORT_BY_SERVICE (rate_tables c))]"

lemma explicit_None_not_sensitive:
  assumes "explicit_lookup services port proc
      (SYN_RATE_BY_PROC (rate_tables c)) (SYN_RATE_BY_SERVICE (rate_tables c)) = None"
  shows "\<not> is_sensitive services c port proc"
  using assms
  by (auto simp: explicit_lookup_def is_sensitive_def rate_is_sensitive_def Let_def split: if_splits)

lemma resolve_port_limits_get:
  assumes "set_iteration it" and "finite ports"
  shows "dict_get (resolve_port_limits it ports names f) p =
    (if p \<in> ports then Some (f p (dict_get_or names p [])) else None)"
  unfolding resolve_port_limits_def by (rule set_iteration.it_dict_get [OF assms])

lemma resolve_port_limits_ok:
  assumes "set_iteration it" and "finite ports"
  shows "dict_ok (resolve_port_limits it ports names f)"
  unfolding resolve_port_limits_def by (rule set_iteration.it_dict_ok [OF assms])

lemma entries_of_limits_ok:
  assumes "dict_ok l"
  shows "dict_ok (entries_of_limits services c names l)"
proof -
  have "map fst (entries_of_limits services c names l) = map fst (filter (\<lambda>(port, rate). rate > 0) l)"
    by (simp add: entries_of_limits_def split_def)
  with dict_ok_filter [OF assms] show ?thesis by (simp add: dict_ok_def)
qed

lemma map_of_map_value: "map_of (map (\<lambda>(k, v). (k, f k)) d) k = map_option (\<lambda>_. f k) (map_of d k)"
  by (induction d) auto

lemma entries_of_limits_get:
  assumes "dict_ok l"
  shows "dict_get (entries_of_limits services c names l) p =
     (case dict_get l p of
        Some rate \<Rightarrow> if 0 < rate then Some (rate_map_entries services c p (dict_get_or names p [])) else None
      | None \<Rightarrow> None)"
  unfolding entries_of_limits_def map_of_map_value map_of_filter_dict [OF assms]
  by (simp split: option.splits)

lemma entries_of_limits_keys:
  assumes "dict_ok l"
  shows "dict_keys (entries_of_limits services c names l) = {p. \<exists>rate > 0. dict_get l p = Some rate}"
  by (auto simp: dict_keys_dom dom_def entries_of_limits_get [OF assms] split: option.splits if_splits)

lemma desired_acl_rules_ok:
  assumes "desired_acl_rules c = Inr acl"
  shows "dict_ok acl"
  using assms unfolding desired_acl_rules_def
  by (rule rfold_invariant) (auto simp: desired_acl_rule_def split: if_splits)


lemma resolve_desired_state_ok:
  assumes "set_iteration it" and "finite (ob_tcp ob)" and "finite (ob_udp ob)"
    and "resolve_desired_state it services c ob = Inr d"
  shows "desired_ok d"
  using assms desired_acl_rules_ok
  by (auto simp: resolve_desired_state_def Let_def rbind_Inr_conv desired_ok_def resolve_port_limits_ok)

text \<open>The tuple the compiled-in defaults resolve to is the default of \<open>DesiredState\<close>.\<close>

lemma default_runtime_config:
  "xdp_runtime_config (Config_init names xdp_obj tc_obj) = Inr (ds_xdp_runtime_config DesiredState_init)"
  using fl_of_int [of 300000000000] fl_of_int [of 60000000000] fl_of_int [of 30000000000]
    fl_of_int [of 1000000000] fl_of_int [of 10000000]
  by (simp add: xdp_runtime_config_def icmp_ns_per_token_def seconds_to_ns_def Config_init_def
      XdpRuntime_init_def DesiredState_init_def NS_PER_SECOND_def flt_mul_def flt_div_def flt_lt_def
      int_of_float_def)

section \<open>Properties\<close>

text \<open>
  C12 (\<open>policy.py\<close>, the resolvers): protection is on by default. Under a well-formed
  configuration a TCP port with no entry for its process or service gets a
  positive SYN rate, aggregate SYN rate and connection limit of every kind.
\<close>

theorem default_protection:
  assumes "config_ok c" and "unlisted services c port proc"
  shows "0 < port_rate_limit services c port proc \<and> 0 < syn_aggregate_rate_limit services c port proc \<and>
    0 < tcp_conn_limit services c port proc \<and> 0 < tcp_conn_prefix_limit services c port proc \<and>
    0 < tcp_conn_port_limit services c port proc"
proof (intro conjI)
  have rt: "runtime_valid (xdp_runtime c)"
    using assms(1) by (simp add: config_ok_def settings_valid_def)
  show "0 < port_rate_limit services c port proc"
    using rt assms(2) explicit_None_not_sensitive [of services port proc c]
    by (auto simp: port_rate_limit_def unlisted_def runtime_valid_def explicit_lookup_def
        split: option.splits if_splits)
  show "0 < syn_aggregate_rate_limit services c port proc"
    using rt assms(2) by (intro syn_agg.limit_default_pos) (simp_all add: unlisted_def runtime_valid_def)
  show "0 < tcp_conn_limit services c port proc"
    using rt assms(2) by (intro conn.limit_default_pos) (simp_all add: unlisted_def runtime_valid_def)
  show "0 < tcp_conn_prefix_limit services c port proc"
    using rt assms(2) by (intro conn_prefix.limit_default_pos) (simp_all add: unlisted_def runtime_valid_def)
  show "0 < tcp_conn_port_limit services c port proc"
    using rt assms(2) by (intro conn_port.limit_default_pos) (simp_all add: unlisted_def runtime_valid_def)
qed

theorem default_protection_witness:
  "0 < port_rate_limit [] (Config_init [] [] []) 8080 [] \<and> 0 < tcp_conn_port_limit [] (Config_init [] [] []) 8080 []"
  using default_protection [OF Config_init_ok, of "[]" "[]" "[]" "[]" 8080 "[]"]
  by (simp add: unlisted_def explicit_lookup_def service_name_def dict_get_or_def)

text \<open>
  \<open>policy.py\<close>: an operator's entry for the owning process decides every TCP limit of
  the port, a zero (pinned off) included, whatever the service table and the
  sensitivity of the port say.
\<close>

theorem process_entry_decides:
  assumes "proc \<noteq> []"
  shows "(dict_get (SYN_RATE_BY_PROC (rate_tables c)) proc = Some v \<longrightarrow> port_rate_limit services c port proc = v) \<and>
    (dict_get (SYN_AGG_RATE_BY_PROC (rate_tables c)) proc = Some v \<longrightarrow>
       syn_aggregate_rate_limit services c port proc = v) \<and>
    (dict_get (TCP_CONN_BY_PROC (rate_tables c)) proc = Some v \<longrightarrow> tcp_conn_limit services c port proc = v) \<and>
    (dict_get (TCP_CONN_PREFIX_BY_PROC (rate_tables c)) proc = Some v \<longrightarrow>
       tcp_conn_prefix_limit services c port proc = v) \<and>
    (dict_get (TCP_CONN_PORT_BY_PROC (rate_tables c)) proc = Some v \<longrightarrow>
       tcp_conn_port_limit services c port proc = v)"
  using assms syn_agg.limit_by_proc conn.limit_by_proc conn_prefix.limit_by_proc conn_port.limit_by_proc
  by (auto simp: port_rate_limit_def)

theorem process_entry_decides_witness:
  "port_rate_limit [((''tcp'', 22), ''ssh'')]
     ((Config_init [] [] [])\<lparr>rate_tables := RateTables_init\<lparr>SYN_RATE_BY_PROC := [(''sshd'', 0)],
        SYN_RATE_BY_SERVICE := [(''ssh'', 3)]\<rparr>\<rparr>) 22 ''sshd'' = 0"
  using process_entry_decides [of "''sshd''" "(Config_init [] [] [])\<lparr>rate_tables :=
      RateTables_init\<lparr>SYN_RATE_BY_PROC := [(''sshd'', 0)], SYN_RATE_BY_SERVICE := [(''ssh'', 3)]\<rparr>\<rparr>" 0]
  by simp

text \<open>
  C11 (\<open>policy.py\<close>, \<open>resolve_desired_state\<close>): the desired state of an observation, in
  full. The ports are the observed and the permanent ones; every limit table
  has exactly those ports, each with its resolver's value, whatever the order
  in which the sets are iterated; and a port has a rate map exactly when its
  rate is positive.
\<close>

theorem resolve_desired_state_tables:
  assumes "set_iteration it" and "finite (ob_tcp ob)" and "finite (ob_udp ob)"
    and "resolve_desired_state it services c ob = Inr d"
  shows "ds_tcp_ports d = ob_tcp ob \<union> dict_keys (TCP_PERMANENT c) \<and>
    ds_udp_ports d = ob_udp ob \<union> dict_keys (UDP_PERMANENT c) \<and>
    ds_sctp_ports d = ob_sctp ob \<union> dict_keys (SCTP_PERMANENT c) \<and>
    (\<forall>(table, resolver) \<in> {(ds_tcp_syn_rate_limits d, port_rate_limit services c),
        (ds_tcp_syn_agg_rate_limits d, syn_aggregate_rate_limit services c),
        (ds_tcp_conn_limits d, tcp_conn_limit services c),
        (ds_tcp_conn_prefix_limits d, tcp_conn_prefix_limit services c),
        (ds_tcp_conn_port_limits d, tcp_conn_port_limit services c)}.
      \<forall>p. dict_get table p =
        (if p \<in> ds_tcp_ports d then Some (resolver p (dict_get_or (ob_tcp_processes ob) p [])) else None)) \<and>
    (\<forall>(table, resolver) \<in> {(ds_udp_rate_limits d, udp_port_rate_limit services c),
        (ds_udp_agg_rate_limits d, udp_aggregate_byte_limit services c)}.
      \<forall>p. dict_get table p =
        (if p \<in> ds_udp_ports d then Some (resolver p (dict_get_or (ob_udp_processes ob) p [])) else None)) \<and>
    dict_keys (ds_tcp_rate_map_entries d) =
      {p \<in> ds_tcp_ports d. 0 < port_rate_limit services c p (dict_get_or (ob_tcp_processes ob) p [])} \<and>
    dict_keys (ds_udp_rate_map_entries d) =
      {p \<in> ds_udp_ports d. 0 < udp_port_rate_limit services c p (dict_get_or (ob_udp_processes ob) p [])}"
proof -
  have fin: "finite (ob_tcp ob \<union> dict_keys (TCP_PERMANENT c))"
    "finite (ob_udp ob \<union> dict_keys (UDP_PERMANENT c))" using assms(2,3) by simp_all
  note get = resolve_port_limits_get [OF assms(1) fin(1)] resolve_port_limits_get [OF assms(1) fin(2)]
  note ok = resolve_port_limits_ok [OF assms(1) fin(1)] resolve_port_limits_ok [OF assms(1) fin(2)]
  from assms(4) show ?thesis
    by (auto simp: resolve_desired_state_def Let_def rbind_Inr_conv get
        entries_of_limits_keys [OF ok(1)] entries_of_limits_keys [OF ok(2)] split: if_splits)
qed

theorem resolve_desired_state_tables_witness:
  "\<exists>d. resolve_desired_state sorted_list_of_set [] (Config_init [] [] [])
         (ObservedState_init\<lparr>ob_tcp := {80}\<rparr>) = Inr d \<and>
     ds_tcp_ports d = {80} \<and> dict_get (ds_tcp_syn_rate_limits d) 80 = Some 100 \<and>
     dict_keys (ds_tcp_rate_map_entries d) = {80}"
proof -
  let ?ob = "ObservedState_init\<lparr>ob_tcp := {80}\<rparr>" and ?c = "Config_init [] [] []"
  obtain d where d: "resolve_desired_state sorted_list_of_set [] ?c ?ob = Inr d"
    using default_runtime_config [of "[]" "[]" "[]"]
    by (simp add: resolve_desired_state_def Let_def desired_acl_rules_def Config_init_def)
  have rate: "port_rate_limit [] ?c 80 [] = 100"
    by (simp add: port_rate_limit_def is_sensitive_def explicit_lookup_def service_name_def
        dict_get_or_def Config_init_def RateTables_init_def XdpRuntime_init_def)
  show ?thesis
    using resolve_desired_state_tables [OF sorted_iteration.set_iteration_axioms _ _ d] rate d
    by (auto simp: ObservedState_init_def Config_init_def dict_keys_def dict_get_or_def)
qed

text \<open>
  \<open>config.py\<close>, \<open>_coerce_nonnegative_float\<close>; \<open>policy.py\<close>, \<open>_seconds_to_ns\<close>: a NaN timeout passes
  the check of the configuration, and every later resolution of the policy
  raises a ValueError.
\<close>

theorem nan_timeout_breaks_policy:
  "let doc = [(''xdp'', VDict [(''runtime'', VDict [(''tcp_timeout_seconds'', VFloat NaN)])])] in
   fst (apply_toml_config rep doc c) = Inr () \<and>
   resolve_desired_state it services (snd (apply_toml_config rep doc c)) ob = Inl ValueErr"
proof -
  let ?doc = "[(''xdp'', VDict [(''runtime'', VDict [(''tcp_timeout_seconds'', VFloat NaN)])])]"
  let ?r = "apply_toml_config rep ?doc c"
  have icmp: "fl 10000000 = Fin 10000000"
    using fl_of_int [of 10000000] by simp
  have "fst ?r = Inr () \<and> ACL_RULES (snd ?r) = [] \<and>
      XDP_TCP_TIMEOUT_SECONDS (xdp_runtime (snd ?r)) = NaN \<and>
      XDP_ICMP_RATE_PPS (xdp_runtime (snd ?r)) = Fin 100"
    by (simp add: apply_toml_config_def apply_toml_config_in_place_def section_defs dict_get_or_def
        mseq_def mbind_def mlift_apply ret_apply coerce_prefix_len_def coerce_positive_float_def
        coerce_positive_int_def coerce_nonnegative_float_def float_0_4_def flt_lt_def
        flt_mul_def flt_div_def fl_def int_of_float_def)
  then show ?thesis
    by (simp add: Let_def resolve_desired_state_def desired_acl_rules_def xdp_runtime_config_def
        icmp_ns_per_token_def flt_lt_def flt_div_def NS_PER_SECOND_def icmp int_of_float_def
        seconds_to_ns_def flt_mul_def)
qed

end
