(* ===== verification/XdpBackend.thy ===== *)
theory XdpBackend
  imports BpfAddrMaps Policy "HOL-Library.List_Lexorder" "HOL-Library.Char_ord"
begin

unbundle bit_operations_syntax

text \<open>
  \<open>auto_xdp/backends/base.py\<close> and \<open>auto_xdp/backends/xdp.py\<close>: the backend that owns
  the map objects and carries a plan out. The state of a method is the backend
  object and the kernel. Logging is left out, with the one place where building
  a log message can raise. A view map exists exactly when its policy map does, so the
  views are not fields of the object. The AbuseIPDB thread, which the
  constructor starts, is not part of the object.
\<close>

section \<open>Backend status\<close>

record BackendStatus =
  bs_name :: string
  bs_available :: bool
  bs_reason :: string
  bs_details :: "(string, string) dict"
  bs_checks :: "(string, bool) dict"

definition failed_checks :: "BackendStatus \<Rightarrow> string list" where
  "failed_checks st = map fst (filter (\<lambda>(name, passed). \<not> passed) (bs_checks st))"

definition format_message :: "BackendStatus \<Rightarrow> string" where
  "format_message st =
     (let parts =
        (if bs_reason st \<noteq> [] then [bs_reason st] else []) @
        (if failed_checks st \<noteq> [] then [''failed checks: '' @ str_join '', '' (failed_checks st)] else []) @
        (if bs_details st \<noteq> []
         then [str_join '', '' (map (\<lambda>(k, v). k @ ''='' @ v) (bs_details st))] else [])
      in if parts \<noteq> [] then str_join ''; '' parts
         else if bs_available st then ''available'' else ''unavailable'')"

definition unavailable :: "string \<Rightarrow> (string, string) dict \<Rightarrow> (string, bool) dict \<Rightarrow> BackendStatus" where
  "unavailable reason details checks =
     \<lparr>bs_name = BACKEND_XDP, bs_available = False, bs_reason = reason, bs_details = details, bs_checks = checks\<rparr>"

text \<open>\<open>probe\<close>: \<open>bpftool\<close> says whether \<open>shutil.which("bpftool")\<close> finds it.\<close>

definition probe_inner_maps :: "'k kernel \<Rightarrow> (string, bool) dict \<Rightarrow> ('k, BackendStatus) pym" where
  "probe_inner_maps K checks k =
     (case probe_inner_map_support K k of
        (Inl (OSError n), k') \<Rightarrow>
          (if n = EPERM \<or> n = EACCES
           then (Inr (unavailable ''insufficient privileges to create BPF maps (run as root)''
                   [(''inner_map_support'', ''BPF map creation denied (EPERM)'')]
                   (dict_set ''inner_map_support'' False checks)), k')
           else (Inl (OSError n), k'))
      | (Inl e, k') \<Rightarrow> (Inl e, k')
      | (Inr False, k') \<Rightarrow>
          (Inr (unavailable ''kernel lacks ARRAY_OF_MAPS map-in-map support (need 5.10+)''
             [(''inner_map_support'', ''map-in-map probe failed'')]
             (dict_set ''inner_map_support'' False checks)), k')
      | (Inr True, k') \<Rightarrow>
          (Inr \<lparr>bs_name = BACKEND_XDP, bs_available = True, bs_reason = [], bs_details = [],
             bs_checks = dict_set ''inner_map_support'' True checks\<rparr>, k'))"

definition probe_object ::
  "string \<Rightarrow> string \<Rightarrow> string \<Rightarrow> string \<Rightarrow> (string \<Rightarrow> bool) \<Rightarrow> (string, bool) dict \<Rightarrow>
   BackendStatus + (string, bool) dict" where
  "probe_object path check detail reason exists checks =
     (if path = [] then Inr checks
      else if exists path then Inr (dict_set check True checks)
      else Inl (unavailable reason [(detail, path)] (dict_set check False checks)))"

definition xdp_probe :: "'k kernel \<Rightarrow> Config \<Rightarrow> bool \<Rightarrow> ('k, BackendStatus) pym" where
  "xdp_probe K c bpftool k =
     (let exists = (\<lambda>p. sys_exists K p k);
          missing = filter (\<lambda>p. \<not> exists p) (REQUIRED_XDP_MAP_PATHS (map_paths c)) in
      if \<not> bpftool
      then (Inr (unavailable ''bpftool not found'' [(''bpftool'', ''not found'')] [(''bpftool'', False)]), k)
      else if missing \<noteq> []
      then (Inr (unavailable ''required XDP maps missing'' [(''missing_maps'', str_join '', '' missing)]
             [(''bpftool'', True), (''required_maps'', False)]), k)
      else (case probe_object (XDP_OBJ_PATH c) ''xdp_obj'' ''xdp_obj_path''
                   ''configured XDP object file missing'' exists
                   [(''bpftool'', True), (''required_maps'', True)] of
              Inl st \<Rightarrow> (Inr st, k)
            | Inr checks \<Rightarrow>
                (case probe_object (TC_OBJ_PATH c) ''tc_obj'' ''tc_obj_path''
                        ''configured tc object file missing'' exists checks of
                   Inl st \<Rightarrow> (Inr st, k)
                 | Inr checks' \<Rightarrow> probe_inner_maps K checks' k)))"

section \<open>The backend object\<close>

record XdpBackend =
  xb_last_apply_failures :: int
  xb_conntrack_stale_rounds :: "(bytes, int) dict"
  xb_tcp_map :: BpfArrayMap
  xb_udp_map :: BpfArrayMap
  xb_trusted_map :: BpfTrustedMaps
  xb_conntrack_map :: BpfConntrackMaps
  xb_udp_conntrack_map :: BpfConntrackMaps
  xb_tcp_policy_map :: "BpfPortPolicyMap option"
  xb_udp_policy_map :: "BpfPortPolicyMap option"
  xb_acl_maps :: "BpfAclMaps option"
  xb_runtime_config_map :: "BpfRuntimeConfigMap option"
  xb_global_rl_map :: "BpfGlobalRlMap option"
  xb_sctp_map :: "BpfArrayMap option"
  xb_sit4_map :: "BpfSit4EndpointsMap option"
  xb_syn4_outer :: "BpfRateOuterMap option"
  xb_syn6_outer :: "BpfRateOuterMap option"
  xb_udprt4_outer :: "BpfRateOuterMap option"
  xb_udprt6_outer :: "BpfRateOuterMap option"

text \<open>The orders in which the sets of a plan are iterated.\<close>

record orders =
  ord_int :: "int set \<Rightarrow> int list"
  ord_bytes :: "bytes set \<Rightarrow> bytes list"
  ord_acl :: "acl_key set \<Rightarrow> acl_key list"

text \<open>A method of a part that may be \<open>None\<close>; then the statement is skipped.\<close>

definition on_opt ::
  "('b \<Rightarrow> 'm option) \<Rightarrow> (('m option \<Rightarrow> 'm option) \<Rightarrow> 'b \<Rightarrow> 'b) \<Rightarrow> 'a \<Rightarrow> ('m \<times> 'k, 'a) pym \<Rightarrow>
   ('b \<times> 'k, 'a) pym" where
  "on_opt sel upd d p s =
     (case sel (fst s) of
        None \<Rightarrow> (Inr d, s)
      | Some m \<Rightarrow> (case p (m, snd s) of (r, (m', k)) \<Rightarrow> (r, (upd (\<lambda>_. Some m') (fst s), k))))"

text \<open>\<open>_ok\<close>\<close>

definition ok :: "(XdpBackend \<times> 'k, bool) pym \<Rightarrow> (XdpBackend \<times> 'k, bool) pym" where
  "ok p = mbind p (\<lambda>result.
     if result then ret True
     else mseq (set_obj (xb_last_apply_failures_update (\<lambda>n. n + 1))) (ret False))"

definition oks :: "(XdpBackend \<times> 'k, bool) pym \<Rightarrow> (XdpBackend \<times> 'k, unit) pym" where
  "oks p = mseq (ok p) (ret ())"

section \<open>Opening the maps\<close>

text \<open>\<open>try: self.x = X(...) / except OSError: pass\<close>\<close>

definition open_optional :: "('k, 'm) pym \<Rightarrow> ('k, 'm option) pym" where
  "open_optional p = mtry (mbind p (\<lambda>m. ret (Some m))) (on_oserror (\<lambda>_. ret None))"

text \<open>
  The four outer maps are opened in one \<open>try\<close>: the first that fails leaves the
  rest unopened.
\<close>

fun open_prefix :: "('k, 'm) pym list \<Rightarrow> ('k, 'm option list) pym" where
  "open_prefix [] = ret []"
| "open_prefix (p # ps) =
     mbind (open_optional p) (\<lambda>m. case m of
         None \<Rightarrow> ret (None # map (\<lambda>_. None) ps)
       | Some x \<Rightarrow> mbind (open_prefix ps) (\<lambda>ms. ret (Some x # ms)))"

definition xdp_init :: "nat \<Rightarrow> 'k kernel \<Rightarrow> Config \<Rightarrow> ('k, XdpBackend) pym" where
  "xdp_init fuel K c =
     (let p = map_paths c in
      mbind (array_init K (TCP_MAP_PATH p)) (\<lambda>tcp.
      mbind (array_init K (UDP_MAP_PATH p)) (\<lambda>udp.
      mbind (trusted_init fuel K (TRUSTED_IPS_MAP_PATH4 p) (TRUSTED_IPS_MAP_PATH6 p)) (\<lambda>trusted.
      mbind (conntracks_init fuel K (TCP_CONNTRACK_MAP_PATH4 p) (TCP_CONNTRACK_MAP_PATH6 p)) (\<lambda>ct.
      mbind (conntracks_init fuel K (UDP_CONNTRACK_MAP_PATH4 p) (UDP_CONNTRACK_MAP_PATH6 p)) (\<lambda>uct.
      mbind (open_optional (policy_init K (TCP_PORT_POLICY_MAP_PATH p))) (\<lambda>tcp_policy.
      mbind (open_optional (policy_init K (UDP_PORT_POLICY_MAP_PATH p))) (\<lambda>udp_policy.
      mbind (open_optional (acls_init fuel K (TCP_ACL_MAP_PATH4 p) (TCP_ACL_MAP_PATH6 p)
               (UDP_ACL_MAP_PATH4 p) (UDP_ACL_MAP_PATH6 p))) (\<lambda>acl.
      mbind (open_optional (runtime_init K (XDP_RUNTIME_CFG_MAP_PATH p))) (\<lambda>runtime.
      mbind (open_optional (global_rl_init K (UDP_GLOBAL_RL_MAP_PATH p))) (\<lambda>global_rl.
      mbind (open_optional (array_init K (SCTP_MAP_PATH p))) (\<lambda>sctp.
      mbind (open_optional (sit4_init fuel K (SIT4_ENDPOINTS_MAP_PATH p))) (\<lambda>sit4.
      mbind (open_prefix [outer_init K (SYN4_MAP_PATH p) 4 8 ''s4_'', outer_init K (SYN6_MAP_PATH p) 16 8 ''s6_'',
               outer_init K (UDPRT4_MAP_PATH p) 4 8 ''u4_'', outer_init K (UDPRT6_MAP_PATH p) 16 8 ''u6_'']) (\<lambda>outers.
      ret \<lparr>xb_last_apply_failures = 0, xb_conntrack_stale_rounds = [], xb_tcp_map = tcp, xb_udp_map = udp,
           xb_trusted_map = trusted, xb_conntrack_map = ct, xb_udp_conntrack_map = uct,
           xb_tcp_policy_map = tcp_policy, xb_udp_policy_map = udp_policy, xb_acl_maps = acl,
           xb_runtime_config_map = runtime, xb_global_rl_map = global_rl, xb_sctp_map = sctp,
           xb_sit4_map = sit4, xb_syn4_outer = outers ! 0, xb_syn6_outer = outers ! 1,
           xb_udprt4_outer = outers ! 2, xb_udprt6_outer = outers ! 3\<rparr>))))))))))))))"

text \<open>\<open>is_stale\<close>: the pinned whitelist is no longer the one that is open.\<close>

definition is_stale :: "'k kernel \<Rightarrow> Config \<Rightarrow> (XdpBackend \<times> 'k, bool) pym" where
  "is_stale K c =
     mtry (mbind (kern (obj_get K (TCP_MAP_PATH (map_paths c)))) (\<lambda>fd.
           mbind (kern (mfinally (map_id K fd) (sys_close K fd))) (\<lambda>pinned_id.
           mbind (on_part xb_tcp_map xb_tcp_map_update (array_map_id K)) (\<lambda>own_id.
           ret (pinned_id \<noteq> own_id)))))
       (on_oserror (\<lambda>_. ret False))"

definition run_ct_gc :: "nat \<Rightarrow> 'k kernel \<Rightarrow> Config \<Rightarrow> (XdpBackend \<times> 'k, unit) pym" where
  "run_ct_gc fuel K c =
     (let rt = xdp_runtime c; ns = (\<lambda>x. int_of_float (flt_mul x (Fin 1000000000))) in
      mbind (mlift (ns (XDP_TCP_TIMEOUT_SECONDS rt))) (\<lambda>tcp_timeout.
      mbind (mlift (ns (XDP_SYN_TIMEOUT_SECONDS rt))) (\<lambda>syn_timeout.
      mseq (on_part xb_conntrack_map xb_conntrack_map_update
              (conntracks_gc_expired fuel K tcp_timeout (Some syn_timeout)))
     (mbind (mlift (ns (XDP_UDP_TIMEOUT_SECONDS rt))) (\<lambda>udp_timeout.
      mseq (on_part xb_udp_conntrack_map xb_udp_conntrack_map_update
              (conntracks_gc_expired fuel K udp_timeout None))
      (ret ()))))))"

definition xdp_close :: "'k kernel \<Rightarrow> (XdpBackend \<times> 'k, unit) pym" where
  "xdp_close K = mseqs
     [on_part xb_tcp_map xb_tcp_map_update (array_close K),
      on_part xb_udp_map xb_udp_map_update (array_close K),
      on_part xb_trusted_map xb_trusted_map_update (trusted_close K),
      on_part xb_conntrack_map xb_conntrack_map_update (conntracks_close K),
      on_part xb_udp_conntrack_map xb_udp_conntrack_map_update (conntracks_close K),
      on_opt xb_tcp_policy_map xb_tcp_policy_map_update () (policy_close K),
      on_opt xb_udp_policy_map xb_udp_policy_map_update () (policy_close K),
      on_opt xb_acl_maps xb_acl_maps_update () (acls_close K),
      on_opt xb_runtime_config_map xb_runtime_config_map_update () (runtime_close K),
      on_opt xb_global_rl_map xb_global_rl_map_update () (global_rl_close K),
      on_opt xb_sctp_map xb_sctp_map_update () (array_close K),
      on_opt xb_sit4_map xb_sit4_map_update () (sit4_close K),
      on_opt xb_syn4_outer xb_syn4_outer_update () (outer_close K),
      on_opt xb_syn6_outer xb_syn6_outer_update () (outer_close K),
      on_opt xb_udprt4_outer xb_udprt4_outer_update () (outer_close K),
      on_opt xb_udprt6_outer xb_udprt6_outer_update () (outer_close K)]"

section \<open>The applied state and the plan\<close>

definition compute_cfg_flags :: "Config \<Rightarrow> DesiredState \<Rightarrow> int" where
  "compute_cfg_flags c d =
     (if ds_bogon_filter_enabled d then 0 else XDP_CFG_FLAG_BOGON_DISABLED) OR
     (if ds_drop_events_enabled d then 0 else XDP_CFG_FLAG_DROP_EVENTS_DISABLED) OR
     (if ABUSEIPDB_ENABLED c then XDP_CFG_FLAG_ABUSEIPDB_ENABLED else 0) OR
     (if SLOT_DEFAULT_ACTION c = ''drop'' then XDP_CFG_FLAG_SLOT_DROP else 0)"

definition flag_clear :: "int \<Rightarrow> int option \<Rightarrow> bool option" where
  "flag_clear flag = map_option (\<lambda>fl. \<not> (fl AND flag \<noteq> 0))"

definition cfg_flag_bogon :: "'k kernel \<Rightarrow> (XdpBackend \<times> 'k, bool option) pym" where
  "cfg_flag_bogon K =
     mbind (on_opt xb_runtime_config_map xb_runtime_config_map_update None (runtime_get_cfg_flags K))
       (\<lambda>fl. ret (flag_clear XDP_CFG_FLAG_BOGON_DISABLED fl))"

definition cfg_flag_drop_events :: "'k kernel \<Rightarrow> (XdpBackend \<times> 'k, bool option) pym" where
  "cfg_flag_drop_events K =
     mbind (on_opt xb_runtime_config_map xb_runtime_config_map_update None (runtime_get_cfg_flags K))
       (\<lambda>fl. ret (flag_clear XDP_CFG_FLAG_DROP_EVENTS_DISABLED fl))"

definition view_of :: "nat \<Rightarrow> BpfPortPolicyMap option \<Rightarrow> limits" where
  "view_of i m = (case m of None \<Rightarrow> [] | Some p \<Rightarrow> view_active i p)"

text \<open>The part of the applied state that is read from the caches.\<close>

definition cached_state :: "XdpBackend \<Rightarrow> AppliedState" where
  "cached_state b = AppliedState_init\<lparr>
     as_tcp_ports := array_active_ports (xb_tcp_map b),
     as_udp_ports := array_active_ports (xb_udp_map b),
     as_sctp_ports := (case xb_sctp_map b of None \<Rightarrow> {} | Some m \<Rightarrow> array_active_ports m),
     as_trusted_cidrs := trusted_active_keys (xb_trusted_map b),
     as_conntrack_entries := conntracks_active_keys (xb_conntrack_map b),
     as_tcp_syn_rate_limits := view_of 0 (xb_tcp_policy_map b),
     as_tcp_syn_agg_rate_limits := view_of 1 (xb_tcp_policy_map b),
     as_tcp_conn_limits := view_of 2 (xb_tcp_policy_map b),
     as_tcp_conn_prefix_limits := view_of 5 (xb_tcp_policy_map b),
     as_tcp_conn_port_limits := view_of 6 (xb_tcp_policy_map b),
     as_udp_rate_limits := view_of 0 (xb_udp_policy_map b),
     as_udp_agg_rate_limits := view_of 1 (xb_udp_policy_map b),
     as_acl_rules := (case xb_acl_maps b of None \<Rightarrow> [] | Some a \<Rightarrow> acls_active_entries a)\<rparr>"

definition get_applied_state :: "'k kernel \<Rightarrow> (XdpBackend \<times> 'k, AppliedState) pym" where
  "get_applied_state K =
     mbind (obj cached_state) (\<lambda>st.
     mbind (cfg_flag_bogon K) (\<lambda>bogon.
     mbind (cfg_flag_drop_events K) (\<lambda>drop_events.
     mbind (on_opt xb_global_rl_map xb_global_rl_map_update None
              (mbind (global_rl_get K) (\<lambda>r. ret (Some r)))) (\<lambda>rate.
     mbind (on_opt xb_runtime_config_map xb_runtime_config_map_update None (runtime_get K)) (\<lambda>runtime.
     ret (st\<lparr>as_bogon_filter_enabled := bogon, as_drop_events_enabled := drop_events,
             as_udp_global_byte_rate := rate, as_xdp_runtime_config := runtime\<rparr>))))))"

text \<open>
  The count of consecutive rounds in which a tracked flow was not observed. The
  result is the keys that have been missed often enough.
\<close>

fun count_stale :: "int \<Rightarrow> bytes list \<Rightarrow> (bytes, int) dict \<Rightarrow> bytes set \<Rightarrow> (bytes, int) dict \<times> bytes set" where
  "count_stale limit [] rounds ready = (rounds, ready)"
| "count_stale limit (key # keys) rounds ready =
     (let n = dict_get_or rounds key 0 + 1 in
      count_stale limit keys (dict_set key n rounds) (if limit \<le> n then insert key ready else ready))"

definition stale_rounds_step ::
  "Config \<Rightarrow> orders \<Rightarrow> bytes set \<Rightarrow> bytes set \<Rightarrow> (bytes, int) dict \<Rightarrow> (bytes, int) dict \<times> bytes set" where
  "stale_rounds_step c ords desired missing rounds =
     (let rounds1 = fold dict_pop (ord_bytes ords desired) rounds;
          (rounds2, ready) = count_stale (XDP_CONNTRACK_STALE_RECONCILES c) (ord_bytes ords missing) rounds1 {};
          rounds3 = fold dict_pop (ord_bytes ords (dict_keys rounds2 - missing)) rounds2
      in (rounds3, ready))"

definition build_reconcile_plan ::
  "'k kernel \<Rightarrow> Config \<Rightarrow> orders \<Rightarrow> DesiredState \<Rightarrow> AppliedState \<Rightarrow> (XdpBackend \<times> 'k, ReconcilePlan) pym" where
  "build_reconcile_plan K c ords d a =
     (let plan = compute_reconcile_plan d a in
      mbind (on_part xb_conntrack_map xb_conntrack_map_update
               (conntracks_existing_keys (ord_bytes ords) K (ds_conntrack_entries d))) (\<lambda>present.
      mbind (obj xb_conntrack_stale_rounds) (\<lambda>rounds.
      case stale_rounds_step c ords (ds_conntrack_entries d) (rp_conntrack_entries_to_remove plan) rounds of
        (rounds', ready) \<Rightarrow>
          mseq (set_obj (xb_conntrack_stale_rounds_update (\<lambda>_. rounds')))
            (ret (plan\<lparr>rp_conntrack_entries_to_add := ds_conntrack_entries d - present,
                       rp_conntrack_entries_to_remove := ready\<rparr>)))))"

section \<open>Verification\<close>

definition verify_kernel_state :: "nat \<Rightarrow> 'k kernel \<Rightarrow> (XdpBackend \<times> 'k, nat) pym" where
  "verify_kernel_state fuel K =
     mbind (on_part xb_tcp_map xb_tcp_map_update (array_verify K)) (\<lambda>n1.
     mbind (on_part xb_udp_map xb_udp_map_update (array_verify K)) (\<lambda>n2.
     mbind (on_opt xb_sctp_map xb_sctp_map_update 0 (array_verify K)) (\<lambda>n3.
     mbind (on_part xb_trusted_map xb_trusted_map_update (trusted_verify fuel K)) (\<lambda>n4.
     mbind (on_opt xb_tcp_policy_map xb_tcp_policy_map_update 0 (policy_verify K)) (\<lambda>n5.
     mbind (on_opt xb_udp_policy_map xb_udp_policy_map_update 0 (policy_verify K)) (\<lambda>n6.
     mbind (on_opt xb_acl_maps xb_acl_maps_update 0 (acls_verify fuel K)) (\<lambda>n7.
     mbind (on_opt xb_sit4_map xb_sit4_map_update 0 (sit4_verify fuel K)) (\<lambda>n8.
     mbind (on_opt xb_syn4_outer xb_syn4_outer_update 0 (outer_verify K)) (\<lambda>n9.
     mbind (on_opt xb_syn6_outer xb_syn6_outer_update 0 (outer_verify K)) (\<lambda>n10.
     mbind (on_opt xb_udprt4_outer xb_udprt4_outer_update 0 (outer_verify K)) (\<lambda>n11.
     mbind (on_opt xb_udprt6_outer xb_udprt6_outer_update 0 (outer_verify K)) (\<lambda>n12.
     ret (n1 + n2 + n3 + n4 + n5 + n6 + n7 + n8 + n9 + n10 + n11 + n12)))))))))))))"

section \<open>Carrying a plan out\<close>

text \<open>
  \<open>apply_reconcile_plan\<close>, one definition per group of maps, in the order of the
  method. The new TCP and UDP ports come last, and only if nothing failed.
\<close>

definition set_tcp :: "'k kernel \<Rightarrow> int \<Rightarrow> int \<Rightarrow> bool \<Rightarrow> (XdpBackend \<times> 'k, bool) pym" where
  "set_tcp K port val dry = on_part xb_tcp_map xb_tcp_map_update (array_set K port val dry)"

definition set_udp :: "'k kernel \<Rightarrow> int \<Rightarrow> int \<Rightarrow> bool \<Rightarrow> (XdpBackend \<times> 'k, bool) pym" where
  "set_udp K port val dry = on_part xb_udp_map xb_udp_map_update (array_set K port val dry)"

definition forget_rounds :: "bytes \<Rightarrow> (XdpBackend \<times> 'k, unit) pym" where
  "forget_rounds key = set_obj (xb_conntrack_stale_rounds_update (dict_pop key))"

definition apply_tcp_removals :: "'k kernel \<Rightarrow> orders \<Rightarrow> ReconcilePlan \<Rightarrow> bool \<Rightarrow> (XdpBackend \<times> 'k, unit) pym" where
  "apply_tcp_removals K ords plan dry =
     mseq (mfor (sorted_list_of_set (rp_tcp_ports_to_remove plan)) (\<lambda>port. oks (set_tcp K port 0 dry)))
          (mwhen (rp_tcp_ports_to_remove plan \<noteq> {})
            (mseq (on_part xb_conntrack_map xb_conntrack_map_update
                     (conntracks_delete_dest_ports (ord_bytes ords) K (rp_tcp_ports_to_remove plan) dry))
                  (ret ())))"

definition apply_conntrack :: "'k kernel \<Rightarrow> orders \<Rightarrow> ReconcilePlan \<Rightarrow> bool \<Rightarrow> (XdpBackend \<times> 'k, unit) pym" where
  "apply_conntrack K ords plan dry =
     mseq (mfor (ord_bytes ords (rp_conntrack_entries_to_add plan)) (\<lambda>key.
             mbind (ok (on_part xb_conntrack_map xb_conntrack_map_update (conntracks_set K key dry)))
               (\<lambda>done. mwhen done (forget_rounds key))))
          (mfor (ord_bytes ords (rp_conntrack_entries_to_remove plan)) (\<lambda>key.
             mbind (ok (on_part xb_conntrack_map xb_conntrack_map_update (conntracks_delete K key dry)))
               (\<lambda>done. mwhen done (forget_rounds key))))"

definition apply_udp_removals :: "'k kernel \<Rightarrow> orders \<Rightarrow> ReconcilePlan \<Rightarrow> bool \<Rightarrow> (XdpBackend \<times> 'k, unit) pym" where
  "apply_udp_removals K ords plan dry =
     mseq (mfor (sorted_list_of_set (rp_udp_ports_to_remove plan)) (\<lambda>port. oks (set_udp K port 0 dry)))
          (mwhen (rp_udp_ports_to_remove plan \<noteq> {})
            (mseq (on_part xb_udp_conntrack_map xb_udp_conntrack_map_update
                     (conntracks_delete_dest_ports (ord_bytes ords) K (rp_udp_ports_to_remove plan) dry))
                  (ret ())))"

definition apply_sctp :: "'k kernel \<Rightarrow> ReconcilePlan \<Rightarrow> bool \<Rightarrow> (XdpBackend \<times> 'k, unit) pym" where
  "apply_sctp K plan dry =
     mbind (obj (\<lambda>b. xb_sctp_map b \<noteq> None)) (\<lambda>present. mwhen present
       (mseq (mfor (sorted_list_of_set (rp_sctp_ports_to_add plan)) (\<lambda>port.
                oks (on_opt xb_sctp_map xb_sctp_map_update True (array_set K port 1 dry))))
             (mfor (sorted_list_of_set (rp_sctp_ports_to_remove plan)) (\<lambda>port.
                oks (on_opt xb_sctp_map xb_sctp_map_update True (array_set K port 0 dry))))))"

definition apply_trusted :: "'k kernel \<Rightarrow> Config \<Rightarrow> ReconcilePlan \<Rightarrow> bool \<Rightarrow> (XdpBackend \<times> 'k, unit) pym" where
  "apply_trusted K c plan dry =
     mseq (mfor (sorted_list_of_set (rp_trusted_cidrs_to_add plan)) (\<lambda>ip.
             oks (on_part xb_trusted_map xb_trusted_map_update (trusted_set K ip 1 dry))))
          (mfor (sorted_list_of_set (rp_trusted_cidrs_to_remove plan - dict_keys (TRUSTED_SRC_IPS c))) (\<lambda>ip.
             oks (on_part xb_trusted_map xb_trusted_map_update (trusted_delete K ip dry))))"

text \<open>\<open>_apply_rate_map_delta\<close> on the view of one field of a policy map.\<close>

definition apply_rate_map_delta ::
  "'k kernel \<Rightarrow> Config \<Rightarrow> orders \<Rightarrow> (XdpBackend \<Rightarrow> BpfPortPolicyMap option) \<Rightarrow>
   ((BpfPortPolicyMap option \<Rightarrow> BpfPortPolicyMap option) \<Rightarrow> XdpBackend \<Rightarrow> XdpBackend) \<Rightarrow>
   nat \<Rightarrow> limits \<Rightarrow> int set \<Rightarrow> bool \<Rightarrow> (XdpBackend \<times> 'k, unit) pym" where
  "apply_rate_map_delta K c ords sel upd i upserts removals dry =
     mbind (obj (\<lambda>b. sel b \<noteq> None)) (\<lambda>present. mwhen present
       (mseq (mfor upserts (\<lambda>(port, rate_max). oks (on_opt sel upd True (view_set K c i port rate_max dry))))
             (mfor (ord_int ords removals) (\<lambda>port. oks (on_opt sel upd True (view_delete K i port dry))))))"

definition apply_limits :: "'k kernel \<Rightarrow> Config \<Rightarrow> orders \<Rightarrow> ReconcilePlan \<Rightarrow> bool \<Rightarrow> (XdpBackend \<times> 'k, unit) pym" where
  "apply_limits K c ords plan dry =
     (let tcp = apply_rate_map_delta K c ords xb_tcp_policy_map xb_tcp_policy_map_update;
          udp = apply_rate_map_delta K c ords xb_udp_policy_map xb_udp_policy_map_update in
      mseqs
       [tcp 0 (rp_tcp_syn_rate_limits_to_upsert plan) (rp_tcp_syn_rate_limits_to_remove plan) dry,
        tcp 1 (rp_tcp_syn_agg_rate_limits_to_upsert plan) (rp_tcp_syn_agg_rate_limits_to_remove plan) dry,
        tcp 2 (rp_tcp_conn_limits_to_upsert plan) (rp_tcp_conn_limits_to_remove plan) dry,
        tcp 5 (rp_tcp_conn_prefix_limits_to_upsert plan) (rp_tcp_conn_prefix_limits_to_remove plan) dry,
        tcp 6 (rp_tcp_conn_port_limits_to_upsert plan) (rp_tcp_conn_port_limits_to_remove plan) dry,
        udp 0 (rp_udp_rate_limits_to_upsert plan) (rp_udp_rate_limits_to_remove plan) dry,
        udp 1 (rp_udp_agg_rate_limits_to_upsert plan) (rp_udp_agg_rate_limits_to_remove plan) dry])"

text \<open>\<open>_apply_rate_outer_delta\<close>\<close>

definition apply_rate_outer_delta ::
  "'k kernel \<Rightarrow> orders \<Rightarrow> (XdpBackend \<Rightarrow> BpfRateOuterMap option) \<Rightarrow>
   ((BpfRateOuterMap option \<Rightarrow> BpfRateOuterMap option) \<Rightarrow> XdpBackend \<Rightarrow> XdpBackend) \<Rightarrow>
   limits \<Rightarrow> bool \<Rightarrow> (XdpBackend \<times> 'k, unit) pym" where
  "apply_rate_outer_delta K ords sel upd desired dry =
     mbind (obj sel) (\<lambda>outer. case outer of None \<Rightarrow> ret ()
     | Some m \<Rightarrow>
         (let current = ro_cache m in
          mseq (mfor desired (\<lambda>(port, capacity).
                  mwhen (dict_get current port \<noteq> Some capacity)
                    (oks (on_opt sel upd True (outer_set K port capacity dry)))))
               (mfor (ord_int ords (dict_keys current - dict_keys desired)) (\<lambda>port.
                  oks (on_opt sel upd True (outer_delete K port dry))))))"

definition entries_v6 :: "Config \<Rightarrow> limits \<Rightarrow> limits" where
  "entries_v6 c l = map (\<lambda>(p, n). (p, rate_map_entries_v6 c n)) l"

definition apply_outers :: "'k kernel \<Rightarrow> Config \<Rightarrow> orders \<Rightarrow> DesiredState \<Rightarrow> bool \<Rightarrow> (XdpBackend \<times> 'k, unit) pym" where
  "apply_outers K c ords d dry = mseqs
     [apply_rate_outer_delta K ords xb_syn4_outer xb_syn4_outer_update (ds_tcp_rate_map_entries d) dry,
      apply_rate_outer_delta K ords xb_syn6_outer xb_syn6_outer_update (entries_v6 c (ds_tcp_rate_map_entries d)) dry,
      apply_rate_outer_delta K ords xb_udprt4_outer xb_udprt4_outer_update (ds_udp_rate_map_entries d) dry,
      apply_rate_outer_delta K ords xb_udprt6_outer xb_udprt6_outer_update (entries_v6 c (ds_udp_rate_map_entries d)) dry]"

definition tcp_policy_ports :: "DesiredState \<Rightarrow> int set" where
  "tcp_policy_ports d =
     dict_keys (ds_tcp_syn_rate_limits d) \<union> dict_keys (ds_tcp_syn_agg_rate_limits d) \<union>
     dict_keys (ds_tcp_conn_limits d) \<union> dict_keys (ds_tcp_conn_prefix_limits d) \<union>
     dict_keys (ds_tcp_conn_port_limits d)"

definition udp_policy_ports :: "DesiredState \<Rightarrow> int set" where
  "udp_policy_ports d = dict_keys (ds_udp_rate_limits d) \<union> dict_keys (ds_udp_agg_rate_limits d)"

definition apply_prefixes :: "'k kernel \<Rightarrow> DesiredState \<Rightarrow> bool \<Rightarrow> (XdpBackend \<times> 'k, unit) pym" where
  "apply_prefixes K d dry =
     mseq (on_opt xb_tcp_policy_map xb_tcp_policy_map_update ()
             (policy_ensure_prefixes K (tcp_policy_ports d)
               (ds_rate_limit_source_prefix_v4 d) (ds_rate_limit_source_prefix_v6 d) dry))
          (on_opt xb_udp_policy_map xb_udp_policy_map_update ()
             (policy_ensure_prefixes K (udp_policy_ports d)
               (ds_rate_limit_source_prefix_v4 d) (ds_rate_limit_source_prefix_v6 d) dry))"

text \<open>
  \<open>_apply_acl_delta\<close>. The message logged after a success calls \<open>proto.upper()\<close>,
  which raises when the configured protocol is no string.
\<close>

definition log_acl :: "pyval \<Rightarrow> (XdpBackend \<times> 'k, unit) pym" where
  "log_acl proto = (case proto of VStr _ \<Rightarrow> ret () | _ \<Rightarrow> raise_exn AttributeErr)"

definition apply_acl_delta :: "'k kernel \<Rightarrow> orders \<Rightarrow> ReconcilePlan \<Rightarrow> bool \<Rightarrow> (XdpBackend \<times> 'k, unit) pym" where
  "apply_acl_delta K ords plan dry =
     mbind (obj (\<lambda>b. xb_acl_maps b \<noteq> None)) (\<lambda>present. mwhen present
       (mseq (mfor (rp_acl_rules_to_upsert plan) (\<lambda>((proto, cidr), ports).
                mbind (ok (on_opt xb_acl_maps xb_acl_maps_update True
                         (acls_set K proto cidr (sorted_list_of_set ports) dry)))
                  (\<lambda>done. mwhen done (log_acl proto))))
             (mfor (ord_acl ords (rp_acl_rules_to_remove plan)) (\<lambda>(proto, cidr).
                mbind (ok (on_opt xb_acl_maps xb_acl_maps_update True (acls_delete K proto cidr dry)))
                  (\<lambda>done. mwhen done (log_acl proto))))))"

definition apply_runtime_config :: "'k kernel \<Rightarrow> Config \<Rightarrow> DesiredState \<Rightarrow> bool \<Rightarrow> (XdpBackend \<times> 'k, unit) pym" where
  "apply_runtime_config K c d dry =
     mbind (obj (\<lambda>b. xb_runtime_config_map b \<noteq> None)) (\<lambda>present. mwhen present
       (mbind (on_opt xb_runtime_config_map xb_runtime_config_map_update None (runtime_get K)) (\<lambda>current.
        mbind (on_opt xb_runtime_config_map xb_runtime_config_map_update None (runtime_get_cfg_flags K)) (\<lambda>fl.
        mwhen (Some (ds_xdp_runtime_config d) \<noteq> current \<or>
               compute_cfg_flags c d \<noteq> (case fl of None \<Rightarrow> 0 | Some x \<Rightarrow> x))
          (oks (on_opt xb_runtime_config_map xb_runtime_config_map_update True
                 (runtime_set K (ds_xdp_runtime_config d) (compute_cfg_flags c d) dry)))))))"

definition apply_global_rl :: "'k kernel \<Rightarrow> ReconcilePlan \<Rightarrow> bool \<Rightarrow> (XdpBackend \<times> 'k, unit) pym" where
  "apply_global_rl K plan dry =
     (case rp_udp_global_byte_rate_update plan of
        None \<Rightarrow> ret ()
      | Some rate \<Rightarrow> oks (on_opt xb_global_rl_map xb_global_rl_map_update True (global_rl_set K rate dry)))"

definition apply_sit4 :: "'k kernel \<Rightarrow> Config \<Rightarrow> bool \<Rightarrow> (XdpBackend \<times> 'k, unit) pym" where
  "apply_sit4 K c dry =
     mbind (obj xb_sit4_map) (\<lambda>sit4. case sit4 of None \<Rightarrow> ret ()
     | Some m \<Rightarrow>
         (let desired = set (SIT4_ENDPOINTS c); current = si_cache m in
          mseq (mfor (sorted_list_of_set (desired - current)) (\<lambda>ip.
                  oks (on_opt xb_sit4_map xb_sit4_map_update True (sit4_set K ip dry))))
               (mfor (sorted_list_of_set (current - desired)) (\<lambda>ip.
                  oks (on_opt xb_sit4_map xb_sit4_map_update True (sit4_delete K ip dry))))))"

text \<open>Everything before the new ports: the protection they rely on.\<close>

definition prepare_protection ::
  "'k kernel \<Rightarrow> Config \<Rightarrow> orders \<Rightarrow> ReconcilePlan \<Rightarrow> bool \<Rightarrow> DesiredState \<Rightarrow> (XdpBackend \<times> 'k, unit) pym" where
  "prepare_protection K c ords plan dry d = mseqs
     [apply_tcp_removals K ords plan dry, apply_conntrack K ords plan dry,
      apply_udp_removals K ords plan dry, apply_sctp K plan dry, apply_trusted K c plan dry,
      apply_limits K c ords plan dry, apply_outers K c ords d dry, apply_prefixes K d dry,
      apply_acl_delta K ords plan dry, apply_runtime_config K c d dry, apply_global_rl K plan dry,
      apply_sit4 K c dry]"

definition expose_ports :: "'k kernel \<Rightarrow> ReconcilePlan \<Rightarrow> bool \<Rightarrow> (XdpBackend \<times> 'k, unit) pym" where
  "expose_ports K plan dry =
     mbind (obj xb_last_apply_failures) (\<lambda>failures.
     if failures \<noteq> 0 then ret ()
     else mseq (mfor (sorted_list_of_set (rp_tcp_ports_to_add plan)) (\<lambda>port. oks (set_tcp K port 1 dry)))
               (mfor (sorted_list_of_set (rp_udp_ports_to_add plan)) (\<lambda>port. oks (set_udp K port 1 dry))))"

definition apply_reconcile_plan ::
  "'k kernel \<Rightarrow> Config \<Rightarrow> orders \<Rightarrow> ReconcilePlan \<Rightarrow> bool \<Rightarrow> DesiredState \<Rightarrow> (XdpBackend \<times> 'k, unit) pym" where
  "apply_reconcile_plan K c ords plan dry d =
     mseq (set_obj (xb_last_apply_failures_update (\<lambda>_. 0)))
    (mseq (prepare_protection K c ords plan dry d) (expose_ports K plan dry))"

text \<open>\<open>PortBackend.reconcile\<close> and the override that undoes the counting of a dry run.\<close>

definition base_reconcile ::
  "'k kernel \<Rightarrow> Config \<Rightarrow> orders \<Rightarrow> DesiredState \<Rightarrow> bool \<Rightarrow> (XdpBackend \<times> 'k, unit) pym" where
  "base_reconcile K c ords d dry =
     mbind (get_applied_state K) (\<lambda>a.
     mbind (build_reconcile_plan K c ords d a) (\<lambda>plan.
     apply_reconcile_plan K c ords plan dry d))"

definition reconcile ::
  "'k kernel \<Rightarrow> Config \<Rightarrow> orders \<Rightarrow> DesiredState \<Rightarrow> bool \<Rightarrow> (XdpBackend \<times> 'k, unit) pym" where
  "reconcile K c ords d dry =
     mbind (obj xb_conntrack_stale_rounds) (\<lambda>snapshot.
     mfinally (base_reconcile K c ords d dry)
       (\<lambda>s. if dry then ((fst s)\<lparr>xb_conntrack_stale_rounds := snapshot\<rparr>, snd s) else s))"

end
