(* ===== verification/PyText.thy ===== *)
theory PyText
  imports Ipaddr
begin

text \<open>
  Text in the files and streams of the program: \<open>str.splitlines\<close>, and the strings of JSON, as
  \<open>json.dumps\<close> writes and \<open>json.loads\<close> reads them.
\<close>

lemma rmap_cong [fundef_cong]: "xs = ys \<Longrightarrow> (\<And>x. x \<in> set ys \<Longrightarrow> f x = g x) \<Longrightarrow> rmap f xs = rmap g ys"
proof -
  have "(\<And>x. x \<in> set ys \<Longrightarrow> f x = g x) \<Longrightarrow> rmap f ys = rmap g ys" by (induction ys) auto
  then show "xs = ys \<Longrightarrow> (\<And>x. x \<in> set ys \<Longrightarrow> f x = g x) \<Longrightarrow> rmap f xs = rmap g ys" by blast
qed

lemma rmap_all2:
  "(\<And>x. x \<in> set xs \<Longrightarrow> \<exists>y. f x = Inr y \<and> P x y) \<Longrightarrow> \<exists>ys. rmap f xs = Inr ys \<and> list_all2 P xs ys"
proof (induction xs)
  case (Cons x xs)
  then obtain y ys where "f x = Inr y" "P x y" "rmap f xs = Inr ys" "list_all2 P xs ys" by fastforce
  then show ?case by simp
qed simp

section \<open>Lines\<close>

text \<open>\<open>str.splitlines\<close>: a carriage return and the line feed after it are one line end.\<close>

definition is_line_end :: "char \<Rightarrow> bool" where
  "is_line_end c \<longleftrightarrow> (let n = of_char c :: nat in 10 \<le> n \<and> n \<le> 13 \<or> 28 \<le> n \<and> n \<le> 30 \<or> n = 133)"

definition after_line_end :: "char \<Rightarrow> string \<Rightarrow> string" where
  "after_line_end c s =
     (if of_char c = (13 :: nat) \<and> s \<noteq> [] \<and> of_char (hd s) = (10 :: nat) then tl s else s)"

function str_splitlines :: "string \<Rightarrow> string \<Rightarrow> string list" where
  "str_splitlines cur [] = (if cur = [] then [] else [rev cur])"
| "str_splitlines cur (c # s) =
     (if is_line_end c then rev cur # str_splitlines [] (after_line_end c s)
      else str_splitlines (c # cur) s)"
  by pat_completeness auto
termination by (relation "measure (\<lambda>(cur, s). length s)") (auto simp: after_line_end_def)

section \<open>JSON strings\<close>

definition hex4 :: "nat \<Rightarrow> string" where
  "hex4 n = map (\<lambda>i. hex_char (n div 16 ^ i mod 16)) [3, 2, 1, 0]"

definition json_char :: "char \<Rightarrow> string" where
  "json_char c = (let n = of_char c :: nat in
     if n = 34 then [CHR 0x5C, CHR 0x22]
     else if n = 92 then [CHR 0x5C, CHR 0x5C]
     else if n = 10 then CHR 0x5C # ''n'' else if n = 13 then CHR 0x5C # ''r''
     else if n = 9 then CHR 0x5C # ''t'' else if n = 8 then CHR 0x5C # ''b''
     else if n = 12 then CHR 0x5C # ''f''
     else if 32 \<le> n \<and> n \<le> 126 then [c] else CHR 0x5C # CHR ''u'' # hex4 n)"

definition json_str :: "string \<Rightarrow> string" where
  "json_str s = [CHR 0x22] @ concat (map json_char s) @ [CHR 0x22]"

definition hex_value :: "char \<Rightarrow> nat option" where
  "hex_value c = (let n = of_char c :: nat in
     if 48 \<le> n \<and> n \<le> 57 then Some (n - 48)
     else if 65 \<le> n \<and> n \<le> 70 then Some (n - 55)
     else if 97 \<le> n \<and> n \<le> 102 then Some (n - 87) else None)"

definition json_escape :: "char \<Rightarrow> char option" where
  "json_escape c = map_of
     [(CHR 0x22, CHR 0x22), (CHR 0x5C, CHR 0x5C), (CHR ''/'', CHR ''/''), (CHR ''b'', CHR 0x08),
      (CHR ''f'', CHR 0x0C), (CHR ''n'', CHR 0x0A), (CHR ''r'', CHR 0x0D), (CHR ''t'', CHR 0x09)] c"

text \<open>
  The characters up to the closing quote, and what follows it. Characters have codes up to 255
  here; an escape for another one counts as malformed.
\<close>

fun json_scan :: "string \<Rightarrow> string \<Rightarrow> (string \<times> string) option" where
  "json_scan acc [] = None"
| "json_scan acc (c # s) =
     (if c = CHR 0x22 then Some (rev acc, s)
      else if of_char c < (32 :: nat) then None
      else if c = CHR 0x5C then
        (case s of
           [] \<Rightarrow> None
         | CHR ''u'' # a # b # d # e # s' \<Rightarrow>
             (case (hex_value a, hex_value b, hex_value d, hex_value e) of
                (Some w, Some x, Some y, Some z) \<Rightarrow>
                  if w = 0 \<and> x = 0 then json_scan (char_of (16 * y + z) # acc) s' else None
              | _ \<Rightarrow> None)
         | e # s' \<Rightarrow> (case json_escape e of None \<Rightarrow> None | Some x \<Rightarrow> json_scan (x # acc) s'))
      else json_scan (c # acc) s)"

definition is_json_space :: "char \<Rightarrow> bool" where
  "is_json_space c \<longleftrightarrow> (of_char c :: nat) \<in> {9, 10, 13, 32}"

text \<open>\<open>json.loads(s)\<close> for an \<open>s\<close> that begins with a quote; \<open>None\<close> is the \<open>JSONDecodeError\<close>.\<close>

definition json_loads_str :: "string \<Rightarrow> string option" where
  "json_loads_str s =
     (case json_scan [] (tl s) of
        Some (v, rest) \<Rightarrow> if list_all is_json_space rest then Some v else None
      | None \<Rightarrow> None)"

end
