(* ===== verification/AbuseIpdb.thy ===== *)
theory AbuseIpdb
  imports XdpBackend PyText
begin

text \<open>
  \<open>auto_xdp/abuseipdb.py\<close>: the block list of the AbuseIPDB feed. \<open>http\<close> is \<open>urlopen\<close>
  followed by reading and decoding the body, an effect on the same state as the
  kernel calls; an answer of the kind \<open>URLError\<close> or \<open>OSError\<close> is an \<open>OSError\<close> here.
  The messages given to \<open>log.error\<close> are kept, since they are the only sign of a roll
  back that failed.
\<close>

unbundle bit_operations_syntax

section \<open>fetch_blocklist\<close>

definition SOURCES_V4 :: "(string, string) dict" where
  "SOURCES_V4 =
     [(''s1001d'', ''abuseipdb-s100-1d.ipv4''), (''s1003d'', ''abuseipdb-s100-3d.ipv4''),
      (''s1007d'', ''abuseipdb-s100-7d.ipv4''), (''s10014d'', ''abuseipdb-s100-14d.ipv4''),
      (''s10030d'', ''abuseipdb-s100-30d.ipv4''), (''s10060d'', ''abuseipdb-s100-60d.ipv4''),
      (''s10090d'', ''abuseipdb-s100-90d.ipv4''), (''s100120d'', ''abuseipdb-s100-120d.ipv4'')]"

definition blocklist_entries :: "string \<Rightarrow> string list" where
  "blocklist_entries body =
     filter (\<lambda>e. e \<noteq> [])
       (map (\<lambda>line. str_strip (fst (str_split1 (CHR ''#'') line))) (str_splitlines [] body))"

definition fetch_blocklist :: "(string \<Rightarrow> ('k, string) pym) \<Rightarrow> string \<Rightarrow> string \<Rightarrow> ('k, string list) pym" where
  "fetch_blocklist http source_key base_url =
     (case dict_get SOURCES_V4 source_key of
        None \<Rightarrow> ret []
      | Some filename \<Rightarrow>
          mtry (mbind (http (str_rstrip_char (CHR ''/'') base_url @ ''/'' @ filename))
                 (\<lambda>body. ret (blocklist_entries body)))
            (on_oserror (\<lambda>_. ret [])))"

section \<open>BpfRiskMaps\<close>

text \<open>The runtime configuration map is the object of the backend.\<close>

record BpfRiskMaps =
  rm_map4 :: BpfLpmMap
  rm_runtime_cfg :: BpfRuntimeConfigMap
  rm_errors :: "string list"

definition risk_init ::
  "nat \<Rightarrow> 'k kernel \<Rightarrow> string \<Rightarrow> BpfRuntimeConfigMap \<Rightarrow> ('k, BpfRiskMaps) pym" where
  "risk_init fuel K path4 runtime =
     mbind (lpm_init fuel K path4 False) (\<lambda>m.
     ret \<lparr>rm_map4 = m, rm_runtime_cfg = runtime, rm_errors = []\<rparr>)"

definition risk_close :: "'k kernel \<Rightarrow> (BpfRiskMaps \<times> 'k, unit) pym" where
  "risk_close K = on_part rm_map4 rm_map4_update (lpm_close K)"

abbreviation on_map4 :: "(BpfLpmMap \<times> 'k, 'a) pym \<Rightarrow> (BpfRiskMaps \<times> 'k, 'a) pym" where
  "on_map4 \<equiv> on_part rm_map4 rm_map4_update"

abbreviation on_cfg :: "(BpfRuntimeConfigMap \<times> 'k, 'a) pym \<Rightarrow> (BpfRiskMaps \<times> 'k, 'a) pym" where
  "on_cfg \<equiv> on_part rm_runtime_cfg rm_runtime_cfg_update"

definition log_error :: "string \<Rightarrow> (BpfRiskMaps \<times> 'k, unit) pym" where
  "log_error msg = set_obj (rm_errors_update (\<lambda>es. es @ [msg]))"

definition flags_with_active :: "bool \<Rightarrow> int \<Rightarrow> int" where
  "flags_with_active active flags =
     (if active then flags OR XDP_CFG_FLAG_ABUSEIPDB_ENABLED
      else flags AND NOT XDP_CFG_FLAG_ABUSEIPDB_ENABLED)"

definition risk_set_active :: "'k kernel \<Rightarrow> bool \<Rightarrow> (BpfRiskMaps \<times> 'k, unit) pym" where
  "risk_set_active K active =
     mbind (on_cfg (runtime_get_cfg_flags K)) (\<lambda>read.
     let flags = flags_with_active active (case read of None \<Rightarrow> 0 | Some f \<Rightarrow> f) in
     mbind (on_cfg (runtime_get K)) (\<lambda>timing.
     mbind (on_cfg (runtime_set K (case timing of None \<Rightarrow> replicate 8 0 | Some t \<Rightarrow> t) flags False)) (\<lambda>ok.
     if ok then ret () else raise_exn (OSError 0))))"

text \<open>\<open>_normalize_v4\<close>: \<open>seen\<close> is the set of the elements of the list built so far.\<close>

definition normalize_v4_entry :: "string \<Rightarrow> string list \<Rightarrow> string list res" where
  "normalize_v4_entry raw_ip normalized =
     (let val = str_strip raw_ip in
      if val = [] \<or> str_prefix ''#'' val then Inr normalized
      else if CHR '':'' \<in> set val
      then (case ipv6_network val of None \<Rightarrow> Inl ValueErr | Some _ \<Rightarrow> Inr normalized)
      else (case ipv4_network (if CHR ''/'' \<in> set val then val else val @ ''/32'') of
              None \<Rightarrow> Inl ValueErr
            | Some n \<Rightarrow>
                Inr (if ipv4_network_str n \<in> set normalized then normalized
                     else normalized @ [ipv4_network_str n])))"

definition normalize_v4 :: "string list \<Rightarrow> string list res" where
  "normalize_v4 ips = rfold normalize_v4_entry ips []"

text \<open>
  \<open>replace_all\<close>. What was added and removed so far are variables of the \<open>try\<close> block
  that its handler reads; they stand beside the object.
\<close>

record replace_run =
  rr_maps :: BpfRiskMaps
  rr_added :: "string list"
  rr_removed :: "string list"

abbreviation on_maps :: "(BpfRiskMaps \<times> 'k, 'a) pym \<Rightarrow> (replace_run \<times> 'k, 'a) pym" where
  "on_maps \<equiv> on_part rr_maps rr_maps_update"

definition stage_entry :: "'k kernel \<Rightarrow> string \<Rightarrow> (replace_run \<times> 'k, unit) pym" where
  "stage_entry K cidr =
     mbind (on_maps (on_map4 (lpm_set K cidr 1 False))) (\<lambda>ok.
     if ok then set_obj (rr_added_update (\<lambda>a. a @ [cidr])) else raise_exn RuntimeErr)"

definition remove_entry :: "'k kernel \<Rightarrow> string \<Rightarrow> (replace_run \<times> 'k, unit) pym" where
  "remove_entry K cidr =
     mbind (on_maps (on_map4 (lpm_delete K cidr False))) (\<lambda>ok.
     if ok then set_obj (rr_removed_update (\<lambda>a. a @ [cidr])) else raise_exn RuntimeErr)"

definition replace_body :: "'k kernel \<Rightarrow> string set \<Rightarrow> string set \<Rightarrow> (replace_run \<times> 'k, unit) pym" where
  "replace_body K target previous =
     mseq (mfor (sorted_list_of_set (target - previous)) (stage_entry K))
    (mseq (mfor (sorted_list_of_set (previous - target)) (remove_entry K))
          (on_maps (risk_set_active K (target \<noteq> {}))))"

definition undo_stage :: "'k kernel \<Rightarrow> string \<Rightarrow> (BpfRiskMaps \<times> 'k, unit) pym" where
  "undo_stage K cidr =
     mbind (on_map4 (lpm_delete K cidr False)) (\<lambda>ok.
     if ok then ret () else log_error (''Failed to roll back staged AbuseIPDB entry '' @ cidr))"

definition undo_removal :: "'k kernel \<Rightarrow> string \<Rightarrow> (BpfRiskMaps \<times> 'k, unit) pym" where
  "undo_removal K cidr =
     mbind (on_map4 (lpm_set K cidr 1 False)) (\<lambda>ok.
     if ok then ret () else log_error (''Failed to restore AbuseIPDB entry '' @ cidr))"

definition replace_undo :: "'k kernel \<Rightarrow> bool \<Rightarrow> (replace_run \<times> 'k, unit) pym" where
  "replace_undo K previous_active =
     mbind (obj (\<lambda>m. (rr_added m, rr_removed m))) (\<lambda>(added, removed).
     on_maps
       (mseq (mfor (rev added) (undo_stage K))
       (mseq (mfor removed (undo_removal K))
             (mtry (risk_set_active K previous_active)
                (on_oserror (\<lambda>_. log_error ''Failed to restore AbuseIPDB active flag''))))))"

definition replace_tried :: "'k kernel \<Rightarrow> string set \<Rightarrow> string set \<Rightarrow> bool \<Rightarrow> (replace_run \<times> 'k, unit) pym" where
  "replace_tried K target previous previous_active =
     mtry (replace_body K target previous)
       (\<lambda>e. if e = OutOfFuel then None else Some (mseq (replace_undo K previous_active) (raise_exn e)))"

definition replace_all :: "'k kernel \<Rightarrow> string list \<Rightarrow> (BpfRiskMaps \<times> 'k, nat) pym" where
  "replace_all K ips =
     mbind (mlift (normalize_v4 ips)) (\<lambda>entries.
     mbind (on_map4 (obj lm_cache)) (\<lambda>previous.
     mbind (on_cfg (runtime_get_cfg_flags K)) (\<lambda>read.
     let previous_active = (case read of None \<Rightarrow> 0 | Some f \<Rightarrow> f) AND XDP_CFG_FLAG_ABUSEIPDB_ENABLED \<noteq> 0 in
     mseq (\<lambda>(m, k). case replace_tried K (set entries) previous previous_active
                       (\<lparr>rr_maps = m, rr_added = [], rr_removed = []\<rparr>, k) of
                     (r, (run, k')) \<Rightarrow> (r, (rr_maps run, k')))
          (ret (card (set entries))))))"

definition clear_all :: "'k kernel \<Rightarrow> (BpfRiskMaps \<times> 'k, unit) pym" where
  "clear_all K = mseq (replace_all K []) (ret ())"

section \<open>AbuseIPDBSyncer\<close>

text \<open>\<open>as_thread\<close> is the background thread, with the answer of its \<open>is_alive\<close>.\<close>

record AbuseIPDBSyncer =
  as_maps :: BpfRiskMaps
  as_base_url :: string
  as_sources :: "string list"
  as_refresh_seconds :: pyfloat
  as_stop :: bool
  as_thread :: "bool option"

text \<open>\<open>max(refresh_seconds, 60.0)\<close> keeps its first argument unless the second is larger.\<close>

definition syncer_init :: "BpfRiskMaps \<Rightarrow> string \<Rightarrow> string list option \<Rightarrow> pyfloat \<Rightarrow> AbuseIPDBSyncer" where
  "syncer_init maps base_url sources refresh_seconds =
     \<lparr>as_maps = maps, as_base_url = base_url,
      as_sources = (case sources of None \<Rightarrow> [''s1003d''] | Some s \<Rightarrow> s),
      as_refresh_seconds = (if flt_lt refresh_seconds (Fin 60) then Fin 60 else refresh_seconds),
      as_stop = False, as_thread = None\<rparr>"

definition syncer_start :: "AbuseIPDBSyncer \<Rightarrow> AbuseIPDBSyncer" where
  "syncer_start s = (if as_thread s = Some True then s else s\<lparr>as_stop := False, as_thread := Some True\<rparr>)"

definition syncer_stop :: "AbuseIPDBSyncer \<Rightarrow> AbuseIPDBSyncer" where
  "syncer_stop s = s\<lparr>as_stop := True, as_thread := None\<rparr>"

text \<open>The addresses of all sources, each once, in the order they are first named.\<close>

fun fetch_all :: "(string \<Rightarrow> ('k, string) pym) \<Rightarrow> string \<Rightarrow> string list \<Rightarrow> string list \<Rightarrow> ('k, string list) pym" where
  "fetch_all http base_url [] ips = ret ips"
| "fetch_all http base_url (src # srcs) ips =
     mbind (fetch_blocklist http src base_url) (\<lambda>fetched.
     fetch_all http base_url srcs
       (fold (\<lambda>ip acc. if ip \<in> set acc then acc else acc @ [ip]) fetched ips))"

text \<open>\<open>except (OSError, ValueError, RuntimeError)\<close>\<close>

fun is_update_error :: "py_exn \<Rightarrow> bool" where
  "is_update_error (OSError n) = True"
| "is_update_error ValueErr = True"
| "is_update_error RuntimeErr = True"
| "is_update_error _ = False"

definition syncer_refresh :: "'k kernel \<Rightarrow> (string \<Rightarrow> ('k, string) pym) \<Rightarrow> (AbuseIPDBSyncer \<times> 'k, unit) pym" where
  "syncer_refresh K http =
     mbind (obj (\<lambda>s. (as_base_url s, as_sources s))) (\<lambda>(base_url, sources).
     mbind (kern (fetch_all http base_url sources [])) (\<lambda>ips.
     if ips = [] then ret ()
     else on_part as_maps as_maps_update
       (mtry (mseq (replace_all K ips) (ret ()))
          (\<lambda>e. if is_update_error e then Some (log_error ''AbuseIPDB map update failed'') else None))))"

text \<open>
  \<open>_run\<close>: \<open>wait\<close> is \<open>self._stop.wait(seconds)\<close>, which tells whether \<open>stop\<close> was called.
  The thread runs until then; \<open>fuel\<close> bounds the turns that are looked at.
\<close>

fun syncer_run ::
  "nat \<Rightarrow> 'k kernel \<Rightarrow> (string \<Rightarrow> ('k, string) pym) \<Rightarrow> (pyfloat \<Rightarrow> ('k, bool) pym) \<Rightarrow>
     (AbuseIPDBSyncer \<times> 'k, unit) pym" where
  "syncer_run 0 K http wait = raise_exn OutOfFuel"
| "syncer_run (Suc fuel) K http wait =
     mbind (obj as_stop) (\<lambda>stopped.
     if stopped then ret ()
     else mseq (syncer_refresh K http)
         (mbind (obj as_refresh_seconds) (\<lambda>seconds.
          mbind (kern (wait seconds)) (\<lambda>stopped.
          mseq (set_obj (as_stop_update (\<lambda>_. stopped)))
               (syncer_run fuel K http wait)))))"

section \<open>The feed in the XDP backend\<close>

text \<open>
  The last part of \<open>XdpBackend.__init__\<close>: without the map or the runtime configuration there
  is no feed. \<open>close\<close> stops the thread before it closes the map.
\<close>

definition backend_abuse_init ::
  "nat \<Rightarrow> 'k kernel \<Rightarrow> Config \<Rightarrow> BpfRuntimeConfigMap option \<Rightarrow>
     ('k, BpfRiskMaps option \<times> AbuseIPDBSyncer option) pym" where
  "backend_abuse_init fuel K c runtime =
     (case runtime of
        None \<Rightarrow> ret (None, None)
      | Some rt \<Rightarrow>
          mtry (mbind (risk_init fuel K (ABUSEIPDB_RISK_MAP_PATH4 (map_paths c)) rt) (\<lambda>maps.
                ret (Some maps,
                  if ABUSEIPDB_ENABLED c
                  then Some (syncer_start (syncer_init maps (ABUSEIPDB_BASE_URL c)
                         (Some (ABUSEIPDB_SOURCES c)) (ABUSEIPDB_REFRESH_SECONDS c)))
                  else None)))
            (on_oserror (\<lambda>_. ret (None, None))))"

definition backend_abuse_close ::
  "'k kernel \<Rightarrow> ((BpfRiskMaps option \<times> AbuseIPDBSyncer option) \<times> 'k, unit) pym" where
  "backend_abuse_close K =
     mseq (set_obj (\<lambda>(maps, syncer). (maps, map_option syncer_stop syncer)))
    (mbind (obj fst) (\<lambda>maps.
       case maps of
         None \<Rightarrow> ret ()
       | Some _ \<Rightarrow> on_part (\<lambda>p. the (fst p)) (\<lambda>f p. (map_option f (fst p), snd p)) (risk_close K)))"

end
