(* ===== verification/PyHoare.thy ===== *)
theory PyHoare
  imports BpfKernel
begin

text \<open>
  A Hoare logic for statements that may raise: \<open>valid P m Q R\<close> says that from a
  state with \<open>P\<close> the statement \<open>m\<close> returns a value and a state with \<open>Q\<close>, or raises an
  exception in a state with \<open>R\<close>.
\<close>

section \<open>A logic for exceptions\<close>

definition valid :: "('s \<Rightarrow> bool) \<Rightarrow> ('s, 'a) pym \<Rightarrow> ('a \<Rightarrow> 's \<Rightarrow> bool) \<Rightarrow> (py_exn \<Rightarrow> 's \<Rightarrow> bool) \<Rightarrow> bool" where
  "valid P m Q R \<longleftrightarrow> (\<forall>s. P s \<longrightarrow> (case m s of (Inl e, t) \<Rightarrow> R e t | (Inr x, t) \<Rightarrow> Q x t))"

lemma validI:
  "(\<And>s e t. P s \<Longrightarrow> m s = (Inl e, t) \<Longrightarrow> R e t) \<Longrightarrow> (\<And>s x t. P s \<Longrightarrow> m s = (Inr x, t) \<Longrightarrow> Q x t) \<Longrightarrow> valid P m Q R"
  by (auto simp: valid_def split: prod.splits sum.splits)

lemma validD1: "valid P m Q R \<Longrightarrow> P s \<Longrightarrow> m s = (Inl e, t) \<Longrightarrow> R e t"
  by (fastforce simp: valid_def)

lemma validD2: "valid P m Q R \<Longrightarrow> P s \<Longrightarrow> m s = (Inr x, t) \<Longrightarrow> Q x t"
  by (fastforce simp: valid_def)

lemma valid_ret: "(\<And>s. P s \<Longrightarrow> Q x s) \<Longrightarrow> valid P (ret x) Q R"
  by (simp add: valid_def ret_def)

lemma valid_bind: "valid P m Q' R \<Longrightarrow> (\<And>x. valid (Q' x) (f x) Q R) \<Longrightarrow> valid P (mbind m f) Q R"
  unfolding valid_def mbind_def by (fastforce split: prod.splits sum.splits)

lemma valid_seq: "valid P m (\<lambda>_. Q') R \<Longrightarrow> valid Q' n Q R \<Longrightarrow> valid P (mseq m n) Q R"
  unfolding mseq_def by (rule valid_bind)

lemma valid_obj: "(\<And>x. valid (\<lambda>s. P s \<and> x = f (fst s)) (g x) Q R) \<Longrightarrow> valid P (mbind (obj f) g) Q R"
  by (simp add: valid_def obj_def)

lemma valid_set_obj: "(\<And>s. P s \<Longrightarrow> Q () (f (fst s), snd s)) \<Longrightarrow> valid P (set_obj f) Q R"
  by (simp add: valid_def set_obj_def)

lemma valid_when: "valid (\<lambda>s. P s \<and> b) m (\<lambda>_. Q) R \<Longrightarrow> (\<And>s. P s \<Longrightarrow> \<not> b \<Longrightarrow> Q s) \<Longrightarrow> valid P (mwhen b m) (\<lambda>_. Q) R"
  by (cases b) (simp_all add: mwhen_def valid_ret)

lemma valid_if: "valid (\<lambda>s. P s \<and> b) m Q R \<Longrightarrow> valid (\<lambda>s. P s \<and> \<not> b) n Q R \<Longrightarrow> valid P (if b then m else n) Q R"
  by (cases b) simp_all

lemma valid_try:
  assumes "valid P m Q R'"
    and "\<And>e h'. h e = Some h' \<Longrightarrow> valid (R' e) h' Q R" and "\<And>e s. h e = None \<Longrightarrow> R' e s \<Longrightarrow> R e s"
  shows "valid P (mtry m h) Q R"
proof (rule validI)
  fix s e t
  assume s: "P s" and run: "mtry m h s = (Inl e, t)"
  from run obtain e' t' where m: "m s = (Inl e', t')"
    by (auto simp: mtry_def split: prod.splits sum.splits)
  have R': "R' e' t'" using validD1 [OF assms(1) s m] .
  show "R e t"
    using run m R' assms(3) validD1 [OF assms(2)] by (cases "h e'") (auto simp: mtry_def)
next
  fix s x t
  assume s: "P s" and run: "mtry m h s = (Inr x, t)"
  show "Q x t"
  proof (cases "m s")
    case (Pair r t')
    show ?thesis
    proof (cases r)
      case (Inl e')
      with Pair have R': "R' e' t'" using validD1 [OF assms(1) s] by simp
      then show ?thesis using run Pair Inl validD2 [OF assms(2)] by (cases "h e'") (auto simp: mtry_def)
    next
      case (Inr y)
      then show ?thesis using run Pair validD2 [OF assms(1) s] by (simp add: mtry_def)
    qed
  qed
qed

lemma valid_weaken:
  "valid P' m Q' R' \<Longrightarrow> (\<And>s. P s \<Longrightarrow> P' s) \<Longrightarrow> (\<And>x s. Q' x s \<Longrightarrow> Q x s) \<Longrightarrow> (\<And>e s. R' e s \<Longrightarrow> R e s) \<Longrightarrow> valid P m Q R"
  unfolding valid_def by (fastforce split: prod.splits sum.splits)

text \<open>A statement on the world alone.\<close>

lemma valid_kern:
  assumes "\<And>k e k'. p k = (Inl e, k') \<Longrightarrow> E e" "\<And>s k k'. P (s, k) \<Longrightarrow> P (s, k')" "\<And>e s. E e \<Longrightarrow> P s \<Longrightarrow> R e s"
    "\<And>x s. P s \<Longrightarrow> Q x s"
  shows "valid P (kern p) Q R"
  using assms by (fastforce simp: valid_def kern_def split: prod.splits sum.splits)


lemma valid_ex:
  assumes "\<And>x. valid (P x) m Q R"
  shows "valid (\<lambda>s. \<exists>x. P x s) m Q R"
  by (rule validI) (use validD1 [OF assms] validD2 [OF assms] in blast)+

lemma valid_pre: "(b \<Longrightarrow> valid P m Q R) \<Longrightarrow> valid (\<lambda>s. b \<and> P s) m Q R"
  by (auto simp: valid_def)

lemma valid_kern_view:
  assumes "valid P p Q R"
  shows "valid (\<lambda>s. F (fst s) \<and> P (snd s)) (kern p) (\<lambda>x s. F (fst s) \<and> Q x (snd s)) (\<lambda>e s. F (fst s) \<and> R e (snd s))"
  using assms by (auto simp: valid_def kern_def split: prod.splits sum.splits)

lemma valid_kern_snd: "valid P p Q R \<Longrightarrow> valid (\<lambda>s. P (snd s)) (kern p) (\<lambda>x s. Q x (snd s)) (\<lambda>e s. R e (snd s))"
  using valid_kern_view [of P p Q R "\<lambda>_. True"] by simp

lemma valid_gets: "(\<And>x. valid (\<lambda>s. x = f s \<and> P s) (g x) Q R) \<Longrightarrow> valid P (mbind (gets f) g) Q R"
  by (simp add: valid_def)

lemma valid_raise: "(\<And>s. P s \<Longrightarrow> R e s) \<Longrightarrow> valid P (raise_exn e) Q R"
  by (simp add: valid_def raise_exn_def)

lemma valid_False: "valid (\<lambda>s. False) m Q R"
  by (simp add: valid_def)

text \<open>A loop, with an invariant over the elements that are done.\<close>

lemma valid_for:
  assumes "\<And>x pre post. xs = pre @ x # post \<Longrightarrow> valid (I pre) (f x) (\<lambda>_. I (pre @ [x])) R"
  shows "valid (I []) (mfor xs f) (\<lambda>_. I xs) R"
proof -
  have part: "valid (I pre) (mfor ys f) (\<lambda>_. I xs) R" if "xs = pre @ ys" for pre ys
    using that
  proof (induction ys arbitrary: pre)
    case Nil
    then show ?case by (simp add: valid_ret)
  next
    case (Cons y ys)
    show ?case
      unfolding mfor.simps
      using valid_seq [OF assms [OF Cons.prems]] Cons.IH [of "pre @ [y]"] Cons.prems by simp
  qed
  show ?thesis by (rule part) simp
qed

end
