(* ===== verification/BpfFrames.thy ===== *)
theory BpfFrames
  imports BpfAddrMaps
begin

text \<open>
  What the methods of the map classes leave alone. \<open>tame entries T X p\<close>: as long as the
  object's own descriptors, the first part of the view \<open>X\<close>, avoid the set \<open>T\<close>,
  the method \<open>p\<close> changes no map of \<open>T\<close> and keeps the whole view.
\<close>

named_theorems tame_rules \<open>composition of tame methods\<close>

definition tame ::
  "('k \<Rightarrow> int \<Rightarrow> (bytes, bytes) dict) \<Rightarrow> int set \<Rightarrow> ('m \<Rightarrow> int set \<times> 'y) \<Rightarrow> ('m \<times> 'k, 'a) pym \<Rightarrow> bool" where
  "tame entries T X p \<longleftrightarrow>
     (\<forall>m k r m' k'. fst (X m) \<inter> T = {} \<longrightarrow> p (m, k) = (r, (m', k')) \<longrightarrow>
        X m' = X m \<and> seen entries T k' = seen entries T k)"

lemma tameD:
  assumes "tame entries T X p" and "fst (X m) \<inter> T = {}" and "p (m, k) = (r, (m', k'))"
  shows "X m' = X m" and "seen entries T k' = seen entries T k"
  using assms by (auto simp: tame_def)

lemma tame_ret [tame_rules]: "tame entries T X (ret x)"
  by (auto simp: tame_def)

lemma tame_raise [tame_rules]: "tame entries T X (raise_exn e)"
  by (auto simp: tame_def)

lemma tame_mlift [tame_rules]: "tame entries T X (mlift r)"
  by (auto simp: tame_def)

lemma tame_set_obj: "(\<And>m. X (f m) = X m) \<Longrightarrow> tame entries T X (set_obj f)"
  by (auto simp: tame_def set_obj_def)

lemma tame_kern: "keeps (seen entries T) p \<Longrightarrow> tame entries T X (kern p)"
  by (auto simp: tame_def kern_def keeps_def split: prod.splits) (metis snd_conv)+

lemma tame_bind [tame_rules]:
  assumes "tame entries T X p" and "\<And>x. tame entries T X (f x)"
  shows "tame entries T X (mbind p f)"
  unfolding tame_def
proof (intro allI impI)
  fix m k r m' k'
  assume safe: "fst (X m) \<inter> T = {}" and run: "mbind p f (m, k) = (r, (m', k'))"
  obtain q m1 k1 where p: "p (m, k) = (q, (m1, k1))" by (metis surj_pair)
  note 1 = tameD [OF assms(1) safe p]
  show "X m' = X m \<and> seen entries T k' = seen entries T k"
  proof (cases q)
    case (Inl e)
    with run p 1 show ?thesis by (simp add: mbind_def)
  next
    case (Inr x)
    with run p have "f x (m1, k1) = (r, (m', k'))" by (simp add: mbind_def)
    with tameD [OF assms(2)] 1 safe show ?thesis by metis
  qed
qed

lemma tame_obj_bind:
  assumes "\<And>m. fst (X m) \<inter> T = {} \<Longrightarrow> tame entries T X (g (f m))"
  shows "tame entries T X (mbind (obj f) g)"
  unfolding tame_def
proof (intro allI impI)
  fix m k r m' k'
  assume safe: "fst (X m) \<inter> T = {}" and run: "mbind (obj f) g (m, k) = (r, (m', k'))"
  from run have "g (f m) (m, k) = (r, (m', k'))" by (simp add: obj_def)
  with tameD [OF assms [OF safe] safe] show "X m' = X m \<and> seen entries T k' = seen entries T k" by blast
qed

lemma tame_kern_bind:
  assumes "keeps (seen entries T) p" and "\<And>x k k'. p k = (Inr x, k') \<Longrightarrow> tame entries T X (f x)"
  shows "tame entries T X (mbind (kern p) f)"
  unfolding tame_def
proof (intro allI impI)
  fix m k r m' k'
  assume safe: "fst (X m) \<inter> T = {}" and run: "mbind (kern p) f (m, k) = (r, (m', k'))"
  obtain q k1 where p: "p k = (q, k1)" by (cases "p k")
  have 1: "seen entries T k1 = seen entries T k" using keepsD [OF assms(1), of k] p by simp
  show "X m' = X m \<and> seen entries T k' = seen entries T k"
  proof (cases q)
    case (Inl e)
    with run p 1 show ?thesis by (simp add: mbind_def kern_def)
  next
    case (Inr x)
    with run p have "f x (m, k1) = (r, (m', k'))" by (simp add: mbind_def kern_def)
    with tameD [OF assms(2) [OF p [unfolded Inr]] safe] 1 show ?thesis by metis
  qed
qed

lemma tame_obj [tame_rules]: "tame entries T X (obj f)"
  by (auto simp: tame_def obj_def)

lemma tame_seq [tame_rules]: "tame entries T X p \<Longrightarrow> tame entries T X q \<Longrightarrow> tame entries T X (mseq p q)"
  by (simp add: mseq_def tame_bind)

lemma tame_for [tame_rules]: "(\<And>x. tame entries T X (f x)) \<Longrightarrow> tame entries T X (mfor xs f)"
  by (induction xs) (simp_all add: tame_ret tame_seq)

lemma tame_seqs [tame_rules]: "(\<And>p. p \<in> set ps \<Longrightarrow> tame entries T X p) \<Longrightarrow> tame entries T X (mseqs ps)"
  by (induction ps) (simp_all add: tame_ret tame_seq)

lemma tame_when [tame_rules]: "tame entries T X p \<Longrightarrow> tame entries T X (mwhen b p)"
  by (simp add: mwhen_def tame_ret)

lemma tame_if [tame_rules]:
  "(b \<Longrightarrow> tame entries T X p) \<Longrightarrow> (\<not> b \<Longrightarrow> tame entries T X q) \<Longrightarrow> tame entries T X (if b then p else q)"
  by simp

lemma tame_option [tame_rules]:
  "tame entries T X p \<Longrightarrow> (\<And>x. tame entries T X (f x)) \<Longrightarrow>
   tame entries T X (case v of None \<Rightarrow> p | Some x \<Rightarrow> f x)"
  by (cases v) simp_all

lemma tame_prod [tame_rules]:
  "(\<And>x y. tame entries T X (f x y)) \<Longrightarrow> tame entries T X (case v of (x, y) \<Rightarrow> f x y)"
  by (cases v) simp

lemma tame_try [tame_rules]:
  assumes "tame entries T X p" and "\<And>n. tame entries T X (h n)"
  shows "tame entries T X (mtry p (on_oserror h))"
  unfolding tame_def
proof (intro allI impI)
  fix m k r m' k'
  assume safe: "fst (X m) \<inter> T = {}" and run: "mtry p (on_oserror h) (m, k) = (r, (m', k'))"
  obtain q m1 k1 where p: "p (m, k) = (q, (m1, k1))" by (metis surj_pair)
  note 1 = tameD [OF assms(1) safe p]
  show "X m' = X m \<and> seen entries T k' = seen entries T k"
  proof (cases "\<exists>n. q = Inl (OSError n)")
    case True
    then obtain n where "q = Inl (OSError n)" by blast
    with run p have "h n (m1, k1) = (r, (m', k'))" by (simp add: mtry_def)
    with tameD [OF assms(2)] 1 safe show ?thesis by metis
  next
    case False
    have "(m', k') = (m1, k1)"
    proof (cases q)
      case (Inl e)
      with False run p show ?thesis by (cases e) (auto simp: mtry_def)
    qed (use run p in \<open>simp add: mtry_def\<close>)
    with 1 show ?thesis by simp
  qed
qed

text \<open>A method of a part is tame for the whole.\<close>

lemma tame_on_part:
  assumes "tame entries T X p"
    and "\<And>b. fst (X (sel b)) \<subseteq> fst (Y b)"
    and "\<And>b m. X m = X (sel b) \<Longrightarrow> Y (upd (\<lambda>_. m) b) = Y b"
  shows "tame entries T Y (on_part sel upd p)"
  unfolding tame_def
proof (intro allI impI)
  fix b k r b' k'
  assume safe: "fst (Y b) \<inter> T = {}" and run: "on_part sel upd p (b, k) = (r, (b', k'))"
  obtain m' where p: "p (sel b, k) = (r, (m', k'))" and b': "b' = upd (\<lambda>_. m') b"
    using run by (auto simp: on_part_def split: prod.splits)
  have "fst (X (sel b)) \<inter> T = {}" using safe assms(2) by blast
  from tameD [OF assms(1) this p] b' assms(3) show "Y b' = Y b \<and> seen entries T k' = seen entries T k"
    by simp
qed

lemma tame_obj_bind_fd:
  assumes "\<And>m. f m \<in> fst (X m)" and "\<And>fd. fd \<notin> T \<Longrightarrow> tame entries T X (g fd)"
  shows "tame entries T X (mbind (obj f) g)"
  by (rule tame_obj_bind) (use assms in blast)

context bpf_kernel
begin

lemma seen_read:
  assumes "T \<subseteq> owned"
  shows "keeps (seen entries T) (bpf (sys_lookup K fd key flags))"
    "keeps (seen entries T) (bpf (sys_next_key K fd cur))"
    "keeps (seen entries T) (bpf (sys_info K fd))"
    "keeps (seen entries T) (bpf (sys_map_create K attr name))"
    "keeps (seen entries T) (bpf (sys_fd_by_id K attr))"
    "keeps (seen entries T) (bpf (sys_obj_get K path))"
    "keeps (seen entries T) (lookup_batch K fd n)"
    "keeps (seen entries T) (monotonic_ns K)"
proof -
  show "keeps (seen entries T) (lookup_batch K fd n)"
  proof (rule keeps_seen_mono [OF _ assms])
    show "keeps (seen entries owned) (lookup_batch K fd n)"
      using batch_frame by (auto simp: keeps_def lookup_batch_def seen_eq_iff split: prod.splits) (metis snd_conv)
  qed
  show "keeps (seen entries T) (monotonic_ns K)"
  proof (rule keeps_seen_mono [OF _ assms])
    show "keeps (seen entries owned) (monotonic_ns K)"
      using clock_frame by (auto simp: keeps_def monotonic_ns_def seen_eq_iff split: prod.splits) (metis snd_conv)
  qed
qed (rule keeps_seen_mono [OF _ assms], rule seen_calls)+

lemma seen_write:
  assumes "T \<subseteq> owned" and "fd \<notin> T"
  shows "keeps (seen entries T) (bpf (sys_update K fd key val flags))"
    "keeps (seen entries T) (bpf (sys_delete K fd key))"
    "keeps (seen entries T) (os_close K fd)"
  using assms by (auto intro: keeps_seen_mono [OF seen_calls(7)] keeps_seen_mono [OF seen_calls(8)]
      keeps_seen_mono [OF seen_close])

lemma guarded_update_tame:
  assumes "T \<subseteq> owned" and "fd \<notin> T" and "\<And>m. X (upd m) = X m"
  shows "tame entries T X (guarded_update K dry fd flags kv upd)"
  unfolding guarded_update_def
  by (intro tame_rules tame_kern tame_set_obj seen_write assms)

lemma guarded_delete_tame:
  assumes "T \<subseteq> owned" and "fd \<notin> T" and "\<And>m. X (upd m) = X m"
  shows "tame entries T X (guarded_delete K dry fd key upd)"
  unfolding guarded_delete_def
  by (intro tame_rules tame_kern tame_set_obj seen_write assms)

lemma array_set_tame:
  assumes "T \<subseteq> owned"
  shows "tame entries T (\<lambda>m. ({am_fd m}, ())) (array_set K port val dry)"
  unfolding array_set_def
  by (intro tame_obj_bind_fd guarded_update_tame assms) simp_all

lemma runtime_get_tame:
  assumes "T \<subseteq> owned"
  shows "tame entries T X (runtime_get K)" "tame entries T Y (runtime_get_cfg_flags K)"
    "tame entries T Z (global_rl_get K)"
  unfolding runtime_get_def runtime_get_cfg_flags_def runtime_lookup_raw_def global_rl_get_def
  by (intro tame_rules tame_kern seen_read assms)+

lemma runtime_set_tame:
  assumes "T \<subseteq> owned"
  shows "tame entries T (\<lambda>m. ({rc_fd m}, ())) (runtime_set K fs cfg_flags dry)"
  unfolding runtime_set_def
  by (intro tame_obj_bind_fd guarded_update_tame assms) simp_all

lemma global_rl_set_tame:
  assumes "T \<subseteq> owned"
  shows "tame entries T (\<lambda>m. ({gr_fd m}, ())) (global_rl_set K rate dry)"
  unfolding global_rl_set_def
  by (intro tame_obj_bind_fd guarded_update_tame assms) simp_all

lemma policy_set_fields_tame:
  assumes "T \<subseteq> owned"
  shows "tame entries T (\<lambda>m. ({pp_fd m}, ())) (policy_set_fields K port fs dry)"
  unfolding policy_set_fields_def
  by (intro tame_obj_bind_fd guarded_update_tame assms) simp_all

lemma policy_delete_tame:
  assumes "T \<subseteq> owned"
  shows "tame entries T (\<lambda>m. ({pp_fd m}, ())) (policy_delete K port dry)"
  unfolding policy_delete_def
  by (intro tame_obj_bind_fd guarded_delete_tame assms) simp_all

lemma policy_ensure_prefixes_tame:
  assumes "T \<subseteq> owned"
  shows "tame entries T (\<lambda>m. ({pp_fd m}, ())) (policy_ensure_prefixes K ports p4 p6 dry)"
  unfolding policy_ensure_prefixes_def
  by (intro tame_rules policy_set_fields_tame assms)

lemma view_tame:
  assumes "T \<subseteq> owned"
  shows "tame entries T (\<lambda>m. ({pp_fd m}, ())) (view_set K c i port rate dry)"
    "tame entries T (\<lambda>m. ({pp_fd m}, ())) (view_delete K i port dry)"
  unfolding view_set_def view_delete_def view_write_def
  by (intro tame_rules policy_set_fields_tame policy_delete_tame assms)+

lemma sit4_tame:
  assumes "T \<subseteq> owned"
  shows "tame entries T (\<lambda>m. ({si_fd m}, ())) (sit4_set K ip dry)"
    "tame entries T (\<lambda>m. ({si_fd m}, ())) (sit4_delete K ip dry)"
  unfolding sit4_set_def sit4_delete_def
  by (intro tame_obj_bind_fd guarded_update_tame guarded_delete_tame assms; simp)+

lemma lpm_tame:
  assumes "T \<subseteq> owned"
  shows "tame entries T (\<lambda>m. ({lm_fd m}, ())) (lpm_set K cidr val dry)"
    "tame entries T (\<lambda>m. ({lm_fd m}, ())) (lpm_delete K cidr dry)"
  unfolding lpm_set_def lpm_delete_def
  by (intro tame_rules tame_obj_bind tame_kern tame_set_obj seen_write assms; simp)+

lemma acl_tame:
  assumes "T \<subseteq> owned"
  shows "tame entries T (\<lambda>m. ({ac_fd m}, ())) (acl_set K cidr ports dry)"
    "tame entries T (\<lambda>m. ({ac_fd m}, ())) (acl_delete K cidr dry)"
  unfolding acl_set_def acl_delete_def
  by (intro tame_rules tame_obj_bind tame_kern tame_set_obj seen_write assms; simp)+

lemma conntrack_delete_tame:
  assumes "T \<subseteq> owned"
  shows "tame entries T (\<lambda>m. ({ct_fd m}, ())) (conntrack_delete K key dry)"
  unfolding conntrack_delete_def
  by (intro tame_obj_bind_fd guarded_delete_tame assms; simp)

lemma delete_each_tame:
  assumes "T \<subseteq> owned"
  shows "tame entries T (\<lambda>m. ({ct_fd m}, ())) (delete_each K keys dry n)"
  by (induction keys arbitrary: n) (simp_all add: tame_ret tame_bind conntrack_delete_tame [OF assms])

lemma conntrack_tame:
  assumes "T \<subseteq> owned"
  shows "tame entries T (\<lambda>m. ({ct_fd m}, ())) (conntrack_set K key dry)"
    "tame entries T (\<lambda>m. ({ct_fd m}, ())) (conntrack_delete_dest_ports it K ports dry)"
  unfolding conntrack_set_def conntrack_delete_dest_ports_def
  by (intro tame_rules tame_obj_bind_fd guarded_update_tame delete_each_tame tame_kern seen_read assms; simp)+

lemma conntrack_existing_tame:
  assumes "T \<subseteq> owned"
  shows "tame entries T (\<lambda>m. ({ct_fd m}, ())) (conntrack_existing_keys it K keys)"
proof -
  have "tame entries T (\<lambda>m. ({ct_fd m}, ())) (conntrack_probe_key K key)" for key
    unfolding conntrack_probe_key_def
    by (intro tame_rules tame_kern tame_set_obj seen_read assms; simp)
  then have "tame entries T (\<lambda>m. ({ct_fd m}, ())) (conntrack_existing K ks present)" for ks present
    by (induction ks arbitrary: present) (simp_all add: tame_ret tame_bind)
  then show ?thesis by (simp add: conntrack_existing_keys_def)
qed

text \<open>Creating an inner map and storing it in its slot.\<close>

lemma keeps_create_inner: "T \<subseteq> owned \<Longrightarrow> keeps (seen entries T) (outer_create_inner K m port capacity)"
  unfolding outer_create_inner_def map_create_def
  by (intro keeps_rules seen_read)

lemma create_inner_fresh: "outer_create_inner K m port capacity k = (Inr (Some fd), k') \<Longrightarrow> fd \<notin> owned"
  by (auto simp: outer_create_inner_def map_create_def mtry_def mbind_def bpf_def create_fresh
      split: sum.splits prod.splits option.splits elim!: on_oserror.elims)

lemma keeps_update_slot:
  assumes "T \<subseteq> owned" and "fd \<notin> T" and "inner_fd \<notin> T"
  shows "keeps (seen entries T) (mfinally (outer_update_slot K fd port inner_fd) (sys_close K inner_fd))"
proof -
  have slot: "keeps (seen entries T) (outer_update_slot K fd port inner_fd)"
    unfolding outer_update_slot_def by (intro keeps_rules seen_write assms)
  have "seen entries T (sys_close K inner_fd k) = seen entries T k" for k
    using assms close_frame [of _ inner_fd k] by (auto simp: seen_eq_iff)
  with keepsD [OF slot] show ?thesis by (auto simp: keeps_def mfinally_def split: prod.splits) (metis snd_conv)
qed

lemma outer_set_tame:
  assumes "T \<subseteq> owned"
  shows "tame entries T (\<lambda>m. ({ro_fd m}, ())) (outer_set K port capacity dry)"
  unfolding outer_set_def
proof (intro tame_obj_bind tame_if tame_ret tame_kern_bind keeps_create_inner assms)
  fix m x k k'
  assume safe: "fst ({ro_fd m}, ()) \<inter> T = {}"
    and inner: "outer_create_inner K m port capacity k = (Inr x, k')"
  show "tame entries T (\<lambda>m. ({ro_fd m}, ())) (case x of None \<Rightarrow> ret False
      | Some inner_fd \<Rightarrow>
          mbind (kern (mfinally (outer_update_slot K (ro_fd m) port inner_fd) (sys_close K inner_fd))) (\<lambda>ok.
          if \<not> ok then ret False
          else mseq (set_obj (ro_cache_update (dict_set port capacity))) (ret True)))"
  proof (cases x)
    case (Some inner_fd)
    with inner create_inner_fresh assms have "inner_fd \<notin> T" by blast
    with Some safe show ?thesis
      by (auto intro!: tame_rules tame_kern tame_set_obj keeps_update_slot assms)
  qed (simp add: tame_ret)
qed

lemma outer_delete_tame:
  assumes "T \<subseteq> owned"
  shows "tame entries T (\<lambda>m. ({ro_fd m}, ())) (outer_delete K port dry)"
  unfolding outer_delete_def outer_delete_slot_def
  by (intro tame_obj_bind tame_rules tame_kern keeps_rules tame_set_obj seen_write assms; simp)

end

section \<open>The maps of two families\<close>

definition trusted_fds :: "BpfTrustedMaps \<Rightarrow> int set" where
  "trusted_fds t = {lm_fd (tr_map4 t), lm_fd (tr_map6 t)}"

definition conntrack_fds :: "BpfConntrackMaps \<Rightarrow> int set" where
  "conntrack_fds c = {ct_fd (cts_map4 c), ct_fd (cts_map6 c)}"

definition acl_fds :: "BpfAclMaps \<Rightarrow> int set" where
  "acl_fds a = {ac_fd (acl_tcp4 a), ac_fd (acl_tcp6 a), ac_fd (acl_udp4 a), ac_fd (acl_udp6 a)}"

abbreviation trusted_view :: "BpfTrustedMaps \<Rightarrow> int set \<times> int \<times> int" where
  "trusted_view t \<equiv> (trusted_fds t, lm_fd (tr_map4 t), lm_fd (tr_map6 t))"

abbreviation conntrack_view :: "BpfConntrackMaps \<Rightarrow> int set \<times> int \<times> int" where
  "conntrack_view c \<equiv> (conntrack_fds c, ct_fd (cts_map4 c), ct_fd (cts_map6 c))"

abbreviation acl_view :: "BpfAclMaps \<Rightarrow> int set \<times> int \<times> int \<times> int \<times> int" where
  "acl_view a \<equiv> (acl_fds a, ac_fd (acl_tcp4 a), ac_fd (acl_tcp6 a), ac_fd (acl_udp4 a), ac_fd (acl_udp6 a))"

lemma tame_conntrack_part:
  assumes "tame entries T (\<lambda>m. ({ct_fd m}, ())) p"
  shows "tame entries T conntrack_view (on_part cts_map4 cts_map4_update p)"
    "tame entries T conntrack_view (on_part cts_map6 cts_map6_update p)"
  by (rule tame_on_part [OF assms]; auto simp: conntrack_fds_def)+

lemma tame_trusted_part:
  assumes "tame entries T (\<lambda>m. ({lm_fd m}, ())) p"
  shows "tame entries T trusted_view (on_family cidr p)"
  unfolding on_family_def
  by (intro tame_if; rule tame_on_part [OF assms]; auto simp: trusted_fds_def)

lemma tame_acl_part:
  assumes "tame entries T (\<lambda>m. ({ac_fd m}, ())) p"
  shows "tame entries T acl_view (on_map_for proto cidr p)"
  unfolding on_map_for_def Let_def
  by (intro tame_if; rule tame_on_part [OF assms]; auto simp: acl_fds_def)

context bpf_kernel
begin

lemma trusted_tame:
  assumes "T \<subseteq> owned"
  shows "tame entries T trusted_view (trusted_set K cidr val dry)"
    "tame entries T trusted_view (trusted_delete K cidr dry)"
  unfolding trusted_set_def trusted_delete_def
  by (intro tame_trusted_part lpm_tame assms)+

lemma acls_tame:
  assumes "T \<subseteq> owned"
  shows "tame entries T acl_view (acls_set K proto cidr ports dry)"
    "tame entries T acl_view (acls_delete K proto cidr dry)"
  unfolding acls_set_def acls_delete_def
  by (intro tame_acl_part acl_tame assms)+

lemma conntracks_tame:
  assumes "T \<subseteq> owned"
  shows "tame entries T conntrack_view (conntracks_set K key dry)"
    "tame entries T conntrack_view (conntracks_delete K key dry)"
    "tame entries T conntrack_view (conntracks_delete_dest_ports it K ports dry)"
    "tame entries T conntrack_view (conntracks_existing_keys it K keys)"
  unfolding conntracks_set_def conntracks_delete_def conntracks_delete_dest_ports_def
    conntracks_existing_keys_def on_key_length_def
  by (intro tame_rules tame_conntrack_part conntrack_tame conntrack_delete_tame
      conntrack_existing_tame assms)+

end

end
