(* ===== verification/BpfMapProps.thy ===== *)
theory BpfMapProps
  imports BpfFrames
begin

text \<open>
  What the map classes promise: a cache that agrees with the kernel stays so
  whatever the kernel answers, \<open>verify\<close> repairs one that does not, the values of the
  structs are read back as they were written, and the scans of a map end with
  every key.
\<close>

section \<open>A small host\<close>

text \<open>
  The maps of the examples. Two whitelists of 65536 ports would be long to write
  down; the arrays behind descriptors 1 and 2 have two. Descriptor 5 is a flow table
  with an old and a recent flow.
\<close>

definition ex_array :: "int list \<Rightarrow> (bytes, bytes) dict" where
  "ex_array vals = map (\<lambda>i. (le_bytes 4 (int i), le_bytes 4 (vals ! i))) [0..<length vals]"

definition ex_flow :: "int \<Rightarrow> bytes" where
  "ex_flow port = rev (le_bytes 2 40000) @ rev (le_bytes 2 port) @ replicate 8 1"

definition ex_kernel :: "int option list \<Rightarrow> kstate" where
  "ex_kernel script = \<lparr>ks_data = [(1, ex_array [0, 1]), (2, ex_array [0, 0]),
       (5, [(ex_flow 1, le_bytes 8 10), (ex_flow 0, le_bytes 8 90)])],
     ks_max = map (\<lambda>fd. (fd, 2)) [1, 2, 3, 4, 5, 6, 7, 8, 9], ks_arrays = [1, 2], ks_pins = [],
     ks_next = 1000, ks_script = script, ks_clock = 100\<rparr>"

definition ex_whitelist :: "int \<Rightarrow> int set \<Rightarrow> BpfArrayMap" where
  "ex_whitelist fd cache = \<lparr>am_path = [], am_fd = fd, am_max_entries = 2, am_cache = cache\<rparr>"

definition ex_policy :: BpfPortPolicyMap where
  "ex_policy = \<lparr>pp_path = [], pp_fd = 9, pp_max_entries = 2, pp_cache = []\<rparr>"

definition ex_acl :: BpfAclMap where
  "ex_acl = \<lparr>ac_path = [], ac_fd = 3, ac_v6 = False, ac_cache = []\<rparr>"

definition ex_runtime :: BpfRuntimeConfigMap where
  "ex_runtime = \<lparr>rc_path = [], rc_fd = 4\<rparr>"

definition ex_ct :: "int \<Rightarrow> nat \<Rightarrow> BpfConntrackMap" where
  "ex_ct fd n = \<lparr>ct_path = [], ct_fd = fd, ct_key_len = n, ct_dport_offset = 2, ct_cache = {}\<rparr>"

definition ex_config :: Config where
  "ex_config = Config_init [] [] []"

lemma ex_sel [simp]:
  "am_fd (ex_whitelist fd cache) = fd" "am_cache (ex_whitelist fd cache) = cache"
  "am_max_entries (ex_whitelist fd cache) = 2" "pp_fd ex_policy = 9" "pp_cache ex_policy = []"
  "ac_fd ex_acl = 3" "rc_fd ex_runtime = 4" "ct_fd (ex_ct fd n) = fd"
  by (simp_all add: ex_whitelist_def ex_policy_def ex_acl_def ex_runtime_def ex_ct_def)

section \<open>Whitelists\<close>

text \<open>The ports a whitelist lets through: those with a non-zero value.\<close>

definition open_ports :: "(bytes, bytes) dict \<Rightarrow> int set" where
  "open_ports es = {p. \<exists>key v. pack_u32 p = Inr key \<and> dict_get es key = Some v \<and> int_of_le (take 4 v) \<noteq> 0}"

lemma open_ports_code [code]:
  "open_ports es =
     set (map (\<lambda>(key, v). int_of_le key)
       (filter (\<lambda>(key, v). length key = 4 \<and> dict_get es key = Some v \<and> int_of_le (take 4 v) \<noteq> 0) es))"
  (is "_ = ?R")
proof (intro set_eqI iffI)
  fix p
  assume "p \<in> open_ports es"
  then obtain key v where *: "pack_u32 p = Inr key" "dict_get es key = Some v" "int_of_le (take 4 v) \<noteq> 0"
    by (auto simp: open_ports_def)
  then have "length key = 4" "int_of_le key = p" "(key, v) \<in> set es"
    by (auto simp: pack_u32_def dest: pack_uint_length pack_uint_unpack map_of_SomeD)
  with * show "p \<in> ?R" by force
next
  fix p
  assume "p \<in> ?R"
  then show "p \<in> open_ports es"
    by (force simp: open_ports_def pack_u32_def intro: pack_uint_of_le)
qed

lemma open_ports_upd:
  assumes "pack_u32 port = Inr key" and "pack_u32 val = Inr v"
    and "dict_get es' = (dict_get es)(key \<mapsto> v)"
  shows "open_ports es' = (if val \<noteq> 0 then insert port (open_ports es) else open_ports es - {port})"
proof -
  have v: "length v = 4" "int_of_le v = val"
    using assms(2) by (auto simp: pack_u32_def dest: pack_uint_length pack_uint_unpack)
  have inj: "pack_u32 p = Inr key \<longleftrightarrow> p = port" for p
    using assms(1) by (auto simp: pack_u32_def dest: pack_uint_inj)
  have "port \<in> open_ports es' \<longleftrightarrow> val \<noteq> 0"
    by (simp add: open_ports_def assms(1,3) v)
  moreover have "p \<in> open_ports es' \<longleftrightarrow> p \<in> open_ports es" if "p \<noteq> port" for p
    using inj [of p] that by (auto simp: open_ports_def assms(3))
  ultimately have "p \<in> open_ports es' \<longleftrightarrow> (if p = port then val \<noteq> 0 else p \<in> open_ports es)" for p
    by (cases "p = port") simp_all
  then show ?thesis by (simp add: set_eq_iff)
qed

text \<open>The cache of a whitelist is the set of ports that are open in the kernel.\<close>

definition array_coherent :: "('k \<Rightarrow> int \<Rightarrow> (bytes, bytes) dict) \<Rightarrow> BpfArrayMap \<Rightarrow> 'k \<Rightarrow> bool" where
  "array_coherent entries m k \<longleftrightarrow> am_cache m = open_ports (entries k (am_fd m))"

context bpf_kernel
begin

lemma array_set_cases:
  assumes "am_fd m \<in> owned" and "array_set K port val dry (m, k) = (r, (m', k'))"
  shows "(r = Inr True \<and> \<not> dry \<and> m' = m\<lparr>am_cache := if val \<noteq> 0 then insert port (am_cache m) else am_cache m - {port}\<rparr> \<and>
      open_ports (entries k' (am_fd m)) =
        (if val \<noteq> 0 then insert port (open_ports (entries k (am_fd m))) else open_ports (entries k (am_fd m)) - {port})) \<or>
    ((r \<noteq> Inr True \<or> dry) \<and> m' = m \<and> entries k' (am_fd m) = entries k (am_fd m))"
proof (cases dry)
  case True
  with assms(2) show ?thesis by (simp add: array_set_def obj_def guarded_update_def)
next
  case False
  then have "guarded_update K False (am_fd m) 0 (pack_pair (pack_u32 port) (pack_u32 val))
      (am_cache_update (if val \<noteq> 0 then insert port else (\<lambda>c. c - {port}))) (m, k) = (r, (m', k'))"
    using assms(2) by (simp add: array_set_def obj_def)
  from guarded_update_cases [OF assms(1) this] show ?thesis
  proof (elim disjE exE conjE)
    fix key v
    assume kv: "pack_pair (pack_u32 port) (pack_u32 val) = Inr (key, v)" and "r = Inr True"
      and m': "m' = am_cache_update (if val \<noteq> 0 then insert port else (\<lambda>c. c - {port})) m"
      and es: "dict_get (entries k' (am_fd m)) = (dict_get (entries k (am_fd m)))(key \<mapsto> v)"
    from kv have "pack_u32 port = Inr key" "pack_u32 val = Inr v" by (auto simp: pack_pair_def rbind_Inr_conv)
    from open_ports_upd [OF this es] m' \<open>r = Inr True\<close> False show ?thesis by simp
  qed simp
qed

text \<open>Writing a port of a whitelist: what is open afterwards.\<close>

lemma array_set_open:
  assumes "am_fd m \<in> owned" and "array_set K port val dry (m, k) = (r, (m', k'))"
  shows "am_fd m' = am_fd m"
    and "open_ports (entries k' (am_fd m)) \<subseteq>
      open_ports (entries k (am_fd m)) \<union> (if val \<noteq> 0 \<and> \<not> dry then {port} else {})"
  using array_set_cases [OF assms] by (elim disjE; simp; fail | auto)+

lemma array_set_frame:
  assumes "T \<subseteq> owned" and "am_fd m \<notin> T" and "array_set K port val dry (m, k) = (r, (m', k'))"
  shows "seen entries T k' = seen entries T k"
  using tameD(2) [OF array_set_tame [OF assms(1)] _ assms(3)] assms(2) by simp

lemma array_set_keeps_coherent:
  assumes "am_fd m \<in> owned" and "array_coherent entries m k"
    and "array_set K port val dry (m, k) = (r, (m', k'))"
  shows "array_coherent entries m' k'"
  using array_set_cases [OF assms(1,3)] assms(2) by (elim disjE) (simp_all add: array_coherent_def)

text \<open>Reading a whitelist back, by a batch lookup or port by port.\<close>

lemma nonzero_ports_open:
  assumes "dict_ok es" and "dict_get es = dict_get es'" and "\<forall>key \<in> dict_keys es'. length key = 4"
  shows "nonzero_ports es = open_ports es'"
proof -
  have "dict_keys es = dict_keys es'" using assms(2) by (simp add: dict_keys_dom)
  then have len: "(key, v) \<in> set es \<Longrightarrow> length key = 4 \<and> dict_get es key = Some v" for key v
    using assms(1,3) by (force simp: dict_keys_def dict_ok_def)
  have "open_ports es' = open_ports es" by (simp add: open_ports_def assms(2))
  also have "filter (\<lambda>(key, v). length key = 4 \<and> dict_get es key = Some v \<and> int_of_le (take 4 v) \<noteq> 0) es =
      filter (\<lambda>(key, v). int_of_le (take 4 v) \<noteq> 0) es"
    using len by (intro filter_cong) auto
  then have "open_ports es = nonzero_ports es"
    using len by (force simp: open_ports_code nonzero_ports_def)
  finally show ?thesis ..
qed

lemma array_scan_sound:
  assumes "fd \<in> owned" and "set ports \<subseteq> {0..<2 ^ 32}" and "result \<subseteq> open_ports (entries k fd)"
  shows "\<exists>found k'. array_scan K fd ports result k = (Inr found, k') \<and>
    seen entries owned k' = seen entries owned k \<and> found \<subseteq> open_ports (entries k fd)"
  using assms(2,3)
proof (induction ports arbitrary: result k)
  case (Cons port ports)
  obtain key where key: "pack_u32 port = Inr key" using Cons.prems(1) by (auto simp: pack_u32_def pack_uint_def)
  obtain q k1 where look: "sys_lookup K fd key 0 k = (q, k1)" by (cases "sys_lookup K fd key 0 k")
  define res where "res = (case q of Inl _ \<Rightarrow> result
      | Inr val \<Rightarrow> if int_of_le (take 4 val) \<noteq> 0 then insert port result else result)"
  have same: "seen entries owned k1 = seen entries owned k"
    using look lookup_frame [of _ fd key 0 k] by (simp add: seen_eq_iff)
  then have e: "entries k1 fd = entries k fd" using assms(1) by (simp add: seen_eq_iff)
  have "res \<subseteq> open_ports (entries k fd)"
  proof (cases q)
    case (Inr val)
    with lookup_ok [OF assms(1)] look have "dict_get (entries k fd) key = Some val" by blast
    with Inr Cons.prems(2) key show ?thesis by (auto simp: res_def open_ports_def)
  qed (use Cons.prems(2) in \<open>simp add: res_def\<close>)
  moreover have "array_scan K fd (port # ports) result k = array_scan K fd ports res k1"
    using look by (cases q)
      (auto simp: array_lookup_def key bpf_def mbind_def mtry_def res_def ret_apply)
  ultimately show ?case
    using Cons.IH [of res k1] Cons.prems(1) same e by simp
qed (simp add: ret_apply)

lemma array_read_kernel_spec:
  assumes "fd \<in> owned" and "\<forall>key \<in> dict_keys (entries k fd). length key = 4"
    and "int (length (entries k fd)) \<le> n" and "n \<le> 2 ^ 32"
  shows "\<exists>found k'. array_read_kernel K fd n k = (Inr found, k') \<and>
    seen entries owned k' = seen entries owned k \<and> found \<subseteq> open_ports (entries k fd) \<and>
    (batch_done (fst (fst (sys_lookup_batch K fd (nat n) k))) \<longrightarrow> found = open_ports (entries k fd))"
proof -
  obtain e es k1 where batch: "sys_lookup_batch K fd (nat n) k = ((e, es), k1)" by (metis surj_pair)
  have same: "seen entries owned k1 = seen entries owned k"
    using batch batch_frame [of _ fd "nat n" k] by (simp add: seen_eq_iff)
  show ?thesis
  proof (cases "batch_done e")
    case True
    have "length (entries k fd) \<le> nat n" using assms(3) by linarith
    from batch_all [OF assms(1) batch True [unfolded batch_done_def] this]
    have "nonzero_ports es = open_ports (entries k fd)"
      using nonzero_ports_open assms(2) by blast
    with True batch same show ?thesis
      by (simp add: array_read_kernel_def lookup_batch_def mbind_def ret_apply)
  next
    case False
    have e1: "entries k1 fd = entries k fd" using same assms(1) by (simp add: seen_eq_iff)
    have "set [0..n - 1] \<subseteq> {0..<2 ^ 32}" using assms(4) by auto
    from array_scan_sound [OF assms(1) this, of "{}" k1] e1 False batch same show ?thesis
      by (auto simp: array_read_kernel_def lookup_batch_def mbind_def)
  qed
qed

end

text \<open>
  \<open>bpf/maps.py\<close>, \<open>BpfArrayMap.set\<close>. A whitelist whose cache lists exactly the
  ports open in the kernel still does so after any \<open>set\<close>, whether the kernel accepts the
  write, refuses it or the port does not fit a key; only a write that reports success
  outside a dry run changes the port, and then it is open exactly when the value is not 0.
\<close>

theorem array_set_coherent:
  assumes "bpf_kernel K entries owned" and "am_fd m \<in> owned" and "array_coherent entries m k"
    and "array_set K port val dry (m, k) = (r, (m', k'))"
  shows "array_coherent entries m' k' \<and> am_fd m' = am_fd m \<and>
    am_cache m' = (if r = Inr True \<and> \<not> dry
      then (if val \<noteq> 0 then insert port (am_cache m) else am_cache m - {port}) else am_cache m)"
  using bpf_kernel.array_set_cases [OF assms(1,2,4)] bpf_kernel.array_set_keeps_coherent [OF assms]
  by (elim disjE) auto

theorem array_set_coherent_witness:
  "case array_set store_kernel 0 1 False (ex_whitelist 1 {1}, ex_kernel []) of
     (r, (m', k')) \<Rightarrow> array_coherent kentries m' k' \<and> am_cache m' = {0, 1}"
proof -
  obtain r m' k' where run: "array_set store_kernel 0 1 False (ex_whitelist 1 {1}, ex_kernel []) = (r, (m', k'))"
    by (metis surj_pair)
  have "fst (array_set store_kernel 0 1 False (ex_whitelist 1 {1}, ex_kernel [])) = Inr True" by code_simp
  moreover have c: "array_coherent kentries (ex_whitelist 1 {1}) (ex_kernel [])" by code_simp
  ultimately show ?thesis
    using array_set_coherent [OF store.bpf_kernel_axioms _ c run] by (simp add: run)
qed

text \<open>
  C13 (\<open>bpf/maps.py\<close>, \<open>CacheVerifyMixin.verify\<close> on \<open>BpfArrayMap\<close>). Verifying a whitelist
  always returns, writes nothing to the kernel and never leaves a port in the cache that
  is closed in the kernel. When the kernel has batch lookup the cache is exactly the open
  ports afterwards, and the result is how many ports differed.
\<close>

theorem array_verify_repairs:
  assumes "bpf_kernel K entries owned" and "am_fd m \<in> owned"
    and "\<forall>key \<in> dict_keys (entries k (am_fd m)). length key = 4"
    and "int (length (entries k (am_fd m))) \<le> am_max_entries m" and "am_max_entries m \<le> 2 ^ 32"
  shows "\<exists>drift m' k'. array_verify K (m, k) = (Inr drift, (m', k')) \<and>
    seen entries owned k' = seen entries owned k \<and>
    am_cache m' \<subseteq> open_ports (entries k' (am_fd m)) \<and>
    (batch_done (fst (fst (sys_lookup_batch K (am_fd m) (nat (am_max_entries m)) k))) \<longrightarrow>
       array_coherent entries m' k' \<and>
       drift = card ((am_cache m' - am_cache m) \<union> (am_cache m - am_cache m')))"
proof -
  from bpf_kernel.array_read_kernel_spec [OF assms]
  obtain found k' where read: "array_read_kernel K (am_fd m) (am_max_entries m) k = (Inr found, k')"
    and same: "seen entries owned k' = seen entries owned k"
    and found: "found \<subseteq> open_ports (entries k (am_fd m))"
    "batch_done (fst (fst (sys_lookup_batch K (am_fd m) (nat (am_max_entries m)) k))) \<longrightarrow>
       found = open_ports (entries k (am_fd m))" by blast
  have e: "entries k' (am_fd m) = entries k (am_fd m)" using same assms(2) by (simp add: seen_eq_iff)
  have "array_verify K (m, k) =
      (Inr (card ((found - am_cache m) \<union> (am_cache m - found))), (m\<lparr>am_cache := found\<rparr>, k'))"
    using read by (simp add: array_verify_def verify_map_def obj_def kern_def mbind_def set_obj_def
        set_drift_def mseq_def ret_apply)
  with e same found show ?thesis by (simp add: array_coherent_def)
qed

theorem array_verify_repairs_witness:
  "\<exists>m' k'. array_verify store_kernel (ex_whitelist 1 {0}, ex_kernel []) = (Inr 2, (m', k')) \<and>
     array_coherent kentries m' k'"
proof -
  let ?m = "ex_whitelist 1 {0}"
  have "\<forall>key \<in> dict_keys (kentries (ex_kernel []) (am_fd ?m)). length key = 4"
    "int (length (kentries (ex_kernel []) (am_fd ?m))) \<le> am_max_entries ?m" "am_max_entries ?m \<le> 2 ^ 32"
    by code_simp+
  note rep = array_verify_repairs [OF store.bpf_kernel_axioms _ this]
  have "batch_done (fst (fst (sys_lookup_batch store_kernel (am_fd ?m) (nat (am_max_entries ?m)) (ex_kernel []))))"
    "fst (array_verify store_kernel (?m, ex_kernel [])) = Inr 2" by code_simp+
  with rep show ?thesis by auto
qed

section \<open>Port policies\<close>

text \<open>The cache of a policy map holds, decoded, what the kernel has for every port.\<close>

definition policy_coherent :: "('k \<Rightarrow> int \<Rightarrow> (bytes, bytes) dict) \<Rightarrow> BpfPortPolicyMap \<Rightarrow> 'k \<Rightarrow> bool" where
  "policy_coherent entries m k \<longleftrightarrow>
     (\<forall>port key. pack_u32 port = Inr key \<longrightarrow>
        dict_get (pp_cache m) port = map_option (le_fields 4 8) (dict_get (entries k (pp_fd m)) key))"

lemma pack_u32_inj: "pack_u32 p = Inr key \<Longrightarrow> pack_u32 q = Inr key \<Longrightarrow> p = q"
  by (auto simp: pack_u32_def dest: pack_uint_inj)

lemma policy_value_read:
  assumes "policy_value fs = Inr bs"
  shows "le_fields 4 8 bs = fs" and "length fs = 8"
proof -
  from assms have "length fs = 8" "pack_all (pack_uint 4) fs = Inr bs"
    by (auto simp: policy_value_def pack_u32_def split: if_splits)
  with le_fields_pack(1) [of 4 fs bs "[]"] show "le_fields 4 8 bs = fs" "length fs = 8" by simp_all
qed

lemma ex_policy_coherent: "policy_coherent kentries ex_policy (ex_kernel [])"
proof -
  have "kentries (ex_kernel []) 9 = []" by code_simp
  then show ?thesis by (simp add: policy_coherent_def ex_policy_def)
qed

text \<open>What a write through a view leaves in the cache for the port.\<close>

definition view_result :: "int list \<Rightarrow> int list option" where
  "view_result fs = (if take 3 fs = [0, 0, 0] then None else Some fs)"

context bpf_kernel
begin

lemma policy_set_fields_effect:
  assumes "pp_fd m \<in> owned" and "policy_coherent entries m k"
    and "policy_set_fields K port fs False (m, k) = (r, (m', k'))"
  shows "policy_coherent entries m' k' \<and> pp_fd m' = pp_fd m \<and>
    dict_get (pp_cache m') = (if r = Inr True then (dict_get (pp_cache m))(port \<mapsto> fs) else dict_get (pp_cache m))"
proof -
  have "guarded_update K False (pp_fd m) 0 (pack_pair (pack_u32 port) (policy_value fs))
      (pp_cache_update (dict_set port fs)) (m, k) = (r, (m', k'))"
    using assms(3) by (simp add: policy_set_fields_def obj_def)
  from guarded_update_cases [OF assms(1) this] show ?thesis
  proof (elim disjE exE conjE)
    fix key v
    assume kv: "pack_pair (pack_u32 port) (policy_value fs) = Inr (key, v)" and r: "r = Inr True"
      and m': "m' = pp_cache_update (dict_set port fs) m"
      and es: "dict_get (entries k' (pp_fd m)) = (dict_get (entries k (pp_fd m)))(key \<mapsto> v)"
    from kv have key: "pack_u32 port = Inr key" and v: "le_fields 4 8 v = fs"
      by (auto simp: pack_pair_def rbind_Inr_conv dest: policy_value_read)
    have "policy_coherent entries m' k'"
      using assms(2) key v m' es by (auto simp: policy_coherent_def dict_simps dest: pack_u32_inj)
    with r m' show ?thesis by (simp add: dict_simps fun_eq_iff)
  qed (use assms(2) in \<open>simp add: policy_coherent_def\<close>)
qed

lemma policy_delete_effect:
  assumes "pp_fd m \<in> owned" and "policy_coherent entries m k"
    and "policy_delete K port False (m, k) = (r, (m', k'))"
  shows "policy_coherent entries m' k' \<and> pp_fd m' = pp_fd m \<and>
    dict_get (pp_cache m') = (if r = Inr True then (dict_get (pp_cache m))(port := None) else dict_get (pp_cache m))"
proof -
  have run: "guarded_delete K False (pp_fd m) (pack_u32 port) (pp_cache_update (dict_pop port)) (m, k) = (r, (m', k'))"
    using assms(3) by (simp add: policy_delete_def obj_def)
  have "pack_u32 port \<noteq> Inl (OSError ENOENT)" by (simp add: pack_u32_def pack_uint_def)
  from guarded_delete_cases [OF assms(1) this run] show ?thesis
  proof (elim disjE exE conjE)
    fix key
    assume key: "pack_u32 port = Inr key" and r: "r = Inr True" and m': "m' = pp_cache_update (dict_pop port) m"
      and es: "dict_get (entries k' (pp_fd m)) = (dict_get (entries k (pp_fd m)))(key := None)"
    have "policy_coherent entries m' k'"
      using assms(2) key m' es by (auto simp: policy_coherent_def dict_simps dest: pack_u32_inj)
    with r m' show ?thesis by (simp add: dict_simps fun_eq_iff)
  qed (use assms(2) in \<open>simp add: policy_coherent_def\<close>)
qed

lemma view_write_effect:
  assumes "pp_fd m \<in> owned" and "policy_coherent entries m k"
    and "view_write K port fs False (m, k) = (r, (m', k'))"
  shows "policy_coherent entries m' k' \<and> pp_fd m' = pp_fd m \<and>
    dict_get (pp_cache m') =
      (if r = Inr True then (dict_get (pp_cache m))(port := view_result fs) else dict_get (pp_cache m))"
proof (cases "take 3 fs = [0, 0, 0]")
  case True
  with assms(3) policy_delete_effect [OF assms(1,2)] show ?thesis by (simp add: view_write_def view_result_def)
next
  case False
  with assms(3) policy_set_fields_effect [OF assms(1,2)] show ?thesis by (simp add: view_write_def view_result_def)
qed

end

text \<open>
  \<open>bpf/maps.py\<close>, \<open>BpfPortPolicyViewMap.set\<close>. Setting one limit of a port through
  a view keeps the cache equal to the decoded kernel entries, whatever the kernel
  answers. On success the port has its old fields, or the defaults, with that one field
  replaced, and no entry when the first three fields are then 0; every other port keeps
  its entry. Without success nothing changes.
\<close>

theorem view_set_effect:
  assumes "bpf_kernel K entries owned" and "pp_fd m \<in> owned" and "policy_coherent entries m k"
    and "view_set K c i port rate_max False (m, k) = (r, (m', k'))"
  shows "policy_coherent entries m' k' \<and>
    dict_get (pp_cache m') =
      (if r = Inr True
       then (dict_get (pp_cache m))(port :=
         view_result ((dict_get_or (pp_cache m) port (default_fields c))[i := rate_max]))
       else dict_get (pp_cache m))"
  using bpf_kernel.view_write_effect [OF assms(1-3)] assms(4)
  by (simp add: view_set_def obj_def)

theorem view_set_effect_witness:
  "case view_set store_kernel ex_config 0 80 50 False (ex_policy, ex_kernel []) of
     (r, (m', k')) \<Rightarrow> policy_coherent kentries m' k' \<and> dict_get (pp_cache m') 80 = Some [50, 0, 0, 32, 128, 0, 0, 0]"
proof -
  let ?s = "(ex_policy, ex_kernel [])"
  obtain r m' k' where run: "view_set store_kernel ex_config 0 80 50 False ?s = (r, (m', k'))"
    by (metis surj_pair)
  have "fst (view_set store_kernel ex_config 0 80 50 False ?s) = Inr True"
    "(default_fields ex_config)[0 := 50] = [50, 0, 0, 32, 128, 0, 0, 0]" by code_simp+
  moreover have c: "policy_coherent kentries ex_policy (ex_kernel [])" by (rule ex_policy_coherent)
  ultimately show ?thesis
    using view_set_effect [OF store.bpf_kernel_axioms _ c run]
    by (simp add: run dict_get_or_def view_result_def)
qed

text \<open>
  \<open>bpf/maps.py\<close>, \<open>BpfPortPolicyViewMap.set\<close>. A connection limit per prefix or
  per port (fields 5 and 6) on a port that has no other limit is reported as set, but the
  kernel holds no policy for the port afterwards: the test of the first three fields
  takes the entry for an empty one and deletes it.
\<close>

theorem lone_conn_limit_lost:
  assumes "bpf_kernel K entries owned" and "pp_fd m \<in> owned" and "policy_coherent entries m k"
    and "dict_get (pp_cache m) port = None" and "i = 5 \<or> i = 6" and "pack_u32 port = Inr key"
    and "view_set K c i port rate_max False (m, k) = (Inr True, (m', k'))"
  shows "dict_get (entries k' (pp_fd m)) key = None"
proof -
  have "view_write K port ((default_fields c)[i := rate_max]) False (m, k) = (Inr True, (m', k'))"
    using assms(4,7) by (simp add: view_set_def obj_def dict_get_or_def)
  moreover have "take 3 ((default_fields c)[i := rate_max]) = [0, 0, 0]"
    using assms(5) by (auto simp: default_fields_def numeral_eq_Suc)
  ultimately have "policy_coherent entries m' k' \<and> pp_fd m' = pp_fd m \<and> dict_get (pp_cache m') port = None"
    using bpf_kernel.view_write_effect [OF assms(1-3)] by (simp add: view_result_def)
  with assms(6) show ?thesis by (auto simp: policy_coherent_def)
qed

theorem lone_conn_limit_lost_witness:
  "case view_set store_kernel ex_config 5 80 20 False (ex_policy, ex_kernel []) of
     (r, (m', k')) \<Rightarrow> r = Inr True \<and> dict_get (kentries k' 9) (le_bytes 4 80) = None"
proof -
  let ?s = "(ex_policy, ex_kernel [])"
  obtain r m' k' where run: "view_set store_kernel ex_config 5 80 20 False ?s = (r, (m', k'))"
    by (metis surj_pair)
  have "fst (view_set store_kernel ex_config 5 80 20 False ?s) = Inr True" by code_simp
  with run have r: "r = Inr True" by simp
  have "pack_u32 80 = Inr (le_bytes 4 80)" "dict_get (pp_cache ex_policy) 80 = None" by code_simp+
  with lone_conn_limit_lost [OF store.bpf_kernel_axioms _ ex_policy_coherent _ _ _ run [unfolded r]] r run show ?thesis
    by simp
qed

section \<open>Values of the structs\<close>

lemma acl_value_read:
  assumes "acl_pack_val ports = Inr v"
  shows "acl_unpack_val v = set (take ACL_MAX_PORTS ports)"
proof -
  let ?c = "take ACL_MAX_PORTS ports"
  let ?p = "?c @ replicate (ACL_MAX_PORTS - length ?c) 0"
  from assms obtain a b where a: "pack_uint 4 (int (length ?c)) = Inr a" and b: "pack_all (pack_uint 2) ?p = Inr b"
    and v: "v = a @ b"
    by (auto simp: acl_pack_val_def Let_def pack_append_def rbind_Inr_conv pack_u32_def pack_u16_def)
  have la: "length a = 4" "int_of_le a = int (length ?c)"
    using a by (auto dest: pack_uint_length pack_uint_unpack)
  have "le_fields 2 (length ?c) b = ?c"
  proof -
    from b obtain bss where "rmap (pack_uint 2) ?p = Inr bss" "b = concat bss"
      by (auto simp: pack_all_def rbind_Inr_conv)
    then obtain b1 b2 where "rmap (pack_uint 2) ?c = Inr b1" "b = concat b1 @ concat b2"
      by (auto simp: rmap_Inr_iff list_all2_append1)
    with le_fields_pack(1) [of 2 ?c "concat b1" "concat b2"] show ?thesis
      by (simp add: pack_all_def)
  qed
  then show ?thesis
    using la v by (simp add: acl_unpack_val_def Let_def min_def)
qed

lemma runtime_value_read:
  assumes "runtime_value fs cfg_flags = Inr v"
  shows "runtime_fields v = fs @ [cfg_flags, 0]"
proof -
  from assms obtain a b where a: "pack_all (pack_uint 8) fs = Inr a" and b: "pack_all (pack_uint 4) [cfg_flags, 0] = Inr b"
    and v: "v = a @ b" and len: "length fs = 8"
    by (auto simp: runtime_value_def pack_append_def rbind_Inr_conv pack_u32_def pack_u64_def split: if_splits)
  have "le_fields 8 8 (a @ b) = fs" "length a = 64"
    using le_fields_pack(1) [OF a, of b] le_fields_pack(2) [OF a] len by simp_all
  moreover have "le_fields 4 2 b = [cfg_flags, 0]"
    using le_fields_pack(1) [OF b, of "[]"] by (simp add: numeral_eq_Suc)
  ultimately show ?thesis by (simp add: runtime_fields_def v)
qed

text \<open>
  \<open>bpf/maps.py\<close>, \<open>BpfAclMap.set\<close>. A successful \<open>set\<close> of an ACL stores in the
  kernel, and so enforces, the first 64 ports only, while the cache, which the next plan
  is computed from, has them all.
\<close>

theorem acl_set_truncates:
  assumes "bpf_kernel K entries owned" and "ac_fd m \<in> owned"
    and "acl_set K cidr ports False (m, k) = (Inr True, (m', k'))"
  shows "\<exists>key normalized v. lpm_pack_key (ac_v6 m) cidr = Inr (key, normalized) \<and>
    dict_get (entries k' (ac_fd m)) key = Some v \<and> acl_unpack_val v = set (take ACL_MAX_PORTS ports) \<and>
    dict_get (ac_cache m') normalized = Some (set ports)"
proof -
  from assms(3) obtain key normalized where key: "lpm_pack_key (ac_v6 m) cidr = Inr (key, normalized)"
    by (cases "lpm_pack_key (ac_v6 m) cidr")
      (auto simp: acl_set_def obj_def mtry_def raise_exn_def lpm_pack_key_def split: option.splits if_splits)
  obtain v where v: "acl_pack_val ports = Inr v"
  proof (cases "acl_pack_val ports")
    case (Inl e)
    with assms(3) key have False by (cases e) (auto simp: acl_set_def obj_def mtry_def mbind_def)
    then show ?thesis ..
  qed blast
  obtain q k1 where u: "sys_update K (ac_fd m) key v 0 k = (q, k1)"
    by (cases "sys_update K (ac_fd m) key v 0 k")
  with assms(3) key v have "q = Inr ()" "k' = k1" "m' = ac_cache_update (dict_set normalized (set ports)) m"
    by (cases q; auto simp: acl_set_def obj_def mtry_def mbind_def mseq_def kern_def bpf_def set_obj_def ret_apply)+
  moreover from this u have "dict_get (entries k1 (ac_fd m)) key = Some v"
    using bpf_kernel.update_ok [OF assms(1,2)] by simp
  ultimately show ?thesis using key acl_value_read [OF v] by (simp add: dict_simps)
qed

theorem acl_set_truncates_witness:
  "case acl_set store_kernel ''10.0.0.0/8'' [1..70] False (ex_acl, ex_kernel []) of
     (r, (m', k')) \<Rightarrow> \<exists>key normalized v. dict_get (kentries k' 3) key = Some v \<and>
       acl_unpack_val v = set [1..64] \<and> dict_get (ac_cache m') normalized = Some (set [1..70])"
proof -
  let ?run = "acl_set store_kernel ''10.0.0.0/8'' [1..70] False (ex_acl, ex_kernel [])"
  obtain r m' k' where run: "?run = (r, (m', k'))" by (metis surj_pair)
  have "fst ?run = Inr True" "take ACL_MAX_PORTS [1..70] = [1..64]" by code_simp+
  with run acl_set_truncates [OF store.bpf_kernel_axioms, of ex_acl "''10.0.0.0/8''" "[1..70]" "ex_kernel []" m' k']
  show ?thesis by auto
qed

text \<open>
  \<open>bpf/maps.py\<close>, \<open>BpfRuntimeConfigMap\<close>. The eight timing fields and the flags that
  \<open>set\<close> stored are what the next read returns, if the lookup succeeds; no field is
  truncated, since a value that does not fit raises before the kernel is called.
\<close>

theorem runtime_config_roundtrip:
  assumes "bpf_kernel K entries owned" and "rc_fd m \<in> owned"
    and "runtime_set K fs cfg_flags False (m, k) = (Inr True, (m', k'))"
  shows "fst (runtime_lookup_raw K (m', k')) \<in> {Inr None, Inr (Some (fs @ [cfg_flags, 0]))} \<and>
    fst (runtime_get K (m', k')) \<in> {Inr None, Inr (Some fs)} \<and>
    fst (runtime_get_cfg_flags K (m', k')) \<in> {Inr None, Inr (Some cfg_flags)}"
proof -
  have "guarded_update K False (rc_fd m) 0 (pack_pair (Inr zero_key) (runtime_value fs cfg_flags)) (\<lambda>m. m)
      (m, k) = (Inr True, (m', k'))"
    using assms(3) by (simp add: runtime_set_def obj_def)
  from bpf_kernel.guarded_update_cases [OF assms(1,2) this]
  obtain v where v: "runtime_value fs cfg_flags = Inr v" and m': "m' = m"
    and e: "dict_get (entries k' (rc_fd m)) zero_key = Some v"
    by (auto simp: pack_pair_def rbind_Inr_conv)
  have len: "length fs = 8" using v by (auto simp: runtime_value_def split: if_splits)
  obtain q k2 where look: "sys_lookup K (rc_fd m) zero_key 0 k' = (q, k2)"
    by (cases "sys_lookup K (rc_fd m) zero_key 0 k'")
  have raw: "fst (runtime_lookup_raw K (m', k')) \<in> {Inr None, Inr (Some (fs @ [cfg_flags, 0]))}"
  proof (cases q)
    case (Inl n)
    with look m' show ?thesis
      by (simp add: runtime_lookup_raw_def obj_def mtry_def mbind_def kern_def bpf_def)
  next
    case (Inr x)
    with look bpf_kernel.lookup_ok [OF assms(1,2)] e have "x = v" by fastforce
    with Inr look m' runtime_value_read [OF v] show ?thesis
      by (simp add: runtime_lookup_raw_def obj_def mtry_def mbind_def kern_def bpf_def)
  qed
  then show ?thesis
    using len by (cases "runtime_lookup_raw K (m', k')")
      (auto simp: runtime_get_def runtime_get_cfg_flags_def mbind_def nth_append)
qed

theorem runtime_config_roundtrip_witness:
  "case runtime_set store_kernel [1, 2, 3, 4, 5, 6, 7, 8] 5 False (ex_runtime, ex_kernel []) of
     (r, s) \<Rightarrow> r = Inr True \<and> fst (runtime_get store_kernel s) \<in> {Inr None, Inr (Some [1, 2, 3, 4, 5, 6, 7, 8])}"
proof -
  let ?run = "runtime_set store_kernel [1, 2, 3, 4, 5, 6, 7, 8] 5 False (ex_runtime, ex_kernel [])"
  obtain r m' k' where run: "?run = (r, (m', k'))" by (metis surj_pair)
  have "fst ?run = Inr True" by code_simp
  with run have r: "r = Inr True" by simp
  have own: "rc_fd ex_runtime \<in> {0..<1000}" by (simp add: ex_runtime_def)
  from runtime_config_roundtrip [OF store.bpf_kernel_axioms own run [unfolded r]] run r show ?thesis by simp
qed

section \<open>Scans\<close>

lemma last_in_middle: "distinct (pre @ c # post) \<Longrightarrow> last (pre @ c # post) = c \<Longrightarrow> post = []"
  by (cases post rule: rev_cases) auto

lemma mseq_set_obj: "mseq (set_obj f) n s = n (f (fst s), snd s)"
  by (simp add: set_obj_def)

text \<open>The keys that a scan standing at a key still has before it.\<close>

definition ahead :: "(bytes, bytes) dict \<Rightarrow> bytes option \<Rightarrow> bytes list \<Rightarrow> bool" where
  "ahead es cur post \<longleftrightarrow>
     (case cur of None \<Rightarrow> post = map fst es | Some c \<Rightarrow> \<exists>pre. map fst es = pre @ c # post)"

context bpf_kernel
begin

lemma next_key_cases:
  assumes "fd \<in> owned" and "ahead (entries k fd) cur post" and "sys_next_key K fd cur k = (q, k')"
  shows "(\<exists>key post'. q = Inr key \<and> post = key # post' \<and> ahead (entries k' fd) (Some key) post') \<or>
    (q = Inl ENOENT \<and> post = []) \<or> (\<exists>n. q = Inl n \<and> n \<noteq> ENOENT)"
proof -
  have same: "entries k' fd = entries k fd" using next_frame [OF assms(1), of fd cur k] assms(3) by simp
  have dist: "distinct (map fst (entries k fd))" using entries_ok [OF assms(1)] by (simp add: dict_ok_def)
  show ?thesis
  proof (cases q)
    case (Inl n)
    have "post = []" if "n = ENOENT"
      using next_end [OF assms(1) assms(3) [unfolded Inl that]]
    proof (elim disjE)
      assume "entries k fd = []"
      with assms(2) show ?thesis by (auto simp: ahead_def split: option.splits)
    next
      assume c: "cur = Some (fst (last (entries k fd)))"
      with assms(2) obtain pre where pre: "map fst (entries k fd) = pre @ fst (last (entries k fd)) # post"
        by (auto simp: ahead_def)
      then have "entries k fd \<noteq> []" by auto
      then have "last (map fst (entries k fd)) = fst (last (entries k fd))" by (simp add: last_map)
      with pre dist show ?thesis using last_in_middle by metis
    qed
    with Inl show ?thesis by blast
  next
    case (Inr key)
    show ?thesis
    proof (cases cur)
      case None
      with next_first [OF assms(1) assms(3) [unfolded Inr None]] assms(2) Inr same show ?thesis
        by (auto simp: ahead_def)
    next
      case (Some c)
      with assms(2) obtain pre where pre: "map fst (entries k fd) = pre @ c # post" by (auto simp: ahead_def)
      then have "c \<in> dict_keys (entries k fd)" by (metis dict_keys_def in_set_conv_decomp set_map)
      from next_after [OF assms(1) assms(3) [unfolded Inr Some] this]
      obtain pre' post' where "map fst (entries k fd) = pre' @ c # key # post'" by blast
      with pre dist have "post = key # post' \<and> pre' = pre"
        by (metis append_Cons_eq_iff distinct_append disjoint_iff distinct.simps(2) list.set_intros(1))
      with pre Inr same show ?thesis by (auto simp: ahead_def)
    qed
  qed
qed

text \<open>A scan that collects into the object: it ends with every key, or with an errno.\<close>

lemma scan_keys_fold:
  assumes "fd \<in> owned" and "ahead (entries k fd) cur post" and "length post < fuel"
    and "scan_keys fuel K fd cur (\<lambda>key. set_obj (f key)) (m, k) = (r, (m', k'))"
  shows "seen entries owned k' = seen entries owned k \<and>
    (r = Inr () \<and> m' = fold f post m \<or> (\<exists>n. r = Inl (OSError n) \<and> n \<noteq> ENOENT))"
  using assms(2-)
proof (induction fuel arbitrary: k cur post m)
  case (Suc fuel)
  obtain q k1 where nk: "sys_next_key K fd cur k = (q, k1)" by (cases "sys_next_key K fd cur k")
  have same: "seen entries owned k1 = seen entries owned k"
    using nk next_frame [of _ fd cur k] by (simp add: seen_eq_iff)
  from next_key_cases [OF assms(1) Suc.prems(1) nk] show ?case
  proof (elim disjE exE conjE)
    fix key post'
    assume q: "q = Inr key" and post: "post = key # post'" and "ahead (entries k1 fd) (Some key) post'"
    moreover from q nk Suc.prems(3)
    have "scan_keys fuel K fd (Some key) (\<lambda>key. set_obj (f key)) (f key m, k1) = (r, (m', k'))"
      by (simp add: mbind_def mtry_def kern_def bpf_def mseq_set_obj ret_apply)
    ultimately show ?thesis
      using Suc.IH [of k1 "Some key" post' "f key m"] Suc.prems(2) same by simp
  qed (use nk Suc.prems(3) same in \<open>auto simp: mbind_def mtry_def kern_def bpf_def ret_apply raise_apply\<close>)
qed simp

lemma collect_keys_spec:
  assumes "fd \<in> owned" and "length (entries k fd) < fuel" and "collect_keys fuel K fd k = (r, k')"
  shows "seen entries owned k' = seen entries owned k \<and>
    (r = Inr (map fst (entries k fd)) \<or> (\<exists>n. r = Inl (OSError n)))"
proof -
  have fold: "fold (\<lambda>key ks. ks @ [key]) xs acc = acc @ xs" for xs acc :: "bytes list"
    by (induction xs arbitrary: acc) simp_all
  obtain q ks k1 where run: "scan_keys fuel K fd None (\<lambda>key. set_obj (\<lambda>ks. ks @ [key])) ([], k) = (q, (ks, k1))"
    by (metis surj_pair)
  have "ahead (entries k fd) None (map fst (entries k fd))" by (simp add: ahead_def)
  from scan_keys_fold [OF assms(1) this _ run] assms(2,3) run fold show ?thesis
    by (auto simp: collect_keys_def)
qed

end

text \<open>
  \<open>bpf/maps.py\<close>, \<open>_iter_raw_keys\<close> in \<open>BpfConntrackMap.refresh_cache\<close>. The scan of
  a flow table ends: with more fuel than the table has entries it does not run out, it
  writes nothing, and unless the enumeration stops with an errno the cache is
  exactly the set of keys in the kernel, if nobody else writes the table meanwhile. \<open>FlowGc\<close> is about the tables the
  XDP program writes at the same time.
\<close>

theorem refresh_cache_complete:
  assumes "bpf_kernel K entries owned" and "ct_fd m \<in> owned" and "length (entries k (ct_fd m)) < fuel"
  shows "\<exists>m' k'. conntrack_refresh_cache fuel K (m, k) = (Inr (), (m', k')) \<and>
    seen entries owned k' = seen entries owned k \<and>
    (ct_cache m' = dict_keys (entries k (ct_fd m)) \<or>
     (\<exists>n. fst (scan_keys fuel K (ct_fd m) None (\<lambda>key. set_obj (ct_cache_update (insert key)))
        (m\<lparr>ct_cache := {}\<rparr>, k)) = Inl (OSError n)))"
proof -
  let ?m = "m\<lparr>ct_cache := {}\<rparr>"
  have fold: "ct_cache (fold (\<lambda>key. ct_cache_update (insert key)) xs x) = ct_cache x \<union> set xs" for xs x
    by (induction xs arbitrary: x) auto
  obtain r m' k' where run: "scan_keys fuel K (ct_fd m) None (\<lambda>key. set_obj (ct_cache_update (insert key))) (?m, k) =
      (r, (m', k'))" by (metis surj_pair)
  have "ahead (entries k (ct_fd m)) None (map fst (entries k (ct_fd m)))" by (simp add: ahead_def)
  from bpf_kernel.scan_keys_fold [OF assms(1,2) this _ run] assms(3)
  have spec: "seen entries owned k' = seen entries owned k"
    "(r = Inr () \<and> m' = fold (\<lambda>key. ct_cache_update (insert key)) (map fst (entries k (ct_fd m))) ?m) \<or>
     (\<exists>n. r = Inl (OSError n))" by auto
  have "conntrack_refresh_cache fuel K (m, k) = (Inr (), (m', k'))"
    using run spec(2) by (auto simp: conntrack_refresh_cache_def conntrack_load_cache_def set_obj_def obj_def mtry_def
        ret_apply)
  moreover have "r = Inr () \<Longrightarrow> ct_cache m' = dict_keys (entries k (ct_fd m))"
    using spec(2) by (auto simp: fold dict_keys_def)
  ultimately show ?thesis using spec run by auto
qed

theorem refresh_cache_complete_witness:
  "\<exists>m' k'. conntrack_refresh_cache 3 store_kernel (ex_ct 5 12, ex_kernel []) = (Inr (), (m', k')) \<and>
     ct_cache m' = {ex_flow 0, ex_flow 1}"
proof -
  let ?m = "ex_ct 5 12"
  have fits: "length (kentries (ex_kernel []) (ct_fd ?m)) < 3"
    "dict_keys (kentries (ex_kernel []) (ct_fd ?m)) = {ex_flow 0, ex_flow 1}" by code_simp+
  have "fst (scan_keys 3 store_kernel (ct_fd ?m) None (\<lambda>key. set_obj (ct_cache_update (insert key)))
      (?m\<lparr>ct_cache := {}\<rparr>, ex_kernel [])) = Inr ()" by code_simp
  with refresh_cache_complete [OF store.bpf_kernel_axioms _ fits(1)] fits(2) show ?thesis
    by auto
qed

section \<open>Expiry\<close>

text \<open>The flows of a table that are older than the timeout allows.\<close>

definition expired_set ::
  "(bytes, bytes) dict \<Rightarrow> int \<Rightarrow> int \<Rightarrow> int option \<Rightarrow> bytes set" where
  "expired_set es now t st = {key. \<exists>v. dict_get es key = Some v \<and> ct_expired now t st (int_of_le (take 8 v))}"

lemma expired_set_code:
  "expired_set es now t st = set (filter (\<lambda>key. case dict_get es key of None \<Rightarrow> False
     | Some v \<Rightarrow> ct_expired now t st (int_of_le (take 8 v))) (map fst es))"
  by (auto simp: expired_set_def dest: map_of_SomeD intro: rev_image_eqI split: option.splits)

lemma finite_expired_set: "finite (expired_set es now t st)"
  by (rule finite_subset [OF _ finite_dict_keys [of es]]) (auto simp: expired_set_def dict_keys_dom)

context bpf_kernel
begin

lemma expired_keys_spec:
  assumes "fd \<in> owned" and "distinct keys"
  shows "\<exists>ex k'. expired_keys K fd now t st keys acc k = (Inr (acc @ ex), k') \<and>
    seen entries owned k' = seen entries owned k \<and> distinct ex \<and> set ex \<subseteq> set keys \<and>
    set ex \<subseteq> expired_set (entries k fd) now t st"
  using assms(2)
proof (induction keys arbitrary: acc k)
  case (Cons key keys)
  obtain q k1 where look: "sys_lookup K fd key 0 k = (q, k1)" by (cases "sys_lookup K fd key 0 k")
  define hit where "hit \<longleftrightarrow> (\<exists>v. q = Inr v \<and> ct_expired now t st (int_of_le (take 8 v)))"
  let ?acc = "if hit then acc @ [key] else acc"
  have step: "expired_keys K fd now t st (key # keys) acc k = expired_keys K fd now t st keys ?acc k1"
    using look by (cases q) (auto simp: hit_def bpf_def mbind_def mtry_def ret_apply)
  have same: "seen entries owned k1 = seen entries owned k"
    using look lookup_frame [of _ fd key 0 k] by (simp add: seen_eq_iff)
  then have e: "entries k1 fd = entries k fd" using assms(1) by (simp add: seen_eq_iff)
  have hit: "hit \<Longrightarrow> key \<in> expired_set (entries k fd) now t st"
    using lookup_ok [OF assms(1)] look by (auto simp: hit_def expired_set_def)
  obtain ex k' where *: "expired_keys K fd now t st keys ?acc k1 = (Inr (?acc @ ex), k')"
    "seen entries owned k' = seen entries owned k1" "distinct ex" "set ex \<subseteq> set keys"
    "set ex \<subseteq> expired_set (entries k1 fd) now t st"
    using Cons.IH [of ?acc k1] Cons.prems by auto
  with step same e hit Cons.prems show ?case
    by (intro exI [of _ "(if hit then [key] else []) @ ex"] exI [of _ k']) auto
qed (simp add: ret_apply)

lemma conntrack_delete_total:
  assumes "conntrack_delete K key False (m, k) = (r, s)"
  shows "\<exists>x. r = Inr x"
proof -
  obtain q k1 where "sys_delete K (ct_fd m) key k = (q, k1)" by (cases "sys_delete K (ct_fd m) key k")
  with assms show ?thesis
    by (cases q) (auto simp: conntrack_delete_def guarded_delete_def obj_def mtry_def mbind_def mseq_def kern_def
        bpf_def set_obj_def ret_apply split: if_splits)
qed

lemma delete_each_spec:
  assumes "ct_fd m \<in> owned" and "distinct keys"
  shows "\<exists>D m' k'. delete_each K keys False n (m, k) = (Inr (n + card D), (m', k')) \<and> D \<subseteq> set keys \<and>
    dict_get (entries k' (ct_fd m)) = (\<lambda>key. if key \<in> D then None else dict_get (entries k (ct_fd m)) key)"
  using assms
proof (induction keys arbitrary: n m k)
  case Nil
  then show ?case by (auto simp: ret_apply intro!: exI [of _ "{}"])
next
  case (Cons key keys)
  obtain r m1 k1 where del: "conntrack_delete K key False (m, k) = (r, (m1, k1))" by (metis surj_pair)
  with conntrack_delete_total obtain x where r: "r = Inr x" by blast
  have run: "guarded_delete K False (ct_fd m) (Inr key) (ct_cache_update (\<lambda>c. c - {key})) (m, k) = (r, (m1, k1))"
    using del by (simp add: conntrack_delete_def obj_def)
  note step = guarded_delete_cases [OF Cons.prems(1) _ run, simplified]
  have fd: "ct_fd m1 = ct_fd m" using step by auto
  have dist: "distinct keys" using Cons.prems(2) by simp
  obtain D m' k' where IH: "delete_each K keys False (if x then Suc n else n) (m1, k1) =
      (Inr ((if x then Suc n else n) + card D), (m', k'))" "D \<subseteq> set keys"
    "dict_get (entries k' (ct_fd m)) = (\<lambda>key. if key \<in> D then None else dict_get (entries k1 (ct_fd m)) key)"
    using Cons.IH [of m1 "if x then Suc n else n" k1, unfolded fd, OF Cons.prems(1) dist] by blast
  have fin: "finite D" using IH(2) by (rule finite_subset) simp
  let ?D = "if x then insert key D else D"
  have "card ?D = (if x then Suc (card D) else card D)"
    using IH(2) Cons.prems(2) fin by (auto simp: card_insert_if)
  moreover have "dict_get (entries k' (ct_fd m)) = (\<lambda>key. if key \<in> ?D then None else dict_get (entries k (ct_fd m)) key)"
    using step r IH(3) by (cases x) (auto simp: fun_eq_iff)
  ultimately show ?case
    using IH(1,2) del r by (intro exI [of _ ?D] exI [of _ m'] exI [of _ k']) (auto simp: mbind_def)
qed

end

text \<open>
  \<open>bpf/maps.py\<close>, \<open>BpfConntrackMap.gc_expired\<close>. Collecting expired flows ends, and
  unless the enumeration stops with an errno it reports a number of deleted flows: it
  deletes that many, all of them older than the timeout that applies to them, and
  leaves every other flow with its timestamp. If as many are deleted as have expired,
  none of those is left. Here too nobody else writes the table meanwhile.
\<close>

theorem gc_deletes_expired:
  assumes "bpf_kernel K entries owned" and "ct_fd m \<in> owned" and "length (entries k (ct_fd m)) < fuel"
    and "now = fst (sys_monotonic_ns K k)"
    and "conntrack_gc_expired fuel K t st (m, k) = (r, (m', k'))"
  shows "(\<exists>n. r = Inl (OSError n)) \<or>
    (\<exists>D \<subseteq> expired_set (entries k (ct_fd m)) now t st. r = Inr (card D) \<and>
       dict_get (entries k' (ct_fd m)) = (\<lambda>key. if key \<in> D then None else dict_get (entries k (ct_fd m)) key) \<and>
       (card D = card (expired_set (entries k (ct_fd m)) now t st) \<longrightarrow>
          expired_set (entries k' (ct_fd m)) now t st = {}))"
proof -
  let ?fd = "ct_fd m"
  obtain k1 where clock: "sys_monotonic_ns K k = (now, k1)" using assms(4) by (cases "sys_monotonic_ns K k") simp
  have e1: "entries k1 ?fd = entries k ?fd"
    using bpf_kernel.clock_frame [OF assms(1,2), of k] clock by simp
  obtain q k2 where coll: "collect_keys fuel K ?fd k1 = (q, k2)" by (cases "collect_keys fuel K ?fd k1")
  from bpf_kernel.collect_keys_spec [OF assms(1,2) _ coll] assms(3) e1
  have c: "seen entries owned k2 = seen entries owned k1" "q = Inr (map fst (entries k ?fd)) \<or> (\<exists>n. q = Inl (OSError n))"
    by simp_all
  have e2: "entries k2 ?fd = entries k ?fd" using c(1) e1 assms(2) by (simp add: seen_eq_iff)
  show ?thesis
  proof (cases q)
    case (Inl e)
    with c(2) clock coll assms(5) show ?thesis
      by (auto simp: conntrack_gc_expired_def obj_def kern_def monotonic_ns_def mbind_def)
  next
    case (Inr keys)
    with c(2) have keys: "keys = map fst (entries k ?fd)" by simp
    then have dist: "distinct keys" using bpf_kernel.entries_ok [OF assms(1,2)] by (simp add: dict_ok_def)
    obtain ex k3 where ex: "expired_keys K ?fd now t st keys [] k2 = (Inr ex, k3)"
      "seen entries owned k3 = seen entries owned k2" "distinct ex" "set ex \<subseteq> expired_set (entries k ?fd) now t st"
      using bpf_kernel.expired_keys_spec [OF assms(1,2) dist, of now t st "[]" k2] e2 by auto
    have e3: "entries k3 ?fd = entries k ?fd" using ex(2) e2 assms(2) by (simp add: seen_eq_iff)
    obtain D m1 k4 where del: "delete_each K ex False 0 (m, k3) = (Inr (card D), (m1, k4))" "D \<subseteq> set ex"
      "dict_get (entries k4 ?fd) = (\<lambda>key. if key \<in> D then None else dict_get (entries k ?fd) key)"
      using bpf_kernel.delete_each_spec [OF assms(1,2) ex(3), of 0 k3, unfolded e3 add_0] by blast
    have run: "r = Inr (card D)" "k' = k4"
      using assms(5) clock coll Inr ex(1) del(1)
      by (auto simp: conntrack_gc_expired_def obj_def kern_def monotonic_ns_def mbind_def)
    have D: "D \<subseteq> expired_set (entries k ?fd) now t st" using del(2) ex(4) by blast
    have "expired_set (entries k4 ?fd) now t st = {}" if "card D = card (expired_set (entries k ?fd) now t st)"
      using card_subset_eq [OF finite_expired_set D that] del(3) by (auto simp: expired_set_def split: if_splits)
    with run D del(3) show ?thesis by blast
  qed
qed

theorem gc_deletes_expired_witness:
  "case conntrack_gc_expired 3 store_kernel 60 None (ex_ct 5 12, ex_kernel []) of
     (r, (m', k')) \<Rightarrow> r = Inr 1 \<and> expired_set (kentries k' 5) 100 60 None = {}"
proof -
  let ?m = "ex_ct 5 12"
  let ?run = "conntrack_gc_expired 3 store_kernel 60 None (?m, ex_kernel [])"
  obtain r m' k' where run: "?run = (r, (m', k'))" by (metis surj_pair)
  have fits: "length (kentries (ex_kernel []) (ct_fd ?m)) < 3" "100 = fst (sys_monotonic_ns store_kernel (ex_kernel []))"
    "fst ?run = Inr 1" by code_simp+
  have one: "card (set (filter (\<lambda>key. case dict_get (kentries (ex_kernel []) 5) key of None \<Rightarrow> False
      | Some v \<Rightarrow> ct_expired 100 60 None (int_of_le (take 8 v))) (map fst (kentries (ex_kernel []) 5)))) = 1"
    by code_simp
  have r: "r = Inr 1" using fits(3) run by simp
  have own: "ct_fd ?m \<in> {0..<1000}" by simp
  from gc_deletes_expired [OF store.bpf_kernel_axioms own fits(1,2) run] r
  obtain D :: "bytes set" where "card D = 1"
    "card D = card (expired_set (kentries (ex_kernel []) (ct_fd ?m)) 100 60 None) \<longrightarrow>
       expired_set (kentries k' (ct_fd ?m)) 100 60 None = {}" by force
  moreover have "card (expired_set (kentries (ex_kernel []) 5) 100 60 None) = 1"
    using one by (simp only: expired_set_code)
  ultimately show ?thesis using r run by simp
qed

end
