(* ===== verification/AbuseProps.thy ===== *)
theory AbuseProps
  imports AbuseIpdb PyHoare BpfMapProps
begin

text \<open>
  What replacing the block list does to the map the data plane reads: the outcome of
  \<open>replace_all\<close>, also when the kernel refuses writes half way, and what the data
  plane can see at every moment of it.
\<close>

section \<open>The networks behind the keys\<close>

definition v4_cidr :: "string \<Rightarrow> bool" where
  "v4_cidr c \<longleftrightarrow> (case ipv4_network c of None \<Rightarrow> False | Some n \<Rightarrow> ipv4_network_str n = c)"

definition lpm_key :: "string \<Rightarrow> bytes" where
  "lpm_key c = (case ipv4_network c of None \<Rightarrow> [] | Some n \<Rightarrow> le_bytes 4 (int (snd n)) @ packed 4 (fst n))"

text \<open>The networks that the entries of a trie block.\<close>

definition blocked :: "(bytes, bytes) dict \<Rightarrow> string set" where
  "blocked es = {c. v4_cidr c \<and> lpm_key c \<in> dict_keys es}"

text \<open>The cache is the map: its networks are written the way the daemon writes them.\<close>

definition coherent :: "BpfLpmMap \<Rightarrow> (bytes, bytes) dict \<Rightarrow> bool" where
  "coherent m es \<longleftrightarrow>
     \<not> lm_v6 m \<and> finite (lm_cache m) \<and> (\<forall>c \<in> lm_cache m. v4_cidr c) \<and> dict_keys es = lpm_key ` lm_cache m"

lemma v4_cidrE:
  assumes "v4_cidr c"
  obtains i p where "ipv4_network c = Some (i, p)" "ipv4_network_str (i, p) = c"
  using assms by (auto simp: v4_cidr_def simp del: ipv4_network_str_def split: option.splits)

lemma lpm_key_parts:
  assumes "ipv4_network c = Some (i, p)"
  shows "int_of_le (take 4 (lpm_key c)) = int p" "int_of_be (drop 4 (lpm_key c)) = i"
  using ipv4_network_range [OF assms] assms
  by (simp_all add: lpm_key_def packed_def int_of_be_def int_of_le_bytes_id)

lemma lpm_key_inj:
  assumes "v4_cidr a" "v4_cidr b" "lpm_key a = lpm_key b"
  shows "a = b"
proof -
  obtain i p where a: "ipv4_network a = Some (i, p)" "ipv4_network_str (i, p) = a" by (rule v4_cidrE [OF assms(1)])
  obtain j q where b: "ipv4_network b = Some (j, q)" "ipv4_network_str (j, q) = b" by (rule v4_cidrE [OF assms(2)])
  have "i = j" "p = q" using lpm_key_parts [OF a(1)] lpm_key_parts [OF b(1)] assms(3) by simp_all
  with a b show "a = b" by simp
qed

lemma lpm_pack: "v4_cidr c \<Longrightarrow> lpm_pack_key False c = Inr (lpm_key c, c)"
  by (auto simp: v4_cidr_def lpm_key_def lpm_pack_key_def split: option.splits)

lemma v4_cidr_no_colon: "v4_cidr c \<Longrightarrow> CHR '':'' \<notin> set c"
proof (erule v4_cidrE)
  fix i p assume n: "ipv4_network c = Some (i, p)" and c: "ipv4_network_str (i, p) = c"
  show "CHR '':'' \<notin> set c"
    using ipv4_network_range [OF n] ipv4_str_chars(2) [of i] no_sep_str_of_int(3) [of "int p"]
    by (simp add: c [symmetric] ipv4_network_str_def)
qed

lemma normalize_v4_cidr: "v4_cidr c \<Longrightarrow> normalize_cidr c = Inr c"
  using v4_cidr_no_colon [of c] by (auto simp: normalize_cidr_def elim: v4_cidrE)

lemma lpm_key_image: "v4_cidr c \<Longrightarrow> \<forall>d \<in> C. v4_cidr d \<Longrightarrow> lpm_key c \<in> lpm_key ` C \<longleftrightarrow> c \<in> C"
  using lpm_key_inj by blast

lemma coherent_blocked: "coherent m es \<Longrightarrow> blocked es = lm_cache m"
  by (auto simp: coherent_def blocked_def lpm_key_inj dest: lpm_key_inj)

lemma normalize_v4_entry_ok:
  "normalize_v4_entry raw acc = Inr acc' \<Longrightarrow> distinct acc \<and> (\<forall>c \<in> set acc. v4_cidr c) \<Longrightarrow>
     distinct acc' \<and> (\<forall>c \<in> set acc'. v4_cidr c)"
  by (auto simp: normalize_v4_entry_def Let_def v4_cidr_def ipv4_network_roundtrip
      split: if_splits option.splits)

lemma normalize_v4_ok: "normalize_v4 ips = Inr ts \<Longrightarrow> distinct ts \<and> (\<forall>c \<in> set ts. v4_cidr c)"
  unfolding normalize_v4_def by (erule rfold_invariant) (auto dest: normalize_v4_entry_ok)

section \<open>A kernel whose moments are recorded\<close>

text \<open>
  The packets that arrive meet the maps as they are between two system calls. \<open>trace k\<close>
  are the contents of the maps after each write so far.
\<close>

type_synonym moment = "int \<Rightarrow> (bytes, bytes) dict"

locale logged_kernel = bpf_kernel K entries owned
  for K :: "'k kernel" and entries :: "'k \<Rightarrow> int \<Rightarrow> (bytes, bytes) dict" and owned :: "int set" +
  fixes trace :: "'k \<Rightarrow> moment list"
  assumes trace_update:
    "trace (snd (sys_update K fd key val flg k)) \<in> {trace k, trace k @ [entries (snd (sys_update K fd key val flg k))]}"
    and trace_delete:
    "trace (snd (sys_delete K fd key k)) \<in> {trace k, trace k @ [entries (snd (sys_delete K fd key k))]}"
    and trace_lookup: "trace (snd (sys_lookup K fd key flg k)) = trace k"

text \<open>
  The state of the object and the kernel between two statements: the list holds the
  networks \<open>C\<close>, the errors \<open>er\<close> have been logged, and every recorded moment had a list
  with \<open>G\<close>. \<open>v\<close> are the descriptors of the list and of the configuration.
\<close>

definition listing ::
  "('k \<Rightarrow> moment) \<Rightarrow> ('k \<Rightarrow> moment list) \<Rightarrow> int \<times> int \<Rightarrow> (string set \<Rightarrow> bool) \<Rightarrow> string list \<Rightarrow> string set \<Rightarrow>
     BpfRiskMaps \<times> 'k \<Rightarrow> bool" where
  "listing entries trace v G er C s \<longleftrightarrow>
     lm_fd (rm_map4 (fst s)) = fst v \<and> rc_fd (rm_runtime_cfg (fst s)) = snd v \<and>
     coherent (rm_map4 (fst s)) (entries (snd s) (fst v)) \<and> lm_cache (rm_map4 (fst s)) = C \<and>
     rm_errors (fst s) = er \<and> (\<forall>es \<in> set (trace (snd s)). G (blocked (es (fst v))))"

definition active_flag :: "('k \<Rightarrow> moment) \<Rightarrow> int \<times> int \<Rightarrow> bool \<Rightarrow> BpfRiskMaps \<times> 'k \<Rightarrow> bool" where
  "active_flag entries v b s \<longleftrightarrow>
     (\<exists>val. dict_get (entries (snd s) (snd v)) zero_key = Some val \<and>
        (runtime_fields val ! 8 AND XDP_CFG_FLAG_ABUSEIPDB_ENABLED \<noteq> 0) = b)"

lemma valid_part:
  assumes "\<And>b k x m k'. P (b, k) \<Longrightarrow> p (sel b, k) = (Inr x, (m, k')) \<Longrightarrow> Q x (upd (\<lambda>_. m) b, k')"
    and "\<And>b k e m k'. P (b, k) \<Longrightarrow> p (sel b, k) = (Inl e, (m, k')) \<Longrightarrow> R e (upd (\<lambda>_. m) b, k')"
  shows "valid P (on_part sel upd p) Q R"
proof (rule validI)
  fix s e t assume "P s" "on_part sel upd p s = (Inl e, t)"
  then show "R e t" using assms(2) by (cases s) (auto simp: on_part_def split: prod.splits)
next
  fix s x t assume "P s" "on_part sel upd p s = (Inr x, t)"
  then show "Q x t" using assms(1) by (cases s) (auto simp: on_part_def split: prod.splits)
qed

lemma coherent_insert:
  assumes "coherent m es" "v4_cidr c" "dict_get es' = (dict_get es)(lpm_key c \<mapsto> val)"
  shows "coherent (lm_cache_update (insert c) m) es'"
  using assms by (auto simp: coherent_def dict_simps)

lemma coherent_remove:
  assumes "coherent m es" "v4_cidr c" "dict_get es' = (dict_get es)(lpm_key c := None)"
  shows "coherent (lm_cache_update (\<lambda>C. C - {c}) m) es'"
proof -
  have "dict_keys es' = dict_keys es - {lpm_key c}" using assms(3) by (simp add: dict_simps)
  also have "\<dots> = lpm_key ` (lm_cache m - {c})"
    using assms(1,2) by (auto simp: coherent_def dest: lpm_key_inj)
  finally show ?thesis using assms(1) by (auto simp: coherent_def)
qed

text \<open>The two operations on the list, and what the kernel's answer makes of them.\<close>

lemma lpm_set_run:
  assumes "\<not> lm_v6 m" "v4_cidr c" "sys_update K (lm_fd m) (lpm_key c) (le_bytes 4 1) 0 k = (q, k1)"
  shows "lpm_set K c 1 False (m, k) =
    (case q of Inl n \<Rightarrow> (Inr False, (m, k1)) | Inr _ \<Rightarrow> (Inr True, (lm_cache_update (insert c) m, k1)))"
  using assms lpm_pack [OF assms(2)]
  by (cases q) (simp_all add: lpm_set_def obj_def mtry_def mbind_def mseq_def kern_def bpf_def set_obj_def
      mlift_apply ret_apply)

lemma lpm_delete_run:
  assumes "\<not> lm_v6 m" "v4_cidr c" "sys_delete K (lm_fd m) (lpm_key c) k = (q, k1)"
  shows "lpm_delete K c False (m, k) =
    (if q = Inr () \<or> q = Inl ENOENT then (Inr True, (lm_cache_update (\<lambda>C. C - {c}) m, k1)) else (Inr False, (m, k1)))"
  using assms lpm_pack [OF assms(2)] normalize_v4_cidr [OF assms(2)]
  by (cases q) (simp_all add: lpm_delete_def obj_def mtry_def mbind_def mseq_def kern_def bpf_def set_obj_def
      mlift_apply ret_apply)

text \<open>A step of the list to a state that is recorded or not.\<close>

lemma listing_step:
  assumes "listing entries trace v G er C (m, k)" "coherent m' (entries k' (fst v))" "lm_fd m' = lm_fd (rm_map4 m)"
    "trace k' \<in> {trace k, trace k @ [entries k']}" "lm_cache m' = C'" "G C'"
  shows "listing entries trace v G er C' (rm_map4_update (\<lambda>_. m') m, k')"
  using assms coherent_blocked [OF assms(2)] by (auto simp: listing_def)

lemma le_fields_range: "x \<in> set (le_fields w n buf) \<Longrightarrow> 0 \<le> x \<and> x < 256 ^ w"
proof (induction n arbitrary: buf)
  case (Suc n)
  have "(256 :: int) ^ length (take w buf) \<le> 256 ^ w" by (rule power_increasing) simp_all
  then have "0 \<le> int_of_le (take w buf) \<and> int_of_le (take w buf) < 256 ^ w"
    using int_of_le_range [of "take w buf"] by linarith
  with Suc show ?case by auto
qed simp

lemma length_le_fields [simp]: "length (le_fields w n buf) = n"
  by (induction n arbitrary: buf) simp_all

lemma pack_all_ok: "\<forall>x \<in> set xs. 0 \<le> x \<and> x < 256 ^ w \<Longrightarrow> \<exists>bs. pack_all (pack_uint w) xs = Inr bs"
proof (induction xs)
  case (Cons x xs)
  then show ?case by (auto simp: pack_all_def pack_uint_def rbind_def split: sum.splits)
qed (simp add: pack_all_def)

lemma flags_with_active_range:
  "0 \<le> f \<Longrightarrow> f < 2 ^ 32 \<Longrightarrow> 0 \<le> flags_with_active b f \<and> flags_with_active b f < 2 ^ 32"
  using OR_upper [of f 32 2] AND_upper1 [of f "NOT 2"]
  by (auto simp: flags_with_active_def XDP_CFG_FLAG_ABUSEIPDB_ENABLED_def)

lemma flag_bit: "(f AND XDP_CFG_FLAG_ABUSEIPDB_ENABLED \<noteq> 0) = bit f 1"
  using and_exp_eq_0_iff_not_bit [of f 1] by (simp add: XDP_CFG_FLAG_ABUSEIPDB_ENABLED_def)

lemma flags_with_active_bit: "bit (flags_with_active b f) n = (if n = 1 then b else bit f n)"
proof -
  have two: "XDP_CFG_FLAG_ABUSEIPDB_ENABLED = 2 ^ 1" by (simp add: XDP_CFG_FLAG_ABUSEIPDB_ENABLED_def)
  have "bit XDP_CFG_FLAG_ABUSEIPDB_ENABLED n \<longleftrightarrow> n = 1" unfolding two bit_exp_iff by auto
  then show ?thesis by (auto simp: flags_with_active_def bit_or_iff bit_and_iff bit_not_iff)
qed

text \<open>Whatever was read before, the new value of the configuration can be written.\<close>

lemma runtime_value_ok:
  assumes "ts = replicate 8 0 \<or> (\<exists>val. ts = take 8 (runtime_fields val))" "0 \<le> f" "f < 2 ^ 32"
  shows "\<exists>new. runtime_value ts f = Inr new"
proof -
  have ts: "length ts = 8" "\<forall>x \<in> set ts. 0 \<le> x \<and> x < 256 ^ 8"
    using assms(1) le_fields_range [of _ 8 8] by (auto simp: runtime_fields_def simp del: le_fields.simps)
  obtain a where "pack_all (pack_uint 8) ts = Inr a" using pack_all_ok [OF ts(2)] by blast
  moreover obtain b where "pack_all (pack_uint 4) [f, 0] = Inr b"
    using pack_all_ok [of "[f, 0]" 4] assms(2,3) by auto
  ultimately show ?thesis using ts(1) by (simp add: runtime_value_def pack_append_def pack_u64_def pack_u32_def rbind_def)
qed

lemma runtime_read:
  "\<exists>read. runtime_lookup_raw K (m, k) = (Inr read, (m, snd (sys_lookup K (rc_fd m) zero_key 0 k))) \<and>
    (\<forall>fs. read = Some fs \<longrightarrow> (\<exists>val. fs = runtime_fields val))"
  by (cases "sys_lookup K (rc_fd m) zero_key 0 k"; cases "fst (sys_lookup K (rc_fd m) zero_key 0 k)")
    (auto simp: runtime_lookup_raw_def obj_def mtry_def mbind_def kern_def bpf_def ret_apply)

text \<open>\<open>set_active\<close>: two lookups and one write, whose answer decides.\<close>

lemma set_active_run:
  fixes K :: "'k kernel"
  defines "look \<equiv> \<lambda>fd k. snd (sys_lookup K fd zero_key 0 k)"
  shows "\<exists>new. (runtime_fields new ! 8 AND XDP_CFG_FLAG_ABUSEIPDB_ENABLED \<noteq> 0) = b \<and>
    risk_set_active K b (m, k) =
      (case sys_update K (rc_fd (rm_runtime_cfg m)) zero_key new 0
              (look (rc_fd (rm_runtime_cfg m)) (look (rc_fd (rm_runtime_cfg m)) k)) of
         (q, k') \<Rightarrow> ((if q = Inr () then Inr () else Inl (OSError 0)), (m, k')))"
proof -
  let ?c = "rm_runtime_cfg m" and ?k1 = "look (rc_fd (rm_runtime_cfg m)) k"
  obtain read1 where r1: "runtime_lookup_raw K (?c, k) = (Inr read1, (?c, ?k1))"
    and v1: "\<forall>fs. read1 = Some fs \<longrightarrow> (\<exists>val. fs = runtime_fields val)"
    using runtime_read [of K ?c k] by (auto simp: look_def)
  obtain read2 where r2: "runtime_lookup_raw K (?c, ?k1) = (Inr read2, (?c, look (rc_fd ?c) ?k1))"
    and v2: "\<forall>fs. read2 = Some fs \<longrightarrow> (\<exists>val. fs = runtime_fields val)"
    using runtime_read [of K ?c ?k1] by (auto simp: look_def)
  let ?f = "case read1 of None \<Rightarrow> 0 | Some fs \<Rightarrow> fs ! 8"
  let ?t = "case read2 of None \<Rightarrow> replicate 8 0 | Some fs \<Rightarrow> take 8 fs"
  have "0 \<le> ?f \<and> ?f < 2 ^ 32"
  proof (cases read1)
    case (Some fs)
    with v1 obtain val where fs: "fs = le_fields 8 8 val @ le_fields 4 2 (drop 64 val)" by (auto simp: runtime_fields_def)
    then have "fs ! 8 = le_fields 4 2 (drop 64 val) ! 0" by (simp add: nth_append del: le_fields.simps)
    then have "fs ! 8 \<in> set (le_fields 4 2 (drop 64 val))" by (simp only:) (rule nth_mem, simp del: le_fields.simps)
    from le_fields_range [OF this] Some show ?thesis by simp
  qed simp
  with flags_with_active_range [of ?f b] have f: "0 \<le> flags_with_active b ?f" "flags_with_active b ?f < 2 ^ 32" by blast+
  have "?t = replicate 8 0 \<or> (\<exists>val. ?t = take 8 (runtime_fields val))" using v2 by (auto split: option.splits)
  from runtime_value_ok [OF this f] obtain new where new: "runtime_value ?t (flags_with_active b ?f) = Inr new" by blast
  have len: "length ?t = 8" using new by (auto simp: runtime_value_def split: if_splits)
  have "runtime_fields new ! 8 = flags_with_active b ?f"
    using runtime_value_read [OF new] len by (simp add: nth_append del: length_0_conv)
  then have bit: "(runtime_fields new ! 8 AND XDP_CFG_FLAG_ABUSEIPDB_ENABLED \<noteq> 0) = b"
    by (simp add: flag_bit flags_with_active_bit)
  have get: "on_cfg (runtime_get_cfg_flags K) (m, k) = (Inr (map_option (\<lambda>r. r ! 8) read1), (m, ?k1))"
    "on_cfg (runtime_get K) (m, ?k1) = (Inr (map_option (take 8) read2), (m, look (rc_fd ?c) ?k1))"
    using r1 r2 by (simp_all add: on_part_def runtime_get_cfg_flags_def runtime_get_def mbind_def ret_apply)
  have set: "on_cfg (runtime_set K ?t (flags_with_active b ?f) False) (m, look (rc_fd ?c) ?k1) =
      (case sys_update K (rc_fd ?c) zero_key new 0 (look (rc_fd ?c) ?k1) of
         (q, k') \<Rightarrow> (Inr (q = Inr ()), (m, k')))"
    using new by (simp add: on_part_def runtime_set_def guarded_update_def pack_pair_def rbind_def obj_def mtry_def mbind_def
        mseq_def kern_def bpf_def set_obj_def ret_apply split: prod.splits sum.splits)
  have "risk_set_active K b (m, k) =
      mbind (on_cfg (runtime_set K ?t (flags_with_active b ?f) False))
        (\<lambda>ok. if ok then ret () else raise_exn (OSError 0)) (m, look (rc_fd ?c) ?k1)"
    unfolding risk_set_active_def Let_def
    by (cases read1; cases read2) (use get in \<open>simp_all add: mbind_def\<close>)
  also have "\<dots> = (case sys_update K (rc_fd ?c) zero_key new 0 (look (rc_fd ?c) ?k1) of
         (q, k') \<Rightarrow> ((if q = Inr () then Inr () else Inl (OSError 0)), (m, k')))"
    by (simp add: mbind_def set split: prod.splits)
  finally show ?thesis using bit by blast
qed

context logged_kernel
begin

lemma set_listing:
  assumes "fst v \<in> owned" "v4_cidr c" "G C" "G (insert c C)"
  shows "valid (listing entries trace v G er C) (on_map4 (lpm_set K c 1 False))
    (\<lambda>ok. listing entries trace v G er (if ok then insert c C else C)) (\<lambda>_ _. False)"
proof -
  have run: "\<exists>ok. r = Inr ok \<and> listing entries trace v G er (if ok then insert c C else C) (rm_map4_update (\<lambda>_. m') m, k')"
    if s: "listing entries trace v G er C (m, k)" and set: "lpm_set K c 1 False (rm_map4 m, k) = (r, (m', k'))" for m k r m' k'
  proof -
    let ?fd = "fst v" and ?m = "rm_map4 m"
    from s have fd: "lm_fd ?m = ?fd" and co: "coherent ?m (entries k ?fd)" and C: "lm_cache ?m = C"
      by (simp_all add: listing_def)
    then have v6: "\<not> lm_v6 ?m" by (simp add: coherent_def)
    obtain q k1 where u: "sys_update K ?fd (lpm_key c) (le_bytes 4 1) 0 k = (q, k1)" by (metis surj_pair)
    have tr: "trace k1 \<in> {trace k, trace k @ [entries k1]}" using trace_update [of ?fd "lpm_key c" "le_bytes 4 1" 0 k] u by simp
    note set = set lpm_set_run [OF v6 assms(2) u [folded fd]]
    show ?thesis
    proof (cases q)
      case (Inl n)
      have "entries k1 ?fd = entries k ?fd" using update_err [OF assms(1)] u Inl by blast
      with co have "coherent ?m (entries k1 ?fd)" by simp
      note step = listing_step [OF s this refl tr C assms(3)]
      have "r = Inr False" "m' = ?m" "k' = k1" using set Inl by simp_all
      with step show ?thesis by (intro exI [of _ False]) simp
    next
      case (Inr x)
      have "dict_get (entries k1 ?fd) = (dict_get (entries k ?fd))(lpm_key c \<mapsto> le_bytes 4 1)"
        using update_ok [OF assms(1)] u Inr by (simp add: fun_upd_def)
      note step = listing_step [OF s coherent_insert [OF co assms(2) this] _ tr _ assms(4)]
      have "r = Inr True" "m' = lm_cache_update (insert c) ?m" "k' = k1" using set Inr by simp_all
      with step C show ?thesis by (intro exI [of _ True]) simp
    qed
  qed
  show ?thesis by (rule valid_part) (use run in blast)+
qed

lemma delete_listing:
  assumes "fst v \<in> owned" "v4_cidr c" "G C" "G (C - {c})"
  shows "valid (listing entries trace v G er C) (on_map4 (lpm_delete K c False))
    (\<lambda>ok. listing entries trace v G er (if ok then C - {c} else C)) (\<lambda>_ _. False)"
proof -
  have run: "\<exists>ok. r = Inr ok \<and> listing entries trace v G er (if ok then C - {c} else C) (rm_map4_update (\<lambda>_. m') m, k')"
    if s: "listing entries trace v G er C (m, k)" and del: "lpm_delete K c False (rm_map4 m, k) = (r, (m', k'))" for m k r m' k'
  proof -
    let ?fd = "fst v" and ?m = "rm_map4 m"
    from s have fd: "lm_fd ?m = ?fd" and co: "coherent ?m (entries k ?fd)" and C: "lm_cache ?m = C"
      by (simp_all add: listing_def)
    then have v6: "\<not> lm_v6 ?m" by (simp add: coherent_def)
    obtain q k1 where u: "sys_delete K ?fd (lpm_key c) k = (q, k1)" by (metis surj_pair)
    have tr: "trace k1 \<in> {trace k, trace k @ [entries k1]}" using trace_delete [of ?fd "lpm_key c" k] u by simp
    note del = del lpm_delete_run [OF v6 assms(2) u [folded fd]]
    have same: "entries k1 ?fd = entries k ?fd" if "q = Inl n" for n using delete_err [OF assms(1)] u that by blast
    show ?thesis
    proof (cases "q = Inr () \<or> q = Inl ENOENT")
      case True
      have "dict_get (entries k1 ?fd) = (dict_get (entries k ?fd))(lpm_key c := None)"
      proof (cases "q = Inr ()")
        case False
        with True have "dict_get (entries k ?fd) (lpm_key c) = None" using delete_enoent [OF assms(1)] u by blast
        with same True False show ?thesis by (metis fun_upd_triv)
      qed (use delete_ok [OF assms(1)] u in \<open>simp add: fun_upd_def\<close>)
      note step = listing_step [OF s coherent_remove [OF co assms(2) this] _ tr _ assms(4)]
      have "r = Inr True" "m' = lm_cache_update (\<lambda>C. C - {c}) ?m" "k' = k1" using del True by auto
      with step C show ?thesis by (intro exI [of _ True]) simp
    next
      case False
      then obtain n where "q = Inl n" by (cases q) auto
      with same co have "coherent ?m (entries k1 ?fd)" by simp
      note step = listing_step [OF s this refl tr C assms(3)]
      have "r = Inr False" "m' = ?m" "k' = k1" using del False by simp_all
      with step show ?thesis by (intro exI [of _ False]) simp
    qed
  qed
  show ?thesis by (rule valid_part) (use run in blast)+
qed

end

context logged_kernel
begin

lemma active_listing:
  assumes "fst v \<in> owned" "snd v \<in> owned" "fst v \<noteq> snd v" "G C"
  shows "valid (listing entries trace v G er C) (risk_set_active K b)
    (\<lambda>_ s. listing entries trace v G er C s \<and> active_flag entries v b s)
    (\<lambda>e s. e = OSError 0 \<and> listing entries trace v G er C s)"
proof -
  have run: "(if r = Inr () then active_flag entries v b (m', k') else r = Inl (OSError 0)) \<and> listing entries trace v G er C (m', k')"
    if s: "listing entries trace v G er C (m, k)" and run: "risk_set_active K b (m, k) = (r, (m', k'))" for m k r m' k'
  proof -
    have c: "rc_fd (rm_runtime_cfg m) = snd v" and co: "coherent (rm_map4 m) (entries k (fst v))" and C: "lm_cache (rm_map4 m) = C"
      using s by (simp_all add: listing_def)
    define k2 where "k2 = snd (sys_lookup K (snd v) zero_key 0 (snd (sys_lookup K (snd v) zero_key 0 k)))"
    have k2: "entries k2 (fst v) = entries k (fst v)" "trace k2 = trace k"
      by (simp_all add: k2_def lookup_frame [OF assms(1)] trace_lookup)
    obtain new where bit: "(runtime_fields new ! 8 AND XDP_CFG_FLAG_ABUSEIPDB_ENABLED \<noteq> 0) = b"
      and act: "risk_set_active K b (m, k) = (case sys_update K (snd v) zero_key new 0 k2 of
         (q, k') \<Rightarrow> ((if q = Inr () then Inr () else Inl (OSError 0)), (m, k')))"
      using set_active_run [where K = K and m = m and k = k and b = b] by (auto simp: c k2_def)
    obtain q where u: "sys_update K (snd v) zero_key new 0 k2 = (q, k')" and m: "m' = m"
      and r: "r = (if q = Inr () then Inr () else Inl (OSError 0))"
      using act run by (auto split: prod.splits)
    have es: "entries k' (fst v) = entries k (fst v)"
      using update_frame [OF assms(1,3), of zero_key new 0 k2] u k2 by simp
    have tr: "trace k' \<in> {trace k, trace k @ [entries k']}"
      using trace_update [of "snd v" zero_key new 0 k2] u k2 by simp
    have "listing entries trace v G er C (rm_map4_update (\<lambda>_. rm_map4 m) m, k')"
      using s co es tr C by (intro listing_step [OF s _ refl tr C assms(4)]) simp
    moreover have "active_flag entries v b (m', k')" if "r = Inr ()"
      using update_ok [OF assms(2)] u r that bit by (auto simp: active_flag_def split: if_splits)
    ultimately show ?thesis using m r by auto
  qed
  show ?thesis
  proof (rule validI)
    fix s e t assume "listing entries trace v G er C s" "risk_set_active K b s = (Inl e, t)"
    then show "e = OSError 0 \<and> listing entries trace v G er C t" using run [of "fst s" "snd s" "Inl e" "fst t" "snd t"] by simp
  next
    fix s x t assume "listing entries trace v G er C s" "risk_set_active K b s = (Inr x, t)"
    then show "listing entries trace v G er C t \<and> active_flag entries v b t"
      using run [of "fst s" "snd s" "Inr x" "fst t" "snd t"] by simp
  qed
qed

lemma log_listing:
  "valid (listing entries trace v G er C) (log_error msg) (\<lambda>_. listing entries trace v G (er @ [msg]) C) R"
  unfolding log_error_def by (rule valid_set_obj) (simp add: listing_def)

lemma log_after:
  "(\<And>s. listing entries trace v G (er @ [msg]) C s \<Longrightarrow> Q s) \<Longrightarrow>
     valid (listing entries trace v G er C) (log_error msg) (\<lambda>_. Q) R"
  by (rule valid_weaken [OF log_listing])

end

section \<open>The phases of replace\_all\<close>

text \<open>The same with what was added and removed so far.\<close>

definition in_run ::
  "('k \<Rightarrow> moment) \<Rightarrow> ('k \<Rightarrow> moment list) \<Rightarrow> int \<times> int \<Rightarrow> (string set \<Rightarrow> bool) \<Rightarrow> string list \<Rightarrow> string set \<Rightarrow>
     string list \<Rightarrow> string list \<Rightarrow> replace_run \<times> 'k \<Rightarrow> bool" where
  "in_run entries trace v G er C a d s \<longleftrightarrow>
     listing entries trace v G er C (rr_maps (fst s), snd s) \<and> rr_added (fst s) = a \<and> rr_removed (fst s) = d"

text \<open>Lists that block all of the old list or all of the new one, and nothing else; and lists that
  block at least what is on both.\<close>

definition covers :: "string set \<Rightarrow> string set \<Rightarrow> string set \<Rightarrow> bool" where
  "covers S T C \<longleftrightarrow> (S \<subseteq> C \<or> T \<subseteq> C) \<and> C \<subseteq> S \<union> T"

definition between :: "string set \<Rightarrow> string set \<Rightarrow> string set \<Rightarrow> bool" where
  "between S T C \<longleftrightarrow> S \<inter> T \<subseteq> C \<and> C \<subseteq> S \<union> T"

lemma covers_between: "covers S T C \<Longrightarrow> between S T C"
  by (auto simp: covers_def between_def)

text \<open>What a failed body leaves behind.\<close>

definition half_done ::
  "('k \<Rightarrow> moment) \<Rightarrow> ('k \<Rightarrow> moment list) \<Rightarrow> int \<times> int \<Rightarrow> (string set \<Rightarrow> bool) \<Rightarrow> string list \<Rightarrow> string set \<Rightarrow>
     string set \<Rightarrow> replace_run \<times> 'k \<Rightarrow> bool" where
  "half_done entries trace v G er S T s \<longleftrightarrow>
     (\<exists>a d. set a \<subseteq> T - S \<and> set d \<subseteq> S - T \<and> in_run entries trace v G er (S \<union> set a - set d) a d s)"

lemma half_doneI:
  "set a \<subseteq> T - S \<Longrightarrow> set d \<subseteq> S - T \<Longrightarrow> S \<union> set a - set d = C \<Longrightarrow> in_run entries trace v G er C a d s \<Longrightarrow>
     half_done entries trace v G er S T s"
  unfolding half_done_def by blast

lemma half_done_staged:
  "set a \<subseteq> T - S \<Longrightarrow> in_run entries trace v G er (S \<union> set a) a [] s \<Longrightarrow> half_done entries trace v G er S T s"
  unfolding half_done_def by (intro exI [of _ a] exI [of _ "[]"]) simp

lemma listing_mono:
  "listing entries trace v G er C s \<Longrightarrow> (\<And>C. G C \<Longrightarrow> G' C) \<Longrightarrow> listing entries trace v G' er C s"
  by (auto simp: listing_def)

lemma valid_on_maps:
  assumes "valid P p Q R"
  shows "valid (\<lambda>s. P (rr_maps (fst s), snd s) \<and> rr_added (fst s) = a \<and> rr_removed (fst s) = d) (on_maps p)
    (\<lambda>x s. Q x (rr_maps (fst s), snd s) \<and> rr_added (fst s) = a \<and> rr_removed (fst s) = d)
    (\<lambda>e s. R e (rr_maps (fst s), snd s) \<and> rr_added (fst s) = a \<and> rr_removed (fst s) = d)"
  by (rule valid_part) (auto dest: validD1 [OF assms] validD2 [OF assms])

context logged_kernel
begin

lemma stage_run:
  assumes "fst v \<in> owned" "v4_cidr c" "G C" "G (insert c C)"
  shows "valid (in_run entries trace v G er C a d) (stage_entry K c)
    (\<lambda>_. in_run entries trace v G er (insert c C) (a @ [c]) d) (\<lambda>e s. e = RuntimeErr \<and> in_run entries trace v G er C a d s)"
  unfolding stage_entry_def in_run_def
proof (rule valid_bind)
  show "valid (\<lambda>s. listing entries trace v G er C (rr_maps (fst s), snd s) \<and> rr_added (fst s) = a \<and> rr_removed (fst s) = d)
      (on_maps (on_map4 (lpm_set K c 1 False)))
      (\<lambda>ok s. listing entries trace v G er (if ok then insert c C else C) (rr_maps (fst s), snd s) \<and>
        rr_added (fst s) = a \<and> rr_removed (fst s) = d) (\<lambda>e s. e = RuntimeErr \<and> listing entries trace v G er C (rr_maps (fst s), snd s) \<and>
        rr_added (fst s) = a \<and> rr_removed (fst s) = d)"
    by (rule valid_weaken [OF valid_on_maps [OF set_listing [OF assms]]]) auto
qed (auto simp: in_run_def intro!: valid_if valid_set_obj valid_raise)

lemma remove_run:
  assumes "fst v \<in> owned" "v4_cidr c" "G C" "G (C - {c})"
  shows "valid (in_run entries trace v G er C a d) (remove_entry K c)
    (\<lambda>_. in_run entries trace v G er (C - {c}) a (d @ [c])) (\<lambda>e s. e = RuntimeErr \<and> in_run entries trace v G er C a d s)"
  unfolding remove_entry_def in_run_def
proof (rule valid_bind)
  show "valid (\<lambda>s. listing entries trace v G er C (rr_maps (fst s), snd s) \<and> rr_added (fst s) = a \<and> rr_removed (fst s) = d)
      (on_maps (on_map4 (lpm_delete K c False)))
      (\<lambda>ok s. listing entries trace v G er (if ok then C - {c} else C) (rr_maps (fst s), snd s) \<and>
        rr_added (fst s) = a \<and> rr_removed (fst s) = d) (\<lambda>e s. e = RuntimeErr \<and> listing entries trace v G er C (rr_maps (fst s), snd s) \<and>
        rr_added (fst s) = a \<and> rr_removed (fst s) = d)"
    by (rule valid_weaken [OF valid_on_maps [OF delete_listing [OF assms]]]) auto
qed (auto simp: in_run_def intro!: valid_if valid_set_obj valid_raise)

text \<open>The body: after each phase the list is known, and before the end it has all of one of the lists.\<close>

lemma stage_phase:
  assumes "fst v \<in> owned" "finite T" "\<forall>c \<in> T. v4_cidr c" "\<And>C. covers S T C \<Longrightarrow> G C"
  shows "valid (in_run entries trace v G er S [] []) (mfor (sorted_list_of_set (T - S)) (stage_entry K))
    (\<lambda>_. in_run entries trace v G er (S \<union> T) (sorted_list_of_set (T - S)) [])
    (\<lambda>e s. e = RuntimeErr \<and> (\<exists>a. set a \<subseteq> T - S \<and> in_run entries trace v G er (S \<union> set a) a [] s))"
proof -
  let ?xs = "sorted_list_of_set (T - S)"
  have set: "set ?xs = T - S" using assms(2) by simp
  have "valid (in_run entries trace v G er (S \<union> set []) [] []) (mfor ?xs (stage_entry K))
    (\<lambda>_. in_run entries trace v G er (S \<union> set ?xs) ?xs [])
    (\<lambda>e s. e = RuntimeErr \<and> (\<exists>a. set a \<subseteq> T - S \<and> in_run entries trace v G er (S \<union> set a) a [] s))"
  proof (rule valid_for)
    fix x pre post assume xs: "?xs = pre @ x # post"
    from xs set have x: "x \<in> T" and pre: "set pre \<subseteq> T - S"
      by (metis Diff_iff in_set_conv_decomp) (metis Un_upper1 set set_append xs)
    have G: "G (S \<union> set pre)" "G (insert x (S \<union> set pre))"
      using x pre by (auto intro!: assms(4) simp: covers_def)
    have c: "v4_cidr x" using x assms(3) by blast
    show "valid (in_run entries trace v G er (S \<union> set pre) pre []) (stage_entry K x)
      (\<lambda>_. in_run entries trace v G er (S \<union> set (pre @ [x])) (pre @ [x]) [])
      (\<lambda>e s. e = RuntimeErr \<and> (\<exists>a. set a \<subseteq> T - S \<and> in_run entries trace v G er (S \<union> set a) a [] s))"
      by (rule valid_weaken [OF stage_run [OF assms(1) c G]]) (use pre in auto)
  qed
  then show ?thesis using set by (simp add: Un_Diff_cancel)
qed

lemma remove_phase:
  assumes "fst v \<in> owned" "finite S" "\<forall>c \<in> S. v4_cidr c" "\<And>C. covers S T C \<Longrightarrow> G C"
  shows "valid (in_run entries trace v G er (S \<union> T) a []) (mfor (sorted_list_of_set (S - T)) (remove_entry K))
    (\<lambda>_. in_run entries trace v G er T a (sorted_list_of_set (S - T)))
    (\<lambda>e s. e = RuntimeErr \<and> (\<exists>d. set d \<subseteq> S - T \<and> in_run entries trace v G er (S \<union> T - set d) a d s))"
proof -
  let ?xs = "sorted_list_of_set (S - T)"
  have set: "set ?xs = S - T" using assms(2) by simp
  have "valid (in_run entries trace v G er (S \<union> T - set []) a []) (mfor ?xs (remove_entry K))
    (\<lambda>_. in_run entries trace v G er (S \<union> T - set ?xs) a ?xs)
    (\<lambda>e s. e = RuntimeErr \<and> (\<exists>d. set d \<subseteq> S - T \<and> in_run entries trace v G er (S \<union> T - set d) a d s))"
  proof (rule valid_for)
    fix x pre post assume xs: "?xs = pre @ x # post"
    from xs set have x: "x \<in> S - T" and pre: "set pre \<subseteq> S - T"
      by (metis in_set_conv_decomp) (metis Un_upper1 set set_append xs)
    have G: "G (S \<union> T - set pre)" "G (S \<union> T - set pre - {x})"
      using x pre by (auto intro!: assms(4) simp: covers_def)
    have c: "v4_cidr x" using x assms(3) by blast
    have left: "S \<union> T - set pre - {x} = S \<union> T - set (pre @ [x])" by auto
    show "valid (in_run entries trace v G er (S \<union> T - set pre) a pre) (remove_entry K x)
      (\<lambda>_. in_run entries trace v G er (S \<union> T - set (pre @ [x])) a (pre @ [x]))
      (\<lambda>e s. e = RuntimeErr \<and> (\<exists>d. set d \<subseteq> S - T \<and> in_run entries trace v G er (S \<union> T - set d) a d s))"
      unfolding left [symmetric] by (rule valid_weaken [OF remove_run [OF assms(1) c G]]) (use pre in auto)
  qed
  moreover have "S \<union> T - (S - T) = T" by blast
  ultimately show ?thesis using set by simp
qed

lemma body_phases:
  assumes "fst v \<in> owned" "snd v \<in> owned" "fst v \<noteq> snd v" "finite S" "finite T" "\<forall>c \<in> S \<union> T. v4_cidr c"
    "\<And>C. covers S T C \<Longrightarrow> G C"
  shows "valid (in_run entries trace v G er S [] []) (replace_body K T S)
    (\<lambda>_ s. listing entries trace v G er T (rr_maps (fst s), snd s) \<and> active_flag entries v (T \<noteq> {}) (rr_maps (fst s), snd s))
    (\<lambda>e s. e \<in> {RuntimeErr, OSError 0} \<and> half_done entries trace v G er S T s)"
proof -
  let ?a = "sorted_list_of_set (T - S)" and ?d = "sorted_list_of_set (S - T)"
  let ?R = "\<lambda>e s. e \<in> {RuntimeErr, OSError 0} \<and> half_done entries trace v G er S T s"
  have sets: "set ?a = T - S" "set ?d = S - T" using assms(4,5) by simp_all
  have removing: "S \<union> T - set d = S \<union> set ?a - set d" for d using sets by auto
  have stage: "valid (in_run entries trace v G er S [] []) (mfor ?a (stage_entry K))
      (\<lambda>_. in_run entries trace v G er (S \<union> T) ?a []) ?R"
    by (rule valid_weaken [OF stage_phase [OF assms(1,5) _ assms(7)]])
      (use assms(6) in \<open>auto intro: half_done_staged\<close>)
  have remove: "valid (in_run entries trace v G er (S \<union> T) ?a []) (mfor ?d (remove_entry K))
      (\<lambda>_. in_run entries trace v G er T ?a ?d) ?R"
    by (rule valid_weaken [OF remove_phase [OF assms(1,4) _ assms(7)]])
      (use assms(6) sets removing [symmetric] half_doneI [of ?a T S _ _ entries trace v G er] in auto)
  have "G T" by (rule assms(7)) (simp add: covers_def)
  note active = valid_on_maps [OF active_listing [where v = v and G = G and C = T, OF assms(1,2,3) this], where a = ?a and d = ?d]
  have T: "S \<union> set ?a - set ?d = T" using sets by auto
  have active: "valid (in_run entries trace v G er T ?a ?d) (on_maps (risk_set_active K (T \<noteq> {})))
      (\<lambda>_ s. listing entries trace v G er T (rr_maps (fst s), snd s) \<and> active_flag entries v (T \<noteq> {}) (rr_maps (fst s), snd s)) ?R"
    by (rule valid_weaken [OF active])
      (use half_doneI [OF _ _ T, of T entries trace v G er] sets in \<open>auto simp: in_run_def\<close>)
  show ?thesis
    unfolding replace_body_def by (intro valid_seq [OF stage] valid_seq [OF remove] active)
qed

end

text \<open>
  The roll back goes on after a write that fails: then an error has been logged, and the
  list is only known to lie between the two lists.
\<close>

definition rolling ::
  "('k \<Rightarrow> moment) \<Rightarrow> ('k \<Rightarrow> moment list) \<Rightarrow> int \<times> int \<Rightarrow> string list \<Rightarrow> string set \<Rightarrow> string set \<Rightarrow>
     string set \<Rightarrow> BpfRiskMaps \<times> 'k \<Rightarrow> bool" where
  "rolling entries trace v er S T D s \<longleftrightarrow>
     (\<exists>C er'. between S T C \<and> (er' = [] \<longrightarrow> C = D) \<and> listing entries trace v (between S T) (er @ er') C s)"

lemma valid_logged:
  assumes "\<And>C er'. between S T C \<Longrightarrow> (er' = [] \<longrightarrow> C = D) \<Longrightarrow>
      valid (listing entries trace v (between S T) (er @ er') C) m Q R"
  shows "valid (rolling entries trace v er S T D) m Q R"
  unfolding rolling_def by (intro valid_ex valid_pre) (use assms in blast)

context logged_kernel
begin

lemma undo_stage_rolling:
  assumes "fst v \<in> owned" "v4_cidr c" "c \<in> T - S"
  shows "valid (rolling entries trace v er S T D) (undo_stage K c) (\<lambda>_. rolling entries trace v er S T (D - {c})) (\<lambda>_ _. False)"
proof (rule valid_logged)
  fix C and er' :: "string list" assume C: "between S T C" "er' = [] \<longrightarrow> C = D"
  then have C': "between S T (C - {c})" using assms(3) by (auto simp: between_def)
  show "valid (listing entries trace v (between S T) (er @ er') C) (undo_stage K c)
      (\<lambda>_. rolling entries trace v er S T (D - {c})) (\<lambda>_ _. False)"
    unfolding undo_stage_def
  proof (rule valid_bind [OF delete_listing [where G = "between S T", OF assms(1,2) C(1) C']])
    fix ok
    show "valid (listing entries trace v (between S T) (er @ er') (if ok then C - {c} else C))
        (if ok then ret () else log_error (''Failed to roll back staged AbuseIPDB entry '' @ c))
        (\<lambda>_. rolling entries trace v er S T (D - {c})) (\<lambda>_ _. False)"
    proof (cases ok)
      case True
      have "rolling entries trace v er S T (D - {c}) s" if "listing entries trace v (between S T) (er @ er') (C - {c}) s" for s
        unfolding rolling_def using C C' that by (intro exI [of _ "C - {c}"] exI [of _ er']) simp
      with True show ?thesis by (simp add: valid_ret)
    next
      case False
      have "rolling entries trace v er S T (D - {c}) s" if "listing entries trace v (between S T) ((er @ er') @ [msg]) C s" for s msg
        unfolding rolling_def using C that by (intro exI [of _ C] exI [of _ "er' @ [msg]"]) simp
      with False show ?thesis by (simp only: if_False) (rule log_after)
    qed
  qed
qed

lemma undo_removal_rolling:
  assumes "fst v \<in> owned" "v4_cidr c" "c \<in> S - T"
  shows "valid (rolling entries trace v er S T D) (undo_removal K c) (\<lambda>_. rolling entries trace v er S T (insert c D)) (\<lambda>_ _. False)"
proof (rule valid_logged)
  fix C and er' :: "string list" assume C: "between S T C" "er' = [] \<longrightarrow> C = D"
  then have C': "between S T (insert c C)" using assms(3) by (auto simp: between_def)
  show "valid (listing entries trace v (between S T) (er @ er') C) (undo_removal K c)
      (\<lambda>_. rolling entries trace v er S T (insert c D)) (\<lambda>_ _. False)"
    unfolding undo_removal_def
  proof (rule valid_bind [OF set_listing [where G = "between S T", OF assms(1,2) C(1) C']])
    fix ok
    show "valid (listing entries trace v (between S T) (er @ er') (if ok then insert c C else C))
        (if ok then ret () else log_error (''Failed to restore AbuseIPDB entry '' @ c))
        (\<lambda>_. rolling entries trace v er S T (insert c D)) (\<lambda>_ _. False)"
    proof (cases ok)
      case True
      have "rolling entries trace v er S T (insert c D) s" if "listing entries trace v (between S T) (er @ er') (insert c C) s" for s
        unfolding rolling_def using C C' that by (intro exI [of _ "insert c C"] exI [of _ er']) simp
      with True show ?thesis by (simp add: valid_ret)
    next
      case False
      have "rolling entries trace v er S T (insert c D) s" if "listing entries trace v (between S T) ((er @ er') @ [msg]) C s" for s msg
        unfolding rolling_def using C that by (intro exI [of _ C] exI [of _ "er' @ [msg]"]) simp
      with False show ?thesis by (simp only: if_False) (rule log_after)
    qed
  qed
qed

lemma undo_phases:
  assumes "fst v \<in> owned" "snd v \<in> owned" "fst v \<noteq> snd v" "\<forall>c \<in> S \<union> T. v4_cidr c"
  shows "valid (half_done entries trace v (between S T) er S T) (replace_undo K pa)
    (\<lambda>_ s. \<exists>C er'. between S T C \<and> (er' = [] \<longrightarrow> C = S \<and> active_flag entries v pa (rr_maps (fst s), snd s)) \<and>
       listing entries trace v (between S T) (er @ er') C (rr_maps (fst s), snd s)) (\<lambda>_ _. False)"
proof -
  let ?End = "\<lambda>s. \<exists>C er'. between S T C \<and> (er' = [] \<longrightarrow> C = S \<and> active_flag entries v pa s) \<and>
       listing entries trace v (between S T) (er @ er') C s"
  let ?act = "mtry (risk_set_active K pa) (on_oserror (\<lambda>_. log_error ''Failed to restore AbuseIPDB active flag''))"
  have undo: "valid (rolling entries trace v er S T (S \<union> set a - set d))
      (mseq (mfor (rev a) (undo_stage K)) (mseq (mfor d (undo_removal K)) ?act)) (\<lambda>_. ?End) (\<lambda>_ _. False)"
    if a: "set a \<subseteq> T - S" and d: "set d \<subseteq> S - T" for a d
  proof (intro valid_seq)
    have "valid (rolling entries trace v er S T (S \<union> set a - set d - set []))
        (mfor (rev a) (undo_stage K)) (\<lambda>_. rolling entries trace v er S T (S \<union> set a - set d - set (rev a))) (\<lambda>_ _. False)"
    proof (rule valid_for)
      fix x pre post assume "rev a = pre @ x # post"
      then have "x \<in> set a" by (metis in_set_conv_decomp set_rev)
      with a assms(4) have x: "v4_cidr x" "x \<in> T - S" by auto
      have eq: "S \<union> set a - set d - set pre - {x} = S \<union> set a - set d - set (pre @ [x])" by auto
      show "valid (rolling entries trace v er S T (S \<union> set a - set d - set pre)) (undo_stage K x)
          (\<lambda>_. rolling entries trace v er S T (S \<union> set a - set d - set (pre @ [x]))) (\<lambda>_ _. False)"
        using undo_stage_rolling [OF assms(1) x] eq by metis
    qed
    moreover have "S \<union> set a - set d - set (rev a) = S - set d" using a by auto
    ultimately show "valid (rolling entries trace v er S T (S \<union> set a - set d))
        (mfor (rev a) (undo_stage K)) (\<lambda>_. rolling entries trace v er S T (S - set d)) (\<lambda>_ _. False)" by simp
  next
    have "valid (rolling entries trace v er S T (S - set d \<union> set []))
        (mfor d (undo_removal K)) (\<lambda>_. rolling entries trace v er S T (S - set d \<union> set d)) (\<lambda>_ _. False)"
    proof (rule valid_for)
      fix x pre post assume "d = pre @ x # post"
      with d assms(4) have x: "v4_cidr x" "x \<in> S - T" by auto
      show "valid (rolling entries trace v er S T (S - set d \<union> set pre)) (undo_removal K x)
          (\<lambda>_. rolling entries trace v er S T (S - set d \<union> set (pre @ [x]))) (\<lambda>_ _. False)"
        using undo_removal_rolling [OF assms(1) x] by simp
    qed
    moreover have "S - set d \<union> set d = S" using d by auto
    ultimately show "valid (rolling entries trace v er S T (S - set d))
        (mfor d (undo_removal K)) (\<lambda>_. rolling entries trace v er S T S) (\<lambda>_ _. False)" by simp
  next
    show "valid (rolling entries trace v er S T S) ?act (\<lambda>_. ?End) (\<lambda>_ _. False)"
    proof (rule valid_logged)
      fix C and er' :: "string list" assume C: "between S T C" "er' = [] \<longrightarrow> C = S"
      show "valid (listing entries trace v (between S T) (er @ er') C) ?act (\<lambda>_. ?End) (\<lambda>_ _. False)"
      proof (rule valid_try)
        let ?L = "listing entries trace v (between S T) (er @ er') C"
        show "valid ?L (risk_set_active K pa) (\<lambda>_. ?End) (\<lambda>e s. e = OSError 0 \<and> ?L s)"
          by (rule valid_weaken [OF active_listing [where G = "between S T", OF assms(1,2,3) C(1)]]) (use C in blast)+
        fix e h' s
        have logged: "?End s" if "listing entries trace v (between S T) ((er @ er') @ [msg]) C s" for s msg
          using C that by (intro exI [of _ C] exI [of _ "er' @ [msg]"]) simp
        have logact: "valid ?L (log_error ''Failed to restore AbuseIPDB active flag'') (\<lambda>_. ?End) (\<lambda>_ _. False)"
          by (rule log_after) (rule logged)
        show "valid (\<lambda>s. e = OSError 0 \<and> ?L s) h' (\<lambda>_. ?End) (\<lambda>_ _. False)"
          if "on_oserror (\<lambda>_. log_error ''Failed to restore AbuseIPDB active flag'') e = Some h'"
          using that logact by (cases e) (auto intro!: valid_pre)
        show False if "on_oserror (\<lambda>_. log_error ''Failed to restore AbuseIPDB active flag'') e = None"
          "e = OSError 0 \<and> ?L s"
          using that by auto
      qed
    qed
  qed
  have start: "rolling entries trace v er S T (S \<union> set a - set d) s"
    if "listing entries trace v (between S T) er (S \<union> set a - set d) s" "set a \<subseteq> T - S" "set d \<subseteq> S - T" for a d s
    unfolding rolling_def
    by (intro exI [of _ "S \<union> set a - set d"] exI [of _ "[]"]) (use that in \<open>auto simp: between_def\<close>)
  show ?thesis
    unfolding half_done_def
  proof (intro valid_ex valid_pre)
    fix a d assume sets: "set a \<subseteq> T - S" "set d \<subseteq> S - T"
    let ?fin = "\<lambda>s. ?End (rr_maps (fst s), snd s)"
    have run: "valid (in_run entries trace v (between S T) er (S \<union> set a - set d) a d)
        (on_maps (mseq (mfor (rev a) (undo_stage K)) (mseq (mfor d (undo_removal K)) ?act))) (\<lambda>_. ?fin) (\<lambda>_ _. False)"
      by (rule valid_weaken [OF valid_on_maps [OF undo [OF sets], where a = a and d = d]])
        (use start [OF _ sets] in \<open>simp_all add: in_run_def\<close>)
    have "valid (\<lambda>s. in_run entries trace v (between S T) er (S \<union> set a - set d) a d s \<and> p = (rr_added (fst s), rr_removed (fst s)))
        (case p of (added, removed) \<Rightarrow>
           on_maps (mseq (mfor (rev added) (undo_stage K)) (mseq (mfor removed (undo_removal K)) ?act))) (\<lambda>_. ?fin) (\<lambda>_ _. False)" for p
    proof (cases "p = (a, d)")
      case True
      show ?thesis unfolding True prod.case by (rule valid_weaken [OF run]) (erule conjunct1)
    qed (auto simp: in_run_def intro!: valid_weaken [OF valid_False])
    then show "valid (in_run entries trace v (between S T) er (S \<union> set a - set d) a d) (replace_undo K pa)
        (\<lambda>_. ?fin) (\<lambda>_ _. False)"
      unfolding replace_undo_def by (rule valid_obj)
  qed
qed

lemma tried_phases:
  assumes "fst v \<in> owned" "snd v \<in> owned" "fst v \<noteq> snd v" "finite S" "finite T" "\<forall>c \<in> S \<union> T. v4_cidr c"
  shows "valid (\<lambda>s. in_run entries trace v (covers S T) er S [] [] s) (replace_tried K T S pa)
    (\<lambda>_ s. listing entries trace v (covers S T) er T (rr_maps (fst s), snd s) \<and> active_flag entries v (T \<noteq> {}) (rr_maps (fst s), snd s))
    (\<lambda>e s. e \<in> {RuntimeErr, OSError 0} \<and>
      (\<exists>C er'. between S T C \<and> (er' = [] \<longrightarrow> C = S \<and> active_flag entries v pa (rr_maps (fst s), snd s)) \<and>
       listing entries trace v (between S T) (er @ er') C (rr_maps (fst s), snd s)))"
  unfolding replace_tried_def
proof (rule valid_try [OF body_phases [OF assms]])
  fix e h' assume h: "(if e = OutOfFuel then None else Some (mseq (replace_undo K pa) (raise_exn e))) = Some h'"
  let ?U = "\<lambda>s. \<exists>C er'. between S T C \<and> (er' = [] \<longrightarrow> C = S \<and> active_flag entries v pa (rr_maps (fst s), snd s)) \<and>
       listing entries trace v (between S T) (er @ er') C (rr_maps (fst s), snd s)"
  let ?H = "half_done entries trace v (covers S T) er S T"
  have weaker: "half_done entries trace v (between S T) er S T s" if "?H s" for s
    using that by (auto simp: half_done_def in_run_def intro: listing_mono covers_between)
  have undo: "valid ?H (replace_undo K pa) (\<lambda>_. ?U) R" for R
    by (rule valid_weaken [OF undo_phases [OF assms(1,2,3,6)] weaker]) simp_all
  show "valid (\<lambda>s. e \<in> {RuntimeErr, OSError 0} \<and> ?H s) h'
    (\<lambda>_ s. listing entries trace v (covers S T) er T (rr_maps (fst s), snd s) \<and> active_flag entries v (T \<noteq> {}) (rr_maps (fst s), snd s))
    (\<lambda>e s. e \<in> {RuntimeErr, OSError 0} \<and> ?U s)"
  proof (rule valid_pre)
    assume e: "e \<in> {RuntimeErr, OSError 0}"
    with h have h': "h' = mseq (replace_undo K pa) (raise_exn e)" by auto
    show "valid ?H h' (\<lambda>_ s. listing entries trace v (covers S T) er T (rr_maps (fst s), snd s) \<and>
        active_flag entries v (T \<noteq> {}) (rr_maps (fst s), snd s)) (\<lambda>e s. e \<in> {RuntimeErr, OSError 0} \<and> ?U s)"
      unfolding h' by (rule valid_seq [OF undo]) (rule valid_raise, use e in blast)
  qed
qed (auto split: if_splits)

text \<open>The whole of \<open>replace_all\<close>.\<close>

lemma replace_all_run:
  assumes "fst v \<in> owned" "snd v \<in> owned" "fst v \<noteq> snd v" "normalize_v4 ips = Inr ts"
    and s: "listing entries trace v (covers S (set ts)) er S (m, k)"
    and run: "replace_all K ips (m, k) = (r, (m', k'))"
  shows "(case r of
      Inr n \<Rightarrow> n = card (set ts) \<and> listing entries trace v (covers S (set ts)) er (set ts) (m', k') \<and>
        active_flag entries v (ts \<noteq> []) (m', k')
    | Inl e \<Rightarrow> e \<in> {RuntimeErr, OSError 0} \<and>
        (\<exists>C er'. between S (set ts) C \<and> (er' = [] \<longrightarrow> C = S) \<and>
          listing entries trace v (between S (set ts)) (er @ er') C (m', k')))"
proof -
  let ?c = "rm_runtime_cfg m" and ?k1 = "snd (sys_lookup K (snd v) zero_key 0 k)"
  have fin: "finite S" "\<forall>c \<in> S \<union> set ts. v4_cidr c" and fd: "rc_fd ?c = snd v" and S: "lm_cache (rm_map4 m) = S"
    using s normalize_v4_ok [OF assms(4)] by (auto simp: listing_def coherent_def)
  obtain read where r1: "runtime_lookup_raw K (?c, k) = (Inr read, (?c, ?k1))"
    using runtime_read [of K ?c k] fd by auto
  have get: "on_cfg (runtime_get_cfg_flags K) (m, k) = (Inr (map_option (\<lambda>r. r ! 8) read), (m, ?k1))"
    using r1 by (simp add: on_part_def runtime_get_cfg_flags_def mbind_def ret_apply)
  have cache: "on_map4 (obj lm_cache) (m, k) = (Inr S, (m, k))"
    using S by (simp add: on_part_def obj_def)
  have s1: "listing entries trace v (covers S (set ts)) er S (m, ?k1)"
    using s lookup_frame [OF assms(1)] by (simp add: listing_def trace_lookup)
  define pa where "pa = ((case map_option (\<lambda>r. r ! 8) read of None \<Rightarrow> 0 | Some f \<Rightarrow> f) AND XDP_CFG_FLAG_ABUSEIPDB_ENABLED \<noteq> 0)"
  obtain q rn k2 where t: "replace_tried K (set ts) S pa (\<lparr>rr_maps = m, rr_added = [], rr_removed = []\<rparr>, ?k1) = (q, (rn, k2))"
    by (metis surj_pair)
  have "replace_all K ips (m, k) = (case q of Inl e \<Rightarrow> Inl e | Inr _ \<Rightarrow> Inr (card (set ts)), (rr_maps rn, k2))"
    using t by (cases q) (simp_all add: replace_all_def assms(4) mbind_def mseq_def get cache Let_def pa_def ret_apply)
  with run have r: "r = (case q of Inl e \<Rightarrow> Inl e | Inr _ \<Rightarrow> Inr (card (set ts)))" "m' = rr_maps rn" "k' = k2" by auto
  have start: "in_run entries trace v (covers S (set ts)) er S [] [] (\<lparr>rr_maps = m, rr_added = [], rr_removed = []\<rparr>, ?k1)"
    using s1 by (simp add: in_run_def)
  note tried = tried_phases [OF assms(1,2,3) fin(1) finite_set fin(2), where er = er and pa = pa]
  show ?thesis
  proof (cases q)
    case (Inl e)
    from validD1 [OF tried start t [unfolded Inl]] r Inl show ?thesis by auto
  next
    case (Inr x)
    from validD2 [OF tried start t [unfolded Inr]] r Inr show ?thesis by auto
  qed
qed

end

section \<open>Recording a kernel\<close>

definition quiet_call :: "('k, 'a) sys \<Rightarrow> ('k \<times> moment list, 'a) sys" where
  "quiet_call call s = (case call (fst s) of (r, k) \<Rightarrow> (r, (k, snd s)))"

definition noted_call :: "('k \<Rightarrow> moment) \<Rightarrow> ('k, 'a) sys \<Rightarrow> ('k \<times> moment list, 'a) sys" where
  "noted_call entries call s = (case call (fst s) of (r, k) \<Rightarrow> (r, (k, snd s @ [entries k])))"

definition traced :: "('k \<Rightarrow> moment) \<Rightarrow> 'k kernel \<Rightarrow> ('k \<times> moment list) kernel" where
  "traced entries K =
     \<lparr>sys_update = (\<lambda>fd key val flg. noted_call entries (sys_update K fd key val flg)),
      sys_lookup = (\<lambda>fd key flg. quiet_call (sys_lookup K fd key flg)),
      sys_delete = (\<lambda>fd key. noted_call entries (sys_delete K fd key)),
      sys_next_key = (\<lambda>fd cur. quiet_call (sys_next_key K fd cur)),
      sys_lookup_batch = (\<lambda>fd n s. case sys_lookup_batch K fd n (fst s) of (r, k) \<Rightarrow> (r, (k, snd s))),
      sys_obj_get = (\<lambda>path. quiet_call (sys_obj_get K path)),
      sys_info = (\<lambda>fd. quiet_call (sys_info K fd)),
      sys_map_create = (\<lambda>attr name. quiet_call (sys_map_create K attr name)),
      sys_fd_by_id = (\<lambda>attr. quiet_call (sys_fd_by_id K attr)),
      sys_close = (\<lambda>fd s. (sys_close K fd (fst s), snd s)),
      sys_monotonic_ns = (\<lambda>s. case sys_monotonic_ns K (fst s) of (t, k) \<Rightarrow> (t, (k, snd s))),
      sys_exists = (\<lambda>path s. sys_exists K path (fst s))\<rparr>"

lemma call_results:
  "quiet_call call s = (r, t) \<longleftrightarrow> call (fst s) = (r, fst t) \<and> snd t = snd s"
  "noted_call entries call s = (r, t) \<longleftrightarrow> call (fst s) = (r, fst t) \<and> snd t = snd s @ [entries (fst t)]"
  by (cases t; auto simp: quiet_call_def noted_call_def split: prod.splits)+

lemma call_states:
  "snd (quiet_call call s) = (snd (call (fst s)), snd s)"
  "snd (noted_call entries call s) = (snd (call (fst s)), snd s @ [entries (snd (call (fst s)))])"
  "snd (case x of (r, k) \<Rightarrow> (r, (k, n))) = (snd x, n)"
  by (simp_all add: quiet_call_def noted_call_def split: prod.splits)

lemma traced_calls:
  "sys_update (traced entries K) fd key val flg = noted_call entries (sys_update K fd key val flg)"
  "sys_lookup (traced entries K) fd key flg = quiet_call (sys_lookup K fd key flg)"
  "sys_delete (traced entries K) fd key = noted_call entries (sys_delete K fd key)"
  "sys_next_key (traced entries K) fd cur = quiet_call (sys_next_key K fd cur)"
  "sys_obj_get (traced entries K) path = quiet_call (sys_obj_get K path)"
  "sys_info (traced entries K) fd = quiet_call (sys_info K fd)"
  "sys_map_create (traced entries K) attr name = quiet_call (sys_map_create K attr name)"
  "sys_fd_by_id (traced entries K) attr = quiet_call (sys_fd_by_id K attr)"
  "sys_lookup_batch (traced entries K) fd n s = (case sys_lookup_batch K fd n (fst s) of (r, k) \<Rightarrow> (r, (k, snd s)))"
  "sys_close (traced entries K) fd s = (sys_close K fd (fst s), snd s)"
  "sys_monotonic_ns (traced entries K) s = (case sys_monotonic_ns K (fst s) of (t, k) \<Rightarrow> (t, (k, snd s)))"
  by (simp_all add: traced_def)

context bpf_kernel
begin

lemma unrecorded: "logged_kernel K entries owned (\<lambda>_. [])"
  by unfold_locales simp_all

lemma recorded: "logged_kernel (traced entries K) (\<lambda>s. entries (fst s)) owned snd"
proof (unfold_locales, goal_cases)
  case (2 fd key val flg s s')
  then show ?case using update_ok by (simp add: traced_calls call_results) (metis fun_upd_def)
next
  case (17 fd cnt s e es s')
  then show ?case using batch_all by (auto simp: traced_calls split: prod.splits)
qed (auto simp: traced_calls call_results call_states entries_ok update_frame delete_ok delete_enoent delete_frame
    lookup_frame next_frame next_first next_after next_end info_frame create_frame fd_by_id_frame obj_get_frame
    close_frame clock_frame batch_frame fun_upd_def
    intro: update_err delete_err lookup_ok lookup_enoent dest: update_ok create_fresh fd_by_id_fresh)

end

interpretation store_unrecorded: logged_kernel store_kernel kentries "{0..<1000}" "\<lambda>_. []"
  by (rule store.unrecorded)

interpretation store_recorded: logged_kernel "traced kentries store_kernel" "\<lambda>s. kentries (fst s)" "{0..<1000}" snd
  by (rule store.recorded)

section \<open>Properties\<close>

text \<open>
  The descriptors of the two maps differ and both maps are the daemon's, and the cache of the
  list is what the kernel holds.
\<close>

definition risk_ok :: "('k \<Rightarrow> moment) \<Rightarrow> int set \<Rightarrow> BpfRiskMaps \<Rightarrow> 'k \<Rightarrow> bool" where
  "risk_ok entries owned m k \<longleftrightarrow>
     lm_fd (rm_map4 m) \<in> owned \<and> rc_fd (rm_runtime_cfg m) \<in> owned \<and>
     lm_fd (rm_map4 m) \<noteq> rc_fd (rm_runtime_cfg m) \<and> coherent (rm_map4 m) (entries k (lm_fd (rm_map4 m)))"

definition risk_fds :: "BpfRiskMaps \<Rightarrow> int \<times> int" where
  "risk_fds m = (lm_fd (rm_map4 m), rc_fd (rm_runtime_cfg m))"

definition blocked_now :: "('k \<Rightarrow> moment) \<Rightarrow> BpfRiskMaps \<Rightarrow> 'k \<Rightarrow> string set" where
  "blocked_now entries m k = blocked (entries k (lm_fd (rm_map4 m)))"

lemma risk_listing:
  assumes "risk_ok entries owned m k" "trace k = []"
  shows "listing entries trace (risk_fds m) G (rm_errors m) (blocked_now entries m k) (m, k)"
  using assms coherent_blocked [of "rm_map4 m" "entries k (lm_fd (rm_map4 m))"]
  by (simp add: listing_def risk_ok_def risk_fds_def blocked_now_def)

lemma listing_risk:
  assumes "listing entries trace (risk_fds m) G er C (m', k')" "risk_ok entries owned m k"
  shows "risk_ok entries owned m' k'" "risk_fds m' = risk_fds m" "blocked_now entries m' k' = C" "rm_errors m' = er"
  using assms by (auto simp: listing_def risk_ok_def risk_fds_def blocked_now_def coherent_blocked)

lemma normalize_v4_error: "normalize_v4 ips = Inl e \<Longrightarrow> e = ValueErr"
proof -
  have "rfold normalize_v4_entry ips acc = Inl e \<Longrightarrow> e = ValueErr" for acc
    by (induction ips arbitrary: acc)
      (auto simp: rbind_def normalize_v4_entry_def Let_def split: sum.splits if_splits option.splits)
  then show "normalize_v4 ips = Inl e \<Longrightarrow> e = ValueErr" by (simp add: normalize_v4_def)
qed

lemma replace_all_invalid:
  "normalize_v4 ips = Inl e \<Longrightarrow> replace_all K ips s = (Inl ValueErr, s)"
  using normalize_v4_error [of ips e] by (simp add: replace_all_def raise_apply)

text \<open>
  C21 (\<open>abuseipdb.py\<close>, \<open>BpfRiskMaps.replace_all\<close>): a transaction. If it returns, exactly the
  networks of the new list are blocked, the result is their number and the flag that
  makes the data plane look at the list is set if the list is not empty. If it raises,
  then either the old list is back or an error was logged while rolling back; input that is no
  list of networks is refused before the kernel is called. The cache is the kernel's list in
  every case. Which writes fail is up to the kernel.
\<close>

theorem replace_all_transaction:
  assumes "bpf_kernel K entries owned" and "risk_ok entries owned m k"
    and "replace_all K ips (m, k) = (r, (m', k'))"
  shows "risk_ok entries owned m' k' \<and> risk_fds m' = risk_fds m \<and>
    (case r of
       Inr n \<Rightarrow> (\<exists>ts. normalize_v4 ips = Inr ts \<and> blocked_now entries m' k' = set ts \<and> n = card (set ts) \<and>
          active_flag entries (risk_fds m) (ts \<noteq> []) (m', k'))
     | Inl e \<Rightarrow> e \<in> {ValueErr, RuntimeErr, OSError 0} \<and> (e = ValueErr \<longrightarrow> m' = m \<and> k' = k) \<and>
          (rm_errors m' = rm_errors m \<longrightarrow> blocked_now entries m' k' = blocked_now entries m k))"
proof (cases "normalize_v4 ips")
  case (Inl e)
  with assms replace_all_invalid [OF Inl, of K "(m, k)"] show ?thesis by auto
next
  case (Inr ts)
  have v: "fst (risk_fds m) \<in> owned" "snd (risk_fds m) \<in> owned" "fst (risk_fds m) \<noteq> snd (risk_fds m)"
    using assms(2) by (simp_all add: risk_ok_def risk_fds_def)
  note start = risk_listing [OF assms(2), where trace = "\<lambda>_. []", OF refl]
  note run = logged_kernel.replace_all_run [OF bpf_kernel.unrecorded [OF assms(1)] v Inr start assms(3)]
  show ?thesis
  proof (cases r)
    case (Inl e)
    with run obtain C er' where "e \<in> {RuntimeErr, OSError 0}" "er' = [] \<longrightarrow> C = blocked_now entries m k"
      and l: "listing entries (\<lambda>_. []) (risk_fds m) (between (blocked_now entries m k) (set ts)) (rm_errors m @ er') C (m', k')"
      by auto
    with listing_risk [OF l assms(2)] Inl show ?thesis by auto
  next
    case (Inr n)
    with run have l: "listing entries (\<lambda>_. []) (risk_fds m) (covers (blocked_now entries m k) (set ts)) (rm_errors m) (set ts) (m', k')"
      by simp
    from listing_risk [OF l assms(2)] run Inr \<open>normalize_v4 ips = Inr ts\<close> show ?thesis by simp
  qed
qed

text \<open>
  C22 (\<open>abuseipdb.py\<close>, \<open>BpfRiskMaps.replace_all\<close>): no gap. After every single write, what is
  blocked lies between what both lists block and what either blocks. If the replacement goes
  through, every packet met all of the old list or all of the new one. The promise of the
  doc string, that readers see the old list or a union, fails in a roll back only.
\<close>

theorem replace_all_no_gap:
  assumes "bpf_kernel K entries owned" and "risk_ok entries owned m k" and "normalize_v4 ips = Inr ts"
    and "replace_all (traced entries K) ips (m, (k, [])) = (r, (m', (k', moments)))"
    and "es \<in> set moments"
  shows "blocked_now entries m k \<inter> set ts \<subseteq> blocked (es (lm_fd (rm_map4 m))) \<and>
    blocked (es (lm_fd (rm_map4 m))) \<subseteq> blocked_now entries m k \<union> set ts \<and>
    (r = Inr n \<longrightarrow> blocked_now entries m k \<subseteq> blocked (es (lm_fd (rm_map4 m))) \<or> set ts \<subseteq> blocked (es (lm_fd (rm_map4 m))))"
proof -
  let ?entries = "\<lambda>s :: 'a \<times> moment list. entries (fst s)"
  have v: "fst (risk_fds m) \<in> owned" "snd (risk_fds m) \<in> owned" "fst (risk_fds m) \<noteq> snd (risk_fds m)"
    using assms(2) by (simp_all add: risk_ok_def risk_fds_def)
  have "risk_ok ?entries owned m (k, [])" using assms(2) by (simp add: risk_ok_def)
  note start = risk_listing [OF this, where trace = snd]
  note run = logged_kernel.replace_all_run [OF bpf_kernel.recorded [OF assms(1)] v assms(3) start assms(4)]
  have now: "blocked_now ?entries m (k, []) = blocked_now entries m k" by (simp add: blocked_now_def)
  show ?thesis
  proof (cases r)
    case (Inl e)
    with run obtain C er where "listing ?entries snd (risk_fds m) (between (blocked_now ?entries m (k, [])) (set ts)) er C (m', (k', moments))"
      by auto
    then have "between (blocked_now entries m k) (set ts) (blocked (es (lm_fd (rm_map4 m))))"
      using assms(5) unfolding now by (simp add: listing_def risk_fds_def)
    with Inl show ?thesis by (simp add: between_def)
  next
    case (Inr n)
    with run have "listing ?entries snd (risk_fds m) (covers (blocked_now ?entries m (k, [])) (set ts)) (rm_errors m) (set ts) (m', (k', moments))"
      by simp
    then have "covers (blocked_now entries m k) (set ts) (blocked (es (lm_fd (rm_map4 m))))"
      using assms(5) unfolding now by (simp add: listing_def risk_fds_def)
    then show ?thesis by (auto simp: covers_def)
  qed
qed

text \<open>A list with one network, and a kernel that refuses the writes its script says.\<close>

definition ex_risk :: BpfRiskMaps where
  "ex_risk = \<lparr>rm_map4 = \<lparr>lm_path = ''abuseipdb_v4'', lm_fd = 6, lm_v6 = False, lm_cache = {''1.1.1.1/32''}\<rparr>,
     rm_runtime_cfg = \<lparr>rc_path = ''xdp_runtime_cfg'', rc_fd = 7\<rparr>, rm_errors = []\<rparr>"

definition ex_risk_kernel :: "int option list \<Rightarrow> kstate" where
  "ex_risk_kernel script = \<lparr>ks_data = [(6, [(lpm_key ''1.1.1.1/32'', le_bytes 4 1)]), (7, [(zero_key, le_bytes 72 9)])],
     ks_max = [(6, 9), (7, 1)], ks_arrays = [7], ks_pins = [], ks_next = 1000, ks_script = script, ks_clock = 5\<rparr>"

lemma ex_risk_ok: "risk_ok kentries {0..<1000} ex_risk (ex_risk_kernel script)"
proof -
  have "v4_cidr ''1.1.1.1/32''" by code_simp
  then show ?thesis
    by (simp add: risk_ok_def ex_risk_def ex_risk_kernel_def coherent_def kentries_def dict_get_or_def dict_simps)
qed

theorem replace_all_transaction_witness:
  "case replace_all store_kernel [''2.2.2.2'', '' # note''] (ex_risk, ex_risk_kernel []) of
     (r, (m', k')) \<Rightarrow> r = Inr 1 \<and> blocked_now kentries m' k' = {''2.2.2.2/32''}"
proof -
  let ?run = "replace_all store_kernel [''2.2.2.2'', '' # note''] (ex_risk, ex_risk_kernel [])"
  obtain r m' k' where run: "?run = (r, (m', k'))" by (metis surj_pair)
  have r: "fst ?run = Inr 1" by code_simp
  have n: "normalize_v4 [''2.2.2.2'', '' # note''] = Inr [''2.2.2.2/32'']" by code_simp
  from replace_all_transaction [OF store.bpf_kernel_axioms ex_risk_ok run] run r n show ?thesis by simp
qed

theorem replace_all_no_gap_witness:
  "case replace_all (traced kentries store_kernel) [''2.2.2.2''] (ex_risk, (ex_risk_kernel [], [])) of
     (r, (m', (k', moments))) \<Rightarrow> length moments = 3 \<and> (\<forall>es \<in> set moments. blocked (es 6) \<subseteq> {''1.1.1.1/32'', ''2.2.2.2/32''})"
proof -
  let ?run = "replace_all (traced kentries store_kernel) [''2.2.2.2''] (ex_risk, (ex_risk_kernel [], []))"
  obtain r m' k' moments where run: "?run = (r, (m', (k', moments)))" by (metis surj_pair)
  have len: "length (snd (snd (snd ?run))) = 3" by code_simp
  have n: "normalize_v4 [''2.2.2.2''] = Inr [''2.2.2.2/32'']" by code_simp
  have now: "blocked_now kentries ex_risk (ex_risk_kernel []) = {''1.1.1.1/32''}"
    using coherent_blocked ex_risk_ok [of "[]"] by (simp add: blocked_now_def risk_ok_def) (simp add: ex_risk_def)
  have fd: "lm_fd (rm_map4 ex_risk) = 6" by (simp add: ex_risk_def)
  from replace_all_no_gap [OF store.bpf_kernel_axioms ex_risk_ok n run] run len now fd show ?thesis by auto
qed

text \<open>
  The doc string of \<open>replace_all\<close> promises that there is no moment with an empty map. When only
  the write of the flag fails, the roll back takes the new networks out before it
  puts the old ones back, and between the two nothing is blocked.
\<close>

lemma roll_back_empties_list:
  "case replace_all (traced kentries store_kernel) [''2.2.2.2''] (ex_risk, (ex_risk_kernel [None, None, Some 5], [])) of
     (r, (m', (k', moments))) \<Rightarrow> r = Inl (OSError 0) \<and> map (\<lambda>es. length (es 6)) moments = [2, 1, 1, 0, 1, 1]"
  by code_simp

section \<open>The background thread\<close>

text \<open>
  What is assumed of the download and of waiting: they leave the daemon's maps alone, and a
  download gives a text or an error of the kind the code catches.
\<close>

definition http_ok :: "('k \<Rightarrow> moment) \<Rightarrow> int set \<Rightarrow> (string \<Rightarrow> ('k, string) pym) \<Rightarrow> bool" where
  "http_ok entries owned http \<longleftrightarrow>
     (\<forall>url k. (\<forall>e. fst (http url k) = Inl e \<longrightarrow> (\<exists>n. e = OSError n)) \<and>
        (\<forall>fd \<in> owned. entries (snd (http url k)) fd = entries k fd))"

definition wait_ok :: "('k \<Rightarrow> moment) \<Rightarrow> int set \<Rightarrow> (pyfloat \<Rightarrow> ('k, bool) pym) \<Rightarrow> bool" where
  "wait_ok entries owned wait \<longleftrightarrow>
     (\<forall>t k. (\<exists>b. fst (wait t k) = Inr b) \<and> (\<forall>fd \<in> owned. entries (snd (wait t k)) fd = entries k fd))"

definition maps_at :: "('k \<Rightarrow> moment) \<Rightarrow> int set \<Rightarrow> moment \<Rightarrow> 'k \<Rightarrow> bool" where
  "maps_at entries owned es k \<longleftrightarrow> (\<forall>fd \<in> owned. entries k fd = es fd)"

lemma fetch_valid:
  assumes "http_ok entries owned http"
  shows "valid (maps_at entries owned es) (fetch_blocklist http src base_url) (\<lambda>_. maps_at entries owned es) (\<lambda>_ _. False)"
proof (cases "dict_get SOURCES_V4 src")
  case (Some filename)
  let ?m = "mbind (http (str_rstrip_char (CHR ''/'') base_url @ ''/'' @ filename)) (\<lambda>body. ret (blocklist_entries body))"
  have "valid (maps_at entries owned es) ?m (\<lambda>_. maps_at entries owned es)
      (\<lambda>e s. (\<exists>n. e = OSError n) \<and> maps_at entries owned es s)"
  proof (rule valid_bind [where Q' = "\<lambda>_. maps_at entries owned es"])
    show "valid (maps_at entries owned es) (http url) (\<lambda>_. maps_at entries owned es)
        (\<lambda>e s. (\<exists>n. e = OSError n) \<and> maps_at entries owned es s)" for url
      by (rule validI) (use assms in \<open>auto simp: http_ok_def maps_at_def dest: arg_cong [where f = fst]\<close>, (metis fst_conv snd_conv)+)
  qed (simp add: valid_ret)
  then have "valid (maps_at entries owned es) (mtry ?m (on_oserror (\<lambda>_. ret []))) (\<lambda>_. maps_at entries owned es) (\<lambda>_ _. False)"
  proof (rule valid_try)
    fix e h' s
    show "valid (\<lambda>s. (\<exists>n. e = OSError n) \<and> maps_at entries owned es s) h' (\<lambda>_. maps_at entries owned es) (\<lambda>_ _. False)"
      if "on_oserror (\<lambda>_. ret []) e = Some h'"
      using that by (cases e) (auto intro: valid_ret)
    show False if "on_oserror (\<lambda>_. ret []) e = None" "(\<exists>n. e = OSError n) \<and> maps_at entries owned es s"
      using that by auto
  qed
  then show ?thesis using Some by (simp add: fetch_blocklist_def)
qed (simp add: fetch_blocklist_def valid_ret)

lemma fetch_all_valid:
  "http_ok entries owned http \<Longrightarrow>
     valid (maps_at entries owned es) (fetch_all http base_url srcs ips) (\<lambda>_. maps_at entries owned es) (\<lambda>_ _. False)"
  by (induction srcs arbitrary: ips) (auto intro!: valid_ret valid_bind [OF fetch_valid])

lemma risk_ok_maps_at:
  "risk_ok entries owned m k \<Longrightarrow> maps_at entries owned (entries k) k' \<Longrightarrow> risk_ok entries owned m k'"
  by (auto simp: risk_ok_def maps_at_def)

abbreviation thread_ok :: "('k \<Rightarrow> moment) \<Rightarrow> int set \<Rightarrow> AbuseIPDBSyncer \<times> 'k \<Rightarrow> bool" where
  "thread_ok entries owned s \<equiv> risk_ok entries owned (as_maps (fst s)) (snd s)"

lemma kern_keeps_risk:
  assumes "\<And>es. valid (maps_at entries owned es) p (\<lambda>_. maps_at entries owned es) (\<lambda>_ _. False)"
  shows "valid (thread_ok entries owned) (kern p) (\<lambda>_. thread_ok entries owned) (\<lambda>_ _. False)"
proof (rule validI)
  fix s :: "AbuseIPDBSyncer \<times> 'a" and e t
  assume s: "thread_ok entries owned s" and run: "kern p s = (Inl e, t)"
  then obtain k where k: "p (snd s) = (Inl e, k)" by (auto simp: kern_def split: prod.splits)
  show False by (rule validD1 [OF assms _ k, of "entries (snd s)"]) (simp add: maps_at_def)
next
  fix s :: "AbuseIPDBSyncer \<times> 'a" and x t
  assume s: "thread_ok entries owned s" and run: "kern p s = (Inr x, t)"
  then obtain k where k: "p (snd s) = (Inr x, k)" "t = (fst s, k)" by (auto simp: kern_def split: prod.splits)
  have "maps_at entries owned (entries (snd s)) k" by (rule validD2 [OF assms _ k(1)]) (simp add: maps_at_def)
  with s k show "thread_ok entries owned t" by (auto intro: risk_ok_maps_at)
qed

lemma refresh_valid:
  assumes "bpf_kernel K entries owned" "http_ok entries owned http"
  shows "valid (thread_ok entries owned) (syncer_refresh K http) (\<lambda>_. thread_ok entries owned) (\<lambda>_ _. False)"
proof -
  let ?risk = "\<lambda>s. risk_ok entries owned (fst s) (snd s)"
  let ?h = "\<lambda>e. if is_update_error e then Some (log_error ''AbuseIPDB map update failed'') else None"
  have replace: "valid ?risk (replace_all K ips) (\<lambda>_. ?risk) (\<lambda>e s. e \<in> {ValueErr, RuntimeErr, OSError 0} \<and> ?risk s)" for ips
    by (rule validI) (use replace_all_transaction [OF assms(1)] in fastforce)+
  have caught: "valid ?risk (mtry (mseq (replace_all K ips) (ret ())) ?h) (\<lambda>_. ?risk) (\<lambda>_ _. False)" for ips
  proof (rule valid_try [OF valid_seq [OF replace]])
    show "valid ?risk (ret ()) (\<lambda>_. ?risk) R" for R by (simp add: valid_ret)
    fix e and h' :: "(BpfRiskMaps \<times> 'a, unit) pym" assume "?h e = Some h'"
    then have h': "h' = log_error ''AbuseIPDB map update failed''" by (simp split: if_splits)
    show "valid (\<lambda>s. e \<in> {ValueErr, RuntimeErr, OSError 0} \<and> ?risk s) h' (\<lambda>_. ?risk) (\<lambda>_ _. False)"
      unfolding h' log_error_def by (rule valid_set_obj) (simp add: risk_ok_def)
  qed auto
  show ?thesis
    unfolding syncer_refresh_def
  proof (rule valid_obj, unfold split_beta, rule valid_bind)
    fix p :: "string \<times> string list"
    show "valid (\<lambda>s. thread_ok entries owned s \<and> p = (as_base_url (fst s), as_sources (fst s)))
        (kern (fetch_all http (fst p) (snd p) [])) (\<lambda>_. thread_ok entries owned) (\<lambda>_ _. False)"
      by (rule valid_weaken [OF kern_keeps_risk [OF fetch_all_valid [OF assms(2)]]]) auto
    fix ips :: "string list"
    have "valid (thread_ok entries owned) (on_part as_maps as_maps_update (mtry (mseq (replace_all K ips) (ret ())) ?h))
        (\<lambda>_. thread_ok entries owned) (\<lambda>_ _. False)"
      by (rule valid_part) (use validD1 [OF caught] validD2 [OF caught] in fastforce)+
    then show "valid (thread_ok entries owned)
        (if ips = [] then ret () else on_part as_maps as_maps_update (mtry (mseq (replace_all K ips) (ret ())) ?h))
        (\<lambda>_. thread_ok entries owned) (\<lambda>_ _. False)"
      by (simp add: valid_ret)
  qed
qed

lemma run_valid:
  assumes "bpf_kernel K entries owned" "http_ok entries owned http" "wait_ok entries owned wait"
  shows "valid (thread_ok entries owned) (syncer_run fuel K http wait) (\<lambda>_. thread_ok entries owned)
    (\<lambda>e s. e = OutOfFuel \<and> thread_ok entries owned s)"
proof (induction fuel)
  case 0
  show ?case by (simp add: valid_raise)
next
  case (Suc fuel)
  have wait: "valid (maps_at entries owned es) (wait t) (\<lambda>_. maps_at entries owned es) (\<lambda>_ _. False)" for es t
    by (rule validI) (use assms(3) in \<open>auto simp: wait_ok_def maps_at_def\<close>, (metis Inl_Inr_False fst_conv snd_conv)+)
  have rest: "valid (thread_ok entries owned) (mseq (set_obj (as_stop_update (\<lambda>_. stopped))) (syncer_run fuel K http wait))
      (\<lambda>_. thread_ok entries owned) (\<lambda>e s. e = OutOfFuel \<and> thread_ok entries owned s)" for stopped
    by (rule valid_seq [OF valid_set_obj Suc]) simp
  have waiting: "valid (thread_ok entries owned)
      (mbind (kern (wait t)) (\<lambda>stopped. mseq (set_obj (as_stop_update (\<lambda>_. stopped))) (syncer_run fuel K http wait)))
      (\<lambda>_. thread_ok entries owned) (\<lambda>e s. e = OutOfFuel \<and> thread_ok entries owned s)" for t
    by (rule valid_bind [OF valid_weaken [OF kern_keeps_risk [OF wait]] rest]) auto
  have turn: "valid (thread_ok entries owned)
      (mseq (syncer_refresh K http) (mbind (obj as_refresh_seconds) (\<lambda>seconds.
          mbind (kern (wait seconds)) (\<lambda>stopped.
          mseq (set_obj (as_stop_update (\<lambda>_. stopped))) (syncer_run fuel K http wait)))))
      (\<lambda>_. thread_ok entries owned) (\<lambda>e s. e = OutOfFuel \<and> thread_ok entries owned s)"
  proof (rule valid_seq)
    show "valid (thread_ok entries owned) (syncer_refresh K http) (\<lambda>_. thread_ok entries owned)
        (\<lambda>e s. e = OutOfFuel \<and> thread_ok entries owned s)"
      by (rule valid_weaken [OF refresh_valid [OF assms(1,2)]]) auto
    show "valid (thread_ok entries owned) (mbind (obj as_refresh_seconds) (\<lambda>seconds.
          mbind (kern (wait seconds)) (\<lambda>stopped.
          mseq (set_obj (as_stop_update (\<lambda>_. stopped))) (syncer_run fuel K http wait))))
      (\<lambda>_. thread_ok entries owned) (\<lambda>e s. e = OutOfFuel \<and> thread_ok entries owned s)"
      by (rule valid_obj, rule valid_weaken [OF waiting]) auto
  qed
  show ?case
    unfolding syncer_run.simps
    by (intro valid_obj valid_if valid_ret valid_weaken [OF turn]) auto
qed

text \<open>
  C23 (\<open>abuseipdb.py\<close>, \<open>AbuseIPDBSyncer._run\<close>): the thread outlives every failure it expects.
  As long as a download fails only with the errors that \<open>fetch_blocklist\<close> catches,
  no turn ends in an exception, whatever the lists say and whichever writes the kernel
  refuses, and after every turn the cache of the list is what the kernel holds.
\<close>

theorem blocklist_thread_survives:
  assumes "bpf_kernel K entries owned" and "http_ok entries owned http" and "wait_ok entries owned wait"
    and "risk_ok entries owned (as_maps s) k"
    and "syncer_run fuel K http wait (s, k) = (r, (s', k'))"
  shows "r \<in> {Inr (), Inl OutOfFuel} \<and> risk_ok entries owned (as_maps s') k'"
  using validD1 [OF run_valid [OF assms(1,2,3)], of "(s, k)" fuel] validD2 [OF run_valid [OF assms(1,2,3)], of "(s, k)" fuel]
    assms(4,5)
  by (cases r) auto

text \<open>A download that fails at first, and a wait that is never cut short.\<close>

definition ex_http :: "string \<Rightarrow> (kstate, string) pym" where
  "ex_http url k = ((if ks_clock k = 5 then Inl (OSError 5) else Inr ''2.2.2.2 # DE''), k\<lparr>ks_clock := 9\<rparr>)"

definition ex_wait :: "pyfloat \<Rightarrow> (kstate, bool) pym" where
  "ex_wait t = ret False"

theorem blocklist_thread_survives_witness:
  "case syncer_run 2 store_kernel ex_http ex_wait (syncer_init ex_risk ''http://x'' None (Fin 0), ex_risk_kernel []) of
     (r, (s', k')) \<Rightarrow> r = Inl OutOfFuel \<and> risk_ok kentries {0..<1000} (as_maps s') k' \<and>
       lm_cache (rm_map4 (as_maps s')) = {''2.2.2.2/32''}"
proof -
  let ?run = "syncer_run 2 store_kernel ex_http ex_wait (syncer_init ex_risk ''http://x'' None (Fin 0), ex_risk_kernel [])"
  obtain r s' k' where run: "?run = (r, (s', k'))" by (metis surj_pair)
  have r: "fst ?run = Inl OutOfFuel" "lm_cache (rm_map4 (as_maps (fst (snd ?run)))) = {''2.2.2.2/32''}" by code_simp+
  have env: "http_ok kentries {0..<1000} ex_http" "wait_ok kentries {0..<1000} ex_wait"
    by (auto simp: http_ok_def wait_ok_def ex_http_def ex_wait_def)
  have maps: "as_maps (syncer_init ex_risk ''http://x'' None (Fin 0)) = ex_risk" by (simp add: syncer_init_def)
  from blocklist_thread_survives [OF store.bpf_kernel_axioms env _ run] ex_risk_ok r run show ?thesis by (simp add: maps)
qed

text \<open>
  Other errors of a download are not caught: \<open>http.client.IncompleteRead\<close> is no \<open>OSError\<close>,
  and \<open>urlopen\<close> raises a \<open>ValueError\<close> for an address without a scheme. They end the thread.
\<close>

lemma thread_dies_of_other_errors:
  assumes "http (str_rstrip_char (CHR ''/'') base_url @ ''/abuseipdb-s100-3d.ipv4'') k = (Inl ValueErr, k)"
  shows "fst (syncer_run (Suc fuel) K http wait (syncer_init maps base_url None (Fin 3600), k)) = Inl ValueErr"
  using assms by (simp add: syncer_init_def syncer_refresh_def obj_def mseq_def mbind_def kern_def fetch_blocklist_def
      SOURCES_V4_def mtry_def)

end
