(* ===== verification/RingBuf.thy ===== *)
theory RingBuf
  imports BpfKernel
begin

text \<open>
  \<open>RingBufReader\<close> of \<open>pkt_relay.py\<close>: the consumer of a BPF ring buffer. The mapped pages are
  the consumer position, which the reader writes, the producer position and the data,
  which the kernel maps twice in a row so that a record may cross the end.
\<close>

unbundle bit_operations_syntax

section \<open>The reader\<close>

record RingBufReader =
  rb_max :: nat
  rb_event_size :: nat
  rb_fd :: int
  rb_consumer :: int
  rb_producer :: int
  rb_data :: bytes

definition rb_mask :: "RingBufReader \<Rightarrow> int" where
  "rb_mask r = int (rb_max r) - 1"

definition BUSY_BIT :: int where "BUSY_BIT = 2 ^ 31"
definition DISCARD_BIT :: int where "DISCARD_BIT = 2 ^ 30"
definition HDR_SZ :: nat where "HDR_SZ = 8"

text \<open>A slice of the doubly mapped data area, cut off at its end as a slice is.\<close>

definition rb_slice :: "RingBufReader \<Rightarrow> nat \<Rightarrow> nat \<Rightarrow> bytes" where
  "rb_slice r off n = map (\<lambda>i. rb_data r ! (i mod rb_max r)) [off..<min (off + n) (2 * rb_max r)]"

definition rb_header :: "RingBufReader \<Rightarrow> int \<Rightarrow> int" where
  "rb_header r cpos = int_of_le (rb_slice r (nat (cpos AND rb_mask r)) 4)"

definition data_len :: "int \<Rightarrow> int" where
  "data_len hdr = hdr AND NOT (BUSY_BIT OR DISCARD_BIT)"

definition next_pos :: "int \<Rightarrow> int \<Rightarrow> int" where
  "next_pos cpos hdr = cpos + (int HDR_SZ + ((data_len hdr + 7) AND NOT 7))"

definition rb_events :: "RingBufReader \<Rightarrow> int \<Rightarrow> int \<Rightarrow> bytes list" where
  "rb_events r cpos hdr =
     (if hdr AND DISCARD_BIT = 0 \<and> data_len hdr = int (rb_event_size r)
      then [rb_slice r (nat (cpos AND rb_mask r) + HDR_SZ) (rb_event_size r)] else [])"

lemma int_of_le_nonneg [simp]: "0 \<le> int_of_le bs"
  using int_of_le_range [of bs] by blast

lemma rb_header_nonneg [simp]: "0 \<le> rb_header r cpos"
  by (simp add: rb_header_def)

lemma next_pos_grows: "0 \<le> hdr \<Longrightarrow> cpos + 8 \<le> next_pos cpos hdr"
  by (simp add: next_pos_def data_len_def HDR_SZ_def)

text \<open>
  \<open>drain\<close> run to its end: the records it yields, how it ended, and the reader. Writing a
  consumer position of more than 64 bits raises a \<open>struct.error\<close>; the positions grow by
  at least eight, so the loop ends even if it steps over the producer position.
\<close>

function drain_from :: "RingBufReader \<Rightarrow> int \<Rightarrow> int \<Rightarrow> bytes list \<times> unit res \<times> RingBufReader" where
  "drain_from r ppos cpos =
     (if cpos = ppos then ([], Inr (), r)
      else let hdr = rb_header r cpos in
        if hdr AND BUSY_BIT \<noteq> 0 then ([], Inr (), r)
        else if next_pos cpos hdr < 2 ^ 64
        then (case drain_from (r\<lparr>rb_consumer := next_pos cpos hdr\<rparr>) ppos (next_pos cpos hdr) of
                (es, q, r') \<Rightarrow> (rb_events r cpos hdr @ es, q, r'))
        else (rb_events r cpos hdr, Inl StructErr, r))"
  by pat_completeness auto
termination
proof (relation "measure (\<lambda>(r, ppos, cpos). nat (2 ^ 64 - cpos))", simp)
  fix r ppos cpos hdr
  assume "hdr = rb_header r cpos" "next_pos cpos hdr < 2 ^ 64"
  then show "((r\<lparr>rb_consumer := next_pos cpos hdr\<rparr>, ppos, next_pos cpos hdr), r, ppos, cpos)
      \<in> measure (\<lambda>(r, ppos, cpos). nat (2 ^ 64 - cpos))"
    using next_pos_grows [of hdr cpos] by simp
qed

declare drain_from.simps [simp del]

definition rb_drain :: "RingBufReader \<Rightarrow> bytes list \<times> unit res \<times> RingBufReader" where
  "rb_drain r = drain_from r (rb_producer r) (rb_consumer r)"

text \<open>\<open>__init__\<close>: the pages are mapped as they are when the pinned map is opened.\<close>

definition rb_init :: "'k kernel \<Rightarrow> ('k \<Rightarrow> int \<times> int \<times> bytes) \<Rightarrow> string \<Rightarrow> nat \<Rightarrow> nat \<Rightarrow> ('k, RingBufReader) pym" where
  "rb_init K pages pin_path max_entries event_size =
     mbind (obj_get K pin_path) (\<lambda>fd.
     mbind (gets pages) (\<lambda>(cpos, ppos, buf).
     ret \<lparr>rb_max = max_entries, rb_event_size = event_size, rb_fd = fd, rb_consumer = cpos,
          rb_producer = ppos, rb_data = buf\<rparr>))"

section \<open>What the kernel writes\<close>

text \<open>
  A record of the ring buffer: a header word with the length and two flags, a word the reader
  ignores, the payload, and padding to eight bytes. \<open>holds\<close> says that the records lie one
  after the other between two positions; a record that is still being written has no
  payload yet.
\<close>

record ring_record =
  rr_busy :: bool
  rr_discard :: bool
  rr_payload :: bytes

definition record_header :: "ring_record \<Rightarrow> int" where
  "record_header x = int (length (rr_payload x)) + (if rr_discard x then DISCARD_BIT else 0) +
     (if rr_busy x then BUSY_BIT else 0)"

definition record_size :: "ring_record \<Rightarrow> int" where
  "record_size x = 8 + 8 * ((int (length (rr_payload x)) + 7) div 8)"

definition byte_at :: "RingBufReader \<Rightarrow> int \<Rightarrow> byte" where
  "byte_at r p = rb_data r ! (nat (p mod int (rb_max r)))"

definition bytes_at :: "RingBufReader \<Rightarrow> int \<Rightarrow> nat \<Rightarrow> bytes" where
  "bytes_at r p n = map (\<lambda>i. byte_at r (p + int i)) [0..<n]"

fun holds :: "RingBufReader \<Rightarrow> int \<Rightarrow> int \<Rightarrow> ring_record list \<Rightarrow> bool" where
  "holds r cpos ppos [] \<longleftrightarrow> cpos = ppos"
| "holds r cpos ppos (x # xs) \<longleftrightarrow>
     cpos \<noteq> ppos \<and> int (length (rr_payload x)) < 2 ^ 30 \<and> bytes_at r cpos 4 = le_bytes 4 (record_header x) \<and>
     (rr_busy x \<or> bytes_at r (cpos + 8) (length (rr_payload x)) = rr_payload x) \<and>
     holds r (cpos + record_size x) ppos xs"

text \<open>A ring of a power of two bytes that is large enough for one event.\<close>

definition ring_ok :: "RingBufReader \<Rightarrow> bool" where
  "ring_ok r \<longleftrightarrow> (\<exists>n. rb_max r = 2 ^ n) \<and> length (rb_data r) = rb_max r \<and> rb_event_size r + 8 \<le> rb_max r \<and>
     0 \<le> rb_consumer r"

lemma mask_mod:
  assumes "ring_ok r"
  shows "cpos AND rb_mask r = cpos mod int (rb_max r)"
proof -
  obtain n where n: "rb_max r = 2 ^ n" using assms by (auto simp: ring_ok_def)
  have "rb_mask r = mask n" using n by (simp add: rb_mask_def mask_eq_exp_minus_1)
  then show ?thesis using n by (simp add: take_bit_eq_mask [symmetric] take_bit_eq_mod)
qed

lemma slice_bytes_at:
  assumes "ring_ok r" "o' + n \<le> rb_max r"
  shows "rb_slice r (nat (cpos AND rb_mask r) + o') n = bytes_at r (cpos + int o') n"
proof (rule nth_equalityI)
  let ?off = "nat (cpos AND rb_mask r) + o'" and ?m = "int (rb_max r)"
  have pos: "0 < rb_max r" using assms(1) by (auto simp: ring_ok_def)
  then have lt: "nat (cpos AND rb_mask r) < rb_max r" using mask_mod [OF assms(1)] by (simp add: nat_less_iff)
  then have end_: "?off + n \<le> 2 * rb_max r" using assms(2) by simp
  then show "length (rb_slice r ?off n) = length (bytes_at r (cpos + int o') n)"
    by (simp add: rb_slice_def bytes_at_def)
  fix i assume "i < length (rb_slice r ?off n)"
  then have i: "i < n" using end_ by (simp add: rb_slice_def)
  have "int ((?off + i) mod rb_max r) = (cpos + int o' + int i) mod ?m"
    using pos mask_mod [OF assms(1), of cpos] by (simp add: zmod_int mod_simps add.assoc)
  then have "(?off + i) mod rb_max r = nat ((cpos + int o' + int i) mod ?m)" by linarith
  then show "rb_slice r ?off n ! i = bytes_at r (cpos + int o') n ! i"
    using i end_ by (simp add: rb_slice_def bytes_at_def byte_at_def)
qed

section \<open>Reading a header\<close>

text \<open>The mask over the two flag bits takes the length out of a 32-bit header.\<close>

lemma record_header_range:
  "int (length (rr_payload x)) < 2 ^ 30 \<Longrightarrow> 0 \<le> record_header x \<and> record_header x < 2 ^ 32"
  by (simp add: record_header_def BUSY_BIT_def DISCARD_BIT_def)

lemma header_fields:
  assumes "int (length (rr_payload x)) < 2 ^ 30"
  shows "bit (record_header x) 31 = rr_busy x" "bit (record_header x) 30 = rr_discard x"
    "record_header x mod 2 ^ 30 = int (length (rr_payload x))"
proof -
  let ?n = "int (length (rr_payload x))"
  have n: "0 \<le> ?n" "?n < 2 ^ 30" using assms by simp_all
  let ?d = "if rr_discard x then 1 else 0 :: int" and ?b = "if rr_busy x then 1 else 0 :: int"
  have parts: "record_header x = (?n + 2 ^ 30 * ?d) + 2 ^ 31 * ?b" "record_header x = ?n + 2 ^ 30 * (?d + 2 * ?b)"
    by (simp_all add: record_header_def BUSY_BIT_def DISCARD_BIT_def)
  have "(?n + 2 ^ 30 * ?d) div 2 ^ 31 = 0" "?n div 2 ^ 30 = 0" using n by simp_all
  then have busy: "record_header x div 2 ^ 31 = ?b" and disc: "record_header x div 2 ^ 30 = ?d + 2 * ?b"
    by (simp_all only: parts(1) [THEN arg_cong [where f = "\<lambda>h. h div 2 ^ 31"]]
        parts(2) [THEN arg_cong [where f = "\<lambda>h. h div 2 ^ 30"]] div_mult_self2) simp_all
  show "bit (record_header x) 31 = rr_busy x" by (simp only: bit_iff_odd busy) simp
  show "bit (record_header x) 30 = rr_discard x" by (simp only: bit_iff_odd disc) simp
  show "record_header x mod 2 ^ 30 = ?n" unfolding parts(2) mod_mult_self2 using n by simp
qed

lemma data_len_mod:
  assumes "0 \<le> h" "h < 2 ^ 32"
  shows "data_len h = h mod 2 ^ 30"
proof -
  have high: "bit h n \<Longrightarrow> n < 32" for n
    using assms by (metis bit_take_bit_iff take_bit_int_eq_self)
  have flags: "bit (BUSY_BIT OR DISCARD_BIT) n \<longleftrightarrow> n = 31 \<or> n = 30" for n
    unfolding BUSY_BIT_def DISCARD_BIT_def bit_or_iff bit_exp_iff by auto
  have "data_len h = take_bit 30 h"
  proof (rule bit_eqI)
    fix n
    show "bit (data_len h) n \<longleftrightarrow> bit (take_bit 30 h) n"
      unfolding data_len_def bit_and_iff bit_not_iff bit_take_bit_iff flags using high [of n] by auto
  qed
  then show ?thesis by (simp add: take_bit_eq_mod)
qed

lemma round_up: "(a :: int) AND NOT 7 = 8 * (a div 8)"
proof -
  have "a AND NOT (mask 3) = push_bit 3 (drop_bit 3 a)"
    by (rule bit_eqI) (auto simp: bit_and_iff bit_not_iff bit_mask_iff bit_push_bit_iff bit_drop_bit_eq)
  then show ?thesis by (simp add: push_bit_eq_mult drop_bit_eq_div mask_eq_exp_minus_1)
qed

lemma and_flag: "h AND BUSY_BIT \<noteq> 0 \<longleftrightarrow> bit h 31" "h AND DISCARD_BIT = 0 \<longleftrightarrow> \<not> bit h 30"
  unfolding BUSY_BIT_def DISCARD_BIT_def and_exp_eq_0_iff_not_bit by simp_all

lemma record_step:
  assumes "ring_ok r" "holds r cpos ppos (x # xs)"
  shows "rb_header r cpos = record_header x" "next_pos cpos (rb_header r cpos) = cpos + record_size x"
    "\<not> rr_busy x \<Longrightarrow> rb_events r cpos (rb_header r cpos) =
       (if \<not> rr_discard x \<and> length (rr_payload x) = rb_event_size r then [rr_payload x] else [])"
proof -
  have len: "int (length (rr_payload x)) < 2 ^ 30" and hdr: "bytes_at r cpos 4 = le_bytes 4 (record_header x)"
    and data: "rr_busy x \<or> bytes_at r (cpos + 8) (length (rr_payload x)) = rr_payload x" using assms(2) by simp_all
  have "4 \<le> rb_max r" using assms(1) by (simp add: ring_ok_def)
  then have "rb_slice r (nat (cpos AND rb_mask r)) 4 = bytes_at r cpos 4"
    using slice_bytes_at [OF assms(1), of 0 4 cpos] by simp
  with hdr have "rb_header r cpos = int_of_le (le_bytes 4 (record_header x))" by (simp add: rb_header_def)
  also have "\<dots> = record_header x" using record_header_range [OF len] by (simp add: int_of_le_bytes_id)
  finally show h: "rb_header r cpos = record_header x" .
  have dl: "data_len (record_header x) = int (length (rr_payload x))"
    using data_len_mod record_header_range [OF len] header_fields(3) [OF len] by simp
  show "next_pos cpos (rb_header r cpos) = cpos + record_size x"
    by (simp only: next_pos_def h dl round_up record_size_def HDR_SZ_def)
  show "rb_events r cpos (rb_header r cpos) =
       (if \<not> rr_discard x \<and> length (rr_payload x) = rb_event_size r then [rr_payload x] else [])" if "\<not> rr_busy x"
    using slice_bytes_at [OF assms(1), of 8 "rb_event_size r" cpos] assms(1) data that header_fields(2) [OF len]
    by (auto simp: rb_events_def h dl and_flag HDR_SZ_def ring_ok_def)
qed

lemma ring_frame [simp]:
  "rb_header (r\<lparr>rb_consumer := c\<rparr>) = rb_header r" "rb_events (r\<lparr>rb_consumer := c\<rparr>) = rb_events r"
  "holds (r\<lparr>rb_consumer := c\<rparr>) p q xs = holds r p q xs"
proof -
  have slice: "rb_slice (r\<lparr>rb_consumer := c\<rparr>) = rb_slice r" "rb_mask (r\<lparr>rb_consumer := c\<rparr>) = rb_mask r"
    by (simp_all add: rb_slice_def fun_eq_iff rb_mask_def)
  show "rb_header (r\<lparr>rb_consumer := c\<rparr>) = rb_header r" "rb_events (r\<lparr>rb_consumer := c\<rparr>) = rb_events r"
    by (simp_all add: rb_header_def rb_events_def slice fun_eq_iff)
  have "bytes_at (r\<lparr>rb_consumer := c\<rparr>) = bytes_at r" by (simp add: bytes_at_def byte_at_def fun_eq_iff)
  then show "holds (r\<lparr>rb_consumer := c\<rparr>) p q xs = holds r p q xs" by (induction xs arbitrary: p) simp_all
qed

lemma record_size_pos: "8 \<le> record_size x"
  by (simp add: record_size_def)

lemma holds_le: "holds r cpos ppos xs \<Longrightarrow> cpos \<le> ppos"
proof (induction xs arbitrary: cpos)
  case (Cons x xs)
  then have "cpos + record_size x \<le> ppos" by simp
  with record_size_pos [of x] show ?case by linarith
qed simp

lemma drain_holds:
  assumes "ring_ok r" "holds r cpos ppos xs" "0 \<le> cpos" "ppos < 2 ^ 64" "rb_consumer r = cpos"
  shows "drain_from r ppos cpos =
    (map rr_payload (filter (\<lambda>x. \<not> rr_discard x \<and> length (rr_payload x) = rb_event_size r) (takeWhile (\<lambda>x. \<not> rr_busy x) xs)),
     Inr (), r\<lparr>rb_consumer := cpos + sum_list (map record_size (takeWhile (\<lambda>x. \<not> rr_busy x) xs))\<rparr>)"
  using assms
proof (induction xs arbitrary: cpos r)
  case Nil
  then show ?case by (simp add: drain_from.simps)
next
  case (Cons x xs)
  note step = record_step [OF Cons.prems(1,2)]
  have len: "int (length (rr_payload x)) < 2 ^ 30" and ne: "cpos \<noteq> ppos" using Cons.prems(2) by simp_all
  have busy: "rb_header r cpos AND BUSY_BIT \<noteq> 0 \<longleftrightarrow> rr_busy x"
    using header_fields(1) [OF len] by (simp add: step(1) and_flag)
  show ?case
  proof (cases "rr_busy x")
    case True
    with busy ne Cons.prems(5) show ?thesis by (subst drain_from.simps) (simp add: Let_def)
  next
    case False
    let ?c = "cpos + record_size x" and ?r = "r\<lparr>rb_consumer := cpos + record_size x\<rparr>"
    have rest: "holds r ?c ppos xs" using Cons.prems(2) by simp
    have "?c < 2 ^ 64" using holds_le [OF rest] Cons.prems(4) by simp
    moreover have "ring_ok ?r" "0 \<le> ?c" using Cons.prems(1,3) record_size_pos [of x] by (simp_all add: ring_ok_def)
    ultimately show ?thesis
      using Cons.IH [of ?r ?c] rest Cons.prems(4) busy ne False step
      by (subst drain_from.simps) (simp add: Let_def add.assoc)
  qed
qed

section \<open>Whatever the pages hold\<close>

lemma events_bounds:
  assumes "ring_ok r" "0 \<le> hdr"
  shows "\<forall>e \<in> set (rb_events r cpos hdr). length e = rb_event_size r"
    and "cpos + int (length (rb_events r cpos hdr)) * (8 + int (rb_event_size r)) \<le> next_pos cpos hdr"
proof -
  have "8 + rb_event_size r \<le> rb_max r" using assms(1) by (simp add: ring_ok_def)
  from slice_bytes_at [OF assms(1), of 8 "rb_event_size r" cpos] this
  show "\<forall>e \<in> set (rb_events r cpos hdr). length e = rb_event_size r"
    by (simp add: rb_events_def HDR_SZ_def bytes_at_def)
  have "data_len hdr \<le> (data_len hdr + 7) AND NOT 7" unfolding round_up by presburger
  then show "cpos + int (length (rb_events r cpos hdr)) * (8 + int (rb_event_size r)) \<le> next_pos cpos hdr"
    using next_pos_grows [OF assms(2), of cpos] by (auto simp: rb_events_def next_pos_def HDR_SZ_def)
qed

lemma drain_bounds:
  assumes "ring_ok r" "rb_consumer r = cpos" "cpos < 2 ^ 64"
  shows "case drain_from r ppos cpos of (es, q, r') \<Rightarrow>
    q \<in> {Inr (), Inl StructErr} \<and> (\<forall>e \<in> set es. length e = rb_event_size r) \<and>
    r' = r\<lparr>rb_consumer := rb_consumer r'\<rparr> \<and> cpos \<le> rb_consumer r' \<and> rb_consumer r' < 2 ^ 64 \<and>
    (q = Inr () \<longrightarrow> cpos + int (length es) * (8 + int (rb_event_size r)) \<le> rb_consumer r')"
  using assms
proof (induction r ppos cpos rule: drain_from.induct)
  case (1 r ppos cpos)
  let ?hdr = "rb_header r cpos"
  let ?c = "next_pos cpos ?hdr"
  show ?case
  proof (cases "cpos = ppos \<or> ?hdr AND BUSY_BIT \<noteq> 0")
    case True
    with 1 show ?thesis by (subst drain_from.simps) (auto simp: Let_def)
  next
    case False
    note ev = events_bounds [where cpos = cpos, OF "1.prems"(1) rb_header_nonneg [of r cpos]]
    show ?thesis
    proof (cases "?c < 2 ^ 64")
      case True
      obtain es q r' where d: "drain_from (r\<lparr>rb_consumer := ?c\<rparr>) ppos ?c = (es, q, r')" by (metis surj_pair)
      have "ring_ok (r\<lparr>rb_consumer := ?c\<rparr>)"
        using "1.prems" next_pos_grows [of ?hdr cpos] by (simp add: ring_ok_def)
      with "1.IH" [OF _ refl _ True] False True d
      have IH: "q \<in> {Inr (), Inl StructErr}" "\<forall>e \<in> set es. length e = rb_event_size r"
        "r' = r\<lparr>rb_consumer := rb_consumer r'\<rparr>" "?c \<le> rb_consumer r'" "rb_consumer r' < 2 ^ 64"
        "q = Inr () \<Longrightarrow> ?c + int (length es) * (8 + int (rb_event_size r)) \<le> rb_consumer r'"
        by (auto simp del: rb_header_nonneg)
      have "drain_from r ppos cpos = (rb_events r cpos ?hdr @ es, q, r')"
        using False True d by (subst drain_from.simps) (simp add: Let_def)
      with IH ev next_pos_grows [of ?hdr cpos] show ?thesis by (auto simp: distrib_right)
    next
      case over: False
      with False "1.prems" ev show ?thesis by (subst drain_from.simps) (simp add: Let_def)
    qed
  qed
qed

section \<open>Properties\<close>

text \<open>
  C24 (\<open>pkt_relay.py\<close>, \<open>RingBufReader.drain\<close>): first in, first out. If the kernel has laid records
  between the consumer and the producer position, also across the end of the ring, a
  drain yields the payloads of those up to the first one still being written, in order,
  leaving out the discarded ones and those of another size, and moves the consumer position
  behind exactly these records.
\<close>

theorem ring_drain_fifo:
  assumes "ring_ok r" and "holds r (rb_consumer r) (rb_producer r) recs" and "rb_producer r < 2 ^ 64"
  shows "rb_drain r =
    (map rr_payload (filter (\<lambda>x. \<not> rr_discard x \<and> length (rr_payload x) = rb_event_size r) (takeWhile (\<lambda>x. \<not> rr_busy x) recs)),
     Inr (), r\<lparr>rb_consumer := rb_consumer r + sum_list (map record_size (takeWhile (\<lambda>x. \<not> rr_busy x) recs))\<rparr>)"
  using drain_holds [OF assms(1,2) _ assms(3) refl] assms(1) by (simp add: rb_drain_def ring_ok_def)

text \<open>A ring of 64 bytes whose second record lies across its end; the third is being written.\<close>

definition ex_ring :: RingBufReader where
  "ex_ring = \<lparr>rb_max = 64, rb_event_size = 16, rb_fd = 3, rb_consumer = 160, rb_producer = 224,
     rb_data = [9, 9, 9, 9, 9, 9, 9, 9, 16, 0, 0, 128, 7, 7, 7, 7] @ replicate 16 5 @
       [16, 0, 0, 0, 0, 0, 0, 0] @ replicate 16 8 @ [8, 0, 0, 64, 0, 0, 0, 0]\<rparr>"

definition ex_records :: "ring_record list" where
  "ex_records = [\<lparr>rr_busy = False, rr_discard = False, rr_payload = replicate 16 8\<rparr>,
     \<lparr>rr_busy = False, rr_discard = True, rr_payload = replicate 8 9\<rparr>,
     \<lparr>rr_busy = True, rr_discard = False, rr_payload = replicate 16 5\<rparr>]"

lemma ex_ring_ok: "ring_ok ex_ring"
proof -
  have "rb_max ex_ring = 2 ^ 6" "length (rb_data ex_ring) = rb_max ex_ring" "rb_event_size ex_ring + 8 \<le> rb_max ex_ring"
    "0 \<le> rb_consumer ex_ring" by code_simp+
  then show ?thesis unfolding ring_ok_def by blast
qed

theorem ring_drain_fifo_witness:
  "rb_drain ex_ring = ([replicate 16 8], Inr (), ex_ring\<lparr>rb_consumer := 200\<rparr>)"
proof -
  have pos: "rb_consumer ex_ring = 160" "rb_producer ex_ring < 2 ^ 64" by (simp_all add: ex_ring_def)
  have "holds ex_ring (rb_consumer ex_ring) (rb_producer ex_ring) ex_records" by code_simp
  note run = ring_drain_fifo [OF ex_ring_ok this pos(2)]
  have "map rr_payload (filter (\<lambda>x. \<not> rr_discard x \<and> length (rr_payload x) = rb_event_size ex_ring)
      (takeWhile (\<lambda>x. \<not> rr_busy x) ex_records)) = [replicate 16 8]"
    "sum_list (map record_size (takeWhile (\<lambda>x. \<not> rr_busy x) ex_records)) = 40" by code_simp+
  with run pos show ?thesis by simp
qed

text \<open>
  \<open>pkt_relay.py\<close>, \<open>RingBufReader.drain\<close>: whatever bytes the pages hold, a drain ends. Every
  record it yields has the size of an event, the consumer position only grows and fits in
  its 64 bits, it is the only thing that is written, and each event was paid for with at
  least its own size and a header.
\<close>

theorem ring_drain_bounds:
  assumes "ring_ok r" and "rb_consumer r < 2 ^ 64" and "rb_drain r = (es, q, r')"
  shows "q \<in> {Inr (), Inl StructErr} \<and> (\<forall>e \<in> set es. length e = rb_event_size r) \<and>
    r' = r\<lparr>rb_consumer := rb_consumer r'\<rparr> \<and> rb_consumer r \<le> rb_consumer r' \<and> rb_consumer r' < 2 ^ 64 \<and>
    (q = Inr () \<longrightarrow> int (length es) * (8 + int (rb_event_size r)) \<le> rb_consumer r' - rb_consumer r)"
  using drain_bounds [OF assms(1) refl assms(2), of "rb_producer r"] assms(3) by (auto simp: rb_drain_def)

theorem ring_drain_bounds_witness:
  "case rb_drain (ex_ring\<lparr>rb_producer := 161\<rparr>) of (es, q, r') \<Rightarrow>
     q = Inr () \<and> (\<forall>e \<in> set es. length e = 16) \<and> int (length es) * 24 \<le> rb_consumer r' - 160"
proof -
  let ?r = "ex_ring\<lparr>rb_producer := 161\<rparr>"
  obtain es q r' where run: "rb_drain ?r = (es, q, r')" by (metis surj_pair)
  have q: "fst (snd (rb_drain ?r)) = Inr ()" by code_simp
  have ok: "ring_ok ?r" "rb_consumer ?r = 160" "rb_event_size ?r = 16"
    using ex_ring_ok by (simp_all add: ring_ok_def ex_ring_def)
  with ring_drain_bounds [OF ok(1) _ run] q run show ?thesis by simp
qed

end
