(* ===== verification/Discovery.thy ===== *)
theory Discovery
  imports BpfAddrMaps ReconcileState
begin

text \<open>
  \<open>auto_xdp/discovery.py\<close>: the listening sockets of the host. What is read from
  the kernel is a parameter, the record \<open>host\<close>: the datagrams that answer a
  SOCK_DIAG request, the \<open>/proc\<close> tree and the output of \<open>systemctl\<close>. Modelled is the
  Linux path, from the bytes of the netlink messages to the observed state; the
  \<open>psutil\<close> path is the one of other systems.
\<close>

section \<open>The host\<close>

text \<open>
  \<open>host_dump req\<close> is what happens on a fresh netlink socket after \<open>req\<close> was sent: one
  element per \<open>recv_into\<close>, an errno or the bytes received (an errno of opening or
  sending comes first). When the list is used up nothing more arrives and the
  read does not return. In \<open>host_procs\<close> a directory has its links, \<open>None\<close> for one
  that cannot be read; a directory that cannot be scanned on is cut off there. The
  same goes for the lines of a file. \<open>host_mapped\<close> says whether the interpreter's
  \<open>ipaddress\<close> classifies an IPv4-mapped address by its IPv4 part, as newer versions do.
\<close>

record host =
  host_dump :: "bytes \<Rightarrow> (int + bytes) list"
  host_procs :: "(string \<times> string option list) list"
  host_comm :: "int \<Rightarrow> string option"
  host_lines :: "string \<Rightarrow> string list"
  host_sockets :: "string list option"
  host_mapped :: bool

definition AF_INET :: int where "AF_INET = 2"
definition AF_INET6 :: int where "AF_INET6 = 10"
definition IPPROTO_TCP :: int where "IPPROTO_TCP = 6"
definition IPPROTO_UDP :: int where "IPPROTO_UDP = 17"
definition IPPROTO_SCTP :: int where "IPPROTO_SCTP = 132"
definition SS_LISTEN :: int where "SS_LISTEN = 2 ^ 10"
definition SS_ESTABLISHED :: int where "SS_ESTABLISHED = 2 ^ 1"
definition SS_ALL :: int where "SS_ALL = 2 ^ 32 - 1"
definition NLMSG_ERROR :: int where "NLMSG_ERROR = 2"
definition NLMSG_DONE :: int where "NLMSG_DONE = 3"
definition SOCK_DIAG_BY_FAMILY :: int where "SOCK_DIAG_BY_FAMILY = 20"

section \<open>Socket dumps\<close>

text \<open>The request: \<open>=IHHII\<close> and \<open>=BBBBIHH16s16sIII\<close>.\<close>

definition diag_request :: "int \<Rightarrow> int \<Rightarrow> int \<Rightarrow> bytes" where
  "diag_request family proto states =
     le_bytes 4 (16 + 56) @ le_bytes 2 SOCK_DIAG_BY_FAMILY @ le_bytes 2 (1 + 768) @ le_bytes 4 1 @ le_bytes 4 0 @
     le_bytes 1 family @ le_bytes 1 proto @ le_bytes 1 0 @ le_bytes 1 0 @ le_bytes 4 states @
     le_bytes 2 0 @ le_bytes 2 0 @ replicate 16 0 @ replicate 16 0 @
     le_bytes 4 0 @ le_bytes 4 (2 ^ 32 - 1) @ le_bytes 4 (2 ^ 32 - 1)"

text \<open>What a dump yields per socket.\<close>

record diag =
  dg_sport :: int
  dg_dport :: int
  dg_src :: bytes
  dg_dst :: bytes
  dg_inode :: int
  dg_rqueue :: int

definition field :: "bytes \<Rightarrow> nat \<Rightarrow> nat \<Rightarrow> bytes" where
  "field buf off n = take n (drop off buf)"

text \<open>
  The struct \<open>=BBBBHH16s16sIIIIIIII\<close> at an offset. The ports are read as native
  integers and swapped by \<open>ntohs\<close>, which is reading them in network order.
\<close>

definition read_diag :: "bytes \<Rightarrow> nat \<Rightarrow> diag" where
  "read_diag buf off = \<lparr>
     dg_sport = int_of_be (field buf (off + 4) 2), dg_dport = int_of_be (field buf (off + 6) 2),
     dg_src = field buf (off + 8) 16, dg_dst = field buf (off + 24) 16,
     dg_inode = int_of_le (field buf (off + 68) 4), dg_rqueue = int_of_le (field buf (off + 56) 4)\<rparr>"

definition signed32 :: "int \<Rightarrow> int" where
  "signed32 i = (if i < 2 ^ 31 then i else i - 2 ^ 32)"

text \<open>How the inner loop over one datagram ends: \<open>NLMSG_DONE\<close>, the end of the datagram, or an error.\<close>

datatype dump_end = Done | More | Failed string

definition align4 :: "nat \<Rightarrow> nat" where
  "align4 n = (n + 3) div 4 * 4"

lemma align4_bounds [simp]: "n \<le> align4 n" "align4 n \<le> n + 3"
  by (simp_all add: align4_def)

function parse_messages :: "bytes \<Rightarrow> nat \<Rightarrow> diag list \<times> dump_end" where
  "parse_messages buf offset =
     (if offset + 16 \<le> length buf then
        let msg_len = nat (int_of_le (field buf offset 4)); msg_type = int_of_le (field buf (offset + 4) 2);
            error = signed32 (int_of_le (field buf (offset + 16) 4)) in
        if msg_len < 16 then ([], Failed ''SOCK_DIAG returned an invalid netlink message'')
        else if length buf < offset + msg_len then ([], Failed ''SOCK_DIAG returned a truncated netlink message'')
        else if msg_type = NLMSG_DONE then ([], Done)
        else if msg_type = NLMSG_ERROR \<and> msg_len < 20
        then ([], Failed ''SOCK_DIAG returned a truncated NLMSG_ERROR'')
        else if msg_type = NLMSG_ERROR \<and> error \<noteq> 0
        then ([], Failed (''SOCK_DIAG dump failed with errno '' @ str_of_int (- error)))
        else (case parse_messages buf (offset + align4 msg_len) of (ds, e) \<Rightarrow>
          ((if msg_type = SOCK_DIAG_BY_FAMILY \<and> offset + 16 + 72 \<le> length buf
            then [read_diag buf (offset + 16)] else []) @ ds, e))
      else if offset \<noteq> length buf then ([], Failed ''SOCK_DIAG returned trailing incomplete data'')
      else ([], More))"
  by pat_completeness auto
termination
  by (relation "measure (\<lambda>(buf, offset). length buf - offset)")
    (auto intro!: diff_less_mono2 less_le_trans [OF _ align4_bounds(1)])

declare parse_messages.simps [simp del]

text \<open>
  \<open>_nldiag_dump\<close>: the sockets yielded and the exception that ends the dump, if one does.
\<close>

fun read_dump :: "(int + bytes) list \<Rightarrow> diag list \<times> py_exn option" where
  "read_dump [] = ([], Some OutOfFuel)"
| "read_dump (Inl n # rs) = ([], Some (OSError n))"
| "read_dump (Inr buf # rs) =
     (if buf = [] then ([], Some (DiscoveryErr ''SOCK_DIAG closed before NLMSG_DONE''))
      else (case parse_messages buf 0 of
              (ds, Done) \<Rightarrow> (ds, None)
            | (ds, Failed msg) \<Rightarrow> (ds, Some (DiscoveryErr msg))
            | (ds, More) \<Rightarrow> (case read_dump rs of (ds', e) \<Rightarrow> (ds @ ds', e))))"

definition nldiag_dump :: "host \<Rightarrow> int \<Rightarrow> int \<Rightarrow> int \<Rightarrow> diag list \<times> py_exn option" where
  "nldiag_dump h family proto states = read_dump (host_dump h (diag_request family proto states))"

section \<open>Process names\<close>

text \<open>\<open>_build_inode_pid\<close>: a later entry for the same inode replaces an earlier one.\<close>

fun inode_links :: "int \<Rightarrow> string option list \<Rightarrow> (int, int) dict \<Rightarrow> (int, int) dict res" where
  "inode_links pid [] out = Inr out"
| "inode_links pid (None # ls) out = inode_links pid ls out"
| "inode_links pid (Some link # ls) out =
     (if str_prefix ''socket:['' link
      then (case int_of_str (butlast (drop 8 link)) of
              None \<Rightarrow> Inl ValueErr
            | Some inode \<Rightarrow> inode_links pid ls (dict_set inode pid out))
      else inode_links pid ls out)"

fun build_inode_pid :: "(string \<times> string option list) list \<Rightarrow> (int, int) dict \<Rightarrow> (int, int) dict res" where
  "build_inode_pid [] out = Inr out"
| "build_inode_pid ((name, links) # ps) out =
     (if name \<noteq> [] \<and> list_all is_digit name
      then rbind (inode_links (int (nat_of_digits name)) links out) (build_inode_pid ps)
      else build_inode_pid ps out)"

definition pid_comm :: "host \<Rightarrow> int \<Rightarrow> string" where
  "pid_comm h pid = (case host_comm h pid of None \<Rightarrow> [] | Some s \<Rightarrow> str_strip s)"

definition proc_name :: "host \<Rightarrow> int \<Rightarrow> string res" where
  "proc_name h inode =
     (if inode = 0 then Inr []
      else rbind (build_inode_pid (host_procs h) []) (\<lambda>inode_pid.
           Inr (case dict_get inode_pid inode of None \<Rightarrow> [] | Some pid \<Rightarrow> pid_comm h pid)))"

text \<open>\<open>s.rsplit(":", 1)[1]\<close>\<close>

definition after_last_colon :: "string \<Rightarrow> string" where
  "after_last_colon s = rev (takeWhile (\<lambda>c. c \<noteq> CHR '':'') (rev s))"

definition systemd_line :: "string \<Rightarrow> (int, string) dict \<Rightarrow> (int, string) dict" where
  "systemd_line line result =
     (let parts = str_words line in
      if length parts < 2 \<or> CHR '':'' \<notin> set (hd parts) then result
      else (case int_of_str (after_last_colon (hd parts)) of
              None \<Rightarrow> result
            | Some port \<Rightarrow>
                (let name = fst (str_split1 (CHR ''.'') (if 3 \<le> length parts then parts ! 2 else parts ! 1)) in
                 if name \<noteq> [] then dict_setdefault port name result else result)))"

definition build_systemd_socket_map :: "host \<Rightarrow> (int, string) dict" where
  "build_systemd_socket_map h =
     (case host_sockets h of None \<Rightarrow> [] | Some ls \<Rightarrow> fold systemd_line ls [])"

definition resolve_systemd :: "host \<Rightarrow> string \<Rightarrow> int \<Rightarrow> string" where
  "resolve_systemd h name port =
     (if name \<noteq> ''systemd'' then name else dict_get_or (build_systemd_socket_map h) port name)"

section \<open>Addresses\<close>

definition addr_str :: "int \<Rightarrow> bytes \<Rightarrow> string" where
  "addr_str family raw =
     (if family = AF_INET then ipv4_str (int_of_be (take 4 raw)) else inet_ntop6 (int_of_be raw))"

definition is_ipv4_mapped_v6 :: "bytes \<Rightarrow> bool" where
  "is_ipv4_mapped_v6 raw \<longleftrightarrow>
     16 \<le> length raw \<and> take 10 raw = replicate 10 0 \<and> take 2 (drop 10 raw) = [255, 255]"

definition be16 :: "int \<Rightarrow> bytes" where
  "be16 i = rev (le_bytes 2 i)"

definition pack_conntrack_key_raw :: "int \<Rightarrow> int \<Rightarrow> int \<Rightarrow> bytes \<Rightarrow> bytes \<Rightarrow> bytes" where
  "pack_conntrack_key_raw family sport dport src dst =
     (if family = AF_INET then be16 dport @ be16 sport @ take 4 dst @ take 4 src
      else if family = AF_INET6 \<and> is_ipv4_mapped_v6 src \<and> is_ipv4_mapped_v6 dst
      then be16 dport @ be16 sport @ take 4 (drop 12 dst) @ take 4 (drop 12 src)
      else be16 dport @ be16 sport @ dst @ src)"

text \<open>The networks and addresses of \<open>ipaddress\<close>, without scope ids.\<close>

datatype ipaddr = V4 int | V6 int
datatype ipnet = Net4 int nat | Net6 int nat

definition ip_network :: "string \<Rightarrow> ipnet option" where
  "ip_network s =
     (case ipv4_network s of
        Some (i, p) \<Rightarrow> Some (Net4 i p)
      | None \<Rightarrow> map_option (\<lambda>n. Net6 (fst (fst n)) (snd n)) (ipv6_network s))"

definition ip_address :: "string \<Rightarrow> ipaddr option" where
  "ip_address s =
     (case ipv4_of_str s of Some i \<Rightarrow> Some (V4 i) | None \<Rightarrow> map_option (\<lambda>a. V6 (fst a)) (ipv6_of_str s))"

fun addr_in :: "ipaddr \<Rightarrow> ipnet \<Rightarrow> bool" where
  "addr_in (V4 i) (Net4 n p) \<longleftrightarrow> mask_addr 32 p i = n"
| "addr_in (V6 i) (Net6 n p) \<longleftrightarrow> mask_addr 128 p i = n"
| "addr_in _ _ \<longleftrightarrow> False"

definition unmapped :: "bool \<Rightarrow> ipaddr \<Rightarrow> ipaddr" where
  "unmapped mapped a =
     (case a of
        V6 i \<Rightarrow> if mapped \<and> i div 2 ^ 32 = 65535 then V4 (i mod 2 ^ 32) else V6 i
      | V4 i \<Rightarrow> V4 i)"

fun is_loopback :: "ipaddr \<Rightarrow> bool" where
  "is_loopback (V4 i) \<longleftrightarrow> i div 2 ^ 24 = 127"
| "is_loopback (V6 i) \<longleftrightarrow> i = 1"

fun is_multicast :: "ipaddr \<Rightarrow> bool" where
  "is_multicast (V4 i) \<longleftrightarrow> i div 2 ^ 28 = 14"
| "is_multicast (V6 i) \<longleftrightarrow> i div 2 ^ 120 = 255"

fun is_link_local :: "ipaddr \<Rightarrow> bool" where
  "is_link_local (V4 i) \<longleftrightarrow> i div 2 ^ 16 = 43518"
| "is_link_local (V6 i) \<longleftrightarrow> i div 2 ^ 118 = 1018"

definition discovery_exclude_networks :: "Config \<Rightarrow> ipnet list" where
  "discovery_exclude_networks c = List.map_filter ip_network (DISCOVERY_EXCLUDE_BIND_CIDRS c)"

definition bind_ip_is_exposed :: "host \<Rightarrow> Config \<Rightarrow> string \<Rightarrow> bool" where
  "bind_ip_is_exposed h c ip_str =
     (if ip_str \<in> {''0.0.0.0'', ''::'', ''*''} then True
      else (case ip_address (fst (str_split1 (CHR ''%'') ip_str)) of
              None \<Rightarrow> True
            | Some addr \<Rightarrow>
                \<not> (DISCOVERY_EXCLUDE_LOOPBACK c \<and> is_loopback (unmapped (host_mapped h) addr)) \<and>
                \<not> is_multicast (unmapped (host_mapped h) addr) \<and>
                \<not> is_link_local (unmapped (host_mapped h) addr) \<and>
                list_all (\<lambda>net. \<not> addr_in addr net) (discovery_exclude_networks c)))"

section \<open>UDP statistics\<close>

text \<open>\<open>int(s, 16)\<close>: an optional sign and \<open>0x\<close>, underscores between digits.\<close>

fun hex_underscores :: "string \<Rightarrow> nat list option" where
  "hex_underscores [] = None"
| "hex_underscores [c] = map_option (\<lambda>d. [d]) (hex_val c)"
| "hex_underscores (c # d # s) =
     (case hex_val c of None \<Rightarrow> None
      | Some x \<Rightarrow> map_option ((#) x) (if d = CHR ''_'' then hex_underscores s else hex_underscores (d # s)))"

definition drop_0x :: "string \<Rightarrow> string" where
  "drop_0x s =
     (case s of
        a # b # r \<Rightarrow> if a = CHR ''0'' \<and> (b = CHR ''x'' \<or> b = CHR ''X'')
                     then (case r of CHR ''_'' # r' \<Rightarrow> r' | _ \<Rightarrow> r) else s
      | _ \<Rightarrow> s)"

definition int_of_hex :: "string \<Rightarrow> int option" where
  "int_of_hex s =
     (case split_sign (str_strip s) of (neg, t) \<Rightarrow>
        map_option (\<lambda>ds. (if neg then - 1 else 1) * int (foldl (\<lambda>n d. 16 * n + d) 0 ds))
          (hex_underscores (drop_0x t)))"

record udp_stat =
  us_rx_queue :: int
  us_drops :: int

definition udp_fields :: "string list \<Rightarrow> (int \<times> udp_stat) option" where
  "udp_fields parts =
     (let addr = str_split (CHR '':'') (parts ! 1); tx_rx = str_split (CHR '':'') (parts ! 4) in
      if length addr < 2 then None
      else (case (int_of_hex (addr ! 1), if 1 < length tx_rx then int_of_hex (tx_rx ! 1) else Some 0,
                  if 12 < length parts then int_of_str (last parts) else Some 0) of
              (Some port, Some rx, Some drops) \<Rightarrow> Some (port, \<lparr>us_rx_queue = rx, us_drops = drops\<rparr>)
            | _ \<Rightarrow> None))"

definition udp_line :: "string \<Rightarrow> (int, udp_stat) dict \<Rightarrow> (int, udp_stat) dict" where
  "udp_line line result =
     (let parts = str_words line in
      if length parts < 10 \<or> hd parts = ''sl'' then result
      else (case udp_fields parts of
              None \<Rightarrow> result
            | Some (port, st) \<Rightarrow>
                (case dict_get result port of
                   None \<Rightarrow> dict_set port st result
                 | Some old \<Rightarrow> dict_set port \<lparr>us_rx_queue = us_rx_queue old + us_rx_queue st,
                                 us_drops = us_drops old + us_drops st\<rparr> result)))"

definition parse_proc_udp :: "host \<Rightarrow> string \<Rightarrow> (int, udp_stat) dict" where
  "parse_proc_udp h path = fold udp_line (host_lines h path) []"

definition add_drops :: "int \<times> udp_stat \<Rightarrow> (int, int) dict \<Rightarrow> (int, int) dict" where
  "add_drops e out = dict_set (fst e) (dict_get_or out (fst e) 0 + us_drops (snd e)) out"

definition proc_drops :: "host \<Rightarrow> (int, int) dict" where
  "proc_drops h =
     fold add_drops (parse_proc_udp h ''/proc/net/udp6'')
       (fold add_drops (parse_proc_udp h ''/proc/net/udp'') [])"

section \<open>The observed state\<close>

text \<open>A loop over a dump: the body on every socket yielded, then the exception of the dump.\<close>

definition for_dump :: "host \<Rightarrow> int \<Rightarrow> int \<Rightarrow> int \<Rightarrow> (diag \<Rightarrow> 's \<Rightarrow> 's res) \<Rightarrow> 's \<Rightarrow> 's res" where
  "for_dump h family proto states body st =
     (case nldiag_dump h family proto states of (ds, e) \<Rightarrow>
        rbind (rfold body ds st) (\<lambda>st'. case e of None \<Rightarrow> Inr st' | Some x \<Rightarrow> Inl x))"

definition note_process ::
  "host \<Rightarrow> int \<Rightarrow> int \<Rightarrow> (((int, string) dict \<Rightarrow> (int, string) dict) \<Rightarrow> ObservedState \<Rightarrow> ObservedState) \<Rightarrow>
   ObservedState \<Rightarrow> ObservedState res" where
  "note_process h inode port upd st =
     rbind (proc_name h inode) (\<lambda>p.
     Inr (let name = resolve_systemd h p port in if name \<noteq> [] then upd (dict_set port name) st else st))"

definition tcp_listener :: "host \<Rightarrow> Config \<Rightarrow> int \<Rightarrow> diag \<Rightarrow> ObservedState \<Rightarrow> ObservedState res" where
  "tcp_listener h c family d st =
     (let port = dg_sport d in
      if \<not> bind_ip_is_exposed h c (addr_str family (dg_src d)) \<or> port \<in> DISCOVERY_EXCLUDE_PORTS c then Inr st
      else note_process h (dg_inode d) port ob_tcp_processes_update (ob_tcp_update (insert port) st))"

definition tcp_established :: "host \<Rightarrow> Config \<Rightarrow> int \<Rightarrow> diag \<Rightarrow> ObservedState \<Rightarrow> ObservedState res" where
  "tcp_established h c family d st =
     (if \<not> bind_ip_is_exposed h c (addr_str family (dg_src d)) then Inr st
      else Inr (ob_established_update
        (insert (pack_conntrack_key_raw family (dg_sport d) (dg_dport d) (dg_src d) (dg_dst d))) st))"

text \<open>The UDP sockets of a port, summed up. The address and the inode are those of the first.\<close>

record udp_info =
  ui_family :: int
  ui_src :: bytes
  ui_inode :: int
  ui_rqueue :: int
  ui_count :: int
  ui_connected_only :: bool

definition udp_socket :: "int \<Rightarrow> diag \<Rightarrow> (int, udp_info) dict \<Rightarrow> (int, udp_info) dict res" where
  "udp_socket family d agg =
     (let port = dg_sport d; connected = (dg_dport d \<noteq> 0) in
      if port = 0 then Inr agg
      else Inr (case dict_get agg port of
          None \<Rightarrow> dict_set port \<lparr>ui_family = family, ui_src = dg_src d, ui_inode = dg_inode d,
                    ui_rqueue = dg_rqueue d, ui_count = 1, ui_connected_only = connected\<rparr> agg
        | Some info \<Rightarrow> dict_set port (info\<lparr>ui_rqueue := ui_rqueue info + dg_rqueue d,
                    ui_count := ui_count info + 1,
                    ui_connected_only := ui_connected_only info \<and> connected\<rparr>) agg))"

definition udp_opts :: "(int, int) dict \<Rightarrow> int \<Rightarrow> udp_info \<Rightarrow> string set" where
  "udp_opts drops port info =
     (if 1 < ui_count info then {''SO_REUSEPORT''} else {}) \<union>
     (if 0 < ui_rqueue info then {''rx_queue>0''} else {}) \<union>
     (if 0 < dict_get_or drops port 0 then {''drops>0''} else {})"

definition udp_port :: "host \<Rightarrow> Config \<Rightarrow> int \<times> udp_info \<Rightarrow> ObservedState \<Rightarrow> ObservedState res" where
  "udp_port h c e st =
     (let port = fst e; info = snd e; opts = udp_opts (proc_drops h) port info in
      if \<not> bind_ip_is_exposed h c (addr_str (ui_family info) (ui_src info)) \<or> port \<in> DISCOVERY_EXCLUDE_PORTS c \<or>
         ui_connected_only info \<and> opts = {}
      then Inr st
      else rbind (note_process h (ui_inode info) port ob_udp_processes_update (ob_udp_update (insert port) st)) (\<lambda>st'.
           Inr (if opts \<noteq> {} then ob_udp_sock_opts_update (dict_set port opts) st' else st')))"

definition sctp_listener :: "host \<Rightarrow> Config \<Rightarrow> int \<Rightarrow> diag \<Rightarrow> int set \<Rightarrow> int set" where
  "sctp_listener h c family d ports =
     (if bind_ip_is_exposed h c (addr_str family (dg_src d)) \<and> dg_sport d \<notin> DISCOVERY_EXCLUDE_PORTS c
      then insert (dg_sport d) ports else ports)"

text \<open>
  The SCTP dumps stand in a \<open>try\<close> that catches an OSError and keeps what was found
  before it. A \<open>DiscoveryError\<close> is a \<open>RuntimeError\<close> and passes.
\<close>

fun sctp_dumps :: "host \<Rightarrow> Config \<Rightarrow> int list \<Rightarrow> int set \<Rightarrow> int set res" where
  "sctp_dumps h c [] ports = Inr ports"
| "sctp_dumps h c (family # fs) ports =
     (case nldiag_dump h family IPPROTO_SCTP SS_LISTEN of (ds, e) \<Rightarrow>
        (let ports' = fold (sctp_listener h c family) ds ports in
         case e of
           None \<Rightarrow> sctp_dumps h c fs ports'
         | Some (OSError n) \<Rightarrow> Inr ports'
         | Some x \<Rightarrow> Inl x))"

definition both_families :: "(int \<Rightarrow> 's \<Rightarrow> 's res) \<Rightarrow> 's \<Rightarrow> 's res" where
  "both_families f st = rbind (f AF_INET st) (f AF_INET6)"

definition get_listening_ports_netlink :: "host \<Rightarrow> Config \<Rightarrow> ObservedState res" where
  "get_listening_ports_netlink h c =
     rbind (both_families (\<lambda>family. for_dump h family IPPROTO_TCP SS_LISTEN (tcp_listener h c family))
              ObservedState_init) (\<lambda>st1.
     rbind (both_families (\<lambda>family. for_dump h family IPPROTO_TCP SS_ESTABLISHED (tcp_established h c family))
              st1) (\<lambda>st2.
     rbind (both_families (\<lambda>family. for_dump h family IPPROTO_UDP SS_ALL (udp_socket family)) []) (\<lambda>agg.
     rbind (rfold (udp_port h c) agg st2) (\<lambda>st3.
     rbind (sctp_dumps h c [AF_INET, AF_INET6] {}) (\<lambda>ports.
     Inr (ob_sctp_update (\<lambda>_. ports) st3))))))"

end
