(* ===== verification/ProcEvents.thy ===== *)
theory ProcEvents
  imports Discovery
begin

text \<open>
  \<open>auto_xdp/proc_events.py\<close>: the process connector of the kernel. Its events say that a
  program was started or ended, so that the sockets may have changed.
\<close>

definition CN_IDX_PROC :: int where "CN_IDX_PROC = 1"
definition NLMSG_HDRLEN :: nat where "NLMSG_HDRLEN = 16"
definition CN_MSG_HDRLEN :: nat where "CN_MSG_HDRLEN = 20"
definition NLMSG_MIN_TYPE :: int where "NLMSG_MIN_TYPE = 16"
definition PROC_CN_MCAST_LISTEN :: int where "PROC_CN_MCAST_LISTEN = 1"
definition PROC_EVENT_EXEC :: int where "PROC_EVENT_EXEC = 2"
definition PROC_EVENT_EXIT :: int where "PROC_EVENT_EXIT = 2 ^ 31"

definition make_subscribe_msg :: "int \<Rightarrow> bytes" where
  "make_subscribe_msg pid =
     (let op = le_bytes 4 PROC_CN_MCAST_LISTEN;
          cn = le_bytes 4 CN_IDX_PROC @ le_bytes 4 1 @ le_bytes 4 0 @ le_bytes 4 0 @
               le_bytes 2 (int (length op)) @ le_bytes 2 0 @ op
      in le_bytes 4 (int (NLMSG_HDRLEN + length cn)) @ le_bytes 2 NLMSG_MIN_TYPE @ le_bytes 2 0 @
         le_bytes 4 0 @ le_bytes 4 pid @ cn)"

text \<open>
  The inner loop over one datagram: whether it has an EXEC or EXIT event. The bounds
  are checked against the length the message claims; reading past the end of
  the datagram is a \<open>struct.error\<close>.
\<close>

definition proc_event :: "bytes \<Rightarrow> nat \<Rightarrow> nat \<Rightarrow> bool res" where
  "proc_event data offset nl_len =
     (let cn_off = offset + NLMSG_HDRLEN; cn_data = cn_off + CN_MSG_HDRLEN in
      if cn_data \<le> offset + nl_len
      then rbind (unpack_le 4 data cn_off) (\<lambda>idx.
           if idx = CN_IDX_PROC \<and> cn_data + 4 \<le> offset + nl_len
           then rbind (unpack_le 4 data cn_data) (\<lambda>what. Inr (what \<in> {PROC_EVENT_EXEC, PROC_EVENT_EXIT}))
           else Inr False)
      else Inr False)"

function proc_events :: "bytes \<Rightarrow> nat \<Rightarrow> bool \<Rightarrow> bool res" where
  "proc_events data offset triggered =
     (if offset + NLMSG_HDRLEN \<le> length data then
        let nl_len = nat (int_of_le (field data offset 4)) in
        if nl_len < NLMSG_HDRLEN then Inr triggered
        else rbind (proc_event data offset nl_len) (\<lambda>hit.
             proc_events data (offset + align4 nl_len) (triggered \<or> hit))
      else Inr triggered)"
  by pat_completeness auto
termination
  by (relation "measure (\<lambda>(data, offset, triggered). length data - offset)")
    (auto simp: NLMSG_HDRLEN_def intro!: diff_less_mono2 less_le_trans [OF _ align4_bounds(1)])

declare proc_events.simps [simp del]

text \<open>
  \<open>drain_proc_events\<close>: \<open>poll\<close> is a \<open>select\<close> without timeout and the receive after it; it gives
  \<open>None\<close> when nothing is there or when one of the two fails with an OSError.
\<close>

fun drain_proc_events :: "nat \<Rightarrow> ('k, bytes option) pym \<Rightarrow> bool \<Rightarrow> ('k, bool) pym" where
  "drain_proc_events 0 poll triggered = raise_exn OutOfFuel"
| "drain_proc_events (Suc fuel) poll triggered =
     mbind poll (\<lambda>data. case data of
       None \<Rightarrow> ret triggered
     | Some bytes \<Rightarrow> mbind (mlift (proc_events bytes 0 triggered)) (drain_proc_events fuel poll))"

end
