(* ===== verification/CidrCollapse.thy ===== *)
theory CidrCollapse
  imports Ipaddr "HOL-Library.Product_Lexorder"
begin

text \<open>
  \<open>ipaddress.collapse_addresses\<close> of the standard library, which the \<open>nftables\<close> backend uses
  to make the elements of an interval set: duplicates, adjacent networks and networks
  inside others have to go, since \<open>nft\<close> refuses a set whose intervals overlap.
\<close>

section \<open>Networks\<close>

text \<open>
  A network of \<open>ipaddress\<close>: address, scope id and prefix length. The address has
  no host bits.
\<close>

type_synonym net = "(int \<times> string) \<times> nat"

definition net_addr :: "net \<Rightarrow> int" where "net_addr n = fst (fst n)"

definition broadcast :: "nat \<Rightarrow> net \<Rightarrow> int" where
  "broadcast bits n = net_addr n + 2 ^ (bits - snd n) - 1"

definition supernet :: "nat \<Rightarrow> net \<Rightarrow> net" where
  "supernet bits n =
     (if snd n = 0 then n else ((mask_addr bits (snd n - 1) (net_addr n), []), snd n - 1))"

text \<open>
  The first half of \<open>ipaddress.collapse_addresses\<close>: single addresses, sorted and without
  duplicates, are put together to ranges, and each range is cut into networks.
\<close>

fun address_ranges :: "int \<Rightarrow> int \<Rightarrow> int list \<Rightarrow> (int \<times> int) list" where
  "address_ranges lo hi [] = [(lo, hi)]"
| "address_ranges lo hi (ip # ips) =
     (if ip \<noteq> hi + 1 then (lo, hi) # address_ranges ip ip ips else address_ranges lo ip ips)"

text \<open>\<open>min(_count_righthand_zero_bits(first, bits), (last - first + 1).bit_length() - 1)\<close>\<close>

fun range_bits :: "nat \<Rightarrow> int \<Rightarrow> int \<Rightarrow> nat" where
  "range_bits 0 lo count = 0"
| "range_bits (Suc b) lo count =
     (if lo mod 2 = 0 \<and> 2 \<le> count then Suc (range_bits b (lo div 2) (count div 2)) else 0)"

function summarize :: "nat \<Rightarrow> int \<Rightarrow> int \<Rightarrow> net list" where
  "summarize bits lo hi =
     (if lo \<le> hi
      then (let b = range_bits bits lo (hi - lo + 1) in
            ((lo, []), bits - b) # summarize bits (lo + 2 ^ b) hi)
      else [])"
  by pat_completeness auto
termination
  by (relation "measure (\<lambda>(bits, lo, hi). nat (hi + 1 - lo))") auto

declare summarize.simps [simp del]

text \<open>The second half: two networks with the same supernet are replaced by it, as long as there are any.\<close>

lemma update_length_new: "k \<notin> fst ` set d \<Longrightarrow> length (AList.update k v d) = Suc (length d)"
  by (induction d) auto

lemma length_delete_less: "k \<in> fst ` set d \<Longrightarrow> length (AList.delete k d) < length d"
proof (induction d)
  case (Cons e d)
  then show ?case by (cases e) (force simp: less_Suc_eq_le AList.length_delete_le)
qed simp

function merge_networks :: "nat \<Rightarrow> net list \<Rightarrow> (net, net) dict \<Rightarrow> (net, net) dict" where
  "merge_networks bits [] subnets = subnets"
| "merge_networks bits (n # stack) subnets =
     (case dict_get subnets (supernet bits n) of
        None \<Rightarrow> merge_networks bits stack (dict_set (supernet bits n) n subnets)
      | Some existing \<Rightarrow>
          if existing \<noteq> n then merge_networks bits (supernet bits n # stack) (dict_pop (supernet bits n) subnets)
          else merge_networks bits stack subnets)"
  by pat_completeness auto
termination
proof (relation "measure (\<lambda>(bits, stack, subnets). 2 * length stack + length subnets)", goal_cases)
  case (2 bits n stack subnets)
  then have "supernet bits n \<notin> fst ` set subnets" by (simp add: map_of_eq_None_iff)
  then have "length (dict_set (supernet bits n) n subnets) = Suc (length subnets)"
    by (simp add: dict_set_def update_length_new)
  then show ?case by simp
next
  case (3 bits n stack subnets existing)
  then have "supernet bits n \<in> fst ` set subnets" by (metis map_of_eq_None_iff option.distinct(1))
  then have "length (dict_pop (supernet bits n) subnets) < length subnets"
    by (simp add: dict_pop_def length_delete_less)
  then show ?case by simp
qed auto

declare merge_networks.simps(2) [simp del]

definition net_key :: "net \<Rightarrow> int \<times> nat" where "net_key n = (net_addr n, snd n)"

fun skip_subsumed :: "nat \<Rightarrow> net option \<Rightarrow> net list \<Rightarrow> net list" where
  "skip_subsumed bits prev [] = []"
| "skip_subsumed bits prev (n # ns) =
     (case prev of
        None \<Rightarrow> n # skip_subsumed bits (Some n) ns
      | Some p \<Rightarrow> if broadcast bits n \<le> broadcast bits p then skip_subsumed bits prev ns
                  else n # skip_subsumed bits (Some n) ns)"

definition collapse_internal :: "nat \<Rightarrow> net list \<Rightarrow> net list" where
  "collapse_internal bits ns =
     skip_subsumed bits None (sort_key net_key (map snd (merge_networks bits (rev ns) [])))"

definition summarize_ips :: "nat \<Rightarrow> int list \<Rightarrow> net list" where
  "summarize_ips bits ips =
     (case ips of [] \<Rightarrow> []
      | ip # rest \<Rightarrow> concat (map (\<lambda>(lo, hi). summarize bits lo hi) (address_ranges ip ip rest)))"

definition collapse_addresses :: "nat \<Rightarrow> net list \<Rightarrow> net list" where
  "collapse_addresses bits ns =
     collapse_internal bits
       (summarize_ips bits (sort (remdups (map net_addr (filter (\<lambda>n. snd n = bits) ns)))) @
        filter (\<lambda>n. snd n \<noteq> bits) ns)"

section \<open>The collapsed networks cover the same addresses, without overlap\<close>

definition net_ok :: "nat \<Rightarrow> net \<Rightarrow> bool" where
  "net_ok bits n \<longleftrightarrow> snd n \<le> bits \<and> 2 ^ (bits - snd n) dvd net_addr n \<and> snd (fst n) = []"

definition addrs :: "nat \<Rightarrow> net \<Rightarrow> int set" where
  "addrs bits n = {net_addr n .. broadcast bits n}"

definition cover :: "nat \<Rightarrow> net set \<Rightarrow> int set" where
  "cover bits ns = \<Union> (addrs bits ` ns)"

lemma cover_simps [simp]:
  "cover bits {} = {}"
  "cover bits (insert n ns) = addrs bits n \<union> cover bits ns"
  "cover bits (A \<union> B) = cover bits A \<union> cover bits B"
  by (auto simp: cover_def)

lemma mem_addrs_iff:
  assumes "net_ok bits n"
  shows "i \<in> addrs bits n \<longleftrightarrow> mask_addr bits (snd n) i = net_addr n"
proof -
  define s :: int where "s = 2 ^ (bits - snd n)"
  have s: "0 < s" "s dvd net_addr n" using assms by (auto simp: s_def net_ok_def)
  have "i \<in> addrs bits n \<longleftrightarrow> net_addr n \<le> i \<and> i < net_addr n + s"
    by (auto simp: addrs_def broadcast_def s_def)
  also have "\<dots> \<longleftrightarrow> i - i mod s = net_addr n"
  proof
    assume "net_addr n \<le> i \<and> i < net_addr n + s"
    then have "(i - net_addr n) mod s = i - net_addr n" by simp
    moreover have "(i - net_addr n) mod s = i mod s"
      using s(2) by (metis diff_zero dvd_imp_mod_0 mod_diff_right_eq)
    ultimately show "i - i mod s = net_addr n" by linarith
  next
    assume "i - i mod s = net_addr n"
    then show "net_addr n \<le> i \<and> i < net_addr n + s"
      using pos_mod_bound [OF s(1), of i] pos_mod_sign [OF s(1), of i] by linarith
  qed
  finally show ?thesis by (simp add: mask_addr_def s_def)
qed

lemma supernet_ok: "net_ok bits n \<Longrightarrow> net_ok bits (supernet bits n)"
  by (auto simp: supernet_def net_ok_def net_addr_def mask_addr_def simp flip: minus_mod_eq_mult_div)

lemma net_eqI: "net_addr n = net_addr m \<Longrightarrow> snd n = snd m \<Longrightarrow> net_ok bits n \<Longrightarrow> net_ok bits m \<Longrightarrow> n = m"
  by (auto simp: net_addr_def net_ok_def prod_eq_iff)

text \<open>Two different networks with the same supernet are its halves, or one of them is the whole space.\<close>

lemma half_cases:
  fixes a s :: int
  assumes "s dvd a" and "0 < s"
  shows "a mod (2 * s) = 0 \<or> a mod (2 * s) = s"
proof -
  obtain q where "a = s * q" using assms(1) by blast
  then have "a mod (2 * s) = s * (q mod 2)" by (simp add: mult.commute [of 2])
  then show ?thesis by (cases "q mod 2 = 0") (auto simp: not_mod_2_eq_0_eq_1)
qed

lemma addrs_supernet_subset:
  assumes "net_ok bits n"
  shows "addrs bits n \<subseteq> addrs bits (supernet bits n)"
proof (cases "snd n = 0")
  case False
  define s :: int where "s = 2 ^ (bits - snd n)"
  have e: "bits - (snd n - 1) = Suc (bits - snd n)" using False assms by (auto simp: net_ok_def)
  have "0 < s" "s dvd net_addr n" using assms by (auto simp: s_def net_ok_def)
  with half_cases [of s "net_addr n"] False e show ?thesis
    by (auto simp: addrs_def broadcast_def supernet_def net_addr_def mask_addr_def simp flip: s_def)
qed (simp add: supernet_def)

lemma addrs_supernet:
  assumes "net_ok bits n" "net_ok bits m" "supernet bits n = supernet bits m" "n \<noteq> m"
  shows "addrs bits (supernet bits n) = addrs bits n \<union> addrs bits m"
proof -
  consider "snd n = 0" | "snd m = 0" | p where "snd n = Suc p" "snd m = Suc p"
    using assms(3) by (cases "snd n"; cases "snd m") (auto simp: supernet_def split: if_splits)
  then show ?thesis
  proof cases
    case 1
    then show ?thesis using addrs_supernet_subset [OF assms(2)] assms(3) by (auto simp: supernet_def)
  next
    case 2
    then show ?thesis using addrs_supernet_subset [OF assms(1)] assms(3) by (auto simp: supernet_def)
  next
    case 3
    define s :: int where "s = 2 ^ (bits - Suc p)"
    have e: "bits - p = Suc (bits - Suc p)" using 3 assms(1) by (auto simp: net_ok_def)
    have s: "0 < s" "s dvd net_addr n" "s dvd net_addr m" "2 ^ (bits - p) = 2 * s"
      using assms 3 e by (auto simp: s_def net_ok_def)
    have base: "net_addr n - net_addr n mod (2 * s) = net_addr m - net_addr m mod (2 * s)"
      using assms(3) 3 s(4) by (simp add: supernet_def mask_addr_def)
    have "net_addr n \<noteq> net_addr m" using assms 3 net_eqI by metis
    with base half_cases [OF s(2,1)] half_cases [OF s(3,1)]
    have "net_addr n mod (2 * s) = 0 \<and> net_addr m = net_addr n + s \<or>
          net_addr m mod (2 * s) = 0 \<and> net_addr n = net_addr m + s" by auto
    moreover have "addrs bits (supernet bits n) =
        {net_addr n - net_addr n mod (2 * s) ..< net_addr n - net_addr n mod (2 * s) + 2 * s}"
      using 3 s(4) by (auto simp: addrs_def broadcast_def supernet_def net_addr_def mask_addr_def)
    moreover have "addrs bits n = {net_addr n ..< net_addr n + s}" "addrs bits m = {net_addr m ..< net_addr m + s}"
      using 3 by (auto simp: addrs_def broadcast_def s_def)
    ultimately show ?thesis using base s(1) by auto
  qed
qed

definition merge_inv :: "nat \<Rightarrow> (net, net) dict \<Rightarrow> bool" where
  "merge_inv bits d \<longleftrightarrow> dict_ok d \<and> (\<forall>(k, n) \<in> set d. k = supernet bits n \<and> net_ok bits n)"

lemma set_dict_set: "dict_get d k = None \<Longrightarrow> set (dict_set k v d) = insert (k, v) (set d)"
  by (induction d) (auto simp: dict_set_def split: if_splits)

lemma set_dict_pop: "set (dict_pop k d) = set d - {e. fst e = k}"
  by (auto simp: dict_pop_def AList.delete_eq)

lemma dict_get_mem: "dict_ok d \<Longrightarrow> dict_get d k = Some v \<longleftrightarrow> (k, v) \<in> set d"
  by (simp add: dict_ok_def)

lemma values_without_key:
  "(k, v) \<in> set d \<Longrightarrow> dict_ok d \<Longrightarrow> snd ` set d = insert v (snd ` (set d - {e. fst e = k}))"
  by (force simp: dict_ok_def image_iff dest: eq_key_imp_eq_value)

lemma merge_networks_cover:
  assumes "merge_inv bits d" "list_all (net_ok bits) ns"
  shows "merge_inv bits (merge_networks bits ns d) \<and>
    cover bits (snd ` set (merge_networks bits ns d)) = cover bits (set ns) \<union> cover bits (snd ` set d)"
  using assms
proof (induction bits ns d rule: merge_networks.induct)
  case (2 bits n stack d)
  let ?k = "supernet bits n"
  have n: "net_ok bits n" and st: "list_all (net_ok bits) stack" using 2(5) by auto
  show ?case
  proof (cases "dict_get d ?k")
    case None
    have "merge_inv bits (dict_set ?k n d)"
      using 2(4) n by (auto simp: merge_inv_def set_dict_set [OF None])
    from 2(1) [OF None this st] show ?thesis
      by (simp add: merge_networks.simps(2) None set_dict_set [OF None] Un_ac)
  next
    case (Some m)
    have m: "(?k, m) \<in> set d" using Some 2(4) by (auto simp: merge_inv_def dict_get_mem)
    then have okm: "net_ok bits m" "supernet bits m = ?k" using 2(4) by (auto simp: merge_inv_def)
    show ?thesis
    proof (cases "m = n")
      case True
      have "addrs bits n \<subseteq> cover bits (snd ` set d)" using m True by (force simp: cover_def)
      with 2(3) [OF Some _ 2(4) st] True show ?thesis
        by (auto simp: merge_networks.simps(2) Some)
    next
      case False
      have "merge_inv bits (dict_pop ?k d)" using 2(4) by (auto simp: merge_inv_def set_dict_pop)
      moreover have "list_all (net_ok bits) (?k # stack)" using st supernet_ok [OF n] by simp
      ultimately have IH: "merge_inv bits (merge_networks bits (?k # stack) (dict_pop ?k d))"
        "cover bits (snd ` set (merge_networks bits (?k # stack) (dict_pop ?k d))) =
         cover bits (set (?k # stack)) \<union> cover bits (snd ` set (dict_pop ?k d))"
        using 2(2) [OF Some] False by blast+
      have "snd ` set d = insert m (snd ` set (dict_pop ?k d))"
        unfolding set_dict_pop by (rule values_without_key) (use m 2(4) in \<open>auto simp: merge_inv_def\<close>)
      moreover have "merge_networks bits (n # stack) d = merge_networks bits (?k # stack) (dict_pop ?k d)"
        using False by (simp add: merge_networks.simps(2) [of bits n] Some)
      moreover have "addrs bits ?k = addrs bits n \<union> addrs bits m"
        using addrs_supernet [OF n okm(1) okm(2) [symmetric]] False by simp
      ultimately show ?thesis using IH by (simp add: Un_ac)
    qed
  qed
qed simp

text \<open>Two networks are nested or apart.\<close>

lemma nested_or_apart:
  assumes "net_ok bits n" "net_ok bits m" "net_key n \<le> net_key m"
  shows "broadcast bits n < net_addr m \<or> broadcast bits m \<le> broadcast bits n"
proof -
  define s t :: int where "s = 2 ^ (bits - snd n)" and "t = 2 ^ (bits - snd m)"
  have pos: "0 < s" "0 < t" and dvd: "s dvd net_addr n" "t dvd net_addr m"
    using assms by (auto simp: s_def t_def net_ok_def)
  have le: "net_addr n \<le> net_addr m" "net_addr n = net_addr m \<Longrightarrow> snd n \<le> snd m"
    using assms(3) by (auto simp: net_key_def less_eq_prod_def)
  have bc: "broadcast bits n = net_addr n + s - 1" "broadcast bits m = net_addr m + t - 1"
    by (simp_all add: broadcast_def s_def t_def)
  have gap: "x + d \<le> y" if "d dvd x" "d dvd y" "x < y" "0 < d" for x y d :: int
  proof -
    have "d dvd y - x" using that by (intro dvd_diff)
    then show ?thesis using that zdvd_imp_le [of d "y - x"] by linarith
  qed
  show ?thesis
  proof (cases "snd n \<le> snd m")
    case True
    then have "t dvd s" unfolding s_def t_def by (intro le_imp_power_dvd) simp
    then have "t dvd net_addr n + s" using dvd(1) dvd_trans dvd_add by blast
    then show ?thesis using gap [of t "net_addr m" "net_addr n + s"] dvd(2) pos bc by linarith
  next
    case False
    then have "s dvd t" unfolding s_def t_def by (intro le_imp_power_dvd) simp
    then have "s dvd net_addr m" using dvd(2) by (rule dvd_trans)
    moreover have "net_addr n < net_addr m" using le False by fastforce
    ultimately show ?thesis using gap [of s "net_addr n" "net_addr m"] dvd(1) pos bc by linarith
  qed
qed

definition apart :: "nat \<Rightarrow> net list \<Rightarrow> bool" where
  "apart bits ns \<longleftrightarrow> sorted_wrt (\<lambda>n m. broadcast bits n < net_addr m) ns"

lemma broadcast_ge: "net_addr n \<le> broadcast bits n"
  by (simp add: broadcast_def)

lemma skip_subsumed_from:
  assumes "sorted (map net_key (p # ns))" "list_all (net_ok bits) (p # ns)"
  shows "set (skip_subsumed bits (Some p) ns) \<subseteq> set ns \<and> apart bits (p # skip_subsumed bits (Some p) ns) \<and>
    addrs bits p \<union> cover bits (set (skip_subsumed bits (Some p) ns)) = addrs bits p \<union> cover bits (set ns)"
  using assms
proof (induction ns arbitrary: p)
  case (Cons n ns)
  show ?case
  proof (cases "broadcast bits n \<le> broadcast bits p")
    case True
    have "net_addr p \<le> net_addr n" using Cons.prems(1) by (auto simp: net_key_def less_eq_prod_def)
    then have "addrs bits n \<subseteq> addrs bits p" using True by (auto simp: addrs_def)
    moreover have "sorted (map net_key (p # ns))" "list_all (net_ok bits) (p # ns)" using Cons.prems by auto
    ultimately show ?thesis using Cons.IH [of p] True by auto
  next
    case False
    then have "broadcast bits p < net_addr n"
      using nested_or_apart [of bits p n] Cons.prems by auto
    moreover have "sorted (map net_key (n # ns))" "list_all (net_ok bits) (n # ns)" using Cons.prems by auto
    moreover note Cons.IH [OF this] broadcast_ge [of n bits]
    ultimately show ?thesis using False by (fastforce simp: apart_def)
  qed
qed (simp add: apart_def)

lemma skip_subsumed_cover:
  assumes "sorted (map net_key ns)" "list_all (net_ok bits) ns"
  shows "set (skip_subsumed bits None ns) \<subseteq> set ns \<and> apart bits (skip_subsumed bits None ns) \<and>
    cover bits (set (skip_subsumed bits None ns)) = cover bits (set ns)"
proof (cases ns)
  case (Cons n rest)
  show ?thesis using skip_subsumed_from [OF assms [unfolded Cons]] by (auto simp: Cons)
qed (simp add: apart_def)

lemma collapse_internal_cover:
  assumes "list_all (net_ok bits) ns"
  shows "list_all (net_ok bits) (collapse_internal bits ns) \<and> apart bits (collapse_internal bits ns) \<and>
    cover bits (set (collapse_internal bits ns)) = cover bits (set ns)"
proof -
  let ?d = "merge_networks bits (rev ns) []"
  have d: "merge_inv bits ?d" "cover bits (snd ` set ?d) = cover bits (set ns)"
    using merge_networks_cover [of bits "[]" "rev ns"] assms by (auto simp: merge_inv_def)
  let ?s = "sort_key net_key (map snd ?d)"
  have ok: "list_all (net_ok bits) ?s" using d(1) by (auto simp: merge_inv_def list_all_iff)
  note c = skip_subsumed_cover [OF sorted_sort_key ok]
  then have "list_all (net_ok bits) (skip_subsumed bits None ?s)"
    using ok unfolding list_all_iff by blast
  with c d(2) show ?thesis by (simp add: collapse_internal_def)
qed

lemma range_bits_props:
  "range_bits b lo n \<le> b \<and> 2 ^ range_bits b lo n dvd lo \<and> (1 \<le> n \<longrightarrow> 2 ^ range_bits b lo n \<le> n)"
proof (induction b lo n rule: range_bits.induct)
  case (2 b lo n)
  show ?case
  proof (cases "lo mod 2 = 0 \<and> 2 \<le> n")
    case True
    note IH = 2 [OF True]
    have e: "lo = 2 * (lo div 2)" "2 * (n div 2) \<le> n" "1 \<le> n div 2" using True by auto
    have "2 * 2 ^ range_bits b (lo div 2) (n div 2) dvd 2 * (lo div 2)" using IH by (intro mult_dvd_mono) auto
    moreover have "2 * 2 ^ range_bits b (lo div 2) (n div 2) \<le> n" using IH e(2,3) by linarith
    ultimately show ?thesis using IH True e(1) by simp
  qed auto
qed auto

lemma summarize_cover:
  "list_all (net_ok bits) (summarize bits lo hi) \<and> cover bits (set (summarize bits lo hi)) = {lo..hi}"
proof (induction bits lo hi rule: summarize.induct)
  case (1 bits lo hi)
  show ?case
  proof (cases "lo \<le> hi")
    case True
    define b where "b = range_bits bits lo (hi - lo + 1)"
    have b: "b \<le> bits" "2 ^ b dvd lo" "2 ^ b \<le> hi - lo + 1"
      using range_bits_props [of bits lo "hi - lo + 1"] True by (auto simp: b_def)
    have "net_ok bits ((lo, []), bits - b)" using b by (simp add: net_ok_def net_addr_def)
    moreover have "addrs bits ((lo, []), bits - b) = {lo ..< lo + 2 ^ b}"
      using b(1) by (auto simp: addrs_def broadcast_def net_addr_def)
    moreover have "{lo ..< lo + 2 ^ b} \<union> {lo + 2 ^ b .. hi} = {lo .. hi}"
    proof -
      have "lo \<le> lo + 2 ^ b" by simp
      with b(3) show ?thesis by (intro set_eqI) (simp only: Un_iff atLeastAtMost_iff atLeastLessThan_iff; linarith)
    qed
    ultimately show ?thesis
      using 1 [OF True b_def] True by (simp add: summarize.simps [of bits lo] Let_def flip: b_def)
  qed (simp add: summarize.simps)
qed

lemma address_ranges_cover:
  "lo \<le> hi \<Longrightarrow> (\<Union>(l, h) \<in> set (address_ranges lo hi ips). {l..h}) = {lo..hi} \<union> set ips"
  by (induction ips arbitrary: lo hi) force+

lemma summarize_ips_cover:
  "list_all (net_ok bits) (summarize_ips bits ips) \<and> cover bits (set (summarize_ips bits ips)) = set ips"
proof (cases ips)
  case (Cons ip rest)
  let ?r = "address_ranges ip ip rest"
  have "cover bits (set (summarize_ips bits ips)) = (\<Union>(l, h) \<in> set ?r. cover bits (set (summarize bits l h)))"
    by (auto simp: Cons summarize_ips_def cover_def)
  also have "\<dots> = set ips" using address_ranges_cover [of ip ip rest] by (simp add: summarize_cover Cons)
  finally show ?thesis using summarize_cover by (force simp: Cons summarize_ips_def list_all_iff)
qed (simp add: summarize_ips_def)

lemma addrs_single: "snd n = bits \<Longrightarrow> addrs bits n = {net_addr n}"
  by (simp add: addrs_def broadcast_def)

lemma collapse_addresses_cover:
  assumes "list_all (net_ok bits) ns"
  shows "list_all (net_ok bits) (collapse_addresses bits ns)"
    and "apart bits (collapse_addresses bits ns)"
    and "cover bits (set (collapse_addresses bits ns)) = cover bits (set ns)"
proof -
  let ?ips = "sort (remdups (map net_addr (filter (\<lambda>n. snd n = bits) ns)))"
  let ?ns = "summarize_ips bits ?ips @ filter (\<lambda>n. snd n \<noteq> bits) ns"
  have "list_all (net_ok bits) ?ns" using assms summarize_ips_cover [of bits ?ips] by (auto simp: list_all_iff)
  note c = collapse_internal_cover [OF this]
  have "set ?ips = cover bits {n \<in> set ns. snd n = bits}" by (auto simp: cover_def addrs_single)
  then have "cover bits (set ?ns) = cover bits {n \<in> set ns. snd n = bits} \<union> cover bits {n \<in> set ns. snd n \<noteq> bits}"
    using summarize_ips_cover [of bits ?ips] by simp
  also have "\<dots> = cover bits (set ns)" by (auto simp: cover_def)
  finally show "cover bits (set (collapse_addresses bits ns)) = cover bits (set ns)"
    using c by (simp add: collapse_addresses_def)
  show "list_all (net_ok bits) (collapse_addresses bits ns)" "apart bits (collapse_addresses bits ns)"
    using c by (simp_all add: collapse_addresses_def)
qed

end
