(* ===== verification/Nftables.thy ===== *)
theory Nftables
  imports XdpBackend CidrCollapse
begin

text \<open>
  \<open>auto_xdp/backends/nftables.py\<close>: the fallback backend. It renders the whole desired
  policy as one \<open>nft\<close> script and hands it to the command in one transaction. The
  text is modelled down to its characters, since parts of it are read back. The
  command \<open>nft\<close> itself is a parameter: what it returns and how it changes the kernel.
\<close>

section \<open>Text\<close>

definition nl :: string where "nl = [CHR 0x0A]"

text \<open>\<open>s.replace(old, new)\<close> for a non-empty \<open>old\<close>: from the left, without overlaps.\<close>

function str_replace :: "string \<Rightarrow> string \<Rightarrow> string \<Rightarrow> string" where
  "str_replace old new s =
     (case s of
        [] \<Rightarrow> []
      | c # r \<Rightarrow> if old \<noteq> [] \<and> str_prefix old s then new @ str_replace old new (drop (length old) s)
                 else c # str_replace old new r)"
  by pat_completeness auto
termination
  by (relation "measure (\<lambda>(old, new, s). length s)") (auto simp flip: length_greater_0_conv)

declare str_replace.simps [simp del]

text \<open>\<open>re.search\<close>: the first position at which a match succeeds; the matcher sees the character before it.\<close>

fun re_search :: "(char option \<Rightarrow> string \<Rightarrow> 'a option) \<Rightarrow> char option \<Rightarrow> string \<Rightarrow> 'a option" where
  "re_search f prev [] = f prev []"
| "re_search f prev (c # s) = (case f prev (c # s) of Some x \<Rightarrow> Some x | None \<Rightarrow> re_search f (Some c) s)"

text \<open>A literal at the front of the text.\<close>

definition lit :: "string \<Rightarrow> string \<Rightarrow> string option" where
  "lit p s = (if str_prefix p s then Some (drop (length p) s) else None)"

text \<open>\<open>(.*?)\<close>: the shortest part after which the rest matches.\<close>

fun until :: "(string \<Rightarrow> bool) \<Rightarrow> string \<Rightarrow> string option" where
  "until f [] = (if f [] then Some [] else None)"
| "until f (c # s) = (if f (c # s) then Some [] else map_option ((#) c) (until f s))"

text \<open>\<open>elements\s*=\s*\{(.*?)\}\<close>\<close>

definition match_elements :: "char option \<Rightarrow> string \<Rightarrow> string option" where
  "match_elements prev s =
     Option.bind (lit ''elements'' s) (\<lambda>s1.
     Option.bind (lit ''='' (str_lstrip s1)) (\<lambda>s2.
     Option.bind (lit ''{'' (str_lstrip s2)) (until (str_prefix ''}''))))"

definition is_word :: "char \<Rightarrow> bool" where
  "is_word c \<longleftrightarrow> (let n = of_char c :: nat in
     is_digit c \<or> 65 \<le> n \<and> n \<le> 90 \<or> 97 \<le> n \<and> n \<le> 122 \<or> n = 95)"

text \<open>\<open>\bset\s+NAME\s*\{(.*?)(?=\n\s*\})\<close>; no name begins with a blank.\<close>

definition closes_set :: "string \<Rightarrow> bool" where
  "closes_set s = (case lit nl s of None \<Rightarrow> False | Some r \<Rightarrow> str_prefix ''}'' (str_lstrip r))"

definition match_set :: "string \<Rightarrow> char option \<Rightarrow> string \<Rightarrow> string option" where
  "match_set name prev s =
     (if (case prev of None \<Rightarrow> False | Some c \<Rightarrow> is_word c) then None
      else Option.bind (lit ''set'' s) (\<lambda>s1.
           if str_lstrip s1 = s1 then None
           else Option.bind (lit name (str_lstrip s1)) (\<lambda>s2.
                Option.bind (lit ''{'' (str_lstrip s2)) (until closes_set))))"


section \<open>Constants and helpers\<close>

definition NFT_SCHEMA_MARKER :: string where "NFT_SCHEMA_MARKER = ''policy_schema_v2''"
definition NFT_TCP_SET :: string where "NFT_TCP_SET = ''tcp_ports''"
definition NFT_UDP_SET :: string where "NFT_UDP_SET = ''udp_ports''"
definition NFT_SCTP_SET :: string where "NFT_SCTP_SET = ''sctp_ports''"
definition NFT_TRUSTED_SET4 :: string where "NFT_TRUSTED_SET4 = ''trusted_v4''"
definition NFT_TRUSTED_SET6 :: string where "NFT_TRUSTED_SET6 = ''trusted_v6''"

definition BOGON_V4 :: "string list" where
  "BOGON_V4 = [''0.0.0.0/8'', ''10.0.0.0/8'', ''100.64.0.0/10'', ''127.0.0.0/8'', ''169.254.0.0/16'',
     ''172.16.0.0/12'', ''192.168.0.0/16'', ''224.0.0.0/4'', ''240.0.0.0/4'']"

definition BOGON_V6 :: "string list" where
  "BOGON_V6 = [''::/128'', ''::1/128'', ''::ffff:0:0/96'', ''fc00::/7'', ''fe80::/10'', ''ff00::/8'']"

definition set_block :: "string \<Rightarrow> string \<Rightarrow> string list \<Rightarrow> bool \<Rightarrow> string" where
  "set_block name value_type elements interval =
     str_join nl (
       [''    set '' @ name @ '' {'', ''        type '' @ value_type] @
       (if interval then [''        flags interval''] else []) @
       (if elements \<noteq> [] then [''        elements = { '' @ str_join '', '' elements @ '' }''] else []) @
       [''    }''])"

text \<open>\<open>_rate\<close> of an integer and of a float.\<close>

definition rate :: "int \<Rightarrow> int" where "rate v = max 1 v"

definition rate_of_float :: "pyfloat \<Rightarrow> int res" where
  "rate_of_float v =
     (case v of Fin r \<Rightarrow> Inr (max 1 \<lceil>r\<rceil>) | NaN \<Rightarrow> Inl ValueErr | _ \<Rightarrow> Inl OverflowErr)"

definition prefix_mask :: "int \<Rightarrow> int \<Rightarrow> string" where
  "prefix_mask family prefix =
     (let bits = (if family = 4 then 32 else 128); p = nat (max 0 (min (int bits) prefix));
          mask = 2 ^ bits - 2 ^ (bits - p)
      in if family = 4 then ipv4_str mask else ipv6_str mask)"

text \<open>\<open>ip_network(cidr)\<close> with \<open>strict=True\<close>: the family (true for IPv6) and the network; host bits are an error.\<close>

definition strict_network :: "string \<Rightarrow> (bool \<times> net) res" where
  "strict_network s =
     (let addr = hd (str_split (CHR ''/'') s) in
      case ipv4_network s of
        Some (i, p) \<Rightarrow> if ipv4_of_str addr = Some i then Inr (False, ((i, []), p)) else Inl ValueErr
      | None \<Rightarrow>
          (case ipv6_network s of
             Some ((i, sc), p) \<Rightarrow>
               if map_option fst (ipv6_of_str addr) = Some i then Inr (True, ((i, sc), p)) else Inl ValueErr
           | None \<Rightarrow> Inl ValueErr))"

definition collapse_cidrs :: "string list \<Rightarrow> string list res" where
  "collapse_cidrs cidrs =
     rbind (rmap strict_network cidrs) (\<lambda>networks.
     Inr (map (\<lambda>n. ipv4_network_str (net_addr n, snd n))
            (collapse_addresses 32 (map snd (filter (\<lambda>n. \<not> fst n) networks))) @
          map ipv6_network_str (collapse_addresses 128 (map snd (filter fst networks)))))"

text \<open>
  What is outside the program: whether \<open>nft\<close> is found, a run of it with arguments and
  input, and the order \<open>sorted\<close> gives to ACL rules none of whose protocols is
  text (such rules are never rendered).
\<close>

record nft_result =
  nr_returncode :: int
  nr_stdout :: string
  nr_stderr :: string

record 'k nft =
  nft_which :: bool
  nft_run :: "string list \<Rightarrow> string option \<Rightarrow> ('k, nft_result) pym"
  nft_acl_order :: "acl_table \<Rightarrow> acl_table res"

definition is_text :: "pyval \<Rightarrow> bool" where
  "is_text v = (case v of VStr _ \<Rightarrow> True | _ \<Rightarrow> False)"

definition text_of :: "pyval \<Rightarrow> string" where
  "text_of v = (case v of VStr s \<Rightarrow> s | _ \<Rightarrow> [])"

definition acl_rule_key :: "acl_key \<times> int set \<Rightarrow> string \<times> string" where
  "acl_rule_key e = (text_of (fst (fst e)), snd (fst e))"

text \<open>\<open>sorted(desired.acl_rules.items())\<close>: text and other values do not compare.\<close>

definition acl_sorted :: "(acl_table \<Rightarrow> acl_table res) \<Rightarrow> acl_table \<Rightarrow> acl_table res" where
  "acl_sorted order d =
     (if list_all (\<lambda>e. is_text (fst (fst e))) d then Inr (sort_key acl_rule_key d)
      else if length d \<le> 1 then Inr d
      else if list_ex (\<lambda>e. is_text (fst (fst e))) d then Inl TypeErr
      else order d)"

section \<open>The policy signature\<close>

record NftSignature =
  sg_tcp_ports :: "int set"
  sg_udp_ports :: "int set"
  sg_sctp_ports :: "int set"
  sg_trusted_cidrs :: "string set"
  sg_tcp_syn_rate_limits :: "(int \<times> int) list"
  sg_tcp_syn_agg_rate_limits :: "(int \<times> int) list"
  sg_tcp_conn_limits :: "(int \<times> int) list"
  sg_tcp_conn_prefix_limits :: "(int \<times> int) list"
  sg_tcp_conn_port_limits :: "(int \<times> int) list"
  sg_udp_rate_limits :: "(int \<times> int) list"
  sg_udp_agg_rate_limits :: "(int \<times> int) list"
  sg_acl_rules :: "(pyval \<times> string \<times> int list) list"
  sg_bogon_filter_enabled :: bool
  sg_drop_events_enabled :: bool
  sg_rate_limit_source_prefix_v4 :: int
  sg_rate_limit_source_prefix_v6 :: int
  sg_udp_global_byte_rate :: int
  sg_sit4_endpoints :: "string list"
  sg_slot_default_action :: string
  sg_nft_family :: string
  sg_nft_table :: string

definition policy_signature :: "(acl_table \<Rightarrow> acl_table res) \<Rightarrow> Config \<Rightarrow> DesiredState \<Rightarrow> NftSignature res" where
  "policy_signature order c d =
     rbind (acl_sorted order (ds_acl_rules d)) (\<lambda>acl. Inr \<lparr>
       sg_tcp_ports = ds_tcp_ports d, sg_udp_ports = ds_udp_ports d, sg_sctp_ports = ds_sctp_ports d,
       sg_trusted_cidrs = ds_trusted_cidrs d,
       sg_tcp_syn_rate_limits = sort_key fst (ds_tcp_syn_rate_limits d),
       sg_tcp_syn_agg_rate_limits = sort_key fst (ds_tcp_syn_agg_rate_limits d),
       sg_tcp_conn_limits = sort_key fst (ds_tcp_conn_limits d),
       sg_tcp_conn_prefix_limits = sort_key fst (ds_tcp_conn_prefix_limits d),
       sg_tcp_conn_port_limits = sort_key fst (ds_tcp_conn_port_limits d),
       sg_udp_rate_limits = sort_key fst (ds_udp_rate_limits d),
       sg_udp_agg_rate_limits = sort_key fst (ds_udp_agg_rate_limits d),
       sg_acl_rules = map (\<lambda>((proto, cidr), ports). (proto, cidr, sorted_list_of_set ports)) acl,
       sg_bogon_filter_enabled = ds_bogon_filter_enabled d,
       sg_drop_events_enabled = ds_drop_events_enabled d,
       sg_rate_limit_source_prefix_v4 = ds_rate_limit_source_prefix_v4 d,
       sg_rate_limit_source_prefix_v6 = ds_rate_limit_source_prefix_v6 d,
       sg_udp_global_byte_rate = ds_udp_global_byte_rate d,
       sg_sit4_endpoints = SIT4_ENDPOINTS c, sg_slot_default_action = SLOT_DEFAULT_ACTION c,
       sg_nft_family = NFT_FAMILY c, sg_nft_table = NFT_TABLE c\<rparr>)"

section \<open>The rules\<close>

definition family_flags :: "Config \<Rightarrow> bool \<times> bool" where
  "family_flags c = (NFT_FAMILY c \<in> {''inet'', ''ip''}, NFT_FAMILY c \<in> {''inet'', ''ip6''})"

definition addr_expr :: "int \<Rightarrow> string" where
  "addr_expr family = (if family = 4 then ''ip saddr'' else ''ip6 saddr'')"

definition port_list :: "int set \<Rightarrow> string list" where
  "port_list ports = map str_of_int (sorted_list_of_set ports)"

definition acl_rule_line :: "string \<Rightarrow> int \<Rightarrow> acl_key \<times> int set \<Rightarrow> string" where
  "acl_rule_line proto family e =
     (let cidr = snd (fst e); ports = str_join '', '' (port_list (snd e));
          port_set = (if proto = ''tcp'' then NFT_TCP_SET else NFT_UDP_SET)
      in if proto = ''tcp''
         then ''        '' @ addr_expr family @ '' '' @ cidr @ '' tcp flags & (syn | ack) == syn tcp dport { '' @
              ports @ '' } counter accept''
         else ''        '' @ addr_expr family @ '' '' @ cidr @ '' udp dport @'' @ port_set @ '' udp dport { '' @
              ports @ '' } counter accept'')"

definition acl_rules :: "(acl_table \<Rightarrow> acl_table res) \<Rightarrow> DesiredState \<Rightarrow> string \<Rightarrow> int \<Rightarrow> string list res" where
  "acl_rules order d proto family =
     rbind (acl_sorted order (ds_acl_rules d)) (\<lambda>rules.
     Inr (map (acl_rule_line proto family)
       (filter (\<lambda>((p, cidr), ports). p = VStr proto \<and> (CHR '':'' \<in> set cidr) = (family = 6) \<and> ports \<noteq> {}) rules)))"

text \<open>An empty set block that is filled by the rules.\<close>

definition dynamic_block :: "string \<Rightarrow> string \<Rightarrow> string" where
  "dynamic_block name value_type =
     str_replace ''    }'' (''        flags dynamic'' @ nl @ ''    }'') (set_block name value_type [] False)"

definition dyn_name :: "string \<Rightarrow> int \<Rightarrow> string \<Rightarrow> int \<Rightarrow> string" where
  "dyn_name kind family suffix port = kind @ str_of_int family @ suffix @ ''_'' @ str_of_int port"

definition tcp_policy_objects :: "DesiredState \<Rightarrow> int \<Rightarrow> string list" where
  "tcp_policy_objects d family =
     (let value_type = (if family = 4 then ''ipv4_addr'' else ''ipv6_addr'') in
      concat (map (\<lambda>port.
        (if 0 < dict_get_or (ds_tcp_conn_limits d) port 0
         then [dynamic_block (dyn_name ''tc'' family ''s'' port) value_type] else []) @
        (if 0 < dict_get_or (ds_tcp_conn_prefix_limits d) port 0
         then [dynamic_block (dyn_name ''tc'' family ''p'' port) value_type] else []))
        (sorted_list_of_set (ds_tcp_ports d))))"

definition source_mask :: "DesiredState \<Rightarrow> int \<Rightarrow> string" where
  "source_mask d family =
     prefix_mask family (if family = 4 then ds_rate_limit_source_prefix_v4 d else ds_rate_limit_source_prefix_v6 d)"

definition per_second :: "string \<Rightarrow> int \<Rightarrow> string" where
  "per_second unit r =
     (if unit = ''bytes''
      then '' limit rate over '' @ str_of_int r @ '' bytes/second burst '' @ str_of_int r @ '' bytes''
      else '' limit rate over '' @ str_of_int r @ ''/second burst '' @ str_of_int r @ '' packets'')"

definition tcp_port_rules :: "DesiredState \<Rightarrow> int \<Rightarrow> int \<Rightarrow> string list" where
  "tcp_port_rules d family port =
     (let addr = addr_expr family; mask = source_mask d family; dport = ''        tcp dport '' @ str_of_int port;
          per_src = dict_get_or (ds_tcp_syn_rate_limits d) port 0;
          per_prefix = dict_get_or (ds_tcp_syn_agg_rate_limits d) port 0;
          conn_src = dict_get_or (ds_tcp_conn_limits d) port 0;
          conn_prefix = dict_get_or (ds_tcp_conn_prefix_limits d) port 0;
          conn_port = dict_get_or (ds_tcp_conn_port_limits d) port 0
      in (if 0 < per_src
          then [dport @ '' tcp flags & (syn | ack) == syn meter '' @ dyn_name ''ts'' family [] port @ '' { '' @
                addr @ per_second ''packets'' (rate per_src) @ '' } counter drop''] else []) @
         (if 0 < per_prefix
          then [dport @ '' tcp flags & (syn | ack) == syn meter '' @ dyn_name ''tp'' family [] port @ '' { '' @
                addr @ '' & '' @ mask @ per_second ''packets'' (rate per_prefix) @ '' } counter drop''] else []) @
         (if 0 < conn_src
          then [dport @ '' ct state new add @'' @ dyn_name ''tc'' family ''s'' port @ '' { '' @
                addr @ '' ct count over '' @ str_of_int conn_src @ '' } counter drop''] else []) @
         (if 0 < conn_prefix
          then [dport @ '' ct state new add @'' @ dyn_name ''tc'' family ''p'' port @ '' { '' @
                addr @ '' & '' @ mask @ '' ct count over '' @ str_of_int conn_prefix @ '' } counter drop''] else []) @
         (if 0 < conn_port
          then [dport @ '' ct state new add @tcp_conn_ports { tcp dport ct count over '' @
                str_of_int conn_port @ '' } counter drop''] else []))"

definition tcp_policy_rules :: "DesiredState \<Rightarrow> int \<Rightarrow> string list" where
  "tcp_policy_rules d family = concat (map (tcp_port_rules d family) (sorted_list_of_set (ds_tcp_ports d)))"

definition udp_port_rules :: "DesiredState \<Rightarrow> int \<Rightarrow> int \<Rightarrow> string list" where
  "udp_port_rules d family port =
     (let addr = addr_expr family; mask = source_mask d family; dport = ''        udp dport '' @ str_of_int port;
          per_src = dict_get_or (ds_udp_rate_limits d) port 0;
          per_prefix = dict_get_or (ds_udp_agg_rate_limits d) port 0
      in (if 0 < per_src
          then [dport @ '' meter '' @ dyn_name ''us'' family [] port @ '' { '' @ addr @
                per_second ''packets'' (rate per_src) @ '' } counter drop''] else []) @
         (if 0 < per_prefix
          then [dport @ '' meter '' @ dyn_name ''up'' family [] port @ '' { '' @ addr @ '' & '' @ mask @
                per_second ''bytes'' (rate per_prefix) @ '' } counter drop''] else []))"

definition udp_policy_rules :: "DesiredState \<Rightarrow> int \<Rightarrow> string list" where
  "udp_policy_rules d family = concat (map (udp_port_rules d family) (sorted_list_of_set (ds_udp_ports d)))"

section \<open>The script\<close>

definition when_list :: "bool \<Rightarrow> 'a list \<Rightarrow> 'a list" where
  "when_list b xs = (if b then xs else [])"

definition when_res :: "bool \<Rightarrow> 'a list res \<Rightarrow> 'a list res" where
  "when_res b r = (if b then r else Inr [])"

definition render_blocks :: "Config \<Rightarrow> DesiredState \<Rightarrow> string list \<Rightarrow> string list \<Rightarrow> string list" where
  "render_blocks c d trusted_v4 trusted_v6 =
     (let (has_v4, has_v6) = family_flags c in
      [set_block NFT_SCHEMA_MARKER ''mark'' [] False,
       set_block NFT_TCP_SET ''inet_service'' (port_list (ds_tcp_ports d)) False,
       set_block NFT_UDP_SET ''inet_service'' (port_list (ds_udp_ports d)) False,
       set_block NFT_SCTP_SET ''inet_service'' (port_list (ds_sctp_ports d)) False,
       set_block NFT_TRUSTED_SET4 ''ipv4_addr'' trusted_v4 True,
       set_block NFT_TRUSTED_SET6 ''ipv6_addr'' trusted_v6 True] @
      when_list (has_v4 \<and> ds_bogon_filter_enabled d) [set_block ''bogon_v4'' ''ipv4_addr'' BOGON_V4 True] @
      when_list (has_v6 \<and> ds_bogon_filter_enabled d) [set_block ''bogon_v6'' ''ipv6_addr'' BOGON_V6 True] @
      when_list has_v4 (tcp_policy_objects d 4) @
      when_list has_v6 (tcp_policy_objects d 6) @
      when_list (\<exists>port \<in> ds_tcp_ports d. 0 < dict_get_or (ds_tcp_conn_port_limits d) port 0)
        [dynamic_block ''tcp_conn_ports'' ''inet_service''])"

definition first_rules :: "Config \<Rightarrow> DesiredState \<Rightarrow> string list" where
  "first_rules c d =
     (let (has_v4, has_v6) = family_flags c in
      [''        iifname \"lo\" counter accept''] @
      when_list has_v4 [''        ip frag-off & 0x3fff != 0 counter drop''] @
      when_list has_v6 [''        exthdr frag exists counter drop''] @
      when_list (has_v4 \<and> ds_bogon_filter_enabled d) [''        ip saddr @bogon_v4 counter drop''] @
      when_list (has_v6 \<and> ds_bogon_filter_enabled d) [''        ip6 saddr @bogon_v6 counter drop''] @
      [''        tcp sport 0 counter drop'',
       ''        tcp dport 0 counter drop'',
       ''        tcp flags == 0 counter drop'',
       ''        tcp flags & (syn | fin) == (syn | fin) counter drop'',
       ''        tcp flags & (syn | rst) == (syn | rst) counter drop'',
       ''        tcp flags & (rst | fin) == (rst | fin) counter drop'',
       ''        tcp flags & (fin | psh | urg) == (fin | psh | urg) counter drop'',
       ''        udp sport 0 counter drop'',
       ''        udp dport 0 counter drop'',
       ''        udp length < 8 counter drop'',
       ''        ct state invalid counter drop'',
       ''        ct state established,related counter accept''])"

definition tcp_rules :: "(acl_table \<Rightarrow> acl_table res) \<Rightarrow> Config \<Rightarrow> DesiredState \<Rightarrow> string list res" where
  "tcp_rules order c d =
     (let (has_v4, has_v6) = family_flags c in
      rbind (when_res has_v4 (acl_rules order d ''tcp'' 4)) (\<lambda>acl4.
      rbind (when_res has_v6 (acl_rules order d ''tcp'' 6)) (\<lambda>acl6.
      Inr (when_list has_v4
             ((''        ip saddr @'' @ NFT_TRUSTED_SET4 @ '' tcp flags & (syn | ack) == syn counter accept'') # acl4) @
           when_list has_v6
             ((''        ip6 saddr @'' @ NFT_TRUSTED_SET6 @ '' tcp flags & (syn | ack) == syn counter accept'') # acl6) @
           when_list has_v4 (tcp_policy_rules d 4) @ when_list has_v6 (tcp_policy_rules d 6) @
           [''        tcp flags & (syn | ack) == syn tcp dport @'' @ NFT_TCP_SET @ '' counter accept'',
            ''        meta l4proto tcp counter drop'']))))"

definition udp_sctp_rules :: "(acl_table \<Rightarrow> acl_table res) \<Rightarrow> Config \<Rightarrow> DesiredState \<Rightarrow> string list res" where
  "udp_sctp_rules order c d =
     (let (has_v4, has_v6) = family_flags c in
      rbind (when_res has_v4 (acl_rules order d ''udp'' 4)) (\<lambda>acl4.
      rbind (when_res has_v6 (acl_rules order d ''udp'' 6)) (\<lambda>acl6.
      Inr (when_list has_v4
             ((''        ip saddr @'' @ NFT_TRUSTED_SET4 @ '' udp dport @'' @ NFT_UDP_SET @ '' counter accept'') # acl4) @
           when_list has_v6
             ((''        ip6 saddr @'' @ NFT_TRUSTED_SET6 @ '' udp dport @'' @ NFT_UDP_SET @ '' counter accept'') # acl6) @
           when_list (0 < ds_udp_global_byte_rate d)
             [''        udp dport @'' @ NFT_UDP_SET @ per_second ''bytes'' (rate (ds_udp_global_byte_rate d)) @
              '' counter drop''] @
           when_list has_v4 (udp_policy_rules d 4) @ when_list has_v6 (udp_policy_rules d 6) @
           [''        udp dport @'' @ NFT_UDP_SET @ '' counter accept'',
            ''        meta l4proto udp counter drop'',
            ''        sctp dport @'' @ NFT_SCTP_SET @ '' counter accept'',
            ''        meta l4proto sctp counter drop'']))))"

definition icmp_rules :: "Config \<Rightarrow> string list res" where
  "icmp_rules c =
     (let (has_v4, has_v6) = family_flags c; pps = XDP_ICMP_RATE_PPS (xdp_runtime c);
          burst = str_of_int (max 1 (XDP_ICMP_BURST_PACKETS (xdp_runtime c)))
      in rbind (if flt_lt (Fin 0) pps then rate_of_float pps else Inr 0) (\<lambda>icmp_rate.
         let limit = (\<lambda>what. when_list (icmp_rate \<noteq> 0)
               [''        '' @ what @ '' type echo-request limit rate over '' @ str_of_int icmp_rate @
                ''/second burst '' @ burst @ '' packets counter drop''])
         in Inr (
           when_list has_v4
             ([''        ip protocol icmp icmp type { destination-unreachable, time-exceeded, parameter-problem } counter accept'',
               ''        ip saddr @'' @ NFT_TRUSTED_SET4 @ '' ip protocol icmp counter accept''] @
              limit ''ip protocol icmp icmp'' @ [''        ip protocol icmp counter accept'']) @
           when_list has_v6
             ([''        ip6 saddr @'' @ NFT_TRUSTED_SET6 @ '' meta l4proto ipv6-icmp counter accept''] @
              limit ''meta l4proto ipv6-icmp icmpv6'' @ [''        meta l4proto ipv6-icmp counter accept'']))))"

definition last_rules :: "Config \<Rightarrow> string list" where
  "last_rules c =
     when_list (fst (family_flags c) \<and> SIT4_ENDPOINTS c \<noteq> [])
       [''        ip protocol ipv6 ip saddr { '' @ str_join '', '' (sort (SIT4_ENDPOINTS c)) @ '' } counter accept'',
        ''        ip protocol ipv6 counter drop''] @
     [if SLOT_DEFAULT_ACTION c = ''drop'' then ''        counter drop'' else ''        counter accept'']"

text \<open>The table, without the line that deletes its predecessor.\<close>

definition render_table :: "(acl_table \<Rightarrow> acl_table res) \<Rightarrow> Config \<Rightarrow> DesiredState \<Rightarrow> string res" where
  "render_table order c d =
     rbind (collapse_cidrs (sorted_list_of_set {cidr \<in> ds_trusted_cidrs d. CHR '':'' \<notin> set cidr})) (\<lambda>trusted_v4.
     rbind (collapse_cidrs (sorted_list_of_set {cidr \<in> ds_trusted_cidrs d. CHR '':'' \<in> set cidr})) (\<lambda>trusted_v6.
     rbind (tcp_rules order c d) (\<lambda>tcp.
     rbind (udp_sctp_rules order c d) (\<lambda>udp.
     rbind (icmp_rules c) (\<lambda>icmp.
     Inr (''table '' @ NFT_FAMILY c @ '' '' @ NFT_TABLE c @ '' {'' @ nl @
          str_join (nl @ nl) (render_blocks c d trusted_v4 trusted_v6) @ nl @ nl @
          ''    chain input {'' @ nl @
          ''        type filter hook input priority filter; policy accept;'' @ nl @
          str_join nl (first_rules c d @ tcp @ udp @ icmp @ last_rules c) @ nl @
          ''    }'' @ nl @ ''}'' @ nl))))))"

definition render_ruleset :: "(acl_table \<Rightarrow> acl_table res) \<Rightarrow> Config \<Rightarrow> DesiredState \<Rightarrow> bool \<Rightarrow> string res" where
  "render_ruleset order c d replace =
     rbind (render_table order c d) (\<lambda>table.
     Inr ((if replace then ''delete table '' @ NFT_FAMILY c @ '' '' @ NFT_TABLE c @ nl else []) @ table))"

section \<open>The backend\<close>

record NftablesBackend =
  nb_tcp_cache :: "int set"
  nb_udp_cache :: "int set"
  nb_sctp_cache :: "int set"
  nb_trusted_cache :: "string set"
  nb_tcp_syn_rate_cache :: limits
  nb_tcp_syn_agg_rate_cache :: limits
  nb_tcp_conn_limit_cache :: limits
  nb_tcp_conn_prefix_limit_cache :: limits
  nb_tcp_conn_port_limit_cache :: limits
  nb_udp_rate_cache :: limits
  nb_udp_agg_rate_cache :: limits
  nb_acl_cache :: acl_table
  nb_bogon_cache :: "bool option"
  nb_drop_events_cache :: "bool option"
  nb_udp_global_byte_rate_cache :: "int option"
  nb_policy_signature :: "NftSignature option"

definition NftablesBackend_empty :: NftablesBackend where
  "NftablesBackend_empty = \<lparr>nb_tcp_cache = {}, nb_udp_cache = {}, nb_sctp_cache = {}, nb_trusted_cache = {},
     nb_tcp_syn_rate_cache = [], nb_tcp_syn_agg_rate_cache = [], nb_tcp_conn_limit_cache = [],
     nb_tcp_conn_prefix_limit_cache = [], nb_tcp_conn_port_limit_cache = [],
     nb_udp_rate_cache = [], nb_udp_agg_rate_cache = [], nb_acl_cache = [],
     nb_bogon_cache = None, nb_drop_events_cache = None, nb_udp_global_byte_rate_cache = None,
     nb_policy_signature = None\<rparr>"

definition nft_probe :: "'k nft \<Rightarrow> BackendStatus" where
  "nft_probe N =
     (if \<not> nft_which N
      then \<lparr>bs_name = ''nftables'', bs_available = False, bs_reason = ''nft command not found'',
             bs_details = [(''nft'', ''not found'')], bs_checks = [(''nft'', False)]\<rparr>
      else \<lparr>bs_name = ''nftables'', bs_available = True, bs_reason = [],
             bs_details = [], bs_checks = [(''nft'', True)]\<rparr>)"

definition parse_set_elements :: "string \<Rightarrow> string list" where
  "parse_set_elements text =
     (case re_search match_elements None text of
        None \<Rightarrow> []
      | Some body \<Rightarrow>
          (let raw = str_strip (map (\<lambda>ch. if ch = CHR 0x0A then CHR '' '' else ch) body) in
           if raw = [] then []
           else filter (\<lambda>item. item \<noteq> []) (map str_strip (str_split (CHR '','') raw))))"

definition parse_named_set_elements :: "string \<Rightarrow> string \<Rightarrow> string list" where
  "parse_named_set_elements table_body set_name =
     (case re_search (match_set set_name) None table_body of
        None \<Rightarrow> []
      | Some body \<Rightarrow> parse_set_elements body)"

definition ints_of :: "string list \<Rightarrow> int set res" where
  "ints_of items =
     rbind (rmap (\<lambda>item. case int_of_str item of None \<Rightarrow> Inl ValueErr | Some i \<Rightarrow> Inr i) items)
       (\<lambda>ports. Inr (set ports))"

definition list_set_elements :: "'k nft \<Rightarrow> Config \<Rightarrow> string \<Rightarrow> ('k, string list) pym" where
  "list_set_elements N c set_name =
     mbind (nft_run N [''list'', ''set'', NFT_FAMILY c, NFT_TABLE c, set_name] None) (\<lambda>result.
     ret (if nr_returncode result \<noteq> 0 then [] else parse_set_elements (nr_stdout result)))"

definition refresh_caches :: "'k nft \<Rightarrow> Config \<Rightarrow> (NftablesBackend \<times> 'k, unit) pym" where
  "refresh_caches N c =
     (let ports = (\<lambda>set_name upd.
            mbind (kern (list_set_elements N c set_name)) (\<lambda>items.
            mbind (mlift (ints_of items)) (\<lambda>ps. set_obj (upd (\<lambda>_. ps))))) in
      mseq (ports NFT_TCP_SET nb_tcp_cache_update)
     (mseq (ports NFT_UDP_SET nb_udp_cache_update)
     (mseq (ports NFT_SCTP_SET nb_sctp_cache_update)
     (mbind (kern (list_set_elements N c NFT_TRUSTED_SET4)) (\<lambda>items4.
      mseq (set_obj (nb_trusted_cache_update (\<lambda>_. set items4)))
     (mbind (kern (list_set_elements N c NFT_TRUSTED_SET6)) (\<lambda>items6.
      set_obj (nb_trusted_cache_update (\<lambda>t. t \<union> set items6)))))))))"

definition nft_applied_state :: "NftablesBackend \<Rightarrow> AppliedState" where
  "nft_applied_state b = AppliedState_init\<lparr>
     as_tcp_ports := nb_tcp_cache b, as_udp_ports := nb_udp_cache b, as_sctp_ports := nb_sctp_cache b,
     as_trusted_cidrs := nb_trusted_cache b,
     as_tcp_syn_rate_limits := nb_tcp_syn_rate_cache b,
     as_tcp_syn_agg_rate_limits := nb_tcp_syn_agg_rate_cache b,
     as_tcp_conn_limits := nb_tcp_conn_limit_cache b,
     as_tcp_conn_prefix_limits := nb_tcp_conn_prefix_limit_cache b,
     as_tcp_conn_port_limits := nb_tcp_conn_port_limit_cache b,
     as_udp_rate_limits := nb_udp_rate_cache b, as_udp_agg_rate_limits := nb_udp_agg_rate_cache b,
     as_acl_rules := nb_acl_cache b, as_bogon_filter_enabled := nb_bogon_cache b,
     as_drop_events_enabled := nb_drop_events_cache b,
     as_udp_global_byte_rate := nb_udp_global_byte_rate_cache b\<rparr>"

text \<open>A transaction that \<open>nft\<close> refuses is a \<open>RuntimeError\<close>; a dry run only logs the script.\<close>

definition install_ruleset :: "'k nft \<Rightarrow> Config \<Rightarrow> DesiredState \<Rightarrow> bool \<Rightarrow> bool \<Rightarrow> ('k, unit) pym" where
  "install_ruleset N c d replace dry =
     mbind (mlift (render_ruleset (nft_acl_order N) c d replace)) (\<lambda>script.
     if dry then ret ()
     else mbind (nft_run N [''-f'', ''-''] (Some script)) (\<lambda>result.
          if nr_returncode result \<noteq> 0 then raise_exn RuntimeErr else ret ()))"

definition required_markers :: "string list" where
  "required_markers = [''set '' @ NFT_SCHEMA_MARKER, ''set '' @ NFT_TCP_SET, ''set '' @ NFT_UDP_SET,
     ''set '' @ NFT_SCTP_SET, ''set '' @ NFT_TRUSTED_SET4, ''chain input'']"

definition bootstrap_state :: "Config \<Rightarrow> string option \<Rightarrow> DesiredState res" where
  "bootstrap_state c table =
     (let boot = DesiredState_init\<lparr>ds_bogon_filter_enabled := BOGON_FILTER_ENABLED c\<rparr> in
      case table of
        None \<Rightarrow> Inr boot
      | Some text \<Rightarrow>
          rbind (ints_of (parse_named_set_elements text NFT_TCP_SET)) (\<lambda>tcp.
          rbind (ints_of (parse_named_set_elements text NFT_UDP_SET)) (\<lambda>udp.
          rbind (ints_of (parse_named_set_elements text NFT_SCTP_SET)) (\<lambda>sctp.
          Inr (boot\<lparr>ds_tcp_ports := tcp, ds_udp_ports := udp, ds_sctp_ports := sctp,
            ds_trusted_cidrs := set (parse_named_set_elements text NFT_TRUSTED_SET4) \<union>
              set (parse_named_set_elements text NFT_TRUSTED_SET6)\<rparr>)))))"

definition ensure_ruleset :: "'k nft \<Rightarrow> Config \<Rightarrow> ('k, unit) pym" where
  "ensure_ruleset N c =
     mbind (nft_run N [''list'', ''table'', NFT_FAMILY c, NFT_TABLE c] None) (\<lambda>result.
     let exists = (nr_returncode result = 0); text = nr_stdout result in
     if exists \<and> list_all (\<lambda>marker. str_contains marker text) required_markers then ret ()
     else mbind (mlift (bootstrap_state c (if exists then Some text else None))) (\<lambda>boot.
          install_ruleset N c boot exists False))"

definition nft_init :: "'k nft \<Rightarrow> Config \<Rightarrow> ('k, NftablesBackend) pym" where
  "nft_init N c k =
     (if \<not> nft_which N then (Inl RuntimeErr, k)
      else (case mseq (kern (ensure_ruleset N c)) (refresh_caches N c) (NftablesBackend_empty, k) of
              (Inl e, (b, k')) \<Rightarrow> (Inl e, k')
            | (Inr _, (b, k')) \<Rightarrow> (Inr b, k')))"

definition remember_desired :: "DesiredState \<Rightarrow> NftSignature \<Rightarrow> NftablesBackend" where
  "remember_desired d sg = \<lparr>nb_tcp_cache = ds_tcp_ports d, nb_udp_cache = ds_udp_ports d,
     nb_sctp_cache = ds_sctp_ports d, nb_trusted_cache = ds_trusted_cidrs d,
     nb_tcp_syn_rate_cache = ds_tcp_syn_rate_limits d,
     nb_tcp_syn_agg_rate_cache = ds_tcp_syn_agg_rate_limits d,
     nb_tcp_conn_limit_cache = ds_tcp_conn_limits d,
     nb_tcp_conn_prefix_limit_cache = ds_tcp_conn_prefix_limits d,
     nb_tcp_conn_port_limit_cache = ds_tcp_conn_port_limits d,
     nb_udp_rate_cache = ds_udp_rate_limits d, nb_udp_agg_rate_cache = ds_udp_agg_rate_limits d,
     nb_acl_cache = ds_acl_rules d, nb_bogon_cache = Some (ds_bogon_filter_enabled d),
     nb_drop_events_cache = Some (ds_drop_events_enabled d),
     nb_udp_global_byte_rate_cache = Some (ds_udp_global_byte_rate d),
     nb_policy_signature = Some sg\<rparr>"

text \<open>\<open>apply_reconcile_plan\<close>; the plan is passed and not used.\<close>

definition nft_apply ::
  "'k nft \<Rightarrow> Config \<Rightarrow> ReconcilePlan \<Rightarrow> bool \<Rightarrow> DesiredState \<Rightarrow> (NftablesBackend \<times> 'k, unit) pym" where
  "nft_apply N c plan dry d =
     mbind (mlift (policy_signature (nft_acl_order N) c d)) (\<lambda>signature.
     mbind (obj nb_policy_signature) (\<lambda>old.
     if old = Some signature then ret ()
     else mseq (kern (install_ruleset N c d True dry))
          (if dry then ret () else set_obj (\<lambda>_. remember_desired d signature))))"

text \<open>\<open>PortBackend.reconcile\<close> of this backend: the applied state and the plan are computed and passed on.\<close>

definition nft_reconcile :: "'k nft \<Rightarrow> Config \<Rightarrow> DesiredState \<Rightarrow> bool \<Rightarrow> (NftablesBackend \<times> 'k, unit) pym" where
  "nft_reconcile N c d dry =
     mbind (obj nft_applied_state) (\<lambda>a. nft_apply N c (compute_reconcile_plan d a) dry d)"

end
