(* ===== verification/Json.thy ===== *)
theory Json
  imports PyValue
begin

text \<open>
  The values \<open>json.loads\<close> returns, and what the sources do with numbers in them: the command
  line tools print numbers as integers, as strings in any base, or as lists of bytes.
\<close>

datatype json =
    JsNull
  | JsBool bool
  | JsInt int
  | JsFloat pyfloat
  | JsStr string
  | JsArr "json list"
  | JsObj "(string \<times> json) list"

section \<open>Numbers in strings\<close>

fun hex_val :: "char \<Rightarrow> nat option" where
  "hex_val c = (let n = of_char c :: nat in
     if 48 \<le> n \<and> n \<le> 57 then Some (n - 48)
     else if 65 \<le> n \<and> n \<le> 70 then Some (n - 55)
     else if 97 \<le> n \<and> n \<le> 102 then Some (n - 87) else None)"

definition base_digit :: "nat \<Rightarrow> char \<Rightarrow> nat option" where
  "base_digit base c = (case hex_val c of Some d \<Rightarrow> if d < base then Some d else None | None \<Rightarrow> None)"

text \<open>The digits of a literal, with underscores between two digits.\<close>

fun base_digits :: "nat \<Rightarrow> string \<Rightarrow> nat list option" where
  "base_digits base [] = None"
| "base_digits base [c] = map_option (\<lambda>d. [d]) (base_digit base c)"
| "base_digits base (c # d # s) =
     (case base_digit base c of
        None \<Rightarrow> None
      | Some x \<Rightarrow> map_option ((#) x) (if d = CHR ''_'' then base_digits base s else base_digits base (d # s)))"

definition base_value :: "nat \<Rightarrow> string \<Rightarrow> nat option" where
  "base_value base s = map_option (foldl (\<lambda>n d. base * n + d) 0) (base_digits base s)"

text \<open>After a prefix \<open>0x\<close>, \<open>0o\<close> or \<open>0b\<close> one underscore may stand before the first digit.\<close>

definition prefixed_value :: "nat \<Rightarrow> string \<Rightarrow> nat option" where
  "prefixed_value base s = base_value base (if s \<noteq> [] \<and> hd s = CHR ''_'' then tl s else s)"

definition literal_value :: "string \<Rightarrow> nat option" where
  "literal_value s =
     (if str_prefix ''0x'' (str_lower s) then prefixed_value 16 (drop 2 s)
      else if str_prefix ''0o'' (str_lower s) then prefixed_value 8 (drop 2 s)
      else if str_prefix ''0b'' (str_lower s) then prefixed_value 2 (drop 2 s)
      else case base_value 10 s of
             None \<Rightarrow> None
           | Some n \<Rightarrow> if str_prefix ''0'' s \<and> n \<noteq> 0 then None else Some n)"

text \<open>\<open>int(s, 0)\<close>\<close>

definition int_of_str0 :: "string \<Rightarrow> int res" where
  "int_of_str0 s =
     (case split_sign (str_strip s) of (neg, u) \<Rightarrow>
        (case literal_value u of None \<Rightarrow> Inl ValueErr | Some n \<Rightarrow> Inr (if neg then - int n else int n)))"

text \<open>\<open>int(v)\<close>\<close>

definition json_int :: "json \<Rightarrow> int res" where
  "json_int v = (case v of
       JsInt i \<Rightarrow> Inr i
     | JsBool b \<Rightarrow> Inr (of_bool b)
     | JsFloat f \<Rightarrow> int_of_float f
     | JsStr s \<Rightarrow> (case int_of_str s of None \<Rightarrow> Inl ValueErr | Some i \<Rightarrow> Inr i)
     | _ \<Rightarrow> Inl TypeErr)"

text \<open>\<open>int(v, 0) if isinstance(v, str) else int(v)\<close>\<close>

definition json_int0 :: "json \<Rightarrow> int res" where
  "json_int0 v = (case v of JsStr s \<Rightarrow> int_of_str0 s | _ \<Rightarrow> json_int v)"

text \<open>\<open>isinstance(v, int)\<close>, which a boolean is too, and its value.\<close>

definition json_is_int :: "json \<Rightarrow> int option" where
  "json_is_int v = (case v of JsInt i \<Rightarrow> Some i | JsBool b \<Rightarrow> Some (of_bool b) | _ \<Rightarrow> None)"

text \<open>\<open>int.from_bytes(raw, "little")\<close>\<close>

fun from_little :: "int list \<Rightarrow> int" where
  "from_little [] = 0"
| "from_little (b # bs) = b + 256 * from_little bs"

text \<open>\<open>bytes(...)\<close> refuses a number that is not a byte.\<close>

definition as_byte :: "int \<Rightarrow> int res" where
  "as_byte i = (if 0 \<le> i \<and> i < 256 then Inr i else Inl ValueErr)"

lemma from_little_range:
  "\<forall>b \<in> set bs. 0 \<le> b \<and> b < 256 \<Longrightarrow> 0 \<le> from_little bs \<and> from_little bs < 256 ^ length bs"
proof (induction bs)
  case (Cons b bs)
  then have "0 \<le> from_little bs" "from_little bs + 1 \<le> 256 ^ length bs" "0 \<le> b" "b < 256" by auto
  then show ?case unfolding from_little.simps length_Cons power_Suc by linarith
qed simp

end
