(* ===== verification/Syncer.thy ===== *)
theory Syncer
  imports ProcEvents Nftables Json
begin

text \<open>
  \<open>auto_xdp/syncer.py\<close>: one synchronisation, the choice of a backend, and the daemon's
  loop. The clock, the sockets and the signals are a parameter, the record \<open>world\<close>;
  observation, policy and the backends are the model's own.
\<close>

section \<open>The world\<close>

text \<open>
  \<open>wd_json\<close> is \<open>json.loads\<close> on a line: the value, \<open>None\<close> for a \<open>JSONDecodeError\<close>, or any other
  exception.
  \<open>wd_relay_recv\<close> is \<open>recv\<close> on the relay socket, \<open>None\<close> for \<open>BlockingIOError\<close>. \<open>wd_sighup\<close> says
  whether a signal came since it was asked last.
\<close>

record 'k world =
  wd_kernel :: "'k kernel"
  wd_nft :: "'k nft"
  wd_host :: "'k \<Rightarrow> host"
  wd_services :: services
  wd_orders :: orders
  wd_bpftool :: bool
  wd_fuel :: nat
  wd_monotonic :: "('k, pyfloat) pym"
  wd_sleep :: "pyfloat \<Rightarrow> ('k, unit) pym"
  wd_open_connector :: "bytes \<Rightarrow> ('k, bool) pym"
  wd_getpid :: int
  wd_proc_poll :: "('k, bytes option) pym"
  wd_open_relay :: "string \<Rightarrow> ('k, bool) pym"
  wd_relay_recv :: "('k, bytes option) pym"
  wd_select :: "bool \<Rightarrow> bool \<Rightarrow> pyfloat \<Rightarrow> ('k, bool \<times> bool) pym"
  wd_close_nl :: "('k, unit) pym"
  wd_close_relay :: "('k, unit) pym"
  wd_json :: "bytes \<Rightarrow> json option res"
  wd_sighup :: "('k, bool) pym"
  wd_toml :: "(string \<Rightarrow> (string \<times> pyval) list res) option"
  wd_repr :: "pyval \<Rightarrow> string"

section \<open>Backends\<close>

datatype port_backend = Xdp XdpBackend | Nft NftablesBackend

text \<open>A method call on the backend.\<close>

definition dispatch ::
  "(XdpBackend \<times> 'k, 'a) pym \<Rightarrow> (NftablesBackend \<times> 'k, 'a) pym \<Rightarrow> (port_backend \<times> 'k, 'a) pym" where
  "dispatch x n s =
     (case fst s of
        Xdp b \<Rightarrow> (case x (b, snd s) of (r, (b', k')) \<Rightarrow> (r, (Xdp b', k')))
      | Nft b \<Rightarrow> (case n (b, snd s) of (r, (b', k')) \<Rightarrow> (r, (Nft b', k'))))"

definition backend_reconcile :: "'k world \<Rightarrow> Config \<Rightarrow> DesiredState \<Rightarrow> bool \<Rightarrow> (port_backend \<times> 'k, unit) pym" where
  "backend_reconcile W c d dry =
     dispatch (reconcile (wd_kernel W) c (wd_orders W) d dry) (nft_reconcile (wd_nft W) c d dry)"

definition backend_close :: "'k world \<Rightarrow> (port_backend \<times> 'k, unit) pym" where
  "backend_close W = dispatch (xdp_close (wd_kernel W)) (ret ())"

definition backend_gc :: "'k world \<Rightarrow> Config \<Rightarrow> (port_backend \<times> 'k, unit) pym" where
  "backend_gc W c = dispatch (run_ct_gc (wd_fuel W) (wd_kernel W) c) (ret ())"

text \<open>\<open>getattr(backend, "last_apply_failures", 0)\<close>, \<open>is_stale\<close> and \<open>verify_kernel_state\<close>, which only the XDP backend has.\<close>

definition backend_failures :: "port_backend \<Rightarrow> int" where
  "backend_failures b = (case b of Xdp x \<Rightarrow> xb_last_apply_failures x | Nft _ \<Rightarrow> 0)"

definition backend_stale :: "'k world \<Rightarrow> Config \<Rightarrow> (port_backend \<times> 'k, bool) pym" where
  "backend_stale W c = dispatch (is_stale (wd_kernel W) c) (ret False)"

definition backend_verify :: "'k world \<Rightarrow> (port_backend \<times> 'k, nat) pym" where
  "backend_verify W = dispatch (verify_kernel_state (wd_fuel W) (wd_kernel W)) (ret 0)"

definition open_xdp :: "'k world \<Rightarrow> Config \<Rightarrow> ('k, port_backend) pym" where
  "open_xdp W c = mbind (xdp_init (wd_fuel W) (wd_kernel W) c) (\<lambda>b. ret (Xdp b))"

definition open_nft :: "'k world \<Rightarrow> Config \<Rightarrow> ('k, port_backend) pym" where
  "open_nft W c =
     (if bs_available (nft_probe (wd_nft W)) then mbind (nft_init (wd_nft W) c) (\<lambda>b. ret (Nft b))
      else raise_exn RuntimeErr)"

definition open_backend :: "'k world \<Rightarrow> Config \<Rightarrow> string \<Rightarrow> ('k, port_backend) pym" where
  "open_backend W c name =
     (if name = BACKEND_XDP
      then mbind (xdp_probe (wd_kernel W) c (wd_bpftool W)) (\<lambda>status.
           if \<not> bs_available status then raise_exn RuntimeErr else open_xdp W c)
      else if name = BACKEND_NFTABLES then open_nft W c
      else if name \<noteq> BACKEND_AUTO then raise_exn RuntimeErr
      else mbind (xdp_probe (wd_kernel W) c (wd_bpftool W)) (\<lambda>status.
           if bs_available status then open_xdp W c else open_nft W c))"

section \<open>One synchronisation\<close>

definition sync_once :: "'k world \<Rightarrow> Config \<Rightarrow> bool \<Rightarrow> (port_backend \<times> 'k, unit) pym" where
  "sync_once W c dry =
     mbind (gets (\<lambda>s. wd_host W (snd s))) (\<lambda>h.
     mbind (mlift (get_listening_ports_netlink h c)) (\<lambda>observed.
     mbind (mlift (resolve_desired_state (ord_int (wd_orders W)) (wd_services W) c observed)) (\<lambda>desired.
     backend_reconcile W c desired dry)))"

text \<open>\<open>_reload_config\<close>: every exception keeps the previous configuration.\<close>

definition reload_config :: "'k world \<Rightarrow> string \<Rightarrow> Config \<Rightarrow> bool \<times> Config" where
  "reload_config W path c =
     (case load_toml_config (wd_toml W) path True of
        Inl e \<Rightarrow> (False, c)
      | Inr doc \<Rightarrow> (case apply_toml_config (wd_repr W) doc c of
                      (Inl e, c') \<Rightarrow> (False, c')
                    | (Inr _, c') \<Rightarrow> (True, c')))"

section \<open>The relay\<close>

definition RINGBUF_SOCKET_PATH :: string where "RINGBUF_SOCKET_PATH = ''/var/run/auto_xdp/pkt_events.sock''"

text \<open>The complete lines at the front of the pending bytes, and what is left after the last of them.\<close>

function split_lines :: "bytes \<Rightarrow> bytes list \<times> bytes" where
  "split_lines pending =
     (if 10 \<in> set pending
      then (let line = takeWhile (\<lambda>b. b \<noteq> 10) pending; (ls, rest) = split_lines (drop (Suc (length line)) pending)
            in (line # ls, rest))
      else ([], pending))"
  by pat_completeness auto
termination
  by (relation "measure length") (auto dest: length_pos_if_in_set)

declare split_lines.simps [simp del]

text \<open>The body of the loop over the lines. A value that is not an object has no \<open>get\<close>.\<close>

definition is_port_change :: "json \<Rightarrow> bool res" where
  "is_port_change msg =
     (case msg of
        JsObj d \<Rightarrow> Inr (dict_get d ''type'' = Some (JsStr ''port_change''))
      | _ \<Rightarrow> Inl AttributeErr)"

definition relay_line :: "(bytes \<Rightarrow> json option res) \<Rightarrow> bytes \<Rightarrow> bool \<Rightarrow> bool res" where
  "relay_line json line found =
     (if line = [] then Inr found
      else rbind (json line) (\<lambda>msg. case msg of
             None \<Rightarrow> Inr found
           | Some value \<Rightarrow> rbind (is_port_change value) (\<lambda>hit. Inr (found \<or> hit))))"

fun relay_receive :: "nat \<Rightarrow> ('k, bytes option) pym \<Rightarrow> (bytes \<times> 'k, unit) pym" where
  "relay_receive 0 recv = raise_exn OutOfFuel"
| "relay_receive (Suc fuel) recv =
     mbind (kern recv) (\<lambda>chunk. case chunk of
       None \<Rightarrow> ret ()
     | Some bs \<Rightarrow> if bs = [] then raise_exn ConnectionReset
                  else mseq (set_obj (\<lambda>pending. pending @ bs)) (relay_receive fuel recv))"

text \<open>
  \<open>_drain_relay_lines\<close>. When a line raises, it and the lines before it have been taken off the
  pending bytes; the others stay.
\<close>

fun take_lines :: "(bytes \<Rightarrow> json option res) \<Rightarrow> bytes list \<Rightarrow> bytes \<Rightarrow> bool \<Rightarrow> bool res \<times> bytes" where
  "take_lines json [] rest found = (Inr found, rest)"
| "take_lines json (l # ls) rest found =
     (case relay_line json l found of
        Inl e \<Rightarrow> (Inl e, concat (map (\<lambda>l. l @ [10]) ls) @ rest)
      | Inr found' \<Rightarrow> take_lines json ls rest found')"

definition drain_relay_lines :: "'k world \<Rightarrow> (bytes \<times> 'k, bool) pym" where
  "drain_relay_lines W =
     mseq (relay_receive (wd_fuel W) (wd_relay_recv W)) (\<lambda>s.
       case split_lines (fst s) of (ls, rest) \<Rightarrow>
         (case take_lines (wd_json W) ls rest False of (r, pending) \<Rightarrow> (r, (pending, snd s))))"

section \<open>The loop\<close>

text \<open>Subtraction of floats, and Python's \<open>max\<close> and \<open>min\<close>, which keep the first argument unless the second is beyond it.\<close>

definition flt_sub :: "pyfloat \<Rightarrow> pyfloat \<Rightarrow> pyfloat" where
  "flt_sub x y = (case (x, y) of
       (NaN, _) \<Rightarrow> NaN
     | (_, NaN) \<Rightarrow> NaN
     | (Fin a, Fin b) \<Rightarrow> fl (a - b)
     | (Fin _, _) \<Rightarrow> flt_neg y
     | (_, Fin _) \<Rightarrow> x
     | _ \<Rightarrow> if x = y then NaN else x)"

definition flt_max :: "pyfloat \<Rightarrow> pyfloat \<Rightarrow> pyfloat" where
  "flt_max x y = (if flt_lt x y then y else x)"

definition flt_min :: "pyfloat \<Rightarrow> pyfloat \<Rightarrow> pyfloat" where
  "flt_min x y = (if flt_lt y x then y else x)"

definition DEBOUNCE_MAX_WAIT_SECONDS :: pyfloat where "DEBOUNCE_MAX_WAIT_SECONDS = Fin 1"
definition FULL_RECONCILE_INTERVAL_SECONDS :: pyfloat where "FULL_RECONCILE_INTERVAL_SECONDS = Fin 30"
definition EVENT_SOURCE_RETRY_INTERVAL_SECONDS :: pyfloat where "EVENT_SOURCE_RETRY_INTERVAL_SECONDS = Fin 5"

record watch_state =
  ws_backend :: "port_backend option"
  ws_nl :: bool
  ws_relay :: bool
  ws_pending :: bytes
  ws_last_event_t :: pyfloat
  ws_first_event_t :: pyfloat
  ws_last_reconcile_t :: pyfloat
  ws_last_gc_t :: pyfloat
  ws_last_stale_check_t :: pyfloat
  ws_last_netlink_connect_t :: pyfloat
  ws_last_relay_connect_t :: pyfloat
  ws_backend_name :: string
  ws_config :: Config

definition watch_init :: "string \<Rightarrow> Config \<Rightarrow> watch_state" where
  "watch_init name c = \<lparr>ws_backend = None, ws_nl = False, ws_relay = False, ws_pending = [],
     ws_last_event_t = Fin 0, ws_first_event_t = Fin 0, ws_last_reconcile_t = Fin 0, ws_last_gc_t = Fin 0,
     ws_last_stale_check_t = Fin 0,
     ws_last_netlink_connect_t = flt_neg EVENT_SOURCE_RETRY_INTERVAL_SECONDS,
     ws_last_relay_connect_t = flt_neg EVENT_SOURCE_RETRY_INTERVAL_SECONDS,
     ws_backend_name = name, ws_config = c\<rparr>"

text \<open>What the loop does on each of the exceptions it catches around a synchronisation.\<close>

definition on_sync_error :: "('s, 'a) pym \<Rightarrow> ('s, 'a) pym \<Rightarrow> py_exn \<Rightarrow> ('s, 'a) pym option" where
  "on_sync_error discovery other e =
     (case e of
        DiscoveryErr _ \<Rightarrow> Some discovery
      | OSError _ \<Rightarrow> Some other
      | ConnectionReset \<Rightarrow> Some other
      | RuntimeErr \<Rightarrow> Some other
      | _ \<Rightarrow> None)"

definition on_os_error :: "('s, 'a) pym \<Rightarrow> py_exn \<Rightarrow> ('s, 'a) pym option" where
  "on_os_error h e = (case e of OSError _ \<Rightarrow> Some h | ConnectionReset \<Rightarrow> Some h | _ \<Rightarrow> None)"

definition with_backend :: "(port_backend \<times> 'k, 'a) pym \<Rightarrow> (watch_state \<times> 'k, 'a) pym" where
  "with_backend p s =
     (case ws_backend (fst s) of
        None \<Rightarrow> (Inl AttributeErr, s)
      | Some b \<Rightarrow> (case p (b, snd s) of (r, (b', k')) \<Rightarrow> (r, ((fst s)\<lparr>ws_backend := Some b'\<rparr>, k'))))"

definition monotonic :: "'k world \<Rightarrow> (watch_state \<times> 'k, pyfloat) pym" where
  "monotonic W = kern (wd_monotonic W)"

definition stamp :: "'k world \<Rightarrow> (pyfloat \<Rightarrow> watch_state \<Rightarrow> watch_state) \<Rightarrow> (watch_state \<times> 'k, unit) pym" where
  "stamp W upd = mbind (monotonic W) (\<lambda>t. set_obj (upd t))"

definition sync_backend :: "'k world \<Rightarrow> bool \<Rightarrow> (watch_state \<times> 'k, unit) pym" where
  "sync_backend W dry = mbind (obj ws_config) (\<lambda>c. with_backend (sync_once W c dry))"

definition drop_backend :: "'k world \<Rightarrow> (watch_state \<times> 'k, unit) pym" where
  "drop_backend W = mseq (with_backend (backend_close W)) (set_obj (\<lambda>s. s\<lparr>ws_backend := None\<rparr>))"

text \<open>The parts of one iteration, in order. Each says whether the iteration goes on; \<open>False\<close> is a \<open>continue\<close>.\<close>

definition watch_open :: "'k world \<Rightarrow> bool \<Rightarrow> (watch_state \<times> 'k, bool) pym" where
  "watch_open W dry =
     mbind (obj ws_backend) (\<lambda>backend.
     if backend \<noteq> None then ret True
     else mtry
       (mbind (obj ws_config) (\<lambda>c.
        mbind (obj ws_backend_name) (\<lambda>name.
        mbind (kern (open_backend W c name)) (\<lambda>b.
        mseq (set_obj (\<lambda>s. s\<lparr>ws_backend := Some b\<rparr>))
       (mseq (sync_backend W dry)
       (mseq (stamp W (\<lambda>t s. s\<lparr>ws_last_reconcile_t := t\<rparr>))
       (mseq (set_obj (\<lambda>s. s\<lparr>ws_last_event_t := Fin 0, ws_first_event_t := Fin 0\<rparr>))
        (ret True))))))))
       (on_sync_error
          (mseq (stamp W (\<lambda>t s. s\<lparr>ws_last_reconcile_t := t\<rparr>)) (ret False))
          (mseq (kern (wd_sleep W (Fin 5))) (ret False))))"

definition watch_connect :: "'k world \<Rightarrow> (watch_state \<times> 'k, unit) pym" where
  "watch_connect W =
     mbind (monotonic W) (\<lambda>t.
     mbind (obj id) (\<lambda>s.
     mseq (mwhen (\<not> ws_nl s \<and> flt_le EVENT_SOURCE_RETRY_INTERVAL_SECONDS (flt_sub t (ws_last_netlink_connect_t s)))
        (mbind (kern (wd_open_connector W (make_subscribe_msg (wd_getpid W)))) (\<lambda>nl.
         set_obj (\<lambda>s. s\<lparr>ws_nl := nl, ws_last_netlink_connect_t := t\<rparr>))))
     (mwhen (\<not> ws_relay s \<and> flt_le EVENT_SOURCE_RETRY_INTERVAL_SECONDS (flt_sub t (ws_last_relay_connect_t s)))
        (mbind (kern (wd_open_relay W RINGBUF_SOCKET_PATH)) (\<lambda>relay.
         set_obj (\<lambda>s. s\<lparr>ws_relay := relay, ws_last_relay_connect_t := t,
           ws_pending := (if relay then [] else ws_pending s)\<rparr>))))))"

definition watch_timeout :: "'k world \<Rightarrow> (watch_state \<times> 'k, pyfloat) pym" where
  "watch_timeout W =
     mbind (obj id) (\<lambda>s.
     mbind (if ws_last_event_t s = Fin 0 then ret (Fin 1)
            else mbind (monotonic W) (\<lambda>t. ret (flt_max (fl (1 / 20))
                   (flt_sub (DEBOUNCE_SECONDS (ws_config s)) (flt_sub t (ws_last_event_t s)))))) (\<lambda>timeout.
     if ws_last_reconcile_t s = Fin 0 then ret timeout
     else mbind (monotonic W) (\<lambda>t. ret (flt_min timeout (flt_max (fl (1 / 20))
            (flt_sub FULL_RECONCILE_INTERVAL_SECONDS (flt_sub t (ws_last_reconcile_t s))))))))"

definition watch_relay :: "'k world \<Rightarrow> bool \<Rightarrow> (watch_state \<times> 'k, bool) pym" where
  "watch_relay W dry =
     mtry
       (mbind (mzoom (\<lambda>s. (ws_pending (fst s), snd s)) (\<lambda>p s. ((fst s)\<lparr>ws_pending := fst p\<rparr>, snd p))
                (drain_relay_lines W)) (\<lambda>found.
        if \<not> found then ret True
        else mtry
          (mseq (sync_backend W dry)
          (mseq (stamp W (\<lambda>t s. s\<lparr>ws_last_reconcile_t := t\<rparr>))
          (mseq (set_obj (\<lambda>s. s\<lparr>ws_last_event_t := Fin 0, ws_first_event_t := Fin 0\<rparr>)) (ret True))))
          (on_sync_error
             (mseq (stamp W (\<lambda>t s. s\<lparr>ws_last_event_t := t, ws_first_event_t := t\<rparr>)) (ret False))
             (mseq (drop_backend W) (ret True)))))
       (on_os_error
          (mseq (kern (wd_close_relay W))
          (mseq (set_obj (\<lambda>s. s\<lparr>ws_relay := False, ws_pending := []\<rparr>))
          (mseq (stamp W (\<lambda>t s. s\<lparr>ws_last_relay_connect_t := t\<rparr>)) (ret True)))))"

definition watch_wait :: "'k world \<Rightarrow> bool \<Rightarrow> (watch_state \<times> 'k, bool) pym" where
  "watch_wait W dry =
     mbind (watch_timeout W) (\<lambda>timeout.
     mbind (obj ws_nl) (\<lambda>nl.
     mbind (obj ws_relay) (\<lambda>relay.
     mtry
       (mbind (if nl \<or> relay then kern (wd_select W nl relay timeout)
               else mseq (kern (wd_sleep W timeout)) (ret (False, False))) (\<lambda>(nl_rdy, relay_rdy).
        mseq (mwhen (nl \<and> nl_rdy)
          (mbind (kern (drain_proc_events (wd_fuel W) (wd_proc_poll W) False)) (\<lambda>hit.
           mwhen hit (stamp W (\<lambda>t s. s\<lparr>ws_last_event_t := t,
             ws_first_event_t := (if ws_first_event_t s = Fin 0 then t else ws_first_event_t s)\<rparr>)))))
        (if relay \<and> relay_rdy then watch_relay W dry else ret True)))
       (on_os_error
          (mseq (mbind (obj ws_nl) (\<lambda>b. mwhen b (kern (wd_close_nl W))))
          (mseq (set_obj (\<lambda>s. s\<lparr>ws_nl := False\<rparr>))
          (mseq (stamp W (\<lambda>t s. s\<lparr>ws_last_netlink_connect_t := t\<rparr>)) (ret True))))))))"

definition watch_reload :: "'k world \<Rightarrow> string \<Rightarrow> (string, string) dict \<Rightarrow> (watch_state \<times> 'k, bool) pym" where
  "watch_reload W path cli_trusted =
     mbind (kern (wd_sighup W)) (\<lambda>requested.
     if \<not> requested then ret True
     else mbind (obj id) (\<lambda>s.
       let old = ws_config s; (ok, c1) = reload_config W path old in
       mseq (set_obj (\<lambda>s. s\<lparr>ws_config := c1\<rparr>))
      (if \<not> ok then ret False
       else
       let c2 = c1\<lparr>TRUSTED_SRC_IPS := dict_update (TRUSTED_SRC_IPS c1) cli_trusted\<rparr>;
           renamed = (PREFERRED_BACKEND c2 \<noteq> PREFERRED_BACKEND old \<and> ws_backend_name s = PREFERRED_BACKEND old);
           stale = (BPF_PIN_DIR (map_paths c2) \<noteq> BPF_PIN_DIR (map_paths old) \<or> NFT_FAMILY c2 \<noteq> NFT_FAMILY old \<or>
                    NFT_TABLE c2 \<noteq> NFT_TABLE old \<or> renamed)
       in mseq (set_obj (\<lambda>s. s\<lparr>ws_config := c2,
                  ws_backend_name := (if renamed then PREFERRED_BACKEND c2 else ws_backend_name s)\<rparr>))
         (mseq (mwhen (stale \<and> ws_backend s \<noteq> None) (drop_backend W))
         (mseq (stamp W (\<lambda>t s. s\<lparr>ws_last_event_t := flt_sub t (DEBOUNCE_SECONDS c2),
                  ws_first_event_t := flt_sub t (DEBOUNCE_SECONDS c2)\<rparr>))
          (ret True))))))"

text \<open>Whether a pending event is due: the events paused for the debounce time, or the first is a second old.\<close>

definition event_due :: "pyfloat \<Rightarrow> watch_state \<Rightarrow> bool" where
  "event_due t s \<longleftrightarrow> ws_last_event_t s \<noteq> Fin 0 \<and>
     (flt_le (DEBOUNCE_SECONDS (ws_config s)) (flt_sub t (ws_last_event_t s)) \<or>
      flt_le DEBOUNCE_MAX_WAIT_SECONDS (flt_sub t (ws_first_event_t s)))"

definition watch_event_sync :: "'k world \<Rightarrow> bool \<Rightarrow> (watch_state \<times> 'k, bool) pym" where
  "watch_event_sync W dry =
     mbind (monotonic W) (\<lambda>t.
     mbind (obj id) (\<lambda>s.
     if \<not> event_due t s then ret True
     else
       mseq (mwhen (ws_nl s) (mseq (kern (drain_proc_events (wd_fuel W) (wd_proc_poll W) False)) (ret ())))
      (mbind (mtry
         (mseq (sync_backend W dry)
         (mseq (stamp W (\<lambda>t s. s\<lparr>ws_last_reconcile_t := t\<rparr>)) (ret True)))
         (on_sync_error
            (mseq (stamp W (\<lambda>t s. s\<lparr>ws_last_event_t := t, ws_first_event_t := t\<rparr>)) (ret False))
            (mseq (drop_backend W) (ret False)))) (\<lambda>synced.
       if \<not> synced then ret False
       else
         mseq (set_obj (\<lambda>s. s\<lparr>ws_last_event_t := Fin 0, ws_first_event_t := Fin 0\<rparr>))
        (mbind (obj ws_backend) (\<lambda>backend.
         mseq (mwhen (case backend of Some (Xdp x) \<Rightarrow> xb_last_apply_failures x \<noteq> 0 | _ \<Rightarrow> False)
           (mseq (with_backend (backend_verify W))
             (stamp W (\<lambda>t s. s\<lparr>ws_last_event_t := t, ws_first_event_t := t\<rparr>))))
          (ret True)))))))"

definition watch_periodic :: "'k world \<Rightarrow> bool \<Rightarrow> (watch_state \<times> 'k, bool) pym" where
  "watch_periodic W dry =
     mbind (monotonic W) (\<lambda>t.
     mbind (obj ws_last_reconcile_t) (\<lambda>last_t.
     if \<not> flt_le FULL_RECONCILE_INTERVAL_SECONDS (flt_sub t last_t) then ret True
     else mtry
       (mseq (sync_backend W dry)
       (mseq (stamp W (\<lambda>t s. s\<lparr>ws_last_reconcile_t := t\<rparr>))
       (mseq (set_obj (\<lambda>s. s\<lparr>ws_last_event_t := Fin 0, ws_first_event_t := Fin 0\<rparr>)) (ret True))))
       (on_sync_error
          (mseq (stamp W (\<lambda>t s. s\<lparr>ws_last_reconcile_t := t\<rparr>)) (ret True))
          (mseq (drop_backend W) (ret False)))))"

definition watch_gc :: "'k world \<Rightarrow> (watch_state \<times> 'k, unit) pym" where
  "watch_gc W =
     mbind (obj id) (\<lambda>s.
     let gc_interval = XDP_CONNTRACK_GC_INTERVAL_SECONDS (xdp_runtime (ws_config s)) in
     mwhen (flt_lt (Fin 0) gc_interval)
       (mbind (monotonic W) (\<lambda>t.
        mwhen (flt_le gc_interval (flt_sub t (ws_last_gc_t s)))
          (mseq (mtry (with_backend (backend_gc W (ws_config s))) (on_os_error (ret ())))
            (stamp W (\<lambda>t s. s\<lparr>ws_last_gc_t := t\<rparr>))))))"

definition watch_stale :: "'k world \<Rightarrow> (watch_state \<times> 'k, unit) pym" where
  "watch_stale W =
     mbind (monotonic W) (\<lambda>t.
     mbind (obj id) (\<lambda>s.
     mwhen (flt_le (Fin 30) (flt_sub t (ws_last_stale_check_t s)))
       (mseq (stamp W (\<lambda>t s. s\<lparr>ws_last_stale_check_t := t\<rparr>))
       (mbind (with_backend (backend_stale W (ws_config s))) (\<lambda>stale.
        if stale then drop_backend W
        else mbind (with_backend (backend_verify W)) (\<lambda>drift.
             mwhen (drift \<noteq> 0)
               (stamp W (\<lambda>t s. s\<lparr>ws_last_event_t := t,
                  ws_first_event_t := (if ws_first_event_t s = Fin 0 then t else ws_first_event_t s)\<rparr>))))))))"

text \<open>One turn of the loop: the parts in order, ended by the first that says so.\<close>

definition and_then :: "(watch_state \<times> 'k, bool) pym \<Rightarrow> (watch_state \<times> 'k, unit) pym \<Rightarrow> (watch_state \<times> 'k, unit) pym" where
  "and_then p q = mbind p (\<lambda>go. if go then q else ret ())"

definition watch_turn ::
  "'k world \<Rightarrow> bool \<Rightarrow> string \<Rightarrow> (string, string) dict \<Rightarrow> (watch_state \<times> 'k, unit) pym" where
  "watch_turn W dry path cli_trusted =
     and_then (watch_open W dry)
    (mseq (watch_connect W)
    (and_then (watch_wait W dry)
    (and_then (watch_reload W path cli_trusted)
    (and_then (mbind (obj ws_backend) (\<lambda>backend. ret (backend \<noteq> None)))
    (and_then (watch_event_sync W dry)
    (and_then (watch_periodic W dry)
    (mseq (watch_gc W) (watch_stale W))))))))"

text \<open>\<open>watch\<close> for a number of turns, after which it is interrupted; whatever ends it, everything is closed.\<close>

fun watch_turns :: "nat \<Rightarrow> 'k world \<Rightarrow> bool \<Rightarrow> string \<Rightarrow> (string, string) dict \<Rightarrow> (watch_state \<times> 'k, unit) pym" where
  "watch_turns 0 W dry path cli_trusted = ret ()"
| "watch_turns (Suc n) W dry path cli_trusted =
     mseq (watch_turn W dry path cli_trusted) (watch_turns n W dry path cli_trusted)"

definition watch_shutdown :: "'k world \<Rightarrow> (watch_state \<times> 'k, unit) pym" where
  "watch_shutdown W =
     mbind (obj id) (\<lambda>s.
     mseq (mwhen (ws_nl s) (kern (wd_close_nl W)))
    (mseq (mwhen (ws_relay s) (kern (wd_close_relay W)))
    (mwhen (ws_backend s \<noteq> None) (with_backend (backend_close W)))))"

definition watch ::
  "nat \<Rightarrow> 'k world \<Rightarrow> bool \<Rightarrow> string \<Rightarrow> Config \<Rightarrow> string \<Rightarrow> (string, string) dict \<Rightarrow> ('k, unit) pym" where
  "watch n W dry name c path cli_trusted k =
     (case watch_turns n W dry path cli_trusted (watch_init name c, k) of
        (r, s) \<Rightarrow> (case watch_shutdown W s of
                      (Inl e, t) \<Rightarrow> (Inl e, snd t)
                    | (Inr _, t) \<Rightarrow> (r, snd t)))"

end
