(* ===== verification/PktRelay.thy ===== *)
theory PktRelay
  imports PyText RingBuf BpfAddrMaps Syncer
begin

text \<open>
  \<open>pkt_relay.py\<close> and \<open>auto_xdp/sock_state.py\<close>: the relay decodes the records of two ring buffers,
  keeps the recent ones and sends them to the clients of a Unix socket, as lines of JSON. A
  reader thread fills a bounded queue, the server thread empties it; the functions below
  are the steps of the two threads, with the answers of the operating system as arguments.
\<close>

section \<open>JSON\<close>

text \<open>
  The values the relay sends, and \<open>json.dumps\<close> with compact separators. \<open>fr\<close> is
  \<open>float.__repr__\<close> on finite floats.
\<close>

datatype jval = JInt int | JFloat pyfloat | JStr string | JList "jval list" | JObj "(string \<times> jval) list"

fun json_float :: "(pyfloat \<Rightarrow> string) \<Rightarrow> pyfloat \<Rightarrow> string" where
  "json_float fr NaN = ''NaN''"
| "json_float fr PInf = ''Infinity''"
| "json_float fr NInf = ''-Infinity''"
| "json_float fr (Fin q) = fr (Fin q)"

fun json_dumps :: "(pyfloat \<Rightarrow> string) \<Rightarrow> jval \<Rightarrow> string" where
  "json_dumps fr (JInt i) = str_of_int i"
| "json_dumps fr (JFloat f) = json_float fr f"
| "json_dumps fr (JStr s) = json_str s"
| "json_dumps fr (JList xs) = ''['' @ str_join '','' (map (json_dumps fr) xs) @ '']''"
| "json_dumps fr (JObj kvs) = ''{'' @ str_join '','' (map (\<lambda>(k, v). json_str k @ '':'' @ json_dumps fr v) kvs) @ ''}''"

section \<open>Events\<close>

type_synonym event = "(string, jval) dict"

definition SOCK_PROTO_NAMES :: "(int, string) dict" where
  "SOCK_PROTO_NAMES = [(6, ''tcp''), (17, ''udp''), (132, ''sctp'')]"

definition SOCK_STATE_EVENT_SIZE :: nat where "SOCK_STATE_EVENT_SIZE = 16"

text \<open>\<open>SockStateReader.decode_raw\<close>, a struct \<open><QHBBB3x\<close>; \<open>now\<close> is \<open>time.time()\<close>.\<close>

definition decode_raw :: "pyfloat \<Rightarrow> bytes \<Rightarrow> event option" where
  "decode_raw now raw =
     (if length raw < SOCK_STATE_EVENT_SIZE then None
      else let proto = uint (raw ! 10); action = uint (raw ! 11); family = uint (raw ! 12) in
        Some [(''type'', JStr ''port_change''), (''ts_ns'', JInt (int_of_le (take 8 raw))),
          (''port'', JInt (int_of_le (take 2 (drop 8 raw)))),
          (''proto'', JStr (dict_get_or SOCK_PROTO_NAMES proto (str_of_int proto))),
          (''action'', JStr (if action = 1 then ''open'' else ''close'')),
          (''family'', JInt (if family = 2 then 4 else 6)), (''seen_at'', JFloat now)])"

definition PROTO_NAMES :: "(int, string) dict" where
  "PROTO_NAMES = [(1, ''ICMP''), (6, ''TCP''), (17, ''UDP''), (58, ''ICMPv6''), (132, ''SCTP'')]"

definition REASON_NAMES :: "(int, string) dict" where
  "REASON_NAMES =
     [(0, ''TCP_NEW_ALLOW''), (2, ''TCP_DROP''), (4, ''UDP_DROP''), (7, ''FRAG_DROP''), (9, ''TCP_CT_MISS''),
      (10, ''ICMP_DROP''), (11, ''SYN_RATE_DROP''), (12, ''UDP_RATE_DROP''), (13, ''UDP_GLOBAL_RATE_DROP''),
      (14, ''TCP_MALFORM_NULL''), (15, ''TCP_MALFORM_XMAS''), (16, ''TCP_MALFORM_SYN_FIN''),
      (17, ''TCP_MALFORM_SYN_RST''), (18, ''TCP_MALFORM_RST_FIN''), (19, ''TCP_MALFORM_DOFF''),
      (20, ''TCP_MALFORM_PORT0''), (21, ''VLAN_DROP''), (24, ''SLOT_DROP''), (25, ''UDP_MALFORM_PORT0''),
      (26, ''UDP_MALFORM_LEN''), (27, ''BOGON_DROP''), (28, ''TCP_CONN_LIMIT_DROP''),
      (29, ''SYN_AGG_RATE_DROP''), (30, ''UDP_AGG_RATE_DROP''), (31, ''HANDLER_BLOCK_DROP''),
      (32, ''TCP_CONN_PREFIX_LIMIT_DROP''), (33, ''TCP_CONN_PORT_LIMIT_DROP''), (34, ''ABUSEIPDB_DROP'')]"

definition PKT_EVENT_SIZE :: nat where "PKT_EVENT_SIZE = 48"

text \<open>
  \<open>decode_event\<close>, a struct \<open><Q16s16sHHBBBB\<close> whose ports are in network order: \<open>ntohs\<close> on a
  little-endian host. \<open>inet_ntop\<close> does not fail on sixteen bytes.
\<close>

definition decode_event :: "bytes \<Rightarrow> event option" where
  "decode_event raw =
     (if length raw < PKT_EVENT_SIZE then None
      else let src_raw = take 16 (drop 8 raw); dst_raw = take 16 (drop 24 raw);
             proto = uint (raw ! 44); family = uint (raw ! 45); verdict = uint (raw ! 46); reason = uint (raw ! 47);
             ip = (\<lambda>b. if family = 2 then ipv4_str (int_of_be (take 4 b)) else inet_ntop6 (int_of_be b)) in
        Some [(''ts_ns'', JInt (int_of_le (take 8 raw))), (''src'', JStr (ip src_raw)), (''dst'', JStr (ip dst_raw)),
          (''sport'', JInt (int_of_be (take 2 (drop 40 raw)))), (''dport'', JInt (int_of_be (take 2 (drop 42 raw)))),
          (''proto'', JStr (dict_get_or PROTO_NAMES proto (str_of_int proto))),
          (''family'', JInt (if family = 2 then 4 else 6)),
          (''verdict'', JStr (if verdict = 2 then ''ALLOW'' else ''DROP'')), (''verdict_id'', JInt verdict),
          (''reason'', JStr (dict_get_or REASON_NAMES reason (str_of_int reason))), (''reason_id'', JInt reason)])"

section \<open>Who may connect\<close>

text \<open>
  \<open>_peer_credentials\<close>: the answer of \<open>getsockopt\<close>, if the platform has the option, is three
  signed 32-bit numbers.
\<close>

definition int32_of_le :: "bytes \<Rightarrow> int" where
  "int32_of_le b = (let n = int_of_le b in if n < 2 ^ 31 then n else n - 2 ^ 32)"

definition peer_credentials :: "bytes res option \<Rightarrow> (int \<times> int \<times> int) option" where
  "peer_credentials getsockopt =
     (case getsockopt of
        Some (Inr raw) \<Rightarrow>
          (if length raw = 12
           then Some (int32_of_le (take 4 raw), int32_of_le (take 4 (drop 4 raw)), int32_of_le (drop 8 raw))
           else None)
      | _ \<Rightarrow> None)"

text \<open>\<open>_peer_groups\<close>: the first line of \<open>/proc/<pid>/status\<close> that starts with \<open>Groups:\<close>.\<close>

fun status_groups :: "string list \<Rightarrow> int set" where
  "status_groups [] = {}"
| "status_groups (line # lines) =
     (if str_prefix ''Groups:'' line
      then (case all_some (map int_of_str (tl (str_words line))) of None \<Rightarrow> {} | Some gs \<Rightarrow> set gs)
      else status_groups lines)"

definition peer_groups :: "bool \<Rightarrow> string list res \<Rightarrow> int set" where
  "peer_groups on_linux status =
     (if on_linux then (case status of Inl _ \<Rightarrow> {} | Inr lines \<Rightarrow> status_groups lines) else {})"

definition peer_is_authorized :: "int \<Rightarrow> int \<Rightarrow> (int \<times> int \<times> int) option \<Rightarrow> (int \<Rightarrow> int set) \<Rightarrow> bool" where
  "peer_is_authorized euid egid credentials groups =
     (case credentials of
        None \<Rightarrow> False
      | Some (pid, uid, gid) \<Rightarrow> uid = euid \<or> gid = egid \<or> egid \<in> groups pid)"

section \<open>The server\<close>

text \<open>
  A client is known by its descriptor. The deque of the history drops its oldest event when
  it is full. \<open>rs_queue\<close> is the queue between the threads.
\<close>

definition EVENT_QUEUE_MAX :: int where "EVENT_QUEUE_MAX = 20000"

record RelayServer =
  rs_retention_ns :: int
  rs_max_events :: nat
  rs_history :: "event list"
  rs_max_history_send :: int
  rs_clients :: "int list"
  rs_queue :: "event list"
  rs_running :: bool

definition relay_init :: "pyfloat \<Rightarrow> nat \<Rightarrow> int \<Rightarrow> RelayServer res" where
  "relay_init retention_seconds max_events max_history_send =
     rbind (int_of_float (flt_mul retention_seconds (Fin 1000000000))) (\<lambda>ns.
     Inr \<lparr>rs_retention_ns = ns, rs_max_events = max_events, rs_history = [],
          rs_max_history_send = max_history_send, rs_clients = [], rs_queue = [], rs_running = False\<rparr>)"

definition deque_append :: "nat \<Rightarrow> 'a \<Rightarrow> 'a list \<Rightarrow> 'a list" where
  "deque_append maxlen x xs = (let ys = xs @ [x] in drop (length ys - maxlen) ys)"

text \<open>\<open>event.get("seen_at", 0.0)\<close>; both decoders store a float.\<close>

definition seen_at :: "event \<Rightarrow> pyfloat" where
  "seen_at ev = (case dict_get ev ''seen_at'' of Some (JFloat f) \<Rightarrow> f | _ \<Rightarrow> Fin 0)"

definition trim_history :: "pyfloat \<Rightarrow> RelayServer \<Rightarrow> RelayServer" where
  "trim_history now s =
     (let cutoff = flt_sub now (flt_div (fl (of_int (rs_retention_ns s))) (Fin 1000000000)) in
      s\<lparr>rs_history := dropWhile (\<lambda>ev. flt_lt (seen_at ev) cutoff) (rs_history s)\<rparr>)"

text \<open>\<open>xs[-n:]\<close>, on every integer.\<close>

definition slice_last :: "int \<Rightarrow> 'a list \<Rightarrow> 'a list" where
  "slice_last n xs = (if 0 < n then drop (length xs - nat n) xs else drop (nat (- n)) xs)"

definition event_line :: "(pyfloat \<Rightarrow> string) \<Rightarrow> jval \<Rightarrow> bytes" where
  "event_line fr msg = bytes_of_string (json_dumps fr msg @ [CHR 0x0A])"

definition event_message :: "event \<Rightarrow> jval" where
  "event_message ev =
     (if dict_get ev ''type'' \<noteq> None then JObj ev else JObj (dict_update [(''type'', JStr ''event'')] ev))"

definition history_message :: "event list \<Rightarrow> jval" where
  "history_message evs = JObj [(''type'', JStr ''history''), (''events'', JList (map JObj evs))]"

text \<open>
  \<open>_accept_client\<close>. The connection carries what the system says about it: its descriptor,
  the credentials and groups of the peer, and whether sending the history works.
\<close>

record connection =
  cn_fd :: int
  cn_credentials :: "(int \<times> int \<times> int) option"
  cn_groups :: "int \<Rightarrow> int set"
  cn_sends :: bool

definition accept_client ::
  "(pyfloat \<Rightarrow> string) \<Rightarrow> int \<Rightarrow> int \<Rightarrow> pyfloat \<Rightarrow> connection res \<Rightarrow> RelayServer \<Rightarrow> RelayServer \<times> (int \<times> bytes) list" where
  "accept_client fr euid egid now accepted s =
     (case accepted of
        Inl _ \<Rightarrow> (s, [])
      | Inr conn \<Rightarrow>
          if \<not> peer_is_authorized euid egid (cn_credentials conn) (cn_groups conn) then (s, [])
          else let s = trim_history now s;
                 line = event_line fr (history_message (slice_last (rs_max_history_send s) (rs_history s))) in
            if \<not> cn_sends conn then (s, [])
            else (s\<lparr>rs_clients := (if cn_fd conn \<in> set (rs_clients s) then rs_clients s else rs_clients s @ [cn_fd conn])\<rparr>,
                  [(cn_fd conn, line)]))"

definition drop_client :: "int \<Rightarrow> RelayServer \<Rightarrow> RelayServer" where
  "drop_client fd s = s\<lparr>rs_clients := filter (\<lambda>c. c \<noteq> fd) (rs_clients s)\<rparr>"

text \<open>A readable client: \<open>recv\<close> raised, or gave the end of the stream, or input that is ignored.\<close>

definition client_readable :: "int \<Rightarrow> bytes res \<Rightarrow> RelayServer \<Rightarrow> RelayServer" where
  "client_readable fd received s =
     (if fd \<in> set (rs_clients s) \<and> (case received of Inl _ \<Rightarrow> True | Inr chunk \<Rightarrow> chunk = [])
      then drop_client fd s else s)"

text \<open>\<open>_broadcast\<close>: \<open>sends fd\<close> tells whether \<open>sendall\<close> on the client works.\<close>

definition broadcast ::
  "(pyfloat \<Rightarrow> string) \<Rightarrow> (int \<Rightarrow> bool) \<Rightarrow> event \<Rightarrow> RelayServer \<Rightarrow> RelayServer \<times> (int \<times> bytes) list" where
  "broadcast fr sends ev s =
     (let line = event_line fr (event_message ev);
          dead = filter (\<lambda>fd. \<not> sends fd) (rs_clients s) in
      (fold drop_client dead s, map (\<lambda>fd. (fd, line)) (filter sends (rs_clients s))))"

text \<open>One round of the inner loop of \<open>run\<close>: nothing when the queue is empty.\<close>

definition take_event ::
  "(pyfloat \<Rightarrow> string) \<Rightarrow> (int \<Rightarrow> bool) \<Rightarrow> RelayServer \<Rightarrow> RelayServer \<times> (int \<times> bytes) list" where
  "take_event fr sends s =
     (case rs_queue s of
        [] \<Rightarrow> (s, [])
      | ev # rest \<Rightarrow>
          broadcast fr sends ev
            (s\<lparr>rs_queue := rest, rs_history := deque_append (rs_max_events s) ev (rs_history s)\<rparr>))"

text \<open>\<open>put_nowait\<close> of the reader thread: a full queue loses the event.\<close>

definition put_event :: "event \<Rightarrow> RelayServer \<Rightarrow> RelayServer" where
  "put_event ev s =
     (if int (length (rs_queue s)) < EVENT_QUEUE_MAX then s\<lparr>rs_queue := rs_queue s @ [ev]\<rparr> else s)"

text \<open>
  A turn of \<open>_reader_loop\<close> after the wait: what is put into the queue, one event after the
  other, and the two readers afterwards. An error of a drain ends the reader thread.
\<close>

definition reader_turn ::
  "pyfloat \<Rightarrow> RingBufReader \<Rightarrow> RingBufReader option \<Rightarrow> event list \<times> unit res \<times> RingBufReader \<times> RingBufReader option" where
  "reader_turn now rb ss =
     (case rb_drain rb of (raws, q, rb') \<Rightarrow>
        let pkts = map (dict_set ''seen_at'' (JFloat now)) (List.map_filter decode_event raws) in
        case q of
          Inl e \<Rightarrow> (pkts, Inl e, rb', ss)
        | Inr _ \<Rightarrow>
            (case ss of
               None \<Rightarrow> (pkts, Inr (), rb', None)
             | Some ring \<Rightarrow> (case rb_drain ring of (sraws, sq, ring') \<Rightarrow>
                 (pkts @ List.map_filter (decode_raw now) sraws, sq, rb', Some ring'))))"

definition relay_cleanup :: "RelayServer \<Rightarrow> RelayServer" where
  "relay_cleanup s = s\<lparr>rs_clients := []\<rparr>"

definition relay_stop :: "RelayServer \<Rightarrow> RelayServer" where
  "relay_stop s = s\<lparr>rs_running := False\<rparr>"

section \<open>The two threads\<close>

text \<open>
  The steps that change the server, in any order: the reader puts an event, the server thread
  accepts a client, looks at one that is readable, takes an event or trims the history.
\<close>

datatype relay_action =
    Put event
  | Accept pyfloat "connection res"
  | Readable int "bytes res"
  | Take "int \<Rightarrow> bool"
  | Trim pyfloat

fun relay_act ::
  "(pyfloat \<Rightarrow> string) \<Rightarrow> int \<Rightarrow> int \<Rightarrow> relay_action \<Rightarrow> RelayServer \<Rightarrow> RelayServer \<times> (int \<times> bytes) list" where
  "relay_act fr euid egid (Put ev) s = (put_event ev s, [])"
| "relay_act fr euid egid (Accept now accepted) s = accept_client fr euid egid now accepted s"
| "relay_act fr euid egid (Readable fd received) s = (client_readable fd received s, [])"
| "relay_act fr euid egid (Take sends) s = take_event fr sends s"
| "relay_act fr euid egid (Trim now) s = (trim_history now s, [])"

fun relay_run ::
  "(pyfloat \<Rightarrow> string) \<Rightarrow> int \<Rightarrow> int \<Rightarrow> relay_action list \<Rightarrow> RelayServer \<Rightarrow> RelayServer \<times> (int \<times> bytes) list" where
  "relay_run fr euid egid [] s = (s, [])"
| "relay_run fr euid egid (a # as) s =
     (case relay_act fr euid egid a s of (s1, out1) \<Rightarrow>
       (case relay_run fr euid egid as s1 of (s2, out2) \<Rightarrow> (s2, out1 @ out2)))"

end
