(* ===== verification/KernelErrors.thy ===== *)
theory KernelErrors
  imports XdpBackend
begin

text \<open>
  Which exceptions a statement may raise, and what that says of the XDP backend: a system call raises an
  \<open>OSError\<close>, packing and unpacking a \<open>struct.error\<close>, a conversion of a float a \<open>ValueError\<close> or an
  \<open>OverflowError\<close>; none of the methods the daemon calls beside a synchronisation raises an error of
  discovery or a \<open>RuntimeError\<close>.
\<close>

named_theorems raises_rules \<open>which exceptions a statement may raise\<close>

definition raises_only :: "(py_exn \<Rightarrow> bool) \<Rightarrow> ('s, 'a) pym \<Rightarrow> bool" where
  "raises_only E m \<longleftrightarrow> (\<forall>s e t. m s = (Inl e, t) \<longrightarrow> E e)"

definition is_oserror :: "py_exn \<Rightarrow> bool" where
  "is_oserror e = (case e of OSError n \<Rightarrow> True | _ \<Rightarrow> False)"

text \<open>The exceptions that no clause of the daemon's loop names.\<close>

definition internal_exn :: "py_exn \<Rightarrow> bool" where
  "internal_exn e = (case e of OSError _ \<Rightarrow> False | ConnectionReset \<Rightarrow> False | RuntimeErr \<Rightarrow> False
     | DiscoveryErr _ \<Rightarrow> False | _ \<Rightarrow> True)"

definition kernel_exn :: "py_exn \<Rightarrow> bool" where
  "kernel_exn e \<longleftrightarrow> is_oserror e \<or> internal_exn e"

definition no_exn :: "py_exn \<Rightarrow> bool" where
  "no_exn e = False"

section \<open>The statements\<close>

lemma raises_onlyD: "raises_only E m \<Longrightarrow> m s = (Inl e, t) \<Longrightarrow> E e"
  unfolding raises_only_def by blast

lemma raises_mono: "raises_only E m \<Longrightarrow> (\<And>e. E e \<Longrightarrow> E' e) \<Longrightarrow> raises_only E' m"
  by (auto simp: raises_only_def)

lemma raises_bind [raises_rules]: "raises_only E m \<Longrightarrow> (\<And>x. raises_only E (f x)) \<Longrightarrow> raises_only E (mbind m f)"
  unfolding raises_only_def mbind_def by (auto split: prod.splits sum.splits)

lemma raises_seq [raises_rules]: "raises_only E m \<Longrightarrow> raises_only E n \<Longrightarrow> raises_only E (mseq m n)"
  by (simp add: mseq_def raises_bind)

lemma raises_return [raises_rules]:
  "raises_only E (ret x)" "raises_only E (gets f)" "raises_only E (modify g)" "raises_only E (obj p)" "raises_only E (set_obj q)"
  by (simp_all add: raises_only_def obj_def set_obj_def)

lemma raises_raise: "E e \<Longrightarrow> raises_only E (raise_exn e)"
  by (simp add: raises_only_def raise_exn_def)

lemma raises_lift: "(\<And>e. r = Inl e \<Longrightarrow> E e) \<Longrightarrow> raises_only E (mlift r)"
  by (simp add: raises_only_def mlift_apply)

lemma raises_when [raises_rules]: "raises_only E m \<Longrightarrow> raises_only E (mwhen b m)"
  by (simp add: mwhen_def raises_return)

lemma raises_if [raises_rules]: "(b \<Longrightarrow> raises_only E m) \<Longrightarrow> (\<not> b \<Longrightarrow> raises_only E n) \<Longrightarrow> raises_only E (if b then m else n)"
  by simp

lemma raises_option [raises_rules]:
  "raises_only E m \<Longrightarrow> (\<And>x. raises_only E (f x)) \<Longrightarrow> raises_only E (case v of None \<Rightarrow> m | Some x \<Rightarrow> f x)"
  by (cases v) simp_all

lemma raises_prod [raises_rules]: "(\<And>x y. raises_only E (f x y)) \<Longrightarrow> raises_only E (case v of (x, y) \<Rightarrow> f x y)"
  by (cases v) simp

lemma raises_seqs: "(\<And>m. m \<in> set ms \<Longrightarrow> raises_only E m) \<Longrightarrow> raises_only E (mseqs ms)"
  by (induction ms) (simp_all add: raises_return raises_seq)

lemma raises_finally [raises_rules]: "raises_only E m \<Longrightarrow> raises_only E (mfinally m f)"
  by (auto simp: raises_only_def mfinally_def split: prod.splits)

text \<open>A clause for \<open>OSError\<close> leaves the exceptions that are none.\<close>

lemma raises_try_os:
  assumes "raises_only E' m" "\<And>e. E' e \<Longrightarrow> \<not> is_oserror e \<Longrightarrow> E e" "\<And>n. raises_only E (h n)"
  shows "raises_only E (mtry m (on_oserror h))"
  unfolding raises_only_def
proof (intro allI impI)
  fix s e t assume run: "mtry m (on_oserror h) s = (Inl e, t)"
  then obtain e' t' where m: "m s = (Inl e', t')" by (auto simp: mtry_def split: prod.splits sum.splits)
  show "E e"
    using run m raises_onlyD [OF assms(1) m] assms(2) raises_onlyD [OF assms(3)]
    by (cases e') (auto simp: mtry_def is_oserror_def)
qed

lemma raises_try_kernel [raises_rules]:
  "raises_only kernel_exn m \<Longrightarrow> (\<And>n. raises_only kernel_exn (h n)) \<Longrightarrow> raises_only kernel_exn (mtry m (on_oserror h))"
  "raises_only kernel_exn m \<Longrightarrow> (\<And>n. raises_only internal_exn (h n)) \<Longrightarrow> raises_only internal_exn (mtry m (on_oserror h))"
  "raises_only is_oserror m \<Longrightarrow> (\<And>n. raises_only no_exn (h n)) \<Longrightarrow> raises_only no_exn (mtry m (on_oserror h))"
  by (rule raises_try_os, assumption, auto simp: kernel_exn_def)+

lemma raises_kern [raises_rules]: "raises_only E p \<Longrightarrow> raises_only E (kern p)"
  by (auto simp: raises_only_def kern_def split: prod.splits)

lemma raises_on_part [raises_rules]: "raises_only E p \<Longrightarrow> raises_only E (on_part sel upd p)"
  using raises_onlyD [of E p] unfolding raises_only_def [of E "on_part sel upd p"] on_part_def by (auto split: prod.splits)

lemma raises_on_opt [raises_rules]: "raises_only E p \<Longrightarrow> raises_only E (on_opt sel upd d p)"
  using raises_onlyD [of E p] unfolding raises_only_def [of E "on_opt sel upd d p"] on_opt_def by (auto split: prod.splits option.splits)

lemma raises_bpf [raises_rules]: "raises_only is_oserror (bpf call)" "raises_only kernel_exn (bpf call)"
  by (auto simp: raises_only_def bpf_def is_oserror_def kernel_exn_def split: prod.splits sum.splits)

lemma raises_pack [raises_rules]:
  "raises_only internal_exn (mlift (pack_u32 x))" "raises_only internal_exn (mlift (unpack_le n buf off))"
  "raises_only internal_exn (mlift (int_of_float f))"
  "raises_only kernel_exn (mlift (pack_u32 x))" "raises_only kernel_exn (mlift (unpack_le n buf off))"
  "raises_only kernel_exn (mlift (int_of_float f))"
  by (rule raises_lift,
      auto simp: pack_u32_def pack_uint_def unpack_le_def int_of_float_def internal_exn_def kernel_exn_def
        split: if_splits pyfloat.splits)+

lemma returns_run: "raises_only no_exn m \<Longrightarrow> \<exists>x t. m s = (Inr x, t)"
  by (cases "m s"; cases "fst (m s)") (auto simp: raises_only_def no_exn_def)

section \<open>The maps\<close>

lemma raises_obj_get [raises_rules]: "raises_only kernel_exn (obj_get K path)"
  unfolding obj_get_def by (rule raises_rules)

lemma raises_close_fd [raises_rules]: "raises_only E (close_fd K get_fd put_fd)"
  unfolding close_fd_def os_close_def by (intro raises_rules)

lemma raises_batch [raises_rules]: "raises_only E (lookup_batch K fd n)"
  by (auto simp: raises_only_def lookup_batch_def split: prod.splits)

lemma raises_map_id [raises_rules]: "raises_only kernel_exn (map_id K fd)" "raises_only kernel_exn (map_max_entries K fd)"
  "raises_only kernel_exn (map_get_fd_by_id K i)"
  unfolding map_id_def map_max_entries_def map_get_fd_by_id_def by (intro raises_rules)+

lemma raises_verify_map [raises_rules]: "raises_only E read_kernel \<Longrightarrow> raises_only E (verify_map read_kernel cache put eq drift)"
  unfolding verify_map_def by (intro raises_rules)

lemma raises_scan [raises_rules]:
  assumes "\<And>key. raises_only kernel_exn (body key)"
  shows "raises_only kernel_exn (scan_keys fuel K fd cur body)"
proof (induction fuel arbitrary: cur)
  case (Suc fuel)
  have "raises_only kernel_exn (raise_exn (OSError n))" for n
    by (simp add: raises_raise kernel_exn_def is_oserror_def)
  then show ?case unfolding scan_keys.simps by (intro raises_rules assms Suc) blast+
qed (simp add: raises_raise kernel_exn_def internal_exn_def)

text \<open>A loop over the keys whose result is collected beside the kernel.\<close>

lemma raises_collected:
  assumes "raises_only E m"
  shows "raises_only E (\<lambda>k. case m (c, k) of (Inl e, (x, k')) \<Rightarrow> (Inl e, k') | (Inr _, (x, k')) \<Rightarrow> (Inr x, k'))"
  unfolding raises_only_def using raises_onlyD [OF assms] by (auto split: prod.splits sum.splits)

lemma raises_read_kernel [raises_rules]:
  "raises_only kernel_exn (array_read_kernel K fd n)"
  "raises_only kernel_exn (policy_read_kernel K fd n)"
  "raises_only kernel_exn (outer_read_kernel K fd n)"
  "raises_only kernel_exn (lpm_read_kernel fuel K fd v6)"
  "raises_only kernel_exn (acl_read_kernel fuel K fd v6)"
  "raises_only kernel_exn (sit4_read_kernel fuel K fd)"
proof -
  have "raises_only kernel_exn (array_scan K fd ports acc)" for ports acc
    by (induction ports arbitrary: acc) (simp_all add: raises_return, unfold array_lookup_def, intro raises_rules)
  then show "raises_only kernel_exn (array_read_kernel K fd n)"
    unfolding array_read_kernel_def by (intro raises_rules) blast+
  show "raises_only kernel_exn (policy_read_kernel K fd n)"
    unfolding policy_read_kernel_def by (intro raises_rules)
  have "raises_only kernel_exn (outer_read_slot K fd port)" for port
    unfolding outer_read_slot_def by (intro raises_rules)
  then have "raises_only kernel_exn (outer_scan K fd ports acc)" for ports acc
    by (induction ports arbitrary: acc) (simp_all add: raises_return, intro raises_rules)
  then show "raises_only kernel_exn (outer_read_kernel K fd n)"
    unfolding outer_read_kernel_def by blast
  show "raises_only kernel_exn (lpm_read_kernel fuel K fd v6)" "raises_only kernel_exn (acl_read_kernel fuel K fd v6)"
    "raises_only kernel_exn (sit4_read_kernel fuel K fd)"
    unfolding lpm_read_kernel_def acl_read_kernel_def sit4_read_kernel_def lpm_read_entry_def acl_read_entry_def
    by (intro raises_collected raises_rules)+
qed

lemma raises_verify [raises_rules]:
  "raises_only kernel_exn (array_verify K)" "raises_only kernel_exn (trusted_verify fuel K)"
  "raises_only kernel_exn (policy_verify K)" "raises_only kernel_exn (acls_verify fuel K)"
  "raises_only kernel_exn (sit4_verify fuel K)" "raises_only kernel_exn (outer_verify K)"
  unfolding array_verify_def trusted_verify_def policy_verify_def acls_verify_def sit4_verify_def outer_verify_def
    lpm_verify_def acl_verify_def
  by (intro raises_rules)+

lemma raises_guarded_delete [raises_rules]: "raises_only no_exn (guarded_delete K dry fd (Inr key) upd)"
  unfolding guarded_delete_def mbind_simps by (intro raises_rules)

lemma raises_gc_expired [raises_rules]: "raises_only kernel_exn (conntracks_gc_expired fuel K t st)"
proof -
  have collect: "raises_only kernel_exn (collect_keys fuel K fd)" for fd
    unfolding collect_keys_def by (intro raises_collected raises_rules)
  have expired: "raises_only kernel_exn (expired_keys K fd now t st keys acc)" for fd now t st keys acc
    by (induction keys arbitrary: acc) (simp_all add: raises_return, intro raises_rules)
  have "raises_only no_exn (delete_each K keys dry n)" for keys dry n
    by (induction keys arbitrary: n) (simp_all add: raises_return, unfold conntrack_delete_def, intro raises_rules)
  then have each: "raises_only kernel_exn (delete_each K keys dry n)" for keys dry n
    by (rule raises_mono) (simp add: no_exn_def)
  have "raises_only kernel_exn (monotonic_ns K)"
    by (auto simp: raises_only_def monotonic_ns_def split: prod.splits)
  then show ?thesis
    unfolding conntracks_gc_expired_def conntrack_gc_expired_def by (intro raises_rules collect expired each)
qed

section \<open>The backend\<close>

lemma raises_verify_kernel_state: "raises_only kernel_exn (verify_kernel_state fuel K)"
  unfolding verify_kernel_state_def by (intro raises_rules)

lemma raises_run_ct_gc: "raises_only kernel_exn (run_ct_gc fuel K c)"
  unfolding run_ct_gc_def Let_def by (intro raises_rules)

lemma raises_is_stale: "raises_only internal_exn (is_stale K c)"
  unfolding is_stale_def array_map_id_def by (intro raises_rules)

lemma raises_xdp_close: "raises_only E (xdp_close K)"
  unfolding xdp_close_def mseqs.simps array_close_def trusted_close_def lpm_close_def conntracks_close_def conntrack_close_def
    policy_close_def acls_close_def acl_close_def runtime_close_def global_rl_close_def sit4_close_def outer_close_def
  by (intro raises_rules)

text \<open>Reading the applied state and the flows that are there always returns.\<close>

lemma raises_applied: "raises_only no_exn (get_applied_state K)"
  unfolding get_applied_state_def cfg_flag_bogon_def cfg_flag_drop_events_def runtime_get_cfg_flags_def runtime_get_def
    runtime_lookup_raw_def global_rl_get_def
  by (intro raises_rules)

lemma raises_existing: "raises_only no_exn (conntracks_existing_keys it K keys)"
proof -
  have "raises_only no_exn (conntrack_probe_key K key)" for key
    unfolding conntrack_probe_key_def by (intro raises_rules)
  then have "raises_only no_exn (conntrack_existing K keys acc)" for keys acc
    by (induction keys arbitrary: acc) (simp_all add: raises_return, intro raises_rules)
  then show ?thesis
    unfolding conntracks_existing_keys_def conntrack_existing_keys_def by (intro raises_rules)
qed

end
