(* ===== verification/WatchLoop.thy ===== *)
theory WatchLoop
  imports Syncer PyHoare KernelErrors
begin

text \<open>
  The daemon's loop: an invariant of its state, and which errors it survives, in the
  logic of \<open>PyHoare\<close>.
\<close>

section \<open>An invariant of the loop\<close>

text \<open>
  The two event times are both set or both not, the settings are well formed, and the
  backend to open is one the daemon knows.
\<close>

definition watch_inv :: "watch_state \<Rightarrow> bool" where
  "watch_inv s \<longleftrightarrow> (ws_last_event_t s = Fin 0 \<longleftrightarrow> ws_first_event_t s = Fin 0) \<and>
     config_ok (ws_config s) \<and> ws_backend_name s \<in> BACKENDS"

abbreviation inv_of :: "watch_state \<times> 'k \<Rightarrow> bool" where "inv_of s \<equiv> watch_inv (fst s)"

text \<open>A clock that never shows zero.\<close>

definition clock_runs :: "'k world \<Rightarrow> bool" where
  "clock_runs W \<longleftrightarrow> (\<forall>k. fst (wd_monotonic W k) \<noteq> Inr (Fin 0))"

lemma inv_kern: "pres inv_of (kern p)"
  by (auto simp: pres_def kern_def split: prod.splits)

lemma inv_set: "(\<And>s. watch_inv s \<Longrightarrow> watch_inv (f s)) \<Longrightarrow> pres inv_of (set_obj f)"
  by (simp add: pres_def set_obj_def)

lemma inv_obj: "(\<And>s. watch_inv s \<Longrightarrow> pres inv_of (g (f s))) \<Longrightarrow> pres inv_of (mbind (obj f) g)"
  by (simp add: pres_def obj_def)

lemma inv_backend: "pres inv_of (with_backend p)"
  by (auto simp: pres_def with_backend_def watch_inv_def split: option.splits prod.splits)

lemma inv_try:
  assumes "pres P m" "\<And>e h'. h e = Some h' \<Longrightarrow> pres P h'"
  shows "pres P (mtry m h)"
  using assms unfolding pres_def mtry_def by (fastforce split: prod.splits sum.splits option.splits)

lemma inv_sync_try:
  "pres P m \<Longrightarrow> pres P d \<Longrightarrow> pres P h \<Longrightarrow> pres P (mtry m (on_sync_error d h))"
  by (rule inv_try) (auto simp: on_sync_error_def split: py_exn.splits)

lemma inv_os_try: "pres P m \<Longrightarrow> pres P h \<Longrightarrow> pres P (mtry m (on_os_error h))"
  by (rule inv_try) (auto simp: on_os_error_def split: py_exn.splits)

lemma inv_zoom: "pres inv_of (mzoom (\<lambda>s. (ws_pending (fst s), snd s)) (\<lambda>p s. ((fst s)\<lparr>ws_pending := fst p\<rparr>, snd p)) m)"
  by (auto simp: pres_def mzoom_def watch_inv_def split: prod.splits)

lemma inv_stamp:
  assumes "clock_runs W" "\<And>t s. t \<noteq> Fin 0 \<Longrightarrow> watch_inv s \<Longrightarrow> watch_inv (upd t s)"
  shows "pres inv_of (stamp W upd)"
  unfolding pres_def
proof (intro allI impI)
  fix s :: "watch_state \<times> 'a" assume s: "inv_of s"
  obtain r k where run: "wd_monotonic W (snd s) = (r, k)" by (cases "wd_monotonic W (snd s)")
  then have "r \<noteq> Inr (Fin 0)" using assms(1) unfolding clock_runs_def by (metis fst_conv)
  with run s assms(2) show "inv_of (snd (stamp W upd s))"
    by (cases r) (auto simp: stamp_def monotonic_def mbind_def kern_def set_obj_def)
qed

lemmas inv_steps = inv_obj inv_kern inv_backend inv_sync_try inv_os_try inv_zoom pres_bind pres_seq pres_when pres_if pres_ret

lemma inv_time: "pres inv_of (monotonic W)"
  unfolding monotonic_def by (rule inv_kern)

lemma reload_config_ok:
  assumes "config_ok c"
  shows "config_ok (snd (reload_config W path c))"
proof -
  have "config_ok c'" if "apply_toml_config (wd_repr W) doc c = (r, c')" for doc r c'
    using apply_toml_config_ok [OF assms, of "wd_repr W" doc] that by simp
  then show ?thesis using assms by (auto simp: reload_config_def split: sum.splits prod.splits)
qed

lemma preferred_ok: "config_ok c \<Longrightarrow> PREFERRED_BACKEND c \<in> BACKENDS"
  by (simp add: ok_defs)

lemma config_ok_trusted: "config_ok c \<Longrightarrow> config_ok (c\<lparr>TRUSTED_SRC_IPS := dict_update (TRUSTED_SRC_IPS c) d\<rparr>)"
  by (simp add: ok_defs)

lemma inv_drop: "pres inv_of (drop_backend W)"
  unfolding drop_backend_def by (intro pres_seq inv_backend inv_set) (simp add: watch_inv_def)

lemma inv_sync: "pres inv_of (sync_backend W dry)"
  unfolding sync_backend_def by (intro inv_obj inv_backend)

lemma inv_reload:
  assumes "clock_runs W"
  shows "pres inv_of (watch_reload W path cli)"
  unfolding watch_reload_def Let_def split_beta
  by (rule pres_bind [OF inv_kern], rule pres_if, rule pres_ret, rule inv_obj,
      intro pres_seq pres_if pres_ret pres_when inv_drop inv_set inv_stamp [OF assms])
    (auto simp: watch_inv_def intro: config_ok_trusted reload_config_ok preferred_ok)

lemma inv_turn:
  assumes "clock_runs W"
  shows "pres inv_of (watch_turn W dry path cli)"
proof -
  note stamped = inv_stamp [OF assms]
  have "pres inv_of (watch_open W dry)"
    unfolding watch_open_def by (intro inv_steps inv_sync inv_set stamped) (auto simp: watch_inv_def)
  moreover have "pres inv_of (watch_connect W)"
    unfolding watch_connect_def by (intro inv_steps inv_time inv_set) (auto simp: watch_inv_def)
  moreover have "pres inv_of (watch_relay W dry)"
    unfolding watch_relay_def by (intro inv_steps inv_sync inv_drop inv_set stamped) (auto simp: watch_inv_def)
  then have "pres inv_of (watch_wait W dry)"
    unfolding watch_wait_def watch_timeout_def split_beta
    by (intro inv_steps inv_time inv_set stamped) (auto simp: watch_inv_def)
  moreover have "pres inv_of (watch_event_sync W dry)"
    unfolding watch_event_sync_def
    by (intro inv_steps inv_time inv_sync inv_drop inv_set stamped) (auto simp: watch_inv_def)
  moreover have "pres inv_of (watch_periodic W dry)"
    unfolding watch_periodic_def
    by (intro inv_steps inv_time inv_sync inv_drop inv_set stamped) (auto simp: watch_inv_def)
  moreover have "pres inv_of (watch_gc W)"
    unfolding watch_gc_def Let_def by (intro inv_steps inv_time inv_set stamped) (auto simp: watch_inv_def)
  moreover have "pres inv_of (watch_stale W)"
    unfolding watch_stale_def by (intro inv_steps inv_time inv_drop inv_set stamped) (auto simp: watch_inv_def)
  ultimately show ?thesis
    unfolding watch_turn_def and_then_def
    by (intro pres_bind pres_seq pres_if pres_ret inv_reload [OF assms] inv_obj)
qed

text \<open>
  C5 (\<open>syncer.py\<close>, \<open>watch\<close>): an invariant of the daemon. After any number of turns, ended by an
  exception or not, the times of the first and the last pending event are both set or both
  cleared, so the limit of one second on debouncing counts from a real event; the
  settings are well formed whatever files were loaded; and the name of the backend to open is
  a known one.
\<close>

theorem watch_invariant:
  assumes "clock_runs W" and "config_ok c" and "name \<in> BACKENDS"
    and "watch_turns n W dry path cli (watch_init name c, k) = (r, (s, k'))"
  shows "(ws_last_event_t s = Fin 0 \<longleftrightarrow> ws_first_event_t s = Fin 0) \<and> config_ok (ws_config s) \<and>
    ws_backend_name s \<in> BACKENDS"
proof -
  have "pres inv_of (watch_turns n W dry path cli)"
    by (induction n) (auto intro: pres_ret pres_seq inv_turn [OF assms(1)])
  moreover have "watch_inv (watch_init name c)"
    using assms(2,3) by (simp add: watch_inv_def watch_init_def)
  ultimately have "watch_inv s" using assms(4) by (metis presD fst_conv snd_conv)
  then show ?thesis by (simp add: watch_inv_def)
qed

text \<open>
  The exceptions the loop catches: around a wait and the garbage collection \<open>OSError\<close>, to which \<open>ConnectionResetError\<close>
  belongs, and around a synchronisation \<open>DiscoveryError\<close> and \<open>RuntimeError\<close> as well.
\<close>

definition os_exn :: "py_exn \<Rightarrow> bool" where
  "os_exn e = (case e of OSError _ \<Rightarrow> True | ConnectionReset \<Rightarrow> True | _ \<Rightarrow> False)"

definition sync_exn :: "py_exn \<Rightarrow> bool" where
  "sync_exn e = (case e of DiscoveryErr _ \<Rightarrow> True | RuntimeErr \<Rightarrow> True | _ \<Rightarrow> os_exn e)"

lemma internal_iff: "internal_exn e \<longleftrightarrow> \<not> sync_exn e"
  by (cases e) (simp_all add: internal_exn_def sync_exn_def os_exn_def)

text \<open>The exceptions a statement can end in, from whatever state.\<close>

definition raised :: "('s, 'a) pym \<Rightarrow> py_exn \<Rightarrow> bool" where
  "raised m e \<longleftrightarrow> (\<exists>s t. m s = (Inl e, t))"

text \<open>
  What is assumed of the operating system: the clock, the signals, opening and closing the sockets of the events and polling
  the process connector raise nothing, and waiting for the sockets and reading the relay raise an \<open>OSError\<close> at most.
  Nothing is assumed of the kernel, of \<open>nft\<close>, of the host's sockets and processes, of the messages or of the files.
\<close>

definition calm_world :: "'k world \<Rightarrow> bool" where
  "calm_world W \<longleftrightarrow>
     raises_only no_exn (wd_monotonic W) \<and> (\<forall>t. raises_only no_exn (wd_sleep W t)) \<and>
     raises_only no_exn (wd_sighup W) \<and> (\<forall>m. raises_only no_exn (wd_open_connector W m)) \<and>
     (\<forall>p. raises_only no_exn (wd_open_relay W p)) \<and> raises_only no_exn (wd_close_nl W) \<and>
     raises_only no_exn (wd_close_relay W) \<and> raises_only no_exn (wd_proc_poll W) \<and>
     (\<forall>a b t. raises_only os_exn (wd_select W a b t))"

text \<open>
  The ways the daemon can end: an error in the check of the kernel's maps, which no clause guards, be it an \<open>OSError\<close>; in
  the messages of the relay, except an \<open>OSError\<close>; and an error that no clause of the loop names, in discovery and policy,
  the backends, the garbage collection, the check for a stale backend or a datagram of the process connector.
\<close>

definition fatal :: "'k world \<Rightarrow> bool \<Rightarrow> py_exn \<Rightarrow> bool" where
  "fatal W dry e \<longleftrightarrow>
     (\<exists>n. e = OSError n) \<and> raised (backend_verify W) e \<or>
     \<not> os_exn e \<and> raised (drain_relay_lines W) e \<or>
     \<not> sync_exn e \<and>
       (raised (backend_verify W) e \<or>
        (\<exists>c. raised (sync_once W c dry) e) \<or> (\<exists>c name. raised (open_backend W c name) e) \<or>
        (\<exists>c. raised (backend_gc W c) e) \<or> (\<exists>c. raised (backend_stale W c) e) \<or>
        raised (drain_proc_events (wd_fuel W) (wd_proc_poll W) False) e)"

section \<open>The methods of a backend\<close>

lemma raises_dispatch:
  assumes "raises_only E x" "raises_only E n"
  shows "raises_only E (dispatch x n)"
  using raises_onlyD [OF assms(1)] raises_onlyD [OF assms(2)]
  unfolding raises_only_def dispatch_def by (auto split: port_backend.splits prod.splits)

lemma raises_methods:
  "raises_only kernel_exn (backend_gc W c)" "raises_only internal_exn (backend_stale W c)"
  "raises_only kernel_exn (backend_verify W)" "raises_only no_exn (backend_close W)"
  unfolding backend_gc_def backend_stale_def backend_verify_def backend_close_def
  by (rule raises_dispatch, (rule raises_run_ct_gc raises_is_stale raises_verify_kernel_state raises_xdp_close), rule raises_return)+

lemma raised_only: "raises_only E m \<Longrightarrow> raised m e \<Longrightarrow> E e"
  by (auto simp: raised_def dest: raises_onlyD)

lemma raises_proc_events:
  assumes "raises_only no_exn poll"
  shows "raises_only internal_exn (drain_proc_events fuel poll triggered)"
proof (induction fuel arbitrary: triggered)
  case (Suc fuel)
  have "proc_events data offset hit = Inl e \<Longrightarrow> internal_exn e" for data offset hit e
  proof (induction data offset hit rule: proc_events.induct)
    case (1 data offset hit)
    then show ?case
      by (subst (asm) proc_events.simps)
        (auto simp: proc_event_def unpack_le_def internal_exn_def Let_def rbind_Inl_conv split: if_splits)
  qed
  then have "raises_only internal_exn (mlift (proc_events data offset hit))" for data offset hit
    by (rule raises_lift)
  moreover have "raises_only internal_exn poll" using assms by (rule raises_mono) (simp add: no_exn_def)
  ultimately show ?case unfolding drain_proc_events.simps by (intro raises_rules Suc)
qed (simp add: raises_raise internal_exn_def)

lemma fatalI:
  "raised (backend_verify W) e \<Longrightarrow> fatal W dry e"
  "raised (backend_stale W c) e \<Longrightarrow> fatal W dry e"
  "raised (drain_relay_lines W) e \<Longrightarrow> \<not> os_exn e \<Longrightarrow> fatal W dry e"
  "raised (backend_gc W c) e \<Longrightarrow> \<not> os_exn e \<Longrightarrow> fatal W dry e"
  "raised (sync_once W c dry) e \<Longrightarrow> \<not> sync_exn e \<Longrightarrow> fatal W dry e"
  "raised (open_backend W c name) e \<Longrightarrow> \<not> sync_exn e \<Longrightarrow> fatal W dry e"
proof -
  have kernel: "(\<exists>n. e = OSError n) \<or> \<not> sync_exn e" if "kernel_exn e"
    using that unfolding kernel_exn_def internal_iff by (cases e) (auto simp: is_oserror_def)
  show "raised (backend_verify W) e \<Longrightarrow> fatal W dry e"
    using kernel raised_only [OF raises_methods(3)] unfolding fatal_def by blast
  show "raised (backend_stale W c) e \<Longrightarrow> fatal W dry e"
    using raised_only [OF raises_methods(2)] internal_iff unfolding fatal_def by blast
  show "raised (backend_gc W c) e \<Longrightarrow> \<not> os_exn e \<Longrightarrow> fatal W dry e"
    using kernel raised_only [OF raises_methods(1)] unfolding fatal_def by (auto simp: os_exn_def)
qed (unfold fatal_def, blast+)

lemma fatal_proc:
  assumes "calm_world W" "raised (drain_proc_events (wd_fuel W) (wd_proc_poll W) False) e"
  shows "fatal W dry e"
proof -
  have "raises_only no_exn (wd_proc_poll W)" using assms(1) by (simp add: calm_world_def)
  with assms(2) have "\<not> sync_exn e" using raised_only [OF raises_proc_events] internal_iff by blast
  with assms(2) show ?thesis unfolding fatal_def by blast
qed

section \<open>What the loop survives\<close>

definition backend_up :: "watch_state \<times> 'k \<Rightarrow> bool" where
  "backend_up s \<longleftrightarrow> ws_backend (fst s) \<noteq> None"

definition up_if :: "bool \<Rightarrow> watch_state \<times> 'k \<Rightarrow> bool" where
  "up_if go s \<longleftrightarrow> (go \<longrightarrow> backend_up s)"

abbreviation anyhow :: "watch_state \<times> 'k \<Rightarrow> bool" where "anyhow \<equiv> \<lambda>s. True"

abbreviation dies :: "'k world \<Rightarrow> bool \<Rightarrow> py_exn \<Rightarrow> watch_state \<times> 'k \<Rightarrow> bool" where "dies W dry \<equiv> \<lambda>e s. fatal W dry e"

lemmas state_simps = backend_up_def up_if_def

lemma valid_with_backend: "valid backend_up (with_backend p) (\<lambda>_. backend_up) (\<lambda>e s. raised p e \<and> backend_up s)"
  by (rule validI) (auto simp: backend_up_def with_backend_def raised_def split: prod.splits, blast)

lemma valid_call:
  "(\<And>e. raised p e \<Longrightarrow> fatal W dry e) \<Longrightarrow> valid backend_up (with_backend p) (\<lambda>_. backend_up) (dies W dry)"
  by (rule valid_weaken [OF valid_with_backend]) auto

lemma valid_world:
  assumes "raises_only E p" "\<And>s k k'. P (s, k) \<Longrightarrow> P (s, k')"
  shows "valid P (kern p) (\<lambda>_. P) (\<lambda>e s. E e \<and> P s)"
  using assms by (intro valid_kern [where E = E]) (auto dest: raises_onlyD)

lemma valid_raised:
  assumes "\<And>s k k'. P (s, k) \<Longrightarrow> P (s, k')"
  shows "valid P (kern p) (\<lambda>_. P) (\<lambda>e s. raised p e)"
  using assms by (intro valid_kern [where E = "raised p"]) (auto simp: raised_def)

lemma valid_quiet:
  assumes "raises_only no_exn p" "\<And>s k k'. P (s, k) \<Longrightarrow> P (s, k')"
  shows "valid P (kern p) (\<lambda>_. P) R"
  using assms by (intro valid_kern [where E = no_exn]) (auto dest: raises_onlyD simp: no_exn_def)

lemma state_world [simp]: "backend_up (s, k) \<Longrightarrow> backend_up (s, k')"
  by (simp add: state_simps)

text \<open>A time stamp, on fields other than the backend.\<close>

lemma valid_stamp:
  assumes "calm_world W" "\<And>s k k'. P (s, k) \<Longrightarrow> P (s, k')" "\<And>t s k. P (s, k) \<Longrightarrow> Q () (upd t s, k)"
  shows "valid P (stamp W upd) Q R"
  unfolding stamp_def monotonic_def
proof (rule valid_bind)
  show "valid P (kern (wd_monotonic W)) (\<lambda>_. P) R"
    using assms(1,2) by (intro valid_quiet) (auto simp: calm_world_def)
  show "valid P (set_obj (upd t)) Q R" for t
    using assms(3) by (intro valid_set_obj) (metis prod.collapse)
qed

lemma valid_monotonic:
  assumes "calm_world W" "\<And>s k k'. P (s, k) \<Longrightarrow> P (s, k')"
  shows "valid P (monotonic W) (\<lambda>_. P) R"
  unfolding monotonic_def using assms by (intro valid_quiet) (auto simp: calm_world_def)

text \<open>What a synchronisation may raise is caught, or ends the daemon.\<close>

definition sync_ended :: "'k world \<Rightarrow> bool \<Rightarrow> py_exn \<Rightarrow> bool" where
  "sync_ended W dry e \<longleftrightarrow> sync_exn e \<or> fatal W dry e"

lemma valid_sync: "valid backend_up (sync_backend W dry) (\<lambda>_. backend_up) (\<lambda>e s. sync_ended W dry e \<and> backend_up s)"
  unfolding sync_backend_def
  by (rule valid_obj, rule valid_weaken [OF valid_with_backend]) (auto simp: sync_ended_def intro: fatalI(5))

lemma valid_drop: "valid backend_up (drop_backend W) (\<lambda>_. anyhow) R"
  unfolding drop_backend_def
proof (rule valid_seq)
  show "valid backend_up (with_backend (backend_close W)) (\<lambda>_. backend_up) R"
    by (rule valid_weaken [OF valid_with_backend]) (auto dest: raised_only [OF raises_methods(4)] simp: no_exn_def)
qed (rule valid_set_obj, simp)

text \<open>A synchronisation with the handlers of the loop.\<close>

lemma sync_handled:
  assumes "valid P body Q (\<lambda>e s. sync_ended W dry e \<and> P' s)" "valid P' d Q (dies W dry)" "valid P' h Q (dies W dry)"
  shows "valid P (mtry body (on_sync_error d h)) Q (dies W dry)"
proof (rule valid_try [OF assms(1)])
  fix e h' assume "on_sync_error d h e = Some h'"
  then have "h' = d \<or> h' = h" by (auto simp: on_sync_error_def split: py_exn.splits)
  then have "valid P' h' Q (dies W dry)" using assms(2,3) by blast
  then show "valid (\<lambda>s. sync_ended W dry e \<and> P' s) h' Q (dies W dry)" by (rule valid_weaken) auto
qed (auto simp: sync_ended_def on_sync_error_def sync_exn_def os_exn_def split: py_exn.splits)

lemma os_handled:
  assumes "valid P body Q (\<lambda>e s. (os_exn e \<or> fatal W dry e) \<and> P' s)" "valid P' h Q (dies W dry)"
  shows "valid P (mtry body (on_os_error h)) Q (dies W dry)"
proof (rule valid_try [OF assms(1)])
  fix e h' assume "on_os_error h e = Some h'"
  then have "h' = h" by (auto simp: on_os_error_def split: py_exn.splits)
  with assms(2) show "valid (\<lambda>s. (os_exn e \<or> fatal W dry e) \<and> P' s) h' Q (dies W dry)" by (blast intro: valid_weaken)
qed (auto simp: on_os_error_def os_exn_def split: py_exn.splits)

text \<open>Statements that leave the backend alone.\<close>

lemma step_seq: "valid P m (\<lambda>_. P) R \<Longrightarrow> valid P n Q R \<Longrightarrow> valid P (mseq m n) Q R"
  by (rule valid_seq)

lemma step_bind: "valid P m (\<lambda>_. P) R \<Longrightarrow> (\<And>x. valid P (f x) Q R) \<Longrightarrow> valid P (mbind m f) Q R"
  by (rule valid_bind)

lemma step_obj: "(\<And>x. valid P (g x) Q R) \<Longrightarrow> valid P (mbind (obj f) g) Q R"
proof (rule valid_obj)
  fix x assume "\<And>x. valid P (g x) Q R"
  from this [of x] show "valid (\<lambda>s. P s \<and> x = f (fst s)) (g x) Q R" by (rule valid_weaken) auto
qed

lemma step_if: "(b \<Longrightarrow> valid P m Q R) \<Longrightarrow> (\<not> b \<Longrightarrow> valid P n Q R) \<Longrightarrow> valid P (if b then m else n) Q R"
  by simp

lemma step_when: "valid P m (\<lambda>_. P) R \<Longrightarrow> valid P (mwhen b m) (\<lambda>_. P) R"
  by (simp add: mwhen_def valid_ret)

lemma step_set: "(\<And>s k. P (s, k) \<Longrightarrow> P (f s, k)) \<Longrightarrow> valid P (set_obj f) (\<lambda>_. P) R"
  by (rule valid_set_obj) (metis prod.collapse)

lemma step_ret: "valid P (ret x) (\<lambda>_. P) R"
  by (rule valid_ret)

lemma step_stamp:
  assumes "calm_world W" "\<And>s k k'. P (s, k) \<Longrightarrow> P (s, k')" "\<And>t s k. P (s, k) \<Longrightarrow> P (upd t s, k)"
  shows "valid P (stamp W upd) (\<lambda>_. P) R"
  using assms by (rule valid_stamp)

lemmas steps = step_seq step_bind step_obj step_if step_when step_set step_ret

lemma valid_connect:
  assumes "calm_world W"
  shows "valid backend_up (watch_connect W) (\<lambda>_. backend_up) (dies W dry)"
  unfolding watch_connect_def
  by (intro steps valid_monotonic [OF assms] valid_quiet) (use assms in \<open>auto simp: calm_world_def state_simps\<close>)

lemma valid_timeout:
  assumes "calm_world W"
  shows "valid backend_up (watch_timeout W) (\<lambda>_. backend_up) (dies W dry)"
  unfolding watch_timeout_def
  by (intro steps valid_monotonic [OF assms]) (auto simp: state_simps)

text \<open>A synchronisation, its time stamp, and what follows.\<close>

lemma valid_synced:
  assumes "calm_world W" "valid backend_up rest Q (\<lambda>e s. sync_ended W dry e \<and> backend_up s)"
  shows "valid backend_up (mseq (sync_backend W dry) (mseq (stamp W (\<lambda>t s. s\<lparr>ws_last_reconcile_t := t\<rparr>)) rest)) Q
    (\<lambda>e s. sync_ended W dry e \<and> backend_up s)"
  by (intro step_seq valid_sync step_stamp [OF assms(1)] assms) (auto simp: state_simps)

lemma valid_disarm:
  "valid backend_up (mseq (set_obj (\<lambda>s. s\<lparr>ws_last_event_t := Fin 0, ws_first_event_t := Fin 0\<rparr>)) (ret True))
     up_if R"
  by (rule valid_seq, rule step_set) (auto simp: state_simps intro!: valid_ret)

lemma valid_rearm:
  assumes "calm_world W" "\<And>t s. ws_backend (upd t s) = ws_backend s"
  shows "valid backend_up (mseq (stamp W upd) (ret b)) up_if R"
  by (rule valid_seq, rule step_stamp [OF assms(1)]) (auto simp: state_simps assms(2) intro!: valid_ret)

lemma valid_give_up:
  shows "valid backend_up (mseq (drop_backend W) (ret False)) up_if R"
    and "valid backend_up (mseq (drop_backend W) (ret True)) (\<lambda>_. anyhow) R"
  by (rule valid_seq, rule valid_drop, rule valid_ret, simp add: state_simps)+

lemma valid_open:
  assumes "calm_world W"
  shows "valid anyhow (watch_open W dry) up_if (dies W dry)"
proof -
  let ?open = "mbind (obj ws_config) (\<lambda>c. mbind (obj ws_backend_name) (\<lambda>name. mbind (kern (open_backend W c name)) (\<lambda>b.
        mseq (set_obj (\<lambda>s. s\<lparr>ws_backend := Some b\<rparr>))
       (mseq (sync_backend W dry)
       (mseq (stamp W (\<lambda>t s. s\<lparr>ws_last_reconcile_t := t\<rparr>))
       (mseq (set_obj (\<lambda>s. s\<lparr>ws_last_event_t := Fin 0, ws_first_event_t := Fin 0\<rparr>))
        (ret True)))))))"
  let ?e = "\<lambda>e s. sync_ended W dry e \<and> anyhow s"
  have start: "valid anyhow (kern (open_backend W c name)) (\<lambda>_. anyhow) ?e" for c name
    by (rule valid_weaken [OF valid_raised]) (auto simp: sync_ended_def intro: fatalI(6))
  have rest: "valid backend_up (mseq (sync_backend W dry)
       (mseq (stamp W (\<lambda>t s. s\<lparr>ws_last_reconcile_t := t\<rparr>))
       (mseq (set_obj (\<lambda>s. s\<lparr>ws_last_event_t := Fin 0, ws_first_event_t := Fin 0\<rparr>)) (ret True)))) up_if ?e"
    by (rule valid_weaken [OF valid_synced [OF assms valid_disarm]]) auto
  have body: "valid anyhow ?open up_if ?e"
    by (rule step_obj, rule step_obj, rule valid_bind [OF start],
        rule valid_seq, rule valid_set_obj [of _ "\<lambda>_. backend_up"], simp add: state_simps, rule rest)
  have "valid anyhow (mseq (stamp W (\<lambda>t s. s\<lparr>ws_last_reconcile_t := t\<rparr>)) (ret False)) up_if (dies W dry)"
    by (rule valid_seq, rule valid_stamp [OF assms, of _ "\<lambda>_. anyhow"], simp, simp, rule valid_ret, simp add: state_simps)
  moreover have "valid anyhow (mseq (kern (wd_sleep W (Fin 5))) (ret False)) up_if (dies W dry)"
    by (rule valid_seq, rule valid_quiet, use assms in \<open>simp add: calm_world_def\<close>, simp, rule valid_ret, simp add: state_simps)
  ultimately have handled: "valid anyhow (mtry ?open (on_sync_error
          (mseq (stamp W (\<lambda>t s. s\<lparr>ws_last_reconcile_t := t\<rparr>)) (ret False))
          (mseq (kern (wd_sleep W (Fin 5))) (ret False)))) up_if (dies W dry)" by (rule sync_handled [OF body])
  show ?thesis
    unfolding watch_open_def
  proof (rule valid_obj, rule valid_if)
    fix x :: "port_backend option"
    show "valid (\<lambda>s. (anyhow s \<and> x = ws_backend (fst s)) \<and> x \<noteq> None) (ret True) up_if (dies W dry)"
      by (rule valid_ret) (auto simp: state_simps)
  qed (rule valid_weaken [OF handled], auto)
qed

lemma valid_relay:
  assumes "calm_world W"
  shows "valid backend_up (watch_relay W dry) (\<lambda>_. anyhow) (dies W dry)"
proof -
  have drain: "valid backend_up (mzoom (\<lambda>s. (ws_pending (fst s), snd s)) (\<lambda>p s. ((fst s)\<lparr>ws_pending := fst p\<rparr>, snd p))
      (drain_relay_lines W)) (\<lambda>_. backend_up) (\<lambda>e s. (os_exn e \<or> fatal W dry e) \<and> anyhow s)"
    by (rule validI) (auto simp: mzoom_def state_simps raised_def intro!: fatalI(3) split: prod.splits, blast)
  have ok: "valid P m up_if R \<Longrightarrow> valid P m (\<lambda>_. anyhow) R" for P R and m :: "(watch_state \<times> 'a, bool) pym"
    by (rule valid_weaken [where P' = P and Q' = "up_if" and R' = R]) (auto simp: up_if_def)
  have sync: "valid backend_up (mtry
          (mseq (sync_backend W dry)
          (mseq (stamp W (\<lambda>t s. s\<lparr>ws_last_reconcile_t := t\<rparr>))
          (mseq (set_obj (\<lambda>s. s\<lparr>ws_last_event_t := Fin 0, ws_first_event_t := Fin 0\<rparr>)) (ret True))))
          (on_sync_error
             (mseq (stamp W (\<lambda>t s. s\<lparr>ws_last_event_t := t, ws_first_event_t := t\<rparr>)) (ret False))
             (mseq (drop_backend W) (ret True)))) (\<lambda>_. anyhow) (dies W dry)"
    by (rule sync_handled [OF ok [OF valid_synced [OF assms valid_disarm]]])
      (rule ok [OF valid_rearm [OF assms]], simp, rule valid_give_up(2))
  show ?thesis
    unfolding watch_relay_def
  proof (rule os_handled)
    show "valid backend_up (mbind (mzoom (\<lambda>s. (ws_pending (fst s), snd s)) (\<lambda>p s. ((fst s)\<lparr>ws_pending := fst p\<rparr>, snd p))
        (drain_relay_lines W)) (\<lambda>found. if \<not> found then ret True else mtry
          (mseq (sync_backend W dry)
          (mseq (stamp W (\<lambda>t s. s\<lparr>ws_last_reconcile_t := t\<rparr>))
          (mseq (set_obj (\<lambda>s. s\<lparr>ws_last_event_t := Fin 0, ws_first_event_t := Fin 0\<rparr>)) (ret True))))
          (on_sync_error
             (mseq (stamp W (\<lambda>t s. s\<lparr>ws_last_event_t := t, ws_first_event_t := t\<rparr>)) (ret False))
             (mseq (drop_backend W) (ret True))))) (\<lambda>_. anyhow) (\<lambda>e s. (os_exn e \<or> fatal W dry e) \<and> anyhow s)"
      by (rule step_bind [OF drain], rule step_if, rule valid_ret, simp, rule valid_weaken [OF sync]) auto
    show "valid anyhow (mseq (kern (wd_close_relay W))
          (mseq (set_obj (\<lambda>s. s\<lparr>ws_relay := False, ws_pending := []\<rparr>))
          (mseq (stamp W (\<lambda>t s. s\<lparr>ws_last_relay_connect_t := t\<rparr>)) (ret True)))) (\<lambda>_. anyhow) (dies W dry)"
      by (intro steps step_stamp [OF assms] valid_quiet) (use assms in \<open>auto simp: calm_world_def state_simps\<close>)
  qed
qed

lemma valid_proc:
  assumes "calm_world W" "\<And>s k k'. P (s, k) \<Longrightarrow> P (s, k')"
  shows "valid P (kern (drain_proc_events (wd_fuel W) (wd_proc_poll W) False)) (\<lambda>_. P) (dies W dry)"
  by (rule valid_weaken [OF valid_raised]) (use assms fatal_proc in auto)

lemma valid_wait:
  assumes "calm_world W"
  shows "valid backend_up (watch_wait W dry) (\<lambda>_. anyhow) (dies W dry)"
proof -
  let ?E = "\<lambda>e s. (os_exn e \<or> fatal W dry e) \<and> anyhow s"
  note calm = assms [unfolded calm_world_def]
  have ready: "valid backend_up (if a then kern (wd_select W nl relay timeout)
      else mseq (kern (wd_sleep W timeout)) (ret (False, False))) (\<lambda>_. backend_up) ?E" for a nl relay timeout
  proof (rule step_if)
    show "valid backend_up (kern (wd_select W nl relay timeout)) (\<lambda>_. backend_up) ?E"
      by (rule valid_weaken [OF valid_world [of os_exn _ "backend_up"]]) (use calm in auto)
    show "valid backend_up (mseq (kern (wd_sleep W timeout)) (ret (False, False))) (\<lambda>_. backend_up) ?E"
      by (intro steps valid_quiet) (use calm in auto)
  qed
  have proc: "valid backend_up (mwhen b
          (mbind (kern (drain_proc_events (wd_fuel W) (wd_proc_poll W) False)) (\<lambda>hit.
           mwhen hit (stamp W (\<lambda>t s. s\<lparr>ws_last_event_t := t,
             ws_first_event_t := (if ws_first_event_t s = Fin 0 then t else ws_first_event_t s)\<rparr>))))) (\<lambda>_. backend_up) (dies W dry)" for b
    by (intro step_when step_bind valid_proc [OF assms] step_stamp [OF assms]) (auto simp: state_simps)
  have relay: "valid backend_up (if b then watch_relay W dry else ret True) (\<lambda>_. anyhow) (dies W dry)" for b
    by (rule step_if, rule valid_weaken [OF valid_relay [OF assms]]) (auto intro!: valid_ret)
  have handled: "valid backend_up (mseq (mwhen a
          (mbind (kern (drain_proc_events (wd_fuel W) (wd_proc_poll W) False)) (\<lambda>hit.
           mwhen hit (stamp W (\<lambda>t s. s\<lparr>ws_last_event_t := t,
             ws_first_event_t := (if ws_first_event_t s = Fin 0 then t else ws_first_event_t s)\<rparr>)))))
        (if b then watch_relay W dry else ret True)) (\<lambda>_. anyhow) ?E" for a b
    by (rule valid_weaken [OF valid_seq [OF proc relay]]) auto
  have lost: "valid anyhow (mseq (mbind (obj ws_nl) (\<lambda>b. mwhen b (kern (wd_close_nl W))))
          (mseq (set_obj (\<lambda>s. s\<lparr>ws_nl := False\<rparr>))
          (mseq (stamp W (\<lambda>t s. s\<lparr>ws_last_netlink_connect_t := t\<rparr>)) (ret True)))) (\<lambda>_. anyhow) (dies W dry)"
    by (intro steps valid_quiet step_stamp [OF assms]) (use calm in \<open>auto simp: state_simps\<close>)
  show ?thesis
    unfolding watch_wait_def
    by (rule step_bind [OF valid_timeout [OF assms]], rule step_obj, rule step_obj, rule os_handled [OF _ lost],
        rule step_bind [OF ready], unfold split_beta, rule handled)
qed

lemma valid_reload:
  assumes "calm_world W"
  shows "valid anyhow (watch_reload W path cli) (\<lambda>_. anyhow) (dies W dry)"
proof -
  note calm = assms [unfolded calm_world_def]
  have drop: "valid (\<lambda>s. ws_backend (fst s) = b) (mwhen (stale \<and> b \<noteq> None) (drop_backend W))
      (\<lambda>_. anyhow) (dies W dry)" for b stale
    by (rule valid_when, rule valid_weaken [OF valid_drop]) (auto simp: state_simps)
  have arm: "valid anyhow (mseq (stamp W (\<lambda>t s. s\<lparr>ws_last_event_t := flt_sub t d, ws_first_event_t := flt_sub t d\<rparr>))
      (ret True)) (\<lambda>_. anyhow) (dies W dry)" for d
    by (intro steps step_stamp [OF assms]) (auto simp: state_simps)
  have go: "valid (\<lambda>s. ws_backend (fst s) = ws_backend x) (mseq (set_obj (\<lambda>s. s\<lparr>ws_config := c, ws_backend_name := n s\<rparr>))
      (mseq (mwhen (stale \<and> ws_backend x \<noteq> None) (drop_backend W))
      (mseq (stamp W (\<lambda>t s. s\<lparr>ws_last_event_t := flt_sub t d, ws_first_event_t := flt_sub t d\<rparr>)) (ret True)))) (\<lambda>_. anyhow) (dies W dry)"
    for x c n stale d
    by (rule step_seq, rule step_set, simp add: state_simps, rule valid_seq [OF drop arm])
  have keep: "valid (\<lambda>s. True \<and> x = id (fst s)) (set_obj (\<lambda>s. s\<lparr>ws_config := c\<rparr>))
      (\<lambda>_ s. ws_backend (fst s) = ws_backend x) (dies W dry)" for x c
    by (rule valid_set_obj) (auto simp: state_simps)
  show ?thesis
    unfolding watch_reload_def Let_def split_beta
    by (rule step_bind, rule valid_quiet, use calm in simp, simp, rule step_if, rule step_ret, rule valid_obj,
        rule valid_seq [OF keep], rule step_if, rule valid_ret, simp, rule go)
qed

lemma valid_event_sync:
  assumes "calm_world W"
  shows "valid backend_up (watch_event_sync W dry) up_if (dies W dry)"
proof -
  note calm = assms [unfolded calm_world_def]
  let ?sync = "mtry
         (mseq (sync_backend W dry)
         (mseq (stamp W (\<lambda>t s. s\<lparr>ws_last_reconcile_t := t\<rparr>)) (ret True)))
         (on_sync_error
            (mseq (stamp W (\<lambda>t s. s\<lparr>ws_last_event_t := t, ws_first_event_t := t\<rparr>)) (ret False))
            (mseq (drop_backend W) (ret False)))"
  have sync: "valid backend_up ?sync up_if (dies W dry)"
    by (rule sync_handled [OF valid_synced [OF assms valid_ret]])
      (simp add: up_if_def, rule valid_rearm [OF assms], simp, rule valid_give_up(1))
  have verify: "valid backend_up (mwhen b (mseq (with_backend (backend_verify W))
             (stamp W (\<lambda>t s. s\<lparr>ws_last_event_t := t, ws_first_event_t := t\<rparr>)))) (\<lambda>_. backend_up) (dies W dry)" for b
    by (intro step_when step_seq valid_call fatalI(1) step_stamp [OF assms]) (auto simp: state_simps)
  let ?rest = "mseq (set_obj (\<lambda>s. s\<lparr>ws_last_event_t := Fin 0, ws_first_event_t := Fin 0\<rparr>))
        (mbind (obj ws_backend) (\<lambda>backend.
         mseq (mwhen (case backend of Some (Xdp x) \<Rightarrow> xb_last_apply_failures x \<noteq> 0 | _ \<Rightarrow> False)
           (mseq (with_backend (backend_verify W))
             (stamp W (\<lambda>t s. s\<lparr>ws_last_event_t := t, ws_first_event_t := t\<rparr>))))
          (ret True)))"
  have "valid backend_up ?rest up_if (dies W dry)"
    by (rule step_seq, rule step_set, simp add: state_simps, rule step_obj, rule step_seq [OF verify], rule valid_ret)
      (simp add: up_if_def)
  then have "valid (up_if True) ?rest up_if (dies W dry)"
    by (rule valid_weaken) (auto simp: up_if_def)
  moreover have "valid (up_if False) (ret False) up_if (dies W dry)" by (rule valid_ret)
  ultimately have after: "valid (up_if x) (if \<not> x then ret False else ?rest) up_if (dies W dry)" for x
    by (cases x) simp_all
  show ?thesis
    unfolding watch_event_sync_def
    by (rule step_bind [OF valid_monotonic [OF assms]], simp, rule step_obj, rule step_if, rule valid_ret,
        simp add: up_if_def, rule step_seq, intro step_when step_seq step_ret valid_proc [OF assms], simp,
        rule valid_bind [OF sync after])
qed

lemma valid_periodic:
  assumes "calm_world W"
  shows "valid backend_up (watch_periodic W dry) up_if (dies W dry)"
proof -
  have sync: "valid backend_up (mtry
       (mseq (sync_backend W dry)
       (mseq (stamp W (\<lambda>t s. s\<lparr>ws_last_reconcile_t := t\<rparr>))
       (mseq (set_obj (\<lambda>s. s\<lparr>ws_last_event_t := Fin 0, ws_first_event_t := Fin 0\<rparr>)) (ret True))))
       (on_sync_error
          (mseq (stamp W (\<lambda>t s. s\<lparr>ws_last_reconcile_t := t\<rparr>)) (ret True))
          (mseq (drop_backend W) (ret False)))) up_if (dies W dry)"
    by (rule sync_handled [OF valid_synced [OF assms valid_disarm]], rule valid_rearm [OF assms], simp)
      (rule valid_give_up(1))
  show ?thesis
    unfolding watch_periodic_def
    by (rule step_bind [OF valid_monotonic [OF assms]], simp, rule step_obj, rule step_if, rule valid_ret,
        simp add: up_if_def, rule sync)
qed

lemma valid_gc:
  assumes "calm_world W"
  shows "valid backend_up (watch_gc W) (\<lambda>_. backend_up) (dies W dry)"
proof -
  have gc: "valid backend_up (mtry (with_backend (backend_gc W c)) (on_os_error (ret ()))) (\<lambda>_. backend_up) (dies W dry)" for c
    by (rule os_handled [OF valid_weaken [OF valid_with_backend] step_ret]) (auto intro: fatalI(4))
  show ?thesis
    unfolding watch_gc_def Let_def
    by (intro steps valid_monotonic [OF assms] gc step_stamp [OF assms]) (auto simp: state_simps)
qed

lemma valid_stale:
  assumes "calm_world W"
  shows "valid backend_up (watch_stale W) (\<lambda>_. anyhow) (dies W dry)"
proof -
  note calm = assms [unfolded calm_world_def]
  have check: "valid backend_up (mbind (with_backend (backend_verify W)) (\<lambda>drift. mwhen (drift \<noteq> 0)
               (stamp W (\<lambda>t s. s\<lparr>ws_last_event_t := t,
                  ws_first_event_t := (if ws_first_event_t s = Fin 0 then t else ws_first_event_t s)\<rparr>)))) (\<lambda>_. backend_up) (dies W dry)"
    by (intro step_bind valid_call fatalI(1) step_when step_stamp [OF assms]) (auto simp: state_simps)
  have body: "valid backend_up (mseq (stamp W (\<lambda>t s. s\<lparr>ws_last_stale_check_t := t\<rparr>))
       (mbind (with_backend (backend_stale W c)) (\<lambda>stale. if stale then drop_backend W
        else mbind (with_backend (backend_verify W)) (\<lambda>drift. mwhen (drift \<noteq> 0)
               (stamp W (\<lambda>t s. s\<lparr>ws_last_event_t := t,
                  ws_first_event_t := (if ws_first_event_t s = Fin 0 then t else ws_first_event_t s)\<rparr>)))))) (\<lambda>_. anyhow) (dies W dry)" for c
    by (rule step_seq, rule step_stamp [OF assms], simp, simp add: state_simps, rule step_bind, rule valid_call, erule fatalI(2),
        rule step_if, rule valid_drop, rule valid_weaken [OF check]) auto
  show ?thesis
    unfolding watch_stale_def
    by (rule step_bind [OF valid_monotonic [OF assms]], simp, rule step_obj, rule valid_when,
        rule valid_weaken [OF body], auto)
qed

lemma valid_and_then:
  "valid P p up_if R \<Longrightarrow> valid backend_up q (\<lambda>_. anyhow) R \<Longrightarrow> valid P (and_then p q) (\<lambda>_. anyhow) R"
  unfolding and_then_def
proof (rule valid_bind)
  fix go assume "valid backend_up q (\<lambda>_. anyhow) R"
  then show "valid (up_if go) (if go then q else ret ()) (\<lambda>_. anyhow) R"
    by (cases go) (auto simp: up_if_def intro: valid_weaken [of "backend_up" q] valid_ret)
qed

lemma valid_and_then_ok:
  "valid P p (\<lambda>_. anyhow) R \<Longrightarrow> valid anyhow q (\<lambda>_. anyhow) R \<Longrightarrow>
     valid P (and_then p q) (\<lambda>_. anyhow) R"
  unfolding and_then_def by (rule valid_bind) (auto intro: valid_ret)

lemma valid_turn:
  assumes "calm_world W"
  shows "valid anyhow (watch_turn W dry path cli) (\<lambda>_. anyhow) (dies W dry)"
proof -
  have check: "valid anyhow (mbind (obj ws_backend) (\<lambda>backend. ret (backend \<noteq> None))) up_if (dies W dry)"
    by (rule valid_obj, rule valid_ret) (auto simp: state_simps)
  show ?thesis
    unfolding watch_turn_def
    by (rule valid_and_then [OF valid_open [OF assms]], rule step_seq [OF valid_connect [OF assms]],
        rule valid_and_then_ok [OF valid_wait [OF assms]], rule valid_and_then_ok [OF valid_reload [OF assms]],
        rule valid_and_then [OF check], rule valid_and_then [OF valid_event_sync [OF assms]],
        rule valid_and_then [OF valid_periodic [OF assms]], rule step_seq [OF valid_gc [OF assms] valid_stale [OF assms]])
qed

text \<open>
  C4 (\<open>syncer.py\<close>, \<open>watch\<close>): what can end the daemon. If the operating system behaves as in \<open>calm_world\<close>, an
  exception leaves the loop after some number of turns only in one of these ways: the check of the kernel's maps
  (\<open>verify_kernel_state\<close>, which stands outside every \<open>try\<close>) raised it; the messages of the relay did, and it is no \<open>OSError\<close>;
  or discovery, the policy, a backend, the garbage collection, the check for a stale backend or a datagram of the process
  connector did, and it is neither an \<open>OSError\<close> nor a \<open>DiscoveryError\<close> nor a \<open>RuntimeError\<close>. So a failed discovery, a
  broken or missing backend, a failed garbage collection, a lost event source and a refused reload never end it, whatever the
  messages, signals, times and settings, and no method is ever called on a missing backend. An \<open>OSError\<close> ends it only from that
  one check.
\<close>

theorem watch_survives:
  assumes "calm_world W" and "watch_turns n W dry path cli (s, k) = (Inl e, t)"
  shows "fatal W dry e \<and> (os_exn e \<longrightarrow> raised (backend_verify W) e)"
proof -
  have "valid anyhow (watch_turns n W dry path cli) (\<lambda>_. anyhow) (dies W dry)"
    by (induction n) (auto intro: valid_ret valid_seq [OF valid_turn [OF assms(1)]])
  from validD1 [OF this TrueI assms(2)] have "fatal W dry e" .
  moreover from this have "os_exn e \<longrightarrow> raised (backend_verify W) e"
    unfolding fatal_def sync_exn_def by (cases e) (auto simp: os_exn_def)
  ultimately show ?thesis by simp
qed

text \<open>
  A host where the socket dump is cut off every time, with a table of the program in
  place; the clock goes on by a second with every reading.
\<close>

definition ex_table :: string where
  "ex_table = concat (map (\<lambda>m. m @ nl) required_markers)"

definition ex_world :: "kstate world" where
  "ex_world = \<lparr>wd_kernel = store_kernel,
     wd_nft = \<lparr>nft_which = True,
       nft_run = (\<lambda>args input k. (Inr \<lparr>nr_returncode = 0, nr_stdout = ex_table, nr_stderr = []\<rparr>, k)),
       nft_acl_order = (\<lambda>_. Inl TypeErr)\<rparr>,
     wd_host = (\<lambda>k. \<lparr>host_dump = (\<lambda>_. [Inr []]), host_procs = [], host_comm = (\<lambda>_. None), host_lines = (\<lambda>_. []),
       host_sockets = None, host_mapped = False\<rparr>),
     wd_services = [], wd_orders = \<lparr>ord_int = sorted_list_of_set, ord_bytes = sorted_list_of_set, ord_acl = (\<lambda>_. [])\<rparr>,
     wd_bpftool = False, wd_fuel = 1,
     wd_monotonic = (\<lambda>k. (Inr (Fin (of_int (ks_clock k))), k\<lparr>ks_clock := ks_clock k + 1\<rparr>)),
     wd_sleep = (\<lambda>_. ret ()), wd_open_connector = (\<lambda>_. ret True), wd_getpid = 1, wd_proc_poll = ret None,
     wd_open_relay = (\<lambda>_. ret True), wd_relay_recv = ret None, wd_select = (\<lambda>nl relay t. raise_exn (OSError 4)),
     wd_close_nl = ret (), wd_close_relay = ret (), wd_json = (\<lambda>_. Inr None), wd_sighup = ret True,
     wd_toml = None, wd_repr = (\<lambda>_. [])\<rparr>"

definition ex_start :: kstate where
  "ex_start = \<lparr>ks_data = [], ks_max = [], ks_arrays = [], ks_pins = [], ks_next = 1000, ks_script = [], ks_clock = 1\<rparr>"

text \<open>The same with an \<open>nft\<close> whose output is not text: decoding it raises a \<open>ValueError\<close>, which nothing catches.\<close>

definition ex_garbled :: "kstate world" where
  "ex_garbled = ex_world\<lparr>wd_nft := (wd_nft ex_world)\<lparr>nft_run := (\<lambda>args input k. (Inl ValueErr, k))\<rparr>\<rparr>"

lemma ex_garbled_calm: "calm_world ex_garbled"
  unfolding calm_world_def
  by (intro conjI allI) (auto simp: ex_garbled_def ex_world_def raises_only_def ret_def raise_exn_def os_exn_def)

lemma ex_garbled_open: "open_backend ex_garbled c BACKEND_NFTABLES k = (Inl ValueErr, k)"
  by (simp add: open_backend_def open_nft_def ex_garbled_def ex_world_def nft_probe_def nft_init_def ensure_ruleset_def
      BACKEND_NFTABLES_def BACKEND_XDP_def mseq_def mbind_def kern_def)

theorem watch_survives_witness:
  "\<exists>t. watch_turns 1 ex_garbled False ''/etc/auto_xdp/config.toml'' []
     (watch_init BACKEND_NFTABLES (Config_init [] [] []), ex_start) = (Inl ValueErr, t) \<and> fatal ex_garbled False ValueErr"
proof -
  have "fst (watch_turns (Suc 0) ex_garbled False ''/etc/auto_xdp/config.toml'' []
     (watch_init BACKEND_NFTABLES (Config_init [] [] []), ex_start)) = Inl ValueErr"
    by (simp add: watch_turn_def watch_open_def and_then_def watch_init_def mseq_def mbind_def mtry_def obj_def kern_def
        ex_garbled_open on_sync_error_def)
  then obtain t where run: "watch_turns 1 ex_garbled False ''/etc/auto_xdp/config.toml'' []
     (watch_init BACKEND_NFTABLES (Config_init [] [] []), ex_start) = (Inl ValueErr, t)"
    by (metis One_nat_def prod.collapse)
  from watch_survives [OF ex_garbled_calm run] run show ?thesis by blast
qed

text \<open>Two ways that do end it: an \<open>OSError\<close> in the check of the maps, and a message that is JSON but not an object.\<close>

lemma check_error_ends_daemon:
  assumes "wd_monotonic W k = (Inr t, k1)" and "flt_le (Fin 30) (flt_sub t (ws_last_stale_check_t s))"
    and "wd_monotonic W k1 = (Inr t', k2)" and "ws_backend s = Some b"
    and "backend_stale W (ws_config s) (b, k2) = (Inr False, (b1, k3))" and "backend_verify W (b1, k3) = (Inl e, (b2, k4))"
  shows "fst (watch_stale W (s, k)) = Inl e"
  using assms
  by (simp add: watch_stale_def monotonic_def stamp_def mseq_def mbind_def kern_def obj_def set_obj_def mwhen_def with_backend_def)

lemma list_message_ends_daemon:
  assumes "wd_relay_recv W k = (Inr None, k1)" and "wd_fuel W = Suc n" and "wd_json W l = Inr (Some (JsArr xs))"
    and "10 \<notin> set l" and "l \<noteq> []"
  shows "fst (drain_relay_lines W (l @ [10], k)) = Inl AttributeErr"
proof -
  have "takeWhile (\<lambda>b. b \<noteq> (10 :: byte)) (l @ [10]) = l" using assms(4) by (induction l) auto
  then have "split_lines (l @ [10]) = ([l], [])"
    using split_lines.simps [of "[]"] by (subst split_lines.simps) (simp add: Let_def split_beta)
  then show ?thesis
    using assms by (simp add: drain_relay_lines_def mseq_def mbind_def kern_def relay_line_def is_port_change_def)
qed

theorem watch_invariant_witness:
  "\<exists>W r s k. clock_runs W \<and>
     watch_turns 3 W False [] [] (watch_init BACKEND_AUTO (Config_init [] [] []), ex_start) = (r, (s, k)) \<and>
     config_ok (ws_config s)"
proof -
  let ?W = "ex_world\<lparr>wd_monotonic := ret (Fin 7)\<rparr>"
  have clock: "clock_runs ?W" by (simp add: clock_runs_def)
  obtain r s k where run: "watch_turns 3 ?W False [] [] (watch_init BACKEND_AUTO (Config_init [] [] []), ex_start) = (r, (s, k))"
    by (metis prod.exhaust)
  have "BACKEND_AUTO \<in> BACKENDS" by (simp add: BACKENDS_def)
  from watch_invariant [OF clock Config_init_ok this run] clock run show ?thesis by blast
qed

end
