(* ===== verification/RelayLines.thy ===== *)
theory RelayLines
  imports WatchLoop
begin

text \<open>
  The messages of the packet relay arrive as lines on a stream socket. However the stream is
  cut into chunks and the chunks into drains, the daemon sees the same lines.
\<close>

lemma takeWhile_line: "10 \<notin> set l \<Longrightarrow> takeWhile (\<lambda>b. b \<noteq> (10 :: byte)) (l @ 10 # s) = l"
  by (induction l) auto

lemma split_lines_line:
  "10 \<notin> set l \<Longrightarrow> split_lines (l @ 10 # s) = (l # fst (split_lines s), snd (split_lines s))"
  by (subst split_lines.simps) (simp add: takeWhile_line split_beta Let_def del: takeWhile_append)

lemma split_lines_rest: "10 \<notin> set s \<Longrightarrow> split_lines s = ([], s)"
  by (subst split_lines.simps) simp

lemma split_lines_lines:
  "\<forall>l \<in> set ls. 10 \<notin> set l \<Longrightarrow> 10 \<notin> set rest \<Longrightarrow>
     split_lines (concat (map (\<lambda>l. l @ [10]) ls) @ rest) = (ls, rest)"
  by (induction ls) (simp_all add: split_lines_line split_lines_rest)

lemma split_lines_tail: "10 \<notin> set (snd (split_lines s))"
proof (induction s rule: split_lines.induct)
  case (1 s)
  then show ?case by (subst split_lines.simps) (auto simp: split_beta Let_def)
qed

lemma split_lines_append:
  "split_lines (a @ b) =
     (fst (split_lines a) @ fst (split_lines (snd (split_lines a) @ b)), snd (split_lines (snd (split_lines a) @ b)))"
proof (induction a rule: split_lines.induct)
  case (1 a)
  show ?case
  proof (cases "10 \<in> set a")
    case True
    then obtain l s where a: "a = l @ 10 # s" "10 \<notin> set l" by (meson split_list_first)
    have "takeWhile (\<lambda>b. b \<noteq> 10) a = l" using a takeWhile_line by simp
    then have "split_lines (s @ b) = (fst (split_lines s) @ fst (split_lines (snd (split_lines s) @ b)),
        snd (split_lines (snd (split_lines s) @ b)))"
      using 1 [OF True refl] a by simp
    then show ?thesis using a by (simp add: split_lines_line)
  qed (simp add: split_lines_rest)
qed

text \<open>A socket that gives the listed results and then nothing.\<close>

definition pop_recv :: "(bytes option list, bytes option) pym" where
  "pop_recv k = (case k of [] \<Rightarrow> (Inr None, []) | x # xs \<Rightarrow> (Inr x, xs))"

lemma receive_chunks:
  "length cs < fuel \<Longrightarrow> [] \<notin> set cs \<Longrightarrow>
     relay_receive fuel pop_recv (p, map Some cs @ None # ks) = (Inr (), (p @ concat cs, ks))"
proof (induction cs arbitrary: p fuel)
  case Nil
  then show ?case by (cases fuel) (simp_all add: mbind_def kern_def pop_recv_def)
next
  case (Cons c cs)
  then show ?case by (cases fuel) (auto simp: mbind_def mseq_def kern_def pop_recv_def set_obj_def)
qed

text \<open>Lines that are no JSON or an object, and the messages that ask for a synchronisation.\<close>

definition readable :: "(bytes \<Rightarrow> json option res) \<Rightarrow> bytes \<Rightarrow> bool" where
  "readable json l \<longleftrightarrow> json l = Inr None \<or> (\<exists>d. json l = Inr (Some (JsObj d)))"

definition says_port_change :: "(bytes \<Rightarrow> json option res) \<Rightarrow> bytes \<Rightarrow> bool" where
  "says_port_change json l \<longleftrightarrow>
     l \<noteq> [] \<and> (\<exists>d. json l = Inr (Some (JsObj d)) \<and> dict_get d ''type'' = Some (JsStr ''port_change''))"

lemma relay_line_readable: "readable json l \<Longrightarrow> relay_line json l found = Inr (found \<or> says_port_change json l)"
  by (auto simp: readable_def says_port_change_def relay_line_def is_port_change_def)

lemma take_lines_total:
  assumes "\<forall>l \<in> set ls. readable json l"
  shows "take_lines json ls rest found = (Inr (found \<or> (\<exists>l \<in> set ls. says_port_change json l)), rest)"
  using assms by (induction ls arbitrary: found) (auto simp: relay_line_readable)

lemma drain_chunks:
  assumes "wd_relay_recv W = pop_recv" "\<forall>l \<in> set (fst (split_lines (p @ concat cs))). readable (wd_json W) l"
    "length cs < wd_fuel W" "[] \<notin> set cs"
  shows "drain_relay_lines W (p, map Some cs @ None # ks) =
    (Inr (\<exists>l \<in> set (fst (split_lines (p @ concat cs))). says_port_change (wd_json W) l),
     (snd (split_lines (p @ concat cs)), ks))"
  using receive_chunks [OF assms(3,4), of p ks] take_lines_total [OF assms(2)] assms(1)
  by (simp add: drain_relay_lines_def mseq_def mbind_def split_beta)

text \<open>A number of drains, one after the other.\<close>

fun drains :: "nat \<Rightarrow> 'k world \<Rightarrow> bytes \<times> 'k \<Rightarrow> bool res list \<times> bytes \<times> 'k" where
  "drains 0 W s = ([], s)"
| "drains (Suc n) W s = (case drain_relay_lines W s of (r, t) \<Rightarrow> (case drains n W t of (rs, u) \<Rightarrow> (r # rs, u)))"

lemma drains_lines:
  assumes "wd_relay_recv W = pop_recv"
    "\<forall>l \<in> set (fst (split_lines (p @ concat (concat css)))). readable (wd_json W) l"
    "\<forall>cs \<in> set css. length cs < wd_fuel W \<and> [] \<notin> set cs" "10 \<notin> set p"
  shows "\<exists>founds. drains (length css) W (p, concat (map (\<lambda>cs. map Some cs @ [None]) css)) =
      (map Inr founds, (snd (split_lines (p @ concat (concat css))), [])) \<and>
    (True \<in> set founds \<longleftrightarrow> (\<exists>l \<in> set (fst (split_lines (p @ concat (concat css)))). says_port_change (wd_json W) l))"
  using assms(2-4)
proof (induction css arbitrary: p)
  case Nil
  then show ?case by (simp add: split_lines_rest)
next
  case (Cons cs css)
  let ?p = "snd (split_lines (p @ concat cs))" and ?f = "\<exists>l \<in> set (fst (split_lines (p @ concat cs))). says_port_change (wd_json W) l"
  have d: "drain_relay_lines W (p, map Some cs @ None # concat (map (\<lambda>cs. map Some cs @ [None]) css)) =
      (Inr ?f, (?p, concat (map (\<lambda>cs. map Some cs @ [None]) css)))"
    using Cons.prems split_lines_append [of "p @ concat cs" "concat (concat css)"]
    by (intro drain_chunks [OF assms(1)]) auto
  have "10 \<notin> set ?p" by (rule split_lines_tail)
  moreover have "\<forall>l \<in> set (fst (split_lines (?p @ concat (concat css)))). readable (wd_json W) l"
    using Cons.prems(1) split_lines_append [of "p @ concat cs" "concat (concat css)"] by auto
  ultimately obtain founds where
    f: "drains (length css) W (?p, concat (map (\<lambda>cs. map Some cs @ [None]) css)) =
      (map Inr founds, (snd (split_lines (?p @ concat (concat css))), []))"
    "True \<in> set founds \<longleftrightarrow> (\<exists>l \<in> set (fst (split_lines (?p @ concat (concat css)))). says_port_change (wd_json W) l)"
    using Cons.IH [of ?p] Cons.prems(2) by auto
  show ?case
    using f d split_lines_append [of "p @ concat cs" "concat (concat css)"]
    by (intro exI [of _ "?f # founds"]) auto
qed

text \<open>
  \<open>syncer.py\<close>, \<open>_drain_relay_lines\<close>: the chunks do not matter. Whatever chunks the relay's stream
  arrives in and however they fall into successive drains, a synchronisation is asked for
  exactly if one of the complete lines of the stream is a \<open>port_change\<close> message, no line being JSON other than an object, and
  an unfinished line at the end is kept for the next drain.
\<close>

theorem relay_chunking_irrelevant:
  assumes "wd_relay_recv W = pop_recv" and "\<forall>l \<in> set ls. readable (wd_json W) l"
    and "\<forall>cs \<in> set css. length cs < wd_fuel W \<and> [] \<notin> set cs"
    and "concat (concat css) = concat (map (\<lambda>l. l @ [10]) ls) @ rest"
    and "\<forall>l \<in> set ls. 10 \<notin> set l" and "10 \<notin> set rest"
  shows "\<exists>founds. drains (length css) W ([], concat (map (\<lambda>cs. map Some cs @ [None]) css)) =
      (map Inr founds, (rest, [])) \<and>
    (True \<in> set founds \<longleftrightarrow> (\<exists>l \<in> set ls. says_port_change (wd_json W) l))"
  using drains_lines [OF assms(1), of "[]" css] split_lines_lines [OF assms(5,6)] assms(2-4) by simp

text \<open>A world whose relay socket has the given results; the fields a drain does not use are left open.\<close>

definition ex_relay_world :: "bytes option list world" where
  "ex_relay_world = \<lparr>wd_kernel = undefined, wd_nft = undefined, wd_host = undefined, wd_services = [],
     wd_orders = undefined, wd_bpftool = False, wd_fuel = 9, wd_monotonic = ret (Fin 1), wd_sleep = (\<lambda>_. ret ()),
     wd_open_connector = (\<lambda>_. ret True), wd_getpid = 1, wd_proc_poll = ret None, wd_open_relay = (\<lambda>_. ret True),
     wd_relay_recv = pop_recv, wd_select = (\<lambda>nl relay t. ret (False, True)), wd_close_nl = ret (), wd_close_relay = ret (),
     wd_json = (\<lambda>l. Inr (if l = [123, 125] then Some (JsObj [(''type'', JsStr ''port_change'')]) else None)), wd_sighup = ret False, wd_toml = None, wd_repr = (\<lambda>_. [])\<rparr>"

theorem relay_chunking_irrelevant_witness:
  "\<exists>founds. drains 2 ex_relay_world ([], [Some [65, 10, 123], Some [125], None, Some [10, 66], None]) =
     (map Inr founds, ([66], [])) \<and> True \<in> set founds"
proof -
  have "\<exists>founds. drains (length [[[65 :: byte, 10, 123], [125]], [[10, 66]]]) ex_relay_world
      ([], concat (map (\<lambda>cs. map Some cs @ [None]) [[[65, 10, 123], [125]], [[10, 66]]])) = (map Inr founds, ([66], [])) \<and>
    (True \<in> set founds \<longleftrightarrow> (\<exists>l \<in> set [[65], [123, 125]]. says_port_change (wd_json ex_relay_world) l))"
    by (rule relay_chunking_irrelevant) (simp_all add: ex_relay_world_def readable_def)
  then show ?thesis by (simp add: ex_relay_world_def numeral_2_eq_2 says_port_change_def)
qed

end
