(* ===== verification/RelayProps.thy ===== *)
theory RelayProps
  imports PktRelay RelayLines
begin

text \<open>
  What the relay promises: bounded memory, clients that were authorized, every event to every
  client in order, and, together with the daemon's reader, that a change of a listening
  port reaches the daemon.
\<close>

section \<open>Lines\<close>

abbreviation LF :: char where "LF \<equiv> CHR 0x0A"

text \<open>An encoder never puts a line feed into a line, if the texts of floats have none.\<close>

definition one_line :: "(pyfloat \<Rightarrow> string) \<Rightarrow> bool" where
  "one_line fr \<longleftrightarrow> (\<forall>q. LF \<notin> set (fr (Fin q)))"

lemma set_join: "set (str_join sep xs) \<subseteq> set sep \<union> \<Union> (set ` set xs)"
  by (induction sep xs rule: str_join.induct) auto

lemma not_LF: "of_char c \<noteq> (10 :: nat) \<Longrightarrow> LF \<noteq> c"
  by auto

lemma not_LF': "of_char c = (10 :: nat) \<Longrightarrow> c = LF"
proof -
  assume "of_char c = (10 :: nat)"
  then have "of_char c = (of_char LF :: nat)" by simp
  then show "c = LF" by (simp only: of_char_eq_iff)
qed

lemma str_of_int_one_line: "LF \<notin> set (str_of_int i)"
proof -
  have "\<not> is_digit LF" by (simp add: is_digit_def)
  then show ?thesis using digits_are_digits by (auto simp: str_of_int_def)
qed

lemma hex_char_one_line: "n < 16 \<Longrightarrow> LF \<noteq> hex_char n"
  by (rule not_LF) (auto simp: hex_char_def of_char_of take_bit_eq_mod)

lemma json_char_one_line: "LF \<notin> set (json_char c)"
  using hex_char_one_line by (auto simp: json_char_def Let_def hex4_def)

lemma json_str_one_line: "LF \<notin> set (json_str s)"
  using json_char_one_line by (auto simp: json_str_def)

lemma join_one_line: "LF \<notin> set sep \<Longrightarrow> \<forall>x \<in> set xs. LF \<notin> set x \<Longrightarrow> LF \<notin> set (str_join sep xs)"
  using set_join [of sep xs] by blast

lemma json_one_line: "one_line fr \<Longrightarrow> LF \<notin> set (json_dumps fr v)"
proof (induction fr v rule: json_dumps.induct)
  case (2 fr f)
  then show ?case by (cases f) (simp_all add: one_line_def)
next
  case (4 fr xs)
  have "LF \<notin> set (str_join '','' (map (json_dumps fr) xs))"
    by (rule join_one_line) (use 4 in auto)
  then show ?case by simp
next
  case (5 fr kvs)
  have "LF \<notin> set (str_join '','' (map (\<lambda>(k, v). json_str k @ '':'' @ json_dumps fr v) kvs))"
  proof (rule join_one_line)
    show "\<forall>x \<in> set (map (\<lambda>(k, v). json_str k @ '':'' @ json_dumps fr v) kvs). LF \<notin> set x"
      using 5 json_str_one_line by fastforce
  qed simp
  then show ?case by simp
qed (simp_all add: str_of_int_one_line json_str_one_line)

section \<open>Steps\<close>

lemma fold_drop: "fold drop_client dead s = s\<lparr>rs_clients := filter (\<lambda>c. c \<notin> set dead) (rs_clients s)\<rparr>"
  by (induction dead arbitrary: s) (simp_all add: drop_client_def conj_commute)

lemma broadcast_eq:
  "broadcast fr sends ev s =
     (s\<lparr>rs_clients := filter sends (rs_clients s)\<rparr>, map (\<lambda>fd. (fd, event_line fr (event_message ev))) (filter sends (rs_clients s)))"
proof -
  have "filter (\<lambda>c. c \<notin> set (filter (\<lambda>fd. \<not> sends fd) (rs_clients s))) (rs_clients s) = filter sends (rs_clients s)"
    by (rule filter_cong) auto
  then show ?thesis by (simp add: broadcast_def fold_drop Let_def)
qed

definition relay_bounded :: "RelayServer \<Rightarrow> bool" where
  "relay_bounded s \<longleftrightarrow> length (rs_history s) \<le> rs_max_events s \<and> int (length (rs_queue s)) \<le> EVENT_QUEUE_MAX \<and>
     distinct (rs_clients s)"

lemma deque_append_length: "length (deque_append n x xs) \<le> n"
  by (simp add: deque_append_def Let_def)

lemma act_bounded:
  "relay_bounded s \<Longrightarrow> relay_bounded (fst (relay_act fr euid egid a s)) \<and>
     rs_max_events (fst (relay_act fr euid egid a s)) = rs_max_events s"
  by (cases a) (auto simp: relay_bounded_def put_event_def accept_client_def client_readable_def drop_client_def
      trim_history_def take_event_def broadcast_eq deque_append_length Let_def
      split: list.splits sum.splits intro: le_trans [OF length_dropWhile_le])

lemma run_bounded:
  "relay_bounded s \<Longrightarrow> relay_bounded (fst (relay_run fr euid egid as s)) \<and>
     rs_max_events (fst (relay_run fr euid egid as s)) = rs_max_events s"
proof (induction as arbitrary: s)
  case (Cons a as)
  obtain s1 o1 where a: "relay_act fr euid egid a s = (s1, o1)" by (metis surj_pair)
  obtain s2 o2 where r: "relay_run fr euid egid as s1 = (s2, o2)" by (metis surj_pair)
  show ?case using Cons.IH [of s1] act_bounded [OF Cons.prems, of fr euid egid a] a r by simp
qed simp

text \<open>A descriptor that is a client, or gets a line, was one before or came with an authorized connection.\<close>

definition came_in :: "int \<Rightarrow> int \<Rightarrow> relay_action list \<Rightarrow> int \<Rightarrow> bool" where
  "came_in euid egid as fd \<longleftrightarrow>
     (\<exists>now conn. Accept now (Inr conn) \<in> set as \<and> cn_fd conn = fd \<and>
        peer_is_authorized euid egid (cn_credentials conn) (cn_groups conn))"

lemma act_clients:
  assumes "relay_act fr euid egid a s = (s', out)"
  shows "set (rs_clients s') \<union> fst ` set out \<subseteq> set (rs_clients s) \<union> {fd. came_in euid egid [a] fd}"
  using assms
  by (cases a) (auto simp: came_in_def put_event_def accept_client_def client_readable_def drop_client_def
      trim_history_def take_event_def broadcast_eq Let_def split: list.splits sum.splits if_splits)

lemma run_clients:
  "relay_run fr euid egid as s = (s', out) \<Longrightarrow>
     set (rs_clients s') \<union> fst ` set out \<subseteq> set (rs_clients s) \<union> {fd. came_in euid egid as fd}"
proof (induction as arbitrary: s out)
  case (Cons a as)
  obtain s1 o1 where a: "relay_act fr euid egid a s = (s1, o1)" by (metis surj_pair)
  obtain o2 where r: "relay_run fr euid egid as s1 = (s', o2)" and out: "out = o1 @ o2"
    using Cons.prems a by (auto split: prod.splits)
  have "Collect (came_in euid egid [a]) \<union> Collect (came_in euid egid as) \<subseteq> Collect (came_in euid egid (a # as))"
    unfolding came_in_def by fastforce
  then show ?case using Cons.IH [OF r] act_clients [OF a] unfolding out set_append image_Un by blast
qed simp

section \<open>Delivery\<close>

text \<open>The events that the steps took from the queue, and those they put into it.\<close>

fun took :: "relay_action \<Rightarrow> RelayServer \<Rightarrow> event list" where
  "took (Take sends) s = take 1 (rs_queue s)"
| "took a s = []"

fun put :: "relay_action \<Rightarrow> RelayServer \<Rightarrow> event list" where
  "put (Put ev) s = (if int (length (rs_queue s)) < EVENT_QUEUE_MAX then [ev] else [])"
| "put a s = []"

fun over_run ::
  "(relay_action \<Rightarrow> RelayServer \<Rightarrow> event list) \<Rightarrow> (pyfloat \<Rightarrow> string) \<Rightarrow> int \<Rightarrow> int \<Rightarrow> relay_action list \<Rightarrow> RelayServer \<Rightarrow> event list" where
  "over_run f fr euid egid [] s = []"
| "over_run f fr euid egid (a # as) s = f a s @ over_run f fr euid egid as (fst (relay_act fr euid egid a s))"

definition to_fd :: "int \<Rightarrow> (int \<times> bytes) list \<Rightarrow> bytes list" where
  "to_fd fd out = map snd (filter (\<lambda>x. fst x = fd) out)"

lemma to_fd_append [simp]: "to_fd fd (a @ b) = to_fd fd a @ to_fd fd b"
  by (simp add: to_fd_def)

lemma to_fd_broadcast:
  "distinct cs \<Longrightarrow> to_fd fd (map (\<lambda>c. (c, l)) cs) = (if fd \<in> set cs then [l] else [])"
  by (induction cs) (auto simp: to_fd_def)

text \<open>The actions in which a descriptor stays what it is: no new connection gets it.\<close>

definition not_reused :: "int \<Rightarrow> relay_action list \<Rightarrow> bool" where
  "not_reused fd as \<longleftrightarrow> (\<forall>now conn. Accept now (Inr conn) \<in> set as \<longrightarrow> cn_fd conn \<noteq> fd)"

lemma act_queue:
  "relay_act fr euid egid a s = (s', out) \<Longrightarrow> rs_queue s @ put a s = took a s @ rs_queue s'"
  by (cases a) (auto simp: put_event_def accept_client_def client_readable_def drop_client_def
      trim_history_def take_event_def broadcast_eq Let_def split: list.splits sum.splits if_splits)

lemma act_delivers:
  assumes "relay_act fr euid egid a s = (s', out)" "not_reused fd [a]" "distinct (rs_clients s)" "fd \<in> set (rs_clients s')"
  shows "fd \<in> set (rs_clients s) \<and> to_fd fd out = map (\<lambda>ev. event_line fr (event_message ev)) (took a s)"
proof (cases a)
  case (Accept now acc)
  with assms show ?thesis
    by (auto simp: not_reused_def accept_client_def trim_history_def to_fd_def Let_def split: sum.splits if_splits)
next
  case (Take sends)
  with assms show ?thesis
    by (auto simp: take_event_def broadcast_eq to_fd_broadcast split: list.splits) (simp_all add: to_fd_def)
qed (use assms in \<open>auto simp: put_event_def client_readable_def drop_client_def trim_history_def to_fd_def Let_def split: if_splits\<close>)

lemma run_delivers:
  assumes "relay_run fr euid egid as s = (s', out)" "not_reused fd as" "relay_bounded s" "fd \<in> set (rs_clients s')"
  shows "fd \<in> set (rs_clients s) \<and>
    to_fd fd out = map (\<lambda>ev. event_line fr (event_message ev)) (over_run took fr euid egid as s)"
  using assms
proof (induction as arbitrary: s out)
  case (Cons a as)
  obtain s1 o1 where a: "relay_act fr euid egid a s = (s1, o1)" by (metis surj_pair)
  obtain o2 where r: "relay_run fr euid egid as s1 = (s', o2)" and out: "out = o1 @ o2"
    using Cons.prems(1) a by (auto split: prod.splits)
  have reuse: "not_reused fd [a]" "not_reused fd as" using Cons.prems(2) by (auto simp: not_reused_def)
  have ok: "distinct (rs_clients s)" "relay_bounded s1"
    using Cons.prems(3) act_bounded [OF Cons.prems(3), of fr euid egid a] a by (simp_all add: relay_bounded_def)
  note IH = Cons.IH [OF r reuse(2) ok(2) Cons.prems(4)]
  with act_delivers [OF a reuse(1) ok(1)] show ?case by (simp add: out a)
qed (simp add: to_fd_def)

lemma run_queue:
  "relay_run fr euid egid as s = (s', out) \<Longrightarrow>
     rs_queue s @ over_run put fr euid egid as s = over_run took fr euid egid as s @ rs_queue s'"
proof (induction as arbitrary: s out)
  case (Cons a as)
  obtain s1 o1 where a: "relay_act fr euid egid a s = (s1, o1)" by (metis surj_pair)
  obtain o2 where r: "relay_run fr euid egid as s1 = (s', o2)" using Cons.prems a by (auto split: prod.splits)
  have "rs_queue s @ put a s @ over_run put fr euid egid as s1 = (rs_queue s @ put a s) @ over_run put fr euid egid as s1" by simp
  also have "\<dots> = took a s @ rs_queue s1 @ over_run put fr euid egid as s1" by (simp add: act_queue [OF a])
  finally show ?case by (simp add: a Cons.IH [OF r])
qed simp

section \<open>Properties\<close>

text \<open>
  C25 (\<open>pkt_relay.py\<close>, \<open>RelayServer\<close>): bounded memory. Whatever the two threads do and in
  whichever order, the history never has more than \<open>max_events\<close> events and the queue never
  more than its maximum, and no client is listed twice.
\<close>

theorem relay_memory_bounded:
  assumes "relay_init retention max_events max_history = Inr s"
    and "relay_run fr euid egid as s = (s', out)"
  shows "length (rs_history s') \<le> max_events \<and> int (length (rs_queue s')) \<le> EVENT_QUEUE_MAX \<and> distinct (rs_clients s')"
proof -
  have "relay_bounded s" "rs_max_events s = max_events"
    using assms(1) by (auto simp: relay_init_def rbind_Inr_conv relay_bounded_def EVENT_QUEUE_MAX_def)
  with run_bounded [of s fr euid egid as] assms(2) show ?thesis by (simp add: relay_bounded_def)
qed

text \<open>
  C26 (\<open>pkt_relay.py\<close>, \<open>_accept_client\<close>): whoever gets a line, or is a client, came with credentials
  that \<open>_peer_is_authorized\<close> accepts: the user or the group of the service, or a group of the
  peer that is the group of the service. A peer whose credentials cannot be read gets
  nothing.
\<close>

theorem relay_clients_authorized:
  assumes "relay_init retention max_events max_history = Inr s"
    and "relay_run fr euid egid as s = (s', out)"
    and "fd \<in> set (rs_clients s') \<union> fst ` set out"
  shows "\<exists>now conn pid uid gid. Accept now (Inr conn) \<in> set as \<and> cn_fd conn = fd \<and>
    cn_credentials conn = Some (pid, uid, gid) \<and> (uid = euid \<or> gid = egid \<or> egid \<in> cn_groups conn pid)"
proof -
  have "rs_clients s = []" using assms(1) by (auto simp: relay_init_def rbind_Inr_conv)
  with run_clients [OF assms(2)] assms(3) have "came_in euid egid as fd" by auto
  then show ?thesis by (fastforce simp: came_in_def peer_is_authorized_def split: option.splits prod.splits)
qed

text \<open>
  \<open>pkt_relay.py\<close>, \<open>run\<close>: delivery. A client that stays connected gets one line for every event
  that the server takes from the queue, in that order and no other line; and the events
  taken are the events that found room in the queue, in the order they were put.
\<close>

theorem relay_delivers_in_order:
  assumes "relay_run fr euid egid as s = (s', out)" and "relay_bounded s"
    and "not_reused fd as" and "fd \<in> set (rs_clients s')"
  shows "to_fd fd out = map (\<lambda>ev. event_line fr (event_message ev)) (over_run took fr euid egid as s) \<and>
    rs_queue s @ over_run put fr euid egid as s = over_run took fr euid egid as s @ rs_queue s'"
  using run_delivers [OF assms(1,3,2,4)] run_queue [OF assms(1)] by blast

text \<open>A service user 0 in group 50, a client of that group, and two events.\<close>

definition ex_frepr :: "pyfloat \<Rightarrow> string" where "ex_frepr f = ''0.5''"

definition ex_conn :: connection where
  "ex_conn = \<lparr>cn_fd = 7, cn_credentials = Some (99, 1000, 1000), cn_groups = (\<lambda>pid. {50}), cn_sends = True\<rparr>"

definition ex_relay :: RelayServer where
  "ex_relay = \<lparr>rs_retention_ns = 0, rs_max_events = 1, rs_history = [], rs_max_history_send = 5000,
     rs_clients = [], rs_queue = [], rs_running = False\<rparr>"

definition ex_drop :: event where "ex_drop = [(''proto'', JStr ''TCP''), (''seen_at'', JFloat (Fin 1))]"

definition ex_listen :: event where
  "ex_listen = the (decode_raw (Fin 2) ([1, 0, 0, 0, 0, 0, 0, 0, 80, 0, 6, 1, 2, 0, 0, 0]))"

definition ex_actions :: "relay_action list" where
  "ex_actions = [Put ex_drop, Put ex_listen, Take (\<lambda>fd. True), Readable 7 (Inr [65]), Take (\<lambda>fd. True), Trim (Fin 2)]"

lemma ex_listen_seen: "dict_get ex_listen ''seen_at'' = Some (JFloat (Fin 2))" "dict_get ex_listen ''type'' = Some (JStr ''port_change'')"
  by code_simp+

lemma ex_cutoff: "flt_sub (Fin 0) (flt_div (fl 0) (Fin 1000000000)) = Fin 0"
  "flt_sub (Fin 2) (flt_div (fl 0) (Fin 1000000000)) = Fin 2"
  by code_simp+

lemmas ex_relay_defs = ex_relay_def ex_actions_def accept_client_def peer_is_authorized_def ex_conn_def Let_def
  trim_history_def put_event_def EVENT_QUEUE_MAX_def take_event_def broadcast_eq client_readable_def
  deque_append_def seen_at_def flt_lt_def ex_cutoff ex_listen_seen

lemma ex_relay_init: "relay_init (Fin 0) 1 5000 = Inr ex_relay"
  by code_simp

theorem relay_memory_bounded_witness:
  "case relay_run ex_frepr 0 50 (Accept (Fin 0) (Inr ex_conn) # ex_actions) ex_relay of
     (s', out) \<Rightarrow> rs_history s' = [ex_listen] \<and> length (rs_history s') \<le> 1"
proof -
  let ?run = "relay_run ex_frepr 0 50 (Accept (Fin 0) (Inr ex_conn) # ex_actions) ex_relay"
  obtain s' out where run: "?run = (s', out)" by (metis surj_pair)
  have "rs_history (fst ?run) = [ex_listen]" by (simp add: ex_relay_defs)
  with run relay_memory_bounded [OF ex_relay_init run] show ?thesis by simp
qed

theorem relay_clients_authorized_witness:
  "case relay_run ex_frepr 0 50 (Accept (Fin 0) (Inr ex_conn) # ex_actions) ex_relay of
     (s', out) \<Rightarrow> rs_clients s' = [7] \<and> (\<exists>now conn pid uid gid.
       Accept now (Inr conn) \<in> set (Accept (Fin 0) (Inr ex_conn) # ex_actions) \<and> cn_fd conn = 7 \<and>
       cn_credentials conn = Some (pid, uid, gid) \<and> (uid = 0 \<or> gid = 50 \<or> 50 \<in> cn_groups conn pid))"
proof -
  let ?as = "Accept (Fin 0) (Inr ex_conn) # ex_actions"
  let ?run = "relay_run ex_frepr 0 50 ?as ex_relay"
  obtain s' out where run: "?run = (s', out)" by (metis surj_pair)
  have clients: "rs_clients (fst ?run) = [7]" by (simp add: ex_relay_defs)
  then have "7 \<in> set (rs_clients s') \<union> fst ` set out" using run by simp
  from relay_clients_authorized [OF ex_relay_init run this] clients run show ?thesis by simp
qed

definition ex_relay_client :: RelayServer where
  "ex_relay_client = ex_relay\<lparr>rs_clients := [7]\<rparr>"

theorem relay_delivers_in_order_witness:
  "case relay_run ex_frepr 0 50 ex_actions ex_relay_client of
     (s', out) \<Rightarrow> to_fd 7 out = [event_line ex_frepr (event_message ex_drop), event_line ex_frepr (event_message ex_listen)]"
proof -
  let ?run = "relay_run ex_frepr 0 50 ex_actions ex_relay_client"
  obtain s' out where run: "?run = (s', out)" by (metis surj_pair)
  have ok: "relay_bounded ex_relay_client" "not_reused 7 ex_actions"
    by (simp_all add: relay_bounded_def ex_relay_client_def ex_relay_def not_reused_def ex_actions_def EVENT_QUEUE_MAX_def)
  have "rs_clients (fst ?run) = [7]" "over_run took ex_frepr 0 50 ex_actions ex_relay_client = [ex_drop, ex_listen]"
    by (simp_all add: ex_relay_defs ex_relay_client_def)
  with relay_delivers_in_order [OF run ok] run show ?thesis by simp
qed

text \<open>
  A limit of zero events for the history that a new client gets is no limit: \<open>xs[-0:]\<close> is the
  whole list.
\<close>

lemma history_limit_zero: "slice_last 0 xs = xs"
  by (simp add: slice_last_def)

lemma history_limit: "0 < n \<Longrightarrow> length (slice_last n xs) \<le> nat n"
  by (simp add: slice_last_def)

section \<open>From the kernel's record to the daemon\<close>

lemma bytes_of_string_LF: "LF \<notin> set s \<Longrightarrow> 10 \<notin> set (bytes_of_string s)"
proof -
  have "word_of_nat (of_char c) = (10 :: byte) \<Longrightarrow> c = LF" for c :: char
  proof -
    assume "word_of_nat (of_char c) = (10 :: byte)"
    then have "unat (word_of_nat (of_char c) :: byte) = 10" by simp
    then have "of_char c = (10 :: nat)" using nat_of_char_less_256 [of c] by (simp add: unat_of_nat take_bit_eq_mod)
    then show ?thesis using not_LF' by blast
  qed
  then show "LF \<notin> set s \<Longrightarrow> ?thesis" by (auto simp: bytes_of_string_def)
qed

text \<open>
  C27 (\<open>pkt_relay.py\<close>, \<open>sock_state.py\<close> and \<open>syncer.py\<close> together): the daemon connects to the relay
  and stays connected. However the lines it is sent are cut into chunks and the chunks fall into
  drains, it decides to synchronise exactly if the relay took a \<open>port_change\<close> event after
  the daemon connected; the history it is sent first never makes it synchronise. The
  assumption on \<open>json.loads\<close> is that it reads back what \<open>json.dumps\<close> wrote.
\<close>

theorem port_change_reaches_daemon:
  assumes "one_line fr" and "relay_bounded s"
    and "relay_act fr euid egid (Accept now (Inr conn)) s = (s1, greeting)" and "cn_fd conn \<notin> set (rs_clients s)"
    and "relay_run fr euid egid as s1 = (s', out)"
    and "not_reused (cn_fd conn) as" and "cn_fd conn \<in> set (rs_clients s')"
    and "wd_relay_recv W = pop_recv" and "\<forall>cs \<in> set css. length cs < wd_fuel W \<and> [] \<notin> set cs"
    and "concat (concat css) = concat (to_fd (cn_fd conn) (greeting @ out))"
    and "\<forall>evs. \<exists>d. wd_json W (bytes_of_string (json_dumps fr (history_message evs))) = Inr (Some (JsObj d)) \<and>
      dict_get d ''type'' = Some (JsStr ''history'')"
    and "\<forall>ev \<in> set (over_run took fr euid egid as s1). \<exists>d.
      wd_json W (bytes_of_string (json_dumps fr (event_message ev))) = Inr (Some (JsObj d)) \<and>
      (dict_get d ''type'' = Some (JsStr ''port_change'') \<longleftrightarrow> dict_get ev ''type'' = Some (JStr ''port_change''))"
  shows "\<exists>founds. drains (length css) W ([], concat (map (\<lambda>cs. map Some cs @ [None]) css)) = (map Inr founds, ([], [])) \<and>
    (True \<in> set founds \<longleftrightarrow>
      (\<exists>ev \<in> set (over_run took fr euid egid as s1). dict_get ev ''type'' = Some (JStr ''port_change'')))"
proof -
  let ?fd = "cn_fd conn" and ?b = "\<lambda>msg. bytes_of_string (json_dumps fr msg)"
  let ?evs = "over_run took fr euid egid as s1"
  have "relay_bounded s1" using act_bounded [OF assms(2), of fr euid egid "Accept now (Inr conn)"] assms(3) by simp
  note sent = run_delivers [OF assms(5,6) this assms(7)]
  then have "?fd \<in> set (rs_clients s1)" by blast
  then obtain h where greeting: "greeting = [(?fd, event_line fr (history_message h))]"
    using assms(3,4) by (auto simp: accept_client_def trim_history_def Let_def split: if_splits)
  let ?ls = "map ?b (history_message h # map event_message ?evs)"
  have stream: "concat (concat css) = concat (map (\<lambda>l. l @ [10]) ?ls) @ []"
    using assms(10) sent greeting
    by (simp add: to_fd_def event_line_def bytes_of_string_def comp_def)
  have lf: "\<forall>l \<in> set ?ls. 10 \<notin> set l" using json_one_line [OF assms(1)] bytes_of_string_LF by auto
  have lines: "split_lines (concat (concat css)) = (?ls, [])"
    unfolding stream by (rule split_lines_lines [OF lf]) simp
  have history: "readable (wd_json W) (?b (history_message evs)) \<and> \<not> says_port_change (wd_json W) (?b (history_message evs))" for evs
  proof -
    from assms(11) obtain d where "wd_json W (?b (history_message evs)) = Inr (Some (JsObj d))"
      "dict_get d ''type'' = Some (JsStr ''history'')" by blast
    then show ?thesis by (simp add: readable_def says_port_change_def)
  qed
  have event: "readable (wd_json W) (?b (event_message ev)) \<and>
      (says_port_change (wd_json W) (?b (event_message ev)) \<longleftrightarrow> dict_get ev ''type'' = Some (JStr ''port_change''))"
    if ev: "ev \<in> set ?evs" for ev
  proof -
    from assms(12) ev obtain d where "wd_json W (?b (event_message ev)) = Inr (Some (JsObj d))"
      "dict_get d ''type'' = Some (JsStr ''port_change'') \<longleftrightarrow> dict_get ev ''type'' = Some (JStr ''port_change'')" by blast
    moreover have "?b (event_message ev) \<noteq> []" by (simp add: bytes_of_string_def event_message_def)
    ultimately show ?thesis by (simp add: readable_def says_port_change_def)
  qed
  have json: "\<forall>l \<in> set ?ls. readable (wd_json W) l" using history event by auto
  have "\<exists>founds. drains (length css) W ([], concat (map (\<lambda>cs. map Some cs @ [None]) css)) = (map Inr founds, ([], [])) \<and>
    (True \<in> set founds \<longleftrightarrow> (\<exists>l \<in> set ?ls. says_port_change (wd_json W) l))"
    using drains_lines [OF assms(8), of "[]" css] lines json assms(9) by simp
  moreover have "(\<exists>l \<in> set ?ls. says_port_change (wd_json W) l) \<longleftrightarrow>
      (\<exists>ev \<in> set ?evs. dict_get ev ''type'' = Some (JStr ''port_change''))"
    using history event by auto
  ultimately show ?thesis by simp
qed

text \<open>A daemon that reads the type of a message off its first letters.\<close>

definition ex_json :: "bytes \<Rightarrow> json option res" where
  "ex_json l = Inr (Some (JsObj [(''type'', JsStr
     (let start = [CHR ''{'', CHR 0x22] @ ''type'' @ [CHR 0x22, CHR '':'', CHR 0x22] in
      if take 10 l = bytes_of_string (start @ ''p'') then ''port_change''
      else if take 10 l = bytes_of_string (start @ ''h'') then ''history'' else ''drop''))]))"

definition ex_daemon :: "bytes option list world" where
  "ex_daemon = ex_relay_world\<lparr>wd_json := ex_json\<rparr>"

lemma ex_listen_eq: "\<exists>rest. ex_listen = (''type'', JStr ''port_change'') # (''ts_ns'', JInt 1) # rest"
  by (simp add: ex_listen_def decode_raw_def SOCK_STATE_EVENT_SIZE_def Let_def)

lemma ex_json_lines:
  "ex_json (bytes_of_string (json_dumps fr (history_message evs))) = Inr (Some (JsObj [(''type'', JsStr ''history'')]))"
  "ex_json (bytes_of_string (json_dumps fr (event_message ex_drop))) = Inr (Some (JsObj [(''type'', JsStr ''drop'')]))"
  "ex_json (bytes_of_string (json_dumps fr (event_message ex_listen))) = Inr (Some (JsObj [(''type'', JsStr ''port_change'')]))"
proof -
  note defs = ex_json_def history_message_def event_message_def ex_drop_def dict_update_def dict_set_def
    bytes_of_string_def json_str_def json_char_def Let_def
  show "ex_json (bytes_of_string (json_dumps fr (history_message evs))) = Inr (Some (JsObj [(''type'', JsStr ''history'')]))"
    "ex_json (bytes_of_string (json_dumps fr (event_message ex_drop))) = Inr (Some (JsObj [(''type'', JsStr ''drop'')]))"
    by (simp_all add: defs)
  obtain rest where listen: "ex_listen = (''type'', JStr ''port_change'') # (''ts_ns'', JInt 1) # rest" using ex_listen_eq by blast
  show "ex_json (bytes_of_string (json_dumps fr (event_message ex_listen))) = Inr (Some (JsObj [(''type'', JsStr ''port_change'')]))"
    unfolding listen by (simp add: defs)
qed

theorem port_change_reaches_daemon_witness:
  "case relay_act ex_frepr 0 50 (Accept (Fin 0) (Inr ex_conn)) ex_relay of (s1, greeting) \<Rightarrow>
   (case relay_run ex_frepr 0 50 ex_actions s1 of (s', out) \<Rightarrow>
     \<exists>founds. drains 1 ex_daemon ([], [Some (concat (to_fd 7 (greeting @ out))), None]) = (map Inr founds, ([], [])) \<and>
       True \<in> set founds)"
proof -
  obtain s1 greeting where act: "relay_act ex_frepr 0 50 (Accept (Fin 0) (Inr ex_conn)) ex_relay = (s1, greeting)"
    by (metis surj_pair)
  obtain s' out where run: "relay_run ex_frepr 0 50 ex_actions s1 = (s', out)" by (metis surj_pair)
  have s1: "s1 = ex_relay_client" and g: "to_fd 7 greeting \<noteq> [] \<and> concat (to_fd 7 greeting) \<noteq> []"
    using act by (auto simp: ex_relay_defs ex_relay_client_def to_fd_def event_line_def bytes_of_string_def)
  have ok: "one_line ex_frepr" "relay_bounded ex_relay" "cn_fd ex_conn \<notin> set (rs_clients ex_relay)" "not_reused (cn_fd ex_conn) ex_actions"
    by (simp_all add: one_line_def ex_frepr_def relay_bounded_def ex_relay_def not_reused_def ex_actions_def EVENT_QUEUE_MAX_def)
  have fd: "cn_fd ex_conn = 7" by (simp add: ex_conn_def)
  have run_facts: "rs_clients (fst (relay_run ex_frepr 0 50 ex_actions s1)) = [7]"
    "over_run took ex_frepr 0 50 ex_actions s1 = [ex_drop, ex_listen]"
    by (simp_all add: s1 ex_relay_defs ex_relay_client_def)
  have types: "dict_get ex_drop ''type'' = None" by (simp add: ex_drop_def)
  let ?stream = "concat (to_fd 7 (greeting @ out))"
  have world: "wd_relay_recv ex_daemon = pop_recv" "wd_fuel ex_daemon = 9" "wd_json ex_daemon = ex_json"
    by (simp_all add: ex_daemon_def ex_relay_world_def)
  have "\<exists>founds. drains (length [[?stream]]) ex_daemon ([], concat (map (\<lambda>cs. map Some cs @ [None]) [[?stream]])) =
      (map Inr founds, ([], [])) \<and>
    (True \<in> set founds \<longleftrightarrow> (\<exists>ev \<in> set (over_run took ex_frepr 0 50 ex_actions s1). dict_get ev ''type'' = Some (JStr ''port_change'')))"
  proof (rule port_change_reaches_daemon [OF ok(1,2) act ok(3) run ok(4)])
    show "cn_fd ex_conn \<in> set (rs_clients s')" using run_facts(1) run fd by simp
  qed (use g in \<open>auto simp: world fd run_facts(2) ex_json_lines types ex_listen_seen\<close>)
  then show ?thesis using act run run_facts(2) ex_listen_seen by auto
qed

end
