(* ===== verification/DiscoverySpec.thy ===== *)
theory DiscoverySpec
  imports Discovery
begin

text \<open>
  What discovery promises: a dump is read back as it was sent, the observed ports
  are exactly those of the exposed sockets in complete dumps, and two hosts on which that
  is not what one would want.
\<close>

section \<open>Reading a dump\<close>

definition diag_ok :: "diag \<Rightarrow> bool" where
  "diag_ok d \<longleftrightarrow> 0 \<le> dg_sport d \<and> dg_sport d < 65536 \<and> 0 \<le> dg_dport d \<and> dg_dport d < 65536 \<and>
     length (dg_src d) = 16 \<and> length (dg_dst d) = 16 \<and>
     0 \<le> dg_inode d \<and> dg_inode d < 2 ^ 32 \<and> 0 \<le> dg_rqueue d \<and> dg_rqueue d < 2 ^ 32"

text \<open>A netlink message, the body of a socket message, and the end of a dump.\<close>

definition netlink_msg :: "int \<Rightarrow> bytes \<Rightarrow> bytes" where
  "netlink_msg msg_type body =
     le_bytes 4 (int (16 + length body)) @ le_bytes 2 msg_type @ le_bytes 2 0 @ le_bytes 4 1 @ le_bytes 4 0 @ body"

definition diag_body :: "diag \<Rightarrow> bytes" where
  "diag_body d = replicate 4 0 @ be16 (dg_sport d) @ be16 (dg_dport d) @ dg_src d @ dg_dst d @
     replicate 16 0 @ le_bytes 4 (dg_rqueue d) @ replicate 8 0 @ le_bytes 4 (dg_inode d)"

definition diag_msgs :: "diag list \<Rightarrow> bytes" where
  "diag_msgs ds = concat (map (\<lambda>d. netlink_msg SOCK_DIAG_BY_FAMILY (diag_body d)) ds)"

definition done_msg :: bytes where
  "done_msg = netlink_msg NLMSG_DONE (le_bytes 4 0)"

lemma length_netlink_msg [simp]: "length (netlink_msg ty body) = 16 + length body"
  by (simp add: netlink_msg_def)

lemma netlink_msg_nonempty [simp]: "netlink_msg ty body \<noteq> []"
  by (simp flip: length_greater_0_conv)

lemma length_diag_body: "diag_ok d \<Longrightarrow> length (diag_body d) = 72"
  by (simp add: diag_ok_def diag_body_def be16_def)

lemma field_append: "field (xs @ ys) (length xs + i) n = field ys i n"
  by (simp add: field_def)

lemma field_take: "i + n \<le> length xs \<Longrightarrow> field (xs @ ys) i n = field xs i n"
  by (simp add: field_def)

lemma read_diag_body:
  assumes "diag_ok d"
  shows "read_diag (pre @ diag_body d @ post) (length pre) = d"
proof -
  have f: "field (pre @ diag_body d @ post) (length pre + i) n = field (diag_body d) i n" if "i + n \<le> 72" for i n
    using that length_diag_body [OF assms] by (simp add: field_append field_take)
  have len: "length (dg_src d) = 16" "length (dg_dst d) = 16" using assms by (simp_all add: diag_ok_def)
  have "field (diag_body d) 4 2 = be16 (dg_sport d)" "field (diag_body d) 6 2 = be16 (dg_dport d)"
    "field (diag_body d) 8 16 = dg_src d" "field (diag_body d) 24 16 = dg_dst d"
    "field (diag_body d) 56 4 = le_bytes 4 (dg_rqueue d)" "field (diag_body d) 68 4 = le_bytes 4 (dg_inode d)"
    using len by (simp_all add: field_def diag_body_def be16_def)
  with f assms show ?thesis
    by (simp add: read_diag_def int_of_be_def be16_def int_of_le_bytes diag_ok_def)
qed

lemma netlink_header:
  assumes "length body < 2 ^ 31" and "0 \<le> ty" and "ty < 65536"
  shows "int_of_le (field (pre @ netlink_msg ty body @ post) (length pre) 4) = int (16 + length body)"
    and "int_of_le (field (pre @ netlink_msg ty body @ post) (length pre + 4) 2) = ty"
proof -
  have "field (pre @ netlink_msg ty body @ post) (length pre) 4 = le_bytes 4 (int (16 + length body))"
    "field (pre @ netlink_msg ty body @ post) (length pre + 4) 2 = le_bytes 2 ty"
    by (simp_all add: field_def netlink_msg_def)
  with assms show "int_of_le (field (pre @ netlink_msg ty body @ post) (length pre) 4) = int (16 + length body)"
    "int_of_le (field (pre @ netlink_msg ty body @ post) (length pre + 4) 2) = ty"
    by (simp_all add: int_of_le_bytes)
qed

lemma parse_diag_msg:
  assumes "diag_ok d"
  shows "parse_messages (pre @ netlink_msg SOCK_DIAG_BY_FAMILY (diag_body d) @ post) (length pre) =
    (case parse_messages (pre @ netlink_msg SOCK_DIAG_BY_FAMILY (diag_body d) @ post) (length pre + 88) of
       (ds, e) \<Rightarrow> (d # ds, e))"
proof -
  let ?msg = "netlink_msg SOCK_DIAG_BY_FAMILY (diag_body d)"
  let ?buf = "pre @ ?msg @ post"
  have len: "length (diag_body d) = 72" using assms by (rule length_diag_body)
  have h: "int_of_le (field ?buf (length pre) 4) = 88" "int_of_le (field ?buf (length pre + 4) 2) = SOCK_DIAG_BY_FAMILY"
    using netlink_header [of "diag_body d" SOCK_DIAG_BY_FAMILY pre post] len by (simp_all add: SOCK_DIAG_BY_FAMILY_def)
  obtain hdr where hdr: "length hdr = 16" "?buf = (pre @ hdr) @ diag_body d @ post"
  proof
    show "length (take 16 ?msg) = 16" by simp
    show "?buf = (pre @ take 16 ?msg) @ diag_body d @ post" by (simp add: netlink_msg_def)
  qed
  have "read_diag ?buf (length pre + 16) = d"
    using read_diag_body [OF assms, of "pre @ hdr" post] hdr by simp
  moreover have "align4 88 = 88" by (simp add: align4_def)
  ultimately show ?thesis
    using h len
    by (subst parse_messages.simps)
      (simp add: NLMSG_DONE_def NLMSG_ERROR_def SOCK_DIAG_BY_FAMILY_def Let_def split: prod.splits)
qed

lemma parse_diag_msgs:
  assumes "list_all diag_ok ds"
  shows "parse_messages (pre @ diag_msgs ds @ post) (length pre) =
    (case parse_messages (pre @ diag_msgs ds @ post) (length pre + length (diag_msgs ds)) of
       (ds', e) \<Rightarrow> (ds @ ds', e))"
  using assms
proof (induction ds arbitrary: pre)
  case (Cons d ds)
  let ?msg = "netlink_msg SOCK_DIAG_BY_FAMILY (diag_body d)"
  have d: "diag_ok d" and ds: "list_all diag_ok ds" using Cons.prems by simp_all
  have msgs: "diag_msgs (d # ds) = ?msg @ diag_msgs ds" by (simp add: diag_msgs_def)
  have len: "length ?msg = 88" using length_diag_body [OF d] by simp
  from parse_diag_msg [OF d, of pre "diag_msgs ds @ post"] Cons.IH [OF ds, of "pre @ ?msg"] len show ?case
    by (simp add: msgs add.assoc split: prod.splits)
qed (simp add: diag_msgs_def)

lemma parse_done: "parse_messages (pre @ done_msg) (length pre) = ([], Done)"
proof -
  have "int_of_le (field (pre @ done_msg) (length pre) 4) = 20" "int_of_le (field (pre @ done_msg) (length pre + 4) 2) = NLMSG_DONE"
    using netlink_header [of "le_bytes 4 0" NLMSG_DONE pre "[]"] by (simp_all add: done_msg_def NLMSG_DONE_def)
  then show ?thesis
    by (subst parse_messages.simps) (simp add: done_msg_def)
qed

lemma read_dump_chunk:
  assumes "list_all diag_ok ds" and "ds \<noteq> []"
  shows "read_dump (Inr (diag_msgs ds) # rs) = (case read_dump rs of (ds', e) \<Rightarrow> (ds @ ds', e))"
proof -
  have "parse_messages (diag_msgs ds) (length (diag_msgs ds)) = ([], More)"
    by (subst parse_messages.simps) simp
  with parse_diag_msgs [OF assms(1), of "[]" "[]"] have "parse_messages (diag_msgs ds) 0 = (ds, More)" by simp
  moreover have "diag_msgs ds \<noteq> []"
    using assms(2) by (cases ds) (auto simp: diag_msgs_def)
  ultimately show ?thesis by simp
qed

text \<open>
  C16 (\<open>discovery.py\<close>, \<open>_nldiag_dump\<close>). A dump is read back as it was sent: for any
  sockets, however the kernel spreads them over datagrams, the dump yields exactly these
  sockets in this order, with ports, addresses, inode and queue length, and ends
  without an exception.
\<close>

theorem dump_roundtrip:
  assumes "list_all (\<lambda>ds. ds \<noteq> [] \<and> list_all diag_ok ds) chunks" and "list_all diag_ok rest"
  shows "read_dump (map (\<lambda>ds. Inr (diag_msgs ds)) chunks @ [Inr (diag_msgs rest @ done_msg)]) =
    (concat chunks @ rest, None)"
  using assms(1)
proof (induction chunks)
  case Nil
  have "parse_messages (diag_msgs rest @ done_msg) 0 = (rest, Done)"
    using parse_diag_msgs [OF assms(2), of "[]" done_msg] parse_done [of "diag_msgs rest"] by simp
  moreover have "done_msg \<noteq> []" by (simp add: done_msg_def)
  ultimately show ?case by simp
next
  case (Cons ds chunks)
  then show ?case by (simp add: read_dump_chunk del: read_dump.simps)
qed

theorem dump_roundtrip_witness:
  "let s = \<lparr>dg_sport = 22, dg_dport = 0, dg_src = replicate 16 0, dg_dst = replicate 16 0, dg_inode = 7, dg_rqueue = 0\<rparr>
   in read_dump [Inr (diag_msgs [s]), Inr (diag_msgs [s, s] @ done_msg)] = ([s, s, s], None)"
  unfolding Let_def
  using dump_roundtrip [of "[[\<lparr>dg_sport = 22, dg_dport = 0, dg_src = replicate 16 0, dg_dst = replicate 16 0,
      dg_inode = 7, dg_rqueue = 0\<rparr>]]" "[\<lparr>dg_sport = 22, dg_dport = 0, dg_src = replicate 16 0,
      dg_dst = replicate 16 0, dg_inode = 7, dg_rqueue = 0\<rparr>, \<lparr>dg_sport = 22, dg_dport = 0,
      dg_src = replicate 16 0, dg_dst = replicate 16 0, dg_inode = 7, dg_rqueue = 0\<rparr>]"]
  by (simp add: diag_ok_def del: read_dump.simps)

section \<open>The observed ports\<close>

lemma rfold_map: "rfold f (map g xs) = rfold (\<lambda>x. f (g x)) xs"
proof (induction xs)
  case (Cons x xs)
  show ?case by (rule ext) (simp add: Cons.IH)
qed (simp add: fun_eq_iff)

lemma rfold_view:
  assumes "\<And>x s s'. f x s = Inr s' \<Longrightarrow> V s' = g x (V s)" and "rfold f xs s = Inr t"
  shows "V t = fold g xs (V s)"
  using assms(2) by (induction xs arbitrary: s) (auto simp: rbind_Inr_conv dest: assms(1))

lemma fold_insert_if: "fold (\<lambda>x S. if P x then insert (f x) S else S) xs S = S \<union> f ` {x \<in> set xs. P x}"
  by (induction xs arbitrary: S) auto

text \<open>The sockets of both families, in the order they are visited.\<close>

definition sockets :: "host \<Rightarrow> int \<Rightarrow> int \<Rightarrow> (int \<times> diag) list" where
  "sockets h proto states =
     concat (map (\<lambda>family. map (Pair family) (fst (nldiag_dump h family proto states))) [AF_INET, AF_INET6])"

definition complete :: "host \<Rightarrow> int \<Rightarrow> int \<Rightarrow> bool" where
  "complete h proto states \<longleftrightarrow> (\<forall>family \<in> {AF_INET, AF_INET6}. snd (nldiag_dump h family proto states) = None)"

lemma for_dump_Inr:
  "for_dump h family proto states body st = Inr t \<longleftrightarrow>
     snd (nldiag_dump h family proto states) = None \<and>
     rfold body (fst (nldiag_dump h family proto states)) st = Inr t"
  by (cases "nldiag_dump h family proto states") (auto simp: for_dump_def rbind_Inr_conv split: option.splits)

lemma both_families_Inr:
  "both_families (\<lambda>family. for_dump h family proto states (body family)) st = Inr t \<longleftrightarrow>
     complete h proto states \<and> rfold (\<lambda>(family, d). body family d) (sockets h proto states) st = Inr t"
  by (auto simp: both_families_def for_dump_Inr rbind_Inr_conv complete_def sockets_def rfold_append rfold_map)

text \<open>A socket that counts: bound to an exposed address, on a port that is not excluded.\<close>

definition exposed :: "host \<Rightarrow> Config \<Rightarrow> int \<times> diag \<Rightarrow> bool" where
  "exposed h c s \<longleftrightarrow> bind_ip_is_exposed h c (addr_str (fst s) (dg_src (snd s)))"

definition counts :: "host \<Rightarrow> Config \<Rightarrow> int \<times> diag \<Rightarrow> bool" where
  "counts h c s \<longleftrightarrow> exposed h c s \<and> dg_sport (snd s) \<notin> DISCOVERY_EXCLUDE_PORTS c"

lemma note_process_view:
  assumes "note_process h inode port upd st = Inr st'" and "\<And>f s. V (upd f s) = V s"
  shows "V st' = V st"
  using assms by (auto simp: note_process_def rbind_Inr_conv Let_def split: if_splits)

lemma tcp_listener_ports:
  assumes "tcp_listener h c family d st = Inr st'"
  shows "ob_tcp st' = (if counts h c (family, d) then insert (dg_sport d) (ob_tcp st) else ob_tcp st)"
    and "ob_established st' = ob_established st" and "ob_udp st' = ob_udp st"
proof -
  have view: "V st' = V (ob_tcp_update (insert (dg_sport d)) st)"
    if "counts h c (family, d)" "\<And>f s. V (ob_tcp_processes_update f s) = V s" for V :: "ObservedState \<Rightarrow> 'v"
    using assms that note_process_view [of h "dg_inode d" "dg_sport d" ob_tcp_processes_update _ st' V]
    by (auto simp: tcp_listener_def counts_def exposed_def Let_def)
  have "\<not> counts h c (family, d) \<Longrightarrow> st' = st"
    using assms by (auto simp: tcp_listener_def counts_def exposed_def Let_def split: if_splits)
  with view [of ob_tcp] view [of ob_established] view [of ob_udp]
  show "ob_tcp st' = (if counts h c (family, d) then insert (dg_sport d) (ob_tcp st) else ob_tcp st)"
    "ob_established st' = ob_established st" "ob_udp st' = ob_udp st"
    by (cases "counts h c (family, d)"; simp)+
qed

lemma tcp_established_flows:
  assumes "tcp_established h c family d st = Inr st'"
  shows "ob_established st' = (if exposed h c (family, d)
      then insert (pack_conntrack_key_raw family (dg_sport d) (dg_dport d) (dg_src d) (dg_dst d)) (ob_established st)
      else ob_established st)"
    and "ob_tcp st' = ob_tcp st" and "ob_udp st' = ob_udp st"
  using assms by (auto simp: tcp_established_def exposed_def split: if_splits)

section \<open>UDP sockets by port\<close>

definition udp_group :: "(int \<times> diag) list \<Rightarrow> int \<Rightarrow> (int \<times> diag) list" where
  "udp_group socks p = filter (\<lambda>s. dg_sport (snd s) = p) socks"

definition summary :: "(int \<times> diag) list \<Rightarrow> udp_info" where
  "summary g = \<lparr>ui_family = fst (hd g), ui_src = dg_src (snd (hd g)), ui_inode = dg_inode (snd (hd g)),
     ui_rqueue = sum_list (map (\<lambda>s. dg_rqueue (snd s)) g), ui_count = int (length g),
     ui_connected_only = list_all (\<lambda>s. dg_dport (snd s) \<noteq> 0) g\<rparr>"

lemma summary_snoc:
  "g \<noteq> [] \<Longrightarrow> summary (g @ [(family, d)]) = (summary g)\<lparr>ui_rqueue := ui_rqueue (summary g) + dg_rqueue d,
     ui_count := ui_count (summary g) + 1, ui_connected_only := ui_connected_only (summary g) \<and> dg_dport d \<noteq> 0\<rparr>"
  by (simp add: summary_def)

text \<open>The dictionary the loop builds is the summary of every port's sockets.\<close>

lemma udp_sockets_summary:
  assumes "rfold (\<lambda>(family, d). udp_socket family d) socks [] = Inr agg"
  shows "dict_ok agg" and "dict_get agg = (\<lambda>p. if p = 0 \<or> udp_group socks p = [] then None
      else Some (summary (udp_group socks p)))"
proof -
  have "dict_ok agg \<and> dict_get agg = (\<lambda>p. if p = 0 \<or> udp_group socks p = [] then None
      else Some (summary (udp_group socks p)))"
    using assms
  proof (induction socks arbitrary: agg rule: rev_induct)
    case Nil
    then show ?case by (auto simp: udp_group_def)
  next
    case (snoc s socks)
    obtain family d where s: "s = (family, d)" by (cases s)
    from snoc.prems s obtain agg' where agg': "rfold (\<lambda>(family, d). udp_socket family d) socks [] = Inr agg'"
      and step: "udp_socket family d agg' = Inr agg" by (auto simp: rfold_append rbind_Inr_conv)
    note IH = snoc.IH [OF agg']
    have group: "udp_group (socks @ [s]) p = (if p = dg_sport d then udp_group socks p @ [s] else udp_group socks p)" for p
      by (simp add: udp_group_def s)
    show ?case
    proof (cases "dg_sport d = 0")
      case True
      with step have "agg = agg'" by (simp add: udp_socket_def Let_def)
      with IH True group show ?thesis by (auto simp: fun_eq_iff)
    next
      case False
      show ?thesis
      proof (cases "udp_group socks (dg_sport d) = []")
        case True
        with IH False step have "agg = dict_set (dg_sport d) (summary [s]) agg'"
          by (simp add: udp_socket_def Let_def summary_def s)
        with IH False True group show ?thesis by (auto simp: dict_simps fun_eq_iff)
      next
        case ne: False
        with IH False step have "agg = dict_set (dg_sport d) (summary (udp_group socks (dg_sport d) @ [s])) agg'"
          by (simp add: udp_socket_def Let_def summary_snoc [OF ne] s)
        with IH False ne group show ?thesis by (auto simp: dict_simps fun_eq_iff)
      qed
    qed
  qed
  then show "dict_ok agg" and "dict_get agg = (\<lambda>p. if p = 0 \<or> udp_group socks p = [] then None
      else Some (summary (udp_group socks p)))" by simp_all
qed

definition udp_counts :: "host \<Rightarrow> Config \<Rightarrow> int \<Rightarrow> udp_info \<Rightarrow> bool" where
  "udp_counts h c p info \<longleftrightarrow>
     bind_ip_is_exposed h c (addr_str (ui_family info) (ui_src info)) \<and> p \<notin> DISCOVERY_EXCLUDE_PORTS c \<and>
     (ui_connected_only info \<longrightarrow> udp_opts (proc_drops h) p info \<noteq> {})"

lemma udp_port_ports:
  assumes "udp_port h c e st = Inr st'"
  shows "ob_udp st' = (if udp_counts h c (fst e) (snd e) then insert (fst e) (ob_udp st) else ob_udp st)"
    and "ob_tcp st' = ob_tcp st" and "ob_established st' = ob_established st"
proof -
  have view: "V st' = V (ob_udp_update (insert (fst e)) st)"
    if "udp_counts h c (fst e) (snd e)" "\<And>f s. V (ob_udp_processes_update f s) = V s"
      "\<And>f s. V (ob_udp_sock_opts_update f s) = V s" for V :: "ObservedState \<Rightarrow> 'v"
    using assms that note_process_view [of h "ui_inode (snd e)" "fst e" ob_udp_processes_update _ _ V]
    by (auto simp: udp_port_def udp_counts_def Let_def rbind_Inr_conv split: if_splits)
  have "\<not> udp_counts h c (fst e) (snd e) \<Longrightarrow> st' = st"
    using assms by (auto simp: udp_port_def udp_counts_def Let_def split: if_splits)
  with view [of ob_udp] view [of ob_tcp] view [of ob_established]
  show "ob_udp st' = (if udp_counts h c (fst e) (snd e) then insert (fst e) (ob_udp st) else ob_udp st)"
    "ob_tcp st' = ob_tcp st" "ob_established st' = ob_established st"
    by (cases "udp_counts h c (fst e) (snd e)"; simp)+
qed

section \<open>Two hosts\<close>

text \<open>
  On the first, a local resolver has UDP port 53 of the loopback and a name server
  the wildcard address; a TCP server listens on port 80. The second is the first
  without SCTP diagnostics: the kernel answers with ENOENT.
\<close>

definition ex_sock :: "int \<Rightarrow> bytes \<Rightarrow> diag" where
  "ex_sock port addr = \<lparr>dg_sport = port, dg_dport = 0, dg_src = addr @ replicate 12 0, dg_dst = replicate 16 0,
     dg_inode = 0, dg_rqueue = 0\<rparr>"

definition ex_answer :: "bytes \<Rightarrow> (int + bytes) list" where
  "ex_answer req =
     (if req = diag_request AF_INET IPPROTO_TCP SS_LISTEN
      then [Inr (diag_msgs [ex_sock 80 [0, 0, 0, 0], ex_sock 81 [127, 0, 0, 1]]), Inr done_msg]
      else if req = diag_request AF_INET IPPROTO_UDP SS_ALL
      then [Inr (diag_msgs [ex_sock 53 [127, 0, 0, 1], ex_sock 53 [0, 0, 0, 0]] @ done_msg)]
      else [Inr done_msg])"

definition ex_host :: host where
  "ex_host = \<lparr>host_dump = ex_answer, host_procs = [], host_comm = (\<lambda>_. None), host_lines = (\<lambda>_. []),
     host_sockets = None, host_mapped = False\<rparr>"

definition ex_no_sctp :: host where
  "ex_no_sctp = ex_host\<lparr>host_dump := (\<lambda>req.
     if req = diag_request AF_INET IPPROTO_SCTP SS_LISTEN
     then [Inr (netlink_msg NLMSG_ERROR (le_bytes 4 (- 2) @ replicate 16 0))] else ex_answer req)\<rparr>"

section \<open>The whole observation\<close>

lemma sctp_dumps_fails:
  assumes "snd (nldiag_dump h AF_INET IPPROTO_SCTP SS_LISTEN) = Some (DiscoveryErr msg)"
  shows "sctp_dumps h c [AF_INET, AF_INET6] ports = Inl (DiscoveryErr msg)"
  using assms by (cases "nldiag_dump h AF_INET IPPROTO_SCTP SS_LISTEN") (simp add: Let_def)

lemma observed_parts:
  assumes "get_listening_ports_netlink h c = Inr st"
  obtains agg where
    "complete h IPPROTO_TCP SS_LISTEN" "complete h IPPROTO_TCP SS_ESTABLISHED" "complete h IPPROTO_UDP SS_ALL"
    "rfold (\<lambda>(family, d). udp_socket family d) (sockets h IPPROTO_UDP SS_ALL) [] = Inr agg"
    "ob_tcp st = (\<lambda>s. dg_sport (snd s)) ` {s \<in> set (sockets h IPPROTO_TCP SS_LISTEN). counts h c s}"
    "ob_established st = (\<lambda>(family, d). pack_conntrack_key_raw family (dg_sport d) (dg_dport d) (dg_src d) (dg_dst d)) `
       {s \<in> set (sockets h IPPROTO_TCP SS_ESTABLISHED). exposed h c s}"
    "ob_udp st = fst ` {e \<in> set agg. udp_counts h c (fst e) (snd e)}"
    "sctp_dumps h c [AF_INET, AF_INET6] {} = Inr (ob_sctp st)"
proof -
  let ?tcp = "\<lambda>(family, d). tcp_listener h c family d" and ?est = "\<lambda>(family, d). tcp_established h c family d"
  from assms obtain st1 st2 agg st3 ports where
    1: "complete h IPPROTO_TCP SS_LISTEN" "rfold ?tcp (sockets h IPPROTO_TCP SS_LISTEN) ObservedState_init = Inr st1"
    and 2: "complete h IPPROTO_TCP SS_ESTABLISHED" "rfold ?est (sockets h IPPROTO_TCP SS_ESTABLISHED) st1 = Inr st2"
    and agg: "complete h IPPROTO_UDP SS_ALL"
    "rfold (\<lambda>(family, d). udp_socket family d) (sockets h IPPROTO_UDP SS_ALL) [] = Inr agg"
    and 3: "rfold (udp_port h c) agg st2 = Inr st3"
    and sctp: "sctp_dumps h c [AF_INET, AF_INET6] {} = Inr ports" and st: "st = ob_sctp_update (\<lambda>_. ports) st3"
    unfolding get_listening_ports_netlink_def
    by (auto simp: rbind_Inr_conv both_families_Inr simp del: sctp_dumps.simps)
  let ?key = "\<lambda>(family, d). pack_conntrack_key_raw family (dg_sport d) (dg_dport d) (dg_src d) (dg_dst d)"
  have tcp1: "ob_tcp st1 = fold (\<lambda>s S. if counts h c s then insert (dg_sport (snd s)) S else S)
      (sockets h IPPROTO_TCP SS_LISTEN) (ob_tcp ObservedState_init)"
    by (rule rfold_view [OF _ 1(2)]) (auto simp: tcp_listener_ports)
  have est1: "ob_established st1 = fold (\<lambda>s S. S) (sockets h IPPROTO_TCP SS_LISTEN) (ob_established ObservedState_init)"
    by (rule rfold_view [OF _ 1(2)]) (auto dest: tcp_listener_ports)
  have udp1: "ob_udp st1 = fold (\<lambda>s S. S) (sockets h IPPROTO_TCP SS_LISTEN) (ob_udp ObservedState_init)"
    by (rule rfold_view [OF _ 1(2)]) (auto dest: tcp_listener_ports)
  have est2: "ob_established st2 = fold (\<lambda>s S. if exposed h c s then insert (?key s) S else S)
      (sockets h IPPROTO_TCP SS_ESTABLISHED) (ob_established st1)"
    by (rule rfold_view [OF _ 2(2)]) (auto simp: tcp_established_flows)
  have tcp2: "ob_tcp st2 = fold (\<lambda>s S. S) (sockets h IPPROTO_TCP SS_ESTABLISHED) (ob_tcp st1)"
    by (rule rfold_view [OF _ 2(2)]) (auto dest: tcp_established_flows)
  have udp2: "ob_udp st2 = fold (\<lambda>s S. S) (sockets h IPPROTO_TCP SS_ESTABLISHED) (ob_udp st1)"
    by (rule rfold_view [OF _ 2(2)]) (auto dest: tcp_established_flows)
  have udp3: "ob_udp st3 = fold (\<lambda>e S. if udp_counts h c (fst e) (snd e) then insert (fst e) S else S) agg (ob_udp st2)"
    by (rule rfold_view [OF _ 3]) (rule udp_port_ports)
  have tcp3: "ob_tcp st3 = fold (\<lambda>s S. S) agg (ob_tcp st2)"
    by (rule rfold_view [OF _ 3]) (auto dest: udp_port_ports)
  have est3: "ob_established st3 = fold (\<lambda>s S. S) agg (ob_established st2)"
    by (rule rfold_view [OF _ 3]) (auto dest: udp_port_ports)
  have const: "fold (\<lambda>s S. S) xs A = A" for xs :: "'z list" and A :: "'y"
    by (induction xs) simp_all
  show thesis
    by (rule that [OF 1(1) 2(1) agg])
      (simp_all add: st tcp1 est1 udp1 est2 tcp2 udp2 udp3 tcp3 est3 const fold_insert_if ObservedState_init_def sctp
        del: sctp_dumps.simps)
qed

text \<open>
  C17 (\<open>discovery.py\<close>, \<open>_get_listening_ports_netlink\<close>): what an observation says. It is made
  from complete dumps only, each ended by \<open>NLMSG_DONE\<close>. The TCP ports are exactly those of
  the listening sockets bound to an exposed address and not excluded; the flows
  are exactly those of the established sockets bound to an exposed address; and a UDP port
  is reported exactly if it has sockets, the first of them is bound to an exposed
  address, it is not excluded, and some socket is unconnected or the port shows
  signs of a server.
\<close>

theorem observation_spec:
  assumes "get_listening_ports_netlink h c = Inr st"
  shows "complete h IPPROTO_TCP SS_LISTEN \<and> complete h IPPROTO_TCP SS_ESTABLISHED \<and> complete h IPPROTO_UDP SS_ALL \<and>
    ob_tcp st = (\<lambda>s. dg_sport (snd s)) ` {s \<in> set (sockets h IPPROTO_TCP SS_LISTEN). counts h c s} \<and>
    ob_established st = (\<lambda>(family, d). pack_conntrack_key_raw family (dg_sport d) (dg_dport d) (dg_src d) (dg_dst d)) `
       {s \<in> set (sockets h IPPROTO_TCP SS_ESTABLISHED). exposed h c s} \<and>
    ob_udp st = {p. p \<noteq> 0 \<and> udp_group (sockets h IPPROTO_UDP SS_ALL) p \<noteq> [] \<and>
       udp_counts h c p (summary (udp_group (sockets h IPPROTO_UDP SS_ALL) p))}"
proof (rule observed_parts [OF assms])
  fix agg
  assume parts: "complete h IPPROTO_TCP SS_LISTEN" "complete h IPPROTO_TCP SS_ESTABLISHED" "complete h IPPROTO_UDP SS_ALL"
    and agg: "rfold (\<lambda>(family, d). udp_socket family d) (sockets h IPPROTO_UDP SS_ALL) [] = Inr agg"
    and st: "ob_tcp st = (\<lambda>s. dg_sport (snd s)) ` {s \<in> set (sockets h IPPROTO_TCP SS_LISTEN). counts h c s}"
    "ob_established st = (\<lambda>(family, d). pack_conntrack_key_raw family (dg_sport d) (dg_dport d) (dg_src d) (dg_dst d)) `
       {s \<in> set (sockets h IPPROTO_TCP SS_ESTABLISHED). exposed h c s}"
    "ob_udp st = fst ` {e \<in> set agg. udp_counts h c (fst e) (snd e)}"
  note sum = udp_sockets_summary [OF agg]
  have mem: "(p, info) \<in> set agg \<longleftrightarrow> dict_get agg p = Some info" for p info
    using sum(1) by (auto simp: dict_ok_def)
  have "ob_udp st = {p. \<exists>info. (p, info) \<in> set agg \<and> udp_counts h c p info}"
    using st(3) by force
  also have "\<dots> = {p. p \<noteq> 0 \<and> udp_group (sockets h IPPROTO_UDP SS_ALL) p \<noteq> [] \<and>
       udp_counts h c p (summary (udp_group (sockets h IPPROTO_UDP SS_ALL) p))}"
    unfolding mem sum(2) by auto
  finally show ?thesis using parts st by simp
qed

theorem observation_spec_witness:
  "\<exists>st. get_listening_ports_netlink ex_host (Config_init [] [] []) = Inr st \<and> ob_tcp st = {80}"
proof -
  let ?c = "Config_init [] [] []"
  obtain st where st: "get_listening_ports_netlink ex_host ?c = Inr st"
  proof (cases "get_listening_ports_netlink ex_host ?c")
    case (Inl e)
    moreover have "isl (get_listening_ports_netlink ex_host ?c) = False" by code_simp
    ultimately show ?thesis by simp
  qed blast
  have "(\<lambda>s. dg_sport (snd s)) ` {s \<in> set (sockets ex_host IPPROTO_TCP SS_LISTEN). counts ex_host ?c s} = {80}"
    by code_simp
  with observation_spec [OF st] st show ?thesis by auto
qed

text \<open>
  \<open>discovery.py\<close>, the UDP part: only the first socket's address counts. A UDP
  port whose first listed socket is bound to an address that is not exposed, say a local resolver
  on the loopback, is not reported, whatever its other sockets are bound to, so a server
  on the wildcard address of the same port stays closed.
\<close>

theorem udp_first_socket_hides:
  assumes "get_listening_ports_netlink h c = Inr st"
    and "udp_group (sockets h IPPROTO_UDP SS_ALL) p = s # others" and "\<not> exposed h c s"
  shows "p \<notin> ob_udp st"
proof (rule observed_parts [OF assms(1)])
  fix agg
  assume agg: "rfold (\<lambda>(family, d). udp_socket family d) (sockets h IPPROTO_UDP SS_ALL) [] = Inr agg"
    and st: "ob_udp st = fst ` {e \<in> set agg. udp_counts h c (fst e) (snd e)}"
  note sum = udp_sockets_summary [OF agg]
  have info: "info = summary (s # others)" if "(p, info) \<in> set agg" for info
    using that sum assms(2) by (auto simp: dict_ok_def split: if_splits dest!: map_of_is_SomeI)
  have "\<not> udp_counts h c p info" if "(p, info) \<in> set agg" for info
    using assms(3) unfolding info [OF that] by (simp add: udp_counts_def summary_def exposed_def)
  with st show ?thesis by force
qed

theorem udp_first_socket_hides_witness:
  "\<exists>st. get_listening_ports_netlink ex_host (Config_init [] [] []) = Inr st \<and> 53 \<notin> ob_udp st \<and>
     (AF_INET, ex_sock 53 [0, 0, 0, 0]) \<in> set (sockets ex_host IPPROTO_UDP SS_ALL) \<and>
     exposed ex_host (Config_init [] [] []) (AF_INET, ex_sock 53 [0, 0, 0, 0])"
proof -
  let ?c = "Config_init [] [] []"
  obtain st where st: "get_listening_ports_netlink ex_host ?c = Inr st"
  proof (cases "get_listening_ports_netlink ex_host ?c")
    case (Inl e)
    moreover have "isl (get_listening_ports_netlink ex_host ?c) = False" by code_simp
    ultimately show ?thesis by simp
  qed blast
  have "udp_group (sockets ex_host IPPROTO_UDP SS_ALL) 53 =
      [(AF_INET, ex_sock 53 [127, 0, 0, 1]), (AF_INET, ex_sock 53 [0, 0, 0, 0])]"
    "\<not> exposed ex_host ?c (AF_INET, ex_sock 53 [127, 0, 0, 1])"
    "(AF_INET, ex_sock 53 [0, 0, 0, 0]) \<in> set (sockets ex_host IPPROTO_UDP SS_ALL)"
    "exposed ex_host ?c (AF_INET, ex_sock 53 [0, 0, 0, 0])" by code_simp+
  with udp_first_socket_hides [OF st] st show ?thesis by blast
qed

text \<open>
  \<open>discovery.py\<close>, the SCTP part: a kernel that answers the SCTP dump with an error
  message, as one without SCTP diagnostics does, makes the whole observation fail. The
  surrounding \<open>except OSError\<close> does not catch the \<open>DiscoveryError\<close>.
\<close>

theorem sctp_error_aborts_discovery:
  assumes "snd (nldiag_dump h AF_INET IPPROTO_SCTP SS_LISTEN) = Some (DiscoveryErr msg)"
  shows "get_listening_ports_netlink h c \<noteq> Inr st"
proof
  assume "get_listening_ports_netlink h c = Inr st"
  then show False
    by (rule observed_parts) (use sctp_dumps_fails [OF assms] in simp)
qed

theorem sctp_error_aborts_discovery_witness:
  "get_listening_ports_netlink ex_no_sctp (Config_init [] [] []) \<noteq> Inr ObservedState_init \<and>
   complete ex_no_sctp IPPROTO_TCP SS_LISTEN \<and> complete ex_no_sctp IPPROTO_UDP SS_ALL"
proof -
  have "snd (nldiag_dump ex_no_sctp AF_INET IPPROTO_SCTP SS_LISTEN) =
      Some (DiscoveryErr ''SOCK_DIAG dump failed with errno 2'')"
    "complete ex_no_sctp IPPROTO_TCP SS_LISTEN" "complete ex_no_sctp IPPROTO_UDP SS_ALL" by code_simp+
  with sctp_error_aborts_discovery show ?thesis by blast
qed

end
