(* ===== verification/NftablesProps.thy ===== *)
theory NftablesProps
  imports Nftables
begin

text \<open>
  What the \<open>nftables\<close> backend does: the elements of the trusted set mean the same as the
  configured networks, a reconcile installs exactly the rendered desired state or changes
  nothing, the signature decides, and what was rendered is read back.
\<close>

section \<open>The trusted networks\<close>

lemma ipv4_network_of_str:
  assumes "0 \<le> i" "i < 2 ^ 32" "p \<le> 32" "mask_addr 32 p i = i"
  shows "ipv4_network (ipv4_network_str (i, p)) = Some (i, p)"
proof -
  have "str_split (CHR ''/'') (ipv4_network_str (i, p)) = [ipv4_str i, str_of_int (int p)]"
    using assms(1) ipv4_str_chars [OF assms(1)] no_sep_str_of_int [of "int p"]
    by (simp add: ipv4_network_str_def str_split_append str_split_no_sep)
  moreover have "ipv4_prefix (str_of_int (int p)) = Some p"
    using assms(3) by (simp add: ipv4_prefix_def prefix_of_digits_str)
  ultimately show ?thesis
    using assms ipv4_of_str_str [OF assms(1,2)] by (simp add: ipv4_network_def)
qed

lemma str_split1_fst: "set (fst (str_split1 c s)) \<subseteq> set s"
  by (induction s) (auto split: prod.splits if_splits)

lemma ipv6_int_colon: "CHR '':'' \<notin> set s \<Longrightarrow> ipv6_int_of_str s = None"
  by (simp add: ipv6_int_of_str_def ipv6_parts_def str_split_no_sep)

lemma ipv6_of_str_colon:
  assumes "CHR '':'' \<notin> set s"
  shows "ipv6_of_str s = None"
proof -
  have "CHR '':'' \<notin> set (fst (str_split1 (CHR ''%'') s))" using assms str_split1_fst by fastforce
  then show ?thesis
    by (auto simp: ipv6_of_str_def ipv6_int_colon split: prod.splits option.splits)
qed

lemma str_split_parts: "t \<in> set (str_split c s) \<Longrightarrow> set t \<subseteq> set s"
proof (induction s arbitrary: t)
  case (Cons x s)
  then show ?case by (cases "str_split c s") (fastforce split: if_splits)+
qed simp

lemma list_all2_sets:
  "list_all2 P xs ys \<Longrightarrow> (\<forall>x \<in> set xs. \<exists>y \<in> set ys. P x y) \<and> (\<forall>y \<in> set ys. \<exists>x \<in> set xs. P x y)"
  by (induction rule: list_all2_induct) auto

lemma ipv6_network_colon:
  assumes "CHR '':'' \<notin> set s"
  shows "ipv6_network s = None"
proof -
  have "ipv6_of_str t = None" if "t \<in> set (str_split (CHR ''/'') s)" for t
    using that assms str_split_parts by (intro ipv6_of_str_colon) blast
  then show ?thesis by (auto simp: ipv6_network_def split: list.splits)
qed

text \<open>The IPv4 addresses that one of the texts names.\<close>

definition v4_addresses :: "string set \<Rightarrow> int set" where
  "v4_addresses cidrs = {i. \<exists>s \<in> cidrs. \<exists>n p. ipv4_network s = Some (n, p) \<and> mask_addr 32 p i = n}"

lemma strict_network_v4:
  assumes "strict_network s = Inr x" "CHR '':'' \<notin> set s"
  obtains i p where "x = (False, ((i, []), p))" "ipv4_network s = Some (i, p)"
  using assms by (auto simp: strict_network_def ipv6_network_colon Let_def split: option.splits if_splits)

lemma ipv4_network_ok:
  assumes "ipv4_network s = Some (i, p)"
  shows "net_ok 32 ((i, []), p)" and "0 \<le> i" and "broadcast 32 ((i, []), p) < 2 ^ 32"
proof -
  have r: "0 \<le> i" "i < 2 ^ 32" "p \<le> 32" "mask_addr 32 p i = i" using ipv4_network_range [OF assms] by auto
  have d: "2 ^ (32 - p) dvd i" using r(4) by (simp add: mask_addr_def dvd_eq_mod_eq_0)
  then show "net_ok 32 ((i, []), p)" using r by (simp add: net_ok_def net_addr_def)
  show "0 \<le> i" by fact
  have "(2 :: int) ^ (32 - p) dvd 2 ^ 32" by (intro le_imp_power_dvd) simp
  with d have "2 ^ (32 - p) dvd 2 ^ 32 - i" by (rule dvd_diff [rotated])
  then have "2 ^ (32 - p) \<le> 2 ^ 32 - i" using r(2) zdvd_imp_le by fastforce
  then show "broadcast 32 ((i, []), p) < 2 ^ 32" by (simp add: broadcast_def net_addr_def)
qed

lemma v4_addresses_cover:
  assumes "\<And>s. s \<in> set ss \<Longrightarrow> \<exists>n \<in> set ns. net_ok 32 n \<and> ipv4_network s = Some (net_addr n, snd n)"
    and "\<And>n. n \<in> set ns \<Longrightarrow> \<exists>s \<in> set ss. net_ok 32 n \<and> ipv4_network s = Some (net_addr n, snd n)"
  shows "v4_addresses (set ss) = cover 32 (set ns)"
  using assms unfolding v4_addresses_def cover_def by (fastforce simp: mem_addrs_iff)

lemma collapse_cidrs_v4:
  assumes "collapse_cidrs cidrs = Inr out" "\<forall>s \<in> set cidrs. CHR '':'' \<notin> set s"
  obtains ns where "out = map (\<lambda>n. ipv4_network_str (net_addr n, snd n)) (collapse_addresses 32 ns)"
    "list_all2 (\<lambda>s n. net_ok 32 n \<and> ipv4_network s = Some (net_addr n, snd n)) cidrs ns"
proof -
  obtain xs where xs: "list_all2 (\<lambda>s x. strict_network s = Inr x) cidrs xs"
    and out: "out = map (\<lambda>n. ipv4_network_str (net_addr n, snd n))
            (collapse_addresses 32 (map snd (filter (\<lambda>n. \<not> fst n) xs))) @
          map ipv6_network_str (collapse_addresses 128 (map snd (filter fst xs)))"
    using assms(1) by (auto simp: collapse_cidrs_def rbind_Inr_conv rmap_Inr_iff)
  have x: "list_all2 (\<lambda>s x. \<not> fst x \<and> net_ok 32 (snd x) \<and> ipv4_network s = Some (net_addr (snd x), snd (snd x))) cidrs xs"
    using xs
  proof (rule list.rel_mono_strong)
    fix s x assume "s \<in> set cidrs" "strict_network s = Inr x"
    then show "\<not> fst x \<and> net_ok 32 (snd x) \<and> ipv4_network s = Some (net_addr (snd x), snd (snd x))"
      using assms(2) ipv4_network_ok(1) by (auto simp: net_addr_def elim!: strict_network_v4)
  qed
  then have "\<forall>x \<in> set xs. \<not> fst x" by (auto dest: list_all2_sets)
  then have "filter fst xs = []" "filter (\<lambda>n. \<not> fst n) xs = xs" by (auto simp: filter_empty_conv)
  moreover have "collapse_addresses 128 [] = []" by code_simp
  moreover have "list_all2 (\<lambda>s n. net_ok 32 n \<and> ipv4_network s = Some (net_addr n, snd n)) cidrs (map snd xs)"
    using x by (auto simp: list_all2_conv_all_nth)
  ultimately show ?thesis using that [of "map snd xs"] out by simp
qed

text \<open>
  C20 (\<open>nftables.py\<close>, \<open>_collapse_cidrs\<close>): the elements of the trusted set match exactly the
  IPv4 addresses the configured networks match, and no two of them overlap, which an
  interval set of \<open>nft\<close> requires.
\<close>

theorem collapse_cidrs_equivalent:
  assumes "collapse_cidrs cidrs = Inr out" and "\<forall>s \<in> set cidrs. CHR '':'' \<notin> set s"
  shows "v4_addresses (set out) = v4_addresses (set cidrs) \<and>
    sorted_wrt (\<lambda>s t. v4_addresses {s} \<inter> v4_addresses {t} = {}) out"
proof -
  let ?str = "\<lambda>n. ipv4_network_str (net_addr n, snd n)"
  from assms obtain ns where out: "out = map ?str (collapse_addresses 32 ns)"
    and ns: "list_all2 (\<lambda>s n. net_ok 32 n \<and> ipv4_network s = Some (net_addr n, snd n)) cidrs ns"
    by (rule collapse_cidrs_v4)
  let ?out = "collapse_addresses 32 ns"
  have cidrs: "v4_addresses (set cidrs) = cover 32 (set ns)"
    by (rule v4_addresses_cover) (use list_all2_sets [OF ns] in blast)+
  have ok: "list_all (net_ok 32) ns" using ns by (auto simp: list_all2_conv_all_nth list_all_length)
  note c = collapse_addresses_cover [OF ok]
  have range: "0 \<le> i \<and> i < 2 ^ 32" if "i \<in> cover 32 (set ns)" for i
  proof -
    from that obtain n s where n: "i \<in> addrs 32 n" "ipv4_network s = Some (net_addr n, snd n)"
      using list_all2_sets [OF ns] unfolding cover_def by blast
    from ipv4_network_ok(2,3) [OF n(2)] n(1) show ?thesis by (auto simp: addrs_def broadcast_def net_addr_def)
  qed
  have reread: "net_ok 32 n \<and> ipv4_network (?str n) = Some (net_addr n, snd n)" if n: "n \<in> set ?out" for n
  proof -
    have okn: "net_ok 32 n" using c(1) n by (auto simp: list_all_iff)
    have "net_addr n \<in> addrs 32 n" by (simp add: addrs_def broadcast_def)
    then have "net_addr n \<in> cover 32 (set ns)" using c(3) n by (auto simp: cover_def)
    from range [OF this] okn show ?thesis
      using ipv4_network_of_str [of "net_addr n" "snd n"] by (auto simp: net_ok_def mask_addr_def)
  qed
  have "v4_addresses (set out) = cover 32 (set ?out)"
    unfolding out using reread by (intro v4_addresses_cover) auto
  have single: "v4_addresses {?str n} = addrs 32 n" if "n \<in> set ?out" for n
    using reread [OF that] by (auto simp: v4_addresses_def mem_addrs_iff)
  from \<open>v4_addresses (set out) = cover 32 (set ?out)\<close> cidrs c(3)
  have "v4_addresses (set out) = v4_addresses (set cidrs)" by simp
  moreover have "sorted_wrt (\<lambda>s t. v4_addresses {s} \<inter> v4_addresses {t} = {}) out"
    unfolding out sorted_wrt_map using c(2) [unfolded apart_def]
    by (rule sorted_wrt_mono_rel [rotated]) (simp add: single, auto simp: addrs_def)
  ultimately show ?thesis ..
qed

theorem collapse_cidrs_equivalent_witness:
  "\<exists>out. collapse_cidrs [''10.0.0.0/25'', ''10.0.0.128/25'', ''10.0.0.7/32'', ''1.1.1.1/32''] = Inr out \<and>
     out = [''1.1.1.1/32'', ''10.0.0.0/24''] \<and>
     v4_addresses (set out) =
       v4_addresses (set [''10.0.0.0/25'', ''10.0.0.128/25'', ''10.0.0.7/32'', ''1.1.1.1/32''])"
proof -
  have c: "collapse_cidrs [''10.0.0.0/25'', ''10.0.0.128/25'', ''10.0.0.7/32'', ''1.1.1.1/32''] =
    Inr [''1.1.1.1/32'', ''10.0.0.0/24'']" by code_simp
  show ?thesis using collapse_cidrs_equivalent [OF c] c by auto
qed

section \<open>The signature\<close>

definition acl_finite :: "DesiredState \<Rightarrow> bool" where
  "acl_finite d \<longleftrightarrow> (\<forall>e \<in> set (ds_acl_rules d). finite (snd e))"

text \<open>\<open>sorted\<close> returns the elements it was given.\<close>

definition sorts :: "(acl_table \<Rightarrow> acl_table res) \<Rightarrow> bool" where
  "sorts order \<longleftrightarrow> (\<forall>t r. order t = Inr r \<longrightarrow> set r = set t)"

lemma acl_sorted_set: "sorts order \<Longrightarrow> acl_sorted order t = Inr r \<Longrightarrow> set r = set t"
  by (auto simp: acl_sorted_def sorts_def split: if_splits)

lemma limits_eqI:
  assumes "sort_key fst d = sort_key fst e" "dict_ok d" "dict_ok e"
  shows "dict_get_or d k v = dict_get_or e k v"
proof -
  have "set d = set e" by (metis assms(1) set_sort)
  then have "map_of d = map_of e" using assms(2,3) by (simp add: dict_ok_def map_of_inject_set)
  then show ?thesis by (simp add: dict_get_or_def)
qed

definition flat_rule :: "acl_key \<times> int set \<Rightarrow> pyval \<times> string \<times> int list" where
  "flat_rule e = (fst (fst e), snd (fst e), sorted_list_of_set (snd e))"

lemma rendered_acl_eqI:
  assumes "map flat_rule r = map flat_rule r'" "\<forall>e \<in> set r \<union> set r'. finite (snd e)"
  shows "map (acl_rule_line proto family)
      (filter (\<lambda>((p, cidr), ports). p = VStr proto \<and> (CHR '':'' \<in> set cidr) = (family = 6) \<and> ports \<noteq> {}) r) =
    map (acl_rule_line proto family)
      (filter (\<lambda>((p, cidr), ports). p = VStr proto \<and> (CHR '':'' \<in> set cidr) = (family = 6) \<and> ports \<noteq> {}) r')"
proof -
  have "list_all2 (\<lambda>e e'. flat_rule e = flat_rule e' \<and> finite (snd e) \<and> finite (snd e')) r r'"
    using assms by (auto simp: list_all2_conv_all_nth list_eq_iff_nth_eq)
  then show ?thesis
  proof (induction rule: list_all2_induct)
    case (Cons e r e' r')
    then have "fst e = fst e'" "snd e = snd e'"
      by (auto simp: flat_rule_def prod_eq_iff dest: sorted_list_of_set_inject)
    then have "e = e'" by (rule prod_eqI)
    with Cons.IH show ?case by simp
  qed simp
qed

lemma signature_acl_rules:
  assumes "policy_signature order c d = Inr sg" "policy_signature order c' d' = Inr sg"
    "sorts order" "acl_finite d" "acl_finite d'"
  shows "acl_rules order d proto family = acl_rules order d' proto family"
proof -
  obtain r where r: "acl_sorted order (ds_acl_rules d) = Inr r" "sg_acl_rules sg = map flat_rule r"
    using assms(1) by (auto simp: policy_signature_def rbind_Inr_conv flat_rule_def split_beta)
  obtain r' where r': "acl_sorted order (ds_acl_rules d') = Inr r'" "sg_acl_rules sg = map flat_rule r'"
    using assms(2) by (auto simp: policy_signature_def rbind_Inr_conv flat_rule_def split_beta)
  have "\<forall>e \<in> set r \<union> set r'. finite (snd e)"
    using assms acl_sorted_set [OF assms(3) r(1)] acl_sorted_set [OF assms(3) r'(1)] by (auto simp: acl_finite_def)
  then show ?thesis
    using rendered_acl_eqI [of r r' proto family] r r' by (simp add: acl_rules_def)
qed

text \<open>The settings the rules read that the signature does not have.\<close>

definition icmp_settings :: "Config \<Rightarrow> pyfloat \<times> int" where
  "icmp_settings c = (XDP_ICMP_RATE_PPS (xdp_runtime c), XDP_ICMP_BURST_PACKETS (xdp_runtime c))"

lemmas signature_parts = policy_signature_def rbind_Inr_conv

lemma signature_same_table:
  assumes sg: "policy_signature order c d = Inr sg" "policy_signature order c' d' = Inr sg"
    and ok: "desired_ok d" "desired_ok d'" "sorts order" "acl_finite d" "acl_finite d'"
    and icmp: "icmp_settings c = icmp_settings c'"
  shows "render_ruleset order c d replace = render_ruleset order c' d' replace"
proof -
  have cfg: "NFT_FAMILY c = NFT_FAMILY c'" "NFT_TABLE c = NFT_TABLE c'" "SIT4_ENDPOINTS c = SIT4_ENDPOINTS c'"
    "SLOT_DEFAULT_ACTION c = SLOT_DEFAULT_ACTION c'" "XDP_ICMP_RATE_PPS (xdp_runtime c) = XDP_ICMP_RATE_PPS (xdp_runtime c')"
    "XDP_ICMP_BURST_PACKETS (xdp_runtime c) = XDP_ICMP_BURST_PACKETS (xdp_runtime c')"
    using sg icmp by (auto simp: signature_parts icmp_settings_def)
  have sets: "ds_tcp_ports d = ds_tcp_ports d'" "ds_udp_ports d = ds_udp_ports d'" "ds_sctp_ports d = ds_sctp_ports d'"
    "ds_trusted_cidrs d = ds_trusted_cidrs d'" "ds_bogon_filter_enabled d = ds_bogon_filter_enabled d'"
    "ds_rate_limit_source_prefix_v4 d = ds_rate_limit_source_prefix_v4 d'"
    "ds_rate_limit_source_prefix_v6 d = ds_rate_limit_source_prefix_v6 d'"
    "ds_udp_global_byte_rate d = ds_udp_global_byte_rate d'"
    using sg by (auto simp: signature_parts)
  have limits: "dict_get_or (ds_tcp_syn_rate_limits d) p 0 = dict_get_or (ds_tcp_syn_rate_limits d') p 0"
    "dict_get_or (ds_tcp_syn_agg_rate_limits d) p 0 = dict_get_or (ds_tcp_syn_agg_rate_limits d') p 0"
    "dict_get_or (ds_tcp_conn_limits d) p 0 = dict_get_or (ds_tcp_conn_limits d') p 0"
    "dict_get_or (ds_tcp_conn_prefix_limits d) p 0 = dict_get_or (ds_tcp_conn_prefix_limits d') p 0"
    "dict_get_or (ds_tcp_conn_port_limits d) p 0 = dict_get_or (ds_tcp_conn_port_limits d') p 0"
    "dict_get_or (ds_udp_rate_limits d) p 0 = dict_get_or (ds_udp_rate_limits d') p 0"
    "dict_get_or (ds_udp_agg_rate_limits d) p 0 = dict_get_or (ds_udp_agg_rate_limits d') p 0" for p
    using sg ok(1,2) by (intro limits_eqI; auto simp: signature_parts desired_ok_def)+
  have flags: "family_flags c = family_flags c'" using cfg by (simp add: family_flags_def)
  have mask: "source_mask d family = source_mask d' family" for family using sets by (simp add: source_mask_def)
  have "tcp_port_rules d = tcp_port_rules d'" "udp_port_rules d = udp_port_rules d'"
    using limits mask by (auto simp: tcp_port_rules_def udp_port_rules_def Let_def fun_eq_iff)
  then have rules: "tcp_policy_rules d = tcp_policy_rules d'" "udp_policy_rules d = udp_policy_rules d'"
    using sets by (auto simp: tcp_policy_rules_def udp_policy_rules_def)
  have acl: "acl_rules order d proto family = acl_rules order d' proto family" for proto family
    using sg ok by (intro signature_acl_rules)
  have tcp: "tcp_rules order c d = tcp_rules order c' d'" using rules acl flags by (simp add: tcp_rules_def)
  have udp: "udp_sctp_rules order c d = udp_sctp_rules order c' d'"
    using rules acl flags sets by (simp add: udp_sctp_rules_def)
  have "tcp_policy_objects d = tcp_policy_objects d'"
    using limits sets by (auto simp: tcp_policy_objects_def Let_def fun_eq_iff)
  then have blocks: "render_blocks c d = render_blocks c' d'"
    using limits sets flags by (simp add: render_blocks_def fun_eq_iff)
  have "icmp_rules c = icmp_rules c'" "last_rules c = last_rules c'" "first_rules c d = first_rules c' d'"
    using cfg flags sets by (simp_all add: icmp_rules_def last_rules_def first_rules_def)
  with tcp udp blocks show ?thesis
    using cfg sets by (simp add: render_ruleset_def render_table_def)
qed

text \<open>
  C19 (\<open>nftables.py\<close>, \<open>_policy_signature\<close> and \<open>_render_ruleset\<close>): the signature stands for the
  script. Two desired states with the same signature are rendered to the same script, if
  the ICMP settings are the same; so skipping a policy whose signature is unchanged skips
  nothing.
\<close>

theorem signature_determines_ruleset:
  assumes "policy_signature order c d = policy_signature order c' d'" and "policy_signature order c d = Inr sg"
    and "desired_ok d" and "desired_ok d'" and "acl_finite d" and "acl_finite d'" and "sorts order"
    and "icmp_settings c = icmp_settings c'"
  shows "render_ruleset order c d replace = render_ruleset order c' d' replace"
  using assms by (intro signature_same_table [of order c d sg c' d']) auto

definition ex_conf :: Config where "ex_conf = Config_init [] [] []"

definition ex_policy :: "(int \<times> int) list \<Rightarrow> DesiredState" where
  "ex_policy limits = DesiredState_init\<lparr>ds_tcp_ports := {22, 80}, ds_tcp_syn_rate_limits := limits,
     ds_acl_rules := [((VStr ''tcp'', ''10.0.0.0/8''), {80, 22})]\<rparr>"

lemma rbind_returns: "\<exists>x. m = Inr x \<Longrightarrow> (\<And>x. \<exists>y. f x = Inr y) \<Longrightarrow> \<exists>y. rbind m f = Inr y"
  by auto

text \<open>A state is rendered unless a network, an ACL protocol or the ICMP rate is malformed.\<close>

lemma render_table_returns:
  assumes "\<not> isl (acl_sorted order (ds_acl_rules d))" "\<not> isl (icmp_rules c)" "ds_trusted_cidrs d = {}"
  obtains tcp udp icmp where "icmp_rules c = Inr icmp"
    "tcp_rules order c d = Inr tcp" "udp_sctp_rules order c d = Inr udp"
    "render_table order c d = Inr (''table '' @ NFT_FAMILY c @ '' '' @ NFT_TABLE c @ '' {'' @ nl @
          str_join (nl @ nl) (render_blocks c d [] []) @ nl @ nl @
          ''    chain input {'' @ nl @
          ''        type filter hook input priority filter; policy accept;'' @ nl @
          str_join nl (first_rules c d @ tcp @ udp @ icmp @ last_rules c) @ nl @
          ''    }'' @ nl @ ''}'' @ nl)"
proof -
  obtain icmp where icmp: "icmp_rules c = Inr icmp" using assms(2) by (cases "icmp_rules c") auto
  have "\<exists>r. acl_rules order d proto family = Inr r" for proto family
    using assms(1) by (cases "acl_sorted order (ds_acl_rules d)") (auto simp: acl_rules_def)
  then have "\<exists>r. when_res b (acl_rules order d proto family) = Inr r" for b proto family
    by (auto simp: when_res_def)
  then have "\<exists>tcp. tcp_rules order c d = Inr tcp" "\<exists>udp. udp_sctp_rules order c d = Inr udp"
    unfolding tcp_rules_def udp_sctp_rules_def by (auto simp only: Let_def split: prod.splits intro!: rbind_returns)
  moreover have "collapse_cidrs [] = Inr []" by code_simp
  ultimately show ?thesis using that icmp assms(3) by (auto simp: render_table_def)
qed

lemma ex_conf_renders:
  obtains table where "render_table (\<lambda>_. Inl TypeErr) ex_conf (ex_policy limits) = Inr table"
proof (rule render_table_returns)
  show "\<not> isl (acl_sorted (\<lambda>_. Inl TypeErr) (ds_acl_rules (ex_policy limits)))"
    by (simp add: ex_policy_def DesiredState_init_def acl_sorted_def is_text_def)
  show "\<not> isl (icmp_rules ex_conf)" by code_simp
qed (simp_all add: ex_policy_def DesiredState_init_def that)

theorem signature_determines_ruleset_witness:
  "\<exists>text. render_ruleset (\<lambda>_. Inl TypeErr) ex_conf (ex_policy [(22, 5), (80, 7)]) True = Inr text \<and>
     render_ruleset (\<lambda>_. Inl TypeErr) ex_conf (ex_policy [(80, 7), (22, 5)]) True = Inr text"
proof -
  let ?o = "\<lambda>_. Inl TypeErr" and ?d = "ex_policy [(22, 5), (80, 7)]" and ?d' = "ex_policy [(80, 7), (22, 5)]"
  have ok: "desired_ok ?d" "desired_ok ?d'" "acl_finite ?d" "acl_finite ?d'" "sorts ?o"
    by (simp_all add: ex_policy_def desired_ok_def acl_finite_def DesiredState_init_def dict_ok_def sorts_def)
  have "policy_signature ?o ex_conf ?d = policy_signature ?o ex_conf ?d'"
    "\<exists>sg. policy_signature ?o ex_conf ?d = Inr sg"
    by (simp_all add: policy_signature_def ex_policy_def DesiredState_init_def acl_sorted_def is_text_def)
  then have "render_ruleset ?o ex_conf ?d True = render_ruleset ?o ex_conf ?d' True"
    using signature_determines_ruleset [OF _ _ ok refl] by blast
  moreover have "\<exists>text. render_ruleset ?o ex_conf ?d True = Inr text"
    unfolding render_ruleset_def by (rule ex_conf_renders [of "[(22, 5), (80, 7)]"]) simp
  ultimately show ?thesis by metis
qed

section \<open>Transactions\<close>

definition delete_line :: "Config \<Rightarrow> string" where
  "delete_line c = ''delete table '' @ NFT_FAMILY c @ '' '' @ NFT_TABLE c @ nl"

text \<open>
  What the backend relies on: \<open>nft -f -\<close> replaces the table if it succeeds and leaves
  it alone if it does not. \<open>installed\<close> is the table the kernel has.
\<close>

definition transactional :: "'k nft \<Rightarrow> Config \<Rightarrow> ('k \<Rightarrow> string option) \<Rightarrow> bool" where
  "transactional N c installed \<longleftrightarrow>
     (\<forall>table k r k'. nft_run N [''-f'', ''-''] (Some (delete_line c @ table)) k = (r, k') \<longrightarrow>
        installed k' = (if \<exists>res. r = Inr res \<and> nr_returncode res = 0 then Some table else installed k))"

lemma transactionalD:
  "transactional N c installed \<Longrightarrow> nft_run N [''-f'', ''-''] (Some (delete_line c @ table)) k = (r, k') \<Longrightarrow>
     installed k' = (if \<exists>res. r = Inr res \<and> nr_returncode res = 0 then Some table else installed k)"
  unfolding transactional_def by blast

lemma install_ruleset_effect:
  assumes "transactional N c installed" "install_ruleset N c d True dry k = (r, k')"
  shows "if r = Inr () \<and> \<not> dry
    then \<exists>table. render_table (nft_acl_order N) c d = Inr table \<and> installed k' = Some table
    else installed k' = installed k \<and> (dry \<longrightarrow> k' = k)"
proof -
  consider (raised) x where "render_table (nft_acl_order N) c d = Inl x"
    | (rendered) table where "render_table (nft_acl_order N) c d = Inr table"
    by (cases "render_table (nft_acl_order N) c d") auto
  then show ?thesis
  proof cases
    case raised
    then show ?thesis using assms(2) by (auto simp: install_ruleset_def render_ruleset_def mbind_def)
  next
    case rendered
    then have "mbind (nft_run N [''-f'', ''-''] (Some (delete_line c @ table))) (\<lambda>result.
        if nr_returncode result \<noteq> 0 then raise_exn RuntimeErr else ret ()) k = (r, k')" if "\<not> dry"
      using assms(2) that by (simp add: install_ruleset_def render_ruleset_def delete_line_def mbind_def)
    moreover have "r = Inr () \<and> k' = k" if dry
      using assms(2) that rendered by (simp add: install_ruleset_def render_ruleset_def mbind_def)
    ultimately show ?thesis
      using rendered
      by (cases dry) (auto simp: mbind_def split: prod.splits sum.splits if_splits
          dest!: transactionalD [OF assms(1)])
  qed
qed

text \<open>
  A remembered signature means that a table is installed that was rendered for a desired state with this signature, in
  some configuration: not always the present one, since configurations are reloaded.
\<close>

definition nft_coherent :: "'k nft \<Rightarrow> ('k \<Rightarrow> string option) \<Rightarrow> NftablesBackend \<times> 'k \<Rightarrow> bool" where
  "nft_coherent N installed s \<longleftrightarrow>
     (\<forall>sg. nb_policy_signature (fst s) = Some sg \<longrightarrow>
        (\<exists>c d table. desired_ok d \<and> acl_finite d \<and> policy_signature (nft_acl_order N) c d = Inr sg \<and>
           render_table (nft_acl_order N) c d = Inr table \<and> installed (snd s) = Some table))"

lemma nft_reconcile_cases:
  assumes "nft_reconcile N c d dry (b, k) = (r, (b', k'))"
  obtains (raised) x where "policy_signature (nft_acl_order N) c d = Inl x" "r = Inl x" "b' = b" "k' = k"
  | (current) sg where "policy_signature (nft_acl_order N) c d = Inr sg" "nb_policy_signature b = Some sg"
      "r = Inr ()" "b' = b" "k' = k"
  | (install) sg where "policy_signature (nft_acl_order N) c d = Inr sg" "nb_policy_signature b \<noteq> Some sg"
      "install_ruleset N c d True dry k = (r, k')"
      "b' = (if r = Inr () \<and> \<not> dry then remember_desired d sg else b)"
  using assms
  by (auto simp: nft_reconcile_def nft_apply_def mbind_def mseq_def obj_def gets_def mlift_def kern_def set_obj_def
      modify_def ret_def split: prod.splits sum.splits if_splits)

lemma render_table_signature:
  assumes "policy_signature order c d = Inr sg" "policy_signature order c' d' = Inr sg"
    "desired_ok d" "desired_ok d'" "acl_finite d" "acl_finite d'" "sorts order" "icmp_settings c = icmp_settings c'"
  shows "render_table order c d = render_table order c' d'"
proof -
  have "render_ruleset order c d False = render_ruleset order c' d' False"
    using assms by (intro signature_same_table) auto
  then show ?thesis
    by (cases "render_table order c d"; cases "render_table order c' d'") (auto simp: render_ruleset_def)
qed

lemma signature_runtime: "policy_signature order (c\<lparr>xdp_runtime := rt\<rparr>) d = policy_signature order c d"
  by (simp add: policy_signature_def)

text \<open>
  C18 (\<open>nftables.py\<close>, \<open>reconcile\<close>): all or nothing, over any series of reconciles and reloads that keep the names of the
  table. With an \<open>nft\<close> whose transactions are atomic, a reconcile that returns leaves a table installed that is
  rendered for the desired state in the present configuration; only the XDP runtime settings, from which the rules take the
  ICMP limits, may be those of an earlier configuration, and then the table was there before and nothing was run. A
  reconcile that raises, and every dry run, leaves the installed table and the backend's caches as they
  were, so the next reconcile tries again. That a remembered signature means an installed table with that
  signature is kept throughout; it holds of a new backend, which remembers none.
\<close>

theorem nft_reconcile_all_or_nothing:
  assumes "transactional N c installed" and "sorts (nft_acl_order N)" and "desired_ok d" and "acl_finite d"
    and "nft_coherent N installed (b, k)" and "nft_reconcile N c d dry (b, k) = (r, (b', k'))"
  shows "nft_coherent N installed (b', k') \<and>
    (if r = Inr () \<and> \<not> dry
     then \<exists>rt table. render_table (nft_acl_order N) (c\<lparr>xdp_runtime := rt\<rparr>) d = Inr table \<and> installed k' = Some table \<and>
       (rt = xdp_runtime c \<or> b' = b \<and> k' = k)
     else b' = b \<and> installed k' = installed k)"
  using assms(6)
proof (cases rule: nft_reconcile_cases)
  case raised
  then show ?thesis using assms(5) by simp
next
  case (current sg)
  then obtain c0 d0 table where old: "desired_ok d0" "acl_finite d0" "policy_signature (nft_acl_order N) c0 d0 = Inr sg"
    "render_table (nft_acl_order N) c0 d0 = Inr table" "installed k = Some table"
    using assms(5) unfolding nft_coherent_def fst_conv snd_conv by blast
  have "render_table (nft_acl_order N) (c\<lparr>xdp_runtime := xdp_runtime c0\<rparr>) d = render_table (nft_acl_order N) c0 d0"
    using current(1) old assms(2-4)
    by (intro render_table_signature [of _ _ _ sg]) (simp_all add: signature_runtime icmp_settings_def)
  with old(4,5) current assms(5) show ?thesis by auto
next
  case (install sg)
  note eff = install_ruleset_effect [OF assms(1) install(3)]
  show ?thesis
  proof (cases "r = Inr () \<and> \<not> dry")
    case True
    then obtain table where t: "render_table (nft_acl_order N) c d = Inr table" "installed k' = Some table"
      using eff by auto
    then have "nft_coherent N installed (b', k')"
      using True install(1,4) assms(3,4) by (auto simp: nft_coherent_def remember_desired_def)
    moreover have "c\<lparr>xdp_runtime := xdp_runtime c\<rparr> = c" by simp
    ultimately show ?thesis using True t by metis
  next
    case False
    then show ?thesis using eff install(4) assms(5) by (auto simp: nft_coherent_def)
  qed
qed

text \<open>A host whose \<open>nft\<close> accepts every script.\<close>

definition ex_nft :: "string option nft" where
  "ex_nft = \<lparr>nft_which = True,
     nft_run = (\<lambda>args input k. (Inr \<lparr>nr_returncode = 0, nr_stdout = [], nr_stderr = []\<rparr>,
       if args = [''-f'', ''-''] then map_option (drop (length (delete_line ex_conf))) input else k)),
     nft_acl_order = (\<lambda>_. Inl TypeErr)\<rparr>"

lemma ex_nft_transactional: "transactional ex_nft ex_conf (\<lambda>k. k)"
  by (auto simp: transactional_def ex_nft_def)

lemma ex_nft_runs:
  obtains b k where "nft_reconcile ex_nft ex_conf (ex_policy []) False (NftablesBackend_empty, None) = (Inr (), (b, k))"
proof -
  obtain table where "render_table (\<lambda>_. Inl TypeErr) ex_conf (ex_policy []) = Inr table" by (rule ex_conf_renders)
  then show ?thesis
    using that
    by (simp add: nft_reconcile_def nft_apply_def mbind_def mseq_def obj_def gets_def mlift_def kern_def set_obj_def
        modify_def ret_def ex_nft_def policy_signature_def ex_policy_def DesiredState_init_def acl_sorted_def
        is_text_def NftablesBackend_empty_def install_ruleset_def render_ruleset_def)
qed

theorem nft_reconcile_all_or_nothing_witness:
  "\<exists>b table. nft_reconcile ex_nft ex_conf (ex_policy []) False (NftablesBackend_empty, None) =
     (Inr (), (b, Some table)) \<and> render_table (nft_acl_order ex_nft) ex_conf (ex_policy []) = Inr table"
proof -
  have ok: "sorts (nft_acl_order ex_nft)" "desired_ok (ex_policy [])" "acl_finite (ex_policy [])"
    by (simp_all add: ex_policy_def desired_ok_def acl_finite_def DesiredState_init_def dict_ok_def sorts_def ex_nft_def)
  have start: "nft_coherent ex_nft (\<lambda>k. k) (NftablesBackend_empty, None)"
    by (simp add: nft_coherent_def NftablesBackend_empty_def)
  show ?thesis
  proof (rule ex_nft_runs)
    fix b k
    assume run: "nft_reconcile ex_nft ex_conf (ex_policy []) False (NftablesBackend_empty, None) = (Inr (), (b, k))"
    from nft_reconcile_all_or_nothing [OF ex_nft_transactional ok start run] obtain rt table where
      "render_table (nft_acl_order ex_nft) (ex_conf\<lparr>xdp_runtime := rt\<rparr>) (ex_policy []) = Inr table" "k = Some table"
      "rt = xdp_runtime ex_conf" by auto
    with run show ?thesis by auto
  qed
qed

text \<open>What a backend remembers is a desired state together with its signature.\<close>

definition nft_remembers :: "'k nft \<Rightarrow> Config \<Rightarrow> NftablesBackend \<Rightarrow> bool" where
  "nft_remembers N c b \<longleftrightarrow>
     (\<forall>sg. nb_policy_signature b = Some sg \<longrightarrow>
        (\<exists>d. policy_signature (nft_acl_order N) c d = Inr sg \<and> b = remember_desired d sg))"

lemma nft_reconciled:
  assumes "nft_reconcile N c d False s = (Inr (), s')" "nft_remembers N c (fst s)"
  obtains sg d0 where "policy_signature (nft_acl_order N) c d = Inr sg"
    "policy_signature (nft_acl_order N) c d0 = Inr sg" "fst s' = remember_desired d0 sg"
proof -
  obtain b k b' k' where s: "s = (b, k)" "s' = (b', k')" by (metis prod.exhaust)
  from assms(1) [unfolded s] show ?thesis
  proof (cases rule: nft_reconcile_cases)
    case (current sg)
    then show ?thesis using assms(2) s that [of sg] by (auto simp: nft_remembers_def)
  qed (use s that in auto)
qed

lemma nft_up_to_date:
  assumes "policy_signature (nft_acl_order N) c d = Inr sg" "nb_policy_signature (fst s) = Some sg"
  shows "nft_reconcile N c d dry s = (Inr (), s)"
  using assms by (simp add: nft_reconcile_def nft_apply_def mbind_def obj_def gets_def)

text \<open>
  \<open>nftables.py\<close>: reconciling twice is reconciling once. After a reconcile that returned, one
  with the same desired state runs no \<open>nft\<close> and changes nothing, and the applied state the
  backend reports has exactly the desired ports and trusted networks.
\<close>

theorem nft_reconcile_idempotent:
  assumes "nft_reconcile N c d False s = (Inr (), s')" and "nft_remembers N c (fst s)"
  shows "nft_reconcile N c d dry s' = (Inr (), s') \<and> nft_remembers N c (fst s') \<and>
    as_tcp_ports (nft_applied_state (fst s')) = ds_tcp_ports d \<and>
    as_udp_ports (nft_applied_state (fst s')) = ds_udp_ports d \<and>
    as_sctp_ports (nft_applied_state (fst s')) = ds_sctp_ports d \<and>
    as_trusted_cidrs (nft_applied_state (fst s')) = ds_trusted_cidrs d"
proof -
  from assms obtain sg d0 where sg: "policy_signature (nft_acl_order N) c d = Inr sg"
    "policy_signature (nft_acl_order N) c d0 = Inr sg" "fst s' = remember_desired d0 sg"
    by (rule nft_reconciled)
  have "nft_reconcile N c d dry s' = (Inr (), s')"
    by (rule nft_up_to_date [OF sg(1)]) (simp add: sg(3) remember_desired_def)
  moreover have "nft_remembers N c (fst s')"
    using sg(2,3) by (auto simp: nft_remembers_def remember_desired_def)
  moreover have "ds_tcp_ports d0 = ds_tcp_ports d" "ds_udp_ports d0 = ds_udp_ports d"
    "ds_sctp_ports d0 = ds_sctp_ports d" "ds_trusted_cidrs d0 = ds_trusted_cidrs d"
    using sg(1,2) by (auto simp: signature_parts)
  ultimately show ?thesis by (simp add: sg(3) nft_applied_state_def remember_desired_def)
qed

theorem nft_reconcile_idempotent_witness:
  "\<exists>s. nft_reconcile ex_nft ex_conf (ex_policy []) False (NftablesBackend_empty, None) = (Inr (), s) \<and>
     nft_reconcile ex_nft ex_conf (ex_policy []) False s = (Inr (), s) \<and>
     as_tcp_ports (nft_applied_state (fst s)) = {22, 80}"
proof (rule ex_nft_runs)
  fix b k
  assume run: "nft_reconcile ex_nft ex_conf (ex_policy []) False (NftablesBackend_empty, None) = (Inr (), (b, k))"
  have "nft_remembers ex_nft ex_conf (fst (NftablesBackend_empty, None :: string option))"
    by (simp add: nft_remembers_def NftablesBackend_empty_def)
  from nft_reconcile_idempotent [OF run this] run show ?thesis by (auto simp: ex_policy_def)
qed

text \<open>
  \<open>nftables.py\<close>, \<open>_policy_signature\<close>: the ICMP settings are not part of the signature. When
  only the XDP runtime settings change, of which the rendered rules use \<open>icmp_rate_pps\<close> and
  \<open>icmp_burst_packets\<close>, the reconcile takes the policy for up to date and the old limits
  stay installed.
\<close>

theorem nft_icmp_change_ignored:
  assumes "nft_reconcile N c d False s = (Inr (), s')" and "nft_remembers N c (fst s)"
  shows "nft_reconcile N (c\<lparr>xdp_runtime := r\<rparr>) d dry s' = (Inr (), s')"
proof -
  from assms obtain sg d0 where sg: "policy_signature (nft_acl_order N) c d = Inr sg"
    "policy_signature (nft_acl_order N) c d0 = Inr sg" "fst s' = remember_desired d0 sg"
    by (rule nft_reconciled)
  have "policy_signature (nft_acl_order N) (c\<lparr>xdp_runtime := r\<rparr>) d = Inr sg"
    using sg(1) by (simp add: policy_signature_def)
  then show ?thesis by (rule nft_up_to_date) (simp add: sg(3) remember_desired_def)
qed

lemma length_str_join: "length (str_join sep xs) = sum_list (map length xs) + length sep * (length xs - 1)"
  by (induction sep xs rule: str_join.induct) auto

lemma icmp_burst_rendered:
  "render_table (nft_acl_order ex_nft) (ex_conf\<lparr>xdp_runtime := (xdp_runtime ex_conf)\<lparr>XDP_ICMP_BURST_PACKETS := 7\<rparr>\<rparr>)
     (ex_policy []) \<noteq> render_table (nft_acl_order ex_nft) ex_conf (ex_policy [])"
  (is "render_table ?o ?c ?d \<noteq> _")
proof -
  have acl: "\<not> isl (acl_sorted ?o (ds_acl_rules ?d))" and trust: "ds_trusted_cidrs ?d = {}"
    by (simp_all add: ex_policy_def DesiredState_init_def acl_sorted_def is_text_def)
  have i: "\<not> isl (icmp_rules ?c)" "\<not> isl (icmp_rules ex_conf)" by code_simp+
  have same: "tcp_rules ?o ?c ?d = tcp_rules ?o ex_conf ?d" "udp_sctp_rules ?o ?c ?d = udp_sctp_rules ?o ex_conf ?d"
    "render_blocks ?c ?d = render_blocks ex_conf ?d" "first_rules ?c ?d = first_rules ex_conf ?d"
    "last_rules ?c = last_rules ex_conf" "NFT_FAMILY ?c = NFT_FAMILY ex_conf" "NFT_TABLE ?c = NFT_TABLE ex_conf"
    by (simp_all add: tcp_rules_def udp_sctp_rules_def render_blocks_def first_rules_def last_rules_def family_flags_def fun_eq_iff)
  have shorter: "map_sum id (\<lambda>r. (length r, sum_list (map length r) + 2 * 2)) (icmp_rules ?c) =
    map_sum id (\<lambda>r. (length r, sum_list (map length r))) (icmp_rules ex_conf)" by code_simp
  show ?thesis
    by (rule render_table_returns [OF acl i(1) trust], rule render_table_returns [OF acl i(2) trust])
      (use shorter same in \<open>auto simp: length_str_join dest!: arg_cong [where f = length]\<close>)
qed

theorem nft_icmp_change_ignored_witness:
  "\<exists>s c'. nft_reconcile ex_nft ex_conf (ex_policy []) False (NftablesBackend_empty, None) = (Inr (), s) \<and>
     nft_reconcile ex_nft c' (ex_policy []) False s = (Inr (), s) \<and>
     render_table (nft_acl_order ex_nft) c' (ex_policy []) \<noteq> render_table (nft_acl_order ex_nft) ex_conf (ex_policy [])"
proof (rule ex_nft_runs)
  fix b k
  assume run: "nft_reconcile ex_nft ex_conf (ex_policy []) False (NftablesBackend_empty, None) = (Inr (), (b, k))"
  let ?r = "(xdp_runtime ex_conf)\<lparr>XDP_ICMP_BURST_PACKETS := 7\<rparr>"
  have "nft_remembers ex_nft ex_conf (fst (NftablesBackend_empty, None :: string option))"
    by (simp add: nft_remembers_def NftablesBackend_empty_def)
  note same = nft_icmp_change_ignored [OF run this, of ?r]
  have "render_table (nft_acl_order ex_nft) (ex_conf\<lparr>xdp_runtime := ?r\<rparr>) (ex_policy []) \<noteq>
    render_table (nft_acl_order ex_nft) ex_conf (ex_policy [])"
    by (rule icmp_burst_rendered)
  with same run show ?thesis by blast
qed

end
