(* ===== verification/NftRoundtrip.thy ===== *)
theory NftRoundtrip
  imports NftablesProps
begin

text \<open>
  The two regular expressions of the \<open>nftables\<close> backend on the text the backend renders:
  the port sets of a rendered table are read back as they were.
\<close>

section \<open>Reading the rendered sets back\<close>

lemma re_search_none:
  assumes "\<And>prev s. f prev s \<noteq> None \<Longrightarrow> s \<noteq> [] \<and> hd s = a" "a \<notin> set pre"
  shows "re_search f prev (pre @ rest) = re_search f (if pre = [] then prev else Some (last pre)) rest"
  using assms(2)
proof (induction pre arbitrary: prev)
  case (Cons c pre)
  have "f prev (c # pre @ rest) = None" using assms(1) [of prev "c # pre @ rest"] Cons.prems by fastforce
  then show ?case using Cons by simp
qed simp

lemma match_set_starts: "match_set n prev s \<noteq> None \<Longrightarrow> s \<noteq> [] \<and> hd s = CHR ''s''"
  by (cases s) (auto simp: match_set_def lit_def split: if_splits)

lemma match_elements_starts: "match_elements prev s \<noteq> None \<Longrightarrow> s \<noteq> [] \<and> hd s = CHR ''e''"
  by (cases s) (auto simp: match_elements_def lit_def split: if_splits)

lemma skip_set:
  "CHR ''s'' \<notin> set pre \<Longrightarrow> re_search (match_set n) prev (pre @ rest) =
     re_search (match_set n) (if pre = [] then prev else Some (last pre)) rest"
  using re_search_none [of "match_set n"] match_set_starts by blast

lemma skip_elements:
  "CHR ''e'' \<notin> set pre \<Longrightarrow> re_search match_elements prev (pre @ rest) =
     re_search match_elements (if pre = [] then prev else Some (last pre)) rest"
  using re_search_none [of match_elements] match_elements_starts by blast

definition plain :: "string \<Rightarrow> bool" where
  "plain s \<longleftrightarrow> s \<noteq> [] \<and> (\<forall>c \<in> set s. is_digit c \<or> c = CHR ''-'')"

lemma plain_str_of_int: "plain (str_of_int i)"
  using digits_are_digits digits_nonempty by (auto simp: plain_def str_of_int_def list_all_iff)

lemma set_str_join: "set (str_join sep xs) \<subseteq> \<Union> (set ` set xs) \<union> set sep"
  by (induction sep xs rule: str_join.induct) auto

definition el_text :: "string list \<Rightarrow> string" where
  "el_text es = str_join '', '' es"

lemma el_text_chars:
  assumes "\<forall>e \<in> set es. plain e" "c \<in> set (el_text es)"
  shows "is_digit c \<or> c = CHR ''-'' \<or> c = CHR '','' \<or> c = CHR '' ''"
  using assms set_str_join [of "'', ''" es] by (fastforce simp: el_text_def plain_def)

lemma until_skip:
  assumes "\<And>s. f s \<Longrightarrow> s \<noteq> [] \<and> hd s = a" "a \<notin> set pre"
  shows "until f (pre @ rest) = map_option ((@) pre) (until f rest)"
  using assms(2)
proof (induction pre)
  case (Cons c pre)
  then have "\<not> f (c # pre @ rest)" using assms(1) by fastforce
  with Cons show ?case by (simp add: option.map_comp comp_def)
qed (cases "until f rest"; simp)

lemma closes_starts: "closes_set s \<Longrightarrow> s \<noteq> [] \<and> hd s = CHR 0x0A"
  by (cases s) (auto simp: closes_set_def lit_def nl_def split: if_splits)

lemma brace_starts: "str_prefix ''}'' s \<Longrightarrow> s \<noteq> [] \<and> hd s = CHR ''}''"
  by (cases s) auto

text \<open>The text of a block of ports, and what stands between its braces.\<close>

definition ports_body :: "string list \<Rightarrow> string" where
  "ports_body es = nl @ ''        type inet_service'' @
     (if es = [] then [] else nl @ ''        elements = { '' @ el_text es @ '' }'')"

lemma set_block_ports:
  "set_block name ''inet_service'' es False = ''    set '' @ name @ '' {'' @ ports_body es @ nl @ ''    }''"
  by (simp add: set_block_def ports_body_def el_text_def nl_def)

lemma lstrip_space [simp]: "str_lstrip (CHR '' '' # s) = str_lstrip s"
  by (simp add: str_lstrip_def is_space_def)

lemma lstrip_stop: "\<not> is_space c \<Longrightarrow> str_lstrip (c # s) = c # s"
  by (simp add: str_lstrip_def)

lemma plain_no_newline:
  "\<forall>e \<in> set es. plain e \<Longrightarrow> c \<in> {CHR 0x0A, CHR ''s'', CHR ''e'', CHR ''}''} \<Longrightarrow> c \<notin> set (el_text es)"
  using el_text_chars [of es c] by (auto simp: is_digit_def)

lemma str_prefix_append [simp]: "str_prefix p (p @ s)"
  by (induction p) auto

lemma until_line:
  assumes "CHR 0x0A \<notin> set a" "\<not> str_prefix ''}'' (str_lstrip (a @ r))" "until closes_set r = Some x"
  shows "until closes_set (nl @ a @ r) = Some (nl @ a @ x)"
proof -
  have "\<not> closes_set (nl @ a @ r)" using assms(2) by (simp add: closes_set_def lit_def nl_def)
  moreover have "until closes_set (a @ r) = Some (a @ x)"
    using until_skip [of closes_set, OF closes_starts assms(1), of r] assms(3) by simp
  ultimately show ?thesis by (simp add: nl_def)
qed

lemma until_body:
  assumes "\<forall>e \<in> set es. plain e"
  shows "until closes_set (ports_body es @ nl @ ''    }'' @ rest) = Some (ports_body es)"
proof -
  have stop: "until closes_set (nl @ ''    }'' @ rest) = Some []"
    by (simp add: closes_set_def lit_def nl_def lstrip_stop is_space_def)
  show ?thesis
  proof (cases "es = []")
    case True
    with until_line [OF _ _ stop, of "''        type inet_service''"] show ?thesis
      by (simp add: ports_body_def lstrip_stop is_space_def)
  next
    case False
    let ?e = "''        elements = { '' @ el_text es @ '' }''"
    have "CHR 0x0A \<notin> set ?e" using plain_no_newline [OF assms] by auto
    then have "until closes_set (nl @ ?e @ nl @ ''    }'' @ rest) = Some (nl @ ?e @ [])"
      by (rule until_line [OF _ _ stop]) (simp add: lstrip_stop is_space_def)
    from until_line [OF _ _ this, of "''        type inet_service''"] False show ?thesis
      by (simp add: ports_body_def lstrip_stop is_space_def)
  qed
qed

lemma search_block_hit:
  assumes "\<forall>e \<in> set es. plain e" "name \<noteq> []" "\<forall>c \<in> set name. \<not> is_space c"
  shows "re_search (match_set name) prev (set_block name ''inet_service'' es False @ rest) = Some (ports_body es)"
proof -
  have "match_set name (Some (CHR '' '')) (''set '' @ name @ '' {'' @ ports_body es @ nl @ ''    }'' @ rest) = Some (ports_body es)"
  proof -
    have "str_lstrip (CHR '' '' # name @ x) = name @ x" for x
      using assms(2,3) by (cases name) (auto simp: lstrip_stop)
    moreover have "lit name (name @ x) = Some x" for x by (simp add: lit_def)
    ultimately show ?thesis
      using until_body [OF assms(1), of rest]
      by (simp add: match_set_def is_word_def is_digit_def lit_def lstrip_stop is_space_def)
  qed
  then show ?thesis
    using skip_set [of "''    ''" name prev "''set '' @ name @ '' {'' @ ports_body es @ nl @ ''    }'' @ rest"]
    by (simp add: set_block_ports)
qed

text \<open>Text in which no word begins with an \<open>s\<close>: a search for a set passes over it.\<close>

fun no_s_word :: "char option \<Rightarrow> string \<Rightarrow> bool" where
  "no_s_word prev [] \<longleftrightarrow> True"
| "no_s_word prev (c # s) \<longleftrightarrow>
     (c = CHR ''s'' \<longrightarrow> (case prev of None \<Rightarrow> False | Some p \<Rightarrow> is_word p)) \<and> no_s_word (Some c) s"

fun last_of :: "char option \<Rightarrow> string \<Rightarrow> char option" where
  "last_of prev [] = prev"
| "last_of prev (c # s) = last_of (Some c) s"

lemma last_of_append [simp]: "last_of prev (a @ b) = last_of (last_of prev a) b"
  by (induction a arbitrary: prev) auto

lemma no_s_word_append [simp]: "no_s_word prev (a @ b) \<longleftrightarrow> no_s_word prev a \<and> no_s_word (last_of prev a) b"
  by (induction a arbitrary: prev) auto

lemma no_s_word_plain: "CHR ''s'' \<notin> set a \<Longrightarrow> no_s_word prev a"
  by (induction a arbitrary: prev) auto

lemma match_set_word: "is_word p \<Longrightarrow> match_set n (Some p) s = None"
  by (simp add: match_set_def)

lemma match_set_head: "c \<noteq> CHR ''s'' \<Longrightarrow> match_set n prev (c # s) = None"
  using match_set_starts by fastforce

lemma pass_over:
  "no_s_word prev a \<Longrightarrow> re_search (match_set n) prev (a @ b) = re_search (match_set n) (last_of prev a) b"
proof (induction a arbitrary: prev)
  case (Cons c a)
  have "match_set n prev (c # a @ b) = None"
    using Cons.prems match_set_head match_set_word by (cases "c = CHR ''s''") (auto split: option.splits)
  with Cons show ?case by simp
qed simp

lemma body_no_s: "\<forall>e \<in> set es. plain e \<Longrightarrow> no_s_word (Some (CHR ''{'')) (ports_body es)"
  using plain_no_newline [of es "CHR ''s''"]
  by (auto simp: ports_body_def nl_def is_word_def is_digit_def intro: no_s_word_plain)

lemma search_block_miss:
  assumes "\<forall>e \<in> set es. plain e" "no_s_word (Some (CHR '' '')) m" "m \<noteq> []" "\<forall>c \<in> set m. \<not> is_space c"
    "\<And>x. \<not> str_prefix n (m @ CHR '' '' # x)"
  shows "re_search (match_set n) prev (set_block m ''inet_service'' es False @ rest) =
    re_search (match_set n) (Some (CHR ''}'')) rest"
proof -
  let ?r = "m @ '' {'' @ ports_body es @ nl @ ''    }''"
  have "str_lstrip (CHR '' '' # m @ x) = m @ x" for x
    using assms(3,4) by (cases m) (auto simp: lstrip_stop)
  then have "match_set n (Some (CHR '' '')) (''set '' @ ?r @ rest) = None"
    using assms(5) by (simp add: match_set_def lit_def)
  moreover have "no_s_word (Some (CHR ''s'')) (''et '' @ ?r)"
    using assms(2) body_no_s [OF assms(1)] by (simp add: nl_def)
  moreover have "last_of (Some (CHR ''s'')) (''et '' @ ?r) = Some (CHR ''}'')" by (simp add: nl_def)
  ultimately show ?thesis
    using skip_set [of "''    ''" n prev "''set '' @ ?r @ rest"] pass_over [of "Some (CHR ''s'')" "''et '' @ ?r" n rest]
    by (simp add: set_block_ports)
qed

lemma search_schema_block:
  "n \<in> {NFT_TCP_SET, NFT_UDP_SET, NFT_SCTP_SET} \<Longrightarrow>
     re_search (match_set n) prev (set_block NFT_SCHEMA_MARKER ''mark'' [] False @ rest) =
     re_search (match_set n) (Some (CHR ''}'')) rest"
proof -
  assume n: "n \<in> {NFT_TCP_SET, NFT_UDP_SET, NFT_SCTP_SET}"
  let ?r = "''policy_schema_v2 {'' @ nl @ ''        type mark'' @ nl @ ''    }''"
  have "match_set n (Some (CHR '' '')) (''set '' @ ?r @ rest) = None"
    using n by (auto simp: match_set_def lit_def lstrip_stop is_space_def NFT_TCP_SET_def NFT_UDP_SET_def NFT_SCTP_SET_def)
  moreover have "no_s_word (Some (CHR ''s'')) (''et '' @ ?r)" by (simp add: nl_def is_word_def)
  moreover have "last_of (Some (CHR ''s'')) (''et '' @ ?r) = Some (CHR ''}'')" by (simp add: nl_def)
  ultimately show ?thesis
    using skip_set [of "''    ''" n prev "''set '' @ ?r @ rest"] pass_over [of "Some (CHR ''s'')" "''et '' @ ?r" n rest]
    by (simp add: set_block_def NFT_SCHEMA_MARKER_def)
qed

lemma plain_char:
  assumes "plain e" "c \<in> set e"
  shows "\<not> is_space c" "c \<noteq> CHR '',''"
proof -
  have c: "is_digit c \<or> c = CHR ''-''" using assms by (simp add: plain_def)
  then show "\<not> is_space c" using digit_not_special(2) by (auto simp: is_space_def)
  show "c \<noteq> CHR '',''" using c by (auto simp: is_digit_def)
qed

lemma plain_head:
  assumes "es \<noteq> []" "\<forall>e \<in> set es. plain e"
  shows "el_text es \<noteq> []" "\<not> is_space (hd (el_text es))" "\<not> is_space (last (el_text es))"
proof -
  have "e \<noteq> [] \<and> \<not> is_space (hd e) \<and> \<not> is_space (last e)" if "plain e" for e
    using that plain_char(1) [OF that] by (auto simp: plain_def)
  with assms show "el_text es \<noteq> []" "\<not> is_space (hd (el_text es))" "\<not> is_space (last (el_text es))"
    unfolding el_text_def by (induction "'', ''" es rule: str_join.induct) auto
qed

lemma strip_between:
  assumes "s \<noteq> []" "\<not> is_space (hd s)" "\<not> is_space (last s)"
  shows "str_strip (CHR '' '' # s @ '' '') = s"
proof -
  have "str_lstrip (CHR '' '' # s @ '' '') = s @ '' ''"
    using assms(1,2) by (cases s) (auto simp: lstrip_stop)
  moreover have "str_lstrip (rev (s @ '' '')) = rev s"
    using assms(1,3) by (cases s rule: rev_cases) (auto simp: lstrip_stop)
  ultimately show ?thesis by (simp add: str_strip_def)
qed

lemma split_el_text:
  assumes "es \<noteq> []" "\<forall>e \<in> set es. plain e"
  shows "map str_strip (str_split (CHR '','') (el_text es)) = es"
proof -
  have p: "CHR '','' \<notin> set e" "str_strip e = e" "str_strip (CHR '' '' # e) = e" if "plain e" for e
  proof -
    show "CHR '','' \<notin> set e" using plain_char(2) [OF that] by blast
    show "str_strip e = e" using plain_char(1) [OF that] by (intro str_strip_id) blast
    then show "str_strip (CHR '' '' # e) = e" by (simp add: str_strip_def)
  qed
  have sp: "str_split (CHR '','') (CHR '' '' # s) =
      (CHR '' '' # hd (str_split (CHR '','') s)) # tl (str_split (CHR '','') s)" for s
    by (cases "str_split (CHR '','') s") auto
  show ?thesis
    using assms
  proof (induction es rule: induct_list012)
    case (3 x y zs)
    have e: "el_text (x # y # zs) = x @ CHR '','' # CHR '' '' # el_text (y # zs)" by (simp add: el_text_def)
    obtain h t where ht: "str_split (CHR '','') (el_text (y # zs)) = h # t"
      by (cases "str_split (CHR '','') (el_text (y # zs))") auto
    have IH: "str_strip h = y" "map str_strip t = zs" using 3 ht by auto
    have "str_strip (CHR '' '' # h) = y" using IH(1) by (simp add: str_strip_def)
    then show ?case
      using 3 IH p(1,2) [of x] by (simp add: e str_split_append sp ht del: str_split.simps)
  qed (auto simp: el_text_def str_split_no_sep p)
qed

lemma parse_body:
  assumes "\<forall>e \<in> set es. plain e"
  shows "parse_set_elements (ports_body es) = es"
proof (cases "es = []")
  case True
  then show ?thesis
    by (simp add: parse_set_elements_def ports_body_def nl_def match_elements_def lit_def)
next
  case False
  let ?e = "''elements = { '' @ el_text es @ '' }''"
  have "until (str_prefix ''}'') (CHR '' '' # el_text es @ '' }'') = Some (CHR '' '' # el_text es @ '' '')"
    using until_skip [of "str_prefix ''}''", OF brace_starts, of "CHR '' '' # el_text es @ '' ''" "''}''"]
      plain_no_newline [OF assms, of "CHR ''}''"] by auto
  then have "match_elements prev ?e = Some (CHR '' '' # el_text es @ '' '')" for prev
    by (simp add: match_elements_def lit_def lstrip_stop is_space_def)
  then have "re_search match_elements None (ports_body es) = Some (CHR '' '' # el_text es @ '' '')"
    using False by (simp add: ports_body_def nl_def match_elements_def lit_def)
  moreover have "map (\<lambda>ch. if ch = CHR 0x0A then CHR '' '' else ch) (CHR '' '' # el_text es @ '' '') = CHR '' '' # el_text es @ '' ''"
    using plain_no_newline [OF assms, of "CHR 0x0A"] by (auto intro: map_idI)
  moreover have "\<forall>e \<in> set es. e \<noteq> []" using assms by (auto simp: plain_def)
  ultimately show ?thesis
    using plain_head [OF False assms] split_el_text [OF False assms]
    by (simp add: parse_set_elements_def Let_def strip_between)
qed

lemma named_set_in:
  assumes "no_s_word None pre" "\<forall>e \<in> set tcp \<union> set udp \<union> set sctp. plain e"
    and text_eq: "text = pre @ set_block NFT_SCHEMA_MARKER ''mark'' [] False @ nl @ nl @
    set_block NFT_TCP_SET ''inet_service'' tcp False @ nl @ nl @
    set_block NFT_UDP_SET ''inet_service'' udp False @ nl @ nl @
    set_block NFT_SCTP_SET ''inet_service'' sctp False @ rest"
  shows "parse_named_set_elements text NFT_TCP_SET = tcp"
    and "parse_named_set_elements text NFT_UDP_SET = udp"
    and "parse_named_set_elements text NFT_SCTP_SET = sctp"
proof -
  note names = NFT_TCP_SET_def NFT_UDP_SET_def NFT_SCTP_SET_def
  have gap: "re_search (match_set n) prev (nl @ nl @ x) = re_search (match_set n) (Some (CHR 0x0A)) x" for n prev x
    using skip_set [of "nl @ nl" n prev x] by (simp add: nl_def)
  have start: "re_search (match_set n) None text =
      re_search (match_set n) (Some (CHR 0x0A)) (set_block NFT_TCP_SET ''inet_service'' tcp False @ nl @ nl @
        set_block NFT_UDP_SET ''inet_service'' udp False @ nl @ nl @
        set_block NFT_SCTP_SET ''inet_service'' sctp False @ rest)"
    if "n \<in> {NFT_TCP_SET, NFT_UDP_SET, NFT_SCTP_SET}" for n
    unfolding text_eq pass_over [OF assms(1)] search_schema_block [OF that] gap ..
  have hit: "re_search (match_set n) prev (set_block n ''inet_service'' es False @ x) = Some (ports_body es)"
    if "n \<in> {NFT_TCP_SET, NFT_UDP_SET, NFT_SCTP_SET}" "\<forall>e \<in> set es. plain e" for n prev es x
    by (rule search_block_hit) (use that in \<open>auto simp: names is_space_def\<close>)
  have miss: "re_search (match_set n) prev (set_block m ''inet_service'' es False @ x) =
      re_search (match_set n) (Some (CHR ''}'')) x"
    if "(n, m) \<in> {(NFT_UDP_SET, NFT_TCP_SET), (NFT_SCTP_SET, NFT_TCP_SET), (NFT_SCTP_SET, NFT_UDP_SET)}"
      "\<forall>e \<in> set es. plain e" for n m prev es x
    by (rule search_block_miss) (use that in \<open>auto simp: names is_space_def is_word_def is_digit_def\<close>)
  show "parse_named_set_elements text NFT_TCP_SET = tcp"
    using assms(2) by (simp add: parse_named_set_elements_def start hit parse_body)
  show "parse_named_set_elements text NFT_UDP_SET = udp"
    using assms(2) by (simp add: parse_named_set_elements_def start miss gap hit parse_body)
  show "parse_named_set_elements text NFT_SCTP_SET = sctp"
    using assms(2) by (simp add: parse_named_set_elements_def start miss gap hit parse_body)
qed

lemma ints_of_ports: "finite ports \<Longrightarrow> ints_of (port_list ports) = Inr ports"
proof -
  assume "finite ports"
  have "rmap (\<lambda>item. case int_of_str item of None \<Rightarrow> Inl ValueErr | Some i \<Rightarrow> Inr i) (map str_of_int is) = Inr is" for "is"
    by (simp add: rmap_Inr_iff list_all2_conv_all_nth)
  with \<open>finite ports\<close> show ?thesis by (simp add: ints_of_def port_list_def)
qed

text \<open>
  \<open>nftables.py\<close>, \<open>_render_ruleset\<close> and \<open>_ensure_ruleset\<close>: the ports of a rendered table are
  read back. When a table of this program has to be replaced, the bootstrap policy
  has exactly the TCP, UDP and SCTP ports the table admits, so no listener loses its
  admission on the way.
\<close>

theorem rendered_ports_read_back:
  assumes "render_table order c d = Inr table"
    and "no_s_word None (''table '' @ NFT_FAMILY c @ '' '' @ NFT_TABLE c)"
    and "finite (ds_tcp_ports d)" and "finite (ds_udp_ports d)" and "finite (ds_sctp_ports d)"
  shows "\<exists>boot. bootstrap_state c (Some table) = Inr boot \<and> ds_tcp_ports boot = ds_tcp_ports d \<and>
    ds_udp_ports boot = ds_udp_ports d \<and> ds_sctp_ports boot = ds_sctp_ports d"
proof -
  let ?pre = "''table '' @ NFT_FAMILY c @ '' '' @ NFT_TABLE c @ '' {'' @ nl"
  obtain v4 v6 where flags: "family_flags c = (v4, v6)" by (cases "family_flags c")
  obtain rest where table: "table = ?pre @ set_block NFT_SCHEMA_MARKER ''mark'' [] False @ nl @ nl @
    set_block NFT_TCP_SET ''inet_service'' (port_list (ds_tcp_ports d)) False @ nl @ nl @
    set_block NFT_UDP_SET ''inet_service'' (port_list (ds_udp_ports d)) False @ nl @ nl @
    set_block NFT_SCTP_SET ''inet_service'' (port_list (ds_sctp_ports d)) False @ rest"
    using assms(1) by (auto simp: render_table_def render_blocks_def rbind_Inr_conv flags)
  have pre: "no_s_word None ?pre" using assms(2) by (simp add: nl_def)
  have "plain e" if "e \<in> set (port_list ports)" for e ports
    using that plain_str_of_int by (auto simp: port_list_def)
  then have el: "\<forall>e \<in> set (port_list (ds_tcp_ports d)) \<union> set (port_list (ds_udp_ports d)) \<union>
      set (port_list (ds_sctp_ports d)). plain e" by blast
  note named_set_in [OF pre el table]
  then show ?thesis using assms(3-5) by (simp add: bootstrap_state_def ints_of_ports)
qed

theorem rendered_ports_read_back_witness:
  "\<exists>table boot. render_table (\<lambda>_. Inl TypeErr) ex_conf (ex_policy []) = Inr table \<and>
     bootstrap_state ex_conf (Some table) = Inr boot \<and> ds_tcp_ports boot = {22, 80}"
proof (rule ex_conf_renders)
  fix table assume t: "render_table (\<lambda>_. Inl TypeErr) ex_conf (ex_policy []) = Inr table"
  have "no_s_word None (''table '' @ NFT_FAMILY ex_conf @ '' '' @ NFT_TABLE ex_conf)" by code_simp
  from rendered_ports_read_back [OF t this] t show ?thesis
    by (auto simp: ex_policy_def DesiredState_init_def)
qed

end
