(* ===== verification/XdpSafety.thy ===== *)
theory XdpSafety
  imports XdpBackend BpfMapProps
begin

text \<open>
  What a reconcile of the XDP backend guarantees of the kernel: which ports can
  become reachable and when, what a dry run leaves alone, when a tracked flow is
  dropped, and that a reconcile without failures reaches the desired ports.
\<close>

section \<open>The descriptors of a backend\<close>

definition opt_fds :: "('m \<Rightarrow> int set) \<Rightarrow> 'm option \<Rightarrow> int set" where
  "opt_fds f m = (case m of None \<Rightarrow> {} | Some x \<Rightarrow> f x)"

text \<open>All descriptors but those of the TCP and UDP whitelists, and those two.\<close>

definition other_fds :: "XdpBackend \<Rightarrow> int set" where
  "other_fds b =
     trusted_fds (xb_trusted_map b) \<union> conntrack_fds (xb_conntrack_map b) \<union>
     conntrack_fds (xb_udp_conntrack_map b) \<union>
     opt_fds (\<lambda>m. {pp_fd m}) (xb_tcp_policy_map b) \<union> opt_fds (\<lambda>m. {pp_fd m}) (xb_udp_policy_map b) \<union>
     opt_fds acl_fds (xb_acl_maps b) \<union> opt_fds (\<lambda>m. {rc_fd m}) (xb_runtime_config_map b) \<union>
     opt_fds (\<lambda>m. {gr_fd m}) (xb_global_rl_map b) \<union> opt_fds (\<lambda>m. {am_fd m}) (xb_sctp_map b) \<union>
     opt_fds (\<lambda>m. {si_fd m}) (xb_sit4_map b) \<union>
     opt_fds (\<lambda>m. {ro_fd m}) (xb_syn4_outer b) \<union> opt_fds (\<lambda>m. {ro_fd m}) (xb_syn6_outer b) \<union>
     opt_fds (\<lambda>m. {ro_fd m}) (xb_udprt4_outer b) \<union> opt_fds (\<lambda>m. {ro_fd m}) (xb_udprt6_outer b)"

definition fd_view :: "XdpBackend \<Rightarrow> int set \<times> int \<times> int" where
  "fd_view b = (other_fds b, am_fd (xb_tcp_map b), am_fd (xb_udp_map b))"

text \<open>The whitelists have descriptors of their own among the owned ones.\<close>

definition fds_ok :: "int set \<Rightarrow> XdpBackend \<Rightarrow> bool" where
  "fds_ok owned b \<longleftrightarrow>
     am_fd (xb_tcp_map b) \<in> owned \<and> am_fd (xb_udp_map b) \<in> owned \<and>
     am_fd (xb_tcp_map b) \<noteq> am_fd (xb_udp_map b) \<and>
     am_fd (xb_tcp_map b) \<notin> other_fds b \<and> am_fd (xb_udp_map b) \<notin> other_fds b"

text \<open>Nothing beyond given sets of ports is open in the whitelists.\<close>

definition closed_but ::
  "('k \<Rightarrow> int \<Rightarrow> (bytes, bytes) dict) \<Rightarrow> int set \<times> int \<times> int \<Rightarrow> int set \<Rightarrow> int set \<Rightarrow> XdpBackend \<times> 'k \<Rightarrow> bool" where
  "closed_but entries v A B s \<longleftrightarrow>
     fd_view (fst s) = v \<and> fst (snd v) \<notin> fst v \<and> snd (snd v) \<notin> fst v \<and> fst (snd v) \<noteq> snd (snd v) \<and>
     open_ports (entries (snd s) (fst (snd v))) \<subseteq> A \<and> open_ports (entries (snd s) (snd (snd v))) \<subseteq> B"

lemma pres_bind_result:
  assumes "pres P m" and "\<And>x s t. m s = (Inr x, t) \<Longrightarrow> pres P (f x)"
  shows "pres P (mbind m f)"
proof -
  have "P (snd (mbind m f s))" if "P s" for s
    using presD [OF assms(1) that] assms(2) [of s]
    by (auto simp: mbind_def pres_def split: prod.splits sum.splits)
  then show ?thesis by (simp add: pres_def)
qed

section \<open>Parts of the backend\<close>

lemma tame_on_opt:
  assumes "tame entries T X p"
    and "\<And>b m. sel b = Some m \<Longrightarrow> fst (X m) \<subseteq> fst (Y b)"
    and "\<And>b m m'. sel b = Some m \<Longrightarrow> X m' = X m \<Longrightarrow> Y (upd (\<lambda>_. Some m') b) = Y b"
  shows "tame entries T Y (on_opt sel upd d p)"
  unfolding tame_def
proof (intro allI impI)
  fix b k r b' k'
  assume safe: "fst (Y b) \<inter> T = {}" and run: "on_opt sel upd d p (b, k) = (r, (b', k'))"
  show "Y b' = Y b \<and> seen entries T k' = seen entries T k"
  proof (cases "sel b")
    case None
    with run show ?thesis by (simp add: on_opt_def)
  next
    case (Some m)
    obtain m' where p: "p (m, k) = (r, (m', k'))" and b': "b' = upd (\<lambda>_. Some m') b"
      using run Some by (auto simp: on_opt_def split: prod.splits)
    have "fst (X m) \<inter> T = {}" using safe assms(2) [OF Some] by blast
    from tameD [OF assms(1) this p] b' assms(3) [OF Some] show ?thesis by simp
  qed
qed

lemma tame_ok:
  assumes "tame entries T fd_view p"
  shows "tame entries T fd_view (ok p)" and "tame entries T fd_view (oks p)"
proof -
  have "fd_view (xb_last_apply_failures_update f b) = fd_view b" for f b
    by (simp add: fd_view_def other_fds_def)
  then show "tame entries T fd_view (ok p)"
    unfolding ok_def by (intro tame_rules tame_set_obj assms)
  then show "tame entries T fd_view (oks p)"
    unfolding oks_def by (intro tame_rules)
qed

lemma tame_backend_part:
  shows "tame entries T conntrack_view p \<Longrightarrow>
      tame entries T fd_view (on_part xb_conntrack_map xb_conntrack_map_update p)"
    and "tame entries T conntrack_view p \<Longrightarrow>
      tame entries T fd_view (on_part xb_udp_conntrack_map xb_udp_conntrack_map_update p)"
    and "tame entries T trusted_view q \<Longrightarrow>
      tame entries T fd_view (on_part xb_trusted_map xb_trusted_map_update q)"
  by (erule tame_on_part; auto simp: fd_view_def other_fds_def)+

lemmas opt_simps = fd_view_def other_fds_def opt_fds_def

lemma tame_backend_opt:
  shows "tame entries T (\<lambda>m. ({pp_fd m}, ())) p1 \<Longrightarrow>
      tame entries T fd_view (on_opt xb_tcp_policy_map xb_tcp_policy_map_update d1 p1)"
    and "tame entries T (\<lambda>m. ({pp_fd m}, ())) p1 \<Longrightarrow>
      tame entries T fd_view (on_opt xb_udp_policy_map xb_udp_policy_map_update d1 p1)"
    and "tame entries T acl_view p2 \<Longrightarrow> tame entries T fd_view (on_opt xb_acl_maps xb_acl_maps_update d2 p2)"
    and "tame entries T (\<lambda>m. ({rc_fd m}, ())) p3 \<Longrightarrow>
      tame entries T fd_view (on_opt xb_runtime_config_map xb_runtime_config_map_update d3 p3)"
    and "tame entries T (\<lambda>m. ({gr_fd m}, ())) p4 \<Longrightarrow>
      tame entries T fd_view (on_opt xb_global_rl_map xb_global_rl_map_update d4 p4)"
    and "tame entries T (\<lambda>m. ({am_fd m}, ())) p5 \<Longrightarrow>
      tame entries T fd_view (on_opt xb_sctp_map xb_sctp_map_update d5 p5)"
    and "tame entries T (\<lambda>m. ({si_fd m}, ())) p6 \<Longrightarrow>
      tame entries T fd_view (on_opt xb_sit4_map xb_sit4_map_update d6 p6)"
    and "tame entries T (\<lambda>m. ({ro_fd m}, ())) p7 \<Longrightarrow>
      tame entries T fd_view (on_opt xb_syn4_outer xb_syn4_outer_update d7 p7)"
    and "tame entries T (\<lambda>m. ({ro_fd m}, ())) p7 \<Longrightarrow>
      tame entries T fd_view (on_opt xb_syn6_outer xb_syn6_outer_update d7 p7)"
    and "tame entries T (\<lambda>m. ({ro_fd m}, ())) p7 \<Longrightarrow>
      tame entries T fd_view (on_opt xb_udprt4_outer xb_udprt4_outer_update d7 p7)"
    and "tame entries T (\<lambda>m. ({ro_fd m}, ())) p7 \<Longrightarrow>
      tame entries T fd_view (on_opt xb_udprt6_outer xb_udprt6_outer_update d7 p7)"
  by (erule tame_on_opt; fastforce simp: opt_simps acl_fds_def)+

context bpf_kernel
begin

text \<open>The steps of a plan that do not touch the two whitelists.\<close>

lemma conntrack_steps_tame:
  assumes "T \<subseteq> owned"
  shows "tame entries T fd_view (apply_conntrack K ords plan dry)"
proof -
  have "fd_view (xb_conntrack_stale_rounds_update f b) = fd_view b" for f b
    by (simp add: fd_view_def other_fds_def)
  then show ?thesis
    unfolding apply_conntrack_def forget_rounds_def
    by (intro tame_rules tame_ok tame_backend_part conntracks_tame tame_set_obj assms)
qed

lemma apply_sctp_tame: "T \<subseteq> owned \<Longrightarrow> tame entries T fd_view (apply_sctp K plan dry)"
  unfolding apply_sctp_def by (intro tame_rules tame_ok tame_backend_opt array_set_tame)

lemma apply_trusted_tame: "T \<subseteq> owned \<Longrightarrow> tame entries T fd_view (apply_trusted K c plan dry)"
  unfolding apply_trusted_def by (intro tame_rules tame_ok tame_backend_part trusted_tame)

lemma apply_limits_tame: "T \<subseteq> owned \<Longrightarrow> tame entries T fd_view (apply_limits K c ords plan dry)"
  unfolding apply_limits_def apply_rate_map_delta_def Let_def mseqs.simps
  by (intro tame_rules tame_ok tame_backend_opt view_tame)

lemma apply_outers_tame: "T \<subseteq> owned \<Longrightarrow> tame entries T fd_view (apply_outers K c ords d dry)"
  unfolding apply_outers_def apply_rate_outer_delta_def Let_def mseqs.simps
  by (intro tame_rules tame_ok tame_backend_opt outer_set_tame outer_delete_tame)

lemma apply_prefixes_tame: "T \<subseteq> owned \<Longrightarrow> tame entries T fd_view (apply_prefixes K d dry)"
  unfolding apply_prefixes_def by (intro tame_rules tame_backend_opt policy_ensure_prefixes_tame)

lemma log_acl_tame: "tame entries T X (log_acl proto)"
  unfolding log_acl_def by (cases proto) (simp_all add: tame_ret tame_raise)

lemma apply_acl_delta_tame: "T \<subseteq> owned \<Longrightarrow> tame entries T fd_view (apply_acl_delta K ords plan dry)"
  unfolding apply_acl_delta_def split_def by (intro tame_rules tame_ok tame_backend_opt acls_tame log_acl_tame)

lemma apply_runtime_config_tame: "T \<subseteq> owned \<Longrightarrow> tame entries T fd_view (apply_runtime_config K c d dry)"
  unfolding apply_runtime_config_def
  by (intro tame_rules tame_ok tame_backend_opt runtime_get_tame runtime_set_tame)

lemma apply_global_rl_tame: "T \<subseteq> owned \<Longrightarrow> tame entries T fd_view (apply_global_rl K plan dry)"
  unfolding apply_global_rl_def by (intro tame_rules tame_ok tame_backend_opt global_rl_set_tame)

lemma apply_sit4_tame: "T \<subseteq> owned \<Longrightarrow> tame entries T fd_view (apply_sit4 K c dry)"
  unfolding apply_sit4_def Let_def by (intro tame_rules tame_ok tame_backend_opt sit4_tame)

lemma delete_flows_tame:
  "T \<subseteq> owned \<Longrightarrow> tame entries T fd_view (on_part xb_conntrack_map xb_conntrack_map_update
     (conntracks_delete_dest_ports it K ports dry))"
  "T \<subseteq> owned \<Longrightarrow> tame entries T fd_view (on_part xb_udp_conntrack_map xb_udp_conntrack_map_update
     (conntracks_delete_dest_ports it K ports dry))"
  by (intro tame_backend_part conntracks_tame; assumption)+

lemma tame_closed:
  assumes "{fst (snd v), snd (snd v)} \<subseteq> owned" and "tame entries {fst (snd v), snd (snd v)} fd_view p"
  shows "pres (closed_but entries v A B) p"
  unfolding pres_def
proof (intro allI impI)
  fix s
  assume inv: "closed_but entries v A B s"
  obtain b k where s: "s = (b, k)" by (cases s)
  obtain r b' k' where run: "p (b, k) = (r, (b', k'))" by (metis surj_pair)
  have "fst (fd_view b) \<inter> {fst (snd v), snd (snd v)} = {}"
    using inv s by (auto simp: closed_but_def)
  from tameD [OF assms(2) this run] inv s run show "closed_but entries v A B (snd (p s))"
    by (auto simp: closed_but_def seen_eq_iff)
qed

lemma set_tcp_closed:
  assumes "{fst (snd v), snd (snd v)} \<subseteq> owned" and "val \<noteq> 0 \<Longrightarrow> port \<in> A"
  shows "pres (closed_but entries v A B) (set_tcp K port val dry)"
  unfolding pres_def
proof (intro allI impI)
  fix s
  assume inv: "closed_but entries v A B s"
  obtain b k where s: "s = (b, k)" by (cases s)
  obtain r m' k' where run: "array_set K port val dry (xb_tcp_map b, k) = (r, (m', k'))" by (metis surj_pair)
  have fd: "am_fd (xb_tcp_map b) = fst (snd v)" "am_fd (xb_udp_map b) = snd (snd v)"
    using inv s by (auto simp: closed_but_def fd_view_def)
  have own: "am_fd (xb_tcp_map b) \<in> owned" using fd assms(1) by simp
  note o = array_set_open [OF own run]
  have "seen entries {snd (snd v)} k' = seen entries {snd (snd v)} k"
    using assms(1) fd inv by (intro array_set_frame [OF _ _ run]) (auto simp: closed_but_def)
  with o fd inv s assms(2) run show "closed_but entries v A B (snd (set_tcp K port val dry s))"
    by (auto simp: closed_but_def set_tcp_def on_part_def fd_view_def other_fds_def seen_eq_iff
        split: if_splits)
qed

lemma set_udp_closed:
  assumes "{fst (snd v), snd (snd v)} \<subseteq> owned" and "val \<noteq> 0 \<Longrightarrow> port \<in> B"
  shows "pres (closed_but entries v A B) (set_udp K port val dry)"
  unfolding pres_def
proof (intro allI impI)
  fix s
  assume inv: "closed_but entries v A B s"
  obtain b k where s: "s = (b, k)" by (cases s)
  obtain r m' k' where run: "array_set K port val dry (xb_udp_map b, k) = (r, (m', k'))" by (metis surj_pair)
  have fd: "am_fd (xb_tcp_map b) = fst (snd v)" "am_fd (xb_udp_map b) = snd (snd v)"
    using inv s by (auto simp: closed_but_def fd_view_def)
  have own: "am_fd (xb_udp_map b) \<in> owned" using fd assms(1) by simp
  note o = array_set_open [OF own run]
  have "seen entries {fst (snd v)} k' = seen entries {fst (snd v)} k"
    using assms(1) fd inv by (intro array_set_frame [OF _ _ run]) (auto simp: closed_but_def)
  with o fd inv s assms(2) run show "closed_but entries v A B (snd (set_udp K port val dry s))"
    by (auto simp: closed_but_def set_udp_def on_part_def fd_view_def other_fds_def seen_eq_iff
        split: if_splits)
qed

lemma count_failure_closed: "pres (closed_but entries v A B) (set_obj (xb_last_apply_failures_update f))"
  by (auto simp: pres_def set_obj_def closed_but_def fd_view_def other_fds_def)

lemma oks_closed:
  "pres (closed_but entries v A B) p \<Longrightarrow> pres (closed_but entries v A B) (oks p)"
  unfolding oks_def ok_def by (intro pres_rules count_failure_closed)

lemma prepare_protection_closed:
  assumes "{fst (snd v), snd (snd v)} \<subseteq> owned"
  shows "pres (closed_but entries v A B) (prepare_protection K c ords plan dry d)"
  unfolding prepare_protection_def apply_tcp_removals_def apply_udp_removals_def mseqs.simps
  by (intro pres_seq pres_ret pres_when pres_for_all oks_closed set_tcp_closed set_udp_closed
      tame_closed [OF assms] conntrack_steps_tame apply_sctp_tame apply_trusted_tame apply_limits_tame
      apply_outers_tame apply_prefixes_tame apply_acl_delta_tame apply_runtime_config_tame
      apply_global_rl_tame apply_sit4_tame delete_flows_tame assms) simp_all

lemma expose_ports_closed:
  assumes "{fst (snd v), snd (snd v)} \<subseteq> owned"
    and "finite (rp_tcp_ports_to_add plan)" and "finite (rp_udp_ports_to_add plan)"
  shows "pres (closed_but entries v (A \<union> rp_tcp_ports_to_add plan) (B \<union> rp_udp_ports_to_add plan))
    (expose_ports K plan dry)"
  unfolding expose_ports_def obj_def
  by (intro pres_bind pres_gets pres_if pres_ret pres_seq pres_for oks_closed set_tcp_closed
      set_udp_closed assms(1)) (use assms(2,3) in simp_all)

lemma apply_plan_closed:
  assumes "fds_ok owned b" and fin: "finite (rp_tcp_ports_to_add plan)" "finite (rp_udp_ports_to_add plan)"
    and run: "apply_reconcile_plan K c ords plan dry d (b, k) = (r, (b', k'))"
    and A: "A = open_ports (entries k (am_fd (xb_tcp_map b)))" and B: "B = open_ports (entries k (am_fd (xb_udp_map b)))"
  shows "closed_but entries (fd_view b) (A \<union> rp_tcp_ports_to_add plan) (B \<union> rp_udp_ports_to_add plan) (b', k')"
    and "closed_but entries (fd_view b) A B (b', k') \<or>
      (\<exists>b1 k1. prepare_protection K c ords plan dry d (b\<lparr>xb_last_apply_failures := 0\<rparr>, k) = (Inr (), (b1, k1)) \<and>
        xb_last_apply_failures b1 = 0)"
proof -
  let ?b = "b\<lparr>xb_last_apply_failures := 0\<rparr>"
  let ?closed = "closed_but entries (fd_view b)"
  have own: "{fst (snd (fd_view b)), snd (snd (fd_view b))} \<subseteq> owned"
    using assms(1) by (simp add: fds_ok_def fd_view_def)
  obtain q b1 k1 where prep: "prepare_protection K c ords plan dry d (?b, k) = (q, (b1, k1))" by (metis surj_pair)
  have start: "?closed A B (?b, k)"
    using assms(1) by (auto simp: closed_but_def fd_view_def other_fds_def fds_ok_def A B)
  have mid: "?closed A B (b1, k1)"
    using presD [OF prepare_protection_closed [OF own] start, of c ords plan dry d] prep by simp
  then have mid': "?closed (A \<union> rp_tcp_ports_to_add plan) (B \<union> rp_udp_ports_to_add plan) (b1, k1)"
    by (auto simp: closed_but_def)
  have rest: "(r, (b', k')) = (case q of Inl e \<Rightarrow> (Inl e, (b1, k1)) | Inr _ \<Rightarrow> expose_ports K plan dry (b1, k1))"
    using run prep by (auto simp: apply_reconcile_plan_def set_obj_def mseq_def mbind_def split: sum.splits)
  from rest mid' presD [OF expose_ports_closed [OF own fin] mid', of dry]
  show "?closed (A \<union> rp_tcp_ports_to_add plan) (B \<union> rp_udp_ports_to_add plan) (b', k')"
    by (cases q) (simp_all, metis snd_conv)
  from rest mid prep show "?closed A B (b', k') \<or>
      (\<exists>b1 k1. prepare_protection K c ords plan dry d (?b, k) = (Inr (), (b1, k1)) \<and> xb_last_apply_failures b1 = 0)"
    by (cases q) (auto simp: expose_ports_def obj_def ret_apply)
qed

end

section \<open>Dry runs\<close>

text \<open>A view of the object together with every owned map.\<close>

definition unmoved ::
  "('k \<Rightarrow> int \<Rightarrow> (bytes, bytes) dict) \<Rightarrow> int set \<Rightarrow> ('b \<Rightarrow> 'n) \<Rightarrow> 'b \<times> 'k \<Rightarrow> 'n \<times> (int \<Rightarrow> (bytes, bytes) dict)" where
  "unmoved entries owned N s = (N (fst s), seen entries owned (snd s))"

lemma unmoved_on_part:
  assumes "keeps (unmoved entries owned id) p" and "\<And>b. upd (\<lambda>_. sel b) b = b"
  shows "keeps (unmoved entries owned N) (on_part sel upd p)"
  unfolding keeps_def
proof
  fix s
  obtain r m k where run: "p (sel (fst s), snd s) = (r, (m, k))" by (metis surj_pair)
  with keepsD [OF assms(1), of "(sel (fst s), snd s)"] assms(2)
  show "unmoved entries owned N (snd (on_part sel upd p s)) = unmoved entries owned N s"
    by (simp add: unmoved_def on_part_def)
qed

lemma unmoved_on_opt:
  assumes "keeps (unmoved entries owned id) p" and "\<And>b m. sel b = Some m \<Longrightarrow> upd (\<lambda>_. Some m) b = b"
  shows "keeps (unmoved entries owned N) (on_opt sel upd d p)"
  unfolding keeps_def
proof
  fix s
  show "unmoved entries owned N (snd (on_opt sel upd d p s)) = unmoved entries owned N s"
  proof (cases "sel (fst s)")
    case (Some x)
    obtain r m k where run: "p (x, snd s) = (r, (m, k))" by (metis surj_pair)
    with keepsD [OF assms(1), of "(x, snd s)"] assms(2) [OF Some] Some show ?thesis
      by (simp add: unmoved_def on_opt_def)
  qed (simp add: on_opt_def)
qed

lemma unmoved_other_part:
  assumes "keeps (\<lambda>s. seen entries owned (snd s)) p" and "\<And>b m. N (upd (\<lambda>_. m) b) = N b"
  shows "keeps (unmoved entries owned N) (on_part sel upd p)"
  unfolding keeps_def
proof
  fix s
  obtain r m k where run: "p (sel (fst s), snd s) = (r, (m, k))" by (metis surj_pair)
  with keepsD [OF assms(1), of "(sel (fst s), snd s)"] assms(2)
  show "unmoved entries owned N (snd (on_part sel upd p s)) = unmoved entries owned N s"
    by (simp add: unmoved_def on_part_def)
qed

lemma unmoved_set_obj: "(\<And>b. N (f b) = N b) \<Longrightarrow> keeps (unmoved entries owned N) (set_obj f)"
  by (simp add: keeps_def unmoved_def set_obj_def)

lemma unmoved_kern: "keeps (seen entries owned) p \<Longrightarrow> keeps (unmoved entries owned N) (kern p)"
  by (auto simp: keeps_def unmoved_def kern_def split: prod.splits) (metis snd_conv)

text \<open>The backend but for the failure count and the round counters.\<close>

definition settings :: "XdpBackend \<Rightarrow> XdpBackend" where
  "settings b = b\<lparr>xb_last_apply_failures := 0, xb_conntrack_stale_rounds := []\<rparr>"

lemma unmoved_ok:
  assumes "keeps (unmoved entries owned settings) p"
  shows "keeps (unmoved entries owned settings) (ok p)" and "keeps (unmoved entries owned settings) (oks p)"
  unfolding oks_def ok_def
  by (intro keeps_rules unmoved_set_obj assms; simp add: settings_def)+

lemma forget_rounds_unmoved: "keeps (unmoved entries owned settings) (forget_rounds key)"
  unfolding forget_rounds_def by (intro unmoved_set_obj) (simp add: settings_def)

lemmas dry_defs = array_set_def trusted_set_def trusted_delete_def on_family_def lpm_set_def lpm_delete_def
  view_set_def view_delete_def view_write_def policy_set_fields_def policy_delete_def policy_ensure_prefixes_def
  outer_set_def outer_delete_def acls_set_def acls_delete_def acl_set_def acl_delete_def on_map_for_def
  conntracks_set_def conntracks_delete_def on_key_length_def conntrack_set_def conntrack_delete_def
  runtime_set_def global_rl_set_def sit4_set_def sit4_delete_def guarded_update_def guarded_delete_def

lemma dry_methods:
  "keeps (unmoved entries owned id) (array_set K port val True)"
  "keeps (unmoved entries owned id) (trusted_set K cidr val True)"
  "keeps (unmoved entries owned id) (trusted_delete K cidr True)"
  "keeps (unmoved entries owned id) (view_set K c i port val True)"
  "keeps (unmoved entries owned id) (view_delete K i port True)"
  "keeps (unmoved entries owned id) (policy_ensure_prefixes K ports v4 v6 True)"
  "keeps (unmoved entries owned id) (outer_set K port val True)"
  "keeps (unmoved entries owned id) (outer_delete K port True)"
  "keeps (unmoved entries owned id) (acls_set K proto cidr ps True)"
  "keeps (unmoved entries owned id) (acls_delete K proto cidr True)"
  "keeps (unmoved entries owned id) (conntracks_set K key True)"
  "keeps (unmoved entries owned id) (conntracks_delete K key True)"
  "keeps (unmoved entries owned id) (runtime_set K fs cfg_flags True)"
  "keeps (unmoved entries owned id) (global_rl_set K val True)"
  "keeps (unmoved entries owned id) (sit4_set K ip True)"
  "keeps (unmoved entries owned id) (sit4_delete K ip True)"
  unfolding dry_defs Let_def if_True
  by (intro keeps_rules unmoved_on_part; simp)+

lemma dry_delete_dest_ports:
  "keeps (unmoved entries owned id) (conntracks_delete_dest_ports it K ports True)"
proof -
  have "keeps (unmoved entries owned id) (delete_each K keys True n)" for keys n
    by (induction keys arbitrary: n) (simp_all add: keeps_rules conntrack_delete_def guarded_delete_def)
  then show ?thesis
    unfolding conntracks_delete_dest_ports_def conntrack_delete_dest_ports_def
    by (intro keeps_rules unmoved_on_part; simp)
qed

context bpf_kernel
begin

lemma runtime_reads_unmoved:
  "keeps (unmoved entries owned id) (runtime_get K)"
  "keeps (unmoved entries owned id) (runtime_get_cfg_flags K)"
  "keeps (unmoved entries owned id) (global_rl_get K)"
  unfolding runtime_get_def runtime_get_cfg_flags_def runtime_lookup_raw_def global_rl_get_def
  by (intro keeps_rules unmoved_kern seen_calls)+

lemmas dry_rules = unmoved_ok unmoved_on_part unmoved_on_opt dry_methods dry_delete_dest_ports
  forget_rounds_unmoved runtime_reads_unmoved

lemma dry_plan_unmoved:
  "keeps (unmoved entries owned settings) (apply_reconcile_plan K c ords plan True d)"
proof -
  have log: "keeps (unmoved entries owned settings) (log_acl proto)" for proto
    unfolding log_acl_def by (cases proto) (simp_all add: keeps_rules)
  have "keeps (unmoved entries owned settings) (set_obj (xb_last_apply_failures_update (\<lambda>_. 0)))"
    by (intro unmoved_set_obj) (simp add: settings_def)
  moreover have "keeps (unmoved entries owned settings) (prepare_protection K c ords plan True d)"
    unfolding prepare_protection_def apply_tcp_removals_def apply_udp_removals_def apply_conntrack_def
      apply_sctp_def apply_trusted_def apply_limits_def apply_rate_map_delta_def apply_outers_def
      apply_rate_outer_delta_def apply_prefixes_def apply_acl_delta_def apply_runtime_config_def
      apply_global_rl_def apply_sit4_def set_tcp_def set_udp_def mseqs.simps Let_def split_def
    by (intro keeps_rules dry_rules log; simp)
  moreover have "keeps (unmoved entries owned settings) (expose_ports K plan True)"
    unfolding expose_ports_def set_tcp_def set_udp_def by (intro keeps_rules dry_rules; simp)
  ultimately show ?thesis
    unfolding apply_reconcile_plan_def by (intro keeps_rules)
qed

lemma existing_keys_seen:
  "keeps (\<lambda>s. seen entries owned (snd s)) (conntracks_existing_keys it K keys)"
proof -
  have "keeps (\<lambda>s. seen entries owned (snd s)) (conntrack_existing K ks present)" for ks present
    by (induction ks arbitrary: present)
      (simp_all add: keeps_rules conntrack_probe_key_def keeps_kern keeps_set_obj seen_calls)
  then have "keeps (unmoved entries owned (\<lambda>_. ())) (conntracks_existing_keys it K keys)"
    unfolding conntracks_existing_keys_def conntrack_existing_keys_def
    by (intro keeps_rules unmoved_other_part) simp_all
  then show ?thesis by (simp add: keeps_def unmoved_def)
qed

lemma get_applied_state_unmoved: "keeps (unmoved entries owned N) (get_applied_state K)"
  unfolding get_applied_state_def cfg_flag_bogon_def cfg_flag_drop_events_def
  by (intro keeps_rules unmoved_on_opt runtime_reads_unmoved; simp)

lemma build_plan_unmoved:
  assumes "\<And>b m. N (xb_conntrack_map_update m b) = N b" and "\<And>b f. N (xb_conntrack_stale_rounds_update f b) = N b"
  shows "keeps (unmoved entries owned N) (build_reconcile_plan K c ords d a)"
  unfolding build_reconcile_plan_def Let_def
  by (intro keeps_rules unmoved_other_part existing_keys_seen unmoved_set_obj assms)

lemma build_plan_closed:
  assumes "{fst (snd v), snd (snd v)} \<subseteq> owned"
  shows "pres (closed_but entries v A B) (build_reconcile_plan K c ords d a)"
proof -
  have "fd_view (xb_conntrack_stale_rounds_update f b) = fd_view b" for f b
    by (simp add: fd_view_def other_fds_def)
  then show ?thesis
    unfolding build_reconcile_plan_def Let_def
    by (intro tame_closed [OF assms] tame_rules tame_backend_part conntracks_tame tame_set_obj assms)
qed

lemma get_applied_state_closed:
  assumes "{fst (snd v), snd (snd v)} \<subseteq> owned"
  shows "pres (closed_but entries v A B) (get_applied_state K)"
  unfolding pres_def
proof (intro allI impI)
  fix s
  assume "closed_but entries v A B s"
  with keepsD [OF get_applied_state_unmoved [of fd_view], of s] assms
  show "closed_but entries v A B (snd (get_applied_state K s))"
    by (auto simp: closed_but_def unmoved_def seen_eq_iff)
qed

lemma apply_plan_keeps_closed:
  assumes "{fst (snd v), snd (snd v)} \<subseteq> owned" and "finite (rp_tcp_ports_to_add plan)" "finite (rp_udp_ports_to_add plan)"
    and "rp_tcp_ports_to_add plan \<subseteq> A" "rp_udp_ports_to_add plan \<subseteq> B"
  shows "pres (closed_but entries v A B) (apply_reconcile_plan K c ords plan dry d)"
  using expose_ports_closed [OF assms(1-3), of A B dry] assms(4,5)
  unfolding apply_reconcile_plan_def
  by (intro pres_seq count_failure_closed prepare_protection_closed assms(1)) (simp add: Un_absorb2)

lemma build_plan_adds:
  assumes "build_reconcile_plan K c ords d a s = (Inr plan, t)"
  shows "rp_tcp_ports_to_add plan = ds_tcp_ports d - as_tcp_ports a"
    and "rp_udp_ports_to_add plan = ds_udp_ports d - as_udp_ports a"
    and "rp_tcp_ports_to_remove plan = as_tcp_ports a - ds_tcp_ports d"
    and "rp_udp_ports_to_remove plan = as_udp_ports a - ds_udp_ports d"
proof -
  obtain ad rm where "plan = (compute_reconcile_plan d a)\<lparr>rp_conntrack_entries_to_add := ad,
      rp_conntrack_entries_to_remove := rm\<rparr>"
    using assms unfolding build_reconcile_plan_def Let_def split_def
    by (auto simp: mbind_Inr_iff mseq_Inr_iff)
  then show "rp_tcp_ports_to_add plan = ds_tcp_ports d - as_tcp_ports a"
    "rp_udp_ports_to_add plan = ds_udp_ports d - as_udp_ports a"
    "rp_tcp_ports_to_remove plan = as_tcp_ports a - ds_tcp_ports d"
    "rp_udp_ports_to_remove plan = as_udp_ports a - ds_udp_ports d"
    by (simp_all add: plan_sel)
qed

lemma reconcile_closed:
  assumes "{fst (snd v), snd (snd v)} \<subseteq> owned" and "finite (ds_tcp_ports d)" "finite (ds_udp_ports d)"
    and "ds_tcp_ports d \<subseteq> A" "ds_udp_ports d \<subseteq> B"
  shows "pres (closed_but entries v A B) (base_reconcile K c ords d dry)"
  unfolding base_reconcile_def
proof (rule pres_bind [OF get_applied_state_closed [OF assms(1)]], rule pres_bind_result [OF build_plan_closed [OF assms(1)]])
  fix a plan s t
  assume "build_reconcile_plan K c ords d a s = (Inr plan, t)"
  from build_plan_adds [OF this] assms show "pres (closed_but entries v A B) (apply_reconcile_plan K c ords plan dry d)"
    by (intro apply_plan_keeps_closed) auto
qed

end

section \<open>A small host\<close>

text \<open>The TCP policies are there, the other optional maps are not.\<close>

definition ex_lpm :: "int \<Rightarrow> bool \<Rightarrow> BpfLpmMap" where
  "ex_lpm fd v6 = \<lparr>lm_path = [], lm_fd = fd, lm_v6 = v6, lm_cache = {}\<rparr>"

definition ex_backend :: XdpBackend where
  "ex_backend = \<lparr>xb_last_apply_failures = 0, xb_conntrack_stale_rounds = [],
     xb_tcp_map = ex_whitelist 1 {1}, xb_udp_map = ex_whitelist 2 {},
     xb_trusted_map = \<lparr>tr_map4 = ex_lpm 3 False, tr_map6 = ex_lpm 4 True\<rparr>,
     xb_conntrack_map = \<lparr>cts_map4 = ex_ct 5 12, cts_map6 = ex_ct 6 36\<rparr>,
     xb_udp_conntrack_map = \<lparr>cts_map4 = ex_ct 7 12, cts_map6 = ex_ct 8 36\<rparr>,
     xb_tcp_policy_map = Some ex_policy, xb_udp_policy_map = None, xb_acl_maps = None,
     xb_runtime_config_map = None, xb_global_rl_map = None,
     xb_sctp_map = None, xb_sit4_map = None, xb_syn4_outer = None, xb_syn6_outer = None,
     xb_udprt4_outer = None, xb_udprt6_outer = None\<rparr>"

definition ex_orders :: orders where
  "ex_orders = \<lparr>ord_int = sorted_list_of_set, ord_bytes = sorted_list_of_set, ord_acl = (\<lambda>_. [])\<rparr>"

definition ex_desired :: DesiredState where
  "ex_desired = DesiredState_init\<lparr>ds_tcp_ports := {0}, ds_tcp_syn_rate_limits := [(0, 50)]\<rparr>"

lemma ex_fds_ok: "fds_ok {0..<1000} ex_backend" by code_simp

section \<open>Properties\<close>

text \<open>The ports that a run has made reachable.\<close>

definition newly_open ::
  "('k \<Rightarrow> int \<Rightarrow> (bytes, bytes) dict) \<Rightarrow> int \<Rightarrow> 'k \<Rightarrow> 'k \<Rightarrow> int set" where
  "newly_open entries fd k k' = open_ports (entries k' fd) - open_ports (entries k fd)"

text \<open>
  C1 (\<open>backends/xdp.py\<close>, \<open>apply_reconcile_plan\<close>): fail closed. If carrying out a plan
  makes a TCP or UDP port reachable in the kernel, the port is one the plan adds
  for that protocol, and the whole preparation before it, every removal, limit,
  ACL and setting, ran to its end without an exception and without a counted failure
  (\<open>last_apply_failures\<close> is 0). Which updates fail and what an exception leaves half
  done is up to the kernel.
\<close>

theorem exposure_needs_protection:
  assumes "bpf_kernel K entries owned" and "fds_ok owned b"
    and "finite (rp_tcp_ports_to_add plan)" and "finite (rp_udp_ports_to_add plan)"
    and "apply_reconcile_plan K c ords plan dry d (b, k) = (r, (b', k'))"
  shows "newly_open entries (am_fd (xb_tcp_map b)) k k' \<subseteq> rp_tcp_ports_to_add plan \<and>
    newly_open entries (am_fd (xb_udp_map b)) k k' \<subseteq> rp_udp_ports_to_add plan \<and>
    (newly_open entries (am_fd (xb_tcp_map b)) k k' \<union> newly_open entries (am_fd (xb_udp_map b)) k k' = {} \<or>
     (\<exists>b1 k1. prepare_protection K c ords plan dry d (b\<lparr>xb_last_apply_failures := 0\<rparr>, k) = (Inr (), (b1, k1)) \<and>
        xb_last_apply_failures b1 = 0))"
  using bpf_kernel.apply_plan_closed [OF assms refl refl]
  by (auto simp: closed_but_def newly_open_def fd_view_def)

theorem exposure_needs_protection_witness:
  "case apply_reconcile_plan store_kernel ex_config ex_orders (compute_reconcile_plan ex_desired (cached_state ex_backend))
          False ex_desired (ex_backend, ex_kernel []) of
     (r, (b', k')) \<Rightarrow> newly_open kentries 1 (ex_kernel []) k' = {0} \<and>
       (\<exists>b1 k1. prepare_protection store_kernel ex_config ex_orders
          (compute_reconcile_plan ex_desired (cached_state ex_backend)) False ex_desired
          (ex_backend\<lparr>xb_last_apply_failures := 0\<rparr>, ex_kernel []) = (Inr (), (b1, k1)) \<and> xb_last_apply_failures b1 = 0)"
proof -
  let ?plan = "compute_reconcile_plan ex_desired (cached_state ex_backend)"
  let ?run = "apply_reconcile_plan store_kernel ex_config ex_orders ?plan False ex_desired (ex_backend, ex_kernel [])"
  obtain r b' k' where run: "?run = (r, (b', k'))" by (metis surj_pair)
  have fin: "rp_tcp_ports_to_add ?plan = {0}" "rp_udp_ports_to_add ?plan = {}" by code_simp+
  have new: "newly_open kentries 1 (ex_kernel []) (snd (snd ?run)) = {0}" by code_simp
  have fd: "am_fd (xb_tcp_map ex_backend) = 1" by code_simp
  from exposure_needs_protection [OF store.bpf_kernel_axioms ex_fds_ok _ _ run] new fin run fd show ?thesis by simp
qed

text \<open>
  C9 (\<open>backends/xdp.py\<close>, \<open>reconcile\<close>): a dry run changes nothing that matters. Every map
  that the daemon owns has the same entries afterwards, and the backend object is the same
  but for the failure count of the last run and the cache of the flow tables, which the run
  refreshes by lookups; the round counters that decide when a flow is dropped are
  as before, also when the run ends in an exception.
\<close>

theorem dry_run_changes_nothing:
  assumes "bpf_kernel K entries owned" and "reconcile K c ords d True (b, k) = (r, (b', k'))"
  shows "seen entries owned k' = seen entries owned k \<and>
    b' = b\<lparr>xb_last_apply_failures := xb_last_apply_failures b', xb_conntrack_map := xb_conntrack_map b'\<rparr>"
proof -
  let ?N = "\<lambda>x. (settings x)\<lparr>xb_conntrack_map := xb_conntrack_map b\<rparr>"
  have dry: "keeps (unmoved entries owned ?N) (apply_reconcile_plan K c ords plan True d)" for plan
    using bpf_kernel.dry_plan_unmoved [OF assms(1)] unfolding keeps_def unmoved_def
    by (metis (no_types, lifting) Pair_inject)
  have "keeps (unmoved entries owned ?N) (base_reconcile K c ords d True)"
    unfolding base_reconcile_def
    by (intro keeps_rules bpf_kernel.get_applied_state_unmoved bpf_kernel.build_plan_unmoved assms(1) dry)
      (simp_all add: settings_def)
  from keepsD [OF this, of "(b, k)"] assms(2)
  have "?N b' = ?N b" "seen entries owned k' = seen entries owned k"
    "xb_conntrack_stale_rounds b' = xb_conntrack_stale_rounds b"
    by (auto simp: reconcile_def obj_def mfinally_def unmoved_def settings_def split: prod.splits)
  then show ?thesis
    by (cases b; cases b') (simp add: settings_def)
qed

theorem dry_run_changes_nothing_witness:
  "case reconcile store_kernel ex_config ex_orders ex_desired True (ex_backend, ex_kernel []) of
     (r, (b', k')) \<Rightarrow> r = Inr () \<and> seen kentries {0..<1000} k' = seen kentries {0..<1000} (ex_kernel []) \<and>
       xb_tcp_map b' = xb_tcp_map ex_backend"
proof -
  let ?run = "reconcile store_kernel ex_config ex_orders ex_desired True (ex_backend, ex_kernel [])"
  obtain r b' k' where run: "?run = (r, (b', k'))" by (metis surj_pair)
  have "fst ?run = Inr ()" by code_simp
  with run have r: "r = Inr ()" by simp
  from dry_run_changes_nothing [OF store.bpf_kernel_axioms run]
  have "seen kentries {0..<1000} k' = seen kentries {0..<1000} (ex_kernel [])" and "xb_tcp_map b' = xb_tcp_map ex_backend"
    by (auto dest: arg_cong [where f = xb_tcp_map])
  with r run show ?thesis by simp
qed

lemma reconcile_newly_open:
  assumes "bpf_kernel K entries owned" and "fds_ok owned b"
    and "finite (ds_tcp_ports d)" and "finite (ds_udp_ports d)"
    and "reconcile K c ords d dry (b, k) = (r, (b', k'))"
  shows "newly_open entries (am_fd (xb_tcp_map b)) k k' \<subseteq> ds_tcp_ports d \<and>
    newly_open entries (am_fd (xb_udp_map b)) k k' \<subseteq> ds_udp_ports d"
proof -
  let ?A = "open_ports (entries k (am_fd (xb_tcp_map b))) \<union> ds_tcp_ports d"
  let ?B = "open_ports (entries k (am_fd (xb_udp_map b))) \<union> ds_udp_ports d"
  obtain b1 where base: "base_reconcile K c ords d dry (b, k) = (r, (b1, k'))"
    using assms(5) by (auto simp: reconcile_def obj_def mfinally_def split: prod.splits if_splits)
  have own: "{fst (snd (fd_view b)), snd (snd (fd_view b))} \<subseteq> owned"
    using assms(2) by (simp add: fds_ok_def fd_view_def)
  have "closed_but entries (fd_view b) ?A ?B (b, k)"
    using assms(2) by (auto simp: closed_but_def fd_view_def fds_ok_def)
  with presD [OF bpf_kernel.reconcile_closed [OF assms(1) own assms(3,4)], of ?A ?B "(b, k)" c ords dry] base
  have "closed_but entries (fd_view b) ?A ?B (b1, k')" by simp
  then show ?thesis by (auto simp: closed_but_def newly_open_def fd_view_def)
qed

text \<open>
  C8 (\<open>backends/base.py\<close> and \<open>backends/xdp.py\<close>, \<open>reconcile\<close>): a reconcile makes no TCP or
  UDP port reachable that the desired state does not list, whatever the cache, the earlier
  runs and the answers of the kernel were, and also when it ends in an exception.
\<close>

theorem reconcile_opens_only_desired:
  assumes "bpf_kernel K entries owned" and "fds_ok owned b"
    and "finite (ds_tcp_ports d)" and "finite (ds_udp_ports d)"
    and "reconcile K c ords d dry (b, k) = (r, (b', k'))"
  shows "newly_open entries (am_fd (xb_tcp_map b)) k k' \<subseteq> ds_tcp_ports d \<and>
    newly_open entries (am_fd (xb_udp_map b)) k k' \<subseteq> ds_udp_ports d"
  using assms by (rule reconcile_newly_open)

theorem reconcile_opens_only_desired_witness:
  "case reconcile store_kernel ex_config ex_orders ex_desired False (ex_backend, ex_kernel [Some 12]) of
     (r, (b', k')) \<Rightarrow> newly_open kentries 1 (ex_kernel [Some 12]) k' \<subseteq> {0}"
proof -
  obtain r b' k' where run:
    "reconcile store_kernel ex_config ex_orders ex_desired False (ex_backend, ex_kernel [Some 12]) = (r, (b', k'))"
    by (metis surj_pair)
  have "ds_tcp_ports ex_desired = {0}" "ds_udp_ports ex_desired = {}" "am_fd (xb_tcp_map ex_backend) = 1"
    by code_simp+
  with reconcile_opens_only_desired [OF store.bpf_kernel_axioms ex_fds_ok _ _ run] run show ?thesis by simp
qed

text \<open>
  The host of the next example: port 1 is open and limited, its policy still has the source
  prefix 24 of an earlier configuration, and port 0 is to be opened too.
\<close>

definition ex_prefix_backend :: XdpBackend where
  "ex_prefix_backend =
     ex_backend\<lparr>xb_tcp_policy_map := Some (ex_policy\<lparr>pp_cache := [(1, [50, 0, 0, 24, 128, 0, 0, 0])]\<rparr>)\<rparr>"

definition ex_prefix_kernel :: kstate where
  "ex_prefix_kernel = kput 9 [(le_bytes 4 1, concat (map (le_bytes 4) [50, 0, 0, 24, 128, 0, 0, 0]))]
     (ex_kernel [Some 12])"

definition ex_prefix_desired :: DesiredState where
  "ex_prefix_desired = DesiredState_init\<lparr>ds_tcp_ports := {0, 1}, ds_tcp_syn_rate_limits := [(1, 50)],
     ds_rate_limit_source_prefix_v4 := 32, ds_rate_limit_source_prefix_v6 := 128\<rparr>"

text \<open>
  \<open>backends/xdp.py\<close>, \<open>apply_reconcile_plan\<close>: a failed update that is not counted. The
  result of \<open>ensure_prefixes\<close> is dropped, so when the kernel refuses to store the new
  source prefix the reconcile still counts no failure, opens the new port, and the
  policy keeps the old prefix.
\<close>

theorem prefix_failure_not_counted:
  "case reconcile store_kernel ex_config ex_orders ex_prefix_desired False (ex_prefix_backend, ex_prefix_kernel) of
     (r, (b', k')) \<Rightarrow> r = Inr () \<and> xb_last_apply_failures b' = 0 \<and>
       newly_open kentries 1 ex_prefix_kernel k' = {0} \<and> kentries k' 9 = kentries ex_prefix_kernel 9"
  by code_simp

end
