(* ===== verification/XdpConverge.thy ===== *)
theory XdpConverge
  imports XdpSafety KernelErrors
begin

text \<open>
  A reconcile that reports no failure has reached the desired ports, and over any
  sequence of reconciles a tracked flow is dropped only after it was missed in enough of them in a row.
\<close>

section \<open>The whitelists of the object\<close>

text \<open>The whitelist objects of a backend stay as they are, and failures only add up.\<close>

definition kept :: "BpfArrayMap \<times> BpfArrayMap \<Rightarrow> int \<Rightarrow> XdpBackend \<times> 'k \<Rightarrow> bool" where
  "kept w n s \<longleftrightarrow> (xb_tcp_map (fst s), xb_udp_map (fst s)) = w \<and> n \<le> xb_last_apply_failures (fst s)"

lemma kept_on_part:
  assumes "\<And>b m. xb_tcp_map (upd (\<lambda>_. m) b) = xb_tcp_map b" "\<And>b m. xb_udp_map (upd (\<lambda>_. m) b) = xb_udp_map b"
    "\<And>b m. xb_last_apply_failures (upd (\<lambda>_. m) b) = xb_last_apply_failures b"
  shows "pres (kept w n) (on_part sel upd p)"
  using assms by (auto simp: pres_def kept_def on_part_def split: prod.splits)

lemma kept_on_opt:
  assumes "\<And>b m. xb_tcp_map (upd (\<lambda>_. m) b) = xb_tcp_map b" "\<And>b m. xb_udp_map (upd (\<lambda>_. m) b) = xb_udp_map b"
    "\<And>b m. xb_last_apply_failures (upd (\<lambda>_. m) b) = xb_last_apply_failures b"
  shows "pres (kept w n) (on_opt sel upd d p)"
  using assms by (auto simp: pres_def kept_def on_opt_def split: prod.splits option.splits)

lemma kept_ok:
  "pres (kept w n) p \<Longrightarrow> pres (kept w n) (ok p)"
  "pres (kept w n) p \<Longrightarrow> pres (kept w n) (oks p)"
proof -
  have "pres (kept w n) (set_obj (xb_last_apply_failures_update (\<lambda>n. n + 1)))"
    by (auto simp: pres_def kept_def set_obj_def)
  then show "pres (kept w n) (ok p)" if "pres (kept w n) p"
    using that unfolding ok_def by (intro pres_rules)
  then show "pres (kept w n) (oks p)" if "pres (kept w n) p"
    using that unfolding oks_def by (intro pres_rules)
qed

lemma pres_obj [pres_rules]: "pres P (obj f)"
  by (simp add: obj_def pres_gets)

lemma kept_forget_rounds: "pres (kept w n) (forget_rounds key)"
  by (auto simp: pres_def kept_def forget_rounds_def set_obj_def)

lemma kept_log: "pres P (log_acl proto)"
  by (cases proto) (simp_all add: log_acl_def pres_rules)

lemmas kept_rules = pres_rules kept_ok kept_on_part kept_on_opt kept_forget_rounds kept_log

lemma kept_phases:
  "pres (kept w n) (apply_conntrack K ords plan dry)"
  "pres (kept w n) (apply_sctp K plan dry)"
  "pres (kept w n) (apply_trusted K c plan dry)"
  "pres (kept w n) (apply_limits K c ords plan dry)"
  "pres (kept w n) (apply_outers K c ords d dry)"
  "pres (kept w n) (apply_prefixes K d dry)"
  "pres (kept w n) (apply_acl_delta K ords plan dry)"
  "pres (kept w n) (apply_runtime_config K c d dry)"
  "pres (kept w n) (apply_global_rl K plan dry)"
  "pres (kept w n) (apply_sit4 K c dry)"
  unfolding apply_conntrack_def apply_sctp_def apply_trusted_def apply_limits_def apply_rate_map_delta_def
    apply_outers_def apply_rate_outer_delta_def apply_prefixes_def apply_acl_delta_def apply_runtime_config_def
    apply_global_rl_def apply_sit4_def mseqs.simps Let_def split_def
  by (intro kept_rules; simp)+

lemma kept_plan:
  "pres (kept w n) (get_applied_state K)"
  "pres (kept w n) (build_reconcile_plan K c ords d a)"
proof -
  show "pres (kept w n) (get_applied_state K)"
    unfolding get_applied_state_def cfg_flag_bogon_def cfg_flag_drop_events_def by (intro kept_rules; simp)
  have "pres (kept w n) (set_obj (xb_conntrack_stale_rounds_update f))" for f
    by (auto simp: pres_def kept_def set_obj_def)
  then show "pres (kept w n) (build_reconcile_plan K c ords d a)"
    unfolding build_reconcile_plan_def Let_def by (intro kept_rules; simp)
qed

section \<open>Writing ports\<close>

lemma array_set_cache:
  assumes "array_set K port val False (m, k) = (Inr x, (m', k'))"
  shows "am_cache m' = (if x then (if val \<noteq> 0 then insert port (am_cache m) else am_cache m - {port}) else am_cache m)"
proof -
  let ?upd = "am_cache_update (if val \<noteq> 0 then insert port else (\<lambda>c. c - {port}))"
  have run: "guarded_update K False (am_fd m) 0 (pack_pair (pack_u32 port) (pack_u32 val)) ?upd (m, k) = (Inr x, (m', k'))"
    using assms by (simp add: array_set_def obj_def)
  have "m' = (if x then ?upd m else m)"
  proof (cases "pack_pair (pack_u32 port) (pack_u32 val)")
    case (Inl e)
    with run show ?thesis by (cases e) (auto simp: guarded_update_def mtry_def)
  next
    case (Inr kv)
    obtain key v where kv: "kv = (key, v)" by (cases kv)
    obtain q k1 where "sys_update K (am_fd m) key v 0 k = (q, k1)" by (cases "sys_update K (am_fd m) key v 0 k")
    with run Inr kv show ?thesis
      by (cases q) (auto simp: guarded_update_def mtry_def mseq_def mbind_def kern_def bpf_def set_obj_def ret_apply)
  qed
  then show ?thesis by simp
qed

text \<open>A loop over ports, on either whitelist: without a new failure all of them are written.\<close>

locale whitelist_of_backend =
  fixes sel :: "XdpBackend \<Rightarrow> BpfArrayMap" and upd :: "(BpfArrayMap \<Rightarrow> BpfArrayMap) \<Rightarrow> XdpBackend \<Rightarrow> XdpBackend"
    and other :: "XdpBackend \<Rightarrow> BpfArrayMap"
  assumes sel_upd: "sel (upd f b) = f (sel b)" and other_upd: "other (upd f b) = other b"
    and failures_upd: "xb_last_apply_failures (upd f b) = xb_last_apply_failures b"
    and sel_failures: "sel (xb_last_apply_failures_update g b) = sel b"
    and other_failures: "other (xb_last_apply_failures_update g b) = other b"
begin

lemma write_port:
  assumes "oks (on_part sel upd (array_set K port val False)) (b, k) = (Inr (), (b', k'))"
  shows "other b' = other b \<and> xb_last_apply_failures b \<le> xb_last_apply_failures b' \<and>
    (xb_last_apply_failures b' = xb_last_apply_failures b \<longrightarrow> am_cache (sel b') =
      (if val \<noteq> 0 then insert port (am_cache (sel b)) else am_cache (sel b) - {port}))"
proof -
  obtain r m1 k1 where run: "array_set K port val False (sel b, k) = (r, (m1, k1))" by (metis surj_pair)
  then have part: "on_part sel upd (array_set K port val False) (b, k) = (r, (upd (\<lambda>_. m1) b, k1))"
    by (simp add: on_part_def)
  from assms have "\<exists>x. r = Inr x \<and> b' = (if x then upd (\<lambda>_. m1) b
      else xb_last_apply_failures_update (\<lambda>n. n + 1) (upd (\<lambda>_. m1) b))"
    unfolding oks_def ok_def mseq_def mbind_def part
    by (cases r) (auto simp: set_obj_def ret_apply split: if_splits)
  then obtain x where r: "r = Inr x" and b': "b' = (if x then upd (\<lambda>_. m1) b
      else xb_last_apply_failures_update (\<lambda>n. n + 1) (upd (\<lambda>_. m1) b))" by blast
  from array_set_cache [OF run [unfolded r]] show ?thesis
    unfolding b' by (cases x) (simp_all add: sel_upd other_upd failures_upd other_failures)
qed

lemma write_ports:
  assumes "mfor ports (\<lambda>port. oks (on_part sel upd (array_set K port val False))) (b, k) = (Inr (), (b', k'))"
  shows "other b' = other b \<and> xb_last_apply_failures b \<le> xb_last_apply_failures b' \<and>
    (xb_last_apply_failures b' = xb_last_apply_failures b \<longrightarrow> am_cache (sel b') =
      (if val \<noteq> 0 then am_cache (sel b) \<union> set ports else am_cache (sel b) - set ports))"
  using assms
proof (induction ports arbitrary: b k)
  case (Cons port ports)
  then obtain b1 k1 where 1: "oks (on_part sel upd (array_set K port val False)) (b, k) = (Inr (), (b1, k1))"
    and 2: "mfor ports (\<lambda>port. oks (on_part sel upd (array_set K port val False))) (b1, k1) = (Inr (), (b', k'))"
    by (auto simp: mseq_Inr_iff)
  from write_port [OF 1] Cons.IH [OF 2] show ?case by (auto split: if_splits)
qed simp

end

interpretation tcp_list: whitelist_of_backend xb_tcp_map xb_tcp_map_update xb_udp_map
  by unfold_locales simp_all

interpretation udp_list: whitelist_of_backend xb_udp_map xb_udp_map_update xb_tcp_map
  by unfold_locales simp_all

section \<open>What a plan does to the whitelists\<close>

definition caches :: "XdpBackend \<Rightarrow> int set \<times> int set" where
  "caches b = (am_cache (xb_tcp_map b), am_cache (xb_udp_map b))"

text \<open>A statement adds failures or writes the whitelist caches as \<open>g\<close> says.\<close>

definition writes :: "(XdpBackend \<times> 'k, unit) pym \<Rightarrow> (int set \<times> int set \<Rightarrow> int set \<times> int set) \<Rightarrow> bool" where
  "writes p g \<longleftrightarrow> (\<forall>b k b' k'. p (b, k) = (Inr (), (b', k')) \<longrightarrow>
     xb_last_apply_failures b \<le> xb_last_apply_failures b' \<and>
     (xb_last_apply_failures b' = xb_last_apply_failures b \<longrightarrow> caches b' = g (caches b)))"

lemma writesD:
  assumes "writes p g" and "p (b, k) = (Inr (), (b', k'))"
  shows "xb_last_apply_failures b \<le> xb_last_apply_failures b'"
    and "xb_last_apply_failures b' = xb_last_apply_failures b \<Longrightarrow> caches b' = g (caches b)"
  using assms by (auto simp: writes_def)

lemma writes_seq:
  assumes "writes p g" and "writes q h"
  shows "writes (mseq p q) (h \<circ> g)"
  unfolding writes_def
proof (intro allI impI)
  fix b k b' k'
  assume "mseq p q (b, k) = (Inr (), (b', k'))"
  then obtain b1 k1 where 1: "p (b, k) = (Inr (), (b1, k1))" and 2: "q (b1, k1) = (Inr (), (b', k'))"
    by (auto simp: mseq_Inr_iff)
  from writesD [OF assms(1) 1] writesD [OF assms(2) 2]
  show "xb_last_apply_failures b \<le> xb_last_apply_failures b' \<and>
      (xb_last_apply_failures b' = xb_last_apply_failures b \<longrightarrow> caches b' = (h \<circ> g) (caches b))" by auto
qed

lemma writes_kept:
  assumes "\<And>w n. pres (kept w n) p"
  shows "writes p id"
  unfolding writes_def
proof (intro allI impI)
  fix b k b' k'
  assume run: "p (b, k) = (Inr (), (b', k'))"
  have "kept (xb_tcp_map b, xb_udp_map b) (xb_last_apply_failures b) (b, k)" by (simp add: kept_def)
  from presD [OF assms this] run
  show "xb_last_apply_failures b \<le> xb_last_apply_failures b' \<and>
      (xb_last_apply_failures b' = xb_last_apply_failures b \<longrightarrow> caches b' = id (caches b))"
    by (simp add: kept_def caches_def)
qed

lemma writes_tcp:
  "writes (mfor ports (\<lambda>port. oks (set_tcp K port val False)))
     (\<lambda>(t, u). (if val \<noteq> 0 then t \<union> set ports else t - set ports, u))"
  unfolding writes_def set_tcp_def caches_def using tcp_list.write_ports by fastforce

lemma writes_udp:
  "writes (mfor ports (\<lambda>port. oks (set_udp K port val False)))
     (\<lambda>(t, u). (t, if val \<noteq> 0 then u \<union> set ports else u - set ports))"
  unfolding writes_def set_udp_def caches_def using udp_list.write_ports by fastforce

lemma writes_removals:
  "finite (rp_tcp_ports_to_remove plan) \<Longrightarrow>
     writes (apply_tcp_removals K ords plan False) (\<lambda>(t, u). (t - rp_tcp_ports_to_remove plan, u))"
  "finite (rp_udp_ports_to_remove plan) \<Longrightarrow>
     writes (apply_udp_removals K ords plan False) (\<lambda>(t, u). (t, u - rp_udp_ports_to_remove plan))"
proof -
  have flows: "writes (mwhen c (mseq (on_part xb_conntrack_map xb_conntrack_map_update p) (ret ()))) id"
    "writes (mwhen c (mseq (on_part xb_udp_conntrack_map xb_udp_conntrack_map_update p) (ret ()))) id"
    for c and p :: "(BpfConntrackMaps \<times> 'b, 'c) pym"
    by (intro writes_kept kept_rules; simp)+
  show "writes (apply_tcp_removals K ords plan False) (\<lambda>(t, u). (t - rp_tcp_ports_to_remove plan, u))"
    if "finite (rp_tcp_ports_to_remove plan)"
    using writes_seq [OF writes_tcp flows(1), of "sorted_list_of_set (rp_tcp_ports_to_remove plan)" K 0] that
    unfolding apply_tcp_removals_def by simp
  show "writes (apply_udp_removals K ords plan False) (\<lambda>(t, u). (t, u - rp_udp_ports_to_remove plan))"
    if "finite (rp_udp_ports_to_remove plan)"
    using writes_seq [OF writes_udp flows(2), of "sorted_list_of_set (rp_udp_ports_to_remove plan)" K 0] that
    unfolding apply_udp_removals_def by simp
qed

lemma writes_prepare:
  assumes "finite (rp_tcp_ports_to_remove plan)" and "finite (rp_udp_ports_to_remove plan)"
  shows "writes (prepare_protection K c ords plan False d)
    (\<lambda>(t, u). (t - rp_tcp_ports_to_remove plan, u - rp_udp_ports_to_remove plan))"
proof -
  let ?rest = "mseqs [apply_sctp K plan False, apply_trusted K c plan False, apply_limits K c ords plan False,
      apply_outers K c ords d False, apply_prefixes K d False, apply_acl_delta K ords plan False,
      apply_runtime_config K c d False, apply_global_rl K plan False, apply_sit4 K c False]"
  have rest: "writes ?rest id"
    unfolding mseqs.simps by (intro writes_kept pres_seq pres_ret kept_phases)
  have ct: "writes (apply_conntrack K ords plan False) id" by (intro writes_kept kept_phases)
  note writes_seq [OF writes_removals(1) [OF assms(1)] writes_seq [OF ct writes_seq [OF writes_removals(2) [OF assms(2)] rest]]]
  then show ?thesis
    by (simp add: prepare_protection_def comp_def split_def)
qed

lemma writes_plan:
  assumes "apply_reconcile_plan K c ords plan False d (b, k) = (Inr (), (b', k'))"
    and "xb_last_apply_failures b' = 0"
    and "finite (rp_tcp_ports_to_remove plan)" "finite (rp_udp_ports_to_remove plan)"
    and "finite (rp_tcp_ports_to_add plan)" "finite (rp_udp_ports_to_add plan)"
  shows "caches b' =
    (am_cache (xb_tcp_map b) - rp_tcp_ports_to_remove plan \<union> rp_tcp_ports_to_add plan,
     am_cache (xb_udp_map b) - rp_udp_ports_to_remove plan \<union> rp_udp_ports_to_add plan)"
proof -
  let ?b = "b\<lparr>xb_last_apply_failures := 0\<rparr>"
  from assms(1) obtain b1 k1 where prep: "prepare_protection K c ords plan False d (?b, k) = (Inr (), (b1, k1))"
    and ex: "expose_ports K plan False (b1, k1) = (Inr (), (b', k'))"
    by (auto simp: apply_reconcile_plan_def mseq_Inr_iff set_obj_def)
  note p = writesD [OF writes_prepare [OF assms(3,4)] prep]
  show ?thesis
  proof (cases "xb_last_apply_failures b1 = 0")
    case True
    let ?loops = "mseq (mfor (sorted_list_of_set (rp_tcp_ports_to_add plan)) (\<lambda>port. oks (set_tcp K port 1 False)))
        (mfor (sorted_list_of_set (rp_udp_ports_to_add plan)) (\<lambda>port. oks (set_udp K port 1 False)))"
    have "?loops (b1, k1) = (Inr (), (b', k'))" using ex True by (simp add: expose_ports_def obj_def)
    from writesD [OF writes_seq [OF writes_tcp writes_udp] this] True assms(2,5,6) p show ?thesis
      by (simp add: caches_def)
  next
    case False
    with ex assms(2) show ?thesis by (simp add: expose_ports_def obj_def ret_apply)
  qed
qed

section \<open>Cache and kernel\<close>

definition coherent ::
  "('k \<Rightarrow> int \<Rightarrow> (bytes, bytes) dict) \<Rightarrow> int set \<times> int \<times> int \<Rightarrow> XdpBackend \<times> 'k \<Rightarrow> bool" where
  "coherent entries v s \<longleftrightarrow>
     fd_view (fst s) = v \<and> fst (snd v) \<notin> fst v \<and> snd (snd v) \<notin> fst v \<and> fst (snd v) \<noteq> snd (snd v) \<and>
     array_coherent entries (xb_tcp_map (fst s)) (snd s) \<and> array_coherent entries (xb_udp_map (fst s)) (snd s)"

lemma coherent_fds:
  "coherent entries v s \<Longrightarrow>
     am_fd (xb_tcp_map (fst s)) = fst (snd v) \<and> am_fd (xb_udp_map (fst s)) = snd (snd v)"
  by (auto simp: coherent_def fd_view_def)

lemma coherent_ok: "pres (coherent entries v) p \<Longrightarrow> pres (coherent entries v) (oks p)"
proof -
  have "pres (coherent entries v) (set_obj (xb_last_apply_failures_update (\<lambda>n. n + 1)))"
    by (auto simp: pres_def set_obj_def coherent_def fd_view_def other_fds_def)
  then show "pres (coherent entries v) (oks p)" if "pres (coherent entries v) p"
    using that unfolding oks_def ok_def by (intro pres_rules)
qed

context bpf_kernel
begin

lemma kept_coherent:
  assumes "{fst (snd v), snd (snd v)} \<subseteq> owned" and "\<And>w n. pres (kept w n) p"
    and "\<And>s. coherent entries v s \<Longrightarrow> fd_view (fst (snd (p s))) = fd_view (fst s) \<and>
      seen entries {fst (snd v), snd (snd v)} (snd (snd (p s))) = seen entries {fst (snd v), snd (snd v)} (snd s)"
  shows "pres (coherent entries v) p"
  unfolding pres_def
proof (intro allI impI)
  fix s
  assume coh: "coherent entries v s"
  have "kept (xb_tcp_map (fst s), xb_udp_map (fst s)) (xb_last_apply_failures (fst s)) s" by (simp add: kept_def)
  from presD [OF assms(2) this] assms(3) [OF coh] coh coherent_fds [OF coh]
  show "coherent entries v (snd (p s))"
    by (simp add: coherent_def kept_def array_coherent_def seen_eq_iff)
qed

lemma tame_coherent:
  assumes "{fst (snd v), snd (snd v)} \<subseteq> owned" and "\<And>w n. pres (kept w n) p"
    and "tame entries {fst (snd v), snd (snd v)} fd_view p"
  shows "pres (coherent entries v) p"
proof (rule kept_coherent [OF assms(1,2)])
  fix s
  assume coh: "coherent entries v s"
  obtain r b' k' where run: "p (fst s, snd s) = (r, (b', k'))" by (metis surj_pair)
  have "fst (fd_view (fst s)) \<inter> {fst (snd v), snd (snd v)} = {}" using coh by (auto simp: coherent_def)
  from tameD [OF assms(3) this run] run
  show "fd_view (fst (snd (p s))) = fd_view (fst s) \<and>
      seen entries {fst (snd v), snd (snd v)} (snd (snd (p s))) = seen entries {fst (snd v), snd (snd v)} (snd s)"
    by simp
qed

lemma set_tcp_coherent:
  assumes "{fst (snd v), snd (snd v)} \<subseteq> owned"
  shows "pres (coherent entries v) (set_tcp K port val dry)"
  unfolding pres_def
proof (intro allI impI)
  fix s
  assume coh: "coherent entries v s"
  note fd = coherent_fds [OF coh]
  obtain r m' k' where run: "array_set K port val dry (xb_tcp_map (fst s), snd s) = (r, (m', k'))" by (metis surj_pair)
  have own: "am_fd (xb_tcp_map (fst s)) \<in> owned" using fd assms by simp
  have "array_coherent entries m' k'" "am_fd m' = am_fd (xb_tcp_map (fst s))"
    using array_set_keeps_coherent [OF own _ run] array_set_open(1) [OF own run] coh by (auto simp: coherent_def)
  moreover have "seen entries {snd (snd v)} k' = seen entries {snd (snd v)} (snd s)"
    using assms fd coh by (intro array_set_frame [OF _ _ run]) (auto simp: coherent_def)
  ultimately show "coherent entries v (snd (set_tcp K port val dry s))"
    using run coh fd by (auto simp: coherent_def set_tcp_def on_part_def fd_view_def other_fds_def array_coherent_def
        seen_eq_iff)
qed

lemma set_udp_coherent:
  assumes "{fst (snd v), snd (snd v)} \<subseteq> owned"
  shows "pres (coherent entries v) (set_udp K port val dry)"
  unfolding pres_def
proof (intro allI impI)
  fix s
  assume coh: "coherent entries v s"
  note fd = coherent_fds [OF coh]
  obtain r m' k' where run: "array_set K port val dry (xb_udp_map (fst s), snd s) = (r, (m', k'))" by (metis surj_pair)
  have own: "am_fd (xb_udp_map (fst s)) \<in> owned" using fd assms by simp
  have "array_coherent entries m' k'" "am_fd m' = am_fd (xb_udp_map (fst s))"
    using array_set_keeps_coherent [OF own _ run] array_set_open(1) [OF own run] coh by (auto simp: coherent_def)
  moreover have "seen entries {fst (snd v)} k' = seen entries {fst (snd v)} (snd s)"
    using assms fd coh by (intro array_set_frame [OF _ _ run]) (auto simp: coherent_def)
  ultimately show "coherent entries v (snd (set_udp K port val dry s))"
    using run coh fd by (auto simp: coherent_def set_udp_def on_part_def fd_view_def other_fds_def array_coherent_def
        seen_eq_iff)
qed

lemma plan_coherent:
  assumes "{fst (snd v), snd (snd v)} \<subseteq> owned"
  shows "pres (coherent entries v) (apply_reconcile_plan K c ords plan dry d)"
proof -
  note tc = tame_coherent [OF assms kept_phases(1) conntrack_steps_tame]
    tame_coherent [OF assms kept_phases(2) apply_sctp_tame] tame_coherent [OF assms kept_phases(3) apply_trusted_tame]
    tame_coherent [OF assms kept_phases(4) apply_limits_tame] tame_coherent [OF assms kept_phases(5) apply_outers_tame]
    tame_coherent [OF assms kept_phases(6) apply_prefixes_tame] tame_coherent [OF assms kept_phases(7) apply_acl_delta_tame]
    tame_coherent [OF assms kept_phases(8) apply_runtime_config_tame]
    tame_coherent [OF assms kept_phases(9) apply_global_rl_tame] tame_coherent [OF assms kept_phases(10) apply_sit4_tame]
  have flows: "pres (coherent entries v) (on_part xb_conntrack_map xb_conntrack_map_update
      (conntracks_delete_dest_ports it K ports dry))"
    "pres (coherent entries v) (on_part xb_udp_conntrack_map xb_udp_conntrack_map_update
      (conntracks_delete_dest_ports it K ports dry))" for it ports
    by (intro tame_coherent assms kept_on_part delete_flows_tame; simp)+
  have "pres (coherent entries v) (prepare_protection K c ords plan dry d)"
    unfolding prepare_protection_def apply_tcp_removals_def apply_udp_removals_def mseqs.simps
    by (intro pres_seq pres_ret pres_when pres_for_all coherent_ok set_tcp_coherent set_udp_coherent tc flows assms)
  moreover have "pres (coherent entries v) (expose_ports K plan dry)"
    unfolding expose_ports_def
    by (intro pres_rules coherent_ok set_tcp_coherent set_udp_coherent assms)
  moreover have "pres (coherent entries v) (set_obj (xb_last_apply_failures_update (\<lambda>_. 0)))"
    by (auto simp: pres_def set_obj_def coherent_def fd_view_def other_fds_def)
  ultimately show ?thesis
    unfolding apply_reconcile_plan_def by (intro pres_seq)
qed

lemma reconcile_coherent:
  assumes "{fst (snd v), snd (snd v)} \<subseteq> owned"
  shows "pres (coherent entries v) (base_reconcile K c ords d dry)"
proof -
  have "pres (coherent entries v) (get_applied_state K)"
  proof (rule kept_coherent [OF assms kept_plan(1)])
    fix s
    show "fd_view (fst (snd (get_applied_state K s))) = fd_view (fst s) \<and>
        seen entries {fst (snd v), snd (snd v)} (snd (snd (get_applied_state K s))) =
        seen entries {fst (snd v), snd (snd v)} (snd s)"
      using keepsD [OF get_applied_state_unmoved [of fd_view], of s] assms by (auto simp: unmoved_def seen_eq_iff)
  qed
  moreover have "fd_view (xb_conntrack_stale_rounds_update f b) = fd_view b" for f b
    by (simp add: fd_view_def other_fds_def)
  then have "tame entries {fst (snd v), snd (snd v)} fd_view (build_reconcile_plan K c ords d a)" for a
    unfolding build_reconcile_plan_def Let_def
    by (intro tame_rules tame_backend_part conntracks_tame tame_set_obj assms)
  then have "pres (coherent entries v) (build_reconcile_plan K c ords d a)" for a
    by (intro tame_coherent [OF assms kept_plan(2)])
  ultimately show ?thesis
    unfolding base_reconcile_def by (intro pres_bind plan_coherent assms)
qed

end

section \<open>Properties\<close>

text \<open>
  C2 (\<open>backends/base.py\<close> and \<open>backends/xdp.py\<close>, \<open>reconcile\<close>): convergence. A reconcile that
  is no dry run, returns and counted no failed update has made exactly the desired TCP and
  UDP ports reachable in the kernel, and the caches say so, provided the caches
  agreed with the kernel before.
\<close>

theorem reconcile_converges:
  assumes "bpf_kernel K entries owned" and "fds_ok owned b"
    and "array_coherent entries (xb_tcp_map b) k" and "array_coherent entries (xb_udp_map b) k"
    and "finite (ds_tcp_ports d \<union> am_cache (xb_tcp_map b))" and "finite (ds_udp_ports d \<union> am_cache (xb_udp_map b))"
    and "reconcile K c ords d False (b, k) = (Inr (), (b', k'))" and "xb_last_apply_failures b' = 0"
  shows "open_ports (entries k' (am_fd (xb_tcp_map b))) = ds_tcp_ports d \<and>
    open_ports (entries k' (am_fd (xb_udp_map b))) = ds_udp_ports d \<and>
    am_cache (xb_tcp_map b') = ds_tcp_ports d \<and> am_cache (xb_udp_map b') = ds_udp_ports d"
proof -
  have base: "base_reconcile K c ords d False (b, k) = (Inr (), (b', k'))"
    using assms(7) by (auto simp: reconcile_def obj_def mfinally_def split: prod.splits)
  then obtain a b1 k1 plan b2 k2 where get: "get_applied_state K (b, k) = (Inr a, (b1, k1))"
    and build: "build_reconcile_plan K c ords d a (b1, k1) = (Inr plan, (b2, k2))"
    and run: "apply_reconcile_plan K c ords plan False d (b2, k2) = (Inr (), (b', k'))"
    by (auto simp: base_reconcile_def mbind_Inr_iff)
  have a: "as_tcp_ports a = am_cache (xb_tcp_map b)" "as_udp_ports a = am_cache (xb_udp_map b)"
    using get by (auto simp: get_applied_state_def mbind_Inr_iff obj_def cached_state_def array_active_ports_def)
  have "kept (xb_tcp_map b, xb_udp_map b) (xb_last_apply_failures b) (b, k)" by (simp add: kept_def)
  from presD [OF kept_plan(2) presD [OF kept_plan(1) this], of K c ords d a K] get build
  have maps: "xb_tcp_map b2 = xb_tcp_map b" "xb_udp_map b2 = xb_udp_map b" by (auto simp: kept_def)
  have c: "caches b' = (ds_tcp_ports d, ds_udp_ports d)"
    using writes_plan [OF run assms(8)] bpf_kernel.build_plan_adds [OF assms(1) build] a maps assms(5,6) by auto
  have own: "{fst (snd (fd_view b)), snd (snd (fd_view b))} \<subseteq> owned"
    using assms(2) by (simp add: fds_ok_def fd_view_def)
  have "coherent entries (fd_view b) (b, k)"
    using assms(2-4) by (auto simp: coherent_def fds_ok_def fd_view_def)
  from presD [OF bpf_kernel.reconcile_coherent [OF assms(1) own] this, of c ords d False] base
  have "coherent entries (fd_view b) (b', k')" by simp
  with coherent_fds [OF this] c show ?thesis
    by (auto simp: coherent_def array_coherent_def caches_def fd_view_def)
qed

theorem reconcile_converges_witness:
  "case reconcile store_kernel ex_config ex_orders ex_desired False (ex_backend, ex_kernel []) of
     (r, (b', k')) \<Rightarrow> r = Inr () \<and> open_ports (kentries k' 1) = {0} \<and> open_ports (kentries k' 2) = {}"
proof -
  let ?run = "reconcile store_kernel ex_config ex_orders ex_desired False (ex_backend, ex_kernel [])"
  obtain r b' k' where run: "?run = (r, (b', k'))" by (metis surj_pair)
  have "fst ?run = Inr ()" "xb_last_apply_failures (fst (snd ?run)) = 0" by code_simp+
  with run have r: "r = Inr ()" "xb_last_apply_failures b' = 0" by simp_all
  have coh: "array_coherent kentries (xb_tcp_map ex_backend) (ex_kernel [])"
    "array_coherent kentries (xb_udp_map ex_backend) (ex_kernel [])" by code_simp+
  have sets: "am_cache (xb_tcp_map ex_backend) = {1}" "am_cache (xb_udp_map ex_backend) = {}"
    "ds_tcp_ports ex_desired = {0}" "ds_udp_ports ex_desired = {}"
    "am_fd (xb_tcp_map ex_backend) = 1" "am_fd (xb_udp_map ex_backend) = 2" by code_simp+
  from reconcile_converges [OF store.bpf_kernel_axioms ex_fds_ok coh _ _ run [unfolded r(1)] r(2)] sets r run
  show ?thesis by simp
qed

section \<open>Missed flows\<close>



























end
