(* ===== verification/HandlerSwap.thy ===== *)
theory HandlerSwap
  imports Json PyHoare
begin

text \<open>
  Loading packet handlers, from \<open>auto_xdp/admin_cli.py\<close>: a handler is a program pinned in the BPF file
  system and named by an entry of a program array. The file system and \<open>bpftool\<close> are a record of
  operations. An operation may fail at any time; what is assumed of the operations is a
  locale of its properties.
\<close>

unbundle bit_operations_syntax

section \<open>The operating system\<close>

text \<open>
  \<open>Path.exists\<close>, \<open>rename\<close>, \<open>unlink\<close>, \<open>shutil.rmtree\<close>, \<open>subprocess.run\<close> with the return code and
  the output, and \<open>json.loads\<close>.
\<close>

record 'k handler_os =
  ho_exists :: "string \<Rightarrow> 'k \<Rightarrow> bool"
  ho_rename :: "string \<Rightarrow> string \<Rightarrow> ('k, unit) pym"
  ho_unlink :: "string \<Rightarrow> ('k, unit) pym"
  ho_rmtree :: "string \<Rightarrow> ('k, unit) pym"
  ho_run :: "string list \<Rightarrow> ('k, int \<times> string) pym"
  ho_json :: "string \<Rightarrow> json res"

text \<open>\<open>except (OSError, RuntimeError)\<close>\<close>

fun is_os_or_runtime :: "py_exn \<Rightarrow> bool" where
  "is_os_or_runtime (OSError n) = True"
| "is_os_or_runtime RuntimeErr = True"
| "is_os_or_runtime _ = False"

text \<open>\<open>try: m / except OSError: pass\<close>\<close>

definition ignore_os :: "('s, unit) pym \<Rightarrow> ('s, unit) pym" where
  "ignore_os m = mtry m (on_oserror (\<lambda>_. ret ()))"

section \<open>Program arrays through bpftool\<close>

definition run_checked :: "'k handler_os \<Rightarrow> string list \<Rightarrow> ('k, string) pym" where
  "run_checked OS cmd =
     mbind (ho_run OS cmd) (\<lambda>(returncode, stdout). if returncode \<noteq> 0 then raise_exn RuntimeErr else ret stdout)"

definition bpf_key_u32 :: "int \<Rightarrow> string list" where
  "bpf_key_u32 val = map (\<lambda>shift. str_of_int (drop_bit shift val AND 0xFF)) [0, 8, 16, 24]"

lemma json_member_size [termination_simp]: "map_of d k = Some w \<Longrightarrow> size w < Suc (size_list (\<lambda>x. Suc (size (snd x))) d)"
  by (induction d) (auto split: if_splits)

fun json_u32 :: "json \<Rightarrow> int res" where
  "json_u32 (JsInt i) = Inr i"
| "json_u32 (JsBool b) = Inr (of_bool b)"
| "json_u32 (JsArr xs) =
     (if 4 \<le> length xs
      then rbind (rmap (\<lambda>x. rbind (json_int0 x) as_byte) (take 4 xs)) (\<lambda>raw. Inr (from_little raw))
      else Inl ValueErr)"
| "json_u32 (JsObj d) =
     (case dict_get d ''id'' of
        Some v \<Rightarrow> json_u32 v
      | None \<Rightarrow> (case dict_get d ''value'' of Some v \<Rightarrow> json_u32 v | None \<Rightarrow> Inl ValueErr))"
| "json_u32 (JsStr s) = int_of_str0 s"
| "json_u32 _ = Inl ValueErr"

definition prog_id_of :: "json res \<Rightarrow> int res" where
  "prog_id_of parsed =
     rbind parsed (\<lambda>payload.
     rbind (case payload of JsArr [] \<Rightarrow> Inl IndexErr | JsArr (x # _) \<Rightarrow> Inr x | _ \<Rightarrow> Inr payload) (\<lambda>payload.
     case payload of
       JsObj d \<Rightarrow> (case dict_get d ''id'' of None \<Rightarrow> Inl KeyErr | Some v \<Rightarrow> json_int v)
     | _ \<Rightarrow> Inl ValueErr))"

definition show_cmd :: "string \<Rightarrow> string list" where
  "show_cmd pin = [''bpftool'', ''-j'', ''prog'', ''show'', ''pinned'', pin]"

definition pinned_program_id :: "'k handler_os \<Rightarrow> string \<Rightarrow> ('k, int) pym" where
  "pinned_program_id OS pin =
     mbind (run_checked OS (show_cmd pin)) (\<lambda>stdout.
     case prog_id_of (ho_json OS stdout) of
       Inr n \<Rightarrow> ret n
     | Inl e \<Rightarrow> raise_exn (if e \<in> {IndexErr, KeyErr, TypeErr, ValueErr} then RuntimeErr else e))"

definition entry_id_of :: "json res \<Rightarrow> int option res" where
  "entry_id_of parsed =
     rbind parsed (\<lambda>payload.
     case payload of
       JsObj d \<Rightarrow> (case dict_get d ''value'' of None \<Rightarrow> Inl KeyErr | Some v \<Rightarrow> rbind (json_u32 v) (\<lambda>n. Inr (Some n)))
     | _ \<Rightarrow> Inr None)"

definition lookup_cmd :: "string \<Rightarrow> int \<Rightarrow> string list" where
  "lookup_cmd map_path key = [''bpftool'', ''-j'', ''map'', ''lookup'', ''pinned'', map_path, ''key''] @ bpf_key_u32 key"

definition prog_array_entry_id :: "'k handler_os \<Rightarrow> string \<Rightarrow> int \<Rightarrow> ('k, int option) pym" where
  "prog_array_entry_id OS map_path key =
     mbind (ho_run OS (lookup_cmd map_path key)) (\<lambda>(returncode, stdout).
     if returncode \<noteq> 0 then ret None
     else case entry_id_of (ho_json OS stdout) of
            Inr v \<Rightarrow> ret v
          | Inl e \<Rightarrow> if e \<in> {KeyErr, TypeErr, ValueErr} then ret None else raise_exn e)"

definition update_cmd :: "string \<Rightarrow> int \<Rightarrow> string \<Rightarrow> string list" where
  "update_cmd map_path key pin =
     [''bpftool'', ''map'', ''update'', ''pinned'', map_path, ''key''] @ bpf_key_u32 key @ [''value'', ''pinned'', pin]"

definition prog_array_update :: "'k handler_os \<Rightarrow> string \<Rightarrow> int \<Rightarrow> string \<Rightarrow> ('k, unit) pym" where
  "prog_array_update OS map_path key prog_pin = mseq (run_checked OS (update_cmd map_path key prog_pin)) (ret ())"

definition delete_cmd :: "string \<Rightarrow> string list \<Rightarrow> string list" where
  "delete_cmd map_path key = [''bpftool'', ''map'', ''delete'', ''pinned'', map_path, ''key''] @ key"

definition prog_array_delete :: "'k handler_os \<Rightarrow> string \<Rightarrow> int \<Rightarrow> ('k, bool) pym" where
  "prog_array_delete OS map_path key =
     mbind (ho_run OS (delete_cmd map_path (bpf_key_u32 key))) (\<lambda>(returncode, _). ret (returncode = 0))"

definition verify_prog_array_entry :: "'k handler_os \<Rightarrow> string \<Rightarrow> int \<Rightarrow> int \<Rightarrow> ('k, unit) pym" where
  "verify_prog_array_entry OS map_path key expected_id =
     mbind (prog_array_entry_id OS map_path key) (\<lambda>actual_id.
     if actual_id \<noteq> Some expected_id then raise_exn RuntimeErr else ret ())"

definition rollback_prog_array_entry ::
  "'k handler_os \<Rightarrow> string \<Rightarrow> int \<Rightarrow> string option \<Rightarrow> int option \<Rightarrow> ('k, unit) pym" where
  "rollback_prog_array_entry OS map_path key old_pin old_id =
     (case (old_pin, old_id) of
        (Some pin, Some oid) \<Rightarrow>
          mseq (prog_array_update OS map_path key pin) (verify_prog_array_entry OS map_path key oid)
      | _ \<Rightarrow>
          mbind (prog_array_delete OS map_path key) (\<lambda>deleted.
          if deleted then ret ()
          else mbind (prog_array_entry_id OS map_path key) (\<lambda>active.
               if active \<noteq> None then raise_exn RuntimeErr else ret ())))"

section \<open>Switching to a new program\<close>

text \<open>
  \<open>_transactional_file_prog_swap\<close> and \<open>_transactional_dir_prog_swap\<close> differ in what a handler is: a
  pin, or a directory with the pin \<open>prog\<close> and the handler's maps. \<open>sfx\<close> is what leads from the one to
  the other. First the check, before anything is changed.
\<close>

definition swap_check :: "'k handler_os \<Rightarrow> string \<Rightarrow> int \<Rightarrow> string \<Rightarrow> string \<Rightarrow> ('k, int \<times> bool \<times> int option) pym" where
  "swap_check OS map_path key candidate_pin live_pin =
     mbind (pinned_program_id OS candidate_pin) (\<lambda>candidate_id.
     mbind (gets (ho_exists OS live_pin)) (\<lambda>old_exists.
     mbind (if old_exists then mbind (pinned_program_id OS live_pin) (\<lambda>i. ret (Some i)) else ret None) (\<lambda>old_id.
     mbind (prog_array_entry_id OS map_path key) (\<lambda>active_id.
     if old_id = None \<and> active_id \<noteq> None then raise_exn RuntimeErr
     else if old_id \<noteq> None \<and> active_id \<notin> {None, old_id} then raise_exn RuntimeErr
     else ret (candidate_id, old_exists, old_id)))))"

text \<open>The variables the \<open>except\<close> clause reads.\<close>

record swap_run =
  sw_switched :: bool
  sw_moved_old :: bool
  sw_moved_candidate :: bool
  sw_old_pin :: "string option"

definition swap_start :: "bool \<Rightarrow> string \<Rightarrow> swap_run" where
  "swap_start old_exists live_pin =
     \<lparr>sw_switched = False, sw_moved_old = False, sw_moved_candidate = False,
      sw_old_pin = (if old_exists then Some live_pin else None)\<rparr>"

definition swap_commit ::
  "'k handler_os \<Rightarrow> string \<Rightarrow> string \<Rightarrow> int \<Rightarrow> string \<Rightarrow> string \<Rightarrow> string \<Rightarrow> int \<Rightarrow> bool \<Rightarrow> ('k, bool) pym \<Rightarrow>
     (swap_run \<times> 'k, unit) pym" where
  "swap_commit OS sfx map_path key candidate live backup candidate_id old_exists move_old =
     mseq (kern (prog_array_update OS map_path key (candidate @ sfx)))
    (mseq (set_obj (sw_switched_update (\<lambda>_. True)))
    (mseq (kern (verify_prog_array_entry OS map_path key candidate_id))
    (mseq (mbind (kern move_old) (\<lambda>move.
             mwhen move
               (mseq (kern (ho_rename OS live backup))
                     (set_obj (\<lambda>run. run\<lparr>sw_moved_old := True,
                        sw_old_pin := (if old_exists then Some (backup @ sfx) else None)\<rparr>)))))
    (mseq (kern (ho_rename OS candidate live))
    (mseq (set_obj (sw_moved_candidate_update (\<lambda>_. True)))
    (mseq (kern (verify_prog_array_entry OS map_path key candidate_id))
          (mbind (kern (pinned_program_id OS (live @ sfx))) (\<lambda>committed.
             if committed \<noteq> candidate_id then raise_exn RuntimeErr else ret ()))))))))"

text \<open>
  The two \<open>RuntimeError\<close>s at the end of the \<open>except\<close> clause are told apart by their text: the
  previous program was restored, or the roll back failed as well.
\<close>

datatype swap_end = Committed | PreviousRestored | RollbackFailed

definition swap_undo ::
  "'k handler_os \<Rightarrow> string \<Rightarrow> int \<Rightarrow> string \<Rightarrow> string \<Rightarrow> string \<Rightarrow> int option \<Rightarrow> ('k, unit) pym \<Rightarrow>
     (swap_run \<times> 'k, swap_end) pym" where
  "swap_undo OS map_path key candidate live backup old_id discard =
     mbind (obj (\<lambda>run. run)) (\<lambda>run.
     mbind (kern (if sw_switched run
                  then mtry (mseq (rollback_prog_array_entry OS map_path key (sw_old_pin run) old_id) (ret False))
                         (\<lambda>e. if is_os_or_runtime e then Some (ret True) else None)
                  else ret False)) (\<lambda>rollback_error.
     mseq (kern (mbind (gets (ho_exists OS live)) (\<lambda>live_exists.
             mwhen (sw_moved_candidate run \<and> live_exists) (ignore_os (ho_rename OS live candidate)))))
    (mseq (kern (mbind (gets (\<lambda>k. ho_exists OS backup k \<and> \<not> ho_exists OS live k)) (\<lambda>back.
             mwhen (sw_moved_old run \<and> back) (ignore_os (ho_rename OS backup live)))))
    (if rollback_error then ret RollbackFailed
     else mseq (kern (mbind (gets (ho_exists OS candidate)) (\<lambda>left. mwhen left discard)))
               (ret PreviousRestored)))))"

text \<open>A body on the variables of the function, which start as \<open>swap_start\<close>.\<close>

definition with_run :: "swap_run \<Rightarrow> (swap_run \<times> 'k, 'a) pym \<Rightarrow> ('k, 'a \<times> swap_run) pym" where
  "with_run run m k = (case m (run, k) of (r, (run', k')) \<Rightarrow> (map_sum (\<lambda>e. e) (\<lambda>x. (x, run')) r, k'))"

definition file_prog_swap :: "'k handler_os \<Rightarrow> string \<Rightarrow> string \<Rightarrow> int \<Rightarrow> string \<Rightarrow> string \<Rightarrow> ('k, swap_end) pym" where
  "file_prog_swap OS token map_path key candidate_pin live_pin =
     mbind (mtry (swap_check OS map_path key candidate_pin live_pin)
              (\<lambda>e. if is_os_or_runtime e
                   then Some (mseq (mbind (gets (ho_exists OS candidate_pin)) (\<lambda>left.
                                      mwhen left (ignore_os (ho_unlink OS candidate_pin))))
                                   (raise_exn e))
                   else None)) (\<lambda>(candidate_id, old_exists, old_id).
     let backup_pin = live_pin @ ''_rollback_'' @ token in
     mbind (with_run (swap_start old_exists live_pin)
              (mtry (mseq (swap_commit OS [] map_path key candidate_pin live_pin backup_pin candidate_id old_exists
                             (ret old_exists))
                    (mseq (mbind (obj sw_moved_old) (\<lambda>moved. mwhen moved (kern (ho_unlink OS backup_pin))))
                          (ret Committed)))
                 (\<lambda>e. if is_os_or_runtime e
                      then Some (swap_undo OS map_path key candidate_pin live_pin backup_pin old_id
                                   (ignore_os (ho_unlink OS candidate_pin)))
                      else None))) (\<lambda>(how, run). ret how))"

definition dir_prog_swap :: "'k handler_os \<Rightarrow> string \<Rightarrow> string \<Rightarrow> int \<Rightarrow> string \<Rightarrow> string \<Rightarrow> ('k, swap_end) pym" where
  "dir_prog_swap OS token map_path key candidate_dir live_dir =
     mbind (mtry (swap_check OS map_path key (candidate_dir @ ''/prog'') (live_dir @ ''/prog''))
              (\<lambda>e. if is_os_or_runtime e
                   then Some (mseq (ignore_os (ho_rmtree OS candidate_dir)) (raise_exn e))
                   else None)) (\<lambda>(candidate_id, old_exists, old_id).
     let backup_dir = live_dir @ ''_rollback_'' @ token in
     mbind (with_run (swap_start old_exists (live_dir @ ''/prog''))
              (mtry (mseq (swap_commit OS ''/prog'' map_path key candidate_dir live_dir backup_dir candidate_id old_exists
                             (gets (ho_exists OS live_dir)))
                          (ret Committed))
                 (\<lambda>e. if is_os_or_runtime e
                      then Some (swap_undo OS map_path key candidate_dir live_dir backup_dir old_id
                                   (ignore_os (ho_rmtree OS candidate_dir)))
                      else None))) (\<lambda>(how, run).
     mseq (mwhen (how = Committed \<and> sw_moved_old run) (ignore_os (ho_rmtree OS backup_dir)))
          (ret how)))"

end
