(* ===== verification/HandlerProps.thy ===== *)
theory HandlerProps
  imports HandlerSwap
begin

text \<open>
  Loading a handler is a transaction: the properties of the two swap functions of
  \<open>auto_xdp/admin_cli.py\<close>, over everything the file system and \<open>bpftool\<close> may answer.
\<close>

section \<open>What is relied on\<close>

text \<open>The BPF file system: programs pinned at paths, directories, and other files.\<close>

datatype node = Pin int | Dir | Other

type_synonym nodes = "string \<Rightarrow> node option"
type_synonym entries = "string \<Rightarrow> int \<Rightarrow> int option"

definition sub_path :: "string \<Rightarrow> bool" where
  "sub_path q \<longleftrightarrow> q = [] \<or> hd q = CHR ''/''"

definition below :: "string \<Rightarrow> string \<Rightarrow> bool" where
  "below a p \<longleftrightarrow> (\<exists>q. sub_path q \<and> p = a @ q)"

definition apart :: "string \<Rightarrow> string \<Rightarrow> bool" where
  "apart a b \<longleftrightarrow> \<not> below a b \<and> \<not> below b a"

definition moved :: "string \<Rightarrow> string \<Rightarrow> nodes \<Rightarrow> nodes" where
  "moved a b N = (\<lambda>p. if below a p then None else if below b p then N (a @ drop (length b) p) else N p)"

definition with_entry :: "entries \<Rightarrow> string \<Rightarrow> int \<Rightarrow> int option \<Rightarrow> entries" where
  "with_entry E m key v = E(m := (E m)(key := v))"

text \<open>The four bytes of a key on a command line; a number is cut to a byte.\<close>

definition bpftool_key :: "string list \<Rightarrow> int" where
  "bpftool_key args = from_little (map (\<lambda>s. int (nat_of_digits s) mod 256) args)"

text \<open>
  \<open>nodes\<close> and \<open>entries\<close> are the files and the program arrays. A rename and an unlink happen or raise an
  \<open>OSError\<close>; a removal of a tree may stop half way. \<open>bpftool\<close> may fail without a reason; if it
  ends with code 0 it did what it was asked, and its answer is true. \<open>obs\<close> collects arrays that were
  observed on the way.
\<close>

locale handler_kernel =
  fixes OS :: "'k handler_os"
    and nodes :: "'k \<Rightarrow> nodes"
    and entries :: "'k \<Rightarrow> entries"
    and obs :: "'k \<Rightarrow> entries set"
  assumes exists_law: "ho_exists OS p k \<longleftrightarrow> nodes k p \<noteq> None"
    and rename_law: "apart a b \<Longrightarrow> ho_rename OS a b k = (r, k') \<Longrightarrow> entries k' = entries k \<and> obs k' \<subseteq> insert (entries k') (obs k) \<and>
      (case r of Inr _ \<Rightarrow> nodes k a \<noteq> None \<and> nodes k' = moved a b (nodes k)
       | Inl e \<Rightarrow> nodes k' = nodes k \<and> (\<exists>n. e = OSError n))"
    and unlink_law: "ho_unlink OS p k = (r, k') \<Longrightarrow> entries k' = entries k \<and> obs k' \<subseteq> insert (entries k') (obs k) \<and>
      (case r of Inr _ \<Rightarrow> nodes k' = (nodes k)(p := None)
       | Inl e \<Rightarrow> nodes k' = nodes k \<and> (\<exists>n. e = OSError n))"
    and rmtree_law: "ho_rmtree OS p k = (r, k') \<Longrightarrow> entries k' = entries k \<and> obs k' \<subseteq> insert (entries k') (obs k) \<and>
      (\<forall>q. nodes k' q = nodes k q \<or> below p q \<and> nodes k' q = None) \<and>
      (case r of Inr _ \<Rightarrow> \<forall>q. below p q \<longrightarrow> nodes k' q = None | Inl e \<Rightarrow> \<exists>n. e = OSError n)"
    and show_law: "ho_run OS (show_cmd p) k = (q, k') \<Longrightarrow>
      nodes k' = nodes k \<and> entries k' = entries k \<and> obs k' \<subseteq> insert (entries k') (obs k) \<and>
      (case q of
         Inr (code, out) \<Rightarrow> code = 0 \<longrightarrow>
           (case prog_id_of (ho_json OS out) of
              Inr n \<Rightarrow> nodes k p = Some (Pin n) | Inl e \<Rightarrow> e \<in> {IndexErr, KeyErr, TypeErr, ValueErr})
       | Inl e \<Rightarrow> \<exists>n. e = OSError n)"
    and lookup_law: "0 \<le> key \<Longrightarrow> key < 2 ^ 32 \<Longrightarrow> ho_run OS (lookup_cmd m key) k = (q, k') \<Longrightarrow>
      nodes k' = nodes k \<and> entries k' = entries k \<and> obs k' \<subseteq> insert (entries k') (obs k) \<and>
      (case q of
         Inr (code, out) \<Rightarrow> code = 0 \<longrightarrow>
           (case entry_id_of (ho_json OS out) of
              Inr (Some n) \<Rightarrow> entries k m key = Some n | Inr None \<Rightarrow> True | Inl e \<Rightarrow> e \<in> {KeyErr, TypeErr, ValueErr})
       | Inl e \<Rightarrow> \<exists>n. e = OSError n)"
    and update_law: "0 \<le> key \<Longrightarrow> key < 2 ^ 32 \<Longrightarrow> ho_run OS (update_cmd m key p) k = (q, k') \<Longrightarrow>
      nodes k' = nodes k \<and> obs k' \<subseteq> insert (entries k') (obs k) \<and>
      (case q of
         Inr (code, out) \<Rightarrow>
           if code = 0 then \<exists>n. nodes k p = Some (Pin n) \<and> entries k' = with_entry (entries k) m key (Some n)
           else entries k' = entries k
       | Inl e \<Rightarrow> entries k' = entries k \<and> (\<exists>n. e = OSError n))"
    and delete_law: "length args = 4 \<Longrightarrow> ho_run OS (delete_cmd m args) k = (q, k') \<Longrightarrow>
      nodes k' = nodes k \<and> obs k' \<subseteq> insert (entries k') (obs k) \<and>
      (case q of
         Inr (code, out) \<Rightarrow> entries k' = (if code = 0 then with_entry (entries k) m (bpftool_key args) None else entries k)
       | Inl e \<Rightarrow> entries k' = entries k \<and> (\<exists>n. e = OSError n))"

lemma key_of_bytes:
  assumes "0 \<le> key" "key < 2 ^ 32"
  shows "bpftool_key (bpf_key_u32 key) = key"
proof -
  have byte: "drop_bit n key AND 255 = key div 2 ^ n mod 256" for n
    using take_bit_eq_mask [of 8 "drop_bit n key"] by (simp add: mask_eq_exp_minus_1 drop_bit_eq_div take_bit_eq_mod)
  have pos: "int (nat_of_digits (str_of_int x)) = x" if "0 \<le> x" for x
    using that by (simp add: str_of_int_def)
  have "bpftool_key (bpf_key_u32 key) = key mod 256 + 256 * (key div 256 mod 256 + 256 * (key div 65536 mod 256 +
      256 * (key div 16777216 mod 256)))"
    using assms(1) by (simp add: bpftool_key_def bpf_key_u32_def byte pos pos_imp_zdiv_nonneg_iff)
  moreover have "key div 16777216 mod 256 = key div 16777216" using assms by (intro mod_pos_pos_trivial) auto
  moreover have "key div 65536 = key div 256 div 256" "key div 16777216 = key div 65536 div 256"
    by (simp_all flip: div_mult2_eq)
  ultimately show ?thesis by (metis mod_mult_div_eq add.commute mult.commute)
qed

section \<open>The operations\<close>

text \<open>The state of files and arrays, where only the arrays of \<open>V\<close> were observed.\<close>

definition os_at ::
  "('k \<Rightarrow> nodes) \<Rightarrow> ('k \<Rightarrow> entries) \<Rightarrow> ('k \<Rightarrow> entries set) \<Rightarrow> entries set \<Rightarrow> nodes \<Rightarrow> entries \<Rightarrow> 'k \<Rightarrow> bool" where
  "os_at nodes entries obs V N E k \<longleftrightarrow> nodes k = N \<and> entries k = E \<and> E \<in> V \<and> obs k \<subseteq> V"

context handler_kernel
begin

abbreviation osat :: "entries set \<Rightarrow> nodes \<Rightarrow> entries \<Rightarrow> 'k \<Rightarrow> bool" where
  "osat \<equiv> os_at nodes entries obs"

abbreviation stuck :: "entries set \<Rightarrow> nodes \<Rightarrow> entries \<Rightarrow> py_exn \<Rightarrow> 'k \<Rightarrow> bool" where
  "stuck V N E \<equiv> \<lambda>e s. is_os_or_runtime e \<and> osat V N E s"

lemma exists_at: "osat V N E k \<Longrightarrow> ho_exists OS p k \<longleftrightarrow> N p \<noteq> None"
  by (simp add: exists_law os_at_def)

lemma rename_valid:
  assumes "apart a b"
  shows "valid (osat V N E) (ho_rename OS a b) (\<lambda>_ s. N a \<noteq> None \<and> osat V (moved a b N) E s) (stuck V N E)"
  by (rule validI) (fastforce simp: os_at_def dest: rename_law [OF assms])+

lemma unlink_valid: "valid (osat V N E) (ho_unlink OS p) (\<lambda>_ s. osat V (N(p := None)) E s) (stuck V N E)"
  by (rule validI) (fastforce simp: os_at_def dest: unlink_law)+

lemma show_valid:
  "valid (osat V N E) (pinned_program_id OS p) (\<lambda>n s. N p = Some (Pin n) \<and> osat V N E s) (stuck V N E)"
  unfolding pinned_program_id_def run_checked_def
  by (rule validI; clarsimp simp: mbind_def os_at_def split: prod.splits sum.splits if_splits; drule show_law)
    (auto split: sum.splits if_splits)

lemma lookup_valid:
  assumes "0 \<le> key" "key < 2 ^ 32"
  shows "valid (osat V N E) (prog_array_entry_id OS m key)
    (\<lambda>v s. (case v of None \<Rightarrow> True | Some n \<Rightarrow> E m key = Some n) \<and> osat V N E s) (stuck V N E)"
  unfolding prog_array_entry_id_def
  by (rule validI; clarsimp simp: mbind_def os_at_def split: prod.splits sum.splits if_splits; drule lookup_law [OF assms])
    (auto split: sum.splits if_splits option.splits)

lemma update_valid:
  assumes "0 \<le> key" "key < 2 ^ 32" and "\<And>n. N p = Some (Pin n) \<Longrightarrow> with_entry E m key (Some n) \<in> V"
  shows "valid (osat V N E) (prog_array_update OS m key p)
    (\<lambda>_ s. \<exists>n. N p = Some (Pin n) \<and> osat V N (with_entry E m key (Some n)) s) (stuck V N E)"
  unfolding prog_array_update_def run_checked_def mseq_def
  by (rule validI; clarsimp simp: mbind_def os_at_def split: prod.splits sum.splits if_splits;
      drule update_law [OF assms(1,2)]; use assms(3) in \<open>fastforce split: sum.splits if_splits\<close>)

lemma delete_valid:
  assumes "0 \<le> key" "key < 2 ^ 32" and "with_entry E m key None \<in> V"
  shows "valid (osat V N E) (prog_array_delete OS m key)
    (\<lambda>ok. osat V N (if ok then with_entry E m key None else E)) (stuck V N E)"
  unfolding prog_array_delete_def
  by (rule validI; clarsimp simp: mbind_def os_at_def split: prod.splits sum.splits if_splits;
      drule delete_law [rotated]; use assms in \<open>auto simp: key_of_bytes bpf_key_u32_def [THEN arg_cong [where f = length]]\<close>)

lemma verify_valid:
  assumes "0 \<le> key" "key < 2 ^ 32"
  shows "valid (osat V N E) (verify_prog_array_entry OS m key x) (\<lambda>_ s. E m key = Some x \<and> osat V N E s) (stuck V N E)"
  unfolding verify_prog_array_entry_def
  by (rule valid_bind [OF lookup_valid [OF assms]]) (auto intro: valid_ret valid_raise simp: valid_def ret_def raise_exn_def)

text \<open>A roll back to a pinned program, or to no program.\<close>

lemma rollback_valid:
  assumes "0 \<le> key" "key < 2 ^ 32"
    and "\<And>n. N p = Some (Pin n) \<Longrightarrow> with_entry E m key (Some n) \<in> V"
  shows "valid (osat V N E) (rollback_prog_array_entry OS m key (Some p) (Some x))
    (\<lambda>_ s. N p = Some (Pin x) \<and> osat V N (with_entry E m key (Some x)) s)
    (\<lambda>e s. is_os_or_runtime e \<and> (osat V N E s \<or> (\<exists>n. N p = Some (Pin n) \<and> osat V N (with_entry E m key (Some n)) s)))"
proof -
  let ?Err = "\<lambda>e s. is_os_or_runtime e \<and> (osat V N E s \<or> (\<exists>n. N p = Some (Pin n) \<and> osat V N (with_entry E m key (Some n)) s))"
  have update: "valid (osat V N E) (prog_array_update OS m key p)
      (\<lambda>_ s. \<exists>n. N p = Some (Pin n) \<and> osat V N (with_entry E m key (Some n)) s) ?Err"
    by (rule valid_weaken [OF update_valid [OF assms]]) auto
  have verify: "valid (\<lambda>s. \<exists>n. N p = Some (Pin n) \<and> osat V N (with_entry E m key (Some n)) s)
      (verify_prog_array_entry OS m key x) (\<lambda>_ s. N p = Some (Pin x) \<and> osat V N (with_entry E m key (Some x)) s) ?Err"
    by (rule validI; elim exE conjE; drule (1) validD1 [OF verify_valid [OF assms(1,2)]] validD2 [OF verify_valid [OF assms(1,2)]])
      (auto simp: with_entry_def)
  from valid_seq [OF update verify] show ?thesis by (simp add: rollback_prog_array_entry_def)
qed

lemma rollback_none_valid:
  assumes "0 \<le> key" "key < 2 ^ 32" and "with_entry E m key None \<in> V" and "pin = None \<or> oid = None"
  shows "valid (osat V N E) (rollback_prog_array_entry OS m key pin oid)
    (\<lambda>_ s. osat V N E s \<or> osat V N (with_entry E m key None) s) (stuck V N E)"
proof -
  have "valid (osat V N E) (mbind (prog_array_delete OS m key) (\<lambda>deleted. if deleted then ret ()
        else mbind (prog_array_entry_id OS m key) (\<lambda>active. if active \<noteq> None then raise_exn RuntimeErr else ret ())))
    (\<lambda>_ s. osat V N E s \<or> osat V N (with_entry E m key None) s) (stuck V N E)"
  proof (rule valid_bind [OF delete_valid [OF assms(1-3)]])
    fix deleted
    show "valid (osat V N (if deleted then with_entry E m key None else E)) (if deleted then ret ()
        else mbind (prog_array_entry_id OS m key) (\<lambda>active. if active \<noteq> None then raise_exn RuntimeErr else ret ()))
      (\<lambda>_ s. osat V N E s \<or> osat V N (with_entry E m key None) s) (stuck V N E)"
      by (cases deleted) (simp_all add: valid_ret,
          rule valid_bind [OF lookup_valid [OF assms(1,2)]], auto simp: valid_def ret_def raise_exn_def)
  qed
  moreover have "rollback_prog_array_entry OS m key pin oid = mbind (prog_array_delete OS m key) (\<lambda>deleted. if deleted then ret ()
        else mbind (prog_array_entry_id OS m key) (\<lambda>active. if active \<noteq> None then raise_exn RuntimeErr else ret ()))"
    using assms(4) by (auto simp: rollback_prog_array_entry_def split: option.splits)
  ultimately show ?thesis by simp
qed

lemma check_valid:
  assumes "0 \<le> key" "key < 2 ^ 32"
  shows "valid (osat V N E) (swap_check OS m key cp lp)
    (\<lambda>(c, ex, old) s. N cp = Some (Pin c) \<and> (ex \<longleftrightarrow> N lp \<noteq> None) \<and>
       (case old of None \<Rightarrow> N lp = None | Some x \<Rightarrow> N lp = Some (Pin x)) \<and> osat V N E s) (stuck V N E)"
  unfolding swap_check_def
proof (rule valid_bind [OF show_valid], rule valid_pre)
  fix c
  assume c: "N cp = Some (Pin c)"
  let ?live = "\<lambda>ex old. (ex \<longleftrightarrow> N lp \<noteq> None) \<and> (case old of None \<Rightarrow> N lp = None | Some x \<Rightarrow> N lp = Some (Pin x))"
  have found: "valid (osat V N E) (if ex then mbind (pinned_program_id OS lp) (\<lambda>i. ret (Some i)) else ret None)
      (\<lambda>old s. ?live ex old \<and> osat V N E s) (stuck V N E)" if "ex \<longleftrightarrow> N lp \<noteq> None" for ex
    using that valid_bind [OF show_valid, where f = "\<lambda>i. ret (Some i)"]
    by (cases ex) (auto simp: valid_def ret_def)
  have look: "valid (osat V N E) (mbind (prog_array_entry_id OS m key) (\<lambda>active_id.
      if old = None \<and> active_id \<noteq> None then raise_exn RuntimeErr
      else if old \<noteq> None \<and> active_id \<notin> {None, old} then raise_exn RuntimeErr else ret (c, ex, old)))
      (\<lambda>(c, ex, old) s. N cp = Some (Pin c) \<and> ?live ex old \<and> osat V N E s) (stuck V N E)" if "?live ex old" for ex old
    by (rule valid_bind [OF lookup_valid [OF assms]]) (use c that in \<open>auto simp: valid_def ret_def raise_exn_def\<close>)
  have "valid (\<lambda>s. ex = ho_exists OS lp s \<and> osat V N E s) (mbind (if ex then mbind (pinned_program_id OS lp) (\<lambda>i. ret (Some i)) else ret None)
      (\<lambda>old. mbind (prog_array_entry_id OS m key) (\<lambda>active_id.
        if old = None \<and> active_id \<noteq> None then raise_exn RuntimeErr
        else if old \<noteq> None \<and> active_id \<notin> {None, old} then raise_exn RuntimeErr else ret (c, ex, old))))
      (\<lambda>(c, ex, old) s. N cp = Some (Pin c) \<and> ?live ex old \<and> osat V N E s) (stuck V N E)" for ex
  proof (cases "ex \<longleftrightarrow> N lp \<noteq> None")
    case True
    show ?thesis
      by (rule valid_weaken [OF valid_bind [OF found [OF True] valid_pre [OF look]]]) auto
  qed (auto simp: valid_def exists_at)
  then show "valid (osat V N E) (mbind (gets (ho_exists OS lp)) (\<lambda>ex.
      mbind (if ex then mbind (pinned_program_id OS lp) (\<lambda>i. ret (Some i)) else ret None)
      (\<lambda>old. mbind (prog_array_entry_id OS m key) (\<lambda>active_id.
        if old = None \<and> active_id \<noteq> None then raise_exn RuntimeErr
        else if old \<noteq> None \<and> active_id \<notin> {None, old} then raise_exn RuntimeErr else ret (c, ex, old)))))
      (\<lambda>(c, ex, old) s. N cp = Some (Pin c) \<and> (ex \<longleftrightarrow> N lp \<noteq> None) \<and>
         (case old of None \<Rightarrow> N lp = None | Some x \<Rightarrow> N lp = Some (Pin x)) \<and> osat V N E s) (stuck V N E)"
    by (auto simp: valid_def split: prod.splits)
qed

lemma rename_quiet:
  assumes "apart a b"
  shows "valid (osat V N E) (ignore_os (ho_rename OS a b))
    (\<lambda>_ s. osat V N E s \<or> N a \<noteq> None \<and> osat V (moved a b N) E s) (\<lambda>_ _. False)"
  unfolding ignore_os_def
  by (rule validI; clarsimp simp: mtry_def os_at_def split: prod.splits sum.splits; drule rename_law [OF assms])
    (auto simp: ret_def split: sum.splits option.splits)

end

section \<open>Moving trees\<close>

definition gone :: "nodes \<Rightarrow> string \<Rightarrow> bool" where
  "gone N x \<longleftrightarrow> (\<forall>p. below x p \<longrightarrow> N p = None)"

text \<open>What lies at \<open>x\<close> in \<open>N\<close> lay at \<open>y\<close> in \<open>N'\<close>.\<close>

definition tree_at :: "nodes \<Rightarrow> string \<Rightarrow> nodes \<Rightarrow> string \<Rightarrow> bool" where
  "tree_at N x N' y \<longleftrightarrow> (\<forall>q. sub_path q \<longrightarrow> N (x @ q) = N' (y @ q))"

lemma below_sub [simp]: "sub_path q \<Longrightarrow> below a (a @ q)"
  by (auto simp: below_def)

lemma below_self [simp]: "below a a"
  using below_sub [of "[]" a] by (simp add: sub_path_def)

lemma apart_sym: "apart a b \<Longrightarrow> apart b a"
  by (auto simp: apart_def)

lemma apart_not_below:
  assumes "apart a b" "below a p"
  shows "\<not> below b p"
proof
  assume "below b p"
  with assms(2) obtain q r where q: "sub_path q" "p = a @ q" and r: "sub_path r" "p = b @ r" by (auto simp: below_def)
  then obtain u where "a = b @ u \<and> u @ q = r \<or> a @ u = b \<and> q = u @ r" by (auto simp: append_eq_append_conv2)
  moreover have "sub_path u" if "u @ q = r \<or> q = u @ r"
    using that q(1) r(1) by (cases u) (auto simp: sub_path_def)
  ultimately show False using assms(1) by (auto simp: apart_def below_def)
qed

lemma moved_simps:
  assumes "apart a b"
  shows "tree_at (moved a b N) b N a" "gone (moved a b N) a"
    "\<not> below a p \<Longrightarrow> \<not> below b p \<Longrightarrow> moved a b N p = N p"
  using apart_not_below [OF apart_sym [OF assms]] by (auto simp: tree_at_def gone_def moved_def)

lemma moved_elsewhere: "apart a x \<Longrightarrow> apart b x \<Longrightarrow> tree_at N x N' y \<Longrightarrow> tree_at (moved a b N) x N' y"
  using apart_not_below [OF apart_sym [of a x]] apart_not_below [OF apart_sym [of b x]]
  by (auto simp: tree_at_def moved_def)

lemma tree_at_trans: "tree_at N x N' y \<Longrightarrow> tree_at N' y N'' z \<Longrightarrow> tree_at N x N'' z"
  by (auto simp: tree_at_def)

lemma tree_at_refl [simp]: "tree_at N x N x"
  by (simp add: tree_at_def)

lemma tree_at_self: "tree_at N x N' y \<Longrightarrow> N x = N' y"
  by (auto simp: tree_at_def sub_path_def dest: spec [of _ "[]"])

lemma gone_tree: "gone N' y \<Longrightarrow> tree_at N x N' y \<longleftrightarrow> gone N x"
  by (auto simp: tree_at_def gone_def below_def)

section \<open>A switch in progress\<close>

text \<open>
  A switch of one handler. The program of the candidate is \<open>c\<close>, that of the live handler \<open>old\<close>; \<open>V\<close> are
  the arrays that may be observed.
\<close>

locale swap_setting = handler_kernel OS nodes entries obs
  for OS :: "'k handler_os" and nodes entries obs +
  fixes V :: "entries set" and N0 :: nodes and E0 :: entries and m :: string and key :: int
    and sfx cand live backup :: string and c :: int and old :: "int option"
  assumes key: "0 \<le> key" "key < 2 ^ 32"
    and places: "apart cand live" "apart cand backup" "apart live backup"
    and sub_sfx: "sub_path sfx"
    and fresh: "gone N0 backup"
    and no_orphans: "N0 live = None \<Longrightarrow> gone N0 live"
    and candidate_pin: "N0 (cand @ sfx) = Some (Pin c)"
    and candidate_there: "N0 cand \<noteq> None"
    and live_pin: "N0 (live @ sfx) = map_option Pin old"
    and observable: "with_entry E0 m key (Some c) \<in> V" "with_entry E0 m key old \<in> V" "E0 \<in> V"

text \<open>Where the trees of the handlers are: as at the start, the old one moved, or both.\<close>

datatype shape = AsBefore | OldMoved | BothMoved

context swap_setting
begin

abbreviation others :: "nodes \<Rightarrow> bool" where
  "others N \<equiv> \<forall>p. \<not> below cand p \<longrightarrow> \<not> below live p \<longrightarrow> \<not> below backup p \<longrightarrow> N p = N0 p"

fun has_shape :: "shape \<Rightarrow> nodes \<Rightarrow> bool" where
  "has_shape AsBefore N \<longleftrightarrow> tree_at N live N0 live \<and> gone N backup \<and> tree_at N cand N0 cand \<and> others N"
| "has_shape OldMoved N \<longleftrightarrow> gone N live \<and> tree_at N backup N0 live \<and> tree_at N cand N0 cand \<and> others N"
| "has_shape BothMoved N \<longleftrightarrow> tree_at N live N0 cand \<and> tree_at N backup N0 live \<and> gone N cand \<and> others N"

lemma start_shape: "has_shape AsBefore N0"
  using fresh by simp

lemma shape_moves:
  "has_shape AsBefore N \<Longrightarrow> has_shape OldMoved (moved live backup N)"
  "has_shape OldMoved N \<Longrightarrow> has_shape BothMoved (moved cand live N)"
  "has_shape BothMoved N \<Longrightarrow> has_shape OldMoved (moved live cand N)"
  "has_shape OldMoved N \<Longrightarrow> has_shape AsBefore (moved backup live N)"
  using places apart_sym [OF places(1)] apart_sym [OF places(2)] apart_sym [OF places(3)]
  by (auto intro: moved_elsewhere moved_simps(1,2) tree_at_trans [OF moved_simps(1)] simp: moved_simps(3))

text \<open>Without an old handler the first two shapes are the same.\<close>

lemma shape_without_old: "gone N0 live \<Longrightarrow> has_shape AsBefore N \<longleftrightarrow> has_shape OldMoved N"
  by (auto simp: gone_tree)

definition kept :: "nodes \<Rightarrow> bool" where
  "kept N \<longleftrightarrow> (\<forall>x. old = Some x \<longrightarrow> N (live @ sfx) = Some (Pin x) \<or> N (backup @ sfx) = Some (Pin x)) \<and> others N"

lemma shape_kept: "has_shape sh N \<Longrightarrow> kept N"
  using live_pin sub_sfx by (cases sh) (auto simp: kept_def tree_at_def)

lemma shape_candidate: "has_shape sh N \<Longrightarrow> N (cand @ sfx) = Some (Pin c) \<or> N (live @ sfx) = Some (Pin c)"
  using candidate_pin sub_sfx by (cases sh) (auto simp: tree_at_def)

text \<open>The variables of the function at each stage, and the state with them.\<close>

definition run_of :: "bool \<Rightarrow> shape \<Rightarrow> swap_run" where
  "run_of sw sh =
     \<lparr>sw_switched = sw, sw_moved_old = (sh \<noteq> AsBefore \<and> N0 live \<noteq> None), sw_moved_candidate = (sh = BothMoved),
      sw_old_pin = (if old = None then None else Some ((if sh = AsBefore then live else backup) @ sfx))\<rparr>"

definition arrays :: "bool \<Rightarrow> entries" where
  "arrays sw = (if sw then with_entry E0 m key (Some c) else E0)"

definition mid :: "swap_run \<Rightarrow> bool \<Rightarrow> shape \<Rightarrow> swap_run \<times> 'k \<Rightarrow> bool" where
  "mid run sw sh s \<longleftrightarrow> fst s = run \<and> (\<exists>N. has_shape sh N \<and> osat V N (arrays sw) (snd s))"

abbreviation stage :: "bool \<Rightarrow> shape \<Rightarrow> swap_run \<times> 'k \<Rightarrow> bool" where
  "stage sw sh \<equiv> mid (run_of sw sh) sw sh"

definition halted :: "py_exn \<Rightarrow> swap_run \<times> 'k \<Rightarrow> bool" where
  "halted e s \<longleftrightarrow> is_os_or_runtime e \<and> (stage False AsBefore s \<or> (\<exists>sh. stage True sh s))"

lemma mid_kern:
  assumes "\<And>N. has_shape sh N \<Longrightarrow> valid (osat V N (arrays sw)) p
      (\<lambda>_ s. \<exists>N'. has_shape sh' N' \<and> osat V N' (arrays sw') s) (stuck V N (arrays sw))"
    and "\<And>e s. is_os_or_runtime e \<Longrightarrow> mid run sw sh s \<Longrightarrow> R e s"
  shows "valid (mid run sw sh) (kern p) (\<lambda>_. mid run sw' sh') R"
proof -
  have "valid (\<lambda>s. fst s = run \<and> osat V N (arrays sw) (snd s)) (kern p)
      (\<lambda>_ s. fst s = run \<and> (\<exists>N'. has_shape sh' N' \<and> osat V N' (arrays sw') (snd s)))
      (\<lambda>e s. fst s = run \<and> stuck V N (arrays sw) e (snd s))" if "has_shape sh N" for N
    by (rule valid_kern_view [OF assms(1) [OF that], where F = "\<lambda>x. x = run"])
  then show ?thesis
    unfolding mid_def [abs_def]
    by (intro validI) (elim exE conjE; use assms(2) in \<open>fastforce dest: validD1 validD2 simp: mid_def\<close>)+
qed

lemma mid_quiet:
  assumes "\<And>N E. valid (osat V N E) p (\<lambda>_. osat V N E) (stuck V N E)"
    and "\<And>e s. is_os_or_runtime e \<Longrightarrow> mid run sw sh s \<Longrightarrow> R e s"
  shows "valid (mid run sw sh) (kern p) (\<lambda>_. mid run sw sh) R"
  by (rule mid_kern [OF _ assms(2)]) (auto intro: valid_weaken [OF assms(1)])

lemma mid_set: "valid (mid run sw sh) (set_obj f) (\<lambda>_. mid (f run) sw sh) R"
  by (rule valid_set_obj) (auto simp: mid_def)

lemma switch_valid:
  "valid (stage False AsBefore) (kern (prog_array_update OS m key (cand @ sfx))) (\<lambda>_. mid (run_of False AsBefore) True AsBefore) halted"
proof (rule mid_kern)
  fix N assume N: "has_shape AsBefore N"
  then have "N (cand @ sfx) = Some (Pin c)" using candidate_pin sub_sfx by (auto simp: tree_at_def)
  with N show "valid (osat V N (arrays False)) (prog_array_update OS m key (cand @ sfx))
      (\<lambda>_ s. \<exists>N'. has_shape AsBefore N' \<and> osat V N' (arrays True) s) (stuck V N (arrays False))"
    using observable by (intro valid_weaken [OF update_valid [OF key]]) (auto simp: arrays_def)
qed (auto simp: halted_def)

lemma verify_stage: "valid (stage True sh) (kern (verify_prog_array_entry OS m key c)) (\<lambda>_. stage True sh) halted"
  by (rule mid_quiet) (auto intro: valid_weaken [OF verify_valid [OF key]] simp: halted_def)

lemma committed_stage:
  "valid (stage True BothMoved) (mbind (kern (pinned_program_id OS (live @ sfx))) (\<lambda>i.
     if i \<noteq> c then raise_exn RuntimeErr else ret ())) (\<lambda>_. stage True BothMoved) halted"
proof (rule valid_bind)
  show "valid (stage True BothMoved) (kern (pinned_program_id OS (live @ sfx))) (\<lambda>_. stage True BothMoved) halted"
    by (rule mid_quiet) (auto intro: valid_weaken [OF show_valid] simp: halted_def)
qed (auto simp: halted_def valid_def ret_def raise_exn_def)

lemma rename_stages:
  "valid (stage True AsBefore) (kern (ho_rename OS live backup)) (\<lambda>_. mid (run_of True AsBefore) True OldMoved) halted"
  "valid (stage True OldMoved) (kern (ho_rename OS cand live)) (\<lambda>_. mid (run_of True OldMoved) True BothMoved) halted"
  by (rule mid_kern; auto intro!: valid_weaken [OF rename_valid] simp: places halted_def dest: shape_moves(1,2) simp del: has_shape.simps)+

lemma run_flags:
  "run_of False AsBefore\<lparr>sw_switched := True\<rparr> = run_of True AsBefore"
  "run_of True OldMoved\<lparr>sw_moved_candidate := True\<rparr> = run_of True BothMoved"
  "N0 live \<noteq> None \<Longrightarrow> run_of True AsBefore\<lparr>sw_moved_old := True, sw_old_pin := (if old \<noteq> None then Some (backup @ sfx) else None)\<rparr>
    = run_of True OldMoved"
  by (simp_all add: run_of_def)

text \<open>Without an old handler there is nothing to move, and the first two stages are the same.\<close>

lemma stages_without_old:
  assumes "N0 live = None"
  shows "stage True AsBefore = stage True OldMoved"
proof -
  have "old = None" using live_pin no_orphans [OF assms] sub_sfx by (auto simp: gone_def)
  with assms have "run_of True AsBefore = run_of True OldMoved" unfolding run_of_def by simp
  then show ?thesis
    by (simp add: fun_eq_iff mid_def shape_without_old [OF no_orphans [OF assms]] del: has_shape.simps)
qed

lemma move_old_stage:
  "valid (stage True AsBefore) (mwhen (N0 live \<noteq> None) (mseq (kern (ho_rename OS live backup))
      (set_obj (\<lambda>run. run\<lparr>sw_moved_old := True, sw_old_pin := (if old \<noteq> None then Some (backup @ sfx) else None)\<rparr>))))
    (\<lambda>_. stage True OldMoved) halted"
proof (cases "N0 live = None")
  case True
  show ?thesis unfolding mwhen_def stages_without_old [OF True] using True by (auto intro: valid_ret)
next
  case False
  have "valid (stage True AsBefore) (mseq (kern (ho_rename OS live backup))
      (set_obj (\<lambda>run. run\<lparr>sw_moved_old := True, sw_old_pin := (if old \<noteq> None then Some (backup @ sfx) else None)\<rparr>)))
    (\<lambda>_. stage True OldMoved) halted"
    by (rule valid_seq [OF rename_stages(1)], subst run_flags(3) [OF False, symmetric], rule mid_set)
  with False show ?thesis by (simp only: mwhen_def if_True not_False_eq_True)
qed

lemma ask_stage:
  assumes move: "\<And>N E. has_shape AsBefore N \<Longrightarrow>
    valid (osat V N E) move_old (\<lambda>b s. b = (N0 live \<noteq> None) \<and> osat V N E s) (\<lambda>_ _. False)"
  shows "valid (stage True AsBefore) (kern move_old) (\<lambda>b s. b = (N0 live \<noteq> None) \<and> stage True AsBefore s) halted"
proof -
  have "valid (\<lambda>s. fst s = run_of True AsBefore \<and> osat V N (arrays True) (snd s)) (kern move_old)
      (\<lambda>b s. b = (N0 live \<noteq> None) \<and> stage True AsBefore s) halted"
    if "has_shape AsBefore N" for N
    by (rule valid_weaken [OF valid_kern_view [OF move [OF that], where F = "\<lambda>x. x = run_of True AsBefore"]])
      (use that in \<open>auto simp: mid_def simp del: has_shape.simps\<close>)
  then have "valid (\<lambda>s. \<exists>N. has_shape AsBefore N \<and> fst s = run_of True AsBefore \<and> osat V N (arrays True) (snd s)) (kern move_old)
      (\<lambda>b s. b = (N0 live \<noteq> None) \<and> stage True AsBefore s) halted"
    by (intro valid_ex valid_pre)
  then show ?thesis
    by (rule valid_weaken) (auto simp: mid_def simp del: has_shape.simps)
qed

lemma set_flags:
  "valid (mid (run_of False AsBefore) True AsBefore) (set_obj (sw_switched_update (\<lambda>_. True))) (\<lambda>_. stage True AsBefore) R"
  "valid (mid (run_of True OldMoved) True BothMoved) (set_obj (sw_moved_candidate_update (\<lambda>_. True))) (\<lambda>_. stage True BothMoved) R"
  using mid_set [of "run_of False AsBefore" True AsBefore "sw_switched_update (\<lambda>_. True)"]
    mid_set [of "run_of True OldMoved" True BothMoved "sw_moved_candidate_update (\<lambda>_. True)"]
  by (simp_all only: run_flags)

lemma commit_valid:
  assumes "\<And>N E. has_shape AsBefore N \<Longrightarrow>
    valid (osat V N E) move_old (\<lambda>b s. b = (N0 live \<noteq> None) \<and> osat V N E s) (\<lambda>_ _. False)"
  shows "valid (stage False AsBefore) (swap_commit OS sfx m key cand live backup c (old \<noteq> None) move_old)
    (\<lambda>_. stage True BothMoved) halted"
proof -
  have move: "valid (\<lambda>s. b = (N0 live \<noteq> None) \<and> stage True AsBefore s)
      (mwhen b (mseq (kern (ho_rename OS live backup))
        (set_obj (\<lambda>run. run\<lparr>sw_moved_old := True, sw_old_pin := (if old \<noteq> None then Some (backup @ sfx) else None)\<rparr>))))
      (\<lambda>_. stage True OldMoved) halted" for b
    by (rule valid_pre) (simp only: move_old_stage)
  have ask: "valid (stage True AsBefore) (kern move_old) (\<lambda>b s. b = (N0 live \<noteq> None) \<and> stage True AsBefore s) halted"
    by (rule ask_stage) (rule assms)
  show ?thesis
    unfolding swap_commit_def
    by (rule valid_seq [OF switch_valid] valid_seq [OF set_flags(1)] valid_seq [OF verify_stage]
        valid_seq [OF valid_bind [OF ask move]] valid_seq [OF rename_stages(2)]
        valid_seq [OF set_flags(2)] committed_stage)+
qed

text \<open>How a roll back ends.\<close>

fun ending :: "swap_end \<Rightarrow> nodes \<Rightarrow> entries \<Rightarrow> bool" where
  "ending Committed N E \<longleftrightarrow> False"
| "ending PreviousRestored N E \<longleftrightarrow>
     E = E0 \<or> E = with_entry E0 m key old \<or> old = None \<and> E = with_entry E0 m key (Some c)"
| "ending RollbackFailed N E \<longleftrightarrow> (N (cand @ sfx) = Some (Pin c) \<or> N (live @ sfx) = Some (Pin c)) \<and>
     (E = with_entry E0 m key (Some c) \<or> E = with_entry E0 m key old)"

definition shaped :: "entries \<Rightarrow> 'k \<Rightarrow> bool" where
  "shaped E k \<longleftrightarrow> (\<exists>sh N. has_shape sh N \<and> osat V N E k)"

lemma with_entry_twice [simp]: "with_entry (with_entry E m key v) m key w = with_entry E m key w"
  by (simp add: with_entry_def)

lemma old_pin_shape: "has_shape sh N \<Longrightarrow> N ((if sh = AsBefore then live else backup) @ sfx) = map_option Pin old"
  using live_pin sub_sfx by (cases sh) (auto simp: tree_at_def)

lemma rollback_shape:
  assumes "has_shape sh N"
  shows "valid (osat V N (arrays sw)) (if sw then mtry (mseq (rollback_prog_array_entry OS m key (sw_old_pin (run_of sw sh)) old) (ret False))
      (\<lambda>e. if is_os_or_runtime e then Some (ret True) else None) else ret False)
    (\<lambda>failed s. \<exists>E. osat V N E s \<and> ending (if failed then RollbackFailed else PreviousRestored) N E) (\<lambda>_ _. False)"
proof (cases sw)
  case True
  let ?Q = "\<lambda>failed s. \<exists>E. osat V N E s \<and> ending (if failed then RollbackFailed else PreviousRestored) N E"
  have c: "N (cand @ sfx) = Some (Pin c) \<or> N (live @ sfx) = Some (Pin c)" by (rule shape_candidate [OF assms])
  have run: "valid (osat V N (arrays True)) (rollback_prog_array_entry OS m key (sw_old_pin (run_of True sh)) old)
      (\<lambda>_ s. ?Q False s) (\<lambda>e s. is_os_or_runtime e \<and> ?Q True s)"
  proof (cases old)
    case None
    have obs: "with_entry (arrays True) m key None \<in> V" using observable(2) None by (simp add: arrays_def)
    have "valid (osat V N (arrays True)) (rollback_prog_array_entry OS m key (sw_old_pin (run_of True sh)) old)
        (\<lambda>_ s. osat V N (arrays True) s \<or> osat V N (with_entry (arrays True) m key None) s) (stuck V N (arrays True))"
      by (rule rollback_none_valid [OF key obs]) (simp add: None)
    moreover have "ending PreviousRestored N (arrays True)" "ending PreviousRestored N (with_entry (arrays True) m key None)"
      "ending RollbackFailed N (arrays True)" unfolding ending.simps arrays_def using None c by simp_all
    ultimately show ?thesis by (auto elim: valid_weaken)
  next
    case (Some x)
    let ?pin = "(if sh = AsBefore then live else backup) @ sfx"
    have pin: "N ?pin = Some (Pin x)" using old_pin_shape [OF assms] Some by simp
    have ends: "ending PreviousRestored N (with_entry E0 m key (Some x))" "ending RollbackFailed N (with_entry E0 m key (Some c))"
      "ending RollbackFailed N (with_entry E0 m key (Some x))" unfolding ending.simps using Some c by simp_all
    have "sw_old_pin (run_of True sh) = Some ?pin" unfolding run_of_def using Some by simp
    moreover have "valid (osat V N (arrays True)) (rollback_prog_array_entry OS m key (Some ?pin) (Some x))
      (\<lambda>_ s. ?Q False s) (\<lambda>e s. is_os_or_runtime e \<and> ?Q True s)"
    proof (rule valid_weaken [OF rollback_valid [OF key]])
      fix n
      show "N ?pin = Some (Pin n) \<Longrightarrow> with_entry (arrays True) m key (Some n) \<in> V"
        using pin observable(2) Some by (simp add: arrays_def)
    qed (use pin ends in \<open>auto simp: arrays_def simp del: ending.simps\<close>)
    ultimately show ?thesis using Some by simp
  qed
  have "valid (osat V N (arrays True)) (mtry (mseq (rollback_prog_array_entry OS m key (sw_old_pin (run_of True sh)) old) (ret False))
      (\<lambda>e. if is_os_or_runtime e then Some (ret True) else None)) ?Q (\<lambda>_ _. False)"
    by (rule valid_try [OF valid_seq [OF run valid_ret]]) (fastforce intro: valid_ret split: if_splits simp: valid_def ret_def simp del: ending.simps)+
  with True show ?thesis by simp
next
  case False
  then show ?thesis by (auto simp: valid_def ret_def arrays_def)
qed

lemma candidate_back_valid:
  "valid (\<lambda>k. \<exists>N. has_shape sh N \<and> osat V N E k)
     (mbind (gets (ho_exists OS live)) (\<lambda>there. mwhen (sh = BothMoved \<and> there) (ignore_os (ho_rename OS live cand))))
     (\<lambda>_. shaped E) (\<lambda>_ _. False)"
proof (intro valid_ex valid_pre)
  fix N assume N: "has_shape sh N"
  have "valid (osat V N E) (ignore_os (ho_rename OS live cand)) (\<lambda>_. shaped E) (\<lambda>_ _. False)" if "sh = BothMoved"
    by (rule valid_weaken [OF rename_quiet [OF apart_sym [OF places(1)]]])
      (use N that shape_moves(3) in \<open>auto simp: shaped_def simp del: has_shape.simps\<close>)
  note action = this
  show "valid (osat V N E) (mbind (gets (ho_exists OS live))
      (\<lambda>there. mwhen (sh = BothMoved \<and> there) (ignore_os (ho_rename OS live cand)))) (\<lambda>_. shaped E) (\<lambda>_ _. False)"
  proof (rule valid_gets)
    fix there
    show "valid (\<lambda>s. there = ho_exists OS live s \<and> osat V N E s)
        (mwhen (sh = BothMoved \<and> there) (ignore_os (ho_rename OS live cand))) (\<lambda>_. shaped E) (\<lambda>_ _. False)"
    proof (cases "sh = BothMoved \<and> there")
      case True
      with action show ?thesis by (auto simp: mwhen_def elim: valid_weaken)
    next
      case False
      with N show ?thesis by (auto simp: mwhen_def valid_def ret_def shaped_def simp del: has_shape.simps)
    qed
  qed
qed

lemma old_back_valid:
  "valid (shaped E)
     (mbind (gets (\<lambda>k. ho_exists OS backup k \<and> \<not> ho_exists OS live k)) (\<lambda>back.
        mwhen (was \<and> back) (ignore_os (ho_rename OS backup live))))
     (\<lambda>_. shaped E) (\<lambda>_ _. False)"
  unfolding shaped_def [abs_def]
proof (intro valid_ex valid_pre valid_gets)
  fix sh N again
  assume N: "has_shape sh N"
  show "valid (\<lambda>s. again = (ho_exists OS backup s \<and> \<not> ho_exists OS live s) \<and> osat V N E s)
      (mwhen (was \<and> again) (ignore_os (ho_rename OS backup live)))
      (\<lambda>_ k. \<exists>sh N. has_shape sh N \<and> osat V N E k) (\<lambda>_ _. False)"
  proof (cases "again \<and> N backup \<noteq> None \<and> N live = None")
    case True
    have "N live \<noteq> None" if "sh = BothMoved" using N that candidate_there by (auto dest!: tree_at_self)
    moreover have "N backup = None" if "sh = AsBefore" using N that by (auto simp: gone_def)
    ultimately have "sh = OldMoved" using True by (cases sh) auto
    then have "has_shape AsBefore (moved backup live N)" using N shape_moves(4) by blast
    then have "valid (osat V N E) (ignore_os (ho_rename OS backup live)) (\<lambda>_ k. \<exists>sh N. has_shape sh N \<and> osat V N E k) (\<lambda>_ _. False)"
      by (intro valid_weaken [OF rename_quiet [OF apart_sym [OF places(3)]]]) (use N in blast)+
    then show ?thesis using N
      by (cases was) (auto simp: mwhen_def True elim!: valid_weaken intro!: valid_ret simp del: has_shape.simps)
  next
    case False
    then have "\<not> again" if "osat V N E s" "again = (ho_exists OS backup s \<and> \<not> ho_exists OS live s)" for s
      using that by (auto simp: exists_at [OF that(1)])
    with N show ?thesis by (auto simp: valid_def mwhen_def ret_def simp del: has_shape.simps)
  qed
qed

definition rolled_back :: "swap_end \<Rightarrow> 'k \<Rightarrow> bool" where
  "rolled_back how k \<longleftrightarrow> (\<exists>N E. osat V N E k \<and> kept N \<and> ending how N E)"

lemma run_flag_sels:
  "sw_switched (run_of sw sh) = sw" "sw_moved_candidate (run_of sw sh) = (sh = BothMoved)"
  by (simp_all add: run_of_def)

lemma ending_shape: "has_shape sh N \<Longrightarrow> ending how N E \<Longrightarrow> has_shape sh' N' \<Longrightarrow> ending how N' E"
  using shape_candidate [of sh' N'] by (cases how) auto

lemma rolled_back_shape:
  "has_shape sh N \<Longrightarrow> ending how N E \<Longrightarrow> has_shape sh' N' \<Longrightarrow> osat V N' E k \<Longrightarrow> rolled_back how k"
  using ending_shape shape_kept unfolding rolled_back_def by blast

lemma discard_valid:
  assumes discard: "\<And>N E. valid (osat V N E) discard
    (\<lambda>_ s. \<exists>N'. (\<forall>p. \<not> below cand p \<longrightarrow> N' p = N p) \<and> osat V N' E s) (\<lambda>_ _. False)"
    and ended: "has_shape sh N0'" "ending PreviousRestored N0' E"
  shows "valid (shaped E) (mbind (gets (ho_exists OS cand)) (\<lambda>left. mwhen left discard))
    (\<lambda>_. rolled_back PreviousRestored) (\<lambda>_ _. False)"
  unfolding shaped_def
proof (intro valid_ex valid_pre valid_gets)
  fix sh' N left
  assume N: "has_shape sh' N"
  have gone: "valid (osat V N E) discard (\<lambda>_. rolled_back PreviousRestored) (\<lambda>_ _. False)"
  proof (rule valid_weaken [OF discard])
    fix s assume "\<exists>N'. (\<forall>p. \<not> below cand p \<longrightarrow> N' p = N p) \<and> osat V N' E s"
    then obtain M where M: "\<forall>p. \<not> below cand p \<longrightarrow> M p = N p" "osat V M E s" by blast
    have "\<not> below cand (live @ sfx)" "\<not> below cand (backup @ sfx)"
      using apart_not_below [OF apart_sym [OF places(1)] below_sub [OF sub_sfx]]
        apart_not_below [OF apart_sym [OF places(2)] below_sub [OF sub_sfx]] by auto
    then have "kept M" using shape_kept [OF N] M(1) unfolding kept_def by auto
    moreover have "ending PreviousRestored M E" using ended(2) by simp
    ultimately show "rolled_back PreviousRestored s" using M(2) unfolding rolled_back_def by blast
  qed auto
  show "valid (\<lambda>s. left = ho_exists OS cand s \<and> osat V N E s) (mwhen left discard)
      (\<lambda>_. rolled_back PreviousRestored) (\<lambda>_ _. False)"
  proof (cases left)
    case True
    then show ?thesis using gone by (auto simp: mwhen_def elim: valid_weaken)
  next
    case False
    with rolled_back_shape [OF ended N] show ?thesis by (auto simp: mwhen_def valid_def ret_def simp del: has_shape.simps ending.simps)
  qed
qed

text \<open>The state between the roll back of the array and the end: \<open>failed\<close> tells how it will end.\<close>

definition undoing :: "bool \<Rightarrow> 'k \<Rightarrow> bool" where
  "undoing failed k \<longleftrightarrow> (\<exists>sh N E. has_shape sh N \<and> ending (if failed then RollbackFailed else PreviousRestored) N E \<and> shaped E k)"

lemma undo_end_valid:
  assumes discard: "\<And>N E. valid (osat V N E) discard
    (\<lambda>_ s. \<exists>N'. (\<forall>p. \<not> below cand p \<longrightarrow> N' p = N p) \<and> osat V N' E s) (\<lambda>_ _. False)"
  shows "valid (\<lambda>s. undoing failed (snd s)) (if failed then ret RollbackFailed
      else mseq (kern (mbind (gets (ho_exists OS cand)) (\<lambda>left. mwhen left discard))) (ret PreviousRestored))
    (\<lambda>how s. rolled_back how (snd s)) (\<lambda>_ _. False)"
proof (cases failed)
  case True
  have "rolled_back RollbackFailed k" if "undoing True k" for k
    using that rolled_back_shape unfolding undoing_def shaped_def if_True by blast
  then have "valid (\<lambda>s. undoing True (snd s)) (ret RollbackFailed) (\<lambda>how s. rolled_back how (snd s)) (\<lambda>_ _. False)"
    by (rule valid_ret)
  with True show ?thesis by simp
next
  case False
  have "valid (undoing False) (mbind (gets (ho_exists OS cand)) (\<lambda>left. mwhen left discard))
      (\<lambda>_. rolled_back PreviousRestored) (\<lambda>_ _. False)"
    unfolding undoing_def if_False by (intro valid_ex valid_pre discard_valid [OF discard])
  from valid_seq [OF valid_kern_snd [OF this] valid_ret] False show ?thesis by simp
qed

lemma undo_valid:
  assumes discard: "\<And>N E. valid (osat V N E) discard
    (\<lambda>_ s. \<exists>N'. (\<forall>p. \<not> below cand p \<longrightarrow> N' p = N p) \<and> osat V N' E s) (\<lambda>_ _. False)"
  shows "valid (stage sw sh) (swap_undo OS m key cand live backup old discard)
    (\<lambda>how s. rolled_back how (snd s)) (\<lambda>_ _. False)"
proof -
  let ?Roll = "\<lambda>run. if sw_switched run then mtry (mseq (rollback_prog_array_entry OS m key (sw_old_pin run) old) (ret False))
      (\<lambda>e. if is_os_or_runtime e then Some (ret True) else None) else ret False"
  let ?rolled = "\<lambda>failed k. \<exists>E. (\<exists>N. has_shape sh N \<and> ending (if failed then RollbackFailed else PreviousRestored) N E) \<and>
      (\<exists>N. has_shape sh N \<and> osat V N E k)"
  have roll: "valid (\<lambda>k. \<exists>N. has_shape sh N \<and> osat V N (arrays sw) k) (?Roll (run_of sw sh)) ?rolled (\<lambda>_ _. False)"
    unfolding run_flag_sels by (intro valid_ex valid_pre, rule valid_weaken [OF rollback_shape]) blast+
  have cand: "valid (?rolled failed)
      (mbind (gets (ho_exists OS live)) (\<lambda>there. mwhen (sw_moved_candidate (run_of sw sh) \<and> there) (ignore_os (ho_rename OS live cand))))
      (\<lambda>_. undoing failed) (\<lambda>_ _. False)" for failed
    unfolding run_flag_sels undoing_def
    by (rule valid_ex, rule valid_pre, rule valid_weaken [OF candidate_back_valid]) blast+
  have old: "valid (undoing failed)
      (mbind (gets (\<lambda>k. ho_exists OS backup k \<and> \<not> ho_exists OS live k)) (\<lambda>again.
        mwhen (sw_moved_old (run_of sw sh) \<and> again) (ignore_os (ho_rename OS backup live))))
      (\<lambda>_. undoing failed) (\<lambda>_ _. False)" for failed
    unfolding undoing_def
    by (intro valid_ex valid_pre, rule valid_weaken [OF old_back_valid]) blast+
  note all = valid_bind [OF valid_kern_snd [OF roll] valid_seq [OF valid_kern_snd [OF cand]
    valid_seq [OF valid_kern_snd [OF old] undo_end_valid [OF discard]]]]
  have "valid (\<lambda>s. stage sw sh s \<and> run = fst s) (mbind (kern (?Roll run)) (\<lambda>failed.
      mseq (kern (mbind (gets (ho_exists OS live)) (\<lambda>there. mwhen (sw_moved_candidate run \<and> there) (ignore_os (ho_rename OS live cand)))))
      (mseq (kern (mbind (gets (\<lambda>k. ho_exists OS backup k \<and> \<not> ho_exists OS live k)) (\<lambda>again.
          mwhen (sw_moved_old run \<and> again) (ignore_os (ho_rename OS backup live)))))
      (if failed then ret RollbackFailed
       else mseq (kern (mbind (gets (ho_exists OS cand)) (\<lambda>left. mwhen left discard))) (ret PreviousRestored)))))
      (\<lambda>how s. rolled_back how (snd s)) (\<lambda>_ _. False)" for run
  proof (cases "run = run_of sw sh")
    case True
    show ?thesis
      unfolding True by (rule valid_weaken [OF all]) (auto simp: mid_def simp del: has_shape.simps)
  qed (auto simp: valid_def mid_def)
  then show ?thesis unfolding swap_undo_def by (rule valid_obj)
qed

text \<open>The whole switch: it is done, or \<open>rolled_back\<close>.\<close>

definition switched :: "swap_end \<Rightarrow> 'k \<Rightarrow> bool" where
  "switched how k \<longleftrightarrow>
     (if how = Committed then \<exists>N. osat V N (arrays True) k \<and> N (live @ sfx) = Some (Pin c) \<and> gone N cand \<and> others N
      else rolled_back how k)"

lemma done_shape: "has_shape BothMoved N \<Longrightarrow> N (live @ sfx) = Some (Pin c) \<and> gone N cand \<and> others N"
  using candidate_pin sub_sfx by (auto simp: tree_at_def)

lemma with_run_valid:
  assumes "valid (\<lambda>s. fst s = run \<and> P (snd s)) p (\<lambda>x s. Q x (snd s)) (\<lambda>e s. R e (snd s))"
  shows "valid P (with_run run p) (\<lambda>(x, _). Q x) R"
proof (rule validI)
  fix k e t assume k: "P k" and r: "with_run run p k = (Inl e, t)"
  obtain q run' k' where q: "p (run, k) = (q, (run', k'))" by (metis prod.exhaust)
  with r have "p (run, k) = (Inl e, (run', t))" by (cases q) (auto simp: with_run_def)
  from validD1 [OF assms _ this] k show "R e t" by simp
next
  fix k x t assume k: "P k" and r: "with_run run p k = (Inr x, t)"
  obtain q run' k' where q: "p (run, k) = (q, (run', k'))" by (metis prod.exhaust)
  with r have "p (run, k) = (Inr (fst x), (run', t))" by (cases q) (auto simp: with_run_def)
  from validD2 [OF assms _ this] k show "(\<lambda>(x, _). Q x) x t" by (simp add: case_prod_unfold)
qed

lemma transaction_valid:
  assumes move: "\<And>N E. has_shape AsBefore N \<Longrightarrow>
      valid (osat V N E) move_old (\<lambda>b s. b = (N0 live \<noteq> None) \<and> osat V N E s) (\<lambda>_ _. False)"
    and discard: "\<And>N E. valid (osat V N E) discard
      (\<lambda>_ s. \<exists>N'. (\<forall>p. \<not> below cand p \<longrightarrow> N' p = N p) \<and> osat V N' E s) (\<lambda>_ _. False)"
    and finish: "valid (stage True BothMoved) finish (\<lambda>how s. switched how (snd s)) halted"
  shows "valid (osat V N0 E0) (with_run (swap_start (old \<noteq> None) (live @ sfx))
      (mtry (mseq (swap_commit OS sfx m key cand live backup c (old \<noteq> None) move_old) finish)
        (\<lambda>e. if is_os_or_runtime e then Some (swap_undo OS m key cand live backup old discard) else None)))
    (\<lambda>(how, _). switched how) (\<lambda>_ _. False)"
proof (rule with_run_valid)
  have start: "swap_start (old \<noteq> None) (live @ sfx) = run_of False AsBefore"
    by (simp add: swap_start_def run_of_def)
  have undo: "valid (halted e) (swap_undo OS m key cand live backup old discard) (\<lambda>how s. switched how (snd s)) (\<lambda>_ _. False)" for e
  proof -
    have weaker: "switched how k" if "rolled_back how k" for how k
      using that by (cases how) (auto simp: switched_def rolled_back_def)
    have "valid (stage sw sh) (swap_undo OS m key cand live backup old discard) (\<lambda>how s. switched how (snd s)) (\<lambda>_ _. False)" for sw sh
      by (rule valid_weaken [OF undo_valid [OF discard]]) (auto intro: weaker)
    note valid = validD1 [OF this] validD2 [OF this]
    show ?thesis by (rule validI) (use valid in \<open>fastforce simp: halted_def\<close>)+
  qed
  have run: "valid (stage False AsBefore) (mtry (mseq (swap_commit OS sfx m key cand live backup c (old \<noteq> None) move_old) finish)
      (\<lambda>e. if is_os_or_runtime e then Some (swap_undo OS m key cand live backup old discard) else None))
      (\<lambda>how s. switched how (snd s)) (\<lambda>_ _. False)"
    by (rule valid_try [OF valid_seq [OF commit_valid [OF move] finish]])
      (use undo in \<open>auto simp: halted_def split: if_splits\<close>)
  show "valid (\<lambda>s. fst s = swap_start (old \<noteq> None) (live @ sfx) \<and> osat V N0 E0 (snd s))
      (mtry (mseq (swap_commit OS sfx m key cand live backup c (old \<noteq> None) move_old) finish)
        (\<lambda>e. if is_os_or_runtime e then Some (swap_undo OS m key cand live backup old discard) else None))
      (\<lambda>how s. switched how (snd s)) (\<lambda>_ _. False)"
    unfolding start
    by (rule valid_weaken [OF run]) (use start_shape in \<open>auto simp: mid_def arrays_def simp del: has_shape.simps\<close>)
qed

lemma unlink_old_valid:
  assumes "sfx = []"
  shows "valid (stage True BothMoved) (mseq (mbind (obj sw_moved_old) (\<lambda>moved. mwhen moved (kern (ho_unlink OS backup))))
    (ret Committed)) (\<lambda>how s. switched how (snd s)) halted"
proof (rule valid_seq [where Q' = "\<lambda>s. switched Committed (snd s)"])
  have none: "switched Committed k" if "has_shape BothMoved N" "osat V N (arrays True) k" for N k
    using that done_shape [OF that(1)] unfolding switched_def by (auto simp del: has_shape.simps)
  have gone: "switched Committed k" if "has_shape BothMoved N" "osat V (N(backup := None)) (arrays True) k" for N k
  proof -
    have "backup \<noteq> live @ sfx" using places(3) assms by (auto simp: apart_def)
    then show ?thesis
      using that(2) done_shape [OF that(1)] unfolding switched_def by (auto simp: gone_def intro!: exI [of _ "N(backup := None)"])
  qed
  have "valid (\<lambda>s. fst s = run_of True BothMoved \<and> osat V N (arrays True) (snd s)) (kern (ho_unlink OS backup))
      (\<lambda>_ s. switched Committed (snd s)) halted" if "has_shape BothMoved N" for N
    by (rule valid_weaken [OF valid_kern_view [OF unlink_valid, where F = "\<lambda>x. x = run_of True BothMoved"]])
      (use that gone [OF that] in \<open>auto simp: halted_def mid_def simp del: has_shape.simps\<close>)
  then have "valid (\<lambda>s. \<exists>N. has_shape BothMoved N \<and> fst s = run_of True BothMoved \<and> osat V N (arrays True) (snd s))
      (kern (ho_unlink OS backup)) (\<lambda>_ s. switched Committed (snd s)) halted" by (intro valid_ex valid_pre)
  then have unlink: "valid (stage True BothMoved) (kern (ho_unlink OS backup)) (\<lambda>_ s. switched Committed (snd s)) halted"
    by (rule valid_weaken) (auto simp: mid_def simp del: has_shape.simps)
  show "valid (stage True BothMoved) (mbind (obj sw_moved_old) (\<lambda>moved. mwhen moved (kern (ho_unlink OS backup))))
      (\<lambda>_ s. switched Committed (snd s)) halted"
  proof (rule valid_obj)
    fix moved
    show "valid (\<lambda>s. stage True BothMoved s \<and> moved = sw_moved_old (fst s)) (mwhen moved (kern (ho_unlink OS backup)))
        (\<lambda>_ s. switched Committed (snd s)) halted"
    proof (cases moved)
      case True
      with unlink show ?thesis by (auto simp: mwhen_def elim: valid_weaken)
    next
      case False
      with none show ?thesis by (auto simp: mwhen_def valid_def ret_def mid_def simp del: has_shape.simps)
    qed
  qed
qed (auto intro: valid_ret)

lemma keep_old_valid: "valid (stage True BothMoved) (ret Committed) (\<lambda>how s. switched how (snd s)) halted"
  by (rule valid_ret) (use done_shape in \<open>auto simp: switched_def mid_def simp del: has_shape.simps\<close>)

end

section \<open>The two functions\<close>

text \<open>A file lies in a directory.\<close>

definition wf_files :: "nodes \<Rightarrow> bool" where
  "wf_files N \<longleftrightarrow> (\<forall>p q. sub_path q \<longrightarrow> N (p @ q) \<noteq> None \<longrightarrow> N p \<noteq> None)"

abbreviation rollback_name :: "string \<Rightarrow> string \<Rightarrow> string" where
  "rollback_name live token \<equiv> live @ ''_rollback_'' @ token"

lemma apart_rollback_name: "apart live (rollback_name live token)"
  by (auto simp: apart_def below_def sub_path_def)

definition ready :: "nodes \<Rightarrow> string \<Rightarrow> string \<Rightarrow> string \<Rightarrow> bool" where
  "ready N token cand live \<longleftrightarrow> wf_files N \<and> apart cand live \<and> apart cand (rollback_name live token) \<and>
     gone N (rollback_name live token)"

text \<open>What an observer may see of the arrays.\<close>

definition visible :: "nodes \<Rightarrow> entries \<Rightarrow> string \<Rightarrow> int \<Rightarrow> string \<Rightarrow> string \<Rightarrow> entries set" where
  "visible N E m key cand_pin live_pin =
     {E} \<union> {with_entry E m key (Some c) | c. N cand_pin = Some (Pin c)} \<union>
     {with_entry E m key old | old. N live_pin = map_option Pin old}"

context handler_kernel
begin

definition unchanged_but :: "string \<Rightarrow> entries set \<Rightarrow> nodes \<Rightarrow> entries \<Rightarrow> 'k \<Rightarrow> bool" where
  "unchanged_but cand V N E s \<longleftrightarrow> (\<exists>N'. (\<forall>p. \<not> below cand p \<longrightarrow> N' p = N p) \<and> osat V N' E s)"

lemma unlink_discards: "valid (osat V N E) (ignore_os (ho_unlink OS cand)) (\<lambda>_. unchanged_but cand V N E) (\<lambda>_ _. False)"
  unfolding ignore_os_def unchanged_but_def
  by (rule validI; clarsimp simp: mtry_def os_at_def split: prod.splits sum.splits; drule unlink_law)
    (fastforce simp: ret_def split: sum.splits option.splits)+

lemma rmtree_discards: "valid (osat V N E) (ignore_os (ho_rmtree OS cand)) (\<lambda>_. unchanged_but cand V N E) (\<lambda>_ _. False)"
  unfolding ignore_os_def unchanged_but_def
  by (rule validI; clarsimp simp: mtry_def os_at_def split: prod.splits sum.splits; drule rmtree_law)
    (fastforce simp: ret_def split: sum.splits option.splits)+

lemma setting:
  assumes "0 \<le> key" "key < 2 ^ 32" "ready N token cand live" "sub_path sfx"
    and "N (cand @ sfx) = Some (Pin c)" "N (live @ sfx) = map_option Pin old"
    and "visible N E m key (cand @ sfx) (live @ sfx) \<subseteq> V"
  shows "swap_setting OS nodes entries obs V N E m key sfx cand live (rollback_name live token) c old"
proof -
  have "gone N live" if "N live = None"
    using that assms(3) by (fastforce simp: gone_def below_def ready_def wf_files_def)
  moreover have "N cand \<noteq> None"
    using assms(3-5) by (fastforce simp: ready_def wf_files_def)
  moreover have "with_entry E m key (Some c) \<in> V" "with_entry E m key old \<in> V" "E \<in> V"
    using assms(5-7) by (auto simp: visible_def)
  ultimately show ?thesis
    using assms apart_rollback_name by unfold_locales (auto simp: ready_def)
qed

text \<open>The check, with the removal of the candidate if it fails.\<close>

lemma check_or_discard_valid:
  assumes "0 \<le> key" "key < 2 ^ 32"
    and discard: "\<And>N E. valid (osat V N E) discard (\<lambda>_. unchanged_but cand V N E) (\<lambda>_ _. False)"
  shows "valid (osat V N E) (mtry (swap_check OS m key cp lp)
      (\<lambda>e. if is_os_or_runtime e then Some (mseq discard (raise_exn e)) else None))
    (\<lambda>(c, ex, old) s. (N cp = Some (Pin c) \<and> N lp = map_option Pin old \<and> ex = (old \<noteq> None)) \<and> osat V N E s)
    (\<lambda>e s. is_os_or_runtime e \<and> unchanged_but cand V N E s)"
proof (rule valid_try [OF valid_weaken [OF check_valid [OF assms(1,2)]]])
  fix e and h' :: "('k, int \<times> bool \<times> int option) pym"
  assume "(if is_os_or_runtime e then Some (mseq discard (raise_exn e)) else None) = Some h'"
  then have e: "is_os_or_runtime e" "h' = mseq discard (raise_exn e)" by (auto split: if_splits)
  show "valid (stuck V N E e) h' (\<lambda>(c, ex, old) s. (N cp = Some (Pin c) \<and> N lp = map_option Pin old \<and> ex = (old \<noteq> None)) \<and> osat V N E s)
    (\<lambda>e s. is_os_or_runtime e \<and> unchanged_but cand V N E s)"
    unfolding e(2)
  proof (rule valid_seq)
    show "valid (stuck V N E e) discard (\<lambda>_. unchanged_but cand V N E) (\<lambda>e s. is_os_or_runtime e \<and> unchanged_but cand V N E s)"
      by (rule valid_weaken [OF discard]) auto
  qed (rule valid_raise, simp add: e(1))
qed (auto split: if_splits option.splits)

text \<open>What a switch leads to, over everything the system may answer.\<close>

definition switch_post :: "entries set \<Rightarrow> nodes \<Rightarrow> entries \<Rightarrow> string \<Rightarrow> int \<Rightarrow> string \<Rightarrow> string \<Rightarrow> string \<Rightarrow> string \<Rightarrow> swap_end \<Rightarrow> 'k \<Rightarrow> bool" where
  "switch_post V N E m key sfx cand live backup how k \<longleftrightarrow>
     (\<exists>c old. N (cand @ sfx) = Some (Pin c) \<and> N (live @ sfx) = map_option Pin old \<and> obs k \<subseteq> V \<and>
        (\<forall>p. \<not> below cand p \<and> \<not> below live p \<and> \<not> below backup p \<longrightarrow> nodes k p = N p) \<and>
        (case how of
           Committed \<Rightarrow> entries k = with_entry E m key (Some c) \<and> nodes k (live @ sfx) = Some (Pin c) \<and> gone (nodes k) cand
         | PreviousRestored \<Rightarrow>
             (entries k = E \<or> entries k = with_entry E m key old \<or> old = None \<and> entries k = with_entry E m key (Some c)) \<and>
             (\<forall>x. old = Some x \<longrightarrow> Some (Pin x) \<in> {nodes k (live @ sfx), nodes k (backup @ sfx)})
         | RollbackFailed \<Rightarrow>
             (entries k = with_entry E m key (Some c) \<or> entries k = with_entry E m key old) \<and>
             Some (Pin c) \<in> {nodes k (cand @ sfx), nodes k (live @ sfx)} \<and>
             (\<forall>x. old = Some x \<longrightarrow> Some (Pin x) \<in> {nodes k (live @ sfx), nodes k (backup @ sfx)})))"

lemma switched_post:
  assumes set: "swap_setting OS nodes entries obs V N E m key sfx cand live backup c old"
    and "swap_setting.switched nodes entries obs V N E m key sfx cand live backup c old how k"
  shows "switch_post V N E m key sfx cand live backup how k"
proof -
  note pins = swap_setting.candidate_pin [OF set] swap_setting.live_pin [OF set]
  note defs = swap_setting.switched_def [OF set] swap_setting.rolled_back_def [OF set] swap_setting.kept_def [OF set]
    swap_setting.ending.simps [OF set] swap_setting.arrays_def [OF set]
  obtain N' E' where at: "osat V N' E' k" and others: "\<forall>p. \<not> below cand p \<longrightarrow> \<not> below live p \<longrightarrow> \<not> below backup p \<longrightarrow> N' p = N p"
    and finished: "how = Committed \<Longrightarrow> E' = with_entry E m key (Some c) \<and> N' (live @ sfx) = Some (Pin c) \<and> gone N' cand"
    and kept: "how \<noteq> Committed \<Longrightarrow> \<forall>x. old = Some x \<longrightarrow> N' (live @ sfx) = Some (Pin x) \<or> N' (backup @ sfx) = Some (Pin x)"
    and ends: "how \<noteq> Committed \<Longrightarrow> swap_setting.ending E m key sfx cand live c old how N' E'"
    using assms(2) unfolding defs by (cases "how = Committed") auto
  have k: "nodes k = N'" "entries k = E'" "obs k \<subseteq> V" using at by (simp_all add: os_at_def)
  show ?thesis
    unfolding switch_post_def k(1,2)
  proof (intro exI conjI)
    show "N (cand @ sfx) = Some (Pin c)" "N (live @ sfx) = map_option Pin old" "obs k \<subseteq> V"
      "\<forall>p. \<not> below cand p \<and> \<not> below live p \<and> \<not> below backup p \<longrightarrow> N' p = N p"
      using pins k(3) others by blast+
    show "case how of
        Committed \<Rightarrow> E' = with_entry E m key (Some c) \<and> N' (live @ sfx) = Some (Pin c) \<and> gone N' cand
      | PreviousRestored \<Rightarrow> (E' = E \<or> E' = with_entry E m key old \<or> old = None \<and> E' = with_entry E m key (Some c)) \<and>
          (\<forall>x. old = Some x \<longrightarrow> Some (Pin x) \<in> {N' (live @ sfx), N' (backup @ sfx)})
      | RollbackFailed \<Rightarrow> (E' = with_entry E m key (Some c) \<or> E' = with_entry E m key old) \<and>
          Some (Pin c) \<in> {N' (cand @ sfx), N' (live @ sfx)} \<and>
          (\<forall>x. old = Some x \<longrightarrow> Some (Pin x) \<in> {N' (live @ sfx), N' (backup @ sfx)})"
    proof (cases how)
      case Committed
      with finished show ?thesis by simp
    next
      case PreviousRestored
      show ?thesis using ends kept unfolding PreviousRestored defs by auto
    next
      case RollbackFailed
      show ?thesis using ends kept unfolding RollbackFailed defs by auto
    qed
  qed
qed

lemma file_swap_valid:
  assumes "0 \<le> key" "key < 2 ^ 32" "ready N token cand live" and "visible N E m key cand live \<subseteq> V"
  shows "valid (osat V N E) (file_prog_swap OS token m key cand live)
    (switch_post V N E m key [] cand live (rollback_name live token)) (\<lambda>e s. is_os_or_runtime e \<and> unchanged_but cand V N E s)"
  unfolding file_prog_swap_def Let_def
proof (rule valid_bind [OF check_or_discard_valid [OF assms(1,2)]])
  fix found :: "int \<times> bool \<times> int option"
  let ?body = "\<lambda>c ex old. with_run (swap_start ex live)
      (mtry (mseq (swap_commit OS [] m key cand live (rollback_name live token) c ex (ret ex))
             (mseq (mbind (obj sw_moved_old) (\<lambda>moved. mwhen moved (kern (ho_unlink OS (rollback_name live token)))))
                   (ret Committed)))
        (\<lambda>e. if is_os_or_runtime e
             then Some (swap_undo OS m key cand live (rollback_name live token) old (ignore_os (ho_unlink OS cand))) else None))"
  let ?Post = "switch_post V N E m key [] cand live (rollback_name live token)"
  have body: "valid (osat V N E) (mbind (?body c ex old) (\<lambda>(how, run). ret how)) ?Post (\<lambda>_ _. False)"
    if pins: "N cand = Some (Pin c)" "N live = map_option Pin old" "ex = (old \<noteq> None)" for c ex old
  proof -
    have set: "swap_setting OS nodes entries obs V N E m key [] cand live (rollback_name live token) c old"
      by (rule setting) (use assms pins in \<open>simp_all add: sub_path_def\<close>)
    have "ex = (N live \<noteq> None)" using pins by auto
    then have "valid (osat V N E) (?body c ex old) (\<lambda>(how, _). swap_setting.switched nodes entries obs V N E m key [] cand live (rollback_name live token) c old how) (\<lambda>_ _. False)"
      using swap_setting.transaction_valid [OF set _ unlink_discards [unfolded unchanged_but_def] swap_setting.unlink_old_valid [OF set refl],
          where move_old = "ret ex"] pins(3)
      by (simp add: valid_ret)
    then show ?thesis
      by (rule valid_bind) (simp only: split_paired_all prod.case, rule valid_ret, rule switched_post [OF set])
  qed
  show "valid (case found of (c, ex, old) \<Rightarrow> \<lambda>s. (N cand = Some (Pin c) \<and> N live = map_option Pin old \<and> ex = (old \<noteq> None)) \<and> osat V N E s)
      (case found of (c, ex, old) \<Rightarrow> mbind (?body c ex old) (\<lambda>(how, run). ret how)) ?Post
      (\<lambda>e s. is_os_or_runtime e \<and> unchanged_but cand V N E s)"
    by (cases found, simp only: prod.case, rule valid_pre, elim conjE, rule valid_weaken [OF body]) (assumption | simp)+
next
  fix N E
  show "valid (osat V N E) (mbind (gets (ho_exists OS cand)) (\<lambda>left. mwhen left (ignore_os (ho_unlink OS cand))))
      (\<lambda>_. unchanged_but cand V N E) (\<lambda>_ _. False)"
  proof (rule valid_gets)
    fix left
    show "valid (\<lambda>s. left = ho_exists OS cand s \<and> osat V N E s) (mwhen left (ignore_os (ho_unlink OS cand)))
        (\<lambda>_. unchanged_but cand V N E) (\<lambda>_ _. False)"
    proof (cases left)
      case True
      have "valid (\<lambda>s. left = ho_exists OS cand s \<and> osat V N E s) (ignore_os (ho_unlink OS cand)) (\<lambda>_. unchanged_but cand V N E) (\<lambda>_ _. False)"
        by (rule valid_weaken [OF unlink_discards]) auto
      with True show ?thesis by (simp add: mwhen_def)
    next
      case False
      then show ?thesis by (auto simp: mwhen_def unchanged_but_def valid_def ret_def)
    qed
  qed
qed

text \<open>Removing what is left of the old handler.\<close>

lemma clean_backup_post:
  assumes post: "switch_post V N E m key sfx cand live backup Committed k"
    and apart: "apart live backup" "sub_path sfx" and V: "visible N E m key (cand @ sfx) (live @ sfx) \<subseteq> V"
    and same: "entries k' = entries k" "obs k' \<subseteq> insert (entries k') (obs k)"
    and nodes: "\<forall>q. nodes k' q = nodes k q \<or> below backup q \<and> nodes k' q = None"
  shows "switch_post V N E m key sfx cand live backup Committed k'"
proof -
  obtain c old where c: "N (cand @ sfx) = Some (Pin c)" "N (live @ sfx) = map_option Pin old" "obs k \<subseteq> V"
    and others: "\<forall>p. \<not> below cand p \<and> \<not> below live p \<and> \<not> below backup p \<longrightarrow> nodes k p = N p"
    and now: "entries k = with_entry E m key (Some c)" "nodes k (live @ sfx) = Some (Pin c)" "gone (nodes k) cand"
    using post unfolding switch_post_def swap_end.case by blast
  have "\<not> below backup (live @ sfx)" by (rule apart_not_below [OF apart(1) below_sub [OF apart(2)]])
  then have "nodes k' (live @ sfx) = Some (Pin c)" using nodes now(2) by metis
  moreover have "gone (nodes k') cand" using nodes now(3) unfolding gone_def by metis
  moreover have "\<forall>p. \<not> below cand p \<and> \<not> below live p \<and> \<not> below backup p \<longrightarrow> nodes k' p = N p" using nodes others by metis
  moreover have "obs k' \<subseteq> V" using same c(1,3) now(1) V by (fastforce simp: visible_def)
  ultimately show ?thesis using c(1,2) same(1) now(1) unfolding switch_post_def swap_end.case
    by (intro exI [of _ c] exI [of _ old]) simp
qed

lemma clean_backup_valid:
  assumes "apart live backup" "sub_path sfx" and "visible N E m key (cand @ sfx) (live @ sfx) \<subseteq> V"
  shows "valid (switch_post V N E m key sfx cand live backup Committed) (ignore_os (ho_rmtree OS backup))
    (\<lambda>_. switch_post V N E m key sfx cand live backup Committed) (\<lambda>_ _. False)"
proof -
  have "switch_post V N E m key sfx cand live backup Committed k' \<and> (\<forall>e. r = Inl e \<longrightarrow> (\<exists>n. e = OSError n))"
    if "switch_post V N E m key sfx cand live backup Committed k" "ho_rmtree OS backup k = (r, k')" for k k' r
    using clean_backup_post [OF that(1) assms] rmtree_law [OF that(2)] by (auto split: sum.splits)
  then show ?thesis
    unfolding ignore_os_def by (intro validI) (fastforce simp: mtry_def ret_def split: prod.splits sum.splits option.splits)+
qed

lemma dir_swap_valid:
  assumes "0 \<le> key" "key < 2 ^ 32" "ready N token cand live"
    and "visible N E m key (cand @ ''/prog'') (live @ ''/prog'') \<subseteq> V"
  shows "valid (osat V N E) (dir_prog_swap OS token m key cand live)
    (switch_post V N E m key ''/prog'' cand live (rollback_name live token)) (\<lambda>e s. is_os_or_runtime e \<and> unchanged_but cand V N E s)"
  unfolding dir_prog_swap_def Let_def
proof (rule valid_bind [OF check_or_discard_valid [OF assms(1,2) rmtree_discards]])
  fix found :: "int \<times> bool \<times> int option"
  let ?backup = "rollback_name live token"
  let ?body = "\<lambda>c ex old. with_run (swap_start ex (live @ ''/prog''))
      (mtry (mseq (swap_commit OS ''/prog'' m key cand live ?backup c ex (gets (ho_exists OS live)))
             (ret Committed))
        (\<lambda>e. if is_os_or_runtime e
             then Some (swap_undo OS m key cand live ?backup old (ignore_os (ho_rmtree OS cand))) else None))"
  let ?clean = "\<lambda>how run. mseq (mwhen (how = Committed \<and> sw_moved_old run) (ignore_os (ho_rmtree OS ?backup))) (ret how)"
  let ?Post = "switch_post V N E m key ''/prog'' cand live ?backup"
  have clean: "valid (?Post how) (?clean how run) ?Post (\<lambda>_ _. False)" for how run
  proof (cases "how = Committed \<and> sw_moved_old run")
    case True
    have "valid (?Post Committed) (ignore_os (ho_rmtree OS ?backup)) (\<lambda>_. ?Post Committed) (\<lambda>_ _. False)"
      by (rule clean_backup_valid [OF apart_rollback_name _ assms(4)]) (simp add: sub_path_def)
    from valid_seq [OF this valid_ret] True show ?thesis by (simp add: mwhen_def)
  qed (auto simp: mwhen_def intro: valid_ret)
  have body: "valid (osat V N E) (mbind (?body c ex old) (\<lambda>(how, run). ?clean how run)) ?Post (\<lambda>_ _. False)"
    if pins: "N (cand @ ''/prog'') = Some (Pin c)" "N (live @ ''/prog'') = map_option Pin old" "ex = (old \<noteq> None)" for c ex old
  proof -
    have set: "swap_setting OS nodes entries obs V N E m key ''/prog'' cand live ?backup c old"
      by (rule setting) (use assms pins in \<open>simp_all add: sub_path_def\<close>)
    have move: "valid (osat V N' E') (gets (ho_exists OS live)) (\<lambda>b s. b = (N live \<noteq> None) \<and> osat V N' E' s) (\<lambda>_ _. False)"
      if "swap_setting.has_shape N cand live ?backup AsBefore N'" for N' E'
    proof -
      have "N' live = N live" using that tree_at_self unfolding swap_setting.has_shape.simps [OF set] by blast
      then show ?thesis by (auto simp: valid_def exists_at)
    qed
    have "valid (osat V N E) (?body c ex old) (\<lambda>(how, _). swap_setting.switched nodes entries obs V N E m key ''/prog'' cand live ?backup c old how) (\<lambda>_ _. False)"
      using swap_setting.transaction_valid [OF set move rmtree_discards [unfolded unchanged_but_def] swap_setting.keep_old_valid [OF set]] pins(3)
      by (simp only:)
    then show ?thesis
      by (rule valid_bind) (simp only: split_paired_all prod.case, rule valid_weaken [OF clean switched_post [OF set]])
  qed
  show "valid (case found of (c, ex, old) \<Rightarrow> \<lambda>s. (N (cand @ ''/prog'') = Some (Pin c) \<and> N (live @ ''/prog'') = map_option Pin old \<and> ex = (old \<noteq> None)) \<and> osat V N E s)
      (case found of (c, ex, old) \<Rightarrow> mbind (?body c ex old) (\<lambda>(how, run). ?clean how run)) ?Post
      (\<lambda>e s. is_os_or_runtime e \<and> unchanged_but cand V N E s)"
    by (cases found, simp only: prod.case, rule valid_pre, elim conjE, rule valid_weaken [OF body]) (assumption | simp)+
qed

end

end
