(* ===== verification/HandlerSafety.thy ===== *)
theory HandlerSafety
  imports HandlerProps
begin

text \<open>
  The two properties of loading a handler, and a file system with \<open>bpftool\<close> that satisfies what is
  assumed of them, any operation of which can be made to fail.
\<close>

section \<open>A switch that is watched\<close>

text \<open>The same system, which also writes down the program arrays after every operation.\<close>

definition watched :: "('k \<Rightarrow> entries) \<Rightarrow> ('k, 'a) pym \<Rightarrow> ('k \<times> entries list, 'a) pym" where
  "watched entries p = (\<lambda>(k, l). case p k of (r, k') \<Rightarrow> (r, (k', l @ [entries k'])))"

definition watched_os :: "('k \<Rightarrow> entries) \<Rightarrow> 'k handler_os \<Rightarrow> ('k \<times> entries list) handler_os" where
  "watched_os entries OS =
     \<lparr>ho_exists = \<lambda>p s. ho_exists OS p (fst s), ho_rename = \<lambda>a b. watched entries (ho_rename OS a b),
      ho_unlink = \<lambda>p. watched entries (ho_unlink OS p), ho_rmtree = \<lambda>p. watched entries (ho_rmtree OS p),
      ho_run = \<lambda>cmd. watched entries (ho_run OS cmd), ho_json = ho_json OS\<rparr>"

lemma watched_run: "watched entries p (k, l) = (r, (k', l')) \<longleftrightarrow> p k = (r, k') \<and> l' = l @ [entries k']"
  by (auto simp: watched_def split: prod.splits)

lemma watched_step:
  "watched entries p s = (r, s') \<Longrightarrow>
     p (fst s) = (r, fst s') \<and> set (snd s') \<subseteq> insert (entries (fst s')) (set (snd s))"
  by (auto simp: watched_def split: prod.splits)

lemma watched_sels:
  "ho_exists (watched_os entries OS) p s = ho_exists OS p (fst s)"
  "ho_rename (watched_os entries OS) a b = watched entries (ho_rename OS a b)"
  "ho_unlink (watched_os entries OS) p = watched entries (ho_unlink OS p)"
  "ho_rmtree (watched_os entries OS) p = watched entries (ho_rmtree OS p)"
  "ho_run (watched_os entries OS) cmd = watched entries (ho_run OS cmd)"
  "ho_json (watched_os entries OS) = ho_json OS"
  by (simp_all add: watched_os_def)

lemma watched_kernel:
  assumes "handler_kernel OS nodes entries obs"
  shows "handler_kernel (watched_os entries OS) (\<lambda>s. nodes (fst s)) (\<lambda>s. entries (fst s)) (\<lambda>s. set (snd s))"
  by (unfold_locales; unfold watched_sels; (drule watched_step, elim conjE)?;
      (drule (1) handler_kernel.rename_law [OF assms] | drule handler_kernel.unlink_law [OF assms]
       | drule handler_kernel.rmtree_law [OF assms] | drule handler_kernel.show_law [OF assms]
       | drule (2) handler_kernel.lookup_law [OF assms] | drule (2) handler_kernel.update_law [OF assms]
       | drule (1) handler_kernel.delete_law [OF assms] | rule handler_kernel.exists_law [OF assms]))
    simp_all

section \<open>Both functions at once\<close>

lemma prog_swap_valid:
  assumes os: "handler_kernel OS nodes entries obs" and key: "0 \<le> key" "key < 2 ^ 32"
    and ready: "ready N token cand live"
    and swap: "(sfx, swap) \<in> {([], file_prog_swap OS), (''/prog'', dir_prog_swap OS)}"
    and V: "visible N E m key (cand @ sfx) (live @ sfx) \<subseteq> V"
  shows "valid (os_at nodes entries obs V N E) (swap token m key cand live)
    (handler_kernel.switch_post nodes entries obs V N E m key sfx cand live (rollback_name live token))
    (\<lambda>e s. is_os_or_runtime e \<and> handler_kernel.unchanged_but nodes entries obs cand V N E s)"
  using swap handler_kernel.file_swap_valid [OF os key ready, of E m V] handler_kernel.dir_swap_valid [OF os key ready, of E m V] V
  by (elim insertE) auto

lemma visible_has_start: "E \<in> visible N E m key cp lp"
  by (simp add: visible_def)

text \<open>
  C28 (\<open>auto_xdp/admin_cli.py\<close>, \<open>_transactional_file_prog_swap\<close> and \<open>_transactional_dir_prog_swap\<close>): loading a
  handler is a transaction, whatever the file system and \<open>bpftool\<close> refuse. An exception of the check
  leaves the arrays and everything but the candidate as it was. A commit leaves the new program in
  the array and at its place. A roll back never loses the old program: it is still
  pinned, and the array has it again if there was one and the roll back is not reported as
  failed. A failed roll back keeps both programs pinned. Files of others are not touched.
\<close>

theorem handler_switch_transaction:
  assumes os: "handler_kernel OS nodes entries obs" and key: "0 \<le> key" "key < 2 ^ 32"
    and ready: "ready (nodes k) token cand live"
    and swap: "(sfx, swap) \<in> {([], file_prog_swap OS), (''/prog'', dir_prog_swap OS)}"
    and run: "swap token m key cand live k = (r, k')"
  shows "case r of
      Inl e \<Rightarrow> is_os_or_runtime e \<and> entries k' = entries k \<and> (\<forall>p. \<not> below cand p \<longrightarrow> nodes k' p = nodes k p)
    | Inr how \<Rightarrow> \<exists>c old. nodes k (cand @ sfx) = Some (Pin c) \<and> nodes k (live @ sfx) = map_option Pin old \<and>
        (\<forall>p. \<not> below cand p \<and> \<not> below live p \<and> \<not> below (rollback_name live token) p \<longrightarrow> nodes k' p = nodes k p) \<and>
        (case how of
           Committed \<Rightarrow> entries k' = with_entry (entries k) m key (Some c) \<and> nodes k' (live @ sfx) = Some (Pin c)
         | PreviousRestored \<Rightarrow>
             (entries k' = entries k \<or> entries k' = with_entry (entries k) m key old \<or>
              old = None \<and> entries k' = with_entry (entries k) m key (Some c)) \<and>
             (\<forall>x. old = Some x \<longrightarrow> Some (Pin x) \<in> {nodes k' (live @ sfx), nodes k' (rollback_name live token @ sfx)})
         | RollbackFailed \<Rightarrow>
             (entries k' = with_entry (entries k) m key (Some c) \<or> entries k' = with_entry (entries k) m key old) \<and>
             Some (Pin c) \<in> {nodes k' (cand @ sfx), nodes k' (live @ sfx)} \<and>
             (\<forall>x. old = Some x \<longrightarrow> Some (Pin x) \<in> {nodes k' (live @ sfx), nodes k' (rollback_name live token @ sfx)}))"
proof -
  let ?V = "visible (nodes k) (entries k) m key (cand @ sfx) (live @ sfx) \<union> obs k"
  have start: "os_at nodes entries obs ?V (nodes k) (entries k) k"
    by (simp add: os_at_def visible_has_start)
  note valid = prog_swap_valid [OF os key ready swap, of "entries k" m ?V, OF Un_upper1]
  show ?thesis
  proof (cases r)
    case (Inl e)
    with validD1 [OF valid start] run show ?thesis
      by (auto simp: handler_kernel.unchanged_but_def [OF os] os_at_def)
  next
    case (Inr how)
    with validD2 [OF valid start] run
    have "handler_kernel.switch_post nodes entries obs ?V (nodes k) (entries k) m key sfx cand live (rollback_name live token) how k'"
      by simp
    then show ?thesis
      unfolding handler_kernel.switch_post_def [OF os] Inr sum.case
      by (elim exE conjE, intro exI conjI) (assumption | cases how; simp)+
  qed
qed

text \<open>
  C29 (\<open>auto_xdp/admin_cli.py\<close>, both swap functions): no gap. If the program of a handler is active and pinned,
  then after every single operation, of a switch or of its roll back, the array entry is the old program or the
  new one: it is never empty, and no other entry changes.
\<close>

theorem handler_switch_no_gap:
  assumes os: "handler_kernel OS nodes entries obs" and key: "0 \<le> key" "key < 2 ^ 32"
    and ready: "ready (nodes k) token cand live"
    and swap: "(sfx, swap) \<in> {([], file_prog_swap (watched_os entries OS)), (''/prog'', dir_prog_swap (watched_os entries OS))}"
    and active: "entries k m key = Some x" "nodes k (live @ sfx) = Some (Pin x)"
    and run: "swap token m key cand live (k, []) = (r, (k', l))" and E: "E \<in> set l"
  shows "(E m key = Some x \<or> (\<exists>c. E m key = Some c \<and> nodes k (cand @ sfx) = Some (Pin c))) \<and>
    (\<forall>m' key'. (m', key') \<noteq> (m, key) \<longrightarrow> E m' key' = entries k m' key')"
proof -
  let ?V = "visible (nodes k) (entries k) m key (cand @ sfx) (live @ sfx)"
  note os' = watched_kernel [OF os]
  have start: "os_at (\<lambda>s. nodes (fst s)) (\<lambda>s. entries (fst s)) (\<lambda>s. set (snd s)) ?V (nodes k) (entries k) (k, [])"
    by (simp add: os_at_def visible_has_start)
  note valid = prog_swap_valid [OF os' key ready swap, of "entries k" m ?V, OF subset_refl]
  have "set l \<subseteq> ?V"
  proof (cases r)
    case (Inl e)
    with validD1 [OF valid start] run show ?thesis
      by (auto simp: handler_kernel.unchanged_but_def [OF os'] os_at_def)
  next
    case (Inr how)
    with validD2 [OF valid start] run show ?thesis
      by (auto simp: handler_kernel.switch_post_def [OF os'])
  qed
  with E consider "E = entries k" | c where "E = with_entry (entries k) m key (Some c)" "nodes k (cand @ sfx) = Some (Pin c)"
    | old where "E = with_entry (entries k) m key old" "nodes k (live @ sfx) = map_option Pin old"
    unfolding visible_def by blast
  then show ?thesis
  proof cases
    case 3
    with active(2) have "old = Some x" by (cases old) simp_all
    with 3(1) show ?thesis by (simp add: with_entry_def)
  qed (use active(1) in \<open>auto simp: with_entry_def\<close>)
qed

section \<open>A system that fails on demand\<close>

text \<open>
  Files and arrays as lists. \<open>hs_plan\<close> says of each operation whether it is refused; when it is used
  up, every operation works. A program number is printed as it is.
\<close>

record hstate =
  hs_files :: "(string \<times> node) list"
  hs_arrays :: "((string \<times> int) \<times> int) list"
  hs_plan :: "bool list"

definition hs_nodes :: "hstate \<Rightarrow> nodes" where "hs_nodes k = map_of (hs_files k)"

definition hs_entries :: "hstate \<Rightarrow> entries" where "hs_entries k = (\<lambda>m key. map_of (hs_arrays k) (m, key))"

definition refused :: "hstate \<Rightarrow> bool" where "refused k \<longleftrightarrow> hs_plan k \<noteq> [] \<and> hd (hs_plan k)"

definition planned :: "(hstate \<Rightarrow> ('a res \<times> hstate)) \<Rightarrow> 'a res \<Rightarrow> (hstate, 'a) pym" where
  "planned f no k = (let k1 = k\<lparr>hs_plan := tl (hs_plan k)\<rparr> in if refused k then (no, k1) else f k1)"

definition path_below :: "string \<Rightarrow> string \<Rightarrow> bool" where
  "path_below a p \<longleftrightarrow> take (length a) p = a \<and> (drop (length a) p = [] \<or> hd (drop (length a) p) = CHR ''/'')"

definition renamed :: "string \<Rightarrow> string \<Rightarrow> (string \<times> node) list \<Rightarrow> (string \<times> node) list" where
  "renamed a b fs = map (\<lambda>(p, n). (b @ drop (length a) p, n)) (filter (\<lambda>(p, n). path_below a p) fs) @
     filter (\<lambda>(p, n). \<not> path_below a p \<and> \<not> path_below b p) fs"

definition hs_answer :: "string list \<Rightarrow> hstate \<Rightarrow> (int \<times> string) \<times> hstate" where
  "hs_answer cmd k =
     (if length cmd = 6
      then (case map_of (hs_files k) (cmd ! 5) of Some (Pin n) \<Rightarrow> ((0, str_of_int n), k) | _ \<Rightarrow> ((1, []), k))
      else if length cmd = 11
      then (case map_of (hs_arrays k) (cmd ! 5, bpftool_key (drop 7 cmd)) of
              Some n \<Rightarrow> ((0, str_of_int n), k) | None \<Rightarrow> ((1, []), k))
      else if length cmd = 13
      then (case map_of (hs_files k) (cmd ! 12) of
              Some (Pin n) \<Rightarrow> ((0, []), k\<lparr>hs_arrays := AList.update (cmd ! 4, bpftool_key (take 4 (drop 6 cmd))) n (hs_arrays k)\<rparr>)
            | _ \<Rightarrow> ((1, []), k))
      else if length cmd = 10
      then ((0, []), k\<lparr>hs_arrays := AList.delete (cmd ! 4, bpftool_key (drop 6 cmd)) (hs_arrays k)\<rparr>)
      else ((1, []), k))"

definition hs_os :: "hstate handler_os" where
  "hs_os =
     \<lparr>ho_exists = \<lambda>p k. map_of (hs_files k) p \<noteq> None,
      ho_rename = \<lambda>a b. planned (\<lambda>k. if map_of (hs_files k) a = None then (Inl (OSError ENOENT), k)
                                   else (Inr (), k\<lparr>hs_files := renamed a b (hs_files k)\<rparr>)) (Inl (OSError EACCES)),
      ho_unlink = \<lambda>p. planned (\<lambda>k. (Inr (), k\<lparr>hs_files := AList.delete p (hs_files k)\<rparr>)) (Inl (OSError EACCES)),
      ho_rmtree = \<lambda>p. planned (\<lambda>k. (Inr (), k\<lparr>hs_files := filter (\<lambda>(q, n). \<not> path_below p q) (hs_files k)\<rparr>)) (Inl (OSError EACCES)),
      ho_run = \<lambda>cmd. planned (\<lambda>k. case hs_answer cmd k of (a, k') \<Rightarrow> (Inr a, k')) (Inr (1, [])),
      ho_json = \<lambda>s. case int_of_str s of
                      Some n \<Rightarrow> Inr (JsObj [(''id'', JsInt n), (''value'', JsInt n)]) | None \<Rightarrow> Inl ValueErr\<rparr>"

lemma path_below_iff [simp]: "path_below a p \<longleftrightarrow> below a p"
proof
  assume "path_below a p"
  then have "p = a @ drop (length a) p" "sub_path (drop (length a) p)"
    by (auto simp: path_below_def sub_path_def) (metis append_take_drop_id)+
  then show "below a p" unfolding below_def by blast
qed (auto simp: path_below_def below_def sub_path_def)

lemma map_of_renamed:
  "map_of (map (\<lambda>(p, n). (b @ drop (length a) p, n)) (filter (\<lambda>(p, n). below a p) fs)) x =
     (if below b x then map_of fs (a @ drop (length b) x) else None)"
proof (induction fs)
  case (Cons f fs)
  obtain p n where f: "f = (p, n)" by fastforce
  show ?case
  proof (cases "below a p")
    case True
    then obtain q where q: "sub_path q" "p = a @ q" by (auto simp: below_def)
    show ?thesis using Cons.IH q(1) by (auto simp: f q(2)) (auto simp: below_def)
  next
    case False
    then show ?thesis using Cons.IH by (auto simp: f below_def)
  qed
qed simp

lemma map_of_filter_key: "map_of (filter (\<lambda>(p, n). P p) fs) x = (if P x then map_of fs x else None)"
  by (induction fs) auto

lemma renamed_moved:
  assumes "apart a b"
  shows "map_of (renamed a b fs) = moved a b (map_of fs)"
proof
  fix x
  have "map_of (renamed a b fs) x = (case map_of (map (\<lambda>(p, n). (b @ drop (length a) p, n)) (filter (\<lambda>(p, n). below a p) fs)) x of
      None \<Rightarrow> map_of (filter (\<lambda>(p, n). \<not> below a p \<and> \<not> below b p) fs) x | Some n \<Rightarrow> Some n)"
    by (simp add: renamed_def map_add_def split: option.splits)
  also have "\<dots> = moved a b (map_of fs) x"
    using apart_not_below [OF assms, of x]
    unfolding map_of_renamed map_of_filter_key [of "\<lambda>p. \<not> below a p \<and> \<not> below b p"] moved_def by (auto split: option.splits)
  finally show "map_of (renamed a b fs) x = moved a b (map_of fs) x" .
qed

lemma hs_sels:
  "ho_exists hs_os p k \<longleftrightarrow> map_of (hs_files k) p \<noteq> None"
  "ho_json hs_os (str_of_int n) = Inr (JsObj [(''id'', JsInt n), (''value'', JsInt n)])"
  by (simp_all add: hs_os_def)

lemma hs_answers:
  "hs_answer (show_cmd p) k = (case map_of (hs_files k) p of Some (Pin n) \<Rightarrow> ((0, str_of_int n), k) | _ \<Rightarrow> ((1, []), k))"
  "0 \<le> key \<Longrightarrow> key < 2 ^ 32 \<Longrightarrow> hs_answer (lookup_cmd m key) k =
     (case map_of (hs_arrays k) (m, key) of Some n \<Rightarrow> ((0, str_of_int n), k) | None \<Rightarrow> ((1, []), k))"
  "0 \<le> key \<Longrightarrow> key < 2 ^ 32 \<Longrightarrow> hs_answer (update_cmd m key p) k =
     (case map_of (hs_files k) p of
        Some (Pin n) \<Rightarrow> ((0, []), k\<lparr>hs_arrays := AList.update (m, key) n (hs_arrays k)\<rparr>) | _ \<Rightarrow> ((1, []), k))"
  "length args = 4 \<Longrightarrow> hs_answer (delete_cmd m args) k =
     ((0, []), k\<lparr>hs_arrays := AList.delete (m, bpftool_key args) (hs_arrays k)\<rparr>)"
proof -
  have len: "length (bpf_key_u32 key) = 4" by (simp add: bpf_key_u32_def)
  show "hs_answer (show_cmd p) k = (case map_of (hs_files k) p of Some (Pin n) \<Rightarrow> ((0, str_of_int n), k) | _ \<Rightarrow> ((1, []), k))"
    by (simp add: hs_answer_def show_cmd_def)
  show "length args = 4 \<Longrightarrow> hs_answer (delete_cmd m args) k =
     ((0, []), k\<lparr>hs_arrays := AList.delete (m, bpftool_key args) (hs_arrays k)\<rparr>)"
    by (simp add: hs_answer_def delete_cmd_def)
  assume "0 \<le> key" "key < 2 ^ 32"
  note key = key_of_bytes [OF this]
  show "hs_answer (lookup_cmd m key) k =
     (case map_of (hs_arrays k) (m, key) of Some n \<Rightarrow> ((0, str_of_int n), k) | None \<Rightarrow> ((1, []), k))"
    using key by (simp add: hs_answer_def lookup_cmd_def len)
  show "hs_answer (update_cmd m key p) k =
     (case map_of (hs_files k) p of
        Some (Pin n) \<Rightarrow> ((0, []), k\<lparr>hs_arrays := AList.update (m, key) n (hs_arrays k)\<rparr>) | _ \<Rightarrow> ((1, []), k))"
    using key by (simp add: hs_answer_def update_cmd_def len nth_append split: option.splits node.splits)
qed

lemma planned_cases:
  "planned f no k = (r, k') \<Longrightarrow> (r = no \<and> k' = k\<lparr>hs_plan := tl (hs_plan k)\<rparr>) \<or> f (k\<lparr>hs_plan := tl (hs_plan k)\<rparr>) = (r, k')"
  by (auto simp: planned_def Let_def split: if_splits)

lemma hs_run_cases:
  assumes "ho_run hs_os cmd k = (r, k')"
  shows "\<exists>a. r = Inr a \<and> (a = (1, []) \<and> hs_files k' = hs_files k \<and> hs_arrays k' = hs_arrays k \<or>
    hs_answer cmd (k\<lparr>hs_plan := tl (hs_plan k)\<rparr>) = (a, k'))"
  using planned_cases [OF assms [unfolded hs_os_def handler_os.simps]] by (auto split: prod.splits)

interpretation hs: handler_kernel hs_os hs_nodes hs_entries "\<lambda>_. {}"
proof
  fix p k show "ho_exists hs_os p k \<longleftrightarrow> hs_nodes k p \<noteq> None" by (simp add: hs_sels hs_nodes_def)
next
  fix a b k r k' assume "apart a b" "ho_rename hs_os a b k = (r, k')"
  then show "hs_entries k' = hs_entries k \<and> {} \<subseteq> insert (hs_entries k') {} \<and>
      (case r of Inr _ \<Rightarrow> hs_nodes k a \<noteq> None \<and> hs_nodes k' = moved a b (hs_nodes k)
       | Inl e \<Rightarrow> hs_nodes k' = hs_nodes k \<and> (\<exists>n. e = OSError n))"
    using renamed_moved [of a b]
    by (auto simp: hs_os_def hs_nodes_def hs_entries_def dest!: planned_cases split: if_splits)
next
  fix p k r k' assume "ho_unlink hs_os p k = (r, k')"
  then show "hs_entries k' = hs_entries k \<and> {} \<subseteq> insert (hs_entries k') {} \<and>
      (case r of Inr _ \<Rightarrow> hs_nodes k' = (hs_nodes k)(p := None) | Inl e \<Rightarrow> hs_nodes k' = hs_nodes k \<and> (\<exists>n. e = OSError n))"
    by (auto simp: hs_os_def hs_nodes_def hs_entries_def delete_conv' dest!: planned_cases)
next
  fix p k r k' assume "ho_rmtree hs_os p k = (r, k')"
  then show "hs_entries k' = hs_entries k \<and> {} \<subseteq> insert (hs_entries k') {} \<and>
      (\<forall>q. hs_nodes k' q = hs_nodes k q \<or> below p q \<and> hs_nodes k' q = None) \<and>
      (case r of Inr _ \<Rightarrow> \<forall>q. below p q \<longrightarrow> hs_nodes k' q = None | Inl e \<Rightarrow> \<exists>n. e = OSError n)"
    by (auto simp: hs_os_def hs_nodes_def hs_entries_def map_of_filter_key [of "\<lambda>q. \<not> below p q"] dest!: planned_cases split: if_splits)
next
  fix p k q k' assume "ho_run hs_os (show_cmd p) k = (q, k')"
  then show "hs_nodes k' = hs_nodes k \<and> hs_entries k' = hs_entries k \<and> {} \<subseteq> insert (hs_entries k') {} \<and>
      (case q of
         Inr (code, out) \<Rightarrow> code = 0 \<longrightarrow>
           (case prog_id_of (ho_json hs_os out) of
              Inr n \<Rightarrow> hs_nodes k p = Some (Pin n) | Inl e \<Rightarrow> e \<in> {IndexErr, KeyErr, TypeErr, ValueErr})
       | Inl e \<Rightarrow> \<exists>n. e = OSError n)"
    by (auto simp: hs_nodes_def hs_entries_def hs_answers hs_sels prog_id_of_def json_int_def dest!: hs_run_cases
        split: option.splits node.splits)
next
  fix key m k q k' assume "0 \<le> key" "key < (2 :: int) ^ 32" "ho_run hs_os (lookup_cmd m key) k = (q, k')"
  then show "hs_nodes k' = hs_nodes k \<and> hs_entries k' = hs_entries k \<and> {} \<subseteq> insert (hs_entries k') {} \<and>
      (case q of
         Inr (code, out) \<Rightarrow> code = 0 \<longrightarrow>
           (case entry_id_of (ho_json hs_os out) of
              Inr (Some n) \<Rightarrow> hs_entries k m key = Some n | Inr None \<Rightarrow> True | Inl e \<Rightarrow> e \<in> {KeyErr, TypeErr, ValueErr})
       | Inl e \<Rightarrow> \<exists>n. e = OSError n)"
    by (auto simp: hs_nodes_def hs_entries_def hs_answers hs_sels entry_id_of_def dest!: hs_run_cases
        split: option.splits node.splits)
next
  fix key m p k q k' assume "0 \<le> key" "key < (2 :: int) ^ 32" "ho_run hs_os (update_cmd m key p) k = (q, k')"
  then show "hs_nodes k' = hs_nodes k \<and> {} \<subseteq> insert (hs_entries k') {} \<and>
      (case q of
         Inr (code, out) \<Rightarrow>
           if code = 0 then \<exists>n. hs_nodes k p = Some (Pin n) \<and> hs_entries k' = with_entry (hs_entries k) m key (Some n)
           else hs_entries k' = hs_entries k
       | Inl e \<Rightarrow> hs_entries k' = hs_entries k \<and> (\<exists>n. e = OSError n))"
    by (auto simp: hs_nodes_def hs_entries_def hs_answers with_entry_def update_conv fun_eq_iff dest!: hs_run_cases
        split: option.splits node.splits)
next
  fix args m k q k' assume "length args = 4" "ho_run hs_os (delete_cmd m args) k = (q, k')"
  then show "hs_nodes k' = hs_nodes k \<and> {} \<subseteq> insert (hs_entries k') {} \<and>
      (case q of
         Inr (code, out) \<Rightarrow> hs_entries k' = (if code = 0 then with_entry (hs_entries k) m (bpftool_key args) None else hs_entries k)
       | Inl e \<Rightarrow> hs_entries k' = hs_entries k \<and> (\<exists>n. e = OSError n))"
    by (auto simp: hs_nodes_def hs_entries_def hs_answers with_entry_def delete_conv fun_eq_iff dest!: hs_run_cases)
qed

section \<open>An example\<close>

text \<open>
  Program 5 is the live handler of protocol 6, program 7 the candidate. The seventh operation, the rename
  of the candidate, is refused.
\<close>

definition ex_handlers :: "bool list \<Rightarrow> hstate" where
  "ex_handlers plan = \<lparr>hs_files = [(''n'', Pin 7), (''h'', Pin 5)], hs_arrays = [((''m'', 6), 5)], hs_plan = plan\<rparr>"

lemma ex_ready: "ready (hs_nodes (ex_handlers plan)) ''t'' ''n'' ''h''"
proof -
  have "wf_files (hs_nodes (ex_handlers plan))"
    by (auto simp: wf_files_def hs_nodes_def ex_handlers_def sub_path_def append_eq_Cons_conv split: if_splits)
  moreover have "gone (hs_nodes (ex_handlers plan)) (rollback_name ''h'' ''t'')"
    by (auto simp: gone_def below_def hs_nodes_def ex_handlers_def)
  ultimately show ?thesis by (auto simp: ready_def apart_def below_def)
qed

lemma ex_refused: "\<exists>k'. file_prog_swap hs_os ''t'' ''m'' 6 ''n'' ''h'' (ex_handlers (replicate 6 False @ [True])) = (Inr PreviousRestored, k')"
proof -
  have "fst (file_prog_swap hs_os ''t'' ''m'' 6 ''n'' ''h'' (ex_handlers (replicate 6 False @ [True]))) = Inr PreviousRestored"
    by code_simp
  then show ?thesis by (metis prod.collapse)
qed

theorem handler_switch_transaction_witness:
  "\<exists>k'. file_prog_swap hs_os ''t'' ''m'' 6 ''n'' ''h'' (ex_handlers (replicate 6 False @ [True])) = (Inr PreviousRestored, k') \<and>
     hs_entries k' ''m'' 6 = Some 5 \<and> Some (Pin 5) \<in> {hs_nodes k' ''h'', hs_nodes k' (rollback_name ''h'' ''t'')}"
proof -
  let ?k = "ex_handlers (replicate 6 False @ [True])"
  obtain k' where run: "file_prog_swap hs_os ''t'' ''m'' 6 ''n'' ''h'' ?k = (Inr PreviousRestored, k')" using ex_refused ..
  have pins: "hs_nodes ?k ''n'' = Some (Pin 7)" "hs_nodes ?k ''h'' = Some (Pin 5)" "hs_entries ?k ''m'' 6 = Some 5"
    by (simp_all add: hs_nodes_def hs_entries_def ex_handlers_def)
  have old: "Some (Pin 5) = map_option Pin old \<longleftrightarrow> old = Some 5" for old by (cases old) auto
  from handler_switch_transaction [where swap = "file_prog_swap hs_os" and sfx = "[]",
      OF hs.handler_kernel_axioms _ _ ex_ready _ run] pins old
  show ?thesis using run by (auto simp: with_entry_def)
qed

theorem handler_switch_no_gap_witness:
  "\<exists>r k' l. file_prog_swap (watched_os hs_entries hs_os) ''t'' ''m'' 6 ''n'' ''h'' (ex_handlers (replicate 6 False @ [True]), []) =
     (r, (k', l)) \<and> l \<noteq> [] \<and> (\<forall>E \<in> set l. E ''m'' 6 \<in> {Some 5, Some 7})"
proof -
  let ?k = "ex_handlers (replicate 6 False @ [True])"
  let ?run = "file_prog_swap (watched_os hs_entries hs_os) ''t'' ''m'' 6 ''n'' ''h'' (?k, [])"
  obtain r k' l where run: "?run = (r, (k', l))" by (metis prod.exhaust)
  have "snd (snd ?run) \<noteq> []" by code_simp
  then have "l \<noteq> []" using run by simp
  have pins: "hs_nodes ?k ''n'' = Some (Pin 7)" "hs_nodes ?k (''h'' @ []) = Some (Pin 5)" "hs_entries ?k ''m'' 6 = Some 5"
    by (simp_all add: hs_nodes_def hs_entries_def ex_handlers_def)
  have "E ''m'' 6 \<in> {Some 5, Some 7}" if "E \<in> set l" for E
    using handler_switch_no_gap [where swap = "file_prog_swap (watched_os hs_entries hs_os)" and sfx = "[]",
      OF hs.handler_kernel_axioms _ _ ex_ready _ pins(3,2) run that] pins(1) by auto
  with run \<open>l \<noteq> []\<close> show ?thesis by blast
qed

text \<open>A switch of this system is an instance of the setting of the proof.\<close>

interpretation ex_swap: swap_setting hs_os hs_nodes hs_entries "\<lambda>_. {}"
  "visible (hs_nodes (ex_handlers [])) (hs_entries (ex_handlers [])) ''m'' 6 ''n'' ''h''"
  "hs_nodes (ex_handlers [])" "hs_entries (ex_handlers [])" "''m''" 6 "[]" "''n''" "''h''" "rollback_name ''h'' ''t''" 7 "Some 5"
  by (rule hs.setting [OF _ _ ex_ready]) (simp_all add: sub_path_def hs_nodes_def ex_handlers_def)

text \<open>
  Without an old program, a lookup that fails is taken for an entry that is gone: the function
  reports that the previous program was restored while the candidate is still in the array.
\<close>

lemma failed_lookup_hides_candidate:
  "case file_prog_swap hs_os ''t'' ''m'' 6 ''n'' ''h''
      \<lparr>hs_files = [(''n'', Pin 7)], hs_arrays = [], hs_plan = [False, False, False, True, True, True]\<rparr> of
    (r, k') \<Rightarrow> r = Inr PreviousRestored \<and> hs_arrays k' = [((''m'', 6), 7)] \<and> hs_files k' = []"
  by code_simp

end
