(* ===== verification/Stats.thy ===== *)
theory Stats
  imports Json
begin

text \<open>
  The counters of \<open>axdp stats\<close>, from \<open>auto_xdp/admin_cli.py\<close>: reading the per-CPU counters that \<open>bpftool\<close>
  prints, and the accumulator that keeps totals over reloads of the BPF programs. A dump is
  what \<open>json.loads\<close> made of the output.
\<close>

unbundle bit_operations_syntax

section \<open>Numbers in a dump\<close>

text \<open>\<open>(int(b, 0) if isinstance(b, str) else int(b)) & 0xFF\<close>, and the same without the second \<open>int\<close>.\<close>

definition low_byte :: "json \<Rightarrow> int res" where
  "low_byte v = rbind (json_int0 v) (\<lambda>i. Inr (i AND 0xFF))"

definition low_byte_of_int :: "json \<Rightarrow> int res" where
  "low_byte_of_int v =
     (case v of
        JsStr s \<Rightarrow> rbind (int_of_str0 s) (\<lambda>i. Inr (i AND 0xFF))
      | _ \<Rightarrow> (case json_is_int v of Some i \<Rightarrow> Inr (i AND 0xFF) | None \<Rightarrow> Inl TypeErr))"

definition bytelist_to_int :: "json list \<Rightarrow> int res" where
  "bytelist_to_int lst =
     (case rmap low_byte lst of
        Inr raw \<Rightarrow> Inr (from_little raw)
      | Inl e \<Rightarrow> if e \<in> {ValueErr, TypeErr} then Inr 0 else Inl e)"

text \<open>A string that is no number counts as nothing.\<close>

definition number_or_zero :: "string \<Rightarrow> int" where
  "number_or_zero s = (case int_of_str0 s of Inr i \<Rightarrow> i | Inl _ \<Rightarrow> 0)"

text \<open>One element of a per-CPU list; \<open>of_bytes\<close> reads a list of bytes.\<close>

definition percpu_element :: "(json list \<Rightarrow> int res) \<Rightarrow> json \<Rightarrow> int res" where
  "percpu_element of_bytes e =
     (case e of
        JsObj d \<Rightarrow>
          (case dict_get_or d ''value'' (JsInt 0) of
             JsArr bs \<Rightarrow> of_bytes bs
           | JsStr s \<Rightarrow> Inr (number_or_zero s)
           | v \<Rightarrow> Inr (case json_is_int v of Some i \<Rightarrow> i | None \<Rightarrow> 0))
      | JsStr s \<Rightarrow> Inr (number_or_zero s)
      | _ \<Rightarrow> Inr (case json_is_int e of Some i \<Rightarrow> i | None \<Rightarrow> 0))"

definition sum_percpu :: "json \<Rightarrow> int res" where
  "sum_percpu v =
     (case v of
        JsArr es \<Rightarrow> rbind (rmap (percpu_element bytelist_to_int) es) (\<lambda>ns. Inr (sum_list ns))
      | JsStr s \<Rightarrow> Inr (number_or_zero s)
      | _ \<Rightarrow> Inr (case json_is_int v of Some i \<Rightarrow> i | None \<Rightarrow> 0))"

definition parse_key :: "json \<Rightarrow> int res" where
  "parse_key key =
     (case key of
        JsStr s \<Rightarrow> Inr (case int_of_str0 s of Inr i \<Rightarrow> i | Inl _ \<Rightarrow> - 1)
      | JsArr bs \<Rightarrow> rbind (rmap low_byte_of_int (take 4 bs)) (\<lambda>b. Inr (from_little b))
      | _ \<Rightarrow> Inr (case json_is_int key of Some i \<Rightarrow> i | None \<Rightarrow> - 1))"

text \<open>Looping over what \<open>json.loads\<close> returned; a row that is no object has no \<open>get\<close>.\<close>

definition dump_rows :: "json \<Rightarrow> json list res" where
  "dump_rows v =
     (case v of
        JsArr rows \<Rightarrow> Inr rows
      | JsObj d \<Rightarrow> Inr (map (\<lambda>(k, _). JsStr k) d)
      | JsStr s \<Rightarrow> Inr (map (\<lambda>c. JsStr [c]) s)
      | _ \<Rightarrow> Inl TypeErr)"

definition row_fields :: "json \<Rightarrow> (string \<times> json) list res" where
  "row_fields row = (case row of JsObj d \<Rightarrow> Inr d | _ \<Rightarrow> Inl AttributeErr)"

definition row_value :: "(string \<times> json) list \<Rightarrow> json" where
  "row_value d = dict_get_or d ''values'' (dict_get_or d ''value'' (JsInt 0))"

definition add_count :: "int \<Rightarrow> int \<Rightarrow> (int, int) dict \<Rightarrow> (int, int) dict" where
  "add_count k n d = dict_set k (dict_get_or d k 0 + n) d"

section \<open>The counters\<close>

definition XDP_COUNTER_NAMES :: "string list" where
  "XDP_COUNTER_NAMES =
     [''TCP_NEW_ALLOW'', ''TCP_ESTABLISHED'', ''TCP_DROP'', ''UDP_PASS'', ''UDP_DROP'', ''IPv4_OTHER'', ''IPv6_ICMP'',
      ''FRAG_DROP'', ''ARP_NON_IP'', ''TCP_CT_MISS'', ''ICMP_DROP'', ''SYN_RATE_DROP'', ''UDP_RATE_DROP'',
      ''UDP_GBL_DROP'', ''TCP_NULL'', ''TCP_XMAS'', ''TCP_SYN_FIN'', ''TCP_SYN_RST'', ''TCP_RST_FIN'',
      ''TCP_BAD_DOFF'', ''TCP_PORT0'', ''VLAN_DROP'', ''SLOT_CALL'', ''SLOT_PASS'', ''SLOT_DROP'', ''UDP_PORT0'',
      ''UDP_BAD_LEN'', ''BOGON_DROP'', ''TCP_CONN_LIMIT_DROP'', ''SYN_AGG_RATE_DROP'', ''UDP_AGG_RATE_DROP'',
      ''HANDLER_BLOCK_DROP'', ''TCP_CONN_PREFIX_LIMIT_DROP'', ''TCP_CONN_PORT_LIMIT_DROP'', ''ABUSEIPDB_DROP'']"

definition is_drop_counter :: "string \<Rightarrow> bool" where
  "is_drop_counter name \<longleftrightarrow> str_prefix (rev ''_DROP'') (rev name) \<or> str_prefix (rev ''_GBL_DROP'') (rev name)"

type_synonym row = "string \<times> int \<times> int"

definition count_packets :: "json \<Rightarrow> (int, int) dict \<Rightarrow> (int, int) dict res" where
  "count_packets row counts =
     rbind (row_fields row) (\<lambda>d.
     rbind (sum_percpu (row_value d)) (\<lambda>packets.
     rbind (parse_key (dict_get_or d ''key'' (JsInt (- 1)))) (\<lambda>k.
     Inr (if 0 \<le> k then add_count k packets counts else counts))))"

text \<open>\<open>_read_byte_counters\<close>: the sums are read in place, and a list of bytes that is none raises.\<close>

definition byte_counter_key :: "json option \<Rightarrow> int option res" where
  "byte_counter_key k =
     (case k of
        None \<Rightarrow> Inr None
      | Some (JsArr bs) \<Rightarrow> rbind (rmap low_byte_of_int (take 4 bs)) (\<lambda>b. Inr (Some (from_little b)))
      | Some v \<Rightarrow> Inr (json_is_int v))"

definition byte_counter_sum :: "json \<Rightarrow> int res" where
  "byte_counter_sum v =
     (case v of
        JsArr es \<Rightarrow> rbind (rmap (percpu_element (\<lambda>bs. rbind (rmap low_byte bs) (\<lambda>raw. Inr (from_little raw)))) es)
                      (\<lambda>ns. Inr (sum_list ns))
      | _ \<Rightarrow> Inr (case json_is_int v of Some i \<Rightarrow> i | None \<Rightarrow> 0))"

definition count_bytes :: "json \<Rightarrow> (int, int) dict \<Rightarrow> (int, int) dict res" where
  "count_bytes row counts =
     rbind (row_fields row) (\<lambda>d.
     rbind (byte_counter_key (dict_get d ''key'')) (\<lambda>key.
     case key of
       None \<Rightarrow> Inr counts
     | Some idx \<Rightarrow> rbind (byte_counter_sum (row_value d)) (\<lambda>n. Inr (add_count idx n counts))))"

text \<open>\<open>dump\<close> is \<open>None\<close> if there is no such map or it cannot be read.\<close>

definition read_byte_counters :: "json option \<Rightarrow> (int \<times> int \<times> int \<times> int) res" where
  "read_byte_counters dump =
     (case dump of
        None \<Rightarrow> Inr (- 1, - 1, - 1, - 1)
      | Some v \<Rightarrow>
          rbind (dump_rows v) (\<lambda>rows.
          rbind (rfold count_bytes rows []) (\<lambda>counts.
          Inr (dict_get_or counts 0 0, dict_get_or counts 1 0, dict_get_or counts 2 (- 1), dict_get_or counts 3 (- 1)))))"

definition xdp_rows :: "(int, int) dict \<Rightarrow> int \<times> int \<times> int \<times> int \<Rightarrow> row list" where
  "xdp_rows counts = (\<lambda>(total_bytes, drop_bytes, total_pkts, drop_pkts).
     let packets = (\<lambda>i. dict_get_or counts (int i) 0);
         named = enumerate 0 XDP_COUNTER_NAMES;
         tot = (\<Sum>(i, name) \<leftarrow> named. packets i);
         drop_tot = (\<Sum>(i, name) \<leftarrow> filter (\<lambda>(i, name). is_drop_counter name) named. packets i)
     in map (\<lambda>(i, name). (name, packets i, - 1)) named @
        map (\<lambda>k. (''COUNTER_'' @ str_of_int k, dict_get_or counts k 0, - 1))
          (filter (\<lambda>k. int (length XDP_COUNTER_NAMES) \<le> k) (sorted_list_of_set (dict_keys counts))) @
        [(''XDP_TOTAL'', if 0 \<le> total_pkts then total_pkts else tot, total_bytes),
         (''XDP_DROP_TOTAL'', if 0 \<le> drop_pkts then drop_pkts else drop_tot, drop_bytes)])"

definition read_xdp_rows :: "bool \<Rightarrow> bool \<Rightarrow> json option \<Rightarrow> json option \<Rightarrow> row list res" where
  "read_xdp_rows map_exists has_bpftool counters byte_counters =
     (if \<not> map_exists \<or> \<not> has_bpftool then Inl RuntimeErr
      else case counters of
        None \<Rightarrow> Inl RuntimeErr
      | Some v \<Rightarrow>
          rbind (dump_rows v) (\<lambda>rows.
          rbind (rfold count_packets rows []) (\<lambda>counts.
          rbind (read_byte_counters byte_counters) (\<lambda>bytes.
          Inr (xdp_rows counts bytes)))))"

section \<open>Totals over reloads\<close>

text \<open>
  \<open>_load_stats_state\<close> and \<open>_save_stats_state\<close>: the file holds a JSON value, or nothing that can be
  read. Writing it may fail, which is ignored.
\<close>

definition load_stats_state :: "json option \<Rightarrow> json" where
  "load_stats_state file = (case file of None \<Rightarrow> JsObj [] | Some v \<Rightarrow> v)"

definition save_stats_state :: "bool \<Rightarrow> json \<Rightarrow> json option \<Rightarrow> json option" where
  "save_stats_state writable v file = (if writable then Some v else file)"

text \<open>The last row of a name decides.\<close>

definition find_row :: "string \<Rightarrow> row list \<Rightarrow> (int \<times> int) option" where
  "find_row name rows = map_of (rev rows) name"

text \<open>\<open>isinstance(v, int)\<close> on a member of the file; \<open>None\<close> is an absent one too.\<close>

definition int_member :: "(string \<times> json) list \<Rightarrow> string \<Rightarrow> int option" where
  "int_member d name = (case dict_get d name of None \<Rightarrow> None | Some v \<Rightarrow> json_is_int v)"

definition nonneg_member :: "(string \<times> json) list \<Rightarrow> string \<Rightarrow> int option" where
  "nonneg_member d name = (case int_member d name of Some n \<Rightarrow> if 0 \<le> n then Some n else None | None \<Rightarrow> None)"

text \<open>Counting on from a raw value; a smaller one means that the counter began again.\<close>

definition count_on :: "int \<Rightarrow> int \<Rightarrow> int \<Rightarrow> int" where
  "count_on prev_acc prev_raw current = (if prev_raw \<le> current then prev_acc + (current - prev_raw) else prev_acc + current)"

definition accumulate ::
  "string \<Rightarrow> string \<Rightarrow> string \<Rightarrow> (string \<times> json) list \<Rightarrow> int \<times> int \<Rightarrow> int \<times> int \<Rightarrow> (int \<times> int) \<times> (int \<times> int)" where
  "accumulate backend iface map_id state = (\<lambda>(tot, total_bytes) (dropped, drop_bytes).
     let int_of = int_member state;
         here = dict_get_or state ''backend'' (JsStr []) = JsStr backend \<and> dict_get_or state ''iface'' (JsStr []) = JsStr iface;
         prev_map = dict_get_or state ''map_id'' (JsStr []) in
     case (int_of ''acc_total'', int_of ''acc_drop'') of
       (Some acc_total, Some acc_drop) \<Rightarrow>
         (case (int_of ''raw_total'', int_of ''raw_drop'') of
            (Some raw_total, Some raw_drop) \<Rightarrow>
              if here \<and> prev_map = JsStr map_id \<and> prev_map \<noteq> JsStr ''-'' \<and> map_id \<noteq> ''-''
              then let bytes = (\<lambda>current raw acc.
                         case (nonneg_member state raw, nonneg_member state acc) of
                           (Some r, Some a) \<Rightarrow> if 0 \<le> current then count_on a r current else current
                         | _ \<Rightarrow> current)
                   in ((count_on acc_total raw_total tot, bytes total_bytes ''raw_total_bytes'' ''acc_total_bytes''),
                       (count_on acc_drop raw_drop dropped, bytes drop_bytes ''raw_drop_bytes'' ''acc_drop_bytes''))
              else if here
              then let bytes = (\<lambda>current acc. case nonneg_member state acc of
                         Some a \<Rightarrow> if 0 \<le> current then a + current else current | None \<Rightarrow> current)
                   in ((acc_total + tot, bytes total_bytes ''acc_total_bytes''), (acc_drop + dropped, bytes drop_bytes ''acc_drop_bytes''))
              else ((tot, total_bytes), (dropped, drop_bytes))
          | _ \<Rightarrow>
              if here
              then let bytes = (\<lambda>current acc. case nonneg_member state acc of
                         Some a \<Rightarrow> if 0 \<le> current then a + current else current | None \<Rightarrow> current)
                   in ((acc_total + tot, bytes total_bytes ''acc_total_bytes''), (acc_drop + dropped, bytes drop_bytes ''acc_drop_bytes''))
              else ((tot, total_bytes), (dropped, drop_bytes)))
     | _ \<Rightarrow> ((tot, total_bytes), (dropped, drop_bytes)))"

definition with_totals :: "(int \<times> int) \<times> (int \<times> int) \<Rightarrow> row list \<Rightarrow> row list" where
  "with_totals acc rows = map (\<lambda>(name, packets, b).
     if name = ''XDP_TOTAL'' then (name, fst acc)
     else if name = ''XDP_DROP_TOTAL'' then (name, snd acc)
     else (name, packets, b)) rows"

definition stats_record ::
  "string \<Rightarrow> string \<Rightarrow> string \<Rightarrow> int \<times> int \<Rightarrow> int \<times> int \<Rightarrow> (int \<times> int) \<times> (int \<times> int) \<Rightarrow> json" where
  "stats_record backend iface map_id = (\<lambda>(tot, total_bytes) (dropped, drop_bytes) ((acc_total, acc_total_bytes), (acc_drop, acc_drop_bytes)).
     JsObj [(''backend'', JsStr backend), (''iface'', JsStr iface), (''map_id'', JsStr map_id),
       (''raw_total'', JsInt tot), (''raw_drop'', JsInt dropped),
       (''acc_total'', JsInt acc_total), (''acc_drop'', JsInt acc_drop),
       (''raw_total_bytes'', JsInt total_bytes), (''raw_drop_bytes'', JsInt drop_bytes),
       (''acc_total_bytes'', JsInt acc_total_bytes), (''acc_drop_bytes'', JsInt acc_drop_bytes)])"

text \<open>Without a number of the map nothing is stored.\<close>

definition apply_xdp_accumulator ::
  "bool \<Rightarrow> row list \<Rightarrow> string \<Rightarrow> string \<Rightarrow> string \<Rightarrow> json option \<Rightarrow> (row list \<times> json option) res" where
  "apply_xdp_accumulator writable rows backend iface map_id file =
     (if backend \<noteq> ''xdp'' then Inr (rows, file)
      else case (find_row ''XDP_TOTAL'' rows, find_row ''XDP_DROP_TOTAL'' rows) of
        (Some tot, Some dropped) \<Rightarrow>
          rbind (row_fields (load_stats_state file)) (\<lambda>state.
          let acc = accumulate backend iface map_id state tot dropped in
          Inr (with_totals acc rows,
               if map_id = ''-'' then file
               else save_stats_state writable (stats_record backend iface map_id tot dropped acc) file))
      | _ \<Rightarrow> Inr (rows, file))"

text \<open>\<open>_collect_stats_rows\<close>, with what the readers return.\<close>

definition collect_stats_rows ::
  "bool \<Rightarrow> string \<Rightarrow> row list res \<Rightarrow> string \<Rightarrow> row list \<Rightarrow> row option \<Rightarrow> string \<Rightarrow> json option \<Rightarrow>
     ((row list \<times> string) \<times> json option) res" where
  "collect_stats_rows writable backend read_xdp map_id nft_rows iface_row iface file =
     rbind (if backend = ''xdp''
            then rbind read_xdp (\<lambda>rows. apply_xdp_accumulator writable rows backend iface map_id file)
            else Inr (nft_rows, file)) (\<lambda>(rows, file').
     Inr ((case iface_row of None \<Rightarrow> rows | Some r \<Rightarrow> rows @ [r], if backend = ''xdp'' then map_id else ''-''), file'))"

section \<open>Changes between two calls\<close>

text \<open>
  \<open>_read_xdp_map_id\<close>: the number that begins the first line of \<open>bpftool map show\<close>. No digit and no
  colon ends a line, so that line begins as the output does.
\<close>

definition read_xdp_map_id :: "(int \<times> string) option \<Rightarrow> string" where
  "read_xdp_map_id shown =
     (case shown of
        Some (status, out) \<Rightarrow>
          if status \<noteq> 0 then ''-''
          else let number = takeWhile is_digit out in
            if number \<noteq> [] \<and> str_prefix '':'' (drop (length number) out) then number else ''-''
      | None \<Rightarrow> ''-'')"

text \<open>What \<open>_render_stats\<close> derives from the rows of the call before: the hint at a counter that fell,
  and the changes behind a rate, \<open>-1\<close> for one that is unknown.\<close>

definition rows_to_prev :: "row list \<Rightarrow> (string, int \<times> int) dict" where
  "rows_to_prev rows = foldl (\<lambda>d (name, v). dict_set name v d) [] rows"

definition reset_hint :: "(string, int \<times> int) dict \<Rightarrow> row \<Rightarrow> string option" where
  "reset_hint prev = (\<lambda>(name, packets, b).
     let before = fst (dict_get_or prev name (- 1, - 1)) in
     if 0 \<le> before \<and> packets < before
     then Some (name @ '':'' @ str_of_int before @ ''->'' @ str_of_int packets) else None)"

definition row_deltas :: "(string, int \<times> int) dict \<Rightarrow> row \<Rightarrow> (int \<times> int) option" where
  "row_deltas prev = (\<lambda>(name, packets, b).
     case dict_get_or prev name (- 1, - 1) of (prev_packets, prev_bytes) \<Rightarrow>
       if prev_packets < 0 then None
       else let packet_delta = packets - prev_packets; byte_delta = b - prev_bytes in
         Some (if packet_delta < 0 then - 1 else packet_delta,
               if b = - 1 \<or> prev_bytes = - 1 then - 1 else if byte_delta < 0 then - 1 else byte_delta))"

end
