(* ===== verification/StatsProps.thy ===== *)
theory StatsProps
  imports Stats
begin

text \<open>
  What the totals of \<open>axdp stats\<close> show over a series of calls: the packets and bytes counted since
  the first call, across reloads of the BPF programs, while every call can tell which map it read.
\<close>

section \<open>One call\<close>

lemma map_of_map_keyed: "map_of (map (\<lambda>(k, v). (k, f k v)) xs) k = map_option (f k) (map_of xs k)"
  by (induction xs) auto

lemma find_row_with_totals:
  "find_row name (with_totals acc rows) =
     map_option (\<lambda>v. if name = ''XDP_TOTAL'' then fst acc else if name = ''XDP_DROP_TOTAL'' then snd acc else v)
       (find_row name rows)"
proof -
  have "with_totals acc rows =
      map (\<lambda>(n, v). (n, if n = ''XDP_TOTAL'' then fst acc else if n = ''XDP_DROP_TOTAL'' then snd acc else v)) rows"
    unfolding with_totals_def by (rule map_cong [OF refl]) (simp only: split_beta split: if_split, clarsimp)
  then show ?thesis by (simp only: find_row_def rev_map map_of_map_keyed)
qed

lemma count_on_from: "count_on acc prev cur = acc + count_on 0 prev cur"
  by (simp add: count_on_def)

text \<open>What one call adds to a total: all of a new map, the difference of a known one.\<close>

definition counted :: "(string \<times> int) option \<Rightarrow> string \<Rightarrow> int \<Rightarrow> int" where
  "counted prev m r = (case prev of Some (m', r') \<Rightarrow> if m = m' \<and> r' \<le> r then r - r' else r | None \<Rightarrow> r)"

lemma counted_nonneg: "0 \<le> r \<Longrightarrow> 0 \<le> counted prev m r"
  by (auto simp: counted_def split: option.splits)

definition stats_fields :: "json \<Rightarrow> (string \<times> json) list" where
  "stats_fields v = (case v of JsObj d \<Rightarrow> d | _ \<Rightarrow> [])"

lemma row_fields_record [simp]:
  "row_fields (stats_record b i m t d acc) = Inr (stats_fields (stats_record b i m t d acc))"
  by (cases t; cases d; cases acc; cases "fst acc"; cases "snd acc") (simp add: row_fields_def stats_fields_def stats_record_def)

lemma accumulate_nothing: "accumulate b i m [] t d = (t, d)"
  by (cases t; cases d) (simp add: accumulate_def int_member_def)

lemma members_of_record:
  "dict_get_or (stats_fields (stats_record b i m (t, tb) (d, db) ((acc, accb), (ad, adb)))) ''backend'' v = JsStr b"
  "dict_get_or (stats_fields (stats_record b i m (t, tb) (d, db) ((acc, accb), (ad, adb)))) ''iface'' v = JsStr i"
  "dict_get_or (stats_fields (stats_record b i m (t, tb) (d, db) ((acc, accb), (ad, adb)))) ''map_id'' v = JsStr m"
  "int_member (stats_fields (stats_record b i m (t, tb) (d, db) ((acc, accb), (ad, adb)))) ''raw_total'' = Some t"
  "int_member (stats_fields (stats_record b i m (t, tb) (d, db) ((acc, accb), (ad, adb)))) ''raw_drop'' = Some d"
  "int_member (stats_fields (stats_record b i m (t, tb) (d, db) ((acc, accb), (ad, adb)))) ''acc_total'' = Some acc"
  "int_member (stats_fields (stats_record b i m (t, tb) (d, db) ((acc, accb), (ad, adb)))) ''acc_drop'' = Some ad"
  "int_member (stats_fields (stats_record b i m (t, tb) (d, db) ((acc, accb), (ad, adb)))) ''raw_total_bytes'' = Some tb"
  "int_member (stats_fields (stats_record b i m (t, tb) (d, db) ((acc, accb), (ad, adb)))) ''raw_drop_bytes'' = Some db"
  "int_member (stats_fields (stats_record b i m (t, tb) (d, db) ((acc, accb), (ad, adb)))) ''acc_total_bytes'' = Some accb"
  "int_member (stats_fields (stats_record b i m (t, tb) (d, db) ((acc, accb), (ad, adb)))) ''acc_drop_bytes'' = Some adb"
  by (simp_all add: stats_fields_def stats_record_def dict_get_or_def int_member_def json_is_int_def)

lemma accumulate_counts:
  assumes "m \<noteq> ''-''" "m' \<noteq> ''-''"
    and "0 \<le> tb" "0 \<le> db" "0 \<le> tb'" "0 \<le> db'" "0 \<le> accb" "0 \<le> adb"
  shows "accumulate b i m (stats_fields (stats_record b i m' (t', tb') (d', db') ((acc, accb), (ad, adb)))) (t, tb) (d, db) =
     ((acc + counted (Some (m', t')) m t, accb + counted (Some (m', tb')) m tb),
      (ad + counted (Some (m', d')) m d, adb + counted (Some (m', db')) m db))"
  using assms
  by (simp add: accumulate_def members_of_record nonneg_member_def count_on_def counted_def Let_def)

section \<open>A series of calls\<close>

text \<open>Each call reads the number of the map and its rows; the state file lives between the calls.\<close>

type_synonym sample = "string \<times> row list"

fun stats_run :: "string \<Rightarrow> sample list \<Rightarrow> json option \<Rightarrow> (row list list \<times> json option) res" where
  "stats_run iface [] file = Inr ([], file)"
| "stats_run iface ((m, rows) # ss) file =
     rbind (apply_xdp_accumulator True rows ''xdp'' iface m file) (\<lambda>(shown, file').
     rbind (stats_run iface ss file') (\<lambda>(more, file'').
     Inr (shown # more, file'')))"

text \<open>The reference: the running totals of one counter, from what it read in each map.\<close>

fun running_totals :: "int \<Rightarrow> (string \<times> int) option \<Rightarrow> (string \<times> int) list \<Rightarrow> int list" where
  "running_totals acc prev [] = []"
| "running_totals acc prev ((m, r) # ss) =
     (acc + counted prev m r) # running_totals (acc + counted prev m r) (Some (m, r)) ss"

lemma running_totals_above:
  "\<forall>(m, r) \<in> set ss. 0 \<le> r \<Longrightarrow> \<forall>x \<in> set (running_totals acc prev ss). acc \<le> x"
proof (induction ss arbitrary: acc prev)
  case (Cons s ss)
  obtain m r where s: "s = (m, r)" by (cases s)
  have "0 \<le> counted prev m r" using Cons.prems s by (auto intro: counted_nonneg)
  then show ?case using Cons.IH [of "acc + counted prev m r" "Some (m, r)"] Cons.prems s by fastforce
qed simp

lemma running_totals_sorted: "\<forall>(m, r) \<in> set ss. 0 \<le> r \<Longrightarrow> sorted (running_totals acc prev ss)"
proof (induction ss arbitrary: acc prev)
  case (Cons s ss)
  obtain m r where s: "s = (m, r)" by (cases s)
  show ?case using Cons running_totals_above [of ss "acc + counted prev m r" "Some (m, r)"] s by auto
qed simp

text \<open>One counter of a sample or of what is shown.\<close>

definition reading :: "string \<Rightarrow> (int \<times> int \<Rightarrow> int) \<Rightarrow> row list \<Rightarrow> int" where
  "reading name f rows = f (the (find_row name rows))"

definition readings :: "string \<Rightarrow> (int \<times> int \<Rightarrow> int) \<Rightarrow> sample list \<Rightarrow> (string \<times> int) list" where
  "readings name f ss = map (\<lambda>(m, rows). (m, reading name f rows)) ss"

text \<open>A sample of a known map with all counters.\<close>

definition full_sample :: "sample \<Rightarrow> bool" where
  "full_sample = (\<lambda>(m, rows). m \<noteq> ''-'' \<and>
     (case (find_row ''XDP_TOTAL'' rows, find_row ''XDP_DROP_TOTAL'' rows) of
        (Some (t, tb), Some (d, db)) \<Rightarrow> 0 \<le> t \<and> 0 \<le> tb \<and> 0 \<le> d \<and> 0 \<le> db
      | _ \<Rightarrow> False))"

definition columns_from ::
  "(string \<times> (int \<times> int) \<times> (int \<times> int)) option \<Rightarrow> (int \<times> int) \<times> (int \<times> int) \<Rightarrow> sample list \<Rightarrow> row list list \<Rightarrow> bool" where
  "columns_from prev acc ss shown \<longleftrightarrow>
     (\<forall>f \<in> {fst, snd}.
        map (reading ''XDP_TOTAL'' f) shown =
          running_totals (f (fst acc)) (map_option (\<lambda>(m, t, d). (m, f t)) prev) (readings ''XDP_TOTAL'' f ss) \<and>
        map (reading ''XDP_DROP_TOTAL'' f) shown =
          running_totals (f (snd acc)) (map_option (\<lambda>(m, t, d). (m, f d)) prev) (readings ''XDP_DROP_TOTAL'' f ss))"

lemma stats_run_columns:
  assumes "list_all full_sample ss"
    and "m' \<noteq> ''-''" "0 \<le> tb'" "0 \<le> db'" "0 \<le> accb" "0 \<le> adb"
  shows "\<exists>shown file. stats_run i ss (Some (stats_record ''xdp'' i m' (t', tb') (d', db') ((acc, accb), (ad, adb)))) = Inr (shown, file) \<and>
     columns_from (Some (m', (t', tb'), (d', db'))) ((acc, accb), (ad, adb)) ss shown"
  using assms
proof (induction ss arbitrary: m' t' tb' d' db' acc accb ad adb)
  case Nil
  then show ?case by (simp add: columns_from_def readings_def)
next
  case (Cons s ss)
  obtain m rows where s: "s = (m, rows)" by (cases s)
  obtain t tb d db where r: "find_row ''XDP_TOTAL'' rows = Some (t, tb)" "find_row ''XDP_DROP_TOTAL'' rows = Some (d, db)"
    "0 \<le> t" "0 \<le> tb" "0 \<le> d" "0 \<le> db" and m: "m \<noteq> ''-''"
    using Cons.prems(1) by (auto simp: s full_sample_def split: option.splits)
  let ?t = "acc + counted (Some (m', t')) m t" and ?tb = "accb + counted (Some (m', tb')) m tb"
  let ?d = "ad + counted (Some (m', d')) m d" and ?db = "adb + counted (Some (m', db')) m db"
  have "0 \<le> ?tb" "0 \<le> ?db"
    using Cons.prems r counted_nonneg [of tb "Some (m', tb')" m] counted_nonneg [of db "Some (m', db')" m] by linarith+
  then obtain shown left where run:
    "stats_run i ss (Some (stats_record ''xdp'' i m (t, tb) (d, db) ((?t, ?tb), (?d, ?db)))) = Inr (shown, left)"
    "columns_from (Some (m, (t, tb), (d, db))) ((?t, ?tb), (?d, ?db)) ss shown"
    using Cons.IH [of m tb db ?tb ?db] Cons.prems(1) m r by fastforce
  let ?rows = "with_totals ((?t, ?tb), (?d, ?db)) rows"
  have "stats_run i (s # ss) (Some (stats_record ''xdp'' i m' (t', tb') (d', db') ((acc, accb), (ad, adb)))) = Inr (?rows # shown, left)"
    using accumulate_counts [OF m Cons.prems(2) r(4) r(6) Cons.prems(3-6)] run(1) m r
    by (simp add: s apply_xdp_accumulator_def load_stats_state_def save_stats_state_def Let_def)
  moreover have "columns_from (Some (m', (t', tb'), (d', db'))) ((acc, accb), (ad, adb)) (s # ss) (?rows # shown)"
    using run(2) r by (simp add: s columns_from_def readings_def reading_def find_row_with_totals)
  ultimately show ?case by blast
qed

text \<open>
  C30 (\<open>admin_cli.py\<close>, \<open>_apply_xdp_accumulator\<close>). Take a series of calls on one interface that begins without a state
  file, in which every call can write the state, knows the id of the map and reads both total counters, none of
  them negative. Then each call shows as total packets, dropped packets, total bytes and dropped bytes exactly the
  running total of the reference: all of what a new map or a counter that began again has, and the
  difference to the call before otherwise. So in such a series no reload of the BPF programs loses or
  repeats what was counted, and no total decreases. With an unknown map both fail: see \<open>unknown_map_counts_twice\<close>.
\<close>

theorem stats_totals_survive_reloads:
  assumes "list_all full_sample ss"
  shows "\<exists>shown left. stats_run iface ss None = Inr (shown, left) \<and>
     (\<forall>name \<in> {''XDP_TOTAL'', ''XDP_DROP_TOTAL''}. \<forall>f \<in> {fst, snd}.
        map (reading name f) shown = running_totals 0 None (readings name f ss) \<and>
        sorted (map (reading name f) shown))"
proof -
  have sorted: "sorted (running_totals 0 None (readings name f ss))"
    if "name \<in> {''XDP_TOTAL'', ''XDP_DROP_TOTAL''}" "f \<in> {fst, snd}" for name f
    by (rule running_totals_sorted)
      (use assms that in \<open>auto simp: readings_def reading_def full_sample_def list_all_iff split: option.splits; fastforce\<close>)
  have "\<exists>shown left. stats_run iface ss None = Inr (shown, left) \<and> columns_from None ((0, 0), (0, 0)) ss shown"
  proof (cases ss)
    case Nil
    then show ?thesis by (simp add: columns_from_def readings_def)
  next
    case (Cons s ss')
    obtain m rows where s: "s = (m, rows)" by (cases s)
    obtain t tb d db where r: "find_row ''XDP_TOTAL'' rows = Some (t, tb)" "find_row ''XDP_DROP_TOTAL'' rows = Some (d, db)"
      "0 \<le> tb" "0 \<le> db" and m: "m \<noteq> ''-''"
      using assms by (auto simp: Cons s full_sample_def split: option.splits)
    have "list_all full_sample ss'" using assms by (simp add: Cons)
    from stats_run_columns [OF this m r(3) r(4) r(3) r(4)] obtain shown left where run:
      "stats_run iface ss' (Some (stats_record ''xdp'' iface m (t, tb) (d, db) ((t, tb), (d, db)))) = Inr (shown, left)"
      "columns_from (Some (m, (t, tb), (d, db))) ((t, tb), (d, db)) ss' shown" by blast
    have "stats_run iface ss None = Inr (with_totals ((t, tb), (d, db)) rows # shown, left)"
      using run(1) m r
      by (simp add: Cons s apply_xdp_accumulator_def load_stats_state_def save_stats_state_def row_fields_def accumulate_nothing Let_def)
    moreover have "columns_from None ((0, 0), (0, 0)) ss (with_totals ((t, tb), (d, db)) rows # shown)"
      using run(2) r
      by (simp add: Cons s columns_from_def readings_def reading_def find_row_with_totals counted_def)
    ultimately show ?thesis by blast
  qed
  then show ?thesis using sorted by (fastforce simp: columns_from_def)
qed

theorem stats_totals_survive_reloads_witness:
  "\<exists>ss shown left. length ss = 3 \<and> list_all full_sample ss \<and> stats_run ''eth0'' ss None = Inr (shown, left) \<and>
     map (reading ''XDP_TOTAL'' fst) shown = [100, 150, 157]"
proof -
  define ss where "ss = [(''5'', [(''XDP_TOTAL'', 100::int, 6000::int), (''XDP_DROP_TOTAL'', 10, 400)]),
    (''5'', [(''XDP_TOTAL'', 150, 9000), (''XDP_DROP_TOTAL'', 12, 480)]),
    (''9'', [(''XDP_TOTAL'', 7, 420), (''XDP_DROP_TOTAL'', 1, 40)])]"
  have full: "list_all full_sample ss" by (simp add: ss_def full_sample_def find_row_def)
  have ref: "running_totals 0 None (readings ''XDP_TOTAL'' fst ss) = [100, 150, 157]"
    by (simp add: ss_def readings_def reading_def find_row_def counted_def)
  obtain shown left where "stats_run ''eth0'' ss None = Inr (shown, left)"
    "map (reading ''XDP_TOTAL'' fst) shown = [100, 150, 157]"
    using stats_totals_survive_reloads [OF full, of "''eth0''"] ref by auto
  moreover have "length ss = 3" by (simp add: ss_def)
  ultimately show ?thesis using full by (intro exI [of _ ss] exI [of _ shown] exI [of _ left] conjI)
qed

section \<open>A map whose number cannot be read\<close>

text \<open>
  If \<open>bpftool map show\<close> fails, what the map counts is added to a total that already holds it: the
  call shows it twice, and the next one shows less.
\<close>

lemma unknown_map_counts_twice:
  fixes acc accb ad adb t tb d db :: int
  assumes "find_row ''XDP_TOTAL'' rows = Some (t, tb)" "find_row ''XDP_DROP_TOTAL'' rows = Some (d, db)"
    and "0 \<le> tb" "0 \<le> db" "0 \<le> accb" "0 \<le> adb"
  shows "\<exists>shown. apply_xdp_accumulator True rows ''xdp'' iface ''-''
        (Some (stats_record ''xdp'' iface m (t, tb) (d, db) ((acc, accb), (ad, adb)))) =
      Inr (shown, Some (stats_record ''xdp'' iface m (t, tb) (d, db) ((acc, accb), (ad, adb)))) \<and>
     find_row ''XDP_TOTAL'' shown = Some (acc + t, accb + tb) \<and>
     find_row ''XDP_DROP_TOTAL'' shown = Some (ad + d, adb + db)"
  using assms
  by (simp add: apply_xdp_accumulator_def load_stats_state_def accumulate_def members_of_record nonneg_member_def
      find_row_with_totals Let_def)

text \<open>The counters of malformed packets are no part of the sum that stands in for dropped packets.\<close>

lemma malformed_is_no_drop_counter:
  "\<not> is_drop_counter ''TCP_NULL''" "\<not> is_drop_counter ''TCP_XMAS''" "\<not> is_drop_counter ''TCP_PORT0''"
  "\<not> is_drop_counter ''UDP_BAD_LEN''" "is_drop_counter ''TCP_DROP''"
  by (simp_all add: is_drop_counter_def)

end
