(* ===== verification/TomlText.thy ===== *)
theory TomlText
  imports PyText
begin

text \<open>
  The configuration file as text, from \<open>auto_xdp/admin_cli.py\<close>: the writer of the administrator's
  commands, and the parser they fall back on if no TOML library is installed. \<open>fr\<close> is
  \<open>float.__repr__\<close> on finite floats.
\<close>

section \<open>The writer\<close>

definition bare_char :: "char \<Rightarrow> bool" where
  "bare_char c \<longleftrightarrow> (let n = of_char c :: nat in
     48 \<le> n \<and> n \<le> 57 \<or> 65 \<le> n \<and> n \<le> 90 \<or> 97 \<le> n \<and> n \<le> 122 \<or> n = 95 \<or> n = 45)"

text \<open>\<open>^[A-Za-z0-9_-]+$\<close>, where \<open>$\<close> also matches before a line feed at the end.\<close>

definition is_bare_key :: "string \<Rightarrow> bool" where
  "is_bare_key k =
     (let b = (if k \<noteq> [] \<and> last k = CHR 0x0A then butlast k else k) in b \<noteq> [] \<and> list_all bare_char b)"

definition fmt_key :: "string \<Rightarrow> string" where
  "fmt_key key = (if is_bare_key key then key else json_str key)"

definition fmt_path :: "string list \<Rightarrow> string" where
  "fmt_path parts = str_join ''.'' (map fmt_key parts)"

fun fmt_float :: "(pyfloat \<Rightarrow> string) \<Rightarrow> pyfloat \<Rightarrow> string res" where
  "fmt_float fr (Fin q) = Inr (fr (Fin q))"
| "fmt_float fr _ = Inl ValueErr"

fun fmt_value :: "(pyfloat \<Rightarrow> string) \<Rightarrow> pyval \<Rightarrow> string res" where
  "fmt_value fr (VBool b) = Inr (if b then ''true'' else ''false'')"
| "fmt_value fr (VInt i) = Inr (str_of_int i)"
| "fmt_value fr (VFloat f) = fmt_float fr f"
| "fmt_value fr (VStr s) = Inr (json_str s)"
| "fmt_value fr (VList xs) =
     rbind (rmap (fmt_value fr) xs) (\<lambda>items. Inr (''['' @ str_join '', '' items @ '']''))"
| "fmt_value fr (VDict d) =
     rbind (rmap (\<lambda>(k, v). rbind (fmt_value fr v) (\<lambda>s. Inr (fmt_key k @ '' = '' @ s))) d) (\<lambda>items.
     Inr (''{ '' @ str_join '', '' items @ '' }''))"
| "fmt_value fr (VDate t) = Inl TypeErr"

text \<open>\<open>_is_array_of_tables\<close>, and the tables of such an array.\<close>

fun is_table :: "pyval \<Rightarrow> bool" where
  "is_table (VDict d) = True"
| "is_table _ = False"

fun is_array_of_tables :: "pyval \<Rightarrow> bool" where
  "is_array_of_tables (VList xs) \<longleftrightarrow> xs \<noteq> [] \<and> list_all is_table xs"
| "is_array_of_tables _ \<longleftrightarrow> False"

fun table_of :: "pyval \<Rightarrow> (string, pyval) dict" where
  "table_of (VDict d) = d"
| "table_of _ = []"

fun tables_of :: "pyval \<Rightarrow> (string, pyval) dict list" where
  "tables_of (VList xs) = map table_of xs"
| "tables_of _ = []"

text \<open>The three kinds of items of a table, each in the order of the table.\<close>

definition scalar_items :: "(string, pyval) dict \<Rightarrow> (string, pyval) dict" where
  "scalar_items table = filter (\<lambda>(k, v). \<not> is_array_of_tables v \<and> \<not> is_table v) table"

definition array_table_items :: "(string, pyval) dict \<Rightarrow> (string, (string, pyval) dict list) dict" where
  "array_table_items table = map (\<lambda>(k, v). (k, tables_of v)) (filter (\<lambda>(k, v). is_array_of_tables v) table)"

definition table_items :: "(string, pyval) dict \<Rightarrow> (string, (string, pyval) dict) dict" where
  "table_items table = map (\<lambda>(k, v). (k, table_of v)) (filter (\<lambda>(k, v). is_table v) table)"

text \<open>A block of lines is set apart from the lines before it, if there are any.\<close>

definition add_block :: "string list \<Rightarrow> string list \<Rightarrow> string list" where
  "add_block lines block = (if lines = [] then block else lines @ [''''] @ block)"

definition dict_size :: "(string, pyval) dict \<Rightarrow> nat" where
  "dict_size d = size_list (size_prod (\<lambda>_. 0) size) d"

lemma items_Cons:
  "table_items ((k, v) # d) = (if is_table v then (k, table_of v) # table_items d else table_items d)"
  "array_table_items ((k, v) # d) =
     (if is_array_of_tables v then (k, tables_of v) # array_table_items d else array_table_items d)"
  by (simp_all add: table_items_def array_table_items_def)

lemma dict_size_simps [simp]:
  "dict_size [] = 0" "dict_size ((k, v) # d) = Suc (Suc (size v + dict_size d))"
  by (simp_all add: dict_size_def)

lemma table_of_size: "dict_size (table_of v) \<le> size v"
  by (cases v) (simp_all add: dict_size_def)

lemma tables_of_size: "t \<in> set (tables_of v) \<Longrightarrow> dict_size t < size v"
proof (cases v)
  case (VList xs)
  assume "t \<in> set (tables_of v)"
  then obtain y where y: "y \<in> set xs" "t = table_of y" using VList by auto
  then have "size y \<le> size_list size xs" by (simp add: size_list_estimation')
  then show ?thesis using table_of_size [of y] y VList by simp
qed simp_all

lemma table_item_smaller: "(k, t) \<in> set (table_items d) \<Longrightarrow> dict_size t < dict_size d"
proof (induction d)
  case (Cons x d)
  then show ?case using table_of_size [of "snd x"] by (cases x) (auto simp: items_Cons split: if_splits)
qed (simp add: table_items_def)

lemma array_item_smaller: "(k, ts) \<in> set (array_table_items d) \<Longrightarrow> t \<in> set ts \<Longrightarrow> dict_size t < dict_size d"
proof (induction d)
  case (Cons x d)
  then show ?case using tables_of_size [of t "snd x"] by (cases x) (auto simp: items_Cons split: if_splits)
qed (simp add: array_table_items_def)

function emit_table_body ::
  "(pyfloat \<Rightarrow> string) \<Rightarrow> (string, pyval) dict \<Rightarrow> string list \<Rightarrow> string list res" where
  "emit_table_body fr table path =
     rbind (rmap (\<lambda>(k, v). rbind (fmt_value fr v) (\<lambda>s. Inr (fmt_key k @ '' = '' @ s))) (scalar_items table)) (\<lambda>scalars.
     rbind (rmap (\<lambda>(k, items).
              rbind (rmap (\<lambda>item. rbind (emit_table_body fr item (path @ [k])) (\<lambda>body.
                       Inr ((''[['' @ fmt_path (path @ [k]) @ '']]'') # body))) items) (\<lambda>bodies.
              Inr (foldl add_block [] bodies))) (array_table_items table)) (\<lambda>arrays.
     rbind (rmap (\<lambda>(k, t). rbind (emit_table_body fr t (path @ [k])) (\<lambda>body.
              Inr ((''['' @ fmt_path (path @ [k]) @ '']'') # body))) (table_items table)) (\<lambda>tables.
     Inr (foldl add_block scalars (arrays @ tables)))))"
  by pat_completeness auto
termination
  by (relation "measure (\<lambda>(fr, table, path). dict_size table)") (auto simp: table_item_smaller array_item_smaller)

declare emit_table_body.simps [simp del]

text \<open>\<open>"\n".join(lines).rstrip() + "\n"\<close>\<close>

definition str_rstrip :: "string \<Rightarrow> string" where
  "str_rstrip s = rev (str_lstrip (rev s))"

definition toml_text :: "(pyfloat \<Rightarrow> string) \<Rightarrow> (string, pyval) dict \<Rightarrow> string res" where
  "toml_text fr data =
     rbind (emit_table_body fr data []) (\<lambda>lines. Inr (str_rstrip (str_join [CHR 0x0A] lines) @ [CHR 0x0A]))"

section \<open>The fallback parser\<close>

text \<open>
  \<open>split_items\<close>: the inside of a bracketed value at its commas. A quote character is the one that
  opened the string the scan is in.
\<close>

definition item_of :: "string \<Rightarrow> string list" where
  "item_of cur = (let item = str_strip cur in if item = [] then [] else [item])"

fun split_go :: "string \<Rightarrow> int \<Rightarrow> char option \<Rightarrow> bool \<Rightarrow> string \<Rightarrow> string list" where
  "split_go cur depth quote escape [] = item_of cur"
| "split_go cur depth quote escape (ch # s) =
     (if escape then split_go (cur @ [ch]) depth quote False s
      else if ch = CHR 0x5C \<and> quote \<noteq> None then split_go (cur @ [ch]) depth quote True s
      else if ch \<in> {CHR 0x22, CHR 0x27} \<and> quote = None then split_go (cur @ [ch]) depth (Some ch) False s
      else if quote = Some ch then split_go (cur @ [ch]) depth None False s
      else if quote \<noteq> None then split_go (cur @ [ch]) depth quote False s
      else if ch \<in> {CHR ''['', CHR ''{''} then split_go (cur @ [ch]) (depth + 1) None False s
      else if ch \<in> {CHR '']'', CHR ''}''} then split_go (cur @ [ch]) (depth - 1) None False s
      else if ch = CHR '','' \<and> depth = 0 then item_of cur @ split_go [] depth None False s
      else split_go (cur @ [ch]) depth None False s)"

text \<open>\<open>raw[1:-1]\<close>\<close>

definition inner_text :: "string \<Rightarrow> string" where
  "inner_text raw = butlast (tl raw)"

definition split_items :: "string \<Rightarrow> string list" where
  "split_items raw = split_go [] 0 None False (inner_text raw)"

lemma str_strip_length: "length (str_strip s) \<le> length s"
  using length_dropWhile_le [of is_space "rev (dropWhile is_space s)"] length_dropWhile_le [of is_space s]
  by (simp add: str_strip_def str_lstrip_def)

lemma item_of_length: "x \<in> set (item_of cur) \<Longrightarrow> length x \<le> length cur"
  using str_strip_length [of cur] by (auto simp: item_of_def Let_def split: if_splits)

lemma split_go_step:
  "(\<exists>d q e. split_go cur depth quote escape (ch # s) = split_go (cur @ [ch]) d q e s) \<or>
   (\<exists>d q e. split_go cur depth quote escape (ch # s) = item_of cur @ split_go [] d q e s)"
proof -
  let ?T = "{split_go (cur @ [ch]) d q e s |d q e. True} \<union> {item_of cur @ split_go [] d q e s |d q e. True}"
  have pick: "(if b then x else y) \<in> ?T" if "x \<in> ?T" "y \<in> ?T" for b and x y :: "string list"
    using that by (cases b) simp_all
  have "split_go cur depth quote escape (ch # s) \<in> ?T"
    unfolding split_go.simps by (intro pick) blast+
  then show ?thesis by blast
qed

lemma split_go_length: "x \<in> set (split_go cur depth quote escape s) \<Longrightarrow> length x \<le> length cur + length s"
proof (induction s arbitrary: cur depth quote escape)
  case (Cons ch s)
  from split_go_step [of cur depth quote escape ch s] show ?case
  proof (elim disjE exE)
    fix d q e
    assume "split_go cur depth quote escape (ch # s) = split_go (cur @ [ch]) d q e s"
    with Cons.prems Cons.IH [of "cur @ [ch]" d q e] show ?thesis by simp
  next
    fix d q e
    assume "split_go cur depth quote escape (ch # s) = item_of cur @ split_go [] d q e s"
    with Cons.prems Cons.IH [of "[]" d q e] item_of_length [of x cur] show ?thesis by auto
  qed
qed (simp add: item_of_length)

declare split_go.simps(2) [simp del]

lemma split_items_length: "x \<in> set (split_items raw) \<Longrightarrow> raw \<noteq> [] \<Longrightarrow> length x < length raw"
  using split_go_length [of x "[]" 0 None False "inner_text raw"]
  by (cases raw) (auto simp: split_items_def inner_text_def)

lemma str_split1_length:
  "str_split1 c s = (a, Some b) \<Longrightarrow> length a < length s \<and> length b < length s"
  by (induction s arbitrary: a) (auto split: if_splits prod.splits)

text \<open>
  \<open>parse_value\<close> strips what it gets; \<open>value_of\<close> is the rest of it. A string that is no JSON string
  is taken without its quotes.
\<close>

definition quoted_value :: "string \<Rightarrow> string res" where
  "quoted_value raw = (if length raw < 2 \<or> last raw \<noteq> hd raw then Inl ValueErr else Inr (inner_text raw))"

function value_of :: "string \<Rightarrow> pyval res" where
  "value_of raw =
     (if str_prefix [CHR 0x22] raw then
        (case json_loads_str raw of
           Some s \<Rightarrow> Inr (VStr s)
         | None \<Rightarrow> rbind (quoted_value raw) (\<lambda>s. Inr (VStr s)))
      else if str_prefix [CHR 0x27] raw then rbind (quoted_value raw) (\<lambda>s. Inr (VStr s))
      else if raw = ''true'' then Inr (VBool True)
      else if raw = ''false'' then Inr (VBool False)
      else if str_prefix ''['' raw then rbind (rmap (\<lambda>item. value_of (str_strip item)) (split_items raw)) (\<lambda>vs. Inr (VList vs))
      else if str_prefix ''{'' raw then
        rbind (rmap (\<lambda>part. case str_split1 (CHR ''='') part of
                 (key, Some v) \<Rightarrow> rbind (value_of (str_strip v)) (\<lambda>w. Inr [(str_strip key, w)])
               | (key, None) \<Rightarrow> Inr []) (split_items raw)) (\<lambda>kvs.
        Inr (VDict (dict_update [] (concat kvs))))
      else case int_of_str raw of
             Some i \<Rightarrow> Inr (VInt i)
           | None \<Rightarrow> (case float_of_str raw of Some f \<Rightarrow> Inr (VFloat f) | None \<Rightarrow> Inr (VStr raw)))"
  by pat_completeness auto
termination
proof (relation "measure length")
  fix raw item :: string
  assume "str_prefix ''['' raw" "item \<in> set (split_items raw)"
  then show "(str_strip item, raw) \<in> measure length"
    using split_items_length [of item raw] str_strip_length [of item] by (cases raw) auto
next
  fix raw part key v :: string and o' x
  assume "str_prefix ''{'' raw" "part \<in> set (split_items raw)"
    and split: "(key, x) = str_split1 (CHR ''='') part" "x = Some v"
  then show "(str_strip v, raw) \<in> measure length"
    using split_items_length [of part raw] str_split1_length [of _ part key v] str_strip_length [of v]
    by (cases raw) fastforce+
qed simp

declare value_of.simps [simp del]

definition parse_value :: "string \<Rightarrow> pyval res" where
  "parse_value raw = value_of (str_strip raw)"

text \<open>\<open>current.setdefault(key, {})\<close> along a path, and an assignment in the table at its end.\<close>

fun open_table :: "string list \<Rightarrow> pyval \<Rightarrow> pyval res" where
  "open_table [] v = Inr v"
| "open_table (k # ks) (VDict d) =
     rbind (open_table ks (dict_get_or d k (VDict []))) (\<lambda>w. Inr (VDict (dict_set k w d)))"
| "open_table (k # ks) _ = Inl AttributeErr"

fun put_in_table :: "string list \<Rightarrow> string \<Rightarrow> pyval \<Rightarrow> pyval \<Rightarrow> pyval res" where
  "put_in_table [] key w (VDict d) = Inr (VDict (dict_set key w d))"
| "put_in_table (k # ks) key w (VDict d) =
     rbind (put_in_table ks key w (dict_get_or d k (VDict []))) (\<lambda>x. Inr (VDict (dict_set k x d)))"
| "put_in_table _ key w _ = Inl TypeErr"

text \<open>\<open>^\[([^\[\]]+)\]$\<close> and \<open>^([A-Za-z0-9_-]+)\s*=\s*(.+)$\<close> on a stripped line.\<close>

definition match_header :: "string \<Rightarrow> string option" where
  "match_header line =
     (let inner = inner_text line in
      if 3 \<le> length line \<and> hd line = CHR ''['' \<and> last line = CHR '']'' \<and>
         list_all (\<lambda>c. c \<notin> {CHR ''['', CHR '']''}) inner
      then Some inner else None)"

definition match_key_value :: "string \<Rightarrow> (string \<times> string) option" where
  "match_key_value line =
     (let key = takeWhile bare_char line; rest = str_lstrip (dropWhile bare_char line) in
      if key \<noteq> [] \<and> str_prefix ''='' rest \<and> str_lstrip (tl rest) \<noteq> []
      then Some (key, str_lstrip (tl rest)) else None)"

text \<open>One line; the state is the path of the current table and the document.\<close>

definition parse_line :: "string \<Rightarrow> string list \<times> pyval \<Rightarrow> (string list \<times> pyval) res" where
  "parse_line raw_line = (\<lambda>(path, root).
     let line = str_strip raw_line in
     if line = [] \<or> str_prefix ''#'' line then Inr (path, root)
     else case match_header line of
       Some header \<Rightarrow>
         (let keys = map str_strip (str_split (CHR ''.'') header) in
          rbind (open_table keys root) (\<lambda>root'. Inr (keys, root')))
     | None \<Rightarrow>
         (case match_key_value line of
            None \<Rightarrow> Inr (path, root)
          | Some (key, v) \<Rightarrow>
              rbind (parse_value (str_strip v)) (\<lambda>w.
              rbind (put_in_table path key w root) (\<lambda>root'. Inr (path, root')))))"

definition parse_toml_fallback :: "string \<Rightarrow> (string, pyval) dict res" where
  "parse_toml_fallback text =
     rbind (rfold parse_line (str_splitlines [] text) ([], VDict [])) (\<lambda>(path, root). Inr (table_of root))"

end
