(* ===== verification/AdminConfig.thy ===== *)
theory AdminConfig
  imports TomlText Config "HOL-Library.List_Lexorder" "HOL-Library.Char_ord" "HOL-Library.Product_Lexorder"
begin

text \<open>
  The commands of \<open>auto_xdp/admin_cli.py\<close> that read and edit the configuration file. Each loads the
  document, edits it, and writes the whole file again; an edit is a function on documents
  that may raise. \<open>tomllib\<close> is the parser of the library, if there is one, \<open>rep\<close> the text of
  values \<open>str\<close> is not modelled for, and \<open>fr\<close> is \<open>float.__repr__\<close>.
\<close>

section \<open>The file\<close>

text \<open>
  The configuration file \<open>io_path\<close> and the calls on files around it: \<open>io_mkdir\<close> makes its directory, \<open>io_mktemp\<close> opens a new
  temporary file there and gives its name, \<open>io_write\<close> writes a text to a named file and closes it, and \<open>io_replace\<close>
  renames a file onto \<open>io_path\<close>.
\<close>

record 'k config_io =
  io_path :: string
  io_exists :: "'k \<Rightarrow> bool"
  io_read :: "('k, string) pym"
  io_mkdir :: "('k, unit) pym"
  io_mktemp :: "('k, string) pym"
  io_write :: "string \<Rightarrow> string \<Rightarrow> ('k, unit) pym"
  io_replace :: "string \<Rightarrow> ('k, unit) pym"

definition load_toml :: "(string \<Rightarrow> (string, pyval) dict res) option \<Rightarrow> 'k config_io \<Rightarrow> ('k, (string, pyval) dict) pym" where
  "load_toml tomllib F =
     mbind (gets (io_exists F)) (\<lambda>exists.
     if \<not> exists then ret []
     else mbind (io_read F) (\<lambda>text.
       mlift (case tomllib of Some load \<Rightarrow> load text | None \<Rightarrow> parse_toml_fallback text)))"

definition write_toml :: "(pyfloat \<Rightarrow> string) \<Rightarrow> 'k config_io \<Rightarrow> (string, pyval) dict \<Rightarrow> ('k, unit) pym" where
  "write_toml fr F data =
     mbind (mlift (toml_text fr data)) (\<lambda>content.
     mseq (io_mkdir F)
    (mbind (io_mktemp F) (\<lambda>tmp_path.
     mseq (io_write F tmp_path content) (io_replace F tmp_path))))"

section \<open>Arguments and values\<close>

definition admin_normalize_ports :: "int list \<Rightarrow> int list res" where
  "admin_normalize_ports values =
     (let ports = sorted_list_of_set (set values) in
      if list_ex (\<lambda>p. p \<le> 0 \<or> 65535 < p) ports then Inl ValueErr else Inr ports)"

definition normalize_handler_port :: "int \<Rightarrow> int res" where
  "normalize_handler_port v = (if v \<le> 0 \<or> 65535 < v then Inl ValueErr else Inr v)"

text \<open>\<open>[int(v) for v in table.get(key, [])]\<close>\<close>

definition int_items :: "pyval \<Rightarrow> string \<Rightarrow> int list res" where
  "int_items table key = rbind (rbind (py_get table key (VList [])) py_iter) (rmap py_int)"

text \<open>\<open>[_normalize_cidr(v) for v in table.get(key, [])]\<close>\<close>

definition cidr_items :: "pyval \<Rightarrow> string \<Rightarrow> string list res" where
  "cidr_items table key = rbind (rbind (py_get table key (VList [])) py_iter) (rmap normalize_cidr_value)"

text \<open>\<open>v[key] = w\<close>; only a table takes a string for an index.\<close>

definition set_item :: "pyval \<Rightarrow> string \<Rightarrow> pyval \<Rightarrow> pyval res" where
  "set_item v key w = (case v of VDict d \<Rightarrow> Inr (VDict (dict_set key w d)) | _ \<Rightarrow> Inl TypeErr)"

text \<open>\<open>v.pop(key, None)\<close>; a list has a \<open>pop\<close> too, for one number.\<close>

definition pop_item :: "pyval \<Rightarrow> string \<Rightarrow> pyval res" where
  "pop_item v key =
     (case v of VDict d \<Rightarrow> Inr (VDict (dict_pop key d)) | VList _ \<Rightarrow> Inl TypeErr | _ \<Rightarrow> Inl AttributeErr)"

text \<open>\<open>v == n\<close> for a number, and \<open>name in v\<close>.\<close>

definition equals_int :: "int \<Rightarrow> pyval \<Rightarrow> bool" where
  "equals_int n v =
     (case v of VInt i \<Rightarrow> i = n | VBool b \<Rightarrow> of_bool b = n | VFloat (Fin q) \<Rightarrow> q = of_int n | _ \<Rightarrow> False)"

definition contains_name :: "string \<Rightarrow> pyval \<Rightarrow> bool res" where
  "contains_name name v =
     (case v of
        VList xs \<Rightarrow> Inr (VStr name \<in> set xs)
      | VDict d \<Rightarrow> Inr (name \<in> dict_keys d)
      | VStr s \<Rightarrow> Inr (str_contains name s)
      | _ \<Rightarrow> Inl TypeErr)"

definition append_item :: "pyval \<Rightarrow> pyval \<Rightarrow> pyval res" where
  "append_item v w = (case v of VList xs \<Rightarrow> Inr (VList (xs @ [w])) | _ \<Rightarrow> Inl AttributeErr)"

text \<open>\<open>[e for e in v if keep(e)]\<close>\<close>

definition keep_items :: "(pyval \<Rightarrow> bool res) \<Rightarrow> pyval \<Rightarrow> pyval list res" where
  "keep_items keep v =
     rbind (py_iter v) (\<lambda>xs.
     rbind (rmap (\<lambda>x. rbind (keep x) (\<lambda>b. Inr (if b then [x] else []))) xs) (\<lambda>ys. Inr (concat ys)))"

text \<open>The table \<open>data.setdefault(name, default)\<close>, edited in place.\<close>

definition in_section :: "string \<Rightarrow> pyval \<Rightarrow> (pyval \<Rightarrow> pyval res) \<Rightarrow> (string, pyval) dict \<Rightarrow> (string, pyval) dict res" where
  "in_section name default_table edit data =
     rbind (edit (dict_get_or data name default_table)) (\<lambda>w. Inr (dict_set name w data))"

section \<open>Edits\<close>

definition edit_log_level :: "string \<Rightarrow> (string, pyval) dict \<Rightarrow> (string, pyval) dict res" where
  "edit_log_level level = in_section ''daemon'' (VDict []) (\<lambda>t. set_item t ''log_level'' (VStr level))"

definition edit_under_attack :: "bool \<Rightarrow> (string, pyval) dict \<Rightarrow> (string, pyval) dict res" where
  "edit_under_attack enabled = in_section ''under_attack'' (VDict []) (\<lambda>t. set_item t ''enabled'' (VBool enabled))"

definition edit_trust_add :: "string \<Rightarrow> string \<Rightarrow> (string, pyval) dict \<Rightarrow> (string, pyval) dict res" where
  "edit_trust_add cidr label = in_section ''trusted_ips'' (VDict []) (\<lambda>t. set_item t cidr (VStr label))"

definition edit_trust_del :: "string \<Rightarrow> (string, pyval) dict \<Rightarrow> (string, pyval) dict res" where
  "edit_trust_del cidr = in_section ''trusted_ips'' (VDict []) (\<lambda>t. pop_item t cidr)"

text \<open>Whether an ACL rule is the one of a protocol and network, read as strings.\<close>

definition is_rule_for :: "(pyval \<Rightarrow> string) \<Rightarrow> string \<Rightarrow> string \<Rightarrow> pyval \<Rightarrow> bool res" where
  "is_rule_for rep proto cidr rule =
     rbind (py_get rule ''proto'' (VStr [])) (\<lambda>p.
     if str_lower (py_str rep p) \<noteq> proto then Inr False
     else rbind (py_get rule ''cidr'' (VStr ''None'')) (\<lambda>c.
          rbind (normalize_cidr (py_str rep c)) (\<lambda>n. Inr (n = cidr))))"

definition other_rules :: "(pyval \<Rightarrow> string) \<Rightarrow> string \<Rightarrow> string \<Rightarrow> pyval \<Rightarrow> pyval list res" where
  "other_rules rep proto cidr rules = keep_items (\<lambda>r. rbind (is_rule_for rep proto cidr r) (\<lambda>b. Inr (\<not> b))) rules"

definition edit_acl_add ::
  "(pyval \<Rightarrow> string) \<Rightarrow> string \<Rightarrow> string \<Rightarrow> int list \<Rightarrow> (string, pyval) dict \<Rightarrow> (string, pyval) dict res" where
  "edit_acl_add rep proto cidr ports data =
     rbind (other_rules rep proto cidr (dict_get_or data ''acl'' (VList []))) (\<lambda>rules.
     Inr (dict_set ''acl'' (VList (rules @
       [VDict [(''proto'', VStr proto), (''cidr'', VStr cidr), (''ports'', VList (map VInt ports))]])) data))"

definition edit_acl_del :: "(pyval \<Rightarrow> string) \<Rightarrow> string \<Rightarrow> string \<Rightarrow> (string, pyval) dict \<Rightarrow> (string, pyval) dict res" where
  "edit_acl_del rep proto cidr data =
     rbind (other_rules rep proto cidr (dict_get_or data ''acl'' (VList []))) (\<lambda>rules.
     Inr (dict_set ''acl'' (VList rules) data))"

definition no_ports :: pyval where
  "no_ports = VDict [(''tcp'', VList []), (''udp'', VList []), (''sctp'', VList [])]"

definition edit_permanent_add :: "string \<Rightarrow> int \<Rightarrow> (string, pyval) dict \<Rightarrow> (string, pyval) dict res" where
  "edit_permanent_add proto port = in_section ''permanent_ports'' no_ports (\<lambda>perm.
     rbind (int_items perm proto) (\<lambda>old.
     rbind (admin_normalize_ports (old @ [port])) (\<lambda>values.
     set_item perm proto (VList (map VInt values)))))"

definition edit_permanent_del :: "string \<Rightarrow> int \<Rightarrow> (string, pyval) dict \<Rightarrow> (string, pyval) dict res" where
  "edit_permanent_del proto port = in_section ''permanent_ports'' no_ports (\<lambda>perm.
     rbind (int_items perm proto) (\<lambda>old.
     rbind (admin_normalize_ports old) (\<lambda>values.
     set_item perm proto (VList (map VInt (filter (\<lambda>p. p \<noteq> port) values))))))"

definition edit_slot_builtin :: "string \<Rightarrow> (string, pyval) dict \<Rightarrow> (string, pyval) dict res" where
  "edit_slot_builtin name = in_section ''slots'' (VDict []) (\<lambda>slots.
     rbind (py_get slots ''enabled'' (VList [])) (\<lambda>enabled.
     rbind (contains_name name enabled) (\<lambda>there.
     rbind (if there then Inr enabled else append_item enabled (VStr name)) (\<lambda>enabled'.
     set_item slots ''enabled'' enabled'))))"

definition edit_slot_custom :: "int \<Rightarrow> string \<Rightarrow> (string, pyval) dict \<Rightarrow> (string, pyval) dict res" where
  "edit_slot_custom proto path = in_section ''slots'' (VDict []) (\<lambda>slots.
     rbind (py_get slots ''enabled'' (VList [])) (\<lambda>enabled.
     rbind (keep_items (\<lambda>e. Inr (case e of
              VDict d \<Rightarrow> (case map_of d ''proto'' of Some p \<Rightarrow> \<not> equals_int proto p | None \<Rightarrow> True)
            | _ \<Rightarrow> True)) enabled) (\<lambda>kept.
     set_item slots ''enabled'' (VList (kept @ [VDict [(''proto'', VInt proto), (''path'', VStr path)]])))))"

definition edit_slot_disable :: "(int \<Rightarrow> string option) \<Rightarrow> int \<Rightarrow> (string, pyval) dict \<Rightarrow> (string, pyval) dict res" where
  "edit_slot_disable builtin_name proto = in_section ''slots'' (VDict []) (\<lambda>slots.
     rbind (py_get slots ''enabled'' (VList [])) (\<lambda>enabled.
     rbind (keep_items (\<lambda>e. case e of
              VStr s \<Rightarrow> Inr (builtin_name proto \<noteq> Some s)
            | VDict d \<Rightarrow> rbind (py_int (dict_get_or d ''proto'' (VInt (- 1)))) (\<lambda>p. Inr (p \<noteq> proto))
            | _ \<Rightarrow> Inr True) enabled) (\<lambda>kept.
     set_item slots ''enabled'' (VList kept))))"

definition edit_exclude_ports :: "(int set \<Rightarrow> int set) \<Rightarrow> (string, pyval) dict \<Rightarrow> (string, pyval) dict res" where
  "edit_exclude_ports change = in_section ''discovery'' (VDict []) (\<lambda>discovery.
     rbind (int_items discovery ''exclude_ports'') (\<lambda>old.
     set_item discovery ''exclude_ports'' (VList (map VInt (sorted_list_of_set (change (set old)))))))"

definition edit_exclude_src_add :: "string list \<Rightarrow> (string, pyval) dict \<Rightarrow> (string, pyval) dict res" where
  "edit_exclude_src_add new = in_section ''discovery'' (VDict []) (\<lambda>discovery.
     rbind (cidr_items discovery ''exclude_bind_cidrs'') (\<lambda>old.
     set_item discovery ''exclude_bind_cidrs'' (VList (map VStr (sorted_list_of_set (set old \<union> set new))))))"

text \<open>The deletion keeps duplicates.\<close>

definition edit_exclude_src_del :: "string list \<Rightarrow> (string, pyval) dict \<Rightarrow> (string, pyval) dict res" where
  "edit_exclude_src_del gone = in_section ''discovery'' (VDict []) (\<lambda>discovery.
     rbind (cidr_items discovery ''exclude_bind_cidrs'') (\<lambda>old.
     set_item discovery ''exclude_bind_cidrs'' (VList (map VStr (sort (filter (\<lambda>c. c \<notin> set gone) old))))))"

definition edit_port_handler :: "string \<Rightarrow> int \<Rightarrow> string option \<Rightarrow> (string, pyval) dict \<Rightarrow> (string, pyval) dict res" where
  "edit_port_handler proto port path = in_section ''port_handlers'' (VDict []) (\<lambda>handlers.
     rbind (py_get handlers proto (VDict [])) (\<lambda>table.
     rbind (case path of
              None \<Rightarrow> pop_item table (str_of_int port)
            | Some p \<Rightarrow> set_item table (str_of_int port) (VStr p)) (\<lambda>table'.
     set_item handlers proto table')))"

section \<open>Commands\<close>

text \<open>What a command prints, line by line; the exit status goes with it.\<close>

datatype printed = Out string | Err string

type_synonym outcome = "int \<times> printed list"

definition upper_char :: "char \<Rightarrow> char" where
  "upper_char c = (let n = of_char c :: nat in if 97 \<le> n \<and> n \<le> 122 then char_of (n - 32) else c)"

abbreviation str_upper :: "string \<Rightarrow> string" where
  "str_upper \<equiv> map upper_char"

text \<open>\<open>f"{s:<n}"\<close>\<close>

definition pad_right :: "nat \<Rightarrow> string \<Rightarrow> string" where
  "pad_right n s = s @ replicate (n - length s) (CHR '' '')"

definition none_or :: "string list \<Rightarrow> printed list" where
  "none_or lines = (if lines = [] then [Out ''  (none)''] else map Out lines)"

text \<open>Commands that only show: functions of the document.\<close>

definition trust_lines :: "(pyval \<Rightarrow> string) \<Rightarrow> (string, pyval) dict \<Rightarrow> printed list res" where
  "trust_lines rep data =
     (let trusted = dict_get_or data ''trusted_ips'' (VDict []) in
      if \<not> py_truthy trusted then Inr [Out ''  (none)'']
      else rbind (py_items trusted) (\<lambda>items.
           rbind (rmap (\<lambda>(cidr, label). rbind (normalize_cidr cidr) (\<lambda>c. Inr (c, py_str rep label))) items) (\<lambda>rows.
           Inr (map (\<lambda>(cidr, label). Out (''  '' @ pad_right 20 cidr @ ''  '' @ label)) (sort rows)))))"

definition acl_row :: "(pyval \<Rightarrow> string) \<Rightarrow> pyval \<Rightarrow> ((string \<times> string) \<times> int list) res" where
  "acl_row rep rule =
     rbind (py_index rule ''proto'') (\<lambda>p.
     rbind (rbind (py_index rule ''cidr'') (\<lambda>c. normalize_cidr (py_str rep c))) (\<lambda>cidr.
     rbind (rbind (int_items rule ''ports'') admin_normalize_ports) (\<lambda>ports.
     Inr ((str_lower (py_str rep p), cidr), ports))))"

definition acl_lines :: "(pyval \<Rightarrow> string) \<Rightarrow> (string, pyval) dict \<Rightarrow> printed list res" where
  "acl_lines rep data =
     (let rules = dict_get_or data ''acl'' (VList []) in
      if \<not> py_truthy rules then Inr [Out ''  (none)'']
      else rbind (rbind (py_iter rules) (rmap (acl_row rep))) (\<lambda>rows.
           Inr (map (\<lambda>((proto, cidr), ports).
             Out (''  '' @ pad_right 4 (str_upper proto) @ ''  '' @ pad_right 22 cidr @ ''  ports: '' @
                  str_join '' '' (map str_of_int ports))) (sort_key fst rows))))"

definition permanent_lines :: "(string, pyval) dict \<Rightarrow> printed list res" where
  "permanent_lines data =
     (let perm = dict_get_or data ''permanent_ports'' (VDict []) in
      rbind (rbind (int_items perm ''tcp'') admin_normalize_ports) (\<lambda>tcp.
      rbind (rbind (int_items perm ''udp'') admin_normalize_ports) (\<lambda>udp.
      rbind (rbind (int_items perm ''sctp'') admin_normalize_ports) (\<lambda>sctp.
      Inr (none_or (map (\<lambda>p. ''  TCP  '' @ str_of_int p) tcp @ map (\<lambda>p. ''  UDP  '' @ str_of_int p) udp @
                    map (\<lambda>p. ''  SCTP '' @ str_of_int p) sctp))))))"

definition exclude_lines :: "(string, pyval) dict \<Rightarrow> printed list res" where
  "exclude_lines data =
     (let discovery = dict_get_or data ''discovery'' (VDict []) in
      rbind (int_items discovery ''exclude_ports'') (\<lambda>ports.
      rbind (cidr_items discovery ''exclude_bind_cidrs'') (\<lambda>cidrs.
      Inr (none_or (map (\<lambda>p. ''  port  '' @ str_of_int p) (sorted_list_of_set (set ports)) @
                    map (\<lambda>c. ''  src   '' @ c) (sort cidrs))))))"

definition handlers_of_proto :: "(pyval \<Rightarrow> string) \<Rightarrow> pyval \<Rightarrow> string \<Rightarrow> (string \<times> int \<times> string) list res" where
  "handlers_of_proto rep handlers proto =
     rbind (py_get handlers proto (VDict [])) (\<lambda>table.
     case table of
       VDict d \<Rightarrow> rbind (rmap (\<lambda>(raw_port, raw_path).
                    rbind (rbind (py_int (VStr raw_port)) normalize_handler_port) (\<lambda>port.
                    Inr (if py_str rep raw_path \<noteq> [] then [(proto, port, py_str rep raw_path)] else []))) d)
                  (\<lambda>found. Inr (concat found))
     | _ \<Rightarrow> Inr [])"

definition iter_configured_port_handlers ::
  "(pyval \<Rightarrow> string) \<Rightarrow> (string, pyval) dict \<Rightarrow> (string \<times> int \<times> string) list res" where
  "iter_configured_port_handlers rep data =
     (let handlers = dict_get_or data ''port_handlers'' (VDict []) in
      rbind (handlers_of_proto rep handlers ''tcp'') (\<lambda>tcp.
      rbind (handlers_of_proto rep handlers ''udp'') (\<lambda>udp.
      Inr (sort_key (\<lambda>(proto, port, path). (proto, port)) (tcp @ udp)))))"

datatype admin_command =
    ConfigShow
  | LogLevel "string option"
  | UnderAttack "string option"
  | TrustList
  | TrustAdd string string
  | TrustDel string
  | AclList
  | AclAdd string string "int list"
  | AclDel string string
  | PermanentList
  | PermanentAdd string int
  | PermanentDel string int
  | SlotEnableBuiltin string
  | SlotEnableCustom int string
  | SlotDisable int
  | ExcludeList
  | ExcludePortAdd "int list"
  | ExcludePortDel "int list"
  | ExcludeSrcAdd "string list"
  | ExcludeSrcDel "string list"

text \<open>The environment the commands run in.\<close>

record 'k admin_env =
  ae_tomllib :: "(string \<Rightarrow> (string, pyval) dict res) option"
  ae_file :: "'k config_io"
  ae_rep :: "pyval \<Rightarrow> string"
  ae_float_repr :: "pyfloat \<Rightarrow> string"
  ae_builtin_slot :: "int \<Rightarrow> string option"
  ae_config_path :: string

definition show_document :: "'k admin_env \<Rightarrow> ((string, pyval) dict \<Rightarrow> printed list res) \<Rightarrow> ('k, outcome) pym" where
  "show_document A lines =
     mbind (load_toml (ae_tomllib A) (ae_file A)) (\<lambda>data.
     mbind (mlift (lines data)) (\<lambda>out. ret (0, out)))"

text \<open>Load, edit, write, and then say what was done.\<close>

definition edit_document ::
  "'k admin_env \<Rightarrow> ((string, pyval) dict \<Rightarrow> ((string, pyval) dict \<times> printed list) res) \<Rightarrow> ('k, outcome) pym" where
  "edit_document A edit =
     mbind (load_toml (ae_tomllib A) (ae_file A)) (\<lambda>data.
     mbind (mlift (edit data)) (\<lambda>(data', out).
     mseq (write_toml (ae_float_repr A) (ae_file A) data') (ret (0, out))))"

definition saying :: "printed list \<Rightarrow> 'a res \<Rightarrow> ('a \<times> printed list) res" where
  "saying out r = rbind r (\<lambda>x. Inr (x, out))"

definition given :: "string option \<Rightarrow> bool" where
  "given arg \<longleftrightarrow> arg \<noteq> None \<and> arg \<noteq> Some []"

definition cmd_config_show :: "'k admin_env \<Rightarrow> ('k, outcome) pym" where
  "cmd_config_show A =
     mbind (gets (io_exists (ae_file A))) (\<lambda>exists.
     if \<not> exists then ret (0, [Out (''(no config file at '' @ ae_config_path A @ '' - run: axdp config init)'')])
     else mbind (io_read (ae_file A)) (\<lambda>text. ret (0, [Out text])))"

definition cmd_log_level :: "'k admin_env \<Rightarrow> string option \<Rightarrow> ('k, outcome) pym" where
  "cmd_log_level A arg =
     (if \<not> given arg
      then show_document A (\<lambda>data.
             rbind (py_get (dict_get_or data ''daemon'' (VDict [])) ''log_level'' (VStr ''warning'')) (\<lambda>v.
             Inr [Out (str_lower (py_str (ae_rep A) v))]))
      else let level = str_lower (the arg) in
        if level \<notin> {''debug'', ''info'', ''warning'', ''error''}
        then mbind (load_toml (ae_tomllib A) (ae_file A)) (\<lambda>_.
             ret (1, [Err (''Invalid log level: '' @ level), Err ''Valid values: debug, info, warning, error'']))
        else edit_document A (\<lambda>data. saying [Out (''daemon.log_level='' @ level)] (edit_log_level level data)))"

definition cmd_under_attack :: "'k admin_env \<Rightarrow> string option \<Rightarrow> ('k, outcome) pym" where
  "cmd_under_attack A arg =
     (if \<not> given arg
      then show_document A (\<lambda>data.
             rbind (py_get (dict_get_or data ''under_attack'' (VDict [])) ''enabled'' (VBool False)) (\<lambda>v.
             Inr [Out (if py_truthy v then ''on'' else ''off'')]))
      else let mode = str_lower (the arg) in
        if mode \<notin> {''on'', ''off''}
        then mbind (load_toml (ae_tomllib A) (ae_file A)) (\<lambda>_.
             ret (1, [Err (''Invalid under_attack mode: '' @ mode), Err ''Valid values: on, off'']))
        else edit_document A (\<lambda>data.
          saying [Out (''under_attack.enabled='' @ (if mode = ''on'' then ''true'' else ''false''))]
            (edit_under_attack (mode = ''on'') data)))"

definition cmd_trust_add :: "'k admin_env \<Rightarrow> string \<Rightarrow> string \<Rightarrow> ('k, outcome) pym" where
  "cmd_trust_add A cidr label = edit_document A (\<lambda>data.
     rbind (normalize_cidr cidr) (\<lambda>c.
     saying [Out (''Added trusted: '' @ c @ '' ('' @ label @ '')'')] (edit_trust_add c label data)))"

definition cmd_trust_del :: "'k admin_env \<Rightarrow> string \<Rightarrow> ('k, outcome) pym" where
  "cmd_trust_del A cidr = edit_document A (\<lambda>data.
     rbind (normalize_cidr cidr) (\<lambda>c. saying [Out (''Removed trusted: '' @ c)] (edit_trust_del c data)))"

definition cmd_acl_add :: "'k admin_env \<Rightarrow> string \<Rightarrow> string \<Rightarrow> int list \<Rightarrow> ('k, outcome) pym" where
  "cmd_acl_add A proto cidr ports = edit_document A (\<lambda>data.
     rbind (normalize_cidr cidr) (\<lambda>c.
     rbind (admin_normalize_ports ports) (\<lambda>ps.
     saying [Out (''Added ACL: '' @ proto @ '' '' @ c @ '' ports '' @ str_join '' '' (map str_of_int ps))]
       (edit_acl_add (ae_rep A) proto c ps data))))"

definition cmd_acl_del :: "'k admin_env \<Rightarrow> string \<Rightarrow> string \<Rightarrow> ('k, outcome) pym" where
  "cmd_acl_del A proto cidr = edit_document A (\<lambda>data.
     rbind (normalize_cidr cidr) (\<lambda>c.
     saying [Out (''Removed ACL: '' @ proto @ '' '' @ c)] (edit_acl_del (ae_rep A) proto c data)))"

definition cmd_permanent_add :: "'k admin_env \<Rightarrow> string \<Rightarrow> int \<Rightarrow> ('k, outcome) pym" where
  "cmd_permanent_add A proto port = edit_document A (\<lambda>data.
     rbind (admin_normalize_ports [port]) (\<lambda>ps.
     saying [Out (''Added permanent: '' @ proto @ ''/'' @ str_of_int (hd ps))] (edit_permanent_add proto (hd ps) data)))"

definition cmd_permanent_del :: "'k admin_env \<Rightarrow> string \<Rightarrow> int \<Rightarrow> ('k, outcome) pym" where
  "cmd_permanent_del A proto port = edit_document A (\<lambda>data.
     rbind (admin_normalize_ports [port]) (\<lambda>ps.
     saying [Out (''Removed permanent: '' @ proto @ ''/'' @ str_of_int (hd ps))] (edit_permanent_del proto (hd ps) data)))"

definition cmd_exclude_port_add :: "'k admin_env \<Rightarrow> int list \<Rightarrow> ('k, outcome) pym" where
  "cmd_exclude_port_add A ports = edit_document A (\<lambda>data.
     rbind (admin_normalize_ports ports) (\<lambda>new.
     saying (map (\<lambda>p. Out (''Excluded port: '' @ str_of_int p)) new) (edit_exclude_ports (\<lambda>old. old \<union> set new) data)))"

definition cmd_exclude_port_del :: "'k admin_env \<Rightarrow> int list \<Rightarrow> ('k, outcome) pym" where
  "cmd_exclude_port_del A ports = edit_document A (\<lambda>data.
     rbind (admin_normalize_ports ports) (\<lambda>gone.
     saying (map (\<lambda>p. Out (''Un-excluded port: '' @ str_of_int p)) gone) (edit_exclude_ports (\<lambda>old. old - set gone) data)))"

definition cmd_exclude_src_add :: "'k admin_env \<Rightarrow> string list \<Rightarrow> ('k, outcome) pym" where
  "cmd_exclude_src_add A cidrs = edit_document A (\<lambda>data.
     rbind (rmap normalize_cidr cidrs) (\<lambda>new.
     saying (map (\<lambda>c. Out (''Excluded src: '' @ c)) new) (edit_exclude_src_add new data)))"

definition cmd_exclude_src_del :: "'k admin_env \<Rightarrow> string list \<Rightarrow> ('k, outcome) pym" where
  "cmd_exclude_src_del A cidrs = edit_document A (\<lambda>data.
     rbind (rmap normalize_cidr cidrs) (\<lambda>gone.
     saying (map (\<lambda>c. Out (''Un-excluded src: '' @ c)) (sorted_list_of_set (set gone))) (edit_exclude_src_del gone data)))"

fun run_command :: "'k admin_env \<Rightarrow> admin_command \<Rightarrow> ('k, outcome) pym" where
  "run_command A ConfigShow = cmd_config_show A"
| "run_command A (LogLevel arg) = cmd_log_level A arg"
| "run_command A (UnderAttack arg) = cmd_under_attack A arg"
| "run_command A TrustList = show_document A (trust_lines (ae_rep A))"
| "run_command A (TrustAdd cidr label) = cmd_trust_add A cidr label"
| "run_command A (TrustDel cidr) = cmd_trust_del A cidr"
| "run_command A AclList = show_document A (acl_lines (ae_rep A))"
| "run_command A (AclAdd proto cidr ports) = cmd_acl_add A proto cidr ports"
| "run_command A (AclDel proto cidr) = cmd_acl_del A proto cidr"
| "run_command A PermanentList = show_document A permanent_lines"
| "run_command A (PermanentAdd proto port) = cmd_permanent_add A proto port"
| "run_command A (PermanentDel proto port) = cmd_permanent_del A proto port"
| "run_command A (SlotEnableBuiltin name) = edit_document A (\<lambda>data. saying [] (edit_slot_builtin name data))"
| "run_command A (SlotEnableCustom proto path) = edit_document A (\<lambda>data. saying [] (edit_slot_custom proto path data))"
| "run_command A (SlotDisable proto) = edit_document A (\<lambda>data. saying [] (edit_slot_disable (ae_builtin_slot A) proto data))"
| "run_command A ExcludeList = show_document A exclude_lines"
| "run_command A (ExcludePortAdd ports) = cmd_exclude_port_add A ports"
| "run_command A (ExcludePortDel ports) = cmd_exclude_port_del A ports"
| "run_command A (ExcludeSrcAdd cidrs) = cmd_exclude_src_add A cidrs"
| "run_command A (ExcludeSrcDel cidrs) = cmd_exclude_src_del A cidrs"

text \<open>
  \<open>main\<close>: the handlers print the text of the exception, which is not modelled, and a
  \<open>PermissionError\<close> is an \<open>OSError\<close> with one of two numbers.
\<close>

fun main_status :: "py_exn \<Rightarrow> int option" where
  "main_status ValueErr = Some 1"
| "main_status (OSError n) = (if n \<in> {EPERM, EACCES} then Some 77 else None)"
| "main_status _ = None"

definition admin_main :: "'k admin_env \<Rightarrow> admin_command \<Rightarrow> ('k, outcome) pym" where
  "admin_main A cmd = mtry (run_command A cmd) (\<lambda>e. map_option (\<lambda>status. ret (status, [])) (main_status e))"

end
