(* ===== verification/AdminReload.thy ===== *)
theory AdminReload
  imports AdminConfig
begin

text \<open>
  What an edit of the configuration file changes in the daemon: \<open>admin_cli.py\<close> and the reload of
  \<open>config.py\<close> put together. A reload of the edited document is the reload of the old one, but for
  the one table the edit is about.
\<close>

section \<open>Parts of a reload that do not touch a table\<close>

definition commutes :: "('s \<Rightarrow> 's) \<Rightarrow> ('s, 'a) pym \<Rightarrow> bool" where
  "commutes f m \<longleftrightarrow> (\<forall>s. m (f s) = (fst (m s), f (snd (m s))))"

named_theorems commutes_rules \<open>a change of the state commutes with a statement\<close>

lemma commutesD: "commutes f m \<Longrightarrow> m s = (r, t) \<Longrightarrow> m (f s) = (r, f t)"
  by (simp add: commutes_def)

lemma commutes_ret [commutes_rules]: "commutes f (ret x)"
  by (simp add: commutes_def ret_apply)

lemma commutes_mlift [commutes_rules]: "commutes f (mlift r)"
  by (simp add: commutes_def mlift_apply)

lemma commutes_modify: "(\<And>s. g (f s) = f (g s)) \<Longrightarrow> commutes f (modify g)"
  by (simp add: commutes_def)

lemma commutes_bind [commutes_rules]:
  assumes m: "commutes f m" and n: "\<And>x. commutes f (n x)"
  shows "commutes f (mbind m n)"
  unfolding commutes_def
proof
  fix s
  show "mbind m n (f s) = (fst (mbind m n s), f (snd (mbind m n s)))"
    using m n unfolding commutes_def by (cases "m s"; cases "fst (m s)") (simp_all add: mbind_def)
qed

lemma commutes_seq [commutes_rules]: "commutes f m \<Longrightarrow> commutes f n \<Longrightarrow> commutes f (mseq m n)"
  by (simp add: mseq_def commutes_bind)

lemma commutes_for [commutes_rules]: "(\<And>x. commutes f (g x)) \<Longrightarrow> commutes f (mfor xs g)"
  by (induction xs) (simp_all add: commutes_ret commutes_seq)

lemma commutes_for_each [commutes_rules]: "(\<And>x. commutes f (g x)) \<Longrightarrow> commutes f (for_each table key g)"
  unfolding for_each_def by (intro commutes_rules)

lemma commutes_prod [commutes_rules]: "(\<And>x y. commutes f (g x y)) \<Longrightarrow> commutes f (case v of (x, y) \<Rightarrow> g x y)"
  by (cases v) simp

lemma commutes_option [commutes_rules]:
  "commutes f m \<Longrightarrow> (\<And>x. commutes f (g x)) \<Longrightarrow> commutes f (case v of None \<Rightarrow> m | Some x \<Rightarrow> g x)"
  by (cases v) simp_all

text \<open>A change of the permanent ports, the trusted sources and the ACL rules.\<close>

definition change ::
  "((int, string) dict \<Rightarrow> (int, string) dict) \<Rightarrow> ((int, string) dict \<Rightarrow> (int, string) dict) \<Rightarrow>
   ((int, string) dict \<Rightarrow> (int, string) dict) \<Rightarrow> ((string, string) dict \<Rightarrow> (string, string) dict) \<Rightarrow>
   (AclRule list \<Rightarrow> AclRule list) \<Rightarrow> Config \<Rightarrow> Config" where
  "change tcp udp sctp trusted acl s = s\<lparr>TCP_PERMANENT := tcp (TCP_PERMANENT s), UDP_PERMANENT := udp (UDP_PERMANENT s),
     SCTP_PERMANENT := sctp (SCTP_PERMANENT s), TRUSTED_SRC_IPS := trusted (TRUSTED_SRC_IPS s), ACL_RULES := acl (ACL_RULES s)\<rparr>"

lemma change_sel:
  "TCP_PERMANENT (change tcp udp sctp trusted acl s) = tcp (TCP_PERMANENT s)"
  "UDP_PERMANENT (change tcp udp sctp trusted acl s) = udp (UDP_PERMANENT s)"
  "SCTP_PERMANENT (change tcp udp sctp trusted acl s) = sctp (SCTP_PERMANENT s)"
  "TRUSTED_SRC_IPS (change tcp udp sctp trusted acl s) = trusted (TRUSTED_SRC_IPS s)"
  "ACL_RULES (change tcp udp sctp trusted acl s) = acl (ACL_RULES s)"
  by (simp_all add: change_def)

lemma trusted_commutes: "commutes (change tcp udp sctp id acl) (apply_trusted_ips rep doc)"
  unfolding apply_trusted_ips_def
  by (intro commutes_rules commutes_modify) (simp add: change_def)

lemma sit4_commutes: "commutes (change tcp udp sctp trusted acl) (apply_sit4_endpoints rep doc)"
  unfolding apply_sit4_endpoints_def
  by (intro commutes_rules commutes_modify) (simp add: change_def)

lemma acl_commutes: "commutes (change tcp udp sctp trusted id) (apply_acl doc)"
  unfolding apply_acl_def
  by (intro commutes_rules commutes_modify) (simp add: change_def)

lemma rate_limits_commute: "commutes (change tcp udp sctp trusted acl) (apply_rate_limits doc)"
  unfolding apply_rate_limits_def Let_def mseqs.simps apply_source_prefixes_def apply_map_entries_def load_table_def
  by (intro commutes_rules commutes_modify) (simp_all add: change_def)

lemma settings_commute:
  "commutes (change tcp udp sctp trusted acl) (apply_firewall doc)"
  "commutes (change tcp udp sctp trusted acl) (apply_daemon rep doc)"
  "commutes (change tcp udp sctp trusted acl) (apply_discovery doc)"
  "commutes (change tcp udp sctp trusted acl) (apply_xdp_nft rep doc)"
  "commutes (change tcp udp sctp trusted acl) (apply_slots_abuseipdb rep doc)"
  unfolding apply_firewall_def apply_daemon_def apply_discovery_def apply_xdp_nft_def apply_slots_abuseipdb_def
    set_bpf_pin_dir_def Let_def
  by ((intro commutes_rules commutes_modify; simp add: change_def)+)

lemma runtime_commutes: "commutes (change tcp udp sctp trusted acl) (apply_xdp_runtime doc)"
  unfolding runtime_defs
  by (intro commutes_rules commutes_modify) (simp_all add: change_def)

text \<open>The parts of a reload after the ACL rules.\<close>

definition reload_rest :: "(pyval \<Rightarrow> string) \<Rightarrow> (string, pyval) dict \<Rightarrow> (Config, unit) pym" where
  "reload_rest rep doc = mseqs [apply_rate_limits doc, apply_firewall doc, apply_daemon rep doc, apply_discovery doc,
     apply_xdp_nft rep doc, apply_xdp_runtime doc, apply_slots_abuseipdb rep doc]"

lemma rest_commutes: "commutes (change tcp udp sctp trusted acl) (reload_rest rep doc)"
  unfolding reload_rest_def mseqs.simps
  by (intro commutes_rules rate_limits_commute settings_commute runtime_commutes)

lemma reload_unfold:
  "apply_toml_config rep doc s = (Inr (), t) \<longleftrightarrow>
     mseq clear_policy (mseq (apply_permanent_ports doc) (mseq (apply_trusted_ips rep doc)
       (mseq (apply_sit4_endpoints rep doc) (mseq (apply_acl doc) (reload_rest rep doc))))) s = (Inr (), t)"
  by (auto simp: apply_toml_config_def apply_toml_config_in_place_def reload_rest_def split: prod.splits sum.splits)

lemma get_after_set [simp]: "dict_get_or (dict_set key w doc) k v = (if k = key then w else dict_get_or doc k v)"
  by (simp add: dict_get_or_def dict_simps)

lemmas part_defs = apply_permanent_ports_def apply_trusted_ips_def apply_sit4_endpoints_def apply_acl_def
  apply_rate_limits_def apply_firewall_def apply_daemon_def apply_discovery_def apply_xdp_nft_def apply_xdp_runtime_def
  apply_slots_abuseipdb_def

lemma rest_ignores:
  "reload_rest rep (dict_set ''permanent_ports'' w doc) = reload_rest rep doc"
  "reload_rest rep (dict_set ''trusted_ips'' w doc) = reload_rest rep doc"
  "reload_rest rep (dict_set ''acl'' w doc) = reload_rest rep doc"
  unfolding reload_rest_def part_defs Let_def by simp_all

lemma parts_ignore:
  "apply_permanent_ports (dict_set ''trusted_ips'' w doc) = apply_permanent_ports doc"
  "apply_permanent_ports (dict_set ''acl'' w doc) = apply_permanent_ports doc"
  "apply_trusted_ips rep (dict_set ''permanent_ports'' w doc) = apply_trusted_ips rep doc"
  "apply_trusted_ips rep (dict_set ''acl'' w doc) = apply_trusted_ips rep doc"
  "apply_acl (dict_set ''permanent_ports'' w doc) = apply_acl doc"
  "apply_acl (dict_set ''trusted_ips'' w doc) = apply_acl doc"
  "apply_sit4_endpoints rep (dict_set ''permanent_ports'' w doc) = apply_sit4_endpoints rep doc"
  "apply_sit4_endpoints rep (dict_set ''trusted_ips'' w doc) = apply_sit4_endpoints rep doc"
  "apply_sit4_endpoints rep (dict_set ''acl'' w doc) = apply_sit4_endpoints rep doc"
  unfolding part_defs Let_def by simp_all

section \<open>Permanent ports\<close>

definition ports_dict :: "int list \<Rightarrow> (int, string) dict" where
  "ports_dict ps = foldl (\<lambda>d p. dict_set p ''config'' d) [] ps"

lemma ports_dict_keys: "dict_keys (ports_dict ps) = set ps"
proof -
  have "dict_keys (foldl (\<lambda>d p. dict_set p ''config'' d) d ps) = dict_keys d \<union> set ps" for d
    by (induction ps arbitrary: d) (auto simp: dict_simps)
  then show ?thesis by (simp add: ports_dict_def dict_keys_def)
qed

lemma add_permanent_run:
  "add_permanent upd x s = (Inr u, t) \<longleftrightarrow> (\<exists>i. py_int x = Inr i \<and> t = upd (dict_set i ''config'') s)"
  by (cases "py_int x") (auto simp: add_permanent_def)

lemma add_permanents:
  assumes upd: "\<And>f g s. upd g (upd f s) = upd (\<lambda>d. g (f d)) s" "\<And>s. upd (\<lambda>d. d) s = s"
  shows "for_each table key (add_permanent upd) s = (Inr (), t) \<longleftrightarrow>
    (\<exists>ps. int_items table key = Inr ps \<and> t = upd (\<lambda>d. foldl (\<lambda>d p. dict_set p ''config'' d) d ps) s)"
proof -
  have loop: "mfor xs (add_permanent upd) s = (Inr (), t) \<longleftrightarrow>
    (\<exists>ps. rmap py_int xs = Inr ps \<and> t = upd (\<lambda>d. foldl (\<lambda>d p. dict_set p ''config'' d) d ps) s)" for xs s
  proof (induction xs arbitrary: s)
    case (Cons x xs)
    show ?case
      by (cases "py_int x") (auto simp: Cons.IH mseq_Inr_iff add_permanent_run upd(1) rbind_Inr_conv)
  qed (auto simp: upd(2))
  show ?thesis
    by (cases "rbind (py_get table key (VList [])) py_iter") (simp_all add: for_each_def int_items_def loop)
qed

definition more_ports :: "int list \<Rightarrow> (int, string) dict \<Rightarrow> (int, string) dict" where
  "more_ports ps d = foldl (\<lambda>d p. dict_set p ''config'' d) d ps"

lemma permanent_ports_run:
  "apply_permanent_ports doc s = (Inr (), t) \<longleftrightarrow>
     (\<exists>tcp udp sctp. int_items (dict_get_or doc ''permanent_ports'' (VDict [])) ''tcp'' = Inr tcp \<and>
        int_items (dict_get_or doc ''permanent_ports'' (VDict [])) ''udp'' = Inr udp \<and>
        int_items (dict_get_or doc ''permanent_ports'' (VDict [])) ''sctp'' = Inr sctp \<and>
        t = change (more_ports tcp) (more_ports udp) (more_ports sctp) id id s)"
  by (auto simp: apply_permanent_ports_def Let_def mseq_Inr_iff add_permanents change_def more_ports_def)

lemma clear_policy_run: "clear_policy s = (Inr (), snd (clear_policy s))"
  by (simp add: clear_policy_def)

lemma clear_policy_tables [simp]:
  "TCP_PERMANENT (snd (clear_policy s)) = []" "UDP_PERMANENT (snd (clear_policy s)) = []"
  "SCTP_PERMANENT (snd (clear_policy s)) = []" "TRUSTED_SRC_IPS (snd (clear_policy s)) = []" "ACL_RULES (snd (clear_policy s)) = []"
  by (simp_all add: clear_policy_def)

text \<open>Another statement in place of one part, whose effect the parts after it pass on.\<close>

lemma swap_part:
  assumes run: "mseq pre (mseq m post) s = (Inr (), t)" and post: "commutes f post"
    and part: "\<And>x u v. pre s = (Inr x, u) \<Longrightarrow> m u = (Inr (), v) \<Longrightarrow> m' u = (Inr (), f v)"
  shows "mseq pre (mseq m' post) s = (Inr (), f t)"
proof -
  from run obtain x u v where "pre s = (Inr x, u)" "m u = (Inr (), v)" "post v = (Inr (), t)"
    by (auto simp: mseq_Inr_iff)
  with part [of x u v] commutesD [OF post, of v] show ?thesis by (simp add: mseq_run)
qed

definition set_permanents :: "int list \<Rightarrow> int list \<Rightarrow> int list \<Rightarrow> Config \<Rightarrow> Config" where
  "set_permanents tcp udp sctp = change (\<lambda>_. ports_dict tcp) (\<lambda>_. ports_dict udp) (\<lambda>_. ports_dict sctp) id id"

lemma after_permanents:
  "commutes (set_permanents tcp udp sctp)
     (mseq (apply_trusted_ips rep doc) (mseq (apply_sit4_endpoints rep doc) (mseq (apply_acl doc) (reload_rest rep doc))))"
  unfolding set_permanents_def
  by (intro commutes_seq trusted_commutes sit4_commutes acl_commutes rest_commutes)

lemma permanents_set:
  assumes "clear_policy s = (Inr x, u)" "apply_permanent_ports doc u = (Inr (), v)"
    and "int_items (dict_get_or doc' ''permanent_ports'' (VDict [])) ''tcp'' = Inr tcp"
    and "int_items (dict_get_or doc' ''permanent_ports'' (VDict [])) ''udp'' = Inr udp"
    and "int_items (dict_get_or doc' ''permanent_ports'' (VDict [])) ''sctp'' = Inr sctp"
  shows "apply_permanent_ports doc' u = (Inr (), set_permanents tcp udp sctp v)"
proof -
  have "u = snd (clear_policy s)" using assms(1) by (metis snd_conv)
  then have u: "TCP_PERMANENT u = []" "UDP_PERMANENT u = []" "SCTP_PERMANENT u = []" by simp_all
  from assms(2) obtain a b c where v: "v = change (more_ports a) (more_ports b) (more_ports c) id id u"
    unfolding permanent_ports_run by blast
  have "set_permanents tcp udp sctp v = change (more_ports tcp) (more_ports udp) (more_ports sctp) id id u"
    by (simp add: v u set_permanents_def change_def more_ports_def ports_dict_def)
  then show ?thesis using assms(3-5) by (simp add: permanent_ports_run)
qed

lemma permanents_reload:
  assumes reload: "apply_toml_config rep doc s = (Inr (), t)"
    and perm: "int_items perm' ''tcp'' = Inr tcp'" "int_items perm' ''udp'' = Inr udp'" "int_items perm' ''sctp'' = Inr sctp'"
  shows "apply_toml_config rep (dict_set ''permanent_ports'' perm' doc) s = (Inr (), set_permanents tcp' udp' sctp' t)"
proof -
  have "mseq clear_policy (mseq (apply_permanent_ports (dict_set ''permanent_ports'' perm' doc)) (mseq (apply_trusted_ips rep doc)
      (mseq (apply_sit4_endpoints rep doc) (mseq (apply_acl doc) (reload_rest rep doc))))) s = (Inr (), set_permanents tcp' udp' sctp' t)"
    by (rule swap_part [OF reload [unfolded reload_unfold] after_permanents permanents_set]) (simp_all add: perm)
  then show ?thesis by (simp only: reload_unfold parts_ignore rest_ignores)
qed

lemma permanents_of_reload:
  assumes reload: "apply_toml_config rep doc s = (Inr (), t)"
  obtains tcp udp sctp where
    "int_items (dict_get_or doc ''permanent_ports'' (VDict [])) ''tcp'' = Inr tcp" "TCP_PERMANENT t = ports_dict tcp"
    "int_items (dict_get_or doc ''permanent_ports'' (VDict [])) ''udp'' = Inr udp" "UDP_PERMANENT t = ports_dict udp"
    "int_items (dict_get_or doc ''permanent_ports'' (VDict [])) ''sctp'' = Inr sctp" "SCTP_PERMANENT t = ports_dict sctp"
proof -
  from reload obtain u where "apply_permanent_ports doc (snd (clear_policy s)) = (Inr (), u)"
    unfolding reload_unfold mseq_run [OF clear_policy_run] by (auto simp: mseq_Inr_iff)
  then obtain tcp udp sctp where ports: "int_items (dict_get_or doc ''permanent_ports'' (VDict [])) ''tcp'' = Inr tcp"
    "int_items (dict_get_or doc ''permanent_ports'' (VDict [])) ''udp'' = Inr udp"
    "int_items (dict_get_or doc ''permanent_ports'' (VDict [])) ''sctp'' = Inr sctp"
    unfolding permanent_ports_run by blast
  have "apply_toml_config rep doc s = (Inr (), set_permanents tcp udp sctp t)"
    unfolding reload_unfold
    by (rule swap_part [OF reload [unfolded reload_unfold] after_permanents permanents_set [OF _ _ ports]])
  then have "t = set_permanents tcp udp sctp t" using reload by simp
  then have "TCP_PERMANENT t = ports_dict tcp" "UDP_PERMANENT t = ports_dict udp" "SCTP_PERMANENT t = ports_dict sctp"
    unfolding set_permanents_def by (metis change_sel)+
  then show thesis using ports that by blast
qed

definition permanent_of :: "string \<Rightarrow> Config \<Rightarrow> int set" where
  "permanent_of proto t =
     dict_keys (if proto = ''tcp'' then TCP_PERMANENT t else if proto = ''udp'' then UDP_PERMANENT t else SCTP_PERMANENT t)"

lemma int_items_VDict: "int_items (VDict d) key = rbind (py_iter (dict_get_or d key (VList []))) (rmap py_int)"
  by (simp add: int_items_def)

lemma rmap_py_int_VInt [simp]: "rmap py_int (map VInt ps) = Inr ps"
  by (induction ps) simp_all

lemma admin_normalize_ports_set: "admin_normalize_ports ps = Inr qs \<Longrightarrow> set qs = set ps"
  by (auto simp: admin_normalize_ports_def Let_def split: if_splits)

text \<open>An edit sets one list of the table and leaves the others, present or not, as they were.\<close>

lemma permanent_edit_steps:
  assumes "(edit, f) \<in> {(edit_permanent_add proto port, insert port), (edit_permanent_del proto port, \<lambda>A. A - {port})}"
    and "edit doc = Inr doc'"
  shows "\<exists>ps qs d. int_items (VDict d) proto = Inr ps \<and> set qs = f (set ps) \<and>
    dict_get_or doc ''permanent_ports'' no_ports = VDict d \<and>
    doc' = dict_set ''permanent_ports'' (VDict (dict_set proto (VList (map VInt qs)) d)) doc"
proof -
  have set_item: "\<exists>d. v = VDict d \<and> doc' = dict_set ''permanent_ports'' (VDict (dict_set proto x d)) doc"
    if "set_item v proto x = Inr w" "doc' = dict_set ''permanent_ports'' w doc" for v x w
    using that by (cases v) (simp_all add: set_item_def)
  from assms(1) consider "edit = edit_permanent_add proto port" "f = insert port"
    | "edit = edit_permanent_del proto port" "f = (\<lambda>A. A - {port})" by blast
  then show ?thesis
  proof cases
    case 1
    from assms(2) obtain old vals w where w: "int_items (dict_get_or doc ''permanent_ports'' no_ports) proto = Inr old"
      "admin_normalize_ports (old @ [port]) = Inr vals"
      "set_item (dict_get_or doc ''permanent_ports'' no_ports) proto (VList (map VInt vals)) = Inr w"
      "doc' = dict_set ''permanent_ports'' w doc"
      unfolding 1 edit_permanent_add_def in_section_def rbind_Inr_conv by blast
    have "set vals = f (set old)" using admin_normalize_ports_set [OF w(2)] 1 by simp
    then show ?thesis using set_item [OF w(3,4)] w(1) by metis
  next
    case 2
    from assms(2) obtain old vals w where w: "int_items (dict_get_or doc ''permanent_ports'' no_ports) proto = Inr old"
      "admin_normalize_ports old = Inr vals"
      "set_item (dict_get_or doc ''permanent_ports'' no_ports) proto (VList (map VInt (filter (\<lambda>p. p \<noteq> port) vals))) = Inr w"
      "doc' = dict_set ''permanent_ports'' w doc"
      unfolding 2 edit_permanent_del_def in_section_def rbind_Inr_conv by blast
    have "set (filter (\<lambda>p. p \<noteq> port) vals) = f (set old)" using admin_normalize_ports_set [OF w(2)] 2 by auto
    then show ?thesis using set_item [OF w(3,4)] w(1) by metis
  qed
qed

lemma no_ports_items:
  assumes "q \<in> {''tcp'', ''udp'', ''sctp''}" "dict_get_or doc ''permanent_ports'' no_ports = VDict d"
  shows "int_items (VDict d) q = int_items (dict_get_or doc ''permanent_ports'' (VDict [])) q"
proof (cases "map_of doc ''permanent_ports''")
  case None
  then have "VDict d = no_ports" "dict_get_or doc ''permanent_ports'' (VDict []) = VDict []"
    using assms(2) by (simp_all add: dict_get_or_def)
  moreover have "int_items no_ports q = Inr []" "int_items (VDict []) q = Inr []"
    using assms(1) by (auto simp: no_ports_def int_items_VDict dict_get_or_def)
  ultimately show ?thesis by simp
next
  case (Some v)
  then show ?thesis using assms(2) by (simp add: dict_get_or_def)
qed

lemma permanent_edit_cases:
  assumes edit: "(edit, f) \<in> {(edit_permanent_add proto port, insert port), (edit_permanent_del proto port, \<lambda>A. A - {port})}"
    and written: "edit doc = Inr doc'" and proto: "proto \<in> {''tcp'', ''udp'', ''sctp''}"
    and old: "int_items (dict_get_or doc ''permanent_ports'' (VDict [])) proto = Inr ps"
  shows "\<exists>perm' qs. doc' = dict_set ''permanent_ports'' perm' doc \<and> int_items perm' proto = Inr qs \<and> set qs = f (set ps) \<and>
    (\<forall>q \<in> {''tcp'', ''udp'', ''sctp''} - {proto}.
       int_items perm' q = int_items (dict_get_or doc ''permanent_ports'' (VDict [])) q)"
proof -
  from permanent_edit_steps [OF edit written] obtain ps' qs d where
    d: "int_items (VDict d) proto = Inr ps'" "set qs = f (set ps')" "dict_get_or doc ''permanent_ports'' no_ports = VDict d"
    "doc' = dict_set ''permanent_ports'' (VDict (dict_set proto (VList (map VInt qs)) d)) doc" by blast
  let ?perm = "VDict (dict_set proto (VList (map VInt qs)) d)"
  have "ps' = ps" using no_ports_items [OF proto d(3)] old d(1) by simp
  moreover have "int_items ?perm proto = Inr qs" by (simp add: int_items_VDict)
  moreover have "int_items ?perm q = int_items (dict_get_or doc ''permanent_ports'' (VDict [])) q"
    if "q \<in> {''tcp'', ''udp'', ''sctp''} - {proto}" for q
    using no_ports_items [OF _ d(3), of q] that by (simp add: int_items_VDict)
  ultimately show ?thesis using d(2,4) by blast
qed

text \<open>
  C31 (\<open>admin_cli.py\<close>, \<open>_cmd_permanent_add\<close> and \<open>_cmd_permanent_del\<close>, with \<open>config.py\<close>, \<open>apply_toml_config\<close>):
  the commands do in the daemon what they say. If the daemon can load the document, it can load the edited one,
  and then the permanent ports of the protocol are the old ones with the port added or removed, those
  of the other protocols and every other setting are the same.
\<close>

theorem permanent_edits_reach_daemon:
  assumes edit: "(edit, f) \<in> {(edit_permanent_add proto port, insert port), (edit_permanent_del proto port, \<lambda>A. A - {port})}"
    and proto: "proto \<in> {''tcp'', ''udp'', ''sctp''}"
    and written: "edit doc = Inr doc'" and reload: "apply_toml_config rep doc s = (Inr (), t)"
  shows "\<exists>t'. apply_toml_config rep doc' s = (Inr (), t') \<and>
     permanent_of proto t' = f (permanent_of proto t) \<and>
     (\<forall>q \<in> {''tcp'', ''udp'', ''sctp''} - {proto}. permanent_of q t' = permanent_of q t) \<and>
     t'\<lparr>TCP_PERMANENT := [], UDP_PERMANENT := [], SCTP_PERMANENT := []\<rparr> =
     t\<lparr>TCP_PERMANENT := [], UDP_PERMANENT := [], SCTP_PERMANENT := []\<rparr>"
proof -
  obtain tcp udp sctp where old:
    "int_items (dict_get_or doc ''permanent_ports'' (VDict [])) ''tcp'' = Inr tcp" "TCP_PERMANENT t = ports_dict tcp"
    "int_items (dict_get_or doc ''permanent_ports'' (VDict [])) ''udp'' = Inr udp" "UDP_PERMANENT t = ports_dict udp"
    "int_items (dict_get_or doc ''permanent_ports'' (VDict [])) ''sctp'' = Inr sctp" "SCTP_PERMANENT t = ports_dict sctp"
    using permanents_of_reload [OF reload] .
  let ?old = "\<lambda>q. if q = ''tcp'' then tcp else if q = ''udp'' then udp else sctp"
  have items: "int_items (dict_get_or doc ''permanent_ports'' (VDict [])) q = Inr (?old q)" if "q \<in> {''tcp'', ''udp'', ''sctp''}" for q
    using old that by auto
  from permanent_edit_cases [OF edit written proto items [OF proto]] obtain perm' qs where
    doc': "doc' = dict_set ''permanent_ports'' perm' doc" and new: "int_items perm' proto = Inr qs" "set qs = f (set (?old proto))"
    and others: "\<forall>q \<in> {''tcp'', ''udp'', ''sctp''} - {proto}.
      int_items perm' q = int_items (dict_get_or doc ''permanent_ports'' (VDict [])) q" by blast
  let ?new = "\<lambda>q. if q = proto then qs else ?old q"
  have items': "int_items perm' q = Inr (?new q)" if "q \<in> {''tcp'', ''udp'', ''sctp''}" for q
    using that new(1) others items [OF that] by (cases "q = proto") auto
  let ?t = "set_permanents (?new ''tcp'') (?new ''udp'') (?new ''sctp'') t"
  have "apply_toml_config rep doc' s = (Inr (), ?t)"
    unfolding doc' by (rule permanents_reload [OF reload]) (rule items', simp)+
  moreover have ports: "permanent_of q t = set (?old q)" "permanent_of q ?t = set (?new q)" if "q \<in> {''tcp'', ''udp'', ''sctp''}" for q
    using that old by (auto simp: permanent_of_def set_permanents_def change_sel ports_dict_keys)
  have "permanent_of proto ?t = f (permanent_of proto t)" using ports [OF proto] new(2) by simp
  moreover have "\<forall>q \<in> {''tcp'', ''udp'', ''sctp''} - {proto}. permanent_of q ?t = permanent_of q t" using ports by auto
  moreover have "?t\<lparr>TCP_PERMANENT := [], UDP_PERMANENT := [], SCTP_PERMANENT := []\<rparr> =
     t\<lparr>TCP_PERMANENT := [], UDP_PERMANENT := [], SCTP_PERMANENT := []\<rparr>" by (simp add: set_permanents_def change_def)
  ultimately show ?thesis by blast
qed

theorem permanent_edits_reach_daemon_witness:
  "\<exists>t t'. apply_toml_config (\<lambda>_. []) [(''permanent_ports'', VDict [(''tcp'', VList [VInt 22])])] (Config_init [] [] []) = (Inr (), t) \<and>
     apply_toml_config (\<lambda>_. []) [(''permanent_ports'', VDict [(''tcp'', VList [VInt 22, VInt 80])])] (Config_init [] [] []) = (Inr (), t') \<and>
     permanent_of ''tcp'' t' = insert 80 (permanent_of ''tcp'' t)"
proof -
  let ?doc = "[(''permanent_ports'', VDict [(''tcp'', VList [VInt 22])])]"
  let ?doc' = "[(''permanent_ports'', VDict [(''tcp'', VList [VInt 22, VInt 80])])]"
  have "apply_toml_config (\<lambda>_. []) [] (Config_init [] [] []) = (Inr (), snd (apply_toml_config (\<lambda>_. []) [] (Config_init [] [] [])))"
    using empty_document_loads by (simp add: prod_eq_iff)
  from permanents_reload [OF this, of "VDict [(''tcp'', VList [VInt 22])]" "[22]" "[]" "[]"]
  obtain t where t: "apply_toml_config (\<lambda>_. []) ?doc (Config_init [] [] []) = (Inr (), t)"
    by (simp add: int_items_def dict_get_or_def dict_set_def)
  have "edit_permanent_add ''tcp'' 80 ?doc = Inr ?doc'"
    by (simp add: edit_permanent_add_def in_section_def dict_get_or_def int_items_def admin_normalize_ports_def
        set_item_def dict_set_def)
  from permanent_edits_reach_daemon [where edit = "edit_permanent_add ''tcp'' 80" and f = "insert 80" and proto = "''tcp''" and port = 80, OF _ _ this t] t
  show ?thesis by auto
qed

section \<open>Trusted sources\<close>

text \<open>The entry a line of the table becomes; later ones overwrite earlier ones.\<close>

definition trusted_row :: "(pyval \<Rightarrow> string) \<Rightarrow> string \<times> pyval \<Rightarrow> (string \<times> string) res" where
  "trusted_row rep = (\<lambda>(cidr, label). rbind (normalize_cidr cidr) (\<lambda>c. Inr (c, py_str rep label)))"

definition add_rows :: "(string \<times> string) list \<Rightarrow> (string, string) dict \<Rightarrow> (string, string) dict" where
  "add_rows rows d = foldl (\<lambda>d (c, l). dict_set c l d) d rows"

lemma map_of_add_rows: "map_of (add_rows rows d) = map_of d ++ map_of (rev rows)"
  by (induction rows arbitrary: d) (auto simp: add_rows_def dict_simps fun_eq_iff map_add_def split: option.splits)

definition more_trusted :: "(string \<times> string) list \<Rightarrow> Config \<Rightarrow> Config" where
  "more_trusted rows = change id id id (add_rows rows) id"

lemma more_trusted_rows:
  "more_trusted [] s = s" "more_trusted rows (more_trusted [(c, l)] s) = more_trusted ((c, l) # rows) s"
  "TRUSTED_SRC_IPS (more_trusted rows s) = add_rows rows (TRUSTED_SRC_IPS s)"
  by (simp_all add: more_trusted_def change_def add_rows_def)

definition trust_step :: "(pyval \<Rightarrow> string) \<Rightarrow> string \<times> pyval \<Rightarrow> (Config, unit) pym" where
  "trust_step rep = (\<lambda>(cidr, label). mbind (mlift (normalize_cidr cidr)) (\<lambda>c.
     modify (TRUSTED_SRC_IPS_update (dict_set c (py_str rep label)))))"

lemma trust_step_run:
  "trust_step rep x s = (Inr u, w) \<longleftrightarrow> (\<exists>c l. trusted_row rep x = Inr (c, l) \<and> w = more_trusted [(c, l)] s)"
proof -
  obtain cidr label where x: "x = (cidr, label)" by (cases x)
  show ?thesis by (cases "normalize_cidr cidr") (auto simp: x trust_step_def trusted_row_def more_trusted_def add_rows_def change_def)
qed

lemma trusted_run:
  "apply_trusted_ips rep doc s = (Inr (), t) \<longleftrightarrow>
     (\<exists>items rows. py_items (dict_get_or doc ''trusted_ips'' (VDict [])) = Inr items \<and> rmap (trusted_row rep) items = Inr rows \<and>
        t = more_trusted rows s)"
proof -
  have loop: "mfor items (trust_step rep) s = (Inr (), t) \<longleftrightarrow> (\<exists>rows. rmap (trusted_row rep) items = Inr rows \<and> t = more_trusted rows s)"
    for items s
  proof (induction items arbitrary: s)
    case Nil
    then show ?case by (auto simp: more_trusted_rows)
  next
    case (Cons x items)
    show ?case
      by (cases "trusted_row rep x") (auto simp: mseq_Inr_iff trust_step_run Cons.IH more_trusted_rows rbind_Inr_conv)
  qed
  show ?thesis
    by (cases "py_items (dict_get_or doc ''trusted_ips'' (VDict []))")
      (simp_all add: apply_trusted_ips_def loop flip: trust_step_def)
qed

definition set_trusted :: "(string \<times> string) list \<Rightarrow> Config \<Rightarrow> Config" where
  "set_trusted rows = change id id id (\<lambda>_. add_rows rows []) id"

lemma after_trusted:
  "commutes (set_trusted rows) (mseq (apply_sit4_endpoints rep doc) (mseq (apply_acl doc) (reload_rest rep doc)))"
  unfolding set_trusted_def by (intro commutes_seq sit4_commutes acl_commutes rest_commutes)

lemma trusted_set:
  assumes "mseq clear_policy (apply_permanent_ports doc) s = (Inr x, u)" "apply_trusted_ips rep doc u = (Inr (), v)"
    and "py_items (dict_get_or doc' ''trusted_ips'' (VDict [])) = Inr items" "rmap (trusted_row rep) items = Inr rows"
  shows "apply_trusted_ips rep doc' u = (Inr (), set_trusted rows v)"
proof -
  have "apply_permanent_ports doc (snd (clear_policy s)) = (Inr (), u)"
    using assms(1) by (simp add: mseq_run [OF clear_policy_run])
  then have u: "TRUSTED_SRC_IPS u = []" unfolding permanent_ports_run by (auto simp: change_sel)
  from assms(2) obtain rows' where v: "v = more_trusted rows' u" unfolding trusted_run by blast
  have "set_trusted rows v = more_trusted rows u"
    by (simp add: v u set_trusted_def more_trusted_def change_def)
  then show ?thesis using assms(3,4) by (simp add: trusted_run)
qed

lemma reload_at_trusted:
  "apply_toml_config rep doc s = (Inr (), t) \<longleftrightarrow>
     mseq (mseq clear_policy (apply_permanent_ports doc)) (mseq (apply_trusted_ips rep doc)
       (mseq (apply_sit4_endpoints rep doc) (mseq (apply_acl doc) (reload_rest rep doc)))) s = (Inr (), t)"
  by (simp only: reload_unfold mseq_assoc)

lemma trusted_reload:
  assumes reload: "apply_toml_config rep doc s = (Inr (), t)" and rows: "rmap (trusted_row rep) items = Inr rows"
  shows "apply_toml_config rep (dict_set ''trusted_ips'' (VDict items) doc) s = (Inr (), set_trusted rows t)"
proof -
  have "mseq (mseq clear_policy (apply_permanent_ports doc)) (mseq (apply_trusted_ips rep (dict_set ''trusted_ips'' (VDict items) doc))
      (mseq (apply_sit4_endpoints rep doc) (mseq (apply_acl doc) (reload_rest rep doc)))) s = (Inr (), set_trusted rows t)"
    by (rule swap_part [OF reload [unfolded reload_at_trusted] after_trusted trusted_set [OF _ _ _ rows]]) simp_all
  then show ?thesis by (simp only: reload_at_trusted parts_ignore rest_ignores)
qed

lemma trusted_of_reload:
  assumes reload: "apply_toml_config rep doc s = (Inr (), t)"
  obtains items rows where "py_items (dict_get_or doc ''trusted_ips'' (VDict [])) = Inr items"
    "rmap (trusted_row rep) items = Inr rows" "TRUSTED_SRC_IPS t = add_rows rows []"
proof -
  from reload obtain u v where "apply_trusted_ips rep doc u = (Inr (), v)"
    unfolding reload_unfold mseq_run [OF clear_policy_run] by (auto simp: mseq_Inr_iff)
  then obtain items rows where items: "py_items (dict_get_or doc ''trusted_ips'' (VDict [])) = Inr items"
    "rmap (trusted_row rep) items = Inr rows" unfolding trusted_run by blast
  have "apply_toml_config rep doc s = (Inr (), set_trusted rows t)"
    unfolding reload_at_trusted
    by (rule swap_part [OF reload [unfolded reload_at_trusted] after_trusted trusted_set [OF _ _ items]])
  then have "t = set_trusted rows t" using reload by simp
  then have "TRUSTED_SRC_IPS t = add_rows rows []" unfolding set_trusted_def by (metis change_sel(4))
  then show thesis using items that by blast
qed

text \<open>No entry of the table is another spelling of a network.\<close>

definition spelled_once :: "string \<Rightarrow> (string, pyval) dict \<Rightarrow> bool" where
  "spelled_once c items \<longleftrightarrow> distinct (map fst items) \<and> (\<forall>k \<in> fst ` set items. normalize_cidr k = Inr c \<longrightarrow> k = c)"

lemma rows_without:
  assumes "rmap (trusted_row rep) items = Inr rows" "\<forall>k \<in> fst ` set items. normalize_cidr k \<noteq> Inr c"
  shows "map_of (rev rows) c = None"
proof -
  have "c \<notin> fst ` set rows"
  proof
    assume "c \<in> fst ` set rows"
    then obtain l where "(c, l) \<in> set rows" by auto
    then obtain x where x: "x \<in> set items" "trusted_row rep x = Inr (c, l)" using rmap_set [OF assms(1)] by blast
    have "normalize_cidr (fst x) = Inr c" using x(2) by (simp add: trusted_row_def rbind_Inr_conv split_beta)
    with assms(2) x(1) show False by blast
  qed
  then show ?thesis by (simp add: map_of_eq_None_iff)
qed

lemma rows_update:
  assumes "rmap (trusted_row rep) items = Inr rows" "spelled_once c items" "normalize_cidr c = Inr c"
  shows "\<exists>rows'. rmap (trusted_row rep) (dict_set c (VStr label) items) = Inr rows' \<and>
    map_of (rev rows') = (map_of (rev rows))(c \<mapsto> label)"
  using assms
proof (induction items arbitrary: rows)
  case Nil
  then show ?case by (auto simp: dict_set_def trusted_row_def py_str_def)
next
  case (Cons x items)
  obtain k v where x: "x = (k, v)" by (cases x)
  from Cons.prems(1) obtain n rest where n: "normalize_cidr k = Inr n" and rest: "rmap (trusted_row rep) items = Inr rest"
    and rows: "rows = (n, py_str rep v) # rest" by (auto simp: x trusted_row_def rbind_Inr_conv)
  show ?case
  proof (cases "k = c")
    case True
    have "map_of (rev rest) c = None"
      using Cons.prems(2) True by (intro rows_without [OF rest]) (auto simp: x spelled_once_def)
    then have "map_of (rev ((c, label) # rest)) = (map_of (rev rows))(c \<mapsto> label)"
      using True n Cons.prems(3) by (auto simp: rows map_add_def fun_eq_iff split: option.splits)
    then show ?thesis using True rest Cons.prems(3) by (simp add: x dict_set_def trusted_row_def py_str_def fun_upd_def)
  next
    case False
    have "spelled_once c items" using Cons.prems(2) by (auto simp: x spelled_once_def)
    then obtain rest' where "rmap (trusted_row rep) (dict_set c (VStr label) items) = Inr rest'"
      "map_of (rev rest') = (map_of (rev rest))(c \<mapsto> label)" using Cons.IH [OF rest _ Cons.prems(3)] by blast
    moreover have "trusted_row rep x = Inr (n, py_str rep v)" by (simp add: x trusted_row_def n)
    ultimately show ?thesis using False by (auto simp: x dict_set_def rows map_add_def fun_eq_iff split: option.splits)
  qed
qed

lemma rows_delete:
  assumes "rmap (trusted_row rep) items = Inr rows" "spelled_once c items" "normalize_cidr c = Inr c"
  shows "\<exists>rows'. rmap (trusted_row rep) (dict_pop c items) = Inr rows' \<and> map_of (rev rows') = (map_of (rev rows))(c := None)"
  using assms
proof (induction items arbitrary: rows)
  case Nil
  then show ?case by (simp add: dict_pop_def)
next
  case (Cons x items)
  obtain k v where x: "x = (k, v)" by (cases x)
  from Cons.prems(1) obtain n rest where n: "normalize_cidr k = Inr n" and rest: "rmap (trusted_row rep) items = Inr rest"
    and rows: "rows = (n, py_str rep v) # rest" by (auto simp: x trusted_row_def rbind_Inr_conv)
  have "spelled_once c items" using Cons.prems(2) by (auto simp: x spelled_once_def)
  then obtain rest' where rest': "rmap (trusted_row rep) (dict_pop c items) = Inr rest'"
    "map_of (rev rest') = (map_of (rev rest))(c := None)" using Cons.IH [OF rest _ Cons.prems(3)] by blast
  have row: "trusted_row rep x = Inr (n, py_str rep v)" by (simp add: x trusted_row_def n)
  show ?case
  proof (cases "k = c")
    case True
    then have "n = c" using n Cons.prems(3) by simp
    then show ?thesis using rest' True by (auto simp: x dict_pop_def rows map_add_def fun_eq_iff split: option.splits)
  next
    case False
    then have "n \<noteq> c" using Cons.prems(2) n by (auto simp: x spelled_once_def)
    then show ?thesis using rest' row False by (auto simp: x dict_pop_def rows map_add_def fun_eq_iff split: option.splits)
  qed
qed

text \<open>
  C32 (\<open>admin_cli.py\<close>, \<open>_cmd_trust_add\<close> and \<open>_cmd_trust_del\<close>, with \<open>config.py\<close>): after \<open>trust add\<close> the daemon trusts
  the network under the label, after \<open>trust del\<close> it does not, and nothing else changes, provided that the
  file spells the network in one way only.
\<close>

theorem trust_edits_reach_daemon:
  assumes edit: "(edit, f) \<in> {(edit_trust_add c label, \<lambda>m. m(c \<mapsto> label)), (edit_trust_del c, \<lambda>m. m(c := None))}"
    and c: "normalize_cidr c = Inr c" and once: "spelled_once c (table_of (dict_get_or doc ''trusted_ips'' (VDict [])))"
    and written: "edit doc = Inr doc'" and reload: "apply_toml_config rep doc s = (Inr (), t)"
  shows "\<exists>t'. apply_toml_config rep doc' s = (Inr (), t') \<and>
     map_of (TRUSTED_SRC_IPS t') = f (map_of (TRUSTED_SRC_IPS t)) \<and> t'\<lparr>TRUSTED_SRC_IPS := []\<rparr> = t\<lparr>TRUSTED_SRC_IPS := []\<rparr>"
proof -
  obtain items rows where old: "py_items (dict_get_or doc ''trusted_ips'' (VDict [])) = Inr items"
    "rmap (trusted_row rep) items = Inr rows" "TRUSTED_SRC_IPS t = add_rows rows []"
    using trusted_of_reload [OF reload] .
  then have once': "spelled_once c items"
    using once by (cases "dict_get_or doc ''trusted_ips'' (VDict [])") (simp_all add: py_items_def)
  have finish: ?thesis if "doc' = dict_set ''trusted_ips'' (VDict items') doc" "rmap (trusted_row rep) items' = Inr rows'"
    "map_of (rev rows') = f (map_of (rev rows))" for items' rows'
  proof -
    have "apply_toml_config rep doc' s = (Inr (), set_trusted rows' t)" unfolding that(1) by (rule trusted_reload [OF reload that(2)])
    moreover have "map_of (TRUSTED_SRC_IPS (set_trusted rows' t)) = f (map_of (TRUSTED_SRC_IPS t))"
      using that(3) by (simp add: set_trusted_def change_sel old(3) map_of_add_rows)
    moreover have "(set_trusted rows' t)\<lparr>TRUSTED_SRC_IPS := []\<rparr> = t\<lparr>TRUSTED_SRC_IPS := []\<rparr>"
      by (simp add: set_trusted_def change_def)
    ultimately show ?thesis by blast
  qed
  from edit consider "edit = edit_trust_add c label" "f = (\<lambda>m. m(c \<mapsto> label))" | "edit = edit_trust_del c" "f = (\<lambda>m. m(c := None))"
    by blast
  then show ?thesis
  proof cases
    case 1
    obtain rows' where "rmap (trusted_row rep) (dict_set c (VStr label) items) = Inr rows'"
      "map_of (rev rows') = f (map_of (rev rows))" using rows_update [OF old(2) once' c] 1(2) by blast
    moreover have "doc' = dict_set ''trusted_ips'' (VDict (dict_set c (VStr label) items)) doc"
      using written old(1) 1(1) by (cases "dict_get_or doc ''trusted_ips'' (VDict [])")
        (auto simp: edit_trust_add_def in_section_def set_item_def py_items_def)
    ultimately show ?thesis using finish by blast
  next
    case 2
    obtain rows' where "rmap (trusted_row rep) (dict_pop c items) = Inr rows'"
      "map_of (rev rows') = f (map_of (rev rows))" using rows_delete [OF old(2) once' c] 2(2) by blast
    moreover have "doc' = dict_set ''trusted_ips'' (VDict (dict_pop c items)) doc"
      using written old(1) 2(1) by (cases "dict_get_or doc ''trusted_ips'' (VDict [])")
        (auto simp: edit_trust_del_def in_section_def pop_item_def py_items_def)
    ultimately show ?thesis using finish by blast
  qed
qed

lemma cidr_10: "normalize_cidr ''10.0.0.0/8'' = Inr ''10.0.0.0/8''"
  by code_simp

theorem trust_edits_reach_daemon_witness:
  "\<exists>t'. apply_toml_config (\<lambda>_. []) [(''trusted_ips'', VDict [(''10.0.0.0/8'', VStr ''lan'')])] (Config_init [] [] []) = (Inr (), t') \<and>
     map_of (TRUSTED_SRC_IPS t') ''10.0.0.0/8'' = Some ''lan''"
proof -
  have reload: "apply_toml_config (\<lambda>_. []) [] (Config_init [] [] []) = (Inr (), snd (apply_toml_config (\<lambda>_. []) [] (Config_init [] [] [])))"
    using empty_document_loads by (simp add: prod_eq_iff)
  have "edit_trust_add ''10.0.0.0/8'' ''lan'' [] = Inr [(''trusted_ips'', VDict [(''10.0.0.0/8'', VStr ''lan'')])]"
    by (simp add: edit_trust_add_def in_section_def set_item_def dict_get_or_def dict_set_def)
  from trust_edits_reach_daemon [where edit = "edit_trust_add ''10.0.0.0/8'' ''lan''" and f = "\<lambda>m. m(''10.0.0.0/8'' \<mapsto> ''lan'')" and
      c = "''10.0.0.0/8''" and label = "''lan''", OF _ cidr_10 _ this reload]
  show ?thesis by (auto simp: spelled_once_def dict_get_or_def)
qed

text \<open>
  \<open>_cmd_trust_del\<close> in \<open>admin_cli.py\<close>: the command takes the normal form of its argument for the key. An entry that
  the file spells in another way, say without \<open>/32\<close>, is not removed, though the command says so, and the
  daemon goes on trusting the network.
\<close>

theorem trust_del_other_spelling:
  assumes written: "edit_trust_del c doc = Inr doc'" and reload: "apply_toml_config rep doc s = (Inr (), t)"
    and other: "k \<in> fst ` set (table_of (dict_get_or doc ''trusted_ips'' (VDict [])))" "k \<noteq> c" "normalize_cidr k = Inr c"
  shows "\<exists>t'. apply_toml_config rep doc' s = (Inr (), t') \<and> c \<in> dict_keys (TRUSTED_SRC_IPS t')"
proof -
  obtain items rows where old: "py_items (dict_get_or doc ''trusted_ips'' (VDict [])) = Inr items"
    "rmap (trusted_row rep) items = Inr rows" using trusted_of_reload [OF reload] by metis
  then have tab: "dict_get_or doc ''trusted_ips'' (VDict []) = VDict items"
    by (cases "dict_get_or doc ''trusted_ips'' (VDict [])") (simp_all add: py_items_def)
  have doc': "doc' = dict_set ''trusted_ips'' (VDict (dict_pop c items)) doc"
    using written tab by (auto simp: edit_trust_del_def in_section_def pop_item_def)
  have "\<exists>y. trusted_row rep x = Inr y" if "x \<in> set items" for x
    using old(2) that by (auto simp: rmap_Inr_iff list_all2_conv_all_nth in_set_conv_nth)
  then obtain rows' where rows': "rmap (trusted_row rep) (dict_pop c items) = Inr rows'"
    "list_all2 (\<lambda>x y. trusted_row rep x = Inr y) (dict_pop c items) rows'"
    using rmap_all2 [of "dict_pop c items" "trusted_row rep" "\<lambda>x y. trusted_row rep x = Inr y"]
    by (auto simp: dict_pop_def AList.delete_eq)
  obtain v where "(k, v) \<in> set (dict_pop c items)" using other(1,2) tab by (auto simp: dict_pop_def AList.delete_eq)
  then obtain y where "y \<in> set rows'" "trusted_row rep (k, v) = Inr y"
    using rows'(2) unfolding list_all2_conv_all_nth in_set_conv_nth by metis
  then obtain l where "(c, l) \<in> set rows'" using other(3) by (auto simp: trusted_row_def)
  then have "c \<in> dict_keys (TRUSTED_SRC_IPS (set_trusted rows' t))"
    by (force simp: set_trusted_def change_sel dict_keys_dom map_of_add_rows dom_map_of_conv_image_fst)
  then show ?thesis using trusted_reload [OF reload rows'(1)] doc' by blast
qed

section \<open>ACL rules\<close>

definition more_rules :: "AclRule list \<Rightarrow> Config \<Rightarrow> Config" where
  "more_rules rs = change id id id id (\<lambda>l. l @ rs)"

lemma more_rules_step:
  "more_rules [] s = s" "more_rules rs (more_rules [r] s) = more_rules (r # rs) s"
  by (simp_all add: more_rules_def change_def)

lemma acl_run:
  "apply_acl doc s = (Inr (), t) \<longleftrightarrow>
     (\<exists>xs rs. py_iter (dict_get_or doc ''acl'' (VList [])) = Inr xs \<and> rmap acl_rule_of xs = Inr rs \<and> t = more_rules rs s)"
proof -
  let ?step = "\<lambda>rule. mbind (mlift (acl_rule_of rule)) (\<lambda>r. modify (ACL_RULES_update (\<lambda>l. l @ [r])))"
  have step: "?step x s = (Inr u, w) \<longleftrightarrow> (\<exists>r. acl_rule_of x = Inr r \<and> w = more_rules [r] s)" for x u w s
    by (cases "acl_rule_of x") (auto simp: more_rules_def change_def)
  have loop: "mfor xs ?step s = (Inr (), t) \<longleftrightarrow> (\<exists>rs. rmap acl_rule_of xs = Inr rs \<and> t = more_rules rs s)" for xs s
  proof (induction xs arbitrary: s)
    case (Cons x xs)
    have "mfor (x # xs) ?step s = (Inr (), t) \<longleftrightarrow> (\<exists>u w. ?step x s = (Inr u, w) \<and> mfor xs ?step w = (Inr (), t))"
      by (simp only: mfor.simps mseq_Inr_iff)
    also have "\<dots> \<longleftrightarrow> (\<exists>rs. rmap acl_rule_of (x # xs) = Inr rs \<and> t = more_rules rs s)"
      unfolding step Cons.IH by (cases "acl_rule_of x") (auto simp: more_rules_step rbind_Inr_conv)
    finally show ?case .
  qed (auto simp: more_rules_step)
  show ?thesis
    by (cases "py_iter (dict_get_or doc ''acl'' (VList []))") (simp_all only: apply_acl_def mbind_simps loop, auto)
qed

definition set_rules :: "AclRule list \<Rightarrow> Config \<Rightarrow> Config" where
  "set_rules rs = change id id id id (\<lambda>_. rs)"

lemma after_acl: "commutes (set_rules rs) (reload_rest rep doc)"
  unfolding set_rules_def by (rule rest_commutes)

lemma reload_at_acl:
  "apply_toml_config rep doc s = (Inr (), t) \<longleftrightarrow>
     mseq (mseq (mseq clear_policy (apply_permanent_ports doc)) (mseq (apply_trusted_ips rep doc) (apply_sit4_endpoints rep doc)))
       (mseq (apply_acl doc) (reload_rest rep doc)) s = (Inr (), t)"
  by (simp only: reload_unfold mseq_assoc)

lemma before_acl:
  assumes "mseq (mseq clear_policy (apply_permanent_ports doc)) (mseq (apply_trusted_ips rep doc) (apply_sit4_endpoints rep doc)) s = (Inr x, u)"
  shows "ACL_RULES u = []"
proof -
  have "keeps ACL_RULES (mseq (apply_permanent_ports doc) (mseq (apply_trusted_ips rep doc) (apply_sit4_endpoints rep doc)))"
    unfolding apply_permanent_ports_def apply_trusted_ips_def apply_sit4_endpoints_def Let_def for_each_def add_permanent_def
    by (intro keeps_rules keeps_modify) simp_all
  from keepsD [OF this, of "snd (clear_policy s)"] assms show ?thesis
    by (simp add: mseq_assoc mseq_run [OF clear_policy_run])
qed

lemma acl_set:
  assumes "mseq (mseq clear_policy (apply_permanent_ports doc)) (mseq (apply_trusted_ips rep doc) (apply_sit4_endpoints rep doc)) s = (Inr x, u)"
    and "apply_acl doc u = (Inr (), v)" "py_iter (dict_get_or doc' ''acl'' (VList [])) = Inr xs" "rmap acl_rule_of xs = Inr rs"
  shows "apply_acl doc' u = (Inr (), set_rules rs v)"
proof -
  from assms(2) obtain rs' where v: "v = more_rules rs' u" unfolding acl_run by blast
  have "set_rules rs v = more_rules rs u"
    by (simp add: v before_acl [OF assms(1)] set_rules_def more_rules_def change_def)
  then show ?thesis using assms(3,4) by (simp add: acl_run)
qed

lemma acl_reload:
  assumes reload: "apply_toml_config rep doc s = (Inr (), t)" and rs: "rmap acl_rule_of xs = Inr rs"
  shows "apply_toml_config rep (dict_set ''acl'' (VList xs) doc) s = (Inr (), set_rules rs t)"
proof -
  have "mseq (mseq (mseq clear_policy (apply_permanent_ports doc)) (mseq (apply_trusted_ips rep doc) (apply_sit4_endpoints rep doc)))
      (mseq (apply_acl (dict_set ''acl'' (VList xs) doc)) (reload_rest rep doc)) s = (Inr (), set_rules rs t)"
    by (rule swap_part [OF reload [unfolded reload_at_acl] after_acl acl_set [OF _ _ _ rs]]) simp_all
  then show ?thesis by (simp only: reload_at_acl parts_ignore rest_ignores)
qed

lemma acl_of_reload:
  assumes reload: "apply_toml_config rep doc s = (Inr (), t)"
  obtains xs where "py_iter (dict_get_or doc ''acl'' (VList [])) = Inr xs" "rmap acl_rule_of xs = Inr (ACL_RULES t)"
proof -
  from reload obtain u v where "apply_acl doc u = (Inr (), v)"
    unfolding reload_unfold mseq_run [OF clear_policy_run] by (auto simp: mseq_Inr_iff)
  then obtain xs rs where xs: "py_iter (dict_get_or doc ''acl'' (VList [])) = Inr xs" "rmap acl_rule_of xs = Inr rs"
    unfolding acl_run by blast
  have "apply_toml_config rep doc s = (Inr (), set_rules rs t)"
    unfolding reload_at_acl
    by (rule swap_part [OF reload [unfolded reload_at_acl] after_acl acl_set [OF _ _ xs]])
  then have "t = set_rules rs t" using reload by simp
  then have "ACL_RULES t = rs" unfolding set_rules_def by (metis change_sel(5))
  then show thesis using xs that by blast
qed

definition same_rule :: "(pyval \<Rightarrow> string) \<Rightarrow> string \<Rightarrow> string \<Rightarrow> AclRule \<Rightarrow> bool" where
  "same_rule rep proto c r \<longleftrightarrow> str_lower (py_str rep (rule_proto r)) = proto \<and> rule_cidr r = c"

lemma is_rule_for_same:
  assumes "acl_rule_of x = Inr r"
  shows "is_rule_for rep proto c x = Inr (same_rule rep proto c r)"
proof -
  from assms obtain p v n where p: "py_index x ''proto'' = Inr p" and v: "py_index x ''cidr'' = Inr v"
    and n: "normalize_cidr_value v = Inr n" and r: "rule_proto r = p" "rule_cidr r = n"
    by (auto simp: acl_rule_of_def rbind_Inr_conv)
  have get: "py_get x k d = Inr w" if "py_index x k = Inr w" for k d w
    using that by (cases x) (auto simp: py_index_def py_get_def dict_get_or_def split: option.splits)
  have "normalize_cidr (py_str rep v) = Inr n" using n by (cases v) (simp_all add: normalize_cidr_value_def py_str_def)
  then show ?thesis using r by (simp add: is_rule_for_def get [OF p] get [OF v] same_rule_def)
qed

lemma other_rules_kept:
  assumes "py_iter v = Inr xs" "rmap acl_rule_of xs = Inr rs"
  shows "\<exists>ys. other_rules rep proto c v = Inr ys \<and> rmap acl_rule_of ys = Inr (filter (\<lambda>r. \<not> same_rule rep proto c r) rs)"
proof -
  let ?keep = "\<lambda>x. rbind (rbind (is_rule_for rep proto c x) (\<lambda>b. Inr (\<not> b))) (\<lambda>b. Inr (if b then [x] else []))"
  have "\<exists>yss. rmap ?keep xs = Inr yss \<and> rmap acl_rule_of (concat yss) = Inr (filter (\<lambda>r. \<not> same_rule rep proto c r) rs)"
    using assms(2)
  proof (induction xs arbitrary: rs)
    case (Cons x xs)
    then obtain r rs' where r: "acl_rule_of x = Inr r" "rmap acl_rule_of xs = Inr rs'" "rs = r # rs'"
      by (auto simp: rbind_Inr_conv)
    with Cons.IH [OF r(2)] show ?case by (auto simp: is_rule_for_same [OF r(1)])
  qed simp
  then show ?thesis using assms(1) by (auto simp: other_rules_def keep_items_def)
qed

lemma new_acl_rule:
  "normalize_cidr c = Inr c \<Longrightarrow>
     acl_rule_of (VDict [(''proto'', VStr proto), (''cidr'', VStr c), (''ports'', VList (map VInt ports))]) =
       Inr \<lparr>rule_proto = VStr proto, rule_cidr = c, rule_ports = ports\<rparr>"
  by (simp add: acl_rule_of_def py_index_def dict_get_or_def normalize_cidr_value_def)

lemma set_rules_facts: "ACL_RULES (set_rules rs t) = rs" "(set_rules rs t)\<lparr>ACL_RULES := []\<rparr> = t\<lparr>ACL_RULES := []\<rparr>"
  by (simp_all add: set_rules_def change_def)

lemma rmap_snoc: "rmap f xs = Inr ys \<Longrightarrow> f x = Inr y \<Longrightarrow> rmap f (xs @ [x]) = Inr (ys @ [y])"
  by (induction xs arbitrary: ys) (auto simp: rbind_Inr_conv)

text \<open>
  C33 (\<open>admin_cli.py\<close>, \<open>_cmd_acl_add\<close> and \<open>_cmd_acl_del\<close>, with \<open>config.py\<close>): after a reload of the edited
  document the rules are the old ones in their order, without those of that protocol and network however
  they are spelled, and with the new rule at the end if one was added. Nothing else changes.
\<close>

theorem acl_edits_reach_daemon:
  assumes edit: "(edit, new) \<in> {(edit_acl_add rep proto c ports, [\<lparr>rule_proto = VStr proto, rule_cidr = c, rule_ports = ports\<rparr>]),
      (edit_acl_del rep proto c, [])}"
    and c: "normalize_cidr c = Inr c" and written: "edit doc = Inr doc'" and reload: "apply_toml_config rep doc s = (Inr (), t)"
  shows "\<exists>t'. apply_toml_config rep doc' s = (Inr (), t') \<and>
     ACL_RULES t' = filter (\<lambda>r. \<not> same_rule rep proto c r) (ACL_RULES t) @ new \<and> t'\<lparr>ACL_RULES := []\<rparr> = t\<lparr>ACL_RULES := []\<rparr>"
proof -
  obtain xs where xs: "py_iter (dict_get_or doc ''acl'' (VList [])) = Inr xs" "rmap acl_rule_of xs = Inr (ACL_RULES t)"
    using acl_of_reload [OF reload] .
  from other_rules_kept [OF xs] obtain ys where ys: "other_rules rep proto c (dict_get_or doc ''acl'' (VList [])) = Inr ys"
    "rmap acl_rule_of ys = Inr (filter (\<lambda>r. \<not> same_rule rep proto c r) (ACL_RULES t))" by blast
  let ?rule = "VDict [(''proto'', VStr proto), (''cidr'', VStr c), (''ports'', VList (map VInt ports))]"
  have cases: "edit = edit_acl_add rep proto c ports \<and> new = [\<lparr>rule_proto = VStr proto, rule_cidr = c, rule_ports = ports\<rparr>] \<or>
      edit = edit_acl_del rep proto c \<and> new = []"
    using edit by (simp only: insert_iff empty_iff prod.inject simp_thms)
  have "\<exists>zs. doc' = dict_set ''acl'' (VList zs) doc \<and>
    rmap acl_rule_of zs = Inr (filter (\<lambda>r. \<not> same_rule rep proto c r) (ACL_RULES t) @ new)"
    using cases
  proof (elim disjE conjE)
    assume add: "edit = edit_acl_add rep proto c ports" "new = [\<lparr>rule_proto = VStr proto, rule_cidr = c, rule_ports = ports\<rparr>]"
    have "edit_acl_add rep proto c ports doc = Inr (dict_set ''acl'' (VList (ys @ [?rule])) doc)"
      by (simp only: edit_acl_add_def ys(1) rbind_simps)
    then have "doc' = dict_set ''acl'' (VList (ys @ [?rule])) doc" using written add(1) by simp
    moreover have "rmap acl_rule_of (ys @ [?rule]) = Inr (filter (\<lambda>r. \<not> same_rule rep proto c r) (ACL_RULES t) @ new)"
      unfolding add(2) by (rule rmap_snoc [where f = acl_rule_of, OF ys(2) new_acl_rule [OF c]])
    ultimately show ?thesis by blast
  next
    assume del: "edit = edit_acl_del rep proto c" "new = []"
    have "edit_acl_del rep proto c doc = Inr (dict_set ''acl'' (VList ys) doc)"
      by (simp only: edit_acl_del_def ys(1) rbind_simps)
    then have "doc' = dict_set ''acl'' (VList ys) doc" using written del(1) by simp
    moreover have "rmap acl_rule_of ys = Inr (filter (\<lambda>r. \<not> same_rule rep proto c r) (ACL_RULES t) @ new)"
      unfolding del(2) append_Nil2 by (rule ys(2))
    ultimately show ?thesis by blast
  qed
  then obtain zs where zs: "doc' = dict_set ''acl'' (VList zs) doc"
    "rmap acl_rule_of zs = Inr (filter (\<lambda>r. \<not> same_rule rep proto c r) (ACL_RULES t) @ new)" by blast
  show ?thesis
    unfolding zs(1) by (rule exI, intro conjI, rule acl_reload [OF reload zs(2)], rule set_rules_facts, rule set_rules_facts)
qed

theorem acl_edits_reach_daemon_witness:
  "\<exists>t'. apply_toml_config (\<lambda>_. []) [(''acl'', VList [VDict [(''proto'', VStr ''tcp''), (''cidr'', VStr ''10.0.0.0/8''), (''ports'', VList [VInt 22])]])]
       (Config_init [] [] []) = (Inr (), t') \<and>
     ACL_RULES t' = [\<lparr>rule_proto = VStr ''tcp'', rule_cidr = ''10.0.0.0/8'', rule_ports = [22]\<rparr>]"
proof -
  have reload: "apply_toml_config (\<lambda>_. []) [] (Config_init [] [] []) = (Inr (), snd (apply_toml_config (\<lambda>_. []) [] (Config_init [] [] [])))"
    using empty_document_loads by (simp add: prod_eq_iff)
  have none: "ACL_RULES (snd (apply_toml_config (\<lambda>_. []) [] (Config_init [] [] []))) = []"
    by (rule acl_of_reload [OF reload]) (auto simp: dict_get_or_def)
  have "edit_acl_add (\<lambda>_. []) ''tcp'' ''10.0.0.0/8'' [22] [] =
     Inr [(''acl'', VList [VDict [(''proto'', VStr ''tcp''), (''cidr'', VStr ''10.0.0.0/8''), (''ports'', VList [VInt 22])]])]"
    by (simp add: edit_acl_add_def other_rules_def keep_items_def dict_get_or_def dict_set_def)
  from acl_edits_reach_daemon [where edit = "edit_acl_add (\<lambda>_. []) ''tcp'' ''10.0.0.0/8'' [22]" and proto = "''tcp''" and ports = "[22]"
      and new = "[\<lparr>rule_proto = VStr ''tcp'', rule_cidr = ''10.0.0.0/8'', rule_ports = [22]\<rparr>]", OF _ cidr_10 this reload]
  show ?thesis by (auto simp: none)
qed

end
