(* ===== verification/TomlRound.thy ===== *)
theory TomlRound
  imports TomlText
begin

text \<open>
  What the administrator's commands write, the fallback parser reads back: for documents of
  tables, numbers, booleans, strings and inline values with bare keys. The values come back
  the same, and the tables in the order of the file: scalars before tables.
\<close>

section \<open>Strings\<close>

lemma hex_value_char: "n < 16 \<Longrightarrow> hex_value (hex_char n) = Some n"
  by (auto simp: hex_value_def hex_char_def Let_def)

lemma hex4_byte: "n < 256 \<Longrightarrow> hex4 n = [hex_char 0, hex_char 0, hex_char (n div 16), hex_char (n mod 16)]"
  by (simp add: hex4_def)

lemma char_code [simp]: "of_char c < (256 :: nat)"
  using of_char_mod_256 [of c, where ?'a = nat] by (metis mod_less_divisor zero_less_numeral)

lemma char_codes:
  "of_char c = (34 :: nat) \<longleftrightarrow> c = CHR 0x22" "of_char c = (92 :: nat) \<longleftrightarrow> c = CHR 0x5C"
  "of_char c = (10 :: nat) \<longleftrightarrow> c = CHR 0x0A" "of_char c = (13 :: nat) \<longleftrightarrow> c = CHR 0x0D"
  "of_char c = (9 :: nat) \<longleftrightarrow> c = CHR 0x09" "of_char c = (8 :: nat) \<longleftrightarrow> c = CHR 0x08"
  "of_char c = (12 :: nat) \<longleftrightarrow> c = CHR 0x0C"
  by (simp_all flip: of_char_eq_iff [where ?'a = nat])

lemma json_scan_char: "json_scan acc (json_char c @ s) = json_scan (c # acc) s"
proof -
  let ?n = "of_char c :: nat"
  have "json_scan acc (CHR 0x5C # CHR ''u'' # hex4 ?n @ s) = json_scan (c # acc) s"
  proof -
    have "?n div 16 < 16" using char_code [of c] by linarith
    then show ?thesis using hex_value_char [of 0] hex_value_char [of "?n div 16"] hex_value_char [of "?n mod 16"]
      by (simp add: hex4_byte)
  qed
  then show ?thesis
    by (auto simp: json_char_def Let_def json_escape_def char_codes)
qed

lemma json_loads_json_str: "json_loads_str (json_str s) = Some s"
proof -
  have "json_scan acc (concat (map json_char s) @ [CHR 0x22]) = Some (rev acc @ s, [])" for acc
    by (induction s arbitrary: acc) (simp_all add: json_scan_char del: json_scan.simps(2), simp)
  then show ?thesis by (simp add: json_loads_str_def json_str_def)
qed

section \<open>Stripping\<close>

definition solid :: "string \<Rightarrow> bool" where
  "solid s \<longleftrightarrow> s \<noteq> [] \<and> \<not> is_space (hd s) \<and> \<not> is_space (last s)"

definition blank :: "string \<Rightarrow> bool" where
  "blank s \<longleftrightarrow> list_all is_space s"

lemma blank_simps [simp]:
  "blank []" "blank (c # s) \<longleftrightarrow> is_space c \<and> blank s" "blank (a @ b) \<longleftrightarrow> blank a \<and> blank b" "blank (rev a) \<longleftrightarrow> blank a"
  by (simp_all add: blank_def)

lemma space_chars [simp]: "is_space (CHR '' '')" "\<not> is_space (CHR ''['')" "\<not> is_space (CHR '']'')" "\<not> is_space (CHR ''{'')"
  "\<not> is_space (CHR ''}'')" "\<not> is_space (CHR 0x22)" "\<not> is_space (CHR ''='')" "\<not> is_space (CHR '','')"
  by (simp_all add: is_space_def)

lemma str_lstrip_solid: "blank a \<Longrightarrow> s \<noteq> [] \<Longrightarrow> \<not> is_space (hd s) \<Longrightarrow> str_lstrip (a @ s) = s"
  by (induction a) (simp_all add: str_lstrip_def dropWhile_eq_self_iff)

lemma str_lstrip_blank: "blank a \<Longrightarrow> str_lstrip a = []"
  by (induction a) (simp_all add: str_lstrip_def)

lemma str_strip_blank: "blank a \<Longrightarrow> str_strip a = []"
  by (simp add: str_strip_def str_lstrip_blank)

lemma str_strip_solid:
  assumes "solid s" "blank a" "blank b"
  shows "str_strip (a @ s @ b) = s"
proof -
  have "str_lstrip (a @ s @ b) = s @ b" using assms by (intro str_lstrip_solid) (simp_all add: solid_def)
  moreover have "str_lstrip (rev b @ rev s) = rev s"
    using assms by (intro str_lstrip_solid) (simp_all add: solid_def hd_rev)
  ultimately show ?thesis by (simp add: str_strip_def)
qed

lemma str_strip_solid_only: "solid s \<Longrightarrow> str_strip s = s"
  using str_strip_solid [of s "[]" "[]"] by simp

lemma solid_append: "solid a \<Longrightarrow> solid b \<Longrightarrow> solid (a @ c @ b)"
  by (auto simp: solid_def)

section \<open>Splitting at commas\<close>

text \<open>Text the scan of \<open>split_items\<close> passes over: anywhere, or inside brackets.\<close>

definition skips :: "string \<Rightarrow> bool" where
  "skips s \<longleftrightarrow> (\<forall>cur depth rest. 0 \<le> depth \<longrightarrow>
     split_go cur depth None False (s @ rest) = split_go (cur @ s) depth None False rest)"

definition skips_inside :: "string \<Rightarrow> bool" where
  "skips_inside s \<longleftrightarrow> (\<forall>cur depth rest. 0 < depth \<longrightarrow>
     split_go cur depth None False (s @ rest) = split_go (cur @ s) depth None False rest)"

lemma skips_inside: "skips s \<Longrightarrow> skips_inside s"
  by (simp add: skips_def skips_inside_def)

lemma skips_append: "skips a \<Longrightarrow> skips b \<Longrightarrow> skips (a @ b)"
  by (simp add: skips_def)

lemma skips_inside_append: "skips_inside a \<Longrightarrow> skips_inside b \<Longrightarrow> skips_inside (a @ b)"
  by (simp add: skips_inside_def)

lemma skips_char: "c \<notin> {CHR 0x22, CHR 0x27, CHR ''['', CHR ''{'', CHR '']'', CHR ''}'', CHR '',''} \<Longrightarrow> skips [c]"
  by (auto simp: skips_def split_go.simps(2))

lemma skips_Nil: "skips []"
  by (simp add: skips_def)

lemma skips_plain:
  "list_all (\<lambda>c. c \<notin> {CHR 0x22, CHR 0x27, CHR ''['', CHR ''{'', CHR '']'', CHR ''}'', CHR '',''}) s \<Longrightarrow> skips s"
proof (induction s)
  case (Cons c s)
  then show ?case using skips_append [OF skips_char [of c], of s] by simp
qed (rule skips_Nil)

lemma skips_inside_sep: "skips_inside '', ''"
  by (simp add: skips_inside_def split_go.simps(2))

lemma skips_inside_join: "list_all skips_inside xs \<Longrightarrow> skips_inside (str_join '', '' xs)"
proof (induction xs rule: induct_list012)
  case (3 x y xs)
  then show ?case using skips_inside_append [OF _ skips_inside_append [OF skips_inside_sep]] by simp
qed (simp_all add: skips_inside skips_Nil)

lemma skips_bracket:
  assumes "skips_inside s"
  shows "skips (''['' @ s @ '']'')" "skips (''{'' @ s @ ''}'')"
  using assms by (simp_all add: skips_def skips_inside_def split_go.simps(2))

lemma json_char_cases:
  "json_char c = [c] \<and> c \<noteq> CHR 0x22 \<and> c \<noteq> CHR 0x5C \<or> (\<exists>x. json_char c = [CHR 0x5C, x]) \<or>
   json_char c = CHR 0x5C # CHR ''u'' # hex4 (of_char c)"
  by (simp add: json_char_def Let_def char_codes)

lemma scan_quoted:
  "CHR 0x5C \<notin> set s \<Longrightarrow> CHR 0x22 \<notin> set s \<Longrightarrow>
     split_go cur depth (Some (CHR 0x22)) False (s @ rest) = split_go (cur @ s) depth (Some (CHR 0x22)) False rest"
  by (induction s arbitrary: cur) (auto simp: split_go.simps(2))

lemma bare_hex_char: "d < 16 \<Longrightarrow> bare_char (hex_char d)"
  by (auto simp: hex_char_def bare_char_def Let_def)

lemma hex4_chars:
  assumes "n < 256" "c \<in> set (hex4 n)"
  shows "bare_char c"
proof -
  have "n div 16 < 16" using assms(1) by linarith
  then show ?thesis using assms by (auto simp: hex4_byte intro: bare_hex_char)
qed

lemma scan_json_char:
  "split_go cur depth (Some (CHR 0x22)) False (json_char c @ rest) = split_go (cur @ json_char c) depth (Some (CHR 0x22)) False rest"
proof -
  have "\<not> bare_char (CHR 0x5C)" "\<not> bare_char (CHR 0x22)" by (simp_all add: bare_char_def)
  then have hex: "CHR 0x5C \<notin> set (hex4 (of_char c))" "CHR 0x22 \<notin> set (hex4 (of_char c))"
    using hex4_chars char_code by blast+
  from json_char_cases [of c] show ?thesis
  proof (elim disjE exE conjE)
    assume c: "json_char c = CHR 0x5C # CHR ''u'' # hex4 (of_char c)"
    show ?thesis unfolding c using scan_quoted [OF hex, of "cur @ [CHR 0x5C, CHR ''u'']" depth rest]
      by (simp add: split_go.simps(2))
  qed (simp_all add: split_go.simps(2))
qed

lemma skips_json_str: "skips (json_str s)"
proof -
  have "split_go cur depth (Some (CHR 0x22)) False (concat (map json_char s) @ rest) =
    split_go (cur @ concat (map json_char s)) depth (Some (CHR 0x22)) False rest" for cur depth rest
    by (induction s arbitrary: cur) (simp_all add: scan_json_char)
  then show ?thesis by (simp add: skips_def json_str_def split_go.simps(2))
qed

lemma skips_blank: "blank s \<Longrightarrow> skips s"
  by (rule skips_plain) (auto simp: blank_def list_all_iff is_space_def)

lemma split_go_items:
  assumes "list_all (\<lambda>x. skips x \<and> solid x) xs" "blank cur" "blank post"
  shows "split_go cur 0 None False (str_join '', '' xs @ post) = xs"
  using assms
proof (induction xs arbitrary: cur rule: induct_list012)
  case 1
  then have "split_go cur 0 None False (post @ []) = split_go (cur @ post) 0 None False []"
    using skips_blank [of post] unfolding skips_def by blast
  then show ?case using 1 by (simp add: item_of_def str_strip_blank)
next
  case (2 x)
  then have "skips (x @ post)"
    by (intro skips_append [OF _ skips_blank]) simp_all
  then have "split_go cur 0 None False (x @ post) = split_go (cur @ x @ post) 0 None False []"
    unfolding skips_def by (metis append_Nil2 order_refl)
  moreover have "x \<noteq> []" using 2 by (simp add: solid_def)
  ultimately show ?case using 2 by (simp add: item_of_def str_strip_solid Let_def)
next
  case (3 x y xs)
  have "split_go cur 0 None False (x @ '', '' @ str_join '', '' (y # xs) @ post) =
      split_go (cur @ x) 0 None False ('', '' @ str_join '', '' (y # xs) @ post)"
    using 3 by (simp add: skips_def)
  also have "\<dots> = item_of (cur @ x) @ split_go '' '' 0 None False (str_join '', '' (y # xs) @ post)"
    by (simp add: split_go.simps(2))
  also have "item_of (cur @ x) = [x]"
    using 3 str_strip_solid [of x cur "[]"] by (simp add: item_of_def solid_def Let_def)
  also have "split_go '' '' 0 None False (str_join '', '' (y # xs) @ post) = y # xs"
    using 3 by (intro "3.IH"(2)) simp_all
  finally show ?case by simp
qed

section \<open>Values\<close>

definition one_line :: "string \<Rightarrow> bool" where
  "one_line s \<longleftrightarrow> list_all (\<lambda>c. \<not> is_line_end c) s"

lemma one_line_simps [simp]:
  "one_line []" "one_line (c # s) \<longleftrightarrow> \<not> is_line_end c \<and> one_line s" "one_line (a @ b) \<longleftrightarrow> one_line a \<and> one_line b"
  by (simp_all add: one_line_def)

lemma one_line_join: "one_line sep \<Longrightarrow> list_all one_line xs \<Longrightarrow> one_line (str_join sep xs)"
  by (induction xs rule: induct_list012) simp_all

lemma one_line_codes: "\<forall>c \<in> set s. 32 \<le> (of_char c :: nat) \<and> (of_char c :: nat) < 127 \<Longrightarrow> one_line s"
  by (fastforce simp: one_line_def list_all_iff is_line_end_def Let_def)

definition plain_key :: "string \<Rightarrow> bool" where
  "plain_key k \<longleftrightarrow> k \<noteq> [] \<and> list_all bare_char k"

text \<open>The values of a document that survive: no floats, no dates, and bare keys in inline tables.\<close>

fun plain_value :: "pyval \<Rightarrow> bool" where
  "plain_value (VList xs) = list_all plain_value xs"
| "plain_value (VDict d) = (distinct (map fst d) \<and> list_all (\<lambda>(k, v). plain_key k \<and> plain_value v) d)"
| "plain_value (VFloat f) = False"
| "plain_value (VDate t) = False"
| "plain_value _ = True"

lemma bare_char_facts:
  "bare_char c \<Longrightarrow> \<not> is_space c" "bare_char c \<Longrightarrow> \<not> is_line_end c"
  "bare_char c \<Longrightarrow> c \<notin> {CHR 0x22, CHR 0x27, CHR ''['', CHR ''{'', CHR '']'', CHR ''}'', CHR '','', CHR ''='', CHR ''.'', CHR ''#'', CHR 0x0A}"
  by (auto simp: bare_char_def is_space_def is_line_end_def Let_def)

lemma plain_key_facts:
  assumes "plain_key k"
  shows "solid k" "one_line k" "skips k" "fmt_key k = k"
    "CHR ''='' \<notin> set k" "CHR ''.'' \<notin> set k" "CHR ''['' \<notin> set k" "CHR '']'' \<notin> set k"
proof -
  have all: "bare_char c" if "c \<in> set k" for c using assms that by (auto simp: plain_key_def list_all_iff)
  have k: "k \<noteq> []" using assms by (simp add: plain_key_def)
  show "solid k" using k all bare_char_facts(1) by (simp add: solid_def)
  show "one_line k" using all bare_char_facts(2) by (simp add: one_line_def list_all_iff)
  show "skips k" using all bare_char_facts(3) by (intro skips_plain) (auto simp: list_all_iff)
  have "last k \<noteq> CHR 0x0A" using k all [of "last k"] bare_char_facts(3) by auto
  then show "fmt_key k = k" using assms by (simp add: fmt_key_def is_bare_key_def plain_key_def)
  show "CHR ''='' \<notin> set k" "CHR ''.'' \<notin> set k" "CHR ''['' \<notin> set k" "CHR '']'' \<notin> set k"
    using all bare_char_facts(3) by blast+
qed

definition written :: "pyval \<Rightarrow> string \<Rightarrow> bool" where
  "written v s \<longleftrightarrow> solid s \<and> one_line s \<and> skips s \<and> value_of s = Inr v"

lemma json_char_codes: "\<forall>x \<in> set (json_char c). 32 \<le> (of_char x :: nat) \<and> (of_char x :: nat) < 127"
proof -
  have "32 \<le> (of_char x :: nat) \<and> (of_char x :: nat) < 127" if "x \<in> set (hex4 (of_char c))" for x
    using hex4_chars [OF char_code that] by (auto simp: bare_char_def Let_def)
  then show ?thesis by (auto simp: json_char_def Let_def)
qed

lemma written_str: "written (VStr t) (json_str t)"
proof -
  have "one_line (json_str t)"
    using json_char_codes by (intro one_line_codes) (auto simp: json_str_def)
  moreover have "solid (json_str t)" by (simp add: solid_def json_str_def)
  moreover have "value_of (json_str t) = Inr (VStr t)"
    by (subst value_of.simps) (simp add: json_loads_json_str, simp add: json_str_def)
  ultimately show ?thesis using skips_json_str by (simp add: written_def)
qed

lemma written_bool: "written (VBool b) (if b then ''true'' else ''false'')"
proof -
  have "skips ''true''" "skips ''false''" by (rule skips_plain, simp)+
  moreover have "solid ''true''" "solid ''false''" "one_line ''true''" "one_line ''false''"
    by (simp_all add: solid_def is_space_def is_line_end_def)
  moreover have "value_of ''true'' = Inr (VBool True)" "value_of ''false'' = Inr (VBool False)"
    by (subst value_of.simps, simp)+
  ultimately show ?thesis by (simp add: written_def)
qed

lemma str_of_int_bare: "plain_key (str_of_int i)"
proof -
  have "bare_char c" if "c \<in> set (digits_of_nat n)" for c n
    using that digits_are_digits [of n] by (auto simp: is_digit_def bare_char_def Let_def)
  then have "list_all bare_char (digits_of_nat n)" for n by (simp add: list_all_iff)
  then show ?thesis by (simp add: plain_key_def str_of_int_def bare_char_def [of "CHR ''-''"])
qed

lemma str_prefix_hd: "str_prefix [c] s \<longleftrightarrow> s \<noteq> [] \<and> hd s = c"
  by (cases s) auto

lemma written_int: "written (VInt i) (str_of_int i)"
proof -
  have ne: "str_of_int i \<noteq> ''true''" "str_of_int i \<noteq> ''false''"
  proof -
    have "int_of_str ''true'' = None" "int_of_str ''false'' = None"
      by (simp_all add: int_of_str_def str_strip_def str_lstrip_def is_space_def nat_of_str_def is_digit_def)
    then show "str_of_int i \<noteq> ''true''" "str_of_int i \<noteq> ''false''"
      by (metis int_of_str_of_int option.distinct(1))+
  qed
  have "hd (str_of_int i) \<notin> {CHR 0x22, CHR 0x27, CHR ''['', CHR ''{''}" "str_of_int i \<noteq> []"
    using str_of_int_bare [of i] bare_char_facts(3) [of "hd (str_of_int i)"]
    by (auto simp: plain_key_def list_all_iff)
  then have "value_of (str_of_int i) = Inr (VInt i)"
    using ne by (subst value_of.simps) (simp add: str_prefix_hd)
  then show ?thesis using plain_key_facts [OF str_of_int_bare] by (simp add: written_def)
qed

lemma list_all2_right: "list_all2 P xs ys \<Longrightarrow> (\<And>x y. P x y \<Longrightarrow> Q y) \<Longrightarrow> list_all Q ys"
  by (induction rule: list_all2_induct) simp_all

lemma inner_text_brackets: "inner_text (c # s @ [d]) = s"
  by (simp add: inner_text_def)

lemma written_list:
  assumes "list_all2 written xs ss"
  shows "written (VList xs) (''['' @ str_join '', '' ss @ '']'')"
proof -
  let ?s = "''['' @ str_join '', '' ss @ '']''"
  have ss: "list_all (\<lambda>s. skips s \<and> solid s) ss" "list_all one_line ss" "list_all skips_inside ss"
    using assms by (auto simp: written_def intro!: list_all2_right skips_inside)
  have "rmap (\<lambda>item. value_of (str_strip item)) ss = Inr xs"
    using assms by (induction rule: list_all2_induct) (simp_all add: written_def str_strip_solid_only)
  moreover have "split_items ?s = ss"
    using split_go_items [OF ss(1), of "[]" "[]"] by (simp add: split_items_def inner_text_brackets)
  ultimately have "value_of ?s = Inr (VList xs)" by (subst value_of.simps) simp
  moreover have "one_line ?s" using ss(2) by (simp add: one_line_join is_line_end_def)
  ultimately show ?thesis
    using skips_bracket(1) [OF skips_inside_join [OF ss(3)]] by (simp add: written_def solid_def)
qed

definition written_item :: "string \<times> pyval \<Rightarrow> string \<Rightarrow> bool" where
  "written_item = (\<lambda>(k, v) s. plain_key k \<and> (\<exists>t. s = k @ '' = '' @ t \<and> written v t))"

lemma written_item_facts:
  assumes "written_item (k, v) s"
  shows "solid s" "skips s" "one_line s"
    "\<exists>t. str_split1 (CHR ''='') s = (k @ '' '', Some ('' '' @ t)) \<and> value_of (str_strip ('' '' @ t)) = Inr v \<and> str_strip (k @ '' '') = k"
proof -
  obtain t where s: "s = k @ '' = '' @ t" and t: "written v t" and k: "plain_key k"
    using assms by (auto simp: written_item_def)
  note key = plain_key_facts [OF k]
  have eq: "skips '' = ''" "one_line '' = ''" by (rule skips_plain, simp) (simp add: is_line_end_def)
  show "solid s" "skips s" "one_line s"
    unfolding s using t key eq solid_append [of k t "'' = ''"] skips_append [OF key(3) skips_append [OF eq(1), of t]]
    by (auto simp: written_def)
  have "str_split1 (CHR ''='') s = (k @ '' '', Some ('' '' @ t))"
    using str_split1_append [of "CHR ''=''" "k @ '' ''" "'' '' @ t"] key(5) by (simp add: s)
  moreover have "str_strip ('' '' @ t) = t" "str_strip (k @ '' '') = k"
    using t str_strip_solid [of t "'' ''" "[]"] str_strip_solid [OF key(1), of "[]" "'' ''"] by (simp_all add: written_def)
  ultimately show "\<exists>t. str_split1 (CHR ''='') s = (k @ '' '', Some ('' '' @ t)) \<and> value_of (str_strip ('' '' @ t)) = Inr v \<and> str_strip (k @ '' '') = k"
    using t by (auto simp: written_def)
qed

lemma dict_set_fresh: "k \<notin> fst ` set d \<Longrightarrow> dict_set k v d = d @ [(k, v)]"
  by (induction d) (auto simp: dict_set_def)

lemma dict_update_fresh: "distinct (map fst e) \<Longrightarrow> fst ` set d \<inter> fst ` set e = {} \<Longrightarrow> dict_update d e = d @ e"
proof (induction e arbitrary: d)
  case (Cons x e)
  then show ?case by (cases x) (auto simp: dict_set_fresh)
qed simp

lemma written_dict:
  assumes "list_all2 written_item d ss" "distinct (map fst d)"
  shows "written (VDict d) (''{ '' @ str_join '', '' ss @ '' }'')"
proof -
  let ?s = "''{ '' @ str_join '', '' ss @ '' }''"
  let ?read = "\<lambda>part. case str_split1 (CHR ''='') part of
       (key, Some v) \<Rightarrow> rbind (value_of (str_strip v)) (\<lambda>w. Inr [(str_strip key, w)]) | (key, None) \<Rightarrow> Inr []"
  have ss: "list_all (\<lambda>s. skips s \<and> solid s) ss" "list_all one_line ss" "list_all skips_inside ss"
    using assms(1) written_item_facts by (auto intro!: list_all2_right skips_inside)
  have "rmap ?read ss = Inr (map (\<lambda>x. [x]) d)"
    using assms(1)
  proof (induction rule: list_all2_induct)
    case (Cons x xs s ss)
    then show ?case using written_item_facts(4) [of "fst x" "snd x" s] by (cases x) auto
  qed simp
  moreover have "split_items ?s = ss"
    using split_go_items [OF ss(1), of "'' ''" "'' ''"] inner_text_brackets [of "CHR ''{''" "'' '' @ str_join '', '' ss @ '' ''" "CHR ''}''"]
      skips_blank [of "'' ''"] by (simp add: split_items_def split_go.simps(2))
  moreover have "dict_update [] d = d" using assms(2) by (simp add: dict_update_fresh)
  ultimately have "value_of ?s = Inr (VDict d)"
    by (subst value_of.simps) (simp add: concat_map_singleton)
  moreover have "one_line ?s" using ss(2) by (simp add: one_line_join is_line_end_def)
  moreover have "skips (''{'' @ ('' '' @ str_join '', '' ss @ '' '') @ ''}'')"
    using ss(3) by (intro skips_bracket(2) skips_inside_append skips_inside_join skips_inside skips_blank) simp_all
  ultimately show ?thesis by (simp add: written_def solid_def)
qed

lemma plain_value_written: "plain_value v \<Longrightarrow> \<exists>s. fmt_value fr v = Inr s \<and> written v s"
proof (induction v rule: plain_value.induct)
  case (1 xs)
  then have "\<exists>ss. rmap (fmt_value fr) xs = Inr ss \<and> list_all2 written xs ss"
    by (intro rmap_all2) (auto simp: list_all_iff)
  then show ?case using written_list by fastforce
next
  case (2 d)
  have "\<exists>s. (case x of (k, v) \<Rightarrow> rbind (fmt_value fr v) (\<lambda>s. Inr (fmt_key k @ '' = '' @ s))) = Inr s \<and> written_item x s"
    if x: "x \<in> set d" for x
  proof -
    obtain k v where kv: "x = (k, v)" by (cases x)
    with 2 x obtain t where "fmt_value fr v = Inr t" "written v t" "plain_key k" by (auto simp: list_all_iff) blast
    then show ?thesis using plain_key_facts(4) by (auto simp: kv written_item_def)
  qed
  then obtain ss where "rmap (\<lambda>(k, v). rbind (fmt_value fr v) (\<lambda>s. Inr (fmt_key k @ '' = '' @ s))) d = Inr ss"
    "list_all2 written_item d ss" using rmap_all2 [of d] by blast
  then show ?case using written_dict [of d ss] 2 by auto
qed (use written_str written_int written_bool in auto)

section \<open>Documents\<close>

text \<open>
  A document the commands can write and the fallback parser can read: tables within tables,
  plain values, and no array of tables.
\<close>

fun plain_doc :: "pyval \<Rightarrow> bool" where
  "plain_doc (VDict d) = (distinct (map fst d) \<and> list_all (\<lambda>(k, v). plain_key k \<and> plain_doc v) d)"
| "plain_doc v = (plain_value v \<and> \<not> is_array_of_tables v)"

text \<open>The order of the file: in each table the scalars stand before the tables.\<close>

fun in_file_order :: "pyval \<Rightarrow> pyval" where
  "in_file_order (VDict d) =
     (let e = map (\<lambda>(k, v). (k, in_file_order v)) d in
      VDict (filter (\<lambda>(k, v). \<not> is_table v) e @ filter (\<lambda>(k, v). is_table v) e))"
| "in_file_order v = v"

lemma in_file_order_table [simp]: "is_table (in_file_order v) = is_table v"
  by (cases v) (simp_all add: Let_def)

lemma plain_doc_scalar: "plain_doc v \<Longrightarrow> \<not> is_table v \<Longrightarrow> plain_value v \<and> \<not> is_array_of_tables v \<and> in_file_order v = v"
  by (cases v) auto

lemma scalar_items_plain: "plain_doc (VDict d) \<Longrightarrow> scalar_items d = filter (\<lambda>(k, v). \<not> is_table v) d"
  unfolding scalar_items_def by (rule filter_cong) (use plain_doc_scalar in \<open>fastforce simp: list_all_iff\<close>)+

lemma array_items_plain: "plain_doc (VDict d) \<Longrightarrow> array_table_items d = []"
proof -
  assume d: "plain_doc (VDict d)"
  have "\<not> is_array_of_tables v" if "(k, v) \<in> set d" for k v
    using d that plain_doc_scalar [of v] by (cases v) (fastforce simp: list_all_iff)+
  then show ?thesis by (auto simp: array_table_items_def filter_empty_conv)
qed

lemma in_file_order_parts:
  assumes "plain_doc (VDict d)"
  shows "in_file_order (VDict d) =
    VDict (scalar_items d @ map (\<lambda>(k, t). (k, in_file_order (VDict t))) (table_items d))"
proof -
  have "in_file_order (VDict d) = VDict (filter (\<lambda>(k, v). \<not> is_table v) (map (\<lambda>(k, v). (k, in_file_order v)) d) @
      filter (\<lambda>(k, v). is_table v) (map (\<lambda>(k, v). (k, in_file_order v)) d))"
    by (simp add: Let_def)
  moreover have "filter (\<lambda>(k, v). \<not> is_table v) (map (\<lambda>(k, v). (k, in_file_order v)) d) = scalar_items d"
  proof -
    have "map (\<lambda>(k, v). (k, in_file_order v)) (filter (\<lambda>(k, v). \<not> is_table v) d) = filter (\<lambda>(k, v). \<not> is_table v) d"
      by (rule map_idI) (use assms plain_doc_scalar in \<open>fastforce simp: list_all_iff\<close>)
    then show ?thesis using assms by (simp add: scalar_items_plain filter_map comp_def case_prod_beta')
  qed
  moreover have "filter (\<lambda>(k, v). is_table v) (map (\<lambda>(k, v). (k, in_file_order v)) d) =
      map (\<lambda>(k, t). (k, in_file_order (VDict t))) (table_items d)"
    by (induction d) (auto simp: table_items_def split: prod.splits elim!: is_table.elims(2) simp del: in_file_order.simps)
  ultimately show ?thesis by simp
qed

lemma items_distinct:
  assumes "plain_doc (VDict d)"
  shows "distinct (map fst (scalar_items d))" "distinct (map fst (table_items d))"
    "fst ` set (scalar_items d) \<inter> fst ` set (table_items d) = {}"
proof -
  have d: "distinct (map fst d)" using assms by simp
  have "map fst (table_items d) = map fst (filter (\<lambda>(k, v). is_table v) d)"
    by (simp add: table_items_def comp_def case_prod_beta')
  then show "distinct (map fst (table_items d))" using distinct_map_filter [OF d] by simp
  show "distinct (map fst (scalar_items d))" unfolding scalar_items_def using distinct_map_filter [OF d] by simp
  show "fst ` set (scalar_items d) \<inter> fst ` set (table_items d) = {}"
    using d eq_key_imp_eq_value [OF d] by (force simp: scalar_items_def table_items_def)
qed

section \<open>Tables on a path\<close>

fun at_path :: "string list \<Rightarrow> pyval \<Rightarrow> pyval option" where
  "at_path [] v = Some v"
| "at_path (k # ks) (VDict d) = (case map_of d k of None \<Rightarrow> None | Some w \<Rightarrow> at_path ks w)"
| "at_path (k # ks) _ = None"

fun with_path :: "string list \<Rightarrow> pyval \<Rightarrow> pyval \<Rightarrow> pyval" where
  "with_path [] w v = w"
| "with_path (k # ks) w (VDict d) = VDict (dict_set k (with_path ks w (dict_get_or d k (VDict []))) d)"
| "with_path (k # ks) w v = v"

lemma at_path_with: "at_path p doc = Some v \<Longrightarrow> at_path p (with_path p w doc) = Some w"
  by (induction p doc rule: at_path.induct) (auto simp: dict_simps dict_get_or_def split: option.splits)

lemma with_path_twice: "at_path p doc = Some v \<Longrightarrow> with_path p w (with_path p w' doc) = with_path p w doc"
  by (induction p doc rule: at_path.induct)
    (auto simp: dict_simps dict_get_or_def dict_set_def update_conv' split: option.splits)

lemma with_path_same: "at_path p doc = Some v \<Longrightarrow> with_path p v doc = doc"
  by (induction p doc rule: at_path.induct)
    (auto simp: dict_get_or_def dict_set_def update_triv split: option.splits)

lemma put_in_table_at:
  "at_path p doc = Some (VDict d) \<Longrightarrow> put_in_table p k w doc = Inr (with_path p (VDict (dict_set k w d)) doc)"
  by (induction p doc rule: at_path.induct) (auto simp: dict_get_or_def split: option.splits)

lemma open_table_at:
  "at_path p doc = Some (VDict d) \<Longrightarrow> k \<notin> fst ` set d \<Longrightarrow>
     open_table (p @ [k]) doc = Inr (with_path p (VDict (d @ [(k, VDict [])])) doc)"
proof (induction p doc rule: at_path.induct)
  case (1 v)
  then have "map_of d k = None" by (simp add: map_of_eq_None_iff)
  then show ?case using 1 by (simp add: dict_get_or_def dict_set_fresh)
qed (auto simp: dict_get_or_def split: option.splits)

lemma at_path_below: "at_path p doc = Some (VDict d) \<Longrightarrow> at_path (p @ [k]) doc = map_of d k"
  by (induction p doc rule: at_path.induct) (auto split: option.splits)

lemma with_path_below:
  "at_path p doc = Some (VDict d) \<Longrightarrow> with_path (p @ [k]) w doc = with_path p (VDict (dict_set k w d)) doc"
  by (induction p doc rule: at_path.induct) (auto simp: dict_get_or_def split: option.splits)

section \<open>Lines\<close>

lemma parse_blank_line: "parse_line [] st = Inr st"
  by (cases st) (simp add: parse_line_def str_strip_blank)

lemma str_split_join:
  "ks \<noteq> [] \<Longrightarrow> list_all (\<lambda>k. c \<notin> set k) ks \<Longrightarrow> str_split c (str_join [c] ks) = ks"
  by (induction ks rule: induct_list012) (simp_all add: str_split_no_sep str_split_append)

lemma fmt_path_plain: "list_all plain_key p \<Longrightarrow> fmt_path p = str_join ''.'' p"
proof -
  assume "list_all plain_key p"
  then have "map fmt_key p = p" by (intro map_idI) (auto simp: list_all_iff plain_key_facts)
  then show ?thesis by (simp add: fmt_path_def)
qed

definition header_line :: "string list \<Rightarrow> string" where
  "header_line p = ''['' @ fmt_path p @ '']''"

lemma join_chars: "c \<in> set (str_join sep xs) \<Longrightarrow> c \<in> set sep \<or> (\<exists>x \<in> set xs. c \<in> set x)"
  by (induction xs rule: induct_list012) auto

lemma header_line_facts:
  assumes "list_all plain_key p" "p \<noteq> []"
  shows "solid (header_line p)" "one_line (header_line p)" "match_header (header_line p) = Some (fmt_path p)"
    "map str_strip (str_split (CHR ''.'') (fmt_path p)) = p"
proof -
  note path = fmt_path_plain [OF assms(1)]
  have key: "plain_key k" if "k \<in> set p" for k using assms(1) that by (simp add: list_all_iff)
  show "solid (header_line p)" by (simp add: solid_def header_line_def)
  show "one_line (header_line p)"
    using key by (auto simp: header_line_def path is_line_end_def list_all_iff plain_key_facts intro!: one_line_join)
  have "hd p \<noteq> []" using key [of "hd p"] assms(2) by (simp add: plain_key_def)
  then have "fmt_path p \<noteq> []" using assms(2) unfolding path by (cases p rule: remdups_adj.cases) auto
  moreover have "CHR ''['' \<notin> set (fmt_path p)" "CHR '']'' \<notin> set (fmt_path p)"
    using key plain_key_facts(7,8) unfolding path by (fastforce dest!: join_chars)+
  ultimately show "match_header (header_line p) = Some (fmt_path p)"
    using inner_text_brackets [of "CHR ''[''" "fmt_path p" "CHR '']''"]
    by (auto simp: match_header_def header_line_def list_all_iff Let_def Suc_le_eq)
  have "str_split (CHR ''.'') (fmt_path p) = p"
    using assms(2) key plain_key_facts(6) unfolding path by (intro str_split_join) (auto simp: list_all_iff)
  moreover have "map str_strip p = p" using key plain_key_facts(1) by (intro map_idI str_strip_solid_only) auto
  ultimately show "map str_strip (str_split (CHR ''.'') (fmt_path p)) = p" by simp
qed

lemma parse_header_line:
  assumes "list_all plain_key p" "p \<noteq> []"
  shows "parse_line (header_line p) (q, doc) = rbind (open_table p doc) (\<lambda>doc'. Inr (p, doc'))"
  using header_line_facts [OF assms] by (simp add: parse_line_def str_strip_solid_only) (simp add: header_line_def)

lemma bare_prefix:
  "list_all bare_char k \<Longrightarrow> takeWhile bare_char (k @ CHR '' '' # s) = k"
  "list_all bare_char k \<Longrightarrow> dropWhile bare_char (k @ CHR '' '' # s) = CHR '' '' # s"
  by (induction k) (simp_all add: bare_char_def)

lemma parse_item_line:
  assumes "written_item (k, v) s"
  shows "parse_line s (p, doc) = rbind (put_in_table p k v doc) (\<lambda>doc'. Inr (p, doc'))"
proof -
  obtain t where s: "s = k @ '' = '' @ t" and t: "written v t" and k: "plain_key k"
    using assms by (auto simp: written_item_def)
  have t': "t \<noteq> []" "\<not> is_space (hd t)" "str_strip t = t" "value_of t = Inr v"
    using t by (auto simp: written_def solid_def str_strip_solid_only)
  have "str_lstrip ('' = '' @ t) = ''= '' @ t" "str_lstrip ('' '' @ t) = t"
    using t' str_lstrip_solid [of "'' ''" "''= '' @ t"] str_lstrip_solid [of "'' ''" t] by simp_all
  then have kv: "match_key_value s = Some (k, t)"
    using k t' bare_prefix [of k "''= '' @ t"] by (simp add: match_key_value_def s plain_key_def Let_def)
  have "bare_char (hd k)" "k \<noteq> []" using k by (auto simp: plain_key_def list_all_iff)
  then have hd: "hd s \<noteq> CHR ''[''" "hd s \<noteq> CHR ''#''" "s \<noteq> []" using bare_char_facts(3) [of "hd k"] by (auto simp: s)
  then have "match_header s = None" "\<not> str_prefix ''#'' s" by (auto simp: match_header_def str_prefix_hd Let_def)
  then show ?thesis
    using hd kv t' str_strip_solid_only [OF written_item_facts(1) [OF assms]]
    by (simp add: parse_line_def parse_value_def)
qed

lemma rfold_blank: "rfold parse_line ([] # b) = rfold parse_line b"
  by (rule ext) (simp add: parse_blank_line)

lemma parse_add_block: "rfold parse_line (add_block l b) st = rbind (rfold parse_line l st) (rfold parse_line b)"
  by (simp add: add_block_def rfold_append rfold_blank del: rfold.simps(2))

lemma parse_blocks:
  "rfold parse_line (foldl add_block l bs) st = rbind (rfold parse_line l st) (rfold (rfold parse_line) bs)"
proof (induction bs arbitrary: l)
  case Nil
  show ?case by (cases "rfold parse_line l st") simp_all
next
  case (Cons b bs)
  then show ?case by (simp add: parse_add_block rbind_assoc)
qed

section \<open>Reading back\<close>

lemma parse_items:
  assumes "list_all2 written_item es ss" "at_path p doc = Some (VDict d)" "distinct (map fst es)" "fst ` set d \<inter> fst ` set es = {}"
  shows "rfold parse_line ss (p, doc) = Inr (p, with_path p (VDict (d @ es)) doc)"
  using assms
proof (induction es ss arbitrary: doc d rule: list_all2_induct)
  case Nil
  then show ?case by (simp add: with_path_same)
next
  case (Cons x es s ss)
  obtain k v where x: "x = (k, v)" by (cases x)
  let ?doc = "with_path p (VDict (d @ [(k, v)])) doc"
  have "parse_line s (p, doc) = Inr (p, ?doc)"
    using Cons.prems Cons.hyps x by (auto simp: parse_item_line put_in_table_at dict_set_fresh)
  moreover have "rfold parse_line ss (p, ?doc) = Inr (p, with_path p (VDict ((d @ [(k, v)]) @ es)) ?doc)"
    using Cons.prems x by (intro Cons.IH) (auto intro: at_path_with)
  ultimately show ?case using Cons.prems(1) by (simp add: x with_path_twice)
qed

text \<open>A block that adds one table to the table at \<open>p\<close>, whatever table was current.\<close>

definition reads_table :: "string list \<Rightarrow> string \<times> (string, pyval) dict \<Rightarrow> string list \<Rightarrow> bool" where
  "reads_table p = (\<lambda>(k, t) b. \<forall>q doc d. at_path p doc = Some (VDict d) \<and> k \<notin> fst ` set d \<longrightarrow>
     (\<exists>q'. rfold parse_line b (q, doc) = Inr (q', with_path p (VDict (d @ [(k, in_file_order (VDict t))])) doc)))"

lemma parse_tables:
  assumes "list_all2 (reads_table p) ts bs" "at_path p doc = Some (VDict d)" "distinct (map fst ts)" "fst ` set d \<inter> fst ` set ts = {}"
  shows "\<exists>q'. rfold (rfold parse_line) bs (q, doc) =
     Inr (q', with_path p (VDict (d @ map (\<lambda>(k, t). (k, in_file_order (VDict t))) ts)) doc)"
  using assms
proof (induction ts bs arbitrary: doc d q rule: list_all2_induct)
  case Nil
  then show ?case by (simp add: with_path_same)
next
  case (Cons x ts b bs)
  obtain k t where x: "x = (k, t)" by (cases x)
  let ?e = "d @ [(k, in_file_order (VDict t))]"
  have "k \<notin> fst ` set d" using Cons.prems x by auto
  with Cons.hyps Cons.prems x obtain q' where "rfold parse_line b (q, doc) = Inr (q', with_path p (VDict ?e) doc)"
    unfolding reads_table_def by blast
  moreover have "\<exists>q''. rfold (rfold parse_line) bs (q', with_path p (VDict ?e) doc) =
      Inr (q'', with_path p (VDict (?e @ map (\<lambda>(k, t). (k, in_file_order (VDict t))) ts)) (with_path p (VDict ?e) doc))"
    using Cons.prems x by (intro Cons.IH) (auto intro: at_path_with)
  ultimately show ?case using Cons.prems(1) by (auto simp: x with_path_twice simp del: in_file_order.simps)
qed

text \<open>What \<open>_emit_table_body\<close> makes of a table: lines that build it up from an empty one.\<close>

definition good_lines :: "string list \<Rightarrow> bool" where
  "good_lines ls \<longleftrightarrow> list_all one_line ls \<and> (ls = [] \<or> solid (last ls))"

lemma good_lines_blocks:
  "good_lines l \<Longrightarrow> list_all (\<lambda>b. good_lines b \<and> b \<noteq> []) bs \<Longrightarrow> good_lines (foldl add_block l bs)"
proof (induction bs arbitrary: l)
  case (Cons b bs)
  then have "good_lines (add_block l b)" by (auto simp: good_lines_def add_block_def)
  then show ?case using Cons by simp
qed simp

definition builds :: "string list \<Rightarrow> (string, pyval) dict \<Rightarrow> string list \<Rightarrow> bool" where
  "builds p t ls \<longleftrightarrow> good_lines ls \<and>
     (\<forall>doc. at_path p doc = Some (VDict []) \<longrightarrow>
        (\<exists>q. rfold parse_line ls (p, doc) = Inr (q, with_path p (in_file_order (VDict t)) doc)))"

lemma block_reads_table:
  assumes "builds (p @ [k]) t ls" "list_all plain_key (p @ [k])"
  shows "reads_table p (k, t) (header_line (p @ [k]) # ls)" "good_lines (header_line (p @ [k]) # ls)"
proof -
  have path: "p @ [k] \<noteq> []" by simp
  note header = header_line_facts [OF assms(2) path]
  show "good_lines (header_line (p @ [k]) # ls)"
    using assms(1) header(1,2) by (auto simp: builds_def good_lines_def)
  show "reads_table p (k, t) (header_line (p @ [k]) # ls)"
    unfolding reads_table_def prod.case
  proof (intro allI impI, elim conjE)
    fix q doc d
    assume at: "at_path p doc = Some (VDict d)" and fresh: "k \<notin> fst ` set d"
    let ?doc = "with_path p (VDict (d @ [(k, VDict [])])) doc"
    have at': "at_path p ?doc = Some (VDict (d @ [(k, VDict [])]))" by (rule at_path_with [OF at])
    have "map_of d k = None" using fresh by (simp add: map_of_eq_None_iff)
    then have "at_path (p @ [k]) ?doc = Some (VDict [])" by (simp add: at_path_below [OF at'] map_add_def)
    then obtain q' where q': "rfold parse_line ls (p @ [k], ?doc) = Inr (q', with_path (p @ [k]) (in_file_order (VDict t)) ?doc)"
      using assms(1) unfolding builds_def by blast
    have "dict_set k w (d @ [(k, v)]) = d @ [(k, w)]" for v w
      using fresh by (induction d) (auto simp: dict_set_def)
    then have "with_path (p @ [k]) (in_file_order (VDict t)) ?doc = with_path p (VDict (d @ [(k, in_file_order (VDict t))])) doc"
      by (simp only: with_path_below [OF at'] with_path_twice [OF at])
    then show "\<exists>q'. rfold parse_line (header_line (p @ [k]) # ls) (q, doc) =
        Inr (q', with_path p (VDict (d @ [(k, in_file_order (VDict t))])) doc)"
      using q' by (simp only: rfold.simps parse_header_line [OF assms(2) path] open_table_at [OF at fresh] rbind_simps) blast
  qed
qed

lemma scalar_lines:
  assumes "plain_doc (VDict t)"
  shows "\<exists>ss. rmap (\<lambda>(k, v). rbind (fmt_value fr v) (\<lambda>s. Inr (fmt_key k @ '' = '' @ s))) (scalar_items t) = Inr ss \<and>
    list_all2 written_item (scalar_items t) ss"
proof (rule rmap_all2)
  fix x
  assume mem: "x \<in> set (scalar_items t)"
  obtain k v where x: "x = (k, v)" by (cases x)
  have "(k, v) \<in> set t" "\<not> is_table v" using mem by (auto simp: x scalar_items_def)
  then have "plain_key k" "plain_value v" using assms plain_doc_scalar [of v] by (auto simp: list_all_iff)
  then show "\<exists>s. (case x of (k, v) \<Rightarrow> rbind (fmt_value fr v) (\<lambda>s. Inr (fmt_key k @ '' = '' @ s))) = Inr s \<and> written_item x s"
    using plain_value_written [of v fr] plain_key_facts(4) [of k] by (auto simp: x written_item_def)
qed

lemma table_items_in: "(k, u) \<in> set (table_items t) \<Longrightarrow> (k, VDict u) \<in> set t"
  by (auto simp: table_items_def elim!: is_table.elims(2))

lemma builds_parts:
  assumes t: "plain_doc (VDict t)" and ss: "list_all2 written_item (scalar_items t) ss"
    and bs: "list_all2 (\<lambda>x b. reads_table p x b \<and> good_lines b \<and> b \<noteq> []) (table_items t) bs"
  shows "builds p t (foldl add_block ss bs)"
proof -
  have "list_all (\<lambda>s. one_line s \<and> solid s) ss"
    using ss by (rule list_all2_right) (metis written_item_facts(1,3) surj_pair)
  then have "good_lines ss" using last_in_set [of ss] by (auto simp: good_lines_def list_all_iff simp del: last_in_set)
  moreover have "list_all (\<lambda>b. good_lines b \<and> b \<noteq> []) bs" using bs by (rule list_all2_right) simp
  ultimately have good: "good_lines (foldl add_block ss bs)" by (rule good_lines_blocks)
  have tables: "list_all2 (reads_table p) (table_items t) bs"
    using bs by (rule list_all2_mono) simp
  note dist = items_distinct [OF t]
  show ?thesis
    unfolding builds_def
  proof (intro conjI allI impI good)
    fix doc
    assume at: "at_path p doc = Some (VDict [])"
    let ?doc = "with_path p (VDict (scalar_items t)) doc"
    have items: "rfold parse_line ss (p, doc) = Inr (p, ?doc)"
      using parse_items [OF ss at dist(1)] by simp
    from parse_tables [OF tables at_path_with [OF at] dist(2,3)] obtain q where
      "rfold (rfold parse_line) bs (p, ?doc) =
         Inr (q, with_path p (VDict (scalar_items t @ map (\<lambda>(k, t). (k, in_file_order (VDict t))) (table_items t))) ?doc)" by blast
    then show "\<exists>q. rfold parse_line (foldl add_block ss bs) (p, doc) = Inr (q, with_path p (in_file_order (VDict t)) doc)"
      by (simp only: parse_blocks items rbind_simps in_file_order_parts [OF t] with_path_twice [OF at]) blast
  qed
qed

lemma emit_builds:
  assumes "plain_doc (VDict t)" "list_all plain_key p"
  shows "\<exists>ls. emit_table_body fr t p = Inr ls \<and> builds p t ls"
  using assms
proof (induction t arbitrary: p rule: measure_induct_rule [of dict_size])
  case (less t)
  obtain ss where ss: "rmap (\<lambda>(k, v). rbind (fmt_value fr v) (\<lambda>s. Inr (fmt_key k @ '' = '' @ s))) (scalar_items t) = Inr ss"
    "list_all2 written_item (scalar_items t) ss" using scalar_lines [OF less.prems(1)] by blast
  have "\<exists>bs. rmap (\<lambda>(k, u). rbind (emit_table_body fr u (p @ [k])) (\<lambda>body.
        Inr ((''['' @ fmt_path (p @ [k]) @ '']'') # body))) (table_items t) = Inr bs \<and>
      list_all2 (\<lambda>x b. reads_table p x b \<and> good_lines b \<and> b \<noteq> []) (table_items t) bs"
  proof (rule rmap_all2)
    fix x
    assume mem: "x \<in> set (table_items t)"
    obtain k u where x: "x = (k, u)" by (cases x)
    have "(k, VDict u) \<in> set t" using mem by (simp only: x table_items_in)
    then have "plain_key k \<and> plain_doc (VDict u)"
      using less.prems(1) by (simp only: plain_doc.simps(1) [of t] list_all_iff) blast
    then have "plain_key k" and u: "plain_doc (VDict u)" by blast+
    then have path: "list_all plain_key (p @ [k])" using less.prems(2) by simp
    obtain ls where ls: "emit_table_body fr u (p @ [k]) = Inr ls" "builds (p @ [k]) u ls"
      using less.IH [OF table_item_smaller [OF mem [unfolded x]] u path] by blast
    show "\<exists>b. (case x of (k, u) \<Rightarrow> rbind (emit_table_body fr u (p @ [k])) (\<lambda>body. Inr ((''['' @ fmt_path (p @ [k]) @ '']'') # body))) = Inr b \<and>
      reads_table p x b \<and> good_lines b \<and> b \<noteq> []"
      using block_reads_table [OF ls(2) path] by (simp only: x prod.case ls(1) rbind_simps header_line_def) blast
  qed
  then obtain bs where bs: "rmap (\<lambda>(k, u). rbind (emit_table_body fr u (p @ [k])) (\<lambda>body.
        Inr ((''['' @ fmt_path (p @ [k]) @ '']'') # body))) (table_items t) = Inr bs"
    "list_all2 (\<lambda>x b. reads_table p x b \<and> good_lines b \<and> b \<noteq> []) (table_items t) bs" by blast
  have "emit_table_body fr t p = Inr (foldl add_block ss bs)"
    by (subst emit_table_body.simps)
      (simp only: ss(1) bs(1) array_items_plain [OF less.prems(1)] rbind_simps rmap.simps append_Nil)
  then show ?case using builds_parts [OF less.prems(1) ss(2) bs(2)] by blast
qed

section \<open>The file\<close>

lemma LF_line_end: "is_line_end (CHR 0x0A)" "after_line_end (CHR 0x0A) s = s"
  by (simp_all add: is_line_end_def after_line_end_def)

lemma splitlines_line: "one_line l \<Longrightarrow> str_splitlines cur (l @ CHR 0x0A # s) = (rev cur @ l) # str_splitlines [] s"
  by (induction l arbitrary: cur) (simp_all add: LF_line_end)

lemma splitlines_join:
  "list_all one_line ls \<Longrightarrow> ls \<noteq> [] \<Longrightarrow> str_splitlines [] (str_join [CHR 0x0A] ls @ [CHR 0x0A]) = ls"
proof (induction ls rule: induct_list012)
  case (2 x)
  then show ?case using splitlines_line [of x "[]" "[]"] by simp
next
  case (3 x y zs)
  then show ?case using splitlines_line [of x "[]"] by simp
qed simp

lemma str_join_last: "ls \<noteq> [] \<Longrightarrow> last ls \<noteq> [] \<Longrightarrow> str_join sep ls \<noteq> [] \<and> last (str_join sep ls) = last (last ls)"
  by (induction ls rule: induct_list012) auto

lemma str_rstrip_solid: "s \<noteq> [] \<Longrightarrow> \<not> is_space (last s) \<Longrightarrow> str_rstrip s = s"
proof -
  assume "s \<noteq> []" "\<not> is_space (last s)"
  then have "dropWhile is_space (rev s) = rev s" by (simp add: dropWhile_eq_self_iff hd_rev)
  then show ?thesis by (simp add: str_rstrip_def str_lstrip_def)
qed

lemma toml_text_parses:
  assumes "plain_doc (VDict d)"
  shows "\<exists>text. toml_text fr d = Inr text \<and> parse_toml_fallback text = Inr (table_of (in_file_order (VDict d)))"
proof -
  obtain ls where ls: "emit_table_body fr d [] = Inr ls" "builds [] d ls"
    using emit_builds [OF assms, of "[]" fr] by auto
  then obtain q where parse: "rfold parse_line ls ([], VDict []) = Inr (q, in_file_order (VDict d))"
    by (auto simp: builds_def simp del: in_file_order.simps)
  let ?text = "str_rstrip (str_join [CHR 0x0A] ls) @ [CHR 0x0A]"
  have "rfold parse_line (str_splitlines [] ?text) ([], VDict []) = Inr (q, in_file_order (VDict d))"
  proof (cases "ls = []")
    case True
    then have "str_splitlines [] ?text = [[]]" by (simp add: str_rstrip_def str_lstrip_def LF_line_end)
    then show ?thesis using parse by (simp add: True parse_blank_line)
  next
    case False
    then have "solid (last ls)" "list_all one_line ls" using ls(2) by (auto simp: builds_def good_lines_def)
    then have "str_rstrip (str_join [CHR 0x0A] ls) = str_join [CHR 0x0A] ls"
      using str_join_last [OF False] by (intro str_rstrip_solid) (auto simp: solid_def)
    then show ?thesis using splitlines_join [OF \<open>list_all one_line ls\<close> False] parse by simp
  qed
  then show ?thesis using ls(1) by (simp add: toml_text_def parse_toml_fallback_def del: in_file_order.simps)
qed

lemma map_of_parts: "distinct (map fst e) \<Longrightarrow> map_of (filter (\<lambda>(k, v). \<not> P v) e @ filter (\<lambda>(k, v). P v) e) = map_of e"
proof (induction e)
  case (Cons x e)
  obtain k v where x: "x = (k, v)" by (cases x)
  have k: "k \<notin> dom (map_of (filter (\<lambda>(k, v). \<not> P v) e))"
  proof -
    have "dom (map_of (filter (\<lambda>(k, v). \<not> P v) e)) \<subseteq> fst ` set e"
      unfolding dom_map_of_conv_image_fst by (rule image_mono) auto
    then show ?thesis using Cons.prems by (auto simp: x)
  qed
  then show ?case using Cons map_add_upd_left [OF k] by (auto simp: x)
qed simp

lemma map_of_file_order:
  assumes "distinct (map fst d)"
  shows "map_of (table_of (in_file_order (VDict d))) k = map_option in_file_order (map_of d k)"
proof -
  have "distinct (map fst (map (\<lambda>(k, v). (k, in_file_order v)) d))" using assms by (simp add: comp_def case_prod_beta')
  from map_of_parts [OF this] show ?thesis by (simp add: Let_def map_of_map)
qed

text \<open>
  C34 (\<open>admin_cli.py\<close>, \<open>_write_toml\<close> and \<open>_parse_toml_fallback\<close>): a document of tables and plain values that
  the commands write is read back by their own parser: each key of each table has its value again, and
  only the order of a table may differ, in which scalars now precede tables.
\<close>

theorem toml_write_read_back:
  assumes "plain_doc (VDict d)"
  shows "\<exists>text d'. toml_text fr d = Inr text \<and> parse_toml_fallback text = Inr d' \<and>
     (\<forall>k. map_of d' k = map_option in_file_order (map_of d k))"
proof -
  have "distinct (map fst d)" using assms by simp
  from map_of_file_order [OF this] toml_text_parses [OF assms, of fr] show ?thesis by blast
qed

theorem toml_write_read_back_witness:
  "plain_doc (VDict [(''permanent_ports'', VDict [(''tcp'', VList [VInt 22, VInt 80])]), (''x'', VStr ''a,b'')]) \<and>
   (\<exists>text d'. toml_text (\<lambda>_. []) [(''permanent_ports'', VDict [(''tcp'', VList [VInt 22, VInt 80])]), (''x'', VStr ''a,b'')] = Inr text \<and>
      parse_toml_fallback text = Inr d' \<and> map_of d' ''permanent_ports'' = Some (VDict [(''tcp'', VList [VInt 22, VInt 80])]))"
proof -
  have plain: "plain_doc (VDict [(''permanent_ports'', VDict [(''tcp'', VList [VInt 22, VInt 80])]), (''x'', VStr ''a,b'')])"
    by (simp add: plain_key_def bare_char_def)
  from toml_write_read_back [OF plain, of "\<lambda>_. []"] plain show ?thesis by fastforce
qed

section \<open>What the fallback parser does not read\<close>

lemma str_strip_hd: "\<not> is_space c \<Longrightarrow> \<exists>t. str_strip (c # s) = c # t"
proof -
  assume c: "\<not> is_space c"
  have "\<exists>t. dropWhile is_space (xs @ [c]) = t @ [c]" for xs using c by (induction xs) auto
  then show ?thesis using c by (auto simp: str_strip_def str_lstrip_def) (metis rev_eq_Cons_iff rev_rev_ident rev.simps(2))
qed

text \<open>A line that the writer makes of a key with quotes, say a network, is skipped as if it were not there.\<close>

lemma quoted_key_lost: "\<not> is_bare_key k \<Longrightarrow> parse_line (fmt_key k @ '' = '' @ s) st = Inr st"
proof -
  assume "\<not> is_bare_key k"
  then obtain r where r: "fmt_key k @ '' = '' @ s = CHR 0x22 # r" by (simp add: fmt_key_def json_str_def)
  obtain t where t: "str_strip (CHR 0x22 # r) = CHR 0x22 # t" using str_strip_hd [of "CHR 0x22" r] by auto
  have "match_header (CHR 0x22 # t) = None" "match_key_value (CHR 0x22 # t) = None"
    by (simp_all add: match_header_def match_key_value_def bare_char_def)
  then have "parse_line (CHR 0x22 # r) st = Inr st" by (cases st) (simp add: t parse_line_def Let_def)
  then show ?thesis by (simp only: r)
qed

text \<open>So is the head of an array of tables; its keys go to the table before it.\<close>

lemma array_header_lost: "parse_line (''[['' @ s @ '']]'') st = Inr st"
proof -
  have "solid (''[['' @ s @ '']]'')" by (simp add: solid_def)
  then have "str_strip (''[['' @ s @ '']]'') = ''[['' @ s @ '']]''" by (rule str_strip_solid_only)
  moreover have "match_header (''[['' @ s @ '']]'') = None" "match_key_value (''[['' @ s @ '']]'') = None"
    by (simp_all add: match_header_def match_key_value_def inner_text_def bare_char_def butlast_append Let_def)
  ultimately show ?thesis by (cases st) (simp add: parse_line_def Let_def)
qed

text \<open>A comment after a value becomes part of it; the first line stands in the configuration that is installed.\<close>

lemma comment_becomes_value:
  "parse_value ''[]   # e.g. [80, 443]'' = Inr (VList [VStr '']   # e.g. [80'', VInt 443])"
  "parse_value ''2    # RDP'' = Inr (VStr ''2    # RDP'')"
  by code_simp+

end
