(* ===== verification/AdminFile.thy ===== *)
theory AdminFile
  imports AdminReload TomlRound
begin

text \<open>
  The administrator's commands on the file itself: what a command that fails leaves behind, and two
  commands in a row that meet through the text of the file.
\<close>

section \<open>The contract of the file\<close>

text \<open>
  \<open>files\<close> are the files of the directory by their paths, and \<open>content\<close> is the text of the configuration file, if there
  is one. Reading and making the directory change no file. The temporary file is another one than the configuration
  file. A write concerns the named file only: when it returns, the file has the text, and when it raises the file may have anything.
  \<open>rename(2)\<close> puts the file in the place of the other or changes nothing.
\<close>

locale config_store =
  fixes F :: "'k config_io" and content :: "'k \<Rightarrow> string option" and files :: "'k \<Rightarrow> string \<Rightarrow> string option"
  assumes content_at: "content k = files k (io_path F)"
    and exists_iff: "io_exists F k \<longleftrightarrow> content k \<noteq> None"
    and read_keeps: "io_read F k = (r, k') \<Longrightarrow> files k' = files k"
    and read_content: "io_read F k = (Inr text, k') \<Longrightarrow> content k = Some text"
    and mkdir_keeps: "io_mkdir F k = (u, k') \<Longrightarrow> files k' = files k"
    and mktemp_fails: "io_mktemp F k = (Inl e, k') \<Longrightarrow> files k' = files k"
    and mktemp_other: "io_mktemp F k = (Inr tmp, k') \<Longrightarrow> tmp \<noteq> io_path F \<and> (\<forall>p. p \<noteq> tmp \<longrightarrow> files k' p = files k p)"
    and write_only: "io_write F p text k = (u, k') \<Longrightarrow> q \<noteq> p \<Longrightarrow> files k' q = files k q"
    and write_text: "io_write F p text k = (Inr v, k') \<Longrightarrow> files k' p = Some text"
    and replace_fails: "io_replace F p k = (Inl e, k') \<Longrightarrow> files k' = files k"
    and replace_moves: "io_replace F p k = (Inr v, k') \<Longrightarrow> files k' = (files k)(io_path F := files k p, p := None)"

context config_store
begin

text \<open>The steps of writing the file anew. Until the last of them the configuration file is not touched.\<close>

lemma fill_keeps:
  assumes "p \<noteq> io_path F" "mseq (io_write F p t) (io_replace F p) k = (r, k')"
  shows "case r of Inl e \<Rightarrow> content k' = content k | Inr u \<Rightarrow> content k' = Some t"
proof -
  obtain r1 k1 where w: "io_write F p t k = (r1, k1)" by (cases "io_write F p t k")
  have same: "content k1 = content k" using write_only [OF w, of "io_path F"] assms(1) by (simp add: content_at)
  show ?thesis
  proof (cases r1)
    case Inl
    then show ?thesis using assms(2) w same by (auto simp: mseq_def mbind_def)
  next
    case (Inr u)
    then have repl: "io_replace F p k1 = (r, k')" using assms(2) w by (simp add: mseq_def mbind_def)
    show ?thesis
    proof (cases r)
      case (Inl e)
      with replace_fails [of p k1 e k'] repl same show ?thesis by (simp add: content_at)
    next
      case (Inr v)
      with replace_moves [of p k1 v k'] repl write_text [of p t k u k1] w \<open>r1 = Inr u\<close> assms(1) show ?thesis
        by (simp add: content_at)
    qed
  qed
qed

lemma replace_result:
  assumes "mseq (io_mkdir F) (mbind (io_mktemp F) (\<lambda>p. mseq (io_write F p t) (io_replace F p))) k = (r, k')"
  shows "case r of Inl e \<Rightarrow> content k' = content k | Inr u \<Rightarrow> content k' = Some t"
proof -
  obtain r1 k1 where mk: "io_mkdir F k = (r1, k1)" by (cases "io_mkdir F k")
  obtain r2 k2 where tmp: "io_mktemp F k1 = (r2, k2)" by (cases "io_mktemp F k1")
  have k1: "content k1 = content k" using mkdir_keeps [OF mk] by (simp add: content_at)
  show ?thesis
  proof (cases r1)
    case Inl
    then show ?thesis using assms mk k1 by (auto simp: mseq_def mbind_def)
  next
    case (Inr u)
    show ?thesis
    proof (cases r2)
      case (Inl e)
      with mktemp_fails [of k1 e k2] tmp k1 assms mk \<open>r1 = Inr u\<close> show ?thesis by (auto simp: mseq_def mbind_def content_at)
    next
      case (Inr p)
      then have p: "p \<noteq> io_path F" "content k2 = content k" using mktemp_other [of k1 p k2] tmp k1 by (auto simp: content_at)
      have "mseq (io_write F p t) (io_replace F p) k2 = (r, k')"
        using assms mk tmp \<open>r1 = Inr u\<close> Inr by (simp add: mseq_def mbind_def)
      from fill_keeps [OF p(1) this] p(2) show ?thesis by (cases r) simp_all
    qed
  qed
qed

lemma load_keeps: "load_toml tomllib F k = (r, k') \<Longrightarrow> content k' = content k"
  using read_keeps by (auto simp: content_at load_toml_def mbind_def mlift_apply split: if_splits prod.splits sum.splits)

lemma load_document:
  "load_toml tomllib F k = (Inr data, k') \<Longrightarrow>
     (case content k of None \<Rightarrow> data = []
      | Some text \<Rightarrow> (case tomllib of Some load \<Rightarrow> load text | None \<Rightarrow> parse_toml_fallback text) = Inr data)"
  using read_content exists_iff [of k]
  by (auto simp: load_toml_def mbind_Inr_iff split: if_splits option.splits)

lemma write_result:
  "write_toml fr F data k = (r, k') \<Longrightarrow>
     (case r of Inl e \<Rightarrow> content k' = content k | Inr u \<Rightarrow> \<exists>text. toml_text fr data = Inr text \<and> content k' = Some text)"
  using replace_result [of _ k r k'] by (cases "toml_text fr data"; cases r) (auto simp: write_toml_def raise_apply)

text \<open>The file after a command: as it was, or, if the command reports success, the edited document.\<close>

definition written_or_same :: "'k \<Rightarrow> outcome res \<Rightarrow> 'k \<Rightarrow> bool" where
  "written_or_same k r k' \<longleftrightarrow> content k' = content k \<or> (\<exists>out. r = Inr (0, out))"

lemma show_document_file: "show_document A lines k = (r, k') \<Longrightarrow> ae_file A = F \<Longrightarrow> content k' = content k"
  using load_keeps
  by (auto simp: show_document_def mbind_def mlift_apply ret_apply split: prod.splits sum.splits)

lemma edit_document_file: "edit_document A edit k = (r, k') \<Longrightarrow> ae_file A = F \<Longrightarrow> written_or_same k r k'"
proof -
  assume run: "edit_document A edit k = (r, k')" and F: "ae_file A = F"
  obtain r1 k1 where load: "load_toml (ae_tomllib A) F k = (r1, k1)" by (cases "load_toml (ae_tomllib A) F k")
  note k1 = load_keeps [OF load]
  show ?thesis
  proof (cases "r1")
    case (Inr data)
    show ?thesis
    proof (cases "edit data")
      case (Inr x)
      obtain data' out where x: "x = (data', out)" by (cases x)
      obtain r2 k2 where wr: "write_toml (ae_float_repr A) F data' k1 = (r2, k2)" by (cases "write_toml (ae_float_repr A) F data' k1")
      from run load \<open>r1 = Inr data\<close> Inr x wr F k1 write_result [OF wr] show ?thesis
        by (cases r2) (auto simp: edit_document_def written_or_same_def mbind_def mseq_def mlift_apply ret_apply)
    qed (use run load \<open>r1 = Inr data\<close> F k1 in \<open>auto simp: edit_document_def written_or_same_def mbind_def mlift_apply raise_apply\<close>)
  qed (use run load F k1 in \<open>auto simp: edit_document_def written_or_same_def mbind_def\<close>)
qed

lemma invalid_choice_file:
  "mbind (load_toml tomllib F) (\<lambda>_. ret (st, out)) k = (r, k') \<Longrightarrow> content k' = content k"
  using load_keeps by (auto simp: mbind_def ret_apply split: prod.splits sum.splits)

lemma config_show_file: "cmd_config_show A k = (r, k') \<Longrightarrow> ae_file A = F \<Longrightarrow> content k' = content k"
  using read_keeps by (auto simp: content_at cmd_config_show_def mbind_def ret_apply split: if_splits prod.splits sum.splits)

lemma same_file: "content k' = content k \<Longrightarrow> written_or_same k r k'"
  by (simp add: written_or_same_def)

lemma run_command_file: "run_command A cmd k = (r, k') \<Longrightarrow> ae_file A = F \<Longrightarrow> written_or_same k r k'"
proof (cases cmd)
  case (LogLevel arg)
  then show "run_command A cmd k = (r, k') \<Longrightarrow> ae_file A = F \<Longrightarrow> written_or_same k r k'"
    using show_document_file edit_document_file invalid_choice_file
    by (fastforce simp: cmd_log_level_def Let_def written_or_same_def split: if_splits)
next
  case (UnderAttack arg)
  then show "run_command A cmd k = (r, k') \<Longrightarrow> ae_file A = F \<Longrightarrow> written_or_same k r k'"
    using show_document_file edit_document_file invalid_choice_file
    by (fastforce simp: cmd_under_attack_def Let_def written_or_same_def split: if_splits)
qed (auto simp: cmd_trust_add_def cmd_trust_del_def cmd_acl_add_def cmd_acl_del_def cmd_permanent_add_def cmd_permanent_del_def
    cmd_exclude_port_add_def cmd_exclude_port_del_def cmd_exclude_src_add_def cmd_exclude_src_del_def
    intro: edit_document_file same_file [OF show_document_file] same_file [OF config_show_file])

lemma main_keeps_on_failure:
  assumes "admin_main A cmd k = (r, k')" "ae_file A = F" "\<And>out. r \<noteq> Inr (0, out)"
  shows "content k' = content k"
proof -
  obtain r1 k1 where run: "run_command A cmd k = (r1, k1)" by (cases "run_command A cmd k")
  note same = run_command_file [OF run assms(2)]
  show ?thesis
  proof (cases r1)
    case (Inl e)
    with assms(1) run have "k' = k1" by (cases "main_status e") (auto simp: admin_main_def mtry_def ret_apply)
    with same Inl show ?thesis by (simp add: written_or_same_def)
  next
    case (Inr x)
    with assms(1,3) run same show ?thesis by (auto simp: admin_main_def mtry_def written_or_same_def)
  qed
qed

lemma edit_document_written:
  assumes "edit_document A edit k = (Inr (0, out), k')" "ae_file A = F"
  shows "\<exists>data data' text k1. load_toml (ae_tomllib A) F k = (Inr data, k1) \<and> edit data = Inr (data', out) \<and>
    toml_text (ae_float_repr A) data' = Inr text \<and> content k' = Some text"
  using assms write_result
  by (fastforce simp: edit_document_def mbind_Inr_iff mseq_Inr_iff)

end

text \<open>
  Files on a disk; the plan says which of the next operations fail, and with which number. A write that fails has
  already emptied its file.
\<close>

type_synonym disk = "(string \<Rightarrow> string option) \<times> int option list"

definition disk_op :: "((string \<Rightarrow> string option) \<Rightarrow> 'a \<times> (string \<Rightarrow> string option)) \<Rightarrow> (disk, 'a) pym" where
  "disk_op f = (\<lambda>(fs, plan). case plan of
      Some n # rest \<Rightarrow> (Inl (OSError n), (fs, rest))
    | _ \<Rightarrow> (case f fs of (x, fs') \<Rightarrow> (Inr x, (fs', tl plan))))"

definition disk_path :: string where "disk_path = ''config.toml''"

definition disk_io :: "disk config_io" where
  "disk_io = \<lparr>io_path = disk_path, io_exists = (\<lambda>k. fst k disk_path \<noteq> None),
     io_read = (\<lambda>k. case fst k disk_path of None \<Rightarrow> (Inl (OSError ENOENT), k) | Some text \<Rightarrow> disk_op (\<lambda>fs. (text, fs)) k),
     io_mkdir = disk_op (\<lambda>fs. ((), fs)), io_mktemp = disk_op (\<lambda>fs. (''tmp'', fs(''tmp'' := Some []))),
     io_write = (\<lambda>p text. \<lambda>(fs, plan). case plan of
        Some n # rest \<Rightarrow> (Inl (OSError n), (fs(p := Some []), rest))
      | _ \<Rightarrow> (Inr (), (fs(p := Some text), tl plan))),
     io_replace = (\<lambda>p. disk_op (\<lambda>fs. ((), fs(disk_path := fs p, p := None))))\<rparr>"

definition one_file :: "string option \<Rightarrow> int option list \<Rightarrow> disk" where
  "one_file content plan = (\<lambda>p. if p = disk_path then content else None, plan)"

interpretation disk: config_store disk_io "\<lambda>k. fst k disk_path" fst
  by unfold_locales
    (auto simp: disk_io_def disk_op_def disk_path_def split: option.splits list.splits prod.splits)

section \<open>Failing commands\<close>

text \<open>
  C35 (\<open>admin_cli.py\<close>, \<open>main\<close> and the commands on the configuration): a command that does not report
  success, whether it exits with an error status or with an exception that nobody catches, leaves the configuration file as
  it was: whether it failed in reading, on an argument, in the document, or in one of the steps of
  writing, which are making the directory, opening the temporary file, writing to it and renaming it. What a command
  prints comes after the last of these, and printing is taken not to fail.
\<close>

theorem failed_command_keeps_file:
  assumes "config_store F content files" and "ae_file A = F"
    and "admin_main A cmd k = (r, k')" and "\<And>out. r \<noteq> Inr (0, out)"
  shows "content k' = content k"
  using config_store.main_keeps_on_failure [OF assms(1) assms(3) assms(2) assms(4)] .

definition disk_admin :: "disk admin_env" where
  "disk_admin = \<lparr>ae_tomllib = None, ae_file = disk_io, ae_rep = (\<lambda>_. []), ae_float_repr = (\<lambda>_. []),
     ae_builtin_slot = (\<lambda>_. None), ae_config_path = ''config.toml''\<rparr>"

text \<open>A write on a full disk, after reading, making the directory and opening the temporary file went well.\<close>

theorem failed_command_keeps_file_witness:
  "\<exists>k'. admin_main disk_admin (LogLevel (Some ''debug'')) (one_file (Some []) [None, None, None, Some 28]) = (Inl (OSError 28), k') \<and>
     fst k' disk_path = Some [] \<and> fst k' ''tmp'' = Some []"
proof -
  have edit: "edit_log_level ''debug'' [] = Inr [(''daemon'', VDict [(''log_level'', VStr ''debug'')])]"
    by code_simp
  have "\<exists>t. toml_text (\<lambda>_. []) [(''daemon'', VDict [(''log_level'', VStr ''debug'')])] = Inr t"
    using toml_text_parses [of "[(''daemon'', VDict [(''log_level'', VStr ''debug'')])]"] by (force simp: plain_key_def bare_char_def)
  then obtain t where t: "toml_text (\<lambda>_. []) [(''daemon'', VDict [(''log_level'', VStr ''debug'')])] = Inr t" by blast
  have level: "str_lower ''debug'' = ''debug''" by code_simp
  have cmd: "run_command disk_admin (LogLevel (Some ''debug'')) =
      edit_document disk_admin (\<lambda>data. saying [Out (''daemon.log_level='' @ ''debug'')] (edit_log_level ''debug'' data))"
    unfolding run_command.simps cmd_log_level_def given_def option.sel level Let_def by simp
  have "\<exists>k'. admin_main disk_admin (LogLevel (Some ''debug'')) (one_file (Some []) [None, None, None, Some 28]) = (Inl (OSError 28), k') \<and>
      fst k' ''tmp'' = Some []"
    unfolding admin_main_def cmd
    by (simp add: mtry_def edit_document_def load_toml_def disk_admin_def disk_io_def disk_op_def
        one_file_def disk_path_def mbind_def mseq_def mlift_apply ret_apply parse_toml_fallback_def saying_def edit t write_toml_def EPERM_def EACCES_def)
  then obtain k' where run: "admin_main disk_admin (LogLevel (Some ''debug'')) (one_file (Some []) [None, None, None, Some 28]) = (Inl (OSError 28), k')"
    "fst k' ''tmp'' = Some []" by blast
  from failed_command_keeps_file [OF disk.config_store_axioms _ run(1)] run show ?thesis by (simp add: disk_admin_def one_file_def)
qed

end
