(* ===== verification/HandlerCmds.thy ===== *)
theory HandlerCmds
  imports HandlerSwap BpfAddrMaps AdminConfig
begin

text \<open>
  The commands of \<open>auto_xdp/admin_cli.py\<close> that compile, load, list and unload packet handlers, and the
  flow tables they flush. Paths are strings; a directory is not the root. The texts of
  exceptions, which some branches print, are not modelled.
\<close>

section \<open>The environment\<close>

text \<open>
  Besides the systems of the other theories: \<open>is_file\<close>, \<open>is_dir\<close>, the names in a directory,
  \<open>read_text\<close>, \<open>mkdir(parents=True, exist_ok=True)\<close>, \<open>tempfile.mkdtemp\<close> with a directory and a prefix,
  \<open>resolve\<close>, \<open>os.uname\<close>, the template that is written as the first configuration file, two results of
  \<open>secrets.token_hex\<close>, and the directories of the command line.
\<close>

record 'k handler_env =
  he_os :: "'k handler_os"
  he_kernel :: "'k kernel"
  he_fuel :: nat
  he_admin :: "'k admin_env"
  he_is_file :: "string \<Rightarrow> 'k \<Rightarrow> bool"
  he_is_dir :: "string \<Rightarrow> 'k \<Rightarrow> bool"
  he_iterdir :: "string \<Rightarrow> 'k \<Rightarrow> string list"
  he_read_text :: "string \<Rightarrow> 'k \<Rightarrow> string option"
  he_mkdir :: "string \<Rightarrow> ('k, unit) pym"
  he_mkdtemp :: "string \<Rightarrow> string \<Rightarrow> ('k, string) pym"
  he_resolve :: "string \<Rightarrow> ('k, string) pym"
  he_template :: string
  he_machine :: string
  he_release :: string
  he_candidate_token :: string
  he_backup_token :: string
  he_slots :: "(string, int \<times> string) dict"
  he_pin_dir :: string
  he_install_dir :: string
  he_handlers_dir :: string

definition path_join :: "string \<Rightarrow> string \<Rightarrow> string" where
  "path_join p name = p @ ''/'' @ name"

definition path_name :: "string \<Rightarrow> string" where
  "path_name p = rev (takeWhile (\<lambda>c. c \<noteq> CHR ''/'') (rev p))"

definition path_parent :: "string \<Rightarrow> string" where
  "path_parent p =
     (let up = rev (tl (dropWhile (\<lambda>c. c \<noteq> CHR ''/'') (rev p))) in
      if CHR ''/'' \<notin> set p then ''.'' else if up = [] then ''/'' else up)"

text \<open>\<open>Path.suffix\<close> and \<open>Path.stem\<close>: a dot at the beginning or the end of the name does not count.\<close>

definition name_parts :: "string \<Rightarrow> string \<times> string" where
  "name_parts name =
     (let ext = takeWhile (\<lambda>c. c \<noteq> CHR ''.'') (rev name); base = drop (length ext) (rev name) in
      if ext \<noteq> [] \<and> 2 \<le> length base then (rev (tl base), CHR ''.'' # rev ext) else (name, []))"

definition path_suffix :: "string \<Rightarrow> string" where
  "path_suffix p = snd (name_parts (path_name p))"

definition path_stem :: "string \<Rightarrow> string" where
  "path_stem p = fst (name_parts (path_name p))"

definition builtin_handlers_dir :: "'k handler_env \<Rightarrow> string" where
  "builtin_handlers_dir H = path_join (he_install_dir H) ''handlers''"

definition handlers_dir :: "'k handler_env \<Rightarrow> string" where
  "handlers_dir H = (if he_handlers_dir H \<noteq> [] then he_handlers_dir H else path_join (he_install_dir H) ''handlers'')"

definition port_handler_map_path :: "string \<Rightarrow> string \<Rightarrow> string" where
  "port_handler_map_path pin_dir proto =
     path_join pin_dir (if proto = ''tcp'' then ''tcp_port_handlers'' else ''udp_port_handlers'')"

definition port_handler_dir :: "string \<Rightarrow> string \<Rightarrow> int \<Rightarrow> string" where
  "port_handler_dir pin_dir proto port =
     path_join (path_join (path_join pin_dir ''port_handlers'') proto) (str_of_int port)"

text \<open>\<open>except RuntimeError\<close>\<close>

fun on_runtime :: "('s, 'a) pym \<Rightarrow> py_exn \<Rightarrow> ('s, 'a) pym option" where
  "on_runtime h RuntimeErr = Some h"
| "on_runtime h _ = None"

definition str_suffix :: "string \<Rightarrow> string \<Rightarrow> bool" where
  "str_suffix suffix s \<longleftrightarrow> str_prefix (rev suffix) (rev s)"

definition str_isdigit :: "string \<Rightarrow> bool" where
  "str_isdigit s \<longleftrightarrow> s \<noteq> [] \<and> list_all is_digit s"

section \<open>Built-in handlers\<close>

definition IPPROTO_BY_NAME :: "(string, int) dict" where
  "IPPROTO_BY_NAME = [(''gre'', 47), (''esp'', 50), (''sctp'', 132)]"

text \<open>\<open>removesuffix\<close>\<close>

definition remove_suffix :: "string \<Rightarrow> string \<Rightarrow> string" where
  "remove_suffix suffix s = (if str_suffix suffix s then take (length s - length suffix) s else s)"

definition slot_handler_name :: "string \<Rightarrow> string" where
  "slot_handler_name name = remove_suffix ''_handler.c'' name"

definition slot_info_of :: "string \<times> string \<Rightarrow> (string \<times> int \<times> string) option" where
  "slot_info_of = (\<lambda>(file_name, text).
     if \<not> str_contains (''SEC('' @ [CHR 0x22] @ ''xdp/'') text \<or> str_contains ''tcp_ct4'' text \<or> str_contains ''udp_ct4'' text
     then None
     else let name = slot_handler_name file_name in
          map_option (\<lambda>proto. (name, proto, name @ ''_handler.o'')) (dict_get IPPROTO_BY_NAME name))"

text \<open>\<open>sources\<close> are the handler sources in the order of their names, if the directory exists.\<close>

definition discover_builtin_slot_info :: "(string \<times> string) list option \<Rightarrow> (string, int \<times> string) dict" where
  "discover_builtin_slot_info sources =
     (case sources of
        None \<Rightarrow> map (\<lambda>(name, proto). (name, proto, name @ ''_handler.o'')) IPPROTO_BY_NAME
      | Some files \<Rightarrow> dict_update [] (List.map_filter slot_info_of files))"

definition builtin_slot_artifacts :: "(string, int \<times> string) dict \<Rightarrow> string list" where
  "builtin_slot_artifacts slots = concat (map (\<lambda>(name, _, obj_name). [name @ ''_handler.c'', obj_name]) slots)"

section \<open>Flow tables\<close>

definition lookup_value :: "'k kernel \<Rightarrow> int \<Rightarrow> bytes \<Rightarrow> ('k, int) pym" where
  "lookup_value K fd key = mbind (bpf (sys_lookup K fd key 0)) (\<lambda>v. mlift (unpack_le 4 v 0))"

definition key_port :: "bytes \<Rightarrow> int res" where
  "key_port key = unpack_be 2 key 2"

text \<open>The loop of \<open>delete_for_port\<close> and \<open>delete_key_port\<close>; \<open>port_of\<close> is where they find the port of a flow.\<close>

fun delete_flows :: "'k kernel \<Rightarrow> int \<Rightarrow> (bytes \<Rightarrow> ('k, int) pym) \<Rightarrow> int \<Rightarrow> bytes list \<Rightarrow> nat \<Rightarrow> ('k, nat) pym" where
  "delete_flows K fd port_of dest_port [] deleted = ret deleted"
| "delete_flows K fd port_of dest_port (key # keys) deleted =
     mbind (mtry (mbind (port_of key) (\<lambda>port.
                    if port \<noteq> dest_port then ret deleted
                    else mseq (bpf (sys_delete K fd key)) (ret (Suc deleted))))
             (on_oserror (\<lambda>n. if n = ENOENT then ret deleted else raise_exn (OSError n))))
       (delete_flows K fd port_of dest_port keys)"

definition delete_for_port :: "nat \<Rightarrow> 'k kernel \<Rightarrow> int \<Rightarrow> int \<Rightarrow> ('k, nat) pym" where
  "delete_for_port fuel K fd dest_port =
     mbind (collect_keys fuel K fd) (\<lambda>keys. delete_flows K fd (lookup_value K fd) dest_port keys 0)"

definition delete_key_port :: "nat \<Rightarrow> 'k kernel \<Rightarrow> int \<Rightarrow> int \<Rightarrow> ('k, nat) pym" where
  "delete_key_port fuel K fd dest_port =
     mbind (collect_keys fuel K fd) (\<lambda>keys. delete_flows K fd (\<lambda>key. mlift (key_port key)) dest_port keys 0)"

text \<open>\<open>with _BpfPendingConntrackMap(path, key_len) as m: body\<close>\<close>

definition with_pending_map :: "'k kernel \<Rightarrow> string \<Rightarrow> (int \<Rightarrow> ('k, 'a) pym) \<Rightarrow> ('k, 'a) pym" where
  "with_pending_map K path body =
     mbind (obj_get K path) (\<lambda>fd. mfinally (body fd) (\<lambda>k. if 0 \<le> fd then sys_close K fd k else k))"

fun flush_maps :: "'k handler_env \<Rightarrow> (int \<Rightarrow> ('k, nat) pym) \<Rightarrow> string list \<Rightarrow> nat \<Rightarrow> ('k, nat) pym" where
  "flush_maps H flush [] deleted = ret deleted"
| "flush_maps H flush (name # names) deleted =
     mbind (gets (ho_exists (he_os H) (path_join (he_pin_dir H) name))) (\<lambda>there.
     if \<not> there then flush_maps H flush names deleted
     else mbind (with_pending_map (he_kernel H) (path_join (he_pin_dir H) name) flush) (\<lambda>n.
          flush_maps H flush names (deleted + n)))"

definition flush_tcp_pending_for_port :: "'k handler_env \<Rightarrow> int \<Rightarrow> ('k, nat) pym" where
  "flush_tcp_pending_for_port H port =
     flush_maps H (\<lambda>fd. delete_for_port (he_fuel H) (he_kernel H) fd port) [''tcp_pd4'', ''tcp_pd6''] 0"

definition flush_udp_validated_for_port :: "'k handler_env \<Rightarrow> int \<Rightarrow> ('k, nat) pym" where
  "flush_udp_validated_for_port H port =
     flush_maps H (\<lambda>fd. delete_key_port (he_fuel H) (he_kernel H) fd port) [''udp_hv4'', ''udp_hv6''] 0"

definition flush_port :: "'k handler_env \<Rightarrow> string \<Rightarrow> int \<Rightarrow> ('k, unit) pym" where
  "flush_port H proto port =
     mseq (if proto = ''tcp'' then flush_tcp_pending_for_port H port else flush_udp_validated_for_port H port) (ret ())"

section \<open>Compiling\<close>

definition resolve_target_arch :: "string \<Rightarrow> string \<times> string" where
  "resolve_target_arch machine =
     (if machine = ''x86_64'' then (''x86'', ''-D__x86_64__'')
      else if machine \<in> {''aarch64'', ''arm64''} then (''arm64'', ''-D__aarch64__'')
      else if str_prefix ''armv7'' machine \<or> str_prefix ''armv6'' machine \<or> machine = ''arm'' then (''arm'', ''-D__arm__'')
      else (machine, []))"

definition asm_candidates :: "string \<Rightarrow> string \<Rightarrow> string \<Rightarrow> string list" where
  "asm_candidates multiarch target_arch release =
     (if multiarch \<noteq> [] then [''/usr/include/'' @ multiarch] else []) @
     (if target_arch = ''x86'' then [''/usr/include/x86_64-linux-gnu'']
      else if target_arch = ''arm64'' then [''/usr/include/aarch64-linux-gnu'']
      else if target_arch = ''arm'' then [''/usr/include/arm-linux-gnueabihf''] else []) @
     [''/usr/src/linux-headers-'' @ release @ ''/arch/'' @ target_arch @ ''/include/generated'', ''/usr/include'']"

definition resolve_asm_include :: "'k handler_env \<Rightarrow> string \<Rightarrow> ('k, string) pym" where
  "resolve_asm_include H target_arch =
     mbind (ho_run (he_os H) [''gcc'', ''-print-multiarch'']) (\<lambda>(returncode, stdout).
     let multiarch = (if returncode = 0 then str_strip stdout else []) in
     gets (\<lambda>k. case find (\<lambda>c. he_is_dir H c k \<and> (he_is_dir H (path_join c ''asm'') k \<or> c = ''/usr/include''))
                      (asm_candidates multiarch target_arch (he_release H)) of
                 Some c \<Rightarrow> c | None \<Rightarrow> ''/usr/include''))"

definition clang_cmd :: "string \<times> string \<Rightarrow> string \<Rightarrow> string \<Rightarrow> string option \<Rightarrow> string \<Rightarrow> string \<Rightarrow> string list" where
  "clang_cmd arch asm_inc dir sdk_dir source output =
     [''clang'', ''-O3'', ''-g'', ''-target'', ''bpf'', ''-mcpu=v3'', ''-D__TARGET_ARCH_'' @ fst arch] @
     (if snd arch \<noteq> [] then [snd arch] else []) @
     [''-fno-stack-protector'', ''-Wall'', ''-Wno-unused-value'', ''-I/usr/include'', ''-I'' @ asm_inc, ''-I/usr/include/bpf'', ''-I'' @ dir] @
     (case sdk_dir of Some d \<Rightarrow> [''-I'' @ d] | None \<Rightarrow> []) @
     [''-I'' @ path_parent source, ''-c'', source, ''-o'', output]"

definition compile_handler_source ::
  "'k handler_env \<Rightarrow> string \<Rightarrow> string \<Rightarrow> string \<Rightarrow> int option \<Rightarrow> string option \<Rightarrow> ('k, string) pym" where
  "compile_handler_source H source_path proto dir port sdk_dir =
     mbind (gets (he_is_file H source_path)) (\<lambda>there.
     if \<not> there then raise_exn RuntimeErr
     else if path_suffix source_path \<noteq> ''.c'' then raise_exn RuntimeErr
     else mseq (he_mkdir H dir)
       (let stem = ''custom_'' @ proto @ (case port of Some p \<Rightarrow> ''_'' @ str_of_int p | None \<Rightarrow> []) @ ''_'' @ path_stem source_path @ ''.o'';
            output_path = path_join dir stem; arch = resolve_target_arch (he_machine H) in
        mbind (resolve_asm_include H (fst arch)) (\<lambda>asm_inc.
        mseq (run_checked (he_os H) (clang_cmd arch asm_inc dir sdk_dir source_path output_path)) (ret output_path))))"

section \<open>The configuration\<close>

definition ensure_config_exists :: "'k handler_env \<Rightarrow> ('k, unit) pym" where
  "ensure_config_exists H =
     mbind (gets (io_exists (ae_file (he_admin H)))) (\<lambda>there.
     if there then ret ()
     else mseq (io_mkdir (ae_file (he_admin H))) (io_write (ae_file (he_admin H)) (io_path (ae_file (he_admin H))) (he_template H)))"

definition port_handler_config_update :: "'k admin_env \<Rightarrow> string \<Rightarrow> int \<Rightarrow> string option \<Rightarrow> ('k, unit) pym" where
  "port_handler_config_update A proto port path =
     mbind (load_toml (ae_tomllib A) (ae_file A)) (\<lambda>data.
     mbind (mlift (edit_port_handler proto port path data)) (\<lambda>data'.
     write_toml (ae_float_repr A) (ae_file A) data'))"

section \<open>Loading and unloading\<close>

text \<open>
  \<open>try: _transactional_..._swap(...) / except RuntimeError: print(...); return 1\<close>; the two
  \<open>RuntimeError\<close>s of a switch are told apart only by their text.
\<close>

definition switch_or :: "('k, swap_end) pym \<Rightarrow> ('k, outcome) pym \<Rightarrow> ('k, outcome) pym" where
  "switch_or swap go_on =
     mbind (mtry (mbind swap (\<lambda>how. ret (how = Committed))) (on_runtime (ret False))) (\<lambda>committed.
     if committed then go_on else ret (1, []))"

text \<open>The object file of a handler: compiled first if it is a C source.\<close>

definition object_of :: "'k handler_env \<Rightarrow> string \<Rightarrow> string \<Rightarrow> int option \<Rightarrow> ('k, string option) pym" where
  "object_of H path proto port =
     (if path_suffix path = ''.c''
      then mtry (mbind (compile_handler_source H path proto (handlers_dir H) port (Some (builtin_handlers_dir H))) (\<lambda>p. ret (Some p)))
             (on_runtime (ret None))
      else ret (Some path))"

definition map_args :: "string \<times> string \<Rightarrow> string list" where
  "map_args = (\<lambda>(name, pin). [''map'', ''name'', name, ''pinned'', pin])"

definition slot_load_cmd :: "string \<Rightarrow> string \<Rightarrow> (string \<times> string) list \<Rightarrow> string list" where
  "slot_load_cmd object_path candidate_pin maps =
     [''bpftool'', ''prog'', ''load'', object_path, candidate_pin, ''type'', ''xdp''] @ concat (map map_args maps)"

text \<open>What a name or number on the command line says: the slot, its object file and its name, or how it ends.\<close>

definition slot_target :: "'k handler_env \<Rightarrow> string \<Rightarrow> string option \<Rightarrow> ('k, outcome + int \<times> string \<times> string) pym" where
  "slot_target H target path =
     (case dict_get (he_slots H) target of
        Some (proto, obj_name) \<Rightarrow> ret (Inr (proto, path_join (builtin_handlers_dir H) obj_name, target))
      | None \<Rightarrow>
          if str_isdigit target
          then (if \<not> given path
                then ret (Inl (1, [Err ''Custom handler requires a .o or .c path: axdp slot load PROTO /path/to/handler.o'']))
                else let proto = int (nat_of_digits target) in
                  mbind (object_of H (the path) (str_of_int proto) None) (\<lambda>object_path.
                  ret (case object_path of None \<Rightarrow> Inl (1, []) | Some p \<Rightarrow> Inr (proto, p, []))))
          else ret (Inl (1, [Err (''Unknown handler: '' @ target @ '' (built-in: gre, esp, sctp)'')])))"

definition slot_record :: "'k handler_env \<Rightarrow> int \<Rightarrow> string \<Rightarrow> string \<Rightarrow> ('k, outcome) pym" where
  "slot_record H proto object_path builtin_name =
     mseq (ensure_config_exists H)
    (mseq (run_command (he_admin H)
             (if builtin_name \<noteq> [] then SlotEnableBuiltin builtin_name else SlotEnableCustom proto object_path))
          (ret (0, [Out (''Loaded handler for proto '' @ str_of_int proto @ '' from '' @ object_path),
                    Out (''  config: '' @ ae_config_path (he_admin H))])))"

definition slot_install :: "'k handler_env \<Rightarrow> int \<Rightarrow> string \<Rightarrow> string \<Rightarrow> (string \<times> string) list \<Rightarrow> ('k, outcome) pym" where
  "slot_install H proto object_path builtin_name maps =
     (let OS = he_os H; slot_pin_dir = path_join (he_pin_dir H) ''handlers'';
          pin_path = path_join slot_pin_dir (''proto_'' @ str_of_int proto);
          candidate_pin = path_join slot_pin_dir (''proto_'' @ str_of_int proto @ ''_next_'' @ he_candidate_token H) in
      mbind (mtry (mseq (run_checked OS (slot_load_cmd object_path candidate_pin maps)) (ret True))
               (on_runtime (mseq (mbind (gets (ho_exists OS candidate_pin)) (\<lambda>left. mwhen left (ho_unlink OS candidate_pin)))
                                 (ret False)))) (\<lambda>loaded.
      if \<not> loaded then ret (1, [])
      else switch_or (file_prog_swap OS (he_backup_token H) (path_join (he_pin_dir H) ''proto_handlers'') proto candidate_pin pin_path)
             (slot_record H proto object_path builtin_name)))"

definition cmd_slot_load :: "'k handler_env \<Rightarrow> string \<Rightarrow> string option \<Rightarrow> ('k, outcome) pym" where
  "cmd_slot_load H name_or_proto path =
     (let OS = he_os H; pin = path_join (he_pin_dir H) in
      mbind (slot_target H name_or_proto path) (\<lambda>found.
      case found of
        Inl out \<Rightarrow> ret out
      | Inr (proto, object_path, builtin_name) \<Rightarrow>
          mbind (gets (\<lambda>k. (he_is_file H object_path k, ho_exists OS (pin ''slot_ctx_map'') k, ho_exists OS (pin ''proto_handlers'') k)))
            (\<lambda>(object_there, ctx_there, handlers_there).
          if \<not> object_there then ret (1, [Err (''Handler object not found: '' @ object_path)])
          else if \<not> ctx_there then ret (1, [Err ''XDP not loaded (slot_ctx_map not found). Run setup first.''])
          else if \<not> handlers_there then ret (1, [Err ''XDP not loaded (proto_handlers map not found).''])
          else mseq (he_mkdir H (pin ''handlers''))
            (mbind (gets (\<lambda>k. (ho_exists OS (pin ''sctp_whitelist'') k, ho_exists OS (pin ''sctp_conntrack'') k)))
              (\<lambda>(whitelist_there, conntrack_there).
            let sctp = (proto = 132 \<and> builtin_name = ''sctp'') in
            if sctp \<and> \<not> whitelist_there then ret (1, [Err ''XDP not loaded completely (sctp_whitelist map not found).''])
            else if sctp \<and> \<not> conntrack_there then ret (1, [Err ''XDP not loaded completely (sctp_conntrack map not found).''])
            else slot_install H proto object_path builtin_name
                   (map (\<lambda>name. (name, pin name))
                     (''slot_ctx_map'' # (if sctp then [''sctp_whitelist'', ''sctp_conntrack''] else []))))))))"

text \<open>The name \<open>bpftool\<close> prints: \<open>re.search(r"\bname\s+(\S+)", text)\<close>.\<close>

definition word_char :: "char \<Rightarrow> bool" where
  "word_char c \<longleftrightarrow> bare_char c \<and> c \<noteq> CHR ''-''"

fun search_name :: "bool \<Rightarrow> string \<Rightarrow> string option" where
  "search_name inside [] = None"
| "search_name inside (c # s) =
     (let rest = drop 3 s; found = str_lstrip rest in
      if \<not> inside \<and> str_prefix ''name'' (c # s) \<and> found \<noteq> rest \<and> found \<noteq> []
      then Some (takeWhile (\<lambda>x. \<not> is_space x) found) else search_name (word_char c) s)"

definition slot_prog_name :: "'k handler_env \<Rightarrow> string \<Rightarrow> ('k, string) pym" where
  "slot_prog_name H pin_path =
     mbind (ho_run (he_os H) [''bpftool'', ''prog'', ''show'', ''pinned'', pin_path]) (\<lambda>(returncode, stdout).
     ret (if returncode \<noteq> 0 then ''custom''
          else case search_name False stdout of Some name \<Rightarrow> name | None \<Rightarrow> ''custom''))"

definition remove_prefix :: "string \<Rightarrow> string \<Rightarrow> string" where
  "remove_prefix prefix s = (if str_prefix prefix s then drop (length prefix) s else s)"

text \<open>\<open>sorted(slot_pin_dir.glob("proto_*"))\<close>, as names.\<close>

definition slot_pins :: "'k handler_env \<Rightarrow> 'k \<Rightarrow> string list" where
  "slot_pins H k =
     (let names = sort (filter (str_prefix ''proto_'') (he_iterdir H (path_join (he_pin_dir H) ''handlers'') k)) in
      filter (\<lambda>name. he_is_file H (path_join (path_join (he_pin_dir H) ''handlers'') name) k) names)"

fun slot_named :: "'k handler_env \<Rightarrow> string \<Rightarrow> string list \<Rightarrow> ('k, int option) pym" where
  "slot_named H target [] = ret None"
| "slot_named H target (pin # pins) =
     mbind (slot_prog_name H (path_join (path_join (he_pin_dir H) ''handlers'') pin)) (\<lambda>name.
     if name = target \<or> str_contains (''_'' @ target @ ''_'') name \<or> str_suffix (''_'' @ target) name
     then (case int_of_str (remove_prefix ''proto_'' pin) of Some n \<Rightarrow> ret (Some n) | None \<Rightarrow> raise_exn ValueErr)
     else slot_named H target pins)"

definition unload_key :: "int \<Rightarrow> string list" where
  "unload_key n = [str_of_int n, ''0'', ''0'', ''0'']"

definition cmd_slot_unload :: "'k handler_env \<Rightarrow> string \<Rightarrow> ('k, outcome) pym" where
  "cmd_slot_unload H target =
     (let OS = he_os H; A = he_admin H; pin = path_join (he_pin_dir H) in
      mbind (if str_isdigit target then ret (Some (int (nat_of_digits target)))
             else mbind (gets (slot_pins H)) (slot_named H target)) (\<lambda>found.
      case found of
        None \<Rightarrow> ret (1, [Err (''No loaded handler matches: '' @ target)])
      | Some proto \<Rightarrow>
          let pin_path = path_join (pin ''handlers'') (''proto_'' @ str_of_int proto) in
          mseq (ho_run OS (delete_cmd (pin ''proto_handlers'') (unload_key proto)))
         (mseq (mbind (gets (ho_exists OS pin_path)) (\<lambda>left. mwhen left (ho_unlink OS pin_path)))
         (mbind (gets (io_exists (ae_file A))) (\<lambda>config.
            if \<not> config then ret (0, [Out (''Unloaded handler for proto '' @ str_of_int proto)])
            else mseq (run_command A (SlotDisable proto))
                      (ret (0, [Out (''Unloaded handler for proto '' @ str_of_int proto),
                                Out (''  config: '' @ ae_config_path A)])))))))"

definition port_shared_maps :: "string \<Rightarrow> string list" where
  "port_shared_maps proto =
     [''slot_ctx_map'', ''hblk4'', ''hblk6''] @
     (if proto = ''tcp'' then [''tcp_ct4'', ''tcp_ct6'', ''tcp_pd4'', ''tcp_pd6''] else [''udp_hv4'', ''udp_hv6''])"

definition port_load_cmd :: "string \<Rightarrow> string \<Rightarrow> (string \<times> string) list \<Rightarrow> string list" where
  "port_load_cmd object_path candidate_dir maps =
     [''bpftool'', ''prog'', ''load'', object_path, path_join candidate_dir ''prog'', ''type'', ''xdp'', ''pinmaps'', candidate_dir] @
     concat (map map_args maps)"

text \<open>After the switch: the flow tables, the configuration, and the messages.\<close>

definition port_handler_record :: "'k handler_env \<Rightarrow> string \<Rightarrow> int \<Rightarrow> string \<Rightarrow> bool \<Rightarrow> ('k, outcome) pym" where
  "port_handler_record H proto port object_path no_config_update =
     mseq (flush_port H proto port)
    (mseq (mwhen (\<not> no_config_update)
             (mseq (ensure_config_exists H) (port_handler_config_update (he_admin H) proto port (Some object_path))))
          (ret (0, Out (''Loaded '' @ str_upper proto @ '' handler for port '' @ str_of_int port @ '' from '' @ object_path) #
                   (if no_config_update then [] else [Out (''  config: '' @ ae_config_path (he_admin H))]))))"

definition port_handler_install :: "'k handler_env \<Rightarrow> string \<Rightarrow> int \<Rightarrow> string \<Rightarrow> bool \<Rightarrow> ('k, outcome) pym" where
  "port_handler_install H proto port object_path no_config_update =
     (let OS = he_os H; live = port_handler_dir (he_pin_dir H) proto port in
      mseq (he_mkdir H (path_parent live))
     (mbind (he_mkdtemp H (path_parent live) (str_of_int port @ ''_next_'')) (\<lambda>candidate_dir.
      mbind (mtry (mseq (run_checked OS (port_load_cmd object_path candidate_dir
                           (map (\<lambda>name. (name, path_join (he_pin_dir H) name)) (port_shared_maps proto)))) (ret True))
               (on_runtime (mseq (ignore_os (ho_rmtree OS candidate_dir)) (ret False)))) (\<lambda>loaded.
      if \<not> loaded then ret (1, [])
      else switch_or (dir_prog_swap OS (he_backup_token H) (port_handler_map_path (he_pin_dir H) proto) port candidate_dir live)
             (port_handler_record H proto port object_path no_config_update)))))"

definition cmd_port_handler_load :: "'k handler_env \<Rightarrow> string \<Rightarrow> int \<Rightarrow> string \<Rightarrow> bool \<Rightarrow> ('k, outcome) pym" where
  "cmd_port_handler_load H proto_arg port_arg path no_config_update =
     (let OS = he_os H; proto = str_lower proto_arg; pin = path_join (he_pin_dir H);
          handler_map = port_handler_map_path (he_pin_dir H) proto in
      mbind (mlift (normalize_handler_port port_arg)) (\<lambda>port.
      mbind (object_of H path proto (Some port)) (\<lambda>compiled.
      case compiled of
        None \<Rightarrow> ret (1, [])
      | Some object_path \<Rightarrow>
          mbind (gets (he_is_file H object_path)) (\<lambda>object_there.
          if \<not> object_there then ret (1, [Err (''Handler object not found: '' @ object_path)])
          else mbind (he_resolve H object_path) (\<lambda>resolved.
            mbind (gets (\<lambda>k. (ho_exists OS (pin ''slot_ctx_map'') k, ho_exists OS handler_map k,
                              filter (\<lambda>name. \<not> ho_exists OS (pin name) k) (port_shared_maps proto))))
              (\<lambda>(ctx_there, handlers_there, missing).
            if \<not> ctx_there then ret (1, [Err ''XDP not loaded (slot_ctx_map not found). Run setup first.''])
            else if \<not> handlers_there then ret (1, [Err (''XDP not loaded ('' @ path_name handler_map @ '' map not found).'')])
            else if missing \<noteq> []
            then ret (1, [Err (''XDP not loaded completely (missing pinned maps: '' @ str_join '', '' missing @ '').'')])
            else port_handler_install H proto port resolved no_config_update))))))"

definition cleanup_existing_port_handler :: "'k handler_env \<Rightarrow> string \<Rightarrow> int \<Rightarrow> ('k, unit) pym" where
  "cleanup_existing_port_handler H proto port =
     mseq (ho_run (he_os H) (delete_cmd (port_handler_map_path (he_pin_dir H) proto) (unload_key port)))
    (mseq (flush_port H proto port)
          (ignore_os (ho_rmtree (he_os H) (port_handler_dir (he_pin_dir H) proto port))))"

definition cmd_port_handler_unload :: "'k handler_env \<Rightarrow> string \<Rightarrow> int \<Rightarrow> bool \<Rightarrow> ('k, outcome) pym" where
  "cmd_port_handler_unload H proto_arg port_arg no_config_update =
     (let proto = str_lower proto_arg; A = he_admin H in
      mbind (mlift (normalize_handler_port port_arg)) (\<lambda>port.
      mseq (cleanup_existing_port_handler H proto port)
     (mbind (gets (io_exists (ae_file A))) (\<lambda>config.
        let said = Out (''Unloaded '' @ str_upper proto @ '' handler for port '' @ str_of_int port) in
        if no_config_update \<or> \<not> config then ret (0, [said])
        else mseq (port_handler_config_update A proto port None) (ret (0, [said, Out (''  config: '' @ ae_config_path A)]))))))"

section \<open>Listing\<close>

definition PORT_HANDLER_MARKERS :: "string list" where
  "PORT_HANDLER_MARKERS =
     [''tcp_ct4'', ''tcp_ct6'', ''tcp_pd4'', ''tcp_pd6'', ''udp_hv4'', ''udp_hv6'', ''hblk4'', ''hblk6'']"

definition looks_like_port_handler_source :: "'k handler_env \<Rightarrow> string \<Rightarrow> 'k \<Rightarrow> bool" where
  "looks_like_port_handler_source H path k =
     (case he_read_text H path k of None \<Rightarrow> False | Some text \<Rightarrow> list_ex (\<lambda>marker. str_contains marker text) PORT_HANDLER_MARKERS)"

text \<open>\<open>^custom_\d+_.+\.(?:c|o)$\<close> and the same with the protocol, for names without line feeds.\<close>

definition numbered_artifact :: "string \<Rightarrow> string \<Rightarrow> bool" where
  "numbered_artifact prefix name \<longleftrightarrow>
     (let rest = remove_prefix prefix name; tail = dropWhile is_digit rest in
      str_prefix prefix name \<and> takeWhile is_digit rest \<noteq> [] \<and> str_prefix ''_'' tail \<and> 4 \<le> length tail \<and>
      (str_suffix ''.c'' tail \<or> str_suffix ''.o'' tail))"

definition custom_port_artifact :: "string \<Rightarrow> bool" where
  "custom_port_artifact name \<longleftrightarrow> numbered_artifact ''custom_tcp_'' name \<or> numbered_artifact ''custom_udp_'' name"

definition is_port_handler_file :: "'k handler_env \<Rightarrow> string \<Rightarrow> 'k \<Rightarrow> string \<Rightarrow> bool" where
  "is_port_handler_file H dir k name \<longleftrightarrow>
     (let path = path_join dir name; suffix = snd (name_parts name); peer = path_join dir (fst (name_parts name) @ ''.c'') in
      he_is_file H path k \<and> suffix \<in> {''.c'', ''.o''} \<and>
      name \<notin> set (builtin_slot_artifacts (he_slots H)) \<and> \<not> numbered_artifact ''custom_'' name \<and>
      (if custom_port_artifact name then True
       else if suffix = ''.c'' then looks_like_port_handler_source H path k
       else he_is_file H peer k \<and> looks_like_port_handler_source H peer k))"

text \<open>Of a source and an object with the same stem the object is listed.\<close>

definition add_candidate :: "string \<Rightarrow> (string, string) dict \<Rightarrow> string \<Rightarrow> (string, string) dict" where
  "add_candidate dir candidates name =
     (let key = fst (name_parts name) in
      case dict_get candidates key of
        None \<Rightarrow> dict_set key (path_join dir name) candidates
      | Some current \<Rightarrow> if path_suffix current \<noteq> ''.o'' \<and> snd (name_parts name) = ''.o''
                       then dict_set key (path_join dir name) candidates else candidates)"

definition available_port_handler_files :: "'k handler_env \<Rightarrow> string \<Rightarrow> 'k \<Rightarrow> string list" where
  "available_port_handler_files H dir k =
     (if \<not> he_is_dir H dir k then []
      else map snd (sort_key fst (foldl (add_candidate dir) [] (filter (is_port_handler_file H dir k) (he_iterdir H dir k)))))"

text \<open>A line for each of some pins, which shows the name of the program.\<close>

fun pin_lines :: "'k handler_env \<Rightarrow> (string \<times> string) list \<Rightarrow> printed list \<Rightarrow> ('k, printed list) pym" where
  "pin_lines H [] acc = ret (if acc = [] then [Out ''  (none)''] else acc)"
| "pin_lines H ((label, pin) # pins) acc =
     mbind (slot_prog_name H pin) (\<lambda>name. pin_lines H pins (acc @ [Out (label @ name)]))"

definition builtin_line :: "'k handler_env \<Rightarrow> 'k \<Rightarrow> string \<times> int \<times> string \<Rightarrow> printed" where
  "builtin_line H k = (\<lambda>(name, proto, obj_name).
     let obj_path = path_join (builtin_handlers_dir H) obj_name;
         pin_path = path_join (path_join (he_pin_dir H) ''handlers'') (''proto_'' @ str_of_int proto) in
     Out (''  '' @ pad_right 6 name @ '' (proto '' @ str_of_int proto @ '')'' @
       (if ho_exists (he_os H) obj_path k then (if ho_exists (he_os H) pin_path k then ''  [loaded]'' else [])
        else ''  [.o not found: '' @ obj_path @ '']'')))"

definition cmd_slot_list :: "'k handler_env \<Rightarrow> ('k, outcome) pym" where
  "cmd_slot_list H =
     (let dir = path_join (he_pin_dir H) ''handlers'' in
      mbind (gets (ho_exists (he_os H) (path_join (he_pin_dir H) ''proto_handlers''))) (\<lambda>running.
      mbind (if \<not> running then ret [Out ''  XDP not running (proto_handlers map not found).'']
             else mbind (gets (slot_pins H)) (\<lambda>pins. pin_lines H
                    (map (\<lambda>pin. (''  proto '' @ pad_right 5 (remove_prefix ''proto_'' pin) @ '' '', path_join dir pin)) pins) []))
        (\<lambda>loaded.
      gets (\<lambda>k. (0, Out ''Loaded handlers:'' # loaded @ [Out [], Out ''Available handlers:''] @ map (builtin_line H k) (he_slots H))))))"

text \<open>The loaded handlers of a protocol: label and pin, in the order of their ports.\<close>

definition loaded_port_pins :: "'k handler_env \<Rightarrow> 'k \<Rightarrow> string \<Rightarrow> (string \<times> string) list" where
  "loaded_port_pins H k proto =
     (let dir = path_join (path_join (he_pin_dir H) ''port_handlers'') proto;
          ports = filter (\<lambda>name. he_is_dir H (path_join dir name) k \<and> str_isdigit name) (he_iterdir H dir k) in
      if \<not> he_is_dir H dir k then []
      else map (\<lambda>name. (''  '' @ pad_right 3 (str_upper proto) @ ''  '' @ pad_right 5 name @ ''  '', path_join (path_join dir name) ''prog''))
             (filter (\<lambda>name. ho_exists (he_os H) (path_join (path_join dir name) ''prog'') k) (sort_key nat_of_digits ports)))"

definition cmd_port_handler_list :: "'k handler_env \<Rightarrow> ('k, outcome) pym" where
  "cmd_port_handler_list H =
     (let A = he_admin H in
      mbind (load_toml (ae_tomllib A) (ae_file A)) (\<lambda>data.
      mbind (mlift (iter_configured_port_handlers (ae_rep A) data)) (\<lambda>configured.
      mbind (gets (\<lambda>k. sorted_list_of_set (set (available_port_handler_files H (builtin_handlers_dir H) k @
                                                 available_port_handler_files H (handlers_dir H) k)))) (\<lambda>available.
      mbind (gets (\<lambda>k. loaded_port_pins H k ''tcp'' @ loaded_port_pins H k ''udp'')) (\<lambda>pins.
      mbind (pin_lines H pins []) (\<lambda>loaded.
      ret (0, Out ''Loaded per-port handlers:'' # loaded @ [Out [], Out ''Configured per-port handlers:''] @
        none_or (map (\<lambda>(proto, port, path). ''  '' @ pad_right 3 (str_upper proto) @ ''  '' @ pad_right 5 (str_of_int port) @ ''  '' @ path) configured) @
        [Out [], Out ''Available local port handler files:''] @
        none_or (map (\<lambda>path. ''  '' @ pad_right 20 (path_stem path) @ '' '' @ path) available))))))))"

end
