(* ===== verification/PySteps.thy ===== *)
theory PySteps
  imports PyMonad
begin

text \<open>
  A relation between the state before a statement and the state after it, whichever way it ends; what the parts of a
  program keep is put together with these rules.
\<close>

section \<open>Steps of a relation\<close>

text \<open>Whatever a statement does, the relation holds between the state before and the state after.\<close>

definition steps :: "('s \<Rightarrow> 's \<Rightarrow> bool) \<Rightarrow> ('s, 'a) pym \<Rightarrow> bool" where
  "steps R m \<longleftrightarrow> (\<forall>s r t. m s = (r, t) \<longrightarrow> R s t)"

lemma stepsD: "steps R m \<Longrightarrow> m s = (r, t) \<Longrightarrow> R s t"
  by (auto simp: steps_def)

lemma steps_mono: "steps R m \<Longrightarrow> (\<And>s t. R s t \<Longrightarrow> Q s t) \<Longrightarrow> steps Q m"
  by (auto simp: steps_def)

lemma steps_return:
  assumes "reflp R"
  shows "steps R (ret x)" "steps R (raise_exn e)" "steps R (mlift q)" "steps R (gets f)"
  using assms by (auto simp: steps_def reflp_def)

lemma steps_bind: "transp R \<Longrightarrow> steps R m \<Longrightarrow> (\<And>x. steps R (f x)) \<Longrightarrow> steps R (mbind m f)"
  unfolding steps_def transp_def mbind_def by (fastforce split: prod.splits sum.splits)

lemma steps_seq: "transp R \<Longrightarrow> steps R m \<Longrightarrow> steps R n \<Longrightarrow> steps R (mseq m n)"
  by (simp add: mseq_def steps_bind)

lemma steps_try: "transp R \<Longrightarrow> steps R m \<Longrightarrow> (\<And>e n. h e = Some n \<Longrightarrow> steps R n) \<Longrightarrow> steps R (mtry m h)"
  unfolding steps_def transp_def mtry_def by (fastforce split: prod.splits sum.splits option.splits)

lemma steps_if: "(b \<Longrightarrow> steps R m) \<Longrightarrow> (\<not> b \<Longrightarrow> steps R n) \<Longrightarrow> steps R (if b then m else n)"
  by simp

lemma steps_prod: "(\<And>x y. steps R (f x y)) \<Longrightarrow> steps R (case p of (x, y) \<Rightarrow> f x y)"
  by (cases p) simp

end
