(* ===== verification/HandlerHost.thy ===== *)
theory HandlerHost
  imports HandlerCmds HandlerSafety AdminFile PySteps
begin

text \<open>
  Loading and unloading a port handler as whole commands, on a host where files, program arrays, flow tables
  and the configuration file are one state.
\<close>

section \<open>Views of a state\<close>

lemma below_trans: "below a b \<Longrightarrow> below b c \<Longrightarrow> below a c"
proof -
  assume "below a b" "below b c"
  then obtain p q where "sub_path p" "sub_path q" "c = a @ (p @ q)" by (auto simp: below_def)
  moreover have "sub_path (p @ q)" using calculation(1,2) by (cases p) (auto simp: sub_path_def)
  ultimately show ?thesis unfolding below_def by blast
qed

lemma on_runtime_Some: "on_runtime h e = Some n \<longleftrightarrow> e = RuntimeErr \<and> n = h"
  by (cases e) auto

lemma keeps_try_any: "keeps V m \<Longrightarrow> (\<And>e n. h e = Some n \<Longrightarrow> keeps V n) \<Longrightarrow> keeps V (mtry m h)"
  unfolding keeps_def mtry_def by (auto split: prod.splits sum.splits option.splits) (metis snd_conv)+

lemma keeps_try_if: "keeps V m \<Longrightarrow> keeps V n \<Longrightarrow> keeps V (mtry m (\<lambda>e. if P e then Some n else None))"
  by (rule keeps_try_any) (auto split: if_splits)

lemma keeps_try_if_exn:
  "keeps V m \<Longrightarrow> (\<And>e. keeps V (n e)) \<Longrightarrow> keeps V (mtry m (\<lambda>e. if P e then Some (n e) else None))"
  by (rule keeps_try_any) (auto split: if_splits)

lemma keeps_with_run: "keeps (\<lambda>s. V (snd s)) m \<Longrightarrow> keeps V (with_run run m)"
  unfolding keeps_def with_run_def by (auto split: prod.splits) (metis snd_conv)

lemma keeps_ignore_os: "keeps V m \<Longrightarrow> keeps V (ignore_os m)"
  unfolding ignore_os_def by (intro keeps_rules)

text \<open>A switch is made of the operations of the system.\<close>

lemma switch_keeps:
  assumes "\<And>a b. keeps V (ho_rename OS a b)" "\<And>p. keeps V (ho_unlink OS p)" "\<And>p. keeps V (ho_rmtree OS p)"
    and run: "\<And>cmd. keeps V (ho_run OS cmd)"
  shows "keeps V (dir_prog_swap OS token m key cand live)"
proof -
  have checked: "keeps V (run_checked OS cmd)" for cmd
    unfolding run_checked_def by (intro keeps_rules run)
  have program: "keeps V (pinned_program_id OS p)" for p
    unfolding pinned_program_id_def by (intro keeps_bind checked) (simp add: keeps_ret keeps_raise split: sum.splits)
  have entry: "keeps V (prog_array_entry_id OS m key)"
    unfolding prog_array_entry_id_def
    by (intro keeps_bind run keeps_prod) (simp add: keeps_ret keeps_raise split: sum.splits)
  have update: "keeps V (prog_array_update OS m key p)" for p
    unfolding prog_array_update_def by (intro keeps_rules checked)
  have check: "keeps V (verify_prog_array_entry OS m key i)" for i
    unfolding verify_prog_array_entry_def by (intro keeps_rules entry)
  have undo: "keeps V (rollback_prog_array_entry OS m key pin i)" for pin i
    unfolding rollback_prog_array_entry_def prog_array_delete_def
    by (cases pin; cases i; simp only: option.case prod.case; intro keeps_rules update check run entry)
  show ?thesis
    unfolding dir_prog_swap_def swap_check_def swap_commit_def swap_undo_def Let_def
    by (intro keeps_bind keeps_seq keeps_prod keeps_if keeps_when keeps_ret keeps_raise keeps_gets keeps_obj keeps_set_obj
        keeps_try_if_exn keeps_with_run keeps_kern keeps_ignore_os program entry update check undo assms)
qed

section \<open>The host\<close>

text \<open>
  The relation of a step that only makes new files: program arrays, the configuration file and
  everything that \<open>rest\<close> shows stay, and what is new satisfies \<open>New\<close>.
\<close>

definition makes_only ::
  "('k \<Rightarrow> nodes) \<Rightarrow> ('k \<Rightarrow> 'w) \<Rightarrow> (string \<Rightarrow> bool) \<Rightarrow> 'k \<Rightarrow> 'k \<Rightarrow> bool" where
  "makes_only nodes view New k k' \<longleftrightarrow> view k' = view k \<and> (wf_files (nodes k) \<longrightarrow> wf_files (nodes k')) \<and>
     (\<forall>q. nodes k' q \<noteq> nodes k q \<longrightarrow> nodes k q = None \<and> New q)"

lemma makes_only_refl: "reflp (makes_only nodes view New)"
  by (simp add: reflp_def makes_only_def)

lemma makes_only_trans: "transp (makes_only nodes view New)"
proof (rule transpI)
  fix a b c
  assume "makes_only nodes view New a b" "makes_only nodes view New b c"
  then show "makes_only nodes view New a c" unfolding makes_only_def by metis
qed

lemma makes_only_mono: "makes_only nodes view New k k' \<Longrightarrow> (\<And>q. New q \<Longrightarrow> New' q) \<Longrightarrow> makes_only nodes view New' k k'"
  by (auto simp: makes_only_def)

text \<open>
  What is relied on. Operations on files and \<open>bpftool\<close> do not touch the configuration file or the flow tables;
  operations on flow tables touch nothing else, nor do those on the configuration file. Compilers write
  files that the model does not see. A directory is made with those above it; \<open>mkdtemp\<close> makes a new one; \<open>bpftool prog load\<close>
  makes a pin and, after \<open>pinmaps\<close>, the pins of maps.
\<close>

locale handler_host =
  handler_kernel "he_os H" nodes entries obs + config_store "ae_file (he_admin H)" content files
  for H :: "'k handler_env" and nodes :: "'k \<Rightarrow> nodes" and entries :: "'k \<Rightarrow> entries" and obs :: "'k \<Rightarrow> entries set"
    and content :: "'k \<Rightarrow> string option" and files :: "'k \<Rightarrow> string \<Rightarrow> string option" +
  fixes rest :: "'k \<Rightarrow> 'v"
  assumes os_keeps: "keeps (\<lambda>k. (content k, rest k)) (ho_rename (he_os H) a b)"
    "keeps (\<lambda>k. (content k, rest k)) (ho_unlink (he_os H) p)"
    "keeps (\<lambda>k. (content k, rest k)) (ho_rmtree (he_os H) p)"
    "keeps (\<lambda>k. (content k, rest k)) (ho_run (he_os H) cmd)"
    and compile_keeps: "cmd \<noteq> [] \<Longrightarrow> hd cmd \<in> {''gcc'', ''clang''} \<Longrightarrow> keeps (\<lambda>k. (nodes k, entries k)) (ho_run (he_os H) cmd)"
    and load_law: "take 3 cmd = [''bpftool'', ''prog'', ''load''] \<Longrightarrow>
      steps (makes_only nodes entries (\<lambda>q. q = cmd ! 4 \<or> cmd ! 7 = ''pinmaps'' \<and> below (cmd ! 8) q)) (ho_run (he_os H) cmd)"
    and mkdir_law: "steps (makes_only nodes (\<lambda>k. (entries k, content k, rest k)) (\<lambda>q. below q p)) (he_mkdir H p)"
    and mkdtemp_law: "he_mkdtemp H dir prefix k = (r, k') \<Longrightarrow>
      (case r of
         Inr p \<Rightarrow> (\<exists>x. p = path_join dir (prefix @ x)) \<and> nodes k p = None \<and>
           makes_only nodes (\<lambda>k. (entries k, content k, rest k)) (\<lambda>q. q = p) k k'
       | Inl e \<Rightarrow> makes_only nodes (\<lambda>k. (entries k, content k, rest k)) (\<lambda>q. False) k k')"
    and resolve_keeps: "keeps (\<lambda>k. (nodes k, entries k, content k, rest k)) (he_resolve H p)"
    and kernel_keeps: "keeps (\<lambda>k. (nodes k, entries k, content k)) (bpf (sys_lookup (he_kernel H) fd key flags))"
    "keeps (\<lambda>k. (nodes k, entries k, content k)) (bpf (sys_delete (he_kernel H) fd key))"
    "keeps (\<lambda>k. (nodes k, entries k, content k)) (bpf (sys_next_key (he_kernel H) fd cur))"
    "keeps (\<lambda>k. (nodes k, entries k, content k)) (bpf (sys_obj_get (he_kernel H) p))"
    "keeps (\<lambda>k. (nodes k, entries k, content k)) (modify (sys_close (he_kernel H) fd))"
    and file_keeps: "keeps (\<lambda>k. (nodes k, entries k)) (io_read (ae_file (he_admin H)))"
    "keeps (\<lambda>k. (nodes k, entries k)) (io_mkdir (ae_file (he_admin H)))"
    "keeps (\<lambda>k. (nodes k, entries k)) (io_mktemp (ae_file (he_admin H)))"
    "keeps (\<lambda>k. (nodes k, entries k)) (io_write (ae_file (he_admin H)) p text)"
    "keeps (\<lambda>k. (nodes k, entries k)) (io_replace (ae_file (he_admin H)) p)"

text \<open>The states of a handler before and after: what lies elsewhere is kept, a handler is installed, or the old one stays.\<close>

definition only_handler :: "nodes \<Rightarrow> entries \<Rightarrow> string \<Rightarrow> int \<Rightarrow> string \<Rightarrow> nodes \<Rightarrow> entries \<Rightarrow> bool" where
  "only_handler N E m key live N' E' \<longleftrightarrow>
     (\<forall>m' key'. (m', key') \<noteq> (m, key) \<longrightarrow> E' m' key' = E m' key') \<and> (\<forall>q. N q \<noteq> None \<and> \<not> below live q \<longrightarrow> N' q = N q)"

definition handler_installed :: "string \<Rightarrow> int \<Rightarrow> string \<Rightarrow> nodes \<Rightarrow> entries \<Rightarrow> bool" where
  "handler_installed m key live N' E' \<longleftrightarrow> (\<exists>c. E' m key = Some c \<and> N' (live @ ''/prog'') = Some (Pin c))"

definition handler_kept :: "nodes \<Rightarrow> entries \<Rightarrow> string \<Rightarrow> int \<Rightarrow> string \<Rightarrow> string \<Rightarrow> nodes \<Rightarrow> entries \<Rightarrow> bool" where
  "handler_kept N E m key live backup N' E' \<longleftrightarrow> (\<forall>x. E m key = Some x \<and> N (live @ ''/prog'') = Some (Pin x) \<longrightarrow>
     E' m key \<noteq> None \<and> Some (Pin x) \<in> {N' (live @ ''/prog''), N' (backup @ ''/prog'')})"

text \<open>
  How a load ends. If it fails, nothing that \<open>view\<close> shows has changed and the old handler is kept; if it reports
  success, the new one is installed; an exception leaves one of the two.
\<close>

definition load_failed ::
  "('k \<Rightarrow> nodes) \<Rightarrow> ('k \<Rightarrow> entries) \<Rightarrow> ('k \<Rightarrow> 'w) \<Rightarrow> string \<Rightarrow> int \<Rightarrow> string \<Rightarrow> string \<Rightarrow> 'k \<Rightarrow> 'k \<Rightarrow> bool" where
  "load_failed nodes entries view m port live backup k k' \<longleftrightarrow> view k' = view k \<and>
     handler_kept (nodes k) (entries k) m port live backup (nodes k') (entries k')"

definition load_ended ::
  "('k \<Rightarrow> nodes) \<Rightarrow> ('k \<Rightarrow> entries) \<Rightarrow> ('k \<Rightarrow> 'w) \<Rightarrow> string \<Rightarrow> int \<Rightarrow> string \<Rightarrow> string \<Rightarrow> 'k \<Rightarrow> outcome res \<Rightarrow> 'k \<Rightarrow> bool" where
  "load_ended nodes entries view m port live backup k r k' \<longleftrightarrow>
     only_handler (nodes k) (entries k) m port live (nodes k') (entries k') \<and>
     (let failed = load_failed nodes entries view m port live backup k k';
          installed = handler_installed m port live (nodes k') (entries k') in
      case r of
        Inl e \<Rightarrow> failed \<or> installed
      | Inr (status, out) \<Rightarrow> status \<in> {0, 1} \<and> (if status = 0 then installed else failed))"

section \<open>Flushing and recording\<close>

lemma keeps_collect:
  assumes "keeps V (bpf (sys_next_key K fd None))" "\<And>cur. keeps V (bpf (sys_next_key K fd cur))"
  shows "keeps V (collect_keys fuel K fd)"
proof -
  have "keeps (\<lambda>s. V (snd s)) (scan_keys n K fd cur (\<lambda>key. set_obj (\<lambda>ks :: bytes list. ks @ [key])))" for n cur
  proof (induction n arbitrary: cur)
    case (Suc n)
    show ?case unfolding scan_keys.simps
      by (intro keeps_rules keeps_kern assms keeps_set_obj Suc)
  qed (simp add: keeps_raise)
  from this [of fuel None] show ?thesis
    by (auto simp: keeps_def collect_keys_def split: prod.splits sum.splits) (metis snd_conv)+
qed

context handler_host
begin

abbreviation held :: "'k \<Rightarrow> nodes \<times> entries \<times> string option" where
  "held k \<equiv> (nodes k, entries k, content k)"

lemma delete_flows_keeps:
  assumes "\<And>key. keeps held (P key)"
  shows "keeps held (delete_flows (he_kernel H) fd P port keys n)"
  by (induction keys arbitrary: n) (simp_all add: keeps_ret, intro keeps_rules assms kernel_keeps)

lemma delete_for_port_keeps: "keeps held (delete_for_port fuel (he_kernel H) fd port)"
  unfolding delete_for_port_def lookup_value_def
  by (intro keeps_rules keeps_collect delete_flows_keeps kernel_keeps)

lemma delete_key_port_keeps: "keeps held (delete_key_port fuel (he_kernel H) fd port)"
  unfolding delete_key_port_def
  by (intro keeps_rules keeps_collect delete_flows_keeps kernel_keeps)

lemma with_pending_map_keeps:
  assumes "\<And>fd. keeps held (body fd)"
  shows "keeps held (with_pending_map (he_kernel H) path body)"
proof -
  have "keeps held (mfinally (body fd) (\<lambda>k. if 0 \<le> fd then sys_close (he_kernel H) fd k else k))" for fd
    using keepsD [OF assms] keepsD [OF kernel_keeps(5)]
    by (auto simp: keeps_def mfinally_def split: prod.splits) (metis snd_conv prod.inject)+
  then show ?thesis unfolding with_pending_map_def obj_get_def by (intro keeps_rules kernel_keeps)
qed

lemma flush_maps_keeps: "(\<And>fd. keeps held (flush fd)) \<Longrightarrow> keeps held (flush_maps H flush names n)"
  by (induction names arbitrary: n) (simp_all add: keeps_ret, intro keeps_rules with_pending_map_keeps)

lemma flush_port_keeps: "keeps held (flush_port H proto port)"
  unfolding flush_port_def flush_tcp_pending_for_port_def flush_udp_validated_for_port_def
  by (intro keeps_rules flush_maps_keeps delete_for_port_keeps delete_key_port_keeps)

lemma config_keeps:
  "keeps (\<lambda>k. (nodes k, entries k)) (load_toml lib (ae_file (he_admin H)))"
  "keeps (\<lambda>k. (nodes k, entries k)) (write_toml fr (ae_file (he_admin H)) data)"
  "keeps (\<lambda>k. (nodes k, entries k)) (ensure_config_exists H)"
  unfolding load_toml_def write_toml_def ensure_config_exists_def by (intro keeps_rules file_keeps)+

lemma config_update_keeps: "keeps (\<lambda>k. (nodes k, entries k)) (port_handler_config_update (he_admin H) proto port path)"
  unfolding port_handler_config_update_def by (intro keeps_rules config_keeps)

lemma config_update_content:
  assumes "port_handler_config_update (he_admin H) proto port path k = (Inr (), k')" "content k = Some text"
  shows "\<exists>doc doc' text'. (case ae_tomllib (he_admin H) of Some load \<Rightarrow> load text | None \<Rightarrow> parse_toml_fallback text) = Inr doc \<and>
    edit_port_handler proto port path doc = Inr doc' \<and> toml_text (ae_float_repr (he_admin H)) doc' = Inr text' \<and> content k' = Some text'"
proof -
  from assms(1) obtain doc k1 doc' where ld: "load_toml (ae_tomllib (he_admin H)) (ae_file (he_admin H)) k = (Inr doc, k1)"
    and ed: "edit_port_handler proto port path doc = Inr doc'"
    and wr: "write_toml (ae_float_repr (he_admin H)) (ae_file (he_admin H)) doc' k1 = (Inr (), k')"
    by (auto simp: port_handler_config_update_def mbind_Inr_iff)
  from load_document [OF ld] assms(2) ed write_result [OF wr] show ?thesis by auto
qed

text \<open>Making the object file; only directories are made.\<close>

abbreviation makes :: "(string \<Rightarrow> bool) \<Rightarrow> 'k \<Rightarrow> 'k \<Rightarrow> bool" where
  "makes \<equiv> makes_only nodes (\<lambda>k. (entries k, content k, rest k))"

lemma makes_keeps:
  assumes "keeps (\<lambda>k. (nodes k, entries k)) m" "keeps (\<lambda>k. (content k, rest k)) m"
  shows "steps (makes New) m"
  using assms unfolding keeps_def steps_def makes_only_def by (metis prod.inject snd_conv)

lemmas makes_return = steps_return [OF makes_only_refl]
lemmas makes_bind = steps_bind [OF makes_only_trans]
lemmas makes_seq = steps_seq [OF makes_only_trans]
lemmas makes_try = steps_try [OF makes_only_trans]

lemma run_compiler_makes: "cmd \<noteq> [] \<Longrightarrow> hd cmd \<in> {''gcc'', ''clang''} \<Longrightarrow> steps (makes New) (ho_run (he_os H) cmd)"
  by (rule makes_keeps [OF compile_keeps os_keeps(4)])

lemma compile_makes: "steps (makes (\<lambda>q. below q dir)) (compile_handler_source H source proto dir port sdk)"
  unfolding compile_handler_source_def resolve_asm_include_def run_checked_def Let_def
  by (intro makes_bind makes_seq steps_if steps_prod makes_return mkdir_law run_compiler_makes) (simp_all add: clang_cmd_def)

lemma object_of_makes: "steps (makes (\<lambda>q. below q (handlers_dir H))) (object_of H path proto port)"
  unfolding object_of_def
  by (intro makes_bind makes_try steps_if makes_return compile_makes) (auto simp: on_runtime_Some makes_return)

lemma resolve_makes: "steps (makes New) (he_resolve H p)"
  using resolve_keeps by (auto simp: keeps_def steps_def makes_only_def) (metis snd_conv)+

text \<open>A new directory with the program in it.\<close>

lemma path_parent_join: "CHR ''/'' \<notin> set name \<Longrightarrow> p \<noteq> [] \<Longrightarrow> path_parent (path_join p name) = p"
proof -
  assume name: "CHR ''/'' \<notin> set name" and p: "p \<noteq> []"
  have "dropWhile (\<lambda>c. c \<noteq> CHR ''/'') (rev name @ CHR ''/'' # rev p) = CHR ''/'' # rev p"
    using name by (subst dropWhile_append2) auto
  then show ?thesis using p by (simp add: path_parent_def path_join_def Let_def)
qed

lemma load_makes:
  assumes "cmd = port_load_cmd object_path cand maps" "ho_run (he_os H) cmd k = (r, k')"
  shows "makes (below cand) k k'"
proof -
  have cmd: "take 3 cmd = [''bpftool'', ''prog'', ''load'']" "cmd ! 4 = path_join cand ''prog''" "cmd ! 8 = cand"
    by (simp_all add: assms(1) port_load_cmd_def)
  have "below cand (path_join cand ''prog'')" by (auto simp: below_def path_join_def sub_path_def)
  with stepsD [OF load_law [OF cmd(1)] assms(2)] keepsD [OF os_keeps(4), of cmd k] assms(2) cmd(2,3) show ?thesis
    unfolding makes_only_def by auto
qed

lemma candidate_makes:
  assumes mk: "he_mkdtemp H dir prefix k1 = (Inr cand, k2)" and made: "makes New k k1" and wf: "wf_files (nodes k)"
  shows "makes (\<lambda>q. New q \<or> q = cand) k k2" "\<And>q. below cand q \<Longrightarrow> nodes k q = None"
proof -
  from mkdtemp_law [OF mk] have fresh: "nodes k1 cand = None" "makes (\<lambda>q. q = cand) k1 k2" by auto
  have "makes (\<lambda>q. New q \<or> q = cand) k k1" by (rule makes_only_mono [OF made]) simp
  moreover have "makes (\<lambda>q. New q \<or> q = cand) k1 k2" by (rule makes_only_mono [OF fresh(2)]) simp
  ultimately show "makes (\<lambda>q. New q \<or> q = cand) k k2" by (rule transpD [OF makes_only_trans])
  fix q assume "below cand q"
  then obtain p where "sub_path p" "q = cand @ p" by (auto simp: below_def)
  moreover have "wf_files (nodes k1)" using made wf by (simp add: makes_only_def)
  ultimately have "nodes k1 q = None" using fresh(1) unfolding wf_files_def by blast
  then show "nodes k q = None" using made unfolding makes_only_def by metis
qed

text \<open>The switch, seen from a state before the candidate was made.\<close>

lemma switch_outcome:
  assumes made: "makes New k k1" and fresh: "\<And>q. below cand q \<Longrightarrow> nodes k q = None"
    and gone: "gone (nodes k) (rollback_name live token)" and ready: "ready (nodes k1) token cand live"
    and port: "0 \<le> port" "port < 2 ^ 32"
    and run: "dir_prog_swap (he_os H) token m port cand live k1 = (r, k')"
  shows "only_handler (nodes k) (entries k) m port live (nodes k') (entries k')"
    and "content k' = content k" "rest k' = rest k"
    and "if r = Inr Committed then handler_installed m port live (nodes k') (entries k')
      else handler_kept (nodes k) (entries k) m port live (rollback_name live token) (nodes k') (entries k')"
proof -
  have old: "nodes k1 q = nodes k q" if "nodes k q \<noteq> None" for q
    using made that unfolding makes_only_def by metis
  have same: "entries k1 = entries k" "content k1 = content k" "rest k1 = rest k"
    using made by (simp_all add: makes_only_def)
  have "keeps (\<lambda>k. (content k, rest k)) (dir_prog_swap (he_os H) token m port cand live)"
    by (rule switch_keeps) (rule os_keeps)+
  from keepsD [OF this, of k1] run same show "content k' = content k" "rest k' = rest k" by simp_all
  have apart: "\<not> below cand q" "\<not> below (rollback_name live token) q" if "nodes k q \<noteq> None" for q
    using that fresh gone unfolding gone_def by auto
  note tr = handler_switch_transaction [where swap = "dir_prog_swap (he_os H)" and sfx = "''/prog''",
      OF handler_kernel_axioms port ready _ run, simplified]
  have entry: "entries k' = entries k \<or> (\<exists>v. entries k' = with_entry (entries k) m port v)"
  proof (cases r)
    case (Inr how)
    with tr show ?thesis unfolding same by (cases how) (simp, blast)+
  qed (use tr same in simp)
  show "only_handler (nodes k) (entries k) m port live (nodes k') (entries k')"
    unfolding only_handler_def
  proof (intro conjI allI impI)
    fix m' key' assume other: "(m', key') \<noteq> (m, port)"
    show "entries k' m' key' = entries k m' key'"
      using entry other by (auto simp: with_entry_def)
  next
    fix q assume q: "nodes k q \<noteq> None \<and> \<not> below live q"
    then show "nodes k' q = nodes k q"
      using tr apart [of q] old [of q] by (cases r) auto
  qed
  show "if r = Inr Committed then handler_installed m port live (nodes k') (entries k')
      else handler_kept (nodes k) (entries k) m port live (rollback_name live token) (nodes k') (entries k')"
  proof (cases r)
    case (Inl e)
    have "handler_kept (nodes k) (entries k) m port live (rollback_name live token) (nodes k') (entries k')"
      unfolding handler_kept_def
    proof (intro allI impI, elim conjE)
      fix x assume x: "entries k m port = Some x" "nodes k (live @ ''/prog'') = Some (Pin x)"
      have "nodes k' (live @ ''/prog'') = Some (Pin x)" "entries k' = entries k"
        using tr Inl old [of "live @ ''/prog''"] apart(1) [of "live @ ''/prog''"] x(2) same by auto
      then show "entries k' m port \<noteq> None \<and>
          Some (Pin x) \<in> {nodes k' (live @ ''/prog''), nodes k' (rollback_name live token @ ''/prog'')}" using x by simp
    qed
    then show ?thesis using Inl by simp
  next
    case (Inr how)
    with tr obtain c old' where c: "nodes k1 (live @ ''/prog'') = map_option Pin old'"
      "case how of
           Committed \<Rightarrow> entries k' = with_entry (entries k1) m port (Some c) \<and> nodes k' (live @ ''/prog'') = Some (Pin c)
         | PreviousRestored \<Rightarrow>
             (entries k' = entries k1 \<or> entries k' = with_entry (entries k1) m port old' \<or>
              old' = None \<and> entries k' = with_entry (entries k1) m port (Some c)) \<and>
             (\<forall>x. old' = Some x \<longrightarrow> Some (Pin x) \<in> {nodes k' (live @ ''/prog''), nodes k' (rollback_name live token @ ''/prog'')})
         | RollbackFailed \<Rightarrow>
             (entries k' = with_entry (entries k1) m port (Some c) \<or> entries k' = with_entry (entries k1) m port old') \<and>
             Some (Pin c) \<in> {nodes k' (cand @ ''/prog''), nodes k' (live @ ''/prog'')} \<and>
             (\<forall>x. old' = Some x \<longrightarrow> Some (Pin x) \<in> {nodes k' (live @ ''/prog''), nodes k' (rollback_name live token @ ''/prog'')})"
      by auto
    show ?thesis
    proof (cases "how = Committed")
      case True
      with c(2) have "entries k' m port = Some c" "nodes k' (live @ ''/prog'') = Some (Pin c)" by (simp_all add: with_entry_def)
      then show ?thesis using Inr True by (simp add: handler_installed_def)
    next
      case False
      have "handler_kept (nodes k) (entries k) m port live (rollback_name live token) (nodes k') (entries k')"
        unfolding handler_kept_def
      proof (intro allI impI, elim conjE)
        fix x assume x: "entries k m port = Some x" "nodes k (live @ ''/prog'') = Some (Pin x)"
        then have "old' = Some x" using c(1) old [of "live @ ''/prog''"] by (cases old') auto
        then show "entries k' m port \<noteq> None \<and>
            Some (Pin x) \<in> {nodes k' (live @ ''/prog''), nodes k' (rollback_name live token @ ''/prog'')}"
          using c(2) False x(1) same(1) by (cases how) (auto simp: with_entry_def)
      qed
      then show ?thesis using Inr False by simp
    qed
  qed
qed

abbreviation ended :: "string \<Rightarrow> int \<Rightarrow> string \<Rightarrow> string \<Rightarrow> 'k \<Rightarrow> outcome res \<Rightarrow> 'k \<Rightarrow> bool" where
  "ended \<equiv> load_ended nodes entries (\<lambda>k. (content k, rest k))"

lemma makes_failed:
  assumes "makes New k k'" "case r of Inl e \<Rightarrow> True | Inr (status, out) \<Rightarrow> status = 1"
  shows "ended m port live backup k r k'"
proof -
  have old: "nodes k' q = nodes k q" if "nodes k q \<noteq> None" for q
    using assms(1) that unfolding makes_only_def by metis
  have "entries k' = entries k" "content k' = content k" "rest k' = rest k"
    using assms(1) by (simp_all add: makes_only_def)
  with assms(2) old show ?thesis
    unfolding load_ended_def load_failed_def only_handler_def handler_kept_def
    by (auto split: sum.splits)
qed

lemma removal_failed:
  assumes made: "makes New k k1" and fresh: "\<And>q. below cand q \<Longrightarrow> nodes k q = None"
    and run: "ignore_os (ho_rmtree (he_os H) cand) k1 = (q, k')" and "case r of Inl e \<Rightarrow> True | Inr (status, out) \<Rightarrow> status = 1"
  shows "ended m port live backup k r k'"
proof -
  obtain q1 where rm: "ho_rmtree (he_os H) cand k1 = (q1, k')"
    using run by (cases "ho_rmtree (he_os H) cand k1")
      (auto simp: ignore_os_def mtry_def ret_apply split: sum.splits option.splits elim!: on_oserror.elims)
  note law = rmtree_law [OF rm]
  have old: "nodes k' p = nodes k p" if "nodes k p \<noteq> None" for p
    using law made fresh that unfolding makes_only_def by metis
  have "entries k' = entries k" "content k' = content k" "rest k' = rest k"
    using made law keepsD [OF os_keeps(3), of cand k1] rm by (simp_all add: makes_only_def)
  with assms(4) old show ?thesis
    unfolding load_ended_def load_failed_def only_handler_def handler_kept_def
    by (auto split: sum.splits)
qed

lemma record_keeps: "keeps (\<lambda>k. (nodes k, entries k)) (port_handler_record H proto port object_path upd)"
proof -
  have "keeps (\<lambda>k. (nodes k, entries k)) (flush_port H proto port)"
    using flush_port_keeps by (auto simp: keeps_def)
  then show ?thesis
    unfolding port_handler_record_def by (intro keeps_rules config_keeps config_update_keeps)
qed

lemma record_status: "port_handler_record H proto port object_path upd k = (Inr (status, out), k') \<Longrightarrow> status = 0"
  by (auto simp: port_handler_record_def mseq_Inr_iff)

lemma switch_or_ended:
  assumes made: "makes New k k1" and fresh: "\<And>q. below cand q \<Longrightarrow> nodes k q = None"
    and gone: "gone (nodes k) (rollback_name live token)" and ready: "ready (nodes k1) token cand live"
    and port: "0 \<le> port" "port < 2 ^ 32"
    and go: "go_on = port_handler_record H proto port object_path upd"
    and run: "switch_or (dir_prog_swap (he_os H) token m port cand live) go_on k1 = (r, k')"
  shows "ended m port live (rollback_name live token) k r k'"
    and "r = Inr (0, out) \<Longrightarrow> \<exists>k2. content k2 = content k \<and> go_on k2 = (r, k')"
proof -
  obtain q k2 where swap: "dir_prog_swap (he_os H) token m port cand live k1 = (q, k2)"
    by (cases "dir_prog_swap (he_os H) token m port cand live k1")
  note out = switch_outcome [OF made fresh gone ready port swap]
  have not_done: "ended m port live (rollback_name live token) k r k'"
    if "q \<noteq> Inr Committed" "k' = k2" "case r of Inl e \<Rightarrow> True | Inr (status, out) \<Rightarrow> status = 1"
    using out that by (auto simp: load_ended_def load_failed_def split: sum.splits)
  have both: "ended m port live (rollback_name live token) k r k' \<and>
      (r = Inr (0, out) \<longrightarrow> (\<exists>k2. content k2 = content k \<and> go_on k2 = (r, k')))"
  proof (cases "q = Inr Committed")
    case True
    then have rec: "go_on k2 = (r, k')" using run swap by (simp add: switch_or_def mbind_def mtry_def ret_apply)
    have same: "nodes k' = nodes k2" "entries k' = entries k2"
      using keepsD [OF record_keeps, of proto port object_path upd k2] rec go by simp_all
    have "status = 0" if "r = Inr (status, out)" for status out
      using record_status rec go that by metis
    then show ?thesis using out True rec same
      by (auto simp: load_ended_def Let_def split: sum.splits)
  next
    case False
    then have "k' = k2" "case r of Inl e \<Rightarrow> True | Inr (status, out) \<Rightarrow> status = 1"
      using run swap by (auto simp: switch_or_def mbind_def mtry_def ret_apply on_runtime_Some split: sum.splits option.splits if_splits)
    with not_done [OF False] show ?thesis by auto
  qed
  then show "ended m port live (rollback_name live token) k r k'"
    "r = Inr (0, out) \<Longrightarrow> \<exists>k2. content k2 = content k \<and> go_on k2 = (r, k')" by simp_all
qed

text \<open>The names of a load.\<close>

lemma load_names:
  assumes live: "live = port_handler_dir pin proto port" and cand: "cand = path_join (path_parent live) (str_of_int port @ ''_next_'' @ x)"
  shows "apart cand live" "apart cand (rollback_name live token)" "path_parent live = path_join (path_join pin ''port_handlers'') proto"
    "below (rollback_name live token) q \<Longrightarrow> \<not> below cand q \<and> \<not> below q (path_parent live) \<and> below pin q"
proof -
  have "\<not> is_digit (CHR ''/'')" by (simp add: is_digit_def)
  then have "CHR ''/'' \<notin> set (digits_of_nat n)" for n using digits_are_digits by blast
  then have "CHR ''/'' \<notin> set (str_of_int port)" by (simp add: str_of_int_def)
  then show parent: "path_parent live = path_join (path_join pin ''port_handlers'') proto"
    unfolding live port_handler_dir_def by (rule path_parent_join) (simp add: path_join_def)
  have names: "live = path_parent live @ ''/'' @ str_of_int port" "cand = live @ ''_next_'' @ x"
    unfolding cand parent by (simp_all add: live port_handler_dir_def path_join_def)
  show "apart cand live" "apart cand (rollback_name live token)"
    unfolding apart_def below_def sub_path_def names(2) by auto
  assume q: "below (rollback_name live token) q"
  then obtain s where s: "q = live @ ''_rollback_'' @ token @ s" by (auto simp: below_def)
  have "length (path_parent live) < length q" by (subst s, subst names(1)) simp
  then have "\<not> below q (path_parent live)" by (auto simp: below_def)
  moreover have "\<not> below cand q" unfolding below_def names(2) s by auto
  moreover have "below pin q" unfolding below_def s live port_handler_dir_def path_join_def sub_path_def by auto
  ultimately show "\<not> below cand q \<and> \<not> below q (path_parent live) \<and> below pin q" by blast
qed

lemma install_ended:
  assumes made: "makes (\<lambda>q. below q (handlers_dir H)) k k1" and wf: "wf_files (nodes k)"
    and live: "live = port_handler_dir (he_pin_dir H) proto port" and m: "m = port_handler_map_path (he_pin_dir H) proto"
    and gone: "gone (nodes k) (rollback_name live (he_backup_token H))" and apart: "\<not> below (he_pin_dir H) (handlers_dir H)"
    and port: "0 \<le> port" "port < 2 ^ 32" and run: "port_handler_install H proto port object_path upd k1 = (r, k')"
  shows "ended m port live (rollback_name live (he_backup_token H)) k r k' \<and>
    (r = Inr (0, out) \<longrightarrow> (\<exists>k2. content k2 = content k \<and> port_handler_record H proto port object_path upd k2 = (r, k')))"
proof -
  let ?New = "\<lambda>q. below q (handlers_dir H) \<or> below q (path_parent live)"
  have step: "makes New k b" if "makes New k a" "makes New a b" for New a b
    using that by (rule transpD [OF makes_only_trans])
  have early: ?thesis if "makes New k k'" "r = Inl e" for New e
    using makes_failed [OF that(1), of r] that(2) by simp
  obtain q2 k2 where mk: "he_mkdir H (path_parent live) k1 = (q2, k2)" by (cases "he_mkdir H (path_parent live) k1")
  have made2: "makes ?New k k2"
    by (rule step [OF makes_only_mono [OF made] makes_only_mono [OF stepsD [OF mkdir_law mk]]]) simp_all
  show ?thesis
  proof (cases q2)
    case (Inl e)
    then have "r = Inl e" "k' = k2" using run mk by (simp_all add: port_handler_install_def Let_def live [symmetric] mseq_def mbind_def)
    then show ?thesis using early made2 by blast
  next
    case (Inr u)
    obtain q3 k3 where tmp: "he_mkdtemp H (path_parent live) (str_of_int port @ ''_next_'') k2 = (q3, k3)"
      by (cases "he_mkdtemp H (path_parent live) (str_of_int port @ ''_next_'') k2")
    show ?thesis
    proof (cases q3)
      case (Inl e)
      then have "r = Inl e" "k' = k3" using run mk Inr tmp
        by (simp_all add: port_handler_install_def Let_def live [symmetric] mseq_def mbind_def)
      moreover have "makes ?New k k3"
        using mkdtemp_law [OF tmp] Inl by (intro step [OF made2]) (auto elim: makes_only_mono)
      ultimately show ?thesis using early by blast
    next
      case (Inr cand)
      obtain x where cand: "cand = path_join (path_parent live) (str_of_int port @ ''_next_'' @ x)"
        using mkdtemp_law [OF tmp] Inr by auto
      note names = load_names [OF live cand]
      note made3 = candidate_makes(1) [OF tmp [unfolded Inr] made2 wf]
      note fresh = candidate_makes(2) [OF tmp [unfolded Inr] made2 wf]
      let ?cmd = "port_load_cmd object_path cand (map (\<lambda>name. (name, path_join (he_pin_dir H) name)) (port_shared_maps proto))"
      obtain q4 k4 where ld: "ho_run (he_os H) ?cmd k3 = (q4, k4)" by (cases "ho_run (he_os H) ?cmd k3")
      let ?All = "\<lambda>q. ?New q \<or> below cand q"
      have made4: "makes ?All k k4"
        by (rule step [OF makes_only_mono [OF made3] makes_only_mono [OF load_makes [OF refl ld]]])
          (auto simp: below_def sub_path_def)
      have gone4: "gone (nodes k4) (rollback_name live (he_backup_token H))"
        unfolding gone_def
      proof (intro allI impI)
        fix q assume q: "below (rollback_name live (he_backup_token H)) q"
        have "\<not> below q (handlers_dir H)"
          using names(4) [OF q] apart below_trans by blast
        then have "nodes k4 q = nodes k q" using made4 names(4) [OF q] unfolding makes_only_def by metis
        then show "nodes k4 q = None" using gone q by (simp add: gone_def)
      qed
      have ready: "ready (nodes k4) (he_backup_token H) cand live"
        using names(1,2) gone4 made4 wf by (simp add: ready_def makes_only_def)
      have tail: "(mbind (mtry (mseq (run_checked (he_os H) ?cmd) (ret True))
               (on_runtime (mseq (ignore_os (ho_rmtree (he_os H) cand)) (ret False)))) (\<lambda>loaded.
          if \<not> loaded then ret (1, [])
          else switch_or (dir_prog_swap (he_os H) (he_backup_token H) m port cand live)
             (port_handler_record H proto port object_path upd))) k3 = (r, k')"
        using run [unfolded port_handler_install_def Let_def, folded live m]
        unfolding mseq_run [where m = "he_mkdir H (path_parent live)", OF mk [unfolded \<open>q2 = Inr u\<close>]]
          mbind_run [where m = "he_mkdtemp H (path_parent live) (str_of_int port @ ''_next_'')", OF tmp [unfolded Inr]] .
      consider (loaded) code stdout where "q4 = Inr (code, stdout)" "code = 0" | (escapes) e where "q4 = Inl e" "e \<noteq> RuntimeErr"
        | (failed) "case q4 of Inl e \<Rightarrow> e = RuntimeErr | Inr (code, stdout) \<Rightarrow> code \<noteq> 0"
        by (cases q4) auto
      then show ?thesis
      proof cases
        case loaded
        then have "switch_or (dir_prog_swap (he_os H) (he_backup_token H) m port cand live)
             (port_handler_record H proto port object_path upd) k4 = (r, k')"
          using tail ld by (simp add: mbind_def mseq_def mtry_def run_checked_def ret_apply)
        note ended = switch_or_ended [OF made4 fresh gone ready port refl this]
        from ended(1) ended(2) [of out] show ?thesis by blast
      next
        case escapes
        then have "r = Inl e" "k' = k4"
          using tail ld by (auto simp: mbind_def mseq_def mtry_def run_checked_def on_runtime_Some split: option.splits)
        then show ?thesis using early made4 by blast
      next
        case failed
        obtain q5 k5 where rm: "ignore_os (ho_rmtree (he_os H) cand) k4 = (q5, k5)"
          by (cases "ignore_os (ho_rmtree (he_os H) cand) k4")
        have "k' = k5" "case r of Inl e \<Rightarrow> True | Inr (status, out) \<Rightarrow> status = 1"
          using tail ld rm failed
          by (cases q4; cases q5; auto simp: mbind_def mseq_def mtry_def run_checked_def ret_apply raise_apply)+
        with removal_failed [OF made4 fresh rm] show ?thesis by auto
      qed
    qed
  qed
qed

end

end
