(* ===== verification/HostStore.thy ===== *)
theory HostStore
  imports HandlerHost
begin

text \<open>
  A host on which handlers are loaded: the file system and \<open>bpftool\<close> of \<open>HandlerSafety\<close>, a disk with the configuration
  file, and the kernel of \<open>BpfKernel\<close>, side by side. It is an instance of \<open>handler_host\<close>.
\<close>

section \<open>One state of three\<close>

type_synonym host_state = "hstate \<times> disk \<times> kstate"

definition on_files :: "(hstate \<Rightarrow> 'x \<times> hstate) \<Rightarrow> host_state \<Rightarrow> 'x \<times> host_state" where
  "on_files f = (\<lambda>(h, d, s). case f h of (x, h') \<Rightarrow> (x, (h', d, s)))"

definition on_disk :: "(disk \<Rightarrow> 'x \<times> disk) \<Rightarrow> host_state \<Rightarrow> 'x \<times> host_state" where
  "on_disk f = (\<lambda>(h, d, s). case f d of (x, d') \<Rightarrow> (x, (h, d', s)))"

definition on_kernel :: "(kstate \<Rightarrow> 'x \<times> kstate) \<Rightarrow> host_state \<Rightarrow> 'x \<times> host_state" where
  "on_kernel f = (\<lambda>(h, d, s). case f s of (x, s') \<Rightarrow> (x, (h, d, s')))"

lemma on_part_run:
  "on_files f k = (x, k') \<longleftrightarrow> f (fst k) = (x, fst k') \<and> snd k' = snd k"
  "on_disk g k = (x, k') \<longleftrightarrow> g (fst (snd k)) = (x, fst (snd k')) \<and> fst k' = fst k \<and> snd (snd k') = snd (snd k)"
  "on_kernel h k = (x, k') \<longleftrightarrow> h (snd (snd k)) = (x, snd (snd k')) \<and> fst k' = fst k \<and> fst (snd k') = fst (snd k)"
  by (cases k; cases k'; auto simp: on_files_def on_disk_def on_kernel_def split: prod.splits)+

lemma on_part_snd:
  "snd (snd (on_files f k)) = snd k"
  "fst (snd (on_disk g k)) = fst k" "snd (snd (snd (on_disk g k))) = snd (snd k)"
  "fst (snd (on_kernel h k)) = fst k" "fst (snd (snd (on_kernel h k))) = fst (snd k)"
  by (cases k; simp add: on_files_def on_disk_def on_kernel_def split: prod.splits)+

section \<open>Making files\<close>

definition ancestors_exist :: "(string \<times> node) list \<Rightarrow> string \<Rightarrow> bool" where
  "ancestors_exist fs p \<longleftrightarrow>
     list_all (\<lambda>n. hd (drop n p) = CHR ''/'' \<longrightarrow> map_of fs (take n p) \<noteq> None) [0..<length p]"

lemma add_node_wf:
  assumes wf: "wf_files (map_of fs)" and up: "ancestors_exist fs p"
  shows "wf_files (map_of ((p, n) # fs))"
  unfolding wf_files_def
proof (intro allI impI)
  fix a q assume q: "sub_path q" and there: "map_of ((p, n) # fs) (a @ q) \<noteq> None"
  show "map_of ((p, n) # fs) a \<noteq> None"
  proof (cases "a @ q = p \<and> q \<noteq> []")
    case True
    then have "length a < length p" "hd (drop (length a) p) = CHR ''/''" "take (length a) p = a"
      using q by (auto simp: sub_path_def)
    then have "map_of fs a \<noteq> None" using up unfolding ancestors_exist_def list_all_iff by (metis atLeastLessThan_iff le0 set_upt)
    then show ?thesis by simp
  next
    case False
    then show ?thesis using wf q there unfolding wf_files_def by (auto split: if_splits)
  qed
qed

text \<open>\<open>mkdir(parents=True)\<close>: the directories from the root down that are not there.\<close>

definition add_dir :: "string \<Rightarrow> (string \<times> node) list \<Rightarrow> (string \<times> node) list" where
  "add_dir p fs = (if map_of fs p = None then (p, Dir) # fs else fs)"

definition dirs_of :: "string \<Rightarrow> string list" where
  "dirs_of p = map (\<lambda>n. take n p) (filter (\<lambda>n. n = length p \<or> hd (drop n p) = CHR ''/'') [0..<Suc (length p)])"

definition add_dirs :: "string \<Rightarrow> (string \<times> node) list \<Rightarrow> (string \<times> node) list" where
  "add_dirs p fs = filter (\<lambda>(q, n). map_of fs q = None) (map (\<lambda>q. (q, Dir)) (dirs_of p)) @ fs"

lemma set_dirs_of: "q \<in> set (dirs_of p) \<longleftrightarrow> below q p"
proof
  assume "q \<in> set (dirs_of p)"
  then obtain n where "q = take n p" "n = length p \<or> hd (drop n p) = CHR ''/''"
    unfolding dirs_of_def set_map set_filter by blast
  then have "p = q @ drop n p" "sub_path (drop n p)" by (auto simp: sub_path_def)
  then show "below q p" unfolding below_def by blast
next
  assume "below q p"
  then obtain s where s: "p = q @ s" "sub_path s" by (auto simp: below_def)
  then have "length q = length p \<or> hd (drop (length q) p) = CHR ''/''" by (auto simp: sub_path_def)
  moreover have "q = take (length q) p" "length q \<in> set [0..<Suc (length p)]" using s(1) by simp_all
  ultimately show "q \<in> set (dirs_of p)" unfolding dirs_of_def set_map set_filter by blast
qed

lemma map_of_add_dirs:
  "map_of (add_dirs p fs) q = (if map_of fs q \<noteq> None then map_of fs q else if below q p then Some Dir else None)"
proof -
  have "map_of (filter (\<lambda>(q, n). map_of fs q = None) (map (\<lambda>q. (q, Dir)) ds)) q =
      (if q \<in> set ds \<and> map_of fs q = None then Some Dir else None)" for ds
    by (induction ds) auto
  then show ?thesis by (auto simp: add_dirs_def map_add_def set_dirs_of split: option.splits)
qed

lemma add_dirs_wf: "wf_files (map_of fs) \<Longrightarrow> wf_files (map_of (add_dirs p fs))"
  unfolding wf_files_def map_of_add_dirs
proof (intro allI impI)
  fix a q
  assume wf: "\<forall>p q. sub_path q \<longrightarrow> map_of fs (p @ q) \<noteq> None \<longrightarrow> map_of fs p \<noteq> None" and q: "sub_path q"
    and there: "(if map_of fs (a @ q) \<noteq> None then map_of fs (a @ q) else if below (a @ q) p then Some Dir else None) \<noteq> None"
  have "below a (a @ q)" using q unfolding below_def by blast
  then show "(if map_of fs a \<noteq> None then map_of fs a else if below a p then Some Dir else None) \<noteq> None"
    using there wf q below_trans [of a "a @ q" p] by (auto split: if_splits)
qed

definition make_node :: "string \<Rightarrow> node \<Rightarrow> 'a res \<Rightarrow> 'a res \<Rightarrow> (hstate, 'a) pym" where
  "make_node p n yes no = planned (\<lambda>k.
     if map_of (hs_files k) p = None \<and> ancestors_exist (hs_files k) p
     then (yes, k\<lparr>hs_files := (p, n) # hs_files k\<rparr>) else (no, k)) no"

lemma make_node_cases:
  assumes "make_node p n yes no h = (r, h')"
  shows "hs_arrays h' = hs_arrays h \<and>
    (r = no \<and> hs_files h' = hs_files h \<or>
     r = yes \<and> hs_files h' = (p, n) # hs_files h \<and> map_of (hs_files h) p = None \<and> ancestors_exist (hs_files h) p)"
  using planned_cases [OF assms [unfolded make_node_def]] by (auto split: if_splits)

section \<open>The host\<close>

definition is_load :: "string list \<Rightarrow> bool" where
  "is_load cmd \<longleftrightarrow> take 3 cmd = [''bpftool'', ''prog'', ''load'']"

definition host_run :: "string list \<Rightarrow> (hstate, int \<times> string) pym" where
  "host_run cmd = (if is_load cmd then make_node (cmd ! 4) (Pin 9) (Inr (0, [])) (Inr (1, []))
     else if hd cmd \<in> {''gcc'', ''clang''} then ret (0, []) else ho_run hs_os cmd)"

definition host_os :: "host_state handler_os" where
  "host_os =
     \<lparr>ho_exists = \<lambda>p k. ho_exists hs_os p (fst k), ho_rename = \<lambda>a b. on_files (ho_rename hs_os a b),
      ho_unlink = \<lambda>p. on_files (ho_unlink hs_os p), ho_rmtree = \<lambda>p. on_files (ho_rmtree hs_os p),
      ho_run = \<lambda>cmd. on_files (host_run cmd), ho_json = ho_json hs_os\<rparr>"

definition host_kernel :: "host_state kernel" where
  "host_kernel =
     \<lparr>sys_update = \<lambda>fd key v fl. on_kernel (sys_update store_kernel fd key v fl),
      sys_lookup = \<lambda>fd key fl. on_kernel (sys_lookup store_kernel fd key fl),
      sys_delete = \<lambda>fd key. on_kernel (sys_delete store_kernel fd key),
      sys_next_key = \<lambda>fd cur. on_kernel (sys_next_key store_kernel fd cur),
      sys_lookup_batch = \<lambda>fd n. on_kernel (sys_lookup_batch store_kernel fd n),
      sys_obj_get = \<lambda>p. on_kernel (sys_obj_get store_kernel p),
      sys_info = \<lambda>fd. on_kernel (sys_info store_kernel fd),
      sys_map_create = \<lambda>attr name. on_kernel (sys_map_create store_kernel attr name),
      sys_fd_by_id = \<lambda>attr. on_kernel (sys_fd_by_id store_kernel attr),
      sys_close = \<lambda>fd k. snd (on_kernel (\<lambda>s. ((), sys_close store_kernel fd s)) k),
      sys_monotonic_ns = on_kernel (sys_monotonic_ns store_kernel),
      sys_exists = \<lambda>p k. sys_exists store_kernel p (snd (snd k))\<rparr>"

definition host_config :: "host_state config_io" where
  "host_config = \<lparr>io_path = disk_path, io_exists = \<lambda>k. io_exists disk_io (fst (snd k)), io_read = on_disk (io_read disk_io),
     io_mkdir = on_disk (io_mkdir disk_io), io_mktemp = on_disk (io_mktemp disk_io),
     io_write = \<lambda>p txt. on_disk (io_write disk_io p txt), io_replace = \<lambda>p. on_disk (io_replace disk_io p)\<rparr>"

definition host_admin :: "host_state admin_env" where
  "host_admin = \<lparr>ae_tomllib = None, ae_file = host_config, ae_rep = (\<lambda>_. []), ae_float_repr = (\<lambda>_. []),
     ae_builtin_slot = (\<lambda>_. None), ae_config_path = ''c''\<rparr>"

definition host_env :: "host_state handler_env" where
  "host_env =
     \<lparr>he_os = host_os, he_kernel = host_kernel, he_fuel = 9, he_admin = host_admin,
      he_is_file = (\<lambda>p k. p = ''h.o''), he_is_dir = (\<lambda>p k. False), he_iterdir = (\<lambda>p k. []), he_read_text = (\<lambda>p k. None),
      he_mkdir = (\<lambda>p. on_files (planned (\<lambda>h. (Inr (), h\<lparr>hs_files := add_dirs p (hs_files h)\<rparr>)) (Inl (OSError EACCES)))),
      he_mkdtemp = (\<lambda>dir prefix. let p = path_join dir (prefix @ ''x'') in on_files (make_node p Dir (Inr p) (Inl (OSError EACCES)))),
      he_resolve = ret, he_template = [],
      he_machine = ''x86_64'', he_release = ''r'', he_candidate_token = ''n'', he_backup_token = ''t'', he_slots = [],
      he_pin_dir = ''p'', he_install_dir = ''i'', he_handlers_dir = ''d''\<rparr>"

lemma host_sels [simp]:
  "he_os host_env = host_os" "he_kernel host_env = host_kernel" "he_admin host_env = host_admin" "ae_file host_admin = host_config"
  "ho_exists host_os p k = ho_exists hs_os p (fst k)" "ho_rename host_os a b = on_files (ho_rename hs_os a b)"
  "ho_unlink host_os p = on_files (ho_unlink hs_os p)" "ho_rmtree host_os p = on_files (ho_rmtree hs_os p)"
  "ho_run host_os cmd = on_files (host_run cmd)" "ho_json host_os = ho_json hs_os"
  by (simp_all add: host_env_def host_os_def host_admin_def)

lemma host_run_other:
  "host_run (show_cmd p) = ho_run hs_os (show_cmd p)" "host_run (lookup_cmd m key) = ho_run hs_os (lookup_cmd m key)"
  "host_run (update_cmd m key p) = ho_run hs_os (update_cmd m key p)" "host_run (delete_cmd m args) = ho_run hs_os (delete_cmd m args)"
  by (simp_all add: host_run_def is_load_def show_cmd_def lookup_cmd_def update_cmd_def delete_cmd_def)

lemma host_handler_kernel: "handler_kernel host_os (\<lambda>k. hs_nodes (fst k)) (\<lambda>k. hs_entries (fst k)) (\<lambda>_. {})"
  by (unfold_locales; unfold host_sels host_run_other; (unfold on_part_run, elim conjE)?;
      (drule (1) hs.rename_law | drule hs.unlink_law | drule hs.rmtree_law | drule hs.show_law | drule (2) hs.lookup_law
       | drule (2) hs.update_law | drule (1) hs.delete_law | rule hs.exists_law))

lemma host_config_store: "config_store host_config (\<lambda>k. fst (fst (snd k)) disk_path) (\<lambda>k. fst (fst (snd k)))"
  by (unfold_locales; unfold host_config_def config_io.simps; (unfold on_part_run, elim conjE)?;
      (drule (1) disk.write_only | drule disk.read_keeps disk.read_content disk.mkdir_keeps disk.mktemp_fails
         disk.mktemp_other disk.write_text disk.replace_fails disk.replace_moves | rule disk.exists_iff)?;
      (simp add: disk_io_def; fail)?)

text \<open>What the parts of the state have to do with one another.\<close>

lemma on_part_keeps:
  "keeps (\<lambda>k. (fst (fst (snd k)) disk_path, snd (snd k))) (on_files f)"
  "keeps (\<lambda>k. (hs_nodes (fst k), hs_entries (fst k))) (on_disk g)"
  "keeps (\<lambda>k. (hs_nodes (fst k), hs_entries (fst k), fst (fst (snd k)) disk_path)) (bpf (on_kernel h))"
proof -
  have "fst (snd (bpf (on_kernel h) k)) = fst k" "fst (snd (snd (bpf (on_kernel h) k))) = fst (snd k)" for k
    using on_part_snd(4,5) [of h k] by (cases "on_kernel h k"; cases "fst (on_kernel h k)"; simp add: bpf_def)+
  then show "keeps (\<lambda>k. (hs_nodes (fst k), hs_entries (fst k), fst (fst (snd k)) disk_path)) (bpf (on_kernel h))" by (simp add: keeps_def)
qed (simp_all add: keeps_def on_part_snd)

lemma make_node_makes:
  assumes "make_node p n yes no h = (r, h')"
  shows "makes_only hs_nodes hs_entries (\<lambda>q. q = p) h h'"
    and "r \<noteq> no \<Longrightarrow> hs_nodes h p = None"
proof -
  note made = make_node_cases [OF assms]
  then show "makes_only hs_nodes hs_entries (\<lambda>q. q = p) h h'"
    using add_node_wf [of "hs_files h" p n] by (auto simp: makes_only_def hs_nodes_def hs_entries_def split: if_splits)
  show "r \<noteq> no \<Longrightarrow> hs_nodes h p = None" using made by (auto simp: hs_nodes_def)
qed

lemma host_run_makes:
  assumes "is_load cmd"
  shows "steps (makes_only (\<lambda>k. hs_nodes (fst k)) (\<lambda>k. hs_entries (fst k)) (\<lambda>q. q = cmd ! 4)) (on_files (host_run cmd))"
  unfolding steps_def on_part_run
proof (intro allI impI, elim conjE)
  fix k :: host_state and r and k' :: host_state
  assume "host_run cmd (fst k) = (r, fst k')"
  then have "make_node (cmd ! 4) (Pin 9) (Inr (0, [])) (Inr (1, [])) (fst k) = (r, fst k')" using assms by (simp add: host_run_def)
  from make_node_makes(1) [OF this]
  show "makes_only (\<lambda>k. hs_nodes (fst k)) (\<lambda>k. hs_entries (fst k)) (\<lambda>q. q = cmd ! 4) k k'" by (simp add: makes_only_def)
qed

lemma host_compile: "cmd \<noteq> [] \<Longrightarrow> hd cmd \<in> {''gcc'', ''clang''} \<Longrightarrow> host_run cmd = ret (0, [])"
  by (cases cmd) (auto simp: host_run_def is_load_def)

lemma host_mkdir:
  "steps (makes_only (\<lambda>k. hs_nodes (fst k)) (\<lambda>k. (hs_entries (fst k), fst (fst (snd k)) disk_path, snd (snd k))) (\<lambda>q. below q p)) (he_mkdir host_env p)"
  unfolding steps_def
proof (intro allI impI)
  fix k :: host_state and r and k' :: host_state
  assume "he_mkdir host_env p k = (r, k')"
  then have run: "planned (\<lambda>h. (Inr (), h\<lparr>hs_files := add_dirs p (hs_files h)\<rparr>)) (Inl (OSError EACCES)) (fst k) = (r, fst k')" "snd k' = snd k"
    by (simp_all add: host_env_def on_part_run)
  then have "hs_arrays (fst k') = hs_arrays (fst k) \<and>
      (hs_files (fst k') = hs_files (fst k) \<or> hs_files (fst k') = add_dirs p (hs_files (fst k)))"
    by (auto dest!: planned_cases simp: eq_commute [of _ "fst k'"])
  then show "makes_only (\<lambda>k. hs_nodes (fst k)) (\<lambda>k. (hs_entries (fst k), fst (fst (snd k)) disk_path, snd (snd k))) (\<lambda>q. below q p) k k'"
    using run(2) add_dirs_wf [of "hs_files (fst k)" p]
    by (auto simp: makes_only_def hs_nodes_def hs_entries_def map_of_add_dirs split: if_splits)
qed

lemma host_mkdtemp:
  assumes "he_mkdtemp host_env dir prefix k = (r, k')"
  shows "case r of
     Inr p \<Rightarrow> (\<exists>x. p = path_join dir (prefix @ x)) \<and> hs_nodes (fst k) p = None \<and>
       makes_only (\<lambda>k. hs_nodes (fst k)) (\<lambda>k. (hs_entries (fst k), fst (fst (snd k)) disk_path, snd (snd k))) (\<lambda>q. q = p) k k'
   | Inl e \<Rightarrow> makes_only (\<lambda>k. hs_nodes (fst k)) (\<lambda>k. (hs_entries (fst k), fst (fst (snd k)) disk_path, snd (snd k))) (\<lambda>q. False) k k'"
proof -
  let ?p = "path_join dir (prefix @ ''x'')"
  have run: "make_node ?p Dir (Inr ?p) (Inl (OSError EACCES)) (fst k) = (r, fst k')" "snd k' = snd k"
    using assms by (simp_all add: host_env_def on_part_run Let_def)
  note made = make_node_cases [OF run(1)] make_node_makes [OF run(1)]
  show ?thesis
  proof (cases r)
    case (Inl e)
    with made(1) run(2) show ?thesis by (auto simp: makes_only_def hs_nodes_def hs_entries_def)
  next
    case (Inr p)
    with made run(2) show ?thesis by (auto simp: makes_only_def)
  qed
qed

lemma host_kernel_sels:
  "sys_lookup host_kernel fd key flags = on_kernel (sys_lookup store_kernel fd key flags)"
  "sys_delete host_kernel fd key = on_kernel (sys_delete store_kernel fd key)"
  "sys_next_key host_kernel fd cur = on_kernel (sys_next_key store_kernel fd cur)"
  "sys_obj_get host_kernel p = on_kernel (sys_obj_get store_kernel p)"
  "sys_close host_kernel fd k = snd (on_kernel (\<lambda>s. ((), sys_close store_kernel fd s)) k)"
  by (simp_all add: host_kernel_def)

interpretation host: handler_host host_env "\<lambda>k. hs_nodes (fst k)" "\<lambda>k. hs_entries (fst k)" "\<lambda>_. {}"
  "\<lambda>k. fst (fst (snd k)) disk_path" "\<lambda>k. fst (fst (snd k))" "\<lambda>k. snd (snd k)"
proof (intro handler_host.intro handler_host_axioms.intro)
  show "handler_kernel (he_os host_env) (\<lambda>k. hs_nodes (fst k)) (\<lambda>k. hs_entries (fst k)) (\<lambda>_. {})"
    by (simp add: host_handler_kernel)
  show "config_store (ae_file (he_admin host_env)) (\<lambda>k. fst (fst (snd k)) disk_path) (\<lambda>k. fst (fst (snd k)))" by (simp add: host_config_store)
next
  fix cmd :: "string list"
  assume load: "take 3 cmd = [''bpftool'', ''prog'', ''load'']"
  show "steps (makes_only (\<lambda>k. hs_nodes (fst k)) (\<lambda>k. hs_entries (fst k)) (\<lambda>q. q = cmd ! 4 \<or> cmd ! 7 = ''pinmaps'' \<and> below (cmd ! 8) q))
      (ho_run (he_os host_env) cmd)"
    using load by (simp add: steps_mono [OF host_run_makes] is_load_def makes_only_mono)
next
  fix cmd :: "string list"
  assume "cmd \<noteq> []" "hd cmd \<in> {''gcc'', ''clang''}"
  then show "keeps (\<lambda>k. (hs_nodes (fst k), hs_entries (fst k))) (ho_run (he_os host_env) cmd)"
    by (simp add: host_compile) (auto simp: keeps_def on_files_def ret_apply)
next
  fix dir prefix and k :: host_state and r k'
  show "he_mkdtemp host_env dir prefix k = (r, k') \<Longrightarrow>
      (case r of
         Inr p \<Rightarrow> (\<exists>x. p = path_join dir (prefix @ x)) \<and> hs_nodes (fst k) p = None \<and>
           makes_only (\<lambda>k. hs_nodes (fst k)) (\<lambda>k. (hs_entries (fst k), fst (fst (snd k)) disk_path, snd (snd k))) (\<lambda>q. q = p) k k'
       | Inl e \<Rightarrow> makes_only (\<lambda>k. hs_nodes (fst k)) (\<lambda>k. (hs_entries (fst k), fst (fst (snd k)) disk_path, snd (snd k))) (\<lambda>q. False) k k')"
    by (rule host_mkdtemp)
qed ((simp add: host_mkdir on_part_keeps host_kernel_sels host_config_def; fail)
    | (simp add: host_env_def host_kernel_sels on_part_keeps keeps_def on_part_snd ret_apply; fail))+

end
