(* ===== verification/FlushProps.thy ===== *)
theory FlushProps
  imports HandlerCmds BpfMapProps
begin

text \<open>Flushing the flows of a port, from \<open>auto_xdp/admin_cli.py\<close>.\<close>

section \<open>The flows of a port\<close>

text \<open>
  \<open>port_of\<close> reads the port a flow belongs to from its key and value: \<open>tcp_pd4\<close> and \<open>tcp_pd6\<close> have it in the
  value, \<open>udp_hv4\<close> and \<open>udp_hv6\<close> in the key.
\<close>

definition port_flows :: "(bytes \<Rightarrow> bytes \<Rightarrow> int res) \<Rightarrow> (bytes, bytes) dict \<Rightarrow> int \<Rightarrow> bytes set" where
  "port_flows port_of flows port = {key. \<exists>v. dict_get flows key = Some v \<and> port_of key v = Inr port}"

definition without_flows :: "bytes set \<Rightarrow> (bytes, bytes) dict \<Rightarrow> bytes \<Rightarrow> bytes option" where
  "without_flows D flows = (\<lambda>key. if key \<in> D then None else dict_get flows key)"

context bpf_kernel
begin

text \<open>What the loop relies on: the port is read without a change, and an error says that the flow is gone, or is another one.\<close>

definition reads_port :: "int \<Rightarrow> (bytes \<Rightarrow> bytes \<Rightarrow> int res) \<Rightarrow> (bytes \<Rightarrow> ('k, int) pym) \<Rightarrow> bool" where
  "reads_port fd port_of P \<longleftrightarrow> (\<forall>key k r k'. P key k = (r, k') \<longrightarrow> entries k' fd = entries k fd \<and>
     (case r of
        Inr p \<Rightarrow> \<forall>v. dict_get (entries k fd) key = Some v \<longrightarrow> port_of key v = Inr p
      | Inl e \<Rightarrow> e = OSError ENOENT \<and> dict_get (entries k fd) key = None \<or>
          e \<in> insert StructErr (range OSError) - {OSError ENOENT}))"

lemma reads_value: "fd \<in> owned \<Longrightarrow> reads_port fd (\<lambda>key v. unpack_le 4 v 0) (lookup_value K fd)"
  unfolding reads_port_def
proof (intro allI impI)
  fix key k r k'
  assume fd: "fd \<in> owned" and run: "lookup_value K fd key k = (r, k')"
  obtain q k1 where look: "sys_lookup K fd key 0 k = (q, k1)" by (cases "sys_lookup K fd key 0 k")
  have same: "entries k1 fd = entries k fd" using lookup_frame [OF fd, of fd key 0 k] look by simp
  show "entries k' fd = entries k fd \<and>
     (case r of Inr p \<Rightarrow> \<forall>v. dict_get (entries k fd) key = Some v \<longrightarrow> unpack_le 4 v 0 = Inr p
      | Inl e \<Rightarrow> e = OSError ENOENT \<and> dict_get (entries k fd) key = None \<or> e \<in> insert StructErr (range OSError) - {OSError ENOENT})"
  proof (cases q)
    case (Inl n)
    with run look same lookup_enoent [OF fd, of key 0 k k1] show ?thesis
      by (auto simp: lookup_value_def bpf_def mbind_def)
  next
    case (Inr v)
    with run look same lookup_ok [OF fd, of key 0 k v k1] show ?thesis
      by (auto simp: lookup_value_def bpf_def mbind_def unpack_le_def split: if_splits)
  qed
qed

lemma reads_key: "reads_port fd (\<lambda>key v. key_port key) (\<lambda>key. mlift (key_port key))"
  by (auto simp: reads_port_def key_port_def unpack_be_def split: if_splits)

lemma delete_flows_spec:
  assumes fd: "fd \<in> owned" and P: "reads_port fd port_of P" and "distinct keys"
    and "set keys \<subseteq> dict_keys (entries k fd)"
    and "delete_flows K fd P port keys n k = (r, k')"
  shows "\<exists>D. D \<subseteq> set keys \<inter> port_flows port_of (entries k fd) port \<and>
    dict_get (entries k' fd) = without_flows D (entries k fd) \<and>
    (case r of Inr m \<Rightarrow> m = n + card D \<and> D = set keys \<inter> port_flows port_of (entries k fd) port
     | Inl e \<Rightarrow> e \<in> insert StructErr (range OSError))"
  using assms(3-)
proof (induction keys arbitrary: k n)
  case Nil
  then show ?case by (auto simp: without_flows_def)
next
  case (Cons key keys)
  obtain q k1 where read: "P key k = (q, k1)" by (cases "P key k")
  note P = P [unfolded reads_port_def, rule_format, OF read]
  from Cons.prems(2) obtain v where v: "dict_get (entries k fd) key = Some v"
    by (auto simp: dict_keys_dom)
  show ?case
  proof (cases q)
    case (Inl e)
    then have "e \<in> insert StructErr (range OSError) - {OSError ENOENT}" using P v by simp
    then have "r = Inl e" "k' = k1" using Cons.prems(3) read Inl
      by (auto simp: mbind_def mtry_def raise_apply split: if_splits)
    with P Inl \<open>e \<in> _\<close> show ?thesis by (intro exI [of _ "{}"]) (auto simp: without_flows_def)
  next
    case (Inr p)
    then have p: "port_of key v = Inr p" using P v by simp
    show ?thesis
    proof (cases "p = port")
      case False
      then have "delete_flows K fd P port keys n k1 = (r, k')" using Cons.prems(3) read Inr
        by (simp add: mbind_def mtry_def ret_apply)
      moreover have k1: "entries k1 fd = entries k fd" using P by simp
      ultimately obtain D where D: "D \<subseteq> set keys \<inter> port_flows port_of (entries k fd) port"
        "dict_get (entries k' fd) = without_flows D (entries k fd)"
        "case r of Inr m \<Rightarrow> m = n + card D \<and> D = set keys \<inter> port_flows port_of (entries k fd) port
         | Inl e \<Rightarrow> e \<in> insert StructErr (range OSError)"
        using Cons.IH [of k1 n, unfolded k1] Cons.prems(1,2) by auto
      moreover have "key \<notin> port_flows port_of (entries k fd) port" using False p v by (simp add: port_flows_def)
      ultimately show ?thesis by (intro exI [of _ D]) (auto split: sum.splits)
    next
      case True
      obtain d k2 where del: "sys_delete K fd key k1 = (d, k2)" by (cases "sys_delete K fd key k1")
      have here: "key \<in> port_flows port_of (entries k fd) port" using True p v by (simp add: port_flows_def)
      show ?thesis
      proof (cases d)
        case (Inl e)
        then have "e \<noteq> ENOENT" using delete_enoent [OF fd] del P v by fastforce
        then have "r = Inl (OSError e)" "k' = k2" using Cons.prems(3) read Inr del Inl True
          by (auto simp: mbind_def mseq_def mtry_def bpf_def raise_apply)
        moreover have "entries k2 fd = entries k fd" using delete_err [OF fd] del Inl P by metis
        ultimately show ?thesis by (intro exI [of _ "{}"]) (auto simp: without_flows_def)
      next
        case (Inr u)
        have rest: "delete_flows K fd P port keys (Suc n) k2 = (r, k')" using Cons.prems(3) read \<open>q = Inr p\<close> del Inr True
          by (simp add: mbind_def mseq_def mtry_def bpf_def ret_apply)
        have k2: "dict_get (entries k2 fd) = (dict_get (entries k fd))(key := None)"
          using delete_ok [OF fd] del Inr P by (metis old.unit.exhaust)
        have flows: "port_flows port_of (entries k2 fd) port = port_flows port_of (entries k fd) port - {key}"
          by (auto simp: port_flows_def k2 split: if_splits)
        have "set keys \<subseteq> dict_keys (entries k2 fd)" using Cons.prems(1,2) by (auto simp: dict_keys_dom k2)
        from Cons.IH [OF _ this rest] Cons.prems(1)
        obtain D where D: "D \<subseteq> set keys \<inter> port_flows port_of (entries k2 fd) port"
          "dict_get (entries k' fd) = without_flows D (entries k2 fd)"
          "case r of Inr m \<Rightarrow> m = Suc n + card D \<and> D = set keys \<inter> port_flows port_of (entries k2 fd) port
           | Inl e \<Rightarrow> e \<in> insert StructErr (range OSError)" by auto
        then have fin: "finite D" "key \<notin> D" using Cons.prems(1) finite_subset [of D "set keys"] by auto
        have "dict_get (entries k' fd) = without_flows (insert key D) (entries k fd)"
          by (auto simp: D(2) without_flows_def k2)
        then show ?thesis using D(1,3) here Cons.prems(1) fin unfolding flows
          by (intro exI [of _ "insert key D"]) (auto split: sum.splits)
      qed
    qed
  qed
qed

end

text \<open>
  \<open>admin_cli.py\<close>, \<open>_BpfPendingConntrackMap.delete_for_port\<close> and \<open>delete_key_port\<close>: flushing a port ends. If it
  reports a number, it has deleted exactly the flows of that port, and the number is how many there
  were; if it raises, it has deleted some of them. Every other flow stays with its value.
\<close>

theorem flush_deletes_port_flows:
  assumes kernel: "bpf_kernel K entries owned" "fd \<in> owned" "length (entries k fd) < fuel"
    and flush: "(flush, port_of) \<in> {(delete_for_port, \<lambda>key v. unpack_le 4 v 0), (delete_key_port, \<lambda>key v. key_port key)}"
    and run: "flush fuel K fd port k = (r, k')"
  shows "\<exists>D. D \<subseteq> port_flows port_of (entries k fd) port \<and> dict_get (entries k' fd) = without_flows D (entries k fd) \<and>
    (case r of Inr n \<Rightarrow> n = card D \<and> D = port_flows port_of (entries k fd) port
     | Inl e \<Rightarrow> e \<in> insert StructErr (range OSError))"
proof -
  obtain P where P: "bpf_kernel.reads_port entries fd port_of P"
    and flush: "flush fuel K fd port = mbind (collect_keys fuel K fd) (\<lambda>keys. delete_flows K fd P port keys 0)"
    using flush bpf_kernel.reads_value [OF kernel(1,2)] bpf_kernel.reads_key [OF kernel(1), of fd]
    by (elim insertE) (auto simp: delete_for_port_def delete_key_port_def)
  obtain q k1 where coll: "collect_keys fuel K fd k = (q, k1)" by (cases "collect_keys fuel K fd k")
  note keys = bpf_kernel.collect_keys_spec [OF kernel coll]
  then have same: "entries k1 fd = entries k fd" using kernel(2) by (simp add: seen_eq_iff)
  show ?thesis
  proof (cases q)
    case (Inl e)
    with run flush coll same keys show ?thesis
      by (intro exI [of _ "{}"]) (auto simp: mbind_def without_flows_def)
  next
    case (Inr ks)
    with keys have ks: "ks = map fst (entries k fd)" by simp
    then have set: "set ks = dict_keys (entries k fd)" by (simp add: dict_keys_def)
    have "distinct ks" using bpf_kernel.entries_ok [OF kernel(1,2)] by (simp add: ks dict_ok_def)
    moreover have "delete_flows K fd P port ks 0 k1 = (r, k')" using run coll Inr by (simp add: flush mbind_def)
    ultimately obtain D where "D \<subseteq> set ks \<inter> port_flows port_of (entries k fd) port"
      "dict_get (entries k' fd) = without_flows D (entries k fd)"
      "case r of Inr m \<Rightarrow> m = 0 + card D \<and> D = set ks \<inter> port_flows port_of (entries k fd) port
       | Inl e \<Rightarrow> e \<in> insert StructErr (range OSError)"
      using bpf_kernel.delete_flows_spec [OF kernel(1,2) P, of ks k1 port 0 r k', unfolded same] set by auto
    moreover have "port_flows port_of (entries k fd) port \<subseteq> set ks" by (auto simp: port_flows_def set dict_keys_dom)
    ultimately show ?thesis by (intro exI [of _ D]) (auto split: sum.splits)
  qed
qed

theorem flush_deletes_port_flows_witness:
  "\<exists>k'. delete_key_port 3 store_kernel 5 1 (ex_kernel []) = (Inr 1, k') \<and>
     dict_get (kentries k' 5) (ex_flow 1) = None \<and> dict_get (kentries k' 5) (ex_flow 0) = Some (le_bytes 8 90)"
proof -
  let ?f = "kentries (ex_kernel []) 5"
  have start: "length ?f < 3" "dict_get ?f (ex_flow 1) = Some (le_bytes 8 10)" "dict_get ?f (ex_flow 0) = Some (le_bytes 8 90)"
    "key_port (ex_flow 1) = Inr 1" "key_port (ex_flow 0) = Inr 0" by code_simp+
  have "fst (delete_key_port 3 store_kernel 5 1 (ex_kernel [])) = Inr 1" by code_simp
  then obtain k' where run: "delete_key_port 3 store_kernel 5 1 (ex_kernel []) = (Inr 1, k')" by (metis prod.collapse)
  from flush_deletes_port_flows [where flush = delete_key_port and port_of = "\<lambda>key v. key_port key",
      OF store.bpf_kernel_axioms _ start(1) _ run]
  have "dict_get (kentries k' 5) = without_flows (port_flows (\<lambda>key v. key_port key) ?f 1) ?f" by auto
  then show ?thesis using run start by (auto simp: without_flows_def port_flows_def)
qed

end
