(* ===== verification/HandlerCmdProps.thy ===== *)
theory HandlerCmdProps
  imports HostStore FlushProps
begin

text \<open>The properties of loading and unloading a port handler, and a host that satisfies what is assumed.\<close>

context handler_host
begin

lemma port_load_ended:
  assumes wf: "wf_files (nodes k)" and apart: "\<not> below (he_pin_dir H) (handlers_dir H)"
    and live: "live = port_handler_dir (he_pin_dir H) (str_lower proto) port"
    and gone: "gone (nodes k) (rollback_name live (he_backup_token H))"
    and run: "cmd_port_handler_load H proto port path upd k = (r, k')"
  shows "ended (port_handler_map_path (he_pin_dir H) (str_lower proto)) port live (rollback_name live (he_backup_token H)) k r k' \<and>
    (r = Inr (0, out) \<longrightarrow>
      (\<exists>object_path k2. content k2 = content k \<and> port_handler_record H (str_lower proto) port object_path upd k2 = (r, k')))"
proof (cases "0 < port \<and> port \<le> 65535")
  case False
  then have "r = Inl ValueErr" "k' = k"
    using run by (auto simp: cmd_port_handler_load_def Let_def normalize_handler_port_def raise_apply)
  then show ?thesis using makes_failed [of "\<lambda>_. False" k k' r] by (simp add: makes_only_def)
next
  case True
  obtain q1 k1 where obj: "object_of H path (str_lower proto) (Some port) k = (q1, k1)"
    by (cases "object_of H path (str_lower proto) (Some port) k")
  note made = stepsD [OF object_of_makes obj]
  have failed: ?thesis if "makes New k k'" "case r of Inl e \<Rightarrow> True | Inr (status, out) \<Rightarrow> status = 1" for New
    using makes_failed [OF that] that(2) by auto
  show ?thesis
  proof (cases "\<exists>object_path. q1 = Inr (Some object_path) \<and> he_is_file H object_path k1")
    case False
    then have "k' = k1" "case r of Inl e \<Rightarrow> True | Inr (status, out) \<Rightarrow> status = 1"
      using run obj True by (auto simp: cmd_port_handler_load_def Let_def normalize_handler_port_def mbind_def ret_apply split: sum.splits option.splits)
    then show ?thesis using failed made by simp
  next
    case there: True
    then obtain object_path where q1: "q1 = Inr (Some object_path)" "he_is_file H object_path k1" by blast
    obtain q2 k2 where res: "he_resolve H object_path k1 = (q2, k2)" by (cases "he_resolve H object_path k1")
    have made2: "makes (\<lambda>q. below q (handlers_dir H)) k k2"
      using made stepsD [OF resolve_makes res] by (rule transpD [OF makes_only_trans])
    show ?thesis
    proof (cases "k' = k2 \<and> (case r of Inl e \<Rightarrow> True | Inr (status, out) \<Rightarrow> status = 1)")
      case True
      then show ?thesis using failed made2 by blast
    next
      case False
      then obtain resolved where "q2 = Inr resolved" and
        inst: "port_handler_install H (str_lower proto) port resolved upd k2 = (r, k')"
        using run obj True q1 res
        by (auto simp: cmd_port_handler_load_def Let_def normalize_handler_port_def mbind_def ret_apply split: sum.splits if_splits)
      from install_ended [OF made2 wf live refl gone apart _ _ inst, of out] True show ?thesis by auto
    qed
  qed
qed

lemma record_content:
  assumes "port_handler_record H proto port object_path upd k = (Inr (0, out), k')"
  shows "if upd then content k' = content k
    else \<forall>text. content k = Some text \<longrightarrow> (\<exists>doc doc' text'.
      (case ae_tomllib (he_admin H) of Some load \<Rightarrow> load text | None \<Rightarrow> parse_toml_fallback text) = Inr doc \<and>
      edit_port_handler proto port (Some object_path) doc = Inr doc' \<and>
      toml_text (ae_float_repr (he_admin H)) doc' = Inr text' \<and> content k' = Some text')"
proof -
  from assms obtain u k1 where flush: "flush_port H proto port k = (Inr u, k1)"
    and rec: "mwhen (\<not> upd) (mseq (ensure_config_exists H)
      (port_handler_config_update (he_admin H) proto port (Some object_path))) k1 = (Inr (), k')"
    unfolding port_handler_record_def mseq_Inr_iff by auto
  have same: "content k1 = content k" using keepsD [OF flush_port_keeps, of proto port k] flush by simp
  show ?thesis
  proof (cases upd)
    case True
    then show ?thesis using rec same by (simp add: mwhen_def)
  next
    case False
    have "\<exists>doc doc' text'.
      (case ae_tomllib (he_admin H) of Some load \<Rightarrow> load t0 | None \<Rightarrow> parse_toml_fallback t0) = Inr doc \<and>
      edit_port_handler proto port (Some object_path) doc = Inr doc' \<and>
      toml_text (ae_float_repr (he_admin H)) doc' = Inr text' \<and> content k' = Some text'" if old: "content k = Some t0" for t0
    proof (rule config_update_content)
      have "io_exists (ae_file (he_admin H)) k1" using exists_iff [of k1] old same by simp
      then show "port_handler_config_update (he_admin H) proto port (Some object_path) k1 = (Inr (), k')"
        using rec False by (simp add: mwhen_def ensure_config_exists_def mseq_def mbind_def ret_apply)
    qed (use old same in simp)
    then show ?thesis using False by simp
  qed
qed

lemma cleanup_effect:
  assumes run: "cleanup_existing_port_handler H proto port k = (r, k')" and port: "0 \<le> port"
    and live: "live = port_handler_dir (he_pin_dir H) proto port" and m: "m = port_handler_map_path (he_pin_dir H) proto"
  shows "(entries k' = entries k \<or> entries k' = with_entry (entries k) m (port mod 256) None) \<and>
    (\<forall>q. nodes k' q = nodes k q \<or> below live q \<and> nodes k' q = None)"
proof -
  have "nat_of_digits ''0'' = 0" by code_simp
  then have key: "bpftool_key (unload_key port) = port mod 256"
    using port by (simp add: bpftool_key_def unload_key_def str_of_int_def)
  obtain q1 k1 where del: "ho_run (he_os H) (delete_cmd m (unload_key port)) k = (q1, k1)"
    by (cases "ho_run (he_os H) (delete_cmd m (unload_key port)) k")
  have "length (unload_key port) = 4" by (simp add: unload_key_def)
  from delete_law [OF this del] key
  have k1: "nodes k1 = nodes k" "entries k1 = entries k \<or> entries k1 = with_entry (entries k) m (port mod 256) None"
    by (auto split: sum.splits if_splits)
  obtain q2 k2 where flush: "flush_port H proto port k1 = (q2, k2)" by (cases "flush_port H proto port k1")
  have k2: "nodes k2 = nodes k1" "entries k2 = entries k1" using keepsD [OF flush_port_keeps, of proto port k1] flush by simp_all
  obtain q3 k3 where rm: "ho_rmtree (he_os H) live k2 = (q3, k3)" by (cases "ho_rmtree (he_os H) live k2")
  have "k' = k1 \<or> k' = k2 \<or> k' = k3"
    using run del flush rm
    by (auto simp: cleanup_existing_port_handler_def live [symmetric] m [symmetric] mseq_def mbind_def ignore_os_def mtry_def ret_apply
        split: sum.splits option.splits elim!: on_oserror.elims)
  with k1 k2 rmtree_law [OF rm] show ?thesis by auto
qed

lemma unload_effect:
  assumes run: "cmd_port_handler_unload H proto port upd k = (r, k')"
    and live: "live = port_handler_dir (he_pin_dir H) (str_lower proto) port" and m: "m = port_handler_map_path (he_pin_dir H) (str_lower proto)"
  shows "(entries k' = entries k \<or> entries k' = with_entry (entries k) m (port mod 256) None) \<and>
    (\<forall>q. nodes k' q = nodes k q \<or> below live q \<and> nodes k' q = None)"
proof (cases "0 < port \<and> port \<le> 65535")
  case False
  then show ?thesis
    using run by (auto simp: cmd_port_handler_unload_def Let_def normalize_handler_port_def raise_apply)
next
  case True
  obtain q k1 where clean: "cleanup_existing_port_handler H (str_lower proto) port k = (q, k1)"
    by (cases "cleanup_existing_port_handler H (str_lower proto) port k")
  have "nodes k' = nodes k1 \<and> entries k' = entries k1"
    using run clean True config_update_keeps [of "str_lower proto" port None]
    by (auto simp: cmd_port_handler_unload_def Let_def normalize_handler_port_def mseq_def mbind_def ret_apply keeps_def
        split: sum.splits prod.splits if_splits) (metis snd_conv)+
  with cleanup_effect [OF clean _ live m] True show ?thesis by simp
qed

end

section \<open>An example\<close>

text \<open>
  A host with the maps of the XDP program, a handler of UDP port 300, and the object file of another one. \<open>plan\<close> says which of the
  operations on files are refused.
\<close>

definition ex_files :: "(string \<times> node) list" where
  "ex_files = [(''p/port_handlers/udp/300/prog'', Pin 5), (''p/port_handlers/udp/300'', Dir), (''p/port_handlers/udp'', Dir),
     (''p/port_handlers'', Dir), (''p/slot_ctx_map'', Other), (''p/hblk4'', Other), (''p/hblk6'', Other),
     (''p/udp_hv4'', Other), (''p/udp_hv6'', Other), (''p/udp_port_handlers'', Other), (''p'', Dir)]"

definition ex_host :: "bool list \<Rightarrow> host_state" where
  "ex_host plan =
     (\<lparr>hs_files = ex_files, hs_arrays = [((''p/udp_port_handlers'', 300), 5)], hs_plan = plan\<rparr>,
      one_file (Some []) [],
      \<lparr>ks_data = [(5, [(ex_flow 1, le_bytes 8 10), (ex_flow 8, le_bytes 8 90)])], ks_max = [], ks_arrays = [],
         ks_pins = [(''p/udp_hv4'', 5), (''p/udp_hv6'', 6)], ks_next = 9, ks_script = [], ks_clock = 0\<rparr>)"



lemma ex_host_unload: "fst (cmd_port_handler_unload host_env ''udp'' 300 True (ex_host [])) = Inr (0, [Out ''Unloaded UDP handler for port 300''])"
  by code_simp

section \<open>The commands\<close>


lemma ex_host_names:
  "he_pin_dir host_env = ''p''" "handlers_dir host_env = ''d''" "he_backup_token host_env = ''t''" "str_lower ''udp'' = ''udp''"
  "port_handler_map_path ''p'' ''udp'' = ''p/udp_port_handlers''" "port_handler_dir ''p'' ''udp'' 8 = ''p/port_handlers/udp/8''"
  "port_handler_dir ''p'' ''udp'' 300 = ''p/port_handlers/udp/300''"
  by (simp_all add: host_env_def handlers_dir_def) code_simp+


text \<open>
  \<open>admin_cli.py\<close>, \<open>_cmd_port_handler_unload\<close> and \<open>_cleanup_existing_port_handler\<close>: the key of the entry that
  unloading a port handler deletes is the number of the port followed by three zeros, each one byte. So the entry is that of the
  port modulo 256, if any: a handler of a higher port stays in the array, though its files are removed
  and the command reports success.
\<close>

theorem unload_takes_low_byte:
  assumes host: "handler_host H nodes entries obs content files rest"
    and live: "live = port_handler_dir (he_pin_dir H) (str_lower proto) port"
    and m: "m = port_handler_map_path (he_pin_dir H) (str_lower proto)"
    and run: "cmd_port_handler_unload H proto port no_update k = (r, k')"
  shows "(entries k' = entries k \<or> entries k' = with_entry (entries k) m (port mod 256) None) \<and>
    (256 \<le> port \<longrightarrow> entries k' m port = entries k m port) \<and>
    (\<forall>q. nodes k' q = nodes k q \<or> below live q \<and> nodes k' q = None)"
proof -
  note effect = handler_host.unload_effect [OF host run live m]
  moreover have "entries k' m port = entries k m port" if "256 \<le> port"
  proof -
    have "port mod 256 \<noteq> port" using that pos_mod_bound [of 256 port] by linarith
    then show ?thesis using effect by (auto simp: with_entry_def)
  qed
  ultimately show ?thesis by blast
qed

theorem unload_takes_low_byte_witness:
  "\<exists>k'. cmd_port_handler_unload host_env ''udp'' 300 True (ex_host []) = (Inr (0, [Out ''Unloaded UDP handler for port 300'']), k') \<and>
     hs_entries (fst k') ''p/udp_port_handlers'' 300 = Some 5"
proof -
  obtain k' where run: "cmd_port_handler_unload host_env ''udp'' 300 True (ex_host []) =
      (Inr (0, [Out ''Unloaded UDP handler for port 300'']), k')" using ex_host_unload by (metis prod.collapse)
  have "hs_entries (fst (ex_host [])) ''p/udp_port_handlers'' 300 = Some 5" by (simp add: hs_entries_def ex_host_def)
  with unload_takes_low_byte [OF host.handler_host_axioms refl refl run] run show ?thesis
    by (simp only: ex_host_names) simp
qed

end
