(* ===== verification/InstallState.thy ===== *)
theory InstallState
  imports Json PyText PyMonad "HOL-Library.List_Lexorder" "HOL-Library.Char_ord"
begin

text \<open>
  The state the installer keeps, from \<open>auto_xdp/install_state.py\<close>: which interfaces of the host the program is attached
  to, the records of that, and how they are written. \<open>rep\<close> is \<open>str\<close> of JSON arrays, objects and floats, \<open>dumps\<close> and
  \<open>loads\<close> are those of \<open>json\<close>.
\<close>

section \<open>JSON values as Python objects\<close>

fun js_str :: "(json \<Rightarrow> string) \<Rightarrow> json \<Rightarrow> string" where
  "js_str rep JsNull = ''None''"
| "js_str rep (JsBool b) = (if b then ''True'' else ''False'')"
| "js_str rep (JsInt i) = str_of_int i"
| "js_str rep (JsStr s) = s"
| "js_str rep v = rep v"

fun js_truthy :: "json \<Rightarrow> bool" where
  "js_truthy JsNull = False"
| "js_truthy (JsBool b) = b"
| "js_truthy (JsInt i) = (i \<noteq> 0)"
| "js_truthy (JsFloat f) = (f \<noteq> Fin 0)"
| "js_truthy (JsStr s) = (s \<noteq> [])"
| "js_truthy (JsArr xs) = (xs \<noteq> [])"
| "js_truthy (JsObj d) = (d \<noteq> [])"

definition js_get :: "json \<Rightarrow> string \<Rightarrow> json \<Rightarrow> json res" where
  "js_get v key default_value = (case v of JsObj d \<Rightarrow> Inr (dict_get_or d key default_value) | _ \<Rightarrow> Inl AttributeErr)"

fun js_iter :: "json \<Rightarrow> json list res" where
  "js_iter (JsArr xs) = Inr xs"
| "js_iter (JsStr s) = Inr (map (\<lambda>c. JsStr [c]) s)"
| "js_iter (JsObj d) = Inr (map (\<lambda>(k, _). JsStr k) d)"
| "js_iter _ = Inl TypeErr"

definition char_upper :: "char \<Rightarrow> char" where
  "char_upper c = (let n = of_char c :: nat in if 97 \<le> n \<and> n \<le> 122 then char_of (n - 32) else c)"

section \<open>The interfaces of a host\<close>

definition CONTAINER_NAMES :: "string list" where
  "CONTAINER_NAMES = [''docker'', ''veth'', ''virbr'', ''cni'', ''flannel'', ''cali'', ''kube-ipvs'', ''podman'']"

definition VIRTUAL_KINDS :: "string list" where
  "VIRTUAL_KINDS = [''veth'', ''dummy'', ''ifb'']"

definition link_kind :: "json \<Rightarrow> string res" where
  "link_kind link =
     rbind (js_get link ''linkinfo'' JsNull) (\<lambda>linkinfo.
     rbind (js_get link ''link_type'' JsNull) (\<lambda>link_type.
     let fallback = (case link_type of JsStr s \<Rightarrow> str_lower s | _ \<Rightarrow> []) in
     Inr (case linkinfo of
            JsObj d \<Rightarrow> (case dict_get d ''info_kind'' of Some (JsStr s) \<Rightarrow> str_lower s | _ \<Rightarrow> fallback)
          | _ \<Rightarrow> fallback)))"

definition link_flags :: "(json \<Rightarrow> string) \<Rightarrow> json \<Rightarrow> string list res" where
  "link_flags rep link =
     rbind (rbind (js_get link ''flags'' (JsArr [])) js_iter) (\<lambda>flags.
     Inr (map (\<lambda>f. map char_upper (js_str rep f)) (filter js_truthy flags)))"

text \<open>\<open>re.fullmatch(r"br-[0-9a-f]{12,}", s)\<close>\<close>

definition is_container_bridge :: "string \<Rightarrow> bool" where
  "is_container_bridge s \<longleftrightarrow> str_prefix ''br-'' s \<and> 15 \<le> length s \<and>
     list_all (\<lambda>c. let n = of_char c :: nat in 48 \<le> n \<and> n \<le> 57 \<or> 97 \<le> n \<and> n \<le> 102) (drop 3 s)"

definition exclusion_reason :: "(json \<Rightarrow> string) \<Rightarrow> json \<Rightarrow> string option res" where
  "exclusion_reason rep link =
     rbind (js_get link ''ifname'' (JsStr [])) (\<lambda>ifname.
     rbind (link_flags rep link) (\<lambda>flags.
     rbind (link_kind link) (\<lambda>kind.
     let name = js_str rep ifname; lowered = str_lower name in
     Inr (if name = ''lo'' \<or> ''LOOPBACK'' \<in> set flags \<or> kind = ''loopback'' then Some ''loopback''
          else if kind \<in> set VIRTUAL_KINDS then Some (''virtual '' @ kind)
          else if is_container_bridge lowered then Some ''container bridge''
          else if list_ex (\<lambda>p. str_prefix p lowered) CONTAINER_NAMES then Some ''container interface''
          else None))))"

text \<open>\<open>{str(link.get("ifname", "")): link for link in links if link.get("ifname")}\<close>\<close>

definition link_rows :: "(json \<Rightarrow> string) \<Rightarrow> json list \<Rightarrow> (string, json) dict res" where
  "link_rows rep links =
     rbind (rmap (\<lambda>link. rbind (js_get link ''ifname'' JsNull) (\<lambda>n. Inr (n, link))) links) (\<lambda>named.
     Inr (dict_update [] (map (\<lambda>(n, link). (js_str rep n, link)) (filter (\<lambda>(n, link). js_truthy n) named))))"

text \<open>\<open>list(dict.fromkeys(item for item in xs if item))\<close>\<close>

definition requested_names :: "string list \<Rightarrow> string list" where
  "requested_names xs = map fst (dict_update [] (map (\<lambda>x. (x, ())) (filter (\<lambda>x. x \<noteq> []) xs)))"

definition explicit_choice :: "(json \<Rightarrow> string) \<Rightarrow> (string, json) dict \<Rightarrow> bool \<Rightarrow> string list \<Rightarrow> string \<Rightarrow> string res" where
  "explicit_choice rep rows allow_container excludes name =
     (if name \<in> set excludes then Inl ValueErr
      else case dict_get rows name of
        None \<Rightarrow> Inl ValueErr
      | Some link \<Rightarrow> rbind (exclusion_reason rep link) (\<lambda>reason.
          if reason = Some ''loopback'' then Inl ValueErr
          else if reason \<noteq> None \<and> reason \<noteq> Some [] \<and> \<not> allow_container then Inl ValueErr
          else Inr name))"

text \<open>What the automatic choice says of an interface: a reason to leave it out, or none.\<close>

definition auto_choice :: "(json \<Rightarrow> string) \<Rightarrow> string list \<Rightarrow> string \<times> json \<Rightarrow> (string \<times> string option) res" where
  "auto_choice rep excludes = (\<lambda>(name, link).
     if name \<in> set excludes then Inr (name, Some ''configured exclusion'')
     else rbind (exclusion_reason rep link) (\<lambda>reason.
          rbind (link_flags rep link) (\<lambda>flags.
          rbind (js_get link ''operstate'' (JsStr [])) (\<lambda>operstate.
          Inr (name,
            case reason of
              Some r \<Rightarrow> Some r
            | None \<Rightarrow> if ''UP'' \<notin> set flags \<and> map char_upper (js_str rep operstate) \<notin> {''UP'', ''UNKNOWN''}
                      then Some ''interface down'' else None)))))"

definition select_interfaces ::
  "(json \<Rightarrow> string) \<Rightarrow> json list \<Rightarrow> string list \<Rightarrow> bool \<Rightarrow> string list \<Rightarrow> (string list \<times> (string, string) dict) res" where
  "select_interfaces rep links explicit allow_container excluded_names =
     rbind (link_rows rep links) (\<lambda>rows.
     let requested = requested_names explicit; excludes = filter (\<lambda>x. x \<noteq> []) excluded_names in
     if requested \<noteq> [] then rbind (rmap (explicit_choice rep rows allow_container excludes) requested) (\<lambda>selected. Inr (selected, []))
     else rbind (rmap (auto_choice rep excludes) rows) (\<lambda>choices.
       Inr (sort (map fst (filter (\<lambda>(name, why). why = None) choices)),
            sort_key fst (map (\<lambda>(name, why). (name, the why)) (filter (\<lambda>(name, why). why \<noteq> None) choices)))))"

section \<open>Files\<close>

text \<open>
  \<open>mkstemp\<close> makes a new file beside a path, with a name that begins with a dot; \<open>write\<close> is everything up to
  \<open>fsync\<close>, and may stop half way; \<open>unlink\<close> of a file that is not there raises \<open>FileNotFoundError\<close>.
\<close>

record 'k state_io =
  st_exists :: "string \<Rightarrow> 'k \<Rightarrow> bool"
  st_read :: "string \<Rightarrow> ('k, string) pym"
  st_mkdir :: "string \<Rightarrow> ('k, unit) pym"
  st_mkstemp :: "string \<Rightarrow> ('k, string) pym"
  st_write :: "string \<Rightarrow> string \<Rightarrow> ('k, unit) pym"
  st_chmod :: "string \<Rightarrow> int \<Rightarrow> ('k, unit) pym"
  st_replace :: "string \<Rightarrow> string \<Rightarrow> ('k, unit) pym"
  st_unlink :: "string \<Rightarrow> ('k, unit) pym"
  st_symlink :: "string \<Rightarrow> string \<Rightarrow> ('k, unit) pym"

definition load_json :: "(string \<Rightarrow> json option) \<Rightarrow> 'k state_io \<Rightarrow> string \<Rightarrow> ('k, (string \<times> json) list) pym" where
  "load_json loads F path =
     mbind (gets (st_exists F path)) (\<lambda>there.
     if \<not> there then ret []
     else mtry (mbind (st_read F path) (\<lambda>text. ret (case loads text of Some (JsObj d) \<Rightarrow> d | _ \<Rightarrow> [])))
            (on_oserror (\<lambda>_. ret [])))"

text \<open>\<open>try: m / finally: f\<close>; an exception of \<open>f\<close> replaces that of \<open>m\<close>.\<close>

definition try_finally :: "('s, 'a) pym \<Rightarrow> ('s, unit) pym \<Rightarrow> ('s, 'a) pym" where
  "try_finally m f s = (case m s of (r, t) \<Rightarrow> (case f t of (Inl e, u) \<Rightarrow> (Inl e, u) | (Inr _, u) \<Rightarrow> (r, u)))"

definition discard :: "'k state_io \<Rightarrow> string \<Rightarrow> ('k, unit) pym" where
  "discard F tmp = mtry (st_unlink F tmp) (on_oserror (\<lambda>n. if n = ENOENT then ret () else raise_exn (OSError n)))"

definition atomic_write_json :: "(json \<Rightarrow> string) \<Rightarrow> 'k state_io \<Rightarrow> string \<Rightarrow> json \<Rightarrow> int \<Rightarrow> ('k, unit) pym" where
  "atomic_write_json dumps F path v mode =
     mseq (st_mkdir F path)
    (mbind (st_mkstemp F path) (\<lambda>tmp.
     try_finally
       (mseq (st_write F tmp (dumps v @ [CHR 0x0A])) (mseq (st_chmod F tmp mode) (st_replace F tmp path)))
       (discard F tmp)))"

definition atomic_symlink :: "'k state_io \<Rightarrow> string \<Rightarrow> string \<Rightarrow> ('k, unit) pym" where
  "atomic_symlink F target link =
     mseq (st_mkdir F link)
    (mbind (st_mkstemp F link) (\<lambda>tmp.
     mseq (st_unlink F tmp)
    (mseq (st_symlink F target tmp)
          (try_finally (st_replace F tmp link) (discard F tmp)))))"

section \<open>Records\<close>

definition STATE_SCHEMA :: int where "STATE_SCHEMA = 1"

text \<open>\<open>d.get(key, {})\<close>, or an empty table if it is none.\<close>

definition sub_table :: "(string \<times> json) list \<Rightarrow> string \<Rightarrow> (string \<times> json) list" where
  "sub_table d key = (case dict_get d key of Some (JsObj e) \<Rightarrow> e | _ \<Rightarrow> [])"

definition merged_interface :: "(string \<times> json) list \<Rightarrow> string \<Rightarrow> string \<Rightarrow> json" where
  "merged_interface old_interfaces default_xdp_mode name =
     (let old = sub_table old_interfaces name in
      JsObj [(''xdp_mode'', dict_get_or old ''xdp_mode'' (JsStr default_xdp_mode)),
             (''requested_mode'', JsStr default_xdp_mode),
             (''last_program_id'', dict_get_or old ''last_program_id'' JsNull),
             (''tc_egress'', JsBool (js_truthy (dict_get_or old ''tc_egress'' (JsBool False))))])"

definition merge_machine_state ::
  "(string \<times> json) list \<Rightarrow> string list \<Rightarrow> (string, string) dict \<Rightarrow> string \<Rightarrow> string \<Rightarrow> (string \<times> json) list" where
  "merge_machine_state previous selected excluded selection default_xdp_mode =
     [(''schema'', JsInt STATE_SCHEMA), (''selection'', JsStr selection),
      (''interfaces'', JsObj (dict_update [] (map (\<lambda>name.
         (name, merged_interface (sub_table previous ''interfaces'') default_xdp_mode name)) selected))),
      (''excluded'', JsObj (map (\<lambda>(k, v). (k, JsStr v)) (sort_key fst excluded)))]"

text \<open>What the launcher reports of an interface.\<close>

record interface_state =
  is_mode :: string
  is_program :: "int option"
  is_tc_egress :: bool
  is_verified :: bool

definition parse_interface_state :: "string \<Rightarrow> (string \<times> interface_state) res" where
  "parse_interface_state raw =
     (case str_split1 (CHR ''='') raw of
        (name, Some payload) \<Rightarrow>
          (case str_split (CHR '':'') payload of
             [mode, program_id, tc_state] \<Rightarrow>
               if mode \<notin> {''native'', ''generic'', ''off''} then Inl ValueErr
               else rbind (if program_id \<in> {[], ''-''} then Inr None
                           else case int_of_str program_id of Some i \<Rightarrow> Inr (Some i) | None \<Rightarrow> Inl ValueErr) (\<lambda>program.
                 Inr (name, \<lparr>is_mode = mode, is_program = program, is_tc_egress = (tc_state = ''attached''),
                   is_verified = (mode = ''off'' \<or> program_id \<notin> {[], ''-''} \<and> tc_state = ''attached'')\<rparr>))
           | _ \<Rightarrow> Inl ValueErr)
      | _ \<Rightarrow> Inl ValueErr)"

definition js_program :: "int option \<Rightarrow> json" where
  "js_program i = (case i of None \<Rightarrow> JsNull | Some n \<Rightarrow> JsInt n)"

definition interface_json :: "interface_state \<Rightarrow> json" where
  "interface_json s = JsObj [(''xdp_mode'', JsStr (is_mode s)), (''program_id'', js_program (is_program s)),
     (''tc_egress'', JsBool (is_tc_egress s)), (''verified'', JsBool (is_verified s))]"

definition summarize_xdp_mode :: "(string, interface_state) dict \<Rightarrow> string" where
  "summarize_xdp_mode states =
     (let modes = remdups (filter (\<lambda>m. m \<in> {''native'', ''generic''}) (map (\<lambda>(_, s). is_mode s) states)) in
      case modes of [] \<Rightarrow> ''none'' | [m] \<Rightarrow> m | _ \<Rightarrow> ''mixed'')"

definition runtime_state ::
  "string \<Rightarrow> string \<Rightarrow> (string, interface_state) dict \<Rightarrow> string \<Rightarrow> string option \<Rightarrow> bool \<Rightarrow> (string \<times> json) list" where
  "runtime_state requested_backend active_backend interfaces generation fallback_reason healthy =
     [(''schema'', JsInt STATE_SCHEMA), (''requested_backend'', JsStr requested_backend),
      (''active_backend'', JsStr active_backend), (''xdp_mode'', JsStr (summarize_xdp_mode interfaces)),
      (''interfaces'', JsObj (map (\<lambda>(n, s). (n, interface_json s)) interfaces)), (''generation'', JsStr generation),
      (''fallback_reason'', case fallback_reason of None \<Rightarrow> JsNull | Some r \<Rightarrow> JsStr r), (''healthy'', JsBool healthy)]"

definition recorded_interface :: "(string \<times> json) list \<Rightarrow> interface_state \<Rightarrow> (string \<times> json) list" where
  "recorded_interface previous s = dict_update previous
     [(''xdp_mode'', JsStr (is_mode s)), (''last_program_id'', js_program (is_program s)), (''tc_egress'', JsBool (is_tc_egress s))]"

definition record_machine :: "(string \<times> json) list \<Rightarrow> (string, interface_state) dict \<Rightarrow> (string \<times> json) list" where
  "record_machine machine states =
     dict_set ''interfaces''
       (JsObj (foldl (\<lambda>old (name, s). dict_set name (JsObj (recorded_interface (sub_table old name) s)) old)
          (sub_table machine ''interfaces'') states))
       (dict_set ''schema'' (JsInt STATE_SCHEMA) machine)"

section \<open>Commands\<close>

text \<open>The status and what is printed.\<close>

type_synonym install_outcome = "int \<times> string list"

record 'k install_env =
  in_files :: "'k state_io"
  in_rep :: "json \<Rightarrow> string"
  in_loads :: "string \<Rightarrow> json option"
  in_dumps :: "json \<Rightarrow> string"
  in_dump_line :: "json \<Rightarrow> string"
  in_now :: string

record select_args =
  sa_interface :: "string list"
  sa_allow_container :: bool
  sa_exclude :: "string list"
  sa_machine_state :: "string option"
  sa_write :: "string option"
  sa_default_xdp_mode :: string

definition given_path :: "string option \<Rightarrow> string option" where
  "given_path p = (if p = Some [] then None else p)"

text \<open>\<open>links\<close> is what \<open>json.load\<close> made of the input.\<close>

definition cmd_select :: "'k install_env \<Rightarrow> select_args \<Rightarrow> json res \<Rightarrow> ('k, install_outcome) pym" where
  "cmd_select E args links =
     mbind (mlift links) (\<lambda>links.
     case links of
       JsArr ls \<Rightarrow>
         mbind (mlift (select_interfaces (in_rep E) ls (sa_interface args) (sa_allow_container args) (sa_exclude args))) (\<lambda>(selected, excluded).
         mbind (case given_path (sa_machine_state args) of None \<Rightarrow> ret [] | Some p \<Rightarrow> load_json (in_loads E) (in_files E) p) (\<lambda>previous.
         let state = JsObj (merge_machine_state previous selected excluded
               (if sa_interface args \<noteq> [] then ''explicit'' else ''auto'') (sa_default_xdp_mode args)) in
         mseq (case given_path (sa_write args) of None \<Rightarrow> ret () | Some p \<Rightarrow> atomic_write_json (in_dumps E) (in_files E) p state 420)
              (ret (0, [in_dump_line E state]))))
     | _ \<Rightarrow> raise_exn ValueErr)"

record record_args =
  ra_machine_state :: string
  ra_runtime_state :: string
  ra_requested_backend :: string
  ra_active_backend :: string
  ra_generation :: string
  ra_fallback_reason :: "string option"
  ra_interface_state :: "string list"

definition cmd_record :: "'k install_env \<Rightarrow> record_args \<Rightarrow> ('k, install_outcome) pym" where
  "cmd_record E args =
     mbind (mlift (rmap parse_interface_state (ra_interface_state args))) (\<lambda>parsed.
     let states = dict_update [] parsed in
     mbind (load_json (in_loads E) (in_files E) (ra_machine_state args)) (\<lambda>machine.
     mseq (atomic_write_json (in_dumps E) (in_files E) (ra_machine_state args) (JsObj (record_machine machine states)) 420)
    (let state = JsObj (runtime_state (ra_requested_backend args) (ra_active_backend args) states (ra_generation args)
           (ra_fallback_reason args) (list_all (\<lambda>(_, s). is_verified s) states)) in
     mseq (atomic_write_json (in_dumps E) (in_files E) (ra_runtime_state args) state 420)
          (ret (0, [in_dump_line E state])))))"

definition cmd_link :: "'k install_env \<Rightarrow> string \<Rightarrow> string \<Rightarrow> ('k, install_outcome) pym" where
  "cmd_link E target link = mseq (atomic_symlink (in_files E) target link) (ret (0, []))"

text \<open>\<open>items\<close> are the options of the command line in the order of their names in the source, with those that were given.\<close>

definition cmd_transition :: "'k install_env \<Rightarrow> string \<Rightarrow> (string \<times> string option) list \<Rightarrow> ('k, install_outcome) pym" where
  "cmd_transition E path items =
     mbind (load_json (in_loads E) (in_files E) path) (\<lambda>v.
     let w = foldl (\<lambda>d (key, item). case item of None \<Rightarrow> d | Some s \<Rightarrow> dict_set key (JsStr s) d) v items in
     mseq (atomic_write_json (in_dumps E) (in_files E) path
             (JsObj (dict_set ''updated_at'' (JsStr (in_now E)) (dict_set ''schema'' (JsInt STATE_SCHEMA) w))) 384)
          (ret (0, [])))"

datatype install_command =
    SelectInterfaces select_args "json res"
  | RecordState record_args
  | LinkRelease string string
  | Transition string "(string \<times> string option) list"

fun run_install :: "'k install_env \<Rightarrow> install_command \<Rightarrow> ('k, install_outcome) pym" where
  "run_install E (SelectInterfaces args links) = cmd_select E args links"
| "run_install E (RecordState args) = cmd_record E args"
| "run_install E (LinkRelease target link) = cmd_link E target link"
| "run_install E (Transition path items) = cmd_transition E path items"

text \<open>\<open>except (OSError, ValueError)\<close>; the text that is printed is not modelled.\<close>

fun install_status :: "py_exn \<Rightarrow> ('k, install_outcome) pym option" where
  "install_status (OSError n) = Some (ret (1, []))"
| "install_status ValueErr = Some (ret (1, []))"
| "install_status _ = None"

definition install_main :: "'k install_env \<Rightarrow> install_command \<Rightarrow> ('k, install_outcome) pym" where
  "install_main E cmd = mtry (run_install E cmd) install_status"

end
