(* ===== verification/InstallStore.thy ===== *)
theory InstallStore
  imports InstallState PySteps
begin

text \<open>
  What the records of the installer look like after a command that stops half way: the contract of the file system, the
  steps of a record from one text to the next, and a directory that meets the contract.
\<close>

section \<open>The contract of the files\<close>

text \<open>What a path names.\<close>

datatype dir_entry = RegFile string | SymLink string

text \<open>
  \<open>ent\<close> is what a path names, if anything. A failing operation changes nothing, except that a write that fails
  may have written a part; a new temporary file has a name that nothing has and that is not the one it is made for.
\<close>

locale state_files =
  fixes F :: "'k state_io" and ent :: "'k \<Rightarrow> string \<Rightarrow> dir_entry option"
  assumes read_law: "st_read F p k = (r, k') \<Longrightarrow> ent k' = ent k"
    and mkdir_law: "st_mkdir F p k = (u, k') \<Longrightarrow> ent k' = ent k"
    and mkstemp_law: "st_mkstemp F p k = (r, k') \<Longrightarrow>
      (case r of Inl e \<Rightarrow> ent k' = ent k | Inr tmp \<Rightarrow> tmp \<noteq> p \<and> ent k tmp = None \<and> ent k' = (ent k)(tmp \<mapsto> RegFile []))"
    and write_law: "st_write F p x k = (u, k') \<Longrightarrow> ent k p = Some (RegFile y) \<Longrightarrow>
      (\<forall>q. q \<noteq> p \<longrightarrow> ent k' q = ent k q) \<and> (u = Inr () \<longrightarrow> ent k' p = Some (RegFile x))"
    and chmod_law: "st_chmod F p n k = (u, k') \<Longrightarrow> ent k' = ent k"
    and replace_law: "st_replace F p q k = (u, k') \<Longrightarrow> p \<noteq> q \<Longrightarrow>
      ent k' = (if u = Inr () then (ent k)(q := ent k p, p := None) else ent k)"
    and unlink_law: "st_unlink F p k = (u, k') \<Longrightarrow> ent k' = (if u = Inr () then (ent k)(p := None) else ent k)"
    and symlink_law: "st_symlink F x p k = (u, k') \<Longrightarrow> ent k' = (if u = Inr () then (ent k)(p \<mapsto> SymLink x) else ent k)"

text \<open>The text of a record.\<close>

definition record_text :: "(json \<Rightarrow> string) \<Rightarrow> json \<Rightarrow> dir_entry" where
  "record_text dumps v = RegFile (dumps v @ [CHR 0x0A])"

context state_files
begin

text \<open>Everything that was there is there as it was, or is new and one of \<open>N\<close>.\<close>

definition whole :: "(string \<Rightarrow> dir_entry \<Rightarrow> bool) \<Rightarrow> 'k \<Rightarrow> 'k \<Rightarrow> bool" where
  "whole N k k' \<longleftrightarrow> (\<forall>q x. ent k q = Some x \<longrightarrow> ent k' q = Some x \<or> (\<exists>y. N q y \<and> ent k' q = Some y))"

lemma whole_refl: "reflp (whole N)"
  by (simp add: reflp_def whole_def)

lemma whole_trans: "transp (whole N)"
  unfolding transp_def whole_def by (metis (no_types, lifting))

lemma whole_same: "ent k' = ent k \<Longrightarrow> whole N k k'"
  by (simp add: whole_def)

text \<open>The temporary file: nothing else changes until it takes the place of the record.\<close>

definition beside :: "string \<Rightarrow> 'k \<Rightarrow> 'k \<Rightarrow> bool" where
  "beside tmp k k' \<longleftrightarrow> (\<forall>q. q \<noteq> tmp \<longrightarrow> ent k' q = ent k q)"

definition in_place :: "string \<Rightarrow> string \<Rightarrow> dir_entry \<Rightarrow> 'k \<Rightarrow> 'k \<Rightarrow> bool" where
  "in_place tmp path e k k' \<longleftrightarrow> ent k' path = Some e \<and> (\<forall>q. q \<noteq> tmp \<longrightarrow> q \<noteq> path \<longrightarrow> ent k' q = ent k q)"

lemma discard_beside: "discard F tmp k = (r, k') \<Longrightarrow> beside tmp k k'"
  using unlink_law [of tmp k]
  by (auto simp: discard_def mtry_def beside_def ret_apply raise_apply split: prod.splits sum.splits option.splits if_splits
      elim!: on_oserror.elims)

lemma put_in_place:
  assumes "tmp \<noteq> path" "ent k tmp = None" "beside tmp k k1" "beside tmp k1 k2 \<or> in_place tmp path e k1 k2" "beside tmp k2 k'" "N path e"
  shows "whole N k k'"
  unfolding whole_def
proof (intro allI impI)
  fix q x assume there: "ent k q = Some x"
  then have "q \<noteq> tmp" using assms(2) by auto
  then have "ent k' q = ent k2 q" "ent k1 q = ent k q" using assms(3,5) by (simp_all add: beside_def)
  then show "ent k' q = Some x \<or> (\<exists>y. N q y \<and> ent k' q = Some y)"
    using assms(4,6) there \<open>q \<noteq> tmp\<close> by (cases "q = path") (auto simp: beside_def in_place_def)
qed

lemma written_in_place:
  assumes "mseq (st_write F tmp x) (mseq (st_chmod F tmp mode) (st_replace F tmp path)) k = (r, k')" and "tmp \<noteq> path"
    and "ent k tmp = Some (RegFile y)"
  shows "(if r = Inr () then in_place tmp path (RegFile x) k k' else beside tmp k k')"
proof -
  obtain r1 k1 where wr: "st_write F tmp x k = (r1, k1)" by (cases "st_write F tmp x k")
  obtain r2 k2 where cm: "st_chmod F tmp mode k1 = (r2, k2)" by (cases "st_chmod F tmp mode k1")
  obtain r3 k3 where rp: "st_replace F tmp path k2 = (r3, k3)" by (cases "st_replace F tmp path k2")
  note laws = write_law [OF wr assms(3)] chmod_law [OF cm] replace_law [OF rp assms(2)]
  have "(r, k') = (case r1 of Inl e \<Rightarrow> (Inl e, k1) | Inr u \<Rightarrow> case r2 of Inl e \<Rightarrow> (Inl e, k2) | Inr u \<Rightarrow> (r3, k3))"
    using assms(1) wr cm rp by (auto simp: mseq_def mbind_def split: sum.splits)
  then show ?thesis
    using laws assms(2) by (cases r1; cases r2; cases r3) (auto simp: beside_def in_place_def)
qed

text \<open>A temporary file for a record.\<close>

lemma with_temporary:
  assumes run: "mseq (st_mkdir F path) (mbind (st_mkstemp F path) f) k = (r, k')"
    and f: "\<And>tmp k1 r1 k2. tmp \<noteq> path \<Longrightarrow> ent k1 tmp = Some (RegFile []) \<Longrightarrow> f tmp k1 = (r1, k2) \<Longrightarrow>
      \<exists>k3. (beside tmp k1 k3 \<and> r1 \<noteq> Inr () \<or> in_place tmp path e k1 k3) \<and> beside tmp k3 k2"
    and N: "N path e"
  shows "whole N k k' \<and> (r = Inr () \<longrightarrow> ent k' path = Some e)"
proof -
  obtain r1 k1 where md: "st_mkdir F path k = (r1, k1)" by (cases "st_mkdir F path k")
  obtain r2 k2 where mk: "st_mkstemp F path k1 = (r2, k2)" by (cases "st_mkstemp F path k1")
  note k1 = mkdir_law [OF md] and k2 = mkstemp_law [OF mk]
  show ?thesis
  proof (cases "\<exists>tmp. r1 = Inr () \<and> r2 = Inr tmp")
    case False
    then have "ent k' = ent k \<and> r \<noteq> Inr ()"
      using run md mk k1 k2 by (cases r1; cases r2) (auto simp: mseq_def mbind_def)
    then show ?thesis by (simp add: whole_same)
  next
    case True
    then obtain tmp where r: "r1 = Inr ()" "r2 = Inr tmp" by blast
    with k1 k2 have tmp: "tmp \<noteq> path" "ent k tmp = None" "ent k2 = (ent k)(tmp \<mapsto> RegFile [])" by simp_all
    have "f tmp k2 = (r, k')" using run md mk r by (simp add: mseq_run mbind_run)
    from f [OF tmp(1) _ this] obtain k3 where k3: "beside tmp k2 k3 \<and> r \<noteq> Inr () \<or> in_place tmp path e k2 k3" "beside tmp k3 k'"
      using tmp(3) by auto
    have "beside tmp k k2" using tmp(3) by (simp add: beside_def)
    from put_in_place [OF tmp(1,2) this _ k3(2)] k3(1) N have "whole N k k'" by blast
    moreover have "ent k' path = Some e" if "r = Inr ()"
      using that k3 tmp(1) by (simp add: in_place_def beside_def)
    ultimately show ?thesis by blast
  qed
qed

lemma try_finally_run:
  "try_finally m f k = (r, k') \<Longrightarrow> \<exists>r1 k1 r2. m k = (r1, k1) \<and> f k1 = (r2, k') \<and> (r = Inr x \<longrightarrow> r1 = Inr x)"
  by (auto simp: try_finally_def split: prod.splits sum.splits)

lemma atomic_write_whole:
  assumes "atomic_write_json dumps F path v mode k = (r, k')" "N path (record_text dumps v)"
  shows "whole N k k' \<and> (r = Inr () \<longrightarrow> ent k' path = Some (record_text dumps v))"
proof (rule with_temporary [where N = N, OF assms(1) [unfolded atomic_write_json_def] _ assms(2)])
  fix tmp k1 r1 k2
  assume tmp: "tmp \<noteq> path" "ent k1 tmp = Some (RegFile [])"
    and "try_finally (mseq (st_write F tmp (dumps v @ [CHR 0x0A])) (mseq (st_chmod F tmp mode) (st_replace F tmp path)))
       (discard F tmp) k1 = (r1, k2)"
  from try_finally_run [OF this(3), of "()"] obtain r3 k3 r4 where
    "mseq (st_write F tmp (dumps v @ [CHR 0x0A])) (mseq (st_chmod F tmp mode) (st_replace F tmp path)) k1 = (r3, k3)"
    "discard F tmp k3 = (r4, k2)" "r1 = Inr () \<longrightarrow> r3 = Inr ()" by blast
  with written_in_place [OF this(1) tmp] discard_beside [OF this(2)]
  show "\<exists>k3. (beside tmp k1 k3 \<and> r1 \<noteq> Inr () \<or> in_place tmp path (record_text dumps v) k1 k3) \<and> beside tmp k3 k2"
    by (intro exI [of _ k3]) (auto simp: record_text_def split: if_splits)
qed

lemma atomic_symlink_whole:
  assumes "atomic_symlink F target path k = (r, k')" "N path (SymLink target)"
  shows "whole N k k' \<and> (r = Inr () \<longrightarrow> ent k' path = Some (SymLink target))"
proof (rule with_temporary [where N = N, OF assms(1) [unfolded atomic_symlink_def] _ assms(2)])
  fix tmp k1 r1 k2
  assume tmp: "tmp \<noteq> path" "ent k1 tmp = Some (RegFile [])"
    and run: "mseq (st_unlink F tmp) (mseq (st_symlink F target tmp) (try_finally (st_replace F tmp path) (discard F tmp))) k1 = (r1, k2)"
  obtain u1 l1 where ul: "st_unlink F tmp k1 = (u1, l1)" by (cases "st_unlink F tmp k1")
  obtain u2 l2 where sl: "st_symlink F target tmp l1 = (u2, l2)" by (cases "st_symlink F target tmp l1")
  obtain u3 l3 where rp: "st_replace F tmp path l2 = (u3, l3)" by (cases "st_replace F tmp path l2")
  note laws = unlink_law [OF ul] symlink_law [OF sl] replace_law [OF rp tmp(1)]
  show "\<exists>k3. (beside tmp k1 k3 \<and> r1 \<noteq> Inr () \<or> in_place tmp path (SymLink target) k1 k3) \<and> beside tmp k3 k2"
  proof (cases "u1 = Inr () \<and> u2 = Inr ()")
    case False
    then have "beside tmp k1 k2 \<and> r1 \<noteq> Inr ()"
      using run ul sl laws(1,2) by (cases u1; cases u2) (auto simp: mseq_def mbind_def beside_def)
    then show ?thesis by (auto simp: beside_def)
  next
    case True
    then have "try_finally (st_replace F tmp path) (discard F tmp) l2 = (r1, k2)" using run ul sl by (simp add: mseq_run mbind_run)
    from try_finally_run [OF this, of "()"] rp obtain r4 where d: "discard F tmp l3 = (r4, k2)" "r1 = Inr () \<longrightarrow> u3 = Inr ()" by auto
    have "if u3 = Inr () then in_place tmp path (SymLink target) k1 l3 else beside tmp k1 l3"
      using laws True tmp(1) by (simp add: in_place_def beside_def)
    with d discard_beside [OF d(1)] show ?thesis by (intro exI [of _ l3]) (auto split: if_splits)
  qed
qed

lemma write_steps: "N path (record_text dumps v) \<Longrightarrow> steps (whole N) (atomic_write_json dumps F path v mode)"
  using atomic_write_whole by (simp add: steps_def)

lemma load_steps: "steps (whole N) (load_json loads F path)"
proof -
  have "steps (whole N) (st_read F path)" using read_law by (auto simp: steps_def intro: whole_same)
  then show ?thesis
    unfolding load_json_def
    by (intro steps_bind [OF whole_trans] steps_if steps_try [OF whole_trans] steps_return [OF whole_refl])
      (auto elim!: on_oserror.elims simp: steps_return [OF whole_refl])
qed

text \<open>After a statement that returns, the paths \<open>A\<close> have something new.\<close>

definition lands :: "(string \<Rightarrow> dir_entry \<Rightarrow> bool) \<Rightarrow> string set \<Rightarrow> ('k, 'a) pym \<Rightarrow> bool" where
  "lands N A m \<longleftrightarrow> (\<forall>k x k'. m k = (Inr x, k') \<longrightarrow> (\<forall>q \<in> A. \<exists>y. N q y \<and> ent k' q = Some y))"

lemma lands_last: "(\<And>x. lands N A (f x)) \<Longrightarrow> lands N A (mbind m f)"
  unfolding lands_def mbind_def by (fastforce split: prod.splits sum.splits)

lemma lands_first:
  assumes "lands N A m" "\<And>x. steps (whole N) (f x)"
  shows "lands N A (mbind m f)"
  unfolding lands_def
proof (intro allI impI ballI)
  fix k x k' q assume run: "mbind m f k = (Inr x, k')" and q: "q \<in> A"
  obtain y k1 where m: "m k = (Inr y, k1)" "f y k1 = (Inr x, k')" using run by (auto simp: mbind_Inr_iff)
  obtain e where e: "N q e" "ent k1 q = Some e" using assms(1) m(1) q unfolding lands_def by blast
  have "whole N k1 k'" by (rule stepsD [OF assms(2) m(2)])
  with e show "\<exists>y. N q y \<and> ent k' q = Some y" unfolding whole_def by blast
qed

lemma lands_seq: "lands N A m \<Longrightarrow> steps (whole N) n \<Longrightarrow> lands N B n \<Longrightarrow> lands N (A \<union> B) (mseq m n)"
  using lands_first [of N A m "\<lambda>_. n"] lands_last [of N B "\<lambda>_. n" m] unfolding mseq_def lands_def by blast

lemma lands_write: "N path (record_text dumps v) \<Longrightarrow> lands N {path} (atomic_write_json dumps F path v mode)"
  using atomic_write_whole [where N = N] unfolding lands_def by fastforce

lemma lands_none: "lands N {} m"
  by (simp add: lands_def)

end

section \<open>The commands\<close>

text \<open>The paths a command writes, and what may come to stand there.\<close>

fun install_paths :: "install_command \<Rightarrow> string set" where
  "install_paths (SelectInterfaces args links) = (case given_path (sa_write args) of None \<Rightarrow> {} | Some p \<Rightarrow> {p})"
| "install_paths (RecordState args) = {ra_machine_state args, ra_runtime_state args}"
| "install_paths (LinkRelease target link) = {link}"
| "install_paths (Transition path items) = {path}"

fun complete_entry :: "(json \<Rightarrow> string) \<Rightarrow> install_command \<Rightarrow> dir_entry \<Rightarrow> bool" where
  "complete_entry dumps (LinkRelease target link) e \<longleftrightarrow> e = SymLink target"
| "complete_entry dumps _ e \<longleftrightarrow> (\<exists>v. e = record_text dumps v)"

definition installed :: "(json \<Rightarrow> string) \<Rightarrow> install_command \<Rightarrow> string \<Rightarrow> dir_entry \<Rightarrow> bool" where
  "installed dumps cmd q e \<longleftrightarrow> q \<in> install_paths cmd \<and> complete_entry dumps cmd e"

context state_files
begin

lemmas step_rules = steps_bind [OF whole_trans] steps_seq [OF whole_trans] steps_return [OF whole_refl] steps_prod load_steps write_steps

lemma select_run:
  fixes E :: "'k install_env" and args and links
  assumes F: "in_files E = F"
  defines "N \<equiv> installed (in_dumps E) (SelectInterfaces args links)"
  shows "steps (whole N) (cmd_select E args links) \<and> lands N (install_paths (SelectInterfaces args links)) (cmd_select E args links)"
proof -
  let ?A = "install_paths (SelectInterfaces args links)"
  define put where "put v = (case given_path (sa_write args) of None \<Rightarrow> ret ()
    | Some p \<Rightarrow> atomic_write_json (in_dumps E) F p v 420)" for v
  have N: "N p (record_text (in_dumps E) v)" if "given_path (sa_write args) = Some p" for p v
    using that by (auto simp: N_def installed_def)
  have put: "steps (whole N) (put v)" "lands N ?A (put v)" for v
    using N write_steps lands_write by (auto simp: put_def steps_return [OF whole_refl] lands_none split: option.splits)
  have seq: "lands N ?A (mseq (put v) (ret x))" for v and x :: install_outcome
    using lands_seq [OF put(2) _ lands_none, of "ret x"] by (simp add: steps_return [OF whole_refl])
  have previous: "steps (whole N) (case given_path (sa_machine_state args) of None \<Rightarrow> ret [] | Some p \<Rightarrow> load_json (in_loads E) F p)"
    by (simp add: steps_return [OF whole_refl] load_steps split: option.splits)
  have fails: "steps (whole N) (raise_exn e)" "lands N A (raise_exn e)" for e A
    by (simp_all add: steps_return [OF whole_refl] lands_def raise_apply)
  have "steps (whole N) (cmd_select E args links)"
    unfolding cmd_select_def F put_def [symmetric] Let_def
    by (intro steps_bind [OF whole_trans] steps_return [OF whole_refl])
      (auto intro!: step_rules previous put fails split: json.split)
  moreover have "lands N ?A (cmd_select E args links)"
    unfolding cmd_select_def F put_def [symmetric] Let_def
    by (intro lands_last) (auto intro!: lands_last seq fails simp del: install_paths.simps split: json.split)
  ultimately show ?thesis ..
qed

lemma record_run:
  fixes E :: "'k install_env" and args
  assumes F: "in_files E = F"
  defines "N \<equiv> installed (in_dumps E) (RecordState args)"
  shows "steps (whole N) (cmd_record E args) \<and> lands N (install_paths (RecordState args)) (cmd_record E args)"
proof -
  have N: "N (ra_machine_state args) (record_text (in_dumps E) v)" "N (ra_runtime_state args) (record_text (in_dumps E) v)" for v
    by (auto simp: N_def installed_def)
  have A: "install_paths (RecordState args) = {ra_machine_state args} \<union> ({ra_runtime_state args} \<union> {})" by auto
  have "steps (whole N) (cmd_record E args)"
    unfolding cmd_record_def F Let_def by (intro step_rules N)
  moreover have "lands N (install_paths (RecordState args)) (cmd_record E args)"
    unfolding cmd_record_def F Let_def A
    by (intro lands_last lands_seq lands_write lands_none step_rules N)
  ultimately show ?thesis ..
qed

lemma link_run:
  fixes E :: "'k install_env" and target and link
  assumes F: "in_files E = F"
  defines "N \<equiv> installed (in_dumps E) (LinkRelease target link)"
  shows "steps (whole N) (cmd_link E target link) \<and> lands N (install_paths (LinkRelease target link)) (cmd_link E target link)"
proof -
  have N: "N link (SymLink target)" by (simp add: N_def installed_def)
  have swap: "steps (whole N) (atomic_symlink F target link)" "lands N {link} (atomic_symlink F target link)"
    using atomic_symlink_whole [where N = N, OF _ N] N by (fastforce simp: steps_def lands_def)+
  show ?thesis
    using lands_seq [OF swap(2) _ lands_none, of "ret (0, [])"] swap(1)
    by (simp add: cmd_link_def F step_rules)
qed

lemma transition_run:
  fixes E :: "'k install_env" and path and items
  assumes F: "in_files E = F"
  defines "N \<equiv> installed (in_dumps E) (Transition path items)"
  shows "steps (whole N) (cmd_transition E path items) \<and> lands N (install_paths (Transition path items)) (cmd_transition E path items)"
proof -
  have N: "N path (record_text (in_dumps E) v)" for v by (auto simp: N_def installed_def)
  have A: "install_paths (Transition path items) = {path} \<union> {}" by simp
  have "steps (whole N) (cmd_transition E path items)"
    unfolding cmd_transition_def F Let_def by (intro step_rules N)
  moreover have "lands N (install_paths (Transition path items)) (cmd_transition E path items)"
    unfolding cmd_transition_def F Let_def A by (intro lands_last lands_seq lands_write lands_none step_rules N)
  ultimately show ?thesis ..
qed

lemma run_install_run:
  "in_files E = F \<Longrightarrow> steps (whole (installed (in_dumps E) cmd)) (run_install E cmd) \<and>
     lands (installed (in_dumps E) cmd) (install_paths cmd) (run_install E cmd)"
  using select_run record_run link_run transition_run by (cases cmd) (simp_all only: run_install.simps)

lemma install_main_run:
  assumes "in_files E = F" "install_main E cmd k = (r, k')"
  shows "whole (installed (in_dumps E) cmd) k k'"
    and "r = Inr (0, out) \<Longrightarrow> q \<in> install_paths cmd \<Longrightarrow> \<exists>e. complete_entry (in_dumps E) cmd e \<and> ent k' q = Some e"
proof -
  obtain r1 k1 where run: "run_install E cmd k = (r1, k1)" by (cases "run_install E cmd k")
  have end1: "k' = k1 \<and> (r = Inr (0, out) \<longrightarrow> r1 = r)"
    using assms(2) run by (auto simp: install_main_def mtry_def ret_apply split: sum.splits option.splits elim!: install_status.elims)
  then show "whole (installed (in_dumps E) cmd) k k'"
    using stepsD [OF conjunct1 [OF run_install_run [OF assms(1)]] run] by simp
  assume "r = Inr (0, out)" "q \<in> install_paths cmd"
  with end1 run conjunct2 [OF run_install_run [OF assms(1), of cmd]]
  show "\<exists>e. complete_entry (in_dumps E) cmd e \<and> ent k' q = Some e" unfolding lands_def installed_def by blast
qed

end

section \<open>A directory\<close>

text \<open>\<open>plan\<close> says which of the next operations fail; a write that fails has written half.\<close>

type_synonym folder = "(string, dir_entry) dict \<times> int option list"

definition EEXIST :: int where "EEXIST = 17"

definition folder_op :: "((string, dir_entry) dict \<Rightarrow> 'a res \<times> (string, dir_entry) dict) \<Rightarrow>
  ((string, dir_entry) dict \<Rightarrow> (string, dir_entry) dict) \<Rightarrow> (folder, 'a) pym" where
  "folder_op f half = (\<lambda>(d, plan). case plan of
      Some n # rest \<Rightarrow> (Inl (OSError n), (half d, rest))
    | _ \<Rightarrow> (case f d of (x, d') \<Rightarrow> (x, (d', tl plan))))"

definition dict_del :: "string \<Rightarrow> (string, dir_entry) dict \<Rightarrow> (string, dir_entry) dict" where
  "dict_del p d = filter (\<lambda>(q, _). q \<noteq> p) d"

definition folder_io :: "folder state_io" where
  "folder_io =
     \<lparr>st_exists = (\<lambda>p k. dict_get (fst k) p \<noteq> None),
      st_read = (\<lambda>p. folder_op (\<lambda>d. (case dict_get d p of Some (RegFile x) \<Rightarrow> Inr x | _ \<Rightarrow> Inl (OSError ENOENT), d)) id),
      st_mkdir = (\<lambda>p. folder_op (\<lambda>d. (Inr (), d)) id),
      st_mkstemp = (\<lambda>p. folder_op (\<lambda>d. let tmp = ''.'' @ p in
        if dict_get d tmp = None then (Inr tmp, dict_set tmp (RegFile []) d) else (Inl (OSError EEXIST), d)) id),
      st_write = (\<lambda>p x. folder_op (\<lambda>d. (Inr (), dict_set p (RegFile x) d)) (dict_set p (RegFile (take (length x div 2) x)))),
      st_chmod = (\<lambda>p n. folder_op (\<lambda>d. (Inr (), d)) id),
      st_replace = (\<lambda>p q. folder_op (\<lambda>d. case dict_get d p of
          None \<Rightarrow> (Inl (OSError ENOENT), d) | Some e \<Rightarrow> (Inr (), dict_del p (dict_set q e d))) id),
      st_unlink = (\<lambda>p. folder_op (\<lambda>d. if dict_get d p = None then (Inl (OSError ENOENT), d) else (Inr (), dict_del p d)) id),
      st_symlink = (\<lambda>x p. folder_op (\<lambda>d. if dict_get d p = None then (Inr (), dict_set p (SymLink x) d) else (Inl (OSError EEXIST), d)) id)\<rparr>"

lemma map_of_dict_del: "map_of (dict_del p d) = (map_of d)(p := None)"
  by (induction d) (auto simp: dict_del_def)

interpretation folder: state_files folder_io "\<lambda>k. map_of (fst k)"
  by unfold_locales
    (auto simp: folder_io_def folder_op_def Let_def map_of_dict_set map_of_dict_del
      split: option.splits list.splits prod.splits if_splits dir_entry.splits)

end
