(* ===== verification/InstallProps.thy ===== *)
theory InstallProps
  imports InstallStore
begin

text \<open>The properties of the interface selection and of the records of the installer.\<close>

section \<open>Which interfaces are chosen\<close>

lemma js_get_Inr: "js_get v key d = Inr w \<longleftrightarrow> (\<exists>e. v = JsObj e \<and> w = dict_get_or e key d)"
  by (cases v) (auto simp: js_get_def)

lemma dict_update_mem: "dict_get (dict_update d e) k = Some v \<Longrightarrow> dict_get d k = Some v \<or> (k, v) \<in> set e"
proof (induction e arbitrary: d)
  case (Cons x e)
  obtain a b where "x = (a, b)" by (cases x)
  with Cons.prems Cons.IH [of "dict_set a b d"] show ?case
    by (auto simp: map_of_dict_set split: if_splits)
qed simp

text \<open>Every row is a link under its own name.\<close>

lemma link_rows_spec:
  assumes "link_rows rep links = Inr rows"
  shows "dict_ok rows \<and> (\<forall>name link. dict_get rows name = Some link \<longrightarrow>
    link \<in> set links \<and> (\<exists>n. js_get link ''ifname'' JsNull = Inr n \<and> js_truthy n \<and> js_str rep n = name))"
proof -
  from assms obtain named where named: "rmap (\<lambda>link. rbind (js_get link ''ifname'' JsNull) (\<lambda>n. Inr (n, link))) links = Inr named"
    and rows: "rows = dict_update [] (map (\<lambda>(n, link). (js_str rep n, link)) (filter (\<lambda>(n, link). js_truthy n) named))"
    by (auto simp: link_rows_def rbind_Inr_conv)
  have elem: "link \<in> set links \<and> js_get link ''ifname'' JsNull = Inr n" if "(n, link) \<in> set named" for n link
    using named that by (fastforce simp: rmap_Inr_iff list_all2_conv_all_nth in_set_conv_nth rbind_Inr_conv)
  have "link \<in> set links \<and> (\<exists>n. js_get link ''ifname'' JsNull = Inr n \<and> js_truthy n \<and> js_str rep n = name)"
    if get: "dict_get rows name = Some link" for name link
  proof -
    have "(name, link) \<in> set (map (\<lambda>(n, link). (js_str rep n, link)) (filter (\<lambda>(n, link). js_truthy n) named))"
      using dict_update_mem [of "[]", OF get [unfolded rows]] by simp
    with elem show ?thesis by auto
  qed
  moreover have "dict_ok rows" unfolding rows by simp
  ultimately show ?thesis by blast
qed

text \<open>An interface that is up, and why one is left out.\<close>

definition link_is_up :: "(json \<Rightarrow> string) \<Rightarrow> json \<Rightarrow> bool" where
  "link_is_up rep link \<longleftrightarrow> (\<exists>flags operstate. link_flags rep link = Inr flags \<and> js_get link ''operstate'' (JsStr []) = Inr operstate \<and>
     (''UP'' \<in> set flags \<or> map char_upper (js_str rep operstate) \<in> {''UP'', ''UNKNOWN''}))"

lemma loopback_excluded:
  assumes "js_get link ''ifname'' JsNull = Inr n" "js_str rep n = ''lo''" "exclusion_reason rep link = Inr reason"
  shows "reason = Some ''loopback''"
proof -
  from assms(1) obtain e where link: "link = JsObj e" and n: "n = dict_get_or e ''ifname'' JsNull" by (auto simp: js_get_Inr)
  have "dict_get_or e ''ifname'' (JsStr []) = n"
    using n assms(2) by (cases "map_of e ''ifname''") (auto simp: dict_get_or_def)
  then show ?thesis using assms(2,3) by (auto simp: exclusion_reason_def link js_get_def rbind_Inr_conv Let_def)
qed

lemma auto_choice_spec:
  assumes "auto_choice rep excludes (name, link) = Inr (m, why)"
  shows "m = name \<and> (case why of
      None \<Rightarrow> name \<notin> set excludes \<and> exclusion_reason rep link = Inr None \<and> link_is_up rep link
    | Some w \<Rightarrow> name \<in> set excludes \<or> exclusion_reason rep link = Inr (Some w) \<or>
        exclusion_reason rep link = Inr None \<and> \<not> link_is_up rep link)"
  using assms by (auto simp: auto_choice_def rbind_Inr_conv link_is_up_def split: if_splits option.splits)

lemma exclusion_reason_given: "exclusion_reason rep link = Inr reason \<Longrightarrow> reason \<noteq> Some []"
  by (auto simp: exclusion_reason_def rbind_Inr_conv Let_def simp del: Cons_eq_append_conv split: if_splits)

lemma explicit_choice_spec:
  assumes "explicit_choice rep rows allow excludes name = Inr m"
  shows "m = name \<and> name \<notin> set excludes \<and> (\<exists>link reason. dict_get rows name = Some link \<and>
    exclusion_reason rep link = Inr reason \<and> reason \<noteq> Some ''loopback'' \<and> (reason = None \<or> allow))"
proof -
  have out: "name \<notin> set excludes" using assms by (auto simp: explicit_choice_def)
  obtain link where link: "dict_get rows name = Some link"
    using assms out by (cases "map_of rows name") (simp_all add: explicit_choice_def)
  obtain reason where reason: "exclusion_reason rep link = Inr reason"
    using assms out link by (cases "exclusion_reason rep link") (simp_all add: explicit_choice_def)
  have "reason \<noteq> Some ''loopback''" using assms out link reason by (auto simp: explicit_choice_def)
  moreover from this have "reason = None \<or> allow"
    using assms out link reason exclusion_reason_given [OF reason]
    by (simp add: explicit_choice_def split: if_split_asm)
  moreover from this calculation have "m = name"
    using assms out link reason by (simp add: explicit_choice_def split: if_split_asm)
  ultimately show ?thesis using out link reason by blast
qed

lemma rmap_same: "rmap f xs = Inr ys \<Longrightarrow> (\<And>x y. f x = Inr y \<Longrightarrow> y = x) \<Longrightarrow> ys = xs \<and> (\<forall>x \<in> set ys. f x = Inr x)"
  by (induction xs arbitrary: ys) (fastforce simp: rbind_Inr_conv)+

lemma rmap_keys: "rmap f xs = Inr ys \<Longrightarrow> (\<And>x y. f x = Inr y \<Longrightarrow> fst y = fst x) \<Longrightarrow> map fst ys = map fst xs"
  by (induction xs arbitrary: ys) (auto simp: rbind_Inr_conv)

lemma rmap_image: "rmap f xs = Inr ys \<Longrightarrow> x \<in> set xs \<Longrightarrow> \<exists>y \<in> set ys. f x = Inr y"
  by (induction xs arbitrary: ys) (auto simp: rbind_Inr_conv)

lemma sort_key_set: "set (sort_key f xs) = set xs"
  by simp

lemma explicit_selection:
  assumes run: "select_interfaces rep links explicit allow excludes = Inr (selected, excluded)"
    and rows: "link_rows rep links = Inr rows" and given: "requested_names explicit \<noteq> []"
  shows "selected = requested_names explicit \<and> distinct selected \<and>
    (\<forall>name \<in> set selected. name \<in> dict_keys rows - (set excludes - {[]}) \<and> name \<noteq> ''lo'' \<and> (\<forall>link. dict_get rows name = Some link \<longrightarrow>
      (\<exists>reason. exclusion_reason rep link = Inr reason \<and> reason \<noteq> Some ''loopback'' \<and> (reason = None \<or> allow))))"
proof -
  note rows_ok = link_rows_spec [OF rows]
  have set_ex: "set (filter (\<lambda>x. x \<noteq> []) excludes) = set excludes - {[]}" by auto
  have lo: "reason = Some ''loopback''" if "dict_get rows ''lo'' = Some link" "exclusion_reason rep link = Inr reason" for link reason
    using rows_ok that loopback_excluded by blast
  have sel: "rmap (explicit_choice rep rows allow (filter (\<lambda>x. x \<noteq> []) excludes)) (requested_names explicit) = Inr selected"
    using run rows given by (auto simp: select_interfaces_def Let_def rbind_Inr_conv)
  have one: "m = name \<and> name \<notin> set excludes - {[]} \<and> (\<exists>link reason. dict_get rows name = Some link \<and> exclusion_reason rep link = Inr reason \<and>
      reason \<noteq> Some ''loopback'' \<and> (reason = None \<or> allow))"
    if "explicit_choice rep rows allow (filter (\<lambda>x. x \<noteq> []) excludes) name = Inr m" for name m
    using explicit_choice_spec [OF that] unfolding set_ex .
  have eq: "selected = requested_names explicit"
    and each: "name \<in> set selected \<Longrightarrow> explicit_choice rep rows allow (filter (\<lambda>x. x \<noteq> []) excludes) name = Inr name" for name
    using rmap_same [OF sel] one by blast+
  have "distinct (requested_names explicit)"
    using dict_ok_update [of "[]"] unfolding requested_names_def dict_ok_def by simp
  moreover have "name \<in> dict_keys rows - (set excludes - {[]}) \<and> name \<noteq> ''lo'' \<and> (\<forall>link. dict_get rows name = Some link \<longrightarrow>
     (\<exists>reason. exclusion_reason rep link = Inr reason \<and> reason \<noteq> Some ''loopback'' \<and> (reason = None \<or> allow)))"
    if "name \<in> set selected" for name
  proof -
    note one [OF each [OF that]]
    then obtain link reason where *: "dict_get rows name = Some link" "exclusion_reason rep link = Inr reason" "reason \<noteq> Some ''loopback''"
      "reason = None \<or> allow" "name \<notin> set excludes - {[]}" by blast
    then have "name \<noteq> ''lo''" using lo by blast
    with * show ?thesis by (auto simp: dict_keys_dom dom_def)
  qed
  ultimately show ?thesis using eq by simp
qed

lemma auto_selection:
  assumes run: "select_interfaces rep links explicit allow excludes = Inr (selected, excluded)"
    and rows: "link_rows rep links = Inr rows" and given: "requested_names explicit = []"
  shows "sorted selected \<and> distinct selected \<and> fst ` set excluded = dict_keys rows - set selected \<and>
    (\<forall>name \<in> set selected. name \<in> dict_keys rows \<and> name \<noteq> ''lo'') \<and>
    (\<forall>name link. dict_get rows name = Some link \<longrightarrow>
       (name \<in> set selected \<longleftrightarrow> name \<notin> set excludes - {[]} \<and> exclusion_reason rep link = Inr None \<and> link_is_up rep link))"
proof -
  note rows_ok = link_rows_spec [OF rows]
  have set_ex: "set (filter (\<lambda>x. x \<noteq> []) excludes) = set excludes - {[]}" by auto
  have lo: "reason = Some ''loopback''" if "dict_get rows ''lo'' = Some link" "exclusion_reason rep link = Inr reason" for link reason
    using rows_ok that loopback_excluded by blast
  obtain choices where ch: "rmap (auto_choice rep (filter (\<lambda>x. x \<noteq> []) excludes)) rows = Inr choices"
    and sel: "selected = sort (map fst (filter (\<lambda>(name, why). why = None) choices))"
    and exc: "excluded = sort_key fst (map (\<lambda>(name, why). (name, the why)) (filter (\<lambda>(name, why). why \<noteq> None) choices))"
    using run rows given by (auto simp: select_interfaces_def Let_def rbind_Inr_conv)
  have names: "map fst choices = map fst rows"
    by (rule rmap_keys [OF ch]) (metis auto_choice_spec prod.collapse)
  then have dist: "distinct (map fst choices)" using rows_ok by (simp add: dict_ok_def)
  have choice: "\<exists>why. (name, why) \<in> set choices \<and> auto_choice rep (filter (\<lambda>x. x \<noteq> []) excludes) (name, link) = Inr (name, why)"
    if "dict_get rows name = Some link" for name link
  proof -
    have "(name, link) \<in> set rows" using that by (rule map_of_SomeD)
    then obtain c where "c \<in> set choices" "auto_choice rep (filter (\<lambda>x. x \<noteq> []) excludes) (name, link) = Inr c"
      using rmap_image [OF ch] by blast
    with auto_choice_spec [of rep _ name link "fst c" "snd c"] show ?thesis by (cases c) auto
  qed
  have uniq: "why = why'" if "(name, why) \<in> set choices" "(name, why') \<in> set choices" for name why why'
    using dist that eq_key_imp_eq_value by fastforce
  have in_sel: "name \<in> set selected \<longleftrightarrow> (name, None) \<in> set choices" for name by (force simp: sel)
  have iff: "name \<in> set selected \<longleftrightarrow> name \<notin> set excludes - {[]} \<and> exclusion_reason rep link = Inr None \<and> link_is_up rep link"
    if get: "dict_get rows name = Some link" for name link
  proof -
    obtain why where why: "(name, why) \<in> set choices" "auto_choice rep (filter (\<lambda>x. x \<noteq> []) excludes) (name, link) = Inr (name, why)"
      using choice [OF get] by blast
    have "(name, None) \<in> set choices \<longleftrightarrow> why = None" using why(1) uniq by blast
    with auto_choice_spec [OF why(2)] show ?thesis unfolding in_sel set_ex by (cases why) auto
  qed
  have sub: "name \<in> dict_keys rows" if "name \<in> set selected" for name
  proof -
    have "(name, None) \<in> set choices" using that by (simp add: in_sel)
    then have "name \<in> set (map fst choices)" by (force simp: in_set_conv_decomp)
    then show ?thesis by (simp only: names dict_keys_def set_map list.set_map)
  qed
  have ok: "name \<noteq> ''lo'' \<and> name \<notin> set excludes - {[]} \<and> (\<forall>link. dict_get rows name = Some link \<longrightarrow> exclusion_reason rep link = Inr None)"
    if "name \<in> set selected" for name
  proof -
    note sub [OF that]
    then obtain link where "dict_get rows name = Some link" by (auto simp: dict_keys_dom)
    then show ?thesis using iff that lo by fastforce
  qed
  have "fst ` set excluded = fst ` set (filter (\<lambda>(name, why). why \<noteq> None) choices)" by (force simp: exc)
  also have "\<dots> = set (map fst choices) - set selected"
  proof (intro set_eqI iffI)
    fix name assume "name \<in> fst ` set (filter (\<lambda>(name, why). why \<noteq> None) choices)"
    then obtain why where why: "(name, why) \<in> set choices" "why \<noteq> None" by auto
    then have "name \<in> set (map fst choices)" by force
    moreover have "(name, None) \<notin> set choices" using why uniq by blast
    ultimately show "name \<in> set (map fst choices) - set selected" by (simp add: in_sel)
  next
    fix name assume "name \<in> set (map fst choices) - set selected"
    then obtain why where why: "(name, why) \<in> set choices" "(name, None) \<notin> set choices" by (auto simp: in_sel)
    then have "why \<noteq> None" by (cases why) auto
    with why(1) show "name \<in> fst ` set (filter (\<lambda>(name, why). why \<noteq> None) choices)" by force
  qed
  finally have "fst ` set excluded = dict_keys rows - set selected" by (simp add: names dict_keys_def)
  moreover have "distinct selected" using dist by (simp add: sel distinct_map_filter)
  moreover have "sorted selected" by (simp add: sel)
  ultimately show ?thesis using iff sub ok by blast
qed

text \<open>
  C37 (\<open>install_state.py\<close>, \<open>select_interfaces\<close>): no interface is chosen twice, none that does not exist, none that the
  configuration excludes, and never the loopback. Interfaces that are asked for are chosen in the order asked for, and
  a container or virtual one only if that is allowed. Without a request the choice is sorted and consists of exactly the interfaces
  that are up and that nothing speaks against; every other one is reported as left out.
\<close>

theorem interface_selection_spec:
  assumes run: "select_interfaces rep links explicit allow excludes = Inr (selected, excluded)"
    and rows: "link_rows rep links = Inr rows"
  shows "distinct selected \<and> ''lo'' \<notin> set selected \<and> set selected \<subseteq> dict_keys rows - (set excludes - {[]}) \<and>
    (\<forall>name \<in> set selected. \<forall>link. dict_get rows name = Some link \<longrightarrow>
       (\<exists>reason. exclusion_reason rep link = Inr reason \<and> reason \<noteq> Some ''loopback'' \<and>
         (reason = None \<or> allow \<and> requested_names explicit \<noteq> []))) \<and>
    (if requested_names explicit \<noteq> [] then selected = requested_names explicit
     else sorted selected \<and>
       (\<forall>name link. dict_get rows name = Some link \<longrightarrow>
         (name \<in> set selected \<longleftrightarrow> name \<notin> set excludes - {[]} \<and> exclusion_reason rep link = Inr None \<and> link_is_up rep link)) \<and>
       fst ` set excluded = dict_keys rows - set selected)"
proof (cases "requested_names explicit = []")
  case False
  from explicit_selection [OF run rows False] False show ?thesis by auto
next
  case True
  note found = auto_selection [OF run rows True]
  have each: "name \<notin> set excludes - {[]} \<and> exclusion_reason rep link = Inr None"
    if "name \<in> set selected" "dict_get rows name = Some link" for name link
    using found that by blast
  have "set selected \<subseteq> dict_keys rows - (set excludes - {[]})"
  proof
    fix name assume chosen: "name \<in> set selected"
    then have "name \<in> dict_keys rows" using found by blast
    then obtain link where "dict_get rows name = Some link" by (auto simp: dict_keys_dom)
    with each [OF chosen] \<open>name \<in> dict_keys rows\<close> show "name \<in> dict_keys rows - (set excludes - {[]})" by blast
  qed
  moreover have "\<forall>name \<in> set selected. \<forall>link. dict_get rows name = Some link \<longrightarrow>
      (\<exists>reason. exclusion_reason rep link = Inr reason \<and> reason \<noteq> Some ''loopback'' \<and>
        (reason = None \<or> allow \<and> requested_names explicit \<noteq> []))"
    using each by blast
  ultimately show ?thesis using found True by auto
qed

text \<open>Two interfaces and the loopback; \<open>e\<close> is up, \<open>d\<close> is not.\<close>

definition example_links :: "json list" where
  "example_links =
     [JsObj [(''ifname'', JsStr ''lo''), (''operstate'', JsStr ''UNKNOWN'')],
      JsObj [(''ifname'', JsStr ''e''), (''flags'', JsArr [JsStr ''up''])],
      JsObj [(''ifname'', JsStr ''d''), (''operstate'', JsStr ''DOWN'')]]"

theorem interface_selection_spec_witness:
  "\<exists>rows. link_rows (\<lambda>_. []) example_links = Inr rows \<and> dict_keys rows = {''lo'', ''e'', ''d''} \<and>
     select_interfaces (\<lambda>_. []) example_links [] False [] = Inr ([''e''], [(''d'', ''interface down''), (''lo'', ''loopback'')]) \<and>
     ''d'' \<notin> set [''e''] \<and> distinct [''e'']"
proof -
  let ?rows = "[(''lo'', example_links ! 0), (''e'', example_links ! 1), (''d'', example_links ! 2)]"
  have rows: "link_rows (\<lambda>_. []) example_links = Inr ?rows" by code_simp
  have run: "select_interfaces (\<lambda>_. []) example_links [] False [] = Inr ([''e''], [(''d'', ''interface down''), (''lo'', ''loopback'')])"
    by code_simp
  from interface_selection_spec [OF run rows] have "distinct [''e'']" by blast
  with rows run show ?thesis by (intro exI [of _ ?rows]) (auto simp: dict_keys_def)
qed

section \<open>A command that stops half way\<close>

text \<open>
  C38 (\<open>install_state.py\<close>, \<open>main\<close> with \<open>atomic_write_json\<close> and \<open>atomic_symlink\<close>): wherever a command of the installer stops,
  also with an exception that nobody catches, no record is torn and none is lost. Every path that named something names what it did
  before, or it is one the command writes and is a complete record (for \<open>link\<close>: the link to the new release). If the command reports
  success, every path it writes is complete.
\<close>

theorem records_never_torn:
  assumes "state_files (in_files E) ent" and "install_main E cmd k = (r, k')"
  shows "(\<forall>q x. ent k q = Some x \<longrightarrow>
            ent k' q = Some x \<or> q \<in> install_paths cmd \<and> (\<exists>e. complete_entry (in_dumps E) cmd e \<and> ent k' q = Some e)) \<and>
    (\<forall>out. r = Inr (0, out) \<longrightarrow> (\<forall>q \<in> install_paths cmd. \<exists>e. complete_entry (in_dumps E) cmd e \<and> ent k' q = Some e))"
proof (intro conjI allI impI ballI)
  fix q x assume "ent k q = Some x"
  then show "ent k' q = Some x \<or> q \<in> install_paths cmd \<and> (\<exists>e. complete_entry (in_dumps E) cmd e \<and> ent k' q = Some e)"
    using state_files.install_main_run(1) [OF assms(1) refl assms(2)]
    unfolding state_files.whole_def [OF assms(1)] installed_def by blast
next
  fix out q assume "r = Inr (0, out)" "q \<in> install_paths cmd"
  then show "\<exists>e. complete_entry (in_dumps E) cmd e \<and> ent k' q = Some e"
    by (rule state_files.install_main_run(2) [OF assms(1) refl assms(2)])
qed

text \<open>The disk is full when the new record is half written.\<close>

definition folder_env :: "folder install_env" where
  "folder_env = \<lparr>in_files = folder_io, in_rep = (\<lambda>_. []), in_loads = (\<lambda>_. None), in_dumps = (\<lambda>_. ''abcde''),
     in_dump_line = (\<lambda>_. []), in_now = ''now''\<rparr>"

lemma folder_load:
  "load_json (\<lambda>_. None) folder_io ''t'' ([(''t'', RegFile ''old'')], None # rest) = (Inr [], ([(''t'', RegFile ''old'')], rest))"
  by (simp add: load_json_def mtry_def folder_io_def folder_op_def mbind_def ret_apply gets_def)

lemma folder_mkstemp:
  "st_mkstemp folder_io ''t'' ([(''t'', e)], None # rest) = (Inr ''.t'', ([(''t'', e), (''.t'', RegFile [])], rest))"
  by (simp add: folder_io_def folder_op_def Let_def dict_set_def)

lemma folder_discard:
  "discard folder_io ''.t'' ([(''t'', e), (''.t'', x)], []) = (Inr (), ([(''t'', e)], []))"
  by (simp add: discard_def mtry_def folder_io_def folder_op_def dict_del_def)

lemma folder_write_fails:
  "st_write folder_io ''.t'' x ([(''t'', e), (''.t'', y)], [Some n]) = (Inl (OSError n), ([(''t'', e), (''.t'', RegFile (take (length x div 2) x))], []))"
  by (simp add: folder_io_def folder_op_def dict_set_def)

lemma folder_mkdir:
  "st_mkdir folder_io p (f, None # rest) = (Inr (), (f, rest))" by (simp add: folder_io_def folder_op_def)

lemma folder_record_fails:
  "atomic_write_json dumps folder_io ''t'' v 384 ([(''t'', e)], [None, None, Some n]) = (Inl (OSError n), ([(''t'', e)], []))"
  by (simp add: atomic_write_json_def mseq_def mbind_def folder_mkdir folder_mkstemp folder_write_fails try_finally_def folder_discard)

theorem records_never_torn_witness:
  "\<exists>k'. install_main folder_env (Transition ''t'' [(''status'', Some ''ok'')]) ([(''t'', RegFile ''old'')], [None, None, None, Some 28]) =
       (Inr (1, []), k') \<and> map_of (fst k') ''t'' = Some (RegFile ''old'')"
proof -
  let ?k = "([(''t'', RegFile ''old'')], [None, None, None, Some 28]) :: folder"
  have run: "install_main folder_env (Transition ''t'' [(''status'', Some ''ok'')]) ?k = (Inr (1, []), ([(''t'', RegFile ''old'')], []))"
    by (simp add: install_main_def mtry_def cmd_transition_def folder_env_def mbind_def mseq_def folder_load folder_record_fails ret_apply Let_def)
  have "state_files (in_files folder_env) (\<lambda>k. map_of (fst k))"
    using folder.state_files_axioms by (simp add: folder_env_def)
  from records_never_torn [OF this run] run show ?thesis by auto
qed

end
