(* ===== verification/FlowGc.thy ===== *)
theory FlowGc
  imports BpfMapProps
begin

text \<open>
  The scans of the flow tables, which the XDP program changes while the daemon reads them. So nothing is assumed of the kernel
  here: a kernel that records its calls and their answers is put around an arbitrary one, and the properties say which
  calls the daemon makes of it and what it does with the answers.
\<close>

section \<open>A kernel that records its calls\<close>

datatype call =
    NextKeyCall int "bytes option" "int + bytes"
  | LookupCall int bytes "int + bytes"
  | DeleteCall int bytes "int + unit"
  | ClockCall int
  | OtherCall

definition heard :: "('r \<Rightarrow> call) \<Rightarrow> ('k \<Rightarrow> 'r \<times> 'k) \<Rightarrow> 'k \<times> call list \<Rightarrow> 'r \<times> ('k \<times> call list)" where
  "heard c f s = (case f (fst s) of (r, k') \<Rightarrow> (r, (k', snd s @ [c r])))"

definition spy :: "'k kernel \<Rightarrow> ('k \<times> call list) kernel" where
  "spy K =
     \<lparr>sys_update = \<lambda>fd key v flags. heard (\<lambda>_. OtherCall) (sys_update K fd key v flags),
      sys_lookup = \<lambda>fd key flags. heard (LookupCall fd key) (sys_lookup K fd key flags),
      sys_delete = \<lambda>fd key. heard (DeleteCall fd key) (sys_delete K fd key),
      sys_next_key = \<lambda>fd cur. heard (NextKeyCall fd cur) (sys_next_key K fd cur),
      sys_lookup_batch = \<lambda>fd n. heard (\<lambda>_. OtherCall) (sys_lookup_batch K fd n),
      sys_obj_get = \<lambda>p. heard (\<lambda>_. OtherCall) (sys_obj_get K p),
      sys_info = \<lambda>fd. heard (\<lambda>_. OtherCall) (sys_info K fd),
      sys_map_create = \<lambda>attr name. heard (\<lambda>_. OtherCall) (sys_map_create K attr name),
      sys_fd_by_id = \<lambda>attr. heard (\<lambda>_. OtherCall) (sys_fd_by_id K attr),
      sys_close = \<lambda>fd s. (sys_close K fd (fst s), snd s @ [OtherCall]),
      sys_monotonic_ns = heard ClockCall (sys_monotonic_ns K),
      sys_exists = \<lambda>p s. sys_exists K p (fst s)\<rparr>"

lemma spy_sels [simp]:
  "sys_lookup (spy K) fd key flags = heard (LookupCall fd key) (sys_lookup K fd key flags)"
  "sys_delete (spy K) fd key = heard (DeleteCall fd key) (sys_delete K fd key)"
  "sys_next_key (spy K) fd cur = heard (NextKeyCall fd cur) (sys_next_key K fd cur)"
  "sys_monotonic_ns (spy K) = heard ClockCall (sys_monotonic_ns K)"
  by (simp_all add: spy_def)

text \<open>The calls of a scan that was answered with the given keys, and where it stands then.\<close>

fun scanned :: "int \<Rightarrow> bytes option \<Rightarrow> bytes list \<Rightarrow> call list" where
  "scanned fd cur [] = []"
| "scanned fd cur (key # keys) = NextKeyCall fd cur (Inr key) # scanned fd (Some key) keys"

definition reached :: "bytes option \<Rightarrow> bytes list \<Rightarrow> bytes option" where
  "reached cur keys = (if keys = [] then cur else Some (last keys))"

lemma reached_simps [simp]: "reached cur [] = cur" "reached cur (key # keys) = reached (Some key) keys"
  by (simp_all add: reached_def)

text \<open>How a scan ends: with the answer \<open>n\<close>, or because the bound on the number of keys is reached.\<close>

definition scan_end :: "nat \<Rightarrow> int \<Rightarrow> bytes option \<Rightarrow> bytes list \<Rightarrow> unit res \<Rightarrow> call list \<Rightarrow> bool" where
  "scan_end fuel fd cur keys r last_calls \<longleftrightarrow>
     (\<exists>n. last_calls = [NextKeyCall fd (reached cur keys) (Inl n)] \<and> r = (if n = ENOENT then Inr () else Inl (OSError n))) \<or>
     last_calls = [] \<and> r = Inl OutOfFuel \<and> length keys = fuel"

lemma seq_set_obj: "mseq (set_obj g) n (x, s) = n (g x, s)"
  by (simp add: mseq_def mbind_def set_obj_def)

lemma scan_heard:
  assumes "scan_keys fuel (spy K) fd cur (\<lambda>key. set_obj (f key)) (x, (k, calls)) = (r, (y, (k', calls')))"
  shows "\<exists>keys fin. calls' = calls @ scanned fd cur keys @ fin \<and> y = fold f keys x \<and> scan_end fuel fd cur keys r fin"
  using assms
proof (induction fuel arbitrary: cur x k calls)
  case 0
  then show ?case by (intro exI [of _ "[]"]) (simp add: scan_end_def raise_apply)
next
  case (Suc fuel)
  obtain q k1 where next_key: "sys_next_key K fd cur k = (q, k1)" by (cases "sys_next_key K fd cur k")
  show ?case
  proof (cases q)
    case (Inl n)
    with Suc.prems next_key show ?thesis
      by (intro exI [of _ "[]"] exI [of _ "[NextKeyCall fd cur (Inl n)]"])
        (auto simp: scan_end_def mbind_def mtry_def kern_def bpf_def heard_def ret_apply raise_apply split: if_splits)
  next
    case (Inr key)
    with Suc.prems next_key
    have "scan_keys fuel (spy K) fd (Some key) (\<lambda>key. set_obj (f key)) (f key x, (k1, calls @ [NextKeyCall fd cur (Inr key)])) =
        (r, (y, (k', calls')))"
      by (simp add: mbind_def mtry_def kern_def bpf_def heard_def ret_apply seq_set_obj)
    from Suc.IH [OF this] obtain keys fin where
      "calls' = calls @ scanned fd cur (key # keys) @ fin" "y = fold f (key # keys) x" "scan_end fuel fd (Some key) keys r fin"
      by auto
    then show ?thesis
      by (intro exI [of _ "key # keys"] exI [of _ fin]) (auto simp: scan_end_def)
  qed
qed

section \<open>The cache\<close>

text \<open>
  C15 (\<open>bpf/maps.py\<close>, \<open>BpfConntrackMap.refresh_cache\<close>): for any kernel, whatever the data plane does to the table meanwhile,
  the scan asks for one key after the other, each time for the one after the last answer, and makes no other call; it stops at the
  first error, whichever it is, and the cache is then exactly the set of the keys the kernel has named. It does not
  return only if it was named as many keys as the bound allows.
\<close>

theorem refresh_cache_is_scan:
  assumes "conntrack_refresh_cache fuel (spy K) (m, (k, [])) = (r, (m', (k', calls)))"
  shows "\<exists>keys. ct_cache m' = set keys \<and> ct_fd m' = ct_fd m \<and>
    (r = Inr () \<and> (\<exists>n. calls = scanned (ct_fd m) None keys @ [NextKeyCall (ct_fd m) (reached None keys) (Inl n)]) \<or>
     r = Inl OutOfFuel \<and> calls = scanned (ct_fd m) None keys \<and> length keys = fuel)"
proof -
  let ?fd = "ct_fd m" and ?body = "\<lambda>key. set_obj (ct_cache_update (insert key))"
  obtain q m1 k1 calls1 where
    scan: "scan_keys fuel (spy K) ?fd None ?body (m\<lparr>ct_cache := {}\<rparr>, (k, [])) = (q, (m1, (k1, calls1)))"
    by (metis surj_pair)
  from scan_heard [OF this] obtain keys fin where keys: "calls1 = scanned ?fd None keys @ fin"
    "m1 = fold (\<lambda>key. ct_cache_update (insert key)) keys (m\<lparr>ct_cache := {}\<rparr>)" "scan_end fuel ?fd None keys q fin" by auto
  have folded: "ct_cache (fold (\<lambda>key. ct_cache_update (insert key)) ks b) = set ks \<union> ct_cache b"
    "ct_fd (fold (\<lambda>key. ct_cache_update (insert key)) ks b) = ct_fd b" for ks and b :: BpfConntrackMap
    by (induction ks arbitrary: b) auto
  have run: "mtry (scan_keys fuel (spy K) ?fd None ?body) (on_oserror (\<lambda>_. ret ())) (m\<lparr>ct_cache := {}\<rparr>, (k, [])) = (r, (m', (k', calls)))"
    using assms by (simp add: conntrack_refresh_cache_def conntrack_load_cache_def mseq_def mbind_def set_obj_def obj_def)
  from keys(3) show ?thesis
    unfolding scan_end_def
  proof (elim disjE exE conjE)
    fix n assume "fin = [NextKeyCall ?fd (reached None keys) (Inl n)]" "q = (if n = ENOENT then Inr () else Inl (OSError n))"
    with run scan keys(1,2) show ?thesis
      by (intro exI [of _ keys]) (auto simp: mtry_def ret_apply folded split: if_splits)
  next
    assume "fin = []" "q = Inl OutOfFuel" "length keys = fuel"
    with run scan keys(1,2) show ?thesis
      by (intro exI [of _ keys]) (auto simp: mtry_def folded)
  qed
qed

theorem refresh_cache_is_scan_witness:
  "\<exists>m' k' calls n keys. conntrack_refresh_cache 3 (spy store_kernel) (ex_ct 5 12, (ex_kernel [], [])) = (Inr (), (m', (k', calls))) \<and>
     ct_cache m' = set keys \<and> calls = scanned 5 None keys @ [NextKeyCall 5 (reached None keys) (Inl n)]"
proof -
  let ?run = "conntrack_refresh_cache 3 (spy store_kernel) (ex_ct 5 12, (ex_kernel [], []))"
  obtain r m' k' calls where run: "?run = (r, (m', (k', calls)))" by (metis surj_pair)
  have "fst ?run = Inr ()" by code_simp
  with refresh_cache_is_scan [OF run] run show ?thesis by simp blast
qed

section \<open>Garbage collection\<close>

text \<open>
  When a flow has outlived its timeout: its value is the time it was last seen, with bit 63 set for a flow whose
  handshake is not complete, to which the shorter timeout applies if there is one.
\<close>

definition outlived :: "int \<Rightarrow> int \<Rightarrow> int option \<Rightarrow> bytes \<Rightarrow> bool" where
  "outlived now timeout syn_timeout val \<longleftrightarrow>
     (\<exists>seen_at half_open. 0 \<le> seen_at \<and> seen_at < 2 ^ 63 \<and>
        int_of_le (take 8 val) = seen_at + (if half_open then 2 ^ 63 else 0) \<and>
        (case syn_timeout of
           Some t \<Rightarrow> (if half_open then t else timeout) < now - seen_at
         | None \<Rightarrow> timeout < now - seen_at))"

lemma high_bit_unique:
  fixes s u n :: int
  assumes "0 \<le> s" "s < n" "0 \<le> u" "u < n" "s + (if h then n else 0) = u + (if g then n else 0)"
  shows "s = u \<and> (h \<longleftrightarrow> g)"
  using assms by (cases h; cases g) auto

lemma ct_expired_outlived: "ct_expired now t st (int_of_le (take 8 val)) \<longleftrightarrow> outlived now t st val"
proof -
  let ?raw = "int_of_le (take 8 val)"
  have "(256 :: int) ^ length (take 8 val) \<le> 256 ^ 8" by (rule power_increasing) simp_all
  moreover have "0 \<le> ?raw" "?raw < 256 ^ length (take 8 val)" using int_of_le_range [of "take 8 val"] by blast+
  moreover have "(256 :: int) ^ 8 = 2 ^ 64" by simp
  ultimately have raw: "0 \<le> ?raw" "?raw < 2 ^ 64" by linarith+
  define seen_at where "seen_at = ?raw mod 2 ^ 63"
  define half_open where "half_open \<longleftrightarrow> 2 ^ 63 \<le> ?raw"
  have split: "0 \<le> seen_at" "seen_at < 2 ^ 63" "?raw = seen_at + (if half_open then 2 ^ 63 else 0)"
  proof -
    have "?raw mod 2 ^ 63 = (if half_open then ?raw - 2 ^ 63 else ?raw)"
      using raw minus_mod_self2 [of ?raw "2 ^ 63"] mod_pos_pos_trivial [of "?raw - 2 ^ 63" "2 ^ 63"]
        mod_pos_pos_trivial [of ?raw "2 ^ 63"] by (auto simp: half_open_def)
    then show "?raw = seen_at + (if half_open then 2 ^ 63 else 0)" by (simp add: seen_at_def)
  qed (simp_all add: seen_at_def)
  have unique: "s = seen_at \<and> (h \<longleftrightarrow> half_open)"
    if "0 \<le> s" "s < 2 ^ 63" "?raw = s + (if h then 2 ^ 63 else 0)" for s h
    using high_bit_unique [OF that(1,2) split(1,2)] that(3) split(3) by metis
  have now: "ct_expired now t st ?raw \<longleftrightarrow>
      (case st of Some t' \<Rightarrow> (if half_open then t' else t) < now - seen_at | None \<Rightarrow> t < now - seen_at)"
  proof -
    have "?raw mod 2 ^ 64 = ?raw" using raw by (rule mod_pos_pos_trivial)
    then show ?thesis by (cases st) (simp_all add: ct_expired_def Let_def half_open_def seen_at_def)
  qed
  show ?thesis
  proof
    assume "ct_expired now t st ?raw"
    then show "outlived now t st val" unfolding now outlived_def using split by blast
  next
    assume "outlived now t st val"
    then obtain s h where s: "0 \<le> s" "s < 2 ^ 63" "?raw = s + (if h then 2 ^ 63 else 0)"
      and old: "case st of Some t' \<Rightarrow> (if h then t' else t) < now - s | None \<Rightarrow> t < now - s"
      unfolding outlived_def by blast
    from unique [OF s] old show "ct_expired now t st ?raw" unfolding now by (cases st) simp_all
  qed
qed

text \<open>The flows whose lookup showed an expired value, and the deletions that left the flow gone.\<close>

definition found_expired :: "int \<Rightarrow> int \<Rightarrow> int option \<Rightarrow> (bytes \<times> (int + bytes)) list \<Rightarrow> bytes list" where
  "found_expired now t st looked =
     map fst (filter (\<lambda>(key, answer). case answer of Inr val \<Rightarrow> outlived now t st val | Inl n \<Rightarrow> False) looked)"

definition was_deleted :: "bytes \<times> (int + unit) \<Rightarrow> bool" where
  "was_deleted d \<longleftrightarrow> snd d \<in> {Inr (), Inl ENOENT}"

lemma expired_heard:
  "\<exists>looked k'. expired_keys (spy K) fd now t st keys acc (k, calls) =
     (Inr (acc @ found_expired now t st looked), (k', calls @ map (\<lambda>(key, answer). LookupCall fd key answer) looked)) \<and>
     map fst looked = keys"
proof (induction keys arbitrary: acc k calls)
  case Nil
  then show ?case by (simp add: found_expired_def ret_apply)
next
  case (Cons key keys)
  obtain q k1 where look: "sys_lookup K fd key 0 k = (q, k1)" by (cases "sys_lookup K fd key 0 k")
  let ?acc = "acc @ found_expired now t st [(key, q)]"
  from Cons.IH [of ?acc k1 "calls @ [LookupCall fd key q]"] obtain looked k' where
    "expired_keys (spy K) fd now t st keys ?acc (k1, calls @ [LookupCall fd key q]) =
       (Inr (?acc @ found_expired now t st looked),
        (k', calls @ map (\<lambda>(key, answer). LookupCall fd key answer) ((key, q) # looked)))"
    and keys: "map fst looked = keys" by auto
  moreover have "?acc @ found_expired now t st looked = acc @ found_expired now t st ((key, q) # looked)"
    by (simp add: found_expired_def)
  ultimately show ?case
    using look by (intro exI [of _ "(key, q) # looked"] exI [of _ k'])
      (cases q; auto simp: mbind_def mtry_def bpf_def heard_def ret_apply ct_expired_outlived found_expired_def)
qed

lemma delete_heard:
  "\<exists>deleted m' k'. delete_each (spy K) keys False n (m, (k, calls)) =
     (Inr (n + length (filter was_deleted deleted)),
      (m', (k', calls @ map (\<lambda>(key, answer). DeleteCall (ct_fd m) key answer) deleted))) \<and>
     map fst deleted = keys \<and> ct_fd m' = ct_fd m \<and> ct_cache m' = ct_cache m - fst ` set (filter was_deleted deleted)"
proof (induction keys arbitrary: n m k calls)
  case Nil
  then show ?case by (simp add: ret_apply)
next
  case (Cons key keys)
  obtain q k1 where del: "sys_delete K (ct_fd m) key k = (q, k1)" by (cases "sys_delete K (ct_fd m) key k")
  let ?ok = "was_deleted (key, q)"
  let ?m = "if ?ok then ct_cache_update (\<lambda>c. c - {key}) m else m"
  have step: "conntrack_delete (spy K) key False (m, (k, calls)) = (Inr ?ok, (?m, (k1, calls @ [DeleteCall (ct_fd m) key q])))"
    using del
    by (cases q) (auto simp: conntrack_delete_def guarded_delete_def was_deleted_def mbind_def mseq_def mtry_def obj_def kern_def bpf_def
        heard_def set_obj_def ret_apply)
  from Cons.IH [of "if ?ok then Suc n else n" ?m k1 "calls @ [DeleteCall (ct_fd m) key q]"]
  obtain deleted m' k' where rest: "delete_each (spy K) keys False (if ?ok then Suc n else n)
      (?m, (k1, calls @ [DeleteCall (ct_fd m) key q])) =
     (Inr ((if ?ok then Suc n else n) + length (filter was_deleted deleted)),
      (m', (k', calls @ map (\<lambda>(key, answer). DeleteCall (ct_fd m) key answer) ((key, q) # deleted))))"
    "map fst deleted = keys" "ct_fd m' = ct_fd m" "ct_cache m' = ct_cache ?m - fst ` set (filter was_deleted deleted)"
    by (auto split: if_splits)
  from step rest show ?case
    by (intro exI [of _ "(key, q) # deleted"] exI [of _ m'] exI [of _ k']) (auto simp: mbind_def)
qed

text \<open>
  C14 (\<open>bpf/maps.py\<close>, \<open>BpfConntrackMap.gc_expired\<close>): for any kernel, whatever the data plane does to the table meanwhile. The
  collection reads the clock and enumerates the keys; if the enumeration ends in an error, so does the collection, and
  nothing was deleted. Otherwise it looks every named key up, in this order and once each time it was named, and asks
  for the deletion of exactly those keys whose value, as it was looked up, is older at the time of the clock than the
  timeout for it: the one for half-open flows if bit 63 is set and there is one, else the general one. A flow whose
  lookup fails is left alone. The number returned is that of the deletions after which the flow is gone, and exactly
  those flows leave the cache.
\<close>

theorem gc_deletes_exactly_expired:
  assumes "conntrack_gc_expired fuel (spy K) t st (m, (k, [])) = (r, (m', (k', calls)))"
  shows "\<exists>now keys fin. let scan = ClockCall now # scanned (ct_fd m) None keys @ fin in
    case r of
      Inl e \<Rightarrow> calls = scan \<and> m' = m \<and> scan_end fuel (ct_fd m) None keys (Inl e) fin
    | Inr n \<Rightarrow> scan_end fuel (ct_fd m) None keys (Inr ()) fin \<and>
        (\<exists>looked deleted.
           calls = scan @ map (\<lambda>(key, answer). LookupCall (ct_fd m) key answer) looked @
             map (\<lambda>(key, answer). DeleteCall (ct_fd m) key answer) deleted \<and>
           map fst looked = keys \<and> map fst deleted = found_expired now t st looked \<and>
           n = length (filter was_deleted deleted) \<and>
           ct_cache m' = ct_cache m - fst ` set (filter was_deleted deleted))"
proof -
  let ?fd = "ct_fd m"
  obtain now k1 where clock: "sys_monotonic_ns K k = (now, k1)" by (cases "sys_monotonic_ns K k")
  obtain q keys k2 calls2 where
    scan: "scan_keys fuel (spy K) ?fd None (\<lambda>key. set_obj (\<lambda>ks. ks @ [key])) ([], (k1, [ClockCall now])) = (q, (keys, (k2, calls2)))"
    by (metis surj_pair)
  from scan_heard [OF this] obtain ks fin where ks: "calls2 = ClockCall now # scanned ?fd None ks @ fin"
    "keys = fold (\<lambda>key ks. ks @ [key]) ks []" "scan_end fuel ?fd None ks q fin" by auto
  have "fold (\<lambda>key ks. ks @ [key]) ks acc = acc @ ks" for acc by (induction ks arbitrary: acc) simp_all
  with ks(2) have "keys = ks" by simp
  have collect: "collect_keys fuel (spy K) ?fd (k1, [ClockCall now]) = (map_sum id (\<lambda>_. ks) q, (k2, calls2))"
    using scan \<open>keys = ks\<close> by (cases q) (simp_all add: collect_keys_def)
  have start: "conntrack_gc_expired fuel (spy K) t st (m, (k, [])) =
      mbind (kern (collect_keys fuel (spy K) ?fd)) (\<lambda>all_keys.
      mbind (kern (expired_keys (spy K) ?fd now t st all_keys [])) (\<lambda>to_delete.
      delete_each (spy K) to_delete False 0)) (m, (k1, [ClockCall now]))"
    using clock by (simp add: conntrack_gc_expired_def obj_def mbind_def kern_def monotonic_ns_def heard_def)
  show ?thesis
  proof (cases q)
    case (Inl e)
    then have "r = Inl e" "m' = m" "calls = calls2"
      using assms start collect by (simp_all add: mbind_def kern_def)
    with ks Inl show ?thesis by (intro exI [of _ now] exI [of _ ks] exI [of _ fin]) simp
  next
    case (Inr u)
    obtain looked k3 where looked: "expired_keys (spy K) ?fd now t st ks [] (k2, calls2) =
        (Inr (found_expired now t st looked), (k3, calls2 @ map (\<lambda>(key, answer). LookupCall ?fd key answer) looked))"
      "map fst looked = ks" using expired_heard [of K ?fd now t st ks "[]" k2 calls2] by auto
    obtain deleted m4 k4 where deleted: "delete_each (spy K) (found_expired now t st looked) False 0
        (m, (k3, calls2 @ map (\<lambda>(key, answer). LookupCall ?fd key answer) looked)) =
       (Inr (length (filter was_deleted deleted)),
        (m4, (k4, (calls2 @ map (\<lambda>(key, answer). LookupCall ?fd key answer) looked) @ map (\<lambda>(key, answer). DeleteCall ?fd key answer) deleted)))"
      "map fst deleted = found_expired now t st looked" "ct_cache m4 = ct_cache m - fst ` set (filter was_deleted deleted)"
      using delete_heard [of K "found_expired now t st looked" 0 m k3
          "calls2 @ map (\<lambda>(key, answer). LookupCall ?fd key answer) looked"] by auto
    have run: "r = Inr (length (filter was_deleted deleted))" "m' = m4"
      "calls = (calls2 @ map (\<lambda>(key, answer). LookupCall ?fd key answer) looked) @ map (\<lambda>(key, answer). DeleteCall ?fd key answer) deleted"
      using assms start collect looked(1) deleted(1) Inr by (simp_all add: mbind_def kern_def)
    have "scan_end fuel ?fd None ks (Inr ()) fin" using ks(3) Inr by simp
    with run ks(1) looked(2) deleted(2,3) show ?thesis
      by (intro exI [of _ now] exI [of _ ks] exI [of _ fin]) (simp add: Let_def, blast)
  qed
qed

theorem gc_deletes_exactly_expired_witness:
  "\<exists>m' k' calls key answer. conntrack_gc_expired 3 (spy store_kernel) 60 None (ex_ct 5 12, (ex_kernel [], [])) =
     (Inr 1, (m', (k', calls))) \<and> DeleteCall 5 key answer \<in> set calls"
proof -
  let ?run = "conntrack_gc_expired 3 (spy store_kernel) 60 None (ex_ct 5 12, (ex_kernel [], []))"
  obtain r m' k' calls where run: "?run = (r, (m', (k', calls)))" by (metis surj_pair)
  have "fst ?run = Inr 1" by code_simp
  with run have r: "r = Inr 1" by simp
  from gc_deletes_exactly_expired [OF run] obtain now keys fin looked deleted where
    "calls = (ClockCall now # scanned (ct_fd (ex_ct 5 12)) None keys @ fin) @
       map (\<lambda>(key, answer). LookupCall (ct_fd (ex_ct 5 12)) key answer) looked @
       map (\<lambda>(key, answer). DeleteCall (ct_fd (ex_ct 5 12)) key answer) deleted"
    "1 = length (filter was_deleted deleted)" unfolding r Let_def sum.case by blast
  then show ?thesis using run r by (cases deleted) auto
qed

end
