(* ===== verification/Spec2Isabelle.thy ===== *)
theory Spec2Isabelle
  imports AbuseProps RelayProps DiscoverySpec NftRoundtrip XdpConverge HandlerSafety StatsProps AdminFile
    HandlerCmdProps InstallProps FlowGc
begin

text \<open>
  \<^bold>\<open>Auto XDP: a verification library.\<close>

  Auto XDP is a host firewall that follows the sockets of the machine. A daemon observes
  which sockets listen (\<open>discovery.py\<close>), adds what the configuration says (\<open>config.py\<close>,
  \<open>policy.py\<close>), and makes the firewall agree with it: through BPF maps that an XDP program reads
  (\<open>backends/xdp.py\<close> over \<open>bpf/maps.py\<close>) or, as a fallback, through one \<open>nft\<close> script
  (\<open>backends/nftables.py\<close>). The loop in \<open>syncer.py\<close> decides when; a relay process
  (\<open>pkt_relay.py\<close>) tells it about sockets that begin to listen, and a thread (\<open>abuseipdb.py\<close>) keeps a block
  list up to date. Paths are under \<open>src/auto_xdp/\<close>, but for the relay, which is \<open>src/pkt_relay.py\<close>.

  \<^bold>\<open>Theories and code.\<close>
  \<^item> \<open>Prelude\<close>, \<open>PyMonad\<close>, \<open>PyValue\<close>, \<open>PyStruct\<close>, \<open>Ipaddr\<close>, \<open>CidrCollapse\<close>: the parts of Python the
    program uses. Exceptions are values of a sum (\<open>py_exn\<close>), statements are state transformers
    that return or raise and keep their effects either way (\<open>pym\<close>), dictionaries are
    association lists in insertion order, floats are rationals rounded to 53 bits, bytes
    are 8-bit words, and \<open>ipaddress\<close> is modelled down to its parser, its printer and
    \<open>collapse_addresses\<close>.
  \<^item> \<open>ReconcileState\<close>: \<open>state.py\<close>, the observed, desired and applied state and the plan. A plan is a delta
    per field; the contract of a delta is a locale with one interpretation for sets
    and one for dictionaries.
  \<^item> \<open>Config\<close>, \<open>Services\<close>, \<open>Policy\<close>: \<open>config.py\<close> as a record of its globals with the reload and its
    rollback, \<open>services.py\<close>, and \<open>policy.py\<close> with all resolvers.
  \<^item> \<open>BpfKernel\<close>, \<open>BpfPortMaps\<close>, \<open>BpfAddrMaps\<close>: \<open>bpf/syscall.py\<close> and the map classes of \<open>bpf/maps.py\<close>, each a
    record with its file descriptor and cache. The kernel is a record of system calls; what
    is relied on is the locale \<open>bpf_kernel\<close>, with a store that satisfies it. \<open>BpfFrames\<close>
    says what each method leaves alone, \<open>BpfMapProps\<close> has the properties of the classes on maps that only the daemon
    writes. The XDP program writes the flow tables too, so \<open>FlowGc\<close> assumes nothing of the kernel: it records
    the calls and answers of an arbitrary one, and says what the scans of a flow table make of them.
  \<^item> \<open>XdpBackend\<close>: \<open>backends/base.py\<close> and \<open>backends/xdp.py\<close>. \<open>XdpSafety\<close> shows what a reconcile never does,
    \<open>XdpConverge\<close> what it achieves, and over a series of reconciles which flows are dropped; \<open>KernelErrors\<close> which exceptions the
    methods can raise.
  \<^item> \<open>Nftables\<close>: \<open>backends/nftables.py\<close>, the rendered script character by character, the
    signature, the transaction and the reading of sets. \<open>NftablesProps\<close> and \<open>NftRoundtrip\<close> have its
    properties. The command \<open>nft\<close> is a parameter.
  \<^item> \<open>Discovery\<close>, \<open>ProcEvents\<close>: \<open>discovery.py\<close> (the Linux path) and \<open>proc_events.py\<close>, from the bytes of
    netlink messages on. \<open>DiscoverySpec\<close> has the properties.
  \<^item> \<open>Syncer\<close>: \<open>syncer.py\<close>, with every part of the \<open>watch\<close> loop and its handlers; \<open>json.loads\<close> is a parameter that gives a
    value of \<open>Json\<close>, and the check of the message is modelled. \<open>WatchLoop\<close> and \<open>RelayLines\<close> have its properties.
  \<^item> \<open>AbuseIpdb\<close>: \<open>abuseipdb.py\<close>, the replacement of the block list with its roll back, the thread, and its
    start and stop in \<open>backends/xdp.py\<close>; the download is a parameter. \<open>AbuseProps\<close> has its properties, and
    the locale \<open>logged_kernel\<close> with two kernels that record what they are asked.
  \<^item> \<open>RingBuf\<close>, \<open>PktRelay\<close>: the ring-buffer reader, the decoders and the server of \<open>pkt_relay.py\<close>, with
    \<open>sock_state.py\<close>. Its two threads are sequences of steps in any order. \<open>RelayProps\<close> has the properties, and the
    composition of the relay with the daemon.
  \<^item> \<open>Json\<close>: the values \<open>json.loads\<close> returns and the numbers command line tools print.
  \<^item> \<open>HandlerSwap\<close>: the part of \<open>admin_cli.py\<close> that switches a slot or a port handler to a new BPF program and rolls
    back; \<open>bpftool\<close> and the file system are a record of operations, with the locale \<open>handler_kernel\<close> of what is
    relied on. \<open>HandlerProps\<close> has its Hoare triples, \<open>HandlerSafety\<close> a store that satisfies the locale and the properties.
  \<^item> \<open>Stats\<close>, \<open>StatsProps\<close>: the counters of \<open>axdp stats\<close> in \<open>admin_cli.py\<close> and their totals over reloads.
  \<^item> \<open>PyText\<close>, \<open>TomlText\<close>: lines and JSON strings, and the configuration file as text, the writer of \<open>admin_cli.py\<close> and
    its own parser. \<open>TomlRound\<close> relates the two.
  \<^item> \<open>AdminConfig\<close>: the commands of \<open>admin_cli.py\<close> that show or edit the configuration file, each an edit of the
    document between a load and a write. \<open>AdminReload\<close> shows what the next reload of the daemon makes of an
    edit; \<open>AdminFile\<close> has the locale \<open>config_store\<close> of what is relied on of reading, making a directory, opening and writing a
    temporary file and renaming it, and what a failure leaves behind.
  \<^item> \<open>HandlerCmds\<close>: the commands of \<open>admin_cli.py\<close> that compile, load, list and unload handlers, around the switch of
    \<open>HandlerSwap\<close> and the edits of \<open>AdminConfig\<close>, with the flow tables they flush. \<open>FlushProps\<close> has the
    properties of the flushes; \<open>HandlerHost\<close> the locale \<open>handler_host\<close> of what is relied on of files, \<open>bpftool\<close>, kernel and
    configuration together, and how a load ends; \<open>HostStore\<close> a host that satisfies it; \<open>HandlerCmdProps\<close> the properties of the
    commands.
  \<^item> \<open>InstallState\<close>: \<open>install_state.py\<close>, the selection of interfaces and the records of the installer, written over
    operations on files. \<open>InstallStore\<close> has the locale \<open>state_files\<close> of what is relied on of these, with a
    directory that satisfies it, and \<open>InstallProps\<close> the properties.
  \<^item> \<open>PyHoare\<close>: a Hoare logic for \<open>pym\<close> with a postcondition for returns and one for raises. \<open>PySteps\<close>: relations between
    the state before a statement and the state after it.
  This theory puts discovery, policy and backend together.

  \<^bold>\<open>What is shown.\<close> Safety: a port becomes reachable only if its protection was set up without
    a failure, only if it is desired, and, end to end, only if a socket or the configuration
    justifies it; a dry run changes nothing. Convergence: a reconcile without failures makes the
    kernel agree with the desired state; the plan is empty exactly when nothing differs;
    an \<open>nft\<close> transaction is all or nothing, also across reloads. Reload: atomic and determined by the document. Caches:
    they agree with the kernel after every operation, and verification repairs them. Wire
    formats: socket dumps, runtime settings and rendered sets are read back as
    written, as are the plain documents the administrator's tool writes; the relay's lines do not depend on
    how they are cut. The administrator: an edit of the file reaches the daemon and changes nothing else, and a command that
    fails leaves the file alone; loading a handler installs and records it, or keeps the old one loaded or at least pinned. The installer: it never chooses the
    loopback or an excluded interface, and its records are never torn. The daemon: its
    invariant, and the only ways an exception can end it. Some theorems show what the code does where that
    differs from what it means to do: a NaN timeout, a lone connection limit, the truncation of an
    ACL, an uncounted failure, a UDP port hidden by its first socket, a kernel without SCTP
    diagnostics, ICMP settings that are not part of the signature, keys the administrator's tool writes but does not
    read, the entry that unloading a handler of a port above 255 deletes, and two errors that end the daemon: one of the check of the
    maps, and a line of the relay that is JSON but no object.

  \<^bold>\<open>Bounds and fuel.\<close> Loops that scan a kernel map take fuel; one more than the number of entries is
    enough for a map that does not change, and running out is the value \<open>OutOfFuel\<close>, which no
    handler catches. Loops that read a socket until it is empty take fuel in the same way.
    Netlink parsing and all other loops are total functions with a measure. \<open>watch\<close> is run for a
    number of turns, and its properties hold for every number.

  \<^bold>\<open>Not modelled.\<close> Logging; failures of printing; the HTTP client; the \<open>psutil\<close> path of discovery
    for systems other than Linux; the relay's perf attachment and its start; the terminal
    interface; the administrator's commands that show ports, flows or the report of the runtime, and \<open>config init\<close>, which
    copies a template; the command lines of the daemon and the installer; the C programs in the kernel. Text is
    ASCII: characters above 127 are not treated as blanks or digits. Signals arrive between the statements that ask for them.
\<close>

section \<open>One synchronisation, from the sockets to the kernel\<close>

lemma observed_udp_counts:
  assumes "get_listening_ports_netlink h c = Inr st" "p \<in> ob_udp st"
  shows "\<exists>s \<in> set (sockets h IPPROTO_UDP SS_ALL). counts h c s \<and> dg_sport (snd s) = p"
proof (rule observed_parts [OF assms(1)])
  fix agg
  assume agg: "rfold (\<lambda>(family, d). udp_socket family d) (sockets h IPPROTO_UDP SS_ALL) [] = Inr agg"
    and udp: "ob_udp st = fst ` {e \<in> set agg. udp_counts h c (fst e) (snd e)}"
  note sum = udp_sockets_summary [OF agg]
  from assms(2) udp obtain info where e: "(p, info) \<in> set agg" "udp_counts h c p info" by auto
  let ?g = "udp_group (sockets h IPPROTO_UDP SS_ALL) p"
  have "dict_get agg p = Some info" using e(1) sum(1) by (simp add: dict_ok_def)
  then have g: "?g \<noteq> []" "info = summary ?g" unfolding sum(2) by (auto split: if_splits)
  then have "hd ?g \<in> set ?g" by simp
  then have "hd ?g \<in> set (sockets h IPPROTO_UDP SS_ALL)" "dg_sport (snd (hd ?g)) = p"
    unfolding udp_group_def by auto
  moreover have "counts h c (hd ?g)"
    using e(2) g \<open>dg_sport (snd (hd ?g)) = p\<close> by (simp add: udp_counts_def summary_def counts_def exposed_def)
  ultimately show ?thesis by blast
qed

lemma observed_tcp_counts:
  assumes "get_listening_ports_netlink h c = Inr st" "p \<in> ob_tcp st"
  shows "\<exists>s \<in> set (sockets h IPPROTO_TCP SS_LISTEN). counts h c s \<and> dg_sport (snd s) = p"
  by (rule observed_parts [OF assms(1)]) (use assms(2) in auto)

text \<open>The ports a configuration and the sockets of a host justify.\<close>

definition justified :: "host \<Rightarrow> Config \<Rightarrow> int \<Rightarrow> int \<Rightarrow> (int, string) dict \<Rightarrow> int set" where
  "justified h c proto states permanent =
     {p. \<exists>s \<in> set (sockets h proto states). counts h c s \<and> dg_sport (snd s) = p} \<union> dict_keys permanent"

lemma finite_justified: "finite (justified h c proto states permanent)"
proof -
  have "{p. \<exists>s \<in> set (sockets h proto states). counts h c s \<and> dg_sport (snd s) = p} \<subseteq>
    (\<lambda>s. dg_sport (snd s)) ` set (sockets h proto states)" by auto
  then show ?thesis unfolding justified_def by (simp add: finite_subset)
qed

text \<open>
  C3 (\<open>syncer.py\<close>, \<open>sync_once\<close>, with discovery, policy and the XDP backend): a synchronisation opens only
  what is justified. A TCP or UDP port that becomes reachable in the kernel has a socket bound to
  an exposed address that the configuration does not exclude, or is a permanent port of the
  configuration, whatever the kernel answers and also if the synchronisation raises. If
  the sockets cannot be read, nothing is changed at all.
\<close>

theorem sync_opens_only_justified:
  assumes "bpf_kernel (wd_kernel W) entries owned" and "fds_ok owned b"
    and "sync_once W c dry (Xdp b, k) = (r, (Xdp b', k'))"
  shows "newly_open entries (am_fd (xb_tcp_map b)) k k' \<subseteq>
      justified (wd_host W k) c IPPROTO_TCP SS_LISTEN (TCP_PERMANENT c) \<and>
    newly_open entries (am_fd (xb_udp_map b)) k k' \<subseteq>
      justified (wd_host W k) c IPPROTO_UDP SS_ALL (UDP_PERMANENT c) \<and>
    (\<forall>e. get_listening_ports_netlink (wd_host W k) c = Inl e \<longrightarrow> r = Inl e \<and> b' = b \<and> k' = k)"
proof -
  let ?h = "wd_host W k" and ?res = "resolve_desired_state (ord_int (wd_orders W)) (wd_services W) c"
  have run: "mbind (mlift (get_listening_ports_netlink ?h c)) (\<lambda>observed. mbind (mlift (?res observed)) (\<lambda>desired.
      backend_reconcile W c desired dry)) (Xdp b, k) = (r, (Xdp b', k'))"
    using assms(3) by (simp add: sync_once_def)
  consider (failed) e where "get_listening_ports_netlink ?h c = Inl e"
    | (unresolved) ob e where "get_listening_ports_netlink ?h c = Inr ob" "?res ob = Inl e"
    | (desired) ob d where "get_listening_ports_netlink ?h c = Inr ob" "?res ob = Inr d"
    by (metis sum.exhaust_sel)
  then show ?thesis
  proof cases
    case desired
    have ports: "ds_tcp_ports d = ob_tcp ob \<union> dict_keys (TCP_PERMANENT c)"
      "ds_udp_ports d = ob_udp ob \<union> dict_keys (UDP_PERMANENT c)"
      using desired(2) by (auto simp: resolve_desired_state_def Let_def rbind_Inr_conv)
    have sub: "ds_tcp_ports d \<subseteq> justified ?h c IPPROTO_TCP SS_LISTEN (TCP_PERMANENT c)"
      "ds_udp_ports d \<subseteq> justified ?h c IPPROTO_UDP SS_ALL (UDP_PERMANENT c)"
      unfolding ports justified_def
      using observed_tcp_counts [OF desired(1)] observed_udp_counts [OF desired(1)] by auto
    have "reconcile (wd_kernel W) c (wd_orders W) d dry (b, k) = (r, (b', k'))"
      using run desired by (auto simp: backend_reconcile_def dispatch_def split: prod.splits)
    from reconcile_newly_open [OF assms(1,2) _ _ this] sub finite_subset [OF sub(1) finite_justified]
      finite_subset [OF sub(2) finite_justified] desired(1) show ?thesis by auto
  qed (use run in \<open>auto simp: newly_open_def\<close>)
qed

text \<open>A host without sockets, and a configuration with the permanent TCP port 0.\<close>

definition ex_sync_world :: "kstate world" where
  "ex_sync_world = ex_world\<lparr>wd_host := (\<lambda>_. \<lparr>host_dump = (\<lambda>_. [Inr done_msg]), host_procs = [], host_comm = (\<lambda>_. None),
     host_lines = (\<lambda>_. []), host_sockets = None, host_mapped = False\<rparr>)\<rparr>"

lemma sync_once_stays_xdp: "\<exists>r b' k'. sync_once W c dry (Xdp b, k) = (r, (Xdp b', k'))"
proof -
  have "\<exists>r b' k'. backend_reconcile W c d dry (Xdp b, k) = (r, (Xdp b', k'))" for d
    by (auto simp: backend_reconcile_def dispatch_def split: prod.splits)
  then show ?thesis
    by (cases "get_listening_ports_netlink (wd_host W k) c";
        cases "resolve_desired_state (ord_int (wd_orders W)) (wd_services W) c (projr (get_listening_ports_netlink (wd_host W k) c))")
      (auto simp: sync_once_def raise_exn_def)
qed

theorem sync_opens_only_justified_witness:
  "\<exists>r b' k'. sync_once ex_sync_world (ex_config\<lparr>TCP_PERMANENT := [(0, [])]\<rparr>) False (Xdp ex_backend, ex_kernel []) =
     (r, (Xdp b', k')) \<and> newly_open kentries 1 (ex_kernel []) k' \<subseteq> {0} \<and> newly_open kentries 2 (ex_kernel []) k' = {}"
proof -
  let ?c = "ex_config\<lparr>TCP_PERMANENT := [(0, [])]\<rparr>" and ?h = "wd_host ex_sync_world (ex_kernel [])"
  obtain r b' k' where run: "sync_once ex_sync_world ?c False (Xdp ex_backend, ex_kernel []) = (r, (Xdp b', k'))"
    using sync_once_stays_xdp [of ex_sync_world ?c False ex_backend "ex_kernel []"] by (elim exE)
  have k: "bpf_kernel (wd_kernel ex_sync_world) kentries {0..<1000}"
    using store.bpf_kernel_axioms by (simp add: ex_sync_world_def ex_world_def)
  have fd: "am_fd (xb_tcp_map ex_backend) = 1" "am_fd (xb_udp_map ex_backend) = 2" by code_simp+
  have "sockets ?h IPPROTO_TCP SS_LISTEN = []" "sockets ?h IPPROTO_UDP SS_ALL = []" "UDP_PERMANENT ?c = []" by code_simp+
  then have "justified ?h ?c IPPROTO_TCP SS_LISTEN (TCP_PERMANENT ?c) = {0}"
    "justified ?h ?c IPPROTO_UDP SS_ALL (UDP_PERMANENT ?c) = {}" by (auto simp: justified_def dict_keys_def)
  with sync_opens_only_justified [OF k ex_fds_ok run] run fd show ?thesis by auto
qed

end
